(* ===== verification/Prelude.thy ===== *)
theory Prelude
  imports Main "HOL-Library.List_Lexorder" "HOL-Library.Multiset"
begin

text \<open>
  Shared ground of the development: JavaScript strings and values, the failures the ledger
  can raise, the state-and-error monad in which the service is written, the parameters
  that stand for code outside the repository, and generic lemmas on lists and sorting.

  A JavaScript string is the list of its UTF-16 code units (\<open>jsstr\<close>); \<open>js ''abc''\<close> is the
  literal of an ASCII string. A JavaScript value is a \<open>jsval\<close>. A number that holds an integer
  is \<open>JInt\<close>; every other number (fractions, NaN, the infinities) is \<open>JDouble\<close> with a flag for
  \<open>Number.isFinite\<close> and the text \<open>JSON.stringify\<close> prints for it.
\<close>

section \<open>Proof collections\<close>

named_theorems led_simps \<open>inversion rules of the ledger monad: what a successful run did\<close>
named_theorems parsed \<open>what a parser that returned guarantees\<close>
named_theorems view_simps \<open>how the table operations act on the decoded view of the database\<close>

section \<open>JavaScript strings and values\<close>

type_synonym jsstr = "nat list"

definition js :: "string \<Rightarrow> jsstr" where
  "js s = map of_char s"

lemma js_inject [simp]: "js s = js t \<longleftrightarrow> s = t"
  by (simp add: js_def inj_map_eq_map inj_def)

lemma js_Nil [simp]: "js s = [] \<longleftrightarrow> s = []" "[] = js s \<longleftrightarrow> s = []"
  by (auto simp: js_def)

datatype jsval =
    JUndefined
  | JNull
  | JBool bool
  | JInt int
  | JDouble bool jsstr
  | JStr jsstr
  | JArr "jsval list"
  | JObj "(jsstr \<times> jsval) list"

type_synonym jsobj = "(jsstr \<times> jsval) list"

text \<open>\<open>Object.prototype.hasOwnProperty\<close> and a property read on a plain object.\<close>

definition hasOwn :: "jsobj \<Rightarrow> string \<Rightarrow> bool" where
  "hasOwn r k = (map_of r (js k) \<noteq> None)"

definition getProp :: "jsobj \<Rightarrow> string \<Rightarrow> jsval" where
  "getProp r k = (case map_of r (js k) of None \<Rightarrow> JUndefined | Some v \<Rightarrow> v)"

definition MAX_SAFE_INTEGER :: int where
  "MAX_SAFE_INTEGER = 9007199254740991"

text \<open>\<open>Number.isSafeInteger\<close> on an integer and on a value.\<close>

definition safeInt :: "int \<Rightarrow> bool" where
  "safeInt i \<longleftrightarrow> - MAX_SAFE_INTEGER \<le> i \<and> i \<le> MAX_SAFE_INTEGER"

fun isSafeInteger :: "jsval \<Rightarrow> bool" where
  "isSafeInteger (JInt i) = safeInt i"
| "isSafeInteger _ = False"

lemma isSafeInteger_iff: "isSafeInteger v \<longleftrightarrow> (\<exists>i. v = JInt i \<and> safeInt i)"
  by (cases v) auto

lemma safeInt_0 [simp]: "safeInt 0"
  by (simp add: safeInt_def MAX_SAFE_INTEGER_def)

lemma safeInt_1 [simp]: "safeInt 1"
  by (simp add: safeInt_def MAX_SAFE_INTEGER_def)

lemma safeInt_uminus [simp]: "safeInt (- i) = safeInt i"
  by (auto simp: safeInt_def)

text \<open>\<open>String.prototype.trim\<close>: the white space and line terminators of the standard.\<close>

definition jsSpace :: "nat \<Rightarrow> bool" where
  "jsSpace c \<longleftrightarrow> (9 \<le> c \<and> c \<le> 13) \<or> c = 32 \<or> c = 160 \<or> c = 5760 \<or> (8192 \<le> c \<and> c \<le> 8202)
     \<or> c = 8232 \<or> c = 8233 \<or> c = 8239 \<or> c = 8287 \<or> c = 12288 \<or> c = 65279"

definition trim :: "jsstr \<Rightarrow> jsstr" where
  "trim s = rev (dropWhile jsSpace (rev (dropWhile jsSpace s)))"

lemma dropWhile_fixed: "xs = [] \<or> \<not> P (hd xs) \<Longrightarrow> dropWhile P xs = xs"
  by (cases xs) auto

lemma trim_trim [simp]: "trim (trim s) = trim s"
proof -
  let ?a = "dropWhile jsSpace s" and ?P = jsSpace
  let ?b = "rev (dropWhile ?P (rev ?a))"
  have "?b = [] \<or> \<not> ?P (hd ?b)"
  proof (cases "?b = []")
    case False
    then obtain p where p: "rev ?a = p @ rev ?b"
      using takeWhile_dropWhile_id [of ?P "rev ?a"] by (metis rev_rev_ident)
    have "?a = ?b @ rev p"
      using arg_cong [OF p, of rev] by simp
    with False have "hd ?b = hd ?a" and "?a \<noteq> []"
      by (metis hd_append, metis append_is_Nil_conv)
    then show ?thesis using hd_dropWhile [of ?P s] by metis
  qed simp
  then have "dropWhile ?P ?b = ?b" by (rule dropWhile_fixed)
  then show ?thesis by (simp add: trim_def dropWhile_idem)
qed

section \<open>Failures\<close>

text \<open>
  The error codes of \<open>server/ledger/errors.ts\<close>. Messages and details are not modelled; the
  code and the HTTP status of a \<open>LedgerError\<close> are.
\<close>

datatype ledger_code =
    LValidationFailed | LNotFound | LDuplicateCategory | LArchivedAccount | LArchivedCategory
  | LInvalidAccountPair | LCurrencyMismatch | LOpeningDateConflict | LTimezoneLocked
  | LBaseCurrencyLocked | LBalanceConflict | LVersionConflict | LAccountHasHistory
  | LAccountNonzeroBalance | LCategoryHasHistory | LSettingsAlreadyInitialized
  | LTransactionTypeImmutable | LTransactionDeleted | LAdjustmentImmutable | LIdempotencyConflict
  | LInvalidCurrency | LInvalidTimezone | LInvalidOpeningDate | LMoneyUnsafe
  | LMoneyNonPositive | LMoneyNegative | LMoneyOverflow | LInvalidDecimal
  | LFractionalPrecisionExceeded | LAccountNotFound | LCategoryNotFound
  | LTransactionNotFound | LCategoryKindMismatch | LWriteBusy

datatype currency_code =
    InvalidCurrencyCode | UnsupportedCurrency | InvalidDecimal
  | FractionalPrecisionExceeded | CurrencyAmountOverflow | CurrencyMetadataIncompatible

text \<open>
  What a call can throw: a \<open>LedgerError\<close>, a \<open>LedgerCurrencyError\<close>, a \<open>TypeError\<close>, an error of
  SQLite (a violated constraint, an integer overflow in an aggregate, a busy lock), or
  another \<open>Error\<close>.
\<close>

datatype failure =
    LedgerError ledger_code nat
  | LedgerCurrencyError currency_code
  | TypeError
  | SqlConstraint
  | SqlOverflow
  | SqlBusy
  | InternalError

definition ledgerValidationError :: failure where
  "ledgerValidationError = LedgerError LValidationFailed 400"

type_synonym 'a res = "failure + 'a"

text \<open>Sequencing of results, and the \<open>try \<dots> catch\<close> that replaces every failure by another.\<close>

definition bindR :: "'a res \<Rightarrow> ('a \<Rightarrow> 'b res) \<Rightarrow> 'b res" where
  "bindR m k = (case m of Inl e \<Rightarrow> Inl e | Inr a \<Rightarrow> k a)"

definition failUnless :: "bool \<Rightarrow> failure \<Rightarrow> unit res" where
  "failUnless b e = (if b then Inr () else Inl e)"

definition catchR :: "'a res \<Rightarrow> 'a res \<Rightarrow> 'a res" where
  "catchR m h = (case m of Inl e \<Rightarrow> h | Inr a \<Rightarrow> Inr a)"

definition mapRes :: "('a \<Rightarrow> 'b) \<Rightarrow> 'a res \<Rightarrow> 'b res" where
  "mapRes f m = (case m of Inl e \<Rightarrow> Inl e | Inr a \<Rightarrow> Inr (f a))"

lemma mapRes_Inr_iff [led_simps]: "mapRes f m = Inr b \<longleftrightarrow> (\<exists>a. m = Inr a \<and> b = f a)"
  by (cases m) (auto simp: mapRes_def)

lemma bindR_simps [simp]: "bindR (Inl e) k = Inl e" "bindR (Inr a) k = k a"
  by (simp_all add: bindR_def)

lemma bindR_Inr_iff [led_simps]: "bindR m k = Inr b \<longleftrightarrow> (\<exists>a. m = Inr a \<and> k a = Inr b)"
  by (cases m) auto

lemma failUnless_Inr_iff [led_simps]: "failUnless b e = Inr u \<longleftrightarrow> b"
  by (simp add: failUnless_def)

lemma failUnless_simps [simp]: "failUnless True e = Inr ()" "failUnless False e = Inl e"
  by (simp_all add: failUnless_def)

lemma catchR_Inr_iff [led_simps]: "catchR m h = Inr a \<longleftrightarrow> m = Inr a \<or> ((\<exists>e. m = Inl e) \<and> h = Inr a)"
  by (cases m) (auto simp: catchR_def)

text \<open>\<open>Array.prototype.map\<close> with a function that may throw.\<close>

fun mapR :: "('a \<Rightarrow> 'b res) \<Rightarrow> 'a list \<Rightarrow> 'b list res" where
  "mapR f [] = Inr []"
| "mapR f (x # xs) = bindR (f x) (\<lambda>y. bindR (mapR f xs) (\<lambda>ys. Inr (y # ys)))"

definition decoded :: "('a \<Rightarrow> 'b res) \<Rightarrow> 'a \<Rightarrow> 'b" where
  "decoded f x = projr (f x)"

lemma mapR_decoded: "\<forall>x\<in>set xs. \<exists>y. f x = Inr y \<Longrightarrow> mapR f xs = Inr (map (decoded f) xs)"
  by (induction xs) (auto simp: decoded_def)

lemma mapR_Inr_iff: "mapR f xs = Inr ys \<longleftrightarrow> (\<forall>x\<in>set xs. \<exists>y. f x = Inr y) \<and> ys = map (decoded f) xs"
  by (induction xs arbitrary: ys) (auto simp: bindR_Inr_iff decoded_def)

section \<open>The monad of a service call\<close>

text \<open>
  A call takes the state and returns its result or the failure it threw, with the state it
  left. The inversion rules say what a call that returned must have done; \<open>simp add: led_simps\<close>
  therefore unrolls a handler into its guards and its writes.
\<close>

type_synonym ('s, 'a) led = "'s \<Rightarrow> 'a res \<times> 's"

definition ret :: "'a \<Rightarrow> ('s, 'a) led" where
  "ret a = (\<lambda>s. (Inr a, s))"

definition throw :: "failure \<Rightarrow> ('s, 'a) led" where
  "throw e = (\<lambda>s. (Inl e, s))"

definition bnd :: "('s, 'a) led \<Rightarrow> ('a \<Rightarrow> ('s, 'b) led) \<Rightarrow> ('s, 'b) led" where
  "bnd m k = (\<lambda>s. case m s of (Inl e, t) \<Rightarrow> (Inl e, t) | (Inr a, t) \<Rightarrow> k a t)"

definition ask :: "('s \<Rightarrow> 'a res) \<Rightarrow> ('s, 'a) led" where
  "ask f = (\<lambda>s. (f s, s))"

definition liftR :: "'a res \<Rightarrow> ('s, 'a) led" where
  "liftR r = (\<lambda>s. (r, s))"

definition guardE :: "bool \<Rightarrow> failure \<Rightarrow> ('s, unit) led" where
  "guardE b e = (if b then ret () else throw e)"

definition modifyR :: "('s \<Rightarrow> 's res) \<Rightarrow> ('s, unit) led" where
  "modifyR f = (\<lambda>s. case f s of Inl e \<Rightarrow> (Inl e, s) | Inr t \<Rightarrow> (Inr (), t))"

lemma ret_iff [led_simps]: "ret a s = (Inr b, t) \<longleftrightarrow> b = a \<and> t = s"
  by (auto simp: ret_def)

lemma throw_iff [led_simps]: "throw e s = (Inr b, t) \<longleftrightarrow> False"
  by (simp add: throw_def)

lemma bnd_iff [led_simps]:
  "bnd m k s = (Inr b, t) \<longleftrightarrow> (\<exists>a u. m s = (Inr a, u) \<and> k a u = (Inr b, t))"
  by (auto simp: bnd_def split: prod.splits sum.splits)

lemma ask_iff [led_simps]: "ask f s = (Inr b, t) \<longleftrightarrow> f s = Inr b \<and> t = s"
  by (auto simp: ask_def)

lemma liftR_iff [led_simps]: "liftR r s = (Inr b, t) \<longleftrightarrow> r = Inr b \<and> t = s"
  by (auto simp: liftR_def)

lemma guardE_iff [led_simps]: "guardE c e s = (Inr b, t) \<longleftrightarrow> c \<and> t = s"
  by (auto simp: guardE_def ret_def throw_def)

lemma modifyR_iff [led_simps]: "modifyR f s = (Inr b, t) \<longleftrightarrow> f s = Inr t"
  by (auto simp: modifyR_def split: sum.splits)

section \<open>Sorting as SQLite and \<open>Array.prototype.sort\<close> do it\<close>

text \<open>
  \<open>orderBy le\<close> sorts by the comparison \<open>le\<close> (insertion sort, stable). Under a total and
  transitive \<open>le\<close> it returns the sorted permutation; its permutation property needs nothing.
\<close>

fun insertBy :: "('a \<Rightarrow> 'a \<Rightarrow> bool) \<Rightarrow> 'a \<Rightarrow> 'a list \<Rightarrow> 'a list" where
  "insertBy le x [] = [x]"
| "insertBy le x (y # ys) = (if le x y then x # y # ys else y # insertBy le x ys)"

definition orderBy :: "('a \<Rightarrow> 'a \<Rightarrow> bool) \<Rightarrow> 'a list \<Rightarrow> 'a list" where
  "orderBy le xs = foldr (insertBy le) xs []"

lemma mset_insertBy [simp]: "mset (insertBy le x xs) = add_mset x (mset xs)"
  by (induction xs) auto

lemma mset_orderBy [simp]: "mset (orderBy le xs) = mset xs"
  by (induction xs) (auto simp: orderBy_def)

lemma set_orderBy [simp]: "set (orderBy le xs) = set xs"
  using mset_orderBy [of le xs] by (metis set_mset_mset)

lemma length_orderBy [simp]: "length (orderBy le xs) = length xs"
  using mset_orderBy [of le xs] by (metis size_mset)

lemma orderBy_simps [simp]: "orderBy le [] = []" "orderBy le (x # xs) = insertBy le x (orderBy le xs)"
  by (simp_all add: orderBy_def)

lemma map_insertBy: "(\<And>x y. le' (f x) (f y) = le x y) \<Longrightarrow> map f (insertBy le x xs) = insertBy le' (f x) (map f xs)"
  by (induction xs) auto

lemma sorted_insertBy:
  assumes "\<And>x y. le x y \<or> le y x" and "\<And>x y z. le x y \<Longrightarrow> le y z \<Longrightarrow> le x z"
    and "sorted_wrt le xs"
  shows "sorted_wrt le (insertBy le x xs)"
  using assms(3)
proof (induction xs)
  case (Cons y ys)
  have mem: "set (insertBy le x ys) = insert x (set ys)"
    by (metis mset_insertBy set_mset_add_mset_insert set_mset_mset)
  from Cons show ?case using assms(1,2) mem by auto
qed simp

lemma sorted_orderBy:
  assumes "\<And>x y. le x y \<or> le y x" and "\<And>x y z. le x y \<Longrightarrow> le y z \<Longrightarrow> le x z"
  shows "sorted_wrt le (orderBy le xs)"
  by (induction xs) (auto intro!: sorted_insertBy assms(1) intro: assms(2))

section \<open>Lists keyed by an identifier\<close>

lemma find_None_iff2: "find P xs = None \<longleftrightarrow> (\<forall>x\<in>set xs. \<not> P x)"
  by (auto simp: find_None_iff)

lemma find_Some_mem: "find P xs = Some x \<Longrightarrow> x \<in> set xs \<and> P x"
  by (auto simp: find_Some_iff)

lemma find_key_unique:
  "distinct (map f xs) \<Longrightarrow> x \<in> set xs \<Longrightarrow> find (\<lambda>y. f y = f x) xs = Some x"
  by (induction xs) auto

lemma find_map: "find P (map f xs) = map_option f (find (P \<circ> f) xs)"
  by (induction xs) auto

lemma key_inj: "distinct (map f xs) \<Longrightarrow> x \<in> set xs \<Longrightarrow> y \<in> set xs \<Longrightarrow> f x = f y \<Longrightarrow> x = y"
  by (auto simp: distinct_map inj_on_def)

end
