(* ===== verification/Money.thy ===== *)
theory Money
  imports Prelude
begin

text \<open>
  \<open>server/ledger/money.ts\<close>: checked arithmetic on integer minor units. The sum and the
  difference are taken the way the code takes them, on IEEE doubles: \<open>dround\<close> rounds an exact
  integer to the nearest double (ties to even). The lemmas show that the range check on the
  rounded result accepts exactly the exact results that are safe, so no rounded value ever
  passes for an amount.
\<close>

section \<open>Doubles that hold integers\<close>

fun bits :: "nat \<Rightarrow> nat" where
  "bits n = (if n = 0 then 0 else Suc (bits (n div 2)))"

declare bits.simps [simp del]

definition roundSig :: "nat \<Rightarrow> nat" where
  "roundSig n =
     (let e = bits n - 53; q = n div 2 ^ e; r = n mod 2 ^ e; h = 2 ^ (e - 1)
      in (if r > h \<or> (r = h \<and> odd q) then Suc q else q) * 2 ^ e)"

definition dround :: "int \<Rightarrow> int" where
  "dround x = (if \<bar>x\<bar> \<le> 2 ^ 53 then x else sgn x * int (roundSig (nat \<bar>x\<bar>)))"

lemma bits_lower: "0 < n \<Longrightarrow> 2 ^ (bits n - 1) \<le> n"
proof (induction n rule: bits.induct)
  case (1 n)
  show ?case
  proof (cases "n = 1")
    case True
    then show ?thesis by (simp add: bits.simps)
  next
    case False
    with "1.prems" have pos: "0 < n div 2" and n0: "n \<noteq> 0" by auto
    then obtain k where k: "bits (n div 2) = Suc k" by (subst (asm) bits.simps) (metis bits.simps neq0_conv)
    from "1.IH" [OF n0 pos] k have "2 ^ k \<le> n div 2" by simp
    then have "2 ^ Suc k \<le> n" by simp
    moreover have "bits n = Suc (Suc k)" using k n0 by (subst bits.simps) simp
    ultimately show ?thesis by simp
  qed
qed

lemma bits_upper: "n < 2 ^ bits n"
proof (induction n rule: bits.induct)
  case (1 n)
  show ?case
  proof (cases "n = 0")
    case False
    with "1.IH" have "n div 2 < 2 ^ bits (n div 2)" by simp
    then show ?thesis using False by (subst bits.simps) (simp add: div_less_iff_less_mult mult.commute)
  qed (simp add: bits.simps)
qed

lemma roundSig_large:
  assumes "2 ^ 53 < n"
  shows "2 ^ 53 \<le> roundSig n"
proof -
  have "53 < bits n"
  proof (rule ccontr)
    assume "\<not> 53 < bits n"
    then have "(2::nat) ^ bits n \<le> 2 ^ 53" by (intro power_increasing) auto
    with bits_upper [of n] assms show False by linarith
  qed
  define e where "e = bits n - 53"
  have e: "bits n - 1 = 52 + e" "1 \<le> e" using \<open>53 < bits n\<close> by (auto simp: e_def)
  have "2 ^ (52 + e) \<le> n" using bits_lower [of n, unfolded e(1)] assms by simp
  then have "2 ^ 52 \<le> n div 2 ^ e" by (simp add: power_add less_eq_div_iff_mult_less_eq)
  then have "2 ^ 52 * 2 ^ e \<le> (if c then Suc (n div 2 ^ e) else n div 2 ^ e) * 2 ^ e" for c
    by (intro mult_right_mono) auto
  moreover have "(2::nat) ^ 53 \<le> 2 ^ 52 * 2 ^ e"
    unfolding power_add [symmetric] using e(2) by (intro power_increasing) auto
  ultimately show ?thesis
    unfolding roundSig_def Let_def e_def [symmetric] by (meson order_trans)
qed

lemma dround_exact:
  assumes "safeInt x"
  shows "dround x = x"
proof -
  have "\<bar>x\<bar> \<le> 2 ^ 53" using assms by (auto simp: safeInt_def MAX_SAFE_INTEGER_def)
  then show ?thesis by (simp add: dround_def)
qed

lemma safeInt_dround [simp]: "safeInt (dround x) \<longleftrightarrow> safeInt x"
proof (cases "\<bar>x\<bar> \<le> 2 ^ 53")
  case False
  then have "2 ^ 53 < nat \<bar>x\<bar>" by (simp add: nat_less_iff zless_nat_eq_int_zless)
  from roundSig_large [OF this] have "2 ^ 53 \<le> int (roundSig (nat \<bar>x\<bar>))"
    by (metis of_nat_le_iff of_nat_numeral of_nat_power)
  then have "\<not> safeInt (sgn x * int (roundSig (nat \<bar>x\<bar>)))"
    using False by (auto simp: safeInt_def MAX_SAFE_INTEGER_def sgn_if)
  with False show ?thesis by (auto simp: dround_def safeInt_def MAX_SAFE_INTEGER_def)
qed (simp add: dround_def)

section \<open>The checks and the arithmetic of the module\<close>

fun assertSafeInteger :: "jsval \<Rightarrow> int res" where
  "assertSafeInteger (JInt i) = (if safeInt i then Inr i else Inl (LedgerError LMoneyUnsafe 400))"
| "assertSafeInteger _ = Inl (LedgerError LMoneyUnsafe 400)"

definition assertSafeMinor :: "jsval \<Rightarrow> int res" where
  "assertSafeMinor v = assertSafeInteger v"

definition assertPositiveMinor :: "jsval \<Rightarrow> int res" where
  "assertPositiveMinor v = bindR (assertSafeInteger v) (\<lambda>i.
     if i \<le> 0 then Inl (LedgerError LMoneyNonPositive 400) else Inr i)"

definition assertNonNegativeSafeInteger :: "jsval \<Rightarrow> int res" where
  "assertNonNegativeSafeInteger v = bindR (assertSafeInteger v) (\<lambda>i.
     if i < 0 then Inl (LedgerError LMoneyNegative 400) else Inr i)"

definition checkedResult :: "int \<Rightarrow> int res" where
  "checkedResult x = (if safeInt x then Inr x else Inl (LedgerError LMoneyOverflow 400))"

definition checkedAddMinor :: "int \<Rightarrow> int \<Rightarrow> int res" where
  "checkedAddMinor a b = bindR (assertSafeInteger (JInt a)) (\<lambda>_. bindR (assertSafeInteger (JInt b)) (\<lambda>_.
     checkedResult (dround (a + b))))"

definition checkedSubMinor :: "int \<Rightarrow> int \<Rightarrow> int res" where
  "checkedSubMinor a b = bindR (assertSafeInteger (JInt a)) (\<lambda>_. bindR (assertSafeInteger (JInt b)) (\<lambda>_.
     checkedResult (dround (a - b))))"

fun checkedSumFrom :: "int \<Rightarrow> int list \<Rightarrow> int res" where
  "checkedSumFrom tot [] = Inr tot"
| "checkedSumFrom tot (v # vs) = bindR (checkedAddMinor tot v) (\<lambda>t. checkedSumFrom t vs)"

definition checkedSumMinor :: "int list \<Rightarrow> int res" where
  "checkedSumMinor vs = checkedSumFrom 0 vs"

lemma assertSafeInteger_iff [led_simps]: "assertSafeInteger v = Inr i \<longleftrightarrow> v = JInt i \<and> safeInt i"
  by (cases v) auto

lemma assertSafeMinor_iff [led_simps]: "assertSafeMinor v = Inr i \<longleftrightarrow> v = JInt i \<and> safeInt i"
  by (simp add: assertSafeMinor_def led_simps)

lemma assertPositiveMinor_iff [led_simps]:
  "assertPositiveMinor v = Inr i \<longleftrightarrow> v = JInt i \<and> safeInt i \<and> 0 < i"
  by (cases v) (auto simp: assertPositiveMinor_def)

lemma assertNonNegativeSafeInteger_iff [led_simps]:
  "assertNonNegativeSafeInteger v = Inr i \<longleftrightarrow> v = JInt i \<and> safeInt i \<and> 0 \<le> i"
  by (cases v) (auto simp: assertNonNegativeSafeInteger_def)

text \<open>Addition and subtraction are exact where they return, and return where they can.\<close>

lemma checkedAddMinor_iff [led_simps]:
  "checkedAddMinor a b = Inr c \<longleftrightarrow> safeInt a \<and> safeInt b \<and> safeInt (a + b) \<and> c = a + b"
  by (auto simp: checkedAddMinor_def checkedResult_def led_simps dround_exact split: if_splits)

lemma checkedSubMinor_iff [led_simps]:
  "checkedSubMinor a b = Inr c \<longleftrightarrow> safeInt a \<and> safeInt b \<and> safeInt (a - b) \<and> c = a - b"
  by (auto simp: checkedSubMinor_def checkedResult_def led_simps dround_exact split: if_splits)

lemma checkedSubMinor_0: "safeInt x \<Longrightarrow> checkedSubMinor 0 x = Inr (- x)"
  by (simp add: checkedSubMinor_iff)

lemma checkedSumFrom_exact: "checkedSumFrom t vs = Inr s \<Longrightarrow> s = t + sum_list vs"
  by (induction vs arbitrary: t) (auto simp: led_simps, fastforce)

lemma checkedSumMinor_exact: "checkedSumMinor vs = Inr s \<Longrightarrow> s = sum_list vs"
  by (auto simp: checkedSumMinor_def dest: checkedSumFrom_exact)

lemma checkedSumFrom_iff:
  "safeInt t \<Longrightarrow> checkedSumFrom t vs = Inr s \<longleftrightarrow>
     s = t + sum_list vs \<and> (\<forall>v\<in>set vs. safeInt v) \<and> (\<forall>k\<le>length vs. safeInt (t + sum_list (take k vs)))"
proof (induction vs arbitrary: t)
  case (Cons v vs)
  have split: "(\<forall>k\<le>Suc (length vs). P k) \<longleftrightarrow> P 0 \<and> (\<forall>k\<le>length vs. P (Suc k))" for P
    by (metis Suc_le_mono not0_implies_Suc zero_le)
  show ?case
  proof (cases "safeInt v \<and> safeInt (t + v)")
    case True
    then have "checkedAddMinor t v = Inr (t + v)" using Cons.prems by (simp add: checkedAddMinor_iff)
    then show ?thesis using Cons.IH [of "t + v"] Cons.prems True by (simp add: split add.assoc)
  next
    case False
    then show ?thesis using Cons.prems by (auto simp: led_simps split)
  qed
qed auto

lemma checkedSumMinor_iff:
  "checkedSumMinor vs = Inr s \<longleftrightarrow>
     s = sum_list vs \<and> (\<forall>v\<in>set vs. safeInt v) \<and> (\<forall>k\<le>length vs. safeInt (sum_list (take k vs)))"
  by (simp add: checkedSumMinor_def checkedSumFrom_iff)

lemma checkedSumMinor_safe: "checkedSumMinor vs = Inr s \<Longrightarrow> safeInt s"
  by (auto simp: checkedSumMinor_iff)

end
