(* ===== verification/Currency.thy ===== *)
theory Currency
  imports Money
begin

text \<open>
  \<open>shared/ledgerCurrency.ts\<close>: the checked-in table of ISO 4217 exponents, the normalisation of
  currency codes, and the two conversions between decimal strings and integer minor units.
  The main lemmas: formatting a safe amount and parsing it back is the identity, and every
  parsed amount is a safe integer.
\<close>

section \<open>Decimal numerals\<close>

definition isDigit :: "nat \<Rightarrow> bool" where
  "isDigit c \<longleftrightarrow> 48 \<le> c \<and> c \<le> 57"

text \<open>\<open>String(n)\<close> of a non-negative integer below \<open>10^21\<close>, and \<open>Number\<close> of a digit string.\<close>

fun natText :: "nat \<Rightarrow> jsstr" where
  "natText n = (if n < 10 then [48 + n] else natText (n div 10) @ [48 + n mod 10])"

declare natText.simps [simp del]

definition decimalValue :: "jsstr \<Rightarrow> nat" where
  "decimalValue ds = foldl (\<lambda>a d. 10 * a + (d - 48)) 0 ds"

lemma decimalValue_Nil [simp]: "decimalValue [] = 0"
  by (simp add: decimalValue_def)

lemma decimalValue_snoc [simp]: "decimalValue (ds @ [d]) = 10 * decimalValue ds + (d - 48)"
  by (simp add: decimalValue_def)

lemma decimalValue_append:
  "decimalValue (xs @ ys) = decimalValue xs * 10 ^ length ys + decimalValue ys"
  by (induction ys rule: rev_induct) (simp_all add: append_assoc [symmetric] algebra_simps del: append_assoc)

lemma decimalValue_zeros [simp]: "decimalValue (replicate k 48) = 0"
  by (induction k) (simp_all add: replicate_append_same [symmetric])

lemma natText_digits: "\<forall>d\<in>set (natText n). isDigit d"
proof (induction n rule: natText.induct)
  case (1 n)
  then show ?case by (subst natText.simps) (auto simp: isDigit_def)
qed

lemma natText_value [simp]: "decimalValue (natText n) = n"
proof (induction n rule: natText.induct)
  case (1 n)
  show ?case
  proof (cases "n < 10")
    case True
    then show ?thesis by (subst natText.simps) (simp add: decimalValue_def)
  next
    case False
    with 1 show ?thesis by (subst natText.simps) simp
  qed
qed

lemma natText_nonempty [simp]: "natText n \<noteq> []"
  by (subst natText.simps) simp

lemma natText_hd: "0 < n \<Longrightarrow> hd (natText n) \<noteq> 48"
proof (induction n rule: natText.induct)
  case (1 n)
  then show ?case by (subst natText.simps) (cases "n < 10", auto simp: hd_append)
qed

lemma decimalValue_less: "\<forall>d\<in>set ds. isDigit d \<Longrightarrow> decimalValue ds < 10 ^ length ds"
proof (induction ds rule: rev_induct)
  case (snoc d ds)
  then have "decimalValue ds < 10 ^ length ds" "d - 48 < 10" by (auto simp: isDigit_def)
  then show ?case by simp
qed simp

lemma decimalValue_lead:
  assumes "\<forall>d\<in>set ds. isDigit d" and "ds \<noteq> []" and "hd ds \<noteq> 48"
  shows "10 ^ (length ds - 1) \<le> decimalValue ds"
proof -
  obtain d es where ds: "ds = d # es" using assms(2) by (cases ds) auto
  then have "1 \<le> d - 48" using assms by (auto simp: isDigit_def)
  then have "10 ^ length es \<le> (d - 48) * 10 ^ length es" by simp
  moreover have "decimalValue ds = (d - 48) * 10 ^ length es + decimalValue es"
    using decimalValue_append [of "[d]" es] ds by (simp add: decimalValue_def)
  ultimately have "10 ^ length es \<le> decimalValue ds" by linarith
  then show ?thesis using ds by simp
qed

text \<open>Comparing two digit strings of one length, as \<open>>\<close> on JavaScript strings does.\<close>

fun textGreater :: "jsstr \<Rightarrow> jsstr \<Rightarrow> bool" where
  "textGreater [] _ = False"
| "textGreater (x # xs) [] = True"
| "textGreater (x # xs) (y # ys) = (x > y \<or> (x = y \<and> textGreater xs ys))"

lemma textGreater_value:
  assumes "length xs = length ys" "\<forall>d\<in>set xs. isDigit d" "\<forall>d\<in>set ys. isDigit d"
  shows "textGreater xs ys \<longleftrightarrow> decimalValue xs > decimalValue ys"
  using assms
proof (induction xs ys rule: list_induct2)
  case (Cons x xs y ys)
  have step: "decimalValue (z # zs) = (z - 48) * 10 ^ length zs + decimalValue zs" for z zs
    using decimalValue_append [of "[z]" zs] by (simp add: decimalValue_def)
  have lt: "decimalValue xs < 10 ^ length xs" "decimalValue ys < 10 ^ length xs"
    using Cons.prems Cons.hyps decimalValue_less [of xs] decimalValue_less [of ys] by auto
  have d: "48 \<le> x" "48 \<le> y" using Cons.prems by (auto simp: isDigit_def)
  have less: "(a - 48) * 10 ^ length xs + u < (b - 48) * 10 ^ length xs"
    if "a < b" "48 \<le> a" "u < 10 ^ length xs" for a b u :: nat
  proof -
    have "Suc (a - 48) * 10 ^ length xs \<le> (b - 48) * 10 ^ length xs"
      using that by (intro mult_right_mono) auto
    with that(3) show ?thesis by simp
  qed
  consider "x < y" | "x = y" | "y < x" by linarith
  then show ?case
  proof cases
    case 1
    from less [OF 1 d(1) lt(1)] 1 show ?thesis using Cons.hyps by (simp add: step)
  next
    case 2
    then show ?thesis using Cons by (simp add: step)
  next
    case 3
    from less [OF 3 d(2) lt(2)] 3 show ?thesis using Cons.hyps by (simp add: step)
  qed
qed simp

section \<open>Currency codes\<close>

definition CURRENCY_EXPONENTS :: "(string \<times> nat) list" where
  "CURRENCY_EXPONENTS =
   [(''AED'', 2), (''AFN'', 2), (''ALL'', 2), (''AMD'', 2), (''AOA'', 2), (''ARS'', 2),
     (''AUD'', 2), (''AWG'', 2), (''AZN'', 2), (''BAM'', 2), (''BBD'', 2), (''BDT'', 2),
     (''BHD'', 3), (''BIF'', 0), (''BMD'', 2), (''BND'', 2), (''BOB'', 2), (''BOV'', 2),
     (''BRL'', 2), (''BSD'', 2), (''BTN'', 2), (''BWP'', 2), (''BYN'', 2), (''BZD'', 2),
     (''CAD'', 2), (''CDF'', 2), (''CHE'', 2), (''CHF'', 2), (''CHW'', 2), (''CLF'', 4),
     (''CLP'', 0), (''CNY'', 2), (''COP'', 2), (''COU'', 2), (''CRC'', 2), (''CUP'', 2),
     (''CVE'', 2), (''CZK'', 2), (''DJF'', 0), (''DKK'', 2), (''DOP'', 2), (''DZD'', 2),
     (''EGP'', 2), (''ERN'', 2), (''ETB'', 2), (''EUR'', 2), (''FJD'', 2), (''FKP'', 2),
     (''GBP'', 2), (''GEL'', 2), (''GHS'', 2), (''GIP'', 2), (''GMD'', 2), (''GNF'', 0),
     (''GTQ'', 2), (''GYD'', 2), (''HKD'', 2), (''HNL'', 2), (''HTG'', 2), (''HUF'', 2),
     (''IDR'', 2), (''ILS'', 2), (''INR'', 2), (''IQD'', 3), (''IRR'', 2), (''ISK'', 0),
     (''JMD'', 2), (''JOD'', 3), (''JPY'', 0), (''KES'', 2), (''KGS'', 2), (''KHR'', 2),
     (''KMF'', 0), (''KPW'', 2), (''KRW'', 0), (''KWD'', 3), (''KYD'', 2), (''KZT'', 2),
     (''LAK'', 2), (''LBP'', 2), (''LKR'', 2), (''LRD'', 2), (''LSL'', 2), (''LYD'', 3),
     (''MAD'', 2), (''MDL'', 2), (''MGA'', 2), (''MKD'', 2), (''MMK'', 2), (''MNT'', 2),
     (''MOP'', 2), (''MRU'', 2), (''MUR'', 2), (''MVR'', 2), (''MWK'', 2), (''MXN'', 2),
     (''MXV'', 2), (''MYR'', 2), (''MZN'', 2), (''NAD'', 2), (''NGN'', 2), (''NIO'', 2),
     (''NOK'', 2), (''NPR'', 2), (''NZD'', 2), (''OMR'', 3), (''PAB'', 2), (''PEN'', 2),
     (''PGK'', 2), (''PHP'', 2), (''PKR'', 2), (''PLN'', 2), (''PYG'', 0), (''QAR'', 2),
     (''RON'', 2), (''RSD'', 2), (''RUB'', 2), (''RWF'', 0), (''SAR'', 2), (''SBD'', 2),
     (''SCR'', 2), (''SDG'', 2), (''SEK'', 2), (''SGD'', 2), (''SHP'', 2), (''SLE'', 2),
     (''SOS'', 2), (''SRD'', 2), (''SSP'', 2), (''STN'', 2), (''SVC'', 2), (''SYP'', 2),
     (''SZL'', 2), (''THB'', 2), (''TJS'', 2), (''TMT'', 2), (''TND'', 3), (''TOP'', 2),
     (''TRY'', 2), (''TTD'', 2), (''TWD'', 2), (''TZS'', 2), (''UAH'', 2), (''UGX'', 0),
     (''USD'', 2), (''USN'', 2), (''UYI'', 0), (''UYU'', 2), (''UYW'', 4), (''UZS'', 2),
     (''VED'', 2), (''VES'', 2), (''VND'', 0), (''VUV'', 0), (''WST'', 2), (''XAD'', 2),
     (''XAF'', 0), (''XCD'', 2), (''XCG'', 2), (''XOF'', 0), (''XPF'', 0), (''YER'', 2),
     (''ZAR'', 2), (''ZMW'', 2), (''ZWG'', 2)]"

text \<open>
  \<open>String.prototype.toUpperCase\<close> on one code unit, for the units whose upper case holds an
  ASCII letter: the lower case ASCII letters, the dotless i, the long s, the sharp s and the
  Latin ligatures. Every other unit maps to units that are not ASCII letters, here itself; the
  only caller then rejects the text.
\<close>

definition upperUnit :: "nat \<Rightarrow> jsstr" where
  "upperUnit c =
     (if 97 \<le> c \<and> c \<le> 122 then [c - 32]
      else if c = 223 then js ''SS'' else if c = 305 then js ''I'' else if c = 383 then js ''S''
      else if c = 64256 then js ''FF'' else if c = 64257 then js ''FI''
      else if c = 64258 then js ''FL'' else if c = 64259 then js ''FFI''
      else if c = 64260 then js ''FFL'' else if c = 64261 then js ''ST''
      else if c = 64262 then js ''ST'' else [c])"

definition toUpperCase :: "jsstr \<Rightarrow> jsstr" where
  "toUpperCase s = concat (map upperUnit s)"

definition isUpper :: "nat \<Rightarrow> bool" where
  "isUpper c \<longleftrightarrow> 65 \<le> c \<and> c \<le> 90"

text \<open>The pattern \<open>^[A-Z]{3}$\<close>.\<close>

definition CURRENCY_CODE_RE :: "jsstr \<Rightarrow> bool" where
  "CURRENCY_CODE_RE s \<longleftrightarrow> length s = 3 \<and> list_all isUpper s"

fun normalizeLedgerCurrencyCode :: "jsval \<Rightarrow> jsstr res" where
  "normalizeLedgerCurrencyCode (JStr s) =
     (let normalized = toUpperCase (trim s)
      in if CURRENCY_CODE_RE normalized then Inr normalized
         else Inl (LedgerCurrencyError InvalidCurrencyCode))"
| "normalizeLedgerCurrencyCode _ = Inl (LedgerCurrencyError InvalidCurrencyCode)"

definition exponentOf :: "jsstr \<Rightarrow> nat option" where
  "exponentOf code = map_of (map (\<lambda>(c, e). (js c, e)) CURRENCY_EXPONENTS) code"

definition isSupportedLedgerCurrency :: "jsval \<Rightarrow> bool" where
  "isSupportedLedgerCurrency v =
     (case normalizeLedgerCurrencyCode v of Inl _ \<Rightarrow> False | Inr code \<Rightarrow> exponentOf code \<noteq> None)"

definition getLedgerCurrencyExponent :: "jsval \<Rightarrow> nat option" where
  "getLedgerCurrencyExponent v =
     (case normalizeLedgerCurrencyCode v of Inl _ \<Rightarrow> None | Inr code \<Rightarrow> exponentOf code)"

definition currencyExponentFor :: "jsval \<Rightarrow> nat res" where
  "currencyExponentFor v = bindR (normalizeLedgerCurrencyCode v) (\<lambda>code.
     case exponentOf code of
       None \<Rightarrow> Inl (LedgerCurrencyError UnsupportedCurrency)
     | Some e \<Rightarrow> Inr e)"

definition assertSupportedLedgerCurrency :: "jsval \<Rightarrow> jsstr res" where
  "assertSupportedLedgerCurrency v = bindR (normalizeLedgerCurrencyCode v) (\<lambda>code.
     bindR (currencyExponentFor (JStr code)) (\<lambda>_. Inr code))"

lemma trim_no_space: "list_all (\<lambda>c. \<not> jsSpace c) s \<Longrightarrow> trim s = s"
proof -
  assume a: "list_all (\<lambda>c. \<not> jsSpace c) s"
  have "dropWhile jsSpace s = s" using a by (cases s) auto
  moreover have "dropWhile jsSpace (rev s) = rev s"
    using a by (cases "rev s") (auto simp: list_all_iff dest: arg_cong [where f = set])
  ultimately show ?thesis by (simp add: trim_def)
qed

lemma toUpperCase_upper: "list_all isUpper s \<Longrightarrow> toUpperCase s = s"
  by (induction s) (auto simp: toUpperCase_def upperUnit_def isUpper_def)

text \<open>A normalised code is a fixed point of the normalisation.\<close>

lemma normalize_fixed:
  assumes "CURRENCY_CODE_RE code"
  shows "normalizeLedgerCurrencyCode (JStr code) = Inr code"
proof -
  have up: "list_all isUpper code" using assms by (simp add: CURRENCY_CODE_RE_def)
  then have "list_all (\<lambda>c. \<not> jsSpace c) code"
    by (auto simp: list_all_iff isUpper_def jsSpace_def)
  then show ?thesis using assms up by (simp add: trim_no_space toUpperCase_upper)
qed

lemma normalize_result: "normalizeLedgerCurrencyCode v = Inr code \<Longrightarrow> CURRENCY_CODE_RE code"
  by (cases v) (auto simp: Let_def split: if_splits)

lemma assertSupported_iff:
  "assertSupportedLedgerCurrency v = Inr code \<longleftrightarrow>
     normalizeLedgerCurrencyCode v = Inr code \<and> exponentOf code \<noteq> None"
proof (cases "normalizeLedgerCurrencyCode v")
  case (Inr c)
  then show ?thesis using normalize_fixed [OF normalize_result [OF Inr]]
    by (auto simp: assertSupportedLedgerCurrency_def currencyExponentFor_def
        simp del: normalizeLedgerCurrencyCode.simps split: option.splits)
qed (simp add: assertSupportedLedgerCurrency_def)

lemma assertSupported_canonical:
  assumes "assertSupportedLedgerCurrency v = Inr code"
  shows "normalizeLedgerCurrencyCode (JStr code) = Inr code" "isSupportedLedgerCurrency (JStr code)"
  using assms normalize_fixed normalize_result
  by (auto simp: assertSupported_iff isSupportedLedgerCurrency_def)

section \<open>Decimal amounts\<close>

text \<open>
  The match of \<open>^(-?)(\d+)(?:\.(\d+))?$\<close>: the sign, the whole digits and the fraction digits
  (empty when the group did not take part).
\<close>

definition matchDecimal :: "jsstr \<Rightarrow> (bool \<times> jsstr \<times> jsstr) option" where
  "matchDecimal s =
     (let (neg, body) = (case s of c # r \<Rightarrow> if c = 45 then (True, r) else (False, s) | [] \<Rightarrow> (False, s));
          whole = takeWhile isDigit body; rest = dropWhile isDigit body
      in if whole = [] then None
         else case rest of
           [] \<Rightarrow> Some (neg, whole, [])
         | c # frac \<Rightarrow> if c = 46 \<and> frac \<noteq> [] \<and> list_all isDigit frac then Some (neg, whole, frac) else None)"

text \<open>\<open>digits.replace(/^0+(?=\d)/, '')\<close>: the leading zeros, but for the last digit.\<close>

fun stripZeros :: "jsstr \<Rightarrow> jsstr" where
  "stripZeros (c # d # ds) = (if c = 48 then stripZeros (d # ds) else c # d # ds)"
| "stripZeros ds = ds"

definition MAX_SAFE_INTEGER_DIGITS :: jsstr where
  "MAX_SAFE_INTEGER_DIGITS = js ''9007199254740991''"

definition safeIntegerFromDigits :: "jsstr \<Rightarrow> int res" where
  "safeIntegerFromDigits digits =
     (let canonical = stripZeros digits;
          value = dround (int (decimalValue canonical))
      in if length canonical > length MAX_SAFE_INTEGER_DIGITS
            \<or> (length canonical = length MAX_SAFE_INTEGER_DIGITS
                \<and> textGreater canonical MAX_SAFE_INTEGER_DIGITS)
         then Inl (LedgerCurrencyError CurrencyAmountOverflow)
         else if \<not> safeInt value then Inl (LedgerCurrencyError CurrencyAmountOverflow)
         else Inr value)"

definition parseDecimalToMinor :: "jsval \<Rightarrow> jsval \<Rightarrow> int res" where
  "parseDecimalToMinor v currency = bindR (currencyExponentFor currency) (\<lambda>exponent.
     case v of
       JStr s \<Rightarrow> (case matchDecimal s of
           None \<Rightarrow> Inl (LedgerCurrencyError InvalidDecimal)
         | Some (neg, whole, fraction) \<Rightarrow>
             if length fraction > exponent then Inl (LedgerCurrencyError FractionalPrecisionExceeded)
             else bindR (safeIntegerFromDigits (whole @ fraction @ replicate (exponent - length fraction) 48))
               (\<lambda>magnitude. Inr (if neg \<and> magnitude \<noteq> 0 then - magnitude else magnitude)))
     | _ \<Rightarrow> Inl (LedgerCurrencyError InvalidDecimal))"

definition padStart :: "nat \<Rightarrow> jsstr \<Rightarrow> jsstr" where
  "padStart n s = replicate (n - length s) 48 @ s"

definition formatMinorToDecimal :: "int \<Rightarrow> jsval \<Rightarrow> jsstr res" where
  "formatMinorToDecimal v currency = bindR (currencyExponentFor currency) (\<lambda>exponent.
     if \<not> safeInt v then Inl (LedgerCurrencyError CurrencyAmountOverflow)
     else let negative = v < 0;
              digits = natText (nat (if negative then - v else v));
              sign = (if negative then [45] else [])
          in if exponent = 0 then Inr (sign @ digits)
             else let padded = padStart (exponent + 1) digits;
                      splitAt = length padded - exponent
                  in Inr (sign @ take splitAt padded @ [46] @ drop splitAt padded))"

lemma stripZeros_value: "\<forall>d\<in>set ds. isDigit d \<Longrightarrow> decimalValue (stripZeros ds) = decimalValue ds"
proof (induction ds rule: stripZeros.induct)
  case (1 c d ds)
  have "decimalValue (48 # xs) = decimalValue xs" for xs
    using decimalValue_append [of "[48]" xs] by (simp add: decimalValue_def)
  with 1 show ?case by simp
qed auto

lemma stripZeros_digits: "\<forall>d\<in>set ds. isDigit d \<Longrightarrow> \<forall>d\<in>set (stripZeros ds). isDigit d"
  by (induction ds rule: stripZeros.induct) auto

lemma stripZeros_hd: "stripZeros ds = [48] \<or> stripZeros ds = [] \<or> hd (stripZeros ds) \<noteq> 48 \<or> length (stripZeros ds) = 1"
  by (induction ds rule: stripZeros.induct) auto

lemma safeIntegerFromDigits_ok:
  assumes dig: "\<forall>d\<in>set ds. isDigit d" and safe: "safeInt (int (decimalValue ds))"
  shows "safeIntegerFromDigits ds = Inr (int (decimalValue ds))"
proof -
  let ?c = "stripZeros ds"
  have val: "decimalValue ?c = decimalValue ds" and cdig: "\<forall>d\<in>set ?c. isDigit d"
    using stripZeros_value [OF dig] stripZeros_digits [OF dig] by auto
  have max: "decimalValue MAX_SAFE_INTEGER_DIGITS = 9007199254740991"
    "\<forall>d\<in>set MAX_SAFE_INTEGER_DIGITS. isDigit d" "length MAX_SAFE_INTEGER_DIGITS = 16"
    by (simp_all add: MAX_SAFE_INTEGER_DIGITS_def js_def decimalValue_def isDigit_def)
  have le: "decimalValue ?c \<le> 9007199254740991"
    using safe val by (simp add: safeInt_def MAX_SAFE_INTEGER_def)
  have "length ?c \<le> 16"
  proof (rule ccontr)
    assume l: "\<not> length ?c \<le> 16"
    then have "?c \<noteq> []" "hd ?c \<noteq> 48" using stripZeros_hd [of ds] by auto
    then have "10 ^ (length ?c - 1) \<le> decimalValue ?c" using decimalValue_lead [OF cdig] by simp
    moreover have "(10::nat) ^ 16 \<le> 10 ^ (length ?c - 1)" using l by (intro power_increasing) auto
    ultimately show False using le by simp
  qed
  moreover have "\<not> (length ?c = 16 \<and> textGreater ?c MAX_SAFE_INTEGER_DIGITS)"
    using textGreater_value [OF _ cdig max(2)] max le by auto
  ultimately show ?thesis
    unfolding safeIntegerFromDigits_def Let_def using max(3) val safe by (auto simp: dround_exact)
qed

lemma safeIntegerFromDigits_safe: "safeIntegerFromDigits ds = Inr i \<Longrightarrow> safeInt i"
  by (auto simp: safeIntegerFromDigits_def Let_def split: if_splits)

lemma parseDecimalToMinor_safe: "parseDecimalToMinor v c = Inr i \<Longrightarrow> safeInt i"
  by (cases v) (auto simp: parseDecimalToMinor_def bindR_def dest: safeIntegerFromDigits_safe
      split: option.split_asm prod.split_asm if_split_asm sum.split_asm)

lemma matchDecimal_whole:
  assumes "whole \<noteq> []" "\<forall>d\<in>set whole. isDigit d" "\<forall>d\<in>set frac. isDigit d"
  shows "matchDecimal ((if neg then [45] else []) @ whole @ (if frac = [] then [] else 46 # frac))
           = Some (neg, whole, frac)"
proof -
  obtain w ws where w: "whole = w # ws" using assms(1) by (cases whole) auto
  have nd: "\<not> isDigit 46" "\<not> isDigit 45" by (simp_all add: isDigit_def)
  have "w \<noteq> 45" using w assms(2) nd by auto
  moreover have "takeWhile isDigit (whole @ (if frac = [] then [] else 46 # frac)) = whole"
    "dropWhile isDigit (whole @ (if frac = [] then [] else 46 # frac)) = (if frac = [] then [] else 46 # frac)"
    using assms(2) nd by (auto simp: takeWhile_append2 dropWhile_append2)
  ultimately show ?thesis using w assms by (auto simp: matchDecimal_def list_all_iff)
qed

lemma padStart_digits: "\<forall>d\<in>set s. isDigit d \<Longrightarrow> \<forall>d\<in>set (padStart n s). isDigit d"
  by (auto simp: padStart_def isDigit_def)

lemma padStart_value [simp]: "decimalValue (padStart n s) = decimalValue s"
  by (simp add: padStart_def decimalValue_append)

lemma length_padStart: "n \<le> length (padStart n s)"
  by (simp add: padStart_def)

text \<open>Formatting a safe amount and parsing the text gives the amount back.\<close>

lemma parse_format:
  assumes "formatMinorToDecimal v c = Inr s"
  shows "parseDecimalToMinor (JStr s) c = Inr v"
proof -
  obtain e where e: "currencyExponentFor c = Inr e" and safe: "safeInt v"
    using assms by (auto simp: formatMinorToDecimal_def led_simps split: if_splits)
  define d where "d = natText (nat (if v < 0 then - v else v))"
  define w where "w = (if e = 0 then d else take (length (padStart (e + 1) d) - e) (padStart (e + 1) d))"
  define f where "f = (if e = 0 then [] else drop (length (padStart (e + 1) d) - e) (padStart (e + 1) d))"
  have len: "length f = e" "w \<noteq> []"
    using length_padStart [of "e + 1" d] by (auto simp: w_def f_def d_def)
  have wf: "w @ f = (if e = 0 then d else padStart (e + 1) d)" by (simp add: w_def f_def)
  have dig: "\<forall>x\<in>set (w @ f). isDigit x"
  proof -
    have "\<forall>x\<in>set d. isDigit x" by (simp add: d_def natText_digits)
    then show ?thesis unfolding wf using padStart_digits [of d] by simp
  qed
  have val: "int (decimalValue (w @ f)) = \<bar>v\<bar>" unfolding wf by (simp add: d_def)
  have s: "s = (if v < 0 then [45] else []) @ w @ (if f = [] then [] else 46 # f)"
    using assms e safe len by (auto simp: formatMinorToDecimal_def Let_def w_def f_def d_def)
  have "matchDecimal s = Some (v < 0, w, f)"
    unfolding s using dig len(2) by (intro matchDecimal_whole) auto
  moreover have "safeIntegerFromDigits (w @ f) = Inr \<bar>v\<bar>"
    using safeIntegerFromDigits_ok [OF dig] val safe by (auto simp: safeInt_def)
  ultimately show ?thesis using e len by (auto simp: parseDecimalToMinor_def)
qed

lemma formatMinorToDecimal_total:
  "currencyExponentFor c = Inr e \<Longrightarrow> safeInt v \<Longrightarrow> \<exists>s. formatMinorToDecimal v c = Inr s"
  by (auto simp: formatMinorToDecimal_def Let_def)

section \<open>The value of a parsed amount\<close>

lemma matchDecimal_digits:
  assumes "matchDecimal s = Some (neg, whole, frac)"
  shows "\<forall>d\<in>set whole. isDigit d" "\<forall>d\<in>set frac. isDigit d"
  using assms by (auto simp: matchDecimal_def Let_def list_all_iff split: list.split_asm if_split_asm dest: set_takeWhileD)

lemma safeIntegerFromDigits_iff:
  assumes "\<forall>d\<in>set ds. isDigit d"
  shows "safeIntegerFromDigits ds = Inr i \<longleftrightarrow> safeInt (int (decimalValue ds)) \<and> i = int (decimalValue ds)"
proof
  assume r: "safeIntegerFromDigits ds = Inr i"
  then have "i = dround (int (decimalValue (stripZeros ds)))" "safeInt (dround (int (decimalValue (stripZeros ds))))"
    by (auto simp: safeIntegerFromDigits_def Let_def split: if_split_asm)
  then show "safeInt (int (decimalValue ds)) \<and> i = int (decimalValue ds)"
    using stripZeros_value [OF assms] dround_exact by simp
qed (use safeIntegerFromDigits_ok [OF assms] in auto)

text \<open>The exact value of a decimal text in minor units of a currency with the given exponent.\<close>

definition decimalMinor :: "nat \<Rightarrow> bool \<Rightarrow> jsstr \<Rightarrow> jsstr \<Rightarrow> int" where
  "decimalMinor e neg whole frac =
     (if neg then - 1 else 1) * int (decimalValue whole * 10 ^ e + decimalValue frac * 10 ^ (e - length frac))"

lemma parseDecimalToMinor_iff:
  "parseDecimalToMinor (JStr s) c = Inr v \<longleftrightarrow> (\<exists>e neg whole frac. currencyExponentFor c = Inr e
     \<and> matchDecimal s = Some (neg, whole, frac) \<and> length frac \<le> e \<and> v = decimalMinor e neg whole frac \<and> safeInt v)"
proof (cases "currencyExponentFor c")
  case (Inr e)
  show ?thesis
  proof (cases "matchDecimal s")
    case (Some m)
    obtain neg whole frac where m: "m = (neg, whole, frac)" by (cases m)
    note dig = matchDecimal_digits [OF Some [unfolded m]]
    let ?ds = "whole @ frac @ replicate (e - length frac) 48"
    have ds: "\<forall>d\<in>set ?ds. isDigit d" using dig by (auto simp: isDigit_def)
    have val: "decimalValue ?ds = decimalValue whole * 10 ^ e + decimalValue frac * 10 ^ (e - length frac)" if "length frac \<le> e"
      using that by (simp add: decimalValue_append)
    have dm: "decimalMinor e neg whole frac = (if neg then - int (decimalValue ?ds) else int (decimalValue ?ds))"
      if "length frac \<le> e" unfolding val [OF that] by (simp add: decimalMinor_def)
    have sg: "safeInt (decimalMinor e neg whole frac) \<longleftrightarrow> safeInt (int (decimalValue ?ds))" if "length frac \<le> e"
      unfolding dm [OF that] by simp
    show ?thesis
    proof (cases "length frac \<le> e")
      case True
      then show ?thesis
        using Inr Some m sg [OF True] dm [OF True] safeIntegerFromDigits_iff [OF ds]
        by (auto simp: parseDecimalToMinor_def led_simps)
    qed (simp add: parseDecimalToMinor_def Inr Some m)
  qed (simp add: parseDecimalToMinor_def Inr)
qed (simp add: parseDecimalToMinor_def)

section \<open>A refreshed table\<close>

text \<open>
  A table of exponents is a list of codes with their exponents. The codes in use are those of stored accounts and
  settings, on which \<open>toUpperCase\<close> above is the one of JavaScript.
\<close>

type_synonym LedgerCurrencyExponentMap = "(jsstr \<times> nat) list"

datatype LedgerCurrencyMetadataCompatibility =
    CurrencyCompatible
  | CurrencyRemoved jsstr "nat option"
  | CurrencyExponentChanged jsstr nat nat

definition usedCodes :: "jsstr list \<Rightarrow> jsstr list" where
  "usedCodes used = sort (remdups (map (\<lambda>s. toUpperCase (trim s)) used))"

fun firstIncompatible ::
    "LedgerCurrencyExponentMap \<Rightarrow> LedgerCurrencyExponentMap \<Rightarrow> jsstr list \<Rightarrow> LedgerCurrencyMetadataCompatibility" where
  "firstIncompatible previous next' [] = CurrencyCompatible"
| "firstIncompatible previous next' (code # codes) =
     (case map_of next' code of
        None \<Rightarrow> CurrencyRemoved code (map_of previous code)
      | Some n \<Rightarrow>
         (case map_of previous code of
            None \<Rightarrow> firstIncompatible previous next' codes
          | Some p \<Rightarrow> if p \<noteq> n then CurrencyExponentChanged code p n else firstIncompatible previous next' codes))"

definition checkLedgerCurrencyMetadataCompatibility ::
    "LedgerCurrencyExponentMap \<Rightarrow> LedgerCurrencyExponentMap \<Rightarrow> jsstr list \<Rightarrow> LedgerCurrencyMetadataCompatibility" where
  "checkLedgerCurrencyMetadataCompatibility previous next' used = firstIncompatible previous next' (usedCodes used)"

definition assertLedgerCurrencyMetadataCompatible ::
    "LedgerCurrencyExponentMap \<Rightarrow> LedgerCurrencyExponentMap \<Rightarrow> jsstr list \<Rightarrow> unit res" where
  "assertLedgerCurrencyMetadataCompatible previous next' used =
     (if checkLedgerCurrencyMetadataCompatibility previous next' used = CurrencyCompatible then Inr ()
      else Inl (LedgerCurrencyError CurrencyMetadataIncompatible))"

lemma firstIncompatible_none:
  "firstIncompatible previous next' codes = CurrencyCompatible \<longleftrightarrow>
   (\<forall>c\<in>set codes. map_of next' c \<noteq> None \<and> (map_of previous c = None \<or> map_of next' c = map_of previous c))"
  by (induction codes) (auto split: option.splits)

text \<open>A refresh is accepted exactly when it keeps the exponent of every code in use, and knows every code in use.\<close>

lemma compatible_keeps_exponents:
  "assertLedgerCurrencyMetadataCompatible previous next' used = Inr () \<longleftrightarrow>
   (\<forall>s\<in>set used. map_of next' (toUpperCase (trim s)) \<noteq> None \<and>
      (\<forall>e. map_of previous (toUpperCase (trim s)) = Some e \<longrightarrow> map_of next' (toUpperCase (trim s)) = Some e))"
proof -
  have "set (usedCodes used) = (\<lambda>s. toUpperCase (trim s)) ` set used" by (simp add: usedCodes_def)
  then have "checkLedgerCurrencyMetadataCompatibility previous next' used = CurrencyCompatible \<longleftrightarrow>
      (\<forall>s\<in>set used. let c = toUpperCase (trim s) in map_of next' c \<noteq> None \<and>
         (map_of previous c = None \<or> map_of next' c = map_of previous c))"
    by (simp only: checkLedgerCurrencyMetadataCompatibility_def firstIncompatible_none Let_def ball_simps)
  also have "\<dots> \<longleftrightarrow> (\<forall>s\<in>set used. let c = toUpperCase (trim s) in map_of next' c \<noteq> None \<and>
         (\<forall>e. map_of previous c = Some e \<longrightarrow> map_of next' c = Some e))"
    unfolding Let_def by (rule ball_cong [OF refl]) (metis not_None_eq option.sel)
  finally show ?thesis by (simp add: assertLedgerCurrencyMetadataCompatible_def Let_def)
qed

end
