(* ===== verification/Environment.thy ===== *)
theory Environment
  imports Currency
begin

text \<open>
  The parameters of the model: the functions of third-party packages and of the host that the
  ledger calls, collected in a record that every definition using one takes as its argument.
  Nothing is assumed of them here; a lemma that needs a documented fact of one names it as a
  hypothesis.
\<close>

text \<open>A \<open>Temporal.PlainDate\<close>, by the three fields the code reads.\<close>

record plainDate =
  pdYear :: int
  pdMonth :: int
  pdDay :: int

text \<open>
  \<^item> \<open>toLowerCase\<close>: \<open>String.prototype.toLowerCase\<close> (the Unicode case table);
  \<^item> \<open>jsonParse\<close>: \<open>JSON.parse\<close>, \<open>None\<close> where it throws;
  \<^item> \<open>sha256hex\<close>: the hexadecimal SHA-256 digest of \<open>node:crypto\<close>;
  \<^item> \<open>instantOk\<close>: \<open>Temporal.Instant.fromEpochMilliseconds\<close> accepts the value;
  \<^item> \<open>zoneKnown\<close>: \<open>toZonedDateTimeISO\<close> accepts the identifier (the time zone database);
  \<^item> \<open>plainDateFrom\<close>, \<open>plainDateOf\<close>, \<open>plainDateText\<close>, \<open>dayOfWeek\<close>, \<open>addDays\<close>, \<open>addMonths\<close>,
    \<open>addYears\<close>: \<open>Temporal.PlainDate\<close>, with \<open>None\<close> for a \<open>RangeError\<close>;
  \<^item> \<open>zonedStart\<close>: the epoch milliseconds of a date's midnight in a zone;
  \<^item> \<open>dateAt\<close>: the date of an instant in a zone;
  \<^item> \<open>nowFn\<close>, \<open>createIdFn\<close>, \<open>dateNow\<close>: the n-th reading of the injected clock, of the id
    source and of \<open>Date.now\<close>;
  \<^item> \<open>writeLockBusy\<close>: the n-th \<open>BEGIN IMMEDIATE\<close> fails with \<open>SQLITE_BUSY\<close>;
  \<^item> \<open>localeLess\<close>: \<open>String.prototype.localeCompare\<close> returns a negative number;
  \<^item> \<open>base64url\<close>, \<open>fromBase64url\<close>: \<open>Buffer\<close> in the two directions, the latter with the strict
    UTF-8 decoding of \<open>TextDecoder\<close>, \<open>None\<close> where the code sees no valid text.
\<close>

record ledger_env =
  toLowerCase :: "jsstr \<Rightarrow> jsstr"
  jsonParse :: "jsstr \<Rightarrow> jsval option"
  sha256hex :: "jsstr \<Rightarrow> jsstr"
  instantOk :: "int \<Rightarrow> bool"
  zoneKnown :: "jsstr \<Rightarrow> bool"
  plainDateFrom :: "jsstr \<Rightarrow> plainDate option"
  plainDateOf :: "int \<Rightarrow> int \<Rightarrow> int \<Rightarrow> plainDate option"
  plainDateText :: "plainDate \<Rightarrow> jsstr"
  dayOfWeek :: "plainDate \<Rightarrow> int"
  addDays :: "plainDate \<Rightarrow> int \<Rightarrow> plainDate option"
  addMonths :: "plainDate \<Rightarrow> int \<Rightarrow> plainDate option"
  addYears :: "plainDate \<Rightarrow> int \<Rightarrow> plainDate option"
  zonedStart :: "plainDate \<Rightarrow> jsstr \<Rightarrow> int option"
  dateAt :: "int \<Rightarrow> jsstr \<Rightarrow> plainDate option"
  nowFn :: "nat \<Rightarrow> jsval"
  createIdFn :: "nat \<Rightarrow> jsval"
  dateNow :: "nat \<Rightarrow> jsval"
  writeLockBusy :: "nat \<Rightarrow> bool"
  localeLess :: "jsstr \<Rightarrow> jsstr \<Rightarrow> bool"
  base64url :: "jsstr \<Rightarrow> jsstr"
  fromBase64url :: "jsstr \<Rightarrow> jsstr option"

text \<open>The result of a third-party call that throws a \<open>RangeError\<close> when it has none.\<close>

definition orThrow :: "'a option \<Rightarrow> 'a res" where
  "orThrow r = (case r of None \<Rightarrow> Inl InternalError | Some a \<Rightarrow> Inr a)"

lemma orThrow_iff [led_simps]: "orThrow r = Inr a \<longleftrightarrow> r = Some a"
  by (auto simp: orThrow_def split: option.splits)

text \<open>The documented fact about \<open>toLowerCase\<close> the ledger relies on: no text vanishes.\<close>

definition lower_ok :: "ledger_env \<Rightarrow> bool" where
  "lower_ok env \<longleftrightarrow> (\<forall>s. s \<noteq> [] \<longrightarrow> toLowerCase env s \<noteq> [])"

end
