(* ===== verification/LedgerTime.thy ===== *)
theory LedgerTime
  imports Environment
begin

text \<open>
  \<open>server/ledger/time.ts\<close>: validation of instants, time zones and dates, and the half-open
  calendar ranges of the ledger. The \<open>Temporal\<close> polyfill is a parameter; the patterns, the
  checks and the composition of the ranges are the code's.
\<close>

section \<open>Instants, zones and dates\<close>

definition LEDGER_FUTURE_SKEW_MS :: int where
  "LEDGER_FUTURE_SKEW_MS = 60000"

fun assertUtcMilliseconds :: "ledger_env \<Rightarrow> jsval \<Rightarrow> int res" where
  "assertUtcMilliseconds env (JInt i) =
     (if safeInt i \<and> instantOk env i then Inr i else Inl ledgerValidationError)"
| "assertUtcMilliseconds env _ = Inl ledgerValidationError"

text \<open>The pattern \<open>^[A-Za-z_][A-Za-z0-9_.+-]*(?:\/[A-Za-z0-9_.+-]+)*$\<close>.\<close>

definition isAlpha :: "nat \<Rightarrow> bool" where
  "isAlpha c \<longleftrightarrow> (65 \<le> c \<and> c \<le> 90) \<or> (97 \<le> c \<and> c \<le> 122)"

definition ianaChar :: "nat \<Rightarrow> bool" where
  "ianaChar c \<longleftrightarrow> isAlpha c \<or> isDigit c \<or> c = 95 \<or> c = 46 \<or> c = 43 \<or> c = 45"

fun ianaRest :: "bool \<Rightarrow> jsstr \<Rightarrow> bool" where
  "ianaRest need [] = (\<not> need)"
| "ianaRest need (c # r) =
     (if c = 47 then \<not> need \<and> ianaRest True r else ianaChar c \<and> ianaRest False r)"

fun IANA_TIME_ZONE_ID_RE :: "jsstr \<Rightarrow> bool" where
  "IANA_TIME_ZONE_ID_RE [] = False"
| "IANA_TIME_ZONE_ID_RE (c # r) = ((isAlpha c \<or> c = 95) \<and> ianaRest False r)"

fun assertIanaTimeZoneId :: "ledger_env \<Rightarrow> jsval \<Rightarrow> jsstr res" where
  "assertIanaTimeZoneId env (JStr s) =
     (if \<not> IANA_TIME_ZONE_ID_RE s then Inl (LedgerError LInvalidTimezone 400)
      else if \<not> zoneKnown env s then Inl (LedgerError LInvalidTimezone 400)
      else Inr s)"
| "assertIanaTimeZoneId env _ = Inl (LedgerError LInvalidTimezone 400)"

definition isIanaTimeZoneId :: "ledger_env \<Rightarrow> jsval \<Rightarrow> bool" where
  "isIanaTimeZoneId env v = (case assertIanaTimeZoneId env v of Inl _ \<Rightarrow> False | Inr _ \<Rightarrow> True)"

text \<open>The pattern \<open>^\d{4}-\d{2}-\d{2}$\<close>.\<close>

definition LOCAL_DATE_RE :: "jsstr \<Rightarrow> bool" where
  "LOCAL_DATE_RE s \<longleftrightarrow> length s = 10 \<and> list_all isDigit (take 4 s) \<and> s ! 4 = 45
     \<and> list_all isDigit (take 2 (drop 5 s)) \<and> s ! 7 = 45 \<and> list_all isDigit (drop 8 s)"

fun parseLedgerLocalDate :: "ledger_env \<Rightarrow> jsval \<Rightarrow> jsstr res" where
  "parseLedgerLocalDate env (JStr s) =
     (if \<not> LOCAL_DATE_RE s then Inl ledgerValidationError
      else case plainDateFrom env s of None \<Rightarrow> Inl ledgerValidationError | Some _ \<Rightarrow> Inr s)"
| "parseLedgerLocalDate env _ = Inl ledgerValidationError"

fun assertOpeningDate :: "ledger_env \<Rightarrow> jsval \<Rightarrow> jsstr res" where
  "assertOpeningDate env (JStr s) =
     (if \<not> LOCAL_DATE_RE s then Inl (LedgerError LInvalidOpeningDate 400)
      else case plainDateFrom env s of None \<Rightarrow> Inl (LedgerError LInvalidOpeningDate 400) | Some _ \<Rightarrow> Inr s)"
| "assertOpeningDate env _ = Inl (LedgerError LInvalidOpeningDate 400)"

lemma assertUtcMilliseconds_iff [led_simps]:
  "assertUtcMilliseconds env v = Inr i \<longleftrightarrow> v = JInt i \<and> safeInt i \<and> instantOk env i"
  by (cases v) auto

lemma assertIanaTimeZoneId_iff [led_simps]:
  "assertIanaTimeZoneId env v = Inr s \<longleftrightarrow> v = JStr s \<and> IANA_TIME_ZONE_ID_RE s \<and> zoneKnown env s"
  by (cases v) auto

lemma isIanaTimeZoneId_iff:
  "isIanaTimeZoneId env (JStr s) \<longleftrightarrow> IANA_TIME_ZONE_ID_RE s \<and> zoneKnown env s"
  by (auto simp: isIanaTimeZoneId_def)

lemma assertOpeningDate_iff [led_simps]:
  "assertOpeningDate env v = Inr s \<longleftrightarrow> v = JStr s \<and> LOCAL_DATE_RE s \<and> plainDateFrom env s \<noteq> None"
  by (cases v) (auto split: option.splits)

declare assertUtcMilliseconds.simps [simp del] assertIanaTimeZoneId.simps [simp del]
  assertOpeningDate.simps [simp del]

section \<open>Local dates as instants\<close>

definition startOfLocalDate :: "ledger_env \<Rightarrow> plainDate \<Rightarrow> jsstr \<Rightarrow> int res" where
  "startOfLocalDate env date tz = bindR (orThrow (zonedStart env date tz)) (\<lambda>ms.
     assertUtcMilliseconds env (JInt ms))"

definition plainDateForInstant :: "ledger_env \<Rightarrow> int \<Rightarrow> jsstr \<Rightarrow> plainDate res" where
  "plainDateForInstant env instantMs tz =
     bindR (assertUtcMilliseconds env (JInt instantMs)) (\<lambda>ms. orThrow (dateAt env ms tz))"

definition plainDateForLocalDate :: "ledger_env \<Rightarrow> jsstr \<Rightarrow> plainDate res" where
  "plainDateForLocalDate env localDate =
     bindR (parseLedgerLocalDate env (JStr localDate)) (\<lambda>s. orThrow (plainDateFrom env s))"

definition ledgerLocalDateForInstant :: "ledger_env \<Rightarrow> int \<Rightarrow> jsstr \<Rightarrow> jsstr res" where
  "ledgerLocalDateForInstant env instantMs tz =
     bindR (assertIanaTimeZoneId env (JStr tz)) (\<lambda>zone.
     bindR (plainDateForInstant env instantMs zone) (\<lambda>d. Inr (plainDateText env d)))"

definition openingBoundaryMs :: "ledger_env \<Rightarrow> jsstr \<Rightarrow> jsstr \<Rightarrow> int res" where
  "openingBoundaryMs env openingDate tz =
     bindR (assertOpeningDate env (JStr openingDate)) (\<lambda>s.
     bindR (orThrow (plainDateFrom env s)) (\<lambda>date.
     bindR (assertIanaTimeZoneId env (JStr tz)) (\<lambda>zone.
     startOfLocalDate env date zone)))"

text \<open>A half-open range, first and past-the-end instant.\<close>

record LedgerTimeRange =
  startMs :: int
  endMs :: int

definition localDateRange :: "ledger_env \<Rightarrow> jsstr \<Rightarrow> jsstr \<Rightarrow> LedgerTimeRange res" where
  "localDateRange env localDate tz =
     bindR (plainDateForLocalDate env localDate) (\<lambda>date.
     bindR (assertIanaTimeZoneId env (JStr tz)) (\<lambda>zone.
     bindR (startOfLocalDate env date zone) (\<lambda>s.
     bindR (orThrow (addDays env date 1)) (\<lambda>next.
     bindR (startOfLocalDate env next zone) (\<lambda>e.
     Inr \<lparr>startMs = s, endMs = e\<rparr>)))))"

text \<open>\<open>Math.round(a / b)\<close> for the small non-negative integers it is used on.\<close>

definition roundDiv :: "int \<Rightarrow> int \<Rightarrow> int" where
  "roundDiv a b = (2 * a + b) div (2 * b)"

record LedgerCalendarDayPoint =
  cpDate :: jsstr
  cpStartMs :: int

text \<open>A \<open>catch\<close> that lets a \<open>LedgerError\<close> through and turns any other error into a validation error.\<close>

definition rethrowLedger :: "'a res \<Rightarrow> 'a res" where
  "rethrowLedger r =
     (case r of Inl (LedgerError c n) \<Rightarrow> Inl (LedgerError c n)
      | Inl _ \<Rightarrow> Inl ledgerValidationError | Inr a \<Rightarrow> Inr a)"

definition calendarDayPointsForInstant ::
    "ledger_env \<Rightarrow> int \<Rightarrow> int \<Rightarrow> int \<Rightarrow> jsstr \<Rightarrow> LedgerCalendarDayPoint list res" where
  "calendarDayPointsForInstant env days pointCount instantMs tz =
     (if \<not> safeInt days \<or> days < 1 then Inl ledgerValidationError
      else if \<not> safeInt pointCount \<or> pointCount < 1 then Inl ledgerValidationError
      else bindR (assertIanaTimeZoneId env (JStr tz)) (\<lambda>zone.
        bindR (plainDateForInstant env instantMs zone) (\<lambda>date.
        rethrowLedger
          (bindR (orThrow (addDays env date (- (days - 1)))) (\<lambda>firstDate.
           mapR (\<lambda>index.
               let offset = (if pointCount = 1 then days - 1
                             else roundDiv ((days - 1) * int index) (pointCount - 1))
               in bindR (orThrow (addDays env firstDate offset)) (\<lambda>pointDate.
                  bindR (startOfLocalDate env pointDate zone) (\<lambda>ms.
                  Inr \<lparr>cpDate = plainDateText env pointDate, cpStartMs = ms\<rparr>)))
             [0 ..< nat pointCount])))))"

section \<open>Natural periods\<close>

datatype LedgerPeriodName = Today | Week | Month | Year

definition periodRangeForPlainDate ::
    "ledger_env \<Rightarrow> LedgerPeriodName \<Rightarrow> plainDate \<Rightarrow> jsstr \<Rightarrow> LedgerTimeRange res" where
  "periodRangeForPlainDate env period date zone =
     bindR (case period of
         Today \<Rightarrow> bindR (orThrow (addDays env date 1)) (\<lambda>e. Inr (date, e))
       | Week \<Rightarrow> bindR (orThrow (addDays env date (- (dayOfWeek env date - 1)))) (\<lambda>s.
           bindR (orThrow (addDays env s 7)) (\<lambda>e. Inr (s, e)))
       | Month \<Rightarrow> bindR (orThrow (plainDateOf env (pdYear date) (pdMonth date) 1)) (\<lambda>s.
           bindR (orThrow (addMonths env s 1)) (\<lambda>e. Inr (s, e)))
       | Year \<Rightarrow> bindR (orThrow (plainDateOf env (pdYear date) 1 1)) (\<lambda>s.
           bindR (orThrow (addYears env s 1)) (\<lambda>e. Inr (s, e))))
       (\<lambda>(startDate, endDate).
         bindR (startOfLocalDate env startDate zone) (\<lambda>s.
         bindR (startOfLocalDate env endDate zone) (\<lambda>e.
         Inr \<lparr>startMs = s, endMs = e\<rparr>)))"

definition periodRangeForLocalDate ::
    "ledger_env \<Rightarrow> LedgerPeriodName \<Rightarrow> jsstr \<Rightarrow> jsstr \<Rightarrow> LedgerTimeRange res" where
  "periodRangeForLocalDate env period localDate tz =
     bindR (assertIanaTimeZoneId env (JStr tz)) (\<lambda>zone.
     bindR (plainDateForLocalDate env localDate) (\<lambda>date.
     periodRangeForPlainDate env period date zone))"

definition periodRange :: "ledger_env \<Rightarrow> LedgerPeriodName \<Rightarrow> int \<Rightarrow> jsstr \<Rightarrow> LedgerTimeRange res" where
  "periodRange env period instantMs tz =
     bindR (assertIanaTimeZoneId env (JStr tz)) (\<lambda>zone.
     bindR (plainDateForInstant env instantMs zone) (\<lambda>date.
     periodRangeForPlainDate env period date zone))"

definition monthRange :: "ledger_env \<Rightarrow> int \<Rightarrow> jsstr \<Rightarrow> LedgerTimeRange res" where
  "monthRange env = periodRange env Month"

record LedgerPeriodRanges =
  todayR :: LedgerTimeRange
  weekR :: LedgerTimeRange
  monthR :: LedgerTimeRange
  yearR :: LedgerTimeRange

definition periodRangesForLocalDate :: "ledger_env \<Rightarrow> jsstr \<Rightarrow> jsstr \<Rightarrow> LedgerPeriodRanges res" where
  "periodRangesForLocalDate env localDate tz =
     bindR (assertIanaTimeZoneId env (JStr tz)) (\<lambda>zone.
     bindR (plainDateForLocalDate env localDate) (\<lambda>date.
     bindR (periodRangeForPlainDate env Today date zone) (\<lambda>t.
     bindR (periodRangeForPlainDate env Week date zone) (\<lambda>w.
     bindR (periodRangeForPlainDate env Month date zone) (\<lambda>m.
     bindR (periodRangeForPlainDate env Year date zone) (\<lambda>y.
     Inr \<lparr>todayR = t, weekR = w, monthR = m, yearR = y\<rparr>))))))"

record LedgerCalendarMonthRange = LedgerTimeRange +
  rangeMonth :: jsstr

definition calendarMonthRangesForLocalDate ::
    "ledger_env \<Rightarrow> int \<Rightarrow> jsstr \<Rightarrow> jsstr \<Rightarrow> LedgerCalendarMonthRange list res" where
  "calendarMonthRangesForLocalDate env months localDate tz =
     (if \<not> safeInt months \<or> months < 1 then Inl ledgerValidationError
      else bindR (assertIanaTimeZoneId env (JStr tz)) (\<lambda>zone.
        bindR (plainDateForLocalDate env localDate) (\<lambda>date.
        rethrowLedger
          (bindR (orThrow (plainDateOf env (pdYear date) (pdMonth date) 1)) (\<lambda>currentMonth.
           bindR (orThrow (addMonths env currentMonth (- (months - 1)))) (\<lambda>firstMonth.
           mapR (\<lambda>index.
               bindR (orThrow (addMonths env firstMonth (int index))) (\<lambda>startDate.
               bindR (orThrow (addMonths env startDate 1)) (\<lambda>endDate.
               bindR (startOfLocalDate env startDate zone) (\<lambda>s.
               bindR (startOfLocalDate env endDate zone) (\<lambda>e.
               Inr \<lparr>startMs = s, endMs = e, rangeMonth = take 7 (plainDateText env startDate)\<rparr>)))))
             [0 ..< nat months]))))))"

section \<open>The future tolerance\<close>

definition validateOccurredAt :: "ledger_env \<Rightarrow> jsval \<Rightarrow> int \<Rightarrow> int res" where
  "validateOccurredAt env v nowMs =
     bindR (assertUtcMilliseconds env v) (\<lambda>occurredAt.
     bindR (assertUtcMilliseconds env (JInt nowMs)) (\<lambda>now.
       let futureLimit = dround (now + LEDGER_FUTURE_SKEW_MS)
       in if \<not> safeInt futureLimit then Inl ledgerValidationError
          else if occurredAt > futureLimit then Inl ledgerValidationError
          else Inr occurredAt))"

lemma validateOccurredAt_iff [led_simps]:
  "validateOccurredAt env v nowMs = Inr i \<longleftrightarrow>
     v = JInt i \<and> safeInt i \<and> instantOk env i \<and> safeInt nowMs \<and> instantOk env nowMs
     \<and> safeInt (nowMs + 60000) \<and> i \<le> nowMs + 60000"
  by (cases v) (auto simp: validateOccurredAt_def assertUtcMilliseconds.simps LEDGER_FUTURE_SKEW_MS_def
      bindR_def Let_def dround_exact)

end
