(* ===== verification/LedgerTypes.thy ===== *)
theory LedgerTypes
  imports LedgerTime
begin

text \<open>
  The data of the ledger: the discriminators and catalogues of \<open>shared/ledgerProtocol.ts\<close>, the
  domain objects of \<open>server/ledger/domain.ts\<close> as records and datatypes, and the untrusted row
  shapes a \<open>SELECT\<close> returns. The discriminated union of transactions is a record of the shared
  fields with a body, one constructor per \<open>type\<close>.
\<close>

section \<open>Discriminators\<close>

datatype LedgerAccountType = Cash | Bank | Wallet | CreditCard | Loan | OtherAccount
datatype LedgerAccountNature = Asset | Liability
datatype LedgerCategoryKind = IncomeKind | ExpenseKind
datatype LedgerCategorySystemKey = InterestKey | FeeKey
datatype LedgerTransactionType = IncomeType | ExpenseType | TransferType | AdjustmentType
datatype LedgerTransferKind = General | Repayment | Withdrawal
datatype LedgerTransferFeeMode = Extra | Deducted

fun accountTypeText :: "LedgerAccountType \<Rightarrow> jsstr" where
  "accountTypeText Cash = js ''cash''"
| "accountTypeText Bank = js ''bank''"
| "accountTypeText Wallet = js ''wallet''"
| "accountTypeText CreditCard = js ''credit_card''"
| "accountTypeText Loan = js ''loan''"
| "accountTypeText OtherAccount = js ''other''"

fun natureText :: "LedgerAccountNature \<Rightarrow> jsstr" where
  "natureText Asset = js ''asset''"
| "natureText Liability = js ''liability''"

fun kindText :: "LedgerCategoryKind \<Rightarrow> jsstr" where
  "kindText IncomeKind = js ''income''"
| "kindText ExpenseKind = js ''expense''"

fun systemKeyText :: "LedgerCategorySystemKey \<Rightarrow> jsstr" where
  "systemKeyText InterestKey = js ''interest''"
| "systemKeyText FeeKey = js ''fee''"

fun transactionTypeText :: "LedgerTransactionType \<Rightarrow> jsstr" where
  "transactionTypeText IncomeType = js ''income''"
| "transactionTypeText ExpenseType = js ''expense''"
| "transactionTypeText TransferType = js ''transfer''"
| "transactionTypeText AdjustmentType = js ''adjustment''"

fun transferKindText :: "LedgerTransferKind \<Rightarrow> jsstr" where
  "transferKindText General = js ''general''"
| "transferKindText Repayment = js ''repayment''"
| "transferKindText Withdrawal = js ''withdrawal''"

fun feeModeText :: "LedgerTransferFeeMode \<Rightarrow> jsstr" where
  "feeModeText Extra = js ''extra''"
| "feeModeText Deducted = js ''deducted''"

text \<open>The allowed values, in the order of \<open>server/ledger/validation.ts\<close>.\<close>

definition LEDGER_ACCOUNT_TYPES :: "LedgerAccountType list" where
  "LEDGER_ACCOUNT_TYPES = [Cash, Bank, Wallet, CreditCard, Loan, OtherAccount]"

definition LEDGER_ACCOUNT_NATURES :: "LedgerAccountNature list" where
  "LEDGER_ACCOUNT_NATURES = [Asset, Liability]"

definition LEDGER_CATEGORY_KINDS :: "LedgerCategoryKind list" where
  "LEDGER_CATEGORY_KINDS = [IncomeKind, ExpenseKind]"

definition LEDGER_SYSTEM_KEYS :: "LedgerCategorySystemKey list" where
  "LEDGER_SYSTEM_KEYS = [InterestKey, FeeKey]"

definition LEDGER_TRANSACTION_TYPES :: "LedgerTransactionType list" where
  "LEDGER_TRANSACTION_TYPES = [IncomeType, ExpenseType, TransferType, AdjustmentType]"

definition LEDGER_TRANSFER_KINDS :: "LedgerTransferKind list" where
  "LEDGER_TRANSFER_KINDS = [General, Repayment, Withdrawal]"

definition LEDGER_TRANSFER_FEE_MODES :: "LedgerTransferFeeMode list" where
  "LEDGER_TRANSFER_FEE_MODES = [Extra, Deducted]"

text \<open>\<open>allowed.includes(value)\<close>, with the value read back as the discriminator it names.\<close>

definition enumOf :: "('e \<Rightarrow> jsstr) \<Rightarrow> 'e list \<Rightarrow> jsval \<Rightarrow> 'e option" where
  "enumOf text allowed v = find (\<lambda>t. v = JStr (text t)) allowed"

lemma enumOf_iff:
  assumes "inj text"
  shows "enumOf text allowed v = Some t \<longleftrightarrow> t \<in> set allowed \<and> v = JStr (text t)"
  using assms by (induction allowed) (auto simp: enumOf_def inj_def)

lemma text_inj:
  "inj accountTypeText" "inj natureText" "inj kindText" "inj systemKeyText"
  "inj transactionTypeText" "inj transferKindText" "inj feeModeText"
proof -
  show "inj accountTypeText" by (rule injI, case_tac x; case_tac y; simp)
  show "inj natureText" by (rule injI, case_tac x; case_tac y; simp)
  show "inj kindText" by (rule injI, case_tac x; case_tac y; simp)
  show "inj systemKeyText" by (rule injI, case_tac x; case_tac y; simp)
  show "inj transactionTypeText" by (rule injI, case_tac x; case_tac y; simp)
  show "inj transferKindText" by (rule injI, case_tac x; case_tac y; simp)
  show "inj feeModeText" by (rule injI, case_tac x; case_tac y; simp)
qed

lemma all_members [simp]:
  "t \<in> set LEDGER_ACCOUNT_TYPES" "n \<in> set LEDGER_ACCOUNT_NATURES" "k \<in> set LEDGER_CATEGORY_KINDS"
  "y \<in> set LEDGER_SYSTEM_KEYS" "ty \<in> set LEDGER_TRANSACTION_TYPES"
  "tk \<in> set LEDGER_TRANSFER_KINDS" "fm \<in> set LEDGER_TRANSFER_FEE_MODES"
proof -
  show "t \<in> set LEDGER_ACCOUNT_TYPES" by (cases t) (simp_all add: LEDGER_ACCOUNT_TYPES_def)
  show "n \<in> set LEDGER_ACCOUNT_NATURES" by (cases n) (simp_all add: LEDGER_ACCOUNT_NATURES_def)
  show "k \<in> set LEDGER_CATEGORY_KINDS" by (cases k) (simp_all add: LEDGER_CATEGORY_KINDS_def)
  show "y \<in> set LEDGER_SYSTEM_KEYS" by (cases y) (simp_all add: LEDGER_SYSTEM_KEYS_def)
  show "ty \<in> set LEDGER_TRANSACTION_TYPES" by (cases ty) (simp_all add: LEDGER_TRANSACTION_TYPES_def)
  show "tk \<in> set LEDGER_TRANSFER_KINDS" by (cases tk) (simp_all add: LEDGER_TRANSFER_KINDS_def)
  show "fm \<in> set LEDGER_TRANSFER_FEE_MODES" by (cases fm) (simp_all add: LEDGER_TRANSFER_FEE_MODES_def)
qed

section \<open>Icons and the default catalogue\<close>

text \<open>The icons the server ships with, by id and display name (UTF-16 code units).\<close>

definition LEDGER_BUILTIN_ACCOUNT_ICONS :: "(jsstr \<times> jsstr) list" where
  "LEDGER_BUILTIN_ACCOUNT_ICONS =
    [(js ''custom_builtin_boc'', [20013, 22269, 38134, 34892]),
     (js ''custom_builtin_icbc'', [24037, 21830, 38134, 34892]),
     (js ''custom_builtin_cmb'', [25307, 21830, 38134, 34892]),
     (js ''custom_builtin_abc'', [20892, 19994, 38134, 34892]),
     (js ''custom_builtin_psbc'', [37038, 25919, 38134, 34892]),
     (js ''custom_builtin_ccb'', [24314, 35774, 38134, 34892]),
     (js ''custom_builtin_wechat_pay'', [24494, 20449, 38065, 21253]),
     (js ''custom_builtin_alipay'', [25903, 20184, 23453]),
     (js ''custom_builtin_unionpay'', [20113, 38378, 20184])]"

definition LEDGER_ACCOUNT_ICONS :: "jsstr list" where
  "LEDGER_ACCOUNT_ICONS =
     [js ''wallet'', js ''credit_card'', js ''cash'', js ''building_bank'', js ''briefcase'']"

definition LEDGER_DEFAULT_ACCOUNT_ICONS :: "jsstr list" where
  "LEDGER_DEFAULT_ACCOUNT_ICONS = LEDGER_ACCOUNT_ICONS @ map fst LEDGER_BUILTIN_ACCOUNT_ICONS"

record LedgerAccountIconConfig =
  defaultIcon :: jsstr
  availableIcons :: "jsstr list"
  archivedIcons :: "jsstr list option"
  customIcons :: "(jsstr \<times> jsstr) list"
  customIconNames :: "(jsstr \<times> jsstr) list"

record DefaultCategory =
  deKind :: LedgerCategoryKind
  deName :: jsstr
  deIcon :: jsstr
  deSortOrder :: int
  deSystemKey :: "LedgerCategorySystemKey option"

definition DEFAULT_LEDGER_CATEGORIES_V2 :: "DefaultCategory list" where
  "DEFAULT_LEDGER_CATEGORIES_V2 =
    [\<lparr>deKind = IncomeKind, deName = [24037, 36164], deIcon = js ''custom_builtin_category_income_salary'', deSortOrder = 1, deSystemKey = None\<rparr>,
     \<lparr>deKind = IncomeKind, deName = [22870, 37329], deIcon = js ''custom_builtin_category_income_bonus'', deSortOrder = 2, deSystemKey = None\<rparr>,
     \<lparr>deKind = IncomeKind, deName = [20860, 32844], deIcon = js ''custom_builtin_category_income_part_time'', deSortOrder = 3, deSystemKey = None\<rparr>,
     \<lparr>deKind = IncomeKind, deName = [25237, 36164, 25910, 30410], deIcon = js ''custom_builtin_category_income_investment'', deSortOrder = 4, deSystemKey = None\<rparr>,
     \<lparr>deKind = IncomeKind, deName = [32418, 21253, 32, 47, 32, 31036, 37329], deIcon = js ''custom_builtin_category_income_red_packet'', deSortOrder = 5, deSystemKey = None\<rparr>,
     \<lparr>deKind = IncomeKind, deName = [36864, 27454], deIcon = js ''custom_builtin_category_income_refund'', deSortOrder = 6, deSystemKey = None\<rparr>,
     \<lparr>deKind = IncomeKind, deName = [20854, 20182], deIcon = js ''custom_builtin_category_income_other'', deSortOrder = 7, deSystemKey = None\<rparr>,
     \<lparr>deKind = ExpenseKind, deName = [39184, 39278], deIcon = js ''custom_builtin_category_expense_food'', deSortOrder = 1, deSystemKey = None\<rparr>,
     \<lparr>deKind = ExpenseKind, deName = [20132, 36890], deIcon = js ''custom_builtin_category_expense_transport'', deSortOrder = 2, deSystemKey = None\<rparr>,
     \<lparr>deKind = ExpenseKind, deName = [36141, 29289], deIcon = js ''custom_builtin_category_expense_shopping'', deSortOrder = 3, deSystemKey = None\<rparr>,
     \<lparr>deKind = ExpenseKind, deName = [26085, 29992], deIcon = js ''custom_builtin_category_expense_daily'', deSortOrder = 4, deSystemKey = None\<rparr>,
     \<lparr>deKind = ExpenseKind, deName = [20303, 25151], deIcon = js ''custom_builtin_category_expense_home'', deSortOrder = 5, deSystemKey = None\<rparr>,
     \<lparr>deKind = ExpenseKind, deName = [36890, 35759], deIcon = js ''custom_builtin_category_expense_communication'', deSortOrder = 6, deSystemKey = None\<rparr>,
     \<lparr>deKind = ExpenseKind, deName = [35746, 38405], deIcon = js ''custom_builtin_category_expense_subscription'', deSortOrder = 7, deSystemKey = None\<rparr>,
     \<lparr>deKind = ExpenseKind, deName = [23089, 20048], deIcon = js ''custom_builtin_category_expense_entertainment'', deSortOrder = 8, deSystemKey = None\<rparr>,
     \<lparr>deKind = ExpenseKind, deName = [21307, 30103], deIcon = js ''custom_builtin_category_expense_medical'', deSortOrder = 9, deSystemKey = None\<rparr>,
     \<lparr>deKind = ExpenseKind, deName = [25945, 32946], deIcon = js ''custom_builtin_category_expense_education'', deSortOrder = 10, deSystemKey = None\<rparr>,
     \<lparr>deKind = ExpenseKind, deName = [26053, 34892], deIcon = js ''custom_builtin_category_expense_travel'', deSortOrder = 11, deSystemKey = None\<rparr>,
     \<lparr>deKind = ExpenseKind, deName = [20154, 24773, 24448, 26469], deIcon = js ''custom_builtin_category_expense_gift'', deSortOrder = 12, deSystemKey = None\<rparr>,
     \<lparr>deKind = ExpenseKind, deName = [20445, 38505], deIcon = js ''custom_builtin_category_expense_insurance'', deSortOrder = 13, deSystemKey = None\<rparr>,
     \<lparr>deKind = ExpenseKind, deName = [21033, 24687], deIcon = js ''custom_builtin_category_expense_interest'', deSortOrder = 14, deSystemKey = Some InterestKey\<rparr>,
     \<lparr>deKind = ExpenseKind, deName = [25163, 32493, 36153], deIcon = js ''custom_builtin_category_expense_fee'', deSortOrder = 15, deSystemKey = Some FeeKey\<rparr>,
     \<lparr>deKind = ExpenseKind, deName = [20854, 20182], deIcon = js ''custom_builtin_category_expense_other'', deSortOrder = 16, deSystemKey = None\<rparr>]"

section \<open>Domain objects\<close>

record LedgerSettings =
  setBaseCurrency :: jsstr
  setTimezone :: jsstr
  setHasCreatedAccount :: bool
  setVersion :: int
  setCreatedAt :: int
  setUpdatedAt :: int
  setAccountIcons :: LedgerAccountIconConfig

record LedgerAccount =
  accId :: jsstr
  accName :: jsstr
  accType :: LedgerAccountType
  accNature :: LedgerAccountNature
  accIcon :: "jsstr option"
  accOpeningBalanceMinor :: int
  accOpeningDate :: jsstr
  accCurrency :: jsstr
  accNote :: jsstr
  accCardNumber :: "jsstr option"
  accArchivedAt :: "int option"
  accVersion :: int
  accCreatedAt :: int
  accUpdatedAt :: int

record LedgerCategory =
  catId :: jsstr
  catKind :: LedgerCategoryKind
  catName :: jsstr
  catNormalizedName :: jsstr
  catSystemKey :: "LedgerCategorySystemKey option"
  catIsDefault :: bool
  catIcon :: "jsstr option"
  catSortOrder :: "int option"
  catArchivedAt :: "int option"
  catVersion :: int
  catCreatedAt :: int
  catUpdatedAt :: int

text \<open>
  \<open>Income\<close> and \<open>Expense\<close> hold account, category and payee; \<open>Transfer\<close> its kind, fee mode, the two
  accounts and the payee; \<open>Adjustment\<close> the account, the calculated and the target balance.
\<close>

datatype TransactionBody =
    Income jsstr jsstr jsstr
  | Expense jsstr jsstr jsstr
  | Transfer LedgerTransferKind "LedgerTransferFeeMode option" jsstr jsstr jsstr
  | Adjustment jsstr int int

record LedgerTransactionBase =
  txId :: jsstr
  txGroupId :: "jsstr option"
  txAmountMinor :: int
  txOccurredAt :: int
  txLocation :: jsstr
  txNote :: jsstr
  txDeletedAt :: "int option"
  txVersion :: int
  txCreatedAt :: int
  txUpdatedAt :: int

record LedgerTransaction = LedgerTransactionBase +
  txBody :: TransactionBody

fun bodyType :: "TransactionBody \<Rightarrow> LedgerTransactionType" where
  "bodyType (Income _ _ _) = IncomeType"
| "bodyType (Expense _ _ _) = ExpenseType"
| "bodyType (Transfer _ _ _ _ _) = TransferType"
| "bodyType (Adjustment _ _ _) = AdjustmentType"

definition txType :: "LedgerTransaction \<Rightarrow> LedgerTransactionType" where
  "txType t = bodyType (txBody t)"

section \<open>Rows\<close>

text \<open>
  A row as the driver returns it: one cell per column, \<open>None\<close> where the row has no such own
  property. A cell can hold any JavaScript value; only the \<open>FromRow\<close> functions give it a type.
\<close>

type_synonym cell = "jsval option"

record LedgerSettingsRow =
  rs_singleton_id :: cell
  rs_base_currency :: cell
  rs_timezone :: cell
  rs_has_created_account :: cell
  rs_version :: cell
  rs_created_at :: cell
  rs_updated_at :: cell
  rs_account_icon_default :: cell
  rs_account_icon_available_json :: cell
  rs_account_icon_archived_json :: cell
  rs_account_icon_custom_json :: cell
  rs_account_icon_names_json :: cell

record LedgerAccountRow =
  ra_id :: cell
  ra_name :: cell
  ra_type :: cell
  ra_nature :: cell
  ra_icon :: cell
  ra_opening_balance_minor :: cell
  ra_opening_date :: cell
  ra_currency :: cell
  ra_note :: cell
  ra_card_number :: cell
  ra_archived_at :: cell
  ra_version :: cell
  ra_created_at :: cell
  ra_updated_at :: cell

record LedgerCategoryRow =
  rc_id :: cell
  rc_kind :: cell
  rc_name :: cell
  rc_normalized_name :: cell
  rc_system_key :: cell
  rc_icon :: cell
  rc_is_default :: cell
  rc_sort_order :: cell
  rc_archived_at :: cell
  rc_version :: cell
  rc_created_at :: cell
  rc_updated_at :: cell

record LedgerTransactionRow =
  rt_id :: cell
  rt_type :: cell
  rt_transfer_kind :: cell
  rt_group_id :: cell
  rt_transfer_fee_mode :: cell
  rt_amount_minor :: cell
  rt_account_id :: cell
  rt_from_account_id :: cell
  rt_to_account_id :: cell
  rt_category_id :: cell
  rt_occurred_at :: cell
  rt_location :: cell
  rt_payee :: cell
  rt_note :: cell
  rt_calculated :: cell
  rt_target :: cell
  rt_deleted_at :: cell
  rt_version :: cell
  rt_created_at :: cell
  rt_updated_at :: cell

text \<open>The SQL value of an optional text or integer.\<close>

fun optStr :: "jsstr option \<Rightarrow> jsval" where
  "optStr None = JNull"
| "optStr (Some s) = JStr s"

fun optInt :: "int option \<Rightarrow> jsval" where
  "optInt None = JNull"
| "optInt (Some i) = JInt i"

lemma optStr_inject [simp]: "optStr x = optStr y \<longleftrightarrow> x = y"
  by (cases x; cases y) auto

lemma optStr_JNull [simp]: "optStr x = JNull \<longleftrightarrow> x = None" "JNull = optStr x \<longleftrightarrow> x = None"
  by (cases x; simp)+

lemma optStr_JStr [simp]: "optStr x = JStr s \<longleftrightarrow> x = Some s" "JStr s = optStr x \<longleftrightarrow> x = Some s"
  by (cases x; auto)+

lemma optInt_JNull [simp]: "optInt x = JNull \<longleftrightarrow> x = None" "JNull = optInt x \<longleftrightarrow> x = None"
  by (cases x; simp)+

lemma optInt_inject [simp]: "optInt x = optInt y \<longleftrightarrow> x = y"
  by (cases x; cases y) auto

end
