(* ===== verification/Domain.thy ===== *)
theory Domain
  imports LedgerTypes
begin

text \<open>
  \<open>server/ledger/domain.ts\<close>: the boundary that turns untrusted rows into domain objects. Every
  reader, check and branch of the \<open>FromRow\<close> functions is modelled, in the code's order. For each
  function one lemma says exactly which rows are accepted and what they mean: the cells the row
  holds and the validity of the object.
\<close>

section \<open>Account pairing\<close>

fun ACCOUNT_NATURES_BY_TYPE :: "LedgerAccountType \<Rightarrow> LedgerAccountNature list" where
  "ACCOUNT_NATURES_BY_TYPE Cash = [Asset]"
| "ACCOUNT_NATURES_BY_TYPE Bank = [Asset]"
| "ACCOUNT_NATURES_BY_TYPE Wallet = [Asset]"
| "ACCOUNT_NATURES_BY_TYPE CreditCard = [Liability]"
| "ACCOUNT_NATURES_BY_TYPE Loan = [Liability]"
| "ACCOUNT_NATURES_BY_TYPE OtherAccount = [Asset, Liability]"

definition isLedgerAccountTypeNature :: "LedgerAccountType \<Rightarrow> LedgerAccountNature \<Rightarrow> bool" where
  "isLedgerAccountTypeNature type nature = List.member (ACCOUNT_NATURES_BY_TYPE type) nature"

section \<open>Cell readers\<close>

abbreviation invalidRow :: "'a res" where
  "invalidRow \<equiv> Inl ledgerValidationError"

abbreviation rowCheck :: "bool \<Rightarrow> unit res" where
  "rowCheck b \<equiv> failUnless b ledgerValidationError"

definition valueAt :: "cell \<Rightarrow> jsval res" where
  "valueAt c = (case c of None \<Rightarrow> invalidRow | Some v \<Rightarrow> Inr v)"

definition requiredString :: "cell \<Rightarrow> jsstr res" where
  "requiredString c = bindR (valueAt c) (\<lambda>v. case v of JStr s \<Rightarrow> Inr s | _ \<Rightarrow> invalidRow)"

definition assertEmptyPayee :: "jsstr \<Rightarrow> unit res" where
  "assertEmptyPayee payee = rowCheck (payee = [])"

definition requiredId :: "cell \<Rightarrow> jsstr res" where
  "requiredId c = bindR (requiredString c) (\<lambda>s. if length s = 0 then invalidRow else Inr s)"

definition nullableId :: "cell \<Rightarrow> jsstr option res" where
  "nullableId c = bindR (valueAt c) (\<lambda>v. case v of
       JNull \<Rightarrow> Inr None
     | JStr s \<Rightarrow> (if length s = 0 then invalidRow else Inr (Some s))
     | _ \<Rightarrow> invalidRow)"

definition requiredNullableId :: "jsstr option \<Rightarrow> jsstr res" where
  "requiredNullableId x = (case x of None \<Rightarrow> invalidRow | Some s \<Rightarrow> Inr s)"

definition safeInteger :: "cell \<Rightarrow> int res" where
  "safeInteger c = bindR (valueAt c) (\<lambda>v. case v of
       JInt i \<Rightarrow> (if safeInt i then Inr i else invalidRow) | _ \<Rightarrow> invalidRow)"

definition positiveVersion :: "cell \<Rightarrow> int res" where
  "positiveVersion c = bindR (safeInteger c) (\<lambda>i. if i < 1 then invalidRow else Inr i)"

definition utcMilliseconds :: "ledger_env \<Rightarrow> cell \<Rightarrow> int res" where
  "utcMilliseconds env c = bindR (safeInteger c) (\<lambda>i.
     catchR (assertUtcMilliseconds env (JInt i)) invalidRow)"

definition nullableUtcMilliseconds :: "ledger_env \<Rightarrow> cell \<Rightarrow> int option res" where
  "nullableUtcMilliseconds env c = bindR (valueAt c) (\<lambda>v. case v of
       JNull \<Rightarrow> Inr None
     | JInt i \<Rightarrow> (if \<not> safeInt i then invalidRow
          else bindR (catchR (assertUtcMilliseconds env (JInt i)) invalidRow) (\<lambda>i. Inr (Some i)))
     | _ \<Rightarrow> invalidRow)"

definition safeMinor :: "cell \<Rightarrow> int res" where
  "safeMinor c = bindR (valueAt c) assertSafeMinor"

definition nullableSafeMinor :: "cell \<Rightarrow> int option res" where
  "nullableSafeMinor c = bindR (valueAt c) (\<lambda>v. case v of
       JNull \<Rightarrow> Inr None | _ \<Rightarrow> bindR (assertSafeMinor v) (\<lambda>i. Inr (Some i)))"

definition enumValue :: "('e \<Rightarrow> jsstr) \<Rightarrow> 'e list \<Rightarrow> cell \<Rightarrow> 'e res" where
  "enumValue text allowed c = bindR (valueAt c) (\<lambda>v.
     case enumOf text allowed v of None \<Rightarrow> invalidRow | Some t \<Rightarrow> Inr t)"

definition nullableEnumValue :: "('e \<Rightarrow> jsstr) \<Rightarrow> 'e list \<Rightarrow> cell \<Rightarrow> 'e option res" where
  "nullableEnumValue text allowed c = bindR (valueAt c) (\<lambda>v. case v of
       JNull \<Rightarrow> Inr None
     | _ \<Rightarrow> (case enumOf text allowed v of None \<Rightarrow> invalidRow | Some t \<Rightarrow> Inr (Some t)))"

definition persistedCurrency :: "cell \<Rightarrow> jsstr res" where
  "persistedCurrency c = bindR (requiredString c) (\<lambda>s.
     bindR (catchR (normalizeLedgerCurrencyCode (JStr s)) invalidRow) (\<lambda>normalized.
     if normalized \<noteq> s \<or> \<not> isSupportedLedgerCurrency (JStr s) then invalidRow else Inr s))"

definition persistedTimezone :: "ledger_env \<Rightarrow> cell \<Rightarrow> jsstr res" where
  "persistedTimezone env c = bindR (requiredString c) (\<lambda>s.
     if \<not> isIanaTimeZoneId env (JStr s) then invalidRow else Inr s)"

definition persistedOpeningDate :: "ledger_env \<Rightarrow> cell \<Rightarrow> jsstr res" where
  "persistedOpeningDate env c = bindR (requiredString c) (\<lambda>s.
     catchR (assertOpeningDate env (JStr s)) invalidRow)"

definition persistedName :: "cell \<Rightarrow> jsstr res" where
  "persistedName c = bindR (requiredString c) (\<lambda>s. if length (trim s) = 0 then invalidRow else Inr s)"

text \<open>What each reader accepts.\<close>

definition utcOk :: "ledger_env \<Rightarrow> int \<Rightarrow> bool" where
  "utcOk env i \<longleftrightarrow> safeInt i \<and> instantOk env i"

definition currencyOk :: "jsstr \<Rightarrow> bool" where
  "currencyOk s \<longleftrightarrow> normalizeLedgerCurrencyCode (JStr s) = Inr s \<and> isSupportedLedgerCurrency (JStr s)"

definition optUtcOk :: "ledger_env \<Rightarrow> int option \<Rightarrow> bool" where
  "optUtcOk env x = (case x of None \<Rightarrow> True | Some i \<Rightarrow> utcOk env i)"

lemma optUtcOk_simps [simp]: "optUtcOk env None" "optUtcOk env (Some i) = utcOk env i"
  by (simp_all add: optUtcOk_def)

lemma valueAt_iff [led_simps]: "valueAt c = Inr v \<longleftrightarrow> c = Some v"
  by (auto simp: valueAt_def split: option.splits)

lemma requiredString_iff [led_simps]: "requiredString c = Inr s \<longleftrightarrow> c = Some (JStr s)"
  by (auto simp: requiredString_def led_simps split: jsval.split_asm)

lemma requiredId_iff [led_simps]: "requiredId c = Inr s \<longleftrightarrow> c = Some (JStr s) \<and> s \<noteq> []"
  by (auto simp: requiredId_def led_simps split: if_split_asm)

lemma nullableId_iff [led_simps]: "nullableId c = Inr x \<longleftrightarrow> c = Some (optStr x) \<and> x \<noteq> Some []"
  by (cases x) (auto simp: nullableId_def led_simps split: jsval.split_asm if_split_asm)

lemma requiredNullableId_iff [led_simps]: "requiredNullableId x = Inr s \<longleftrightarrow> x = Some s"
  by (auto simp: requiredNullableId_def split: option.splits)

lemma safeInteger_iff [led_simps]: "safeInteger c = Inr i \<longleftrightarrow> c = Some (JInt i) \<and> safeInt i"
  by (auto simp: safeInteger_def led_simps split: jsval.split_asm if_split_asm)

lemma positiveVersion_iff [led_simps]:
  "positiveVersion c = Inr i \<longleftrightarrow> c = Some (JInt i) \<and> safeInt i \<and> 1 \<le> i"
proof (cases "safeInteger c")
  case (Inl e)
  then show ?thesis using safeInteger_iff [of c i] by (auto simp: positiveVersion_def)
next
  case (Inr j)
  then show ?thesis using safeInteger_iff [of c j] safeInteger_iff [of c i]
    by (auto simp: positiveVersion_def not_less)
qed

lemma utcMilliseconds_iff [led_simps]:
  "utcMilliseconds env c = Inr i \<longleftrightarrow> c = Some (JInt i) \<and> utcOk env i"
  by (auto simp: utcMilliseconds_def led_simps utcOk_def)

lemma nullableUtcMilliseconds_iff [led_simps]:
  "nullableUtcMilliseconds env c = Inr x \<longleftrightarrow> c = Some (optInt x) \<and> optUtcOk env x"
  by (cases x) (auto simp: nullableUtcMilliseconds_def led_simps utcOk_def
      split: jsval.split_asm if_split_asm)

lemma safeMinor_iff [led_simps]: "safeMinor c = Inr i \<longleftrightarrow> c = Some (JInt i) \<and> safeInt i"
  by (auto simp: safeMinor_def led_simps)

lemma nullableSafeMinor_iff [led_simps]:
  "nullableSafeMinor c = Inr x \<longleftrightarrow> c = Some (optInt x) \<and> (case x of None \<Rightarrow> True | Some i \<Rightarrow> safeInt i)"
  by (cases x) (auto simp: nullableSafeMinor_def led_simps split: jsval.split_asm if_split_asm)

lemma enumOf_None_text: "(\<And>t. t \<in> set allowed) \<Longrightarrow> enumOf text allowed (JStr (text t)) = None \<Longrightarrow> False"
  by (force simp: enumOf_def find_None_iff)

lemma enumValue_iff:
  assumes "inj text" and "\<And>t. t \<in> set allowed"
  shows "enumValue text allowed c = Inr t \<longleftrightarrow> c = Some (JStr (text t))"
proof -
  have iff: "enumOf text allowed v = Some u \<longleftrightarrow> v = JStr (text u)" for u v
    using assms by (simp add: enumOf_iff)
  have same: "text u = text v \<longleftrightarrow> u = v" for u v
    using assms(1) by (auto simp: inj_def)
  show ?thesis
    by (cases c) (auto simp: enumValue_def valueAt_def iff same split: option.split dest: enumOf_None_text [OF assms(2)])
qed

lemma nullableEnumValue_iff:
  assumes "inj text" and "\<And>t. t \<in> set allowed"
  shows "nullableEnumValue text allowed c = Inr x \<longleftrightarrow> c = Some (optStr (map_option text x))"
proof -
  have iff: "enumOf text allowed v = Some u \<longleftrightarrow> v = JStr (text u)" for u v
    using assms by (simp add: enumOf_iff)
  have same: "text u = text v \<longleftrightarrow> u = v" for u v
    using assms(1) by (auto simp: inj_def)
  show ?thesis
  proof (cases "\<exists>v. c = Some v \<and> v \<noteq> JNull")
    case False
    then show ?thesis by (cases c; cases x) (auto simp: nullableEnumValue_def valueAt_def)
  next
    case True
    then obtain v where "c = Some v" "v \<noteq> JNull" by blast
    then have "nullableEnumValue text allowed c =
        (case enumOf text allowed v of None \<Rightarrow> invalidRow | Some t \<Rightarrow> Inr (Some t))"
      by (cases v) (simp_all add: nullableEnumValue_def valueAt_def)
    with \<open>c = Some v\<close> \<open>v \<noteq> JNull\<close> show ?thesis
      by (cases x) (auto simp: iff same split: option.split dest: enumOf_None_text [OF assms(2)])
  qed
qed

lemmas enumValue_iffs [led_simps] =
  enumValue_iff [of accountTypeText LEDGER_ACCOUNT_TYPES, OF text_inj(1) all_members(1)]
  enumValue_iff [of natureText LEDGER_ACCOUNT_NATURES, OF text_inj(2) all_members(2)]
  enumValue_iff [of kindText LEDGER_CATEGORY_KINDS, OF text_inj(3) all_members(3)]
  enumValue_iff [of transactionTypeText LEDGER_TRANSACTION_TYPES, OF text_inj(5) all_members(5)]
  nullableEnumValue_iff [of systemKeyText LEDGER_SYSTEM_KEYS, OF text_inj(4) all_members(4)]
  nullableEnumValue_iff [of transferKindText LEDGER_TRANSFER_KINDS, OF text_inj(6) all_members(6)]
  nullableEnumValue_iff [of feeModeText LEDGER_TRANSFER_FEE_MODES, OF text_inj(7) all_members(7)]

lemma persistedCurrency_iff [led_simps]:
  "persistedCurrency c = Inr s \<longleftrightarrow> c = Some (JStr s) \<and> currencyOk s"
  by (auto simp: persistedCurrency_def led_simps currencyOk_def
      simp del: normalizeLedgerCurrencyCode.simps split: if_split_asm)

lemma persistedTimezone_iff [led_simps]:
  "persistedTimezone env c = Inr s \<longleftrightarrow> c = Some (JStr s) \<and> isIanaTimeZoneId env (JStr s)"
  by (auto simp: persistedTimezone_def led_simps split: if_split_asm)

lemma persistedOpeningDate_iff [led_simps]:
  "persistedOpeningDate env c = Inr s \<longleftrightarrow> c = Some (JStr s) \<and> assertOpeningDate env (JStr s) = Inr s"
  by (auto simp: persistedOpeningDate_def led_simps)

lemma persistedName_iff [led_simps]:
  "persistedName c = Inr s \<longleftrightarrow> c = Some (JStr s) \<and> trim s \<noteq> []"
  by (auto simp: persistedName_def led_simps split: if_split_asm)

section \<open>Settings\<close>

text \<open>Plain objects: setting a property, and the spread \<open>{ ...a, ...b }\<close>.\<close>

fun objSet :: "'k \<Rightarrow> 'v \<Rightarrow> ('k \<times> 'v) list \<Rightarrow> ('k \<times> 'v) list" where
  "objSet k v [] = [(k, v)]"
| "objSet k v ((k', v') # r) = (if k = k' then (k, v) # r else (k', v') # objSet k v r)"

definition objMerge :: "('k \<times> 'v) list \<Rightarrow> ('k \<times> 'v) list \<Rightarrow> ('k \<times> 'v) list" where
  "objMerge a b = foldl (\<lambda>acc (k, v). objSet k v acc) a b"

text \<open>\<open>[...new Set(xs)]\<close>: the first occurrence of each element.\<close>

definition dedup :: "'a list \<Rightarrow> 'a list" where
  "dedup xs = rev (remdups (rev xs))"

definition isText :: "jsval \<Rightarrow> bool" where
  "isText v = (case v of JStr _ \<Rightarrow> True | _ \<Rightarrow> False)"

definition textOf :: "jsval \<Rightarrow> jsstr" where
  "textOf v = (case v of JStr s \<Rightarrow> s | _ \<Rightarrow> [])"

definition jsonArray :: "ledger_env \<Rightarrow> cell \<Rightarrow> jsstr list \<Rightarrow> jsstr list" where
  "jsonArray env c fallback = (case c of
       Some (JStr s) \<Rightarrow> (case jsonParse env s of
           Some (JArr xs) \<Rightarrow> (if list_all isText xs then map textOf xs else fallback)
         | _ \<Rightarrow> fallback)
     | _ \<Rightarrow> fallback)"

definition jsonRecord :: "ledger_env \<Rightarrow> cell \<Rightarrow> (jsstr \<times> jsstr) list" where
  "jsonRecord env c = (case c of
       Some (JStr s) \<Rightarrow> (case jsonParse env s of
           Some (JObj r) \<Rightarrow> (if list_all (\<lambda>(k, v). isText v) r then map (\<lambda>(k, v). (k, textOf v)) r else [])
         | _ \<Rightarrow> [])
     | _ \<Rightarrow> [])"

definition accountIconsFromRow :: "ledger_env \<Rightarrow> LedgerSettingsRow \<Rightarrow> LedgerAccountIconConfig" where
  "accountIconsFromRow env r =
     (let storedAvailableIcons = jsonArray env (rs_account_icon_available_json r) [];
          storedArchivedIcons = jsonArray env (rs_account_icon_archived_json r) [];
          storedIconNames = jsonRecord env (rs_account_icon_names_json r);
          storedNames = map snd storedIconNames;
          missingDefaults = filter (\<lambda>icon. case map_of LEDGER_BUILTIN_ACCOUNT_ICONS icon of
              None \<Rightarrow> True | Some builtinName \<Rightarrow> builtinName \<notin> set storedNames) LEDGER_DEFAULT_ACCOUNT_ICONS;
          available = dedup (missingDefaults @ storedAvailableIcons)
      in \<lparr>defaultIcon = (case rs_account_icon_default r of Some (JStr s) \<Rightarrow> s | _ \<Rightarrow> js ''wallet''),
          availableIcons = available,
          archivedIcons = Some (filter (\<lambda>icon. icon \<notin> set available) storedArchivedIcons),
          customIcons = jsonRecord env (rs_account_icon_custom_json r),
          customIconNames = objMerge LEDGER_BUILTIN_ACCOUNT_ICONS storedIconNames\<rparr>)"

definition ledgerSettingsFromRow :: "ledger_env \<Rightarrow> LedgerSettingsRow \<Rightarrow> LedgerSettings res" where
  "ledgerSettingsFromRow env r =
     bindR (safeInteger (rs_singleton_id r)) (\<lambda>singletonId.
     bindR (rowCheck (singletonId = 1)) (\<lambda>_.
     bindR (safeInteger (rs_has_created_account r)) (\<lambda>marker.
     bindR (rowCheck (marker = 0 \<or> marker = 1)) (\<lambda>_.
     bindR (persistedCurrency (rs_base_currency r)) (\<lambda>baseCurrency.
     bindR (persistedTimezone env (rs_timezone r)) (\<lambda>timezone.
     bindR (positiveVersion (rs_version r)) (\<lambda>version.
     bindR (utcMilliseconds env (rs_created_at r)) (\<lambda>createdAt.
     bindR (utcMilliseconds env (rs_updated_at r)) (\<lambda>updatedAt.
     Inr \<lparr>setBaseCurrency = baseCurrency, setTimezone = timezone,
          setHasCreatedAccount = (marker = 1), setVersion = version, setCreatedAt = createdAt,
          setUpdatedAt = updatedAt, setAccountIcons = accountIconsFromRow env r\<rparr>)))))))))"

definition boolInt :: "bool \<Rightarrow> int" where
  "boolInt b = (if b then 1 else 0)"

lemma boolInt_inject [simp]: "boolInt b = boolInt c \<longleftrightarrow> b = c" "boolInt b = 1 \<longleftrightarrow> b" "boolInt b = 0 \<longleftrightarrow> \<not> b"
  "safeInt (boolInt b)"
  by (auto simp: boolInt_def safeInt_def MAX_SAFE_INTEGER_def)

definition valid_settings :: "ledger_env \<Rightarrow> LedgerSettings \<Rightarrow> bool" where
  "valid_settings env s \<longleftrightarrow> currencyOk (setBaseCurrency s) \<and> isIanaTimeZoneId env (JStr (setTimezone s))
     \<and> safeInt (setVersion s) \<and> 1 \<le> setVersion s \<and> utcOk env (setCreatedAt s) \<and> utcOk env (setUpdatedAt s)"

lemma ledgerSettingsFromRow_iff:
  "ledgerSettingsFromRow env r = Inr s \<longleftrightarrow> valid_settings env s
     \<and> rs_singleton_id r = Some (JInt 1)
     \<and> rs_has_created_account r = Some (JInt (boolInt (setHasCreatedAccount s)))
     \<and> rs_base_currency r = Some (JStr (setBaseCurrency s))
     \<and> rs_timezone r = Some (JStr (setTimezone s))
     \<and> rs_version r = Some (JInt (setVersion s))
     \<and> rs_created_at r = Some (JInt (setCreatedAt s))
     \<and> rs_updated_at r = Some (JInt (setUpdatedAt s))
     \<and> setAccountIcons s = accountIconsFromRow env r"
  by (cases s) (auto simp: ledgerSettingsFromRow_def led_simps valid_settings_def boolInt_def
      safeInt_def MAX_SAFE_INTEGER_def)

section \<open>Accounts\<close>

text \<open>\<open>record.icon && record.icon !== 'wallet' ? { icon: record.icon } : {}\<close> on a text cell.\<close>

definition persistedIcon :: "cell \<Rightarrow> jsstr option" where
  "persistedIcon c = (case c of
     Some (JStr s) \<Rightarrow> if s \<noteq> [] \<and> s \<noteq> js ''wallet'' then Some s else None | _ \<Rightarrow> None)"

definition persistedCardNumber :: "cell \<Rightarrow> jsstr option" where
  "persistedCardNumber c = (case c of Some (JStr s) \<Rightarrow> if s \<noteq> [] then Some s else None | _ \<Rightarrow> None)"

definition ledgerAccountFromRow :: "ledger_env \<Rightarrow> LedgerAccountRow \<Rightarrow> LedgerAccount res" where
  "ledgerAccountFromRow env r =
     bindR (enumValue accountTypeText LEDGER_ACCOUNT_TYPES (ra_type r)) (\<lambda>type.
     bindR (enumValue natureText LEDGER_ACCOUNT_NATURES (ra_nature r)) (\<lambda>nature.
     bindR (rowCheck (isLedgerAccountTypeNature type nature)) (\<lambda>_.
     bindR (requiredId (ra_id r)) (\<lambda>id.
     bindR (persistedName (ra_name r)) (\<lambda>name.
     bindR (safeMinor (ra_opening_balance_minor r)) (\<lambda>opening.
     bindR (persistedOpeningDate env (ra_opening_date r)) (\<lambda>date.
     bindR (persistedCurrency (ra_currency r)) (\<lambda>currency.
     bindR (requiredString (ra_note r)) (\<lambda>note.
     bindR (nullableUtcMilliseconds env (ra_archived_at r)) (\<lambda>archivedAt.
     bindR (positiveVersion (ra_version r)) (\<lambda>version.
     bindR (utcMilliseconds env (ra_created_at r)) (\<lambda>createdAt.
     bindR (utcMilliseconds env (ra_updated_at r)) (\<lambda>updatedAt.
     Inr \<lparr>accId = id, accName = name, accType = type, accNature = nature,
          accIcon = persistedIcon (ra_icon r), accOpeningBalanceMinor = opening,
          accOpeningDate = date, accCurrency = currency, accNote = note,
          accCardNumber = persistedCardNumber (ra_card_number r), accArchivedAt = archivedAt,
          accVersion = version, accCreatedAt = createdAt, accUpdatedAt = updatedAt\<rparr>)))))))))))))"

definition valid_acc :: "ledger_env \<Rightarrow> LedgerAccount \<Rightarrow> bool" where
  "valid_acc env a \<longleftrightarrow> isLedgerAccountTypeNature (accType a) (accNature a) \<and> accId a \<noteq> []
     \<and> trim (accName a) \<noteq> [] \<and> safeInt (accOpeningBalanceMinor a)
     \<and> assertOpeningDate env (JStr (accOpeningDate a)) = Inr (accOpeningDate a)
     \<and> currencyOk (accCurrency a) \<and> optUtcOk env (accArchivedAt a) \<and> safeInt (accVersion a)
     \<and> 1 \<le> accVersion a \<and> utcOk env (accCreatedAt a) \<and> utcOk env (accUpdatedAt a)"

lemma ledgerAccountFromRow_iff:
  "ledgerAccountFromRow env r = Inr a \<longleftrightarrow> valid_acc env a
     \<and> ra_id r = Some (JStr (accId a)) \<and> ra_name r = Some (JStr (accName a))
     \<and> ra_type r = Some (JStr (accountTypeText (accType a)))
     \<and> ra_nature r = Some (JStr (natureText (accNature a)))
     \<and> accIcon a = persistedIcon (ra_icon r)
     \<and> ra_opening_balance_minor r = Some (JInt (accOpeningBalanceMinor a))
     \<and> ra_opening_date r = Some (JStr (accOpeningDate a))
     \<and> ra_currency r = Some (JStr (accCurrency a)) \<and> ra_note r = Some (JStr (accNote a))
     \<and> accCardNumber a = persistedCardNumber (ra_card_number r)
     \<and> ra_archived_at r = Some (optInt (accArchivedAt a)) \<and> ra_version r = Some (JInt (accVersion a))
     \<and> ra_created_at r = Some (JInt (accCreatedAt a)) \<and> ra_updated_at r = Some (JInt (accUpdatedAt a))"
  by (cases a) (auto simp: ledgerAccountFromRow_def led_simps valid_acc_def)

section \<open>Categories\<close>

text \<open>\<open>normalizeLedgerCategoryName\<close>.\<close>

definition normalizeLedgerCategoryName :: "ledger_env \<Rightarrow> jsstr \<Rightarrow> jsstr" where
  "normalizeLedgerCategoryName env value = toLowerCase env (trim value)"

definition optionalCell :: "(cell \<Rightarrow> 'a res) \<Rightarrow> 'a \<Rightarrow> cell \<Rightarrow> 'a res" where
  "optionalCell read missing c = (case c of None \<Rightarrow> Inr missing | Some _ \<Rightarrow> read c)"

lemma optionalCell_iff [led_simps]:
  "optionalCell f d c = Inr x \<longleftrightarrow> (c = None \<and> x = d) \<or> (c \<noteq> None \<and> f c = Inr x)"
  by (cases c) (auto simp: optionalCell_def)

definition ledgerCategoryFromRow :: "ledger_env \<Rightarrow> LedgerCategoryRow \<Rightarrow> LedgerCategory res" where
  "ledgerCategoryFromRow env r =
     bindR (persistedName (rc_name r)) (\<lambda>name.
     bindR (requiredString (rc_normalized_name r)) (\<lambda>normalizedName.
     bindR (optionalCell (nullableEnumValue systemKeyText LEDGER_SYSTEM_KEYS) None (rc_system_key r)) (\<lambda>systemKey.
     bindR (optionalCell safeInteger 0 (rc_is_default r)) (\<lambda>isDefault.
     bindR (rowCheck (isDefault = 0 \<or> isDefault = 1)) (\<lambda>_.
     bindR (optionalCell (\<lambda>c. bindR (safeInteger c) (\<lambda>i. Inr (Some i))) None (rc_sort_order r)) (\<lambda>sortOrder.
     bindR (rowCheck (case sortOrder of None \<Rightarrow> True | Some i \<Rightarrow> \<not> i < 0)) (\<lambda>_.
     bindR (rowCheck (\<not> (length normalizedName = 0
              \<or> normalizedName \<noteq> normalizeLedgerCategoryName env name))) (\<lambda>_.
     bindR (enumValue kindText LEDGER_CATEGORY_KINDS (rc_kind r)) (\<lambda>kind.
     bindR (rowCheck (\<not> (systemKey \<noteq> None \<and> kind \<noteq> ExpenseKind))) (\<lambda>_.
     bindR (requiredId (rc_id r)) (\<lambda>id.
     bindR (nullableUtcMilliseconds env (rc_archived_at r)) (\<lambda>archivedAt.
     bindR (positiveVersion (rc_version r)) (\<lambda>version.
     bindR (utcMilliseconds env (rc_created_at r)) (\<lambda>createdAt.
     bindR (utcMilliseconds env (rc_updated_at r)) (\<lambda>updatedAt.
     Inr \<lparr>catId = id, catKind = kind, catName = name, catNormalizedName = normalizedName,
          catSystemKey = systemKey, catIsDefault = (isDefault = 1),
          catIcon = persistedIcon (rc_icon r), catSortOrder = sortOrder,
          catArchivedAt = archivedAt, catVersion = version, catCreatedAt = createdAt,
          catUpdatedAt = updatedAt\<rparr>)))))))))))))))"

definition valid_cat :: "ledger_env \<Rightarrow> LedgerCategory \<Rightarrow> bool" where
  "valid_cat env c \<longleftrightarrow> trim (catName c) \<noteq> [] \<and> catNormalizedName c \<noteq> []
     \<and> catNormalizedName c = normalizeLedgerCategoryName env (catName c)
     \<and> (catSystemKey c \<noteq> None \<longrightarrow> catKind c = ExpenseKind)
     \<and> (case catSortOrder c of None \<Rightarrow> True | Some i \<Rightarrow> 0 \<le> i \<and> safeInt i)
     \<and> catId c \<noteq> [] \<and> optUtcOk env (catArchivedAt c) \<and> safeInt (catVersion c)
     \<and> 1 \<le> catVersion c \<and> utcOk env (catCreatedAt c) \<and> utcOk env (catUpdatedAt c)"

text \<open>A row that has every column a statement of the repository names.\<close>

definition fullCategoryRow :: "LedgerCategoryRow \<Rightarrow> bool" where
  "fullCategoryRow r \<longleftrightarrow> rc_system_key r \<noteq> None \<and> rc_is_default r \<noteq> None \<and> rc_sort_order r \<noteq> None"

lemma ledgerCategoryFromRow_iff:
  assumes "fullCategoryRow r"
  shows "ledgerCategoryFromRow env r = Inr c \<longleftrightarrow> valid_cat env c
     \<and> rc_id r = Some (JStr (catId c)) \<and> rc_kind r = Some (JStr (kindText (catKind c)))
     \<and> rc_name r = Some (JStr (catName c)) \<and> rc_normalized_name r = Some (JStr (catNormalizedName c))
     \<and> rc_system_key r = Some (optStr (map_option systemKeyText (catSystemKey c)))
     \<and> catIcon c = persistedIcon (rc_icon r)
     \<and> rc_is_default r = Some (JInt (boolInt (catIsDefault c)))
     \<and> (\<exists>i. catSortOrder c = Some i \<and> rc_sort_order r = Some (JInt i))
     \<and> rc_archived_at r = Some (optInt (catArchivedAt c)) \<and> rc_version r = Some (JInt (catVersion c))
     \<and> rc_created_at r = Some (JInt (catCreatedAt c)) \<and> rc_updated_at r = Some (JInt (catUpdatedAt c))"
  using assms
  by (cases c) (auto simp: ledgerCategoryFromRow_def led_simps valid_cat_def fullCategoryRow_def
      boolInt_def not_less)

section \<open>Transactions\<close>

definition readTransactionBase :: "ledger_env \<Rightarrow> LedgerTransactionRow \<Rightarrow> (LedgerTransactionBase \<times> jsstr) res" where
  "readTransactionBase env r =
     bindR (optionalCell nullableId None (rt_group_id r)) (\<lambda>groupId.
     bindR (requiredId (rt_id r)) (\<lambda>id.
     bindR (safeMinor (rt_amount_minor r)) (\<lambda>amountMinor.
     bindR (utcMilliseconds env (rt_occurred_at r)) (\<lambda>occurredAt.
     bindR (if rt_location r = None \<or> rt_location r = Some JUndefined then Inr []
            else requiredString (rt_location r)) (\<lambda>location.
     bindR (requiredString (rt_payee r)) (\<lambda>payee.
     bindR (requiredString (rt_note r)) (\<lambda>note.
     bindR (nullableUtcMilliseconds env (rt_deleted_at r)) (\<lambda>deletedAt.
     bindR (positiveVersion (rt_version r)) (\<lambda>version.
     bindR (utcMilliseconds env (rt_created_at r)) (\<lambda>createdAt.
     bindR (utcMilliseconds env (rt_updated_at r)) (\<lambda>updatedAt.
     Inr (\<lparr>txId = id, txGroupId = groupId, txAmountMinor = amountMinor, txOccurredAt = occurredAt,
           txLocation = location, txNote = note, txDeletedAt = deletedAt, txVersion = version,
           txCreatedAt = createdAt, txUpdatedAt = updatedAt\<rparr>, payee))))))))))))"

text \<open>\<open>{ ...withoutPayee, type, \<dots> }\<close>: the shared fields extended by a body.\<close>

definition withBody :: "LedgerTransactionBase \<Rightarrow> TransactionBody \<Rightarrow> LedgerTransaction" where
  "withBody base body =
     \<lparr>txId = txId base, txGroupId = txGroupId base, txAmountMinor = txAmountMinor base,
      txOccurredAt = txOccurredAt base, txLocation = txLocation base, txNote = txNote base,
      txDeletedAt = txDeletedAt base, txVersion = txVersion base, txCreatedAt = txCreatedAt base,
      txUpdatedAt = txUpdatedAt base, txBody = body\<rparr>"

text \<open>The branches of the \<open>switch (type)\<close>.\<close>

definition incomeOrExpenseBody ::
    "(jsstr \<Rightarrow> jsstr \<Rightarrow> jsstr \<Rightarrow> TransactionBody) \<Rightarrow> LedgerTransferKind option \<Rightarrow>
     LedgerTransferFeeMode option \<Rightarrow> int \<Rightarrow> jsstr option \<Rightarrow> jsstr option \<Rightarrow> jsstr option \<Rightarrow>
     jsstr option \<Rightarrow> jsstr \<Rightarrow> int option \<Rightarrow> int option \<Rightarrow> TransactionBody res" where
  "incomeOrExpenseBody con transferKind feeMode amount accountId fromAccountId toAccountId categoryId payee
       calculated target =
     bindR (rowCheck (transferKind = None)) (\<lambda>_.
     bindR (rowCheck (feeMode = None)) (\<lambda>_.
     bindR (assertPositiveMinor (JInt amount)) (\<lambda>_.
     bindR (rowCheck (fromAccountId = None)) (\<lambda>_.
     bindR (rowCheck (toAccountId = None)) (\<lambda>_.
     bindR (rowCheck (calculated = None)) (\<lambda>_.
     bindR (rowCheck (target = None)) (\<lambda>_.
     bindR (requiredNullableId accountId) (\<lambda>account.
     bindR (requiredNullableId categoryId) (\<lambda>category.
     Inr (con account category payee))))))))))"

definition transferBody ::
    "LedgerTransferKind option \<Rightarrow> LedgerTransferFeeMode option \<Rightarrow> jsstr option \<Rightarrow> int \<Rightarrow>
     jsstr option \<Rightarrow> jsstr option \<Rightarrow> jsstr option \<Rightarrow> jsstr option \<Rightarrow> jsstr \<Rightarrow>
     int option \<Rightarrow> int option \<Rightarrow> TransactionBody res" where
  "transferBody transferKind feeMode groupId amount accountId fromAccountId toAccountId categoryId payee
       calculated target =
     (case transferKind of None \<Rightarrow> invalidRow | Some kind \<Rightarrow>
     bindR (rowCheck (\<not> (feeMode \<noteq> None \<and> (kind \<noteq> Withdrawal \<or> groupId = None)))) (\<lambda>_.
     bindR (assertPositiveMinor (JInt amount)) (\<lambda>_.
     bindR (rowCheck (accountId = None)) (\<lambda>_.
     bindR (rowCheck (categoryId = None)) (\<lambda>_.
     bindR (rowCheck (calculated = None)) (\<lambda>_.
     bindR (rowCheck (target = None)) (\<lambda>_.
     bindR (requiredNullableId fromAccountId) (\<lambda>transferFrom.
     bindR (requiredNullableId toAccountId) (\<lambda>transferTo.
     bindR (rowCheck (transferFrom \<noteq> transferTo)) (\<lambda>_.
     Inr (Transfer kind feeMode transferFrom transferTo payee)))))))))))"

definition adjustmentBody ::
    "LedgerTransferKind option \<Rightarrow> LedgerTransferFeeMode option \<Rightarrow> int \<Rightarrow> jsstr option \<Rightarrow>
     jsstr option \<Rightarrow> jsstr option \<Rightarrow> jsstr option \<Rightarrow> jsstr \<Rightarrow> int option \<Rightarrow> int option \<Rightarrow>
     TransactionBody res" where
  "adjustmentBody transferKind feeMode amount accountId fromAccountId toAccountId categoryId payee
       calculated target =
     bindR (rowCheck (transferKind = None)) (\<lambda>_.
     bindR (rowCheck (feeMode = None)) (\<lambda>_.
     bindR (rowCheck (amount \<noteq> 0)) (\<lambda>_.
     bindR (rowCheck (fromAccountId = None)) (\<lambda>_.
     bindR (rowCheck (toAccountId = None)) (\<lambda>_.
     bindR (rowCheck (categoryId = None)) (\<lambda>_.
     bindR (assertEmptyPayee payee) (\<lambda>_.
     case calculated of None \<Rightarrow> invalidRow | Some calc \<Rightarrow>
       (case target of None \<Rightarrow> invalidRow | Some tgt \<Rightarrow>
         bindR (checkedSubMinor tgt calc) (\<lambda>expectedDelta.
         bindR (rowCheck (amount = expectedDelta)) (\<lambda>_.
         bindR (requiredNullableId accountId) (\<lambda>account.
         Inr (Adjustment account calc tgt))))))))))))"

definition ledgerTransactionFromRow :: "ledger_env \<Rightarrow> LedgerTransactionRow \<Rightarrow> LedgerTransaction res" where
  "ledgerTransactionFromRow env r =
     bindR (enumValue transactionTypeText LEDGER_TRANSACTION_TYPES (rt_type r)) (\<lambda>type.
     bindR (nullableEnumValue transferKindText LEDGER_TRANSFER_KINDS (rt_transfer_kind r)) (\<lambda>transferKind.
     bindR (optionalCell (nullableEnumValue feeModeText LEDGER_TRANSFER_FEE_MODES) None
              (rt_transfer_fee_mode r)) (\<lambda>feeMode.
     bindR (readTransactionBase env r) (\<lambda>(base, payee).
     bindR (nullableId (rt_account_id r)) (\<lambda>accountId.
     bindR (nullableId (rt_from_account_id r)) (\<lambda>fromAccountId.
     bindR (nullableId (rt_to_account_id r)) (\<lambda>toAccountId.
     bindR (nullableId (rt_category_id r)) (\<lambda>categoryId.
     bindR (nullableSafeMinor (rt_calculated r)) (\<lambda>calculated.
     bindR (nullableSafeMinor (rt_target r)) (\<lambda>target.
     bindR (case type of
         IncomeType \<Rightarrow> incomeOrExpenseBody Income transferKind feeMode (txAmountMinor base) accountId
           fromAccountId toAccountId categoryId payee calculated target
       | ExpenseType \<Rightarrow> incomeOrExpenseBody Expense transferKind feeMode (txAmountMinor base) accountId
           fromAccountId toAccountId categoryId payee calculated target
       | TransferType \<Rightarrow> transferBody transferKind feeMode (txGroupId base) (txAmountMinor base) accountId
           fromAccountId toAccountId categoryId payee calculated target
       | AdjustmentType \<Rightarrow> adjustmentBody transferKind feeMode (txAmountMinor base) accountId
           fromAccountId toAccountId categoryId payee calculated target)
     (\<lambda>body. Inr (withBody base body))))))))))))"

text \<open>The validity of a transaction, and the cells of the row that holds it.\<close>

fun validBody :: "jsstr option \<Rightarrow> int \<Rightarrow> TransactionBody \<Rightarrow> bool" where
  "validBody g amt (Income a c p) \<longleftrightarrow> 0 < amt \<and> a \<noteq> [] \<and> c \<noteq> []"
| "validBody g amt (Expense a c p) \<longleftrightarrow> 0 < amt \<and> a \<noteq> [] \<and> c \<noteq> []"
| "validBody g amt (Transfer k m f t p) \<longleftrightarrow> 0 < amt \<and> f \<noteq> [] \<and> t \<noteq> [] \<and> f \<noteq> t
     \<and> (m \<noteq> None \<longrightarrow> k = Withdrawal \<and> g \<noteq> None)"
| "validBody g amt (Adjustment a calc tgt) \<longleftrightarrow> a \<noteq> [] \<and> safeInt calc \<and> safeInt tgt
     \<and> amt = tgt - calc \<and> amt \<noteq> 0"

definition valid_tx :: "ledger_env \<Rightarrow> LedgerTransaction \<Rightarrow> bool" where
  "valid_tx env t \<longleftrightarrow> txId t \<noteq> [] \<and> txGroupId t \<noteq> Some [] \<and> safeInt (txAmountMinor t)
     \<and> utcOk env (txOccurredAt t) \<and> optUtcOk env (txDeletedAt t) \<and> safeInt (txVersion t)
     \<and> 1 \<le> txVersion t \<and> utcOk env (txCreatedAt t) \<and> utcOk env (txUpdatedAt t)
     \<and> validBody (txGroupId t) (txAmountMinor t) (txBody t)"

text \<open>\<open>transactionParams\<close> of \<open>repository.ts\<close>: the parameters an INSERT or UPDATE binds.\<close>

fun bodyAccount :: "TransactionBody \<Rightarrow> jsstr option" where
  "bodyAccount (Income a _ _) = Some a"
| "bodyAccount (Expense a _ _) = Some a"
| "bodyAccount (Transfer _ _ _ _ _) = None"
| "bodyAccount (Adjustment a _ _) = Some a"

fun bodyFrom :: "TransactionBody \<Rightarrow> jsstr option" where
  "bodyFrom (Transfer _ _ f _ _) = Some f"
| "bodyFrom _ = None"

fun bodyTo :: "TransactionBody \<Rightarrow> jsstr option" where
  "bodyTo (Transfer _ _ _ t _) = Some t"
| "bodyTo _ = None"

fun bodyCategory :: "TransactionBody \<Rightarrow> jsstr option" where
  "bodyCategory (Income _ c _) = Some c"
| "bodyCategory (Expense _ c _) = Some c"
| "bodyCategory _ = None"

fun bodyKind :: "TransactionBody \<Rightarrow> LedgerTransferKind option" where
  "bodyKind (Transfer k _ _ _ _) = Some k"
| "bodyKind _ = None"

fun bodyFeeMode :: "TransactionBody \<Rightarrow> LedgerTransferFeeMode option" where
  "bodyFeeMode (Transfer _ m _ _ _) = m"
| "bodyFeeMode _ = None"

fun bodyPayee :: "TransactionBody \<Rightarrow> jsstr" where
  "bodyPayee (Income _ _ p) = p"
| "bodyPayee (Expense _ _ p) = p"
| "bodyPayee (Transfer _ _ _ _ p) = p"
| "bodyPayee (Adjustment _ _ _) = []"

fun bodyCalculated :: "TransactionBody \<Rightarrow> int option" where
  "bodyCalculated (Adjustment _ c _) = Some c"
| "bodyCalculated _ = None"

fun bodyTarget :: "TransactionBody \<Rightarrow> int option" where
  "bodyTarget (Adjustment _ _ t) = Some t"
| "bodyTarget _ = None"

definition transactionParams :: "LedgerTransaction \<Rightarrow> LedgerTransactionRow" where
  "transactionParams t =
     \<lparr>rt_id = Some (JStr (txId t)),
      rt_type = Some (JStr (transactionTypeText (txType t))),
      rt_transfer_kind = Some (optStr (map_option transferKindText (bodyKind (txBody t)))),
      rt_group_id = Some (optStr (txGroupId t)),
      rt_transfer_fee_mode = Some (optStr (map_option feeModeText (bodyFeeMode (txBody t)))),
      rt_amount_minor = Some (JInt (txAmountMinor t)),
      rt_account_id = Some (optStr (bodyAccount (txBody t))),
      rt_from_account_id = Some (optStr (bodyFrom (txBody t))),
      rt_to_account_id = Some (optStr (bodyTo (txBody t))),
      rt_category_id = Some (optStr (bodyCategory (txBody t))),
      rt_occurred_at = Some (JInt (txOccurredAt t)),
      rt_location = Some (JStr (txLocation t)),
      rt_payee = Some (JStr (bodyPayee (txBody t))),
      rt_note = Some (JStr (txNote t)),
      rt_calculated = Some (optInt (bodyCalculated (txBody t))),
      rt_target = Some (optInt (bodyTarget (txBody t))),
      rt_deleted_at = Some (optInt (txDeletedAt t)),
      rt_version = Some (JInt (txVersion t)),
      rt_created_at = Some (JInt (txCreatedAt t)),
      rt_updated_at = Some (JInt (txUpdatedAt t))\<rparr>"

definition fullTransactionRow :: "LedgerTransactionRow \<Rightarrow> bool" where
  "fullTransactionRow r \<longleftrightarrow> rt_group_id r \<noteq> None \<and> rt_transfer_fee_mode r \<noteq> None
     \<and> rt_location r \<noteq> None \<and> rt_location r \<noteq> Some JUndefined"

lemma readTransactionBase_iff:
  assumes "fullTransactionRow r"
  shows "readTransactionBase env r = Inr (b, p) \<longleftrightarrow>
     rt_group_id r = Some (optStr (txGroupId b)) \<and> txGroupId b \<noteq> Some []
     \<and> rt_id r = Some (JStr (txId b)) \<and> txId b \<noteq> []
     \<and> rt_amount_minor r = Some (JInt (txAmountMinor b)) \<and> safeInt (txAmountMinor b)
     \<and> rt_occurred_at r = Some (JInt (txOccurredAt b)) \<and> utcOk env (txOccurredAt b)
     \<and> rt_location r = Some (JStr (txLocation b)) \<and> rt_payee r = Some (JStr p)
     \<and> rt_note r = Some (JStr (txNote b))
     \<and> rt_deleted_at r = Some (optInt (txDeletedAt b)) \<and> optUtcOk env (txDeletedAt b)
     \<and> rt_version r = Some (JInt (txVersion b)) \<and> safeInt (txVersion b) \<and> 1 \<le> txVersion b
     \<and> rt_created_at r = Some (JInt (txCreatedAt b)) \<and> utcOk env (txCreatedAt b)
     \<and> rt_updated_at r = Some (JInt (txUpdatedAt b)) \<and> utcOk env (txUpdatedAt b)"
  using assms
  by (cases b) (auto simp: readTransactionBase_def led_simps fullTransactionRow_def)

lemma incomeOrExpenseBody_iff [led_simps]:
  "incomeOrExpenseBody con k m amt a f t c p calc tgt = Inr b \<longleftrightarrow> k = None \<and> m = None \<and> safeInt amt
     \<and> 0 < amt \<and> f = None \<and> t = None \<and> calc = None \<and> tgt = None
     \<and> (\<exists>a' c'. a = Some a' \<and> c = Some c' \<and> b = con a' c' p)"
  by (auto simp: incomeOrExpenseBody_def led_simps)

lemma transferBody_iff [led_simps]:
  "transferBody k m g amt a f t c p calc tgt = Inr b \<longleftrightarrow> a = None \<and> c = None \<and> calc = None \<and> tgt = None
     \<and> safeInt amt \<and> 0 < amt
     \<and> (\<exists>k' f' t'. k = Some k' \<and> f = Some f' \<and> t = Some t' \<and> f' \<noteq> t'
          \<and> (m \<noteq> None \<longrightarrow> k' = Withdrawal \<and> g \<noteq> None) \<and> b = Transfer k' m f' t' p)"
  by (cases k) (auto simp: transferBody_def led_simps)

lemma adjustmentBody_iff [led_simps]:
  "adjustmentBody k m amt a f t c p calc tgt = Inr b \<longleftrightarrow> k = None \<and> m = None \<and> f = None \<and> t = None
     \<and> c = None \<and> p = [] \<and> amt \<noteq> 0
     \<and> (\<exists>a' calc' tgt'. a = Some a' \<and> calc = Some calc' \<and> tgt = Some tgt' \<and> safeInt calc' \<and> safeInt tgt'
          \<and> safeInt (tgt' - calc') \<and> amt = tgt' - calc' \<and> b = Adjustment a' calc' tgt')"
  by (cases calc; cases tgt) (auto simp: adjustmentBody_def led_simps assertEmptyPayee_def)

text \<open>On a full row the decoder is the inverse of \<open>transactionParams\<close>, restricted to valid objects.\<close>

lemma withBody_eq: "withBody b x = t \<longleftrightarrow> x = txBody t \<and> txId b = txId t \<and> txGroupId b = txGroupId t
      \<and> txAmountMinor b = txAmountMinor t \<and> txOccurredAt b = txOccurredAt t \<and> txLocation b = txLocation t
      \<and> txNote b = txNote t \<and> txDeletedAt b = txDeletedAt t \<and> txVersion b = txVersion t
      \<and> txCreatedAt b = txCreatedAt t \<and> txUpdatedAt b = txUpdatedAt t"
  by (cases t; cases b) (auto simp: withBody_def)

lemma transactionFromRow_params:
  assumes "valid_tx env t" shows "ledgerTransactionFromRow env (transactionParams t) = Inr t"
proof -
  have full: "fullTransactionRow (transactionParams t)"
    by (simp add: fullTransactionRow_def transactionParams_def)
  define b where "b = LedgerTransactionBase.truncate t"
  have base: "readTransactionBase env (transactionParams t) = Inr (b, bodyPayee (txBody t))"
    unfolding readTransactionBase_iff [OF full] using assms
    by (simp add: transactionParams_def valid_tx_def b_def LedgerTransactionBase.truncate_def)
  have body: "withBody b (txBody t) = t"
    by (simp add: withBody_eq b_def LedgerTransactionBase.truncate_def)
  have sel: "txAmountMinor b = txAmountMinor t" "txGroupId b = txGroupId t"
    by (simp_all add: b_def LedgerTransactionBase.truncate_def)
  define x where "x = txBody t"
  have v: "validBody (txGroupId t) (txAmountMinor t) x" "safeInt (txAmountMinor t)"
    using assms by (simp_all add: valid_tx_def x_def)
  let ?r = "transactionParams t"
  have ids: "nullableId (rt_account_id ?r) = Inr (bodyAccount x)"
    "nullableId (rt_from_account_id ?r) = Inr (bodyFrom x)"
    "nullableId (rt_to_account_id ?r) = Inr (bodyTo x)"
    "nullableId (rt_category_id ?r) = Inr (bodyCategory x)"
    "nullableSafeMinor (rt_calculated ?r) = Inr (bodyCalculated x)"
    "nullableSafeMinor (rt_target ?r) = Inr (bodyTarget x)"
    "enumValue transactionTypeText LEDGER_TRANSACTION_TYPES (rt_type ?r) = Inr (bodyType x)"
    "nullableEnumValue transferKindText LEDGER_TRANSFER_KINDS (rt_transfer_kind ?r) = Inr (bodyKind x)"
    "optionalCell (nullableEnumValue feeModeText LEDGER_TRANSFER_FEE_MODES) None
       (rt_transfer_fee_mode ?r) = Inr (bodyFeeMode x)"
    using v by (cases x; simp add: led_simps transactionParams_def x_def [symmetric] txType_def)+
  show ?thesis
  proof (cases x)
    case (Income a c p)
    have "incomeOrExpenseBody Income None None (txAmountMinor t) (Some a) None None (Some c) p None None = Inr x"
      using v Income by (simp add: incomeOrExpenseBody_iff)
    with Income show ?thesis using body by (simp add: ledgerTransactionFromRow_def base ids sel x_def [symmetric])
  next
    case (Expense a c p)
    have "incomeOrExpenseBody Expense None None (txAmountMinor t) (Some a) None None (Some c) p None None = Inr x"
      using v Expense by (simp add: incomeOrExpenseBody_iff)
    with Expense show ?thesis using body by (simp add: ledgerTransactionFromRow_def base ids sel x_def [symmetric])
  next
    case (Transfer k m f to p)
    have "transferBody (Some k) m (txGroupId t) (txAmountMinor t) None (Some f) (Some to) None p None None = Inr x"
      using v Transfer by (auto simp: transferBody_iff)
    with Transfer show ?thesis using body by (simp add: ledgerTransactionFromRow_def base ids sel x_def [symmetric])
  next
    case (Adjustment a calc tgt)
    have "adjustmentBody None None (txAmountMinor t) (Some a) None None None [] (Some calc) (Some tgt) = Inr x"
      using v Adjustment by (auto simp: adjustmentBody_iff)
    with Adjustment show ?thesis using body by (simp add: ledgerTransactionFromRow_def base ids sel x_def [symmetric])
  qed
qed

lemma transactionFromRow_dec:
  "ledgerTransactionFromRow env r = Inr t \<Longrightarrow> \<exists>ty k m b p a f to c calc tgt.
     enumValue transactionTypeText LEDGER_TRANSACTION_TYPES (rt_type r) = Inr ty
     \<and> nullableEnumValue transferKindText LEDGER_TRANSFER_KINDS (rt_transfer_kind r) = Inr k
     \<and> optionalCell (nullableEnumValue feeModeText LEDGER_TRANSFER_FEE_MODES) None (rt_transfer_fee_mode r) = Inr m
     \<and> readTransactionBase env r = Inr (b, p)
     \<and> nullableId (rt_account_id r) = Inr a \<and> nullableId (rt_from_account_id r) = Inr f
     \<and> nullableId (rt_to_account_id r) = Inr to \<and> nullableId (rt_category_id r) = Inr c
     \<and> nullableSafeMinor (rt_calculated r) = Inr calc \<and> nullableSafeMinor (rt_target r) = Inr tgt
     \<and> withBody b (txBody t) = t
     \<and> (case ty of
           IncomeType \<Rightarrow> incomeOrExpenseBody Income k m (txAmountMinor b) a f to c p calc tgt
         | ExpenseType \<Rightarrow> incomeOrExpenseBody Expense k m (txAmountMinor b) a f to c p calc tgt
         | TransferType \<Rightarrow> transferBody k m (txGroupId b) (txAmountMinor b) a f to c p calc tgt
         | AdjustmentType \<Rightarrow> adjustmentBody k m (txAmountMinor b) a f to c p calc tgt) = Inr (txBody t)"
  unfolding ledgerTransactionFromRow_def bindR_Inr_iff
  apply (elim exE conjE)
  apply (simp only: prod.case_eq_if bindR_Inr_iff)
  apply (elim exE conjE)
  subgoal for ty k m bp a f to c calc tgt x
    by (rule exI [of _ ty], rule exI [of _ k], rule exI [of _ m], rule exI [of _ "fst bp"], rule exI [of _ "snd bp"])
      (auto simp: withBody_def)
  done

lemma transactionFromRow_inv:
  assumes full: "fullTransactionRow r" and d: "ledgerTransactionFromRow env r = Inr t" 
  shows "valid_tx env t \<and> r = transactionParams t"
proof -
  have cols: "rt_group_id r \<noteq> None" "rt_transfer_fee_mode r \<noteq> None"
    using full by (auto simp: fullTransactionRow_def)
  from transactionFromRow_dec [OF d] obtain ty k m b p a f to c calc tgt where
    h: "rt_type r = Some (JStr (transactionTypeText ty))"
     "rt_transfer_kind r = Some (optStr (map_option transferKindText k))"
     "rt_transfer_fee_mode r = Some (optStr (map_option feeModeText m))"
     "readTransactionBase env r = Inr (b, p)"
     "rt_account_id r = Some (optStr a)" "rt_from_account_id r = Some (optStr f)"
     "rt_to_account_id r = Some (optStr to)" "rt_category_id r = Some (optStr c)"
     "rt_calculated r = Some (optInt calc)" "rt_target r = Some (optInt tgt)"
     "a \<noteq> Some []" "f \<noteq> Some []" "to \<noteq> Some []" "c \<noteq> Some []"
     "withBody b (txBody t) = t" and
    x: "(case ty of
           IncomeType \<Rightarrow> incomeOrExpenseBody Income k m (txAmountMinor b) a f to c p calc tgt
         | ExpenseType \<Rightarrow> incomeOrExpenseBody Expense k m (txAmountMinor b) a f to c p calc tgt
         | TransferType \<Rightarrow> transferBody k m (txGroupId b) (txAmountMinor b) a f to c p calc tgt
         | AdjustmentType \<Rightarrow> adjustmentBody k m (txAmountMinor b) a f to c p calc tgt) = Inr (txBody t)"
    using cols by (auto simp: led_simps)
  note b = h(4) [unfolded readTransactionBase_iff [OF full]] and w = h(15) [unfolded withBody_eq]
  have body: "ty = bodyType (txBody t)" "k = bodyKind (txBody t)" "m = bodyFeeMode (txBody t)"
    "a = bodyAccount (txBody t)" "f = bodyFrom (txBody t)" "to = bodyTo (txBody t)"
    "c = bodyCategory (txBody t)" "p = bodyPayee (txBody t)" "calc = bodyCalculated (txBody t)"
    "tgt = bodyTarget (txBody t)" "validBody (txGroupId b) (txAmountMinor b) (txBody t)"
    using x h(11-14) by (cases ty; auto simp: led_simps)+
  show ?thesis
  proof
    show "valid_tx env t" using b w body(11) by (simp add: valid_tx_def)
    show "r = transactionParams t"
      using b w h(1-3) h(5-10) body(1-10) by (cases r) (simp add: transactionParams_def txType_def)
  qed
qed

lemma transactionParams_full [simp]: "fullTransactionRow (transactionParams t)"
  by (simp add: fullTransactionRow_def transactionParams_def)

lemma ledgerTransactionFromRow_iff:
  "fullTransactionRow r \<Longrightarrow> ledgerTransactionFromRow env r = Inr t \<longleftrightarrow> valid_tx env t \<and> r = transactionParams t"
  using transactionFromRow_inv transactionFromRow_params by blast

end
