(* ===== verification/Balance.thy ===== *)
theory Balance
  imports Domain
begin

text \<open>
  \<open>server/ledger/balance.ts\<close>: the natural-balance effect of a transaction on an account and the
  derived balance. \<open>naturalEffect\<close> is the abstract specification: an exact integer. The code's
  checked functions are shown to compute it, and the effects are shown to conserve value: a
  transfer moves no net worth, an income adds its amount, an expense removes it.
\<close>

section \<open>The code\<close>

record LedgerAccountReference =
  refId :: jsstr
  refNature :: LedgerAccountNature

record LedgerBalanceAccount = LedgerAccountReference +
  refOpeningBalanceMinor :: int

datatype NaturalBalanceRole = RoleIncome | RoleExpense | TransferOutgoing | TransferIncoming

definition assertAccountReference :: "jsstr \<Rightarrow> unit res" where
  "assertAccountReference x = failUnless (length x \<noteq> 0) ledgerValidationError"

definition signedAmountForRole :: "LedgerAccountNature \<Rightarrow> NaturalBalanceRole \<Rightarrow> int \<Rightarrow> int res" where
  "signedAmountForRole nature role amountMinor =
     (let increasesNaturalBalance =
        (if nature = Asset then role = RoleIncome \<or> role = TransferIncoming
         else role = RoleExpense \<or> role = TransferOutgoing)
      in if increasesNaturalBalance then Inr amountMinor else checkedSubMinor 0 amountMinor)"

definition assertAdjustmentEffect :: "int \<Rightarrow> int \<Rightarrow> int \<Rightarrow> unit res" where
  "assertAdjustmentEffect amountMinor calculated target =
     bindR (assertSafeMinor (JInt amountMinor)) (\<lambda>_.
     bindR (assertSafeMinor (JInt calculated)) (\<lambda>_.
     bindR (assertSafeMinor (JInt target)) (\<lambda>_.
     bindR (checkedSubMinor target calculated) (\<lambda>expectedDelta.
     bindR (failUnless (amountMinor = expectedDelta) ledgerValidationError) (\<lambda>_.
     failUnless (amountMinor \<noteq> 0) ledgerValidationError)))))"

definition transactionEffectForAccount :: "LedgerTransaction \<Rightarrow> jsstr \<Rightarrow> LedgerAccountNature \<Rightarrow> int res" where
  "transactionEffectForAccount t account nature =
     bindR (assertAccountReference account) (\<lambda>_.
     if txDeletedAt t \<noteq> None then Inr 0
     else case txBody t of
       Income accountId _ _ \<Rightarrow>
         bindR (assertPositiveMinor (JInt (txAmountMinor t))) (\<lambda>_.
         if accountId = account then signedAmountForRole nature RoleIncome (txAmountMinor t) else Inr 0)
     | Expense accountId _ _ \<Rightarrow>
         bindR (assertPositiveMinor (JInt (txAmountMinor t))) (\<lambda>_.
         if accountId = account then signedAmountForRole nature RoleExpense (txAmountMinor t) else Inr 0)
     | Transfer _ _ fromAccountId toAccountId _ \<Rightarrow>
         bindR (assertPositiveMinor (JInt (txAmountMinor t))) (\<lambda>_.
         if fromAccountId = toAccountId then Inl ledgerValidationError
         else if fromAccountId = account then signedAmountForRole nature TransferOutgoing (txAmountMinor t)
         else if toAccountId = account then signedAmountForRole nature TransferIncoming (txAmountMinor t)
         else Inr 0)
     | Adjustment accountId calculated target \<Rightarrow>
         bindR (assertAdjustmentEffect (txAmountMinor t) calculated target) (\<lambda>_.
         Inr (if accountId = account then txAmountMinor t else 0)))"

text \<open>The generator of the effects feeds the checked sum one by one.\<close>

fun sumEffects :: "int \<Rightarrow> LedgerTransaction list \<Rightarrow> jsstr \<Rightarrow> LedgerAccountNature \<Rightarrow> int res" where
  "sumEffects acc [] a n = Inr acc"
| "sumEffects acc (t # ts) a n =
     bindR (transactionEffectForAccount t a n) (\<lambda>e.
     bindR (checkedAddMinor acc e) (\<lambda>acc'. sumEffects acc' ts a n))"

definition deriveCurrentBalance :: "LedgerBalanceAccount \<Rightarrow> LedgerTransaction list \<Rightarrow> int res" where
  "deriveCurrentBalance a ts =
     bindR (assertAccountReference (refId a)) (\<lambda>_.
     bindR (assertSafeMinor (JInt (refOpeningBalanceMinor a))) (\<lambda>_.
     bindR (sumEffects 0 ts (refId a) (refNature a)) (\<lambda>transactionTotal.
     checkedAddMinor (refOpeningBalanceMinor a) transactionTotal)))"

definition balanceAccount :: "LedgerAccount \<Rightarrow> LedgerBalanceAccount" where
  "balanceAccount a = \<lparr>refId = accId a, refNature = accNature a,
     refOpeningBalanceMinor = accOpeningBalanceMinor a\<rparr>"

section \<open>The specification\<close>

fun natureSign :: "LedgerAccountNature \<Rightarrow> int" where
  "natureSign Asset = 1"
| "natureSign Liability = - 1"

text \<open>What a body of the given amount does to the net worth held in an account.\<close>

fun netEffect :: "TransactionBody \<Rightarrow> int \<Rightarrow> jsstr \<Rightarrow> LedgerAccountNature \<Rightarrow> int" where
  "netEffect (Income a _ _) amt x n = (if a = x then amt else 0)"
| "netEffect (Expense a _ _) amt x n = (if a = x then - amt else 0)"
| "netEffect (Transfer _ _ f t _) amt x n = (if f = x then - amt else if t = x then amt else 0)"
| "netEffect (Adjustment a _ _) amt x n = (if a = x then natureSign n * amt else 0)"

definition naturalEffect :: "LedgerTransaction \<Rightarrow> jsstr \<Rightarrow> LedgerAccountNature \<Rightarrow> int" where
  "naturalEffect t x n =
     (if txDeletedAt t \<noteq> None then 0 else natureSign n * netEffect (txBody t) (txAmountMinor t) x n)"

definition exactBalance :: "LedgerBalanceAccount \<Rightarrow> LedgerTransaction list \<Rightarrow> int" where
  "exactBalance a ts = refOpeningBalanceMinor a + (\<Sum>t\<leftarrow>ts. naturalEffect t (refId a) (refNature a))"

text \<open>The accounts a body touches.\<close>

definition bodyAccounts :: "TransactionBody \<Rightarrow> jsstr set" where
  "bodyAccounts b = set_option (bodyAccount b) \<union> set_option (bodyFrom b) \<union> set_option (bodyTo b)"

lemma bodyAccounts_simps [simp]:
  "bodyAccounts (Income a c p) = {a}" "bodyAccounts (Expense a c p) = {a}"
  "bodyAccounts (Transfer k m f t p) = {f, t}" "bodyAccounts (Adjustment a x y) = {a}"
  by (auto simp: bodyAccounts_def)

definition touches :: "LedgerTransaction \<Rightarrow> jsstr \<Rightarrow> bool" where
  "touches t x \<longleftrightarrow> x \<in> bodyAccounts (txBody t)"

definition activeTx :: "LedgerTransaction \<Rightarrow> bool" where
  "activeTx t \<longleftrightarrow> txDeletedAt t = None"

lemma natureSign_sq [simp]: "natureSign n * natureSign n = 1" "natureSign n * (natureSign n * x) = x"
  by (cases n; simp)+

lemma naturalEffect_untouched: "\<not> touches t x \<Longrightarrow> naturalEffect t x n = 0"
  by (cases "txBody t") (auto simp: naturalEffect_def touches_def)

lemma naturalEffect_deleted: "txDeletedAt t \<noteq> None \<Longrightarrow> naturalEffect t x n = 0"
  by (simp add: naturalEffect_def)

lemma sum_effects_filter:
  "(\<And>t. t \<in> set ts \<Longrightarrow> \<not> P t \<Longrightarrow> naturalEffect t x n = 0) \<Longrightarrow>
   (\<Sum>t\<leftarrow>filter P ts. naturalEffect t x n) = (\<Sum>t\<leftarrow>ts. naturalEffect t x n)"
  by (induction ts) auto

lemma exactBalance_filter:
  "(\<And>t. t \<in> set ts \<Longrightarrow> \<not> P t \<Longrightarrow> naturalEffect t (refId a) (refNature a) = 0) \<Longrightarrow>
   exactBalance a (filter P ts) = exactBalance a ts"
  by (simp add: exactBalance_def sum_effects_filter)

lemma exactBalance_mset: "mset ts = mset us \<Longrightarrow> exactBalance a ts = exactBalance a us"
  unfolding exactBalance_def by (metis mset_map sum_mset_sum_list)

section \<open>The code computes the specification\<close>

lemma signedAmountForRole_exact:
  assumes "safeInt amt"
  shows "signedAmountForRole n RoleIncome amt = Inr (natureSign n * amt)"
    "signedAmountForRole n RoleExpense amt = Inr (natureSign n * - amt)"
    "signedAmountForRole n TransferOutgoing amt = Inr (natureSign n * - amt)"
    "signedAmountForRole n TransferIncoming amt = Inr (natureSign n * amt)"
  using assms by (cases n; simp add: signedAmountForRole_def checkedSubMinor_0)+

lemma assertAdjustmentEffect_iff [led_simps]:
  "assertAdjustmentEffect amt c t = Inr u \<longleftrightarrow> safeInt amt \<and> safeInt c \<and> safeInt t \<and> amt = t - c \<and> amt \<noteq> 0"
  by (auto simp: assertAdjustmentEffect_def led_simps)

lemma assertAccountReference_iff [led_simps]: "assertAccountReference x = Inr u \<longleftrightarrow> x \<noteq> []"
  by (simp add: assertAccountReference_def led_simps)

lemma transactionEffect_exact:
  assumes "safeInt (txAmountMinor t)" "validBody g (txAmountMinor t) (txBody t)" "x \<noteq> []"
  shows "transactionEffectForAccount t x n = Inr (naturalEffect t x n)"
proof -
  have ref: "assertAccountReference x = Inr ()" using assms(3) by (simp add: assertAccountReference_def)
  have pos: "0 < txAmountMinor t \<Longrightarrow> assertPositiveMinor (JInt (txAmountMinor t)) = Inr (txAmountMinor t)"
    using assms(1) by (simp add: assertPositiveMinor_iff)
  have adj: "assertAdjustmentEffect (txAmountMinor t) c y = Inr ()" if "txBody t = Adjustment a c y" for a c y
    using that assms(1,2) by (simp add: assertAdjustmentEffect_iff)
  show ?thesis
  proof (cases "txBody t")
    case (Adjustment a c y)
    show ?thesis
      unfolding transactionEffectForAccount_def ref Adjustment
      by (simp add: adj [OF Adjustment] naturalEffect_def Adjustment)
  qed (use assms(2) in \<open>auto simp: transactionEffectForAccount_def ref pos naturalEffect_def
         signedAmountForRole_exact [OF assms(1)]\<close>)
qed

lemma transactionEffect_result:
  "transactionEffectForAccount t x n = Inr e \<Longrightarrow> e = naturalEffect t x n"
proof -
  assume e: "transactionEffectForAccount t x n = Inr e"
  show ?thesis
  proof (cases "txDeletedAt t = None")
    case False
    with e show ?thesis by (auto simp: transactionEffectForAccount_def led_simps naturalEffect_def)
  next
    case True
    with e show ?thesis
      by (cases "txBody t") (auto simp: transactionEffectForAccount_def led_simps naturalEffect_def
        signedAmountForRole_exact split: if_split_asm)
  qed
qed

lemma sumEffects_result: "sumEffects acc ts x n = Inr s \<Longrightarrow> s = acc + (\<Sum>t\<leftarrow>ts. naturalEffect t x n)"
proof (induction ts arbitrary: acc)
  case (Cons t ts)
  from Cons.prems have "sumEffects (acc + naturalEffect t x n) ts x n = Inr s"
    by (auto simp: led_simps dest!: transactionEffect_result)
  from Cons.IH [OF this] show ?case by simp
qed simp

lemma deriveCurrentBalance_exact: "deriveCurrentBalance a ts = Inr b \<Longrightarrow> b = exactBalance a ts"
  by (auto simp: deriveCurrentBalance_def led_simps exactBalance_def dest!: sumEffects_result)

lemma deriveCurrentBalance_safe: "deriveCurrentBalance a ts = Inr b \<Longrightarrow> safeInt b"
  by (auto simp: deriveCurrentBalance_def led_simps)

text \<open>It returns whenever the transactions are valid and no partial sum leaves the safe range.\<close>

lemma sumEffects_total:
  assumes "\<forall>t\<in>set ts. safeInt (txAmountMinor t) \<and> validBody (txGroupId t) (txAmountMinor t) (txBody t)"
    and "x \<noteq> []" and "\<forall>k\<le>length ts. safeInt (acc + (\<Sum>t\<leftarrow>take k ts. naturalEffect t x n))"
  shows "sumEffects acc ts x n = Inr (acc + (\<Sum>t\<leftarrow>ts. naturalEffect t x n))"
  using assms(1,3)
proof (induction ts arbitrary: acc)
  case (Cons t ts)
  let ?e = "naturalEffect t x n"
  have eff: "transactionEffectForAccount t x n = Inr ?e"
    using Cons.prems(1) assms(2) by (intro transactionEffect_exact) auto
  have "safeInt (txAmountMinor t)" using Cons.prems(1) by simp
  then have "safeInt ?e"
    by (cases n; cases "txBody t") (auto simp: naturalEffect_def)
  moreover have "safeInt acc" using spec [OF Cons.prems(2), of 0] by simp
  moreover have "safeInt (acc + ?e)" using spec [OF Cons.prems(2), of 1] by simp
  ultimately have add: "checkedAddMinor acc ?e = Inr (acc + ?e)" by (simp add: checkedAddMinor_iff)
  have rest: "\<forall>k\<le>length ts. safeInt (acc + ?e + (\<Sum>t\<leftarrow>take k ts. naturalEffect t x n))"
  proof (intro allI impI)
    fix k assume "k \<le> length ts"
    then show "safeInt (acc + ?e + (\<Sum>t\<leftarrow>take k ts. naturalEffect t x n))"
      using spec [OF Cons.prems(2), of "Suc k"] by (simp add: add.assoc)
  qed
  show ?case using Cons.IH [OF _ rest] Cons.prems(1) by (simp add: eff add add.assoc)
qed simp

lemma deriveCurrentBalance_total:
  assumes "\<forall>t\<in>set ts. safeInt (txAmountMinor t) \<and> validBody (txGroupId t) (txAmountMinor t) (txBody t)"
    and "refId a \<noteq> []" and "safeInt (refOpeningBalanceMinor a)" and "safeInt (exactBalance a ts)"
    and "\<forall>k\<le>length ts. safeInt (\<Sum>t\<leftarrow>take k ts. naturalEffect t (refId a) (refNature a))"
  shows "deriveCurrentBalance a ts = Inr (exactBalance a ts)"
proof -
  have "sumEffects 0 ts (refId a) (refNature a) = Inr (\<Sum>t\<leftarrow>ts. naturalEffect t (refId a) (refNature a))"
    using sumEffects_total [OF assms(1,2), of 0] assms(5) by simp
  moreover have "safeInt (\<Sum>t\<leftarrow>ts. naturalEffect t (refId a) (refNature a))"
    using spec [OF assms(5), of "length ts"] by simp
  ultimately show ?thesis
    using assms(2-4) by (auto simp: deriveCurrentBalance_def assertAccountReference_def checkedAddMinor_iff
        exactBalance_def assertSafeMinor_def)
qed

section \<open>Conservation\<close>

text \<open>
  The net worth of a set of accounts: assets minus liabilities. A transfer between two of them
  leaves it as it is.
\<close>

definition netWorth :: "LedgerBalanceAccount list \<Rightarrow> LedgerTransaction list \<Rightarrow> int" where
  "netWorth as ts = (\<Sum>a\<leftarrow>as. natureSign (refNature a) * exactBalance a ts)"

definition natureOf :: "LedgerBalanceAccount list \<Rightarrow> jsstr \<Rightarrow> LedgerAccountNature" where
  "natureOf as x = (case find (\<lambda>a. refId a = x) as of Some a \<Rightarrow> refNature a | None \<Rightarrow> Asset)"

fun netChange :: "LedgerBalanceAccount list \<Rightarrow> TransactionBody \<Rightarrow> int \<Rightarrow> int" where
  "netChange as (Income _ _ _) amt = amt"
| "netChange as (Expense _ _ _) amt = - amt"
| "netChange as (Transfer _ _ _ _ _) amt = 0"
| "netChange as (Adjustment a _ _) amt = natureSign (natureOf as a) * amt"

lemma sum_single:
  "distinct (map f xs) \<Longrightarrow> (\<Sum>x\<leftarrow>xs. if f x = k then g x else 0) =
     (case find (\<lambda>x. f x = k) xs of Some x \<Rightarrow> g x | None \<Rightarrow> (0::int))"
proof (induction xs)
  case (Cons x xs)
  have "find (\<lambda>y. f y = k) xs = None" if "f x = k"
    using Cons.prems that by (auto simp: find_None_iff image_iff)
  with Cons show ?case by auto
qed simp

lemma find_ref: "x \<in> refId ` set as \<Longrightarrow> \<exists>a. find (\<lambda>a. refId a = x) as = Some a"
  by (induction as) auto

lemma netEffect_total:
  assumes "distinct (map refId as)" "bodyAccounts b \<subseteq> refId ` set as" "\<forall>k m f t p. b = Transfer k m f t p \<longrightarrow> f \<noteq> t"
  shows "(\<Sum>a\<leftarrow>as. netEffect b amt (refId a) (refNature a)) = netChange as b amt"
proof (cases b)
  case (Income a c p)
  obtain r where "find (\<lambda>r. refId r = a) as = Some r" using find_ref assms(2) Income by fastforce
  then show ?thesis using Income sum_single [OF assms(1), of a "\<lambda>_. amt"] by (simp add: eq_commute [of a])
next
  case (Expense a c p)
  obtain r where "find (\<lambda>r. refId r = a) as = Some r" using find_ref assms(2) Expense by fastforce
  then show ?thesis using Expense sum_single [OF assms(1), of a "\<lambda>_. - amt"] by (simp add: eq_commute [of a])
next
  case (Transfer k m f t p)
  obtain r s where rs: "find (\<lambda>r. refId r = f) as = Some r" "find (\<lambda>r. refId r = t) as = Some s"
    using find_ref [of f as] find_ref [of t as] assms(2) Transfer by auto
  have ft: "f \<noteq> t" using assms(3) Transfer by simp
  have "(\<Sum>a\<leftarrow>as. netEffect b amt (refId a) (refNature a)) =
      (\<Sum>a\<leftarrow>as. (if refId a = f then - amt else 0) + (if refId a = t then amt else 0))"
    using Transfer ft by (intro arg_cong [of _ _ sum_list] map_cong) auto
  also have "\<dots> = (\<Sum>a\<leftarrow>as. if refId a = f then - amt else 0) + (\<Sum>a\<leftarrow>as. if refId a = t then amt else 0)"
    by (rule sum_list_addf)
  also have "\<dots> = - amt + amt" using rs by (simp add: sum_single [OF assms(1)])
  finally show ?thesis using Transfer by simp
next
  case (Adjustment a c y)
  obtain r where r: "find (\<lambda>r. refId r = a) as = Some r" using find_ref assms(2) Adjustment by fastforce
  then show ?thesis
    using Adjustment sum_single [OF assms(1), of a "\<lambda>r. natureSign (refNature r) * amt"]
    by (simp add: eq_commute [of a] natureOf_def)
qed

lemma netWorth_Nil: "netWorth as [] = (\<Sum>a\<leftarrow>as. natureSign (refNature a) * refOpeningBalanceMinor a)"
  by (simp add: netWorth_def exactBalance_def)

lemma netWorth_Cons:
  assumes "distinct (map refId as)" "bodyAccounts (txBody t) \<subseteq> refId ` set as"
    "validBody g (txAmountMinor t) (txBody t)"
  shows "netWorth as (t # ts) =
     netWorth as ts + (if activeTx t then netChange as (txBody t) (txAmountMinor t) else 0)"
proof -
  have step: "natureSign (refNature a) * exactBalance a (t # ts) = natureSign (refNature a) * exactBalance a ts
      + (if activeTx t then netEffect (txBody t) (txAmountMinor t) (refId a) (refNature a) else 0)" for a
    by (simp add: exactBalance_def naturalEffect_def activeTx_def algebra_simps)
  have tot: "(\<Sum>a\<leftarrow>as. netEffect (txBody t) (txAmountMinor t) (refId a) (refNature a))
      = netChange as (txBody t) (txAmountMinor t)"
    using assms by (intro netEffect_total) auto
  show ?thesis
    unfolding netWorth_def step sum_list_addf using tot by (cases "activeTx t") simp_all
qed

lemma netWorth_transactions:
  assumes "distinct (map refId as)"
    and "\<forall>t\<in>set ts. bodyAccounts (txBody t) \<subseteq> refId ` set as \<and> validBody (txGroupId t) (txAmountMinor t) (txBody t)"
  shows "netWorth as ts = (\<Sum>a\<leftarrow>as. natureSign (refNature a) * refOpeningBalanceMinor a)
     + (\<Sum>t\<leftarrow>filter activeTx ts. netChange as (txBody t) (txAmountMinor t))"
  using assms(2)
proof (induction ts)
  case (Cons t ts)
  then show ?case using netWorth_Cons [OF assms(1), of t "txGroupId t" ts] by simp
qed (simp add: netWorth_Nil)

end
