(* ===== verification/Json.thy ===== *)
theory Json
  imports Balance
begin

text \<open>
  JSON text: \<open>JSON.stringify\<close> on the values the ledger stores, and the stable serialization of
  \<open>server/ledger/idempotency.ts\<close>, which sorts the keys of every object. The stable text of an
  object does not depend on the order in which its properties were set.
\<close>

section \<open>\<open>JSON.stringify\<close>\<close>

definition hexDigit :: "nat \<Rightarrow> nat" where
  "hexDigit d = (if d < 10 then 48 + d else 87 + d)"

definition unicodeEscape :: "nat \<Rightarrow> jsstr" where
  "unicodeEscape c = [92, 117, hexDigit (c div 4096 mod 16), hexDigit (c div 256 mod 16),
     hexDigit (c div 16 mod 16), hexDigit (c mod 16)]"

definition quoteUnit :: "nat \<Rightarrow> jsstr" where
  "quoteUnit c =
     (if c = 34 then [92, 34] else if c = 92 then [92, 92] else if c = 8 then [92, 98]
      else if c = 12 then [92, 102] else if c = 10 then [92, 110] else if c = 13 then [92, 114]
      else if c = 9 then [92, 116] else if c < 32 then unicodeEscape c else [c])"

definition highSurrogate :: "nat \<Rightarrow> bool" where
  "highSurrogate c \<longleftrightarrow> 55296 \<le> c \<and> c < 56320"

definition lowSurrogate :: "nat \<Rightarrow> bool" where
  "lowSurrogate c \<longleftrightarrow> 56320 \<le> c \<and> c < 57344"

fun quoteBody :: "jsstr \<Rightarrow> jsstr" where
  "quoteBody [] = []"
| "quoteBody [c] = (if highSurrogate c \<or> lowSurrogate c then unicodeEscape c else quoteUnit c)"
| "quoteBody (c # d # r) =
     (if highSurrogate c \<and> lowSurrogate d then c # d # quoteBody r
      else if highSurrogate c \<or> lowSurrogate c then unicodeEscape c @ quoteBody (d # r)
      else quoteUnit c @ quoteBody (d # r))"

definition jsonString :: "jsstr \<Rightarrow> jsstr" where
  "jsonString s = [34] @ quoteBody s @ [34]"

definition intText :: "int \<Rightarrow> jsstr" where
  "intText i = (if i < 0 then [45] @ natText (nat (- i)) else natText (nat i))"

fun joinWith :: "jsstr \<Rightarrow> jsstr list \<Rightarrow> jsstr" where
  "joinWith sep [] = []"
| "joinWith sep [x] = x"
| "joinWith sep (x # y # r) = x @ sep @ joinWith sep (y # r)"

definition jsonStringArray :: "jsstr list \<Rightarrow> jsstr" where
  "jsonStringArray xs = [91] @ joinWith [44] (map jsonString xs) @ [93]"

definition jsonStringRecord :: "(jsstr \<times> jsstr) list \<Rightarrow> jsstr" where
  "jsonStringRecord r = [123] @ joinWith [44] (map (\<lambda>(k, v). jsonString k @ [58] @ jsonString v) r) @ [125]"

section \<open>The stable serialization\<close>

definition keyLe :: "jsstr \<times> 'v \<Rightarrow> jsstr \<times> 'v \<Rightarrow> bool" where
  "keyLe x y \<longleftrightarrow> fst x \<le> fst y"

fun serializeLedgerJsonValue :: "jsval \<Rightarrow> jsstr res"
  and serializeItems :: "jsval list \<Rightarrow> jsstr list res"
  and serializeEntries :: "(jsstr \<times> jsval) list \<Rightarrow> (jsstr \<times> jsstr) list res" where
  "serializeLedgerJsonValue JUndefined = Inl TypeError"
| "serializeLedgerJsonValue JNull = Inr (js ''null'')"
| "serializeLedgerJsonValue (JBool b) = Inr (if b then js ''true'' else js ''false'')"
| "serializeLedgerJsonValue (JInt i) = Inr (intText i)"
| "serializeLedgerJsonValue (JDouble fin text) = (if fin then Inr text else Inl TypeError)"
| "serializeLedgerJsonValue (JStr s) = Inr (jsonString s)"
| "serializeLedgerJsonValue (JArr xs) = bindR (serializeItems xs) (\<lambda>items.
     Inr ([91] @ joinWith [44] items @ [93]))"
| "serializeLedgerJsonValue (JObj r) = bindR (serializeEntries r) (\<lambda>entries.
     Inr ([123] @ joinWith [44] (map (\<lambda>(k, t). jsonString k @ [58] @ t) (orderBy keyLe entries)) @ [125]))"
| "serializeItems [] = Inr []"
| "serializeItems (x # xs) = bindR (serializeLedgerJsonValue x) (\<lambda>t.
     bindR (serializeItems xs) (\<lambda>ts. Inr (t # ts)))"
| "serializeEntries [] = Inr []"
| "serializeEntries ((k, v) # r) = bindR (serializeLedgerJsonValue v) (\<lambda>t.
     bindR (serializeEntries r) (\<lambda>ts. Inr ((k, t) # ts)))"

definition stableSerializeLedgerJson :: "jsval \<Rightarrow> jsstr res" where
  "stableSerializeLedgerJson v = serializeLedgerJsonValue v"

lemma serialize_fails:
  "serializeLedgerJsonValue v = Inl f \<Longrightarrow> f = TypeError"
  "serializeItems xs = Inl f \<Longrightarrow> f = TypeError"
  "serializeEntries r = Inl f \<Longrightarrow> f = TypeError"
  by (induction v and xs and r rule: serializeLedgerJsonValue_serializeItems_serializeEntries.induct)
    (auto simp: bindR_def split: sum.split_asm if_split_asm)

lemma serializeEntries_keys: "serializeEntries r = Inr es \<Longrightarrow> map fst es = map fst r"
  by (induction r arbitrary: es) (auto simp: led_simps)

lemma serializeEntries_iff:
  "serializeEntries r = Inr es \<longleftrightarrow> list_all2 (\<lambda>(k, v) (k', t). k = k' \<and> serializeLedgerJsonValue v = Inr t) r es"
proof (induction r arbitrary: es)
  case (Cons x r)
  obtain k v where "x = (k, v)" by (cases x)
  with Cons show ?case by (cases es) (auto simp: led_simps)
qed (auto simp: list_all2_Nil)

lemma serializeEntries_perm:
  assumes "mset r = mset r'" "serializeEntries r = Inr es"
  shows "\<exists>es'. serializeEntries r' = Inr es' \<and> mset es' = mset es"
  using list_all2_reorder_left_invariance [OF assms(2)[unfolded serializeEntries_iff] assms(1) [symmetric]]
  unfolding serializeEntries_iff by blast

lemma keyLe_total: "keyLe x y \<or> keyLe y x"
  by (auto simp: keyLe_def)

lemma keyLe_trans: "keyLe x y \<Longrightarrow> keyLe y z \<Longrightarrow> keyLe x z"
  by (auto simp: keyLe_def)

text \<open>Two orderings of the same entries under distinct keys sort to the same list.\<close>

lemma orderBy_keyLe_unique:
  fixes es es' :: "(jsstr \<times> 'v) list"
  assumes "mset es = mset es'" "distinct (map fst es)"
  shows "orderBy keyLe es = orderBy keyLe es'"
proof (rule map_sorted_distinct_set_unique [of fst])
  have d: "distinct (map fst xs) = distinct (map fst es)" if "mset xs = mset es" for xs :: "(jsstr \<times> 'v) list"
    using that by (intro mset_eq_imp_distinct_iff) simp
  have srt: "sorted (map fst (orderBy keyLe xs))" for xs :: "(jsstr \<times> 'v) list"
  proof -
    have "sorted_wrt keyLe (orderBy keyLe xs)" by (rule sorted_orderBy) (use keyLe_total keyLe_trans in blast)+
    then show ?thesis by (simp add: sorted_map keyLe_def [abs_def])
  qed
  show "inj_on fst (set (orderBy keyLe es) \<union> set (orderBy keyLe es'))"
    using assms by (simp add: mset_eq_setD [OF assms(1)] distinct_map)
  show "sorted (map fst (orderBy keyLe es))" "sorted (map fst (orderBy keyLe es'))"
    by (rule srt)+
  show "distinct (map fst (orderBy keyLe es))" "distinct (map fst (orderBy keyLe es'))"
    using assms d [of "orderBy keyLe es"] d [of "orderBy keyLe es'"] by simp_all
  show "set (orderBy keyLe es) = set (orderBy keyLe es')"
    using mset_eq_setD [OF assms(1)] by simp
qed

lemma stableSerialize_key_order:
  assumes "mset r = mset r'" "distinct (map fst r)"
  shows "stableSerializeLedgerJson (JObj r) = stableSerializeLedgerJson (JObj r')"
proof (cases "serializeEntries r")
  case (Inr es)
  obtain es' where es': "serializeEntries r' = Inr es'" "mset es' = mset es"
    using serializeEntries_perm [OF assms(1) Inr] by blast
  have "distinct (map fst es)" using serializeEntries_keys [OF Inr] assms(2) by simp
  with es' Inr show ?thesis
    by (simp add: stableSerializeLedgerJson_def orderBy_keyLe_unique [of es es'])
next
  case (Inl e)
  obtain e' where "serializeEntries r' = Inl e'"
    using serializeEntries_perm [OF assms(1) [symmetric]] Inl by (cases "serializeEntries r'") auto
  with serialize_fails(3) [OF this] serialize_fails(3) [OF Inl] Inl show ?thesis
    by (simp add: stableSerializeLedgerJson_def)
qed

end
