(* ===== verification/Validation.thy ===== *)
theory Validation
  imports Json
begin

text \<open>
  \<open>server/ledger/validation.ts\<close>: the parsers of request bodies and query strings. A parser takes
  the JSON value of the body and returns the typed request or the failure it throws; the order of
  the checks is the code's. The lemmas of the second half say what a parsed request guarantees:
  this is all the service may rely on.
\<close>

definition LEDGER_NAME_MAX_LENGTH :: nat where "LEDGER_NAME_MAX_LENGTH = 120"
definition LEDGER_PAYEE_MAX_LENGTH :: nat where "LEDGER_PAYEE_MAX_LENGTH = 200"
definition LEDGER_LOCATION_MAX_LENGTH :: nat where "LEDGER_LOCATION_MAX_LENGTH = 200"
definition LEDGER_NOTE_MAX_LENGTH :: nat where "LEDGER_NOTE_MAX_LENGTH = 2000"
definition LEDGER_IDEMPOTENCY_KEY_MAX_LENGTH :: nat where "LEDGER_IDEMPOTENCY_KEY_MAX_LENGTH = 200"
definition LEDGER_LIST_LIMIT_DEFAULT :: int where "LEDGER_LIST_LIMIT_DEFAULT = 50"
definition LEDGER_LIST_LIMIT_MAX :: int where "LEDGER_LIST_LIMIT_MAX = 200"
definition LEDGER_TREND_MONTHS_DEFAULT :: int where "LEDGER_TREND_MONTHS_DEFAULT = 6"

section \<open>Field readers\<close>

abbreviation invalid :: "'a res" where
  "invalid \<equiv> Inl ledgerValidationError"

abbreviation check :: "bool \<Rightarrow> unit res" where
  "check b \<equiv> failUnless b ledgerValidationError"

definition asRecord :: "jsval \<Rightarrow> jsobj res" where
  "asRecord v = (case v of JObj r \<Rightarrow> Inr r | _ \<Rightarrow> invalid)"

definition assertExactKeys :: "jsobj \<Rightarrow> string list \<Rightarrow> string list \<Rightarrow> unit res" where
  "assertExactKeys r allowed required =
     check (list_all (\<lambda>k. k \<in> set (map js allowed)) (map fst r) \<and> list_all (hasOwn r) required)"

definition requireString :: "jsobj \<Rightarrow> string \<Rightarrow> jsstr res" where
  "requireString r key = (case getProp r key of JStr s \<Rightarrow> Inr s | _ \<Rightarrow> invalid)"

definition requireNonEmptyId :: "jsobj \<Rightarrow> string \<Rightarrow> jsstr res" where
  "requireNonEmptyId r key = bindR (requireString r key) (\<lambda>s.
     if s = [] \<or> length (trim s) = 0 then invalid else Inr s)"

definition optionalString :: "jsobj \<Rightarrow> string \<Rightarrow> jsstr \<Rightarrow> jsstr res" where
  "optionalString r key defaultValue = (if \<not> hasOwn r key then Inr defaultValue else requireString r key)"

definition validateLength :: "jsstr \<Rightarrow> nat \<Rightarrow> nat \<Rightarrow> jsstr res" where
  "validateLength s lo hi = (if length s < lo \<or> length s > hi then invalid else Inr s)"

definition parseName :: "jsobj \<Rightarrow> jsstr res" where
  "parseName r = bindR (requireString r ''name'') (\<lambda>s. validateLength (trim s) 1 LEDGER_NAME_MAX_LENGTH)"

definition parseNote :: "jsobj \<Rightarrow> jsstr res" where
  "parseNote r = bindR (optionalString r ''note'' []) (\<lambda>s. validateLength s 0 LEDGER_NOTE_MAX_LENGTH)"

definition parseCardNumber :: "jsobj \<Rightarrow> jsstr res" where
  "parseCardNumber r = bindR (optionalString r ''cardNumber'' []) (\<lambda>s. validateLength s 0 64)"

definition parsePayee :: "jsobj \<Rightarrow> jsstr res" where
  "parsePayee r = bindR (optionalString r ''payee'' []) (\<lambda>s. validateLength s 0 LEDGER_PAYEE_MAX_LENGTH)"

definition parseLocation :: "jsobj \<Rightarrow> jsstr res" where
  "parseLocation r = bindR (optionalString r ''location'' []) (\<lambda>s. validateLength s 0 LEDGER_LOCATION_MAX_LENGTH)"

definition parseSafeInteger :: "jsobj \<Rightarrow> string \<Rightarrow> int res" where
  "parseSafeInteger r key = (case getProp r key of
     JInt i \<Rightarrow> (if safeInt i then Inr i else invalid) | _ \<Rightarrow> invalid)"

definition parsePositiveInteger :: "jsobj \<Rightarrow> string \<Rightarrow> int res" where
  "parsePositiveInteger r key = bindR (parseSafeInteger r key) (\<lambda>i. if i \<le> 0 then invalid else Inr i)"

definition parseEnum :: "('e \<Rightarrow> jsstr) \<Rightarrow> 'e list \<Rightarrow> jsobj \<Rightarrow> string \<Rightarrow> 'e res" where
  "parseEnum text allowed r key = bindR (requireString r key) (\<lambda>s.
     case enumOf text allowed (JStr s) of None \<Rightarrow> invalid | Some t \<Rightarrow> Inr t)"

definition parseAccountType :: "jsobj \<Rightarrow> LedgerAccountType res" where
  "parseAccountType r = parseEnum accountTypeText LEDGER_ACCOUNT_TYPES r ''type''"

definition parseAccountNature :: "jsobj \<Rightarrow> LedgerAccountNature res" where
  "parseAccountNature r = parseEnum natureText LEDGER_ACCOUNT_NATURES r ''nature''"

text \<open>One of the shipped icons, or \<open>^custom_[a-z0-9_]+$\<close>.\<close>

definition customIconChar :: "nat \<Rightarrow> bool" where
  "customIconChar c \<longleftrightarrow> (97 \<le> c \<and> c \<le> 122) \<or> isDigit c \<or> c = 95"

definition isAccountIcon :: "jsstr \<Rightarrow> bool" where
  "isAccountIcon s \<longleftrightarrow> s \<in> set LEDGER_ACCOUNT_ICONS
     \<or> (take 7 s = js ''custom_'' \<and> drop 7 s \<noteq> [] \<and> list_all customIconChar (drop 7 s))"

definition parseAccountIcon :: "jsobj \<Rightarrow> jsstr res" where
  "parseAccountIcon r = bindR (requireString r ''icon'') (\<lambda>s. if isAccountIcon s then Inr s else invalid)"

definition parseCategoryKind :: "jsobj \<Rightarrow> LedgerCategoryKind res" where
  "parseCategoryKind r = parseEnum kindText LEDGER_CATEGORY_KINDS r ''kind''"

definition parseTransactionType :: "jsobj \<Rightarrow> LedgerTransactionType res" where
  "parseTransactionType r = parseEnum transactionTypeText LEDGER_TRANSACTION_TYPES r ''type''"

definition parseTransferKind :: "jsobj \<Rightarrow> LedgerTransferKind res" where
  "parseTransferKind r = parseEnum transferKindText LEDGER_TRANSFER_KINDS r ''transferKind''"

definition parseTransferFeeMode :: "jsobj \<Rightarrow> LedgerTransferFeeMode res" where
  "parseTransferFeeMode r = parseEnum feeModeText LEDGER_TRANSFER_FEE_MODES r ''feeMode''"

text \<open>\<open>Number(text)\<close> for a text of decimal digits: the nearest double.\<close>

definition digitsNumber :: "jsstr \<Rightarrow> int" where
  "digitsNumber s = dround (int (decimalValue s))"

text \<open>The pattern \<open>^[1-9]\d*$\<close>.\<close>

definition positiveDigits :: "jsstr \<Rightarrow> bool" where
  "positiveDigits s \<longleftrightarrow> s \<noteq> [] \<and> hd s \<noteq> 48 \<and> list_all isDigit s"

definition parseAccountBalanceTrendRange :: "jsval \<Rightarrow> int res" where
  "parseAccountBalanceTrendRange v = (case v of
       JUndefined \<Rightarrow> Inr 30
     | JStr s \<Rightarrow> (if positiveDigits s \<and> digitsNumber s \<in> {7, 30, 90, 365} then Inr (digitsNumber s) else invalid)
     | _ \<Rightarrow> invalid)"

definition parseCurrencyField :: "jsobj \<Rightarrow> string \<Rightarrow> jsstr res" where
  "parseCurrencyField r key = bindR (requireString r key) (\<lambda>s.
     catchR (assertSupportedLedgerCurrency (JStr s)) (Inl (LedgerError LInvalidCurrency 400)))"

definition parseTimezone :: "ledger_env \<Rightarrow> jsobj \<Rightarrow> jsstr res" where
  "parseTimezone env r = bindR (requireString r ''timezone'') (\<lambda>s. assertIanaTimeZoneId env (JStr s))"

definition parseExpectedVersion :: "jsobj \<Rightarrow> int res" where
  "parseExpectedVersion r = bindR (parseSafeInteger r ''expectedVersion'') (\<lambda>i. if i < 1 then invalid else Inr i)"

definition parseIdempotencyKey :: "jsval \<Rightarrow> jsstr res" where
  "parseIdempotencyKey v = (case v of
     JStr s \<Rightarrow> if length s = 0 \<or> length s > LEDGER_IDEMPOTENCY_KEY_MAX_LENGTH then invalid else Inr s
   | _ \<Rightarrow> invalid)"

definition parseOccurredAt :: "ledger_env \<Rightarrow> jsobj \<Rightarrow> int res" where
  "parseOccurredAt env r = bindR (parseSafeInteger r ''occurredAt'') (\<lambda>i. assertUtcMilliseconds env (JInt i))"

definition parseAmountMinor :: "jsobj \<Rightarrow> int res" where
  "parseAmountMinor r = parsePositiveInteger r ''amountMinor''"

definition parseOptionalFeeMinor :: "jsobj \<Rightarrow> int res" where
  "parseOptionalFeeMinor r = bindR (parseSafeInteger r ''feeMinor'') (\<lambda>i. if i < 0 then invalid else Inr i)"

definition parseAdjustmentBalance :: "jsobj \<Rightarrow> string \<Rightarrow> int res" where
  "parseAdjustmentBalance r key = parseSafeInteger r key"

text \<open>\<open>...(hasOwn(record, key) ? { key: parse(record) } : {})\<close>: an optional field.\<close>

definition optField :: "jsobj \<Rightarrow> string \<Rightarrow> 'a res \<Rightarrow> 'a option res" where
  "optField r key parsed = (if hasOwn r key then bindR parsed (\<lambda>a. Inr (Some a)) else Inr None)"

section \<open>Create requests\<close>

record SettingsCreateRequest =
  scBaseCurrency :: jsstr
  scTimezone :: jsstr

definition parseSettingsCreateRequest :: "ledger_env \<Rightarrow> jsval \<Rightarrow> SettingsCreateRequest res" where
  "parseSettingsCreateRequest env v =
     bindR (asRecord v) (\<lambda>r.
     bindR (assertExactKeys r [''baseCurrency'', ''timezone''] [''baseCurrency'', ''timezone'']) (\<lambda>_.
     bindR (parseCurrencyField r ''baseCurrency'') (\<lambda>c.
     bindR (parseTimezone env r) (\<lambda>z.
     Inr \<lparr>scBaseCurrency = c, scTimezone = z\<rparr>))))"

record AccountCreateRequest =
  acName :: jsstr
  acType :: LedgerAccountType
  acNature :: LedgerAccountNature
  acIcon :: "jsstr option"
  acOpeningBalanceMinor :: int
  acOpeningDate :: jsstr
  acCurrency :: jsstr
  acNote :: jsstr
  acCardNumber :: jsstr

definition parseAccountCreateRequest :: "ledger_env \<Rightarrow> jsval \<Rightarrow> AccountCreateRequest res" where
  "parseAccountCreateRequest env v =
     bindR (asRecord v) (\<lambda>r.
     bindR (assertExactKeys r
       [''name'', ''type'', ''nature'', ''icon'', ''openingBalanceMinor'', ''openingDate'', ''currency'',
        ''note'', ''cardNumber'']
       [''name'', ''type'', ''nature'', ''openingBalanceMinor'', ''openingDate'', ''currency'']) (\<lambda>_.
     bindR (parseName r) (\<lambda>name.
     bindR (parseAccountType r) (\<lambda>type.
     bindR (parseAccountNature r) (\<lambda>nature.
     bindR (optField r ''icon'' (parseAccountIcon r)) (\<lambda>icon.
     bindR (parseSafeInteger r ''openingBalanceMinor'') (\<lambda>opening.
     bindR (bindR (requireString r ''openingDate'') (\<lambda>s. assertOpeningDate env (JStr s))) (\<lambda>date.
     bindR (parseCurrencyField r ''currency'') (\<lambda>currency.
     bindR (parseNote r) (\<lambda>note.
     bindR (parseCardNumber r) (\<lambda>card.
     Inr \<lparr>acName = name, acType = type, acNature = nature, acIcon = icon,
          acOpeningBalanceMinor = opening, acOpeningDate = date, acCurrency = currency,
          acNote = note, acCardNumber = card\<rparr>)))))))))))"

record CategoryCreateRequest =
  ccKind :: LedgerCategoryKind
  ccName :: jsstr
  ccIcon :: "jsstr option"

definition parseCategoryCreateRequest :: "jsval \<Rightarrow> CategoryCreateRequest res" where
  "parseCategoryCreateRequest v =
     bindR (asRecord v) (\<lambda>r.
     bindR (assertExactKeys r [''kind'', ''name'', ''icon''] [''kind'', ''name'']) (\<lambda>_.
     bindR (parseCategoryKind r) (\<lambda>kind.
     bindR (parseName r) (\<lambda>name.
     bindR (optField r ''icon'' (parseAccountIcon r)) (\<lambda>icon.
     Inr \<lparr>ccKind = kind, ccName = name, ccIcon = icon\<rparr>)))))"

record EntryRequest =
  rqAmountMinor :: int
  rqAccountId :: jsstr
  rqCategoryId :: jsstr
  rqOccurredAt :: int
  rqLocation :: jsstr
  rqPayee :: jsstr
  rqNote :: jsstr

record TransferRequest =
  tqTransferKind :: "LedgerTransferKind option"
  tqAmountMinor :: int
  tqFeeMinor :: "int option"
  tqFeeMode :: "LedgerTransferFeeMode option"
  tqFromAccountId :: jsstr
  tqToAccountId :: jsstr
  tqOccurredAt :: int
  tqLocation :: jsstr
  tqPayee :: jsstr
  tqNote :: jsstr

record AdjustmentRequest =
  aqTargetBalanceMinor :: int
  aqExpectedCalculatedBalanceMinor :: int
  aqOccurredAt :: int
  aqNote :: jsstr

datatype TransactionCreateRequest =
    CreateIncome EntryRequest
  | CreateExpense EntryRequest
  | CreateTransfer TransferRequest
  | CreateAdjustment jsstr AdjustmentRequest

definition parseIncomeOrExpenseCreate :: "ledger_env \<Rightarrow> jsobj \<Rightarrow> LedgerTransactionType \<Rightarrow> EntryRequest res" where
  "parseIncomeOrExpenseCreate env r type =
     bindR (assertExactKeys r
       [''type'', ''amountMinor'', ''accountId'', ''categoryId'', ''occurredAt'', ''location'', ''payee'', ''note'']
       [''type'', ''amountMinor'', ''accountId'', ''categoryId'', ''occurredAt'']) (\<lambda>_.
     bindR (parseTransactionType r) (\<lambda>t.
     bindR (check (t = type)) (\<lambda>_.
     bindR (parseAmountMinor r) (\<lambda>amount.
     bindR (requireNonEmptyId r ''accountId'') (\<lambda>account.
     bindR (requireNonEmptyId r ''categoryId'') (\<lambda>category.
     bindR (parseOccurredAt env r) (\<lambda>occurredAt.
     bindR (parseLocation r) (\<lambda>location.
     bindR (parsePayee r) (\<lambda>payee.
     bindR (parseNote r) (\<lambda>note.
     Inr \<lparr>rqAmountMinor = amount, rqAccountId = account, rqCategoryId = category,
          rqOccurredAt = occurredAt, rqLocation = location, rqPayee = payee, rqNote = note\<rparr>))))))))))"

definition parseTransferCreate :: "ledger_env \<Rightarrow> jsobj \<Rightarrow> TransferRequest res" where
  "parseTransferCreate env r =
     bindR (assertExactKeys r
       [''type'', ''transferKind'', ''amountMinor'', ''feeMinor'', ''feeMode'', ''fromAccountId'',
        ''toAccountId'', ''occurredAt'', ''location'', ''payee'', ''note'']
       [''type'', ''amountMinor'', ''fromAccountId'', ''toAccountId'', ''occurredAt'']) (\<lambda>_.
     bindR (parseTransactionType r) (\<lambda>t.
     bindR (check (t = TransferType)) (\<lambda>_.
     bindR (optField r ''transferKind'' (parseTransferKind r)) (\<lambda>kind.
     bindR (parseAmountMinor r) (\<lambda>amount.
     bindR (optField r ''feeMinor'' (parseOptionalFeeMinor r)) (\<lambda>fee.
     bindR (optField r ''feeMode'' (parseTransferFeeMode r)) (\<lambda>mode.
     bindR (requireNonEmptyId r ''fromAccountId'') (\<lambda>f.
     bindR (requireNonEmptyId r ''toAccountId'') (\<lambda>to.
     bindR (parseOccurredAt env r) (\<lambda>occurredAt.
     bindR (parseLocation r) (\<lambda>location.
     bindR (parsePayee r) (\<lambda>payee.
     bindR (parseNote r) (\<lambda>note.
     Inr \<lparr>tqTransferKind = kind, tqAmountMinor = amount, tqFeeMinor = fee, tqFeeMode = mode,
          tqFromAccountId = f, tqToAccountId = to, tqOccurredAt = occurredAt, tqLocation = location,
          tqPayee = payee, tqNote = note\<rparr>)))))))))))))"

definition adjustmentFields :: "ledger_env \<Rightarrow> jsobj \<Rightarrow> AdjustmentRequest res" where
  "adjustmentFields env r =
     bindR (parseAdjustmentBalance r ''targetBalanceMinor'') (\<lambda>target.
     bindR (parseAdjustmentBalance r ''expectedCalculatedBalanceMinor'') (\<lambda>expected.
     bindR (parseOccurredAt env r) (\<lambda>occurredAt.
     bindR (parseNote r) (\<lambda>note.
     Inr \<lparr>aqTargetBalanceMinor = target, aqExpectedCalculatedBalanceMinor = expected,
          aqOccurredAt = occurredAt, aqNote = note\<rparr>))))"

definition parseAdjustmentCreate :: "ledger_env \<Rightarrow> jsobj \<Rightarrow> (jsstr \<times> AdjustmentRequest) res" where
  "parseAdjustmentCreate env r =
     bindR (assertExactKeys r
       [''type'', ''accountId'', ''targetBalanceMinor'', ''expectedCalculatedBalanceMinor'', ''occurredAt'', ''note'']
       [''type'', ''accountId'', ''targetBalanceMinor'', ''expectedCalculatedBalanceMinor'', ''occurredAt'']) (\<lambda>_.
     bindR (parseTransactionType r) (\<lambda>t.
     bindR (check (t = AdjustmentType)) (\<lambda>_.
     bindR (requireNonEmptyId r ''accountId'') (\<lambda>account.
     bindR (adjustmentFields env r) (\<lambda>fields. Inr (account, fields))))))"

definition parseTransactionCreateRequest :: "ledger_env \<Rightarrow> jsval \<Rightarrow> TransactionCreateRequest res" where
  "parseTransactionCreateRequest env v =
     bindR (asRecord v) (\<lambda>r.
     bindR (parseTransactionType r) (\<lambda>type. case type of
       IncomeType \<Rightarrow> bindR (parseIncomeOrExpenseCreate env r IncomeType) (\<lambda>q. Inr (CreateIncome q))
     | ExpenseType \<Rightarrow> bindR (parseIncomeOrExpenseCreate env r ExpenseType) (\<lambda>q. Inr (CreateExpense q))
     | TransferType \<Rightarrow> bindR (parseTransferCreate env r) (\<lambda>q. Inr (CreateTransfer q))
     | AdjustmentType \<Rightarrow> bindR (parseAdjustmentCreate env r) (\<lambda>(a, q). Inr (CreateAdjustment a q))))"

definition parseAdjustmentEndpointRequest :: "ledger_env \<Rightarrow> jsval \<Rightarrow> AdjustmentRequest res" where
  "parseAdjustmentEndpointRequest env v =
     bindR (asRecord v) (\<lambda>r.
     bindR (assertExactKeys r
       [''targetBalanceMinor'', ''expectedCalculatedBalanceMinor'', ''occurredAt'', ''note'']
       [''targetBalanceMinor'', ''expectedCalculatedBalanceMinor'', ''occurredAt'']) (\<lambda>_.
     adjustmentFields env r))"

section \<open>PATCH requests\<close>

record SettingsPatchRequest =
  spExpectedVersion :: int
  spBaseCurrency :: "jsstr option"
  spTimezone :: "jsstr option"
  spAccountIcons :: "LedgerAccountIconConfig option"

text \<open>\<open>Object.entries\<close> of an object or array, restricted to text values.\<close>

definition textEntries :: "jsval \<Rightarrow> (jsstr \<times> jsstr) list" where
  "textEntries v = map (\<lambda>(k, t). (k, textOf t)) (filter (\<lambda>(k, t). isText t) (case v of
       JObj r \<Rightarrow> r | JArr xs \<Rightarrow> zip (map natText [0 ..< length xs]) xs | _ \<Rightarrow> []))"

definition isObjectLike :: "jsval \<Rightarrow> bool" where
  "isObjectLike v = (case v of JObj _ \<Rightarrow> True | JArr _ \<Rightarrow> True | _ \<Rightarrow> False)"

definition parseAccountIconConfig :: "jsval \<Rightarrow> LedgerAccountIconConfig res" where
  "parseAccountIconConfig v = (case v of
       JObj config \<Rightarrow>
         (case (getProp config ''availableIcons'', getProp config ''defaultIcon'') of
            (JArr available, JStr dflt) \<Rightarrow>
              if \<not> isObjectLike (getProp config ''customIcons'')
                 \<or> \<not> isObjectLike (getProp config ''customIconNames'') then invalid
              else
                (let icons = map textOf (filter isText available);
                     archived = (case getProp config ''archivedIcons'' of
                        JArr xs \<Rightarrow> map textOf (filter isText xs) | _ \<Rightarrow> [])
                 in if icons = [] \<or> dflt \<notin> set icons then invalid
                    else Inr \<lparr>defaultIcon = dflt, availableIcons = icons, archivedIcons = Some archived,
                      customIcons = textEntries (getProp config ''customIcons''),
                      customIconNames = textEntries (getProp config ''customIconNames'')\<rparr>)
          | _ \<Rightarrow> invalid)
     | _ \<Rightarrow> invalid)"

definition parseSettingsPatchRequest :: "ledger_env \<Rightarrow> jsval \<Rightarrow> SettingsPatchRequest res" where
  "parseSettingsPatchRequest env v =
     bindR (asRecord v) (\<lambda>r.
     bindR (assertExactKeys r [''expectedVersion'', ''baseCurrency'', ''timezone'', ''accountIcons'']
       [''expectedVersion'']) (\<lambda>_.
     bindR (check (hasOwn r ''baseCurrency'' \<or> hasOwn r ''timezone'' \<or> hasOwn r ''accountIcons'')) (\<lambda>_.
     bindR (parseExpectedVersion r) (\<lambda>version.
     bindR (optField r ''baseCurrency'' (parseCurrencyField r ''baseCurrency'')) (\<lambda>currency.
     bindR (optField r ''timezone'' (parseTimezone env r)) (\<lambda>zone.
     bindR (optField r ''accountIcons'' (parseAccountIconConfig (getProp r ''accountIcons''))) (\<lambda>icons.
     Inr \<lparr>spExpectedVersion = version, spBaseCurrency = currency, spTimezone = zone,
          spAccountIcons = icons\<rparr>)))))))"

record AccountPatchRequest =
  apExpectedVersion :: int
  apName :: "jsstr option"
  apNote :: "jsstr option"
  apCardNumber :: "jsstr option"
  apType :: "LedgerAccountType option"
  apNature :: "LedgerAccountNature option"
  apIcon :: "jsstr option"
  apOpeningBalanceMinor :: "int option"
  apOpeningDate :: "jsstr option"

definition accountPatchKeys :: "string list" where
  "accountPatchKeys = [''name'', ''note'', ''cardNumber'', ''type'', ''nature'', ''openingBalanceMinor'',
     ''openingDate'', ''icon'']"

definition parseAccountPatchRequest :: "ledger_env \<Rightarrow> jsval \<Rightarrow> AccountPatchRequest res" where
  "parseAccountPatchRequest env v =
     bindR (asRecord v) (\<lambda>r.
     bindR (assertExactKeys r (''expectedVersion'' # accountPatchKeys) [''expectedVersion'']) (\<lambda>_.
     bindR (check (list_ex (hasOwn r) accountPatchKeys)) (\<lambda>_.
     bindR (parseExpectedVersion r) (\<lambda>version.
     bindR (optField r ''name'' (parseName r)) (\<lambda>name.
     bindR (optField r ''note'' (parseNote r)) (\<lambda>note.
     bindR (optField r ''cardNumber'' (parseCardNumber r)) (\<lambda>card.
     bindR (optField r ''type'' (parseAccountType r)) (\<lambda>type.
     bindR (optField r ''nature'' (parseAccountNature r)) (\<lambda>nature.
     bindR (optField r ''icon'' (parseAccountIcon r)) (\<lambda>icon.
     bindR (optField r ''openingBalanceMinor'' (parseSafeInteger r ''openingBalanceMinor'')) (\<lambda>opening.
     bindR (optField r ''openingDate''
       (bindR (requireString r ''openingDate'') (\<lambda>s. assertOpeningDate env (JStr s)))) (\<lambda>date.
     Inr \<lparr>apExpectedVersion = version, apName = name, apNote = note, apCardNumber = card, apType = type,
          apNature = nature, apIcon = icon, apOpeningBalanceMinor = opening, apOpeningDate = date\<rparr>))))))))))))"

record CategoryPatchRequest =
  cpExpectedVersion :: int
  cpKind :: "LedgerCategoryKind option"
  cpName :: "jsstr option"
  cpIcon :: "jsstr option"

definition parseCategoryPatchRequest :: "jsval \<Rightarrow> CategoryPatchRequest res" where
  "parseCategoryPatchRequest v =
     bindR (asRecord v) (\<lambda>r.
     bindR (assertExactKeys r [''expectedVersion'', ''kind'', ''name'', ''icon''] [''expectedVersion'']) (\<lambda>_.
     bindR (check (hasOwn r ''kind'' \<or> hasOwn r ''name'' \<or> hasOwn r ''icon'')) (\<lambda>_.
     bindR (parseExpectedVersion r) (\<lambda>version.
     bindR (optField r ''kind'' (parseCategoryKind r)) (\<lambda>kind.
     bindR (optField r ''name'' (parseName r)) (\<lambda>name.
     bindR (optField r ''icon'' (parseAccountIcon r)) (\<lambda>icon.
     Inr \<lparr>cpExpectedVersion = version, cpKind = kind, cpName = name, cpIcon = icon\<rparr>)))))))"

record TransactionPatchRequest =
  tpExpectedVersion :: int
  tpType :: "LedgerTransactionType option"
  tpTransferKind :: "LedgerTransferKind option"
  tpAmountMinor :: "int option"
  tpFeeMinor :: "int option"
  tpFeeMode :: "LedgerTransferFeeMode option"
  tpAccountId :: "jsstr option"
  tpFromAccountId :: "jsstr option"
  tpToAccountId :: "jsstr option"
  tpCategoryId :: "jsstr option"
  tpOccurredAt :: "int option"
  tpLocation :: "jsstr option"
  tpPayee :: "jsstr option"
  tpNote :: "jsstr option"
  tpCalculated :: "int option"
  tpTarget :: "int option"

definition transactionPatchKeys :: "string list" where
  "transactionPatchKeys = [''type'', ''transferKind'', ''amountMinor'', ''feeMinor'', ''feeMode'',
     ''accountId'', ''fromAccountId'', ''toAccountId'', ''categoryId'', ''occurredAt'', ''location'',
     ''payee'', ''note'', ''adjustmentCalculatedBalanceMinor'', ''adjustmentTargetBalanceMinor'']"

definition parseTransactionPatchRequest :: "ledger_env \<Rightarrow> jsval \<Rightarrow> TransactionPatchRequest res" where
  "parseTransactionPatchRequest env v =
     bindR (asRecord v) (\<lambda>r.
     bindR (assertExactKeys r (''expectedVersion'' # transactionPatchKeys) [''expectedVersion'']) (\<lambda>_.
     bindR (check (list_ex (hasOwn r) transactionPatchKeys)) (\<lambda>_.
     bindR (parseExpectedVersion r) (\<lambda>version.
     bindR (optField r ''type'' (parseTransactionType r)) (\<lambda>type.
     bindR (optField r ''transferKind'' (parseTransferKind r)) (\<lambda>kind.
     bindR (optField r ''amountMinor'' (parseAmountMinor r)) (\<lambda>amount.
     bindR (optField r ''feeMinor'' (parseOptionalFeeMinor r)) (\<lambda>fee.
     bindR (optField r ''feeMode'' (parseTransferFeeMode r)) (\<lambda>mode.
     bindR (optField r ''accountId'' (requireNonEmptyId r ''accountId'')) (\<lambda>account.
     bindR (optField r ''fromAccountId'' (requireNonEmptyId r ''fromAccountId'')) (\<lambda>f.
     bindR (optField r ''toAccountId'' (requireNonEmptyId r ''toAccountId'')) (\<lambda>to.
     bindR (optField r ''categoryId'' (requireNonEmptyId r ''categoryId'')) (\<lambda>category.
     bindR (optField r ''occurredAt'' (parseOccurredAt env r)) (\<lambda>occurredAt.
     bindR (optField r ''location'' (parseLocation r)) (\<lambda>location.
     bindR (optField r ''payee'' (parsePayee r)) (\<lambda>payee.
     bindR (optField r ''note'' (parseNote r)) (\<lambda>note.
     bindR (optField r ''adjustmentCalculatedBalanceMinor''
       (parseAdjustmentBalance r ''adjustmentCalculatedBalanceMinor'')) (\<lambda>calculated.
     bindR (optField r ''adjustmentTargetBalanceMinor''
       (parseAdjustmentBalance r ''adjustmentTargetBalanceMinor'')) (\<lambda>target.
     Inr \<lparr>tpExpectedVersion = version, tpType = type, tpTransferKind = kind, tpAmountMinor = amount,
          tpFeeMinor = fee, tpFeeMode = mode, tpAccountId = account, tpFromAccountId = f,
          tpToAccountId = to, tpCategoryId = category, tpOccurredAt = occurredAt, tpLocation = location,
          tpPayee = payee, tpNote = note, tpCalculated = calculated, tpTarget = target\<rparr>)))))))))))))))))))"

definition parseExpectedVersionCommand :: "jsval \<Rightarrow> int res" where
  "parseExpectedVersionCommand v =
     bindR (asRecord v) (\<lambda>r.
     bindR (assertExactKeys r [''expectedVersion''] [''expectedVersion'']) (\<lambda>_.
     parseExpectedVersion r))"

section \<open>Query strings\<close>

definition parseLimit :: "jsval \<Rightarrow> int res" where
  "parseLimit v = (case v of
       JUndefined \<Rightarrow> Inr LEDGER_LIST_LIMIT_DEFAULT
     | _ \<Rightarrow> (let numeric = (case v of
              JInt i \<Rightarrow> Some i
            | JStr s \<Rightarrow> (if positiveDigits s then Some (digitsNumber s) else None)
            | _ \<Rightarrow> None)
         in case numeric of None \<Rightarrow> invalid
            | Some n \<Rightarrow> if \<not> safeInt n \<or> n < 1 \<or> n > LEDGER_LIST_LIMIT_MAX then invalid else Inr n))"

text \<open>The pattern \<open>^-?\d+$\<close> and the number it denotes.\<close>

fun signedDigits :: "jsstr \<Rightarrow> int option" where
  "signedDigits [] = None"
| "signedDigits (c # r) =
     (if c = 45 then (if r \<noteq> [] \<and> list_all isDigit r then Some (- digitsNumber r) else None)
      else if list_all isDigit (c # r) then Some (digitsNumber (c # r)) else None)"

definition parseUtcQueryValue :: "ledger_env \<Rightarrow> jsval \<Rightarrow> int option res" where
  "parseUtcQueryValue env v = (case v of
       JUndefined \<Rightarrow> Inr None
     | JStr s \<Rightarrow> (case signedDigits s of None \<Rightarrow> invalid
         | Some n \<Rightarrow> bindR (assertUtcMilliseconds env (JInt n)) (\<lambda>i. Inr (Some i)))
     | _ \<Rightarrow> invalid)"

definition parseBooleanQuery :: "jsval \<Rightarrow> bool \<Rightarrow> bool res" where
  "parseBooleanQuery v defaultValue =
     (if v = JUndefined then Inr defaultValue
      else if v = JStr (js ''true'') \<or> v = JBool True then Inr True
      else if v = JStr (js ''false'') \<or> v = JBool False then Inr False
      else invalid)"

record LedgerTransactionCursor =
  cuOccurredAt :: int
  cuCreatedAt :: int
  cuId :: jsstr

definition base64urlChar :: "nat \<Rightarrow> bool" where
  "base64urlChar c \<longleftrightarrow> isAlpha c \<or> isDigit c \<or> c = 95 \<or> c = 45"

definition cursorPayload :: "ledger_env \<Rightarrow> jsval \<Rightarrow> LedgerTransactionCursor res" where
  "cursorPayload env v = (case v of
       JObj p \<Rightarrow>
         (if length p = 4 \<and> list_all (hasOwn p) [''createdAt'', ''id'', ''occurredAt'', ''v'']
             \<and> getProp p ''v'' = JInt 1 then
            (case (getProp p ''id'', getProp p ''occurredAt'', getProp p ''createdAt'') of
               (JStr i, JInt o', JInt c) \<Rightarrow>
                 if length i = 0 \<or> \<not> safeInt o' \<or> \<not> safeInt c then invalid
                 else catchR (bindR (assertUtcMilliseconds env (JInt o')) (\<lambda>occurredAt.
                        bindR (assertUtcMilliseconds env (JInt c)) (\<lambda>createdAt.
                        Inr \<lparr>cuOccurredAt = occurredAt, cuCreatedAt = createdAt, cuId = i\<rparr>))) invalid
             | _ \<Rightarrow> invalid)
          else invalid)
     | _ \<Rightarrow> invalid)"

definition parseLedgerTransactionCursor :: "ledger_env \<Rightarrow> jsval \<Rightarrow> LedgerTransactionCursor res" where
  "parseLedgerTransactionCursor env v = (case v of
       JStr s \<Rightarrow>
         (if length s = 0 \<or> \<not> list_all base64urlChar s then invalid
          else case fromBase64url env s of None \<Rightarrow> invalid
          | Some text \<Rightarrow> (case jsonParse env text of None \<Rightarrow> invalid | Some p \<Rightarrow> cursorPayload env p))
     | _ \<Rightarrow> invalid)"

datatype LedgerTransactionFilterType = AllTypes | IncomeOnly | ExpenseOnly | TransferOnly

definition parseTransactionTypeFilter :: "jsval \<Rightarrow> LedgerTransactionFilterType res" where
  "parseTransactionTypeFilter v =
     (if v = JUndefined \<or> v = JStr (js ''all'') then Inr AllTypes
      else if v = JStr (js ''income'') then Inr IncomeOnly
      else if v = JStr (js ''expense'') then Inr ExpenseOnly
      else if v = JStr (js ''transfer'') then Inr TransferOnly
      else invalid)"

definition parseQueryId :: "jsobj \<Rightarrow> string \<Rightarrow> jsstr option res" where
  "parseQueryId r key = optField r key (case getProp r key of
     JStr s \<Rightarrow> if length s = 0 then invalid else Inr s | _ \<Rightarrow> invalid)"

definition parseQuerySearch :: "jsobj \<Rightarrow> jsstr option res" where
  "parseQuerySearch r =
     (if \<not> hasOwn r ''search'' then Inr None
      else case getProp r ''search'' of
        JStr s \<Rightarrow> Inr (if length (trim s) = 0 then None else Some (trim s))
      | _ \<Rightarrow> invalid)"

definition parseQueryCursor :: "ledger_env \<Rightarrow> jsobj \<Rightarrow> jsstr option res" where
  "parseQueryCursor env r =
     (if \<not> hasOwn r ''cursor'' then Inr None
      else bindR (parseLedgerTransactionCursor env (getProp r ''cursor'')) (\<lambda>_.
        case getProp r ''cursor'' of JStr s \<Rightarrow> Inr (Some s) | _ \<Rightarrow> invalid))"

definition parseQueryOffset :: "jsobj \<Rightarrow> int option res" where
  "parseQueryOffset r =
     (if \<not> hasOwn r ''offset'' then Inr None
      else let numeric = (case getProp r ''offset'' of
               JStr s \<Rightarrow> (if s \<noteq> [] \<and> list_all isDigit s then Some (digitsNumber s) else None)
             | JInt i \<Rightarrow> Some i
             | _ \<Rightarrow> None)
        in case numeric of None \<Rightarrow> invalid
           | Some n \<Rightarrow> if \<not> safeInt n \<or> n < 0 then invalid else Inr (Some n))"

record LedgerTransactionQuery =
  lqType :: LedgerTransactionFilterType
  lqAccountId :: "jsstr option"
  lqCategoryId :: "jsstr option"
  lqGroupId :: "jsstr option"
  lqFrom :: "int option"
  lqTo :: "int option"
  lqSearch :: "jsstr option"
  lqIncludeDeleted :: bool
  lqLimit :: int
  lqCursor :: "jsstr option"
  lqOffset :: "int option"

definition parseTransactionQuery :: "ledger_env \<Rightarrow> jsobj \<Rightarrow> LedgerTransactionQuery res" where
  "parseTransactionQuery env r =
     bindR (assertExactKeys r [''type'', ''accountId'', ''categoryId'', ''from'', ''to'', ''search'',
       ''groupId'', ''includeDeleted'', ''limit'', ''cursor'', ''offset''] []) (\<lambda>_.
     bindR (parseUtcQueryValue env (getProp r ''from'')) (\<lambda>f.
     bindR (parseUtcQueryValue env (getProp r ''to'')) (\<lambda>to.
     bindR (check (case (f, to) of (Some a, Some b) \<Rightarrow> a < b | _ \<Rightarrow> True)) (\<lambda>_.
     bindR (parseQueryCursor env r) (\<lambda>cursor.
     bindR (parseQueryOffset r) (\<lambda>offset.
     bindR (check (cursor = None \<or> offset = None)) (\<lambda>_.
     bindR (parseTransactionTypeFilter (getProp r ''type'')) (\<lambda>type.
     bindR (parseQueryId r ''accountId'') (\<lambda>account.
     bindR (parseQueryId r ''categoryId'') (\<lambda>category.
     bindR (parseQueryId r ''groupId'') (\<lambda>grp.
     bindR (parseQuerySearch r) (\<lambda>search.
     bindR (parseBooleanQuery (getProp r ''includeDeleted'') False) (\<lambda>includeDeleted.
     bindR (parseLimit (getProp r ''limit'')) (\<lambda>limit.
     Inr \<lparr>lqType = type, lqAccountId = account, lqCategoryId = category, lqGroupId = grp,
          lqFrom = f, lqTo = to, lqSearch = search, lqIncludeDeleted = includeDeleted,
          lqLimit = limit, lqCursor = cursor, lqOffset = offset\<rparr>))))))))))))))"

definition parseTrendMonths :: "jsval \<Rightarrow> int res" where
  "parseTrendMonths v = (case v of
       JUndefined \<Rightarrow> Inr LEDGER_TREND_MONTHS_DEFAULT
     | JStr s \<Rightarrow> (if positiveDigits s \<and> safeInt (digitsNumber s) \<and> 1 \<le> digitsNumber s
         then Inr (digitsNumber s) else invalid)
     | _ \<Rightarrow> invalid)"

datatype OverviewScope = AllScope | ScopePeriod LedgerPeriodName

definition parseOverviewScope :: "jsval \<Rightarrow> OverviewScope res" where
  "parseOverviewScope v =
     (if v = JUndefined \<or> v = JStr (js ''all'') then Inr AllScope
      else if v = JStr (js ''today'') then Inr (ScopePeriod Today)
      else if v = JStr (js ''week'') then Inr (ScopePeriod Week)
      else if v = JStr (js ''month'') then Inr (ScopePeriod Month)
      else if v = JStr (js ''year'') then Inr (ScopePeriod Year)
      else invalid)"

definition parseOverviewAnchorDate :: "ledger_env \<Rightarrow> jsval \<Rightarrow> jsstr option res" where
  "parseOverviewAnchorDate env v =
     (if v = JUndefined then Inr None
      else bindR (parseLedgerLocalDate env v) (\<lambda>s. Inr (Some s)))"

definition isSupportedCurrencyCode :: "jsval \<Rightarrow> bool" where
  "isSupportedCurrencyCode v =
     (case bindR (normalizeLedgerCurrencyCode v) (\<lambda>_. assertSupportedLedgerCurrency v) of
        Inl _ \<Rightarrow> False | Inr code \<Rightarrow> length code = 3)"

section \<open>What a parsed request guarantees\<close>

lemma optField_Some: "optField r k p = Inr (Some a) \<Longrightarrow> p = Inr a"
  by (auto simp: optField_def led_simps split: if_split_asm)

lemma parseSafeInteger_ok [parsed]: "parseSafeInteger r k = Inr i \<Longrightarrow> safeInt i"
  by (auto simp: parseSafeInteger_def split: jsval.split_asm if_split_asm)

lemma parseAmountMinor_ok [parsed]: "parseAmountMinor r = Inr i \<Longrightarrow> safeInt i \<and> 0 < i"
  by (cases "parseSafeInteger r ''amountMinor''")
    (auto simp: parseAmountMinor_def parsePositiveInteger_def dest: parseSafeInteger_ok split: if_split_asm)

lemma parseOptionalFeeMinor_ok [parsed]: "parseOptionalFeeMinor r = Inr i \<Longrightarrow> safeInt i \<and> 0 \<le> i"
  by (cases "parseSafeInteger r ''feeMinor''")
    (auto simp: parseOptionalFeeMinor_def dest: parseSafeInteger_ok split: if_split_asm)

lemma parseAdjustmentBalance_ok [parsed]: "parseAdjustmentBalance r k = Inr i \<Longrightarrow> safeInt i"
  by (simp add: parseAdjustmentBalance_def parseSafeInteger_ok)

lemma parseExpectedVersion_ok [parsed]: "parseExpectedVersion r = Inr i \<Longrightarrow> safeInt i \<and> 1 \<le> i"
  by (cases "parseSafeInteger r ''expectedVersion''")
    (auto simp: parseExpectedVersion_def dest: parseSafeInteger_ok split: if_split_asm)

lemma requireNonEmptyId_ok [parsed]: "requireNonEmptyId r k = Inr s \<Longrightarrow> s \<noteq> []"
  by (auto simp: requireNonEmptyId_def led_simps split: if_split_asm)

lemma parseName_ok [parsed]: "parseName r = Inr s \<Longrightarrow> trim s = s \<and> s \<noteq> [] \<and> length s \<le> 120"
  by (auto simp: parseName_def led_simps validateLength_def LEDGER_NAME_MAX_LENGTH_def split: if_split_asm)

lemma parseNote_ok [parsed]: "parseNote r = Inr s \<Longrightarrow> length s \<le> 2000"
  by (auto simp: parseNote_def led_simps validateLength_def LEDGER_NOTE_MAX_LENGTH_def split: if_split_asm)

lemma parsePayee_ok [parsed]: "parsePayee r = Inr s \<Longrightarrow> length s \<le> 200"
  by (auto simp: parsePayee_def led_simps validateLength_def LEDGER_PAYEE_MAX_LENGTH_def split: if_split_asm)

lemma parseOccurredAt_ok [parsed]: "parseOccurredAt env r = Inr i \<Longrightarrow> utcOk env i"
  by (auto simp: parseOccurredAt_def led_simps utcOk_def)

lemma parseCurrencyField_ok [parsed]: "parseCurrencyField r k = Inr s \<Longrightarrow> currencyOk s"
  by (auto simp: parseCurrencyField_def led_simps currencyOk_def dest: assertSupported_canonical)

lemma parseTimezone_ok [parsed]: "parseTimezone env r = Inr s \<Longrightarrow> isIanaTimeZoneId env (JStr s)"
  by (auto simp: parseTimezone_def led_simps isIanaTimeZoneId_iff)

lemma openingDate_ok [parsed]:
  "bindR (requireString r k) (\<lambda>s. assertOpeningDate env (JStr s)) = Inr s \<Longrightarrow> assertOpeningDate env (JStr s) = Inr s"
  by (auto simp: led_simps)

definition entryOk :: "ledger_env \<Rightarrow> EntryRequest \<Rightarrow> bool" where
  "entryOk env q \<longleftrightarrow> safeInt (rqAmountMinor q) \<and> 0 < rqAmountMinor q \<and> rqAccountId q \<noteq> []
     \<and> rqCategoryId q \<noteq> [] \<and> utcOk env (rqOccurredAt q)"

definition transferOk :: "ledger_env \<Rightarrow> TransferRequest \<Rightarrow> bool" where
  "transferOk env q \<longleftrightarrow> safeInt (tqAmountMinor q) \<and> 0 < tqAmountMinor q
     \<and> (\<forall>f. tqFeeMinor q = Some f \<longrightarrow> safeInt f \<and> 0 \<le> f)
     \<and> tqFromAccountId q \<noteq> [] \<and> tqToAccountId q \<noteq> [] \<and> utcOk env (tqOccurredAt q)"

definition adjustmentOk :: "ledger_env \<Rightarrow> AdjustmentRequest \<Rightarrow> bool" where
  "adjustmentOk env q \<longleftrightarrow> safeInt (aqTargetBalanceMinor q) \<and> safeInt (aqExpectedCalculatedBalanceMinor q)
     \<and> utcOk env (aqOccurredAt q)"

fun createOk :: "ledger_env \<Rightarrow> TransactionCreateRequest \<Rightarrow> bool" where
  "createOk env (CreateIncome q) = entryOk env q"
| "createOk env (CreateExpense q) = entryOk env q"
| "createOk env (CreateTransfer q) = transferOk env q"
| "createOk env (CreateAdjustment a q) = adjustmentOk env q"

lemma parseIncomeOrExpenseCreate_ok: "parseIncomeOrExpenseCreate env r ty = Inr q \<Longrightarrow> entryOk env q"
  by (auto simp: parseIncomeOrExpenseCreate_def led_simps entryOk_def dest!: parsed)

lemma parseTransferCreate_ok: "parseTransferCreate env r = Inr q \<Longrightarrow> transferOk env q"
  by (auto simp: parseTransferCreate_def led_simps transferOk_def dest!: optField_Some parsed)

lemma adjustmentFields_ok: "adjustmentFields env r = Inr q \<Longrightarrow> adjustmentOk env q"
  by (auto simp: adjustmentFields_def led_simps adjustmentOk_def dest!: parsed)

lemma parseTransactionCreateRequest_ok: "parseTransactionCreateRequest env v = Inr q \<Longrightarrow> createOk env q"
  by (auto simp: parseTransactionCreateRequest_def parseAdjustmentCreate_def led_simps
      dest!: parseIncomeOrExpenseCreate_ok parseTransferCreate_ok adjustmentFields_ok
      split: LedgerTransactionType.split_asm prod.split_asm) (metis LedgerTransactionType.exhaust)

lemma parseAdjustmentEndpointRequest_ok: "parseAdjustmentEndpointRequest env v = Inr q \<Longrightarrow> adjustmentOk env q"
  by (auto simp: parseAdjustmentEndpointRequest_def led_simps dest!: adjustmentFields_ok)

definition accountRequestOk :: "ledger_env \<Rightarrow> AccountCreateRequest \<Rightarrow> bool" where
  "accountRequestOk env q \<longleftrightarrow> trim (acName q) = acName q \<and> acName q \<noteq> [] \<and> safeInt (acOpeningBalanceMinor q)
     \<and> assertOpeningDate env (JStr (acOpeningDate q)) = Inr (acOpeningDate q) \<and> currencyOk (acCurrency q)"

lemma parseAccountCreateRequest_ok: "parseAccountCreateRequest env v = Inr q \<Longrightarrow> accountRequestOk env q"
  by (auto simp: parseAccountCreateRequest_def led_simps accountRequestOk_def dest!: parsed)

lemma parseCategoryCreateRequest_ok:
  "parseCategoryCreateRequest v = Inr q \<Longrightarrow> trim (ccName q) = ccName q \<and> ccName q \<noteq> []"
  by (auto simp: parseCategoryCreateRequest_def led_simps dest!: parsed)

lemma parseSettingsCreateRequest_ok:
  "parseSettingsCreateRequest env v = Inr q \<Longrightarrow>
     currencyOk (scBaseCurrency q) \<and> isIanaTimeZoneId env (JStr (scTimezone q))"
  by (auto simp: parseSettingsCreateRequest_def led_simps dest!: parsed)

definition transactionPatchOk :: "ledger_env \<Rightarrow> TransactionPatchRequest \<Rightarrow> bool" where
  "transactionPatchOk env q \<longleftrightarrow>
     (\<forall>i. tpAmountMinor q = Some i \<longrightarrow> safeInt i \<and> 0 < i) \<and> (\<forall>i. tpFeeMinor q = Some i \<longrightarrow> safeInt i \<and> 0 \<le> i)
     \<and> tpAccountId q \<noteq> Some [] \<and> tpFromAccountId q \<noteq> Some [] \<and> tpToAccountId q \<noteq> Some []
     \<and> tpCategoryId q \<noteq> Some [] \<and> (\<forall>i. tpOccurredAt q = Some i \<longrightarrow> utcOk env i)"

definition accountPatchOk :: "ledger_env \<Rightarrow> AccountPatchRequest \<Rightarrow> bool" where
  "accountPatchOk env q \<longleftrightarrow> (\<forall>s. apName q = Some s \<longrightarrow> trim s = s \<and> s \<noteq> [])
     \<and> (\<forall>i. apOpeningBalanceMinor q = Some i \<longrightarrow> safeInt i)
     \<and> (\<forall>s. apOpeningDate q = Some s \<longrightarrow> assertOpeningDate env (JStr s) = Inr s)"

lemma parseTransactionPatchRequest_ok: "parseTransactionPatchRequest env v = Inr q \<Longrightarrow> transactionPatchOk env q"
  by (auto simp: parseTransactionPatchRequest_def led_simps transactionPatchOk_def dest!: optField_Some parsed)

lemma parseAccountPatchRequest_ok: "parseAccountPatchRequest env v = Inr q \<Longrightarrow> accountPatchOk env q"
  by (auto simp: parseAccountPatchRequest_def led_simps accountPatchOk_def dest!: optField_Some parsed)

lemma parseCategoryPatchRequest_ok:
  "parseCategoryPatchRequest v = Inr q \<Longrightarrow> cpName q = Some s \<Longrightarrow> trim s = s \<and> s \<noteq> []"
  by (auto simp: parseCategoryPatchRequest_def led_simps dest!: optField_Some parsed)

lemma parseSettingsPatchRequest_ok:
  assumes "parseSettingsPatchRequest env v = Inr q"
  shows "(\<forall>s. spBaseCurrency q = Some s \<longrightarrow> currencyOk s)
     \<and> (\<forall>s. spTimezone q = Some s \<longrightarrow> isIanaTimeZoneId env (JStr s))"
  using assms by (auto simp: parseSettingsPatchRequest_def led_simps dest!: optField_Some parsed)

text \<open>An unknown field is refused, whatever else the body holds.\<close>

lemma assertExactKeys_iff [led_simps]:
  "assertExactKeys r allowed required = Inr u \<longleftrightarrow>
     (\<forall>k\<in>set (map fst r). k \<in> set (map js allowed)) \<and> (\<forall>k\<in>set required. hasOwn r k)"
  by (auto simp: assertExactKeys_def led_simps list_all_iff)

end
