(* ===== verification/Tables.thy ===== *)
theory Tables
  imports Validation
begin

text \<open>
  Tables as lists of rows, and the statements the repository runs on them: a lookup, a sorted
  selection, a compare-and-set update and a delete. The locale \<open>row_table\<close> states what a table
  needs for these statements to act on its decoded contents: the \<open>WHERE\<close> clauses on the key and
  version columns agree with the fields of the decoded object. Its lemmas are proved once and
  interpreted on accounts, categories and transactions in \<open>Repository\<close>.
\<close>

section \<open>Statements\<close>

definition selectOne :: "('r \<Rightarrow> 'x res) \<Rightarrow> ('r \<Rightarrow> bool) \<Rightarrow> 'r list \<Rightarrow> 'x option res" where
  "selectOne f P rs = (case find P rs of None \<Rightarrow> Inr None | Some r \<Rightarrow> bindR (f r) (\<lambda>x. Inr (Some x)))"

definition selectMany :: "('r \<Rightarrow> 'x res) \<Rightarrow> ('r \<Rightarrow> bool) \<Rightarrow> ('r \<Rightarrow> 'r \<Rightarrow> bool) \<Rightarrow> 'r list \<Rightarrow> 'x list res" where
  "selectMany f P le rs = mapR f (orderBy le (filter P rs))"

definition updateWhere :: "('r \<Rightarrow> bool) \<Rightarrow> ('r \<Rightarrow> 'r) \<Rightarrow> 'r list \<Rightarrow> 'r list" where
  "updateWhere P g rs = map (\<lambda>r. if P r then g r else r) rs"

definition changes :: "('r \<Rightarrow> bool) \<Rightarrow> 'r list \<Rightarrow> nat" where
  "changes P rs = length (filter P rs)"

definition deleteWhere :: "('r \<Rightarrow> bool) \<Rightarrow> 'r list \<Rightarrow> 'r list" where
  "deleteWhere P rs = filter (\<lambda>r. \<not> P r) rs"

text \<open>SQL comparisons of a column with a bound parameter: false on NULL.\<close>

definition sqlText :: "cell \<Rightarrow> jsstr \<Rightarrow> bool" where
  "sqlText c s \<longleftrightarrow> c = Some (JStr s)"

definition sqlInt :: "cell \<Rightarrow> int \<Rightarrow> bool" where
  "sqlInt c i \<longleftrightarrow> c = Some (JInt i)"

definition sqlNull :: "cell \<Rightarrow> bool" where
  "sqlNull c \<longleftrightarrow> c = Some JNull"

definition cellInt :: "cell \<Rightarrow> int" where
  "cellInt c = (case c of Some (JInt i) \<Rightarrow> i | _ \<Rightarrow> 0)"

definition cellText :: "cell \<Rightarrow> jsstr" where
  "cellText c = (case c of Some (JStr s) \<Rightarrow> s | _ \<Rightarrow> [])"

definition isTextCell :: "cell \<Rightarrow> bool" where
  "isTextCell c \<longleftrightarrow> (\<exists>s. c = Some (JStr s))"

definition isIntCell :: "cell \<Rightarrow> bool" where
  "isIntCell c \<longleftrightarrow> (\<exists>i. c = Some (JInt i))"

lemma isTextCell_code [code]: "isTextCell c = (case c of Some (JStr s) \<Rightarrow> True | _ \<Rightarrow> False)"
  by (auto simp: isTextCell_def split: option.split jsval.split)

lemma isIntCell_code [code]: "isIntCell c = (case c of Some (JInt s) \<Rightarrow> True | _ \<Rightarrow> False)"
  by (auto simp: isIntCell_def split: option.split jsval.split)

lemma cell_simps [simp]:
  "sqlText (Some (JStr s)) u \<longleftrightarrow> s = u" "sqlText (Some JNull) u \<longleftrightarrow> False"
  "sqlText (Some (optStr x)) u \<longleftrightarrow> x = Some u"
  "sqlInt (Some (JInt i)) j \<longleftrightarrow> i = j"
  "sqlNull (Some JNull)" "\<not> sqlNull (Some (JStr s))" "\<not> sqlNull (Some (JInt i))"
  "sqlNull (Some (optStr x)) \<longleftrightarrow> x = None" "sqlNull (Some (optInt y)) \<longleftrightarrow> y = None"
  "cellInt (Some (JInt i)) = i" "cellText (Some (JStr s)) = s"
  "isTextCell (Some (JStr s))" "isIntCell (Some (JInt i))"
  "isTextCell (Some (optStr x)) \<longleftrightarrow> x \<noteq> None" "isIntCell (Some (optInt y)) \<longleftrightarrow> y \<noteq> None"
  by (cases x; cases y; auto simp: sqlText_def sqlInt_def sqlNull_def cellInt_def cellText_def
      isTextCell_def isIntCell_def)+

section \<open>Positions\<close>

text \<open>
  The sort key \<open>(occurred_at, created_at, id)\<close> of every transaction listing, as a linear order.
  Identifiers are compared by code unit; SQLite compares the UTF-8 bytes, the same order on the
  text the id source produces.
\<close>

datatype position = Position (posOccurredAt: int) (posCreatedAt: int) (posId: jsstr)

instantiation position :: linorder
begin

definition less_eq_position :: "position \<Rightarrow> position \<Rightarrow> bool" where
  "less_eq_position p q \<longleftrightarrow> posOccurredAt p < posOccurredAt q \<or> (posOccurredAt p = posOccurredAt q
     \<and> (posCreatedAt p < posCreatedAt q \<or> (posCreatedAt p = posCreatedAt q \<and> posId p \<le> posId q)))"

definition less_position :: "position \<Rightarrow> position \<Rightarrow> bool" where
  "less_position p q \<longleftrightarrow> posOccurredAt p < posOccurredAt q \<or> (posOccurredAt p = posOccurredAt q
     \<and> (posCreatedAt p < posCreatedAt q \<or> (posCreatedAt p = posCreatedAt q \<and> posId p < posId q)))"

instance
proof
  fix x y z :: position
  show "x < y \<longleftrightarrow> x \<le> y \<and> \<not> y \<le> x" by (auto simp: less_eq_position_def less_position_def)
  show "x \<le> x" by (simp add: less_eq_position_def)
  show "x \<le> y \<Longrightarrow> y \<le> z \<Longrightarrow> x \<le> z" by (auto simp: less_eq_position_def)
  show "x \<le> y \<Longrightarrow> y \<le> x \<Longrightarrow> x = y" by (cases x; cases y) (auto simp: less_eq_position_def)
  show "x \<le> y \<or> y \<le> x" by (auto simp: less_eq_position_def)
qed

end

section \<open>Selections and updates on decoded rows\<close>

lemma decoded_eq: "f r = Inr x \<Longrightarrow> decoded f r = x"
  by (simp add: decoded_def)

definition decodes :: "('r \<Rightarrow> 'x res) \<Rightarrow> 'r list \<Rightarrow> bool" where
  "decodes f rs \<longleftrightarrow> (\<forall>r\<in>set rs. \<exists>x. f r = Inr x)"

lemma decodes_simps [simp]:
  "decodes f []" "decodes f (r # rs) \<longleftrightarrow> (\<exists>x. f r = Inr x) \<and> decodes f rs"
  "decodes f (rs @ qs) \<longleftrightarrow> decodes f rs \<and> decodes f qs"
  by (auto simp: decodes_def)

lemma decodes_mem: "decodes f rs \<Longrightarrow> r \<in> set rs \<Longrightarrow> f r = Inr (decoded f r)"
  by (auto simp: decodes_def decoded_def)

lemma find_decoded:
  "(\<And>r. r \<in> set rs \<Longrightarrow> P r \<longleftrightarrow> Q (decoded f r)) \<Longrightarrow>
   find Q (map (decoded f) rs) = map_option (decoded f) (find P rs)"
  by (induction rs) auto

lemma selectOne_view:
  assumes "decodes f rs" "\<And>r. r \<in> set rs \<Longrightarrow> P r \<longleftrightarrow> Q (decoded f r)"
  shows "selectOne f P rs = Inr (find Q (map (decoded f) rs))"
  using find_decoded [of rs P Q f] assms
  by (auto simp: selectOne_def decodes_mem dest: find_Some_mem split: option.splits)

lemma filter_decoded:
  "(\<And>r. r \<in> set rs \<Longrightarrow> P r \<longleftrightarrow> Q (decoded f r)) \<Longrightarrow>
   filter Q (map (decoded f) rs) = map (decoded f) (filter P rs)"
  by (induction rs) auto

lemma map_insertBy_on:
  "(\<And>y. y \<in> set xs \<Longrightarrow> le' (f x) (f y) = le x y) \<Longrightarrow> map f (insertBy le x xs) = insertBy le' (f x) (map f xs)"
  by (induction xs) auto

lemma map_orderBy_on:
  "(\<And>x y. x \<in> set xs \<Longrightarrow> y \<in> set xs \<Longrightarrow> le' (f x) (f y) = le x y) \<Longrightarrow>
   map f (orderBy le xs) = orderBy le' (map f xs)"
proof (induction xs)
  case (Cons a xs)
  have "map f (insertBy le a (orderBy le xs)) = insertBy le' (f a) (map f (orderBy le xs))"
    using Cons.prems by (intro map_insertBy_on) simp
  also have "map f (orderBy le xs) = orderBy le' (map f xs)"
    using Cons.prems by (intro Cons.IH) auto
  finally show ?case by simp
qed simp

lemma selectMany_view:
  assumes "decodes f rs" "\<And>r. r \<in> set rs \<Longrightarrow> P r \<longleftrightarrow> Q (decoded f r)"
    and "\<And>r s. r \<in> set rs \<Longrightarrow> s \<in> set rs \<Longrightarrow> le' (decoded f r) (decoded f s) = le r s"
  shows "selectMany f P le rs = Inr (orderBy le' (filter Q (map (decoded f) rs)))"
proof -
  have "\<forall>r\<in>set (orderBy le (filter P rs)). \<exists>y. f r = Inr y"
    using assms(1) by (auto simp: decodes_def)
  then have "selectMany f P le rs = Inr (map (decoded f) (orderBy le (filter P rs)))"
    by (simp add: selectMany_def mapR_decoded)
  also have "map (decoded f) (orderBy le (filter P rs)) = orderBy le' (map (decoded f) (filter P rs))"
    using assms(3) by (intro map_orderBy_on) auto
  also have "map (decoded f) (filter P rs) = filter Q (map (decoded f) rs)"
    using filter_decoded [of rs P Q f] assms(2) by simp
  finally show ?thesis .
qed

lemma updateWhere_view:
  assumes "decodes f rs" "\<And>r. r \<in> set rs \<Longrightarrow> P r \<longleftrightarrow> Q (decoded f r)"
    and "\<And>r. r \<in> set rs \<Longrightarrow> P r \<Longrightarrow> f (g r) = Inr (h (decoded f r))"
  shows "decodes f (updateWhere P g rs)"
    and "map (decoded f) (updateWhere P g rs) = map (\<lambda>x. if Q x then h x else x) (map (decoded f) rs)"
  using assms by (induction rs) (auto simp: updateWhere_def decoded_eq)

lemma changes_view:
  "(\<And>r. r \<in> set rs \<Longrightarrow> P r \<longleftrightarrow> Q (decoded f r)) \<Longrightarrow> changes P rs = length (filter Q (map (decoded f) rs))"
  using filter_decoded [of rs P Q f] by (simp add: changes_def)

lemma deleteWhere_view:
  assumes "decodes f rs" "\<And>r. r \<in> set rs \<Longrightarrow> P r \<longleftrightarrow> Q (decoded f r)"
  shows "decodes f (deleteWhere P rs)"
    and "map (decoded f) (deleteWhere P rs) = filter (\<lambda>x. \<not> Q x) (map (decoded f) rs)"
  using assms by (induction rs) (auto simp: deleteWhere_def)

section \<open>The interface of a versioned table\<close>

text \<open>
  \<open>decode\<close> reads a row, \<open>full\<close> says the row has every column; \<open>rowIs\<close> and \<open>rowVersionIs\<close> are the
  \<open>WHERE\<close> clauses \<open>id = @id\<close> and \<open>version = @expectedVersion\<close>; \<open>key\<close> and \<open>version\<close> the fields.
\<close>

locale row_table =
  fixes decode :: "'r \<Rightarrow> 'x res"
    and full :: "'r \<Rightarrow> bool"
    and rowIs :: "jsstr \<Rightarrow> 'r \<Rightarrow> bool"
    and rowVersionIs :: "int \<Rightarrow> 'r \<Rightarrow> bool"
    and key :: "'x \<Rightarrow> jsstr"
    and version :: "'x \<Rightarrow> int"
  assumes key_column: "full r \<Longrightarrow> decode r = Inr x \<Longrightarrow> rowIs k r \<longleftrightarrow> key x = k"
    and version_column: "full r \<Longrightarrow> decode r = Inr x \<Longrightarrow> rowVersionIs v r \<longleftrightarrow> version x = v"
begin

definition stored :: "'r list \<Rightarrow> bool" where
  "stored rs \<longleftrightarrow> (\<forall>r\<in>set rs. full r) \<and> decodes decode rs"

definition contents :: "'r list \<Rightarrow> 'x list" where
  "contents rs = map (decoded decode) rs"

lemma stored_decodes: "stored rs \<Longrightarrow> decodes decode rs"
  by (simp add: stored_def)

lemma stored_mem: "stored rs \<Longrightarrow> r \<in> set rs \<Longrightarrow> full r \<and> decode r = Inr (decoded decode r)"
  using decodes_mem [of decode rs r] by (simp add: stored_def)

lemma key_mem: "stored rs \<Longrightarrow> r \<in> set rs \<Longrightarrow> rowIs k r \<longleftrightarrow> key (decoded decode r) = k"
  using stored_mem key_column by blast

lemma version_mem: "stored rs \<Longrightarrow> r \<in> set rs \<Longrightarrow> rowVersionIs v r \<longleftrightarrow> version (decoded decode r) = v"
  using stored_mem version_column by blast

lemma get_by_key:
  "stored rs \<Longrightarrow> selectOne decode (rowIs k) rs = Inr (find (\<lambda>x. key x = k) (contents rs))"
  unfolding contents_def by (rule selectOne_view) (auto simp: stored_decodes key_mem)

lemma insert_row:
  assumes "stored rs" "full r" "decode r = Inr x"
  shows "stored (rs @ [r])" "contents (rs @ [r]) = contents rs @ [x]"
  using assms by (auto simp: stored_def contents_def decoded_eq)

lemma compare_and_set:
  assumes rs: "stored rs"
    and g: "\<And>r. r \<in> set rs \<Longrightarrow> rowIs k r \<Longrightarrow> rowVersionIs v r \<Longrightarrow>
      full (g r) \<and> decode (g r) = Inr (h (decoded decode r))"
  shows "stored (updateWhere (\<lambda>r. rowIs k r \<and> rowVersionIs v r) g rs)"
    and "contents (updateWhere (\<lambda>r. rowIs k r \<and> rowVersionIs v r) g rs) =
      map (\<lambda>x. if key x = k \<and> version x = v then h x else x) (contents rs)"
    and "changes (\<lambda>r. rowIs k r \<and> rowVersionIs v r) rs =
      length (filter (\<lambda>x. key x = k \<and> version x = v) (contents rs))"
proof -
  have P: "\<And>r. r \<in> set rs \<Longrightarrow> (rowIs k r \<and> rowVersionIs v r) \<longleftrightarrow>
      (key (decoded decode r) = k \<and> version (decoded decode r) = v)"
    using rs by (simp add: key_mem version_mem)
  have g': "\<And>r. r \<in> set rs \<Longrightarrow> rowIs k r \<and> rowVersionIs v r \<Longrightarrow> decode (g r) = Inr (h (decoded decode r))"
    using g by blast
  note view = updateWhere_view [where f = decode and P = "\<lambda>r. rowIs k r \<and> rowVersionIs v r"
      and Q = "\<lambda>x. key x = k \<and> version x = v" and g = g and h = h, OF stored_decodes [OF rs] P g']
  show "stored (updateWhere (\<lambda>r. rowIs k r \<and> rowVersionIs v r) g rs)"
    using view(1) rs g by (auto simp: stored_def updateWhere_def)
  show "contents (updateWhere (\<lambda>r. rowIs k r \<and> rowVersionIs v r) g rs) =
      map (\<lambda>x. if key x = k \<and> version x = v then h x else x) (contents rs)"
    using view(2) by (simp add: contents_def)
  show "changes (\<lambda>r. rowIs k r \<and> rowVersionIs v r) rs =
      length (filter (\<lambda>x. key x = k \<and> version x = v) (contents rs))"
    unfolding contents_def by (rule changes_view) (rule P)
qed

lemma delete_by_key:
  assumes "stored rs"
  shows "stored (deleteWhere (rowIs k) rs)"
    and "contents (deleteWhere (rowIs k) rs) = filter (\<lambda>x. key x \<noteq> k) (contents rs)"
    and "changes (rowIs k) rs = length (filter (\<lambda>x. key x = k) (contents rs))"
proof -
  have P: "\<And>r. r \<in> set rs \<Longrightarrow> rowIs k r \<longleftrightarrow> key (decoded decode r) = k"
    using assms by (simp add: key_mem)
  note view = deleteWhere_view [where f = decode and P = "rowIs k" and Q = "\<lambda>x. key x = k",
      OF stored_decodes [OF assms] P]
  show "stored (deleteWhere (rowIs k) rs)"
    using view(1) assms by (auto simp: stored_def deleteWhere_def)
  show "contents (deleteWhere (rowIs k) rs) = filter (\<lambda>x. key x \<noteq> k) (contents rs)"
    using view(2) by (simp add: contents_def)
  show "changes (rowIs k) rs = length (filter (\<lambda>x. key x = k) (contents rs))"
    unfolding contents_def by (rule changes_view) (rule P)
qed

end

end
