(* ===== verification/Repository.thy ===== *)
theory Repository
  imports Tables
begin

text \<open>
  \<open>server/ledger/repository.ts\<close> with the schema of \<open>server/migrations\<close>: the five tables, the
  parameters each statement binds, the constraints the schema enforces on an INSERT or UPDATE, the
  SELECTs with their conditions and orders, the compare-and-set UPDATEs, and the aggregates. A
  statement that violates a constraint fails and leaves the database as it was.
\<close>

section \<open>The database\<close>

record IdempotencyRow =
  ri_operation_scope :: cell
  ri_idempotency_key :: cell
  ri_request_fingerprint :: cell
  ri_response_status :: cell
  ri_response_body_json :: cell
  ri_result_status :: cell
  ri_result_type :: cell
  ri_result_id :: cell
  ri_created_at :: cell

record ledger_db =
  dbSettings :: "LedgerSettingsRow list"
  dbAccounts :: "LedgerAccountRow list"
  dbCategories :: "LedgerCategoryRow list"
  dbTransactions :: "LedgerTransactionRow list"
  dbIdempotency :: "IdempotencyRow list"

definition empty_db :: ledger_db where
  "empty_db = \<lparr>dbSettings = [], dbAccounts = [], dbCategories = [], dbTransactions = [], dbIdempotency = []\<rparr>"

section \<open>Bound parameters\<close>

definition settingsParams :: "LedgerSettings \<Rightarrow> LedgerSettingsRow" where
  "settingsParams s =
     \<lparr>rs_singleton_id = Some (JInt 1),
      rs_base_currency = Some (JStr (setBaseCurrency s)),
      rs_timezone = Some (JStr (setTimezone s)),
      rs_has_created_account = Some (JInt (boolInt (setHasCreatedAccount s))),
      rs_version = Some (JInt (setVersion s)),
      rs_created_at = Some (JInt (setCreatedAt s)),
      rs_updated_at = Some (JInt (setUpdatedAt s)),
      rs_account_icon_default = Some (JStr (defaultIcon (setAccountIcons s))),
      rs_account_icon_available_json = Some (JStr (jsonStringArray (availableIcons (setAccountIcons s)))),
      rs_account_icon_archived_json = Some (JStr (jsonStringArray
        (case archivedIcons (setAccountIcons s) of None \<Rightarrow> [] | Some xs \<Rightarrow> xs))),
      rs_account_icon_custom_json = Some (JStr (jsonStringRecord (customIcons (setAccountIcons s)))),
      rs_account_icon_names_json = Some (JStr (jsonStringRecord (customIconNames (setAccountIcons s))))\<rparr>"

text \<open>\<open>value ?? fallback\<close>.\<close>

definition orElse :: "'a option \<Rightarrow> 'a \<Rightarrow> 'a" where
  "orElse x d = (case x of None \<Rightarrow> d | Some a \<Rightarrow> a)"

lemma orElse_simps [simp]: "orElse None d = d" "orElse (Some a) d = a"
  by (simp_all add: orElse_def)

definition accountParams :: "LedgerAccount \<Rightarrow> LedgerAccountRow" where
  "accountParams a =
     \<lparr>ra_id = Some (JStr (accId a)),
      ra_name = Some (JStr (accName a)),
      ra_type = Some (JStr (accountTypeText (accType a))),
      ra_nature = Some (JStr (natureText (accNature a))),
      ra_icon = Some (JStr (orElse (accIcon a) (js ''wallet''))),
      ra_opening_balance_minor = Some (JInt (accOpeningBalanceMinor a)),
      ra_opening_date = Some (JStr (accOpeningDate a)),
      ra_currency = Some (JStr (accCurrency a)),
      ra_note = Some (JStr (accNote a)),
      ra_card_number = Some (JStr (orElse (accCardNumber a) [])),
      ra_archived_at = Some (optInt (accArchivedAt a)),
      ra_version = Some (JInt (accVersion a)),
      ra_created_at = Some (JInt (accCreatedAt a)),
      ra_updated_at = Some (JInt (accUpdatedAt a))\<rparr>"

definition categoryParams :: "LedgerCategory \<Rightarrow> LedgerCategoryRow" where
  "categoryParams c =
     \<lparr>rc_id = Some (JStr (catId c)),
      rc_kind = Some (JStr (kindText (catKind c))),
      rc_name = Some (JStr (catName c)),
      rc_normalized_name = Some (JStr (catNormalizedName c)),
      rc_system_key = Some (optStr (map_option systemKeyText (catSystemKey c))),
      rc_icon = Some (JStr (orElse (catIcon c) (js ''wallet''))),
      rc_is_default = Some (JInt (boolInt (catIsDefault c))),
      rc_sort_order = Some (JInt (orElse (catSortOrder c) 1000)),
      rc_archived_at = Some (optInt (catArchivedAt c)),
      rc_version = Some (JInt (catVersion c)),
      rc_created_at = Some (JInt (catCreatedAt c)),
      rc_updated_at = Some (JInt (catUpdatedAt c))\<rparr>"

section \<open>The constraints of the schema\<close>

definition textIn :: "cell \<Rightarrow> jsstr list \<Rightarrow> bool" where
  "textIn c xs = list_ex (sqlText c) xs"

definition nullOr :: "(cell \<Rightarrow> bool) \<Rightarrow> cell \<Rightarrow> bool" where
  "nullOr P c \<longleftrightarrow> sqlNull c \<or> P c"

definition versionCheck :: "cell \<Rightarrow> bool" where
  "versionCheck c \<longleftrightarrow> isIntCell c \<and> 1 \<le> cellInt c"

definition asciiLower :: "nat \<Rightarrow> nat" where
  "asciiLower c = (if 65 \<le> c \<and> c \<le> 90 then c + 32 else c)"

text \<open>\<open>icon IN (\<dots>) OR icon LIKE 'custom_%'\<close>.\<close>

definition iconCheck :: "cell \<Rightarrow> bool" where
  "iconCheck c \<longleftrightarrow> textIn c LEDGER_ACCOUNT_ICONS
     \<or> (isTextCell c \<and> 7 \<le> length (cellText c) \<and> map asciiLower (take 6 (cellText c)) = js ''custom'')"

definition settingsCheck :: "LedgerSettingsRow \<Rightarrow> bool" where
  "settingsCheck r \<longleftrightarrow> sqlInt (rs_singleton_id r) 1 \<and> isTextCell (rs_base_currency r)
     \<and> isTextCell (rs_timezone r)
     \<and> (sqlInt (rs_has_created_account r) 0 \<or> sqlInt (rs_has_created_account r) 1)
     \<and> versionCheck (rs_version r) \<and> isIntCell (rs_created_at r) \<and> isIntCell (rs_updated_at r)"

definition accountCheck :: "LedgerAccountRow \<Rightarrow> bool" where
  "accountCheck r \<longleftrightarrow> isTextCell (ra_id r) \<and> isTextCell (ra_name r)
     \<and> textIn (ra_type r) (map accountTypeText LEDGER_ACCOUNT_TYPES)
     \<and> textIn (ra_nature r) (map natureText LEDGER_ACCOUNT_NATURES)
     \<and> isIntCell (ra_opening_balance_minor r) \<and> isTextCell (ra_opening_date r)
     \<and> isTextCell (ra_currency r) \<and> isTextCell (ra_note r) \<and> nullOr isIntCell (ra_archived_at r)
     \<and> versionCheck (ra_version r) \<and> isIntCell (ra_created_at r) \<and> isIntCell (ra_updated_at r)
     \<and> iconCheck (ra_icon r) \<and> isTextCell (ra_card_number r)"

text \<open>The column checks and the two triggers of \<open>ledger_categories\<close>.\<close>

definition categoryCheck :: "LedgerCategoryRow \<Rightarrow> bool" where
  "categoryCheck r \<longleftrightarrow> isTextCell (rc_id r)
     \<and> textIn (rc_kind r) (map kindText LEDGER_CATEGORY_KINDS)
     \<and> isTextCell (rc_name r) \<and> isTextCell (rc_normalized_name r)
     \<and> nullOr isIntCell (rc_archived_at r) \<and> versionCheck (rc_version r)
     \<and> isIntCell (rc_created_at r) \<and> isIntCell (rc_updated_at r) \<and> iconCheck (rc_icon r)
     \<and> nullOr (\<lambda>c. textIn c (map systemKeyText LEDGER_SYSTEM_KEYS)) (rc_system_key r)
     \<and> (sqlNull (rc_system_key r) \<or> sqlText (rc_kind r) (kindText ExpenseKind))
     \<and> (sqlInt (rc_is_default r) 0 \<or> sqlInt (rc_is_default r) 1)
     \<and> isIntCell (rc_sort_order r) \<and> 0 \<le> cellInt (rc_sort_order r)"

text \<open>\<open>length(trim(group_id)) > 0\<close>: SQLite trims spaces.\<close>

definition sqlTrimNonEmpty :: "cell \<Rightarrow> bool" where
  "sqlTrimNonEmpty c \<longleftrightarrow> isTextCell c \<and> \<not> list_all (\<lambda>u. u = 32) (cellText c)"

definition typeIs :: "LedgerTransactionRow \<Rightarrow> LedgerTransactionType \<Rightarrow> bool" where
  "typeIs r t \<longleftrightarrow> sqlText (rt_type r) (transactionTypeText t)"

definition transactionShape :: "LedgerTransactionRow \<Rightarrow> bool" where
  "transactionShape r \<longleftrightarrow>
     ((typeIs r IncomeType \<or> typeIs r ExpenseType)
        \<and> \<not> sqlNull (rt_account_id r) \<and> sqlNull (rt_from_account_id r) \<and> sqlNull (rt_to_account_id r)
        \<and> \<not> sqlNull (rt_category_id r) \<and> 0 < cellInt (rt_amount_minor r)
        \<and> sqlNull (rt_calculated r) \<and> sqlNull (rt_target r))
     \<or> (typeIs r TransferType
        \<and> sqlNull (rt_account_id r) \<and> \<not> sqlNull (rt_from_account_id r) \<and> \<not> sqlNull (rt_to_account_id r)
        \<and> rt_from_account_id r \<noteq> rt_to_account_id r \<and> sqlNull (rt_category_id r)
        \<and> 0 < cellInt (rt_amount_minor r) \<and> sqlNull (rt_calculated r) \<and> sqlNull (rt_target r))
     \<or> (typeIs r AdjustmentType
        \<and> \<not> sqlNull (rt_account_id r) \<and> sqlNull (rt_from_account_id r) \<and> sqlNull (rt_to_account_id r)
        \<and> sqlNull (rt_category_id r) \<and> cellInt (rt_amount_minor r) \<noteq> 0
        \<and> \<not> sqlNull (rt_calculated r) \<and> \<not> sqlNull (rt_target r)
        \<and> cellInt (rt_amount_minor r) = cellInt (rt_target r) - cellInt (rt_calculated r)
        \<and> sqlText (rt_payee r) [])"

definition transactionCheck :: "LedgerTransactionRow \<Rightarrow> bool" where
  "transactionCheck r \<longleftrightarrow> isTextCell (rt_id r)
     \<and> textIn (rt_type r) (map transactionTypeText LEDGER_TRANSACTION_TYPES)
     \<and> isIntCell (rt_amount_minor r) \<and> isIntCell (rt_occurred_at r) \<and> isTextCell (rt_payee r)
     \<and> isTextCell (rt_note r) \<and> nullOr isIntCell (rt_calculated r) \<and> nullOr isIntCell (rt_target r)
     \<and> nullOr isIntCell (rt_deleted_at r) \<and> versionCheck (rt_version r) \<and> isIntCell (rt_created_at r)
     \<and> isIntCell (rt_updated_at r) \<and> isTextCell (rt_location r)
     \<and> nullOr (\<lambda>c. textIn c (map transferKindText LEDGER_TRANSFER_KINDS)) (rt_transfer_kind r)
     \<and> nullOr sqlTrimNonEmpty (rt_group_id r)
     \<and> nullOr (\<lambda>c. textIn c (map feeModeText LEDGER_TRANSFER_FEE_MODES)) (rt_transfer_fee_mode r)
     \<and> transactionShape r"

text \<open>The triggers \<open>transfer_kind\<close> and \<open>group_fields\<close>, before INSERT and before UPDATE of their columns.\<close>

definition transferKindTrigger :: "LedgerTransactionRow \<Rightarrow> bool" where
  "transferKindTrigger r \<longleftrightarrow>
     (typeIs r TransferType \<and> \<not> textIn (rt_transfer_kind r) (map transferKindText LEDGER_TRANSFER_KINDS))
     \<or> (\<not> typeIs r TransferType \<and> \<not> sqlNull (rt_transfer_kind r))"

definition groupFieldsTrigger :: "LedgerTransactionRow \<Rightarrow> bool" where
  "groupFieldsTrigger r \<longleftrightarrow>
     (\<not> sqlNull (rt_group_id r) \<and> \<not> (typeIs r TransferType \<or> typeIs r ExpenseType))
     \<or> (typeIs r TransferType \<and> sqlText (rt_transfer_kind r) (transferKindText General) \<and> \<not> sqlNull (rt_group_id r))
     \<or> (\<not> sqlNull (rt_transfer_fee_mode r)
        \<and> (\<not> typeIs r TransferType \<or> \<not> sqlText (rt_transfer_kind r) (transferKindText Withdrawal)
            \<or> sqlNull (rt_group_id r)
            \<or> \<not> textIn (rt_transfer_fee_mode r) (map feeModeText LEDGER_TRANSFER_FEE_MODES)))"

text \<open>The foreign keys of a transaction row.\<close>

definition referencesExist :: "ledger_db \<Rightarrow> LedgerTransactionRow \<Rightarrow> bool" where
  "referencesExist db r \<longleftrightarrow>
     list_all (\<lambda>c. sqlNull c \<or> c \<in> set (map ra_id (dbAccounts db)))
       [rt_account_id r, rt_from_account_id r, rt_to_account_id r]
     \<and> (sqlNull (rt_category_id r) \<or> rt_category_id r \<in> set (map rc_id (dbCategories db)))"

definition transactionWritable :: "ledger_db \<Rightarrow> LedgerTransactionRow \<Rightarrow> bool" where
  "transactionWritable db r \<longleftrightarrow> transactionCheck r \<and> \<not> transferKindTrigger r \<and> \<not> groupFieldsTrigger r
     \<and> referencesExist db r"

text \<open>\<open>UNIQUE (kind, normalized_name)\<close> and the partial unique index on \<open>system_key\<close>.\<close>

definition categoriesUnique :: "LedgerCategoryRow list \<Rightarrow> bool" where
  "categoriesUnique rs \<longleftrightarrow> distinct (map rc_id rs) \<and> distinct (map (\<lambda>r. (rc_kind r, rc_normalized_name r)) rs)
     \<and> distinct (map rc_system_key (filter (\<lambda>r. \<not> sqlNull (rc_system_key r)) rs))"

section \<open>Settings\<close>

definition getSettings :: "ledger_env \<Rightarrow> ledger_db \<Rightarrow> LedgerSettings option res" where
  "getSettings env db = selectOne (ledgerSettingsFromRow env) (\<lambda>r. sqlInt (rs_singleton_id r) 1) (dbSettings db)"

definition insertSettings :: "LedgerSettings \<Rightarrow> ledger_db \<Rightarrow> ledger_db res" where
  "insertSettings s db =
     (let r = settingsParams s
      in if settingsCheck r \<and> rs_singleton_id r \<notin> set (map rs_singleton_id (dbSettings db))
         then Inr (db\<lparr>dbSettings := dbSettings db @ [r]\<rparr>) else Inl SqlConstraint)"

definition updateSettings :: "LedgerSettings \<Rightarrow> int \<Rightarrow> ledger_db \<Rightarrow> (nat \<times> ledger_db) res" where
  "updateSettings s expectedVersion db =
     (let P = (\<lambda>r. sqlInt (rs_singleton_id r) 1 \<and> sqlInt (rs_version r) expectedVersion);
          g = (\<lambda>r. (settingsParams s)\<lparr>rs_singleton_id := rs_singleton_id r, rs_created_at := rs_created_at r\<rparr>)
      in if \<forall>r\<in>set (dbSettings db). P r \<longrightarrow> settingsCheck (g r)
         then Inr (changes P (dbSettings db), db\<lparr>dbSettings := updateWhere P g (dbSettings db)\<rparr>)
         else Inl SqlConstraint)"

section \<open>Accounts\<close>

abbreviation accountIs :: "jsstr \<Rightarrow> LedgerAccountRow \<Rightarrow> bool" where
  "accountIs i r \<equiv> sqlText (ra_id r) i"

abbreviation accountVersionIs :: "int \<Rightarrow> LedgerAccountRow \<Rightarrow> bool" where
  "accountVersionIs v r \<equiv> sqlInt (ra_version r) v"

definition getAccount :: "ledger_env \<Rightarrow> jsstr \<Rightarrow> ledger_db \<Rightarrow> LedgerAccount option res" where
  "getAccount env i db = selectOne (ledgerAccountFromRow env) (accountIs i) (dbAccounts db)"

text \<open>\<open>ORDER BY updated_at DESC, id DESC\<close>.\<close>

definition accountOrder :: "LedgerAccountRow \<Rightarrow> LedgerAccountRow \<Rightarrow> bool" where
  "accountOrder r s \<longleftrightarrow> cellInt (ra_updated_at s) < cellInt (ra_updated_at r)
     \<or> (cellInt (ra_updated_at s) = cellInt (ra_updated_at r) \<and> cellText (ra_id s) \<le> cellText (ra_id r))"

definition listAccounts :: "ledger_env \<Rightarrow> bool \<Rightarrow> ledger_db \<Rightarrow> LedgerAccount list res" where
  "listAccounts env includeArchived db =
     selectMany (ledgerAccountFromRow env) (\<lambda>r. includeArchived \<or> sqlNull (ra_archived_at r)) accountOrder
       (dbAccounts db)"

definition insertAccount :: "LedgerAccount \<Rightarrow> ledger_db \<Rightarrow> ledger_db res" where
  "insertAccount a db =
     (let r = accountParams a
      in if accountCheck r \<and> ra_id r \<notin> set (map ra_id (dbAccounts db))
         then Inr (db\<lparr>dbAccounts := dbAccounts db @ [r]\<rparr>) else Inl SqlConstraint)"

definition updateAccount :: "LedgerAccount \<Rightarrow> int \<Rightarrow> ledger_db \<Rightarrow> (nat \<times> ledger_db) res" where
  "updateAccount a expectedVersion db =
     (let P = (\<lambda>r. accountIs (accId a) r \<and> accountVersionIs expectedVersion r);
          g = (\<lambda>r. (accountParams a)\<lparr>ra_id := ra_id r,
                 ra_created_at := ra_created_at r\<rparr>)
      in if \<forall>r\<in>set (dbAccounts db). P r \<longrightarrow> accountCheck (g r)
         then Inr (changes P (dbAccounts db), db\<lparr>dbAccounts := updateWhere P g (dbAccounts db)\<rparr>)
         else Inl SqlConstraint)"

definition rowTouches :: "jsstr \<Rightarrow> LedgerTransactionRow \<Rightarrow> bool" where
  "rowTouches i r \<longleftrightarrow> sqlText (rt_account_id r) i \<or> sqlText (rt_from_account_id r) i \<or> sqlText (rt_to_account_id r) i"

text \<open>\<open>ON DELETE RESTRICT\<close>: a referenced row cannot go.\<close>

definition deleteAccount :: "jsstr \<Rightarrow> ledger_db \<Rightarrow> (nat \<times> ledger_db) res" where
  "deleteAccount i db =
     (if list_ex (accountIs i) (dbAccounts db) \<and> list_ex (rowTouches i) (dbTransactions db) then Inl SqlConstraint
      else Inr (changes (accountIs i) (dbAccounts db),
                db\<lparr>dbAccounts := deleteWhere (accountIs i) (dbAccounts db)\<rparr>))"

definition hasAccountHistory :: "jsstr \<Rightarrow> ledger_db \<Rightarrow> bool" where
  "hasAccountHistory i db = list_ex (rowTouches i) (dbTransactions db)"

section \<open>Categories\<close>

abbreviation categoryIs :: "jsstr \<Rightarrow> LedgerCategoryRow \<Rightarrow> bool" where
  "categoryIs i r \<equiv> sqlText (rc_id r) i"

abbreviation categoryVersionIs :: "int \<Rightarrow> LedgerCategoryRow \<Rightarrow> bool" where
  "categoryVersionIs v r \<equiv> sqlInt (rc_version r) v"

definition getCategory :: "ledger_env \<Rightarrow> jsstr \<Rightarrow> ledger_db \<Rightarrow> LedgerCategory option res" where
  "getCategory env i db = selectOne (ledgerCategoryFromRow env) (categoryIs i) (dbCategories db)"

definition findCategoryByIdentity ::
    "ledger_env \<Rightarrow> LedgerCategoryKind \<Rightarrow> jsstr \<Rightarrow> ledger_db \<Rightarrow> LedgerCategory option res" where
  "findCategoryByIdentity env kind normalizedName db =
     selectOne (ledgerCategoryFromRow env)
       (\<lambda>r. sqlText (rc_kind r) (kindText kind) \<and> sqlText (rc_normalized_name r) normalizedName) (dbCategories db)"

definition findCategoryBySystemKey ::
    "ledger_env \<Rightarrow> LedgerCategorySystemKey \<Rightarrow> ledger_db \<Rightarrow> LedgerCategory option res" where
  "findCategoryBySystemKey env systemKey db =
     selectOne (ledgerCategoryFromRow env) (\<lambda>r. sqlText (rc_system_key r) (systemKeyText systemKey)) (dbCategories db)"

text \<open>\<open>ORDER BY kind ASC, sort_order ASC, normalized_name ASC, id ASC\<close>.\<close>

definition categoryKey :: "LedgerCategoryRow \<Rightarrow> jsstr \<times> int \<times> jsstr \<times> jsstr" where
  "categoryKey r = (cellText (rc_kind r), cellInt (rc_sort_order r), cellText (rc_normalized_name r), cellText (rc_id r))"

definition categoryOrder :: "LedgerCategoryRow \<Rightarrow> LedgerCategoryRow \<Rightarrow> bool" where
  "categoryOrder r s = (case (categoryKey r, categoryKey s) of ((k, o1, n, i), (k', o2, n', i')) \<Rightarrow>
     k < k' \<or> (k = k' \<and> (o1 < o2 \<or> (o1 = o2 \<and> (n < n' \<or> (n = n' \<and> i \<le> i'))))))"

definition listCategories :: "ledger_env \<Rightarrow> bool \<Rightarrow> ledger_db \<Rightarrow> LedgerCategory list res" where
  "listCategories env includeArchived db =
     selectMany (ledgerCategoryFromRow env) (\<lambda>r. includeArchived \<or> sqlNull (rc_archived_at r)) categoryOrder
       (dbCategories db)"

definition insertCategory :: "LedgerCategory \<Rightarrow> ledger_db \<Rightarrow> ledger_db res" where
  "insertCategory c db =
     (let rs = dbCategories db @ [categoryParams c]
      in if categoryCheck (categoryParams c) \<and> categoriesUnique rs
         then Inr (db\<lparr>dbCategories := rs\<rparr>) else Inl SqlConstraint)"

definition updateCategory :: "LedgerCategory \<Rightarrow> int \<Rightarrow> ledger_db \<Rightarrow> (nat \<times> ledger_db) res" where
  "updateCategory c expectedVersion db =
     (let P = (\<lambda>r. categoryIs (catId c) r \<and> categoryVersionIs expectedVersion r);
          g = (\<lambda>r. (categoryParams c)\<lparr>rc_id := rc_id r, rc_created_at := rc_created_at r\<rparr>);
          rs = updateWhere P g (dbCategories db)
      in if (\<forall>r\<in>set (dbCategories db). P r \<longrightarrow> categoryCheck (g r)) \<and> categoriesUnique rs
         then Inr (changes P (dbCategories db), db\<lparr>dbCategories := rs\<rparr>)
         else Inl SqlConstraint)"

definition deleteCategory :: "jsstr \<Rightarrow> ledger_db \<Rightarrow> (nat \<times> ledger_db) res" where
  "deleteCategory i db =
     (if list_ex (categoryIs i) (dbCategories db) \<and> list_ex (\<lambda>r. sqlText (rt_category_id r) i) (dbTransactions db)
      then Inl SqlConstraint
      else Inr (changes (categoryIs i) (dbCategories db),
                db\<lparr>dbCategories := deleteWhere (categoryIs i) (dbCategories db)\<rparr>))"

definition hasCategoryHistory :: "jsstr \<Rightarrow> ledger_db \<Rightarrow> bool" where
  "hasCategoryHistory i db = list_ex (\<lambda>r. sqlText (rt_category_id r) i) (dbTransactions db)"

section \<open>Transactions\<close>

abbreviation transactionIs :: "jsstr \<Rightarrow> LedgerTransactionRow \<Rightarrow> bool" where
  "transactionIs i r \<equiv> sqlText (rt_id r) i"

abbreviation transactionVersionIs :: "int \<Rightarrow> LedgerTransactionRow \<Rightarrow> bool" where
  "transactionVersionIs v r \<equiv> sqlInt (rt_version r) v"

definition rowPosition :: "LedgerTransactionRow \<Rightarrow> position" where
  "rowPosition r = Position (cellInt (rt_occurred_at r)) (cellInt (rt_created_at r)) (cellText (rt_id r))"

text \<open>\<open>ORDER BY occurred_at DESC, created_at DESC, id DESC\<close>.\<close>

definition transactionOrder :: "LedgerTransactionRow \<Rightarrow> LedgerTransactionRow \<Rightarrow> bool" where
  "transactionOrder r s \<longleftrightarrow> rowPosition s \<le> rowPosition r"

definition getTransaction :: "ledger_env \<Rightarrow> jsstr \<Rightarrow> ledger_db \<Rightarrow> LedgerTransaction option res" where
  "getTransaction env i db = selectOne (ledgerTransactionFromRow env) (transactionIs i) (dbTransactions db)"

definition insertTransaction :: "LedgerTransaction \<Rightarrow> ledger_db \<Rightarrow> ledger_db res" where
  "insertTransaction t db =
     (let r = transactionParams t
      in if transactionWritable db r \<and> rt_id r \<notin> set (map rt_id (dbTransactions db))
         then Inr (db\<lparr>dbTransactions := dbTransactions db @ [r]\<rparr>) else Inl SqlConstraint)"

definition updateTransaction :: "LedgerTransaction \<Rightarrow> int \<Rightarrow> ledger_db \<Rightarrow> (nat \<times> ledger_db) res" where
  "updateTransaction t expectedVersion db =
     (let P = (\<lambda>r. transactionIs (txId t) r \<and> transactionVersionIs expectedVersion r);
          g = (\<lambda>r. (transactionParams t)\<lparr>rt_id := rt_id r, rt_created_at := rt_created_at r\<rparr>)
      in if \<forall>r\<in>set (dbTransactions db). P r \<longrightarrow> transactionWritable db (g r)
         then Inr (changes P (dbTransactions db), db\<lparr>dbTransactions := updateWhere P g (dbTransactions db)\<rparr>)
         else Inl SqlConstraint)"

definition softDeleteTransaction ::
    "jsstr \<Rightarrow> int \<Rightarrow> int \<Rightarrow> int \<Rightarrow> int \<Rightarrow> ledger_db \<Rightarrow> (nat \<times> ledger_db) res" where
  "softDeleteTransaction i deletedAt version updatedAt expectedVersion db =
     (let P = (\<lambda>r. transactionIs i r \<and> transactionVersionIs expectedVersion r);
          g = (\<lambda>r. r\<lparr>rt_deleted_at := Some (JInt deletedAt), rt_version := Some (JInt version),
                 rt_updated_at := Some (JInt updatedAt)\<rparr>)
      in if \<forall>r\<in>set (dbTransactions db). P r \<longrightarrow> transactionCheck (g r)
         then Inr (changes P (dbTransactions db), db\<lparr>dbTransactions := updateWhere P g (dbTransactions db)\<rparr>)
         else Inl SqlConstraint)"

abbreviation selectTransactions ::
    "ledger_env \<Rightarrow> (LedgerTransactionRow \<Rightarrow> bool) \<Rightarrow> ledger_db \<Rightarrow> LedgerTransaction list res" where
  "selectTransactions env P db \<equiv>
     selectMany (ledgerTransactionFromRow env) P transactionOrder (dbTransactions db)"

definition listActiveTransactionsForAccount :: "ledger_env \<Rightarrow> jsstr \<Rightarrow> ledger_db \<Rightarrow> LedgerTransaction list res" where
  "listActiveTransactionsForAccount env accountId db =
     selectTransactions env (\<lambda>r. sqlNull (rt_deleted_at r) \<and> rowTouches accountId r) db"

definition occurredIn :: "int option \<Rightarrow> int option \<Rightarrow> LedgerTransactionRow \<Rightarrow> bool" where
  "occurredIn lo hi r \<longleftrightarrow> (case lo of None \<Rightarrow> True | Some a \<Rightarrow> a \<le> cellInt (rt_occurred_at r))
     \<and> (case hi of None \<Rightarrow> True | Some b \<Rightarrow> cellInt (rt_occurred_at r) < b)"

definition listActiveTransactionsForAccountInRange ::
    "ledger_env \<Rightarrow> jsstr \<Rightarrow> int \<Rightarrow> int \<Rightarrow> ledger_db \<Rightarrow> LedgerTransaction list res" where
  "listActiveTransactionsForAccountInRange env accountId lo hi db =
     bindR (failUnless (safeInt hi) ledgerValidationError) (\<lambda>_.
     bindR (failUnless (safeInt lo) ledgerValidationError) (\<lambda>_.
     bindR (failUnless (\<not> lo \<ge> hi) ledgerValidationError) (\<lambda>_.
     selectTransactions env
       (\<lambda>r. sqlNull (rt_deleted_at r) \<and> rowTouches accountId r \<and> occurredIn (Some lo) (Some hi) r) db)))"

definition listActiveTransactions :: "ledger_env \<Rightarrow> ledger_db \<Rightarrow> LedgerTransaction list res" where
  "listActiveTransactions env db = selectTransactions env (\<lambda>r. sqlNull (rt_deleted_at r)) db"

definition listTransactionsByGroupId :: "ledger_env \<Rightarrow> jsstr \<Rightarrow> bool \<Rightarrow> ledger_db \<Rightarrow> LedgerTransaction list res" where
  "listTransactionsByGroupId env groupId includeDeleted db =
     selectTransactions env (\<lambda>r. sqlText (rt_group_id r) groupId \<and> (includeDeleted \<or> sqlNull (rt_deleted_at r))) db"

definition listActiveTransactionsInRange ::
    "ledger_env \<Rightarrow> int option \<Rightarrow> int \<Rightarrow> ledger_db \<Rightarrow> LedgerTransaction list res" where
  "listActiveTransactionsInRange env lo hi db =
     bindR (failUnless (safeInt hi) ledgerValidationError) (\<lambda>_.
     bindR (case lo of None \<Rightarrow> Inr () | Some a \<Rightarrow>
         bindR (failUnless (safeInt a) ledgerValidationError) (\<lambda>_. failUnless (\<not> a \<ge> hi) ledgerValidationError)) (\<lambda>_.
     selectTransactions env (\<lambda>r. sqlNull (rt_deleted_at r) \<and> occurredIn lo (Some hi) r) db))"

definition groupedExpense :: "LedgerTransactionRow \<Rightarrow> bool" where
  "groupedExpense r \<longleftrightarrow> \<not> sqlNull (rt_group_id r) \<and> typeIs r ExpenseType"

definition listRecentActiveTransactionsBefore ::
    "ledger_env \<Rightarrow> int \<Rightarrow> int \<Rightarrow> ledger_db \<Rightarrow> LedgerTransaction list res" where
  "listRecentActiveTransactionsBefore env hi limit db =
     bindR (failUnless (safeInt hi) ledgerValidationError) (\<lambda>_.
     bindR (failUnless (safeInt limit \<and> \<not> limit < 1) ledgerValidationError) (\<lambda>_.
     mapR (ledgerTransactionFromRow env)
       (take (nat limit) (orderBy transactionOrder
         (filter (\<lambda>r. sqlNull (rt_deleted_at r) \<and> occurredIn None (Some hi) r \<and> \<not> groupedExpense r)
           (dbTransactions db))))))"

end
