(* ===== verification/Queries.thy ===== *)
theory Queries
  imports Repository
begin

text \<open>
  The reads of \<open>server/ledger/repository.ts\<close> that are more than a selection: the account balance
  aggregates with their SQL sign table, the transaction query with its filter, search and keyset
  cursor, its summary, and the idempotency records.
\<close>

section \<open>Balance aggregates\<close>

text \<open>\<open>ACCOUNT_TRANSACTION_EFFECT_SQL\<close>.\<close>

definition accountTransactionEffect :: "jsstr \<Rightarrow> LedgerAccountNature \<Rightarrow> LedgerTransactionRow \<Rightarrow> int" where
  "accountTransactionEffect accountId nature r =
     (let amount = cellInt (rt_amount_minor r)
      in if typeIs r AdjustmentType \<and> sqlText (rt_account_id r) accountId then amount
         else if typeIs r IncomeType \<and> sqlText (rt_account_id r) accountId
           then (if nature = Asset then amount else - amount)
         else if typeIs r ExpenseType \<and> sqlText (rt_account_id r) accountId
           then (if nature = Asset then - amount else amount)
         else if typeIs r TransferType \<and> sqlText (rt_from_account_id r) accountId
           then (if nature = Asset then - amount else amount)
         else if typeIs r TransferType \<and> sqlText (rt_to_account_id r) accountId
           then (if nature = Asset then amount else - amount)
         else 0)"

text \<open>\<open>COALESCE(SUM(\<dots>), 0)\<close> over 64-bit integers; an overflow of the accumulator is an error.\<close>

fun sqlSumFrom :: "int \<Rightarrow> int list \<Rightarrow> int res" where
  "sqlSumFrom acc [] = Inr acc"
| "sqlSumFrom acc (x # xs) =
     (if - (2 ^ 63) \<le> acc + x \<and> acc + x < 2 ^ 63 then sqlSumFrom (acc + x) xs else Inl SqlOverflow)"

definition sqlSum :: "int list \<Rightarrow> int res" where
  "sqlSum xs = sqlSumFrom 0 xs"

definition accountBalanceFromEffect :: "int \<Rightarrow> int \<Rightarrow> int res" where
  "accountBalanceFromEffect openingBalanceMinor effect =
     bindR (assertSafeMinor (JInt (dround effect))) (\<lambda>e. checkedAddMinor openingBalanceMinor e)"

definition aggregateBalance ::
    "LedgerBalanceAccount \<Rightarrow> (LedgerTransactionRow \<Rightarrow> bool) \<Rightarrow> ledger_db \<Rightarrow> int res" where
  "aggregateBalance a P db =
     bindR (assertSafeMinor (JInt (refOpeningBalanceMinor a))) (\<lambda>_.
     bindR (sqlSum (map (accountTransactionEffect (refId a) (refNature a))
        (filter (\<lambda>r. sqlNull (rt_deleted_at r) \<and> rowTouches (refId a) r \<and> P r) (dbTransactions db)))) (\<lambda>effect.
     accountBalanceFromEffect (refOpeningBalanceMinor a) effect))"

definition getAccountBalanceBefore :: "LedgerBalanceAccount \<Rightarrow> int \<Rightarrow> ledger_db \<Rightarrow> int res" where
  "getAccountBalanceBefore a before db =
     bindR (failUnless (safeInt before) ledgerValidationError) (\<lambda>_.
     aggregateBalance a (occurredIn None (Some before)) db)"

definition getAccountBalanceAtPosition :: "LedgerBalanceAccount \<Rightarrow> position \<Rightarrow> ledger_db \<Rightarrow> int res" where
  "getAccountBalanceAtPosition a p db =
     bindR (failUnless (safeInt (posOccurredAt p) \<and> safeInt (posCreatedAt p)) ledgerValidationError) (\<lambda>_.
     aggregateBalance a (\<lambda>r. rowPosition r \<le> p) db)"

text \<open>The map from transaction id to balance, as the list of its entries in the order of \<open>positions\<close>.\<close>

definition getAccountBalancesAtPositions ::
    "LedgerBalanceAccount \<Rightarrow> position list \<Rightarrow> ledger_db \<Rightarrow> (jsstr \<times> int) list res" where
  "getAccountBalancesAtPositions a positions db =
     bindR (failUnless (list_all (\<lambda>p. safeInt (posOccurredAt p) \<and> safeInt (posCreatedAt p)) positions)
              ledgerValidationError) (\<lambda>_.
     mapR (\<lambda>p. bindR (aggregateBalance a (\<lambda>r. rowPosition r \<le> p) db) (\<lambda>b. Inr (posId p, b))) positions)"

section \<open>The transaction query\<close>

record LedgerTransactionQueryOptions =
  qoType :: LedgerTransactionFilterType
  qoAccountId :: "jsstr option"
  qoCategoryId :: "jsstr option"
  qoGroupId :: "jsstr option"
  qoFrom :: "int option"
  qoTo :: "int option"
  qoSearch :: "jsstr option"
  qoIncludeDeleted :: bool
  qoLimit :: int
  qoOffset :: "int option"
  qoCursor :: "position option"

text \<open>\<open>replaceAll\<close> on backslash, percent and underscore, and \<open>LIKE \<dots> ESCAPE '\'\<close> without case.\<close>

fun escapeLike :: "jsstr \<Rightarrow> jsstr" where
  "escapeLike [] = []"
| "escapeLike (c # r) = (if c = 92 \<or> c = 37 \<or> c = 95 then [92, c] else [c]) @ escapeLike r"

fun sqlLike :: "jsstr \<Rightarrow> jsstr \<Rightarrow> bool" where
  "sqlLike [] s = (s = [])"
| "sqlLike (p # ps) [] =
     (if p = 37 then sqlLike ps [] else False)"
| "sqlLike (p # ps) (c # r) =
     (if p = 92 then (case ps of [] \<Rightarrow> False | q # qs \<Rightarrow> asciiLower c = asciiLower q \<and> sqlLike qs r)
      else if p = 37 then sqlLike ps (c # r) \<or> sqlLike (p # ps) r
      else if p = 95 then sqlLike ps r
      else asciiLower c = asciiLower p \<and> sqlLike ps r)"

definition searchPattern :: "jsstr \<Rightarrow> jsstr" where
  "searchPattern search = [37] @ escapeLike search @ [37]"

definition filterTypeMatches :: "LedgerTransactionFilterType \<Rightarrow> LedgerTransactionRow \<Rightarrow> bool" where
  "filterTypeMatches f r = (case f of AllTypes \<Rightarrow> True | IncomeOnly \<Rightarrow> typeIs r IncomeType
     | ExpenseOnly \<Rightarrow> typeIs r ExpenseType | TransferOnly \<Rightarrow> typeIs r TransferType)"

definition optMatches :: "('a \<Rightarrow> bool) \<Rightarrow> 'a option \<Rightarrow> bool" where
  "optMatches P x = (case x of None \<Rightarrow> True | Some a \<Rightarrow> P a)"

definition searchMatches :: "ledger_db \<Rightarrow> jsstr \<Rightarrow> LedgerTransactionRow \<Rightarrow> bool" where
  "searchMatches db search r \<longleftrightarrow>
     (let hit = (\<lambda>c. sqlLike (searchPattern search) (cellText c))
      in hit (rt_location r) \<or> hit (rt_payee r) \<or> hit (rt_note r)
         \<or> list_ex (\<lambda>a. hit (ra_name a) \<and> \<not> sqlNull (ra_id a)
              \<and> ra_id a \<in> {rt_account_id r, rt_from_account_id r, rt_to_account_id r}) (dbAccounts db))"

definition transactionQueryFilter ::
    "ledger_db \<Rightarrow> LedgerTransactionQueryOptions \<Rightarrow> bool \<Rightarrow> bool \<Rightarrow> LedgerTransactionRow \<Rightarrow> bool" where
  "transactionQueryFilter db opts includeCursor hideGroupedCharges r \<longleftrightarrow>
     (qoIncludeDeleted opts \<or> sqlNull (rt_deleted_at r))
     \<and> filterTypeMatches (qoType opts) r
     \<and> optMatches (\<lambda>i. rowTouches i r) (qoAccountId opts)
     \<and> optMatches (sqlText (rt_category_id r)) (qoCategoryId opts)
     \<and> optMatches (sqlText (rt_group_id r)) (qoGroupId opts)
     \<and> (hideGroupedCharges \<longrightarrow> \<not> groupedExpense r)
     \<and> occurredIn (qoFrom opts) (qoTo opts) r
     \<and> optMatches (\<lambda>s. s = [] \<or> searchMatches db s r) (qoSearch opts)
     \<and> (includeCursor \<longrightarrow> optMatches (\<lambda>p. rowPosition r < p) (qoCursor opts))"

definition queryTransactions ::
    "ledger_env \<Rightarrow> LedgerTransactionQueryOptions \<Rightarrow> ledger_db \<Rightarrow> LedgerTransaction list res" where
  "queryTransactions env opts db =
     mapR (ledgerTransactionFromRow env)
       (take (nat (qoLimit opts + 1)) (drop (nat (orElse (qoOffset opts) 0))
         (orderBy transactionOrder (filter (transactionQueryFilter db opts True False) (dbTransactions db)))))"

record LedgerTransactionQuerySummary =
  suTotal :: int
  suIncomeMinor :: int
  suExpenseMinor :: int

definition summarizeTransactions ::
    "LedgerTransactionQueryOptions \<Rightarrow> ledger_db \<Rightarrow> LedgerTransactionQuerySummary res" where
  "summarizeTransactions opts db =
     (let rows = filter (transactionQueryFilter db opts False False) (dbTransactions db);
          amountOf = (\<lambda>t r. if typeIs r t then cellInt (rt_amount_minor r) else 0)
      in bindR (sqlSum (map (amountOf IncomeType) rows)) (\<lambda>income.
         bindR (sqlSum (map (amountOf ExpenseType) rows)) (\<lambda>expense.
         if \<not> safeInt (int (length rows)) \<or> \<not> safeInt (dround income) \<or> \<not> safeInt (dround expense)
         then Inl InternalError
         else Inr \<lparr>suTotal = int (length rows), suIncomeMinor = dround income, suExpenseMinor = dround expense\<rparr>)))"

section \<open>Idempotency records\<close>

datatype LedgerIdempotencyResultStatus = Committed | NoOp

fun resultStatusText :: "LedgerIdempotencyResultStatus \<Rightarrow> jsstr" where
  "resultStatusText Committed = js ''committed''"
| "resultStatusText NoOp = js ''no-op''"

record LedgerIdempotencyRecord =
  idOperationScope :: jsstr
  idIdempotencyKey :: jsstr
  idRequestFingerprint :: jsstr
  idResponseStatus :: int
  idResponseBodyJson :: jsstr
  idResultStatus :: LedgerIdempotencyResultStatus
  idResultType :: "jsstr option"
  idResultId :: "jsstr option"
  idCreatedAt :: int

definition idempotencyString :: "bool \<Rightarrow> cell \<Rightarrow> jsstr res" where
  "idempotencyString allowEmpty c = bindR (valueAt c) (\<lambda>v. case v of
     JStr s \<Rightarrow> if \<not> allowEmpty \<and> length s = 0 then invalidRow else Inr s | _ \<Rightarrow> invalidRow)"

definition idempotencyNullableString :: "cell \<Rightarrow> jsstr option res" where
  "idempotencyNullableString c = bindR (valueAt c) (\<lambda>v. case v of
     JNull \<Rightarrow> Inr None | JStr s \<Rightarrow> Inr (Some s) | _ \<Rightarrow> invalidRow)"

text \<open>The pattern \<open>^[0-9a-f]{64}$\<close>.\<close>

definition fingerprintOk :: "jsstr \<Rightarrow> bool" where
  "fingerprintOk s \<longleftrightarrow> length s = 64 \<and> list_all (\<lambda>c. isDigit c \<or> (97 \<le> c \<and> c \<le> 102)) s"

definition idempotencyRecordFromRow :: "IdempotencyRow \<Rightarrow> LedgerIdempotencyRecord res" where
  "idempotencyRecordFromRow r =
     bindR (idempotencyString False (ri_request_fingerprint r)) (\<lambda>fingerprint.
     bindR (rowCheck (fingerprintOk fingerprint)) (\<lambda>_.
     bindR (safeInteger (ri_response_status r)) (\<lambda>status.
     bindR (rowCheck (\<not> (status < 100 \<or> status > 599))) (\<lambda>_.
     bindR (idempotencyString False (ri_result_status r)) (\<lambda>resultStatus.
     bindR (if resultStatus = js ''committed'' then Inr Committed
            else if resultStatus = js ''no-op'' then Inr NoOp else invalidRow) (\<lambda>result.
     bindR (idempotencyString False (ri_operation_scope r)) (\<lambda>scope.
     bindR (idempotencyString False (ri_idempotency_key r)) (\<lambda>key.
     bindR (idempotencyString True (ri_response_body_json r)) (\<lambda>body.
     bindR (idempotencyNullableString (ri_result_type r)) (\<lambda>resultType.
     bindR (idempotencyNullableString (ri_result_id r)) (\<lambda>resultId.
     bindR (safeInteger (ri_created_at r)) (\<lambda>createdAt.
     Inr \<lparr>idOperationScope = scope, idIdempotencyKey = key, idRequestFingerprint = fingerprint,
          idResponseStatus = status, idResponseBodyJson = body, idResultStatus = result,
          idResultType = resultType, idResultId = resultId, idCreatedAt = createdAt\<rparr>))))))))))))"

definition idempotencyParams :: "LedgerIdempotencyRecord \<Rightarrow> IdempotencyRow" where
  "idempotencyParams d =
     \<lparr>ri_operation_scope = Some (JStr (idOperationScope d)),
      ri_idempotency_key = Some (JStr (idIdempotencyKey d)),
      ri_request_fingerprint = Some (JStr (idRequestFingerprint d)),
      ri_response_status = Some (JInt (idResponseStatus d)),
      ri_response_body_json = Some (JStr (idResponseBodyJson d)),
      ri_result_status = Some (JStr (resultStatusText (idResultStatus d))),
      ri_result_type = Some (optStr (idResultType d)),
      ri_result_id = Some (optStr (idResultId d)),
      ri_created_at = Some (JInt (idCreatedAt d))\<rparr>"

text \<open>The constraints of \<open>ledger_idempotency\<close>; its primary key is (scope, key).\<close>

definition idempotencyCheck :: "IdempotencyRow \<Rightarrow> bool" where
  "idempotencyCheck r \<longleftrightarrow> isTextCell (ri_operation_scope r) \<and> isTextCell (ri_idempotency_key r)
     \<and> isTextCell (ri_request_fingerprint r) \<and> length (cellText (ri_request_fingerprint r)) = 64
     \<and> isIntCell (ri_response_status r) \<and> 100 \<le> cellInt (ri_response_status r)
     \<and> cellInt (ri_response_status r) \<le> 599 \<and> isTextCell (ri_response_body_json r)
     \<and> textIn (ri_result_status r) [js ''committed'', js ''no-op''] \<and> isIntCell (ri_created_at r)"

definition idempotencyKeyOf :: "IdempotencyRow \<Rightarrow> cell \<times> cell" where
  "idempotencyKeyOf r = (ri_operation_scope r, ri_idempotency_key r)"

definition getIdempotencyRecord :: "jsstr \<Rightarrow> jsstr \<Rightarrow> ledger_db \<Rightarrow> LedgerIdempotencyRecord option res" where
  "getIdempotencyRecord scope key db =
     selectOne idempotencyRecordFromRow
       (\<lambda>r. sqlText (ri_operation_scope r) scope \<and> sqlText (ri_idempotency_key r) key) (dbIdempotency db)"

definition insertIdempotencyRecord :: "LedgerIdempotencyRecord \<Rightarrow> ledger_db \<Rightarrow> ledger_db res" where
  "insertIdempotencyRecord d db =
     (let r = idempotencyParams d
      in if idempotencyCheck r \<and> idempotencyKeyOf r \<notin> set (map idempotencyKeyOf (dbIdempotency db))
         then Inr (db\<lparr>dbIdempotency := dbIdempotency db @ [r]\<rparr>) else Inl SqlConstraint)"

end
