(* ===== verification/Store.thy ===== *)
theory Store
  imports Queries
begin

text \<open>
  The refinement of the tables: \<open>view\<close> is the abstract ledger, the decoded contents of a
  well-formed database (\<open>wf_db\<close>: every row decodes). Each statement of \<open>Repository\<close> is shown to
  act on the view as an operation on lists of domain objects, and to keep the database
  well-formed. \<open>Tables.row_table\<close> is interpreted on the three versioned tables.
\<close>

section \<open>The three versioned tables\<close>

interpretation accounts: row_table "ledgerAccountFromRow env" "\<lambda>_. True" "\<lambda>i r. accountIs i r"
    "\<lambda>v r. accountVersionIs v r" accId accVersion for env
  by unfold_locales (auto simp: ledgerAccountFromRow_iff)

interpretation categories: row_table "ledgerCategoryFromRow env" fullCategoryRow "\<lambda>i r. categoryIs i r"
    "\<lambda>v r. categoryVersionIs v r" catId catVersion for env
  by unfold_locales (auto simp: ledgerCategoryFromRow_iff)

interpretation transactions: row_table "ledgerTransactionFromRow env" fullTransactionRow
    "\<lambda>i r. transactionIs i r" "\<lambda>v r. transactionVersionIs v r" txId txVersion for env
  by unfold_locales (auto simp: ledgerTransactionFromRow_iff transactionParams_def)

section \<open>The view\<close>

record ledger_view =
  lvSettings :: "LedgerSettings option"
  lvAccounts :: "LedgerAccount list"
  lvCategories :: "LedgerCategory list"
  lvTransactions :: "LedgerTransaction list"

definition view :: "ledger_env \<Rightarrow> ledger_db \<Rightarrow> ledger_view" where
  "view env db =
     \<lparr>lvSettings = (case dbSettings db of [] \<Rightarrow> None | r # _ \<Rightarrow> Some (decoded (ledgerSettingsFromRow env) r)),
      lvAccounts = map (decoded (ledgerAccountFromRow env)) (dbAccounts db),
      lvCategories = map (decoded (ledgerCategoryFromRow env)) (dbCategories db),
      lvTransactions = map (decoded (ledgerTransactionFromRow env)) (dbTransactions db)\<rparr>"

definition wf_db :: "ledger_env \<Rightarrow> ledger_db \<Rightarrow> bool" where
  "wf_db env db \<longleftrightarrow> length (dbSettings db) \<le> 1 \<and> decodes (ledgerSettingsFromRow env) (dbSettings db)
     \<and> accounts.stored env (dbAccounts db) \<and> categories.stored env (dbCategories db)
     \<and> transactions.stored env (dbTransactions db)"

lemma wf_empty_db: "wf_db env empty_db"
  by (simp add: wf_db_def empty_db_def accounts.stored_def categories.stored_def transactions.stored_def)

lemma view_contents:
  "lvAccounts (view env db) = accounts.contents env (dbAccounts db)"
  "lvCategories (view env db) = categories.contents env (dbCategories db)"
  "lvTransactions (view env db) = transactions.contents env (dbTransactions db)"
  by (simp_all add: view_def accounts.contents_def categories.contents_def transactions.contents_def)

lemma view_simps_update [simp]:
  "view env (db\<lparr>dbIdempotency := x\<rparr>) = view env db"
  "wf_db env (db\<lparr>dbIdempotency := x\<rparr>) = wf_db env db"
  by (simp_all add: view_def wf_db_def)

lemma wf_tables:
  assumes "wf_db env db"
  shows "accounts.stored env (dbAccounts db)" "categories.stored env (dbCategories db)"
    "transactions.stored env (dbTransactions db)"
  using assms by (simp_all add: wf_db_def)

section \<open>Rows of a well-formed table\<close>

lemma account_row:
  assumes "wf_db env db" "r \<in> set (dbAccounts db)"
  shows "ledgerAccountFromRow env r = Inr (decoded (ledgerAccountFromRow env) r)"
  using accounts.stored_mem [OF wf_tables(1) [OF assms(1)] assms(2)] by simp

lemma category_row:
  assumes "wf_db env db" "r \<in> set (dbCategories db)"
  shows "fullCategoryRow r" "ledgerCategoryFromRow env r = Inr (decoded (ledgerCategoryFromRow env) r)"
  using categories.stored_mem [OF wf_tables(2) [OF assms(1)] assms(2)] by simp_all

lemma transaction_row:
  assumes "wf_db env db" "r \<in> set (dbTransactions db)"
  shows "fullTransactionRow r" "ledgerTransactionFromRow env r = Inr (decoded (ledgerTransactionFromRow env) r)"
    "r = transactionParams (decoded (ledgerTransactionFromRow env) r)"
    "valid_tx env (decoded (ledgerTransactionFromRow env) r)"
proof -
  have full: "fullTransactionRow r"
    and dec: "ledgerTransactionFromRow env r = Inr (decoded (ledgerTransactionFromRow env) r)"
    using transactions.stored_mem [OF wf_tables(3) [OF assms(1)] assms(2)] by blast+
  then show "fullTransactionRow r"
    "ledgerTransactionFromRow env r = Inr (decoded (ledgerTransactionFromRow env) r)"
    "r = transactionParams (decoded (ledgerTransactionFromRow env) r)"
    "valid_tx env (decoded (ledgerTransactionFromRow env) r)"
    using ledgerTransactionFromRow_iff [OF full] by blast+
qed

lemma view_accounts_valid: "wf_db env db \<Longrightarrow> a \<in> set (lvAccounts (view env db)) \<Longrightarrow> valid_acc env a"
  using account_row ledgerAccountFromRow_iff by (fastforce simp: view_def)

lemma view_categories_valid: "wf_db env db \<Longrightarrow> c \<in> set (lvCategories (view env db)) \<Longrightarrow> valid_cat env c"
  using category_row ledgerCategoryFromRow_iff by (fastforce simp: view_def)

lemma view_transactions_valid: "wf_db env db \<Longrightarrow> t \<in> set (lvTransactions (view env db)) \<Longrightarrow> valid_tx env t"
  using transaction_row(4) by (fastforce simp: view_def)

lemma params_simps [simp]:
  "sqlText (rt_id (transactionParams t)) i \<longleftrightarrow> txId t = i"
  "sqlText (rt_group_id (transactionParams t)) g \<longleftrightarrow> txGroupId t = Some g"
  "sqlNull (rt_group_id (transactionParams t)) \<longleftrightarrow> txGroupId t = None"
  "sqlNull (rt_deleted_at (transactionParams t)) \<longleftrightarrow> activeTx t"
  "sqlText (rt_category_id (transactionParams t)) c \<longleftrightarrow> bodyCategory (txBody t) = Some c"
  "rowTouches i (transactionParams t) \<longleftrightarrow> touches t i"
  "typeIs (transactionParams t) ty \<longleftrightarrow> txType t = ty"
  "rowPosition (transactionParams t) = Position (txOccurredAt t) (txCreatedAt t) (txId t)"
  "cellInt (rt_amount_minor (transactionParams t)) = txAmountMinor t"
  "cellInt (rt_occurred_at (transactionParams t)) = txOccurredAt t"
proof -
  show "typeIs (transactionParams t) ty \<longleftrightarrow> txType t = ty"
    by (simp add: typeIs_def transactionParams_def inj_eq [OF text_inj(5)])
  show "rowTouches i (transactionParams t) \<longleftrightarrow> touches t i"
    by (cases "txBody t") (auto simp: rowTouches_def transactionParams_def touches_def)
qed (simp_all add: transactionParams_def activeTx_def rowPosition_def)

lemma transaction_row_params:
  assumes "wf_db env db" "r \<in> set (dbTransactions db)" "t = decoded (ledgerTransactionFromRow env) r"
  shows "P r \<longleftrightarrow> P (transactionParams t)"
  using transaction_row(3) [OF assms(1,2)] assms(3) by simp

section \<open>Settings\<close>

definition storedSettings :: "ledger_env \<Rightarrow> LedgerSettings \<Rightarrow> LedgerSettings" where
  "storedSettings env s = s\<lparr>setAccountIcons := accountIconsFromRow env (settingsParams s)\<rparr>"

lemma storedSettings_simps [simp]:
  "setBaseCurrency (storedSettings env s) = setBaseCurrency s"
  "setTimezone (storedSettings env s) = setTimezone s"
  "setHasCreatedAccount (storedSettings env s) = setHasCreatedAccount s"
  "setVersion (storedSettings env s) = setVersion s"
  "setCreatedAt (storedSettings env s) = setCreatedAt s"
  "setUpdatedAt (storedSettings env s) = setUpdatedAt s"
  by (simp_all add: storedSettings_def)

lemma settings_decode: "valid_settings env s \<Longrightarrow> ledgerSettingsFromRow env (settingsParams s) = Inr (storedSettings env s)"
  unfolding ledgerSettingsFromRow_iff by (simp add: valid_settings_def settingsParams_def storedSettings_def)

lemma settings_row:
  assumes "wf_db env db" "lvSettings (view env db) = Some s"
  shows "\<exists>r. dbSettings db = [r] \<and> ledgerSettingsFromRow env r = Inr s"
  using assms by (cases "dbSettings db") (auto simp: wf_db_def view_def decoded_def)

lemma view_settings_valid: "wf_db env db \<Longrightarrow> lvSettings (view env db) = Some s \<Longrightarrow> valid_settings env s"
  using settings_row ledgerSettingsFromRow_iff by blast

lemma getSettings_view [view_simps]: "wf_db env db \<Longrightarrow> getSettings env db = Inr (lvSettings (view env db))"
proof (cases "dbSettings db")
  case (Cons r rs)
  assume wf: "wf_db env db"
  then obtain s where s: "ledgerSettingsFromRow env r = Inr s" "rs = []"
    using Cons by (auto simp: wf_db_def)
  then have "sqlInt (rs_singleton_id r) 1" by (simp add: ledgerSettingsFromRow_iff)
  with s Cons show ?thesis by (simp add: getSettings_def selectOne_def view_def decoded_def)
qed (simp add: getSettings_def selectOne_def view_def)

lemma insertSettings_view:
  assumes "wf_db env db" "valid_settings env s" "insertSettings s db = Inr db'"
  shows "wf_db env db'" "lvSettings (view env db) = None"
    "view env db' = (view env db)\<lparr>lvSettings := Some (storedSettings env s)\<rparr>"
proof -
  have empty: "dbSettings db = []"
  proof (cases "dbSettings db")
    case (Cons r rs)
    then obtain x where "ledgerSettingsFromRow env r = Inr x" using assms(1) by (auto simp: wf_db_def)
    then have "rs_singleton_id r = Some (JInt 1)" by (simp add: ledgerSettingsFromRow_iff)
    with Cons assms(3) show ?thesis by (simp add: insertSettings_def Let_def settingsParams_def split: if_split_asm)
  qed
  then have db': "db' = db\<lparr>dbSettings := [settingsParams s]\<rparr>"
    using assms(3) by (simp add: insertSettings_def Let_def split: if_split_asm)
  show "wf_db env db'" using assms(1,2) settings_decode by (simp add: wf_db_def db')
  show "lvSettings (view env db) = None" using empty by (simp add: view_def)
  show "view env db' = (view env db)\<lparr>lvSettings := Some (storedSettings env s)\<rparr>"
    using settings_decode [OF assms(2)] by (simp add: view_def db' decoded_def)
qed

lemma updateSettings_view:
  assumes wf: "wf_db env db" and s0: "lvSettings (view env db) = Some s0" and valid: "valid_settings env s"
    and created: "setCreatedAt s = setCreatedAt s0" and v: "setVersion s0 = v"
    and upd: "updateSettings s v db = Inr (n, db')"
  shows "n = 1" "wf_db env db'" "view env db' = (view env db)\<lparr>lvSettings := Some (storedSettings env s)\<rparr>"
proof -
  obtain r where r: "dbSettings db = [r]" "ledgerSettingsFromRow env r = Inr s0"
    using settings_row [OF wf s0] by blast
  note cells = r(2) [unfolded ledgerSettingsFromRow_iff]
  have g: "(settingsParams s)\<lparr>rs_singleton_id := rs_singleton_id r, rs_created_at := rs_created_at r\<rparr> = settingsParams s"
    using cells created by (simp add: settingsParams_def)
  have db': "n = 1 \<and> db' = db\<lparr>dbSettings := [settingsParams s]\<rparr>"
    using upd cells v g r(1)
    by (auto simp: updateSettings_def Let_def changes_def updateWhere_def split: if_split_asm)
  then show "n = 1" by simp
  show "wf_db env db'" using db' wf settings_decode [OF valid] by (simp add: wf_db_def)
  show "view env db' = (view env db)\<lparr>lvSettings := Some (storedSettings env s)\<rparr>"
    using db' settings_decode [OF valid] by (simp add: view_def decoded_def)
qed

section \<open>Accounts\<close>

text \<open>The account as it is read back: the default icon and the empty card number are dropped.\<close>

definition storedAccount :: "LedgerAccount \<Rightarrow> LedgerAccount" where
  "storedAccount a = a\<lparr>accIcon := persistedIcon (ra_icon (accountParams a)),
     accCardNumber := persistedCardNumber (ra_card_number (accountParams a))\<rparr>"

lemma storedAccount_simps [simp]:
  "accId (storedAccount a) = accId a" "accName (storedAccount a) = accName a"
  "accType (storedAccount a) = accType a" "accNature (storedAccount a) = accNature a"
  "accOpeningBalanceMinor (storedAccount a) = accOpeningBalanceMinor a"
  "accOpeningDate (storedAccount a) = accOpeningDate a" "accCurrency (storedAccount a) = accCurrency a"
  "accNote (storedAccount a) = accNote a" "accArchivedAt (storedAccount a) = accArchivedAt a"
  "accVersion (storedAccount a) = accVersion a" "accCreatedAt (storedAccount a) = accCreatedAt a"
  "accUpdatedAt (storedAccount a) = accUpdatedAt a"
  by (simp_all add: storedAccount_def)

lemma account_decode: "valid_acc env a \<Longrightarrow> ledgerAccountFromRow env (accountParams a) = Inr (storedAccount a)"
  unfolding ledgerAccountFromRow_iff by (simp add: valid_acc_def accountParams_def storedAccount_def)

lemma getAccount_view [view_simps]:
  "wf_db env db \<Longrightarrow> getAccount env i db = Inr (find (\<lambda>a. accId a = i) (lvAccounts (view env db)))"
  unfolding getAccount_def view_contents by (rule accounts.get_by_key) (rule wf_tables)

definition accountsOrder :: "LedgerAccount \<Rightarrow> LedgerAccount \<Rightarrow> bool" where
  "accountsOrder a b \<longleftrightarrow> accUpdatedAt b < accUpdatedAt a \<or> (accUpdatedAt b = accUpdatedAt a \<and> accId b \<le> accId a)"

lemma listAccounts_view [view_simps]:
  assumes "wf_db env db"
  shows "listAccounts env incl db =
    Inr (orderBy accountsOrder (filter (\<lambda>a. incl \<or> accArchivedAt a = None) (lvAccounts (view env db))))"
proof -
  have row: "ra_archived_at r = Some (optInt (accArchivedAt (decoded (ledgerAccountFromRow env) r)))
      \<and> ra_updated_at r = Some (JInt (accUpdatedAt (decoded (ledgerAccountFromRow env) r)))
      \<and> ra_id r = Some (JStr (accId (decoded (ledgerAccountFromRow env) r)))" if "r \<in> set (dbAccounts db)" for r
    using account_row [OF assms that] unfolding ledgerAccountFromRow_iff by simp
  show ?thesis
    unfolding listAccounts_def view_def ledger_view.simps
    by (rule selectMany_view [OF accounts.stored_decodes [OF wf_tables(1) [OF assms]]])
      (auto simp: row accountOrder_def accountsOrder_def)
qed

lemma insertAccount_view:
  assumes "wf_db env db" "valid_acc env a" "insertAccount a db = Inr db'"
  shows "wf_db env db'"
    "view env db' = (view env db)\<lparr>lvAccounts := lvAccounts (view env db) @ [storedAccount a]\<rparr>"
    "accId a \<notin> accId ` set (lvAccounts (view env db))"
proof -
  have db': "db' = db\<lparr>dbAccounts := dbAccounts db @ [accountParams a]\<rparr>"
    and fresh: "ra_id (accountParams a) \<notin> ra_id ` set (dbAccounts db)"
    using assms(3) by (auto simp: insertAccount_def Let_def split: if_split_asm)
  show "wf_db env db'"
    using assms(1) accounts.insert_row(1) [OF wf_tables(1) [OF assms(1)] _ account_decode [OF assms(2)]]
    by (simp add: wf_db_def db')
  show "view env db' = (view env db)\<lparr>lvAccounts := lvAccounts (view env db) @ [storedAccount a]\<rparr>"
    using account_decode [OF assms(2)] by (simp add: view_def db' decoded_def)
  show "accId a \<notin> accId ` set (lvAccounts (view env db))"
  proof
    assume "accId a \<in> accId ` set (lvAccounts (view env db))"
    then obtain r where r: "r \<in> set (dbAccounts db)" "accId a = accId (decoded (ledgerAccountFromRow env) r)"
      by (auto simp: view_def)
    then have "ra_id r = ra_id (accountParams a)"
      using account_row [OF assms(1) r(1)] unfolding ledgerAccountFromRow_iff by (simp add: accountParams_def)
    with r(1) fresh show False by (metis image_eqI)
  qed
qed

lemma updateAccount_view:
  assumes wf: "wf_db env db" and valid: "valid_acc env a" and upd: "updateAccount a v db = Inr (n, db')"
  shows "wf_db env db'"
    "view env db' = (view env db)\<lparr>lvAccounts := map (\<lambda>x. if accId x = accId a \<and> accVersion x = v
       then storedAccount (a\<lparr>accCreatedAt := accCreatedAt x\<rparr>) else x) (lvAccounts (view env db))\<rparr>"
    "n = length (filter (\<lambda>x. accId x = accId a \<and> accVersion x = v) (lvAccounts (view env db)))"
proof -
  let ?P = "\<lambda>r. accountIs (accId a) r \<and> accountVersionIs v r"
  let ?g = "\<lambda>r. (accountParams a)\<lparr>ra_id := ra_id r, ra_created_at := ra_created_at r\<rparr>"
  let ?h = "\<lambda>x. storedAccount (a\<lparr>accCreatedAt := accCreatedAt x\<rparr>)"
  have db': "n = changes ?P (dbAccounts db)" "db' = db\<lparr>dbAccounts := updateWhere ?P ?g (dbAccounts db)\<rparr>"
    using upd by (auto simp: updateAccount_def Let_def split: if_split_asm)
  have g: "True \<and> ledgerAccountFromRow env (?g r) = Inr (?h (decoded (ledgerAccountFromRow env) r))"
    if "r \<in> set (dbAccounts db)" "accountIs (accId a) r" for r
  proof -
    let ?x = "decoded (ledgerAccountFromRow env) r"
    have x: "valid_acc env ?x" "ra_id r = Some (JStr (accId ?x))" "ra_created_at r = Some (JInt (accCreatedAt ?x))"
      using account_row [OF wf that(1)] unfolding ledgerAccountFromRow_iff by simp_all
    have "?g r = accountParams (a\<lparr>accCreatedAt := accCreatedAt ?x\<rparr>)"
      using x(2,3) that(2) by (simp add: accountParams_def)
    moreover have "valid_acc env (a\<lparr>accCreatedAt := accCreatedAt ?x\<rparr>)"
      using valid x(1) by (simp add: valid_acc_def)
    ultimately show ?thesis using account_decode by simp
  qed
  note cas = accounts.compare_and_set [OF wf_tables(1) [OF wf], of "accId a" v ?g ?h, OF g]
  show "wf_db env db'" using cas(1) wf by (simp add: wf_db_def db'(2))
  show "view env db' = (view env db)\<lparr>lvAccounts := map (\<lambda>x. if accId x = accId a \<and> accVersion x = v
       then ?h x else x) (lvAccounts (view env db))\<rparr>"
    using cas(2) by (simp add: view_def db'(2) accounts.contents_def)
  show "n = length (filter (\<lambda>x. accId x = accId a \<and> accVersion x = v) (lvAccounts (view env db)))"
    unfolding db'(1) view_contents by (rule cas(3))
qed

lemma list_ex_decoded:
  "(\<And>r. r \<in> set rs \<Longrightarrow> P r \<longleftrightarrow> Q (decoded f r)) \<Longrightarrow> list_ex P rs \<longleftrightarrow> (\<exists>x\<in>set (map (decoded f) rs). Q x)"
  by (induction rs) auto

lemma hasAccountHistory_view [view_simps]:
  assumes "wf_db env db"
  shows "hasAccountHistory i db \<longleftrightarrow> (\<exists>t\<in>set (lvTransactions (view env db)). touches t i)"
  unfolding hasAccountHistory_def view_def ledger_view.simps
  by (rule list_ex_decoded) (metis assms params_simps(6) transaction_row(3))

lemma deleteAccount_view:
  assumes "wf_db env db" "deleteAccount i db = Inr (n, db')"
  shows "wf_db env db'"
    "view env db' = (view env db)\<lparr>lvAccounts := filter (\<lambda>a. accId a \<noteq> i) (lvAccounts (view env db))\<rparr>"
    "n = length (filter (\<lambda>a. accId a = i) (lvAccounts (view env db)))"
proof -
  have db': "n = changes (accountIs i) (dbAccounts db)"
    "db' = db\<lparr>dbAccounts := deleteWhere (accountIs i) (dbAccounts db)\<rparr>"
    using assms(2) by (auto simp: deleteAccount_def split: if_split_asm)
  note del = accounts.delete_by_key [OF wf_tables(1) [OF assms(1)], of i]
  show "wf_db env db'" using del(1) assms(1) by (simp add: wf_db_def db'(2))
  show "view env db' = (view env db)\<lparr>lvAccounts := filter (\<lambda>a. accId a \<noteq> i) (lvAccounts (view env db))\<rparr>"
    using del(2) by (simp add: view_def db'(2) accounts.contents_def)
  show "n = length (filter (\<lambda>a. accId a = i) (lvAccounts (view env db)))"
    unfolding db'(1) view_contents by (rule del(3))
qed

section \<open>Categories\<close>

text \<open>The category as it is read back: the default icon is dropped, the sort order is filled in.\<close>

definition storedCategory :: "LedgerCategory \<Rightarrow> LedgerCategory" where
  "storedCategory c = c\<lparr>catIcon := persistedIcon (rc_icon (categoryParams c)),
     catSortOrder := Some (orElse (catSortOrder c) 1000)\<rparr>"

lemma storedCategory_simps [simp]:
  "catId (storedCategory c) = catId c" "catKind (storedCategory c) = catKind c"
  "catName (storedCategory c) = catName c" "catNormalizedName (storedCategory c) = catNormalizedName c"
  "catSystemKey (storedCategory c) = catSystemKey c" "catIsDefault (storedCategory c) = catIsDefault c"
  "catArchivedAt (storedCategory c) = catArchivedAt c" "catVersion (storedCategory c) = catVersion c"
  "catCreatedAt (storedCategory c) = catCreatedAt c" "catUpdatedAt (storedCategory c) = catUpdatedAt c"
  by (simp_all add: storedCategory_def)

lemma categoryParams_full [simp]: "fullCategoryRow (categoryParams c)"
  by (simp add: fullCategoryRow_def categoryParams_def)

lemma category_decode: "valid_cat env c \<Longrightarrow> ledgerCategoryFromRow env (categoryParams c) = Inr (storedCategory c)"
  unfolding ledgerCategoryFromRow_iff [OF categoryParams_full]
  by (cases "catSortOrder c") (auto simp: valid_cat_def categoryParams_def storedCategory_def safeInt_def
      MAX_SAFE_INTEGER_def)

lemma getCategory_view [view_simps]:
  "wf_db env db \<Longrightarrow> getCategory env i db = Inr (find (\<lambda>c. catId c = i) (lvCategories (view env db)))"
  unfolding getCategory_def view_contents by (rule categories.get_by_key) (rule wf_tables)

lemma category_cells:
  assumes "wf_db env db" "r \<in> set (dbCategories db)"
  shows "rc_id r = Some (JStr (catId (decoded (ledgerCategoryFromRow env) r)))"
    "rc_kind r = Some (JStr (kindText (catKind (decoded (ledgerCategoryFromRow env) r))))"
    "rc_normalized_name r = Some (JStr (catNormalizedName (decoded (ledgerCategoryFromRow env) r)))"
    "rc_system_key r = Some (optStr (map_option systemKeyText (catSystemKey (decoded (ledgerCategoryFromRow env) r))))"
    "rc_archived_at r = Some (optInt (catArchivedAt (decoded (ledgerCategoryFromRow env) r)))"
    "rc_created_at r = Some (JInt (catCreatedAt (decoded (ledgerCategoryFromRow env) r)))"
    "rc_sort_order r = Some (JInt (the (catSortOrder (decoded (ledgerCategoryFromRow env) r))))"
  using category_row [OF assms] ledgerCategoryFromRow_iff [of r env] by auto

lemma findCategoryByIdentity_view [view_simps]:
  assumes "wf_db env db"
  shows "findCategoryByIdentity env kind name db =
    Inr (find (\<lambda>c. catKind c = kind \<and> catNormalizedName c = name) (lvCategories (view env db)))"
  unfolding findCategoryByIdentity_def view_def ledger_view.simps
  by (rule selectOne_view [OF categories.stored_decodes [OF wf_tables(2) [OF assms]]])
    (simp add: category_cells [OF assms] inj_eq [OF text_inj(3)])

lemma findCategoryBySystemKey_view [view_simps]:
  assumes "wf_db env db"
  shows "findCategoryBySystemKey env key db =
    Inr (find (\<lambda>c. catSystemKey c = Some key) (lvCategories (view env db)))"
  unfolding findCategoryBySystemKey_def view_def ledger_view.simps
  by (rule selectOne_view [OF categories.stored_decodes [OF wf_tables(2) [OF assms]]])
    (auto simp: category_cells [OF assms] inj_eq [OF text_inj(4)])

definition categoriesOrder :: "LedgerCategory \<Rightarrow> LedgerCategory \<Rightarrow> bool" where
  "categoriesOrder c d \<longleftrightarrow>
     (case ((kindText (catKind c), the (catSortOrder c), catNormalizedName c, catId c),
            (kindText (catKind d), the (catSortOrder d), catNormalizedName d, catId d)) of
        ((k, o1, n, i), (k', o2, n', i')) \<Rightarrow>
          k < k' \<or> (k = k' \<and> (o1 < o2 \<or> (o1 = o2 \<and> (n < n' \<or> (n = n' \<and> i \<le> i'))))))"

lemma listCategories_view [view_simps]:
  assumes "wf_db env db"
  shows "listCategories env incl db =
    Inr (orderBy categoriesOrder (filter (\<lambda>c. incl \<or> catArchivedAt c = None) (lvCategories (view env db))))"
  unfolding listCategories_def view_def ledger_view.simps
  by (rule selectMany_view [OF categories.stored_decodes [OF wf_tables(2) [OF assms]]])
    (auto simp: category_cells [OF assms] categoryOrder_def categoriesOrder_def categoryKey_def)

text \<open>The unique keys of the category table, on the view.\<close>

definition catsUnique :: "LedgerCategory list \<Rightarrow> bool" where
  "catsUnique cs \<longleftrightarrow> distinct (map catId cs) \<and> distinct (map (\<lambda>c. (catKind c, catNormalizedName c)) cs)
     \<and> distinct (map catSystemKey (filter (\<lambda>c. catSystemKey c \<noteq> None) cs))"

lemma distinct_map_via: "distinct (map (\<lambda>x. g (f x)) xs) \<Longrightarrow> distinct (map f xs)"
  by (auto simp: distinct_map inj_on_def)

lemma categoriesUnique_view:
  assumes wf: "wf_db env db" and u: "categoriesUnique (dbCategories db)"
  shows "catsUnique (lvCategories (view env db))"
proof -
  let ?d = "decoded (ledgerCategoryFromRow env)" and ?rs = "dbCategories db"
  have u: "distinct (map rc_id ?rs)" "distinct (map (\<lambda>r. (rc_kind r, rc_normalized_name r)) ?rs)"
    "distinct (map rc_system_key (filter (\<lambda>r. \<not> sqlNull (rc_system_key r)) ?rs))"
    using u by (simp_all add: categoriesUnique_def)
  have "map rc_id ?rs = map (\<lambda>r. Some (JStr (catId (?d r)))) ?rs"
    by (simp add: category_cells [OF wf])
  note 1 = distinct_map_via [of "\<lambda>k. Some (JStr k)" "\<lambda>r. catId (?d r)", OF u(1) [unfolded this]]
  have "map (\<lambda>r. (rc_kind r, rc_normalized_name r)) ?rs =
      map (\<lambda>r. (\<lambda>(k, n). (Some (JStr (kindText k)), Some (JStr n))) (catKind (?d r), catNormalizedName (?d r))) ?rs"
    by (simp add: category_cells [OF wf])
  note 2 = distinct_map_via [of "\<lambda>(k, n). (Some (JStr (kindText k)), Some (JStr n))"
        "\<lambda>r. (catKind (?d r), catNormalizedName (?d r))", OF u(2) [unfolded this]]
  have flt: "filter (\<lambda>r. \<not> sqlNull (rc_system_key r)) ?rs = filter (\<lambda>r. catSystemKey (?d r) \<noteq> None) ?rs"
    by (rule filter_cong) (auto simp: category_cells [OF wf])
  have "map rc_system_key (filter (\<lambda>r. catSystemKey (?d r) \<noteq> None) ?rs) =
      map (\<lambda>r. (\<lambda>k. Some (optStr (map_option systemKeyText k))) (catSystemKey (?d r)))
        (filter (\<lambda>r. catSystemKey (?d r) \<noteq> None) ?rs)"
    by (auto simp: category_cells [OF wf])
  note 3 = distinct_map_via [of "\<lambda>k. Some (optStr (map_option systemKeyText k))" "\<lambda>r. catSystemKey (?d r)",
      OF u(3) [unfolded flt this]]
  show ?thesis using 1 2 3 by (simp add: catsUnique_def view_def comp_def filter_map)
qed

lemma insertCategory_view:
  assumes wf: "wf_db env db" and valid: "valid_cat env c" and ins: "insertCategory c db = Inr db'"
  shows "wf_db env db'"
    "view env db' = (view env db)\<lparr>lvCategories := lvCategories (view env db) @ [storedCategory c]\<rparr>"
    "catsUnique (lvCategories (view env db'))"
proof -
  have db': "db' = db\<lparr>dbCategories := dbCategories db @ [categoryParams c]\<rparr>"
    and u: "categoriesUnique (dbCategories db')"
    using ins by (auto simp: insertCategory_def Let_def split: if_split_asm)
  show wf': "wf_db env db'"
    using wf categories.insert_row(1) [OF wf_tables(2) [OF wf] categoryParams_full category_decode [OF valid]]
    by (simp add: wf_db_def db')
  show "view env db' = (view env db)\<lparr>lvCategories := lvCategories (view env db) @ [storedCategory c]\<rparr>"
    using category_decode [OF valid] by (simp add: view_def db' decoded_def)
  show "catsUnique (lvCategories (view env db'))" by (rule categoriesUnique_view [OF wf' u])
qed

lemma updateCategory_view:
  assumes wf: "wf_db env db" and valid: "valid_cat env c" and upd: "updateCategory c v db = Inr (n, db')"
  shows "wf_db env db'"
    "view env db' = (view env db)\<lparr>lvCategories := map (\<lambda>x. if catId x = catId c \<and> catVersion x = v
       then storedCategory (c\<lparr>catCreatedAt := catCreatedAt x\<rparr>) else x) (lvCategories (view env db))\<rparr>"
    "n = length (filter (\<lambda>x. catId x = catId c \<and> catVersion x = v) (lvCategories (view env db)))"
    "catsUnique (lvCategories (view env db'))"
proof -
  let ?P = "\<lambda>r. categoryIs (catId c) r \<and> categoryVersionIs v r"
  let ?g = "\<lambda>r. (categoryParams c)\<lparr>rc_id := rc_id r, rc_created_at := rc_created_at r\<rparr>"
  let ?h = "\<lambda>x. storedCategory (c\<lparr>catCreatedAt := catCreatedAt x\<rparr>)"
  have db': "n = changes ?P (dbCategories db)" "db' = db\<lparr>dbCategories := updateWhere ?P ?g (dbCategories db)\<rparr>"
    and u: "categoriesUnique (dbCategories db')"
    using upd by (auto simp: updateCategory_def Let_def split: if_split_asm)
  have g: "fullCategoryRow (?g r) \<and> ledgerCategoryFromRow env (?g r) = Inr (?h (decoded (ledgerCategoryFromRow env) r))"
    if "r \<in> set (dbCategories db)" "categoryIs (catId c) r" for r
  proof -
    let ?x = "decoded (ledgerCategoryFromRow env) r"
    have "?g r = categoryParams (c\<lparr>catCreatedAt := catCreatedAt ?x\<rparr>)"
      using category_cells [OF wf that(1)] that(2) by (simp add: categoryParams_def)
    moreover have "valid_cat env ?x"
      using category_row [OF wf that(1)] ledgerCategoryFromRow_iff by blast
    then have "valid_cat env (c\<lparr>catCreatedAt := catCreatedAt ?x\<rparr>)"
      using valid by (auto simp: valid_cat_def)
    ultimately show ?thesis using category_decode by simp
  qed
  note cas = categories.compare_and_set [OF wf_tables(2) [OF wf], of "catId c" v ?g ?h, OF g]
  show wf': "wf_db env db'" using cas(1) wf by (simp add: wf_db_def db'(2))
  show "view env db' = (view env db)\<lparr>lvCategories := map (\<lambda>x. if catId x = catId c \<and> catVersion x = v
       then ?h x else x) (lvCategories (view env db))\<rparr>"
    using cas(2) by (simp add: view_def db'(2) categories.contents_def)
  show "n = length (filter (\<lambda>x. catId x = catId c \<and> catVersion x = v) (lvCategories (view env db)))"
    unfolding db'(1) view_contents by (rule cas(3))
  show "catsUnique (lvCategories (view env db'))" by (rule categoriesUnique_view [OF wf' u])
qed

lemma hasCategoryHistory_view [view_simps]:
  assumes "wf_db env db"
  shows "hasCategoryHistory i db \<longleftrightarrow> (\<exists>t\<in>set (lvTransactions (view env db)). bodyCategory (txBody t) = Some i)"
  unfolding hasCategoryHistory_def view_def ledger_view.simps
  by (rule list_ex_decoded) (metis assms params_simps(5) transaction_row(3))

lemma deleteCategory_view:
  assumes "wf_db env db" "deleteCategory i db = Inr (n, db')"
  shows "wf_db env db'"
    "view env db' = (view env db)\<lparr>lvCategories := filter (\<lambda>c. catId c \<noteq> i) (lvCategories (view env db))\<rparr>"
    "n = length (filter (\<lambda>c. catId c = i) (lvCategories (view env db)))"
proof -
  have db': "n = changes (categoryIs i) (dbCategories db)"
    "db' = db\<lparr>dbCategories := deleteWhere (categoryIs i) (dbCategories db)\<rparr>"
    using assms(2) by (auto simp: deleteCategory_def split: if_split_asm)
  note del = categories.delete_by_key [OF wf_tables(2) [OF assms(1)], of i]
  show "wf_db env db'" using del(1) assms(1) by (simp add: wf_db_def db'(2))
  show "view env db' = (view env db)\<lparr>lvCategories := filter (\<lambda>c. catId c \<noteq> i) (lvCategories (view env db))\<rparr>"
    using del(2) by (simp add: view_def db'(2) categories.contents_def)
  show "n = length (filter (\<lambda>c. catId c = i) (lvCategories (view env db)))"
    unfolding db'(1) view_contents by (rule del(3))
qed

section \<open>Transactions\<close>

definition txPosition :: "LedgerTransaction \<Rightarrow> position" where
  "txPosition t = Position (txOccurredAt t) (txCreatedAt t) (txId t)"

definition transactionsOrder :: "LedgerTransaction \<Rightarrow> LedgerTransaction \<Rightarrow> bool" where
  "transactionsOrder t u \<longleftrightarrow> txPosition u \<le> txPosition t"

lemma getTransaction_view [view_simps]:
  "wf_db env db \<Longrightarrow> getTransaction env i db = Inr (find (\<lambda>t. txId t = i) (lvTransactions (view env db)))"
  unfolding getTransaction_def view_contents by (rule transactions.get_by_key) (rule wf_tables)

lemma selectTransactions_view:
  assumes wf: "wf_db env db" and P: "\<And>t. P (transactionParams t) \<longleftrightarrow> Q t"
  shows "selectTransactions env P db = Inr (orderBy transactionsOrder (filter Q (lvTransactions (view env db))))"
  unfolding view_def ledger_view.simps
proof (rule selectMany_view [OF transactions.stored_decodes [OF wf_tables(3) [OF wf]]])
  fix r assume r: "r \<in> set (dbTransactions db)"
  show "P r \<longleftrightarrow> Q (decoded (ledgerTransactionFromRow env) r)"
    using P transaction_row(3) [OF wf r] by metis
  fix s assume s: "s \<in> set (dbTransactions db)"
  have "transactionsOrder t u = transactionOrder (transactionParams t) (transactionParams u)" for t u
    by (simp add: transactionOrder_def transactionsOrder_def txPosition_def)
  then show "transactionsOrder (decoded (ledgerTransactionFromRow env) r) (decoded (ledgerTransactionFromRow env) s)
      = transactionOrder r s"
    using transaction_row(3) [OF wf r] transaction_row(3) [OF wf s] by metis
qed

lemma listActiveTransactionsForAccount_view [view_simps]:
  "wf_db env db \<Longrightarrow> listActiveTransactionsForAccount env i db =
    Inr (orderBy transactionsOrder (filter (\<lambda>t. activeTx t \<and> touches t i) (lvTransactions (view env db))))"
  unfolding listActiveTransactionsForAccount_def by (rule selectTransactions_view) simp_all

lemma listActiveTransactions_view [view_simps]:
  "wf_db env db \<Longrightarrow> listActiveTransactions env db =
    Inr (orderBy transactionsOrder (filter activeTx (lvTransactions (view env db))))"
  unfolding listActiveTransactions_def by (rule selectTransactions_view) simp_all

lemma listTransactionsByGroupId_view [view_simps]:
  "wf_db env db \<Longrightarrow> listTransactionsByGroupId env g incl db =
    Inr (orderBy transactionsOrder (filter (\<lambda>t. txGroupId t = Some g \<and> (incl \<or> activeTx t)) (lvTransactions (view env db))))"
  unfolding listTransactionsByGroupId_def by (rule selectTransactions_view) simp_all

text \<open>The references and group fields a written transaction must satisfy, on the view.\<close>

definition refsOk :: "ledger_view \<Rightarrow> LedgerTransaction \<Rightarrow> bool" where
  "refsOk v t \<longleftrightarrow> bodyAccounts (txBody t) \<subseteq> accId ` set (lvAccounts v)
     \<and> set_option (bodyCategory (txBody t)) \<subseteq> catId ` set (lvCategories v)"

definition groupOk :: "LedgerTransaction \<Rightarrow> bool" where
  "groupOk t \<longleftrightarrow> (txGroupId t \<noteq> None \<longrightarrow> txType t = TransferType \<or> txType t = ExpenseType)
     \<and> (bodyKind (txBody t) = Some General \<longrightarrow> txGroupId t = None)"

lemma account_ids: "wf_db env db \<Longrightarrow> set (map ra_id (dbAccounts db)) = (\<lambda>a. Some (JStr (accId a))) ` set (lvAccounts (view env db))"
proof -
  assume wf: "wf_db env db"
  have "ra_id r = Some (JStr (accId (decoded (ledgerAccountFromRow env) r)))" if "r \<in> set (dbAccounts db)" for r
    using account_row [OF wf that] unfolding ledgerAccountFromRow_iff by simp
  then show ?thesis by (auto simp: view_def image_image intro!: image_eqI)
qed

lemma category_ids: "wf_db env db \<Longrightarrow> set (map rc_id (dbCategories db)) = (\<lambda>c. Some (JStr (catId c))) ` set (lvCategories (view env db))"
  by (auto simp: view_def image_image category_cells(1) intro!: image_eqI)

lemma transferKind_general: "transferKindText k = js ''general'' \<longleftrightarrow> k = General"
  by (cases k) simp_all

lemma written_transaction:
  assumes wf: "wf_db env db" and w: "transactionWritable db (transactionParams t)"
  shows "refsOk (view env db) t" "groupOk t"
proof -
  have ref: "referencesExist db (transactionParams t)" and grp: "\<not> groupFieldsTrigger (transactionParams t)"
    using w by (simp_all add: transactionWritable_def)
  show "refsOk (view env db) t"
    using ref unfolding referencesExist_def account_ids [OF wf] category_ids [OF wf]
    by (cases "txBody t") (auto simp: refsOk_def transactionParams_def)
  show "groupOk t"
  proof -
    have kind: "sqlText (rt_transfer_kind (transactionParams t)) (js ''general'')
        \<longleftrightarrow> bodyKind (txBody t) = Some General"
      using transferKind_general by (cases "txBody t") (auto simp: transactionParams_def)
    have tr: "bodyKind (txBody t) = Some General \<Longrightarrow> txType t = TransferType"
      by (cases "txBody t") (auto simp: txType_def)
    show ?thesis using grp tr by (auto simp: groupFieldsTrigger_def groupOk_def kind)
  qed
qed

lemma insertTransaction_view:
  assumes wf: "wf_db env db" and valid: "valid_tx env t" and ins: "insertTransaction t db = Inr db'"
  shows "wf_db env db'" "view env db' = (view env db)\<lparr>lvTransactions := lvTransactions (view env db) @ [t]\<rparr>"
    "txId t \<notin> txId ` set (lvTransactions (view env db))" "refsOk (view env db) t" "groupOk t"
proof -
  have db': "db' = db\<lparr>dbTransactions := dbTransactions db @ [transactionParams t]\<rparr>"
    and w: "transactionWritable db (transactionParams t)"
    and fresh: "rt_id (transactionParams t) \<notin> rt_id ` set (dbTransactions db)"
    using ins by (auto simp: insertTransaction_def Let_def split: if_split_asm)
  have dec: "ledgerTransactionFromRow env (transactionParams t) = Inr t"
    using valid by (rule transactionFromRow_params)
  show "wf_db env db'"
    using wf transactions.insert_row(1) [OF wf_tables(3) [OF wf] transactionParams_full dec]
    by (simp add: wf_db_def db')
  show "view env db' = (view env db)\<lparr>lvTransactions := lvTransactions (view env db) @ [t]\<rparr>"
    using dec by (simp add: view_def db' decoded_def)
  show "txId t \<notin> txId ` set (lvTransactions (view env db))"
  proof
    assume "txId t \<in> txId ` set (lvTransactions (view env db))"
    then obtain r where r: "r \<in> set (dbTransactions db)" "txId t = txId (decoded (ledgerTransactionFromRow env) r)"
      by (auto simp: view_def)
    have "rt_id r = Some (JStr (txId t))"
      by (subst transaction_row(3) [OF wf r(1)]) (simp add: transactionParams_def r(2))
    then have "rt_id r = rt_id (transactionParams t)" by (simp add: transactionParams_def)
    with r(1) fresh show False by (metis image_eqI)
  qed
  show "refsOk (view env db) t" "groupOk t" using written_transaction [OF wf w] by simp_all
qed

lemma updateTransaction_view:
  assumes wf: "wf_db env db" and valid: "valid_tx env t" and upd: "updateTransaction t v db = Inr (n, db')"
  shows "wf_db env db'"
    "view env db' = (view env db)\<lparr>lvTransactions := map (\<lambda>x. if txId x = txId t \<and> txVersion x = v
       then t\<lparr>txCreatedAt := txCreatedAt x\<rparr> else x) (lvTransactions (view env db))\<rparr>"
    "n = length (filter (\<lambda>x. txId x = txId t \<and> txVersion x = v) (lvTransactions (view env db)))"
    "n \<noteq> 0 \<Longrightarrow> refsOk (view env db) t \<and> groupOk t"
proof -
  let ?P = "\<lambda>r. transactionIs (txId t) r \<and> transactionVersionIs v r"
  let ?g = "\<lambda>r. (transactionParams t)\<lparr>rt_id := rt_id r, rt_created_at := rt_created_at r\<rparr>"
  let ?h = "\<lambda>x. t\<lparr>txCreatedAt := txCreatedAt x\<rparr>"
  let ?d = "decoded (ledgerTransactionFromRow env)"
  have db': "n = changes ?P (dbTransactions db)" "db' = db\<lparr>dbTransactions := updateWhere ?P ?g (dbTransactions db)\<rparr>"
    and w: "\<forall>r\<in>set (dbTransactions db). ?P r \<longrightarrow> transactionWritable db (?g r)"
    using upd by (auto simp: updateTransaction_def Let_def split: if_split_asm)
  have gr: "?g r = transactionParams (?h (?d r))" if r: "r \<in> set (dbTransactions db)" "transactionIs (txId t) r" for r
  proof -
    obtain x where x: "?d r = x" "r = transactionParams x" using transaction_row(3) [OF wf r(1)] by metis
    have "txId x = txId t" using r(2) x(2) by simp
    then show ?thesis unfolding x(1) by (simp add: x(2) transactionParams_def txType_def)
  qed
  have g: "fullTransactionRow (?g r) \<and> ledgerTransactionFromRow env (?g r) = Inr (?h (?d r))"
    if "r \<in> set (dbTransactions db)" "transactionIs (txId t) r" for r
  proof -
    have "valid_tx env (?h (?d r))"
      using valid transaction_row(4) [OF wf that(1)] by (simp add: valid_tx_def)
    then show ?thesis unfolding gr [OF that] by (simp add: transactionFromRow_params)
  qed
  note cas = transactions.compare_and_set [OF wf_tables(3) [OF wf], of "txId t" v ?g ?h, OF g]
  show "wf_db env db'" using cas(1) wf by (simp add: wf_db_def db'(2))
  show "view env db' = (view env db)\<lparr>lvTransactions := map (\<lambda>x. if txId x = txId t \<and> txVersion x = v
       then ?h x else x) (lvTransactions (view env db))\<rparr>"
    using cas(2) by (simp add: view_def db'(2) transactions.contents_def)
  show "n = length (filter (\<lambda>x. txId x = txId t \<and> txVersion x = v) (lvTransactions (view env db)))"
    unfolding db'(1) view_contents by (rule cas(3))
  show "refsOk (view env db) t \<and> groupOk t" if n: "n \<noteq> 0"
  proof -
    obtain r where r: "r \<in> set (dbTransactions db)" "?P r"
      using n db'(1) by (auto simp: changes_def filter_empty_conv)
    then have "transactionWritable db (transactionParams (?h (?d r)))" using w gr by metis
    from written_transaction [OF wf this] show ?thesis by (simp add: refsOk_def groupOk_def txType_def)
  qed
qed

lemma softDeleteTransaction_view:
  assumes wf: "wf_db env db" and d: "utcOk env deletedAt" "utcOk env updatedAt" "safeInt version" "1 \<le> version"
    and upd: "softDeleteTransaction i deletedAt version updatedAt v db = Inr (n, db')"
  shows "wf_db env db'"
    "view env db' = (view env db)\<lparr>lvTransactions := map (\<lambda>x. if txId x = i \<and> txVersion x = v
       then x\<lparr>txDeletedAt := Some deletedAt, txVersion := version, txUpdatedAt := updatedAt\<rparr> else x)
       (lvTransactions (view env db))\<rparr>"
    "n = length (filter (\<lambda>x. txId x = i \<and> txVersion x = v) (lvTransactions (view env db)))"
proof -
  let ?P = "\<lambda>r. transactionIs i r \<and> transactionVersionIs v r"
  let ?g = "\<lambda>r. r\<lparr>rt_deleted_at := Some (JInt deletedAt), rt_version := Some (JInt version),
                 rt_updated_at := Some (JInt updatedAt)\<rparr>"
  let ?h = "\<lambda>x. x\<lparr>txDeletedAt := Some deletedAt, txVersion := version, txUpdatedAt := updatedAt\<rparr>"
  let ?d = "decoded (ledgerTransactionFromRow env)"
  have db': "n = changes ?P (dbTransactions db)" "db' = db\<lparr>dbTransactions := updateWhere ?P ?g (dbTransactions db)\<rparr>"
    using upd by (auto simp: softDeleteTransaction_def Let_def split: if_split_asm)
  have g: "fullTransactionRow (?g r) \<and> ledgerTransactionFromRow env (?g r) = Inr (?h (?d r))"
    if r: "r \<in> set (dbTransactions db)" for r
  proof -
    obtain x where x: "?d r = x" "r = transactionParams x" "valid_tx env x"
      using transaction_row(3,4) [OF wf r] by metis
    have "?g r = transactionParams (?h x)" by (simp add: x(2) transactionParams_def txType_def)
    moreover have "valid_tx env (?h x)" using x(3) d by (simp add: valid_tx_def)
    ultimately show ?thesis unfolding x(1) by (simp add: transactionFromRow_params)
  qed
  note cas = transactions.compare_and_set [OF wf_tables(3) [OF wf], of i v ?g ?h, OF g]
  show "wf_db env db'" using cas(1) wf by (simp add: wf_db_def db'(2))
  show "view env db' = (view env db)\<lparr>lvTransactions := map (\<lambda>x. if txId x = i \<and> txVersion x = v
       then ?h x else x) (lvTransactions (view env db))\<rparr>"
    using cas(2) by (simp add: view_def db'(2) transactions.contents_def)
  show "n = length (filter (\<lambda>x. txId x = i \<and> txVersion x = v) (lvTransactions (view env db)))"
    unfolding db'(1) view_contents by (rule cas(3))
qed

end
