(* ===== verification/WriteTransaction.thy ===== *)
theory WriteTransaction
  imports Store
begin

text \<open>
  \<open>server/ledger/writeTransaction.ts\<close> and the state a service call runs on: the database, the flag
  \<open>db.inTransaction\<close>, and how often the injected clock, the id source, \<open>Date.now\<close> and
  \<open>BEGIN IMMEDIATE\<close> have been used. Those counters belong to the world outside the database: a
  rollback does not turn them back.
\<close>

record ledger_state =
  stDb :: ledger_db
  stInTransaction :: bool
  stNow :: nat
  stIds :: nat
  stDateNow :: nat
  stBegins :: nat

definition initial_state :: ledger_state where
  "initial_state = \<lparr>stDb = empty_db, stInTransaction = False, stNow = 0, stIds = 0, stDateNow = 0, stBegins = 0\<rparr>"

type_synonym 'a svc = "(ledger_state, 'a) led"

section \<open>Reads and writes of the repository\<close>

definition readDb :: "(ledger_db \<Rightarrow> 'a res) \<Rightarrow> 'a svc" where
  "readDb f = ask (\<lambda>s. f (stDb s))"

definition writeDb :: "(ledger_db \<Rightarrow> ledger_db res) \<Rightarrow> unit svc" where
  "writeDb f = modifyR (\<lambda>s. mapRes (\<lambda>db. s\<lparr>stDb := db\<rparr>) (f (stDb s)))"

definition changeDb :: "(ledger_db \<Rightarrow> (nat \<times> ledger_db) res) \<Rightarrow> nat svc" where
  "changeDb f = (\<lambda>s. case f (stDb s) of Inl e \<Rightarrow> (Inl e, s) | Inr (n, db) \<Rightarrow> (Inr n, s\<lparr>stDb := db\<rparr>))"

lemma readDb_iff [led_simps]: "readDb f s = (Inr a, t) \<longleftrightarrow> f (stDb s) = Inr a \<and> t = s"
  by (simp add: readDb_def ask_iff)

lemma writeDb_iff [led_simps]:
  "writeDb f s = (Inr u, t) \<longleftrightarrow> (\<exists>db. f (stDb s) = Inr db \<and> t = s\<lparr>stDb := db\<rparr>)"
  by (auto simp: writeDb_def modifyR_iff mapRes_def split: sum.splits)

lemma changeDb_iff [led_simps]:
  "changeDb f s = (Inr n, t) \<longleftrightarrow> (\<exists>db. f (stDb s) = Inr (n, db) \<and> t = s\<lparr>stDb := db\<rparr>)"
  by (auto simp: changeDb_def split: sum.splits prod.splits)

section \<open>Clock and identifiers\<close>

definition generatedTimestamp :: "ledger_env \<Rightarrow> int svc" where
  "generatedTimestamp env = (\<lambda>s. (assertUtcMilliseconds env (nowFn env (stNow s)), s\<lparr>stNow := Suc (stNow s)\<rparr>))"

definition generatedId :: "ledger_env \<Rightarrow> jsstr svc" where
  "generatedId env = (\<lambda>s.
     (case createIdFn env (stIds s) of
        JStr i \<Rightarrow> if length i = 0 then Inl ledgerValidationError else Inr i
      | _ \<Rightarrow> Inl ledgerValidationError, s\<lparr>stIds := Suc (stIds s)\<rparr>))"

lemma generatedTimestamp_iff [led_simps]:
  "generatedTimestamp env s = (Inr i, t) \<longleftrightarrow>
     nowFn env (stNow s) = JInt i \<and> utcOk env i \<and> t = s\<lparr>stNow := Suc (stNow s)\<rparr>"
  by (auto simp: generatedTimestamp_def assertUtcMilliseconds_iff utcOk_def)

lemma generatedId_iff [led_simps]:
  "generatedId env s = (Inr i, t) \<longleftrightarrow>
     createIdFn env (stIds s) = JStr i \<and> i \<noteq> [] \<and> t = s\<lparr>stIds := Suc (stIds s)\<rparr>"
  by (auto simp: generatedId_def split: jsval.split_asm if_split_asm)

section \<open>\<open>runLedgerWrite\<close>\<close>

definition ledgerWriteBusyError :: failure where
  "ledgerWriteBusyError = LedgerError LWriteBusy 503"

text \<open>The \<open>catch\<close>: a busy database becomes the retryable error, everything else is rethrown.\<close>

definition mapBusy :: "failure \<Rightarrow> failure" where
  "mapBusy e = (if e = SqlBusy then ledgerWriteBusyError else e)"

definition runLedgerWrite :: "ledger_env \<Rightarrow> 'a svc \<Rightarrow> 'a svc" where
  "runLedgerWrite env callback = (\<lambda>s.
     if stInTransaction s then
       (case callback s of (Inl e, t) \<Rightarrow> (Inl (mapBusy e), t) | (Inr a, t) \<Rightarrow> (Inr a, t))
     else
       let s' = s\<lparr>stBegins := Suc (stBegins s)\<rparr> in
       if writeLockBusy env (stBegins s) then (Inl (mapBusy SqlBusy), s')
       else case callback (s'\<lparr>stInTransaction := True\<rparr>) of
           (Inl e, t) \<Rightarrow> (Inl (mapBusy e), t\<lparr>stDb := stDb s, stInTransaction := False\<rparr>)
         | (Inr a, t) \<Rightarrow> (Inr a, t\<lparr>stInTransaction := False\<rparr>))"

text \<open>The outermost call: a result commits what the callback did.\<close>

lemma runLedgerWrite_commit:
  assumes "\<not> stInTransaction s" "runLedgerWrite env f s = (Inr a, t)"
  shows "\<exists>u. f (s\<lparr>stBegins := Suc (stBegins s), stInTransaction := True\<rparr>) = (Inr a, u)
      \<and> t = u\<lparr>stInTransaction := False\<rparr>"
  using assms by (auto simp: runLedgerWrite_def Let_def split: if_split_asm prod.split_asm sum.split_asm)

lemma runLedgerWrite_nested [led_simps]:
  "stInTransaction s \<Longrightarrow> runLedgerWrite env f s = (Inr a, t) \<longleftrightarrow> f s = (Inr a, t)"
  by (auto simp: runLedgerWrite_def split: prod.split_asm sum.split_asm)

text \<open>A failure rolls the database back.\<close>

lemma runLedgerWrite_rollback:
  assumes "\<not> stInTransaction s" "runLedgerWrite env f s = (Inl e, t)"
  shows "stDb t = stDb s" "\<not> stInTransaction t"
  using assms by (auto simp: runLedgerWrite_def Let_def split: if_split_asm prod.split_asm sum.split_asm)

lemma runLedgerWrite_flag:
  assumes "\<not> stInTransaction s" "runLedgerWrite env f s = (r, t)"
  shows "\<not> stInTransaction t"
  using assms by (auto simp: runLedgerWrite_def Let_def split: if_split_asm prod.split_asm sum.split_asm)

end
