(* ===== verification/Idempotency.thy ===== *)
theory Idempotency
  imports WriteTransaction
begin

text \<open>
  \<open>server/ledger/idempotency.ts\<close>: the checks on a response body before it is stored for replay,
  the fingerprint of a request, and \<open>executeIdempotentLedgerCreate\<close>, which runs a create mutation
  and stores its first response in the same write transaction. The lemmas at the end state the
  replay contract.
\<close>

section \<open>Operation scopes\<close>

definition settingsScope :: jsstr where "settingsScope = js ''POST:/api/ledger/settings''"
definition accountsScope :: jsstr where "accountsScope = js ''POST:/api/ledger/accounts''"
definition categoriesScope :: jsstr where "categoriesScope = js ''POST:/api/ledger/categories''"
definition transactionsScope :: jsstr where "transactionsScope = js ''POST:/api/ledger/transactions''"

definition ledgerAccountAdjustmentOperationScope :: "jsstr \<Rightarrow> jsstr" where
  "ledgerAccountAdjustmentOperationScope accountId =
     js ''POST:/api/ledger/accounts/'' @ accountId @ js ''/adjust''"

section \<open>Checks on a replay body\<close>

abbreviation replayCheck :: "bool \<Rightarrow> unit res" where
  "replayCheck b \<equiv> failUnless b TypeError"

definition replayDataObject :: "jsval \<Rightarrow> jsobj res" where
  "replayDataObject v = (case v of JObj r \<Rightarrow> Inr r | _ \<Rightarrow> Inl TypeError)"

definition replayExactObject :: "jsobj \<Rightarrow> string list \<Rightarrow> unit res" where
  "replayExactObject r expectedKeys = replayCheck (length r = length expectedKeys \<and> list_all (hasOwn r) expectedKeys)"

definition assertReplayString :: "jsobj \<Rightarrow> string \<Rightarrow> unit res" where
  "assertReplayString r k = replayCheck (isText (getProp r k))"

definition assertReplayBoolean :: "jsobj \<Rightarrow> string \<Rightarrow> unit res" where
  "assertReplayBoolean r k = replayCheck (case getProp r k of JBool _ \<Rightarrow> True | _ \<Rightarrow> False)"

definition assertReplaySafeInteger :: "jsobj \<Rightarrow> string \<Rightarrow> unit res" where
  "assertReplaySafeInteger r k = replayCheck (isSafeInteger (getProp r k))"

definition assertReplayPositiveSafeInteger :: "jsobj \<Rightarrow> string \<Rightarrow> unit res" where
  "assertReplayPositiveSafeInteger r k =
     replayCheck (case getProp r k of JInt i \<Rightarrow> safeInt i \<and> 0 < i | _ \<Rightarrow> False)"

definition assertReplayNullableSafeInteger :: "jsobj \<Rightarrow> string \<Rightarrow> unit res" where
  "assertReplayNullableSafeInteger r k = replayCheck (getProp r k = JNull \<or> isSafeInteger (getProp r k))"

definition assertReplayEnum :: "jsobj \<Rightarrow> string \<Rightarrow> jsstr list \<Rightarrow> unit res" where
  "assertReplayEnum r k allowed = replayCheck (getProp r k \<in> set (map JStr allowed))"

fun allR :: "unit res list \<Rightarrow> unit res" where
  "allR [] = Inr ()"
| "allR (r # rs) = bindR r (\<lambda>_. allR rs)"

text \<open>A check on a property that need not be there.\<close>

definition ifOwn :: "jsobj \<Rightarrow> string \<Rightarrow> unit res \<Rightarrow> unit res" where
  "ifOwn r k c = (if hasOwn r k then c else Inr ())"

definition ownKeys :: "jsobj \<Rightarrow> string list \<Rightarrow> string list" where
  "ownKeys r ks = filter (hasOwn r) ks"

definition assertLedgerSettingsReplayBody :: "jsobj \<Rightarrow> unit res" where
  "assertLedgerSettingsReplayBody r = allR
     [replayExactObject r ([''baseCurrency'', ''currencyExponent'', ''timezone'', ''hasCreatedAccount'',
        ''version'', ''createdAt'', ''updatedAt''] @ ownKeys r [''accountIcons'']),
      assertReplayString r ''baseCurrency'',
      assertReplaySafeInteger r ''currencyExponent'',
      assertReplayString r ''timezone'',
      assertReplayBoolean r ''hasCreatedAccount'',
      assertReplayPositiveSafeInteger r ''version'',
      assertReplaySafeInteger r ''createdAt'',
      assertReplaySafeInteger r ''updatedAt'',
      (case getProp r ''accountIcons'' of
         JUndefined \<Rightarrow> Inr ()
       | JObj config \<Rightarrow> replayCheck (isText (getProp config ''defaultIcon'')
           \<and> (case getProp config ''availableIcons'' of JArr _ \<Rightarrow> True | _ \<Rightarrow> False)
           \<and> isObjectLike (getProp config ''customIcons'') \<and> isObjectLike (getProp config ''customIconNames''))
       | _ \<Rightarrow> Inl TypeError)]"

definition replayIconOk :: "jsval \<Rightarrow> bool" where
  "replayIconOk v = (case v of JStr s \<Rightarrow> isAccountIcon s | _ \<Rightarrow> False)"

definition assertLedgerAccountReplayBody :: "jsval \<Rightarrow> unit res" where
  "assertLedgerAccountReplayBody v = bindR (replayDataObject v) (\<lambda>r. allR
     [replayExactObject r ([''id'', ''name'', ''type'', ''nature'', ''openingBalanceMinor'', ''openingDate'',
        ''currency'', ''currencyExponent'', ''note'', ''archivedAt'', ''version'', ''createdAt'', ''updatedAt'',
        ''currentBalanceMinor''] @ ownKeys r [''icon'', ''cardNumber'']),
      assertReplayString r ''id'',
      assertReplayString r ''name'',
      assertReplayEnum r ''type'' (map accountTypeText LEDGER_ACCOUNT_TYPES),
      assertReplayEnum r ''nature'' (map natureText LEDGER_ACCOUNT_NATURES),
      ifOwn r ''icon'' (replayCheck (replayIconOk (getProp r ''icon''))),
      assertReplaySafeInteger r ''openingBalanceMinor'',
      assertReplayString r ''openingDate'',
      assertReplayString r ''currency'',
      assertReplaySafeInteger r ''currencyExponent'',
      assertReplayString r ''note'',
      ifOwn r ''cardNumber'' (assertReplayString r ''cardNumber''),
      assertReplayNullableSafeInteger r ''archivedAt'',
      assertReplayPositiveSafeInteger r ''version'',
      assertReplaySafeInteger r ''createdAt'',
      assertReplaySafeInteger r ''updatedAt'',
      assertReplaySafeInteger r ''currentBalanceMinor''])"

definition assertLedgerCategoryReplayBody :: "jsobj \<Rightarrow> unit res" where
  "assertLedgerCategoryReplayBody r = allR
     [replayExactObject r ([''id'', ''kind'', ''name'', ''normalizedName'', ''archivedAt'', ''version'',
        ''createdAt'', ''updatedAt''] @ ownKeys r [''icon'', ''systemKey'', ''protected'']),
      assertReplayString r ''id'',
      assertReplayEnum r ''kind'' (map kindText LEDGER_CATEGORY_KINDS),
      assertReplayString r ''name'',
      assertReplayString r ''normalizedName'',
      ifOwn r ''systemKey'' (assertReplayEnum r ''systemKey'' (map systemKeyText LEDGER_SYSTEM_KEYS)),
      ifOwn r ''protected'' (assertReplayBoolean r ''protected''),
      ifOwn r ''icon'' (replayCheck (replayIconOk (getProp r ''icon''))),
      assertReplayNullableSafeInteger r ''archivedAt'',
      assertReplayPositiveSafeInteger r ''version'',
      assertReplaySafeInteger r ''createdAt'',
      assertReplaySafeInteger r ''updatedAt'']"

definition transactionBaseReplayKeys :: "jsobj \<Rightarrow> string list" where
  "transactionBaseReplayKeys r = [''id'', ''type'', ''amountMinor'', ''occurredAt'', ''note'', ''deletedAt'',
     ''version'', ''createdAt'', ''updatedAt''] @ ownKeys r [''groupId'', ''location'']"

definition assertLedgerTransactionBaseReplayBody :: "jsobj \<Rightarrow> unit res" where
  "assertLedgerTransactionBaseReplayBody r = allR
     [assertReplayString r ''id'',
      ifOwn r ''groupId'' (assertReplayString r ''groupId''),
      assertReplaySafeInteger r ''amountMinor'',
      assertReplaySafeInteger r ''occurredAt'',
      ifOwn r ''location'' (assertReplayString r ''location''),
      assertReplayString r ''note'',
      assertReplayNullableSafeInteger r ''deletedAt'',
      assertReplayPositiveSafeInteger r ''version'',
      assertReplaySafeInteger r ''createdAt'',
      assertReplaySafeInteger r ''updatedAt'']"

text \<open>The check of a transaction body; a transfer without a kind is completed to a general one.\<close>

definition assertLedgerTransactionReplayBody :: "jsval \<Rightarrow> jsobj res" where
  "assertLedgerTransactionReplayBody v = bindR (replayDataObject v) (\<lambda>r.
     if getProp r ''type'' = JStr (js ''income'') \<or> getProp r ''type'' = JStr (js ''expense'') then
       bindR (allR
         [replayExactObject r (transactionBaseReplayKeys r @ [''accountId'', ''categoryId'', ''payee'']),
          assertLedgerTransactionBaseReplayBody r,
          assertReplayString r ''accountId'',
          assertReplayString r ''categoryId'',
          assertReplayString r ''payee'']) (\<lambda>_. Inr r)
     else if getProp r ''type'' = JStr (js ''transfer'') then
       (let r' = (if hasOwn r ''transferKind'' then r
                  else r @ [(js ''transferKind'', JStr (js ''general''))])
        in bindR (allR
         [replayExactObject r' (transactionBaseReplayKeys r'
            @ [''transferKind'', ''fromAccountId'', ''toAccountId''] @ ownKeys r' [''feeMode'', ''payee'']),
          assertReplayEnum r' ''transferKind'' (map transferKindText LEDGER_TRANSFER_KINDS),
          ifOwn r' ''feeMode'' (assertReplayEnum r' ''feeMode'' (map feeModeText LEDGER_TRANSFER_FEE_MODES)),
          assertLedgerTransactionBaseReplayBody r',
          assertReplayString r' ''fromAccountId'',
          assertReplayString r' ''toAccountId'',
          ifOwn r' ''payee'' (assertReplayString r' ''payee'')]) (\<lambda>_. Inr r'))
     else if getProp r ''type'' = JStr (js ''adjustment'') then
       bindR (allR
         [replayExactObject r (transactionBaseReplayKeys r
            @ [''accountId'', ''adjustmentCalculatedBalanceMinor'', ''adjustmentTargetBalanceMinor'']),
          assertLedgerTransactionBaseReplayBody r,
          assertReplayString r ''accountId'',
          assertReplaySafeInteger r ''adjustmentCalculatedBalanceMinor'',
          assertReplaySafeInteger r ''adjustmentTargetBalanceMinor'']) (\<lambda>_. Inr r)
     else Inl TypeError)"

definition assertLedgerAdjustmentMutationReplayBody :: "jsobj \<Rightarrow> unit res" where
  "assertLedgerAdjustmentMutationReplayBody r = allR
     [replayExactObject r [''adjustment'', ''account'', ''noOp''],
      assertReplayBoolean r ''noOp'',
      assertLedgerAccountReplayBody (getProp r ''account''),
      (if getProp r ''noOp'' = JBool True then replayCheck (getProp r ''adjustment'' = JNull)
       else bindR (assertLedgerTransactionReplayBody (getProp r ''adjustment'')) (\<lambda>a.
         replayCheck (getProp a ''type'' = JStr (js ''adjustment''))))]"

definition assertLedgerReplayResponseBody :: "jsval \<Rightarrow> jsval res" where
  "assertLedgerReplayResponseBody v = bindR (replayDataObject v) (\<lambda>r.
     if hasOwn r ''noOp'' \<or> hasOwn r ''adjustment'' then
       bindR (assertLedgerAdjustmentMutationReplayBody r) (\<lambda>_. Inr v)
     else if hasOwn r ''currentBalanceMinor'' then bindR (assertLedgerAccountReplayBody v) (\<lambda>_. Inr v)
     else if hasOwn r ''type'' then bindR (assertLedgerTransactionReplayBody v) (\<lambda>r'. Inr (JObj r'))
     else if hasOwn r ''normalizedName'' then bindR (assertLedgerCategoryReplayBody r) (\<lambda>_. Inr v)
     else if hasOwn r ''baseCurrency'' then bindR (assertLedgerSettingsReplayBody r) (\<lambda>_. Inr v)
     else Inl TypeError)"

definition isLedgerAdjustmentNoOpReplayBody :: "jsval \<Rightarrow> bool" where
  "isLedgerAdjustmentNoOpReplayBody v =
     (case v of JObj r \<Rightarrow> hasOwn r ''noOp'' \<and> getProp r ''noOp'' = JBool True | _ \<Rightarrow> False)"

definition serializeLedgerReplayResponse :: "jsval \<Rightarrow> jsstr res" where
  "serializeLedgerReplayResponse body =
     bindR (assertLedgerReplayResponseBody body) (\<lambda>checked. stableSerializeLedgerJson checked)"

definition fingerprintLedgerMutation :: "ledger_env \<Rightarrow> jsval \<Rightarrow> jsstr res" where
  "fingerprintLedgerMutation env request =
     bindR (stableSerializeLedgerJson request) (\<lambda>text. Inr (sha256hex env text))"

section \<open>Executing a create\<close>

record LedgerIdempotentResult =
  irResultStatus :: LedgerIdempotencyResultStatus
  irResponseStatus :: int
  irResponseBody :: jsval
  irResultType :: "jsstr option"
  irResultId :: "jsstr option"

definition assertMutationResult :: "LedgerIdempotentResult \<Rightarrow> jsval res" where
  "assertMutationResult m =
     bindR (failUnless (irResponseStatus m = (if irResultStatus m = Committed then 201 else 200))
              ledgerValidationError) (\<lambda>_.
     bindR (assertLedgerReplayResponseBody (irResponseBody m)) (\<lambda>body.
     bindR (replayCheck (if irResultStatus m = Committed then \<not> isLedgerAdjustmentNoOpReplayBody body
                         else isLedgerAdjustmentNoOpReplayBody body)) (\<lambda>_.
     Inr body)))"

record LedgerReplayResult =
  lrResponseStatus :: int
  lrResponseBodyJson :: jsstr
  lrReplayed :: bool

definition replayResult :: "LedgerIdempotencyRecord \<Rightarrow> LedgerReplayResult res" where
  "replayResult d =
     (if idResponseStatus d \<noteq> 200 \<and> idResponseStatus d \<noteq> 201 then Inl ledgerValidationError
      else Inr \<lparr>lrResponseStatus = idResponseStatus d, lrResponseBodyJson = idResponseBodyJson d,
             lrReplayed = True\<rparr>)"

text \<open>\<open>Date.now()\<close>, checked to be a safe integer.\<close>

definition recordCreatedAt :: "ledger_env \<Rightarrow> int svc" where
  "recordCreatedAt env = (\<lambda>s.
     (case dateNow env (stDateNow s) of
        JInt i \<Rightarrow> if safeInt i then Inr i else Inl ledgerValidationError
      | _ \<Rightarrow> Inl ledgerValidationError, s\<lparr>stDateNow := Suc (stDateNow s)\<rparr>))"

lemma recordCreatedAt_iff [led_simps]:
  "recordCreatedAt env s = (Inr i, t) \<longleftrightarrow>
     dateNow env (stDateNow s) = JInt i \<and> safeInt i \<and> t = s\<lparr>stDateNow := Suc (stDateNow s)\<rparr>"
  by (auto simp: recordCreatedAt_def split: jsval.split_asm if_split_asm)

definition storeMutationResult ::
    "ledger_env \<Rightarrow> jsstr \<Rightarrow> jsstr \<Rightarrow> jsstr \<Rightarrow> LedgerIdempotentResult \<Rightarrow> LedgerReplayResult svc" where
  "storeMutationResult env scope key fingerprint m =
     bnd (liftR (assertMutationResult m)) (\<lambda>body.
     bnd (liftR (serializeLedgerReplayResponse body)) (\<lambda>bodyJson.
     bnd (recordCreatedAt env) (\<lambda>createdAt.
     bnd (writeDb (insertIdempotencyRecord
       \<lparr>idOperationScope = scope, idIdempotencyKey = key, idRequestFingerprint = fingerprint,
        idResponseStatus = irResponseStatus m, idResponseBodyJson = bodyJson,
        idResultStatus = irResultStatus m, idResultType = irResultType m, idResultId = irResultId m,
        idCreatedAt = createdAt\<rparr>)) (\<lambda>_.
     ret \<lparr>lrResponseStatus = irResponseStatus m, lrResponseBodyJson = bodyJson, lrReplayed = False\<rparr>))))"

definition executeIdempotentLedgerCreate ::
    "ledger_env \<Rightarrow> jsstr \<Rightarrow> jsstr \<Rightarrow> jsval \<Rightarrow> LedgerIdempotentResult svc \<Rightarrow> LedgerReplayResult svc" where
  "executeIdempotentLedgerCreate env scope key request mutation =
     bnd (liftR (fingerprintLedgerMutation env request)) (\<lambda>requestFingerprint.
     runLedgerWrite env
       (bnd (readDb (getIdempotencyRecord scope key)) (\<lambda>existing.
        case existing of
          Some d \<Rightarrow>
            bnd (guardE (idRequestFingerprint d = requestFingerprint) (LedgerError LIdempotencyConflict 409)) (\<lambda>_.
            liftR (replayResult d))
        | None \<Rightarrow>
            bnd (runLedgerWrite env mutation) (\<lambda>m.
            storeMutationResult env scope key requestFingerprint m))))"

section \<open>The replay contract\<close>

lemma allR_iff [led_simps]: "allR rs = Inr u \<longleftrightarrow> (\<forall>r\<in>set rs. r = Inr ())"
  by (induction rs) (auto simp: led_simps)

text \<open>A call that returned either replayed a stored record or ran the mutation once and stored it.\<close>

lemma execute_cases:
  assumes out: "\<not> stInTransaction s"
    and run: "executeIdempotentLedgerCreate env scope key request mutation s = (Inr a, t)"
  obtains (replayed) d fp where "getIdempotencyRecord scope key (stDb s) = Inr (Some d)"
      "fingerprintLedgerMutation env request = Inr fp" "idRequestFingerprint d = fp"
      "lrReplayed a" "lrResponseStatus a = idResponseStatus d" "lrResponseBodyJson a = idResponseBodyJson d"
      "stDb t = stDb s" "idResponseStatus d = 200 \<or> idResponseStatus d = 201"
  | (executed) m u fp d where "getIdempotencyRecord scope key (stDb s) = Inr None"
      "fingerprintLedgerMutation env request = Inr fp"
      "mutation (s\<lparr>stBegins := Suc (stBegins s), stInTransaction := True\<rparr>) = (Inr m, u)"
      "insertIdempotencyRecord d (stDb u) = Inr (stDb t)"
      "idOperationScope d = scope" "idIdempotencyKey d = key" "idRequestFingerprint d = fp"
      "idResponseStatus d = irResponseStatus m" "idResponseBodyJson d = lrResponseBodyJson a"
      "\<not> lrReplayed a" "lrResponseStatus a = irResponseStatus m"
      "irResponseStatus m = 200 \<or> irResponseStatus m = 201" "safeInt (idCreatedAt d)"
proof -
  let ?s = "s\<lparr>stBegins := Suc (stBegins s), stInTransaction := True\<rparr>"
  from run obtain fp where fp: "fingerprintLedgerMutation env request = Inr fp"
    and w: "runLedgerWrite env
       (bnd (readDb (getIdempotencyRecord scope key)) (\<lambda>existing.
        case existing of
          Some d \<Rightarrow>
            bnd (guardE (idRequestFingerprint d = fp) (LedgerError LIdempotencyConflict 409)) (\<lambda>_.
            liftR (replayResult d))
        | None \<Rightarrow>
            bnd (runLedgerWrite env mutation) (\<lambda>m.
            storeMutationResult env scope key fp m))) s = (Inr a, t)"
    unfolding executeIdempotentLedgerCreate_def by (auto simp: bnd_iff liftR_iff)
  from runLedgerWrite_commit [OF out w] obtain u where
    u: "bnd (readDb (getIdempotencyRecord scope key)) (\<lambda>existing.
        case existing of
          Some d \<Rightarrow>
            bnd (guardE (idRequestFingerprint d = fp) (LedgerError LIdempotencyConflict 409)) (\<lambda>_.
            liftR (replayResult d))
        | None \<Rightarrow>
            bnd (runLedgerWrite env mutation) (\<lambda>m.
            storeMutationResult env scope key fp m)) ?s = (Inr a, u)"
    and t: "t = u\<lparr>stInTransaction := False\<rparr>" by blast
  from u obtain existing where g: "getIdempotencyRecord scope key (stDb s) = Inr existing"
    and rest: "(case existing of
          Some d \<Rightarrow>
            bnd (guardE (idRequestFingerprint d = fp) (LedgerError LIdempotencyConflict 409)) (\<lambda>_.
            liftR (replayResult d))
        | None \<Rightarrow>
            bnd (runLedgerWrite env mutation) (\<lambda>m.
            storeMutationResult env scope key fp m)) ?s = (Inr a, u)"
    by (auto simp: bnd_iff readDb_iff)
  show thesis
  proof (cases existing)
    case (Some d)
    with rest have "idRequestFingerprint d = fp" "replayResult d = Inr a" "u = ?s"
      by (auto simp: bnd_iff guardE_iff liftR_iff)
    with g Some fp t show thesis
      by (intro replayed [of d fp]) (auto simp: replayResult_def split: if_split_asm)
  next
    case None
    with rest obtain m v where m: "mutation ?s = (Inr m, v)"
      and st: "storeMutationResult env scope key fp m v = (Inr a, u)"
      by (auto simp: bnd_iff runLedgerWrite_nested)
    from st show thesis
      using g None fp m t
      by (auto simp: storeMutationResult_def assertMutationResult_def led_simps split: if_split_asm intro: executed)
  qed
qed

end
