(* ===== verification/ServiceCore.thy ===== *)
theory ServiceCore
  imports Idempotency
begin

text \<open>
  \<open>server/ledger/service.ts\<close>, first part: the helpers, the response objects, and the operations on
  settings, accounts and categories, with \<open>server/ledger/defaultCategories.ts\<close>. Every operation is
  the whole handler: its reads in order, its guards, its writes, its response.
\<close>

section \<open>Helpers\<close>

definition asMutationRecord :: "jsval \<Rightarrow> jsobj option" where
  "asMutationRecord v = (case v of JObj r \<Rightarrow> Some r | _ \<Rightarrow> None)"

definition notFound :: failure where "notFound = LedgerError LNotFound 404"
definition versionConflict :: failure where "versionConflict = LedgerError LVersionConflict 409"
definition duplicateCategory :: failure where "duplicateCategory = LedgerError LDuplicateCategory 409"
definition archivedAccount :: failure where "archivedAccount = LedgerError LArchivedAccount 409"
definition archivedCategory :: failure where "archivedCategory = LedgerError LArchivedCategory 409"
definition categoryKindMismatch :: failure where "categoryKindMismatch = LedgerError LCategoryKindMismatch 409"

definition assertExpectedVersion :: "int \<Rightarrow> int \<Rightarrow> unit svc" where
  "assertExpectedVersion currentVersion expectedVersion = guardE (currentVersion = expectedVersion) versionConflict"

definition nextVersion :: "int \<Rightarrow> int svc" where
  "nextVersion currentVersion = liftR
     (if currentVersion \<ge> MAX_SAFE_INTEGER then Inl ledgerValidationError else Inr (currentVersion + 1))"

lemma nextVersion_iff [led_simps]:
  "nextVersion v s = (Inr w, t) \<longleftrightarrow> v < MAX_SAFE_INTEGER \<and> w = v + 1 \<and> t = s"
  by (auto simp: nextVersion_def liftR_iff)

lemma assertExpectedVersion_iff [led_simps]:
  "assertExpectedVersion v w s = (Inr u, t) \<longleftrightarrow> w = v \<and> t = s"
  by (auto simp: assertExpectedVersion_def guardE_iff)

definition assertAccountPair :: "LedgerAccountType \<Rightarrow> LedgerAccountNature \<Rightarrow> unit svc" where
  "assertAccountPair type nature =
     guardE (isLedgerAccountTypeNature type nature) (LedgerError LInvalidAccountPair 400)"

text \<open>The version of the raw body is compared before the body is parsed in full.\<close>

definition compareRawVersion :: "jsobj option \<Rightarrow> int \<Rightarrow> unit svc" where
  "compareRawVersion raw version = (case raw of None \<Rightarrow> ret ()
     | Some r \<Rightarrow> bnd (liftR (parseExpectedVersion r)) (assertExpectedVersion version))"

lemma compareRawVersion_state [led_simps]:
  "compareRawVersion raw version s = (Inr u, t) \<longleftrightarrow>
     t = s \<and> (case raw of None \<Rightarrow> True | Some r \<Rightarrow> parseExpectedVersion r = Inr version)"
  by (cases raw) (auto simp: compareRawVersion_def led_simps)

definition requireSome :: "'a option \<Rightarrow> 'a svc" where
  "requireSome x = (case x of None \<Rightarrow> throw notFound | Some a \<Rightarrow> ret a)"

lemma requireSome_iff [led_simps]: "requireSome x s = (Inr a, t) \<longleftrightarrow> x = Some a \<and> t = s"
  by (cases x) (auto simp: requireSome_def led_simps)

section \<open>Response objects\<close>

definition optProp :: "string \<Rightarrow> jsval option \<Rightarrow> jsobj" where
  "optProp k x = (case x of None \<Rightarrow> [] | Some v \<Rightarrow> [(js k, v)])"

definition textRecord :: "(jsstr \<times> jsstr) list \<Rightarrow> jsval" where
  "textRecord r = JObj (map (\<lambda>(k, v). (k, JStr v)) r)"

definition iconConfigJson :: "LedgerAccountIconConfig \<Rightarrow> jsval" where
  "iconConfigJson c = JObj
     ([(js ''defaultIcon'', JStr (defaultIcon c)),
       (js ''availableIcons'', JArr (map JStr (availableIcons c)))]
      @ optProp ''archivedIcons'' (map_option (\<lambda>xs. JArr (map JStr xs)) (archivedIcons c))
      @ [(js ''customIcons'', textRecord (customIcons c)),
         (js ''customIconNames'', textRecord (customIconNames c))])"

definition toSettingsDto :: "LedgerSettings \<Rightarrow> jsval res" where
  "toSettingsDto s = bindR (currencyExponentFor (JStr (setBaseCurrency s))) (\<lambda>exponent. Inr (JObj
     [(js ''baseCurrency'', JStr (setBaseCurrency s)),
      (js ''currencyExponent'', JInt (int exponent)),
      (js ''timezone'', JStr (setTimezone s)),
      (js ''hasCreatedAccount'', JBool (setHasCreatedAccount s)),
      (js ''version'', JInt (setVersion s)),
      (js ''createdAt'', JInt (setCreatedAt s)),
      (js ''updatedAt'', JInt (setUpdatedAt s)),
      (js ''accountIcons'', iconConfigJson (setAccountIcons s))]))"

text \<open>\<open>icon && icon !== 'wallet' ? { icon } : {}\<close> and the truthiness of an optional text.\<close>

definition shownIcon :: "jsstr option \<Rightarrow> jsval option" where
  "shownIcon icon = (case icon of None \<Rightarrow> None
     | Some s \<Rightarrow> if s = [] \<or> s = js ''wallet'' then None else Some (JStr s))"

definition truthyText :: "jsstr option \<Rightarrow> jsval option" where
  "truthyText x = (case x of None \<Rightarrow> None | Some s \<Rightarrow> if s = [] then None else Some (JStr s))"

definition isProtected :: "LedgerCategory \<Rightarrow> bool" where
  "isProtected c \<longleftrightarrow> catIsDefault c \<or> catSystemKey c \<noteq> None"

definition toCategoryDto :: "LedgerCategory \<Rightarrow> jsval" where
  "toCategoryDto c = JObj
     ([(js ''id'', JStr (catId c)),
       (js ''kind'', JStr (kindText (catKind c))),
       (js ''name'', JStr (catName c)),
       (js ''normalizedName'', JStr (catNormalizedName c))]
      @ optProp ''systemKey'' (map_option (\<lambda>k. JStr (systemKeyText k)) (catSystemKey c))
      @ (if isProtected c then [(js ''protected'', JBool True)] else [])
      @ optProp ''icon'' (shownIcon (catIcon c))
      @ [(js ''archivedAt'', optInt (catArchivedAt c)),
         (js ''version'', JInt (catVersion c)),
         (js ''createdAt'', JInt (catCreatedAt c)),
         (js ''updatedAt'', JInt (catUpdatedAt c))])"

definition toTransactionDto :: "LedgerTransaction \<Rightarrow> jsval" where
  "toTransactionDto t = JObj
     ([(js ''id'', JStr (txId t))]
      @ optProp ''groupId'' (truthyText (txGroupId t))
      @ [(js ''amountMinor'', JInt (txAmountMinor t)),
         (js ''occurredAt'', JInt (txOccurredAt t)),
         (js ''location'', JStr (txLocation t)),
         (js ''note'', JStr (txNote t)),
         (js ''deletedAt'', optInt (txDeletedAt t)),
         (js ''version'', JInt (txVersion t)),
         (js ''createdAt'', JInt (txCreatedAt t)),
         (js ''updatedAt'', JInt (txUpdatedAt t)),
         (js ''type'', JStr (transactionTypeText (txType t)))]
      @ (case txBody t of
           Income account category payee \<Rightarrow>
             [(js ''accountId'', JStr account), (js ''categoryId'', JStr category), (js ''payee'', JStr payee)]
         | Expense account category payee \<Rightarrow>
             [(js ''accountId'', JStr account), (js ''categoryId'', JStr category), (js ''payee'', JStr payee)]
         | Transfer kind feeMode f to payee \<Rightarrow>
             [(js ''transferKind'', JStr (transferKindText kind))]
             @ optProp ''feeMode'' (map_option (\<lambda>m. JStr (feeModeText m)) feeMode)
             @ [(js ''fromAccountId'', JStr f), (js ''toAccountId'', JStr to), (js ''payee'', JStr payee)]
         | Adjustment account calculated target \<Rightarrow>
             [(js ''accountId'', JStr account),
              (js ''adjustmentCalculatedBalanceMinor'', JInt calculated),
              (js ''adjustmentTargetBalanceMinor'', JInt target)]))"

definition currentBalance :: "ledger_env \<Rightarrow> LedgerAccount \<Rightarrow> int svc" where
  "currentBalance env a =
     bnd (readDb (listActiveTransactionsForAccount env (accId a))) (\<lambda>ts.
     liftR (deriveCurrentBalance (balanceAccount a) ts))"

definition toAccountDto :: "ledger_env \<Rightarrow> LedgerAccount \<Rightarrow> jsval svc" where
  "toAccountDto env a =
     bnd (liftR (currencyExponentFor (JStr (accCurrency a)))) (\<lambda>exponent.
     bnd (currentBalance env a) (\<lambda>balance.
     ret (JObj
       ([(js ''id'', JStr (accId a)),
         (js ''name'', JStr (accName a)),
         (js ''type'', JStr (accountTypeText (accType a))),
         (js ''nature'', JStr (natureText (accNature a)))]
        @ optProp ''icon'' (shownIcon (accIcon a))
        @ [(js ''openingBalanceMinor'', JInt (accOpeningBalanceMinor a)),
           (js ''openingDate'', JStr (accOpeningDate a)),
           (js ''currency'', JStr (accCurrency a)),
           (js ''currencyExponent'', JInt (int exponent)),
           (js ''note'', JStr (accNote a))]
        @ optProp ''cardNumber'' (truthyText (accCardNumber a))
        @ [(js ''archivedAt'', optInt (accArchivedAt a)),
           (js ''version'', JInt (accVersion a)),
           (js ''createdAt'', JInt (accCreatedAt a)),
           (js ''updatedAt'', JInt (accUpdatedAt a)),
           (js ''currentBalanceMinor'', JInt balance)]))))"

definition deletedResponse :: "jsstr \<Rightarrow> jsval" where
  "deletedResponse i = JObj [(js ''deleted'', JBool True), (js ''id'', JStr i)]"

definition committed :: "jsval \<Rightarrow> string \<Rightarrow> jsstr \<Rightarrow> LedgerIdempotentResult" where
  "committed body resultType resultId =
     \<lparr>irResultStatus = Committed, irResponseStatus = 201, irResponseBody = body,
      irResultType = Some (js resultType), irResultId = Some resultId\<rparr>"

section \<open>Lookups\<close>

definition requireSettings :: "ledger_env \<Rightarrow> LedgerSettings svc" where
  "requireSettings env = bnd (readDb (getSettings env)) requireSome"

definition requireAccount :: "ledger_env \<Rightarrow> jsstr \<Rightarrow> LedgerAccount svc" where
  "requireAccount env i = bnd (readDb (getAccount env i)) requireSome"

definition requireActiveAccount :: "ledger_env \<Rightarrow> jsstr \<Rightarrow> LedgerAccount svc" where
  "requireActiveAccount env i =
     bnd (requireAccount env i) (\<lambda>a. bnd (guardE (accArchivedAt a = None) archivedAccount) (\<lambda>_. ret a))"

definition requireCategory :: "ledger_env \<Rightarrow> jsstr \<Rightarrow> LedgerCategory svc" where
  "requireCategory env i = bnd (readDb (getCategory env i)) requireSome"

text \<open>A compare-and-set that must change exactly one row.\<close>

definition changeOne :: "(ledger_db \<Rightarrow> (nat \<times> ledger_db) res) \<Rightarrow> unit svc" where
  "changeOne f = bnd (changeDb f) (\<lambda>n. guardE (n = 1) versionConflict)"

lemma changeOne_iff [led_simps]:
  "changeOne f s = (Inr u, t) \<longleftrightarrow> (\<exists>db. f (stDb s) = Inr (1, db) \<and> t = s\<lparr>stDb := db\<rparr>)"
  by (auto simp: changeOne_def led_simps)

section \<open>Settings\<close>

definition checkSettingsLock :: "LedgerSettings \<Rightarrow> jsval \<Rightarrow> unit res" where
  "checkSettingsLock settings value =
     (if \<not> setHasCreatedAccount settings then Inr ()
      else case asMutationRecord value of None \<Rightarrow> Inr ()
      | Some r \<Rightarrow>
          if hasOwn r ''timezone'' \<and> getProp r ''timezone'' \<noteq> JStr (setTimezone settings)
          then Inl (LedgerError LTimezoneLocked 409)
          else if hasOwn r ''baseCurrency''
             \<and> normalizeLedgerCurrencyCode (getProp r ''baseCurrency'') \<noteq> Inr (setBaseCurrency settings)
          then Inl (LedgerError LBaseCurrencyLocked 409)
          else Inr ())"

definition patchSettings :: "ledger_env \<Rightarrow> jsval \<Rightarrow> jsval svc" where
  "patchSettings env value = runLedgerWrite env
     (bnd (requireSettings env) (\<lambda>settings.
      bnd (liftR (checkSettingsLock settings value)) (\<lambda>_.
      bnd (compareRawVersion (asMutationRecord value) (setVersion settings)) (\<lambda>_.
      bnd (liftR (parseSettingsPatchRequest env value)) (\<lambda>patch.
      bnd (assertExpectedVersion (setVersion settings) (spExpectedVersion patch)) (\<lambda>_.
      bnd (nextVersion (setVersion settings)) (\<lambda>version.
      bnd (generatedTimestamp env) (\<lambda>updatedAt.
      let updated = settings
        \<lparr>setBaseCurrency := orElse (spBaseCurrency patch) (setBaseCurrency settings),
         setTimezone := orElse (spTimezone patch) (setTimezone settings),
         setAccountIcons := orElse (spAccountIcons patch) (setAccountIcons settings),
         setVersion := version, setUpdatedAt := updatedAt\<rparr>
      in bnd (changeOne (updateSettings updated (setVersion settings))) (\<lambda>_.
         liftR (toSettingsDto updated))))))))))"

text \<open>\<open>seedDefaultLedgerCategories\<close>: existing identities are left alone.\<close>

fun seedDefaultLedgerCategories :: "ledger_env \<Rightarrow> DefaultCategory list \<Rightarrow> unit svc" where
  "seedDefaultLedgerCategories env [] = ret ()"
| "seedDefaultLedgerCategories env (entry # rest) =
     (let normalizedName = normalizeLedgerCategoryName env (deName entry)
      in bnd (readDb (findCategoryByIdentity env (deKind entry) normalizedName)) (\<lambda>existing.
         if existing \<noteq> None then seedDefaultLedgerCategories env rest
         else
           bnd (generatedTimestamp env) (\<lambda>timestamp.
           bnd (generatedId env) (\<lambda>i.
           bnd (writeDb (insertCategory
             \<lparr>catId = i, catKind = deKind entry, catName = deName entry,
              catNormalizedName = normalizedName, catSystemKey = deSystemKey entry, catIsDefault = True,
              catIcon = Some (deIcon entry), catSortOrder = Some (deSortOrder entry),
              catArchivedAt = None, catVersion = 1, catCreatedAt = timestamp,
              catUpdatedAt = timestamp\<rparr>)) (\<lambda>_.
           seedDefaultLedgerCategories env rest)))))"

definition settingsRequestJson :: "SettingsCreateRequest \<Rightarrow> jsval" where
  "settingsRequestJson q = JObj [(js ''baseCurrency'', JStr (scBaseCurrency q)), (js ''timezone'', JStr (scTimezone q))]"

definition createSettingsMutation :: "ledger_env \<Rightarrow> SettingsCreateRequest \<Rightarrow> LedgerIdempotentResult svc" where
  "createSettingsMutation env request =
     bnd (readDb (getSettings env)) (\<lambda>existing.
     bnd (guardE (existing = None) (LedgerError LSettingsAlreadyInitialized 409)) (\<lambda>_.
     bnd (generatedTimestamp env) (\<lambda>timestamp.
     let settings =
       \<lparr>setBaseCurrency = scBaseCurrency request, setTimezone = scTimezone request,
        setHasCreatedAccount = False, setVersion = 1, setCreatedAt = timestamp, setUpdatedAt = timestamp,
        setAccountIcons = \<lparr>defaultIcon = js ''wallet'', availableIcons = LEDGER_DEFAULT_ACCOUNT_ICONS,
          archivedIcons = None, customIcons = [], customIconNames = LEDGER_BUILTIN_ACCOUNT_ICONS\<rparr>\<rparr>
     in bnd (writeDb (insertSettings settings)) (\<lambda>_.
        bnd (seedDefaultLedgerCategories env DEFAULT_LEDGER_CATEGORIES_V2) (\<lambda>_.
        bnd (liftR (toSettingsDto settings)) (\<lambda>body.
        ret (committed body ''settings'' (js ''ledger-settings''))))))))"

definition createSettings :: "ledger_env \<Rightarrow> SettingsCreateRequest \<Rightarrow> jsstr \<Rightarrow> LedgerReplayResult svc" where
  "createSettings env request idempotencyKey =
     executeIdempotentLedgerCreate env settingsScope idempotencyKey (settingsRequestJson request)
       (createSettingsMutation env request)"

definition getSettingsDto :: "ledger_env \<Rightarrow> jsval svc" where
  "getSettingsDto env = bnd (requireSettings env) (\<lambda>s. liftR (toSettingsDto s))"

section \<open>Accounts\<close>

text \<open>\<open>map\<close> with a function that reads the database.\<close>

fun mapM :: "('a \<Rightarrow> 'b svc) \<Rightarrow> 'a list \<Rightarrow> 'b list svc" where
  "mapM f [] = ret []"
| "mapM f (x # xs) = bnd (f x) (\<lambda>y. bnd (mapM f xs) (\<lambda>ys. ret (y # ys)))"

definition listAccountDtos :: "ledger_env \<Rightarrow> bool \<Rightarrow> jsval list svc" where
  "listAccountDtos env includeArchived =
     bnd (requireSettings env) (\<lambda>_.
     bnd (readDb (listAccounts env includeArchived)) (\<lambda>as. mapM (toAccountDto env) as))"

definition getAccountDto :: "ledger_env \<Rightarrow> jsstr \<Rightarrow> jsval svc" where
  "getAccountDto env i =
     bnd (requireSettings env) (\<lambda>_. bnd (requireAccount env i) (toAccountDto env))"

definition accountRequestJson :: "AccountCreateRequest \<Rightarrow> jsval" where
  "accountRequestJson q = JObj
     ([(js ''name'', JStr (acName q)),
       (js ''type'', JStr (accountTypeText (acType q))),
       (js ''nature'', JStr (natureText (acNature q)))]
      @ optProp ''icon'' (map_option JStr (acIcon q))
      @ [(js ''openingBalanceMinor'', JInt (acOpeningBalanceMinor q)),
         (js ''openingDate'', JStr (acOpeningDate q)),
         (js ''currency'', JStr (acCurrency q)),
         (js ''note'', JStr (acNote q)),
         (js ''cardNumber'', JStr (acCardNumber q))])"

definition createAccountMutation :: "ledger_env \<Rightarrow> AccountCreateRequest \<Rightarrow> LedgerIdempotentResult svc" where
  "createAccountMutation env request =
     bnd (requireSettings env) (\<lambda>settings.
     bnd (assertAccountPair (acType request) (acNature request)) (\<lambda>_.
     bnd (guardE (acCurrency request = setBaseCurrency settings) (LedgerError LCurrencyMismatch 409)) (\<lambda>_.
     bnd (generatedTimestamp env) (\<lambda>timestamp.
     bnd (generatedId env) (\<lambda>i.
     let account =
       \<lparr>accId = i, accName = acName request, accType = acType request, accNature = acNature request,
        accIcon = Some (orElse (acIcon request) (js ''wallet'')),
        accOpeningBalanceMinor = acOpeningBalanceMinor request, accOpeningDate = acOpeningDate request,
        accCurrency = acCurrency request, accNote = acNote request,
        accCardNumber = Some (acCardNumber request), accArchivedAt = None, accVersion = 1,
        accCreatedAt = timestamp, accUpdatedAt = timestamp\<rparr>
     in bnd (writeDb (insertAccount account)) (\<lambda>_.
        bnd (if \<not> setHasCreatedAccount settings
             then changeOne (updateSettings (settings\<lparr>setHasCreatedAccount := True\<rparr>) (setVersion settings))
             else ret ()) (\<lambda>_.
        bnd (toAccountDto env account) (\<lambda>body.
        ret (committed body ''account'' (accId account))))))))))"

definition createAccount :: "ledger_env \<Rightarrow> AccountCreateRequest \<Rightarrow> jsstr \<Rightarrow> LedgerReplayResult svc" where
  "createAccount env request idempotencyKey =
     executeIdempotentLedgerCreate env accountsScope idempotencyKey (accountRequestJson request)
       (createAccountMutation env request)"

definition keysWithin :: "jsobj \<Rightarrow> string list \<Rightarrow> bool" where
  "keysWithin r allowed \<longleftrightarrow> list_all (\<lambda>k. k \<in> set (map js allowed)) (map fst r)"

definition patchAccount :: "ledger_env \<Rightarrow> jsstr \<Rightarrow> jsval \<Rightarrow> jsval svc" where
  "patchAccount env i value = runLedgerWrite env
     (bnd (requireSettings env) (\<lambda>_.
      bnd (requireAccount env i) (\<lambda>account.
      bnd (guardE (accArchivedAt account = None \<or> (case asMutationRecord value of None \<Rightarrow> True
             | Some r \<Rightarrow> keysWithin r [''expectedVersion'', ''name'', ''note''])) archivedAccount) (\<lambda>_.
      bnd (compareRawVersion (asMutationRecord value) (accVersion account)) (\<lambda>_.
      bnd (liftR (parseAccountPatchRequest env value)) (\<lambda>patch.
      bnd (assertExpectedVersion (accVersion account) (apExpectedVersion patch)) (\<lambda>_.
      bnd (readDb (\<lambda>db. Inr (hasAccountHistory i db))) (\<lambda>hasHistory.
      bnd (guardE (\<not> (hasHistory \<and> (apType patch \<noteq> None \<or> apNature patch \<noteq> None
             \<or> apOpeningBalanceMinor patch \<noteq> None \<or> apOpeningDate patch \<noteq> None))) ledgerValidationError) (\<lambda>_.
      let type = orElse (apType patch) (accType account);
          nature = orElse (apNature patch) (accNature account)
      in bnd (assertAccountPair type nature) (\<lambda>_.
      bnd (nextVersion (accVersion account)) (\<lambda>version.
      bnd (generatedTimestamp env) (\<lambda>updatedAt.
      let updated = account
        \<lparr>accName := orElse (apName patch) (accName account),
         accNote := orElse (apNote patch) (accNote account),
         accCardNumber := (if apCardNumber patch = None then accCardNumber account else apCardNumber patch),
         accIcon := (if apIcon patch = None then accIcon account else apIcon patch),
         accType := type, accNature := nature,
         accOpeningBalanceMinor := orElse (apOpeningBalanceMinor patch) (accOpeningBalanceMinor account),
         accOpeningDate := orElse (apOpeningDate patch) (accOpeningDate account),
         accVersion := version, accUpdatedAt := updatedAt\<rparr>
      in bnd (changeOne (updateAccount updated (accVersion account))) (\<lambda>_.
         toAccountDto env updated)))))))))))))"

definition deleteAccountCommand :: "ledger_env \<Rightarrow> jsstr \<Rightarrow> jsval \<Rightarrow> jsval svc" where
  "deleteAccountCommand env i value = runLedgerWrite env
     (bnd (requireSettings env) (\<lambda>_.
      bnd (requireAccount env i) (\<lambda>account.
      bnd (liftR (parseExpectedVersionCommand value)) (\<lambda>expectedVersion.
      bnd (assertExpectedVersion (accVersion account) expectedVersion) (\<lambda>_.
      bnd (readDb (\<lambda>db. Inr (hasAccountHistory i db))) (\<lambda>hasHistory.
      bnd (guardE (\<not> hasHistory) (LedgerError LAccountHasHistory 409)) (\<lambda>_.
      bnd (changeOne (deleteAccount i)) (\<lambda>_.
      ret (deletedResponse i)))))))))"

definition archiveAccount :: "ledger_env \<Rightarrow> jsstr \<Rightarrow> jsval \<Rightarrow> jsval svc" where
  "archiveAccount env i value = runLedgerWrite env
     (bnd (requireSettings env) (\<lambda>_.
      bnd (requireAccount env i) (\<lambda>account.
      bnd (guardE (accArchivedAt account = None) archivedAccount) (\<lambda>_.
      bnd (liftR (parseExpectedVersionCommand value)) (\<lambda>expectedVersion.
      bnd (assertExpectedVersion (accVersion account) expectedVersion) (\<lambda>_.
      bnd (currentBalance env account) (\<lambda>balance.
      bnd (guardE (balance = 0) (LedgerError LAccountNonzeroBalance 409)) (\<lambda>_.
      bnd (generatedTimestamp env) (\<lambda>timestamp.
      bnd (nextVersion (accVersion account)) (\<lambda>version.
      let updated = account\<lparr>accArchivedAt := Some timestamp, accVersion := version, accUpdatedAt := timestamp\<rparr>
      in bnd (changeOne (updateAccount updated (accVersion account))) (\<lambda>_.
         toAccountDto env updated)))))))))))"

definition restoreAccount :: "ledger_env \<Rightarrow> jsstr \<Rightarrow> jsval \<Rightarrow> jsval svc" where
  "restoreAccount env i value = runLedgerWrite env
     (bnd (requireSettings env) (\<lambda>_.
      bnd (requireAccount env i) (\<lambda>account.
      bnd (liftR (parseExpectedVersionCommand value)) (\<lambda>expectedVersion.
      bnd (assertExpectedVersion (accVersion account) expectedVersion) (\<lambda>_.
      if accArchivedAt account = None then toAccountDto env account
      else
        bnd (nextVersion (accVersion account)) (\<lambda>version.
        bnd (generatedTimestamp env) (\<lambda>timestamp.
        let updated = account\<lparr>accArchivedAt := None, accVersion := version, accUpdatedAt := timestamp\<rparr>
        in bnd (changeOne (updateAccount updated (accVersion account))) (\<lambda>_.
           toAccountDto env updated))))))))"

section \<open>Categories\<close>

definition listCategoryDtos :: "ledger_env \<Rightarrow> LedgerCategoryKind option \<Rightarrow> bool \<Rightarrow> jsval list svc" where
  "listCategoryDtos env kind includeArchived =
     bnd (requireSettings env) (\<lambda>_.
     bnd (readDb (listCategories env includeArchived)) (\<lambda>cs.
     ret (map toCategoryDto (filter (\<lambda>c. kind = None \<or> Some (catKind c) = kind) cs))))"

definition categoryRequestJson :: "CategoryCreateRequest \<Rightarrow> jsval" where
  "categoryRequestJson q = JObj
     ([(js ''kind'', JStr (kindText (ccKind q))), (js ''name'', JStr (ccName q))]
      @ optProp ''icon'' (map_option JStr (ccIcon q)))"

definition createCategoryMutation :: "ledger_env \<Rightarrow> CategoryCreateRequest \<Rightarrow> LedgerIdempotentResult svc" where
  "createCategoryMutation env request =
     bnd (requireSettings env) (\<lambda>_.
     let normalizedName = normalizeLedgerCategoryName env (ccName request)
     in bnd (readDb (findCategoryByIdentity env (ccKind request) normalizedName)) (\<lambda>existing.
        bnd (guardE (existing = None) duplicateCategory) (\<lambda>_.
        bnd (generatedTimestamp env) (\<lambda>timestamp.
        bnd (generatedId env) (\<lambda>i.
        let category =
          \<lparr>catId = i, catKind = ccKind request, catName = ccName request,
           catNormalizedName = normalizedName, catSystemKey = None, catIsDefault = False,
           catIcon = (case ccIcon request of None \<Rightarrow> None
              | Some s \<Rightarrow> if s = [] \<or> s = js ''wallet'' then None else Some s),
           catSortOrder = None, catArchivedAt = None, catVersion = 1, catCreatedAt = timestamp,
           catUpdatedAt = timestamp\<rparr>
        in bnd (writeDb (insertCategory category)) (\<lambda>_.
           ret (committed (toCategoryDto category) ''category'' (catId category))))))))"

definition createCategory :: "ledger_env \<Rightarrow> CategoryCreateRequest \<Rightarrow> jsstr \<Rightarrow> LedgerReplayResult svc" where
  "createCategory env request idempotencyKey =
     executeIdempotentLedgerCreate env categoriesScope idempotencyKey (categoryRequestJson request)
       (createCategoryMutation env request)"

definition patchCategory :: "ledger_env \<Rightarrow> jsstr \<Rightarrow> jsval \<Rightarrow> jsval svc" where
  "patchCategory env i value = runLedgerWrite env
     (bnd (requireSettings env) (\<lambda>_.
      bnd (requireCategory env i) (\<lambda>category.
      bnd (guardE (catArchivedAt category = None) archivedCategory) (\<lambda>_.
      bnd (compareRawVersion (asMutationRecord value) (catVersion category)) (\<lambda>_.
      bnd (liftR (parseCategoryPatchRequest value)) (\<lambda>patch.
      bnd (assertExpectedVersion (catVersion category) (cpExpectedVersion patch)) (\<lambda>_.
      bnd (guardE (\<not> (isProtected category \<and> (cpName patch \<noteq> None \<or> cpKind patch \<noteq> None)))
             ledgerValidationError) (\<lambda>_.
      bnd (readDb (\<lambda>db. Inr (hasCategoryHistory i db))) (\<lambda>hasHistory.
      bnd (guardE (\<not> (hasHistory \<and> cpKind patch \<noteq> None)) ledgerValidationError) (\<lambda>_.
      let kind = orElse (cpKind patch) (catKind category);
          name = orElse (cpName patch) (catName category);
          normalizedName = normalizeLedgerCategoryName env name
      in bnd (readDb (findCategoryByIdentity env kind normalizedName)) (\<lambda>existing.
      bnd (guardE (case existing of None \<Rightarrow> True | Some c \<Rightarrow> catId c = catId category) duplicateCategory) (\<lambda>_.
      bnd (nextVersion (catVersion category)) (\<lambda>version.
      bnd (generatedTimestamp env) (\<lambda>updatedAt.
      let updated = category
        \<lparr>catKind := kind, catName := name, catNormalizedName := normalizedName,
         catIcon := (case cpIcon patch of None \<Rightarrow> catIcon category
            | Some s \<Rightarrow> if s = js ''wallet'' then None else Some s),
         catVersion := version, catUpdatedAt := updatedAt\<rparr>
      in bnd (changeOne (updateCategory updated (catVersion category))) (\<lambda>_.
         ret (toCategoryDto updated))))))))))))))))"

definition deleteCategoryCommand :: "ledger_env \<Rightarrow> jsstr \<Rightarrow> jsval \<Rightarrow> jsval svc" where
  "deleteCategoryCommand env i value = runLedgerWrite env
     (bnd (requireSettings env) (\<lambda>_.
      bnd (requireCategory env i) (\<lambda>category.
      bnd (guardE (\<not> isProtected category) ledgerValidationError) (\<lambda>_.
      bnd (liftR (parseExpectedVersionCommand value)) (\<lambda>expectedVersion.
      bnd (assertExpectedVersion (catVersion category) expectedVersion) (\<lambda>_.
      bnd (readDb (\<lambda>db. Inr (hasCategoryHistory i db))) (\<lambda>hasHistory.
      bnd (guardE (\<not> hasHistory) (LedgerError LCategoryHasHistory 409)) (\<lambda>_.
      bnd (changeOne (deleteCategory i)) (\<lambda>_.
      ret (deletedResponse i))))))))))"

definition archiveCategory :: "ledger_env \<Rightarrow> jsstr \<Rightarrow> jsval \<Rightarrow> jsval svc" where
  "archiveCategory env i value = runLedgerWrite env
     (bnd (requireSettings env) (\<lambda>_.
      bnd (requireCategory env i) (\<lambda>category.
      bnd (guardE (\<not> isProtected category) ledgerValidationError) (\<lambda>_.
      bnd (guardE (catArchivedAt category = None) archivedCategory) (\<lambda>_.
      bnd (liftR (parseExpectedVersionCommand value)) (\<lambda>expectedVersion.
      bnd (assertExpectedVersion (catVersion category) expectedVersion) (\<lambda>_.
      bnd (readDb (\<lambda>db. Inr (hasCategoryHistory i db))) (\<lambda>hasHistory.
      bnd (guardE (\<not> hasHistory) (LedgerError LCategoryHasHistory 409)) (\<lambda>_.
      bnd (generatedTimestamp env) (\<lambda>timestamp.
      bnd (nextVersion (catVersion category)) (\<lambda>version.
      let updated = category\<lparr>catArchivedAt := Some timestamp, catVersion := version, catUpdatedAt := timestamp\<rparr>
      in bnd (changeOne (updateCategory updated (catVersion category))) (\<lambda>_.
         ret (toCategoryDto updated)))))))))))))"

definition restoreCategory :: "ledger_env \<Rightarrow> jsstr \<Rightarrow> jsval \<Rightarrow> jsval svc" where
  "restoreCategory env i value = runLedgerWrite env
     (bnd (requireSettings env) (\<lambda>_.
      bnd (requireCategory env i) (\<lambda>category.
      bnd (liftR (parseExpectedVersionCommand value)) (\<lambda>expectedVersion.
      bnd (assertExpectedVersion (catVersion category) expectedVersion) (\<lambda>_.
      if catArchivedAt category = None then ret (toCategoryDto category)
      else
        bnd (nextVersion (catVersion category)) (\<lambda>version.
        bnd (generatedTimestamp env) (\<lambda>timestamp.
        let updated = category\<lparr>catArchivedAt := None, catVersion := version, catUpdatedAt := timestamp\<rparr>
        in bnd (changeOne (updateCategory updated (catVersion category))) (\<lambda>_.
           ret (toCategoryDto updated)))))))))"

end
