(* ===== verification/ServiceTransactions.thy ===== *)
theory ServiceTransactions
  imports ServiceCore
begin

text \<open>
  \<open>server/ledger/service.ts\<close>, second part: creating, patching and deleting transactions, and the
  balance adjustment. A transfer with a fee is a group of two rows, the transfer and a companion
  expense on the paying account; the handlers keep the two together.
\<close>

section \<open>Guards\<close>

definition assertTransactionCurrency :: "LedgerSettings \<Rightarrow> LedgerAccount \<Rightarrow> unit svc" where
  "assertTransactionCurrency settings account =
     guardE (accCurrency account = setBaseCurrency settings) (LedgerError LCurrencyMismatch 409)"

definition openingBoundaryOk :: "ledger_env \<Rightarrow> jsstr \<Rightarrow> int \<Rightarrow> LedgerAccount \<Rightarrow> unit res" where
  "openingBoundaryOk env timezone occurredAt account =
     bindR (openingBoundaryMs env (accOpeningDate account) timezone) (\<lambda>boundary.
     failUnless (\<not> occurredAt < boundary) (LedgerError LOpeningDateConflict 409))"

definition assertTransactionTime ::
    "ledger_env \<Rightarrow> LedgerSettings \<Rightarrow> LedgerAccount list \<Rightarrow> int \<Rightarrow> int \<Rightarrow> unit svc" where
  "assertTransactionTime env settings accounts occurredAt nowMs =
     liftR (bindR (validateOccurredAt env (JInt occurredAt) nowMs) (\<lambda>_.
       allR (map (openingBoundaryOk env (setTimezone settings) occurredAt) accounts)))"

definition assertCandidateCategory :: "ledger_env \<Rightarrow> jsstr \<Rightarrow> LedgerCategoryKind \<Rightarrow> LedgerCategory svc" where
  "assertCandidateCategory env i kind =
     bnd (requireCategory env i) (\<lambda>category.
     bnd (guardE (catArchivedAt category = None) archivedCategory) (\<lambda>_.
     bnd (guardE (catKind category = kind) categoryKindMismatch) (\<lambda>_.
     ret category)))"

definition requireSystemCategory :: "ledger_env \<Rightarrow> LedgerCategorySystemKey \<Rightarrow> LedgerCategory svc" where
  "requireSystemCategory env key =
     bnd (readDb (findCategoryBySystemKey env key)) (\<lambda>c. case c of
       None \<Rightarrow> throw ledgerValidationError
     | Some category \<Rightarrow>
         bnd (guardE (catArchivedAt category = None) ledgerValidationError) (\<lambda>_. ret category))"

text \<open>The companion's payee: the account name with the suffix for interest or for the fee.\<close>

definition companionPayee :: "LedgerTransferKind \<Rightarrow> jsstr \<Rightarrow> jsstr \<Rightarrow> jsstr \<Rightarrow> jsstr" where
  "companionPayee transferKind fromAccountName toAccountName transferPayee =
     (case transferKind of
        Repayment \<Rightarrow> toAccountName @ [36824, 27454, 21033, 24687]
      | Withdrawal \<Rightarrow> fromAccountName @ [25552, 29616, 25163, 32493, 36153]
      | General \<Rightarrow> transferPayee)"

definition transferKindMatches :: "LedgerTransferKind \<Rightarrow> LedgerAccount \<Rightarrow> LedgerAccount \<Rightarrow> bool" where
  "transferKindMatches kind fromAccount toAccount \<longleftrightarrow>
     kind = General
     \<or> (kind = Repayment \<and> accNature fromAccount = Asset \<and> accNature toAccount = Liability)
     \<or> (kind = Withdrawal \<and> accNature fromAccount = Asset \<and> accNature toAccount = Asset)"

definition assertTransferKindAccounts :: "LedgerTransferKind \<Rightarrow> LedgerAccount \<Rightarrow> LedgerAccount \<Rightarrow> unit svc" where
  "assertTransferKindAccounts kind fromAccount toAccount =
     guardE (transferKindMatches kind fromAccount toAccount) ledgerValidationError"

fun transactionAccountIds :: "TransactionBody \<Rightarrow> jsstr list" where
  "transactionAccountIds (Income a _ _) = [a]"
| "transactionAccountIds (Expense a _ _) = [a]"
| "transactionAccountIds (Transfer _ _ f t _) = [f, t]"
| "transactionAccountIds (Adjustment a _ _) = [a]"

definition transactionAccounts :: "ledger_env \<Rightarrow> LedgerTransaction \<Rightarrow> LedgerAccount list svc" where
  "transactionAccounts env t = mapM (requireAccount env) (transactionAccountIds (txBody t))"

definition assertTransactionAccountsNotArchived :: "ledger_env \<Rightarrow> LedgerTransaction \<Rightarrow> unit svc" where
  "assertTransactionAccountsNotArchived env t =
     bnd (transactionAccounts env t) (\<lambda>as. guardE (\<forall>a\<in>set as. accArchivedAt a = None) archivedAccount)"

definition assertArchivedPatchWhitelist :: "ledger_env \<Rightarrow> LedgerTransaction \<Rightarrow> jsobj option \<Rightarrow> unit svc" where
  "assertArchivedPatchWhitelist env t raw =
     bnd (transactionAccounts env t) (\<lambda>as.
     if \<forall>a\<in>set as. accArchivedAt a = None then ret ()
     else guardE (case raw of None \<Rightarrow> False | Some r \<Rightarrow>
        keysWithin r (if txType t = IncomeType \<or> txType t = ExpenseType
          then [''expectedVersion'', ''location'', ''note'', ''payee'']
          else [''expectedVersion'', ''location'', ''note''])) archivedAccount)"

text \<open>A raw account field is refused when it names an archived account.\<close>

fun assertCandidatesNotArchived :: "ledger_env \<Rightarrow> jsobj \<Rightarrow> string list \<Rightarrow> unit svc" where
  "assertCandidatesNotArchived env r [] = ret ()"
| "assertCandidatesNotArchived env r (k # ks) =
     (case getProp r k of
        JStr i \<Rightarrow>
          bnd (readDb (getAccount env i)) (\<lambda>candidate.
          bnd (guardE (case candidate of None \<Rightarrow> True | Some a \<Rightarrow> accArchivedAt a = None) archivedAccount) (\<lambda>_.
          assertCandidatesNotArchived env r ks))
      | _ \<Rightarrow> assertCandidatesNotArchived env r ks)"

definition assertCandidateAccountsNotArchived :: "ledger_env \<Rightarrow> LedgerTransaction \<Rightarrow> jsobj option \<Rightarrow> unit svc" where
  "assertCandidateAccountsNotArchived env t raw = (case raw of None \<Rightarrow> ret ()
     | Some r \<Rightarrow> assertCandidatesNotArchived env r
         (if txType t = TransferType then [''fromAccountId'', ''toAccountId''] else [''accountId'']))"

definition assertPatchFields :: "LedgerTransaction \<Rightarrow> TransactionPatchRequest \<Rightarrow> unit res" where
  "assertPatchFields t p = (case txType t of
       TransferType \<Rightarrow> failUnless (tpAccountId p = None \<and> tpCategoryId p = None \<and> tpCalculated p = None
         \<and> tpTarget p = None) ledgerValidationError
     | AdjustmentType \<Rightarrow> failUnless (tpTransferKind p = None \<and> tpAmountMinor p = None \<and> tpAccountId p = None
         \<and> tpFromAccountId p = None \<and> tpToAccountId p = None \<and> tpCategoryId p = None \<and> tpOccurredAt p = None
         \<and> tpPayee p = None \<and> tpFeeMinor p = None \<and> tpFeeMode p = None \<and> tpCalculated p = None
         \<and> tpTarget p = None) (LedgerError LAdjustmentImmutable 409)
     | _ \<Rightarrow> failUnless (tpTransferKind p = None \<and> tpFromAccountId p = None \<and> tpToAccountId p = None
         \<and> tpFeeMinor p = None \<and> tpFeeMode p = None \<and> tpCalculated p = None \<and> tpTarget p = None)
         ledgerValidationError)"

text \<open>Grouped companion expenses are internal: they are not found by their own id.\<close>

definition requireUserTransaction :: "ledger_env \<Rightarrow> jsstr \<Rightarrow> LedgerTransaction svc" where
  "requireUserTransaction env i =
     bnd (readDb (getTransaction env i)) (\<lambda>x. case x of
       None \<Rightarrow> throw notFound
     | Some t \<Rightarrow> bnd (guardE (\<not> (txType t = ExpenseType \<and> txGroupId t \<noteq> None)) notFound) (\<lambda>_. ret t))"

definition getTransactionDto :: "ledger_env \<Rightarrow> jsstr \<Rightarrow> jsval svc" where
  "getTransactionDto env i =
     bnd (requireSettings env) (\<lambda>_. bnd (requireUserTransaction env i) (\<lambda>t. ret (toTransactionDto t)))"

section \<open>Create\<close>

definition newTransaction ::
    "jsstr \<Rightarrow> jsstr option \<Rightarrow> int \<Rightarrow> int \<Rightarrow> jsstr \<Rightarrow> jsstr \<Rightarrow> int \<Rightarrow> TransactionBody \<Rightarrow> LedgerTransaction" where
  "newTransaction i groupId amount occurredAt location note timestamp body =
     \<lparr>txId = i, txGroupId = groupId, txAmountMinor = amount, txOccurredAt = occurredAt,
      txLocation = location, txNote = note, txDeletedAt = None, txVersion = 1,
      txCreatedAt = timestamp, txUpdatedAt = timestamp, txBody = body\<rparr>"

definition createEntry ::
    "ledger_env \<Rightarrow> LedgerSettings \<Rightarrow> int \<Rightarrow> LedgerCategoryKind \<Rightarrow> EntryRequest \<Rightarrow> LedgerIdempotentResult svc" where
  "createEntry env settings timestamp kind q =
     bnd (requireActiveAccount env (rqAccountId q)) (\<lambda>account.
     bnd (assertCandidateCategory env (rqCategoryId q) kind) (\<lambda>category.
     bnd (assertTransactionCurrency settings account) (\<lambda>_.
     bnd (assertTransactionTime env settings [account] (rqOccurredAt q) timestamp) (\<lambda>_.
     bnd (generatedId env) (\<lambda>i.
     let t = newTransaction i None (rqAmountMinor q) (rqOccurredAt q) (rqLocation q) (rqNote q) timestamp
       (if kind = IncomeKind then Income (accId account) (catId category) (rqPayee q)
        else Expense (accId account) (catId category) (rqPayee q))
     in bnd (writeDb (insertTransaction t)) (\<lambda>_.
        ret (committed (toTransactionDto t) ''transaction'' (txId t))))))))"

text \<open>The fee of a new transfer: its mode and the amount the transfer itself moves.\<close>

definition transferFee ::
    "LedgerTransferKind \<Rightarrow> int \<Rightarrow> int \<Rightarrow> LedgerTransferFeeMode option \<Rightarrow> (int \<times> LedgerTransferFeeMode option) res" where
  "transferFee kind amountMinor feeMinor feeMode =
     (if feeMinor > 0 \<and> kind = Repayment then
        bindR (failUnless (feeMode = None) ledgerValidationError) (\<lambda>_. Inr (amountMinor, None))
      else if feeMinor > 0 \<and> kind = Withdrawal then
        (let mode = orElse feeMode Extra
         in if mode = Deducted then
              bindR (checkedSubMinor amountMinor feeMinor) (\<lambda>transferAmountMinor.
              bindR (assertPositiveMinor (JInt transferAmountMinor)) (\<lambda>_.
              Inr (transferAmountMinor, Some mode)))
            else Inr (amountMinor, Some mode))
      else Inr (amountMinor, None))"

definition systemKeyFor :: "LedgerTransferKind \<Rightarrow> LedgerCategorySystemKey" where
  "systemKeyFor kind = (if kind = Repayment then InterestKey else FeeKey)"

definition createTransfer ::
    "ledger_env \<Rightarrow> LedgerSettings \<Rightarrow> int \<Rightarrow> TransferRequest \<Rightarrow> LedgerIdempotentResult svc" where
  "createTransfer env settings timestamp q =
     bnd (guardE (tqFromAccountId q \<noteq> tqToAccountId q) ledgerValidationError) (\<lambda>_.
     bnd (requireActiveAccount env (tqFromAccountId q)) (\<lambda>fromAccount.
     bnd (requireActiveAccount env (tqToAccountId q)) (\<lambda>toAccount.
     let transferKind = orElse (tqTransferKind q) General; feeMinor = orElse (tqFeeMinor q) 0
     in bnd (assertTransferKindAccounts transferKind fromAccount toAccount) (\<lambda>_.
     bnd (assertTransactionCurrency settings fromAccount) (\<lambda>_.
     bnd (assertTransactionCurrency settings toAccount) (\<lambda>_.
     bnd (assertTransactionTime env settings [fromAccount, toAccount] (tqOccurredAt q) timestamp) (\<lambda>_.
     bnd (liftR (assertNonNegativeSafeInteger (JInt feeMinor))) (\<lambda>_.
     bnd (guardE (\<not> (feeMinor = 0 \<and> tqFeeMode q \<noteq> None)) ledgerValidationError) (\<lambda>_.
     bnd (guardE (\<not> (feeMinor > 0 \<and> transferKind = General)) ledgerValidationError) (\<lambda>_.
     bnd (if feeMinor > 0 then bnd (requireSystemCategory env (systemKeyFor transferKind)) (\<lambda>c. ret (Some c))
          else ret None) (\<lambda>feeCategory.
     bnd (liftR (transferFee transferKind (tqAmountMinor q) feeMinor (tqFeeMode q))) (\<lambda>(transferAmountMinor, feeMode).
     bnd (if feeMinor > 0 then bnd (generatedId env) (\<lambda>g. ret (Some g)) else ret None) (\<lambda>groupId.
     bnd (generatedId env) (\<lambda>i.
     let t = newTransaction i groupId transferAmountMinor (tqOccurredAt q) (tqLocation q) (tqNote q) timestamp
       (Transfer transferKind feeMode (accId fromAccount) (accId toAccount) (tqPayee q))
     in bnd (writeDb (insertTransaction t)) (\<lambda>_.
     bnd (case (feeCategory, groupId) of
         (Some category, Some g) \<Rightarrow>
           bnd (generatedId env) (\<lambda>feeId.
           writeDb (insertTransaction (newTransaction feeId (Some g) feeMinor (tqOccurredAt q)
             (tqLocation q) (tqNote q) timestamp
             (Expense (accId fromAccount) (catId category)
               (companionPayee transferKind (accName fromAccount) (accName toAccount) (tqPayee q))))))
       | _ \<Rightarrow> ret ()) (\<lambda>_.
     ret (committed (toTransactionDto t) ''transaction'' (txId t))))))))))))))))))"

definition createTransactionMutation ::
    "ledger_env \<Rightarrow> TransactionCreateRequest \<Rightarrow> LedgerIdempotentResult svc" where
  "createTransactionMutation env request =
     bnd (requireSettings env) (\<lambda>settings.
     bnd (generatedTimestamp env) (\<lambda>timestamp.
     case request of
       CreateIncome q \<Rightarrow> createEntry env settings timestamp IncomeKind q
     | CreateExpense q \<Rightarrow> createEntry env settings timestamp ExpenseKind q
     | CreateTransfer q \<Rightarrow> createTransfer env settings timestamp q
     | CreateAdjustment _ _ \<Rightarrow> throw ledgerValidationError))"

definition adjustmentRequestJson :: "AdjustmentRequest \<Rightarrow> jsobj" where
  "adjustmentRequestJson q =
     [(js ''targetBalanceMinor'', JInt (aqTargetBalanceMinor q)),
      (js ''expectedCalculatedBalanceMinor'', JInt (aqExpectedCalculatedBalanceMinor q)),
      (js ''occurredAt'', JInt (aqOccurredAt q)),
      (js ''note'', JStr (aqNote q))]"

definition entryRequestJson :: "LedgerTransactionType \<Rightarrow> EntryRequest \<Rightarrow> jsval" where
  "entryRequestJson type q = JObj
     [(js ''type'', JStr (transactionTypeText type)),
      (js ''amountMinor'', JInt (rqAmountMinor q)),
      (js ''accountId'', JStr (rqAccountId q)),
      (js ''categoryId'', JStr (rqCategoryId q)),
      (js ''occurredAt'', JInt (rqOccurredAt q)),
      (js ''location'', JStr (rqLocation q)),
      (js ''payee'', JStr (rqPayee q)),
      (js ''note'', JStr (rqNote q))]"

fun transactionRequestJson :: "TransactionCreateRequest \<Rightarrow> jsval" where
  "transactionRequestJson (CreateIncome q) = entryRequestJson IncomeType q"
| "transactionRequestJson (CreateExpense q) = entryRequestJson ExpenseType q"
| "transactionRequestJson (CreateTransfer q) = JObj
     ([(js ''type'', JStr (transactionTypeText TransferType))]
      @ optProp ''transferKind'' (map_option (\<lambda>k. JStr (transferKindText k)) (tqTransferKind q))
      @ [(js ''amountMinor'', JInt (tqAmountMinor q))]
      @ optProp ''feeMinor'' (map_option JInt (tqFeeMinor q))
      @ optProp ''feeMode'' (map_option (\<lambda>m. JStr (feeModeText m)) (tqFeeMode q))
      @ [(js ''fromAccountId'', JStr (tqFromAccountId q)),
         (js ''toAccountId'', JStr (tqToAccountId q)),
         (js ''occurredAt'', JInt (tqOccurredAt q)),
         (js ''location'', JStr (tqLocation q)),
         (js ''payee'', JStr (tqPayee q)),
         (js ''note'', JStr (tqNote q))])"
| "transactionRequestJson (CreateAdjustment a q) = JObj
     ([(js ''type'', JStr (transactionTypeText AdjustmentType)), (js ''accountId'', JStr a)]
      @ adjustmentRequestJson q)"

definition createTransaction ::
    "ledger_env \<Rightarrow> TransactionCreateRequest \<Rightarrow> jsstr \<Rightarrow> LedgerReplayResult svc" where
  "createTransaction env request idempotencyKey =
     (case request of
        CreateAdjustment _ _ \<Rightarrow> throw ledgerValidationError
      | _ \<Rightarrow> executeIdempotentLedgerCreate env transactionsScope idempotencyKey
          (transactionRequestJson request) (createTransactionMutation env request))"

section \<open>Patch\<close>

definition updateOne :: "LedgerTransaction \<Rightarrow> int \<Rightarrow> unit svc" where
  "updateOne t expectedVersion = changeOne (updateTransaction t expectedVersion)"

text \<open>The income and the expense branch are the same code with the kind exchanged.\<close>

definition patchEntry ::
    "ledger_env \<Rightarrow> LedgerSettings \<Rightarrow> int \<Rightarrow> LedgerCategoryKind \<Rightarrow> LedgerTransaction \<Rightarrow> jsstr \<Rightarrow> jsstr \<Rightarrow> jsstr \<Rightarrow>
     TransactionPatchRequest \<Rightarrow> jsval svc" where
  "patchEntry env settings timestamp kind t oldAccount oldCategory oldPayee p =
     bnd (case tpAccountId p of Some i \<Rightarrow> requireActiveAccount env i | None \<Rightarrow> requireAccount env oldAccount) (\<lambda>account.
     bnd (case tpCategoryId p of Some i \<Rightarrow> assertCandidateCategory env i kind
          | None \<Rightarrow> requireCategory env oldCategory) (\<lambda>category.
     bnd (guardE (catKind category = kind) categoryKindMismatch) (\<lambda>_.
     bnd (assertTransactionCurrency settings account) (\<lambda>_.
     let occurredAt = orElse (tpOccurredAt p) (txOccurredAt t)
     in bnd (assertTransactionTime env settings [account] occurredAt timestamp) (\<lambda>_.
     bnd (nextVersion (txVersion t)) (\<lambda>version.
     let payee = orElse (tpPayee p) oldPayee;
         updated = t
           \<lparr>txAmountMinor := orElse (tpAmountMinor p) (txAmountMinor t), txOccurredAt := occurredAt,
            txLocation := orElse (tpLocation p) (txLocation t), txNote := orElse (tpNote p) (txNote t),
            txVersion := version, txUpdatedAt := timestamp,
            txBody := (if kind = IncomeKind then Income (accId account) (catId category) payee
                       else Expense (accId account) (catId category) payee)\<rparr>
     in bnd (updateOne updated (txVersion t)) (\<lambda>_.
        ret (toTransactionDto updated))))))))"

text \<open>The companion state a transfer patch starts from: the one active fee of the group, if any.\<close>

definition isActiveGroupExpense :: "LedgerTransaction \<Rightarrow> bool" where
  "isActiveGroupExpense t \<longleftrightarrow> txType t = ExpenseType \<and> txDeletedAt t = None"

definition existingFee :: "ledger_env \<Rightarrow> LedgerTransaction \<Rightarrow> LedgerTransaction option svc" where
  "existingFee env t = (case txGroupId t of
       None \<Rightarrow> ret None
     | Some g \<Rightarrow>
         bnd (readDb (listTransactionsByGroupId env g True)) (\<lambda>groupTransactions.
         let activeGroupExpenses = filter isActiveGroupExpense groupTransactions
         in bnd (guardE (length activeGroupExpenses = 1
               \<and> \<not> list_ex (\<lambda>x. txType x = ExpenseType \<and> txDeletedAt x \<noteq> None) groupTransactions)
               ledgerValidationError) (\<lambda>_.
            ret (Some (hd activeGroupExpenses)))))"

definition patchFeeMode ::
    "LedgerTransferKind \<Rightarrow> int \<Rightarrow> LedgerTransferFeeMode option \<Rightarrow> LedgerTransferFeeMode option \<Rightarrow>
     LedgerTransferFeeMode option res" where
  "patchFeeMode kind feeMinor patchMode oldMode =
     (if feeMinor > 0 \<and> kind = Repayment then
        bindR (failUnless (patchMode = None) ledgerValidationError) (\<lambda>_. Inr None)
      else if feeMinor > 0 \<and> kind = Withdrawal then Inr (Some (orElse patchMode (orElse oldMode Extra)))
      else Inr None)"

definition patchTransferAmount ::
    "LedgerTransaction \<Rightarrow> LedgerTransferKind \<Rightarrow> LedgerTransferFeeMode option \<Rightarrow> LedgerTransaction option \<Rightarrow>
     int option \<Rightarrow> LedgerTransferKind \<Rightarrow> int \<Rightarrow> LedgerTransferFeeMode option \<Rightarrow> int res" where
  "patchTransferAmount t oldKind oldMode fee patchAmount kind feeMinor feeMode =
     bindR (case patchAmount of
         Some a \<Rightarrow> Inr a
       | None \<Rightarrow> (case fee of
             Some f \<Rightarrow> if oldKind = Withdrawal \<and> oldMode = Some Deducted
               then checkedAddMinor (txAmountMinor t) (txAmountMinor f) else Inr (txAmountMinor t)
           | None \<Rightarrow> Inr (txAmountMinor t))) (\<lambda>requestedAmountMinor.
     if feeMinor > 0 \<and> kind = Withdrawal \<and> feeMode = Some Deducted then
       bindR (checkedSubMinor requestedAmountMinor feeMinor) (\<lambda>amount.
       bindR (assertPositiveMinor (JInt amount)) (\<lambda>_. Inr amount))
     else Inr requestedAmountMinor)"

definition patchCompanion ::
    "ledger_env \<Rightarrow> int \<Rightarrow> LedgerTransaction option \<Rightarrow> LedgerTransaction \<Rightarrow> int \<Rightarrow> LedgerCategory option \<Rightarrow>
     LedgerAccount \<Rightarrow> LedgerAccount \<Rightarrow> LedgerTransferKind \<Rightarrow> jsstr \<Rightarrow> bool \<Rightarrow> unit svc" where
  "patchCompanion env timestamp fee updated feeMinor feeCategory fromAccount toAccount kind payee identityChanged =
     (case (feeCategory, txGroupId updated) of
        (Some category, Some g) \<Rightarrow>
          (let freshPayee = companionPayee kind (accName fromAccount) (accName toAccount) payee
           in case fee of
             Some f \<Rightarrow>
               bnd (nextVersion (txVersion f)) (\<lambda>version.
               updateOne (f\<lparr>txGroupId := Some g, txAmountMinor := feeMinor,
                   txOccurredAt := txOccurredAt updated, txLocation := txLocation updated,
                   txNote := txNote updated, txVersion := version, txUpdatedAt := timestamp,
                   txBody := Expense (accId fromAccount) (catId category)
                     (if identityChanged then freshPayee else bodyPayee (txBody f))\<rparr>) (txVersion f))
           | None \<Rightarrow>
               bnd (generatedId env) (\<lambda>i.
               writeDb (insertTransaction (newTransaction i (Some g) feeMinor (txOccurredAt updated)
                 (txLocation updated) (txNote updated) timestamp
                 (Expense (accId fromAccount) (catId category) freshPayee)))))
      | _ \<Rightarrow>
          (case fee of
             None \<Rightarrow> ret ()
           | Some f \<Rightarrow>
               bnd (nextVersion (txVersion f)) (\<lambda>version.
               changeOne (softDeleteTransaction (txId f) timestamp version timestamp (txVersion f)))))"

definition patchTransfer ::
    "ledger_env \<Rightarrow> LedgerSettings \<Rightarrow> int \<Rightarrow> LedgerTransaction \<Rightarrow> LedgerTransferKind \<Rightarrow> LedgerTransferFeeMode option \<Rightarrow>
     jsstr \<Rightarrow> jsstr \<Rightarrow> jsstr \<Rightarrow> TransactionPatchRequest \<Rightarrow> jsval svc" where
  "patchTransfer env settings timestamp t oldKind oldMode oldFrom oldTo oldPayee p =
     bnd (guardE (orElse (tpFromAccountId p) oldFrom \<noteq> orElse (tpToAccountId p) oldTo) ledgerValidationError) (\<lambda>_.
     bnd (case tpFromAccountId p of Some i \<Rightarrow> requireActiveAccount env i | None \<Rightarrow> requireAccount env oldFrom) (\<lambda>fromAccount.
     bnd (case tpToAccountId p of Some i \<Rightarrow> requireActiveAccount env i | None \<Rightarrow> requireAccount env oldTo) (\<lambda>toAccount.
     let kind = orElse (tpTransferKind p) oldKind;
         occurredAt = orElse (tpOccurredAt p) (txOccurredAt t)
     in bnd (assertTransferKindAccounts kind fromAccount toAccount) (\<lambda>_.
     bnd (assertTransactionCurrency settings fromAccount) (\<lambda>_.
     bnd (assertTransactionCurrency settings toAccount) (\<lambda>_.
     bnd (assertTransactionTime env settings [fromAccount, toAccount] occurredAt timestamp) (\<lambda>_.
     bnd (existingFee env t) (\<lambda>fee.
     bnd (liftR (case tpFeeMinor p of None \<Rightarrow> Inr 0 | Some f \<Rightarrow> assertNonNegativeSafeInteger (JInt f))) (\<lambda>_.
     bnd (guardE (\<not> (tpFeeMode p \<noteq> None \<and> tpFeeMinor p = None \<and> fee = None)) ledgerValidationError) (\<lambda>_.
     let feeMinor = (case tpFeeMinor p of Some f \<Rightarrow> f
           | None \<Rightarrow> (case fee of Some f \<Rightarrow> txAmountMinor f | None \<Rightarrow> 0))
     in bnd (guardE (\<not> (feeMinor = 0 \<and> tpFeeMode p \<noteq> None)) ledgerValidationError) (\<lambda>_.
     bnd (guardE (\<not> (feeMinor > 0 \<and> kind = General)) ledgerValidationError) (\<lambda>_.
     bnd (if feeMinor > 0 then bnd (requireSystemCategory env (systemKeyFor kind)) (\<lambda>c. ret (Some c))
          else ret None) (\<lambda>feeCategory.
     bnd (liftR (patchFeeMode kind feeMinor (tpFeeMode p) oldMode)) (\<lambda>feeMode.
     bnd (liftR (patchTransferAmount t oldKind oldMode fee (tpAmountMinor p) kind feeMinor feeMode)) (\<lambda>amount.
     bnd (if feeMinor > 0
          then (case txGroupId t of Some g \<Rightarrow> ret (Some g) | None \<Rightarrow> bnd (generatedId env) (\<lambda>g. ret (Some g)))
          else ret None) (\<lambda>nextGroupId.
     bnd (nextVersion (txVersion t)) (\<lambda>version.
     let payee = orElse (tpPayee p) oldPayee;
         updated = t
           \<lparr>txGroupId := nextGroupId, txAmountMinor := amount, txOccurredAt := occurredAt,
            txLocation := orElse (tpLocation p) (txLocation t), txNote := orElse (tpNote p) (txNote t),
            txVersion := version, txUpdatedAt := timestamp,
            txBody := Transfer kind feeMode (accId fromAccount) (accId toAccount) payee\<rparr>
     in bnd (updateOne updated (txVersion t)) (\<lambda>_.
     bnd (patchCompanion env timestamp fee updated feeMinor feeCategory fromAccount toAccount kind payee
            (kind \<noteq> oldKind \<or> accId fromAccount \<noteq> oldFrom \<or> accId toAccount \<noteq> oldTo)) (\<lambda>_.
     ret (toTransactionDto updated))))))))))))))))))))"

definition patchAdjustment ::
    "ledger_env \<Rightarrow> LedgerSettings \<Rightarrow> int \<Rightarrow> LedgerTransaction \<Rightarrow> jsstr \<Rightarrow> TransactionPatchRequest \<Rightarrow> jsval svc" where
  "patchAdjustment env settings timestamp t accountId p =
     bnd (requireAccount env accountId) (\<lambda>account.
     bnd (assertTransactionCurrency settings account) (\<lambda>_.
     bnd (assertTransactionTime env settings [account] (txOccurredAt t) timestamp) (\<lambda>_.
     bnd (nextVersion (txVersion t)) (\<lambda>version.
     let updated = t
           \<lparr>txLocation := orElse (tpLocation p) (txLocation t), txNote := orElse (tpNote p) (txNote t),
            txVersion := version, txUpdatedAt := timestamp\<rparr>
     in bnd (updateOne updated (txVersion t)) (\<lambda>_.
        ret (toTransactionDto updated))))))"

definition patchTransaction :: "ledger_env \<Rightarrow> jsstr \<Rightarrow> jsval \<Rightarrow> jsval svc" where
  "patchTransaction env i value = runLedgerWrite env
     (bnd (requireSettings env) (\<lambda>settings.
      bnd (requireUserTransaction env i) (\<lambda>t.
      bnd (guardE (txDeletedAt t = None) (LedgerError LTransactionDeleted 409)) (\<lambda>_.
      bnd (assertArchivedPatchWhitelist env t (asMutationRecord value)) (\<lambda>_.
      bnd (assertCandidateAccountsNotArchived env t (asMutationRecord value)) (\<lambda>_.
      bnd (compareRawVersion (asMutationRecord value) (txVersion t)) (\<lambda>_.
      bnd (liftR (parseTransactionPatchRequest env value)) (\<lambda>p.
      bnd (assertExpectedVersion (txVersion t) (tpExpectedVersion p)) (\<lambda>_.
      bnd (guardE (tpType p = None \<or> tpType p = Some (txType t)) (LedgerError LTransactionTypeImmutable 409)) (\<lambda>_.
      bnd (guardE (\<not> (txType t = AdjustmentType \<and> tpType p \<noteq> None)) (LedgerError LAdjustmentImmutable 409)) (\<lambda>_.
      bnd (liftR (assertPatchFields t p)) (\<lambda>_.
      bnd (generatedTimestamp env) (\<lambda>timestamp.
      case txBody t of
        Income a c payee \<Rightarrow> patchEntry env settings timestamp IncomeKind t a c payee p
      | Expense a c payee \<Rightarrow> patchEntry env settings timestamp ExpenseKind t a c payee p
      | Transfer k m f to payee \<Rightarrow> patchTransfer env settings timestamp t k m f to payee p
      | Adjustment a _ _ \<Rightarrow> patchAdjustment env settings timestamp t a p)))))))))))))"

section \<open>Delete\<close>

fun softDeleteItems :: "jsstr \<Rightarrow> int \<Rightarrow> int \<Rightarrow> LedgerTransaction list \<Rightarrow> LedgerTransaction option \<Rightarrow>
    LedgerTransaction option svc" where
  "softDeleteItems targetId targetVersion timestamp [] returned = ret returned"
| "softDeleteItems targetId targetVersion timestamp (item # items) returned =
     (if txDeletedAt item \<noteq> None then softDeleteItems targetId targetVersion timestamp items returned
      else
        bnd (nextVersion (txVersion item)) (\<lambda>version.
        bnd (changeOne (softDeleteTransaction (txId item) timestamp version timestamp
               (if txId item = targetId then targetVersion else txVersion item))) (\<lambda>_.
        softDeleteItems targetId targetVersion timestamp items
          (if txId item = targetId
           then Some (item\<lparr>txDeletedAt := Some timestamp, txVersion := version, txUpdatedAt := timestamp\<rparr>)
           else returned))))"

fun eachSvc :: "('a \<Rightarrow> unit svc) \<Rightarrow> 'a list \<Rightarrow> unit svc" where
  "eachSvc f [] = ret ()"
| "eachSvc f (x # xs) = bnd (f x) (\<lambda>_. eachSvc f xs)"

definition deleteTransaction :: "ledger_env \<Rightarrow> jsstr \<Rightarrow> jsval \<Rightarrow> jsval svc" where
  "deleteTransaction env i value = runLedgerWrite env
     (bnd (requireSettings env) (\<lambda>_.
      bnd (requireUserTransaction env i) (\<lambda>t.
      if txDeletedAt t \<noteq> None then
        bnd (liftR (parseExpectedVersionCommand value)) (\<lambda>_. ret (toTransactionDto t))
      else
        bnd (case txGroupId t of
            Some g \<Rightarrow> readDb (listTransactionsByGroupId env g True)
          | None \<Rightarrow> ret [t]) (\<lambda>groupTransactions.
        bnd (requireSome (find (\<lambda>x. txId x = txId t) groupTransactions)) (\<lambda>deleted.
        bnd (eachSvc (\<lambda>item. if txDeletedAt item = None then assertTransactionAccountsNotArchived env item
               else ret ()) groupTransactions) (\<lambda>_.
        bnd (liftR (parseExpectedVersionCommand value)) (\<lambda>expectedVersion.
        bnd (assertExpectedVersion (txVersion t) expectedVersion) (\<lambda>_.
        bnd (generatedTimestamp env) (\<lambda>timestamp.
        bnd (softDeleteItems (txId t) (txVersion t) timestamp groupTransactions None) (\<lambda>returned.
        ret (toTransactionDto (orElse returned deleted))))))))))))"

section \<open>Adjust\<close>

definition adjustAccountMutation :: "ledger_env \<Rightarrow> jsstr \<Rightarrow> AdjustmentRequest \<Rightarrow> LedgerIdempotentResult svc" where
  "adjustAccountMutation env i request =
     bnd (requireSettings env) (\<lambda>settings.
     bnd (requireActiveAccount env i) (\<lambda>account.
     bnd (assertTransactionCurrency settings account) (\<lambda>_.
     bnd (generatedTimestamp env) (\<lambda>timestamp.
     bnd (assertTransactionTime env settings [account] (aqOccurredAt request) timestamp) (\<lambda>_.
     bnd (currentBalance env account) (\<lambda>actual.
     bnd (guardE (actual = aqExpectedCalculatedBalanceMinor request) (LedgerError LBalanceConflict 409)) (\<lambda>_.
     bnd (liftR (checkedSubMinor (aqTargetBalanceMinor request) actual)) (\<lambda>delta.
     if delta = 0 then
       bnd (toAccountDto env account) (\<lambda>body.
       ret \<lparr>irResultStatus = NoOp, irResponseStatus = 200,
         irResponseBody = JObj [(js ''adjustment'', JNull), (js ''account'', body), (js ''noOp'', JBool True)],
         irResultType = None, irResultId = None\<rparr>)
     else
       bnd (generatedId env) (\<lambda>adjustmentId.
       let adjustment = newTransaction adjustmentId None delta (aqOccurredAt request) [] (aqNote request)
             timestamp (Adjustment (accId account) actual (aqTargetBalanceMinor request))
       in bnd (writeDb (insertTransaction adjustment)) (\<lambda>_.
          bnd (toAccountDto env account) (\<lambda>body.
          ret (committed (JObj [(js ''adjustment'', toTransactionDto adjustment), (js ''account'', body),
                (js ''noOp'', JBool False)]) ''transaction'' adjustmentId))))))))))))"

definition adjustAccount :: "ledger_env \<Rightarrow> jsstr \<Rightarrow> AdjustmentRequest \<Rightarrow> jsstr \<Rightarrow> LedgerReplayResult svc" where
  "adjustAccount env i request idempotencyKey =
     executeIdempotentLedgerCreate env (ledgerAccountAdjustmentOperationScope i) idempotencyKey
       (JObj (adjustmentRequestJson request)) (adjustAccountMutation env i request)"

end
