(* ===== verification/Projections.thy ===== *)
theory Projections
  imports ServiceTransactions "HOL-Library.AList"
begin

text \<open>
  \<open>server/ledger/projections.ts\<close>: the read models of the ledger, composed from repository reads and
  checked arithmetic. \<open>transactionPage\<close> is the paged listing, \<open>getAccountTransactions\<close> an account with
  its movement and running balances, \<open>getAccountBalanceTrend\<close> its balance at the end of chosen days,
  \<open>getOverview\<close> and \<open>getTrend\<close> the totals by account, category and period. The object types of
  \<open>shared/ledgerProtocol.ts\<close> are records; the functions named \<open>\<dots>Json\<close> write them as the response does.
\<close>

section \<open>The response types\<close>

record LedgerCashflowSummary =
  cfIncomeMinor :: int
  cfExpenseMinor :: int
  cfBalanceMinor :: int

record LedgerCategorySlice =
  slCategoryId :: jsstr
  slName :: jsstr
  slKind :: LedgerCategoryKind
  slAmountMinor :: int

record LedgerMovementSummary =
  mvBalanceIncreaseMinor :: int
  mvBalanceDecreaseMinor :: int

record LedgerAccountBalanceTrendPoint =
  btDate :: jsstr
  btTimestamp :: int
  btBalanceMinor :: int

record LedgerPeriodSummary = LedgerCashflowSummary +
  psPeriod :: LedgerPeriodName
  psStartAt :: int
  psEndAt :: int

record LedgerTrendPoint = LedgerCashflowSummary +
  trMonth :: jsstr
  trStartAt :: int
  trEndAt :: int

record LedgerPageInfo =
  pgNextCursor :: "jsstr option"
  pgSummary :: "LedgerTransactionQuerySummary option"

record ProjectedTransactionPage =
  ppRows :: "LedgerTransaction list"
  ppPage :: LedgerPageInfo

record LedgerAccountTransactionsDto =
  atAccount :: jsobj
  atMovement :: LedgerMovementSummary
  atTransactions :: "jsval list"
  atTransactionBalances :: "(jsstr \<times> int) list"
  atPage :: LedgerPageInfo

record LedgerOverviewDto =
  ovAnchorDate :: jsstr
  ovTodayDate :: jsstr
  ovScope :: OverviewScope
  ovCurrency :: jsstr
  ovCurrencyExponent :: nat
  ovAssetTotalMinor :: int
  ovLiabilityTotalMinor :: int
  ovNetWorthMinor :: int
  ovAccounts :: "(jsobj \<times> LedgerMovementSummary) list"
  ovCashflow :: LedgerCashflowSummary
  ovIncomeSlices :: "LedgerCategorySlice list"
  ovExpenseSlices :: "LedgerCategorySlice list"
  ovPeriods :: "LedgerPeriodSummary list"
  ovTrend :: "LedgerTrendPoint list"
  ovRecentTransactions :: "jsval list"

section \<open>Pure projections\<close>

definition projectionInvariant :: "'a res" where
  "projectionInvariant = Inl InternalError"

text \<open>\<open>transactionDto\<close> builds, field by field, the object of the service.\<close>

definition transactionDto :: "LedgerTransaction \<Rightarrow> jsval" where
  "transactionDto t = toTransactionDto t"

definition accountDto :: "LedgerAccount \<Rightarrow> int \<Rightarrow> jsobj res" where
  "accountDto a currentBalanceMinor =
     bindR (currencyExponentFor (JStr (accCurrency a))) (\<lambda>exponent.
     Inr ([(js ''id'', JStr (accId a)),
           (js ''name'', JStr (accName a)),
           (js ''type'', JStr (accountTypeText (accType a))),
           (js ''nature'', JStr (natureText (accNature a)))]
          @ optProp ''icon'' (shownIcon (accIcon a))
          @ [(js ''openingBalanceMinor'', JInt (accOpeningBalanceMinor a)),
             (js ''openingDate'', JStr (accOpeningDate a)),
             (js ''currency'', JStr (accCurrency a)),
             (js ''currencyExponent'', JInt (int exponent)),
             (js ''note'', JStr (accNote a))]
          @ optProp ''cardNumber'' (truthyText (accCardNumber a))
          @ [(js ''archivedAt'', optInt (accArchivedAt a)),
             (js ''version'', JInt (accVersion a)),
             (js ''createdAt'', JInt (accCreatedAt a)),
             (js ''updatedAt'', JInt (accUpdatedAt a)),
             (js ''currentBalanceMinor'', JInt currentBalanceMinor)]))"

definition isWithinRange :: "int \<Rightarrow> 'a LedgerTimeRange_scheme \<Rightarrow> bool" where
  "isWithinRange value window \<longleftrightarrow> startMs window \<le> value \<and> value < endMs window"

definition exclusiveInstant :: "ledger_env \<Rightarrow> int \<Rightarrow> int res" where
  "exclusiveInstant env instantMs = assertUtcMilliseconds env (JInt (dround (instantMs + 1)))"

definition amountsOf :: "LedgerTransactionType \<Rightarrow> LedgerTransaction list \<Rightarrow> int list" where
  "amountsOf ty ts = map txAmountMinor (filter (\<lambda>t. txType t = ty) ts)"

definition cashflowForTransactions :: "LedgerTransaction list \<Rightarrow> LedgerCashflowSummary res" where
  "cashflowForTransactions ts =
     bindR (checkedSumMinor (amountsOf IncomeType ts)) (\<lambda>incomeMinor.
     bindR (checkedSumMinor (amountsOf ExpenseType ts)) (\<lambda>expenseMinor.
     bindR (checkedSubMinor incomeMinor expenseMinor) (\<lambda>balanceMinor.
     Inr \<lparr>cfIncomeMinor = incomeMinor, cfExpenseMinor = expenseMinor, cfBalanceMinor = balanceMinor\<rparr>)))"

subsection \<open>Category slices\<close>

text \<open>
  A JavaScript \<open>Map\<close> is the list of its entries in insertion order: \<open>map_of\<close> reads it and
  \<open>AList.update\<close> sets a key in place or appends it. A \<open>Map\<close> built from entries keeps the last of a key.
\<close>

definition mapOfEntries :: "('v \<Rightarrow> 'k) \<Rightarrow> 'v list \<Rightarrow> 'k \<Rightarrow> 'v option" where
  "mapOfEntries key xs = map_of (rev (map (\<lambda>x. (key x, x)) xs))"

type_synonym category_groups = "(jsstr \<times> int) list"

definition addToGroup ::
    "(jsstr \<Rightarrow> LedgerCategory option) \<Rightarrow> LedgerCategoryKind \<Rightarrow> jsstr \<Rightarrow> int \<Rightarrow> category_groups \<Rightarrow> category_groups res" where
  "addToGroup categories kind categoryId amountMinor groups = (case categories categoryId of
       None \<Rightarrow> projectionInvariant
     | Some category \<Rightarrow>
         if catKind category \<noteq> kind then projectionInvariant
         else bindR (checkedAddMinor (orElse (map_of groups categoryId) 0) amountMinor) (\<lambda>amount.
              Inr (AList.update categoryId amount groups)))"

fun groupByCategory ::
    "(jsstr \<Rightarrow> LedgerCategory option) \<Rightarrow> LedgerTransaction list \<Rightarrow> category_groups \<times> category_groups
      \<Rightarrow> (category_groups \<times> category_groups) res" where
  "groupByCategory categories [] groups = Inr groups"
| "groupByCategory categories (t # ts) (income, expense) = (case txBody t of
       Income _ categoryId _ \<Rightarrow>
         bindR (addToGroup categories IncomeKind categoryId (txAmountMinor t) income) (\<lambda>income'.
         groupByCategory categories ts (income', expense))
     | Expense _ categoryId _ \<Rightarrow>
         bindR (addToGroup categories ExpenseKind categoryId (txAmountMinor t) expense) (\<lambda>expense'.
         groupByCategory categories ts (income, expense'))
     | _ \<Rightarrow> groupByCategory categories ts (income, expense))"

text \<open>The comparison function returns a non-positive number.\<close>

definition sliceOrder :: "LedgerCategorySlice \<Rightarrow> LedgerCategorySlice \<Rightarrow> bool" where
  "sliceOrder left right \<longleftrightarrow>
     (if slAmountMinor left \<noteq> slAmountMinor right then slAmountMinor right < slAmountMinor left
      else slCategoryId left = slCategoryId right \<or> slCategoryId left < slCategoryId right)"

definition toSlices :: "(jsstr \<Rightarrow> LedgerCategory option) \<Rightarrow> category_groups \<Rightarrow> LedgerCategorySlice list res" where
  "toSlices categories groups =
     bindR (mapR (\<lambda>(categoryId, amountMinor). case categories categoryId of
          None \<Rightarrow> projectionInvariant
        | Some category \<Rightarrow> Inr \<lparr>slCategoryId = categoryId, slName = catName category,
            slKind = catKind category, slAmountMinor = amountMinor\<rparr>) groups) (\<lambda>slices.
     Inr (orderBy sliceOrder slices))"

definition categorySlicesForTransactions ::
    "LedgerTransaction list \<Rightarrow> (jsstr \<Rightarrow> LedgerCategory option)
      \<Rightarrow> (LedgerCategorySlice list \<times> LedgerCategorySlice list) res" where
  "categorySlicesForTransactions ts categories =
     bindR (groupByCategory categories ts ([], [])) (\<lambda>(income, expense).
     bindR (toSlices categories income) (\<lambda>incomeSlices.
     bindR (toSlices categories expense) (\<lambda>expenseSlices.
     Inr (incomeSlices, expenseSlices))))"

subsection \<open>Movement of an account\<close>

fun movementFrom ::
    "LedgerMovementSummary \<Rightarrow> jsstr \<Rightarrow> LedgerAccountNature \<Rightarrow> LedgerTransaction list \<Rightarrow> 'a LedgerTimeRange_scheme
      \<Rightarrow> LedgerMovementSummary res" where
  "movementFrom m account nature [] window = Inr m"
| "movementFrom m account nature (t # ts) window =
     (if txType t = AdjustmentType \<or> \<not> isWithinRange (txOccurredAt t) window
      then movementFrom m account nature ts window
      else bindR (transactionEffectForAccount t account nature) (\<lambda>delta.
        if delta > 0 then
          bindR (checkedAddMinor (mvBalanceIncreaseMinor m) delta) (\<lambda>i.
          movementFrom (m\<lparr>mvBalanceIncreaseMinor := i\<rparr>) account nature ts window)
        else if delta < 0 then
          bindR (checkedSubMinor 0 delta) (\<lambda>n.
          bindR (checkedAddMinor (mvBalanceDecreaseMinor m) n) (\<lambda>d.
          movementFrom (m\<lparr>mvBalanceDecreaseMinor := d\<rparr>) account nature ts window))
        else movementFrom m account nature ts window))"

definition movementForAccount ::
    "LedgerAccount \<Rightarrow> LedgerTransaction list \<Rightarrow> 'a LedgerTimeRange_scheme \<Rightarrow> LedgerMovementSummary res" where
  "movementForAccount account ts window =
     movementFrom \<lparr>mvBalanceIncreaseMinor = 0, mvBalanceDecreaseMinor = 0\<rparr> (accId account) (accNature account) ts window"

subsection \<open>Balance at the end of days\<close>

definition trendOrder :: "ledger_env \<Rightarrow> LedgerTransaction \<Rightarrow> LedgerTransaction \<Rightarrow> bool" where
  "trendOrder env left right \<longleftrightarrow>
     txOccurredAt left < txOccurredAt right
     \<or> (txOccurredAt left = txOccurredAt right \<and> (txCreatedAt left < txCreatedAt right
        \<or> (txCreatedAt left = txCreatedAt right \<and> \<not> localeLess env (txId right) (txId left))))"

text \<open>The inner loop: consume the transactions before the cutoff.\<close>

fun advance ::
    "int \<Rightarrow> jsstr \<Rightarrow> LedgerAccountNature \<Rightarrow> int \<Rightarrow> LedgerTransaction list \<Rightarrow> (int \<times> LedgerTransaction list) res" where
  "advance cutoff account nature balance [] = Inr (balance, [])"
| "advance cutoff account nature balance (t # ts) =
     (if txOccurredAt t < cutoff then
        bindR (transactionEffectForAccount t account nature) (\<lambda>e.
        bindR (checkedAddMinor balance e) (\<lambda>balance'. advance cutoff account nature balance' ts))
      else Inr (balance, t # ts))"

fun trendPoints ::
    "ledger_env \<Rightarrow> jsstr \<Rightarrow> LedgerAccountNature \<Rightarrow> int \<Rightarrow> int \<Rightarrow> jsstr \<Rightarrow> int \<Rightarrow> LedgerTransaction list
      \<Rightarrow> LedgerCalendarDayPoint list \<Rightarrow> LedgerAccountBalanceTrendPoint list res" where
  "trendPoints env account nature nowMs nowExclusive timezone balance rest [] = Inr []"
| "trendPoints env account nature nowMs nowExclusive timezone balance rest (p # ps) =
     (let isToday = (ps = [])
      in bindR (if isToday then Inr nowExclusive
                else bindR (localDateRange env (cpDate p) timezone) (\<lambda>r. Inr (endMs r))) (\<lambda>cutoff.
         bindR (advance cutoff account nature balance rest) (\<lambda>(balance', rest').
         bindR (trendPoints env account nature nowMs nowExclusive timezone balance' rest' ps) (\<lambda>points.
         Inr (\<lparr>btDate = cpDate p, btTimestamp = (if isToday then nowMs else cutoff), btBalanceMinor = balance'\<rparr>
              # points)))))"

definition accountBalanceTrend ::
    "ledger_env \<Rightarrow> LedgerAccount \<Rightarrow> int \<Rightarrow> LedgerTransaction list \<Rightarrow> LedgerCalendarDayPoint list \<Rightarrow> int \<Rightarrow> jsstr
      \<Rightarrow> LedgerAccountBalanceTrendPoint list res" where
  "accountBalanceTrend env account prefixBalanceMinor ts calendarPoints nowMs timezone =
     bindR (exclusiveInstant env nowMs) (\<lambda>nowExclusive.
     trendPoints env (accId account) (accNature account) nowMs nowExclusive timezone prefixBalanceMinor
       (orderBy (trendOrder env) ts) calendarPoints)"

subsection \<open>Periods and months\<close>

definition periodSummary ::
    "LedgerPeriodName \<Rightarrow> LedgerTimeRange \<Rightarrow> LedgerTransaction list \<Rightarrow> LedgerPeriodSummary res" where
  "periodSummary period window ts =
     bindR (cashflowForTransactions (filter (\<lambda>t. isWithinRange (txOccurredAt t) window) ts)) (\<lambda>c.
     Inr \<lparr>cfIncomeMinor = cfIncomeMinor c, cfExpenseMinor = cfExpenseMinor c, cfBalanceMinor = cfBalanceMinor c,
          psPeriod = period, psStartAt = startMs window, psEndAt = endMs window\<rparr>)"

definition trendForRanges ::
    "LedgerCalendarMonthRange list \<Rightarrow> LedgerTransaction list \<Rightarrow> LedgerTrendPoint list res" where
  "trendForRanges ranges ts = mapR (\<lambda>window.
     bindR (cashflowForTransactions (filter (\<lambda>t. isWithinRange (txOccurredAt t) window) ts)) (\<lambda>c.
     Inr \<lparr>cfIncomeMinor = cfIncomeMinor c, cfExpenseMinor = cfExpenseMinor c, cfBalanceMinor = cfBalanceMinor c,
          trMonth = rangeMonth window, trStartAt = startMs window, trEndAt = endMs window\<rparr>)) ranges"

section \<open>The listing\<close>

definition normalizeTransactionQuery ::
    "ledger_env \<Rightarrow> LedgerTransactionQuery \<Rightarrow> LedgerTransactionQueryOptions res" where
  "normalizeTransactionQuery env q =
     (if \<not> safeInt (lqLimit q) \<or> lqLimit q < 1 \<or> lqLimit q > LEDGER_LIST_LIMIT_MAX then Inl ledgerValidationError
      else bindR (case lqCursor q of None \<Rightarrow> Inr None
           | Some c \<Rightarrow> bindR (parseLedgerTransactionCursor env (JStr c)) (\<lambda>u.
               Inr (Some (Position (cuOccurredAt u) (cuCreatedAt u) (cuId u))))) (\<lambda>cursor.
        Inr \<lparr>qoType = lqType q, qoAccountId = lqAccountId q, qoCategoryId = lqCategoryId q,
          qoGroupId = lqGroupId q, qoFrom = lqFrom q, qoTo = lqTo q, qoSearch = lqSearch q,
          qoIncludeDeleted = lqIncludeDeleted q, qoLimit = lqLimit q, qoOffset = lqOffset q, qoCursor = cursor\<rparr>))"

definition cursorText :: "LedgerTransaction \<Rightarrow> jsstr" where
  "cursorText t = js ''{\"v\":1,\"occurredAt\":'' @ intText (txOccurredAt t) @ js '',\"createdAt\":''
     @ intText (txCreatedAt t) @ js '',\"id\":'' @ jsonString (txId t) @ js ''}''"

definition encodeCursor :: "ledger_env \<Rightarrow> LedgerTransaction \<Rightarrow> jsstr" where
  "encodeCursor env t = base64url env (cursorText t)"

definition transactionPage :: "ledger_env \<Rightarrow> LedgerTransactionQuery \<Rightarrow> bool \<Rightarrow> ProjectedTransactionPage svc" where
  "transactionPage env query includeSummary =
     bnd (liftR (normalizeTransactionQuery env query)) (\<lambda>queryOptions.
     bnd (readDb (queryTransactions env queryOptions)) (\<lambda>rows.
     bnd (if includeSummary then readDb (\<lambda>db. mapRes Some (summarizeTransactions queryOptions db)) else ret None) (\<lambda>summary.
     let hasNextPage = int (length rows) > qoLimit queryOptions;
         returnedRows = (if hasNextPage then take (nat (qoLimit queryOptions)) rows else rows)
     in ret \<lparr>ppRows = returnedRows,
          ppPage = \<lparr>pgNextCursor = (if hasNextPage \<and> returnedRows \<noteq> []
                      then Some (encodeCursor env (last returnedRows)) else None),
                    pgSummary = summary\<rparr>\<rparr>)))"

definition transactionDtoWithBundle :: "ledger_env \<Rightarrow> LedgerTransaction \<Rightarrow> jsval svc" where
  "transactionDtoWithBundle env t = (case (txType t, txGroupId t, transactionDto t) of
       (TransferType, Some g, JObj dto) \<Rightarrow>
         bnd (readDb (listTransactionsByGroupId env g False)) (\<lambda>items.
         bnd (liftR (checkedSumMinor (amountsOf ExpenseType items))) (\<lambda>chargeMinor.
         if chargeMinor \<le> 0 then ret (JObj dto)
         else bnd (liftR (checkedAddMinor (txAmountMinor t) chargeMinor)) (\<lambda>totalMinor.
           ret (JObj (dto @ [(js ''bundle'', JObj [(js ''chargeMinor'', JInt chargeMinor),
             (js ''totalMinor'', JInt totalMinor)])])))))
     | (_, _, dto) \<Rightarrow> ret dto)"

definition listTransactions ::
    "ledger_env \<Rightarrow> LedgerTransactionQuery \<Rightarrow> (jsval list \<times> LedgerPageInfo) svc" where
  "listTransactions env query =
     bnd (requireSettings env) (\<lambda>_.
     bnd (transactionPage env query True) (\<lambda>page.
     bnd (mapM (transactionDtoWithBundle env) (ppRows page)) (\<lambda>dtos.
     ret (dtos, ppPage page))))"

section \<open>An account\<close>

text \<open>\<open>captureNow\<close> reads the injected clock.\<close>

definition captureNow :: "ledger_env \<Rightarrow> int svc" where
  "captureNow env = (\<lambda>s. (assertUtcMilliseconds env (nowFn env (stNow s)), s\<lparr>stNow := Suc (stNow s)\<rparr>))"

definition transactionBalances :: "(jsstr \<times> int) list \<Rightarrow> LedgerTransaction list \<Rightarrow> (jsstr \<times> int) list res" where
  "transactionBalances balances rows = mapR (\<lambda>t. case map_of (rev balances) (txId t) of
       None \<Rightarrow> projectionInvariant | Some b \<Rightarrow> Inr (txId t, b)) rows"

definition getAccountTransactions ::
    "ledger_env \<Rightarrow> jsstr \<Rightarrow> LedgerTransactionQuery \<Rightarrow> LedgerAccountTransactionsDto svc" where
  "getAccountTransactions env accountId query =
     bnd (requireSettings env) (\<lambda>settings.
     bnd (requireAccount env accountId) (\<lambda>account.
     bnd (captureNow env) (\<lambda>nowMs.
     bnd (liftR (exclusiveInstant env nowMs)) (\<lambda>nowExclusive.
     bnd (readDb (getAccountBalanceBefore (balanceAccount account) nowExclusive)) (\<lambda>currentBalanceMinor.
     bnd (transactionPage env (query\<lparr>lqAccountId := Some accountId\<rparr>) False) (\<lambda>page.
     bnd (readDb (getAccountBalancesAtPositions (balanceAccount account) (map txPosition (ppRows page)))) (\<lambda>balances.
     bnd (liftR (monthRange env nowMs (setTimezone settings))) (\<lambda>movementRange.
     bnd (readDb (listActiveTransactionsForAccountInRange env (accId account) (startMs movementRange)
            (endMs movementRange))) (\<lambda>movementTransactions.
     bnd (liftR (accountDto account currentBalanceMinor)) (\<lambda>dto.
     bnd (liftR (movementForAccount account movementTransactions movementRange)) (\<lambda>movement.
     bnd (liftR (transactionBalances balances (ppRows page))) (\<lambda>shown.
     bnd (mapM (transactionDtoWithBundle env) (ppRows page)) (\<lambda>dtos.
     ret \<lparr>atAccount = dto, atMovement = movement, atTransactions = dtos,
          atTransactionBalances = shown, atPage = ppPage page\<rparr>)))))))))))))"

definition getAccountBalanceTrend ::
    "ledger_env \<Rightarrow> jsstr \<Rightarrow> int \<Rightarrow> (int \<times> LedgerAccountBalanceTrendPoint list) svc" where
  "getAccountBalanceTrend env accountId days =
     bnd (requireSettings env) (\<lambda>settings.
     bnd (requireAccount env accountId) (\<lambda>account.
     bnd (captureNow env) (\<lambda>nowMs.
     bnd (liftR (exclusiveInstant env nowMs)) (\<lambda>nowExclusive.
     bnd (liftR (calendarDayPointsForInstant env days (if days \<le> 30 then days else 12) nowMs
            (setTimezone settings))) (\<lambda>calendarPoints.
     bnd (readDb (listActiveTransactionsForAccountInRange env (accId account)
            (cpStartMs (hd calendarPoints)) nowExclusive)) (\<lambda>trendTransactions.
     bnd (readDb (getAccountBalanceBefore (balanceAccount account) (cpStartMs (hd calendarPoints)))) (\<lambda>prefix.
     bnd (liftR (accountBalanceTrend env account prefix trendTransactions calendarPoints nowMs
            (setTimezone settings))) (\<lambda>points.
     ret (days, points)))))))))"

section \<open>The overview\<close>

definition RECENT_TRANSACTION_LIMIT :: int where
  "RECENT_TRANSACTION_LIMIT = 5"

definition PERIOD_ORDER :: "LedgerPeriodName list" where
  "PERIOD_ORDER = [Today, Week, Month, Year]"

fun rangeOf :: "LedgerPeriodRanges \<Rightarrow> LedgerPeriodName \<Rightarrow> LedgerTimeRange" where
  "rangeOf rs Today = todayR rs"
| "rangeOf rs Week = weekR rs"
| "rangeOf rs Month = monthR rs"
| "rangeOf rs Year = yearR rs"

definition resolveAnchorDate :: "ledger_env \<Rightarrow> jsstr option \<Rightarrow> jsstr \<Rightarrow> jsstr res" where
  "resolveAnchorDate env anchorDate todayDate =
     bindR (case anchorDate of None \<Rightarrow> Inr todayDate | Some d \<Rightarrow> parseLedgerLocalDate env (JStr d)) (\<lambda>resolved.
     bindR (failUnless (\<not> resolved > todayDate) ledgerValidationError) (\<lambda>_. Inr resolved))"

text \<open>An account with the active transactions that touch it and its derived balance.\<close>

definition accountState :: "ledger_env \<Rightarrow> LedgerAccount \<Rightarrow> (LedgerAccount \<times> LedgerTransaction list \<times> int) svc" where
  "accountState env a =
     bnd (readDb (listActiveTransactionsForAccount env (accId a))) (\<lambda>ts.
     bnd (liftR (deriveCurrentBalance (balanceAccount a) ts)) (\<lambda>b. ret (a, ts, b)))"

definition balancesOf :: "LedgerAccountNature \<Rightarrow> (LedgerAccount \<times> LedgerTransaction list \<times> int) list \<Rightarrow> int list" where
  "balancesOf n states = map (\<lambda>(a, ts, b). b) (filter (\<lambda>(a, ts, b). accNature a = n) states)"

definition getOverview :: "ledger_env \<Rightarrow> OverviewScope \<Rightarrow> jsstr option \<Rightarrow> LedgerOverviewDto svc" where
  "getOverview env scope anchorDate =
     bnd (requireSettings env) (\<lambda>settings.
     bnd (captureNow env) (\<lambda>nowMs.
     bnd (liftR (ledgerLocalDateForInstant env nowMs (setTimezone settings))) (\<lambda>todayDate.
     bnd (liftR (resolveAnchorDate env anchorDate todayDate)) (\<lambda>resolvedAnchorDate.
     bnd (liftR (periodRangesForLocalDate env resolvedAnchorDate (setTimezone settings))) (\<lambda>fixedPeriods.
     bnd (liftR (calendarMonthRangesForLocalDate env 12 resolvedAnchorDate (setTimezone settings))) (\<lambda>trendRanges.
     bnd (readDb (listAccounts env True)) (\<lambda>allAccounts.
     bnd (mapM (accountState env) allAccounts) (\<lambda>accountStates.
     bnd (readDb (listCategories env True)) (\<lambda>categoryList.
     let activeAccounts = filter (\<lambda>(a, ts, b). accArchivedAt a = None) accountStates;
         categories = mapOfEntries catId categoryList;
         fixed = map (rangeOf fixedPeriods) PERIOD_ORDER;
         periodWindowStart = Min (set (startMs (hd trendRanges) # map startMs fixed));
         periodWindowEnd = Max (set (endMs (last trendRanges) # map endMs fixed))
     in
     bnd (readDb (listActiveTransactionsInRange env (Some periodWindowStart) periodWindowEnd)) (\<lambda>periodTransactions.
     bnd (case scope of
            AllScope \<Rightarrow> readDb (listActiveTransactionsInRange env None (endMs (todayR fixedPeriods)))
          | ScopePeriod p \<Rightarrow> ret (filter (\<lambda>t. isWithinRange (txOccurredAt t) (rangeOf fixedPeriods p)) periodTransactions))
       (\<lambda>scopedTransactions.
     bnd (liftR (checkedSumMinor (balancesOf Asset accountStates))) (\<lambda>assetTotalMinor.
     bnd (liftR (checkedSumMinor (balancesOf Liability accountStates))) (\<lambda>liabilityTotalMinor.
     bnd (liftR (monthRange env nowMs (setTimezone settings))) (\<lambda>month.
     bnd (liftR (mapR (\<lambda>(a, ts, b). bindR (accountDto a b) (\<lambda>dto.
            bindR (movementForAccount a ts month) (\<lambda>m. Inr (dto, m)))) activeAccounts)) (\<lambda>accounts.
     bnd (liftR (currencyExponentFor (JStr (setBaseCurrency settings)))) (\<lambda>exponent.
     bnd (liftR (checkedSubMinor assetTotalMinor liabilityTotalMinor)) (\<lambda>netWorthMinor.
     bnd (liftR (cashflowForTransactions scopedTransactions)) (\<lambda>cashflow.
     bnd (liftR (categorySlicesForTransactions scopedTransactions categories)) (\<lambda>(incomeSlices, expenseSlices).
     bnd (liftR (mapR (\<lambda>p. periodSummary p (rangeOf fixedPeriods p) periodTransactions) PERIOD_ORDER)) (\<lambda>periods.
     bnd (liftR (trendForRanges trendRanges periodTransactions)) (\<lambda>trend.
     bnd (readDb (listRecentActiveTransactionsBefore env (endMs (todayR fixedPeriods)) RECENT_TRANSACTION_LIMIT)) (\<lambda>recent.
     bnd (mapM (transactionDtoWithBundle env) recent) (\<lambda>recentTransactions.
     ret \<lparr>ovAnchorDate = resolvedAnchorDate, ovTodayDate = todayDate, ovScope = scope,
          ovCurrency = setBaseCurrency settings, ovCurrencyExponent = exponent,
          ovAssetTotalMinor = assetTotalMinor, ovLiabilityTotalMinor = liabilityTotalMinor,
          ovNetWorthMinor = netWorthMinor, ovAccounts = accounts, ovCashflow = cashflow,
          ovIncomeSlices = incomeSlices, ovExpenseSlices = expenseSlices, ovPeriods = periods,
          ovTrend = trend, ovRecentTransactions = recentTransactions\<rparr>)))))))))))))))))))))))"

definition getTrend :: "ledger_env \<Rightarrow> int \<Rightarrow> jsstr option \<Rightarrow> LedgerTrendPoint list svc" where
  "getTrend env months anchorDate =
     bnd (requireSettings env) (\<lambda>settings.
     bnd (captureNow env) (\<lambda>nowMs.
     bnd (liftR (ledgerLocalDateForInstant env nowMs (setTimezone settings))) (\<lambda>todayDate.
     bnd (liftR (resolveAnchorDate env anchorDate todayDate)) (\<lambda>resolvedAnchorDate.
     bnd (liftR (calendarMonthRangesForLocalDate env months resolvedAnchorDate (setTimezone settings))) (\<lambda>ranges.
     bnd (readDb (listActiveTransactions env)) (\<lambda>ts.
     liftR (trendForRanges ranges ts)))))))"

section \<open>JSON\<close>

fun periodText :: "LedgerPeriodName \<Rightarrow> jsstr" where
  "periodText Today = js ''today''"
| "periodText Week = js ''week''"
| "periodText Month = js ''month''"
| "periodText Year = js ''year''"

fun scopeText :: "OverviewScope \<Rightarrow> jsstr" where
  "scopeText AllScope = js ''all''"
| "scopeText (ScopePeriod p) = periodText p"

definition cashflowProps :: "'a LedgerCashflowSummary_scheme \<Rightarrow> jsobj" where
  "cashflowProps c = [(js ''incomeMinor'', JInt (cfIncomeMinor c)), (js ''expenseMinor'', JInt (cfExpenseMinor c)),
     (js ''balanceMinor'', JInt (cfBalanceMinor c))]"

definition sliceJson :: "LedgerCategorySlice \<Rightarrow> jsval" where
  "sliceJson c = JObj [(js ''categoryId'', JStr (slCategoryId c)), (js ''name'', JStr (slName c)),
     (js ''kind'', JStr (kindText (slKind c))), (js ''amountMinor'', JInt (slAmountMinor c))]"

definition movementProps :: "LedgerMovementSummary \<Rightarrow> jsobj" where
  "movementProps m = [(js ''balanceIncreaseMinor'', JInt (mvBalanceIncreaseMinor m)),
     (js ''balanceDecreaseMinor'', JInt (mvBalanceDecreaseMinor m))]"

definition pageJson :: "LedgerPageInfo \<Rightarrow> jsval" where
  "pageJson p = JObj ([(js ''nextCursor'', case pgNextCursor p of None \<Rightarrow> JNull | Some c \<Rightarrow> JStr c)]
     @ (case pgSummary p of None \<Rightarrow> [] | Some u \<Rightarrow> [(js ''total'', JInt (suTotal u)),
          (js ''incomeMinor'', JInt (suIncomeMinor u)), (js ''expenseMinor'', JInt (suExpenseMinor u))]))"

definition listingJson :: "jsval list \<times> LedgerPageInfo \<Rightarrow> jsval" where
  "listingJson l = JObj [(js ''transactions'', JArr (fst l)), (js ''page'', pageJson (snd l))]"

definition accountTransactionsJson :: "LedgerAccountTransactionsDto \<Rightarrow> jsval" where
  "accountTransactionsJson d = JObj
     [(js ''account'', JObj (atAccount d)), (js ''movement'', JObj (movementProps (atMovement d))),
      (js ''transactionBalances'', JArr (map (\<lambda>(i, b). JObj [(js ''transactionId'', JStr i),
         (js ''balanceMinor'', JInt b)]) (atTransactionBalances d))),
      (js ''transactions'', JArr (atTransactions d)), (js ''page'', pageJson (atPage d))]"

definition balanceTrendJson :: "int \<times> LedgerAccountBalanceTrendPoint list \<Rightarrow> jsval" where
  "balanceTrendJson d = JObj [(js ''range'', JInt (fst d)), (js ''points'', JArr (map (\<lambda>p.
     JObj [(js ''date'', JStr (btDate p)), (js ''timestamp'', JInt (btTimestamp p)),
       (js ''balanceMinor'', JInt (btBalanceMinor p))]) (snd d)))]"

definition trendJson :: "LedgerTrendPoint list \<Rightarrow> jsval" where
  "trendJson ps = JArr (map (\<lambda>p. JObj ([(js ''month'', JStr (trMonth p)), (js ''startAt'', JInt (trStartAt p)),
     (js ''endAt'', JInt (trEndAt p))] @ cashflowProps p)) ps)"

definition periodJson :: "LedgerPeriodSummary \<Rightarrow> jsval" where
  "periodJson p = JObj ([(js ''period'', JStr (periodText (psPeriod p))), (js ''startAt'', JInt (psStartAt p)),
     (js ''endAt'', JInt (psEndAt p))] @ cashflowProps p)"

definition overviewJson :: "LedgerOverviewDto \<Rightarrow> jsval" where
  "overviewJson d = JObj
     [(js ''context'', JObj [(js ''anchorDate'', JStr (ovAnchorDate d)), (js ''todayDate'', JStr (ovTodayDate d)),
         (js ''isToday'', JBool (ovAnchorDate d = ovTodayDate d)), (js ''scope'', JStr (scopeText (ovScope d)))]),
      (js ''currency'', JStr (ovCurrency d)), (js ''currencyExponent'', JInt (int (ovCurrencyExponent d))),
      (js ''assetTotalMinor'', JInt (ovAssetTotalMinor d)), (js ''liabilityTotalMinor'', JInt (ovLiabilityTotalMinor d)),
      (js ''netWorthMinor'', JInt (ovNetWorthMinor d)),
      (js ''accounts'', JArr (map (\<lambda>(dto, m). JObj (dto @ movementProps m)) (ovAccounts d))),
      (js ''cashflow'', JObj (cashflowProps (ovCashflow d))),
      (js ''categoryBreakdown'', JObj [(js ''income'', JArr (map sliceJson (ovIncomeSlices d))),
         (js ''expense'', JArr (map sliceJson (ovExpenseSlices d)))]),
      (js ''periods'', JArr (map periodJson (ovPeriods d))), (js ''trend'', trendJson (ovTrend d)),
      (js ''recentTransactions'', JArr (ovRecentTransactions d))]"

end
