(* ===== verification/Api.thy ===== *)
theory Api
  imports Projections
begin

text \<open>
  \<open>server/ledger/routes\<close>: what a request does. A request carries the parsed JSON of its body
  (\<open>None\<close> when the body is not valid JSON), the identifier of its path, its \<open>Idempotency-Key\<close>
  header and its query parameters (\<open>JUndefined\<close> when absent, or the object of all of them).
  \<open>withLedgerErrors\<close> turns every failure into a response; \<open>respond_all\<close> runs a sequence of
  requests.
\<close>

section \<open>Responses\<close>

text \<open>
  The body of an error response is represented by the ledger code, or by \<open>None\<close> for the generic
  \<open>ledger-internal-error\<close>; \<open>ReplayResponse\<close> is a body sent as the stored text.
\<close>

datatype ledger_response =
    JsonResponse int jsval
  | ReplayResponse int jsstr
  | ErrorResponse int "ledger_code option"

definition ledgerErrorResponse :: "failure \<Rightarrow> ledger_response" where
  "ledgerErrorResponse e = (case e of
       LedgerError code status \<Rightarrow> ErrorResponse (int status) (Some code)
     | _ \<Rightarrow> ErrorResponse 500 None)"

fun isError :: "ledger_response \<Rightarrow> bool" where
  "isError (ErrorResponse _ _) = True"
| "isError _ = False"

definition ledgerReplayResponse :: "LedgerReplayResult \<Rightarrow> ledger_response" where
  "ledgerReplayResponse r = ReplayResponse (lrResponseStatus r) (lrResponseBodyJson r)"

definition readLedgerJson :: "jsval option \<Rightarrow> jsval res" where
  "readLedgerJson body = (case body of None \<Rightarrow> Inl ledgerValidationError | Some v \<Rightarrow> Inr v)"

section \<open>Requests\<close>

datatype settings_request =
    GetSettings
  | PostSettings "jsval option" jsval
  | PatchSettings "jsval option"

datatype account_request =
    GetAccounts jsval
  | PostAccount "jsval option" jsval
  | PostAccountArchive jsstr "jsval option"
  | PostAccountRestore jsstr "jsval option"
  | PostAccountAdjust jsstr "jsval option" jsval
  | GetAccount jsstr
  | PatchAccount jsstr "jsval option"
  | DeleteAccount jsstr "jsval option"

datatype category_request =
    GetCategories jsval jsval
  | PostCategory "jsval option" jsval
  | PostCategoryArchive jsstr "jsval option"
  | PostCategoryRestore jsstr "jsval option"
  | PatchCategory jsstr "jsval option"
  | DeleteCategory jsstr "jsval option"

datatype transaction_request =
    PostTransaction "jsval option" jsval
  | GetTransaction jsstr
  | PatchTransaction jsstr "jsval option"
  | DeleteTransaction jsstr "jsval option"

datatype projection_request =
    GetTransactions jsobj
  | GetAccountBalanceTrend jsstr jsval
  | GetAccountTransactions jsstr jsobj
  | GetOverview jsval jsval
  | GetTrend jsval jsval

datatype ledger_request =
    SettingsRequest settings_request
  | AccountRequest account_request
  | CategoryRequest category_request
  | TransactionRequest transaction_request
  | ProjectionRequest projection_request

text \<open>A create route: the body and then the key are parsed before the service is called.\<close>

definition postRoute ::
    "(jsval \<Rightarrow> 'q res) \<Rightarrow> ('q \<Rightarrow> jsstr \<Rightarrow> LedgerReplayResult svc) \<Rightarrow> jsval option \<Rightarrow> jsval \<Rightarrow> ledger_response svc" where
  "postRoute parse operation body key =
     bnd (liftR (bindR (readLedgerJson body) parse)) (\<lambda>request.
     bnd (liftR (parseIdempotencyKey key)) (\<lambda>idempotencyKey.
     bnd (operation request idempotencyKey) (\<lambda>r. ret (ledgerReplayResponse r))))"

text \<open>A mutation route hands the raw body to the service.\<close>

definition rawRoute :: "(jsval \<Rightarrow> jsval svc) \<Rightarrow> jsval option \<Rightarrow> ledger_response svc" where
  "rawRoute operation body =
     bnd (liftR (readLedgerJson body)) (\<lambda>v. bnd (operation v) (\<lambda>r. ret (JsonResponse 200 r)))"

definition jsonRoute :: "jsval svc \<Rightarrow> ledger_response svc" where
  "jsonRoute operation = bnd operation (\<lambda>r. ret (JsonResponse 200 r))"

definition parseKindQuery :: "jsval \<Rightarrow> LedgerCategoryKind option res" where
  "parseKindQuery v = (if v = JUndefined then Inr None
     else mapRes Some (parseCategoryKind [(js ''kind'', v)]))"

fun settingsRoute :: "ledger_env \<Rightarrow> settings_request \<Rightarrow> ledger_response svc" where
  "settingsRoute env GetSettings = jsonRoute (getSettingsDto env)"
| "settingsRoute env (PostSettings b k) = postRoute (parseSettingsCreateRequest env) (createSettings env) b k"
| "settingsRoute env (PatchSettings b) = rawRoute (patchSettings env) b"

fun accountRoute :: "ledger_env \<Rightarrow> account_request \<Rightarrow> ledger_response svc" where
  "accountRoute env (GetAccounts includeArchived) =
     bnd (liftR (parseBooleanQuery includeArchived False)) (\<lambda>a.
     bnd (listAccountDtos env a) (\<lambda>r. ret (JsonResponse 200 (JArr r))))"
| "accountRoute env (PostAccount b k) = postRoute (parseAccountCreateRequest env) (createAccount env) b k"
| "accountRoute env (PostAccountArchive i b) = rawRoute (archiveAccount env i) b"
| "accountRoute env (PostAccountRestore i b) = rawRoute (restoreAccount env i) b"
| "accountRoute env (PostAccountAdjust i b k) =
     postRoute (parseAdjustmentEndpointRequest env) (adjustAccount env i) b k"
| "accountRoute env (GetAccount i) = jsonRoute (getAccountDto env i)"
| "accountRoute env (PatchAccount i b) = rawRoute (patchAccount env i) b"
| "accountRoute env (DeleteAccount i b) = rawRoute (deleteAccountCommand env i) b"

fun categoryRoute :: "ledger_env \<Rightarrow> category_request \<Rightarrow> ledger_response svc" where
  "categoryRoute env (GetCategories kind includeArchived) =
     bnd (liftR (parseKindQuery kind)) (\<lambda>k.
     bnd (liftR (parseBooleanQuery includeArchived False)) (\<lambda>a.
     bnd (listCategoryDtos env k a) (\<lambda>r. ret (JsonResponse 200 (JArr r)))))"
| "categoryRoute env (PostCategory b k) = postRoute parseCategoryCreateRequest (createCategory env) b k"
| "categoryRoute env (PostCategoryArchive i b) = rawRoute (archiveCategory env i) b"
| "categoryRoute env (PostCategoryRestore i b) = rawRoute (restoreCategory env i) b"
| "categoryRoute env (PatchCategory i b) = rawRoute (patchCategory env i) b"
| "categoryRoute env (DeleteCategory i b) = rawRoute (deleteCategoryCommand env i) b"

fun transactionRoute :: "ledger_env \<Rightarrow> transaction_request \<Rightarrow> ledger_response svc" where
  "transactionRoute env (PostTransaction b k) =
     postRoute (parseTransactionCreateRequest env) (createTransaction env) b k"
| "transactionRoute env (GetTransaction i) = jsonRoute (getTransactionDto env i)"
| "transactionRoute env (PatchTransaction i b) = rawRoute (patchTransaction env i) b"
| "transactionRoute env (DeleteTransaction i b) = rawRoute (deleteTransaction env i) b"

text \<open>A projection route: the parameters are parsed, then the projection is written as JSON.\<close>

definition projectRoute :: "'q res \<Rightarrow> ('q \<Rightarrow> 'a svc) \<Rightarrow> ('a \<Rightarrow> jsval) \<Rightarrow> ledger_response svc" where
  "projectRoute parameters projection json =
     bnd (liftR parameters) (\<lambda>q. bnd (projection q) (\<lambda>r. ret (JsonResponse 200 (json r))))"

fun projectionRoute :: "ledger_env \<Rightarrow> projection_request \<Rightarrow> ledger_response svc" where
  "projectionRoute env (GetTransactions q) =
     projectRoute (parseTransactionQuery env q) (listTransactions env) listingJson"
| "projectionRoute env (GetAccountBalanceTrend i window) =
     projectRoute (parseAccountBalanceTrendRange window) (getAccountBalanceTrend env i) balanceTrendJson"
| "projectionRoute env (GetAccountTransactions i q) =
     projectRoute (parseTransactionQuery env q) (getAccountTransactions env i) accountTransactionsJson"
| "projectionRoute env (GetOverview scope anchorDate) =
     projectRoute (bindR (parseOverviewScope scope) (\<lambda>s. bindR (parseOverviewAnchorDate env anchorDate) (\<lambda>a. Inr (s, a))))
       (\<lambda>(s, a). getOverview env s a) overviewJson"
| "projectionRoute env (GetTrend months anchorDate) =
     projectRoute (bindR (parseTrendMonths months) (\<lambda>m. bindR (parseOverviewAnchorDate env anchorDate) (\<lambda>a. Inr (m, a))))
       (\<lambda>(m, a). getTrend env m a) trendJson"

fun ledgerRoute :: "ledger_env \<Rightarrow> ledger_request \<Rightarrow> ledger_response svc" where
  "ledgerRoute env (SettingsRequest q) = settingsRoute env q"
| "ledgerRoute env (AccountRequest q) = accountRoute env q"
| "ledgerRoute env (CategoryRequest q) = categoryRoute env q"
| "ledgerRoute env (TransactionRequest q) = transactionRoute env q"
| "ledgerRoute env (ProjectionRequest q) = projectionRoute env q"

text \<open>\<open>withLedgerErrors\<close>: every failure becomes a response.\<close>

definition withLedgerErrors :: "ledger_response svc \<Rightarrow> ledger_state \<Rightarrow> ledger_response \<times> ledger_state" where
  "withLedgerErrors operation s = (case operation s of
       (Inl e, t) \<Rightarrow> (ledgerErrorResponse e, t)
     | (Inr r, t) \<Rightarrow> (r, t))"

definition respond :: "ledger_env \<Rightarrow> ledger_request \<Rightarrow> ledger_state \<Rightarrow> ledger_response \<times> ledger_state" where
  "respond env q = withLedgerErrors (ledgerRoute env q)"

fun respond_all :: "ledger_env \<Rightarrow> ledger_request list \<Rightarrow> ledger_state \<Rightarrow> ledger_response list \<times> ledger_state" where
  "respond_all env [] s = ([], s)"
| "respond_all env (q # qs) s =
     (case respond env q s of (r, t) \<Rightarrow> (case respond_all env qs t of (rs, u) \<Rightarrow> (r # rs, u)))"

end
