(* ===== verification/LedgerSpec.thy ===== *)
theory LedgerSpec
  imports Api
begin

text \<open>
  The abstract ledger: what the service promises, stated on the decoded view of the database and
  without SQL, JSON, versions or monads. \<open>ledger_step\<close> is the step relation, one rule per business
  operation with its guards; \<open>Inv\<close> is the invariant, proved for every reachable view by rule
  induction. The theories after this one show that every request of \<open>Api\<close> is a sequence of steps.
\<close>

section \<open>Replacing one object of a list\<close>

definition put :: "('a \<Rightarrow> 'k) \<Rightarrow> 'a \<Rightarrow> 'a list \<Rightarrow> 'a list" where
  "put f y xs = map (\<lambda>x. if f x = f y then y else x) xs"

lemma put_simps [simp]:
  "put f y [] = []" "put f y (x # xs) = (if f x = f y then y else x) # put f y xs"
  by (simp_all add: put_def)

lemma map_put [simp]: "map f (put f y xs) = map f xs"
  by (simp add: put_def)

lemma put_keys [simp]: "f ` set (put f y xs) = f ` set xs"
  by (metis map_put set_map)

lemma set_put: "z \<in> set (put f y xs) \<Longrightarrow> z = y \<or> (z \<in> set xs \<and> f z \<noteq> f y)"
  by (auto simp: put_def split: if_split_asm)

lemma put_Nil_iff [simp]: "put f y xs = [] \<longleftrightarrow> xs = []"
  by (simp add: put_def)

lemma put_other: "f y \<notin> f ` set xs \<Longrightarrow> put f y xs = xs"
  by (induction xs) auto

lemma put_append [simp]: "put f y (xs @ ys) = put f y xs @ put f y ys"
  by (simp add: put_def)

lemma find_put:
  "find (\<lambda>x. f x = k) (put f y xs) = (if k = f y \<and> k \<in> f ` set xs then Some y else find (\<lambda>x. f x = k) xs)"
  by (induction xs) (auto simp: put_def)

lemma sum_put:
  fixes h :: "'a \<Rightarrow> 'b::comm_monoid_add"
  assumes "distinct (map f xs)" "x \<in> set xs" "f y = f x"
  shows "(\<Sum>z\<leftarrow>put f y xs. h z) + h x = (\<Sum>z\<leftarrow>xs. h z) + h y"
  using assms
proof (induction xs)
  case (Cons z zs)
  show ?case
  proof (cases "z = x")
    case True
    then have "put f y zs = zs" using Cons.prems by (intro put_other) auto
    with True Cons.prems(3) show ?thesis by (simp add: ac_simps)
  next
    case False
    then have "x \<in> set zs" "f z \<noteq> f y" using Cons.prems by auto
    with Cons.IH Cons.prems have "(\<Sum>z\<leftarrow>put f y zs. h z) + h x = (\<Sum>z\<leftarrow>zs. h z) + h y" by simp
    with \<open>f z \<noteq> f y\<close> show ?thesis by (simp add: add.assoc)
  qed
qed simp

lemma mset_sum_put:
  fixes h :: "'a \<Rightarrow> 'b::cancel_comm_monoid_add"
  assumes "distinct (map f xs)" "x \<in> set xs" "f y = f x" "h y = h x"
  shows "(\<Sum>z\<leftarrow>put f y xs. h z) = (\<Sum>z\<leftarrow>xs. h z)"
  using sum_put [OF assms(1-3), of h] assms(4) by simp

section \<open>Lookups in a view\<close>

definition accountOf :: "ledger_view \<Rightarrow> jsstr \<Rightarrow> LedgerAccount option" where
  "accountOf v i = find (\<lambda>a. accId a = i) (lvAccounts v)"

definition categoryOf :: "ledger_view \<Rightarrow> jsstr \<Rightarrow> LedgerCategory option" where
  "categoryOf v i = find (\<lambda>c. catId c = i) (lvCategories v)"

lemma lookup_update [simp]:
  "accountOf (v\<lparr>lvSettings := s\<rparr>) = accountOf v" "accountOf (v\<lparr>lvCategories := cs\<rparr>) = accountOf v"
  "accountOf (v\<lparr>lvTransactions := ts\<rparr>) = accountOf v"
  "categoryOf (v\<lparr>lvSettings := s\<rparr>) = categoryOf v" "categoryOf (v\<lparr>lvAccounts := as\<rparr>) = categoryOf v"
  "categoryOf (v\<lparr>lvTransactions := ts\<rparr>) = categoryOf v"
  by (simp_all add: fun_eq_iff accountOf_def categoryOf_def)

lemma accountOf_Some: "accountOf v i = Some a \<Longrightarrow> a \<in> set (lvAccounts v) \<and> accId a = i"
  by (auto simp: accountOf_def find_Some_iff)

lemma categoryOf_Some: "categoryOf v i = Some c \<Longrightarrow> c \<in> set (lvCategories v) \<and> catId c = i"
  by (auto simp: categoryOf_def find_Some_iff)

text \<open>What the transactions of an account rest on: its nature, its opening balance and date.\<close>

definition accountTerms :: "LedgerAccount \<Rightarrow> LedgerAccountNature \<times> int \<times> jsstr" where
  "accountTerms a = (accNature a, accOpeningBalanceMinor a, accOpeningDate a)"

definition hasHistory :: "ledger_view \<Rightarrow> jsstr \<Rightarrow> bool" where
  "hasHistory v i \<longleftrightarrow> (\<exists>t\<in>set (lvTransactions v). touches t i)"

definition categoryInUse :: "ledger_view \<Rightarrow> jsstr \<Rightarrow> bool" where
  "categoryInUse v i \<longleftrightarrow> (\<exists>t\<in>set (lvTransactions v). bodyCategory (txBody t) = Some i)"

section \<open>Admissible transactions\<close>

text \<open>The account is open at that time: midnight of its opening date in the ledger's zone is past.\<close>

definition openBy :: "ledger_env \<Rightarrow> ledger_view \<Rightarrow> int \<Rightarrow> jsstr \<Rightarrow> bool" where
  "openBy env v at i = (case (accountOf v i, lvSettings v) of
       (Some a, Some s) \<Rightarrow> (case openingBoundaryMs env (accOpeningDate a) (setTimezone s) of
           Inr b \<Rightarrow> b \<le> at | Inl _ \<Rightarrow> False)
     | _ \<Rightarrow> False)"

fun entryKind :: "LedgerTransactionType \<Rightarrow> LedgerCategoryKind" where
  "entryKind IncomeType = IncomeKind"
| "entryKind _ = ExpenseKind"

definition categoryUsable :: "ledger_view \<Rightarrow> LedgerTransaction \<Rightarrow> bool" where
  "categoryUsable v t = (case bodyCategory (txBody t) of None \<Rightarrow> True
     | Some i \<Rightarrow> (case categoryOf v i of None \<Rightarrow> False
         | Some c \<Rightarrow> catArchivedAt c = None \<and> catKind c = entryKind (txType t)))"

definition kindMatches :: "ledger_view \<Rightarrow> TransactionBody \<Rightarrow> bool" where
  "kindMatches v b = (case b of
       Transfer k _ f to _ \<Rightarrow> (case (accountOf v f, accountOf v to) of
           (Some a, Some c) \<Rightarrow> transferKindMatches k a c | _ \<Rightarrow> False)
     | _ \<Rightarrow> True)"

definition txOk :: "ledger_env \<Rightarrow> ledger_view \<Rightarrow> LedgerTransaction \<Rightarrow> bool" where
  "txOk env v t \<longleftrightarrow> (\<forall>i\<in>bodyAccounts (txBody t). openBy env v (txOccurredAt t) i)
     \<and> categoryUsable v t \<and> kindMatches v (txBody t) \<and> groupOk t"

definition accountsActive :: "ledger_view \<Rightarrow> LedgerTransaction \<Rightarrow> bool" where
  "accountsActive v t \<longleftrightarrow> (\<forall>a\<in>set (lvAccounts v). touches t (accId a) \<longrightarrow> accArchivedAt a = None)"

text \<open>Revising a transaction of an archived account moves no money.\<close>

definition sameMoney :: "LedgerTransaction \<Rightarrow> LedgerTransaction \<Rightarrow> bool" where
  "sameMoney t u \<longleftrightarrow> txAmountMinor t = txAmountMinor u \<and> bodyAccount (txBody t) = bodyAccount (txBody u)
     \<and> bodyFrom (txBody t) = bodyFrom (txBody u) \<and> bodyTo (txBody t) = bodyTo (txBody u)"

definition revisable :: "ledger_view \<Rightarrow> LedgerTransaction \<Rightarrow> LedgerTransaction \<Rightarrow> bool" where
  "revisable v t u \<longleftrightarrow> t \<in> set (lvTransactions v) \<and> activeTx t \<and> activeTx u \<and> txId u = txId t
     \<and> txType u = txType t \<and> (accountsActive v t \<and> accountsActive v u \<or> sameMoney t u)"

text \<open>A transfer and the companion expense that pays its fee from the same account.\<close>

definition isBundle :: "LedgerTransaction \<Rightarrow> LedgerTransaction \<Rightarrow> bool" where
  "isBundle t f \<longleftrightarrow> txType t = TransferType \<and> txType f = ExpenseType \<and> activeTx t \<and> activeTx f
     \<and> txGroupId t \<noteq> None \<and> txGroupId f = txGroupId t \<and> bodyAccount (txBody f) = bodyFrom (txBody t)"

definition erased :: "int \<Rightarrow> LedgerTransaction \<Rightarrow> LedgerTransaction" where
  "erased d t = t\<lparr>txDeletedAt := Some d, txVersion := txVersion t + 1, txUpdatedAt := d\<rparr>"

definition freshTx :: "ledger_view \<Rightarrow> LedgerTransaction \<Rightarrow> bool" where
  "freshTx v t \<longleftrightarrow> txId t \<notin> txId ` set (lvTransactions v)"

section \<open>The step relation\<close>

text \<open>Zone and currency are locked once an account exists.\<close>

definition settingsKept :: "LedgerSettings \<Rightarrow> LedgerSettings \<Rightarrow> bool" where
  "settingsKept s s' \<longleftrightarrow> setTimezone s' = setTimezone s \<and> setBaseCurrency s' = setBaseCurrency s"

definition accountKept :: "LedgerAccount \<Rightarrow> LedgerAccount \<Rightarrow> bool" where
  "accountKept a a' \<longleftrightarrow> accId a' = accId a \<and> accCurrency a' = accCurrency a"

definition categoryKept :: "LedgerCategory \<Rightarrow> LedgerCategory \<Rightarrow> bool" where
  "categoryKept c c' \<longleftrightarrow> catId c' = catId c \<and> catSystemKey c' = catSystemKey c \<and> catIsDefault c' = catIsDefault c"

inductive ledger_step :: "ledger_env \<Rightarrow> ledger_view \<Rightarrow> ledger_view \<Rightarrow> bool" for env where
  Initialize: "\<lbrakk>lvSettings v = None; \<not> setHasCreatedAccount s\<rbrakk> \<Longrightarrow> ledger_step env v (v\<lparr>lvSettings := Some s\<rparr>)"
| Configure: "\<lbrakk>lvSettings v = Some s; setHasCreatedAccount s' = setHasCreatedAccount s;
     setHasCreatedAccount s \<Longrightarrow> settingsKept s s'\<rbrakk> \<Longrightarrow> ledger_step env v (v\<lparr>lvSettings := Some s'\<rparr>)"
| OpenAccount: "\<lbrakk>lvSettings v = Some s; setHasCreatedAccount s'; settingsKept s s';
     accId a \<notin> accId ` set (lvAccounts v); accCurrency a = setBaseCurrency s; accArchivedAt a = None\<rbrakk> \<Longrightarrow>
     ledger_step env v (v\<lparr>lvSettings := Some s', lvAccounts := lvAccounts v @ [a]\<rparr>)"
| ChangeAccount: "\<lbrakk>a \<in> set (lvAccounts v); accountKept a a'; accArchivedAt a' = accArchivedAt a;
     accArchivedAt a \<noteq> None \<or> hasHistory v (accId a) \<Longrightarrow> accountTerms a' = accountTerms a\<rbrakk> \<Longrightarrow>
     ledger_step env v (v\<lparr>lvAccounts := put accId a' (lvAccounts v)\<rparr>)"
| ArchiveAccount: "\<lbrakk>a \<in> set (lvAccounts v); accountKept a a'; accountTerms a' = accountTerms a;
     accArchivedAt a = None; accArchivedAt a' \<noteq> None; exactBalance (balanceAccount a) (lvTransactions v) = 0\<rbrakk> \<Longrightarrow>
     ledger_step env v (v\<lparr>lvAccounts := put accId a' (lvAccounts v)\<rparr>)"
| RestoreAccount: "\<lbrakk>a \<in> set (lvAccounts v); accountKept a a'; accountTerms a' = accountTerms a;
     accArchivedAt a' = None\<rbrakk> \<Longrightarrow>
     ledger_step env v (v\<lparr>lvAccounts := put accId a' (lvAccounts v)\<rparr>)"
| CloseAccount: "\<not> hasHistory v i \<Longrightarrow>
     ledger_step env v (v\<lparr>lvAccounts := filter (\<lambda>a. accId a \<noteq> i) (lvAccounts v)\<rparr>)"
| AddCategory: "\<lbrakk>lvSettings v \<noteq> None; catsUnique (lvCategories v @ [c]); catArchivedAt c = None;
     catSystemKey c \<noteq> None \<Longrightarrow> catKind c = ExpenseKind\<rbrakk> \<Longrightarrow>
     ledger_step env v (v\<lparr>lvCategories := lvCategories v @ [c]\<rparr>)"
| ChangeCategory: "\<lbrakk>c \<in> set (lvCategories v); categoryKept c c'; catsUnique (put catId c' (lvCategories v));
     catArchivedAt c' = catArchivedAt c;
     categoryInUse v (catId c) \<Longrightarrow> catKind c' = catKind c;
     isProtected c \<Longrightarrow> catKind c' = catKind c \<and> catName c' = catName c\<rbrakk> \<Longrightarrow>
     ledger_step env v (v\<lparr>lvCategories := put catId c' (lvCategories v)\<rparr>)"
| ArchiveCategory: "\<lbrakk>c \<in> set (lvCategories v); categoryKept c c'; catsUnique (put catId c' (lvCategories v));
     catKind c' = catKind c; \<not> isProtected c; \<not> categoryInUse v (catId c)\<rbrakk> \<Longrightarrow>
     ledger_step env v (v\<lparr>lvCategories := put catId c' (lvCategories v)\<rparr>)"
| RestoreCategory: "\<lbrakk>c \<in> set (lvCategories v); categoryKept c c'; catsUnique (put catId c' (lvCategories v));
     catKind c' = catKind c; catArchivedAt c' = None\<rbrakk> \<Longrightarrow>
     ledger_step env v (v\<lparr>lvCategories := put catId c' (lvCategories v)\<rparr>)"
| DropCategory: "\<lbrakk>\<not> categoryInUse v i; \<forall>c\<in>set (lvCategories v). catId c = i \<longrightarrow> \<not> isProtected c\<rbrakk> \<Longrightarrow>
     ledger_step env v (v\<lparr>lvCategories := filter (\<lambda>c. catId c \<noteq> i) (lvCategories v)\<rparr>)"
| Record: "\<lbrakk>freshTx v t; activeTx t; txGroupId t = None; txOk env v t; accountsActive v t\<rbrakk> \<Longrightarrow>
     ledger_step env v (v\<lparr>lvTransactions := lvTransactions v @ [t]\<rparr>)"
| RecordBundle: "\<lbrakk>freshTx v t; freshTx v f; txId f \<noteq> txId t; isBundle t f; txOk env v t; txOk env v f;
     accountsActive v t; accountsActive v f\<rbrakk> \<Longrightarrow>
     ledger_step env v (v\<lparr>lvTransactions := lvTransactions v @ [t, f]\<rparr>)"
| Revise: "\<lbrakk>revisable v t t'; txGroupId t = None; txGroupId t' = None; txOk env v t'\<rbrakk> \<Longrightarrow>
     ledger_step env v (v\<lparr>lvTransactions := put txId t' (lvTransactions v)\<rparr>)"
| ReviseBundle: "\<lbrakk>revisable v t t'; revisable v f f'; isBundle t f; isBundle t' f'; txGroupId t' = txGroupId t;
     txOk env v t'; txOk env v f'\<rbrakk> \<Longrightarrow>
     ledger_step env v (v\<lparr>lvTransactions := put txId f' (put txId t' (lvTransactions v))\<rparr>)"
| AttachFee: "\<lbrakk>revisable v t t'; txGroupId t = None; freshTx v f; isBundle t' f; txOk env v t'; txOk env v f;
     accountsActive v f\<rbrakk> \<Longrightarrow>
     ledger_step env v (v\<lparr>lvTransactions := put txId t' (lvTransactions v) @ [f]\<rparr>)"
| DetachFee: "\<lbrakk>revisable v t t'; f \<in> set (lvTransactions v); isBundle t f; txGroupId t' = None; txOk env v t';
     accountsActive v f\<rbrakk> \<Longrightarrow>
     ledger_step env v (v\<lparr>lvTransactions := put txId (erased d f) (put txId t' (lvTransactions v))\<rparr>)"
| Erase: "\<lbrakk>\<forall>t\<in>set (lvTransactions v). P t \<longrightarrow> activeTx t \<and> accountsActive v t;
     \<forall>t\<in>set (lvTransactions v). \<forall>u\<in>set (lvTransactions v).
       P t \<and> activeTx u \<and> txGroupId u = txGroupId t \<and> txGroupId t \<noteq> None \<longrightarrow> P u\<rbrakk> \<Longrightarrow>
     ledger_step env v (v\<lparr>lvTransactions := map (\<lambda>t. if P t then erased d t else t) (lvTransactions v)\<rparr>)"

end
