(* ===== verification/LedgerInvariant.thy ===== *)
theory LedgerInvariant
  imports LedgerSpec
begin

text \<open>
  The invariant of the abstract ledger and its proof: each of its six parts is preserved by every
  rule of \<open>ledger_step\<close>, so every view reachable from the empty ledger satisfies it.
\<close>

section \<open>The invariant\<close>

definition uniqueIds :: "ledger_view \<Rightarrow> bool" where
  "uniqueIds v \<longleftrightarrow> distinct (map accId (lvAccounts v)) \<and> distinct (map txId (lvTransactions v))
     \<and> catsUnique (lvCategories v)"

text \<open>Accounts exist only in an initialized ledger whose lock is set, all in the base currency.\<close>

definition settingsOk :: "ledger_view \<Rightarrow> bool" where
  "settingsOk v \<longleftrightarrow> (case lvSettings v of
       None \<Rightarrow> lvAccounts v = [] \<and> lvCategories v = []
     | Some s \<Rightarrow> \<forall>a\<in>set (lvAccounts v). setHasCreatedAccount s \<and> accCurrency a = setBaseCurrency s)"

definition transactionsOk :: "ledger_env \<Rightarrow> ledger_view \<Rightarrow> bool" where
  "transactionsOk env v \<longleftrightarrow> (\<forall>t\<in>set (lvTransactions v). txOk env v t)"

text \<open>An archived account has the balance zero.\<close>

definition archivedSettled :: "ledger_view \<Rightarrow> bool" where
  "archivedSettled v \<longleftrightarrow> (\<forall>a\<in>set (lvAccounts v). accArchivedAt a \<noteq> None \<longrightarrow>
     exactBalance (balanceAccount a) (lvTransactions v) = 0)"

text \<open>
  Transfers and companions of a group match: the accounts that pay its active transfers are,
  with multiplicity, the accounts charged by its active companion expenses.
\<close>

definition payer :: "jsstr \<Rightarrow> LedgerTransaction \<Rightarrow> jsstr multiset" where
  "payer g t = (if activeTx t \<and> txType t = TransferType \<and> txGroupId t = Some g
     then mset_set (set_option (bodyFrom (txBody t))) else {#})"

definition charge :: "jsstr \<Rightarrow> LedgerTransaction \<Rightarrow> jsstr multiset" where
  "charge g t = (if activeTx t \<and> txType t = ExpenseType \<and> txGroupId t = Some g
     then mset_set (set_option (bodyAccount (txBody t))) else {#})"

definition groupsMatch :: "LedgerTransaction list \<Rightarrow> bool" where
  "groupsMatch ts \<longleftrightarrow> (\<forall>g. (\<Sum>t\<leftarrow>ts. payer g t) = (\<Sum>t\<leftarrow>ts. charge g t))"

text \<open>System categories are expense categories; protected categories are never archived.\<close>

definition catalogOk :: "ledger_view \<Rightarrow> bool" where
  "catalogOk v \<longleftrightarrow> (\<forall>c\<in>set (lvCategories v). (catSystemKey c \<noteq> None \<longrightarrow> catKind c = ExpenseKind)
     \<and> (isProtected c \<longrightarrow> catArchivedAt c = None))"

definition Inv :: "ledger_env \<Rightarrow> ledger_view \<Rightarrow> bool" where
  "Inv env v \<longleftrightarrow> uniqueIds v \<and> settingsOk v \<and> transactionsOk env v \<and> archivedSettled v
     \<and> groupsMatch (lvTransactions v) \<and> catalogOk v"

section \<open>Lookups after a step\<close>

lemma accountOf_put:
  "accountOf (v\<lparr>lvAccounts := put accId a (lvAccounts v)\<rparr>) i =
     (if i = accId a \<and> i \<in> accId ` set (lvAccounts v) then Some a else accountOf v i)"
  by (auto simp: accountOf_def find_put)

lemma categoryOf_put:
  "categoryOf (v\<lparr>lvCategories := put catId c (lvCategories v)\<rparr>) i =
     (if i = catId c \<and> i \<in> catId ` set (lvCategories v) then Some c else categoryOf v i)"
  by (auto simp: categoryOf_def find_put)

lemma find_append: "find P (xs @ ys) = (case find P xs of None \<Rightarrow> find P ys | Some x \<Rightarrow> Some x)"
  by (induction xs) auto

lemma find_filter_key: "i \<noteq> k \<Longrightarrow> find (\<lambda>x. f x = i) (filter (\<lambda>x. f x \<noteq> k) xs) = find (\<lambda>x. f x = i) xs"
  by (induction xs) auto

lemma accountOf_mem:
  "distinct (map accId (lvAccounts v)) \<Longrightarrow> a \<in> set (lvAccounts v) \<Longrightarrow> accountOf v (accId a) = Some a"
  by (simp add: accountOf_def find_key_unique)

lemma categoryOf_mem:
  "catsUnique (lvCategories v) \<Longrightarrow> c \<in> set (lvCategories v) \<Longrightarrow> categoryOf v (catId c) = Some c"
  by (simp add: categoryOf_def find_key_unique catsUnique_def)

section \<open>Admissibility under changes of the master data\<close>

definition termsOf :: "ledger_view \<Rightarrow> jsstr \<Rightarrow> (LedgerAccountNature \<times> int \<times> jsstr) option" where
  "termsOf v i = map_option accountTerms (accountOf v i)"

definition useOf :: "ledger_view \<Rightarrow> jsstr \<Rightarrow> (LedgerCategoryKind \<times> int option) option" where
  "useOf v i = map_option (\<lambda>c. (catKind c, catArchivedAt c)) (categoryOf v i)"

lemma transferKindMatches_cong:
  "accNature a = accNature a' \<Longrightarrow> accNature b = accNature b' \<Longrightarrow>
   transferKindMatches k a b = transferKindMatches k a' b'"
  by (simp add: transferKindMatches_def)

lemma txOk_cong:
  assumes ok: "txOk env v t"
    and acc: "\<And>i. touches t i \<Longrightarrow> termsOf v' i = termsOf v i"
    and cat: "\<And>i. bodyCategory (txBody t) = Some i \<Longrightarrow> useOf v' i = useOf v i"
    and tz: "lvSettings v' = lvSettings v \<or> (\<exists>s s'. lvSettings v = Some s \<and> lvSettings v' = Some s'
      \<and> setTimezone s' = setTimezone s)"
  shows "txOk env v' t"
  unfolding txOk_def
proof (intro conjI ballI)
  fix i assume "i \<in> bodyAccounts (txBody t)"
  then have o: "openBy env v (txOccurredAt t) i" and e: "termsOf v' i = termsOf v i"
    using ok acc by (auto simp: txOk_def touches_def)
  then show "openBy env v' (txOccurredAt t) i"
    using tz by (cases "accountOf v i"; cases "accountOf v' i")
      (auto simp: openBy_def termsOf_def accountTerms_def split: option.split_asm)
next
  show "categoryUsable v' t"
  proof (cases "bodyCategory (txBody t)")
    case (Some i)
    from ok have u: "categoryUsable v t" by (simp add: txOk_def)
    from cat [OF Some] Some u show ?thesis
      by (cases "categoryOf v i"; cases "categoryOf v' i") (auto simp: categoryUsable_def useOf_def)
  qed (simp add: categoryUsable_def)
next
  from ok have u: "kindMatches v (txBody t)" by (simp add: txOk_def)
  show "kindMatches v' (txBody t)"
  proof (cases "txBody t")
    case (Transfer k m f to p)
    have "termsOf v' f = termsOf v f" "termsOf v' to = termsOf v to"
      using acc Transfer by (auto simp: touches_def)
    then show ?thesis
      using u Transfer
      by (auto simp: kindMatches_def termsOf_def accountTerms_def split: option.split_asm
          cong: transferKindMatches_cong intro: iffD1 [OF transferKindMatches_cong])
  qed (simp_all add: kindMatches_def)
next
  show "groupOk t" using ok by (simp add: txOk_def)
qed

lemma txOk_transactions [simp]: "txOk env (v\<lparr>lvTransactions := ts\<rparr>) t = txOk env v t"
proof -
  have "categoryUsable (v\<lparr>lvTransactions := ts\<rparr>) t = categoryUsable v t"
    by (cases "bodyCategory (txBody t)") (simp_all add: categoryUsable_def)
  moreover have "kindMatches (v\<lparr>lvTransactions := ts\<rparr>) b = kindMatches v b" for b
    by (cases b) (simp_all add: kindMatches_def)
  ultimately show ?thesis by (simp add: txOk_def openBy_def)
qed

lemma erased_simps [simp]:
  "txId (erased d t) = txId t" "txGroupId (erased d t) = txGroupId t" "txBody (erased d t) = txBody t"
  "txType (erased d t) = txType t" "txAmountMinor (erased d t) = txAmountMinor t"
  "txOccurredAt (erased d t) = txOccurredAt t" "\<not> activeTx (erased d t)" "touches (erased d t) i = touches t i"
  "bodyAccounts (txBody (erased d t)) = bodyAccounts (txBody t)"
  by (simp_all add: erased_def txType_def activeTx_def touches_def)

lemma txOk_erased [simp]: "txOk env v (erased d t) = txOk env v t"
proof -
  have "categoryUsable v (erased d t) = categoryUsable v t"
    unfolding categoryUsable_def by (simp only: erased_simps)
  then show ?thesis by (simp add: txOk_def groupOk_def)
qed

lemma transactionsOk_cong:
  assumes "transactionsOk env v" and "lvTransactions v' = lvTransactions v"
    and "\<And>i. hasHistory v i \<Longrightarrow> termsOf v' i = termsOf v i"
    and "\<And>i. categoryInUse v i \<Longrightarrow> useOf v' i = useOf v i"
    and "lvSettings v' = lvSettings v \<or> (\<exists>s s'. lvSettings v = Some s \<and> lvSettings v' = Some s'
      \<and> setTimezone s' = setTimezone s)"
  shows "transactionsOk env v'"
  unfolding transactionsOk_def
proof
  fix t assume t: "t \<in> set (lvTransactions v')"
  show "txOk env v' t"
  proof (rule txOk_cong)
    show "txOk env v t" using assms(1,2) t by (simp add: transactionsOk_def)
    show "termsOf v' i = termsOf v i" if "touches t i" for i
      using assms(2,3) t that by (auto simp: hasHistory_def)
    show "useOf v' i = useOf v i" if "bodyCategory (txBody t) = Some i" for i
      using assms(2,4) t that by (auto simp: categoryInUse_def)
  qed (rule assms(5))
qed

lemma transactionsOk_refs:
  assumes "transactionsOk env v" "t \<in> set (lvTransactions v)"
  shows "touches t i \<Longrightarrow> \<exists>a. accountOf v i = Some a"
    and "bodyCategory (txBody t) = Some i \<Longrightarrow> \<exists>c. categoryOf v i = Some c \<and> catArchivedAt c = None
      \<and> catKind c = entryKind (txType t)"
  using assms
  by (fastforce simp: transactionsOk_def txOk_def touches_def openBy_def categoryUsable_def
      split: option.split_asm)+

section \<open>Preservation, part by part\<close>

lemma ball_put: "Q y \<Longrightarrow> \<forall>x\<in>set xs. Q x \<Longrightarrow> \<forall>x\<in>set (put f y xs). Q x"
  by (auto simp: put_def)

lemma catsUnique_filter: "catsUnique cs \<Longrightarrow> catsUnique (filter P cs)"
proof -
  have swap: "filter Q (filter P cs) = filter P (filter Q cs)" for Q
    by (simp add: conj_commute)
  assume "catsUnique cs"
  then show ?thesis unfolding catsUnique_def swap by (simp add: distinct_map_filter del: filter_filter)
qed

lemma uniqueIds_step: "ledger_step env v v' \<Longrightarrow> uniqueIds v \<Longrightarrow> uniqueIds v'"
  by (induction rule: ledger_step.induct)
    (auto simp: uniqueIds_def freshTx_def distinct_map_filter catsUnique_filter comp_def if_distrib
      cong: if_cong)

lemma settingsOk_step: "ledger_step env v v' \<Longrightarrow> settingsOk v \<Longrightarrow> settingsOk v'"
  by (induction rule: ledger_step.induct)
    (auto simp: settingsOk_def settingsKept_def accountKept_def split: option.splits dest!: set_put)

lemma catalogOk_step: "ledger_step env v v' \<Longrightarrow> catalogOk v \<Longrightarrow> catalogOk v'"
proof (induction rule: ledger_step.induct)
  case (ChangeCategory c v c')
  have c: "catSystemKey c \<noteq> None \<Longrightarrow> catKind c' = ExpenseKind" "isProtected c' = isProtected c"
    "isProtected c \<Longrightarrow> catArchivedAt c' = None"
    using ChangeCategory by (auto simp: catalogOk_def categoryKept_def isProtected_def)
  have key: "catSystemKey c' = catSystemKey c" using ChangeCategory(2) by (simp add: categoryKept_def)
  show ?case unfolding catalogOk_def
  proof
    fix d assume "d \<in> set (lvCategories (v\<lparr>lvCategories := put catId c' (lvCategories v)\<rparr>))"
    then have "d = c' \<or> d \<in> set (lvCategories v)" by (auto dest: set_put)
    then show "(catSystemKey d \<noteq> None \<longrightarrow> catKind d = ExpenseKind) \<and> (isProtected d \<longrightarrow> catArchivedAt d = None)"
    proof
      assume d: "d = c'"
      show ?thesis unfolding d key using c by simp
    next
      assume "d \<in> set (lvCategories v)"
      with ChangeCategory(7) show ?thesis unfolding catalogOk_def by blast
    qed
  qed
qed (auto simp: catalogOk_def categoryKept_def isProtected_def dest!: set_put)

lemma termsOf_kept:
  assumes "distinct (map accId (lvAccounts v))" "a \<in> set (lvAccounts v)" "accountKept a a'"
    "accountTerms a' = accountTerms a \<or> i \<noteq> accId a"
  shows "termsOf (v\<lparr>lvAccounts := put accId a' (lvAccounts v)\<rparr>) i = termsOf v i"
  using assms accountOf_mem [OF assms(1,2)] by (auto simp: termsOf_def accountOf_put accountKept_def)

lemma useOf_kept:
  assumes "catsUnique (lvCategories v)" "c \<in> set (lvCategories v)" "categoryKept c c'"
    "catKind c' = catKind c \<and> catArchivedAt c' = catArchivedAt c \<or> i \<noteq> catId c"
  shows "useOf (v\<lparr>lvCategories := put catId c' (lvCategories v)\<rparr>) i = useOf v i"
  using assms categoryOf_mem [OF assms(1,2)] by (auto simp: useOf_def categoryOf_put categoryKept_def)

lemma termsOf_update [simp]:
  "termsOf (v\<lparr>lvSettings := s\<rparr>) = termsOf v" "termsOf (v\<lparr>lvCategories := cs\<rparr>) = termsOf v"
  "useOf (v\<lparr>lvSettings := s\<rparr>) = useOf v" "useOf (v\<lparr>lvAccounts := as\<rparr>) = useOf v"
  by (simp_all add: fun_eq_iff termsOf_def useOf_def)

lemma in_use_found:
  "transactionsOk env v \<Longrightarrow> hasHistory v i \<Longrightarrow> \<exists>a. accountOf v i = Some a"
  "transactionsOk env v \<Longrightarrow> categoryInUse v i \<Longrightarrow> \<exists>c. categoryOf v i = Some c \<and> catArchivedAt c = None"
  using transactionsOk_refs by (fastforce simp: hasHistory_def categoryInUse_def)+

lemma transactionsOk_step:
  "ledger_step env v v' \<Longrightarrow> uniqueIds v \<Longrightarrow> settingsOk v \<Longrightarrow> transactionsOk env v \<Longrightarrow> transactionsOk env v'"
proof (induction rule: ledger_step.induct)
  case (Initialize v s)
  then have "lvAccounts v = []" by (simp add: settingsOk_def)
  then have "\<not> hasHistory v i" for i using in_use_found(1) [OF Initialize(5), of i] by (auto simp: accountOf_def)
  moreover have "touches t i" if "i \<in> bodyAccounts (txBody t)" for t i using that by (simp add: touches_def)
  moreover have "bodyAccounts b \<noteq> {}" for b by (cases b) auto
  ultimately have "lvTransactions v = []" by (cases "lvTransactions v") (fastforce simp: hasHistory_def)+
  then show ?case by (simp add: transactionsOk_def)
next
  case (Configure v s s')
  show ?case
  proof (cases "lvTransactions v = []")
    case False
    then obtain t where t: "t \<in> set (lvTransactions v)" by (cases "lvTransactions v") auto
    obtain i where "touches t i" by (cases "txBody t") (auto simp: touches_def)
    with t Configure obtain a where "accountOf v i = Some a" using transactionsOk_refs(1) by blast
    then have "setHasCreatedAccount s" using Configure by (auto simp: settingsOk_def dest!: accountOf_Some)
    then show ?thesis
      using Configure by (intro transactionsOk_cong [OF Configure(6)]) (auto simp: settingsKept_def)
  qed (simp add: transactionsOk_def)
next
  case (OpenAccount v s s' a)
  have "termsOf (v\<lparr>lvSettings := Some s', lvAccounts := lvAccounts v @ [a]\<rparr>) i = termsOf v i" if "hasHistory v i" for i
    using in_use_found(1) [OF OpenAccount(9) that] by (auto simp: termsOf_def accountOf_def find_append)
  with OpenAccount show ?case
    by (intro transactionsOk_cong [OF OpenAccount(9)]) (auto simp: settingsKept_def)
next
  case (ChangeAccount a v a')
  then show ?case
    by (intro transactionsOk_cong [OF ChangeAccount(7)] termsOf_kept) (auto simp: uniqueIds_def)
next
  case (ArchiveAccount a v a')
  then show ?case
    by (intro transactionsOk_cong [OF ArchiveAccount(9)] termsOf_kept) (auto simp: uniqueIds_def)
next
  case (RestoreAccount a v a')
  then show ?case
    by (intro transactionsOk_cong [OF RestoreAccount(7)] termsOf_kept) (auto simp: uniqueIds_def)
next
  case (CloseAccount v i)
  show ?case
  proof (rule transactionsOk_cong [OF CloseAccount(4)])
    fix k assume "hasHistory v k"
    with CloseAccount(1) have "k \<noteq> i" by auto
    then show "termsOf (v\<lparr>lvAccounts := filter (\<lambda>a. accId a \<noteq> i) (lvAccounts v)\<rparr>) k = termsOf v k"
      by (simp add: termsOf_def accountOf_def find_filter_key)
  qed simp_all
next
  case (AddCategory v c)
  have "useOf (v\<lparr>lvCategories := lvCategories v @ [c]\<rparr>) i = useOf v i" if "categoryInUse v i" for i
    using in_use_found(2) [OF AddCategory(7) that] by (auto simp: useOf_def categoryOf_def find_append)
  with AddCategory show ?case by (intro transactionsOk_cong [OF AddCategory(7)]) auto
next
  case (ChangeCategory c v c')
  then show ?case
    by (intro transactionsOk_cong [OF ChangeCategory(9)] useOf_kept) (auto simp: uniqueIds_def)
next
  case (ArchiveCategory c v c')
  then show ?case
    by (intro transactionsOk_cong [OF ArchiveCategory(9)] useOf_kept) (auto simp: uniqueIds_def)
next
  case (RestoreCategory c v c')
  show ?case
  proof (intro transactionsOk_cong [OF RestoreCategory(8)] useOf_kept)
    fix i assume "categoryInUse v i"
    from in_use_found(2) [OF RestoreCategory(8) this]
    have "i \<noteq> catId c \<or> catArchivedAt c = None"
      using categoryOf_mem [of v c] RestoreCategory by (auto simp: uniqueIds_def)
    then show "catKind c' = catKind c \<and> catArchivedAt c' = catArchivedAt c \<or> i \<noteq> catId c"
      using RestoreCategory by auto
  qed (use RestoreCategory in \<open>auto simp: uniqueIds_def\<close>)
next
  case (DropCategory v i)
  show ?case
  proof (rule transactionsOk_cong [OF DropCategory(5)])
    fix k assume "categoryInUse v k"
    with DropCategory(1) have "k \<noteq> i" by auto
    then show "useOf (v\<lparr>lvCategories := filter (\<lambda>c. catId c \<noteq> i) (lvCategories v)\<rparr>) k = useOf v k"
      by (simp add: useOf_def categoryOf_def find_filter_key)
  qed simp_all
next
  case (Record v t)
  then show ?case by (simp add: transactionsOk_def)
next
  case (RecordBundle v t f)
  then show ?case by (simp add: transactionsOk_def)
next
  case (Revise v t t')
  from ball_put [OF Revise(4) Revise(7) [unfolded transactionsOk_def]] show ?case
    by (simp add: transactionsOk_def)
next
  case (ReviseBundle v t t' f f')
  from ball_put [OF ReviseBundle(7) ball_put [OF ReviseBundle(6) ReviseBundle(10) [unfolded transactionsOk_def]]]
  show ?case by (simp add: transactionsOk_def)
next
  case (AttachFee v t t' f)
  from AttachFee(6) ball_put [OF AttachFee(5) AttachFee(10) [unfolded transactionsOk_def]]
  show ?case by (simp add: transactionsOk_def)
next
  case (DetachFee v t t' f d)
  have "txOk env v (erased d f)" using DetachFee(2,9) by (simp add: transactionsOk_def)
  from ball_put [OF this ball_put [OF DetachFee(5) DetachFee(9) [unfolded transactionsOk_def]]]
  show ?case by (simp add: transactionsOk_def)
next
  case (Erase v P d)
  from Erase(5) show ?case by (auto simp: transactionsOk_def)
qed

lemma balance_terms:
  "accId a = accId a' \<Longrightarrow> accountTerms a = accountTerms a' \<Longrightarrow> balanceAccount a = balanceAccount a'"
  by (simp add: balanceAccount_def accountTerms_def)

lemma exactBalance_append:
  "exactBalance a (ts @ us) = exactBalance a ts + (\<Sum>t\<leftarrow>us. naturalEffect t (refId a) (refNature a))"
  by (simp add: exactBalance_def)

text \<open>The effect on an account that a transaction leaves alone, or that only sees the same money.\<close>

lemma naturalEffect_kept:
  assumes "revisable v t t'" "a \<in> set (lvAccounts v)" "accArchivedAt a \<noteq> None"
  shows "naturalEffect t' (accId a) n = naturalEffect t (accId a) n"
proof (cases "sameMoney t t'")
  case True
  moreover have "txType t' = txType t" "activeTx t" "activeTx t'" using assms(1) by (simp_all add: revisable_def)
  ultimately show ?thesis
    by (cases "txBody t"; cases "txBody t'")
      (auto simp: naturalEffect_def sameMoney_def activeTx_def txType_def)
next
  case False
  then have "\<not> touches t (accId a)" "\<not> touches t' (accId a)"
    using assms by (auto simp: revisable_def accountsActive_def)
  then show ?thesis by (simp add: naturalEffect_untouched)
qed

lemma naturalEffect_erased [simp]: "naturalEffect (erased d t) i n = 0"
  by (simp add: naturalEffect_def erased_def)

lemma exactBalance_put:
  assumes "distinct (map txId ts)" "t \<in> set ts" "txId t' = txId t"
    "naturalEffect t' (refId a) (refNature a) = naturalEffect t (refId a) (refNature a)"
  shows "exactBalance a (put txId t' ts) = exactBalance a ts"
  using mset_sum_put [OF assms(1-3), of "\<lambda>t. naturalEffect t (refId a) (refNature a)"] assms(4)
  by (simp add: exactBalance_def)

lemma inactive_effect:
  "accountsActive v t \<Longrightarrow> a \<in> set (lvAccounts v) \<Longrightarrow> accArchivedAt a \<noteq> None \<Longrightarrow> naturalEffect t (accId a) n = 0"
  by (auto simp: accountsActive_def intro!: naturalEffect_untouched)

lemma archivedSettled_txs:
  assumes "archivedSettled v"
    and "\<And>a. a \<in> set (lvAccounts v) \<Longrightarrow> accArchivedAt a \<noteq> None \<Longrightarrow>
      exactBalance (balanceAccount a) ts = exactBalance (balanceAccount a) (lvTransactions v)"
  shows "archivedSettled (v\<lparr>lvTransactions := ts\<rparr>)"
  using assms by (simp add: archivedSettled_def)

lemma archivedSettled_account:
  assumes "archivedSettled v" "accountKept a a'" "a \<in> set (lvAccounts v)"
    "accArchivedAt a' \<noteq> None \<Longrightarrow> accountTerms a' = accountTerms a
      \<and> exactBalance (balanceAccount a) (lvTransactions v) = 0"
  shows "archivedSettled (v\<lparr>lvAccounts := put accId a' (lvAccounts v)\<rparr>)"
  unfolding archivedSettled_def
proof (intro ballI impI)
  fix b assume "b \<in> set (lvAccounts (v\<lparr>lvAccounts := put accId a' (lvAccounts v)\<rparr>))" "accArchivedAt b \<noteq> None"
  then have "b = a' \<and> accArchivedAt a' \<noteq> None \<or> b \<in> set (lvAccounts v) \<and> accArchivedAt b \<noteq> None"
    by (auto dest: set_put)
  then show "exactBalance (balanceAccount b) (lvTransactions (v\<lparr>lvAccounts := put accId a' (lvAccounts v)\<rparr>)) = 0"
    using assms balance_terms [of a a'] by (auto simp: archivedSettled_def accountKept_def)
qed

lemma balanceAccount_sel [simp]: "refId (balanceAccount a) = accId a" "refNature (balanceAccount a) = accNature a"
  by (simp_all add: balanceAccount_def)

lemma archivedSettled_step:
  "ledger_step env v v' \<Longrightarrow> uniqueIds v \<Longrightarrow> archivedSettled v \<Longrightarrow> archivedSettled v'"
proof (induction rule: ledger_step.induct)
  case (Record v t)
  then show ?case
    by (intro archivedSettled_txs) (simp_all add: exactBalance_append inactive_effect)
next
  case (RecordBundle v t f)
  then show ?case
    by (intro archivedSettled_txs) (simp_all add: exactBalance_append inactive_effect)
next
  case (Revise v t t')
  have t: "distinct (map txId (lvTransactions v))" "t \<in> set (lvTransactions v)" "txId t' = txId t"
    using Revise by (simp_all add: uniqueIds_def revisable_def)
  from Revise show ?case
    by (intro archivedSettled_txs exactBalance_put [OF t]) (simp_all add: naturalEffect_kept)
next
  case (ReviseBundle v t t' f f')
  have t: "distinct (map txId (lvTransactions v))" "t \<in> set (lvTransactions v)" "txId t' = txId t"
    "f \<in> set (lvTransactions v)" "txId f' = txId f" "txType t = TransferType" "txType f = ExpenseType"
    using ReviseBundle by (simp_all add: uniqueIds_def revisable_def isBundle_def)
  have f: "f \<in> set (put txId t' (lvTransactions v))"
    using t key_inj [OF t(1) t(2) t(4)] by (auto simp: put_def image_iff)
  show ?case
  proof (rule archivedSettled_txs [OF ReviseBundle(9)])
    fix a assume a: "a \<in> set (lvAccounts v)" "accArchivedAt a \<noteq> None"
    have "exactBalance (balanceAccount a) (put txId f' (put txId t' (lvTransactions v)))
        = exactBalance (balanceAccount a) (put txId t' (lvTransactions v))"
      using t(1) f t(5) naturalEffect_kept [OF ReviseBundle(2) a] by (intro exactBalance_put) simp_all
    also have "\<dots> = exactBalance (balanceAccount a) (lvTransactions v)"
      using naturalEffect_kept [OF ReviseBundle(1) a] by (intro exactBalance_put [OF t(1-3)]) simp
    finally show "exactBalance (balanceAccount a) (put txId f' (put txId t' (lvTransactions v)))
        = exactBalance (balanceAccount a) (lvTransactions v)" .
  qed
next
  case (AttachFee v t t' f)
  have t: "distinct (map txId (lvTransactions v))" "t \<in> set (lvTransactions v)" "txId t' = txId t"
    using AttachFee by (simp_all add: uniqueIds_def revisable_def)
  show ?case
  proof (rule archivedSettled_txs [OF AttachFee(9)])
    fix a assume a: "a \<in> set (lvAccounts v)" "accArchivedAt a \<noteq> None"
    then show "exactBalance (balanceAccount a) (put txId t' (lvTransactions v) @ [f])
        = exactBalance (balanceAccount a) (lvTransactions v)"
      using AttachFee by (simp add: exactBalance_append inactive_effect exactBalance_put [OF t] naturalEffect_kept)
  qed
next
  case (DetachFee v t t' f d)
  have t: "distinct (map txId (lvTransactions v))" "t \<in> set (lvTransactions v)" "txId t' = txId t"
    "txType t = TransferType" "txType f = ExpenseType"
    using DetachFee by (simp_all add: uniqueIds_def revisable_def isBundle_def)
  have f: "f \<in> set (put txId t' (lvTransactions v))"
    using t key_inj [OF t(1) t(2) DetachFee(2)] DetachFee(2) by (auto simp: put_def image_iff)
  show ?case
  proof (rule archivedSettled_txs [OF DetachFee(8)])
    fix a assume a: "a \<in> set (lvAccounts v)" "accArchivedAt a \<noteq> None"
    have "exactBalance (balanceAccount a) (put txId (erased d f) (put txId t' (lvTransactions v)))
        = exactBalance (balanceAccount a) (put txId t' (lvTransactions v))"
      using t(1) f inactive_effect [OF DetachFee(6) a]
      by (intro exactBalance_put) (simp_all add: naturalEffect_deleted erased_def)
    also have "\<dots> = exactBalance (balanceAccount a) (lvTransactions v)"
      using naturalEffect_kept [OF DetachFee(1) a] by (intro exactBalance_put [OF t(1-3)]) simp
    finally show "exactBalance (balanceAccount a) (put txId (erased d f) (put txId t' (lvTransactions v)))
        = exactBalance (balanceAccount a) (lvTransactions v)" .
  qed
next
  case (Erase v P d)
  show ?case
  proof (rule archivedSettled_txs [OF Erase(4)])
    fix a assume a: "a \<in> set (lvAccounts v)" "accArchivedAt a \<noteq> None"
    have "naturalEffect (if P t then erased d t else t) (accId a) n = naturalEffect t (accId a) n"
      if "t \<in> set (lvTransactions v)" for t n
      using inactive_effect [OF _ a] bspec [OF Erase(1) that] by (cases "P t") simp_all
    then show "exactBalance (balanceAccount a) (map (\<lambda>t. if P t then erased d t else t) (lvTransactions v))
        = exactBalance (balanceAccount a) (lvTransactions v)"
      by (simp add: exactBalance_def comp_def cong: map_cong)
  qed
next
  case (ChangeAccount a v a')
  then show ?case by (intro archivedSettled_account) (auto simp: archivedSettled_def)
next
  case (ArchiveAccount a v a')
  then show ?case by (intro archivedSettled_account) auto
next
  case (RestoreAccount a v a')
  then show ?case by (intro archivedSettled_account) auto
qed (auto simp: archivedSettled_def)

text \<open>The group sums.\<close>

lemma group_simps [simp]:
  "txGroupId t = None \<Longrightarrow> payer g t = {#}" "txGroupId t = None \<Longrightarrow> charge g t = {#}"
  "\<not> activeTx t \<Longrightarrow> payer g t = {#}" "\<not> activeTx t \<Longrightarrow> charge g t = {#}"
  "txType t = ExpenseType \<Longrightarrow> payer g t = {#}" "txType t = TransferType \<Longrightarrow> charge g t = {#}"
  by (simp_all add: payer_def charge_def)

lemma bundle_match: "isBundle t f \<Longrightarrow> payer g t = charge g f"
  by (simp add: isBundle_def payer_def charge_def)

lemma isBundle_types: "isBundle t f \<Longrightarrow> txType t = TransferType \<and> txType f = ExpenseType"
  by (simp add: isBundle_def)

lemma mem_put_other: "x \<in> set xs \<Longrightarrow> f x \<noteq> f y \<Longrightarrow> x \<in> set (put f y xs)"
  by (auto simp: put_def image_iff)

lemma bundle_members:
  assumes "uniqueIds v" "t \<in> set (lvTransactions v)" "f \<in> set (lvTransactions v)" "isBundle t f" "txId t' = txId t"
  shows "f \<in> set (put txId t' (lvTransactions v))"
proof (rule mem_put_other [OF assms(3)])
  have "t \<noteq> f" using assms(4) by (auto simp: isBundle_def)
  with assms show "txId f \<noteq> txId t'" using key_inj [of txId "lvTransactions v" t f] by (auto simp: uniqueIds_def)
qed

lemma sum_erased:
  fixes h :: "LedgerTransaction \<Rightarrow> jsstr multiset"
  assumes "\<And>t. t \<in> set ts \<Longrightarrow> P t \<Longrightarrow> h t = {#}" "\<And>t. h (erased d t) = {#}"
  shows "(\<Sum>t\<leftarrow>map (\<lambda>t. if P t then erased d t else t) ts. h t) = (\<Sum>t\<leftarrow>ts. h t)"
  using assms by (induction ts) auto

lemma sum_erased_all:
  fixes h :: "LedgerTransaction \<Rightarrow> jsstr multiset"
  assumes "\<And>t. t \<in> set ts \<Longrightarrow> \<not> P t \<Longrightarrow> h t = {#}" "\<And>t. h (erased d t) = {#}"
  shows "(\<Sum>t\<leftarrow>map (\<lambda>t. if P t then erased d t else t) ts. h t) = {#}"
  using assms by (induction ts) auto

lemma groupsMatch_step:
  "ledger_step env v v' \<Longrightarrow> uniqueIds v \<Longrightarrow> groupsMatch (lvTransactions v) \<Longrightarrow> groupsMatch (lvTransactions v')"
proof (induction rule: ledger_step.induct)
  case (Record v t)
  then show ?case by (simp add: groupsMatch_def)
next
  case (RecordBundle v t f)
  then show ?case
    using bundle_match [OF RecordBundle(4)] isBundle_types [OF RecordBundle(4)] by (simp add: groupsMatch_def)
next
  case (Revise v t t')
  have t: "distinct (map txId (lvTransactions v))" "t \<in> set (lvTransactions v)" "txId t' = txId t"
    using Revise by (simp_all add: uniqueIds_def revisable_def)
  show ?case
    using Revise mset_sum_put [OF t, of "payer g" for g] mset_sum_put [OF t, of "charge g" for g]
    by (simp add: groupsMatch_def)
next
  case (ReviseBundle v t t' f f')
  let ?ts = "lvTransactions v" and ?us = "put txId t' (lvTransactions v)"
  have t: "distinct (map txId ?ts)" "t \<in> set ?ts" "txId t' = txId t"
    and f: "distinct (map txId ?us)" "f \<in> set ?us" "txId f' = txId f"
    using ReviseBundle bundle_members [of v t f t'] by (simp_all add: uniqueIds_def revisable_def)
  note ty = isBundle_types [OF ReviseBundle(3)] isBundle_types [OF ReviseBundle(4)]
  show ?case unfolding groupsMatch_def
  proof
    fix g
    have "(\<Sum>x\<leftarrow>put txId f' ?us. payer g x) + payer g t = (\<Sum>x\<leftarrow>?ts. payer g x) + payer g t'"
      using sum_put [OF t, of "payer g"] mset_sum_put [OF f, of "payer g"] ty by simp
    moreover have "(\<Sum>x\<leftarrow>put txId f' ?us. charge g x) + charge g f = (\<Sum>x\<leftarrow>?ts. charge g x) + charge g f'"
      using sum_put [OF f, of "charge g"] mset_sum_put [OF t, of "charge g"] ty by simp
    moreover have "(\<Sum>x\<leftarrow>?ts. payer g x) = (\<Sum>x\<leftarrow>?ts. charge g x)"
      using ReviseBundle(9) by (simp add: groupsMatch_def)
    ultimately have "(\<Sum>x\<leftarrow>put txId f' ?us. payer g x) + charge g f = (\<Sum>x\<leftarrow>put txId f' ?us. charge g x) + charge g f"
      using bundle_match [OF ReviseBundle(3), of g] bundle_match [OF ReviseBundle(4), of g] by simp
    then show "(\<Sum>x\<leftarrow>lvTransactions (v\<lparr>lvTransactions := put txId f' ?us\<rparr>). payer g x)
        = (\<Sum>x\<leftarrow>lvTransactions (v\<lparr>lvTransactions := put txId f' ?us\<rparr>). charge g x)" by simp
  qed
next
  case (AttachFee v t t' f)
  have t: "distinct (map txId (lvTransactions v))" "t \<in> set (lvTransactions v)" "txId t' = txId t"
    using AttachFee by (simp_all add: uniqueIds_def revisable_def)
  have ty: "txType t = TransferType" "txType t' = TransferType" "txType f = ExpenseType"
    using AttachFee by (simp_all add: revisable_def isBundle_def)
  have "(\<Sum>x\<leftarrow>put txId t' (lvTransactions v). payer g x) = (\<Sum>x\<leftarrow>lvTransactions v. payer g x) + payer g t'" for g
    using sum_put [OF t, of "payer g"] AttachFee(2) by simp
  moreover have "(\<Sum>x\<leftarrow>put txId t' (lvTransactions v). charge g x) = (\<Sum>x\<leftarrow>lvTransactions v. charge g x)" for g
    using mset_sum_put [OF t, of "charge g"] ty by simp
  ultimately show ?case
    using AttachFee(9) bundle_match [OF AttachFee(4)] ty by (simp add: groupsMatch_def)
next
  case (DetachFee v t t' f d)
  let ?ts = "lvTransactions v" and ?us = "put txId t' (lvTransactions v)"
  have t: "distinct (map txId ?ts)" "t \<in> set ?ts" "txId t' = txId t"
    and f: "distinct (map txId ?us)" "f \<in> set ?us" "txId (erased d f) = txId f"
    using DetachFee bundle_members [of v t f t'] by (simp_all add: uniqueIds_def revisable_def)
  have ty: "txType t = TransferType" "txType t' = TransferType" "txType f = ExpenseType"
    using DetachFee by (simp_all add: revisable_def isBundle_def)
  show ?case unfolding groupsMatch_def
  proof
    fix g
    have "(\<Sum>x\<leftarrow>put txId (erased d f) ?us. payer g x) + payer g t = (\<Sum>x\<leftarrow>?ts. payer g x)"
      using sum_put [OF t, of "payer g"] mset_sum_put [OF f, of "payer g"] ty DetachFee(4) by simp
    moreover have "(\<Sum>x\<leftarrow>put txId (erased d f) ?us. charge g x) + charge g f = (\<Sum>x\<leftarrow>?ts. charge g x)"
      using sum_put [OF f, of "charge g"] mset_sum_put [OF t, of "charge g"] ty by simp
    moreover have "(\<Sum>x\<leftarrow>?ts. payer g x) = (\<Sum>x\<leftarrow>?ts. charge g x)"
      using DetachFee(8) by (simp add: groupsMatch_def)
    ultimately have "(\<Sum>x\<leftarrow>put txId (erased d f) ?us. payer g x) + charge g f
        = (\<Sum>x\<leftarrow>put txId (erased d f) ?us. charge g x) + charge g f"
      using bundle_match [OF DetachFee(3), of g] by simp
    then show "(\<Sum>x\<leftarrow>lvTransactions (v\<lparr>lvTransactions := put txId (erased d f) ?us\<rparr>). payer g x)
        = (\<Sum>x\<leftarrow>lvTransactions (v\<lparr>lvTransactions := put txId (erased d f) ?us\<rparr>). charge g x)" by simp
  qed
next
  case (Erase v P d)
  show ?case unfolding groupsMatch_def
  proof
    fix g
    let ?us = "map (\<lambda>t. if P t then erased d t else t) (lvTransactions v)"
    show "(\<Sum>x\<leftarrow>lvTransactions (v\<lparr>lvTransactions := ?us\<rparr>). payer g x)
        = (\<Sum>x\<leftarrow>lvTransactions (v\<lparr>lvTransactions := ?us\<rparr>). charge g x)"
    proof (cases "\<exists>t\<in>set (lvTransactions v). P t \<and> txGroupId t = Some g")
      case True
      then have "\<not> P u \<Longrightarrow> activeTx u \<Longrightarrow> txGroupId u \<noteq> Some g" if "u \<in> set (lvTransactions v)" for u
        using Erase(2) that by fastforce
      then have "\<not> P u \<Longrightarrow> payer g u = {#} \<and> charge g u = {#}" if "u \<in> set (lvTransactions v)" for u
        using that by (auto simp: payer_def charge_def)
      then show ?thesis by (simp add: sum_erased_all del: map_map)
    next
      case False
      then have "P u \<Longrightarrow> payer g u = {#} \<and> charge g u = {#}" if "u \<in> set (lvTransactions v)" for u
        using that by (auto simp: payer_def charge_def)
      then show ?thesis using Erase(4) by (simp add: sum_erased groupsMatch_def del: map_map)
    qed
  qed
qed simp_all

section \<open>Every reachable view\<close>

theorem Inv_step: "ledger_step env v v' \<Longrightarrow> Inv env v \<Longrightarrow> Inv env v'"
  using uniqueIds_step settingsOk_step transactionsOk_step archivedSettled_step groupsMatch_step catalogOk_step
  by (meson Inv_def)

abbreviation ledger_steps :: "ledger_env \<Rightarrow> ledger_view \<Rightarrow> ledger_view \<Rightarrow> bool" where
  "ledger_steps env \<equiv> (ledger_step env)\<^sup>*\<^sup>*"

lemma Inv_steps: "ledger_steps env v v' \<Longrightarrow> Inv env v \<Longrightarrow> Inv env v'"
  by (induction rule: rtranclp_induct) (auto intro: Inv_step)

lemma Inv_empty: "Inv env (view env empty_db)"
  by (simp add: Inv_def uniqueIds_def settingsOk_def transactionsOk_def archivedSettled_def groupsMatch_def
      catalogOk_def catsUnique_def view_def empty_db_def)

end
