(* ===== verification/RefineCore.thy ===== *)
theory RefineCore
  imports LedgerInvariant
begin

text \<open>
  The refinement, first part: what the reads of the service return on the decoded view, how its
  compare-and-set writes act on it, and that the operations on settings, accounts and categories
  are steps of \<open>ledger_step\<close>. \<open>refines env f\<close> is the statement for a callback inside a write
  transaction, \<open>safe_run env f\<close> the one for a whole service call, failures included.
\<close>

section \<open>The two statements\<close>

definition good :: "ledger_env \<Rightarrow> ledger_state \<Rightarrow> bool" where
  "good env s \<longleftrightarrow> wf_db env (stDb s) \<and> Inv env (view env (stDb s))"

definition refines :: "ledger_env \<Rightarrow> 'a svc \<Rightarrow> bool" where
  "refines env f \<longleftrightarrow> (\<forall>s r t. good env s \<longrightarrow> f s = (Inr r, t) \<longrightarrow>
     wf_db env (stDb t) \<and> ledger_steps env (view env (stDb s)) (view env (stDb t)))"

definition safe_run :: "ledger_env \<Rightarrow> 'a svc \<Rightarrow> bool" where
  "safe_run env f \<longleftrightarrow> (\<forall>s r t. good env s \<longrightarrow> \<not> stInTransaction s \<longrightarrow> f s = (r, t) \<longrightarrow>
     \<not> stInTransaction t \<and> wf_db env (stDb t) \<and> ledger_steps env (view env (stDb s)) (view env (stDb t))
     \<and> (isl r \<longrightarrow> stDb t = stDb s))"

lemma good_stDb: "stDb s = stDb t \<Longrightarrow> good env s = good env t"
  by (simp add: good_def)

lemma good_update [simp]:
  "good env (s\<lparr>stNow := n\<rparr>) = good env s" "good env (s\<lparr>stIds := n\<rparr>) = good env s"
  "good env (s\<lparr>stDateNow := n\<rparr>) = good env s" "good env (s\<lparr>stBegins := n\<rparr>) = good env s"
  "good env (s\<lparr>stInTransaction := b\<rparr>) = good env s"
  by (simp_all add: good_def)

lemma good_wf: "good env s \<Longrightarrow> wf_db env (stDb s)"
  by (simp add: good_def)

lemma good_unique:
  assumes "good env s"
  shows "distinct (map accId (lvAccounts (view env (stDb s))))"
    "distinct (map txId (lvTransactions (view env (stDb s))))" "catsUnique (lvCategories (view env (stDb s)))"
  using assms by (simp_all add: good_def Inv_def uniqueIds_def)

lemma safe_run_good:
  assumes "safe_run env f" "good env s" "\<not> stInTransaction s" "f s = (r, t)"
  shows "good env t" "\<not> stInTransaction t"
  using assms Inv_steps unfolding safe_run_def good_def by blast+

lemma refines_write:
  assumes "refines env f" shows "safe_run env (runLedgerWrite env f)"
  unfolding safe_run_def
proof (intro allI impI)
  fix s r t assume g: "good env s" and out: "\<not> stInTransaction s" and run: "runLedgerWrite env f s = (r, t)"
  let ?s = "s\<lparr>stBegins := Suc (stBegins s), stInTransaction := True\<rparr>"
  show "\<not> stInTransaction t \<and> wf_db env (stDb t) \<and> ledger_steps env (view env (stDb s)) (view env (stDb t))
      \<and> (isl r \<longrightarrow> stDb t = stDb s)"
  proof (cases r)
    case (Inl e)
    with run runLedgerWrite_rollback [OF out, of env f e t] g show ?thesis by (simp add: good_wf)
  next
    case (Inr a)
    from runLedgerWrite_commit [OF out run [unfolded Inr]] obtain u where
      u: "f ?s = (Inr a, u)" "t = u\<lparr>stInTransaction := False\<rparr>" by blast
    have "good env ?s" using g by simp
    with assms u(1) have "wf_db env (stDb u) \<and> ledger_steps env (view env (stDb ?s)) (view env (stDb u))"
      unfolding refines_def by blast
    with u(2) Inr show ?thesis by simp
  qed
qed

lemma insertIdempotencyRecord_view:
  "insertIdempotencyRecord d db = Inr db' \<Longrightarrow> view env db' = view env db \<and> wf_db env db' = wf_db env db"
  by (auto simp: insertIdempotencyRecord_def Let_def split: if_split_asm)

lemma refines_create:
  assumes "refines env m" shows "safe_run env (executeIdempotentLedgerCreate env scope key request m)"
  unfolding safe_run_def
proof (intro allI impI)
  fix s r t assume g: "good env s" and out: "\<not> stInTransaction s"
    and run: "executeIdempotentLedgerCreate env scope key request m s = (r, t)"
  let ?s = "s\<lparr>stBegins := Suc (stBegins s), stInTransaction := True\<rparr>"
  show "\<not> stInTransaction t \<and> wf_db env (stDb t) \<and> ledger_steps env (view env (stDb s)) (view env (stDb t))
      \<and> (isl r \<longrightarrow> stDb t = stDb s)"
  proof (cases "fingerprintLedgerMutation env request")
    case (Inl e)
    then have "r = Inl e \<and> t = s"
      using run by (simp add: executeIdempotentLedgerCreate_def bnd_def liftR_def)
    with g out show ?thesis by (simp add: good_wf)
  next
    case (Inr fp)
    then obtain h where h: "runLedgerWrite env h s = (r, t)"
      using run unfolding executeIdempotentLedgerCreate_def bnd_def liftR_def by auto
    note flag = runLedgerWrite_flag [OF out h]
    show ?thesis
    proof (cases r)
      case (Inl e)
      with h runLedgerWrite_rollback [OF out, of env h e t] g show ?thesis by (simp add: good_wf)
    next
      case (Inr a)
      show ?thesis
      proof (cases rule: execute_cases [OF out run [unfolded Inr], case_names replayed executed])
        case (replayed d fp)
        with flag g Inr show ?thesis by (simp add: good_wf)
      next
        case (executed m' u fp d)
        have "good env ?s" using g by simp
        with assms executed(3) have "wf_db env (stDb u) \<and> ledger_steps env (view env (stDb ?s)) (view env (stDb u))"
          unfolding refines_def by blast
        with insertIdempotencyRecord_view [OF executed(4)] flag Inr show ?thesis by simp
      qed
    qed
  qed
qed

section \<open>Reads\<close>

lemma requireSettings_iff [led_simps]:
  "good env s \<Longrightarrow> requireSettings env s = (Inr x, t) \<longleftrightarrow> lvSettings (view env (stDb s)) = Some x \<and> t = s"
  by (auto simp: requireSettings_def led_simps getSettings_view good_wf)

lemma requireAccount_iff [led_simps]:
  "good env s \<Longrightarrow> requireAccount env i s = (Inr a, t) \<longleftrightarrow> accountOf (view env (stDb s)) i = Some a \<and> t = s"
  by (auto simp: requireAccount_def led_simps getAccount_view good_wf accountOf_def)

lemma requireActiveAccount_iff [led_simps]:
  "good env s \<Longrightarrow> requireActiveAccount env i s = (Inr a, t) \<longleftrightarrow>
     accountOf (view env (stDb s)) i = Some a \<and> accArchivedAt a = None \<and> t = s"
  by (auto simp: requireActiveAccount_def led_simps)

lemma requireCategory_iff [led_simps]:
  "good env s \<Longrightarrow> requireCategory env i s = (Inr c, t) \<longleftrightarrow> categoryOf (view env (stDb s)) i = Some c \<and> t = s"
  by (auto simp: requireCategory_def led_simps getCategory_view good_wf categoryOf_def)

lemma findCategoryByIdentity_iff [led_simps]:
  "good env s \<Longrightarrow> readDb (findCategoryByIdentity env kind n) s = (Inr x, t) \<longleftrightarrow>
     x = find (\<lambda>c. catKind c = kind \<and> catNormalizedName c = n) (lvCategories (view env (stDb s))) \<and> t = s"
  by (auto simp: led_simps findCategoryByIdentity_view good_wf)

text \<open>The balance the service computes is the exact one.\<close>

lemma currentBalance_exact:
  assumes "good env s" "currentBalance env a s = (Inr b, t)"
  shows "t = s" "b = exactBalance (balanceAccount a) (lvTransactions (view env (stDb s)))"
proof -
  let ?ts = "lvTransactions (view env (stDb s))"
  let ?us = "orderBy transactionsOrder (filter (\<lambda>t. activeTx t \<and> touches t (accId a)) ?ts)"
  have d: "deriveCurrentBalance (balanceAccount a) ?us = Inr b" and "t = s"
    using assms by (auto simp: currentBalance_def led_simps listActiveTransactionsForAccount_view good_wf)
  then show "t = s" by simp
  have "b = exactBalance (balanceAccount a) ?us" using deriveCurrentBalance_exact [OF d] .
  also have "\<dots> = exactBalance (balanceAccount a) (filter (\<lambda>t. activeTx t \<and> touches t (accId a)) ?ts)"
    by (rule exactBalance_mset) simp
  also have "\<dots> = exactBalance (balanceAccount a) ?ts"
    by (rule exactBalance_filter) (auto simp: activeTx_def naturalEffect_untouched naturalEffect_deleted)
  finally show "b = exactBalance (balanceAccount a) ?ts" .
qed

text \<open>Building a response writes nothing.\<close>

lemma currentBalance_state: "currentBalance env a s = (r, t) \<Longrightarrow> t = s"
  by (auto simp: currentBalance_def bnd_def readDb_def ask_def liftR_def split: sum.split_asm prod.split_asm)

lemma toAccountDto_state: "toAccountDto env a s = (r, t) \<Longrightarrow> t = s"
  by (auto simp: toAccountDto_def bnd_def liftR_def ret_def dest: currentBalance_state
      split: sum.split_asm prod.split_asm)

section \<open>Compare-and-set writes\<close>

lemma cas_put:
  assumes "distinct (map f xs)" "a \<in> set xs" "f (h a) = f a"
  shows "map (\<lambda>x. if f x = f a \<and> ver x = ver a then h x else x) xs = put f (h a) xs"
  unfolding put_def
proof (rule map_cong [OF refl])
  fix x assume x: "x \<in> set xs"
  show "(if f x = f a \<and> ver x = ver a then h x else x) = (if f x = f (h a) then h a else x)"
    using key_inj [OF assms(1) x assms(2)] assms(3) by auto
qed

lemma updateAccount_put:
  assumes g: "good env s" and a: "a \<in> set (lvAccounts (view env (stDb s)))" and valid: "valid_acc env a'"
    and k: "accId a' = accId a" "accCreatedAt a' = accCreatedAt a" "accVersion a = v"
    and upd: "updateAccount a' v (stDb s) = Inr (n, db')"
  shows "wf_db env db'"
    "view env db' = (view env (stDb s))\<lparr>lvAccounts := put accId (storedAccount a') (lvAccounts (view env (stDb s)))\<rparr>"
proof -
  note u = updateAccount_view [OF good_wf [OF g] valid upd]
  show "wf_db env db'" by (rule u(1))
  have e: "a'\<lparr>accCreatedAt := accCreatedAt a\<rparr> = a'" using k(2) by simp
  show "view env db' = (view env (stDb s))\<lparr>lvAccounts := put accId (storedAccount a') (lvAccounts (view env (stDb s)))\<rparr>"
    using u(2) cas_put [OF good_unique(1) [OF g] a, of "\<lambda>x. storedAccount (a'\<lparr>accCreatedAt := accCreatedAt x\<rparr>)" accVersion]
      k by (simp add: e)
qed

lemma updateCategory_put:
  assumes g: "good env s" and a: "c \<in> set (lvCategories (view env (stDb s)))" and valid: "valid_cat env c'"
    and k: "catId c' = catId c" "catCreatedAt c' = catCreatedAt c" "catVersion c = v"
    and upd: "updateCategory c' v (stDb s) = Inr (n, db')"
  shows "wf_db env db'"
    "view env db' = (view env (stDb s))\<lparr>lvCategories := put catId (storedCategory c') (lvCategories (view env (stDb s)))\<rparr>"
    "catsUnique (put catId (storedCategory c') (lvCategories (view env (stDb s))))"
proof -
  note u = updateCategory_view [OF good_wf [OF g] valid upd]
  have d: "distinct (map catId (lvCategories (view env (stDb s))))"
    using good_unique(3) [OF g] by (simp add: catsUnique_def)
  show "wf_db env db'" by (rule u(1))
  have e: "c'\<lparr>catCreatedAt := catCreatedAt c\<rparr> = c'" using k(2) by simp
  show v: "view env db' = (view env (stDb s))\<lparr>lvCategories := put catId (storedCategory c') (lvCategories (view env (stDb s)))\<rparr>"
    using u(2) cas_put [OF d a, of "\<lambda>x. storedCategory (c'\<lparr>catCreatedAt := catCreatedAt x\<rparr>)" catVersion] k by (simp add: e)
  show "catsUnique (put catId (storedCategory c') (lvCategories (view env (stDb s))))" using u(4) v by simp
qed

lemma updateTransaction_put:
  assumes g: "wf_db env db" "distinct (map txId (lvTransactions (view env db)))"
    and a: "t \<in> set (lvTransactions (view env db))" and valid: "valid_tx env t'"
    and k: "txId t' = txId t" "txCreatedAt t' = txCreatedAt t" "txVersion t = v"
    and upd: "updateTransaction t' v db = Inr (1, db')"
  shows "wf_db env db'"
    "view env db' = (view env db)\<lparr>lvTransactions := put txId t' (lvTransactions (view env db))\<rparr>"
    "groupOk t'"
proof -
  note u = updateTransaction_view [OF g(1) valid upd]
  show "wf_db env db'" by (rule u(1))
  have e: "t'\<lparr>txCreatedAt := txCreatedAt t\<rparr> = t'" using k(2) by simp
  show "view env db' = (view env db)\<lparr>lvTransactions := put txId t' (lvTransactions (view env db))\<rparr>"
    using u(2) cas_put [OF g(2) a, of "\<lambda>x. t'\<lparr>txCreatedAt := txCreatedAt x\<rparr>" txVersion] k by (simp add: e)
  show "groupOk t'" using u(4) by simp
qed

lemma softDeleteTransaction_put:
  assumes g: "wf_db env db" "distinct (map txId (lvTransactions (view env db)))"
    and a: "t \<in> set (lvTransactions (view env db))"
    and k: "utcOk env d" "txVersion t = v" "txVersion t < MAX_SAFE_INTEGER"
    and upd: "softDeleteTransaction (txId t) d (txVersion t + 1) d v db = Inr (n, db')"
  shows "wf_db env db'"
    "view env db' = (view env db)\<lparr>lvTransactions := put txId (erased d t) (lvTransactions (view env db))\<rparr>"
proof -
  have "valid_tx env t" using view_transactions_valid [OF g(1) a] .
  then have ver: "safeInt (txVersion t + 1)" "1 \<le> txVersion t + 1"
    using k(3) by (auto simp: valid_tx_def safeInt_def MAX_SAFE_INTEGER_def)
  note u = softDeleteTransaction_view [OF g(1) k(1) k(1) ver upd]
  show "wf_db env db'" by (rule u(1))
  have "map (\<lambda>x. if txId x = txId t \<and> txVersion x = txVersion t
       then x\<lparr>txDeletedAt := Some d, txVersion := txVersion t + 1, txUpdatedAt := d\<rparr> else x) (lvTransactions (view env db))
      = put txId (erased d t) (lvTransactions (view env db))"
    unfolding erased_def
    by (rule cas_put [OF g(2) a, of "\<lambda>x. x\<lparr>txDeletedAt := Some d, txVersion := txVersion t + 1, txUpdatedAt := d\<rparr>" txVersion]) simp
  then show "view env db' = (view env db)\<lparr>lvTransactions := put txId (erased d t) (lvTransactions (view env db))\<rparr>"
    using u(2) k(2) by simp
qed

section \<open>Unrolling a handler\<close>

lemma refinesI:
  "(\<And>s r t. good env s \<Longrightarrow> f s = (Inr r, t) \<Longrightarrow>
     wf_db env (stDb t) \<and> ledger_steps env (view env (stDb s)) (view env (stDb t))) \<Longrightarrow> refines env f"
  by (simp add: refines_def)

lemma optField_own: "optField r k p = Inr x \<Longrightarrow> x = None \<or> hasOwn r k"
  by (auto simp: optField_def split: if_split_asm)

lemma keysWithin_absent: "keysWithin r ks \<Longrightarrow> k \<notin> set ks \<Longrightarrow> \<not> hasOwn r k"
  by (force simp: keysWithin_def hasOwn_def list_all_iff dest: map_of_SomeD)

lemma asMutationRecord_JObj: "asRecord v = Inr r \<Longrightarrow> asMutationRecord v = Some r"
  by (cases v) (auto simp: asRecord_def asMutationRecord_def)

lemma step_done:
  "wf_db env db \<Longrightarrow> ledger_step env v (view env db) \<Longrightarrow> wf_db env db \<and> ledger_steps env v (view env db)"
  by auto

lemma accountPatch_own:
  assumes "parseAccountPatchRequest env (JObj r) = Inr p"
  shows "apNature p = None \<or> hasOwn r ''nature''"
    and "apOpeningBalanceMinor p = None \<or> hasOwn r ''openingBalanceMinor''"
    and "apOpeningDate p = None \<or> hasOwn r ''openingDate''"
  using assms unfolding parseAccountPatchRequest_def asRecord_def
  by (auto simp: led_simps dest: optField_own [of r "''nature''"])
    (auto simp: led_simps dest: optField_own [of r "''openingBalanceMinor''"] optField_own [of r "''openingDate''"])

lemma archived_patch:
  assumes p: "parseAccountPatchRequest env v = Inr p" and r: "asMutationRecord v = Some r"
    and k: "keysWithin r [''expectedVersion'', ''name'', ''note'']"
  shows "apNature p = None \<and> apOpeningBalanceMinor p = None \<and> apOpeningDate p = None"
proof -
  have v: "v = JObj r" using r by (cases v) (auto simp: asMutationRecord_def)
  have "\<not> hasOwn r ''nature''" "\<not> hasOwn r ''openingBalanceMinor''" "\<not> hasOwn r ''openingDate''"
    by (rule keysWithin_absent [OF k]; simp)+
  then show ?thesis using accountPatch_own [OF p [unfolded v]] by blast
qed

lemma currentBalance_iff [led_simps]:
  "currentBalance env a s = (Inr b, t) \<longleftrightarrow> fst (currentBalance env a s) = Inr b \<and> t = s"
  using currentBalance_state [of env a s] by (cases "currentBalance env a s") auto

lemma balance_of:
  "good env s \<Longrightarrow> fst (currentBalance env a s) = Inr b \<Longrightarrow>
     b = exactBalance (balanceAccount a) (lvTransactions (view env (stDb s)))"
  using currentBalance_exact(2) [of env s a b "snd (currentBalance env a s)"] by (cases "currentBalance env a s") auto

lemma account_valid: "good env s \<Longrightarrow> a \<in> set (lvAccounts (view env (stDb s))) \<Longrightarrow> valid_acc env a"
  using view_accounts_valid good_wf by blast

lemma history_view:
  "good env s \<Longrightarrow> hasAccountHistory i (stDb s) = hasHistory (view env (stDb s)) i"
  "good env s \<Longrightarrow> hasCategoryHistory i (stDb s) = categoryInUse (view env (stDb s)) i"
  by (simp_all add: hasAccountHistory_view [OF good_wf] hasHistory_def hasCategoryHistory_view [OF good_wf] categoryInUse_def)

lemma toAccountDto_iff [led_simps]:
  "toAccountDto env a s = (Inr r, t) \<longleftrightarrow> fst (toAccountDto env a s) = Inr r \<and> t = s"
  using toAccountDto_state [of env a s] by (cases "toAccountDto env a s") auto

lemma if_svc_iff [led_simps]:
  "(if b then m else n) s = (Inr r, t) \<longleftrightarrow> b \<and> m s = (Inr r, t) \<or> \<not> b \<and> n s = (Inr r, t)"
  by simp

lemma assertAccountPair_iff [led_simps]:
  "assertAccountPair ty n s = (Inr u, t) \<longleftrightarrow> isLedgerAccountTypeNature ty n \<and> t = s"
  by (auto simp: assertAccountPair_def led_simps)

lemma version_succ: "valid_acc env a \<Longrightarrow> accVersion a < MAX_SAFE_INTEGER \<Longrightarrow>
    safeInt (accVersion a + 1) \<and> 1 \<le> accVersion a + 1"
  "valid_cat env c \<Longrightarrow> catVersion c < MAX_SAFE_INTEGER \<Longrightarrow> safeInt (catVersion c + 1) \<and> 1 \<le> catVersion c + 1"
  "valid_settings env x \<Longrightarrow> setVersion x < MAX_SAFE_INTEGER \<Longrightarrow> safeInt (setVersion x + 1) \<and> 1 \<le> setVersion x + 1"
  "valid_tx env y \<Longrightarrow> txVersion y < MAX_SAFE_INTEGER \<Longrightarrow> safeInt (txVersion y + 1) \<and> 1 \<le> txVersion y + 1"
  by (auto simp: valid_acc_def valid_cat_def valid_settings_def valid_tx_def safeInt_def MAX_SAFE_INTEGER_def)

end
