(* ===== verification/RefineMasterData.thy ===== *)
theory RefineMasterData
  imports RefineCore
begin

text \<open>
  The refinement, second part: every operation on accounts, categories and settings is a sequence
  of steps of the abstract ledger, and leaves the database alone when it fails.
\<close>

section \<open>Accounts\<close>

lemma patchAccount_safe: "safe_run env (patchAccount env i value)"
  unfolding patchAccount_def
proof (rule refines_write, rule refinesI, goal_cases)
  case (1 s r t)
  note g = 1(1)
  from 1(2) show ?case
  proof (simp (no_asm_use) add: led_simps g history_view [OF g] Let_def, elim exE conjE, goal_cases Run)
    case (Run st a p now db)
    let ?v = "view env (stDb s)"
    note arch = Run(4) and p = Run(6) and hist = Run(8) and upd = Run(14)
    define a' where "a' = a
        \<lparr>accName := orElse (apName p) (accName a),
         accNote := orElse (apNote p) (accNote a),
         accCardNumber := (if apCardNumber p = None then accCardNumber a else apCardNumber p),
         accIcon := (if apIcon p = None then accIcon a else apIcon p),
         accType := orElse (apType p) (accType a), accNature := orElse (apNature p) (accNature a),
         accOpeningBalanceMinor := orElse (apOpeningBalanceMinor p) (accOpeningBalanceMinor a),
         accOpeningDate := orElse (apOpeningDate p) (accOpeningDate a),
         accVersion := accVersion a + 1, accUpdatedAt := now\<rparr>"
    have mem: "a \<in> set (lvAccounts ?v)" and i: "accId a = i" using accountOf_Some [OF Run(3)] by simp_all
    note pok = parseAccountPatchRequest_ok [OF p, unfolded accountPatchOk_def]
    have valid: "valid_acc env a'"
      using account_valid [OF g mem] version_succ(1) [OF account_valid [OF g mem] Run(10)] pok Run(9,12)
      by (auto simp: a'_def valid_acc_def orElse_def split: option.splits)
    have k: "accId a' = accId a" "accCreatedAt a' = accCreatedAt a" by (simp_all add: a'_def)
    note u = updateAccount_put [OF g mem valid k refl upd [folded a'_def]]
    have "ledger_step env ?v (?v\<lparr>lvAccounts := put accId (storedAccount a') (lvAccounts ?v)\<rparr>)"
    proof (rule ChangeAccount [OF mem])
      assume "accArchivedAt a \<noteq> None \<or> hasHistory ?v (accId a)"
      then have "apNature p = None \<and> apOpeningBalanceMinor p = None \<and> apOpeningDate p = None"
      proof
        assume "accArchivedAt a \<noteq> None"
        moreover obtain r where "asMutationRecord value = Some r"
          using p by (auto simp: parseAccountPatchRequest_def led_simps dest!: asMutationRecord_JObj)
        ultimately show ?thesis using arch archived_patch [OF p] by auto
      qed (use hist i in auto)
      then show "accountTerms (storedAccount a') = accountTerms a"
        by (simp add: accountTerms_def a'_def)
    qed (simp_all add: accountKept_def a'_def)
    with u Run(15) show ?case by auto
  qed
qed

lemma archiveAccount_safe: "safe_run env (archiveAccount env i value)"
  unfolding archiveAccount_def
proof (rule refines_write, rule refinesI, goal_cases)
  case (1 s r t)
  note g = 1(1)
  from 1(2) show ?case
  proof (simp (no_asm_use) add: led_simps g Let_def, elim exE conjE, goal_cases Run)
    case (Run st a now db)
    let ?v = "view env (stDb s)"
    define a' where "a' = a\<lparr>accArchivedAt := Some now, accVersion := accVersion a + 1, accUpdatedAt := now\<rparr>"
    have mem: "a \<in> set (lvAccounts ?v)" using accountOf_Some [OF Run(3)] by simp
    have valid: "valid_acc env a'"
      using account_valid [OF g mem] version_succ(1) [OF account_valid [OF g mem] Run(9)] Run(8)
      by (simp add: a'_def valid_acc_def)
    note u = updateAccount_put [OF g mem valid _ _ refl Run(11) [folded a'_def]]
    have "ledger_step env ?v (?v\<lparr>lvAccounts := put accId (storedAccount a') (lvAccounts ?v)\<rparr>)"
      using balance_of [OF g Run(6)] Run(4)
      by (intro ArchiveAccount [OF mem]) (simp_all add: accountKept_def accountTerms_def a'_def)
    with u Run(12) show ?case by (auto simp: a'_def)
  qed
qed

lemma restoreAccount_safe: "safe_run env (restoreAccount env i value)"
  unfolding restoreAccount_def
proof (rule refines_write, rule refinesI, goal_cases)
  case (1 s r t)
  note g = 1(1)
  from 1(2) show ?case
  proof (simp (no_asm_use) add: led_simps g Let_def, elim exE conjE disjE, goal_cases Same Run)
    case (Same st a)
    then show ?case using g by (simp add: good_wf)
  next
    case (Run st a db now)
    let ?v = "view env (stDb s)"
    define a' where "a' = a\<lparr>accArchivedAt := None, accVersion := accVersion a + 1, accUpdatedAt := now\<rparr>"
    have mem: "a \<in> set (lvAccounts ?v)" using accountOf_Some [OF Run(3)] by simp
    have valid: "valid_acc env a'"
      using account_valid [OF g mem] version_succ(1) [OF account_valid [OF g mem] Run(6)] Run(8)
      by (simp add: a'_def valid_acc_def)
    note u = updateAccount_put [OF g mem valid _ _ refl Run(10) [folded a'_def]]
    have "ledger_step env ?v (?v\<lparr>lvAccounts := put accId (storedAccount a') (lvAccounts ?v)\<rparr>)"
      by (intro RestoreAccount [OF mem]) (simp_all add: accountKept_def accountTerms_def a'_def)
    with u Run(11) show ?case by (auto simp: a'_def)
  qed
qed

lemma deleteAccount_safe: "safe_run env (deleteAccountCommand env i value)"
  unfolding deleteAccountCommand_def
proof (rule refines_write, rule refinesI, goal_cases)
  case (1 s r t)
  note g = 1(1)
  from 1(2) show ?case
  proof (simp (no_asm_use) add: led_simps g history_view [OF g] Let_def, elim exE conjE, goal_cases Run)
    case (Run st a db)
    note u = deleteAccount_view [OF good_wf [OF g] Run(7)]
    from CloseAccount [OF Run(5)] u Run(8) show ?case by auto
  qed
qed

lemma view_swap:
  "v\<lparr>lvAccounts := as, lvSettings := x\<rparr> = v\<lparr>lvSettings := x, lvAccounts := as\<rparr>"
  by simp

lemma createAccount_refines:
  assumes "accountRequestOk env q" shows "refines env (createAccountMutation env q)"
  unfolding createAccountMutation_def
proof (rule refinesI, goal_cases)
  case (1 s r t)
  note g = 1(1)
  from 1(2) show ?case
  proof (simp (no_asm_use) add: led_simps g Let_def, elim exE conjE, goal_cases Run)
    case (Run st now i s' db s'' body)
    let ?v = "view env (stDb s)"
    define a where "a = \<lparr>accId = i, accName = acName q, accType = acType q, accNature = acNature q,
      accIcon = Some (orElse (acIcon q) (js ''wallet'')), accOpeningBalanceMinor = acOpeningBalanceMinor q,
      accOpeningDate = acOpeningDate q, accCurrency = acCurrency q, accNote = acNote q,
      accCardNumber = Some (acCardNumber q), accArchivedAt = None, accVersion = 1, accCreatedAt = now,
      accUpdatedAt = now\<rparr>"
    have sv: "valid_settings env st" using view_settings_valid [OF good_wf [OF g] Run(2)] .
    have valid: "valid_acc env a"
      using assms Run(3,6,8) by (simp add: a_def valid_acc_def accountRequestOk_def)
    note u = insertAccount_view [OF good_wf [OF g] valid Run(9) [folded a_def]]
    have s': "stDb s' = db" using Run(10) by simp
    show ?case
    proof (cases "setHasCreatedAccount st")
      case True
      then have db: "stDb t = db" using Run by (auto simp: led_simps)
      have "lvSettings ?v = Some st" using Run(2) .
      then have e: "?v\<lparr>lvSettings := Some st, lvAccounts := as\<rparr> = ?v\<lparr>lvAccounts := as\<rparr>" for as
        by (cases ?v) simp
      have "ledger_step env ?v (?v\<lparr>lvSettings := Some st, lvAccounts := lvAccounts ?v @ [storedAccount a]\<rparr>)"
        using Run(2,4) True u(3) by (intro OpenAccount) (simp_all add: settingsKept_def a_def)
      with u(1,2) db show ?thesis unfolding e by auto
    next
      case False
      let ?st = "st\<lparr>setHasCreatedAccount := True\<rparr>"
      obtain db' where upd: "updateSettings ?st (setVersion st) db = Inr (1, db')" and db: "stDb t = db'"
        using Run False s' by (auto simp: led_simps)
      have st: "lvSettings (view env db) = Some st" using u(2) Run(2) by simp
      have vs: "valid_settings env ?st" using sv by (simp add: valid_settings_def)
      note w = updateSettings_view [OF u(1) st vs _ refl upd]
      have "ledger_step env ?v (?v\<lparr>lvSettings := Some (storedSettings env ?st), lvAccounts := lvAccounts ?v @ [storedAccount a]\<rparr>)"
        using Run(2,4) u(3) by (intro OpenAccount) (simp_all add: settingsKept_def a_def)
      with w u(2) db show ?thesis by (auto simp: view_swap)
    qed
  qed
qed

section \<open>Categories\<close>

lemma category_valid: "good env s \<Longrightarrow> c \<in> set (lvCategories (view env (stDb s))) \<Longrightarrow> valid_cat env c"
  using view_categories_valid good_wf by blast

lemma normalized_nonempty:
  "lower_ok env \<Longrightarrow> trim s \<noteq> [] \<Longrightarrow> normalizeLedgerCategoryName env s \<noteq> []"
  by (simp add: normalizeLedgerCategoryName_def lower_ok_def)

lemma deleteCategory_safe: "safe_run env (deleteCategoryCommand env i value)"
  unfolding deleteCategoryCommand_def
proof (rule refines_write, rule refinesI, goal_cases)
  case (1 s r t)
  note g = 1(1)
  from 1(2) show ?case
  proof (simp (no_asm_use) add: led_simps g history_view [OF g] Let_def, elim exE conjE, goal_cases Run)
    case (Run st c db)
    let ?v = "view env (stDb s)"
    note u = deleteCategory_view [OF good_wf [OF g] Run(8)]
    have "\<forall>d\<in>set (lvCategories ?v). catId d = i \<longrightarrow> \<not> isProtected d"
      using categoryOf_mem [OF good_unique(3) [OF g]] Run(3,4) by fastforce
    from DropCategory [OF Run(6) this] u Run(9) show ?case by auto
  qed
qed

lemma archiveCategory_safe: "safe_run env (archiveCategory env i value)"
  unfolding archiveCategory_def
proof (rule refines_write, rule refinesI, goal_cases)
  case (1 s r t)
  note g = 1(1)
  from 1(2) show ?case
  proof (simp (no_asm_use) add: led_simps g history_view [OF g] Let_def, elim exE conjE, goal_cases Run)
    case (Run st c now db)
    let ?v = "view env (stDb s)"
    define c' where "c' = c\<lparr>catArchivedAt := Some now, catVersion := catVersion c + 1, catUpdatedAt := now\<rparr>"
    have mem: "c \<in> set (lvCategories ?v)" and i: "catId c = i" using categoryOf_Some [OF Run(3)] by simp_all
    have valid: "valid_cat env c'"
      using category_valid [OF g mem] version_succ(2) [OF category_valid [OF g mem] Run(10)] Run(9)
      by (auto simp: c'_def valid_cat_def)
    note u = updateCategory_put [OF g mem valid _ _ refl Run(12) [folded c'_def]]
    have "ledger_step env ?v (?v\<lparr>lvCategories := put catId (storedCategory c') (lvCategories ?v)\<rparr>)"
      using Run(4,7) i u(3) by (intro ArchiveCategory [OF mem]) (simp_all add: categoryKept_def c'_def)
    with u Run(13) show ?case by (auto simp: c'_def)
  qed
qed

lemma restoreCategory_safe: "safe_run env (restoreCategory env i value)"
  unfolding restoreCategory_def
proof (rule refines_write, rule refinesI, goal_cases)
  case (1 s r t)
  note g = 1(1)
  from 1(2) show ?case
  proof (simp (no_asm_use) add: led_simps g Let_def, elim exE conjE disjE, goal_cases Same Run)
    case (Same st a)
    then show ?case using g by (simp add: good_wf)
  next
    case (Run st c db now)
    let ?v = "view env (stDb s)"
    define c' where "c' = c\<lparr>catArchivedAt := None, catVersion := catVersion c + 1, catUpdatedAt := now\<rparr>"
    have mem: "c \<in> set (lvCategories ?v)" using categoryOf_Some [OF Run(3)] by simp
    have valid: "valid_cat env c'"
      using category_valid [OF g mem] version_succ(2) [OF category_valid [OF g mem] Run(6)] Run(8)
      by (auto simp: c'_def valid_cat_def)
    note u = updateCategory_put [OF g mem valid _ _ refl Run(10) [folded c'_def]]
    have "ledger_step env ?v (?v\<lparr>lvCategories := put catId (storedCategory c') (lvCategories ?v)\<rparr>)"
      using u(3) by (intro RestoreCategory [OF mem]) (simp_all add: categoryKept_def c'_def)
    with u Run(11) show ?case by (auto simp: c'_def)
  qed
qed

lemma patchCategory_safe:
  assumes low: "lower_ok env" shows "safe_run env (patchCategory env i value)"
  unfolding patchCategory_def
proof (rule refines_write, rule refinesI, goal_cases)
  case (1 s r t)
  note g = 1(1)
  from 1(2) show ?case
  proof (simp (no_asm_use) add: led_simps g history_view [OF g] Let_def, elim exE conjE, goal_cases Run)
    case (Run st c p other now db)
    let ?v = "view env (stDb s)"
    define c' where "c' = c\<lparr>catKind := orElse (cpKind p) (catKind c), catName := orElse (cpName p) (catName c),
      catNormalizedName := normalizeLedgerCategoryName env (orElse (cpName p) (catName c)),
      catIcon := case cpIcon p of None \<Rightarrow> catIcon c | Some s \<Rightarrow> if s = js ''wallet'' then None else Some s,
      catVersion := catVersion c + 1, catUpdatedAt := now\<rparr>"
    have mem: "c \<in> set (lvCategories ?v)" and i: "catId c = i" using categoryOf_Some [OF Run(3)] by simp_all
    note vc = category_valid [OF g mem]
    have name: "trim (orElse (cpName p) (catName c)) \<noteq> []"
      using parseCategoryPatchRequest_ok [OF Run(6)] vc by (cases "cpName p") (auto simp: valid_cat_def)
    have sys: "catSystemKey c \<noteq> None \<longrightarrow> cpKind p = None" using Run(8) by (auto simp: isProtected_def)
    have valid: "valid_cat env c'"
      using vc version_succ(2) [OF vc Run(12)] Run(14) name sys normalized_nonempty [OF low name]
      by (auto simp: c'_def valid_cat_def)
    note u = updateCategory_put [OF g mem valid _ _ refl Run(16) [folded c'_def]]
    have "ledger_step env ?v (?v\<lparr>lvCategories := put catId (storedCategory c') (lvCategories ?v)\<rparr>)"
      using u(3) Run(8,9) i by (intro ChangeCategory [OF mem]) (auto simp: categoryKept_def c'_def)
    with u Run(17) show ?case by (auto simp: c'_def)
  qed
qed

lemma createCategory_refines:
  assumes low: "lower_ok env" and name: "trim (ccName q) \<noteq> []" shows "refines env (createCategoryMutation env q)"
  unfolding createCategoryMutation_def
proof (rule refinesI, goal_cases)
  case (1 s r t)
  note g = 1(1)
  from 1(2) show ?case
  proof (simp (no_asm_use) add: led_simps g Let_def, elim exE conjE, goal_cases Run)
    case (Run st now i db)
    let ?v = "view env (stDb s)"
    define c where "c = \<lparr>catId = i, catKind = ccKind q, catName = ccName q,
      catNormalizedName = normalizeLedgerCategoryName env (ccName q), catSystemKey = None, catIsDefault = False,
      catIcon = case ccIcon q of None \<Rightarrow> None | Some s \<Rightarrow> if s = [] \<or> s = js ''wallet'' then None else Some s,
      catSortOrder = None, catArchivedAt = None, catVersion = 1, catCreatedAt = now, catUpdatedAt = now\<rparr>"
    have valid: "valid_cat env c"
      using name normalized_nonempty [OF low name] Run(5,7) by (simp add: c_def valid_cat_def)
    note u = insertCategory_view [OF good_wf [OF g] valid Run(9) [folded c_def]]
    have "ledger_step env ?v (?v\<lparr>lvCategories := lvCategories ?v @ [storedCategory c]\<rparr>)"
      using u(2,3) Run(2) by (intro AddCategory) (simp_all add: c_def)
    with u Run(10) show ?case by auto
  qed
qed

section \<open>Settings\<close>

lemma settingsLock_kept:
  assumes lock: "checkSettingsLock s v = Inr ()" and p: "parseSettingsPatchRequest env v = Inr p"
    and h: "setHasCreatedAccount s"
  shows "orElse (spBaseCurrency p) (setBaseCurrency s) = setBaseCurrency s
    \<and> orElse (spTimezone p) (setTimezone s) = setTimezone s"
proof -
  obtain r where v: "v = JObj r" using p by (cases v) (auto simp: parseSettingsPatchRequest_def led_simps asRecord_def)
  have l: "hasOwn r ''timezone'' \<longrightarrow> getProp r ''timezone'' = JStr (setTimezone s)"
    "hasOwn r ''baseCurrency'' \<longrightarrow> normalizeLedgerCurrencyCode (getProp r ''baseCurrency'') = Inr (setBaseCurrency s)"
    using lock h v by (auto simp: checkSettingsLock_def asMutationRecord_def split: if_split_asm)
  have f: "optField r ''baseCurrency'' (parseCurrencyField r ''baseCurrency'') = Inr (spBaseCurrency p)"
    "optField r ''timezone'' (parseTimezone env r) = Inr (spTimezone p)"
    using p v by (auto simp: parseSettingsPatchRequest_def led_simps asRecord_def)
  show ?thesis
  proof
    show "orElse (spBaseCurrency p) (setBaseCurrency s) = setBaseCurrency s"
    proof (cases "spBaseCurrency p")
      case (Some c)
      then have own: "hasOwn r ''baseCurrency''" and c: "parseCurrencyField r ''baseCurrency'' = Inr c"
        using f(1) by (auto simp: optField_def led_simps split: if_split_asm)
      from c obtain a where "getProp r ''baseCurrency'' = JStr a" "assertSupportedLedgerCurrency (JStr a) = Inr c"
        by (auto simp: parseCurrencyField_def led_simps requireString_def split: jsval.split_asm)
      with l(2) own Some show ?thesis by (simp add: assertSupported_iff del: normalizeLedgerCurrencyCode.simps)
    qed simp
    show "orElse (spTimezone p) (setTimezone s) = setTimezone s"
      using f(2) l(1) by (cases "spTimezone p") (auto simp: optField_def parseTimezone_def led_simps
        requireString_def isIanaTimeZoneId_iff split: if_split_asm)
  qed
qed

lemma patchSettings_safe: "safe_run env (patchSettings env value)"
  unfolding patchSettings_def
proof (rule refines_write, rule refinesI, goal_cases)
  case (1 s r t)
  note g = 1(1)
  from 1(2) show ?case
  proof (simp (no_asm_use) add: led_simps g Let_def, elim exE conjE, goal_cases Run)
    case (Run x p now db)
    let ?v = "view env (stDb s)"
    define x' where "x' = x\<lparr>setBaseCurrency := orElse (spBaseCurrency p) (setBaseCurrency x),
      setTimezone := orElse (spTimezone p) (setTimezone x),
      setAccountIcons := orElse (spAccountIcons p) (setAccountIcons x),
      setVersion := setVersion x + 1, setUpdatedAt := now\<rparr>"
    have vx: "valid_settings env x" using view_settings_valid [OF good_wf [OF g] Run(2)] .
    have valid: "valid_settings env x'"
      using vx version_succ(3) [OF vx Run(7)] parseSettingsPatchRequest_ok [OF Run(5)] Run(9)
      by (auto simp: x'_def valid_settings_def orElse_def split: option.split)
    note u = updateSettings_view [OF good_wf [OF g] Run(2) valid _ refl Run(11) [folded x'_def]]
    have "ledger_step env ?v (?v\<lparr>lvSettings := Some (storedSettings env x')\<rparr>)"
      using settingsLock_kept [OF Run(3,5)]
      by (intro Configure [OF Run(2)]) (simp_all add: settingsKept_def x'_def)
    with u Run(12) show ?case by (auto simp: x'_def)
  qed
qed

text \<open>The seed of the default catalog: one step per category that is not there yet.\<close>

definition seedOk :: "DefaultCategory \<Rightarrow> bool" where
  "seedOk e \<longleftrightarrow> trim (deName e) \<noteq> [] \<and> (deSystemKey e \<noteq> None \<longrightarrow> deKind e = ExpenseKind)
     \<and> 0 \<le> deSortOrder e \<and> safeInt (deSortOrder e)"

lemma default_seedOk: "list_all seedOk DEFAULT_LEDGER_CATEGORIES_V2"
  by (simp add: DEFAULT_LEDGER_CATEGORIES_V2_def seedOk_def trim_def jsSpace_def safeInt_def MAX_SAFE_INTEGER_def)

lemma seed_steps:
  assumes low: "lower_ok env"
  shows "list_all seedOk es \<Longrightarrow> good env s \<Longrightarrow> lvSettings (view env (stDb s)) \<noteq> None \<Longrightarrow>
     seedDefaultLedgerCategories env es s = (Inr r, t) \<Longrightarrow>
     wf_db env (stDb t) \<and> ledger_steps env (view env (stDb s)) (view env (stDb t))"
proof (induction es arbitrary: s r)
  case Nil
  then show ?case by (simp add: led_simps good_wf)
next
  case (Cons e es)
  note g = Cons.prems(2)
  from Cons.prems(4) show ?case
  proof (simp (no_asm_use) add: led_simps g Let_def, elim exE conjE disjE, goal_cases Old New)
    case (Old x)
    with Cons show ?case by auto
  next
    case (New x now i s' db)
    let ?v = "view env (stDb s)"
    define c where "c = \<lparr>catId = i, catKind = deKind e, catName = deName e,
      catNormalizedName = normalizeLedgerCategoryName env (deName e), catSystemKey = deSystemKey e,
      catIsDefault = True, catIcon = Some (deIcon e), catSortOrder = Some (deSortOrder e),
      catArchivedAt = None, catVersion = 1, catCreatedAt = now, catUpdatedAt = now\<rparr>"
    have name: "trim (deName e) \<noteq> []" using Cons.prems(1) by (simp add: seedOk_def)
    have valid: "valid_cat env c"
      using Cons.prems(1) New(5,7) normalized_nonempty [OF low name] by (auto simp: c_def valid_cat_def seedOk_def)
    note u = insertCategory_view [OF good_wf [OF g] valid New(9) [folded c_def]]
    have step: "ledger_step env ?v (?v\<lparr>lvCategories := lvCategories ?v @ [storedCategory c]\<rparr>)"
      using u(2,3) Cons.prems(1,3) by (intro AddCategory) (simp_all add: c_def seedOk_def)
    have s': "stDb s' = db" using New(10) by simp
    have g': "good env s'" using g u(1,2) step Inv_step s' by (auto simp: good_def)
    have "wf_db env (stDb t) \<and> ledger_steps env (view env (stDb s')) (view env (stDb t))"
      using Cons.IH [OF _ g' _ New(8)] Cons.prems(1,3) s' u(2) by simp
    with step u(2) s' show ?case by (auto intro: converse_rtranclp_into_rtranclp)
  qed
qed

lemma createSettings_refines:
  assumes low: "lower_ok env" and q: "currencyOk (scBaseCurrency q)" "isIanaTimeZoneId env (JStr (scTimezone q))"
  shows "refines env (createSettingsMutation env q)"
  unfolding createSettingsMutation_def
proof (rule refinesI, goal_cases)
  case (1 s r t)
  note g = 1(1)
  from 1(2) show ?case
  proof (simp (no_asm_use) add: led_simps g Let_def, elim exE conjE, goal_cases Run)
    case (Run now s' db s'' body)
    let ?v = "view env (stDb s)"
    define x where "x = \<lparr>setBaseCurrency = scBaseCurrency q, setTimezone = scTimezone q,
      setHasCreatedAccount = False, setVersion = 1, setCreatedAt = now, setUpdatedAt = now,
      setAccountIcons = \<lparr>defaultIcon = js ''wallet'', availableIcons = LEDGER_DEFAULT_ACCOUNT_ICONS,
        archivedIcons = None, customIcons = [], customIconNames = LEDGER_BUILTIN_ACCOUNT_ICONS\<rparr>\<rparr>"
    have valid: "valid_settings env x" using q Run(4) by (simp add: x_def valid_settings_def)
    note u = insertSettings_view [OF good_wf [OF g] valid Run(5) [folded x_def]]
    have step: "ledger_step env ?v (?v\<lparr>lvSettings := Some (storedSettings env x)\<rparr>)"
      using u(2) by (intro Initialize) (simp_all add: x_def)
    have s': "stDb s' = db" using Run(6) by simp
    have g': "good env s'" using g u(1,3) step Inv_step s' by (auto simp: good_def)
    have "wf_db env (stDb s'') \<and> ledger_steps env (view env (stDb s')) (view env (stDb s''))"
      using s' u(3) by (intro seed_steps [OF low default_seedOk g' _ Run(7)]) simp
    with step u(3) s' Run(10) show ?case by (auto intro: converse_rtranclp_into_rtranclp)
  qed
qed

end
