(* ===== verification/RefineTransactions.thy ===== *)
theory RefineTransactions
  imports RefineMasterData
begin

text \<open>
  The refinement, third part: creating, patching and deleting transactions and adjusting a balance
  are steps of the abstract ledger. The companion expense of a transfer is kept in step with it.
\<close>

section \<open>Guards\<close>

lemma assertTransactionCurrency_iff [led_simps]:
  "assertTransactionCurrency st a s = (Inr u, t) \<longleftrightarrow> accCurrency a = setBaseCurrency st \<and> t = s"
  by (auto simp: assertTransactionCurrency_def led_simps)

definition openAt :: "ledger_env \<Rightarrow> LedgerSettings \<Rightarrow> int \<Rightarrow> LedgerAccount \<Rightarrow> bool" where
  "openAt env st at a \<longleftrightarrow> (\<exists>b. openingBoundaryMs env (accOpeningDate a) (setTimezone st) = Inr b \<and> b \<le> at)"

lemma openingBoundaryOk_iff: "openingBoundaryOk env (setTimezone st) at a = Inr u \<longleftrightarrow> openAt env st at a"
  by (auto simp: openingBoundaryOk_def openAt_def led_simps not_less)

lemma assertTransactionTime_iff [led_simps]:
  "assertTransactionTime env st as at now s = (Inr u, t) \<longleftrightarrow>
     validateOccurredAt env (JInt at) now = Inr at \<and> (\<forall>a\<in>set as. openAt env st at a) \<and> t = s"
  by (auto simp: assertTransactionTime_def led_simps openingBoundaryOk_iff)

lemma assertCandidateCategory_iff [led_simps]:
  "good env s \<Longrightarrow> assertCandidateCategory env i k s = (Inr c, t) \<longleftrightarrow>
     categoryOf (view env (stDb s)) i = Some c \<and> catArchivedAt c = None \<and> catKind c = k \<and> t = s"
  by (auto simp: assertCandidateCategory_def led_simps)

lemma requireSystemCategory_iff [led_simps]:
  "good env s \<Longrightarrow> requireSystemCategory env k s = (Inr c, t) \<longleftrightarrow>
     find (\<lambda>c. catSystemKey c = Some k) (lvCategories (view env (stDb s))) = Some c \<and> catArchivedAt c = None \<and> t = s"
  by (auto simp: requireSystemCategory_def led_simps findCategoryBySystemKey_view good_wf split: option.splits)

lemma requireUserTransaction_iff [led_simps]:
  "good env s \<Longrightarrow> requireUserTransaction env i s = (Inr x, t) \<longleftrightarrow>
     find (\<lambda>x. txId x = i) (lvTransactions (view env (stDb s))) = Some x
     \<and> \<not> (txType x = ExpenseType \<and> txGroupId x \<noteq> None) \<and> t = s"
  by (auto simp: requireUserTransaction_def led_simps getTransaction_view good_wf split: option.splits)

text \<open>An account of a transaction is active.\<close>

definition activeAt :: "ledger_view \<Rightarrow> jsstr \<Rightarrow> bool" where
  "activeAt v i \<longleftrightarrow> (\<exists>a. accountOf v i = Some a \<and> accArchivedAt a = None)"

lemma accountsActive_iff:
  assumes "distinct (map accId (lvAccounts v))"
  shows "(\<forall>i\<in>bodyAccounts (txBody t). activeAt v i) \<Longrightarrow> accountsActive v t"
  using accountOf_mem [OF assms] by (fastforce simp: accountsActive_def activeAt_def touches_def)

lemma mapM_requireAccount:
  "good env s \<Longrightarrow> mapM (requireAccount env) is s = (Inr as, t) \<longleftrightarrow>
     t = s \<and> list_all2 (\<lambda>i a. accountOf (view env (stDb s)) i = Some a) is as"
  by (induction "is" arbitrary: as) (auto simp: led_simps list_all2_Cons1)

lemma transactionAccountIds_set: "set (transactionAccountIds b) = bodyAccounts b"
  by (cases b) auto

lemma transactionAccounts_active:
  assumes "good env s" "transactionAccounts env x s = (Inr as, t)"
  shows "t = s" "(\<forall>a\<in>set as. accArchivedAt a = None) \<longleftrightarrow> (\<forall>i\<in>bodyAccounts (txBody x). activeAt (view env (stDb s)) i)"
proof -
  have "list_all2 (\<lambda>i a. accountOf (view env (stDb s)) i = Some a) (transactionAccountIds (txBody x)) as" "t = s"
    using assms by (simp_all add: transactionAccounts_def mapM_requireAccount)
  then have "(\<forall>a\<in>set as. accArchivedAt a = None) \<longleftrightarrow>
      (\<forall>i\<in>set (transactionAccountIds (txBody x)). activeAt (view env (stDb s)) i)"
    by (induction rule: list_all2_induct) (auto simp: activeAt_def)
  then show "t = s" "(\<forall>a\<in>set as. accArchivedAt a = None) \<longleftrightarrow> (\<forall>i\<in>bodyAccounts (txBody x). activeAt (view env (stDb s)) i)"
    using \<open>t = s\<close> by (simp_all add: transactionAccountIds_set)
qed

lemma notArchived_active:
  assumes "good env s" "assertTransactionAccountsNotArchived env x s = (Inr u, t)"
  shows "t = s \<and> accountsActive (view env (stDb s)) x"
proof -
  obtain as s' where as: "transactionAccounts env x s = (Inr as, s')" "\<forall>a\<in>set as. accArchivedAt a = None" "t = s'"
    using assms(2) by (auto simp: assertTransactionAccountsNotArchived_def led_simps)
  with transactionAccounts_active [OF assms(1) as(1)] accountsActive_iff [OF good_unique(1) [OF assms(1)]]
  show ?thesis by blast
qed

section \<open>Admissible new transactions\<close>

lemma openBy_open:
  "accountOf v i = Some a \<Longrightarrow> lvSettings v = Some st \<Longrightarrow> openAt env st at a \<Longrightarrow> openBy env v at i"
  by (auto simp: openBy_def openAt_def)

lemma newTransaction_simps [simp]:
  "txId (newTransaction i g m at loc note now b) = i" "txGroupId (newTransaction i g m at loc note now b) = g"
  "txAmountMinor (newTransaction i g m at loc note now b) = m"
  "txOccurredAt (newTransaction i g m at loc note now b) = at"
  "txBody (newTransaction i g m at loc note now b) = b" "activeTx (newTransaction i g m at loc note now b)"
  "txType (newTransaction i g m at loc note now b) = bodyType b"
  by (simp_all add: newTransaction_def activeTx_def txType_def)

lemma valid_newTransaction:
  "valid_tx env (newTransaction i g m at loc note now b) \<longleftrightarrow>
     i \<noteq> [] \<and> g \<noteq> Some [] \<and> safeInt m \<and> utcOk env at \<and> utcOk env now \<and> validBody g m b"
  by (auto simp: newTransaction_def valid_tx_def)

lemma good_ids: "good env s \<Longrightarrow> accountOf (view env (stDb s)) i = Some a \<Longrightarrow> accId a = i \<and> i \<noteq> []"
  using account_valid [of env s a] accountOf_Some [of "view env (stDb s)" i a] by (auto simp: valid_acc_def)

lemma good_cat_ids: "good env s \<Longrightarrow> categoryOf (view env (stDb s)) i = Some c \<Longrightarrow> catId c = i \<and> i \<noteq> []"
  using category_valid [of env s c] categoryOf_Some [of "view env (stDb s)" i c] by (auto simp: valid_cat_def)

lemma record_one:
  assumes g: "good env s" and valid: "valid_tx env x" and ins: "insertTransaction x (stDb s) = Inr db"
    and x: "activeTx x" "txGroupId x = None" "\<forall>i\<in>bodyAccounts (txBody x). openBy env (view env (stDb s)) (txOccurredAt x) i"
      "categoryUsable (view env (stDb s)) x" "kindMatches (view env (stDb s)) (txBody x)"
      "\<forall>i\<in>bodyAccounts (txBody x). activeAt (view env (stDb s)) i"
  shows "wf_db env db \<and> ledger_steps env (view env (stDb s)) (view env db)"
proof -
  note u = insertTransaction_view [OF good_wf [OF g] valid ins]
  have "txOk env (view env (stDb s)) x" using x u(5) by (simp add: txOk_def)
  moreover have "accountsActive (view env (stDb s)) x"
    using accountsActive_iff [OF good_unique(1) [OF g]] x(6) by blast
  ultimately show ?thesis
    using Record [of "view env (stDb s)" x env] u(1,2,3) x(1,2) by (auto simp: freshTx_def)
qed

lemma record_bundle:
  assumes g: "good env s" and valid: "valid_tx env x" "valid_tx env f"
    and ins: "insertTransaction x (stDb s) = Inr db" "insertTransaction f db = Inr db'" and b: "isBundle x f"
    and opn: "\<forall>i\<in>bodyAccounts (txBody x). openBy env (view env (stDb s)) (txOccurredAt x) i"
      "\<forall>i\<in>bodyAccounts (txBody f). openBy env (view env (stDb s)) (txOccurredAt f) i"
    and use: "categoryUsable (view env (stDb s)) f" "categoryUsable (view env (stDb s)) x"
    and kind: "kindMatches (view env (stDb s)) (txBody x)" "kindMatches (view env (stDb s)) (txBody f)"
    and act: "\<forall>i\<in>bodyAccounts (txBody x). activeAt (view env (stDb s)) i"
      "\<forall>i\<in>bodyAccounts (txBody f). activeAt (view env (stDb s)) i"
  shows "wf_db env db' \<and> ledger_steps env (view env (stDb s)) (view env db')"
proof -
  let ?v = "view env (stDb s)"
  note u = insertTransaction_view [OF good_wf [OF g] valid(1) ins(1)]
  note w = insertTransaction_view [OF u(1) valid(2) ins(2)]
  have "freshTx ?v x" "freshTx ?v f" "txId f \<noteq> txId x" using u(2,3) w(3) by (auto simp: freshTx_def)
  moreover have "txOk env ?v x" "txOk env ?v f" using opn use kind u(5) w(5) by (simp_all add: txOk_def)
  moreover have "accountsActive ?v x" "accountsActive ?v f"
    using accountsActive_iff [OF good_unique(1) [OF g]] act by blast+
  ultimately have "ledger_step env ?v (?v\<lparr>lvTransactions := lvTransactions ?v @ [x, f]\<rparr>)"
    using b by (intro RecordBundle)
  then show ?thesis using u(2) w(1,2) by auto
qed

section \<open>Create\<close>

lemma createEntry_refines:
  assumes q: "entryOk env q" and g: "good env s" and st: "lvSettings (view env (stDb s)) = Some st"
    and now: "utcOk env now" and run: "createEntry env st now k q s = (Inr r, t)"
  shows "wf_db env (stDb t) \<and> ledger_steps env (view env (stDb s)) (view env (stDb t))"
  using run unfolding createEntry_def
proof (simp (no_asm_use) add: led_simps g Let_def, elim exE conjE, goal_cases Run)
  case (Run a c i db)
  let ?v = "view env (stDb s)"
  define x where "x = newTransaction i None (rqAmountMinor q) (rqOccurredAt q) (rqLocation q) (rqNote q) now
    (if k = IncomeKind then Income (accId a) (catId c) (rqPayee q) else Expense (accId a) (catId c) (rqPayee q))"
  note a = good_ids [OF g Run(2)] and c = good_cat_ids [OF g Run(4)]
  have valid: "valid_tx env x"
    using q now Run(16) a c unfolding x_def valid_newTransaction entryOk_def by simp
  have "wf_db env db \<and> ledger_steps env ?v (view env db)"
    using Run(2,3) openBy_open [OF Run(2) st Run(14)] Run(4,5,6) a c
    by (intro record_one [OF g valid Run(18) [folded x_def]]; cases k)
      (auto simp: x_def activeAt_def categoryUsable_def kindMatches_def)
  with Run(19) show ?case by simp
qed

lemma assertTransferKindAccounts_iff [led_simps]:
  "assertTransferKindAccounts k a b s = (Inr u, t) \<longleftrightarrow> transferKindMatches k a b \<and> t = s"
  by (auto simp: assertTransferKindAccounts_def led_simps)

text \<open>The amount a transfer moves after its fee: a deducted fee comes out of the requested amount.\<close>

lemma transferFee_ok:
  assumes "transferFee k amount fee mode = Inr (m, fm)" "safeInt amount" "0 < amount" "0 \<le> fee"
  shows "safeInt m" "0 < m" "fm \<noteq> None \<longrightarrow> k = Withdrawal \<and> 0 < fee"
    "m = (if fm = Some Deducted then amount - fee else amount)"
  using assms by (auto simp: transferFee_def Let_def led_simps assertPositiveMinor_iff split: if_split_asm)

lemma systemCategory_found:
  assumes "good env s" "find (\<lambda>c. catSystemKey c = Some k) (lvCategories (view env (stDb s))) = Some c"
  shows "categoryOf (view env (stDb s)) (catId c) = Some c" "catKind c = ExpenseKind" "catId c \<noteq> []"
proof -
  have c: "c \<in> set (lvCategories (view env (stDb s)))" "catSystemKey c = Some k"
    using find_Some_mem [OF assms(2)] by simp_all
  show "categoryOf (view env (stDb s)) (catId c) = Some c"
    using categoryOf_mem [OF good_unique(3) [OF assms(1)] c(1)] .
  show "catKind c = ExpenseKind" using assms(1) c by (auto simp: good_def Inv_def catalogOk_def)
  show "catId c \<noteq> []" using category_valid [OF assms(1) c(1)] by (simp add: valid_cat_def)
qed

lemma createTransfer_refines:
  assumes q: "transferOk env q" and g: "good env s" and st: "lvSettings (view env (stDb s)) = Some st"
    and now: "utcOk env now" and run: "createTransfer env st now q s = (Inr r, t)"
  shows "wf_db env (stDb t) \<and> ledger_steps env (view env (stDb s)) (view env (stDb t))"
proof (cases "0 < orElse (tqFeeMinor q) 0")
  case False
  show ?thesis using run unfolding createTransfer_def
  proof (simp (no_asm_use) add: led_simps g Let_def case_prod_unfold False, elim exE conjE, goal_cases Run)
    case (Run a b m fm i db)
    let ?v = "view env (stDb s)" and ?k = "orElse (tqTransferKind q) General"
    define x where "x = newTransaction i None m (tqOccurredAt q) (tqLocation q) (tqNote q) now
      (Transfer ?k fm (accId a) (accId b) (tqPayee q))"
    note a = good_ids [OF g Run(3)] and b = good_ids [OF g Run(5)]
    have fee: "tqFeeMinor q = None \<or> orElse (tqFeeMinor q) 0 = 0" using False Run(19) by auto
    note f = transferFee_ok [OF Run(21) _ _ Run(19)]
    have valid: "valid_tx env x"
      using q now Run(2,23) f False a b unfolding x_def valid_newTransaction transferOk_def by simp
    have "wf_db env db \<and> ledger_steps env ?v (view env db)"
      using Run(3-7) openBy_open [OF Run(3) st Run(16)] openBy_open [OF Run(5) st Run(17)] a b
      by (intro record_one [OF g valid Run(25) [folded x_def]])
        (auto simp: x_def activeAt_def categoryUsable_def kindMatches_def)
    with Run(26) show ?case by simp
  qed
next
  case True
  show ?thesis
  proof (insert run [unfolded createTransfer_def], simp (no_asm_use) add: led_simps g Let_def True, clarify,
      simp (no_asm_use) add: led_simps g Let_def True, elim exE conjE, goal_cases Run)
    case (Run a b c m fm grp i db fi db')
    let ?v = "view env (stDb s)" and ?k = "orElse (tqTransferKind q) General"
    define x where "x = newTransaction i (Some grp) m (tqOccurredAt q) (tqLocation q) (tqNote q) now
      (Transfer ?k fm (accId a) (accId b) (tqPayee q))"
    define f where "f = newTransaction fi (Some grp) (orElse (tqFeeMinor q) 0) (tqOccurredAt q) (tqLocation q)
      (tqNote q) now (Expense (accId a) (catId c) (companionPayee ?k (accName a) (accName b) (tqPayee q)))"
    note a = good_ids [OF g Run(2)] and b = good_ids [OF g Run(4)] and c = systemCategory_found [OF g Run(21)]
    note fee = transferFee_ok [OF Run(22) _ _ Run(18)]
    have valid: "valid_tx env x" "valid_tx env f"
      using q now Run(1,17,26,27,31) True fee a b c(3)
      unfolding x_def f_def valid_newTransaction transferOk_def by simp_all
    have bun: "isBundle x f" by (simp add: isBundle_def x_def f_def)
    have opn: "openBy env ?v (tqOccurredAt q) (accId a)" "openBy env ?v (tqOccurredAt q) (accId b)"
      using openBy_open [OF Run(2) st Run(15)] openBy_open [OF Run(4) st Run(16)] a b by simp_all
    have act: "activeAt ?v (accId a)" "activeAt ?v (accId b)" using Run(2-5) a b by (simp_all add: activeAt_def)
    have use: "categoryUsable ?v f" "categoryUsable ?v x"
      using c Run(23) by (simp_all add: categoryUsable_def f_def x_def)
    have kind: "kindMatches ?v (txBody x)" "kindMatches ?v (txBody f)"
      using Run(2,4,6) a b by (simp_all add: kindMatches_def x_def f_def)
    have "wf_db env db' \<and> ledger_steps env ?v (view env db')"
      using opn act
      by (intro record_bundle [OF g valid Run(29,32) [folded x_def f_def] bun _ _ use kind])
        (simp_all add: x_def f_def)
    with Run(33) show ?case by simp
  qed
qed

lemma createTransaction_refines:
  assumes "createOk env q" shows "refines env (createTransactionMutation env q)"
  unfolding createTransactionMutation_def
proof (rule refinesI, goal_cases)
  case (1 s r t)
  note g = 1(1)
  obtain st now where st: "lvSettings (view env (stDb s)) = Some st" and now: "utcOk env now"
    and body: "(case q of
       CreateIncome q \<Rightarrow> createEntry env st now IncomeKind q
     | CreateExpense q \<Rightarrow> createEntry env st now ExpenseKind q
     | CreateTransfer q \<Rightarrow> createTransfer env st now q
     | CreateAdjustment _ _ \<Rightarrow> throw ledgerValidationError) (s\<lparr>stNow := Suc (stNow s)\<rparr>) = (Inr r, t)"
    using 1(2) by (auto simp: led_simps g)
  have g': "good env (s\<lparr>stNow := Suc (stNow s)\<rparr>)" using g by simp
  show ?case
  proof (cases q)
    case (CreateIncome e)
    with createEntry_refines [OF _ g' _ now] st body assms show ?thesis by simp
  next
    case (CreateExpense e)
    with createEntry_refines [OF _ g' _ now] st body assms show ?thesis by simp
  next
    case (CreateTransfer e)
    with createTransfer_refines [OF _ g' _ now] st body assms show ?thesis by simp
  next
    case (CreateAdjustment i e)
    with body show ?thesis by (simp add: throw_iff)
  qed
qed

text \<open>What a successful adjustment did: nothing, or one new adjustment row.\<close>

lemma adjust_cases:
  assumes g: "good env s" and q: "adjustmentOk env q" and run: "adjustAccountMutation env i q s = (Inr r, t)"
  obtains a where "accountOf (view env (stDb s)) i = Some a"
      "exactBalance (balanceAccount a) (lvTransactions (view env (stDb s))) = aqExpectedCalculatedBalanceMinor q"
      "aqTargetBalanceMinor q = aqExpectedCalculatedBalanceMinor q" "stDb t = stDb s"
  | a x st where "accountOf (view env (stDb s)) i = Some a"
      "exactBalance (balanceAccount a) (lvTransactions (view env (stDb s))) = aqExpectedCalculatedBalanceMinor q"
      "accArchivedAt a = None" "lvSettings (view env (stDb s)) = Some st" "openAt env st (aqOccurredAt q) a"
      "valid_tx env x" "insertTransaction x (stDb s) = Inr (stDb t)" "activeTx x" "txGroupId x = None"
      "txBody x = Adjustment i (aqExpectedCalculatedBalanceMinor q) (aqTargetBalanceMinor q)"
      "txOccurredAt x = aqOccurredAt q"
      "txAmountMinor x = aqTargetBalanceMinor q - aqExpectedCalculatedBalanceMinor q"
proof (insert run [unfolded adjustAccountMutation_def], simp (no_asm_use) add: led_simps g Let_def,
    elim exE conjE disjE, goal_cases Same Run)
  case (Same st a now body)
  have "good env (s\<lparr>stNow := Suc (stNow s)\<rparr>)" using g by simp
  from balance_of [OF this Same(16)] show ?case by (intro Same(1) [OF Same(4)]) (simp_all add: Same)
next
  case (Run st a now j s' db body)
  define x where "x = newTransaction j None (aqTargetBalanceMinor q - aqExpectedCalculatedBalanceMinor q)
    (aqOccurredAt q) [] (aqNote q) now (Adjustment (accId a) (aqExpectedCalculatedBalanceMinor q) (aqTargetBalanceMinor q))"
  note a = good_ids [OF g Run(4)]
  have valid: "valid_tx env x"
    using q Run(8,17-20,22) a unfolding x_def valid_newTransaction adjustmentOk_def by simp
  have "good env (s\<lparr>stNow := Suc (stNow s)\<rparr>)" using g by simp
  note bal = balance_of [OF this Run(16)]
  have "insertTransaction x (stDb s) = Inr (stDb t)" using Run(23,24,27) by (simp add: x_def)
  from Run(2) [OF Run(4) _ Run(5,3,15) valid this] show ?case
    using a bal by (simp add: x_def)
qed

lemma adjustAccount_refines:
  assumes q: "adjustmentOk env q"
  shows "refines env (adjustAccountMutation env i q)"
proof (rule refinesI)
  fix s r t assume g: "good env s" and run: "adjustAccountMutation env i q s = (Inr r, t)"
  show "wf_db env (stDb t) \<and> ledger_steps env (view env (stDb s)) (view env (stDb t))"
  proof (cases rule: adjust_cases [OF g q run, case_names Same New])
    case (Same a)
    with g show ?thesis by (simp add: good_wf)
  next
    case (New a x st)
    then show ?thesis
      using openBy_open [OF New(1,4,5)]
      by (intro record_one [OF g New(6,7)]) (auto simp: activeAt_def categoryUsable_def kindMatches_def)
  qed
qed

text \<open>An adjustment brings the balance to its target.\<close>

lemma adjust_target:
  assumes g: "good env s" and q: "adjustmentOk env q" and run: "adjustAccountMutation env i q s = (Inr r, t)"
  shows "\<exists>a. accountOf (view env (stDb s)) i = Some a
    \<and> exactBalance (balanceAccount a) (lvTransactions (view env (stDb t))) = aqTargetBalanceMinor q"
proof (cases rule: adjust_cases [OF g q run, case_names Same New])
  case (Same a)
  then show ?thesis by auto
next
  case (New a x st)
  have "accId a = i" using accountOf_Some [OF New(1)] by simp
  then have "naturalEffect x (accId a) n = aqTargetBalanceMinor q - aqExpectedCalculatedBalanceMinor q" for n
    using New(8,10,12) by (simp add: naturalEffect_def activeTx_def)
  with New(1,2) insertTransaction_view(2) [OF good_wf [OF g] New(6,7)] show ?thesis
    by (simp add: exactBalance_append)
qed

section \<open>Delete\<close>

definition eraseIds :: "int \<Rightarrow> jsstr set \<Rightarrow> LedgerTransaction list \<Rightarrow> LedgerTransaction list" where
  "eraseIds d ids ts = map (\<lambda>x. if txId x \<in> ids then erased d x else x) ts"

lemma put_erased:
  assumes "distinct (map txId ts)" "x \<in> set ts"
  shows "put txId (erased d x) ts = eraseIds d {txId x} ts"
  unfolding put_def eraseIds_def using key_inj [OF assms(1) _ assms(2)] by (auto intro!: map_cong)

lemma eraseIds_ids: "map txId (eraseIds d I ts) = map txId ts"
  by (simp add: eraseIds_def comp_def if_distrib cong: if_cong)

lemma eraseIds_eraseIds: "I \<inter> J = {} \<Longrightarrow> eraseIds d J (eraseIds d I ts) = eraseIds d (I \<union> J) ts"
  by (auto simp: eraseIds_def)

lemma eraseIds_empty [simp]: "eraseIds d {} ts = ts"
  by (simp add: eraseIds_def)

lemma softDeleteItems_view:
  assumes "utcOk env now"
  shows "wf_db env (stDb s) \<Longrightarrow> distinct (map txId (lvTransactions (view env (stDb s)))) \<Longrightarrow>
    distinct (map txId items) \<Longrightarrow> set items \<subseteq> set (lvTransactions (view env (stDb s))) \<Longrightarrow>
    (\<And>x. x \<in> set items \<Longrightarrow> txId x = i \<Longrightarrow> txVersion x = ver) \<Longrightarrow>
    softDeleteItems i ver now items res s = (Inr r, t) \<Longrightarrow>
    wf_db env (stDb t) \<and> view env (stDb t) = (view env (stDb s))\<lparr>lvTransactions :=
      eraseIds now (txId ` set (filter activeTx items)) (lvTransactions (view env (stDb s)))\<rparr>"
proof (induction items arbitrary: s res)
  case Nil
  then show ?case by (simp add: led_simps)
next
  case (Cons x xs)
  let ?ts = "lvTransactions (view env (stDb s))"
  show ?case
  proof (cases "activeTx x")
    case False
    with Cons show ?thesis by (auto simp: activeTx_def)
  next
    case True
    then obtain db res' where ver: "txVersion x < MAX_SAFE_INTEGER"
      and del: "softDeleteTransaction (txId x) now (txVersion x + 1) now (txVersion x) (stDb s) = Inr (1, db)"
      and rest: "softDeleteItems i ver now xs res' (s\<lparr>stDb := db\<rparr>) = (Inr r, t)"
      using Cons.prems(5,6) by (auto simp: led_simps activeTx_def split: if_split_asm)
    have x: "x \<in> set ?ts" using Cons.prems(4) by simp
    note u = softDeleteTransaction_put [OF Cons.prems(1,2) x assms refl ver del]
    have e: "put txId (erased now x) ?ts = eraseIds now {txId x} ?ts" by (rule put_erased [OF Cons.prems(2) x])
    have "xs' \<in> set (put txId (erased now x) ?ts)" if "xs' \<in> set xs" for xs'
      using that Cons.prems(3,4) by (intro mem_put_other) (auto simp: image_iff)
    then have "wf_db env (stDb t) \<and> view env (stDb t) = (view env db)\<lparr>lvTransactions :=
        eraseIds now (txId ` set (filter activeTx xs)) (lvTransactions (view env db))\<rparr>"
      using Cons.IH [of "s\<lparr>stDb := db\<rparr>" res'] u rest Cons.prems(2,3,5) by auto
    moreover have "{txId x} \<inter> txId ` set (filter activeTx xs) = {}" using Cons.prems(3) by auto
    ultimately show ?thesis using u(2) True eraseIds_eraseIds by (simp add: e)
  qed
qed

lemma eachSvc_active:
  "good env s \<Longrightarrow> eachSvc (\<lambda>x. if txDeletedAt x = None then assertTransactionAccountsNotArchived env x else ret ()) xs s
     = (Inr u, t) \<Longrightarrow> t = s \<and> (\<forall>x\<in>set xs. activeTx x \<longrightarrow> accountsActive (view env (stDb s)) x)"
  by (induction xs arbitrary: s u)
    (auto simp: led_simps activeTx_def dest: notArchived_active split: if_split_asm)

lemma groupMembers:
  assumes g: "good env s" and x: "x \<in> set (lvTransactions (view env (stDb s)))"
    and run: "(case txGroupId x of None \<Rightarrow> ret [x] | Some h \<Rightarrow> readDb (listTransactionsByGroupId env h True)) s = (Inr ts, t)"
  shows "t = s" "distinct (map txId ts)"
    "set ts = {y \<in> set (lvTransactions (view env (stDb s))). y = x \<or> txGroupId x \<noteq> None \<and> txGroupId y = txGroupId x}"
proof -
  let ?all = "lvTransactions (view env (stDb s))"
  have r: "t = s \<and> distinct (map txId ts) \<and> set ts = {y \<in> set ?all. y = x \<or> txGroupId x \<noteq> None \<and> txGroupId y = txGroupId x}"
  proof (cases "txGroupId x")
    case None
    with run x show ?thesis by (auto simp: led_simps)
  next
    case (Some h)
    let ?us = "filter (\<lambda>y. txGroupId y = Some h) ?all"
    have ts: "t = s" "ts = orderBy transactionsOrder ?us"
      using run Some g by (auto simp: led_simps listTransactionsByGroupId_view good_wf)
    have "mset (map txId ts) = mset (map txId ?us)" unfolding ts(2) mset_map by simp
    moreover have "distinct (map txId ?us)" using good_unique(2) [OF g] by (simp add: distinct_map_filter)
    ultimately have "distinct (map txId ts)" by (rule mset_eq_imp_distinct_iff [THEN iffD2])
    with ts Some x show ?thesis by auto
  qed
  then show "t = s" "distinct (map txId ts)"
    "set ts = {y \<in> set ?all. y = x \<or> txGroupId x \<noteq> None \<and> txGroupId y = txGroupId x}" by blast+
qed

lemma deleteTransaction_safe: "safe_run env (deleteTransaction env i value)"
  unfolding deleteTransaction_def
proof (rule refines_write, rule refinesI, goal_cases)
  case (1 s r t)
  note g = 1(1)
  show ?case
  proof (insert 1(2), simp (no_asm_use) add: led_simps g Let_def, elim exE conjE disjE, goal_cases Same Run)
    case (Same st x)
    then show ?case using g by (simp add: good_wf)
  next
    case (Run st x ts s1 y s2 now res)
    let ?v = "view env (stDb s)" and ?ids = "txId ` set (filter activeTx ts)"
    have x: "x \<in> set (lvTransactions ?v)" using find_Some_mem [OF Run(2)] by simp
    note m = groupMembers [OF g x Run(5)]
    note act = eachSvc_active [OF g Run(7) [unfolded m(1)]]
    have id: "u \<in> set ts \<and> activeTx u" if "u \<in> set (lvTransactions ?v)" "txId u \<in> ?ids" for u
      using that key_inj [OF good_unique(2) [OF g]] m(3) by auto
    have ver: "txVersion u = txVersion x" if "u \<in> set ts" "txId u = txId x" for u
      using that key_inj [OF good_unique(2) [OF g] _ x] m(3) by auto
    let ?s = "s2\<lparr>stNow := Suc (stNow s2)\<rparr>"
    have db: "stDb ?s = stDb s" using act m(1) by simp
    have u: "wf_db env (stDb t) \<and> view env (stDb t) = ?v\<lparr>lvTransactions := eraseIds now ?ids (lvTransactions ?v)\<rparr>"
      using softDeleteItems_view [OF Run(10), of ?s ts "txId x" "txVersion x" None res t]
        good_wf [OF g] good_unique(2) [OF g] m(2,3) ver Run(11) unfolding db by auto
    have "ledger_step env ?v (?v\<lparr>lvTransactions := map (\<lambda>u. if txId u \<in> ?ids then erased now u else u) (lvTransactions ?v)\<rparr>)"
    proof (rule Erase)
      show "\<forall>u\<in>set (lvTransactions ?v). txId u \<in> ?ids \<longrightarrow> activeTx u \<and> accountsActive ?v u"
        using id act by blast
      show "\<forall>u\<in>set (lvTransactions ?v). \<forall>w\<in>set (lvTransactions ?v).
          txId u \<in> ?ids \<and> activeTx w \<and> txGroupId w = txGroupId u \<and> txGroupId u \<noteq> None \<longrightarrow> txId w \<in> ?ids"
      proof (intro ballI impI)
        fix u w assume uw: "u \<in> set (lvTransactions ?v)" "w \<in> set (lvTransactions ?v)"
          "txId u \<in> ?ids \<and> activeTx w \<and> txGroupId w = txGroupId u \<and> txGroupId u \<noteq> None"
        then have "u \<in> set ts" using id by blast
        with uw m(3) have "w \<in> set ts" by auto
        with uw show "txId w \<in> ?ids" by auto
      qed
    qed
    with u show ?case by (simp add: eraseIds_def r_into_rtranclp)
  qed
qed

end
