(* ===== verification/RefinePatch.thy ===== *)
theory RefinePatch
  imports RefineTransactions
begin

text \<open>
  The refinement, fourth part: patching a transaction. An entry or an adjustment is revised alone; a
  transfer is revised together with its companion expense, which the patch may add or remove.
\<close>

section \<open>What the archived whitelist leaves alone\<close>

text \<open>The fields of a patch that move money.\<close>

definition moneyKept :: "TransactionPatchRequest \<Rightarrow> bool" where
  "moneyKept p \<longleftrightarrow> tpAmountMinor p = None \<and> tpAccountId p = None \<and> tpFromAccountId p = None
     \<and> tpToAccountId p = None \<and> tpTransferKind p = None \<and> tpFeeMinor p = None \<and> tpFeeMode p = None"

lemma transactionPatch_own:
  assumes "parseTransactionPatchRequest env (JObj r) = Inr p"
  shows "tpAmountMinor p = None \<or> hasOwn r ''amountMinor''" "tpAccountId p = None \<or> hasOwn r ''accountId''"
    "tpFromAccountId p = None \<or> hasOwn r ''fromAccountId''" "tpToAccountId p = None \<or> hasOwn r ''toAccountId''"
    "tpTransferKind p = None \<or> hasOwn r ''transferKind''" "tpFeeMinor p = None \<or> hasOwn r ''feeMinor''"
    "tpFeeMode p = None \<or> hasOwn r ''feeMode''"
proof (insert assms, unfold parseTransactionPatchRequest_def asRecord_def, simp_all only: bindR_Inr_iff jsval.case, goal_cases)
  case 1 then show ?case by (auto dest: optField_own [of r "''amountMinor''"])
next
  case 2 then show ?case by (auto dest: optField_own [of r "''accountId''"])
next
  case 3 then show ?case by (auto dest: optField_own [of r "''fromAccountId''"])
next
  case 4 then show ?case by (auto dest: optField_own [of r "''toAccountId''"])
next
  case 5 then show ?case by (auto dest: optField_own [of r "''transferKind''"])
next
  case 6 then show ?case by (auto dest: optField_own [of r "''feeMinor''"])
next
  case 7 then show ?case by (auto dest: optField_own [of r "''feeMode''"])
qed

lemma whitelisted_patch:
  assumes p: "parseTransactionPatchRequest env v = Inr p" and r: "asMutationRecord v = Some r"
    and k: "keysWithin r [''expectedVersion'', ''location'', ''note'', ''payee'']
      \<or> keysWithin r [''expectedVersion'', ''location'', ''note'']"
  shows "moneyKept p"
proof -
  have v: "v = JObj r" using r by (cases v) (auto simp: asMutationRecord_def)
  have "\<not> hasOwn r k" if "k \<notin> set [''expectedVersion'', ''location'', ''note'', ''payee'']" for k
    using assms(3) that by (auto dest: keysWithin_absent [of r _ k])
  then show ?thesis
    using transactionPatch_own [OF p [unfolded v]] by (simp add: moneyKept_def)
qed

lemma candidates_state:
  "assertCandidatesNotArchived env r ks s = (Inr u, t) \<Longrightarrow> t = s"
  by (induction env r ks arbitrary: s rule: assertCandidatesNotArchived.induct)
    (auto simp: led_simps split: jsval.split_asm)

text \<open>A patch that passed the guards either finds its accounts active or moves no money.\<close>

lemma patch_guards:
  assumes g: "good env s" and w: "assertArchivedPatchWhitelist env x (asMutationRecord v) s = (Inr u, s1)"
    and c: "assertCandidateAccountsNotArchived env x (asMutationRecord v) s1 = (Inr u', s2)"
    and p: "parseTransactionPatchRequest env v = Inr p"
  shows "s1 = s" "s2 = s" "(\<forall>i\<in>bodyAccounts (txBody x). activeAt (view env (stDb s)) i) \<or> moneyKept p"
proof -
  obtain as where as: "transactionAccounts env x s = (Inr as, s1)"
    and k: "(\<forall>a\<in>set as. accArchivedAt a = None) \<or> (\<exists>r. asMutationRecord v = Some r
      \<and> (keysWithin r [''expectedVersion'', ''location'', ''note'', ''payee'']
        \<or> keysWithin r [''expectedVersion'', ''location'', ''note'']))"
    using w by (auto simp: assertArchivedPatchWhitelist_def led_simps split: if_split_asm option.split_asm)
  note a = transactionAccounts_active [OF g as]
  show "s1 = s" by (rule a(1))
  with c show "s2 = s"
    by (auto simp: assertCandidateAccountsNotArchived_def led_simps split: option.split_asm dest: candidates_state)
  show "(\<forall>i\<in>bodyAccounts (txBody x). activeAt (view env (stDb s)) i) \<or> moneyKept p"
    using k a(2) whitelisted_patch [OF p] by blast
qed

section \<open>Revising one transaction\<close>

lemma patchedAccount_iff [led_simps]:
  "good env s \<Longrightarrow>
    (case x of None \<Rightarrow> requireAccount env old | Some i \<Rightarrow> requireActiveAccount env i) s = (Inr a, t) \<longleftrightarrow>
     t = s \<and> accountOf (view env (stDb s)) (orElse x old) = Some a \<and> (x \<noteq> None \<longrightarrow> accArchivedAt a = None)"
  by (cases x) (auto simp: led_simps)

lemma patchedCategory_iff [led_simps]:
  "good env s \<Longrightarrow>
    (case x of None \<Rightarrow> requireCategory env old | Some i \<Rightarrow> assertCandidateCategory env i k) s = (Inr c, t) \<longleftrightarrow>
     t = s \<and> categoryOf (view env (stDb s)) (orElse x old) = Some c
     \<and> (x \<noteq> None \<longrightarrow> catArchivedAt c = None \<and> catKind c = k)"
  by (cases x) (auto simp: led_simps)

lemma good_txOk: "good env s \<Longrightarrow> x \<in> set (lvTransactions (view env (stDb s))) \<Longrightarrow> txOk env (view env (stDb s)) x"
  by (simp add: good_def Inv_def transactionsOk_def)

text \<open>Both versions of a transaction are of active accounts, or they move the same money.\<close>

definition movable :: "ledger_view \<Rightarrow> LedgerTransaction \<Rightarrow> LedgerTransaction \<Rightarrow> bool" where
  "movable v x x' \<longleftrightarrow> (\<forall>i\<in>bodyAccounts (txBody x) \<union> bodyAccounts (txBody x'). activeAt v i) \<or> sameMoney x x'"

definition openFor :: "ledger_env \<Rightarrow> ledger_view \<Rightarrow> LedgerTransaction \<Rightarrow> bool" where
  "openFor env v x \<longleftrightarrow> (\<forall>i\<in>bodyAccounts (txBody x). openBy env v (txOccurredAt x) i)"

lemma revisableI:
  assumes "good env s" "x \<in> set (lvTransactions (view env (stDb s)))" "activeTx x" "activeTx x'" "txId x' = txId x"
    "txType x' = txType x" "movable (view env (stDb s)) x x'"
  shows "revisable (view env (stDb s)) x x'"
  using assms accountsActive_iff [OF good_unique(1) [OF assms(1)]] by (auto simp: revisable_def movable_def)

lemma revise_one:
  assumes g: "good env s" and x: "x \<in> set (lvTransactions (view env (stDb s)))" "activeTx x" "txGroupId x = None"
    and valid: "valid_tx env x'" and k: "txId x' = txId x" "txCreatedAt x' = txCreatedAt x"
    and x': "activeTx x'" "txGroupId x' = None" "txType x' = txType x" "openFor env (view env (stDb s)) x'"
      "categoryUsable (view env (stDb s)) x'" "kindMatches (view env (stDb s)) (txBody x')"
      "movable (view env (stDb s)) x x'"
    and upd: "updateTransaction x' (txVersion x) (stDb s) = Inr (1, db)"
  shows "wf_db env db \<and> ledger_steps env (view env (stDb s)) (view env db)"
proof -
  note u = updateTransaction_put [OF good_wf [OF g] good_unique(2) [OF g] x(1) valid k refl upd]
  have "txOk env (view env (stDb s)) x'" using x' u(3) by (simp add: txOk_def openFor_def)
  with revisableI [OF g x(1,2) x'(1) k(1) x'(3,7)] x(3) x'(2)
  have "ledger_step env (view env (stDb s)) ((view env (stDb s))\<lparr>lvTransactions := put txId x' (lvTransactions (view env (stDb s)))\<rparr>)"
    by (intro Revise)
  with u show ?thesis by auto
qed

lemma updateOne_iff [led_simps]:
  "updateOne x v s = (Inr u, t) \<longleftrightarrow> (\<exists>db. updateTransaction x v (stDb s) = Inr (1, db) \<and> t = s\<lparr>stDb := db\<rparr>)"
  by (auto simp: updateOne_def led_simps)

text \<open>The fields every branch of the patch rewrites.\<close>

lemma patched_valid:
  assumes "valid_tx env x" "txVersion x < MAX_SAFE_INTEGER" "transactionPatchOk env p" "utcOk env now" "activeTx x"
    and "g \<noteq> Some []" "safeInt m" "validBody g m b"
  shows "valid_tx env (x\<lparr>txGroupId := g, txAmountMinor := m, txOccurredAt := orElse (tpOccurredAt p) (txOccurredAt x),
    txLocation := loc, txNote := note, txVersion := txVersion x + 1, txUpdatedAt := now, txBody := b\<rparr>)"
  using assms version_succ(4) [OF assms(1,2)]
  by (cases "tpOccurredAt p") (auto simp: valid_tx_def transactionPatchOk_def)

lemmas patched_valid_ungrouped = patched_valid [where g = "txGroupId x" and x = x for x, simplified]

section \<open>Entries and adjustments\<close>

lemma patchEntry_refines:
  assumes g: "good env s" and st: "lvSettings (view env (stDb s)) = Some st" and now: "utcOk env now"
    and x: "x \<in> set (lvTransactions (view env (stDb s)))" "activeTx x" "txGroupId x = None"
      "txBody x = (if k = IncomeKind then Income old c0 y else Expense old c0 y)"
    and p: "transactionPatchOk env p"
    and safe: "(\<forall>i\<in>bodyAccounts (txBody x). activeAt (view env (stDb s)) i) \<or> moneyKept p"
    and run: "patchEntry env st now k x old c0 y p s = (Inr r, t)"
  shows "wf_db env (stDb t) \<and> ledger_steps env (view env (stDb s)) (view env (stDb t))"
proof (insert run [unfolded patchEntry_def], simp (no_asm_use) add: led_simps g Let_def, elim exE conjE, goal_cases Run)
  case (Run a c db)
  let ?v = "view env (stDb s)"
  define x' where "x' = x
    \<lparr>txAmountMinor := orElse (tpAmountMinor p) (txAmountMinor x),
     txOccurredAt := orElse (tpOccurredAt p) (txOccurredAt x),
     txLocation := orElse (tpLocation p) (txLocation x), txNote := orElse (tpNote p) (txNote x),
     txVersion := txVersion x + 1, txUpdatedAt := now,
     txBody := (if k = IncomeKind then Income (accId a) (catId c) (orElse (tpPayee p) y)
                else Expense (accId a) (catId c) (orElse (tpPayee p) y))\<rparr>"
  note a = good_ids [OF g Run(1)] and c = good_cat_ids [OF g Run(3)]
  have vx: "valid_tx env x" using view_transactions_valid [OF good_wf [OF g] x(1)] .
  have amount: "safeInt (orElse (tpAmountMinor p) (txAmountMinor x))" "0 < orElse (tpAmountMinor p) (txAmountMinor x)"
    using vx x(4) p by (cases "tpAmountMinor p"; auto simp: valid_tx_def transactionPatchOk_def split: if_split_asm)+
  have valid: "valid_tx env x'"
    unfolding x'_def using vx Run(14) p now x(2,3) amount a c
    by (intro patched_valid_ungrouped) auto
  have use: "categoryUsable ?v x'"
  proof (cases "tpCategoryId p")
    case None
    then have "categoryUsable ?v x" "categoryOf ?v c0 = Some c" using good_txOk [OF g x(1)] Run(3) by (simp_all add: txOk_def)
    then show ?thesis using x(4) Run(3) c None
      by (auto simp: categoryUsable_def x'_def txType_def split: if_split_asm)
  next
    case (Some i)
    then show ?thesis using Run(3,4,5) c by (cases k) (auto simp: categoryUsable_def x'_def txType_def)
  qed
  have upd: "updateTransaction x' (txVersion x) (stDb s) = Inr (1, db)" using Run by (simp add: x'_def)
  have "wf_db env db \<and> ledger_steps env ?v (view env db)"
  proof (rule revise_one [OF g x(1-3) valid _ _ _ _ _ _ _ _ _ upd])
    show "openFor env ?v x'" using openBy_open [OF Run(1) st Run(13)] a by (simp add: openFor_def x'_def)
    show "movable ?v x x'"
      using safe
    proof
      assume act: "\<forall>i\<in>bodyAccounts (txBody x). activeAt ?v i"
      then have "activeAt ?v (accId a)"
        using Run(1,2) x(4) a by (cases "tpAccountId p") (auto simp: activeAt_def split: if_split_asm)
      with act show ?thesis by (simp add: movable_def x'_def)
    next
      assume "moneyKept p"
      then show ?thesis using a x(4) by (auto simp: movable_def sameMoney_def moneyKept_def x'_def split: if_split_asm)
    qed
  qed (use x use in \<open>auto simp: x'_def activeTx_def txType_def kindMatches_def\<close>)
  with Run show ?case by simp
qed

lemma patchAdjustment_refines:
  assumes g: "good env s" and st: "lvSettings (view env (stDb s)) = Some st" and now: "utcOk env now"
    and x: "x \<in> set (lvTransactions (view env (stDb s)))" "activeTx x" "txGroupId x = None"
      "txBody x = Adjustment i m n"
    and run: "patchAdjustment env st now x i p s = (Inr r, t)"
  shows "wf_db env (stDb t) \<and> ledger_steps env (view env (stDb s)) (view env (stDb t))"
proof (insert run [unfolded patchAdjustment_def], simp (no_asm_use) add: led_simps g Let_def, elim exE conjE, goal_cases Run)
  case (Run a db)
  let ?v = "view env (stDb s)"
  define x' where "x' = x\<lparr>txLocation := orElse (tpLocation p) (txLocation x),
     txNote := orElse (tpNote p) (txNote x), txVersion := txVersion x + 1, txUpdatedAt := now\<rparr>"
  have vx: "valid_tx env x" using view_transactions_valid [OF good_wf [OF g] x(1)] .
  have valid: "valid_tx env x'"
    using vx version_succ(4) [OF vx] Run now by (simp add: valid_tx_def x'_def)
  have upd: "updateTransaction x' (txVersion x) (stDb s) = Inr (1, db)"
    using Run by (simp add: x'_def)
  have "wf_db env db \<and> ledger_steps env ?v (view env db)"
    using good_txOk [OF g x(1)] x
    by (intro revise_one [OF g x(1-3) valid _ _ _ _ _ _ _ _ _ upd])
      (auto simp: x'_def activeTx_def txType_def txOk_def openFor_def categoryUsable_def movable_def sameMoney_def)
  with Run show ?case by simp
qed

section \<open>The companion expense\<close>

text \<open>A grouped transfer has exactly one companion, and it is paid from the account of the transfer.\<close>

lemma group_payer:
  assumes "groupsMatch ts" "x \<in> set ts" "activeTx x" "txType x = TransferType" "txGroupId x = Some h" "bodyFrom (txBody x) = Some i"
  shows "\<exists>f\<in>set ts. isBundle x f"
proof -
  have "i \<in># payer h x" using assms by (simp add: payer_def)
  then have "i \<in># (\<Sum>t\<leftarrow>ts. payer h t)" using assms(2) by (auto simp: set_mset_sum_list)
  then have "i \<in># (\<Sum>t\<leftarrow>ts. charge h t)"
    unfolding assms(1) [unfolded groupsMatch_def, rule_format, of h] .
  then obtain f where "f \<in> set ts" "i \<in># charge h f" by (auto simp: set_mset_sum_list)
  then show ?thesis using assms
    by (intro bexI [of _ f]) (auto simp: charge_def isBundle_def split: if_split_asm option.split_asm)
qed

lemma existingFee_cases:
  assumes g: "good env s" and x: "x \<in> set (lvTransactions (view env (stDb s)))" "activeTx x"
      "txBody x = Transfer k m i j y"
    and run: "existingFee env x s = (Inr fee, t)"
  shows "t = s" "case fee of None \<Rightarrow> txGroupId x = None
    | Some f \<Rightarrow> f \<in> set (lvTransactions (view env (stDb s))) \<and> isBundle x f"
proof -
  let ?ts = "lvTransactions (view env (stDb s))"
  have "t = s \<and> (case fee of None \<Rightarrow> txGroupId x = None | Some f \<Rightarrow> f \<in> set ?ts \<and> isBundle x f)"
  proof (cases "txGroupId x")
    case None
    with run show ?thesis by (auto simp: existingFee_def led_simps)
  next
    case (Some h)
    let ?us = "orderBy transactionsOrder (filter (\<lambda>y. txGroupId y = Some h) ?ts)"
    have fee: "t = s" "fee = Some (hd (filter isActiveGroupExpense ?us))" "length (filter isActiveGroupExpense ?us) = 1"
      using run Some g by (auto simp: existingFee_def led_simps Let_def listTransactionsByGroupId_view good_wf)
    then obtain f0 where f0: "filter isActiveGroupExpense ?us = [f0]" by (auto simp: length_Suc_conv)
    obtain f where f: "f \<in> set ?ts" "isBundle x f"
      using group_payer [of ?ts x h i] g x Some by (auto simp: good_def Inv_def txType_def)
    then have "f \<in> set (filter isActiveGroupExpense ?us)"
      using Some by (auto simp: isBundle_def isActiveGroupExpense_def activeTx_def)
    with f0 have "f0 = f" by simp
    with fee f0 f show ?thesis by simp
  qed
  then show "t = s" "case fee of None \<Rightarrow> txGroupId x = None | Some f \<Rightarrow> f \<in> set ?ts \<and> isBundle x f" by blast+
qed

lemma patchFeeMode_ok:
  "patchFeeMode k fee mode old = Inr fm \<Longrightarrow> fm \<noteq> None \<Longrightarrow> k = Withdrawal \<and> 0 < fee"
  by (auto simp: patchFeeMode_def led_simps split: if_split_asm)

lemma patchTransferAmount_ok:
  assumes "patchTransferAmount x oldKind oldMode fee amount k feeMinor fm = Inr m"
    and "safeInt (txAmountMinor x)" "0 < txAmountMinor x" "\<forall>i. amount = Some i \<longrightarrow> safeInt i \<and> 0 < i"
    and "\<forall>f. fee = Some f \<longrightarrow> 0 < txAmountMinor f"
  shows "safeInt m" "0 < m"
  using assms
  by (auto simp: patchTransferAmount_def led_simps assertPositiveMinor_iff split: option.split_asm if_split_asm)

text \<open>Without a new amount, kind or fee the transfer moves what it moved.\<close>

lemma patchTransferAmount_kept:
  assumes "patchTransferAmount x k oldMode fee None k feeMinor fm = Inr m" "patchFeeMode k feeMinor None oldMode = Inr fm"
    and "feeMinor = (case fee of Some f \<Rightarrow> txAmountMinor f | None \<Rightarrow> 0)"
    and "\<forall>f. fee = Some f \<longrightarrow> 0 < txAmountMinor f"
  shows "m = txAmountMinor x"
  using assms
  by (cases fee; cases oldMode)
    (auto simp: patchTransferAmount_def patchFeeMode_def led_simps orElse_def split: if_split_asm)

lemma companion_refines:
  assumes g: "good env s" and x: "x \<in> set (lvTransactions (view env (stDb s)))" "activeTx x" "txType x = TransferType"
    and valid: "valid_tx env x'" and k: "txId x' = txId x" "txCreatedAt x' = txCreatedAt x"
    and x': "activeTx x'" "txBody x' = Transfer kind mode (accId a) (accId b) payee"
      "openFor env (view env (stDb s)) x'" "kindMatches (view env (stDb s)) (txBody x')"
    and a: "accountOf (view env (stDb s)) (accId a) = Some a"
    and upd: "updateTransaction x' (txVersion x) (stDb s) = Inr (1, stDb s')"
    and fee: "case fee of None \<Rightarrow> txGroupId x = None
      | Some f \<Rightarrow> f \<in> set (lvTransactions (view env (stDb s))) \<and> isBundle x f"
    and now: "utcOk env now" and amount: "safeInt feeMinor"
    and cat: "case category of None \<Rightarrow> txGroupId x' = None
      | Some c \<Rightarrow> 0 < feeMinor \<and> find (\<lambda>c. catSystemKey c = Some key) (lvCategories (view env (stDb s))) = Some c
        \<and> catArchivedAt c = None \<and> txGroupId x' \<noteq> None \<and> (txGroupId x \<noteq> None \<longrightarrow> txGroupId x' = txGroupId x)"
    and act: "(\<forall>i\<in>bodyAccounts (txBody x) \<union> bodyAccounts (txBody x'). activeAt (view env (stDb s)) i)
      \<or> sameMoney x x' \<and> (case fee of None \<Rightarrow> category = None | Some f \<Rightarrow> category \<noteq> None \<and> feeMinor = txAmountMinor f)"
    and run: "patchCompanion env now fee x' feeMinor category a b kind payee changed s' = (Inr r, t)"
  shows "wf_db env (stDb t) \<and> ledger_steps env (view env (stDb s)) (view env (stDb t))"
proof -
  let ?v = "view env (stDb s)"
  let ?ts = "lvTransactions ?v"
  have x't: "txType x' = TransferType" using x'(2) by (simp add: txType_def)
  note u = updateTransaction_put [OF good_wf [OF g] good_unique(2) [OF g] x(1) valid k refl upd]
  have ok: "txOk env ?v x'"
    using x' u(3) by (simp add: txOk_def openFor_def categoryUsable_def)
  have mov: "movable ?v x x'" using act by (auto simp: movable_def)
  have rev: "revisable ?v x x'" using revisableI [OF g x(1,2) x'(1) k(1) _ mov] x(3) x't by simp
  note au = accountsActive_iff [OF good_unique(1) [OF g]]
  show ?thesis
  proof (cases category)
    case None
    note nocat = None
    show ?thesis
    proof (cases fee)
      case None
      then have "stDb t = stDb s'" using run nocat by (simp add: patchCompanion_def led_simps)
      moreover have "ledger_step env ?v (?v\<lparr>lvTransactions := put txId x' ?ts\<rparr>)"
        using None nocat fee cat by (intro Revise [OF rev _ _ ok]) simp_all
      ultimately show ?thesis using u(1,2) by auto
    next
      case (Some f)
      then have f: "f \<in> set ?ts" "isBundle x f" using fee by simp_all
      obtain db where ver: "txVersion f < MAX_SAFE_INTEGER"
        and del: "softDeleteTransaction (txId f) now (txVersion f + 1) now (txVersion f) (stDb s') = Inr (1, db)"
        and t: "stDb t = db"
        using run nocat Some by (auto simp: patchCompanion_def led_simps)
      have f': "f \<in> set (put txId x' ?ts)"
        using bundle_members [OF _ x(1) f k(1)] g by (simp add: good_def Inv_def)
      have fs: "f \<in> set (lvTransactions (view env (stDb s')))" "distinct (map txId (lvTransactions (view env (stDb s'))))"
        using f' u(2) good_unique(2) [OF g] by simp_all
      note d = softDeleteTransaction_put [OF u(1) fs(2,1) now refl ver del]
      have "\<forall>i\<in>bodyAccounts (txBody f). activeAt ?v i"
        using act nocat Some f(2) x(3) by (cases "txBody f"; cases "txBody x") (auto simp: isBundle_def txType_def)
      then have "ledger_step env ?v (?v\<lparr>lvTransactions := put txId (erased now f) (put txId x' ?ts)\<rparr>)"
        using nocat cat au by (intro DetachFee [OF rev f _ ok]) simp_all
      with d u(2) t show ?thesis by auto
    qed
  next
    case (Some c)
    note withcat = Some
    obtain h where h: "txGroupId x' = Some h" "0 < feeMinor" "catArchivedAt c = None"
        "txGroupId x \<noteq> None \<longrightarrow> txGroupId x' = txGroupId x"
      and key: "find (\<lambda>c. catSystemKey c = Some key) (lvCategories ?v) = Some c" using cat Some by auto
    note c = systemCategory_found [OF g key] and ai = good_ids [OF g a]
    have hne: "h \<noteq> []" "utcOk env (txOccurredAt x')" using valid h(1) by (auto simp: valid_tx_def)
    have opn: "openBy env ?v (txOccurredAt x') (accId a)" using x'(2,3) by (simp add: openFor_def)
    show ?thesis
    proof (cases fee)
      case None
      then obtain fi db pay where fi: "fi \<noteq> []"
        and ins: "insertTransaction (newTransaction fi (Some h) feeMinor (txOccurredAt x') (txLocation x') (txNote x') now
          (Expense (accId a) (catId c) pay)) (stDb s') = Inr db" and t: "stDb t = db"
        using run withcat h(1) by (auto simp: patchCompanion_def led_simps Let_def)
      define f where "f = newTransaction fi (Some h) feeMinor (txOccurredAt x') (txLocation x') (txNote x') now
          (Expense (accId a) (catId c) pay)"
      have vf: "valid_tx env f" unfolding f_def valid_newTransaction using fi hne amount now h(2) ai c(3) by simp
      note w = insertTransaction_view [OF u(1) vf ins [folded f_def]]
      have "txOk env ?v f"
        using opn c h(3) w(5) by (simp add: txOk_def f_def categoryUsable_def kindMatches_def)
      moreover have "\<forall>i\<in>bodyAccounts (txBody f). activeAt ?v i" using act None withcat x'(2) by (simp add: f_def)
      moreover have "isBundle x' f" using x' x't h(1) by (simp add: isBundle_def f_def)
      ultimately have "ledger_step env ?v (?v\<lparr>lvTransactions := put txId x' ?ts @ [f]\<rparr>)"
        using None fee w(3) u(2) ok au by (intro AttachFee [OF rev]) (simp_all add: freshTx_def)
      with w u(2) t show ?thesis by auto
    next
      case (Some f)
      then have f: "f \<in> set ?ts" "isBundle x f" using fee by simp_all
      obtain db pay where ver: "txVersion f < MAX_SAFE_INTEGER" and t: "stDb t = db"
        and up: "updateTransaction (f\<lparr>txGroupId := Some h, txAmountMinor := feeMinor, txOccurredAt := txOccurredAt x',
            txLocation := txLocation x', txNote := txNote x', txVersion := txVersion f + 1, txUpdatedAt := now,
            txBody := Expense (accId a) (catId c) pay\<rparr>) (txVersion f) (stDb s') = Inr (1, db)"
        using run withcat h(1) Some by (auto simp: patchCompanion_def led_simps Let_def)
      define f' where "f' = f\<lparr>txGroupId := Some h, txAmountMinor := feeMinor, txOccurredAt := txOccurredAt x',
            txLocation := txLocation x', txNote := txNote x', txVersion := txVersion f + 1, txUpdatedAt := now,
            txBody := Expense (accId a) (catId c) pay\<rparr>"
      have vf: "valid_tx env f" using view_transactions_valid [OF good_wf [OF g] f(1)] .
      have vf': "valid_tx env f'"
        using vf version_succ(4) [OF vf ver] hne amount now h(2) ai c(3) by (simp add: valid_tx_def f'_def)
      have mem: "f \<in> set (put txId x' ?ts)"
        using bundle_members [OF _ x(1) f k(1)] g by (simp add: good_def Inv_def)
      have fs: "f \<in> set (lvTransactions (view env (stDb s')))" "distinct (map txId (lvTransactions (view env (stDb s'))))"
        using mem u(2) good_unique(2) [OF g] by simp_all
      have idf: "txId f' = txId f" "txCreatedAt f' = txCreatedAt f" by (simp_all add: f'_def)
      note w = updateTransaction_put [OF u(1) fs(2,1) vf' idf refl up [folded f'_def]]
      have fok: "txOk env ?v f'"
        using opn c h(3) w(3) by (simp add: txOk_def f'_def categoryUsable_def kindMatches_def txType_def)
      have actf: "activeTx f'" "txType f' = txType f" using f(2) by (simp_all add: isBundle_def f'_def activeTx_def txType_def)
      have movf: "movable ?v f f'"
        using act x'(2) f(2) x(3) Some withcat
        by (cases "txBody f"; cases "txBody x") (auto simp: movable_def sameMoney_def isBundle_def txType_def f'_def)
      have revf: "revisable ?v f f'" using f(2) by (intro revisableI [OF g f(1) _ actf(1) idf(1) actf(2) movf]) (simp add: isBundle_def)
      have "isBundle x' f'" using x' x't h(1) f(2) actf by (simp add: isBundle_def f'_def)
      then have "ledger_step env ?v (?v\<lparr>lvTransactions := put txId f' (put txId x' ?ts)\<rparr>)"
        using h f(2) by (intro ReviseBundle [OF rev revf f(2) _ _ ok fok]) (auto simp: isBundle_def)
      with w u(2) t show ?thesis by auto
    qed
  qed
qed

section \<open>Patching a transfer\<close>

lemma patchTransfer_refines:
  assumes g: "good env s" and st: "lvSettings (view env (stDb s)) = Some st" and now: "utcOk env now"
    and x: "x \<in> set (lvTransactions (view env (stDb s)))" "activeTx x"
      "txBody x = Transfer oldKind oldMode i j y"
    and p: "transactionPatchOk env p"
    and safe: "(\<forall>i\<in>bodyAccounts (txBody x). activeAt (view env (stDb s)) i) \<or> moneyKept p"
    and run: "patchTransfer env st now x oldKind oldMode i j y p s = (Inr r, t)"
  shows "wf_db env (stDb t) \<and> ledger_steps env (view env (stDb s)) (view env (stDb t))"
proof (insert run [unfolded patchTransfer_def], simp (no_asm_use) add: led_simps g Let_def, elim exE conjE, goal_cases Run)
  case (Run a b fee s1 z cat s2 fm m grp s3 s4 db)
  let ?v = "view env (stDb s)" and ?k = "orElse (tpTransferKind p) oldKind"
  define feeMinor where "feeMinor = (case tpFeeMinor p of Some f \<Rightarrow> f
    | None \<Rightarrow> (case fee of Some f \<Rightarrow> txAmountMinor f | None \<Rightarrow> 0))"
  note grp = Run(25) [folded feeMinor_def] and cat = Run(22) [folded feeMinor_def]
    and fm = Run(23) [folded feeMinor_def] and m = Run(24) [folded feeMinor_def]
  define x' where "x' = x\<lparr>txGroupId := grp, txAmountMinor := m,
     txOccurredAt := orElse (tpOccurredAt p) (txOccurredAt x),
     txLocation := orElse (tpLocation p) (txLocation x), txNote := orElse (tpNote p) (txNote x),
     txVersion := txVersion x + 1, txUpdatedAt := now,
     txBody := Transfer ?k fm (accId a) (accId b) (orElse (tpPayee p) y)\<rparr>"
  note a = good_ids [OF g Run(2)] and b = good_ids [OF g Run(4)]
  note e = existingFee_cases [OF g x Run(17)]
  have g1: "good env s1" using g e(1) by simp
  have vx: "valid_tx env x" using view_transactions_valid [OF good_wf [OF g] x(1)] .
  have feeOk: "0 < txAmountMinor f \<and> safeInt (txAmountMinor f)" if "fee = Some f" for f
    using e(2) that view_transactions_valid [OF good_wf [OF g], of f]
    by (cases "txBody f") (auto simp: isBundle_def valid_tx_def txType_def)
  have amount: "safeInt m" "0 < m"
    using patchTransferAmount_ok [OF m] vx x(3) p feeOk by (auto simp: valid_tx_def transactionPatchOk_def)
  have feeSafe: "safeInt feeMinor" using p feeOk
    by (auto simp: feeMinor_def transactionPatchOk_def split: option.split)
  have grpOk: "grp \<noteq> Some []" "0 < feeMinor \<longleftrightarrow> grp \<noteq> None" "txGroupId x \<noteq> None \<longrightarrow> grp \<noteq> None \<longrightarrow> grp = txGroupId x"
    "stDb s3 = stDb s2"
    using grp vx by (auto simp: led_simps valid_tx_def split: option.split_asm)
  have s2: "stDb s2 = stDb s" "s2 = s1" using cat g1 e(1) by (auto simp: led_simps)
  have valid: "valid_tx env x'"
    unfolding x'_def using Run(1,26) vx p now x(2) amount grpOk a b patchFeeMode_ok [OF fm]
    by (intro patched_valid) auto
  have opn: "openFor env ?v x'"
    using openBy_open [OF Run(2) st Run(15)] openBy_open [OF Run(4) st Run(16)] a b by (simp add: openFor_def x'_def)
  have kind: "kindMatches ?v (txBody x')" using Run(2,4,6) a b by (simp add: kindMatches_def x'_def)
  have upd: "updateTransaction x' (txVersion x) (stDb s) = Inr (1, stDb s4)"
    using Run(29,30) grpOk(4) s2(1) by (simp add: x'_def)
  have catOk: "case cat of None \<Rightarrow> txGroupId x' = None
      | Some c \<Rightarrow> 0 < feeMinor \<and> find (\<lambda>c. catSystemKey c = Some (systemKeyFor ?k)) (lvCategories ?v) = Some c
        \<and> catArchivedAt c = None \<and> txGroupId x' \<noteq> None \<and> (txGroupId x \<noteq> None \<longrightarrow> txGroupId x' = txGroupId x)"
    using cat grpOk g1 e(1) by (auto simp: led_simps x'_def)
  have act: "(\<forall>i\<in>bodyAccounts (txBody x) \<union> bodyAccounts (txBody x'). activeAt ?v i)
      \<or> sameMoney x x' \<and> (case fee of None \<Rightarrow> cat = None | Some f \<Rightarrow> cat \<noteq> None \<and> feeMinor = txAmountMinor f)"
    using safe
  proof
    assume "\<forall>i\<in>bodyAccounts (txBody x). activeAt ?v i"
    then have "activeAt ?v (accId a) \<and> activeAt ?v (accId b)"
      using Run(2-5) a b x(3) by (cases "tpFromAccountId p"; cases "tpToAccountId p") (auto simp: activeAt_def)
    with \<open>\<forall>i\<in>bodyAccounts (txBody x). activeAt ?v i\<close> show ?thesis by (simp add: x'_def)
  next
    assume k: "moneyKept p"
    then have fe: "feeMinor = (case fee of Some f \<Rightarrow> txAmountMinor f | None \<Rightarrow> 0)"
      by (simp add: feeMinor_def moneyKept_def)
    have "m = txAmountMinor x"
      using patchTransferAmount_kept [OF _ _ fe] m fm feeOk k by (simp add: moneyKept_def)
    then have "sameMoney x x'" using k a b x(3) by (simp add: sameMoney_def x'_def moneyKept_def)
    moreover have "case fee of None \<Rightarrow> cat = None | Some f \<Rightarrow> cat \<noteq> None \<and> feeMinor = txAmountMinor f"
      using cat fe feeOk by (cases fee) auto
    ultimately show ?thesis by blast
  qed
  have ai: "accountOf ?v (accId a) = Some a" using Run(2) a by simp
  show ?case
    by (rule companion_refines [OF g x(1,2) _ valid _ _ _ _ opn kind ai upd e(2) now feeSafe catOk act
          Run(27) [folded feeMinor_def, folded x'_def]])
      (use x in \<open>simp_all add: x'_def activeTx_def txType_def\<close>)
qed

section \<open>Patching a transaction\<close>

lemma patchTransaction_safe: "safe_run env (patchTransaction env i value)"
  unfolding patchTransaction_def
proof (rule refines_write, rule refinesI, goal_cases)
  case (1 s r t)
  note g = 1(1)
  show ?case
  proof (insert 1(2), simp (no_asm_use) add: led_simps g Let_def, elim exE conjE, goal_cases Run)
    case (Run st x s1 s2 p now)
    let ?s = "s2\<lparr>stNow := Suc (stNow s2)\<rparr>" and ?v = "view env (stDb s)"
    have x: "x \<in> set (lvTransactions ?v)" "activeTx x"
      using find_Some_mem [OF Run(2)] Run(4) by (simp_all add: activeTx_def)
    note w = patch_guards [OF g Run(5,6,8)] and p = parseTransactionPatchRequest_ok [OF Run(8)]
    have g': "good env ?s" and v: "view env (stDb ?s) = ?v" using g w(1,2) by simp_all
    have ungrouped: "txGroupId x = None" if "txType x \<noteq> TransferType"
      using good_txOk [OF g x(1)] that Run(3) by (auto simp: txOk_def groupOk_def)
    note pre = g' Run(1,14) x w(3)
    show ?case
    proof (cases "txBody x")
      case (Income a c y)
      with ungrouped patchEntry_refines [OF g', of st now x IncomeKind a c y p r t] pre p Run(15)
      show ?thesis unfolding v by (simp add: txType_def)
    next
      case (Expense a c y)
      with ungrouped patchEntry_refines [OF g', of st now x ExpenseKind a c y p r t] pre p Run(15)
      show ?thesis unfolding v by (simp add: txType_def)
    next
      case (Transfer k m f to y)
      with patchTransfer_refines [OF g', of st now x k m f to y p r t] pre p Run(15)
      show ?thesis unfolding v by simp
    next
      case (Adjustment a m n)
      with ungrouped patchAdjustment_refines [OF g', of st now x a m n p r t] pre Run(15)
      show ?thesis unfolding v by (simp add: txType_def)
    qed
  qed
qed

end
