(* ===== verification/RefineApi.thy ===== *)
theory RefineApi
  imports RefinePatch
begin

text \<open>
  The refinement, last part: every request, whatever its body, is a sequence of steps of the abstract
  ledger; a request that fails changes nothing; so the invariant holds after every sequence of
  requests.
\<close>

section \<open>Reads\<close>

text \<open>A computation that leaves the state alone but for the readings of the clock, failing or not.\<close>

named_theorems reads_intros \<open>computations that leave the database alone\<close>

definition reads :: "'a svc \<Rightarrow> bool" where
  "reads f \<longleftrightarrow> (\<forall>s. \<exists>n. snd (f s) = s\<lparr>stNow := n\<rparr>)"

lemma readsI: "(\<And>s. snd (f s) = s) \<Longrightarrow> reads f"
  unfolding reads_def
proof
  fix s assume f: "\<And>s. snd (f s) = s"
  have "snd (f s) = s\<lparr>stNow := stNow s\<rparr>" by (simp add: f)
  then show "\<exists>n. snd (f s) = s\<lparr>stNow := n\<rparr>" ..
qed

lemma reads_basic [reads_intros]:
  "reads (ret a)" "reads (throw e)" "reads (liftR x)" "reads (ask f)" "reads (guardE b e)" "reads (readDb g)"
  by (rule readsI, simp add: ret_def throw_def liftR_def ask_def guardE_def readDb_def)+

lemma reads_clock [reads_intros]: "reads (captureNow env)"
  by (auto simp: reads_def captureNow_def)

lemma reads_bnd [reads_intros]:
  assumes "reads m" "\<And>a. reads (k a)" shows "reads (bnd m k)"
  unfolding reads_def
proof
  fix s
  obtain x t where m: "m s = (x, t)" by fastforce
  obtain n where t: "t = s\<lparr>stNow := n\<rparr>" using assms(1) [unfolded reads_def, THEN spec, of s] m by auto
  show "\<exists>n. snd (bnd m k s) = s\<lparr>stNow := n\<rparr>"
  proof (cases x)
    case (Inr a)
    obtain n' where "snd (k a t) = t\<lparr>stNow := n'\<rparr>" using assms(2) [unfolded reads_def] by blast
    then show ?thesis by (auto simp: bnd_def m t Inr)
  qed (auto simp: bnd_def m t)
qed

lemma reads_case [reads_intros]:
  "reads f \<Longrightarrow> (\<And>a. reads (g a)) \<Longrightarrow> reads (case x of None \<Rightarrow> f | Some a \<Rightarrow> g a)"
  by (cases x) simp_all

lemma reads_if [reads_intros]: "reads f \<Longrightarrow> reads g \<Longrightarrow> reads (if c then f else g)"
  by simp

lemma reads_pair [reads_intros]: "(\<And>a b. reads (f a b)) \<Longrightarrow> reads (case p of (a, b) \<Rightarrow> f a b)"
  by (cases p) simp

lemma reads_mapM [reads_intros]: "(\<And>a. reads (f a)) \<Longrightarrow> reads (mapM f xs)"
  by (induction xs) (auto intro!: reads_intros)

lemma reads_require [reads_intros]:
  "reads (requireSettings env)" "reads (requireSome x)" "reads (requireAccount env i)" "reads (requireUserTransaction env i)"
  by (auto simp: requireSettings_def requireSome_def requireAccount_def requireUserTransaction_def intro!: reads_intros)

lemma reads_toAccountDto [reads_intros]: "reads (toAccountDto env a)"
  using toAccountDto_state [OF prod.collapse [symmetric]] by (intro readsI) blast

lemma reads_get [reads_intros]:
  "reads (getSettingsDto env)" "reads (listAccountDtos env b)" "reads (getAccountDto env i)"
  "reads (listCategoryDtos env k b)" "reads (getTransactionDto env i)"
  by (auto simp: getSettingsDto_def listAccountDtos_def getAccountDto_def listCategoryDtos_def getTransactionDto_def
      intro!: reads_intros)

lemma reads_bundle [reads_intros]: "reads (transactionDtoWithBundle env t)"
  unfolding transactionDtoWithBundle_def
  by (auto intro!: reads_intros split: LedgerTransactionType.split option.split jsval.split)

lemma reads_project [reads_intros]:
  "reads (transactionPage env q b)" "reads (accountState env a)" "reads (listTransactions env q)"
  "reads (getAccountTransactions env i q)" "reads (getAccountBalanceTrend env i k)" "reads (getTrend env m d)"
  unfolding transactionPage_def accountState_def listTransactions_def getAccountTransactions_def
    getAccountBalanceTrend_def getTrend_def Let_def
  by (intro reads_intros)+

lemma reads_overview [reads_intros]: "reads (getOverview env x d)"
  unfolding getOverview_def Let_def by (cases x) (simp_all only: OverviewScope.case, (intro reads_intros)+)

lemma reads_safe: "reads f \<Longrightarrow> safe_run env f"
  unfolding safe_run_def
proof (intro allI impI)
  fix s r t assume "reads f" and g: "good env s" "\<not> stInTransaction s" and run: "f s = (r, t)"
  then obtain n where "t = s\<lparr>stNow := n\<rparr>" unfolding reads_def by (metis snd_conv)
  with g show "\<not> stInTransaction t \<and> wf_db env (stDb t) \<and> ledger_steps env (view env (stDb s)) (view env (stDb t))
      \<and> (isl r \<longrightarrow> stDb t = stDb s)"
    by (simp add: good_wf)
qed

section \<open>Routes\<close>

lemma safe_bnd_ret:
  assumes "safe_run env f" shows "safe_run env (bnd f (\<lambda>r. ret (h r)))"
  unfolding safe_run_def
proof (intro allI impI, goal_cases)
  case (1 s r t)
  then obtain x where x: "f s = (x, t)" "isl r = isl x"
    by (auto simp: bnd_def ret_def split: prod.split_asm sum.split_asm)
  from assms [unfolded safe_run_def, THEN spec, THEN spec, THEN spec, THEN mp, OF 1(1), THEN mp, OF 1(2), THEN mp, OF x(1)]
  show ?case unfolding x(2) .
qed

lemma safe_liftR:
  assumes "\<And>a. x = Inr a \<Longrightarrow> safe_run env (k a)" shows "safe_run env (bnd (liftR x) k)"
proof (cases x)
  case (Inl e)
  then have "bnd (liftR x) k = throw e" by (simp add: bnd_def liftR_def throw_def fun_eq_iff)
  then show ?thesis by (simp add: reads_safe reads_intros)
next
  case (Inr a)
  then have "bnd (liftR x) k = k a" by (simp add: bnd_def liftR_def fun_eq_iff)
  then show ?thesis using assms [OF Inr] by simp
qed

lemma postRoute_safe:
  "(\<And>v q key. parse v = Inr q \<Longrightarrow> safe_run env (operation q key)) \<Longrightarrow> safe_run env (postRoute parse operation body key)"
  unfolding postRoute_def by (intro safe_liftR safe_bnd_ret) (auto simp: led_simps)

lemma rawRoute_safe: "(\<And>v. safe_run env (operation v)) \<Longrightarrow> safe_run env (rawRoute operation body)"
  unfolding rawRoute_def by (intro safe_liftR safe_bnd_ret) auto

lemma readRoute_safe:
  "reads f \<Longrightarrow> safe_run env (jsonRoute f)" "(\<And>a. reads (k a)) \<Longrightarrow> safe_run env (bnd (liftR x) k)"
  unfolding jsonRoute_def by (intro reads_safe reads_intros; assumption)+

lemmas route_intros = postRoute_safe rawRoute_safe readRoute_safe

lemma create_safe:
  "lower_ok env \<Longrightarrow> parseSettingsCreateRequest env v = Inr sq \<Longrightarrow> safe_run env (createSettings env sq key)"
  "parseAccountCreateRequest env v = Inr aq \<Longrightarrow> safe_run env (createAccount env aq key)"
  "lower_ok env \<Longrightarrow> parseCategoryCreateRequest v = Inr cq \<Longrightarrow> safe_run env (createCategory env cq key)"
  "parseAdjustmentEndpointRequest env v = Inr jq \<Longrightarrow> safe_run env (adjustAccount env i jq key)"
  unfolding createSettings_def createAccount_def createCategory_def adjustAccount_def
  by (auto intro!: refines_create createSettings_refines createAccount_refines createCategory_refines
      adjustAccount_refines dest: parseSettingsCreateRequest_ok parseAccountCreateRequest_ok
      parseCategoryCreateRequest_ok parseAdjustmentEndpointRequest_ok)

lemma createTransaction_safe:
  assumes "parseTransactionCreateRequest env v = Inr q" shows "safe_run env (createTransaction env q key)"
proof (cases q)
  case (CreateAdjustment i e)
  then show ?thesis by (auto simp: createTransaction_def intro!: reads_safe reads_intros)
qed (use refines_create [OF createTransaction_refines [OF parseTransactionCreateRequest_ok [OF assms]]]
    in \<open>simp_all add: createTransaction_def\<close>)

lemma settingsRoute_safe: "lower_ok env \<Longrightarrow> safe_run env (settingsRoute env q)"
  by (cases q) (simp_all add: route_intros reads_intros create_safe patchSettings_safe)

lemma accountRoute_safe: "safe_run env (accountRoute env q)"
  by (cases q) (simp_all add: route_intros reads_intros create_safe
      patchAccount_safe archiveAccount_safe restoreAccount_safe deleteAccount_safe)

lemma categoryRoute_safe: "lower_ok env \<Longrightarrow> safe_run env (categoryRoute env q)"
  by (cases q) (simp_all add: route_intros reads_intros create_safe
      patchCategory_safe archiveCategory_safe restoreCategory_safe deleteCategory_safe)

lemma transactionRoute_safe: "safe_run env (transactionRoute env q)"
  by (cases q) (simp_all add: route_intros reads_intros createTransaction_safe patchTransaction_safe
      deleteTransaction_safe)

lemma reads_route: "reads (projectionRoute env q)"
  by (cases q) (auto simp: projectRoute_def intro!: reads_intros)

lemma ledgerRoute_safe: "lower_ok env \<Longrightarrow> safe_run env (ledgerRoute env q)"
  by (cases q) (simp_all add: reads_safe [OF reads_route] settingsRoute_safe accountRoute_safe categoryRoute_safe transactionRoute_safe)

section \<open>Responses\<close>

lemma route_response:
  "postRoute parse operation b k s = (Inr r, t) \<Longrightarrow> \<not> isError r"
  "rawRoute operation' b s = (Inr r, t) \<Longrightarrow> \<not> isError r"
  "jsonRoute f s = (Inr r, t) \<Longrightarrow> \<not> isError r"
  "projectRoute x g h s = (Inr r, t) \<Longrightarrow> \<not> isError r"
  by (auto simp: postRoute_def rawRoute_def jsonRoute_def projectRoute_def led_simps ledgerReplayResponse_def)

lemma ledgerRoute_response: "ledgerRoute env q s = (Inr r, t) \<Longrightarrow> \<not> isError r"
proof (cases q)
  case (SettingsRequest p)
  then show "ledgerRoute env q s = (Inr r, t) \<Longrightarrow> \<not> isError r" by (cases p) (auto dest: route_response)
next
  case (AccountRequest p)
  then show "ledgerRoute env q s = (Inr r, t) \<Longrightarrow> \<not> isError r"
    by (cases p) (auto dest: route_response simp: led_simps)
next
  case (CategoryRequest p)
  then show "ledgerRoute env q s = (Inr r, t) \<Longrightarrow> \<not> isError r"
    by (cases p) (auto dest: route_response simp: led_simps)
next
  case (TransactionRequest p)
  then show "ledgerRoute env q s = (Inr r, t) \<Longrightarrow> \<not> isError r" by (cases p) (auto dest: route_response)
next
  case (ProjectionRequest p)
  then show "ledgerRoute env q s = (Inr r, t) \<Longrightarrow> \<not> isError r" by (cases p) (auto dest: route_response)
qed

lemma respond_safe:
  assumes low: "lower_ok env" and g: "good env s" and out: "\<not> stInTransaction s" and run: "respond env q s = (r, t)"
  shows "good env t" "\<not> stInTransaction t" "ledger_steps env (view env (stDb s)) (view env (stDb t))"
    "isError r \<Longrightarrow> stDb t = stDb s"
proof -
  obtain x where x: "ledgerRoute env q s = (x, t)" "r = (case x of Inl e \<Rightarrow> ledgerErrorResponse e | Inr a \<Rightarrow> a)"
    using run by (auto simp: respond_def withLedgerErrors_def split: prod.split_asm sum.split_asm)
  note safe = ledgerRoute_safe [OF low, of q]
  show "good env t" "\<not> stInTransaction t" using safe_run_good [OF safe g out x(1)] by blast+
  show "ledger_steps env (view env (stDb s)) (view env (stDb t))"
    using safe g out x(1) unfolding safe_run_def by blast
  show "stDb t = stDb s" if "isError r"
  proof -
    have "isl x" using that x ledgerRoute_response by (cases x) auto
    then show ?thesis using safe g out x(1) unfolding safe_run_def by blast
  qed
qed

lemma respond_all_good:
  "lower_ok env \<Longrightarrow> good env s \<Longrightarrow> \<not> stInTransaction s \<Longrightarrow> respond_all env qs s = (rs, t) \<Longrightarrow>
     good env t \<and> \<not> stInTransaction t \<and> ledger_steps env (view env (stDb s)) (view env (stDb t))"
proof (induction qs arbitrary: s rs)
  case (Cons q qs)
  then obtain r u rs' where u: "respond env q s = (r, u)" "respond_all env qs u = (rs', t)"
    by (auto split: prod.split_asm)
  note s1 = respond_safe [OF Cons.prems(1-3) u(1)]
  show ?case using Cons.IH [OF Cons.prems(1) s1(1,2) u(2)] s1(3) by (auto intro: rtranclp_trans)
qed (simp add: good_def)

lemma initial_good: "good env initial_state" "\<not> stInTransaction initial_state"
  using wf_empty_db Inv_empty by (simp_all add: good_def initial_state_def)

end
