(* ===== verification/LedgerHistory.thy ===== *)
theory LedgerHistory
  imports RefineApi
begin

text \<open>
  What holds between two moments of the life of a ledger: the facts about \<open>ledger_steps\<close> that compare
  an earlier view with a later one, and the view after a sequence of requests.
\<close>

section \<open>The ledger after a sequence of requests\<close>

definition after :: "ledger_env \<Rightarrow> ledger_request list \<Rightarrow> ledger_state" where
  "after env qs = snd (respond_all env qs initial_state)"

definition ledgerAfter :: "ledger_env \<Rightarrow> ledger_request list \<Rightarrow> ledger_view" where
  "ledgerAfter env qs = view env (stDb (after env qs))"

lemma respond_all_append:
  "respond_all env (qs @ ps) s =
     (case respond_all env qs s of (rs, t) \<Rightarrow> (case respond_all env ps t of (us, u) \<Rightarrow> (rs @ us, u)))"
  by (induction qs arbitrary: s) (simp_all split: prod.split)

lemma after_append: "after env (qs @ ps) = snd (respond_all env ps (after env qs))"
  by (simp add: after_def respond_all_append split: prod.split)

lemma after_good:
  assumes "lower_ok env" shows "good env (after env qs)" "\<not> stInTransaction (after env qs)"
  using respond_all_good [OF assms initial_good, of qs "fst (respond_all env qs initial_state)" "after env qs"]
  by (simp_all add: after_def)

lemma after_Inv: "lower_ok env \<Longrightarrow> Inv env (ledgerAfter env qs)"
  using after_good(1) by (simp add: good_def ledgerAfter_def)

lemma after_steps:
  assumes "lower_ok env" shows "ledger_steps env (ledgerAfter env qs) (ledgerAfter env (qs @ ps))"
  using respond_all_good [OF assms after_good [OF assms, of qs], of ps "fst (respond_all env ps (after env qs))"
      "after env (qs @ ps)"]
  by (simp add: after_append ledgerAfter_def)

section \<open>Facts that survive every step\<close>

text \<open>A property that every step preserves from an invariant view holds after all steps.\<close>

lemma steps_preserve:
  assumes "ledger_steps env v v'" "Inv env v" "P v"
    and "\<And>u u'. ledger_step env u u' \<Longrightarrow> Inv env u \<Longrightarrow> P u \<Longrightarrow> P u'"
  shows "P v'"
  using assms(1)
proof (induction rule: rtranclp_induct)
  case base
  show ?case by (rule assms(3))
next
  case (step u u')
  then show ?case using assms(4) Inv_steps [OF step(1) assms(2)] by blast
qed

text \<open>Zone and base currency stay once an account has been created.\<close>

definition lockedAs :: "LedgerSettings \<Rightarrow> ledger_view \<Rightarrow> bool" where
  "lockedAs s v \<longleftrightarrow> (\<exists>s'. lvSettings v = Some s' \<and> setHasCreatedAccount s' \<and> settingsKept s s')"

lemma lockedAs_step: "ledger_step env v v' \<Longrightarrow> lockedAs s v \<Longrightarrow> lockedAs s v'"
  by (induction rule: ledger_step.induct) (auto simp: lockedAs_def settingsKept_def)

text \<open>A deleted transaction is final.\<close>

definition deletedTransactions :: "ledger_view \<Rightarrow> LedgerTransaction set" where
  "deletedTransactions v = {t \<in> set (lvTransactions v). \<not> activeTx t}"

lemma put_keeps: "distinct (map f xs) \<Longrightarrow> x \<in> set xs \<Longrightarrow> z \<in> set xs \<Longrightarrow> x \<noteq> z \<Longrightarrow> f y = f z \<Longrightarrow> x \<in> set (put f y xs)"
  using key_inj [of f xs x z] by (intro mem_put_other) auto

lemma put_final:
  "distinct (map txId ts) \<Longrightarrow> x \<in> set ts \<Longrightarrow> \<not> activeTx x \<Longrightarrow> z \<in> set ts \<Longrightarrow> activeTx z \<Longrightarrow> txId y = txId z \<Longrightarrow>
     x \<in> set (put txId y ts)"
  using put_keeps [of txId ts x z y] by blast

lemma put_twice_final:
  assumes "uniqueIds v" "x \<in> set (lvTransactions v)" "\<not> activeTx x" "t \<in> set (lvTransactions v)"
    "f \<in> set (lvTransactions v)" "isBundle t f" "txId t' = txId t" "txId f' = txId f"
  shows "x \<in> set (put txId f' (put txId t' (lvTransactions v)))"
proof (rule put_final [where z = f])
  have act: "activeTx t" "activeTx f" using assms(6) by (simp_all add: isBundle_def)
  show "distinct (map txId (put txId t' (lvTransactions v)))" using assms(1) by (simp add: uniqueIds_def)
  show "x \<in> set (put txId t' (lvTransactions v))"
    using assms(1-4,7) act(1) by (intro put_final [where z = t]) (simp_all add: uniqueIds_def)
  show "f \<in> set (put txId t' (lvTransactions v))" by (rule bundle_members [OF assms(1,4-7)])
qed (use assms in \<open>simp_all add: isBundle_def\<close>)

lemma erase_other: "x \<in> set ts \<Longrightarrow> \<not> P x \<Longrightarrow> x \<in> set (map (\<lambda>t. if P t then erased d t else t) ts)"
  by (induction ts) auto

lemma deleted_step:
  "ledger_step env v v' \<Longrightarrow> Inv env v \<Longrightarrow> x \<in> set (lvTransactions v) \<Longrightarrow> \<not> activeTx x \<Longrightarrow> x \<in> set (lvTransactions v')"
proof (induction rule: ledger_step.induct)
  case (Revise v t t')
  then show ?case using put_final [of "lvTransactions v" x t t']
    by (simp add: Inv_def uniqueIds_def revisable_def)
next
  case (ReviseBundle v t t' f f')
  then show ?case using put_twice_final [of v x t f t' f'] by (simp add: Inv_def revisable_def)
next
  case (AttachFee v t t' f)
  then show ?case using put_final [of "lvTransactions v" x t t']
    by (simp add: Inv_def uniqueIds_def revisable_def)
next
  case (DetachFee v t t' f d)
  then show ?case using put_twice_final [of v x t f t' "erased d f"] by (simp add: Inv_def revisable_def)
next
  case (Erase v P d)
  have "\<not> P x" using Erase(1,4,5) by blast
  then show ?case using erase_other [of x "lvTransactions v" P d] Erase(4) by simp
qed simp_all

text \<open>Transactions are never removed, and each keeps its identifier and its type.\<close>

definition keptTypes :: "ledger_view \<Rightarrow> (jsstr \<times> LedgerTransactionType) set" where
  "keptTypes v = (\<lambda>t. (txId t, txType t)) ` set (lvTransactions v)"

lemma keptTypes_put:
  assumes "distinct (map txId ts)" "t \<in> set ts" "txId t' = txId t" "txType t' = txType t"
  shows "(\<lambda>t. (txId t, txType t)) ` set ts \<subseteq> (\<lambda>t. (txId t, txType t)) ` set (put txId t' ts)"
proof
  fix p assume "p \<in> (\<lambda>t. (txId t, txType t)) ` set ts"
  then obtain x where x: "x \<in> set ts" "p = (txId x, txType x)" by blast
  show "p \<in> (\<lambda>t. (txId t, txType t)) ` set (put txId t' ts)"
  proof (cases "x = t")
    case True
    with x assms have "t' \<in> set (put txId t' ts)" by (auto simp: put_def image_iff)
    moreover from True x assms(3,4) have "p = (txId t', txType t')" by simp
    ultimately show ?thesis by (simp only: image_eqI)
  next
    case False
    with x put_keeps [OF assms(1) x(1) assms(2) False assms(3)] show ?thesis by blast
  qed
qed

lemma keptTypes_erase:
  "(\<lambda>t. (txId t, txType t)) ` set (map (\<lambda>t. if P t then erased d t else t) ts) = (\<lambda>t. (txId t, txType t)) ` set ts"
  by (induction ts) (simp_all add: erased_def txType_def)

lemma keptTypes_step: "ledger_step env v v' \<Longrightarrow> Inv env v \<Longrightarrow> keptTypes v \<subseteq> keptTypes v'"
proof (induction rule: ledger_step.induct)
  case (Revise v t t')
  then show ?case using keptTypes_put [of "lvTransactions v" t t']
    by (simp add: keptTypes_def Inv_def uniqueIds_def revisable_def)
next
  case (ReviseBundle v t t' f f')
  then have "f \<in> set (put txId t' (lvTransactions v))"
    using bundle_members [of v t f t'] by (auto simp: Inv_def revisable_def)
  with ReviseBundle show ?case
    using keptTypes_put [of "lvTransactions v" t t'] keptTypes_put [of "put txId t' (lvTransactions v)" f f']
    by (simp add: keptTypes_def Inv_def uniqueIds_def revisable_def)
next
  case (AttachFee v t t' f)
  then show ?case using keptTypes_put [of "lvTransactions v" t t']
    by (auto simp: keptTypes_def Inv_def uniqueIds_def revisable_def)
next
  case (DetachFee v t t' f d)
  then have "f \<in> set (put txId t' (lvTransactions v))"
    using bundle_members [of v t f t'] by (auto simp: Inv_def revisable_def)
  with DetachFee show ?case
    using keptTypes_put [of "lvTransactions v" t t'] keptTypes_put [of "put txId t' (lvTransactions v)" f "erased d f"]
    by (simp add: keptTypes_def Inv_def uniqueIds_def revisable_def erased_def txType_def)
next
  case (Erase v P d)
  show ?case using keptTypes_erase [of P d "lvTransactions v"] by (simp del: set_map add: keptTypes_def)
qed (auto simp: keptTypes_def)

text \<open>A system category, once there, can always be found, unarchived.\<close>

definition hasSystemCategory :: "LedgerCategorySystemKey \<Rightarrow> ledger_view \<Rightarrow> bool" where
  "hasSystemCategory k v \<longleftrightarrow> (\<exists>c\<in>set (lvCategories v). catSystemKey c = Some k)"

lemma put_system:
  "distinct (map catId cs) \<Longrightarrow> c \<in> set cs \<Longrightarrow> categoryKept c c' \<Longrightarrow> \<exists>d\<in>set cs. catSystemKey d = Some k \<Longrightarrow>
     \<exists>d\<in>set (put catId c' cs). catSystemKey d = Some k"
  using key_inj [of catId cs c] by (fastforce simp: put_def categoryKept_def)

lemma hasSystemCategory_step: "ledger_step env v v' \<Longrightarrow> Inv env v \<Longrightarrow> hasSystemCategory k v \<Longrightarrow> hasSystemCategory k v'"
proof (induction rule: ledger_step.induct)
  case (DropCategory v i)
  then show ?case by (auto simp: hasSystemCategory_def isProtected_def)
qed (auto simp: hasSystemCategory_def Inv_def uniqueIds_def catsUnique_def intro!: put_system)

end
