(* ===== verification/QueryFacts.thy ===== *)
theory QueryFacts
  imports LedgerHistory
begin

text \<open>
  What the queries of \<open>server/ledger/repository.ts\<close> compute on the decoded view: the SQL aggregates
  return the exact balance of the transactions they range over, the escaped \<open>LIKE\<close> pattern finds
  exactly the substrings, and the keyset cursor continues a listing where the page before it ended.
\<close>

section \<open>Balance aggregates\<close>

lemma accountTransactionEffect_params:
  assumes "validBody g (txAmountMinor t) (txBody t)"
  shows "accountTransactionEffect i n (transactionParams t) = natureSign n * netEffect (txBody t) (txAmountMinor t) i n"
proof -
  have kinds: "txType t = (case txBody t of Income _ _ _ \<Rightarrow> IncomeType | Expense _ _ _ \<Rightarrow> ExpenseType
      | Transfer _ _ _ _ _ \<Rightarrow> TransferType | Adjustment _ _ _ \<Rightarrow> AdjustmentType)"
    by (cases "txBody t") (simp_all add: txType_def)
  show ?thesis
    using assms unfolding accountTransactionEffect_def params_simps kinds
    by (cases "txBody t"; cases n) (auto simp: transactionParams_def Let_def)
qed

lemma sqlSumFrom_exact: "sqlSumFrom acc xs = Inr s \<Longrightarrow> s = acc + sum_list xs"
proof (induction xs arbitrary: acc)
  case (Cons x xs)
  then have "sqlSumFrom (acc + x) xs = Inr s" by (auto split: if_split_asm)
  from Cons.IH [OF this] show ?case by simp
qed simp

lemma sqlSum_exact: "sqlSum xs = Inr s \<Longrightarrow> s = sum_list xs"
  using sqlSumFrom_exact [of 0] by (simp add: sqlSum_def)

lemma sqlSumFrom_total:
  "\<forall>k\<le>length xs. - (2 ^ 63) \<le> acc + sum_list (take k xs) \<and> acc + sum_list (take k xs) < 2 ^ 63 \<Longrightarrow>
   sqlSumFrom acc xs = Inr (acc + sum_list xs)"
proof (induction xs arbitrary: acc)
  case (Cons x xs)
  have "- (2 ^ 63) \<le> acc + x \<and> acc + x < 2 ^ 63" using spec [OF Cons.prems, of 1] by simp
  moreover have "\<forall>k\<le>length xs. - (2 ^ 63) \<le> acc + x + sum_list (take k xs) \<and> acc + x + sum_list (take k xs) < 2 ^ 63"
    using Cons.prems by (auto simp: add.assoc dest: spec [of _ "Suc k" for k])
  ultimately show ?case using Cons.IH [of "acc + x"] by (simp add: add.assoc)
qed simp

lemma filter_view:
  assumes "wf_db env db" "\<And>t. P (transactionParams t) \<longleftrightarrow> Q t" "\<And>t. valid_tx env t \<Longrightarrow> f (transactionParams t) = h t"
  shows "map f (filter P (dbTransactions db)) = map h (filter Q (lvTransactions (view env db)))"
proof -
  have "map f (filter P rs) = map h (filter Q (map (decoded (ledgerTransactionFromRow env)) rs))"
    if "set rs \<subseteq> set (dbTransactions db)" for rs
    using that
  proof (induction rs)
    case (Cons r rs)
    have r: "r \<in> set (dbTransactions db)" using Cons.prems by simp
    have "r = transactionParams (decoded (ledgerTransactionFromRow env) r)"
        "valid_tx env (decoded (ledgerTransactionFromRow env) r)"
      using transaction_row(3,4) [OF assms(1) r] by blast+
    then have "P r \<longleftrightarrow> Q (decoded (ledgerTransactionFromRow env) r)"
        "f r = h (decoded (ledgerTransactionFromRow env) r)"
      using assms(2,3) by metis+
    with Cons show ?case by simp
  qed simp
  from this [OF subset_refl] show ?thesis by (simp add: view_def)
qed

lemma aggregateBalance_exact:
  assumes wf: "wf_db env db" and P: "\<And>t. P (transactionParams t) \<longleftrightarrow> Q t" and run: "aggregateBalance a P db = Inr b"
  shows "b = exactBalance a (filter Q (lvTransactions (view env db)))" "safeInt b"
proof -
  let ?ts = "lvTransactions (view env db)"
  let ?sel = "\<lambda>t. activeTx t \<and> touches t (refId a) \<and> Q t"
  have "map (accountTransactionEffect (refId a) (refNature a))
        (filter (\<lambda>r. sqlNull (rt_deleted_at r) \<and> rowTouches (refId a) r \<and> P r) (dbTransactions db))
      = map (\<lambda>t. natureSign (refNature a) * netEffect (txBody t) (txAmountMinor t) (refId a) (refNature a)) (filter ?sel ?ts)"
    using P by (intro filter_view [OF wf]) (auto simp: accountTransactionEffect_params valid_tx_def)
  also have "\<dots> = map (\<lambda>t. naturalEffect t (refId a) (refNature a)) (filter ?sel ?ts)"
    by (rule map_cong) (auto simp: naturalEffect_def activeTx_def)
  finally have sel: "map (accountTransactionEffect (refId a) (refNature a))
        (filter (\<lambda>r. sqlNull (rt_deleted_at r) \<and> rowTouches (refId a) r \<and> P r) (dbTransactions db))
      = map (\<lambda>t. naturalEffect t (refId a) (refNature a)) (filter ?sel ?ts)" .
  obtain e where e: "sqlSum (map (\<lambda>t. naturalEffect t (refId a) (refNature a)) (filter ?sel ?ts)) = Inr e"
    and b: "accountBalanceFromEffect (refOpeningBalanceMinor a) e = Inr b"
    using run by (auto simp: aggregateBalance_def sel led_simps)
  have "safeInt e" "b = refOpeningBalanceMinor a + e" "safeInt b"
    using b by (auto simp: accountBalanceFromEffect_def led_simps dround_exact)
  moreover have "e = (\<Sum>t\<leftarrow>filter Q ?ts. naturalEffect t (refId a) (refNature a))"
  proof -
    have "filter ?sel ?ts = filter (\<lambda>t. activeTx t \<and> touches t (refId a)) (filter Q ?ts)"
      by (simp add: conj_ac)
    moreover have "naturalEffect t (refId a) (refNature a) = 0" if "\<not> (activeTx t \<and> touches t (refId a))" for t
      using that naturalEffect_untouched [of t] naturalEffect_deleted [of t] unfolding activeTx_def by blast
    ultimately show ?thesis
      using sqlSum_exact [OF e] sum_effects_filter [of "filter Q ?ts" "\<lambda>t. activeTx t \<and> touches t (refId a)"] by simp
  qed
  ultimately show "b = exactBalance a (filter Q ?ts)" "safeInt b" by (simp_all add: exactBalance_def)
qed

section \<open>Search\<close>

lemma like_any: "sqlLike (37 # q) s \<longleftrightarrow> (\<exists>u v. s = u @ v \<and> sqlLike q v)"
proof (induction s)
  case (Cons c s)
  have "(\<exists>u v. c # s = u @ v \<and> sqlLike q v) \<longleftrightarrow> sqlLike q (c # s) \<or> (\<exists>u v. s = u @ v \<and> sqlLike q v)"
    by (metis append_Cons append_Nil list.exhaust list.inject)
  with Cons show ?case by simp
qed simp

lemma like_escape:
  "sqlLike (escapeLike p @ q) s \<longleftrightarrow> (\<exists>u v. s = u @ v \<and> map asciiLower u = map asciiLower p \<and> sqlLike q v)"
proof (induction p arbitrary: s)
  case (Cons c p)
  have "sqlLike (escapeLike (c # p) @ q) s \<longleftrightarrow>
      (\<exists>d r. s = d # r \<and> asciiLower d = asciiLower c \<and> sqlLike (escapeLike p @ q) r)"
    by (cases s) auto
  also have "\<dots> \<longleftrightarrow> (\<exists>d u v. s = d # u @ v \<and> asciiLower d = asciiLower c \<and> map asciiLower u = map asciiLower p \<and> sqlLike q v)"
    unfolding Cons.IH by blast
  also have "\<dots> \<longleftrightarrow> (\<exists>u v. s = u @ v \<and> map asciiLower u = map asciiLower (c # p) \<and> sqlLike q v)"
    by (auto simp: map_eq_Cons_conv) (metis append_Cons list.simps(9))+
  finally show ?case .
qed simp

lemma search_substring:
  "sqlLike (searchPattern p) s \<longleftrightarrow> (\<exists>u v w. s = u @ v @ w \<and> map asciiLower v = map asciiLower p)"
proof -
  have "sqlLike [37] w" for w by (simp add: like_any)
  then show ?thesis by (simp add: searchPattern_def like_any like_escape) blast
qed

section \<open>Keyset pages\<close>

lemma insertBy_first: "\<forall>y\<in>set ys. le x y \<Longrightarrow> insertBy le x ys = x # ys"
  by (cases ys) simp_all

lemma filter_insertBy:
  assumes "\<And>x y z. le x y \<Longrightarrow> le y z \<Longrightarrow> le x z" "sorted_wrt le ys"
  shows "filter P (insertBy le x ys) = (if P x then insertBy le x (filter P ys) else filter P ys)"
  using assms(2)
proof (induction ys)
  case (Cons y ys)
  show ?case
  proof (cases "le x y")
    case True
    then have "\<forall>z\<in>set (filter P (y # ys)). le x z" using Cons.prems assms(1) by auto
    with True show ?thesis using insertBy_first [of "filter P (y # ys)" le x] by auto
  next
    case False
    with Cons show ?thesis by auto
  qed
qed simp

lemma filter_orderBy:
  assumes "\<And>x y. le x y \<or> le y x" "\<And>x y z. le x y \<Longrightarrow> le y z \<Longrightarrow> le x z"
  shows "filter P (orderBy le xs) = orderBy le (filter P xs)"
  by (induction xs) (simp_all add: filter_insertBy [OF assms(2) sorted_orderBy [OF assms]])

text \<open>The rows behind the cursor are the rows after the page, if no two rows share a position.\<close>

lemma keyset_drop:
  fixes f :: "'a \<Rightarrow> 'k::linorder"
  assumes "distinct (map f xs)" "\<And>x y. le x y \<longleftrightarrow> f y \<le> f x" "0 < n" "n \<le> length xs"
  shows "orderBy le (filter (\<lambda>x. f x < f (orderBy le xs ! (n - 1))) xs) = drop n (orderBy le xs)"
proof -
  let ?ys = "orderBy le xs" and ?p = "f (orderBy le xs ! (n - 1))"
  have le: "\<And>x y. le x y \<or> le y x" "\<And>x y z. le x y \<Longrightarrow> le y z \<Longrightarrow> le x z" using assms(2) by auto
  have len: "length ?ys = length xs" by simp
  have sorted: "sorted_wrt le ?ys" by (rule sorted_orderBy [OF le])
  have "mset (map f ?ys) = mset (map f xs)" by simp
  then have dist: "distinct (map f ?ys)" using assms(1) mset_eq_imp_distinct_iff by blast
  have front: "\<not> f x < ?p" if "x \<in> set (take n ?ys)" for x
  proof -
    from that [unfolded in_set_conv_nth] obtain i where "i < length (take n ?ys)" "take n ?ys ! i = x" by blast
    then have i: "x = ?ys ! i" "i < n" by auto
    show ?thesis
    proof (cases "i = n - 1")
      case False
      then have "i < n - 1" using i(2) by simp
      with sorted_wrt_nth_less [OF sorted this] assms(2-4) len i(1) show ?thesis by (auto simp: not_less)
    qed (simp add: i(1))
  qed
  have rear: "f x < ?p" if "x \<in> set (drop n ?ys)" for x
  proof -
    from that [unfolded in_set_conv_nth] obtain j where "j < length (drop n ?ys)" "drop n ?ys ! j = x" by blast
    then have j: "x = ?ys ! (n + j)" "n + j < length ?ys" using assms(4) len by auto
    have "f x \<le> ?p" using sorted_wrt_nth_less [OF sorted _ j(2), of "n - 1"] assms(2,3) j(1) by simp
    moreover have "f x \<noteq> ?p"
      using nth_eq_iff_index_eq [OF dist, of "n + j" "n - 1"] j assms(3,4) len by auto
    ultimately show ?thesis by simp
  qed
  have "orderBy le (filter (\<lambda>x. f x < ?p) xs) = filter (\<lambda>x. f x < ?p) ?ys" by (rule filter_orderBy [OF le, symmetric])
  also have "\<dots> = filter (\<lambda>x. f x < ?p) (take n ?ys) @ filter (\<lambda>x. f x < ?p) (drop n ?ys)"
    by (metis append_take_drop_id filter_append)
  also have "\<dots> = drop n ?ys" using front rear by (simp add: filter_id_conv filter_empty_conv)
  finally show ?thesis .
qed

lemma distinct_positions:
  assumes "distinct (map rt_id rs)" "\<forall>r\<in>set rs. isTextCell (rt_id r)"
  shows "distinct (map rowPosition rs)"
proof (rule distinct_map [THEN iffD2], intro conjI)
  show "distinct rs" using assms(1) by (simp add: distinct_map)
  show "inj_on rowPosition (set rs)"
  proof (rule inj_onI)
    fix r s assume r: "r \<in> set rs" and s: "s \<in> set rs" and eq: "rowPosition r = rowPosition s"
    obtain x y where "rt_id r = Some (JStr x)" "rt_id s = Some (JStr y)"
      using assms(2) r s unfolding isTextCell_def by blast
    with eq have "rt_id r = rt_id s" by (simp add: rowPosition_def)
    then show "r = s" using key_inj [OF assms(1) r s] by blast
  qed
qed

lemma cursor_page:
  assumes "distinct (map rt_id (dbTransactions db))" "\<forall>r\<in>set (dbTransactions db). isTextCell (rt_id r)"
    and "qoCursor opts = None" "qoOffset opts = None"
    and ys: "ys = orderBy transactionOrder (filter (transactionQueryFilter db opts True False) (dbTransactions db))"
    and n: "0 < n" "n \<le> length ys"
  shows "queryTransactions env (opts\<lparr>qoCursor := Some (rowPosition (ys ! (n - 1)))\<rparr>) db
    = mapR (ledgerTransactionFromRow env) (take (nat (qoLimit opts + 1)) (drop n ys))"
proof -
  let ?F = "transactionQueryFilter db opts True False" and ?p = "rowPosition (ys ! (n - 1))"
  have filt: "transactionQueryFilter db (opts\<lparr>qoCursor := Some ?p\<rparr>) True False = (\<lambda>r. ?F r \<and> rowPosition r < ?p)"
    using assms(3) by (intro ext) (auto simp: transactionQueryFilter_def optMatches_def)
  have "distinct (map rowPosition (filter ?F (dbTransactions db)))"
    using distinct_positions [OF distinct_map_filter [OF assms(1), of ?F]] assms(2) by simp
  from keyset_drop [OF this, of transactionOrder n] n ys
  have "orderBy transactionOrder (filter (\<lambda>r. rowPosition r < ?p) (filter ?F (dbTransactions db))) = drop n ys"
    by (simp add: transactionOrder_def)
  then show ?thesis using assms(4) unfolding queryTransactions_def filt by (simp add: orElse_def conj_commute)
qed

section \<open>Net worth and account responses\<close>

lemma openBy_account: "openBy env v at i \<Longrightarrow> i \<in> accId ` set (lvAccounts v)"
  using accountOf_Some [of v i] by (auto simp: openBy_def split: option.split_asm)

lemma netWorth_view:
  assumes inv: "Inv env v" and valid: "\<And>t. t \<in> set (lvTransactions v) \<Longrightarrow> valid_tx env t"
  shows "netWorth (map balanceAccount (lvAccounts v)) (lvTransactions v) =
    (\<Sum>a\<leftarrow>lvAccounts v. natureSign (accNature a) * accOpeningBalanceMinor a)
    + (\<Sum>t\<leftarrow>filter activeTx (lvTransactions v).
         netChange (map balanceAccount (lvAccounts v)) (txBody t) (txAmountMinor t))"
proof -
  let ?as = "map balanceAccount (lvAccounts v)"
  have ids: "distinct (map refId ?as)" using inv by (simp add: Inv_def uniqueIds_def comp_def)
  have "\<forall>t\<in>set (lvTransactions v). bodyAccounts (txBody t) \<subseteq> refId ` set ?as \<and>
      validBody (txGroupId t) (txAmountMinor t) (txBody t)"
  proof
    fix t assume t: "t \<in> set (lvTransactions v)"
    then have "\<forall>i\<in>bodyAccounts (txBody t). openBy env v (txOccurredAt t) i"
      using inv by (simp add: Inv_def transactionsOk_def txOk_def)
    then have "bodyAccounts (txBody t) \<subseteq> refId ` set ?as"
      using openBy_account by (fastforce simp: image_image)
    with valid [OF t] show "bodyAccounts (txBody t) \<subseteq> refId ` set ?as \<and> validBody (txGroupId t) (txAmountMinor t) (txBody t)"
      by (simp add: valid_tx_def)
  qed
  from netWorth_transactions [OF ids this] show ?thesis by (simp add: comp_def balanceAccount_def)
qed

lemma netWorth_after:
  assumes "lower_ok env"
  shows "netWorth (map balanceAccount (lvAccounts (ledgerAfter env qs))) (lvTransactions (ledgerAfter env qs)) =
    (\<Sum>a\<leftarrow>lvAccounts (ledgerAfter env qs). natureSign (accNature a) * accOpeningBalanceMinor a)
    + (\<Sum>t\<leftarrow>filter activeTx (lvTransactions (ledgerAfter env qs)).
         netChange (map balanceAccount (lvAccounts (ledgerAfter env qs))) (txBody t) (txAmountMinor t))"
  using netWorth_view [OF after_Inv [OF assms]] view_transactions_valid [OF good_wf [OF after_good(1) [OF assms]]]
  by (simp add: ledgerAfter_def)

lemma account_response:
  assumes g: "good env s" and run: "getAccountDto env i s = (Inr v, t)"
  shows "\<exists>a d. accountOf (view env (stDb s)) i = Some a \<and> v = JObj d \<and>
    getProp d ''currentBalanceMinor'' = JInt (exactBalance (balanceAccount a) (lvTransactions (view env (stDb s))))"
proof -
  obtain a where a: "accountOf (view env (stDb s)) i = Some a" and dto: "fst (toAccountDto env a s) = Inr v"
    using run by (auto simp: getAccountDto_def led_simps g)
  obtain b u where b: "currentBalance env a s = (Inr b, u)"
    using dto by (auto simp: toAccountDto_def bnd_def liftR_def split: sum.split_asm prod.split_asm)
  have "b = exactBalance (balanceAccount a) (lvTransactions (view env (stDb s)))" by (rule currentBalance_exact(2) [OF g b])
  with dto b show ?thesis
    by (auto simp: a toAccountDto_def bnd_def liftR_def ret_def getProp_def optProp_def truthyText_def shownIcon_def
        split: sum.split_asm option.split_asm if_split_asm)
qed

end
