(* ===== verification/ProjectionFacts.thy ===== *)
theory ProjectionFacts
  imports QueryFacts
begin

text \<open>
  What the totals of \<open>server/ledger/projections.ts\<close> are on the decoded view of a good state: the net
  worth of the overview, its breakdown by category, the movement of an account, and the monthly trend.
\<close>

section \<open>Cashflow and movement\<close>

lemma captureNow_iff [led_simps]:
  "captureNow env s = (Inr i, t) \<longleftrightarrow> nowFn env (stNow s) = JInt i \<and> utcOk env i \<and> t = s\<lparr>stNow := Suc (stNow s)\<rparr>"
  by (auto simp: captureNow_def assertUtcMilliseconds_iff utcOk_def)

lemma exclusiveInstant_iff [led_simps]:
  "utcOk env i \<Longrightarrow> exclusiveInstant env i = Inr j \<longleftrightarrow> j = i + 1 \<and> safeInt (i + 1) \<and> instantOk env (i + 1)"
  by (auto simp: exclusiveInstant_def assertUtcMilliseconds_iff dround_exact utcOk_def)

lemma cashflow_exact:
  "cashflowForTransactions ts = Inr c \<Longrightarrow> cfIncomeMinor c = sum_list (amountsOf IncomeType ts)
     \<and> cfExpenseMinor c = sum_list (amountsOf ExpenseType ts) \<and> cfBalanceMinor c = cfIncomeMinor c - cfExpenseMinor c"
  by (auto simp: cashflowForTransactions_def led_simps checkedSumMinor_iff)

text \<open>The natural effects of the transactions an account page counts as movement.\<close>

definition movementEffects :: "LedgerAccount \<Rightarrow> LedgerTransaction list \<Rightarrow> 'a LedgerTimeRange_scheme \<Rightarrow> int list" where
  "movementEffects a ts w = map (\<lambda>t. naturalEffect t (accId a) (accNature a))
     (filter (\<lambda>t. txType t \<noteq> AdjustmentType \<and> isWithinRange (txOccurredAt t) w) ts)"

lemma movementFrom_exact:
  "movementFrom m (accId a) (accNature a) ts w = Inr m' \<Longrightarrow>
     mvBalanceIncreaseMinor m' = mvBalanceIncreaseMinor m + (\<Sum>e\<leftarrow>movementEffects a ts w. max e 0)
     \<and> mvBalanceDecreaseMinor m' = mvBalanceDecreaseMinor m + (\<Sum>e\<leftarrow>movementEffects a ts w. max (- e) 0)"
proof (induction ts arbitrary: m)
  case (Cons t ts)
  show ?case
  proof (cases "txType t = AdjustmentType \<or> \<not> isWithinRange (txOccurredAt t) w")
    case True
    with Cons show ?thesis by (auto simp: movementEffects_def)
  next
    case False
    let ?e = "naturalEffect t (accId a) (accNature a)"
    have eff: "movementEffects a (t # ts) w = ?e # movementEffects a ts w"
      using False by (simp add: movementEffects_def)
    obtain delta where d: "transactionEffectForAccount t (accId a) (accNature a) = Inr delta"
      using Cons.prems False by (auto simp: led_simps)
    have "delta = ?e" by (rule transactionEffect_result [OF d])
    with Cons.prems False d show ?thesis
      unfolding eff by (auto simp: led_simps split: if_split_asm dest!: Cons.IH)
  qed
qed (simp add: movementEffects_def)

lemma movement_exact:
  assumes "movementForAccount a ts w = Inr m"
  shows "mvBalanceIncreaseMinor m = (\<Sum>e\<leftarrow>movementEffects a ts w. max e 0)"
    "mvBalanceDecreaseMinor m = (\<Sum>e\<leftarrow>movementEffects a ts w. max (- e) 0)"
  using movementFrom_exact [OF assms [unfolded movementForAccount_def]] by simp_all

section \<open>The overview\<close>

lemma accountState_iff [led_simps]:
  "accountState env a s = (Inr r, t) \<longleftrightarrow> (\<exists>ts b. listActiveTransactionsForAccount env (accId a) (stDb s) = Inr ts
     \<and> deriveCurrentBalance (balanceAccount a) ts = Inr b \<and> r = (a, ts, b) \<and> t = s)"
  by (auto simp: accountState_def led_simps)

lemma accountState_exact:
  assumes "good env s" "accountState env a s = (Inr r, t)"
  shows "t = s \<and> (\<exists>ts. r = (a, ts, exactBalance (balanceAccount a) (lvTransactions (view env (stDb s)))))"
proof -
  obtain ts b where r: "r = (a, ts, b)" "t = s" and "currentBalance env a s = (Inr b, s)"
    using assms(2) by (auto simp: led_simps currentBalance_def)
  from currentBalance_exact(2) [OF assms(1) this(3)] r show ?thesis by simp
qed

lemma accountStates_exact:
  assumes "good env s"
  shows "mapM (accountState env) as s = (Inr states, t) \<Longrightarrow> t = s \<and>
     map (\<lambda>(a, ts, b). (a, b)) states = map (\<lambda>a. (a, exactBalance (balanceAccount a) (lvTransactions (view env (stDb s))))) as"
proof (induction as arbitrary: states)
  case (Cons a as)
  from Cons.prems obtain r u rest where r: "states = r # rest" "mapM (accountState env) as u = (Inr rest, t)"
    and st: "accountState env a s = (Inr r, u)"
    unfolding mapM.simps bnd_iff ret_iff by blast
  with accountState_exact [OF assms st] Cons.IH [of rest] show ?case by auto
qed (simp add: led_simps)

lemma balancesOf_exact:
  assumes "map (\<lambda>(a, ts, b). (a, b)) states = map (\<lambda>a. (a, f a)) as"
  shows "balancesOf n states = map f (filter (\<lambda>a. accNature a = n) as)"
  using assms
proof (induction states arbitrary: as)
  case (Cons x states)
  then show ?case by (cases as) (auto simp: balancesOf_def split: prod.split)
qed (simp add: balancesOf_def)

definition natureTotal :: "LedgerAccountNature \<Rightarrow> ledger_view \<Rightarrow> int" where
  "natureTotal n v = (\<Sum>a\<leftarrow>filter (\<lambda>a. accNature a = n) (lvAccounts v). exactBalance (balanceAccount a) (lvTransactions v))"

lemma netWorth_totals:
  "netWorth (map balanceAccount (lvAccounts v)) (lvTransactions v) = natureTotal Asset v - natureTotal Liability v"
proof -
  have "(\<Sum>a\<leftarrow>as. natureSign (accNature a) * f a)
      = (\<Sum>a\<leftarrow>filter (\<lambda>a. accNature a = Asset) as. f a) - (\<Sum>a\<leftarrow>filter (\<lambda>a. accNature a = Liability) as. f a)"
    for as and f :: "LedgerAccount \<Rightarrow> int"
  proof (induction as)
    case (Cons a as)
    then show ?case by (cases "accNature a") simp_all
  qed simp
  then show ?thesis by (simp add: netWorth_def natureTotal_def o_def balanceAccount_sel)
qed

lemma sum_orderBy: "(\<Sum>x\<leftarrow>filter P (orderBy le xs). f x) = (\<Sum>x\<leftarrow>filter P xs. (f x :: int))"
  by (metis (no_types, lifting) mset_filter mset_map mset_orderBy sum_mset_sum_list)

lemma overview_totals:
  assumes g: "good env s" and run: "getOverview env scope anchor s = (Inr d, t)"
  shows "ovAssetTotalMinor d = natureTotal Asset (view env (stDb s))"
    "ovLiabilityTotalMinor d = natureTotal Liability (view env (stDb s))"
    "ovNetWorthMinor d = ovAssetTotalMinor d - ovLiabilityTotalMinor d"
proof -
  let ?v = "view env (stDb s)"
  have w: "wf_db env (stDb s)" using g by (rule good_wf)
  obtain k states u where st: "mapM (accountState env) (orderBy accountsOrder (lvAccounts ?v)) (s\<lparr>stNow := k\<rparr>) = (Inr states, u)"
    and tot: "checkedSumMinor (balancesOf Asset states) = Inr (ovAssetTotalMinor d)"
      "checkedSumMinor (balancesOf Liability states) = Inr (ovLiabilityTotalMinor d)"
      "checkedSubMinor (ovAssetTotalMinor d) (ovLiabilityTotalMinor d) = Inr (ovNetWorthMinor d)"
    using run by (auto simp: getOverview_def Let_def led_simps requireSettings_iff [OF g] listAccounts_view [OF w] split: prod.split_asm)
  have "good env (s\<lparr>stNow := k\<rparr>)" using g by simp
  note ex = balancesOf_exact [OF accountStates_exact [OF this st, THEN conjunct2]]
  show "ovAssetTotalMinor d = natureTotal Asset ?v" "ovLiabilityTotalMinor d = natureTotal Liability ?v"
    "ovNetWorthMinor d = ovAssetTotalMinor d - ovLiabilityTotalMinor d"
    using tot by (simp_all add: ex checkedSumMinor_iff led_simps natureTotal_def sum_orderBy)
qed


section \<open>Category slices\<close>

fun kindType :: "LedgerCategoryKind \<Rightarrow> LedgerTransactionType" where
  "kindType IncomeKind = IncomeType"
| "kindType ExpenseKind = ExpenseType"

definition categoryTotal :: "LedgerCategoryKind \<Rightarrow> jsstr \<Rightarrow> LedgerTransaction list \<Rightarrow> int" where
  "categoryTotal k c ts = (\<Sum>t\<leftarrow>filter (\<lambda>t. txType t = kindType k \<and> bodyCategory (txBody t) = Some c) ts. txAmountMinor t)"

definition usesCategory :: "LedgerCategoryKind \<Rightarrow> LedgerTransaction list \<Rightarrow> jsstr \<Rightarrow> bool" where
  "usesCategory k ts c \<longleftrightarrow> (\<exists>t\<in>set ts. txType t = kindType k \<and> bodyCategory (txBody t) = Some c)"

text \<open>The entries of a group map: every used category once, with its total so far.\<close>

definition groupsOf :: "LedgerCategoryKind \<Rightarrow> LedgerTransaction list \<Rightarrow> category_groups \<Rightarrow> bool" where
  "groupsOf k ts m \<longleftrightarrow> distinct (map fst m) \<and> sum_list (map snd m) = sum_list (amountsOf (kindType k) ts)
     \<and> (\<forall>c. map_of m c = (if usesCategory k ts c then Some (categoryTotal k c ts) else None))"

lemma categoryTotal_snoc:
  "categoryTotal k c (ts @ [t]) = categoryTotal k c ts
     + (if txType t = kindType k \<and> bodyCategory (txBody t) = Some c then txAmountMinor t else 0)"
  by (simp add: categoryTotal_def)

lemma usesCategory_snoc:
  "usesCategory k (ts @ [t]) c \<longleftrightarrow> usesCategory k ts c \<or> (txType t = kindType k \<and> bodyCategory (txBody t) = Some c)"
  by (auto simp: usesCategory_def)

lemma unused_total: "\<not> usesCategory k ts c \<Longrightarrow> categoryTotal k c ts = 0"
  by (auto simp: usesCategory_def categoryTotal_def filter_empty_conv sum_list_eq_0_iff intro!: sum_list_0)

lemma sum_update:
  "distinct (map fst m) \<Longrightarrow> sum_list (map snd (AList.update c v m)) = sum_list (map snd m) - orElse (map_of m c) 0 + (v :: int)"
proof (induction m)
  case (Cons x m)
  have "map_of m c = None" if "fst x = c" using Cons.prems that by (auto simp: map_of_eq_None_iff)
  with Cons show ?case by (cases x) auto
qed simp

lemma addToGroup_step:
  assumes "groupsOf k ts m" "addToGroup cats k c (txAmountMinor t) m = Inr m'"
    "txType t = kindType k" "bodyCategory (txBody t) = Some c"
  shows "groupsOf k (ts @ [t]) m'"
proof -
  have m': "m' = AList.update c (orElse (map_of m c) 0 + txAmountMinor t) m"
    using assms(2) by (auto simp: addToGroup_def projectionInvariant_def led_simps split: option.split_asm if_split_asm)
  have c0: "orElse (map_of m c) 0 = categoryTotal k c ts"
    using assms(1) by (auto simp: groupsOf_def unused_total)
  have "sum_list (map snd m') = sum_list (map snd m) + txAmountMinor t"
    using assms(1) by (simp add: m' sum_update groupsOf_def)
  then show ?thesis
    using assms(1,3,4) unfolding groupsOf_def m' c0
    by (simp add: update_conv' distinct_update usesCategory_snoc categoryTotal_snoc amountsOf_def)
qed

lemma groupsOf_other:
  "groupsOf k ts m \<Longrightarrow> txType t \<noteq> kindType k \<Longrightarrow> groupsOf k (ts @ [t]) m"
  by (auto simp: groupsOf_def usesCategory_snoc categoryTotal_snoc amountsOf_def)

lemma groupByCategory_exact:
  "groupByCategory cats ts (i, e) = Inr (i', e') \<Longrightarrow> groupsOf IncomeKind us i \<Longrightarrow> groupsOf ExpenseKind us e \<Longrightarrow>
     groupsOf IncomeKind (us @ ts) i' \<and> groupsOf ExpenseKind (us @ ts) e'"
proof (induction ts arbitrary: us i e)
  case (Cons t ts)
  have step: "\<exists>i1 e1. groupByCategory cats ts (i1, e1) = Inr (i', e')
      \<and> groupsOf IncomeKind (us @ [t]) i1 \<and> groupsOf ExpenseKind (us @ [t]) e1"
  proof (cases "txBody t")
    case (Income a c p)
    with Cons.prems obtain i1 where "addToGroup cats IncomeKind c (txAmountMinor t) i = Inr i1"
      "groupByCategory cats ts (i1, e) = Inr (i', e')" by (auto simp: led_simps)
    moreover have t: "txType t = IncomeType" "bodyCategory (txBody t) = Some c" using Income by (simp_all add: txType_def)
    ultimately have "groupsOf IncomeKind (us @ [t]) i1" using addToGroup_step [OF Cons.prems(2)] by simp
    moreover have "groupsOf ExpenseKind (us @ [t]) e" using groupsOf_other [OF Cons.prems(3)] t by simp
    ultimately show ?thesis using \<open>groupByCategory cats ts (i1, e) = _\<close> by blast
  next
    case (Expense a c p)
    with Cons.prems obtain e1 where "addToGroup cats ExpenseKind c (txAmountMinor t) e = Inr e1"
      "groupByCategory cats ts (i, e1) = Inr (i', e')" by (auto simp: led_simps)
    moreover have t: "txType t = ExpenseType" "bodyCategory (txBody t) = Some c" using Expense by (simp_all add: txType_def)
    ultimately have "groupsOf ExpenseKind (us @ [t]) e1" using addToGroup_step [OF Cons.prems(3)] by simp
    moreover have "groupsOf IncomeKind (us @ [t]) i" using groupsOf_other [OF Cons.prems(2)] t by simp
    ultimately show ?thesis using \<open>groupByCategory cats ts (i, e1) = _\<close> by blast
  next
    case (Transfer k m f to p)
    then have "txType t = TransferType" by (simp add: txType_def)
    then show ?thesis
      using Cons.prems(1) Transfer groupsOf_other [OF Cons.prems(2), of t] groupsOf_other [OF Cons.prems(3), of t] by auto
  next
    case (Adjustment a x y)
    then have "txType t = AdjustmentType" by (simp add: txType_def)
    then show ?thesis
      using Cons.prems(1) Adjustment groupsOf_other [OF Cons.prems(2), of t] groupsOf_other [OF Cons.prems(3), of t] by auto
  qed
  then show ?case using Cons.IH [of _ _ "us @ [t]"] by auto
qed simp

lemma groupsOf_empty [simp]: "groupsOf k [] []"
  by (simp add: groupsOf_def usesCategory_def amountsOf_def)

lemma sliceOrder_linear: "sliceOrder x y \<or> sliceOrder y x" "sliceOrder x y \<Longrightarrow> sliceOrder y z \<Longrightarrow> sliceOrder x z"
  by (auto simp: sliceOrder_def split: if_split_asm)

text \<open>What a breakdown of one kind shows.\<close>

definition breakdownOf :: "LedgerCategoryKind \<Rightarrow> LedgerTransaction list \<Rightarrow> LedgerCategorySlice list \<Rightarrow> bool" where
  "breakdownOf k ts sl \<longleftrightarrow> distinct (map slCategoryId sl)
     \<and> (\<forall>c. c \<in> slCategoryId ` set sl \<longleftrightarrow> usesCategory k ts c)
     \<and> (\<forall>x\<in>set sl. slAmountMinor x = categoryTotal k (slCategoryId x) ts)
     \<and> sum_list (map slAmountMinor sl) = sum_list (amountsOf (kindType k) ts) \<and> sorted_wrt sliceOrder sl"

lemma toSlices_exact:
  assumes m: "groupsOf k ts m" and run: "toSlices cats m = Inr sl"
  shows "breakdownOf k ts sl"
proof -
  obtain xs where sl: "sl = orderBy sliceOrder xs" and pairs: "map (\<lambda>x. (slCategoryId x, slAmountMinor x)) xs = m"
  proof -
    let ?f = "\<lambda>(categoryId, amountMinor). case cats categoryId of None \<Rightarrow> projectionInvariant
        | Some category \<Rightarrow> Inr \<lparr>slCategoryId = categoryId, slName = catName category,
            slKind = catKind category, slAmountMinor = amountMinor\<rparr>"
    obtain xs where xs: "mapR ?f m = Inr xs" "sl = orderBy sliceOrder xs"
      using run by (auto simp: toSlices_def led_simps)
    have "mapR ?f m = Inr xs \<Longrightarrow> map (\<lambda>x. (slCategoryId x, slAmountMinor x)) xs = m" for m xs
      by (induction m arbitrary: xs) (auto simp: led_simps projectionInvariant_def split: option.split_asm)
    with xs that show thesis by blast
  qed
  have ms: "mset sl = mset xs" by (simp add: sl)
  have ids: "map slCategoryId xs = map fst m" and amts: "map slAmountMinor xs = map snd m"
    by (simp_all add: pairs [symmetric] comp_def)
  have dist: "distinct (map slCategoryId sl)"
  proof -
    have "mset (map slCategoryId sl) = mset (map fst m)" by (simp only: mset_map ms ids [symmetric])
    from mset_eq_imp_distinct_iff [OF this] m show ?thesis by (simp add: groupsOf_def)
  qed
  have st: "set sl = set xs" by (simp add: sl)
  have val: "map_of m (slCategoryId x) = Some (slAmountMinor x)" if "x \<in> set sl" for x
  proof (rule map_of_is_SomeI)
    show "distinct (map fst m)" using m by (simp add: groupsOf_def)
    show "(slCategoryId x, slAmountMinor x) \<in> set m" using that by (auto simp: st pairs [symmetric])
  qed
  have used: "c \<in> slCategoryId ` set sl \<longleftrightarrow> usesCategory k ts c" for c
  proof -
    have "c \<in> slCategoryId ` set sl \<longleftrightarrow> c \<in> set (map fst m)" by (simp add: st ids [symmetric])
    also have "\<dots> \<longleftrightarrow> map_of m c \<noteq> None" by (simp add: map_of_eq_None_iff)
    finally show ?thesis using m by (simp add: groupsOf_def)
  qed
  have tot: "slAmountMinor x = categoryTotal k (slCategoryId x) ts" if "x \<in> set sl" for x
    using val [OF that] m by (auto simp: groupsOf_def split: if_split_asm)
  have "sum_list (map slAmountMinor sl) = sum_list (map snd m)"
    unfolding amts [symmetric] by (metis ms mset_map sum_mset_sum_list)
  moreover have "sorted_wrt sliceOrder sl" unfolding sl by (rule sorted_orderBy) (use sliceOrder_linear in blast)+
  ultimately show ?thesis using m dist used tot by (auto simp: breakdownOf_def groupsOf_def)
qed

lemma breakdown_exact:
  assumes "categorySlicesForTransactions ts cats = Inr (income, expense)"
  shows "breakdownOf IncomeKind ts income" "breakdownOf ExpenseKind ts expense"
proof -
  obtain i e where g: "groupByCategory cats ts ([], []) = Inr (i, e)"
    and sl: "toSlices cats i = Inr income" "toSlices cats e = Inr expense"
    using assms by (auto simp: categorySlicesForTransactions_def led_simps)
  have "groupsOf IncomeKind ts i" "groupsOf ExpenseKind ts e"
    using groupByCategory_exact [OF g, of "[]"] by simp_all
  then show "breakdownOf IncomeKind ts income" "breakdownOf ExpenseKind ts expense"
    using toSlices_exact sl by blast+
qed

section \<open>The scope of an overview\<close>

text \<open>The active transactions of a scope: everything before the end of the anchor day, or one of its periods.\<close>

fun inScope :: "OverviewScope \<Rightarrow> LedgerPeriodRanges \<Rightarrow> LedgerTransaction \<Rightarrow> bool" where
  "inScope AllScope rs t \<longleftrightarrow> txOccurredAt t < endMs (todayR rs)"
| "inScope (ScopePeriod p) rs t \<longleftrightarrow> isWithinRange (txOccurredAt t) (rangeOf rs p)"

definition scopedActive :: "OverviewScope \<Rightarrow> LedgerPeriodRanges \<Rightarrow> ledger_view \<Rightarrow> LedgerTransaction list" where
  "scopedActive scope rs v = filter (\<lambda>t. activeTx t \<and> inScope scope rs t) (lvTransactions v)"

lemma listActiveTransactionsInRange_view:
  assumes "wf_db env db" "listActiveTransactionsInRange env lo hi db = Inr ts"
  shows "ts = orderBy transactionsOrder (filter (\<lambda>t. activeTx t \<and> (case lo of None \<Rightarrow> True | Some l \<Rightarrow> l \<le> txOccurredAt t)
      \<and> txOccurredAt t < hi) (lvTransactions (view env db)))"
proof -
  have "selectTransactions env (\<lambda>r. sqlNull (rt_deleted_at r) \<and> occurredIn lo (Some hi) r) db
     = Inr (orderBy transactionsOrder (filter (\<lambda>t. activeTx t \<and> (case lo of None \<Rightarrow> True | Some l \<Rightarrow> l \<le> txOccurredAt t)
         \<and> txOccurredAt t < hi) (lvTransactions (view env db))))"
    by (rule selectTransactions_view [OF assms(1)]) (cases lo; simp add: occurredIn_def)
  with assms(2) show ?thesis by (auto simp: listActiveTransactionsInRange_def led_simps)
qed

lemma breakdownOf_mset:
  assumes "mset ts = mset us" shows "breakdownOf k ts sl = breakdownOf k us sl"
proof -
  have st: "set ts = set us" using assms by (rule mset_eq_setD)
  have "mset (map f (filter P ts)) = mset (map f (filter P us))" for f :: "LedgerTransaction \<Rightarrow> int" and P
    using assms by simp
  then have s: "sum_list (map f (filter P ts)) = sum_list (map f (filter P us))" for f :: "LedgerTransaction \<Rightarrow> int" and P
    by (metis sum_mset_sum_list)
  show ?thesis by (simp add: breakdownOf_def usesCategory_def categoryTotal_def amountsOf_def st s)
qed

lemma scoped_read:
  assumes wf: "wf_db env (stDb u)"
    and ps: "listActiveTransactionsInRange env (Some (Min (insert a (startMs ` rangeOf rs ` set PERIOD_ORDER))))
      (Max (insert b (endMs ` rangeOf rs ` set PERIOD_ORDER))) (stDb u) = Inr ps"
    and ts: "(case scope of AllScope \<Rightarrow> readDb (listActiveTransactionsInRange env None (endMs (todayR rs)))
      | ScopePeriod p \<Rightarrow> ret (filter (\<lambda>t. isWithinRange (txOccurredAt t) (rangeOf rs p)) ps)) u = (Inr ts, w)"
  shows "mset ts = mset (scopedActive scope rs (view env (stDb u)))"
proof (cases scope)
  case AllScope
  then show ?thesis using ts
    by (auto simp: led_simps scopedActive_def dest!: listActiveTransactionsInRange_view [OF wf])
next
  case (ScopePeriod p)
  let ?lo = "Min (insert a (startMs ` rangeOf rs ` set PERIOD_ORDER))"
  let ?hi = "Max (insert b (endMs ` rangeOf rs ` set PERIOD_ORDER))"
  have "p \<in> set PERIOD_ORDER" by (cases p) (simp_all add: PERIOD_ORDER_def)
  then have window: "?lo \<le> startMs (rangeOf rs p)" "endMs (rangeOf rs p) \<le> ?hi" by auto
  have "mset ts = mset (filter (\<lambda>t. isWithinRange (txOccurredAt t) (rangeOf rs p))
      (filter (\<lambda>t. activeTx t \<and> ?lo \<le> txOccurredAt t \<and> txOccurredAt t < ?hi) (lvTransactions (view env (stDb u)))))"
    using ts listActiveTransactionsInRange_view [OF wf ps] by (simp add: ScopePeriod led_simps del: filter_filter)
  also have "filter (\<lambda>t. isWithinRange (txOccurredAt t) (rangeOf rs p))
      (filter (\<lambda>t. activeTx t \<and> ?lo \<le> txOccurredAt t \<and> txOccurredAt t < ?hi) (lvTransactions (view env (stDb u))))
    = scopedActive scope rs (view env (stDb u))"
    unfolding scopedActive_def filter_filter ScopePeriod inScope.simps isWithinRange_def
    using window by (intro filter_cong) auto
  finally show ?thesis .
qed

text \<open>What the overview reads for its scope: the active transactions of the scope, in some order.\<close>

lemma overview_scope:
  assumes g: "good env s" and run: "getOverview env scope anchor s = (Inr d, t)"
  shows "\<exists>x now rs ts cats. lvSettings (view env (stDb s)) = Some x \<and> nowFn env (stNow s) = JInt now
     \<and> ledgerLocalDateForInstant env now (setTimezone x) = Inr (ovTodayDate d)
     \<and> resolveAnchorDate env anchor (ovTodayDate d) = Inr (ovAnchorDate d)
     \<and> periodRangesForLocalDate env (ovAnchorDate d) (setTimezone x) = Inr rs
     \<and> mset ts = mset (scopedActive scope rs (view env (stDb s)))
     \<and> cashflowForTransactions ts = Inr (ovCashflow d)
     \<and> categorySlicesForTransactions ts cats = Inr (ovIncomeSlices d, ovExpenseSlices d)"
  proof -
  have wf: "wf_db env (stDb s)" using g by (rule good_wf)
  have same: "mapM (accountState env) as (s\<lparr>stNow := k\<rparr>) = (Inr states, u) \<Longrightarrow> stDb u = stDb s" for as k states u
    using accountStates_exact [of env "s\<lparr>stNow := k\<rparr>" as states u] g by simp
  have rd: "mset ts = mset (scopedActive scope rs (view env (stDb s)))"
    if "mapM (accountState env) as (s\<lparr>stNow := k\<rparr>) = (Inr states, u)"
      "listActiveTransactionsInRange env (Some (Min (insert a (startMs ` rangeOf rs ` set PERIOD_ORDER))))
        (Max (insert b (endMs ` rangeOf rs ` set PERIOD_ORDER))) (stDb u) = Inr ps"
      "(case scope of AllScope \<Rightarrow> readDb (listActiveTransactionsInRange env None (endMs (todayR rs)))
        | ScopePeriod p \<Rightarrow> ret (filter (\<lambda>t. isWithinRange (txOccurredAt t) (rangeOf rs p)) ps)) u = (Inr ts, w)"
    for as k states u a b ps ts w rs
    using scoped_read [OF _ that(2,3)] same [OF that(1)] wf by simp
  show ?thesis using run
    by (auto simp: getOverview_def led_simps Let_def requireSettings_iff [OF g] split: prod.split_asm)
      (blast intro: rd)
qed

lemma overview_breakdown:
  assumes "good env s" "getOverview env scope anchor s = (Inr d, t)"
  shows "\<exists>x now rs. lvSettings (view env (stDb s)) = Some x \<and> nowFn env (stNow s) = JInt now
     \<and> ledgerLocalDateForInstant env now (setTimezone x) = Inr (ovTodayDate d)
     \<and> resolveAnchorDate env anchor (ovTodayDate d) = Inr (ovAnchorDate d)
     \<and> periodRangesForLocalDate env (ovAnchorDate d) (setTimezone x) = Inr rs
     \<and> breakdownOf IncomeKind (scopedActive scope rs (view env (stDb s))) (ovIncomeSlices d)
     \<and> breakdownOf ExpenseKind (scopedActive scope rs (view env (stDb s))) (ovExpenseSlices d)
     \<and> (\<Sum>c\<leftarrow>ovIncomeSlices d. slAmountMinor c) = cfIncomeMinor (ovCashflow d)
     \<and> (\<Sum>c\<leftarrow>ovExpenseSlices d. slAmountMinor c) = cfExpenseMinor (ovCashflow d)
     \<and> cfBalanceMinor (ovCashflow d) = cfIncomeMinor (ovCashflow d) - cfExpenseMinor (ovCashflow d)"
proof -
  from overview_scope [OF assms] obtain x now rs ts cats where r: "lvSettings (view env (stDb s)) = Some x"
    "nowFn env (stNow s) = JInt now" "ledgerLocalDateForInstant env now (setTimezone x) = Inr (ovTodayDate d)"
    "resolveAnchorDate env anchor (ovTodayDate d) = Inr (ovAnchorDate d)"
    "periodRangesForLocalDate env (ovAnchorDate d) (setTimezone x) = Inr rs"
    and ts: "mset ts = mset (scopedActive scope rs (view env (stDb s)))" and c: "cashflowForTransactions ts = Inr (ovCashflow d)"
    and sl: "categorySlicesForTransactions ts cats = Inr (ovIncomeSlices d, ovExpenseSlices d)" by blast
  have "breakdownOf IncomeKind ts (ovIncomeSlices d)" "breakdownOf ExpenseKind ts (ovExpenseSlices d)"
    using breakdown_exact [OF sl] by blast+
  moreover from this have "(\<Sum>c\<leftarrow>ovIncomeSlices d. slAmountMinor c) = cfIncomeMinor (ovCashflow d)"
    "(\<Sum>c\<leftarrow>ovExpenseSlices d. slAmountMinor c) = cfExpenseMinor (ovCashflow d)"
    "cfBalanceMinor (ovCashflow d) = cfIncomeMinor (ovCashflow d) - cfExpenseMinor (ovCashflow d)"
    using cashflow_exact [OF c] by (simp_all add: breakdownOf_def)
  ultimately show ?thesis using r unfolding breakdownOf_mset [OF ts] by blast
qed

section \<open>Months\<close>

text \<open>Ranges that follow each other without a gap.\<close>

fun contiguous :: "'a LedgerTimeRange_scheme list \<Rightarrow> bool" where
  "contiguous (r # q # rs) \<longleftrightarrow> startMs r \<le> endMs r \<and> endMs r = startMs q \<and> contiguous (q # rs)"
| "contiguous [r] \<longleftrightarrow> startMs r \<le> endMs r"
| "contiguous [] \<longleftrightarrow> True"

definition netAmount :: "LedgerTransaction list \<Rightarrow> int" where
  "netAmount ts = sum_list (amountsOf IncomeType ts) - sum_list (amountsOf ExpenseType ts)"

lemma netAmount_split:
  "a \<le> b \<Longrightarrow> b \<le> c \<Longrightarrow> netAmount (filter (\<lambda>t. a \<le> txOccurredAt t \<and> txOccurredAt t < b) ts)
     + netAmount (filter (\<lambda>t. b \<le> txOccurredAt t \<and> txOccurredAt t < c) ts)
   = netAmount (filter (\<lambda>t. a \<le> txOccurredAt t \<and> txOccurredAt t < c) ts)"
  by (induction ts) (auto simp: netAmount_def amountsOf_def)

lemma contiguous_le: "contiguous rs \<Longrightarrow> rs \<noteq> [] \<Longrightarrow> startMs (hd rs) \<le> endMs (last rs)"
  by (induction rs rule: contiguous.induct) auto

lemma trend_balance:
  "trendForRanges rs ts = Inr ps \<Longrightarrow> contiguous rs \<Longrightarrow> rs \<noteq> [] \<Longrightarrow>
     (\<Sum>p\<leftarrow>ps. cfBalanceMinor p) = netAmount (filter (\<lambda>t. startMs (hd rs) \<le> txOccurredAt t \<and> txOccurredAt t < endMs (last rs)) ts)"
proof (induction rs arbitrary: ps rule: contiguous.induct)
  case (1 r q rs)
  obtain c ps' where c: "cashflowForTransactions (filter (\<lambda>t. isWithinRange (txOccurredAt t) r) ts) = Inr c"
    and rest: "trendForRanges (q # rs) ts = Inr ps'" and ps: "(\<Sum>p\<leftarrow>ps. cfBalanceMinor p) = cfBalanceMinor c + (\<Sum>p\<leftarrow>ps'. cfBalanceMinor p)"
    using 1(2) by (auto simp: trendForRanges_def led_simps)
  have "cfBalanceMinor c = netAmount (filter (\<lambda>t. startMs r \<le> txOccurredAt t \<and> txOccurredAt t < endMs r) ts)"
    using cashflow_exact [OF c] by (simp add: netAmount_def isWithinRange_def)
  then show ?case
    using 1(1) [OF rest] 1(3) contiguous_le [of "q # rs"] netAmount_split [of "startMs r" "endMs r" "endMs (last (q # rs))" ts]
    by (simp add: ps)
next
  case (2 r)
  then obtain c where c: "cashflowForTransactions (filter (\<lambda>t. isWithinRange (txOccurredAt t) r) ts) = Inr c"
    and ps: "(\<Sum>p\<leftarrow>ps. cfBalanceMinor p) = cfBalanceMinor c"
    by (auto simp: trendForRanges_def led_simps)
  then show ?case using cashflow_exact [OF c] by (simp add: netAmount_def isWithinRange_def)
qed simp

end
