(* ===== verification/TrendFacts.thy ===== *)
theory TrendFacts
  imports ProjectionFacts
begin

text \<open>
  The balances an account page shows: the points of the balance trend, computed by one pass over
  the sorted transactions, are the exact balances at the end of their days, and the running balance
  beside a transaction is the exact balance of everything up to it.
\<close>

section \<open>Balances at the end of days\<close>

lemma trendOrder_occurred: "sorted_wrt (trendOrder env) ts \<Longrightarrow> sorted (map txOccurredAt ts)"
  by (induction ts) (auto simp: trendOrder_def)

definition effectSum :: "LedgerAccount \<Rightarrow> LedgerTransaction list \<Rightarrow> int" where
  "effectSum a ts = (\<Sum>t\<leftarrow>ts. naturalEffect t (accId a) (accNature a))"

lemma advance_exact:
  "advance c (accId a) (accNature a) b ts = Inr (b', us) \<Longrightarrow> sorted (map txOccurredAt ts) \<Longrightarrow>
     us = filter (\<lambda>t. \<not> txOccurredAt t < c) ts \<and> b' = b + effectSum a (filter (\<lambda>t. txOccurredAt t < c) ts)"
proof (induction ts arbitrary: b)
  case (Cons t ts)
  show ?case
  proof (cases "txOccurredAt t < c")
    case True
    with Cons.prems obtain e where e: "transactionEffectForAccount t (accId a) (accNature a) = Inr e"
      and rest: "advance c (accId a) (accNature a) (b + e) ts = Inr (b', us)" by (auto simp: led_simps)
    from Cons.IH [OF rest] Cons.prems(2) True transactionEffect_result [OF e] show ?thesis
      by (simp add: effectSum_def)
  next
    case False
    then have "\<forall>u\<in>set ts. \<not> txOccurredAt u < c" using Cons.prems(2) by fastforce
    then have "filter (\<lambda>t. txOccurredAt t < c) ts = []" "filter (\<lambda>t. \<not> txOccurredAt t < c) ts = ts"
      by (simp_all add: filter_empty_conv filter_id_conv)
    then show ?thesis using Cons.prems(1) False by (auto simp: effectSum_def)
  qed
qed (simp add: effectSum_def)

text \<open>The instant before which the i-th point counts: the end of its day, for the last one the present.\<close>

definition cutoffOf :: "ledger_env \<Rightarrow> jsstr \<Rightarrow> int \<Rightarrow> LedgerCalendarDayPoint list \<Rightarrow> nat \<Rightarrow> int" where
  "cutoffOf env tz nowExclusive ps i = (if Suc i = length ps then nowExclusive
     else endMs (decoded (\<lambda>d. localDateRange env d tz) (cpDate (ps ! i))))"

lemma effectSum_split:
  "c \<le> d \<Longrightarrow> effectSum a (filter (\<lambda>t. txOccurredAt t < c) ts) + effectSum a (filter (\<lambda>t. txOccurredAt t < d)
     (filter (\<lambda>t. \<not> txOccurredAt t < c) ts)) = effectSum a (filter (\<lambda>t. txOccurredAt t < d) ts)"
  by (induction ts) (auto simp: effectSum_def)

lemma trendPoints_exact:
  assumes "trendPoints env (accId a) (accNature a) nowMs nowEx tz b ts ps = Inr points"
    and "sorted (map txOccurredAt ts)" "sorted (map (cutoffOf env tz nowEx ps) [0 ..< length ps])"
  shows "length points = length ps \<and> (\<forall>i<length ps. btDate (points ! i) = cpDate (ps ! i)
      \<and> btBalanceMinor (points ! i) = b + effectSum a (filter (\<lambda>t. txOccurredAt t < cutoffOf env tz nowEx ps i) ts))"
  using assms
proof (induction ps arbitrary: b ts points)
  case (Cons p ps)
  let ?c = "cutoffOf env tz nowEx (p # ps) 0"
  obtain b' us rest where adv: "advance ?c (accId a) (accNature a) b ts = Inr (b', us)"
    and rest: "trendPoints env (accId a) (accNature a) nowMs nowEx tz b' us ps = Inr rest"
    and hd: "btDate (hd points) = cpDate p" "btBalanceMinor (hd points) = b'" and tl: "points = hd points # rest"
    using Cons.prems(1) by (auto simp: Let_def led_simps cutoffOf_def decoded_def split: if_split_asm)
  note ex = advance_exact [OF adv Cons.prems(2)]
  have shift: "cutoffOf env tz nowEx (p # ps) (Suc i) = cutoffOf env tz nowEx ps i" for i
    by (simp add: cutoffOf_def)
  have le: "?c \<le> cutoffOf env tz nowEx ps i" if "i < length ps" for i
    using Cons.prems(3) that sorted_nth_mono [OF Cons.prems(3), of 0 "Suc i"] by (simp add: shift del: upt_Suc)
  have srt: "sorted (map (cutoffOf env tz nowEx ps) [0 ..< length ps])"
  proof -
    have "map (cutoffOf env tz nowEx (p # ps)) [0 ..< length (p # ps)] = ?c # map (cutoffOf env tz nowEx ps) [0 ..< length ps]"
      by (simp add: upt_conv_Cons map_Suc_upt [symmetric] shift comp_def del: upt_Suc)
    then show ?thesis using Cons.prems(3) by (simp del: upt_Suc)
  qed
  have "sorted (map txOccurredAt us)" using ex Cons.prems(2) by (simp add: sorted_filter)
  note IH = Cons.IH [OF rest this srt]
  show ?case
  proof (intro conjI allI impI)
    show "length points = length (p # ps)" by (subst tl) (simp add: IH)
    fix i assume i: "i < length (p # ps)"
    show "btDate (points ! i) = cpDate ((p # ps) ! i)"
      by (subst tl) (use IH hd i in \<open>cases i; simp\<close>)
    show "btBalanceMinor (points ! i) = b + effectSum a (filter (\<lambda>t. txOccurredAt t < cutoffOf env tz nowEx (p # ps) i) ts)"
    proof (cases i)
      case (Suc j)
      with i have j: "j < length ps" by simp
      then show ?thesis
        using effectSum_split [OF le [OF j], of a ts] IH ex by (subst tl) (simp add: Suc shift)
    qed (subst tl, use hd ex in simp)
  qed
qed simp

text \<open>At the last point everything is consumed, whatever the days before it.\<close>

lemma advance_split:
  "advance c (accId a) (accNature a) b ts = Inr (b', us) \<Longrightarrow> \<exists>pre. ts = pre @ us \<and> b' = b + effectSum a pre
     \<and> (\<forall>t\<in>set (take 1 us). \<not> txOccurredAt t < c)"
proof (induction ts arbitrary: b)
  case (Cons t ts)
  show ?case
  proof (cases "txOccurredAt t < c")
    case True
    with Cons.prems obtain e where e: "transactionEffectForAccount t (accId a) (accNature a) = Inr e"
      and rest: "advance c (accId a) (accNature a) (b + e) ts = Inr (b', us)" by (auto simp: led_simps)
    from Cons.IH [OF rest] obtain pre where "ts = pre @ us" "b' = b + e + effectSum a pre"
      "\<forall>t\<in>set (take 1 us). \<not> txOccurredAt t < c" by blast
    with transactionEffect_result [OF e] show ?thesis
      by (intro exI [of _ "t # pre"]) (simp add: effectSum_def)
  next
    case False
    with Cons.prems show ?thesis by (intro exI [of _ "[]"]) (auto simp: effectSum_def)
  qed
qed (simp add: effectSum_def)

lemma trendPoints_last:
  "trendPoints env (accId a) (accNature a) nowMs nowEx tz b ts ps = Inr points \<Longrightarrow> ps \<noteq> [] \<Longrightarrow>
     \<forall>t\<in>set ts. txOccurredAt t < nowEx \<Longrightarrow>
     points \<noteq> [] \<and> btTimestamp (last points) = nowMs \<and> btBalanceMinor (last points) = b + effectSum a ts"
proof (induction ps arbitrary: b ts points)
  case (Cons p ps)
  obtain c b' us rest where adv: "advance c (accId a) (accNature a) b ts = Inr (b', us)"
    and rest: "trendPoints env (accId a) (accNature a) nowMs nowEx tz b' us ps = Inr rest"
    and pts: "points = \<lparr>btDate = cpDate p, btTimestamp = (if ps = [] then nowMs else c), btBalanceMinor = b'\<rparr> # rest"
    and c: "ps = [] \<longrightarrow> c = nowEx"
    using Cons.prems(1) by (auto simp: Let_def led_simps split: if_split_asm)
  from advance_split [OF adv] obtain pre where pre: "ts = pre @ us" "b' = b + effectSum a pre"
    "\<forall>t\<in>set (take 1 us). \<not> txOccurredAt t < c" by blast
  show ?case
  proof (cases "ps = []")
    case True
    then have "us = []" using pre c Cons.prems(3) by (cases us) auto
    with True pre rest show ?thesis by (simp add: pts)
  next
    case False
    with Cons.IH [OF rest] Cons.prems(3) pre show ?thesis by (simp add: pts effectSum_def)
  qed
qed simp

lemma sorted_insertBy_key:
  fixes f :: "'a \<Rightarrow> 'k::linorder"
  assumes "\<And>y. le x y \<Longrightarrow> f x \<le> f y" "\<And>y. \<not> le x y \<Longrightarrow> f y \<le> f x" "sorted (map f ys)"
  shows "sorted (map f (insertBy le x ys))"
  using assms(3)
proof (induction ys)
  case (Cons y ys)
  have mem: "set (insertBy le x ys) = insert x (set ys)"
    by (metis mset_insertBy set_mset_add_mset_insert set_mset_mset)
  show ?case
  proof (cases "le x y")
    case True
    then show ?thesis using Cons.prems assms(1) by fastforce
  next
    case False
    then show ?thesis using Cons mem assms(2) by auto
  qed
qed simp

lemma trendOrder_sorts: "sorted (map txOccurredAt (orderBy (trendOrder env) ts))"
  by (induction ts) (auto intro!: sorted_insertBy_key simp: trendOrder_def)

lemma effectSum_mset: "mset ts = mset us \<Longrightarrow> effectSum a ts = effectSum a us"
  unfolding effectSum_def by (metis mset_map sum_mset_sum_list)

lemma effectSum_orderBy:
  "effectSum a (filter P (orderBy le ts)) = effectSum a (filter P ts)" "effectSum a (orderBy le ts) = effectSum a ts"
  by (rule effectSum_mset, simp)+

lemma exactBalance_sum:
  "exactBalance (balanceAccount a) ts = accOpeningBalanceMinor a + effectSum a ts"
  by (simp add: exactBalance_def effectSum_def balanceAccount_def)

text \<open>What the repository's range query holds of an account's effects.\<close>

lemma effectSum_range:
  assumes "wf_db env db" "listActiveTransactionsForAccountInRange env (accId a) lo hi db = Inr ts"
  shows "effectSum a (filter P ts) = effectSum a (filter (\<lambda>t. lo \<le> txOccurredAt t \<and> txOccurredAt t < hi \<and> P t) (lvTransactions (view env db)))"
    "\<forall>t\<in>set ts. lo \<le> txOccurredAt t \<and> txOccurredAt t < hi" "lo < hi"
proof -
  let ?us = "lvTransactions (view env db)"
  have lo: "lo < hi" and run: "selectTransactions env
      (\<lambda>r. sqlNull (rt_deleted_at r) \<and> rowTouches (accId a) r \<and> occurredIn (Some lo) (Some hi) r) db = Inr ts"
    using assms(2) by (auto simp: listActiveTransactionsForAccountInRange_def led_simps)
  have ts: "ts = orderBy transactionsOrder
      (filter (\<lambda>t. activeTx t \<and> touches t (accId a) \<and> lo \<le> txOccurredAt t \<and> txOccurredAt t < hi) ?us)"
    using run selectTransactions_view [OF assms(1), of
        "\<lambda>r. sqlNull (rt_deleted_at r) \<and> rowTouches (accId a) r \<and> occurredIn (Some lo) (Some hi) r"
        "\<lambda>t. activeTx t \<and> touches t (accId a) \<and> lo \<le> txOccurredAt t \<and> txOccurredAt t < hi"]
    by (simp add: occurredIn_def)
  have eff: "effectSum a (filter (\<lambda>t. activeTx t \<and> touches t (accId a) \<and> Q t) us) = effectSum a (filter Q us)" for us Q
  proof (induction us)
    case (Cons t us)
    have "naturalEffect t (accId a) (accNature a) = 0" if "\<not> (activeTx t \<and> touches t (accId a))"
      using that naturalEffect_untouched [of t] naturalEffect_deleted [of t] unfolding activeTx_def by blast
    with Cons show ?case by (auto simp: effectSum_def)
  qed simp
  have "effectSum a (filter P ts) = effectSum a (filter (\<lambda>t. activeTx t \<and> touches t (accId a) \<and>
      (lo \<le> txOccurredAt t \<and> txOccurredAt t < hi \<and> P t)) ?us)"
    unfolding ts effectSum_orderBy by (simp add: conj_ac)
  then show "effectSum a (filter P ts) = effectSum a (filter (\<lambda>t. lo \<le> txOccurredAt t \<and> txOccurredAt t < hi \<and> P t) ?us)"
    unfolding eff .
  show "\<forall>t\<in>set ts. lo \<le> txOccurredAt t \<and> txOccurredAt t < hi" using ts by simp
  show "lo < hi" by (rule lo)
qed

lemma effectSum_before:
  "c \<le> d \<Longrightarrow> effectSum a (filter (\<lambda>t. txOccurredAt t < c) ts)
     + effectSum a (filter (\<lambda>t. c \<le> txOccurredAt t \<and> txOccurredAt t < d) ts) = effectSum a (filter (\<lambda>t. txOccurredAt t < d) ts)"
  by (induction ts) (auto simp: effectSum_def)

lemma balanceBefore_exact:
  assumes "wf_db env db" "getAccountBalanceBefore (balanceAccount a) before db = Inr b"
  shows "b = accOpeningBalanceMinor a + effectSum a (filter (\<lambda>t. txOccurredAt t < before) (lvTransactions (view env db)))"
proof -
  have "aggregateBalance (balanceAccount a) (occurredIn None (Some before)) db = Inr b"
    using assms(2) by (auto simp: getAccountBalanceBefore_def led_simps)
  from aggregateBalance_exact(1) [OF assms(1) _ this, of "\<lambda>t. txOccurredAt t < before"] show ?thesis
    by (simp add: occurredIn_def exactBalance_sum)
qed

definition daysInOrder :: "ledger_env \<Rightarrow> jsstr \<Rightarrow> int \<Rightarrow> LedgerCalendarDayPoint list \<Rightarrow> bool" where
  "daysInOrder env tz nowExclusive ps \<longleftrightarrow>
     sorted (cpStartMs (hd ps) # map (cutoffOf env tz nowExclusive ps) [0 ..< length ps])"

lemma calendarPoints_length:
  "calendarDayPointsForInstant env days n i tz = Inr ps \<Longrightarrow> length ps = nat n \<and> ps \<noteq> []"
proof -
  assume run: "calendarDayPointsForInstant env days n i tz = Inr ps"
  have re: "rethrowLedger r = Inr x \<longleftrightarrow> r = Inr x" for r :: "LedgerCalendarDayPoint list res" and x
    by (auto simp: rethrowLedger_def split: sum.split failure.split)
  have "1 \<le> n" "length ps = nat n"
    using run by (auto simp: calendarDayPointsForInstant_def led_simps re mapR_Inr_iff Let_def split: if_split_asm)
  then show ?thesis by auto
qed

lemma accountBalanceTrend_exact:
  assumes wf: "wf_db env db" and now: "utcOk env now"
    and cps: "cps \<noteq> []"
    and ts: "listActiveTransactionsForAccountInRange env (accId a) (cpStartMs (hd cps)) (now + 1) db = Inr ts"
    and prefix: "getAccountBalanceBefore (balanceAccount a) (cpStartMs (hd cps)) db = Inr b"
    and run: "accountBalanceTrend env a b ts cps now tz = Inr points"
  shows "points \<noteq> [] \<and> btTimestamp (last points) = now \<and> btBalanceMinor (last points)
      = exactBalance (balanceAccount a) (filter (\<lambda>t. txOccurredAt t < now + 1) (lvTransactions (view env db)))" (is ?last)
    and "daysInOrder env tz (now + 1) cps \<Longrightarrow> length points = length cps \<and> (\<forall>k<length cps.
      btDate (points ! k) = cpDate (cps ! k) \<and> btBalanceMinor (points ! k) = exactBalance (balanceAccount a)
        (filter (\<lambda>t. txOccurredAt t < cutoffOf env tz (now + 1) cps k) (lvTransactions (view env db))))"
proof -
  let ?us = "lvTransactions (view env db)" and ?lo = "cpStartMs (hd cps)"
  have tp: "trendPoints env (accId a) (accNature a) now (now + 1) tz b (orderBy (trendOrder env) ts) cps = Inr points"
    using run by (auto simp: accountBalanceTrend_def led_simps exclusiveInstant_iff [OF now])
  note b = balanceBefore_exact [OF wf prefix] and win = effectSum_range [OF wf ts]
  have "effectSum a ts = effectSum a (filter (\<lambda>t. ?lo \<le> txOccurredAt t \<and> txOccurredAt t < now + 1) ?us)"
    using win(1) [of "\<lambda>_. True"] by simp
  then have all: "b + effectSum a ts = exactBalance (balanceAccount a) (filter (\<lambda>t. txOccurredAt t < now + 1) ?us)"
    using effectSum_before [of ?lo "now + 1" a ?us] win(3) by (simp add: b exactBalance_sum)
  show ?last
    using trendPoints_last [OF tp cps] win(2) by (simp add: effectSum_orderBy all)
  assume days: "daysInOrder env tz (now + 1) cps"
  have srt: "sorted (map (cutoffOf env tz (now + 1) cps) [0 ..< length cps])" using days by (simp add: daysInOrder_def)
  note ex = trendPoints_exact [OF tp trendOrder_sorts srt]
  have bal: "b + effectSum a (filter (\<lambda>t. txOccurredAt t < cutoffOf env tz (now + 1) cps k) ts)
      = exactBalance (balanceAccount a) (filter (\<lambda>t. txOccurredAt t < cutoffOf env tz (now + 1) cps k) ?us)"
    if k: "k < length cps" for k
  proof -
    let ?c = "cutoffOf env tz (now + 1) cps k"
    have lo: "?lo \<le> ?c" using days k by (simp add: daysInOrder_def)
    have "cutoffOf env tz (now + 1) cps (length cps - 1) = now + 1" using cps by (simp add: cutoffOf_def)
    then have hi: "?c \<le> now + 1" using sorted_nth_mono [OF srt, of k "length cps - 1"] k by simp
    have in_window: "(?lo \<le> txOccurredAt t \<and> txOccurredAt t < now + 1 \<and> txOccurredAt t < ?c)
        = (?lo \<le> txOccurredAt t \<and> txOccurredAt t < ?c)" for t using hi by auto
    then have "effectSum a (filter (\<lambda>t. txOccurredAt t < ?c) ts) = effectSum a (filter (\<lambda>t. ?lo \<le> txOccurredAt t \<and> txOccurredAt t < ?c) ?us)"
      using win(1) [of "\<lambda>t. txOccurredAt t < ?c"] by (simp only: in_window)
    then show ?thesis using effectSum_before [OF lo, of a ?us] by (simp add: b exactBalance_sum)
  qed
  show "length points = length cps \<and> (\<forall>k<length cps.
      btDate (points ! k) = cpDate (cps ! k) \<and> btBalanceMinor (points ! k) = exactBalance (balanceAccount a)
        (filter (\<lambda>t. txOccurredAt t < cutoffOf env tz (now + 1) cps k) ?us))"
    using ex bal by (simp add: effectSum_orderBy)
qed

lemma balanceTrend_run:
  assumes g: "good env s" and run: "getAccountBalanceTrend env i days s = (Inr (days', points), t)"
  obtains x a now cps ts b where "lvSettings (view env (stDb s)) = Some x" "accountOf (view env (stDb s)) i = Some a"
    "nowFn env (stNow s) = JInt now" "utcOk env now" "cps \<noteq> []"
    "calendarDayPointsForInstant env days (if days \<le> 30 then days else 12) now (setTimezone x) = Inr cps"
    "listActiveTransactionsForAccountInRange env (accId a) (cpStartMs (hd cps)) (now + 1) (stDb s) = Inr ts"
    "getAccountBalanceBefore (balanceAccount a) (cpStartMs (hd cps)) (stDb s) = Inr b"
    "accountBalanceTrend env a b ts cps now (setTimezone x) = Inr points"
proof -
  have "\<exists>x a now cps ts b. lvSettings (view env (stDb s)) = Some x \<and> accountOf (view env (stDb s)) i = Some a
    \<and> nowFn env (stNow s) = JInt now \<and> utcOk env now
    \<and> calendarDayPointsForInstant env days (if days \<le> 30 then days else 12) now (setTimezone x) = Inr cps
    \<and> listActiveTransactionsForAccountInRange env (accId a) (cpStartMs (hd cps)) (now + 1) (stDb s) = Inr ts
    \<and> getAccountBalanceBefore (balanceAccount a) (cpStartMs (hd cps)) (stDb s) = Inr b
    \<and> accountBalanceTrend env a b ts cps now (setTimezone x) = Inr points"
    using run unfolding getAccountBalanceTrend_def
    by (auto simp: led_simps requireSettings_iff [OF g] requireAccount_iff [OF g] exclusiveInstant_iff)
  then show thesis using that calendarPoints_length by blast
qed

section \<open>The page of an account\<close>

lemma rowPosition_params: "rowPosition (transactionParams t) = txPosition t"
  by (simp add: rowPosition_def txPosition_def) (simp add: transactionParams_def)

lemma query_rows:
  assumes "wf_db env db" "queryTransactions env opts db = Inr rows"
  shows "set rows \<subseteq> set (lvTransactions (view env db))"
proof -
  have "set rows \<subseteq> decoded (ledgerTransactionFromRow env) ` set (dbTransactions db)"
    using assms(2) by (auto simp: queryTransactions_def mapR_Inr_iff dest!: in_set_takeD in_set_dropD)
  then show ?thesis by (simp add: view_def)
qed

lemma transactionPage_run:
  assumes "transactionPage env q b s = (Inr p, t)"
  obtains opts rows where "normalizeTransactionQuery env q = Inr opts" "queryTransactions env opts (stDb s) = Inr rows" "t = s"
    "ppRows p = take (nat (qoLimit opts)) rows" "0 < qoLimit opts"
    "pgNextCursor (ppPage p) = (if int (length rows) > qoLimit opts then Some (encodeCursor env (last (ppRows p))) else None)"
    "pgSummary (ppPage p) = (if b then pgSummary (ppPage p) else None)"
    "b \<Longrightarrow> \<exists>u. summarizeTransactions opts (stDb s) = Inr u \<and> pgSummary (ppPage p) = Some u"
proof -
  obtain opts rows where opts: "normalizeTransactionQuery env q = Inr opts" "queryTransactions env opts (stDb s) = Inr rows" "t = s"
    and sum: "if b then \<exists>u. summarizeTransactions opts (stDb s) = Inr u \<and> pgSummary (ppPage p) = Some u
        else pgSummary (ppPage p) = None"
    and p: "ppRows p = (if int (length rows) > qoLimit opts then take (nat (qoLimit opts)) rows else rows)"
      "pgNextCursor (ppPage p) = (if int (length rows) > qoLimit opts \<and> ppRows p \<noteq> []
         then Some (encodeCursor env (last (ppRows p))) else None)"
    using assms by (cases b) (auto simp: transactionPage_def led_simps Let_def)
  have lim: "0 < qoLimit opts"
    using opts(1) by (auto simp: normalizeTransactionQuery_def led_simps split: if_split_asm)
  have rows: "ppRows p = take (nat (qoLimit opts)) rows" using p(1) lim by (simp add: not_less)
  have "pgNextCursor (ppPage p) = (if int (length rows) > qoLimit opts then Some (encodeCursor env (last (ppRows p))) else None)"
    using p(2) rows lim by auto
  from that [OF opts rows lim this] sum show thesis by (cases b) auto
qed

definition runningBalance :: "LedgerAccount \<Rightarrow> LedgerTransaction \<Rightarrow> LedgerTransaction list \<Rightarrow> int" where
  "runningBalance a t ts = exactBalance (balanceAccount a) (filter (\<lambda>u. txPosition u \<le> txPosition t) ts)"

lemma transactionBalances_exact:
  assumes wf: "wf_db env db" and rows: "set rows \<subseteq> set (lvTransactions (view env db))"
    and bs: "getAccountBalancesAtPositions (balanceAccount a) (map txPosition rows) db = Inr bs"
    and run: "transactionBalances bs rows = Inr shown"
  shows "map fst shown = map txId rows"
    "\<forall>(j, b)\<in>set shown. \<exists>t\<in>set (lvTransactions (view env db)). txId t = j \<and> b = runningBalance a t (lvTransactions (view env db))"
proof -
  let ?v = "lvTransactions (view env db)"
  have shown: "\<forall>t\<in>set rows. \<exists>b. map_of (rev bs) (txId t) = Some b" "shown = map (\<lambda>t. (txId t, the (map_of (rev bs) (txId t)))) rows"
  proof -
    have "transactionBalances bs rows = Inr shown \<Longrightarrow> (\<forall>t\<in>set rows. \<exists>b. map_of (rev bs) (txId t) = Some b)
        \<and> shown = map (\<lambda>t. (txId t, the (map_of (rev bs) (txId t)))) rows" for rows shown
      unfolding transactionBalances_def
      by (induction rows arbitrary: shown) (auto simp: led_simps projectionInvariant_def split: option.split_asm)
    from this [OF run] show "\<forall>t\<in>set rows. \<exists>b. map_of (rev bs) (txId t) = Some b"
      "shown = map (\<lambda>t. (txId t, the (map_of (rev bs) (txId t)))) rows" by blast+
  qed
  show "map fst shown = map txId rows" by (simp add: shown(2) comp_def)
  have entry: "\<exists>t\<in>set rows. txId t = j \<and> b = runningBalance a t ?v" if e: "(j, b) \<in> set bs" for j b
  proof -
    from e bs obtain t where t: "t \<in> set rows" "j = txId t"
      and agg: "aggregateBalance (balanceAccount a) (\<lambda>r. rowPosition r \<le> txPosition t) db = Inr b"
      by (auto simp: getAccountBalancesAtPositions_def led_simps mapR_Inr_iff decoded_def txPosition_def)
    have "b = runningBalance a t ?v"
      unfolding runningBalance_def by (rule aggregateBalance_exact(1) [OF wf _ agg]) (simp only: rowPosition_params)
    with t show ?thesis by blast
  qed
  show "\<forall>(j, b)\<in>set shown. \<exists>t\<in>set ?v. txId t = j \<and> b = runningBalance a t ?v"
  proof (rule ballI, clarify)
    fix j b assume "(j, b) \<in> set shown"
    then have "map_of (rev bs) j = Some b" using shown by fastforce
    then have "(j, b) \<in> set bs" by (metis map_of_SomeD set_rev)
    from entry [OF this] rows show "\<exists>t\<in>set ?v. txId t = j \<and> b = runningBalance a t ?v" by blast
  qed
qed

lemma accountTransactions_exact:
  assumes g: "good env s" and run: "getAccountTransactions env i q s = (Inr d, t)"
  shows "\<exists>a now b. accountOf (view env (stDb s)) i = Some a \<and> nowFn env (stNow s) = JInt now
    \<and> b = exactBalance (balanceAccount a) (filter (\<lambda>t. txOccurredAt t < now + 1) (lvTransactions (view env (stDb s))))
    \<and> accountDto a b = Inr (atAccount d)
    \<and> (\<forall>(j, b)\<in>set (atTransactionBalances d). \<exists>t\<in>set (lvTransactions (view env (stDb s))).
         txId t = j \<and> b = runningBalance a t (lvTransactions (view env (stDb s))))"
proof -
  have w: "wf_db env (stDb s)" using g by (rule good_wf)
  from run obtain x a now b p u bs where a: "accountOf (view env (stDb s)) i = Some a" and now: "nowFn env (stNow s) = JInt now" "utcOk env now"
    and b: "getAccountBalanceBefore (balanceAccount a) (now + 1) (stDb s) = Inr b" "accountDto a b = Inr (atAccount d)"
    and p: "transactionPage env (q\<lparr>lqAccountId := Some i\<rparr>) False (s\<lparr>stNow := x\<rparr>) = (Inr p, u)"
    and bs: "getAccountBalancesAtPositions (balanceAccount a) (map txPosition (ppRows p)) (stDb u) = Inr bs"
      "transactionBalances bs (ppRows p) = Inr (atTransactionBalances d)"
    unfolding getAccountTransactions_def
    by (auto simp: led_simps requireSettings_iff [OF g] requireAccount_iff [OF g] exclusiveInstant_iff)
  from p obtain opts rows where rows: "queryTransactions env opts (stDb s) = Inr rows" "u = s\<lparr>stNow := x\<rparr>"
    "ppRows p = take (nat (qoLimit opts)) rows"
    by (elim transactionPage_run) simp
  have sub: "set (ppRows p) \<subseteq> set (lvTransactions (view env (stDb s)))"
    using query_rows [OF w rows(1)] rows(3) by (auto dest: in_set_takeD)
  have "b = exactBalance (balanceAccount a) (filter (\<lambda>t. txOccurredAt t < now + 1) (lvTransactions (view env (stDb s))))"
    using balanceBefore_exact [OF w b(1)] by (simp add: exactBalance_sum)
  moreover have "\<forall>(j, b)\<in>set (atTransactionBalances d). \<exists>t\<in>set (lvTransactions (view env (stDb s))).
         txId t = j \<and> b = runningBalance a t (lvTransactions (view env (stDb s)))"
    using transactionBalances_exact(2) [OF w sub _ bs(2)] bs(1) rows(2) by simp
  ultimately show ?thesis using a now b(2) by blast
qed

end
