(* ===== verification/PagingFacts.thy ===== *)
theory PagingFacts
  imports TrendFacts
begin

text \<open>
  The paged listing: a cursor is read back as the position it was made from, following the cursors
  yields every row of the listing once and ends, and the totals of a page are those of the listing.
\<close>

section \<open>Cursors\<close>

text \<open>
  What \<open>Buffer\<close>, \<open>TextDecoder\<close> and \<open>JSON.parse\<close> do to the text of a cursor: the base64url text is a
  non-empty one of its alphabet, decodes to the text, and the text is read as the object written.
\<close>

definition cursorCodec :: "ledger_env \<Rightarrow> LedgerTransaction \<Rightarrow> bool" where
  "cursorCodec env t \<longleftrightarrow> base64url env (cursorText t) \<noteq> [] \<and> list_all base64urlChar (base64url env (cursorText t))
     \<and> fromBase64url env (base64url env (cursorText t)) = Some (cursorText t)
     \<and> jsonParse env (cursorText t) = Some (JObj [(js ''v'', JInt 1), (js ''occurredAt'', JInt (txOccurredAt t)),
          (js ''createdAt'', JInt (txCreatedAt t)), (js ''id'', JStr (txId t))])"

lemma cursor_round_trip:
  assumes "cursorCodec env t" "valid_tx env t"
  shows "parseLedgerTransactionCursor env (JStr (encodeCursor env t))
    = Inr \<lparr>cuOccurredAt = txOccurredAt t, cuCreatedAt = txCreatedAt t, cuId = txId t\<rparr>"
proof -
  have "utcOk env (txOccurredAt t)" "utcOk env (txCreatedAt t)" "txId t \<noteq> []"
    using assms(2) by (simp_all add: valid_tx_def)
  with assms(1) show ?thesis
    by (simp add: parseLedgerTransactionCursor_def encodeCursor_def cursorCodec_def cursorPayload_def hasOwn_def getProp_def
        utcOk_def assertUtcMilliseconds.simps catchR_def)
qed

lemma run_page:
  "bnd m k s = (case m s of (Inl e, t) \<Rightarrow> (Inl e, t) | (Inr a, t) \<Rightarrow> k a t)" "ret x s = (Inr x, s)" "liftR r s = (r, s)"
  "readDb f s = (f (stDb s), s)"
  by (simp_all add: bnd_def ret_def liftR_def readDb_def ask_def)

text \<open>Following the cursors of a listing until there is none; \<open>None\<close> when the fuel runs out or a page fails.\<close>

fun followPages :: "ledger_env \<Rightarrow> LedgerTransactionQuery \<Rightarrow> nat \<Rightarrow> ledger_state \<Rightarrow> LedgerTransaction list option" where
  "followPages env q 0 s = None"
| "followPages env q (Suc n) s = (case transactionPage env q False s of
       (Inl _, _) \<Rightarrow> None
     | (Inr p, _) \<Rightarrow> (case pgNextCursor (ppPage p) of
           None \<Rightarrow> Some (ppRows p)
         | Some c \<Rightarrow> map_option (append (ppRows p)) (followPages env (q\<lparr>lqCursor := Some c\<rparr>) n s)))"

text \<open>The whole listing, in the order of the ledger, of a query without a cursor.\<close>

definition wholeQuery :: "LedgerTransactionQuery \<Rightarrow> LedgerTransactionQueryOptions" where
  "wholeQuery q = \<lparr>qoType = lqType q, qoAccountId = lqAccountId q, qoCategoryId = lqCategoryId q,
     qoGroupId = lqGroupId q, qoFrom = lqFrom q, qoTo = lqTo q, qoSearch = lqSearch q,
     qoIncludeDeleted = lqIncludeDeleted q, qoLimit = lqLimit q, qoOffset = None, qoCursor = None\<rparr>"

definition wholeRows :: "LedgerTransactionQuery \<Rightarrow> ledger_db \<Rightarrow> LedgerTransactionRow list" where
  "wholeRows q db = orderBy transactionOrder (filter (transactionQueryFilter db (wholeQuery q) True False) (dbTransactions db))"

definition wholeListing :: "ledger_env \<Rightarrow> LedgerTransactionQuery \<Rightarrow> ledger_db \<Rightarrow> LedgerTransaction list" where
  "wholeListing env q db = map (decoded (ledgerTransactionFromRow env)) (wholeRows q db)"

definition limitOk :: "LedgerTransactionQuery \<Rightarrow> bool" where
  "limitOk q \<longleftrightarrow> 1 \<le> lqLimit q \<and> lqLimit q \<le> LEDGER_LIST_LIMIT_MAX"

text \<open>The query that continues after the first n rows.\<close>

definition continued :: "ledger_env \<Rightarrow> LedgerTransactionQuery \<Rightarrow> ledger_db \<Rightarrow> nat \<Rightarrow> LedgerTransactionQuery" where
  "continued env q db n = q\<lparr>lqCursor := (if n = 0 then None else Some (encodeCursor env (wholeListing env q db ! (n - 1))))\<rparr>"

lemma wholeRows_valid:
  assumes wf: "wf_db env db" and i: "i < length (wholeRows q db)"
  shows "wholeRows q db ! i = transactionParams (wholeListing env q db ! i)" "valid_tx env (wholeListing env q db ! i)"
    "wholeListing env q db ! i \<in> set (lvTransactions (view env db))"
proof -
  have m: "wholeRows q db ! i \<in> set (dbTransactions db)"
    using nth_mem [OF i] by (simp add: wholeRows_def)
  have d: "wholeListing env q db ! i = decoded (ledgerTransactionFromRow env) (wholeRows q db ! i)"
    using i by (simp add: wholeListing_def)
  show "wholeRows q db ! i = transactionParams (wholeListing env q db ! i)" unfolding d by (rule transaction_row(3) [OF wf m])
  show "valid_tx env (wholeListing env q db ! i)" unfolding d by (rule transaction_row(4) [OF wf m])
  show "wholeListing env q db ! i \<in> set (lvTransactions (view env db))"
    using m i by (simp add: wholeListing_def view_def)
qed

lemma decode_rows:
  assumes "wf_db env db" "set rs \<subseteq> set (dbTransactions db)"
  shows "mapR (ledgerTransactionFromRow env) rs = Inr (map (decoded (ledgerTransactionFromRow env)) rs)"
  using assms(2) transaction_row(2) [OF assms(1)] by (intro mapR_decoded) blast

lemma continued_query:
  assumes wf: "wf_db env db" and n: "n \<le> length (wholeRows q db)" and q: "lqOffset q = None" "limitOk q"
    and codec: "\<forall>t\<in>set (lvTransactions (view env db)). cursorCodec env t"
    and ids: "distinct (map rt_id (dbTransactions db))"
  shows "\<exists>opts. normalizeTransactionQuery env (continued env q db n) = Inr opts \<and> qoLimit opts = lqLimit q
    \<and> queryTransactions env opts db = Inr (take (nat (lqLimit q + 1)) (drop n (wholeListing env q db)))"
proof -
  let ?t = "wholeListing env q db ! (n - 1)"
  let ?c = "if n = 0 then None else Some (rowPosition (wholeRows q db ! (n - 1)))"
  have lim: "safeInt (lqLimit q) \<and> \<not> lqLimit q < 1 \<and> \<not> lqLimit q > LEDGER_LIST_LIMIT_MAX"
    using q(2) by (auto simp: limitOk_def safeInt_def LEDGER_LIST_LIMIT_MAX_def MAX_SAFE_INTEGER_def)
  have norm: "normalizeTransactionQuery env (continued env q db n) = Inr ((wholeQuery q)\<lparr>qoCursor := ?c\<rparr>)"
  proof (cases "n = 0")
    case False
    then have i: "n - 1 < length (wholeRows q db)" using n by simp
    have "wholeRows q db ! (n - 1) = transactionParams ?t" "cursorCodec env ?t" "valid_tx env ?t"
      using wholeRows_valid [OF wf i] codec by blast+
    then have "parseLedgerTransactionCursor env (JStr (encodeCursor env ?t))
        = Inr \<lparr>cuOccurredAt = txOccurredAt ?t, cuCreatedAt = txCreatedAt ?t, cuId = txId ?t\<rparr>"
      and "rowPosition (wholeRows q db ! (n - 1)) = txPosition ?t"
      by (simp_all only: cursor_round_trip rowPosition_params)
    with False q lim show ?thesis
      by (simp add: normalizeTransactionQuery_def continued_def wholeQuery_def txPosition_def)
  qed (use q lim in \<open>simp add: normalizeTransactionQuery_def continued_def wholeQuery_def\<close>)
  have cells: "\<forall>r\<in>set (dbTransactions db). isTextCell (rt_id r)"
  proof
    fix r assume "r \<in> set (dbTransactions db)"
    from transaction_row(3) [OF wf this] obtain u where "r = transactionParams u" by blast
    then show "isTextCell (rt_id r)" by (simp add: transactionParams_def isTextCell_def)
  qed
  have "queryTransactions env ((wholeQuery q)\<lparr>qoCursor := ?c\<rparr>) db
      = mapR (ledgerTransactionFromRow env) (take (nat (lqLimit q + 1)) (drop n (wholeRows q db)))"
  proof (cases "n = 0")
    case True
    then show ?thesis by (simp add: queryTransactions_def wholeRows_def wholeQuery_def orElse_def)
  next
    case False
    have "queryTransactions env ((wholeQuery q)\<lparr>qoCursor := Some (rowPosition (wholeRows q db ! (n - 1)))\<rparr>) db
        = mapR (ledgerTransactionFromRow env) (take (nat (qoLimit (wholeQuery q) + 1)) (drop n (wholeRows q db)))"
      by (rule cursor_page [OF ids cells _ _ wholeRows_def]) (use False n in \<open>simp_all add: wholeQuery_def\<close>)
    with False show ?thesis by (simp add: wholeQuery_def)
  qed
  also have "\<dots> = Inr (take (nat (lqLimit q + 1)) (drop n (wholeListing env q db)))"
  proof -
    have "set (take (nat (lqLimit q + 1)) (drop n (wholeRows q db))) \<subseteq> set (dbTransactions db)"
      by (auto simp: wholeRows_def dest!: in_set_takeD in_set_dropD)
    from decode_rows [OF wf this] show ?thesis by (simp add: wholeListing_def take_map drop_map)
  qed
  finally show ?thesis using norm by (intro exI [of _ "(wholeQuery q)\<lparr>qoCursor := ?c\<rparr>"]) (simp add: wholeQuery_def)
qed

lemma followPages_whole:
  assumes wf: "wf_db env (stDb s)" and q: "lqOffset q = None" "limitOk q"
    and codec: "\<forall>t\<in>set (lvTransactions (view env (stDb s))). cursorCodec env t"
    and ids: "distinct (map rt_id (dbTransactions (stDb s)))"
  shows "n \<le> length (wholeRows q (stDb s)) \<Longrightarrow> length (wholeRows q (stDb s)) - n < fuel \<Longrightarrow>
    followPages env (continued env q (stDb s) n) fuel s = Some (drop n (wholeListing env q (stDb s)))"
proof (induction fuel arbitrary: n)
  case (Suc fuel)
  let ?all = "wholeListing env q (stDb s)" and ?k = "nat (lqLimit q)"
  have len: "length ?all = length (wholeRows q (stDb s))" by (simp add: wholeListing_def)
  have k: "0 < ?k" "nat (lqLimit q + 1) = Suc ?k" "int ?k = lqLimit q" using q(2) by (auto simp: limitOk_def)
  from continued_query [OF wf Suc.prems(1) q codec ids] obtain opts where
    norm: "normalizeTransactionQuery env (continued env q (stDb s) n) = Inr opts" and lim: "qoLimit opts = lqLimit q"
    and rows: "queryTransactions env opts (stDb s) = Inr (take (Suc ?k) (drop n ?all))" unfolding k(2) by blast
  let ?rows = "take (Suc ?k) (drop n ?all)"
  show ?case
  proof (cases "length ?all - n \<le> ?k")
    case True
    then have "int (length ?rows) \<le> lqLimit q" "?rows = drop n ?all" using k(1) by auto
    then have "transactionPage env (continued env q (stDb s) n) False s
        = (Inr \<lparr>ppRows = drop n ?all, ppPage = \<lparr>pgNextCursor = None, pgSummary = None\<rparr>\<rparr>, s)"
      using norm rows lim by (simp add: transactionPage_def run_page Let_def)
    then show ?thesis by simp
  next
    case False
    let ?m = "n + ?k"
    have big: "lqLimit q < int (length ?rows)" "take ?k ?rows = take ?k (drop n ?all)" "take ?k (drop n ?all) \<noteq> []"
      using False k by auto
    have m: "?m < length ?all" using False len Suc.prems(1) by simp
    have "last (take ?k (drop n ?all)) = ?all ! (?m - 1)"
      using m k(1) by (simp add: last_conv_nth)
    then have page: "transactionPage env (continued env q (stDb s) n) False s
        = (Inr \<lparr>ppRows = take ?k (drop n ?all),
            ppPage = \<lparr>pgNextCursor = Some (encodeCursor env (?all ! (?m - 1))), pgSummary = None\<rparr>\<rparr>, s)"
      using norm rows lim big by (simp add: transactionPage_def run_page Let_def)
    have cont: "(continued env q (stDb s) n)\<lparr>lqCursor := Some (encodeCursor env (?all ! (?m - 1)))\<rparr> = continued env q (stDb s) ?m"
      using k(1) by (simp add: continued_def)
    have "followPages env (continued env q (stDb s) ?m) fuel s = Some (drop ?m ?all)"
      using Suc.prems(2) m len k(1) by (intro Suc.IH) auto
    moreover have "take ?k (drop n ?all) @ drop ?m ?all = drop n ?all"
      by (metis append_take_drop_id drop_drop add.commute)
    ultimately show ?thesis by (simp add: page cont [simplified])
  qed
qed simp

section \<open>The totals of a listing\<close>

lemma sum_by_type:
  "sum_list (map (\<lambda>t. if txType t = ty then txAmountMinor t else 0) ts) = sum_list (amountsOf ty ts)"
  by (induction ts) (auto simp: amountsOf_def)

lemma amounts_mset: "mset ts = mset us \<Longrightarrow> sum_list (amountsOf ty ts) = sum_list (amountsOf ty us)"
proof -
  assume m: "mset ts = mset us"
  have "mset (amountsOf ty ts) = mset (amountsOf ty us)" by (simp add: amountsOf_def m)
  then show ?thesis by (metis sum_mset_sum_list)
qed

lemma summary_exact:
  assumes wf: "wf_db env db" and norm: "normalizeTransactionQuery env q = Inr opts"
    and run: "summarizeTransactions opts db = Inr u"
  shows "suTotal u = int (length (wholeListing env q db))
    \<and> suIncomeMinor u = sum_list (amountsOf IncomeType (wholeListing env q db))
    \<and> suExpenseMinor u = sum_list (amountsOf ExpenseType (wholeListing env q db))"
proof -
  let ?rows = "filter (transactionQueryFilter db opts False False) (dbTransactions db)"
  let ?ts = "map (decoded (ledgerTransactionFromRow env)) ?rows"
  have f: "transactionQueryFilter db opts False False = transactionQueryFilter db (wholeQuery q) True False"
    using norm by (auto simp: normalizeTransactionQuery_def led_simps wholeQuery_def transactionQueryFilter_def optMatches_def
        fun_eq_iff split: if_split_asm)
  have perm: "mset (wholeListing env q db) = mset ?ts" by (simp add: wholeListing_def wholeRows_def f)
  have col: "map (\<lambda>r. if typeIs r ty then cellInt (rt_amount_minor r) else 0) rs
      = map (\<lambda>t. if txType t = ty then txAmountMinor t else 0) (map (decoded (ledgerTransactionFromRow env)) rs)"
    if "set rs \<subseteq> set (dbTransactions db)" for rs ty
    using that
  proof (induction rs)
    case (Cons r rs)
    then have r: "r \<in> set (dbTransactions db)" by simp
    obtain t where t: "decoded (ledgerTransactionFromRow env) r = t" "r = transactionParams t"
      using transaction_row(3) [OF wf r] by metis
    from Cons t(1) show ?case by (simp add: t(2))
  qed simp
  have sub: "set ?rows \<subseteq> set (dbTransactions db)" by auto
  obtain i e where "sqlSum (map (\<lambda>r. if typeIs r IncomeType then cellInt (rt_amount_minor r) else 0) ?rows) = Inr i"
    "sqlSum (map (\<lambda>r. if typeIs r ExpenseType then cellInt (rt_amount_minor r) else 0) ?rows) = Inr e"
    and u: "safeInt (dround i)" "safeInt (dround e)" "suTotal u = int (length ?rows)"
      "suIncomeMinor u = dround i" "suExpenseMinor u = dround e"
    using run by (auto simp: summarizeTransactions_def Let_def led_simps split: if_split_asm)
  then have "i = sum_list (amountsOf IncomeType ?ts)" "e = sum_list (amountsOf ExpenseType ?ts)"
    unfolding col [OF sub] sum_by_type [symmetric] using sqlSum_exact by blast+
  moreover have "dround i = i" "dround e = e" using u(1,2) dround_exact by simp_all
  moreover have "length (wholeListing env q db) = length ?rows" by (simp add: wholeListing_def wholeRows_def f)
  ultimately show ?thesis using u(3-5) amounts_mset [OF perm] by simp
qed

lemma listing_summary:
  assumes "good env s" "listTransactions env q s = (Inr (dtos, page), t)"
  shows "\<exists>u. pgSummary page = Some u \<and> suTotal u = int (length (wholeListing env q (stDb s)))
    \<and> suIncomeMinor u = sum_list (amountsOf IncomeType (wholeListing env q (stDb s)))
    \<and> suExpenseMinor u = sum_list (amountsOf ExpenseType (wholeListing env q (stDb s)))"
proof -
  obtain p u where p: "transactionPage env q True s = (Inr p, u)" "page = ppPage p"
    using assms(2) by (auto simp: listTransactions_def led_simps requireSettings_iff [OF assms(1)])
  from p(1) obtain opts v where "normalizeTransactionQuery env q = Inr opts"
      "summarizeTransactions opts (stDb s) = Inr v" "pgSummary (ppPage p) = Some v"
    by (elim transactionPage_run) blast
  with summary_exact [OF good_wf [OF assms(1)]] p(2) show ?thesis by blast
qed

end
