(* ===== verification/Frame.thy ===== *)
theory Frame
  imports LedgerHistory
begin

text \<open>
  What every service call does to the tables, proved once for any relation on databases that each
  write of the repository keeps: the locale \<open>repository_frame\<close>. Its two instances: records of
  \<open>ledger_idempotency\<close> and identifiers of \<open>ledger_transactions\<close> are only ever appended. From the
  first follows the replay contract of \<open>server/ledger/idempotency.ts\<close> over the life of a ledger.
\<close>

section \<open>Framed computations\<close>

definition framed :: "(ledger_db \<Rightarrow> ledger_db \<Rightarrow> bool) \<Rightarrow> 'a svc \<Rightarrow> bool" where
  "framed R f \<longleftrightarrow> (\<forall>s r t. f s = (r, t) \<longrightarrow> R (stDb s) (stDb t))"

lemma framedI: "(\<And>s r t. f s = (r, t) \<Longrightarrow> R (stDb s) (stDb t)) \<Longrightarrow> framed R f"
  by (simp add: framed_def)

lemma framedD: "framed R f \<Longrightarrow> f s = (r, t) \<Longrightarrow> R (stDb s) (stDb t)"
  by (simp add: framed_def)

locale repository_frame =
  fixes R :: "ledger_db \<Rightarrow> ledger_db \<Rightarrow> bool"
  assumes same: "R db db"
    and step: "R db1 db2 \<Longrightarrow> R db2 db3 \<Longrightarrow> R db1 db3"
    and settings: "insertSettings x db = Inr db' \<Longrightarrow> R db db'" "updateSettings x v db = Inr (n, db') \<Longrightarrow> R db db'"
    and accounts: "insertAccount a db = Inr db' \<Longrightarrow> R db db'" "updateAccount a v db = Inr (n, db') \<Longrightarrow> R db db'"
      "deleteAccount i db = Inr (n, db') \<Longrightarrow> R db db'"
    and categories: "insertCategory c db = Inr db' \<Longrightarrow> R db db'" "updateCategory c v db = Inr (n, db') \<Longrightarrow> R db db'"
      "deleteCategory i db = Inr (n, db') \<Longrightarrow> R db db'"
    and transactions: "insertTransaction t db = Inr db' \<Longrightarrow> R db db'"
      "updateTransaction t v db = Inr (n, db') \<Longrightarrow> R db db'"
      "softDeleteTransaction i at w u v db = Inr (n, db') \<Longrightarrow> R db db'"
    and records: "insertIdempotencyRecord d db = Inr db' \<Longrightarrow> R db db'"
begin

lemma bnd [intro]: "framed R m \<Longrightarrow> (\<And>a. framed R (k a)) \<Longrightarrow> framed R (bnd m k)"
  by (rule framedI) (auto simp: bnd_def split: prod.split_asm sum.split_asm dest!: framedD intro: step)

lemma pure [intro]: "framed R (ret a)" "framed R (throw e)" "framed R (liftR x)" "framed R (guardE c e)" "framed R (readDb f)"
  by (auto simp: framed_def ret_def throw_def liftR_def guardE_def readDb_def ask_def same split: if_split_asm)

lemma writeDb [intro]: "(\<And>db db'. f db = Inr db' \<Longrightarrow> R db db') \<Longrightarrow> framed R (writeDb f)"
  by (auto simp: framed_def writeDb_def modifyR_def mapRes_def same split: sum.split_asm)

lemma changeOne [intro]: "(\<And>db n db'. f db = Inr (n, db') \<Longrightarrow> R db db') \<Longrightarrow> framed R (changeOne f)"
  unfolding changeOne_def
  by (rule bnd [OF _ pure(4)]) (auto simp: framed_def changeDb_def same split: sum.split_asm prod.split_asm)

lemma host [intro]: "framed R (generatedTimestamp env)" "framed R (generatedId env)" "framed R (recordCreatedAt env)"
  by (simp_all add: framed_def generatedTimestamp_def generatedId_def recordCreatedAt_def same)

lemma transactional [intro]: "framed R f \<Longrightarrow> framed R (runLedgerWrite env f)"
  by (rule framedI) (auto simp: runLedgerWrite_def Let_def same
      split: if_split_asm prod.split_asm sum.split_asm dest!: framedD)

lemma branch [intro]: "framed R f \<Longrightarrow> framed R g \<Longrightarrow> framed R (if c then f else g)"
  by simp

lemma option [intro]: "framed R f \<Longrightarrow> (\<And>a. framed R (g a)) \<Longrightarrow> framed R (case x of None \<Rightarrow> f | Some a \<Rightarrow> g a)"
  by (cases x) simp_all

lemma mapM [intro]: "(\<And>x. framed R (f x)) \<Longrightarrow> framed R (mapM f xs)"
  by (induction xs) auto

lemma eachSvc [intro]: "(\<And>x. framed R (f x)) \<Longrightarrow> framed R (eachSvc f xs)"
  by (induction xs) auto

text \<open>The writes of the repository.\<close>

lemma inserted [intro]:
  "framed R (writeDb (insertSettings x))" "framed R (writeDb (insertAccount a))" "framed R (writeDb (insertCategory c))"
  "framed R (writeDb (insertTransaction t))" "framed R (writeDb (insertIdempotencyRecord d))"
  by (rule writeDb, erule settings accounts categories transactions records)+

lemma changed [intro]:
  "framed R (changeOne (updateSettings x v))" "framed R (changeOne (updateAccount a v))"
  "framed R (changeOne (deleteAccount i))" "framed R (changeOne (updateCategory c v))"
  "framed R (changeOne (deleteCategory i))" "framed R (changeOne (updateTransaction t v))"
  "framed R (changeOne (softDeleteTransaction i at w u v))"
  by (rule changeOne, erule settings(2) accounts(2,3) categories(2,3) transactions(2,3))+

text \<open>The helpers of the service.\<close>

lemma reads [intro]:
  "framed R (requireSome x)" "framed R (requireSettings env)" "framed R (requireAccount env i)"
  "framed R (requireActiveAccount env i)" "framed R (requireCategory env i)" "framed R (assertExpectedVersion v w)"
  "framed R (nextVersion v)" "framed R (assertAccountPair ty na)" "framed R (compareRawVersion raw v)"
  "framed R (currentBalance env a)" "framed R (toAccountDto env a)" "framed R (assertTransactionCurrency st a)"
  "framed R (assertTransactionTime env st as at now)" "framed R (assertCandidateCategory env i k)"
  "framed R (requireSystemCategory env key)" "framed R (assertTransferKindAccounts kind a b)"
  "framed R (transactionAccounts env t)" "framed R (requireUserTransaction env i)"
  unfolding requireSettings_def requireAccount_def requireActiveAccount_def requireCategory_def requireSome_def
    assertExpectedVersion_def nextVersion_def assertAccountPair_def compareRawVersion_def currentBalance_def
    toAccountDto_def assertTransactionCurrency_def assertTransactionTime_def assertCandidateCategory_def
    requireSystemCategory_def assertTransferKindAccounts_def transactionAccounts_def requireUserTransaction_def
  by (intro bnd pure option branch mapM)+

lemma guards [intro]:
  "framed R (assertTransactionAccountsNotArchived env t)" "framed R (assertArchivedPatchWhitelist env t raw)"
  "framed R (assertCandidateAccountsNotArchived env t raw)"
proof -
  have "framed R (assertCandidatesNotArchived env r ks)" for r ks
    by (induction env r ks rule: assertCandidatesNotArchived.induct)
      (auto simp only: assertCandidatesNotArchived.simps split: jsval.split intro!: bnd pure)
  then show "framed R (assertCandidateAccountsNotArchived env t raw)"
    unfolding assertCandidateAccountsNotArchived_def by (intro option pure)
qed (auto simp: assertTransactionAccountsNotArchived_def assertArchivedPatchWhitelist_def)

text \<open>The idempotent create.\<close>

lemma create [intro]: "framed R m \<Longrightarrow> framed R (executeIdempotentLedgerCreate env scope key request m)"
  unfolding executeIdempotentLedgerCreate_def storeMutationResult_def
  by (intro bnd pure transactional option host inserted)

text \<open>The operations.\<close>

lemma seed: "framed R (seedDefaultLedgerCategories env entries)"
  by (induction env entries rule: seedDefaultLedgerCategories.induct)
    (auto simp only: seedDefaultLedgerCategories.simps Let_def
      intro!: bnd pure host inserted branch)

lemma routes [intro]:
  "(\<And>q k. framed R (f q k)) \<Longrightarrow> framed R (postRoute parse f body key)"
  "(\<And>v. framed R (g v)) \<Longrightarrow> framed R (rawRoute g body)"
  "framed R h \<Longrightarrow> framed R (jsonRoute h)"
  unfolding postRoute_def rawRoute_def jsonRoute_def by (intro bnd pure; simp)+

lemma settings_ops:
  "framed R (patchSettings env v)" "framed R (createSettings env request key)" "framed R (getSettingsDto env)"
  unfolding patchSettings_def createSettings_def createSettingsMutation_def getSettingsDto_def Let_def
  by (intro create bnd transactional reads pure host changed inserted seed)+

lemma account_ops:
  "framed R (listAccountDtos env incl)" "framed R (getAccountDto env i)" "framed R (createAccount env request key)"
  "framed R (patchAccount env i v)" "framed R (deleteAccountCommand env i v)" "framed R (archiveAccount env i v)"
  "framed R (restoreAccount env i v)"
  unfolding listAccountDtos_def getAccountDto_def createAccount_def createAccountMutation_def patchAccount_def
    deleteAccountCommand_def archiveAccount_def restoreAccount_def Let_def
  by (intro create bnd transactional reads pure host changed inserted mapM branch)+

lemma category_ops:
  "framed R (listCategoryDtos env kind incl)" "framed R (createCategory env cq key)"
  "framed R (patchCategory env i v)" "framed R (deleteCategoryCommand env i v)" "framed R (archiveCategory env i v)"
  "framed R (restoreCategory env i v)"
  unfolding listCategoryDtos_def createCategory_def createCategoryMutation_def patchCategory_def
    deleteCategoryCommand_def archiveCategory_def restoreCategory_def Let_def
  by (intro create bnd transactional reads pure host changed inserted branch)+

lemma bodies [intro]:
  "(\<And>a c y. framed R (f a c y)) \<Longrightarrow> (\<And>a c y. framed R (g a c y)) \<Longrightarrow> (\<And>k m i j y. framed R (h k m i j y)) \<Longrightarrow>
     (\<And>a x y. framed R (k a x y)) \<Longrightarrow>
   framed R (case b of Income a c y \<Rightarrow> f a c y | Expense a c y \<Rightarrow> g a c y | Transfer kd m i j y \<Rightarrow> h kd m i j y
     | Adjustment a x y \<Rightarrow> k a x y)"
  by (cases b) simp_all

lemma pairs [intro]: "(\<And>a b. framed R (f a b)) \<Longrightarrow> framed R (case p of (a, b) \<Rightarrow> f a b)"
  by (cases p) simp

lemma create_transaction: "framed R (createTransaction env request key)"
proof -
  have "framed R (createTransactionMutation env request)"
    unfolding createTransactionMutation_def createEntry_def createTransfer_def Let_def
    by (cases request) (auto intro!: bnd reads pure host inserted branch option pairs)
  then show ?thesis
    by (cases request) (auto simp: createTransaction_def)
qed

lemma patch_transaction: "framed R (patchTransaction env i v)"
  unfolding patchTransaction_def patchEntry_def patchTransfer_def patchAdjustment_def patchCompanion_def existingFee_def
    updateOne_def Let_def
  by (intro transactional bnd reads guards pure host inserted changed branch option pairs bodies)

lemma delete_transaction: "framed R (deleteTransaction env i v)"
proof -
  have "framed R (softDeleteItems ti tv now items x)" for ti tv now items x
    by (induction items arbitrary: x) (auto simp only: softDeleteItems.simps intro!: bnd pure reads changed branch)
  then show ?thesis
    unfolding deleteTransaction_def
    by (intro transactional bnd reads guards pure host branch option eachSvc)
qed

lemma adjust: "framed R (adjustAccount env i aq key)"
  unfolding adjustAccount_def adjustAccountMutation_def Let_def
  by (intro create bnd reads pure host inserted branch)

lemma get_transaction: "framed R (getTransactionDto env i)"
  unfolding getTransactionDto_def by (intro bnd reads pure)

text \<open>Every request, and every sequence of requests.\<close>

lemma route: "framed R (ledgerRoute env q)"
proof (cases q)
  case (SettingsRequest p)
  then show ?thesis by (cases p) (auto intro: settings_ops)
next
  case (AccountRequest p)
  then show ?thesis by (cases p) (auto intro: account_ops adjust)
next
  case (CategoryRequest p)
  then show ?thesis by (cases p) (auto intro: category_ops)
next
  case (TransactionRequest p)
  then show ?thesis
    by (cases p) (auto intro: create_transaction patch_transaction delete_transaction get_transaction)
next
  case (ProjectionRequest p)
  show ?thesis
  proof (rule framedI)
    fix s r t assume "ledgerRoute env q s = (r, t)"
    then show "R (stDb s) (stDb t)"
      using reads_route [of env p] ProjectionRequest by (auto simp: reads_def dest!: spec [of _ s] intro: same)
  qed
qed

lemma request: "respond env q s = (r, t) \<Longrightarrow> R (stDb s) (stDb t)"
  by (auto simp: respond_def withLedgerErrors_def split: prod.split_asm sum.split_asm dest: framedD [OF route])

lemma requests: "respond_all env qs s = (rs, t) \<Longrightarrow> R (stDb s) (stDb t)"
  by (induction qs arbitrary: s rs) (auto split: prod.split_asm intro: same step request)

end

section \<open>Rows that are only appended\<close>

definition recordsAppended :: "ledger_db \<Rightarrow> ledger_db \<Rightarrow> bool" where
  "recordsAppended db db' \<longleftrightarrow> (\<exists>rows. dbIdempotency db' = dbIdempotency db @ rows)"

definition transactionsAppended :: "ledger_db \<Rightarrow> ledger_db \<Rightarrow> bool" where
  "transactionsAppended db db' \<longleftrightarrow> (\<exists>ids. map rt_id (dbTransactions db') = map rt_id (dbTransactions db) @ ids)"

lemmas repository_writes = insertSettings_def updateSettings_def insertAccount_def updateAccount_def deleteAccount_def
  insertCategory_def updateCategory_def deleteCategory_def insertTransaction_def updateTransaction_def
  softDeleteTransaction_def insertIdempotencyRecord_def

lemma map_updateWhere: "(\<And>r. f (g r) = f r) \<Longrightarrow> map f (updateWhere P g rs) = map f rs"
  by (induction rs) (auto simp: updateWhere_def)

interpretation replays: repository_frame recordsAppended
  by unfold_locales (auto simp: recordsAppended_def repository_writes Let_def split: if_split_asm)

interpretation history: repository_frame transactionsAppended
  by unfold_locales
    (auto simp: transactionsAppended_def repository_writes map_updateWhere Let_def simp del: map_eq_conv split: if_split_asm)

end
