(* ===== verification/Replay.thy ===== *)
theory Replay
  imports Frame
begin

text \<open>
  The contract of \<open>server/ledger/idempotency.ts\<close>: the first successful answer to a create is stored,
  and every later call with the same key is answered from it without running the mutation again,
  however many requests come in between; the same key with another body is refused.
\<close>

section \<open>The stored record\<close>

text \<open>What the replay relies on: the digest is a hexadecimal SHA-256.\<close>

definition hash_ok :: "ledger_env \<Rightarrow> bool" where
  "hash_ok env \<longleftrightarrow> (\<forall>s. fingerprintOk (sha256hex env s))"

lemma idempotency_decode:
  assumes "idempotencyCheck (idempotencyParams d)" "fingerprintOk (idRequestFingerprint d)"
    "idOperationScope d \<noteq> []" "idIdempotencyKey d \<noteq> []" "safeInt (idResponseStatus d)" "safeInt (idCreatedAt d)"
  shows "idempotencyRecordFromRow (idempotencyParams d) = Inr d"
proof -
  have fp: "idRequestFingerprint d \<noteq> []" using assms(2) by (auto simp: fingerprintOk_def)
  have ns: "js ''committed'' \<noteq> js ''no-op''" by simp
  show ?thesis
    using assms fp ns
    by (cases "idResultStatus d"; cases "idResultType d"; cases "idResultId d")
      (simp_all add: idempotencyRecordFromRow_def idempotencyParams_def idempotencyString_def
        idempotencyNullableString_def valueAt_def safeInteger_def idempotencyCheck_def)
qed

lemma inserted_record:
  assumes "insertIdempotencyRecord d db = Inr db'" "fingerprintOk (idRequestFingerprint d)"
    "idOperationScope d \<noteq> []" "idIdempotencyKey d \<noteq> []" "safeInt (idResponseStatus d)" "safeInt (idCreatedAt d)"
  shows "getIdempotencyRecord (idOperationScope d) (idIdempotencyKey d) db' = Inr (Some d)"
proof -
  let ?P = "\<lambda>r. sqlText (ri_operation_scope r) (idOperationScope d) \<and> sqlText (ri_idempotency_key r) (idIdempotencyKey d)"
  have c: "idempotencyCheck (idempotencyParams d)"
    and u: "idempotencyKeyOf (idempotencyParams d) \<notin> set (map idempotencyKeyOf (dbIdempotency db))"
    and db': "dbIdempotency db' = dbIdempotency db @ [idempotencyParams d]"
    using assms(1) by (auto simp: insertIdempotencyRecord_def Let_def split: if_split_asm)
  have "\<not> ?P r" if "r \<in> set (dbIdempotency db)" for r
    using u imageI [OF that, of idempotencyKeyOf] by (auto simp: idempotencyKeyOf_def idempotencyParams_def sqlText_def)
  then have "find ?P (dbIdempotency db) = None" by (simp add: find_None_iff)
  then have "find ?P (dbIdempotency db') = Some (idempotencyParams d)"
    by (simp add: db' find_append idempotencyParams_def sqlText_def)
  then show ?thesis
    using idempotency_decode [OF c assms(2-)] by (simp add: getIdempotencyRecord_def selectOne_def)
qed

lemma record_kept:
  assumes "getIdempotencyRecord scope key db = Inr (Some d)" "recordsAppended db db'"
  shows "getIdempotencyRecord scope key db' = Inr (Some d)"
  using assms by (auto simp: getIdempotencyRecord_def selectOne_def recordsAppended_def find_append split: option.splits)

section \<open>Replays\<close>

text \<open>A call that returned leaves the record that answers it.\<close>

lemma execute_stored:
  assumes hash: "hash_ok env" and out: "\<not> stInTransaction s" and ne: "scope \<noteq> []" "key \<noteq> []"
    and run: "executeIdempotentLedgerCreate env scope key request mutation s = (Inr a, t)"
  shows "\<exists>d. getIdempotencyRecord scope key (stDb t) = Inr (Some d)
    \<and> fingerprintLedgerMutation env request = Inr (idRequestFingerprint d)
    \<and> replayResult d = Inr (a\<lparr>lrReplayed := True\<rparr>)"
proof (cases rule: execute_cases [OF out run, case_names replayed executed])
  case (replayed d fp)
  moreover have "idResponseStatus d = 200 \<or> idResponseStatus d = 201" using replayed(8) by simp
  ultimately show ?thesis by (auto simp: replayResult_def)
next
  case (executed m u fp d)
  have fp: "fingerprintOk fp"
    using executed(2) hash by (auto simp: fingerprintLedgerMutation_def hash_ok_def led_simps)
  have st: "idResponseStatus d = 200 \<or> idResponseStatus d = 201" "safeInt (idCreatedAt d)"
    using executed(8,12,13) by simp_all
  then have "safeInt (idResponseStatus d)" by (auto simp: safeInt_def MAX_SAFE_INTEGER_def)
  with inserted_record [OF executed(4)] executed(5-7) fp ne st
  have "getIdempotencyRecord scope key (stDb t) = Inr (Some d)" by simp
  then show ?thesis using executed st by (auto simp: replayResult_def)
qed

lemmas write_run = executeIdempotentLedgerCreate_def bnd_def liftR_def runLedgerWrite_def Let_def readDb_def ask_def
  guardE_def mapBusy_def ret_def throw_def

lemma execute_replay:
  assumes "\<not> stInTransaction u" "\<not> writeLockBusy env (stBegins u)" "getIdempotencyRecord scope key (stDb u) = Inr (Some d)"
    "fingerprintLedgerMutation env request = Inr (idRequestFingerprint d)" "replayResult d = Inr a"
  shows "executeIdempotentLedgerCreate env scope key request mutation u = (Inr a, u\<lparr>stBegins := Suc (stBegins u)\<rparr>)"
  using assms by (cases u) (simp add: write_run)

lemma execute_conflict:
  assumes "\<not> stInTransaction u" "\<not> writeLockBusy env (stBegins u)" "getIdempotencyRecord scope key (stDb u) = Inr (Some d)"
    "fingerprintLedgerMutation env request = Inr fp" "fp \<noteq> idRequestFingerprint d"
  shows "executeIdempotentLedgerCreate env scope key request mutation u =
     (Inl (LedgerError LIdempotencyConflict 409), u\<lparr>stBegins := Suc (stBegins u)\<rparr>)"
  using assms by (cases u) (simp add: write_run)

lemma conflict_later:
  assumes "hash_ok env" "\<not> stInTransaction s" "scope \<noteq> []" "key \<noteq> []"
    and "executeIdempotentLedgerCreate env scope key request mutation s = (Inr a, t)"
    and "recordsAppended (stDb t) (stDb u)" "\<not> stInTransaction u" "\<not> writeLockBusy env (stBegins u)"
    and "fingerprintLedgerMutation env request = Inr fp" "fingerprintLedgerMutation env request' = Inr fp'" "fp' \<noteq> fp"
  shows "executeIdempotentLedgerCreate env scope key request' mutation' u =
     (Inl (LedgerError LIdempotencyConflict 409), u\<lparr>stBegins := Suc (stBegins u)\<rparr>)"
  using execute_stored [OF assms(1-5)] record_kept [OF _ assms(6)] execute_conflict [OF assms(7,8)] assms(9-) by fastforce

text \<open>A create request that was answered is answered the same ever after, and nothing changes.\<close>

lemma postRoute_replay:
  assumes op: "\<And>q k. f q k = executeIdempotentLedgerCreate env scope k (json q) (mutation q) \<or> (\<exists>e. f q k = throw e)"
    and hash: "hash_ok env" and ne: "scope \<noteq> []" and out: "\<not> stInTransaction s"
    and run: "postRoute parse f body key s = (Inr r, t)"
    and later: "recordsAppended (stDb t) (stDb u)" "\<not> stInTransaction u" "\<not> writeLockBusy env (stBegins u)"
  shows "postRoute parse f body key u = (Inr r, u\<lparr>stBegins := Suc (stBegins u)\<rparr>)"
proof -
  obtain q k a where q: "bindR (readLedgerJson body) parse = Inr q" and k: "parseIdempotencyKey key = Inr k"
    and a: "f q k s = (Inr a, t)" and r: "r = ledgerReplayResponse a"
    using run by (auto simp: postRoute_def bnd_iff liftR_iff ret_iff)
  have kne: "k \<noteq> []" using k by (auto simp: parseIdempotencyKey_def split: jsval.split_asm if_split_asm)
  have f: "f q k = executeIdempotentLedgerCreate env scope k (json q) (mutation q)"
    using op [of q k] a by (auto simp: throw_def)
  obtain d where d: "getIdempotencyRecord scope k (stDb t) = Inr (Some d)"
    "fingerprintLedgerMutation env (json q) = Inr (idRequestFingerprint d)"
    "replayResult d = Inr (a\<lparr>lrReplayed := True\<rparr>)"
    using execute_stored [OF hash out ne kne a [unfolded f]] by blast
  have "f q k u = (Inr (a\<lparr>lrReplayed := True\<rparr>), u\<lparr>stBegins := Suc (stBegins u)\<rparr>)"
    unfolding f by (rule execute_replay [OF later(2,3) record_kept [OF d(1) later(1)] d(2,3)])
  then show ?thesis
    by (simp add: postRoute_def bnd_def liftR_def q k r ret_def ledgerReplayResponse_def)
qed

fun isCreate :: "ledger_request \<Rightarrow> bool" where
  "isCreate (SettingsRequest (PostSettings _ _)) = True"
| "isCreate (AccountRequest (PostAccount _ _)) = True"
| "isCreate (AccountRequest (PostAccountAdjust _ _ _)) = True"
| "isCreate (CategoryRequest (PostCategory _ _)) = True"
| "isCreate (TransactionRequest (PostTransaction _ _)) = True"
| "isCreate _ = False"

lemma scopes_nonempty [simp]: "settingsScope \<noteq> []" "accountsScope \<noteq> []" "categoriesScope \<noteq> []" "transactionsScope \<noteq> []"
    "ledgerAccountAdjustmentOperationScope i \<noteq> []"
  by (simp_all add: settingsScope_def accountsScope_def categoriesScope_def transactionsScope_def
      ledgerAccountAdjustmentOperationScope_def)

lemma route_replay:
  assumes c: "isCreate q" and hash: "hash_ok env" and out: "\<not> stInTransaction s"
    and run: "ledgerRoute env q s = (Inr r, t)"
    and later: "recordsAppended (stDb t) (stDb u)" "\<not> stInTransaction u" "\<not> writeLockBusy env (stBegins u)"
  shows "ledgerRoute env q u = (Inr r, u\<lparr>stBegins := Suc (stBegins u)\<rparr>)"
proof (cases q rule: isCreate.cases)
  case (1 b k)
  from run show ?thesis unfolding 1 ledgerRoute.simps settingsRoute.simps
    by (intro postRoute_replay [OF disjI1 [OF createSettings_def] hash _ out _ later]) simp_all
next
  case (2 b k)
  from run show ?thesis unfolding 2 ledgerRoute.simps accountRoute.simps
    by (intro postRoute_replay [OF disjI1 [OF createAccount_def] hash _ out _ later]) simp_all
next
  case (3 i b k)
  from run show ?thesis unfolding 3 ledgerRoute.simps accountRoute.simps
    by (intro postRoute_replay [OF disjI1 [OF adjustAccount_def] hash _ out _ later]) simp_all
next
  case (4 b k)
  from run show ?thesis unfolding 4 ledgerRoute.simps categoryRoute.simps
    by (intro postRoute_replay [OF disjI1 [OF createCategory_def] hash _ out _ later]) simp_all
next
  case (5 b k)
  have op: "createTransaction env q k = executeIdempotentLedgerCreate env transactionsScope k
      (transactionRequestJson q) (createTransactionMutation env q) \<or> (\<exists>e. createTransaction env q k = throw e)" for q k
    by (cases q) (auto simp: createTransaction_def)
  from run show ?thesis unfolding 5 ledgerRoute.simps transactionRoute.simps
    by (intro postRoute_replay [OF op hash _ out _ later]) simp_all
qed (use c in simp_all)

lemma respond_replay:
  assumes "isCreate q" "hash_ok env" "\<not> stInTransaction s" "respond env q s = (r, t)" "\<not> isError r"
    "recordsAppended (stDb t) (stDb u)" "\<not> stInTransaction u" "\<not> writeLockBusy env (stBegins u)"
  shows "respond env q u = (r, u\<lparr>stBegins := Suc (stBegins u)\<rparr>)"
proof -
  have "ledgerRoute env q s = (Inr r, t)"
    using assms(4,5) by (auto simp: respond_def withLedgerErrors_def ledgerErrorResponse_def
        split: prod.split_asm sum.split_asm failure.split_asm)
  from route_replay [OF assms(1-3) this assms(6-8)] show ?thesis
    by (simp add: respond_def withLedgerErrors_def)
qed

end
