(* ===== verification/Demo.thy ===== *)
theory Demo
  imports Replay
begin

text \<open>
  A concrete host for the model's parameters, on which the witnesses of the properties run: the
  civil calendar in the zone \<open>UTC\<close>, a clock that advances one millisecond per reading, and
  identifiers \<open>id0\<close>, \<open>id1\<close>, \<open>\<dots>\<close>. The digest keeps one digit of every code unit; JSON text is not parsed.
\<close>

section \<open>The calendar\<close>

definition civilDays :: "int \<Rightarrow> int \<Rightarrow> int \<Rightarrow> int" where
  "civilDays y m d =
     (let y' = (if m \<le> 2 then y - 1 else y);
          era = y' div 400;
          yoe = y' mod 400;
          doy = (153 * (if m > 2 then m - 3 else m + 9) + 2) div 5 + d - 1;
          doe = yoe * 365 + yoe div 4 - yoe div 100 + doy
      in era * 146097 + doe - 719468)"

definition civilDate :: "int \<Rightarrow> plainDate" where
  "civilDate days =
     (let z = days + 719468;
          era = z div 146097;
          doe = z mod 146097;
          yoe = (doe - doe div 1460 + doe div 36524 - doe div 146096) div 365;
          doy = doe - (365 * yoe + yoe div 4 - yoe div 100);
          mp = (5 * doy + 2) div 153;
          d = doy - (153 * mp + 2) div 5 + 1;
          m = (if mp < 10 then mp + 3 else mp - 9)
      in \<lparr>pdYear = yoe + era * 400 + (if m \<le> 2 then 1 else 0), pdMonth = m, pdDay = d\<rparr>)"

definition validDate :: "int \<Rightarrow> int \<Rightarrow> int \<Rightarrow> plainDate option" where
  "validDate y m d = (let p = \<lparr>pdYear = y, pdMonth = m, pdDay = d\<rparr>
     in if 1 \<le> m \<and> m \<le> 12 \<and> 1 \<le> d \<and> civilDate (civilDays y m d) = p then Some p else None)"

definition dayNumber :: "plainDate \<Rightarrow> int" where
  "dayNumber p = civilDays (pdYear p) (pdMonth p) (pdDay p)"

definition twoDigits :: "int \<Rightarrow> jsstr" where
  "twoDigits n = padStart 2 (natText (nat n))"

definition dateText :: "plainDate \<Rightarrow> jsstr" where
  "dateText p = padStart 4 (natText (nat (pdYear p))) @ [45] @ twoDigits (pdMonth p) @ [45] @ twoDigits (pdDay p)"

definition dateFromText :: "jsstr \<Rightarrow> plainDate option" where
  "dateFromText s = validDate (int (decimalValue (take 4 s))) (int (decimalValue (take 2 (drop 5 s))))
     (int (decimalValue (take 2 (drop 8 s))))"

definition shiftMonths :: "plainDate \<Rightarrow> int \<Rightarrow> plainDate option" where
  "shiftMonths p k = (let n = pdYear p * 12 + (pdMonth p - 1) + k
     in validDate (n div 12) (n mod 12 + 1) (pdDay p))"

section \<open>The host\<close>

definition demoHash :: "jsstr \<Rightarrow> jsstr" where
  "demoHash s = take 64 (map (\<lambda>c. 48 + c mod 10) s @ replicate 64 48)"

definition demoEnv :: ledger_env where
  "demoEnv =
     \<lparr>toLowerCase = (\<lambda>s. s), jsonParse = (\<lambda>_. None), sha256hex = demoHash,
      instantOk = (\<lambda>i. \<bar>i\<bar> \<le> 8640000000000000), zoneKnown = (\<lambda>z. z = js ''UTC''),
      plainDateFrom = dateFromText, plainDateOf = validDate, plainDateText = dateText,
      dayOfWeek = (\<lambda>p. (dayNumber p + 3) mod 7 + 1),
      addDays = (\<lambda>p k. Some (civilDate (dayNumber p + k))), addMonths = shiftMonths,
      addYears = (\<lambda>p k. shiftMonths p (12 * k)),
      zonedStart = (\<lambda>p z. Some (dayNumber p * 86400000)), dateAt = (\<lambda>i z. Some (civilDate (i div 86400000))),
      nowFn = (\<lambda>n. JInt (1700000000000 + int n)), createIdFn = (\<lambda>n. JStr (js ''id'' @ natText n)),
      dateNow = (\<lambda>n. JInt (1700000000000 + int n)), writeLockBusy = (\<lambda>_. False), localeLess = (\<lambda>s t. s < t),
      base64url = (\<lambda>s. s), fromBase64url = (\<lambda>_. None)\<rparr>"

lemma demo_lower_ok: "lower_ok demoEnv"
  by (simp add: lower_ok_def demoEnv_def)

lemma demo_currency [simp]:
  "normalizeLedgerCurrencyCode (JStr (js ''EUR'')) = Inr (js ''EUR'')" "exponentOf (js ''EUR'') = Some 2"
proof -
  have "CURRENCY_CODE_RE (js ''EUR'')" by (simp add: CURRENCY_CODE_RE_def isUpper_def js_def)
  then show "normalizeLedgerCurrencyCode (JStr (js ''EUR'')) = Inr (js ''EUR'')" by (rule normalize_fixed)
  show "exponentOf (js ''EUR'') = Some 2" by (simp add: exponentOf_def CURRENCY_EXPONENTS_def)
qed

lemma demo_exponent [simp]: "currencyExponentFor (JStr (js ''EUR'')) = Inr 2"
  unfolding currencyExponentFor_def demo_currency by simp

lemma demo_dates: "dateFromText (js ''2024-02-29'') = Some \<lparr>pdYear = 2024, pdMonth = 2, pdDay = 29\<rparr>"
   "dateFromText (js ''2023-02-29'') = None"
  by code_simp+

section \<open>A day of requests\<close>

text \<open>
  The ledger is set up in euro, two accounts are opened, categories added, money is earned, spent,
  withdrawn with a fee that is deducted, corrected, deleted, and the emptied bank account archived.
\<close>

definition textValue :: "string \<Rightarrow> jsval" where
  "textValue s = JStr (js s)"

definition jsonBody :: "(string \<times> jsval) list \<Rightarrow> jsval option" where
  "jsonBody ps = Some (JObj (map (\<lambda>(k, v). (js k, v)) ps))"

definition openSettings :: ledger_request where
  "openSettings = SettingsRequest (PostSettings
     (jsonBody [(''baseCurrency'', textValue ''EUR''), (''timezone'', textValue ''UTC'')]) (textValue ''k1''))"

definition openAccount :: "string \<Rightarrow> string \<Rightarrow> int \<Rightarrow> string \<Rightarrow> ledger_request" where
  "openAccount name type balance key = AccountRequest (PostAccount
     (jsonBody [(''name'', textValue name), (''type'', textValue type), (''nature'', textValue ''asset''),
        (''openingBalanceMinor'', JInt balance), (''openingDate'', textValue ''2023-01-01''),
        (''currency'', textValue ''EUR'')]) (textValue key))"

definition addCategory :: "string \<Rightarrow> string \<Rightarrow> string \<Rightarrow> ledger_request" where
  "addCategory kind name key = CategoryRequest (PostCategory
     (jsonBody [(''kind'', textValue kind), (''name'', textValue name)]) (textValue key))"

definition recordEntry :: "string \<Rightarrow> int \<Rightarrow> string \<Rightarrow> string \<Rightarrow> string \<Rightarrow> ledger_request" where
  "recordEntry type amount account category key = TransactionRequest (PostTransaction
     (jsonBody [(''type'', textValue type), (''amountMinor'', JInt amount), (''accountId'', textValue account),
        (''categoryId'', textValue category), (''occurredAt'', JInt 1690000000000)]) (textValue key))"

definition withdraw :: "int \<Rightarrow> int \<Rightarrow> string \<Rightarrow> string \<Rightarrow> string \<Rightarrow> ledger_request" where
  "withdraw amount fee f to key = TransactionRequest (PostTransaction
     (jsonBody [(''type'', textValue ''transfer''), (''transferKind'', textValue ''withdrawal''),
        (''amountMinor'', JInt amount), (''feeMinor'', JInt fee), (''feeMode'', textValue ''deducted''),
        (''fromAccountId'', textValue f), (''toAccountId'', textValue to),
        (''occurredAt'', JInt 1690000000000)]) (textValue key))"

definition adjustTo :: "string \<Rightarrow> int \<Rightarrow> int \<Rightarrow> string \<Rightarrow> ledger_request" where
  "adjustTo account target calculated key = AccountRequest (PostAccountAdjust (js account)
     (jsonBody [(''targetBalanceMinor'', JInt target), (''expectedCalculatedBalanceMinor'', JInt calculated),
        (''occurredAt'', JInt 1690000000000)]) (textValue key))"

definition atVersion :: "int \<Rightarrow> jsval option" where
  "atVersion n = jsonBody [(''expectedVersion'', JInt n)]"

definition demoRequests :: "ledger_request list" where
  "demoRequests =
     [openSettings, openAccount ''Cash'' ''cash'' 500 ''k2'', openAccount ''Bank'' ''bank'' 0 ''k3'',
      addCategory ''expense'' ''Allotment'' ''k4'', addCategory ''income'' ''Lottery'' ''k5'',
      recordEntry ''income'' 1000 ''id23'' ''id26'' ''k6'', recordEntry ''expense'' 100 ''id23'' ''id25'' ''k7'',
      withdraw 300 10 ''id24'' ''id23'' ''k8'',
      TransactionRequest (DeleteTransaction (js ''id28'') (atVersion 1)),
      adjustTo ''id24'' 0 (- 300) ''k9'',
      AccountRequest (PostAccountArchive (js ''id24'') (atVersion 1))]"

lemma demo_hash_ok: "hash_ok demoEnv"
proof -
  have d: "c mod 10 \<le> 9" for c :: nat by presburger
  have "48 \<le> c \<and> c \<le> 57" if "c \<in> set (demoHash s)" for c s
    using in_set_takeD [OF that [unfolded demoHash_def]] d by auto
  then show ?thesis
    by (auto simp: hash_ok_def fingerprintOk_def demoEnv_def list_all_iff isDigit_def) (simp add: demoHash_def)
qed

section \<open>Running a request\<close>

text \<open>
  The monad as evaluation rules, with congruences that keep what has not been reached yet as it is:
  \<open>simp cong: run_congs add: run_simps\<close> runs a request to its response.
\<close>

lemma run_congs:
  "bnd m k = bnd m k" "r = r' \<Longrightarrow> bindR r h = bindR r' h"
  "s = s' \<Longrightarrow> runLedgerWrite env f s = runLedgerWrite env f s'"
  by simp_all

lemma run_monad:
  "bnd m k s = (case m s of (Inl e, t) \<Rightarrow> (Inl e, t) | (Inr a, t) \<Rightarrow> k a t)"
  "ret x u = (Inr x, u)" "throw e u = (Inl e, u)" "liftR r u = (r, u)"
  "guardE c e u = (if c then (Inr (), u) else (Inl e, u))"
  by (simp_all add: bnd_def ret_def throw_def liftR_def guardE_def)

lemma run_database:
  "readDb f s = (f (stDb s), s)"
  "writeDb g s = (case g (stDb s) of Inl e \<Rightarrow> (Inl e, s) | Inr db \<Rightarrow> (Inr (), s\<lparr>stDb := db\<rparr>))"
  "changeDb h s = (case h (stDb s) of Inl e \<Rightarrow> (Inl e, s) | Inr (n, db) \<Rightarrow> (Inr n, s\<lparr>stDb := db\<rparr>))"
  by (simp_all add: readDb_def ask_def writeDb_def modifyR_def mapRes_def changeDb_def split: sum.split)

lemma run_write:
  "runLedgerWrite env f s = (
     if stInTransaction s then
       (case f s of (Inl e, t) \<Rightarrow> (Inl (mapBusy e), t) | (Inr a, t) \<Rightarrow> (Inr a, t))
     else if writeLockBusy env (stBegins s) then (Inl (mapBusy SqlBusy), s\<lparr>stBegins := Suc (stBegins s)\<rparr>)
     else case f (s\<lparr>stBegins := Suc (stBegins s), stInTransaction := True\<rparr>) of
         (Inl e, t) \<Rightarrow> (Inl (mapBusy e), t\<lparr>stDb := stDb s, stInTransaction := False\<rparr>)
       | (Inr a, t) \<Rightarrow> (Inr a, t\<lparr>stInTransaction := False\<rparr>))"
  by (simp add: runLedgerWrite_def Let_def)

lemma run_host:
  "createIdFn demoEnv n = JStr (js ''id'' @ natText n)" "zoneKnown demoEnv z = (z = js ''UTC'')"
  "nowFn demoEnv n = JInt (1700000000000 + int n)" "dateNow demoEnv n = JInt (1700000000000 + int n)"
  "toLowerCase demoEnv x = x" "sha256hex demoEnv x = demoHash x"
  "instantOk demoEnv i = (\<bar>i\<bar> \<le> 8640000000000000)" "writeLockBusy demoEnv n = False"
  by (simp_all add: demoEnv_def)

lemmas run_values =
  hasOwn_def getProp_def MAX_SAFE_INTEGER_def safeInt_def jsSpace_def trim_def ledgerValidationError_def
  bindR_def failUnless_def catchR_def orderBy_def isDigit_def CURRENCY_EXPONENTS_def upperUnit_def
  toUpperCase_def isUpper_def CURRENCY_CODE_RE_def exponentOf_def isSupportedLedgerCurrency_def isAlpha_def
  ianaChar_def isIanaTimeZoneId_def LEDGER_CATEGORY_KINDS_def LEDGER_SYSTEM_KEYS_def enumOf_def
  LEDGER_ACCOUNT_ICONS_def valueAt_def requiredString_def safeInteger_def positiveVersion_def
  utcMilliseconds_def persistedCurrency_def persistedTimezone_def isText_def ledgerSettingsFromRow_def
  boolInt_def normalizeLedgerCategoryName_def quoteUnit_def highSurrogate_def lowSurrogate_def jsonString_def
  intText_def jsonStringArray_def jsonStringRecord_def keyLe_def stableSerializeLedgerJson_def
  LEDGER_NAME_MAX_LENGTH_def LEDGER_IDEMPOTENCY_KEY_MAX_LENGTH_def asRecord_def assertExactKeys_def
  requireString_def validateLength_def parseName_def parseEnum_def parseAccountIcon_def parseCategoryKind_def
  parseIdempotencyKey_def optField_def parseCategoryCreateRequest_def

lemmas run_tables =
  selectOne_def sqlText_def sqlInt_def sqlNull_def cellInt_def cellText_def isTextCell_def isIntCell_def
  empty_db_def settingsParams_def orElse_def categoryParams_def textIn_def nullOr_def versionCheck_def
  asciiLower_def iconCheck_def categoryCheck_def categoriesUnique_def getSettings_def findCategoryByIdentity_def
  insertCategory_def idempotencyParams_def idempotencyCheck_def idempotencyKeyOf_def getIdempotencyRecord_def
  insertIdempotencyRecord_def

lemmas run_service =
  initial_state_def categoriesScope_def replayDataObject_def replayExactObject_def assertReplayString_def
  assertReplayBoolean_def assertReplaySafeInteger_def assertReplayPositiveSafeInteger_def
  assertReplayNullableSafeInteger_def assertReplayEnum_def ifOwn_def ownKeys_def replayIconOk_def
  assertLedgerCategoryReplayBody_def assertLedgerReplayResponseBody_def isLedgerAdjustmentNoOpReplayBody_def
  serializeLedgerReplayResponse_def fingerprintLedgerMutation_def assertMutationResult_def
  storeMutationResult_def executeIdempotentLedgerCreate_def duplicateCategory_def requireSome_def optProp_def
  shownIcon_def isProtected_def toCategoryDto_def committed_def requireSettings_def categoryRequestJson_def
  createCategoryMutation_def createCategory_def ledgerReplayResponse_def readLedgerJson_def postRoute_def
  withLedgerErrors_def respond_def

lemmas run_simps = run_monad run_database run_write run_host run_values run_tables run_service js_def Let_def
  natText.simps demoHash_def textValue_def jsonBody_def generatedTimestamp_def generatedId_def recordCreatedAt_def
  assertIanaTimeZoneId.simps assertUtcMilliseconds.simps assertOpeningDate.simps

text \<open>A ledger that has been initialized, and a category created in it.\<close>

definition demoSettings :: LedgerSettings where
  "demoSettings = \<lparr>setBaseCurrency = js ''EUR'', setTimezone = js ''UTC'', setHasCreatedAccount = False,
     setVersion = 1, setCreatedAt = 1000, setUpdatedAt = 1000,
     setAccountIcons = \<lparr>defaultIcon = js ''wallet'', availableIcons = [js ''wallet''], archivedIcons = None,
       customIcons = [], customIconNames = []\<rparr>\<rparr>"

definition demoState :: ledger_state where
  "demoState = initial_state\<lparr>stDb := empty_db\<lparr>dbSettings := [settingsParams demoSettings]\<rparr>\<rparr>"

lemma demo_state_good: "good demoEnv demoState" "\<not> stInTransaction demoState"
proof -
  have cur: "currencyOk (js ''EUR'')"
    by (simp cong: run_congs let_weak_cong add: run_simps currencyOk_def del: js_inject js_Nil)
  have zone: "isIanaTimeZoneId demoEnv (JStr (js ''UTC''))"
    by (simp cong: run_congs let_weak_cong add: run_simps del: js_inject js_Nil)
  have valid: "valid_settings demoEnv demoSettings"
    using cur zone by (simp add: valid_settings_def demoSettings_def utcOk_def run_host safeInt_def MAX_SAFE_INTEGER_def)
  have "settingsCheck (settingsParams demoSettings)"
    by (simp add: settingsCheck_def settingsParams_def demoSettings_def run_simps del: js_inject js_Nil)
  then have ins: "insertSettings demoSettings empty_db = Inr (stDb demoState)"
    by (simp add: insertSettings_def demoState_def empty_db_def)
  note w = insertSettings_view [OF wf_empty_db valid ins]
  have "ledger_step demoEnv (view demoEnv empty_db) (view demoEnv (stDb demoState))"
    unfolding w(3) using w(2) by (intro Initialize) (simp_all add: demoSettings_def)
  with Inv_empty w(1) Inv_step show "good demoEnv demoState" unfolding good_def by blast
  show "\<not> stInTransaction demoState" by (simp add: demoState_def initial_state_def)
qed

definition foodCategory :: ledger_request where
  "foodCategory = addCategory ''expense'' ''Food'' ''k1''"

lemma demo_category:
  "\<exists>b t. respond demoEnv foodCategory demoState = (ReplayResponse 201 b, t) \<and> \<not> stInTransaction t
     \<and> length (dbCategories (stDb t)) = 1 \<and> stBegins t = 1"
  by (simp cong: run_congs let_weak_cong add: run_simps foodCategory_def addCategory_def demoState_def demoSettings_def
      del: js_inject js_Nil)

lemma demo_create:
  "\<exists>a t. executeIdempotentLedgerCreate demoEnv categoriesScope (js ''k1'')
       (categoryRequestJson \<lparr>ccKind = ExpenseKind, ccName = js ''Food'', ccIcon = None\<rparr>)
       (createCategoryMutation demoEnv \<lparr>ccKind = ExpenseKind, ccName = js ''Food'', ccIcon = None\<rparr>) demoState = (Inr a, t)
     \<and> \<not> stInTransaction t \<and> length (dbCategories (stDb t)) = 1"
  by (simp cong: run_congs let_weak_cong add: run_simps demoState_def demoSettings_def del: js_inject js_Nil)

end
