(* ===== verification/DemoBook.thy ===== *)
theory DemoBook
  imports Demo
begin

text \<open>
  A ledger book written out: initialized, with one account, one category and one income, the
  state on which the witnesses about accounts and transactions run.
\<close>

definition bookSettings :: LedgerSettings where
  "bookSettings = demoSettings\<lparr>setHasCreatedAccount := True\<rparr>"

definition bookAccount :: LedgerAccount where
  "bookAccount = \<lparr>accId = js ''a1'', accName = js ''Cash'', accType = Cash, accNature = Asset, accIcon = None,
     accOpeningBalanceMinor = 500, accOpeningDate = js ''2023-01-01'', accCurrency = js ''EUR'', accNote = [],
     accCardNumber = None, accArchivedAt = None, accVersion = 1, accCreatedAt = 1000, accUpdatedAt = 1000\<rparr>"

definition bookCategory :: LedgerCategory where
  "bookCategory = \<lparr>catId = js ''c1'', catKind = IncomeKind, catName = js ''Lottery'', catNormalizedName = js ''Lottery'',
     catSystemKey = None, catIsDefault = False, catIcon = None, catSortOrder = None, catArchivedAt = None,
     catVersion = 1, catCreatedAt = 1000, catUpdatedAt = 1000\<rparr>"

definition bookIncome :: LedgerTransaction where
  "bookIncome = newTransaction (js ''t1'') None 1000 1690000000000 [] [] 2000 (Income (js ''a1'') (js ''c1'') [])"

definition book :: ledger_state where
  "book = initial_state\<lparr>stDb := \<lparr>dbSettings = [settingsParams bookSettings], dbAccounts = [accountParams bookAccount],
     dbCategories = [categoryParams bookCategory], dbTransactions = [transactionParams bookIncome],
     dbIdempotency = []\<rparr>\<rparr>"

lemma book_zone: "isIanaTimeZoneId demoEnv (JStr (js ''UTC''))"
  by (simp cong: run_congs let_weak_cong add: run_simps del: js_inject js_Nil)

lemma book_currency: "currencyOk (js ''EUR'')"
  by (simp cong: run_congs let_weak_cong add: run_simps currencyOk_def del: js_inject js_Nil)

lemma book_date: "assertOpeningDate demoEnv (JStr (js ''2023-01-01'')) = Inr (js ''2023-01-01'')"
proof -
  have "dateFromText (js ''2023-01-01'') = Some \<lparr>pdYear = 2023, pdMonth = 1, pdDay = 1\<rparr>" by code_simp
  moreover have "LOCAL_DATE_RE (js ''2023-01-01'')" by code_simp
  ultimately show ?thesis by (simp add: assertOpeningDate_iff demoEnv_def)
qed

lemma book_instant: "utcOk demoEnv 1000" "utcOk demoEnv 2000" "utcOk demoEnv 1690000000000"
  by (simp_all add: utcOk_def run_host safeInt_def MAX_SAFE_INTEGER_def)

lemma book_valid:
  "valid_settings demoEnv bookSettings" "valid_acc demoEnv bookAccount" "valid_cat demoEnv bookCategory"
  "valid_tx demoEnv bookIncome"
proof -
  have small: "safeInt 1" "safeInt 500" "safeInt 1000" by (simp_all add: safeInt_def MAX_SAFE_INTEGER_def)
  show "valid_settings demoEnv bookSettings"
    using book_zone book_currency book_instant
    by (simp add: valid_settings_def bookSettings_def demoSettings_def)
  have names: "trim (js ''Cash'') \<noteq> []" "trim (js ''Lottery'') = js ''Lottery''"
    by (simp_all add: trim_def js_def jsSpace_def)
  show "valid_acc demoEnv bookAccount"
    using book_date book_currency book_instant small names
    by (simp add: valid_acc_def bookAccount_def isLedgerAccountTypeNature_def)
  show "valid_cat demoEnv bookCategory"
    using book_instant names by (simp add: valid_cat_def bookCategory_def normalizeLedgerCategoryName_def run_host)
  show "valid_tx demoEnv bookIncome"
    using book_instant small by (simp add: bookIncome_def valid_newTransaction)
qed

lemma book_wf: "wf_db demoEnv (stDb book)"
  using settings_decode [OF book_valid(1)] account_decode [OF book_valid(2)] category_decode [OF book_valid(3)]
    transactionFromRow_params [OF book_valid(4)]
  by (simp add: wf_db_def book_def accounts.stored_def categories.stored_def transactions.stored_def)

lemma book_view:
  "view demoEnv (stDb book) = \<lparr>lvSettings = Some (storedSettings demoEnv bookSettings), lvAccounts = [storedAccount bookAccount],
     lvCategories = [storedCategory bookCategory], lvTransactions = [bookIncome]\<rparr>"
  using settings_decode [OF book_valid(1)] account_decode [OF book_valid(2)] category_decode [OF book_valid(3)]
    transactionFromRow_params [OF book_valid(4)]
  by (simp add: view_def book_def decoded_eq)

lemma book_boundary: "openingBoundaryMs demoEnv (js ''2023-01-01'') (js ''UTC'') = Inr 1672531200000"
proof -
  have date: "plainDateFrom demoEnv (js ''2023-01-01'') = Some \<lparr>pdYear = 2023, pdMonth = 1, pdDay = 1\<rparr>"
  proof -
    have "dateFromText (js ''2023-01-01'') = Some \<lparr>pdYear = 2023, pdMonth = 1, pdDay = 1\<rparr>" by code_simp
    then show ?thesis by (simp add: demoEnv_def)
  qed
  have zone: "assertIanaTimeZoneId demoEnv (JStr (js ''UTC'')) = Inr (js ''UTC'')"
    using book_zone by (simp add: isIanaTimeZoneId_iff assertIanaTimeZoneId_iff)
  have "dayNumber \<lparr>pdYear = 2023, pdMonth = 1, pdDay = 1\<rparr> = 19358" by code_simp
  then show ?thesis
    by (simp add: openingBoundaryMs_def book_date date zone startOfLocalDate_def orThrow_def)
      (simp add: demoEnv_def assertUtcMilliseconds.simps safeInt_def MAX_SAFE_INTEGER_def)
qed

lemma book_Inv: "Inv demoEnv (view demoEnv (stDb book))"
proof -
  note book_boundary
  then have "openBy demoEnv (view demoEnv (stDb book)) 1690000000000 (js ''a1'')"
    by (simp add: openBy_def accountOf_def book_view bookAccount_def bookSettings_def demoSettings_def)
  then have "txOk demoEnv (view demoEnv (stDb book)) bookIncome"
    by (simp add: txOk_def categoryUsable_def kindMatches_def groupOk_def categoryOf_def book_view bookIncome_def
        newTransaction_def txType_def) (simp add: bookCategory_def)
  then show ?thesis
    by (simp add: Inv_def uniqueIds_def catsUnique_def settingsOk_def transactionsOk_def archivedSettled_def groupsMatch_def
        catalogOk_def book_view)
      (simp add: bookAccount_def bookSettings_def bookCategory_def isProtected_def bookIncome_def newTransaction_def
        payer_def charge_def demoSettings_def)
qed

lemma book_good: "good demoEnv book" "\<not> stInTransaction book"
  using book_wf book_Inv by (simp_all add: good_def) (simp add: book_def initial_state_def)

section \<open>Its balance, read and adjusted\<close>

definition bookAdjustment :: LedgerTransaction where
  "bookAdjustment = newTransaction (js ''id0'') None (- 300) 1690000000000 [] [] 1700000000000 (Adjustment (js ''a1'') 1500 1200)"

lemma book_sums: "checkedAddMinor 0 1000 = Inr 1000" "checkedAddMinor 1000 (- 300) = Inr 700" "checkedAddMinor 500 1000 = Inr 1500" "checkedAddMinor 0 (- 300) = Inr (- 300)"
  "checkedAddMinor (- 300) 1000 = Inr 700" "checkedAddMinor 500 700 = Inr 1200" "assertPositiveMinor (JInt 1000) = Inr 1000"
  "assertSafeMinor (JInt 500) = Inr 500" "assertAdjustmentEffect (- 300) 1500 1200 = Inr ()" "assertAccountReference (js ''a1'') = Inr ()"
  by (simp_all add: checkedAddMinor_iff assertPositiveMinor_iff assertSafeMinor_iff assertAdjustmentEffect_iff safeInt_def MAX_SAFE_INTEGER_def
    assertAccountReference_def)

lemma book_balances:
  assumes "wf_db demoEnv (stDb s)" "lvTransactions (view demoEnv (stDb s)) = ts"
  shows "ts = [bookIncome] \<Longrightarrow> currentBalance demoEnv (storedAccount bookAccount) s = (Inr 1500, s)"
    "ts = [bookIncome, bookAdjustment] \<Longrightarrow> currentBalance demoEnv (storedAccount bookAccount) s = (Inr 1200, s)"
  using assms
  by (simp_all add: currentBalance_def bnd_def readDb_def ask_def listActiveTransactionsForAccount_view book_view liftR_def
    activeTx_def touches_def bookIncome_def bookAdjustment_def bookAccount_def newTransaction_def deriveCurrentBalance_def balanceAccount_def
    transactionEffectForAccount_def book_sums signedAmountForRole_def bindR_def transactionsOrder_def txPosition_def)

lemma book_dto: "currentBalance demoEnv (storedAccount bookAccount) s = (Inr b, s) \<Longrightarrow> \<exists>v. toAccountDto demoEnv (storedAccount bookAccount) s = (Inr v, s)"
  by (simp add: toAccountDto_def bnd_def liftR_def ret_def) (simp add: bookAccount_def)

lemma book_inserts: "\<exists>db. insertTransaction bookAdjustment (stDb book) = Inr db"
  by (simp add: insertTransaction_def book_def bookAdjustment_def transactionParams_def newTransaction_def txType_def transactionWritable_def bookIncome_def
    transactionCheck_def transactionShape_def transferKindTrigger_def groupFieldsTrigger_def referencesExist_def accountParams_def bookAccount_def
    textIn_def LEDGER_TRANSACTION_TYPES_def nullOr_def versionCheck_def typeIs_def Let_def)
lemma book_open: "openAt demoEnv (storedSettings demoEnv bookSettings) 1690000000000 (storedAccount bookAccount)"
  using book_boundary by (simp add: openAt_def bookSettings_def demoSettings_def bookAccount_def)

definition bookTarget :: AdjustmentRequest where
  "bookTarget = \<lparr>aqTargetBalanceMinor = 1200, aqExpectedCalculatedBalanceMinor = 1500, aqOccurredAt = 1690000000000,
     aqNote = []\<rparr>"

lemma book_adjusts:
  "\<exists>r t. adjustAccountMutation demoEnv (js ''a1'') bookTarget book = (Inr r, t) \<and> adjustmentOk demoEnv bookTarget"
proof -
  obtain db where db: "insertTransaction bookAdjustment (stDb book) = Inr db" using book_inserts by blast
  have valid: "valid_tx demoEnv bookAdjustment"
    using book_instant by (simp add: bookAdjustment_def valid_newTransaction utcOk_def run_host safeInt_def MAX_SAFE_INTEGER_def)
  note w = insertTransaction_view [OF book_wf valid db]
  let ?u = "book\<lparr>stNow := Suc (stNow book), stIds := Suc (stIds book), stDb := db\<rparr>"
  obtain v where v: "toAccountDto demoEnv (storedAccount bookAccount) ?u = (Inr v, ?u)"
    using book_dto [OF book_balances(2), of ?u "[bookIncome, bookAdjustment]"] w(1,2) by (auto simp: book_view)
  have bal: "fst (currentBalance demoEnv (storedAccount bookAccount) (book\<lparr>stNow := Suc (stNow book)\<rparr>)) = Inr 1500"
    using book_balances(1) [of "book\<lparr>stNow := Suc (stNow book)\<rparr>" "[bookIncome]"] book_wf by (simp add: book_view)
  have host: "nowFn demoEnv (stNow book) = JInt 1700000000000" "createIdFn demoEnv (stIds book) = JStr (js ''id0'')"
    by (simp_all add: run_host book_def initial_state_def natText.simps js_def)
  have nums: "safeInt 1200" "safeInt 1500" "safeInt 300" "safeInt 1690000000000" "safeInt 1700000000000" "safeInt 1700000060000"
      "instantOk demoEnv 1690000000000" "instantOk demoEnv 1700000000000" "utcOk demoEnv 1700000000000"
    by (simp_all add: safeInt_def MAX_SAFE_INTEGER_def run_host utcOk_def)
  have acc: "accId bookAccount = js ''a1''" "accArchivedAt bookAccount = None" "accCurrency bookAccount = setBaseCurrency bookSettings"
    by (simp_all add: bookAccount_def bookSettings_def demoSettings_def)
  have "adjustmentOk demoEnv bookTarget" using nums book_instant by (simp add: adjustmentOk_def bookTarget_def)
  moreover have "\<exists>r t. adjustAccountMutation demoEnv (js ''a1'') bookTarget book = (Inr r, t)"
    using book_good(1) bal host v db [unfolded bookAdjustment_def] book_open book_instant nums acc
    by (simp add: adjustAccountMutation_def led_simps book_view accountOf_def Let_def bookTarget_def)
  ultimately show ?thesis by blast
qed

section \<open>A read and a command\<close>

lemma write_commits:
  assumes "f (s\<lparr>stBegins := Suc (stBegins s), stInTransaction := True\<rparr>) = (Inr a, u)" "\<not> stInTransaction s"
    "\<not> writeLockBusy env (stBegins s)"
  shows "runLedgerWrite env f s = (Inr a, u\<lparr>stInTransaction := False\<rparr>)"
  using assms by (simp add: run_write)

lemma book_reads:
  assumes "stDb s = stDb book"
  shows "\<exists>v. toAccountDto demoEnv (storedAccount bookAccount) s = (Inr v, s)"
  using book_dto [OF book_balances(1) [of s "[bookIncome]"]] book_wf assms by (simp add: book_view)

lemma book_get: "\<exists>v. getAccountDto demoEnv (js ''a1'') book = (Inr v, book)"
  using book_reads [of book] book_good(1)
  by (auto simp: getAccountDto_def led_simps book_view accountOf_def) (simp_all add: bookAccount_def)

definition restoreCash :: "int \<Rightarrow> ledger_request" where
  "restoreCash version = AccountRequest (PostAccountRestore (js ''a1'') (atVersion version))"

lemma book_restore: "\<exists>v t. respond demoEnv (restoreCash 1) book = (JsonResponse 200 v, t)"
proof -
  let ?s = "book\<lparr>stBegins := Suc (stBegins book), stInTransaction := True\<rparr>" and ?o = "[(js ''expectedVersion'', JInt 1)]"
  obtain v where v: "toAccountDto demoEnv (storedAccount bookAccount) ?s = (Inr v, ?s)" using book_reads [of ?s] by auto
  have cmd: "parseExpectedVersionCommand (JObj ?o) = Inr 1"
    by (simp add: parseExpectedVersionCommand_def asRecord_def parseExpectedVersion_def parseSafeInteger_def
        assertExactKeys_def getProp_def hasOwn_def safeInt_def MAX_SAFE_INTEGER_def)
  have acc: "accountOf (view demoEnv (stDb book)) (js ''a1'') = Some (storedAccount bookAccount)"
    "accVersion (storedAccount bookAccount) = 1" "accArchivedAt (storedAccount bookAccount) = None"
    by (simp_all add: book_view accountOf_def) (simp_all add: bookAccount_def)
  have set: "lvSettings (view demoEnv (stDb book)) = Some (storedSettings demoEnv bookSettings)" by (simp add: book_view)
  have "restoreAccount demoEnv (js ''a1'') (JObj ?o) book = (Inr v, ?s\<lparr>stInTransaction := False\<rparr>)"
    unfolding restoreAccount_def
    by (rule write_commits) (use v cmd acc set book_good in \<open>simp_all add: led_simps run_host\<close>)
  then show ?thesis
    by (simp add: respond_def restoreCash_def rawRoute_def readLedgerJson_def atVersion_def jsonBody_def bnd_def liftR_def
        ret_def withLedgerErrors_def)
qed

end
