(* ===== verification/DemoCalendar.thy ===== *)
theory DemoCalendar
  imports PagingFacts DemoBook
begin

text \<open>
  The demonstration host at its clock's start, 2023-11-14: the dates and instants the projections of
  the book need.
\<close>

lemma calendar_host:
  "plainDateFrom demoEnv s = dateFromText s" "plainDateOf demoEnv = validDate" "plainDateText demoEnv = dateText"
  "addDays demoEnv p k = Some (civilDate (dayNumber p + k))" "addMonths demoEnv = shiftMonths"
  "addYears demoEnv p k = shiftMonths p (12 * k)" "zonedStart demoEnv p z = Some (dayNumber p * 86400000)"
  "dateAt demoEnv i z = Some (civilDate (i div 86400000))" "dayOfWeek demoEnv p = (dayNumber p + 3) mod 7 + 1"
  by (simp_all add: demoEnv_def)

lemma demo_first:
  "shiftMonths \<lparr>pdYear = 2022, pdMonth = 12, pdDay = 1\<rparr> 0 = Some \<lparr>pdYear = 2022, pdMonth = 12, pdDay = 1\<rparr>"
  "shiftMonths \<lparr>pdYear = 2022, pdMonth = 12, pdDay = 1\<rparr> 1 = Some \<lparr>pdYear = 2023, pdMonth = 1, pdDay = 1\<rparr>"
  "shiftMonths \<lparr>pdYear = 2022, pdMonth = 12, pdDay = 1\<rparr> 2 = Some \<lparr>pdYear = 2023, pdMonth = 2, pdDay = 1\<rparr>"
  "shiftMonths \<lparr>pdYear = 2022, pdMonth = 12, pdDay = 1\<rparr> 3 = Some \<lparr>pdYear = 2023, pdMonth = 3, pdDay = 1\<rparr>"
  "shiftMonths \<lparr>pdYear = 2022, pdMonth = 12, pdDay = 1\<rparr> 4 = Some \<lparr>pdYear = 2023, pdMonth = 4, pdDay = 1\<rparr>"
  "shiftMonths \<lparr>pdYear = 2022, pdMonth = 12, pdDay = 1\<rparr> 5 = Some \<lparr>pdYear = 2023, pdMonth = 5, pdDay = 1\<rparr>"
  "shiftMonths \<lparr>pdYear = 2022, pdMonth = 12, pdDay = 1\<rparr> 6 = Some \<lparr>pdYear = 2023, pdMonth = 6, pdDay = 1\<rparr>"
  "shiftMonths \<lparr>pdYear = 2022, pdMonth = 12, pdDay = 1\<rparr> 7 = Some \<lparr>pdYear = 2023, pdMonth = 7, pdDay = 1\<rparr>"
  "shiftMonths \<lparr>pdYear = 2022, pdMonth = 12, pdDay = 1\<rparr> 8 = Some \<lparr>pdYear = 2023, pdMonth = 8, pdDay = 1\<rparr>"
  "shiftMonths \<lparr>pdYear = 2022, pdMonth = 12, pdDay = 1\<rparr> 9 = Some \<lparr>pdYear = 2023, pdMonth = 9, pdDay = 1\<rparr>"
  "shiftMonths \<lparr>pdYear = 2022, pdMonth = 12, pdDay = 1\<rparr> 10 = Some \<lparr>pdYear = 2023, pdMonth = 10, pdDay = 1\<rparr>"
  "shiftMonths \<lparr>pdYear = 2022, pdMonth = 12, pdDay = 1\<rparr> 11 = Some \<lparr>pdYear = 2023, pdMonth = 11, pdDay = 1\<rparr>"
  by code_simp+

lemma demo_next:
  "shiftMonths \<lparr>pdYear = 2023, pdMonth = 1, pdDay = 1\<rparr> 1 = Some \<lparr>pdYear = 2023, pdMonth = 2, pdDay = 1\<rparr>"
  "shiftMonths \<lparr>pdYear = 2023, pdMonth = 2, pdDay = 1\<rparr> 1 = Some \<lparr>pdYear = 2023, pdMonth = 3, pdDay = 1\<rparr>"
  "shiftMonths \<lparr>pdYear = 2023, pdMonth = 3, pdDay = 1\<rparr> 1 = Some \<lparr>pdYear = 2023, pdMonth = 4, pdDay = 1\<rparr>"
  "shiftMonths \<lparr>pdYear = 2023, pdMonth = 4, pdDay = 1\<rparr> 1 = Some \<lparr>pdYear = 2023, pdMonth = 5, pdDay = 1\<rparr>"
  "shiftMonths \<lparr>pdYear = 2023, pdMonth = 5, pdDay = 1\<rparr> 1 = Some \<lparr>pdYear = 2023, pdMonth = 6, pdDay = 1\<rparr>"
  "shiftMonths \<lparr>pdYear = 2023, pdMonth = 6, pdDay = 1\<rparr> 1 = Some \<lparr>pdYear = 2023, pdMonth = 7, pdDay = 1\<rparr>"
  "shiftMonths \<lparr>pdYear = 2023, pdMonth = 7, pdDay = 1\<rparr> 1 = Some \<lparr>pdYear = 2023, pdMonth = 8, pdDay = 1\<rparr>"
  "shiftMonths \<lparr>pdYear = 2023, pdMonth = 8, pdDay = 1\<rparr> 1 = Some \<lparr>pdYear = 2023, pdMonth = 9, pdDay = 1\<rparr>"
  "shiftMonths \<lparr>pdYear = 2023, pdMonth = 9, pdDay = 1\<rparr> 1 = Some \<lparr>pdYear = 2023, pdMonth = 10, pdDay = 1\<rparr>"
  "shiftMonths \<lparr>pdYear = 2023, pdMonth = 10, pdDay = 1\<rparr> 1 = Some \<lparr>pdYear = 2023, pdMonth = 11, pdDay = 1\<rparr>"
  "shiftMonths \<lparr>pdYear = 2023, pdMonth = 11, pdDay = 1\<rparr> 1 = Some \<lparr>pdYear = 2023, pdMonth = 12, pdDay = 1\<rparr>"
  by code_simp+

lemma demo_number:
  "dayNumber \<lparr>pdYear = 2022, pdMonth = 12, pdDay = 1\<rparr> = 19327"
  "dayNumber \<lparr>pdYear = 2023, pdMonth = 1, pdDay = 1\<rparr> = 19358"
  "dayNumber \<lparr>pdYear = 2023, pdMonth = 2, pdDay = 1\<rparr> = 19389"
  "dayNumber \<lparr>pdYear = 2023, pdMonth = 3, pdDay = 1\<rparr> = 19417"
  "dayNumber \<lparr>pdYear = 2023, pdMonth = 4, pdDay = 1\<rparr> = 19448"
  "dayNumber \<lparr>pdYear = 2023, pdMonth = 5, pdDay = 1\<rparr> = 19478"
  "dayNumber \<lparr>pdYear = 2023, pdMonth = 6, pdDay = 1\<rparr> = 19509"
  "dayNumber \<lparr>pdYear = 2023, pdMonth = 7, pdDay = 1\<rparr> = 19539"
  "dayNumber \<lparr>pdYear = 2023, pdMonth = 8, pdDay = 1\<rparr> = 19570"
  "dayNumber \<lparr>pdYear = 2023, pdMonth = 9, pdDay = 1\<rparr> = 19601"
  "dayNumber \<lparr>pdYear = 2023, pdMonth = 10, pdDay = 1\<rparr> = 19631"
  "dayNumber \<lparr>pdYear = 2023, pdMonth = 11, pdDay = 1\<rparr> = 19662"
  "dayNumber \<lparr>pdYear = 2023, pdMonth = 12, pdDay = 1\<rparr> = 19692"
  by code_simp+

lemma demo_today:
  "civilDate 19675 = \<lparr>pdYear = 2023, pdMonth = 11, pdDay = 14\<rparr>"
  "dateText \<lparr>pdYear = 2023, pdMonth = 11, pdDay = 14\<rparr> = js ''2023-11-14''"
  "dateFromText (js ''2023-11-14'') = Some \<lparr>pdYear = 2023, pdMonth = 11, pdDay = 14\<rparr>"
  "LOCAL_DATE_RE (js ''2023-11-14'')"
  "dayNumber \<lparr>pdYear = 2023, pdMonth = 11, pdDay = 14\<rparr> = 19675"
  "validDate 2023 11 1 = Some \<lparr>pdYear = 2023, pdMonth = 11, pdDay = 1\<rparr>"
  "validDate 2023 1 1 = Some \<lparr>pdYear = 2023, pdMonth = 1, pdDay = 1\<rparr>"
  "shiftMonths \<lparr>pdYear = 2023, pdMonth = 11, pdDay = 1\<rparr> (- 11) = Some \<lparr>pdYear = 2022, pdMonth = 12, pdDay = 1\<rparr>"
  "shiftMonths \<lparr>pdYear = 2023, pdMonth = 1, pdDay = 1\<rparr> 12 = Some \<lparr>pdYear = 2024, pdMonth = 1, pdDay = 1\<rparr>"
  "dayNumber \<lparr>pdYear = 2024, pdMonth = 1, pdDay = 1\<rparr> = 19723"
  "civilDate 19676 = \<lparr>pdYear = 2023, pdMonth = 11, pdDay = 15\<rparr>"
  "dayNumber \<lparr>pdYear = 2023, pdMonth = 11, pdDay = 15\<rparr> = 19676"
  "civilDate 19674 = \<lparr>pdYear = 2023, pdMonth = 11, pdDay = 13\<rparr>"
  "dayNumber \<lparr>pdYear = 2023, pdMonth = 11, pdDay = 13\<rparr> = 19674"
  "civilDate 19681 = \<lparr>pdYear = 2023, pdMonth = 11, pdDay = 20\<rparr>"
  "dayNumber \<lparr>pdYear = 2023, pdMonth = 11, pdDay = 20\<rparr> = 19681"
  "dateText \<lparr>pdYear = 2023, pdMonth = 11, pdDay = 13\<rparr> = js ''2023-11-13''"
  "dateFromText (js ''2023-11-13'') = Some \<lparr>pdYear = 2023, pdMonth = 11, pdDay = 13\<rparr>"
  "LOCAL_DATE_RE (js ''2023-11-13'')"
  by code_simp+


lemma calendar_number:
  "assertUtcMilliseconds demoEnv (JInt i) = (if safeInt i \<and> \<bar>i\<bar> \<le> 8640000000000000 then Inr i else Inl ledgerValidationError)"
  "assertIanaTimeZoneId demoEnv (JStr (js ''UTC'')) = Inr (js ''UTC'')"
  using book_zone by (simp_all add: assertUtcMilliseconds.simps run_host isIanaTimeZoneId_iff assertIanaTimeZoneId_iff)

lemmas calendar_eval = calendar_host calendar_number demo_first demo_next demo_number demo_today orThrow_def
  safeInt_def MAX_SAFE_INTEGER_def plainDateForLocalDate_def parseLedgerLocalDate.simps startOfLocalDate_def
  plainDateForInstant_def ledgerLocalDateForInstant_def rethrowLedger_def periodRangeForPlainDate_def

lemma demo_local: "ledgerLocalDateForInstant demoEnv 1700000000000 (js ''UTC'') = Inr (js ''2023-11-14'')"
  by (simp add: calendar_eval)

lemma demo_months:
  "\<exists>rs. calendarMonthRangesForLocalDate demoEnv 12 (js ''2023-11-14'') (js ''UTC'') = Inr rs \<and> length rs = 12 \<and> contiguous rs
     \<and> startMs (hd rs) = 1669852800000 \<and> endMs (last rs) = 1701388800000"
  by (simp add: calendarMonthRangesForLocalDate_def calendar_eval upt_rec)

lemma demo_periods:
  "periodRangesForLocalDate demoEnv (js ''2023-11-14'') (js ''UTC'') = Inr
     \<lparr>todayR = \<lparr>startMs = 1699920000000, endMs = 1700006400000\<rparr>, weekR = \<lparr>startMs = 1699833600000, endMs = 1700438400000\<rparr>,
      monthR = \<lparr>startMs = 1698796800000, endMs = 1701388800000\<rparr>, yearR = \<lparr>startMs = 1672531200000, endMs = 1704067200000\<rparr>\<rparr>"
  "monthRange demoEnv 1700000000000 (js ''UTC'') = Inr \<lparr>startMs = 1698796800000, endMs = 1701388800000\<rparr>"
  by (simp_all add: periodRangesForLocalDate_def monthRange_def periodRange_def calendar_eval)

lemma demo_points:
  "calendarDayPointsForInstant demoEnv 2 2 1700000000000 (js ''UTC'') = Inr
     [\<lparr>cpDate = js ''2023-11-13'', cpStartMs = 1699833600000\<rparr>, \<lparr>cpDate = js ''2023-11-14'', cpStartMs = 1699920000000\<rparr>]"
  "localDateRange demoEnv (js ''2023-11-13'') (js ''UTC'') = Inr \<lparr>startMs = 1699833600000, endMs = 1699920000000\<rparr>"
  by (simp_all add: calendarDayPointsForInstant_def localDateRange_def calendar_eval upt_rec roundDiv_def)

end
