(* ===== verification/DemoProjections.thy ===== *)
theory DemoProjections
  imports DemoCalendar
begin

text \<open>The projections of the book, run to their results.\<close>

lemma book_state:
  "requireSettings demoEnv book = (Inr (storedSettings demoEnv bookSettings), book)"
  "requireAccount demoEnv (js ''a1'') book = (Inr (storedAccount bookAccount), book)"
  "captureNow demoEnv book = (Inr 1700000000000, book\<lparr>stNow := Suc 0\<rparr>)"
  "exclusiveInstant demoEnv 1700000000000 = Inr 1700000000001"
proof -
  show "requireSettings demoEnv book = (Inr (storedSettings demoEnv bookSettings), book)"
    "requireAccount demoEnv (js ''a1'') book = (Inr (storedAccount bookAccount), book)"
    by (simp_all only: requireSettings_iff [OF book_good(1)] requireAccount_iff [OF book_good(1)])
      (simp_all add: book_view accountOf_def, simp add: bookAccount_def)
  show "captureNow demoEnv book = (Inr 1700000000000, book\<lparr>stNow := Suc 0\<rparr>)"
    by (simp add: captureNow_def run_host calendar_eval) (simp add: book_def initial_state_def)
  show "exclusiveInstant demoEnv 1700000000000 = Inr 1700000000001"
    using dround_exact [of 1700000000001] by (simp add: exclusiveInstant_def calendar_eval)
qed

lemma book_terms:
  "accId bookAccount = js ''a1''" "accNature bookAccount = Asset" "accOpeningBalanceMinor bookAccount = 500"
  "accArchivedAt bookAccount = None" "accCurrency bookAccount = js ''EUR''"
  "setTimezone bookSettings = js ''UTC''" "setBaseCurrency bookSettings = js ''EUR''"
  by (simp_all add: bookSettings_def demoSettings_def bookAccount_def)

lemma book_entry:
  "activeTx bookIncome" "touches bookIncome (js ''a1'')" "txOccurredAt bookIncome = 1690000000000" "txType bookIncome = IncomeType"
  "txAmountMinor bookIncome = 1000" "txBody bookIncome = Income (js ''a1'') (js ''c1'') []" "txGroupId bookIncome = None" "txDeletedAt bookIncome = None"
  by (simp_all add: bookIncome_def newTransaction_def activeTx_def touches_def txType_def)

lemma book_window:
  "safeInt lo \<Longrightarrow> safeInt hi \<Longrightarrow> lo < hi \<Longrightarrow> listActiveTransactionsForAccountInRange demoEnv (js ''a1'') lo hi (stDb book)
     = Inr (if lo \<le> 1690000000000 \<and> 1690000000000 < hi then [bookIncome] else [])"
proof -
  assume r: "safeInt lo" "safeInt hi" "lo < hi"
  have "selectTransactions demoEnv (\<lambda>r. sqlNull (rt_deleted_at r) \<and> rowTouches (js ''a1'') r \<and> occurredIn (Some lo) (Some hi) r) (stDb book)
     = Inr (orderBy transactionsOrder (filter (\<lambda>t. activeTx t \<and> touches t (js ''a1'') \<and> lo \<le> txOccurredAt t \<and> txOccurredAt t < hi)
         (lvTransactions (view demoEnv (stDb book)))))"
    by (rule selectTransactions_view [OF book_wf]) (simp add: occurredIn_def)
  with r show ?thesis
    by (auto simp: listActiveTransactionsForAccountInRange_def book_view book_entry)
qed

lemma book_balance_before:
  "safeInt before \<Longrightarrow> 1690000000000 < before \<Longrightarrow>
     getAccountBalanceBefore (balanceAccount (storedAccount bookAccount)) before (stDb book) = Inr 1500"
proof -
  assume b: "safeInt before" "1690000000000 < before"
  have t: "validBody None (txAmountMinor bookIncome) (txBody bookIncome)" "netEffect (txBody bookIncome) 1000 (js ''a1'') Asset = 1000"
    by (simp_all add: book_entry)
  have nums: "safeInt 500" "safeInt 1000" "dround 1000 = 1000"
    using dround_exact [of 1000] by (simp_all add: safeInt_def MAX_SAFE_INTEGER_def)
  show ?thesis
    using b t nums book_sums book_entry accountTransactionEffect_params [OF t(1), of "js ''a1''" Asset]
    by (simp add: getAccountBalanceBefore_def aggregateBalance_def accountBalanceFromEffect_def sqlSum_def book_def
        occurredIn_def bindR_def failUnless_def assertSafeMinor_def balanceAccount_def book_terms)
qed

lemma book_trend:
  "getAccountBalanceTrend demoEnv (js ''a1'') 2 book = (Inr (2,
     [\<lparr>btDate = js ''2023-11-13'', btTimestamp = 1699920000000, btBalanceMinor = 1500\<rparr>,
      \<lparr>btDate = js ''2023-11-14'', btTimestamp = 1700000000000, btBalanceMinor = 1500\<rparr>]), book\<lparr>stNow := Suc 0\<rparr>)"
proof -
  have safe: "safeInt 1699833600000" "safeInt 1700000000001" by (simp_all add: safeInt_def MAX_SAFE_INTEGER_def)
  show ?thesis
    by (simp add: getAccountBalanceTrend_def run_page book_state book_terms demo_points book_window book_balance_before safe
        accountBalanceTrend_def)
qed

lemma book_states: "mapM (accountState demoEnv) [storedAccount bookAccount] (book\<lparr>stNow := Suc 0\<rparr>)
    = (Inr [(storedAccount bookAccount, [bookIncome], 1500)], book\<lparr>stNow := Suc 0\<rparr>)"
  using book_wf book_sums
  by (simp add: accountState_def run_page listActiveTransactionsForAccount_view book_view book_terms book_entry
      deriveCurrentBalance_def balanceAccount_def transactionEffectForAccount_def signedAmountForRole_def)

lemma book_range:
  assumes "safeInt hi" "case lo of None \<Rightarrow> True | Some l \<Rightarrow> safeInt l \<and> l < hi" "1690000000000 < hi"
    "case lo of None \<Rightarrow> True | Some l \<Rightarrow> l \<le> 1690000000000"
  shows "listActiveTransactionsInRange demoEnv lo hi (stDb book) = Inr [bookIncome]"
proof -
  have "selectTransactions demoEnv (\<lambda>r. sqlNull (rt_deleted_at r) \<and> occurredIn lo (Some hi) r) (stDb book)
     = Inr (orderBy transactionsOrder (filter (\<lambda>t. activeTx t \<and> (case lo of None \<Rightarrow> True | Some l \<Rightarrow> l \<le> txOccurredAt t)
         \<and> txOccurredAt t < hi) (lvTransactions (view demoEnv (stDb book)))))"
    by (rule selectTransactions_view [OF book_wf]) (cases lo; simp add: occurredIn_def)
  with assms show ?thesis
    by (cases lo) (auto simp: listActiveTransactionsInRange_def book_view book_entry)
qed

lemma book_cashflow: "\<exists>c. cashflowForTransactions (filter P [bookIncome]) = Inr c"
proof -
  have "checkedSumMinor [1000] = Inr 1000" "checkedSumMinor [] = Inr 0" "checkedSubMinor 1000 0 = Inr 1000" "checkedSubMinor 0 0 = Inr 0"
    by (simp_all add: checkedSumMinor_iff checkedSubMinor_iff safeInt_def MAX_SAFE_INTEGER_def le_Suc_eq)
  then show ?thesis by (simp add: cashflowForTransactions_def amountsOf_def book_entry)
qed

lemma mapR_total: "(\<And>x. \<exists>y. f x = Inr y) \<Longrightarrow> \<exists>ys. mapR f xs = Inr ys"
  by (metis mapR_decoded)

lemma book_flows: "\<exists>ps. trendForRanges rs [bookIncome] = Inr ps" "\<exists>ps. mapR (\<lambda>p. periodSummary p (rangeOf r p) [bookIncome]) ns = Inr ps"
proof -
  have flow: "\<exists>y. bindR (cashflowForTransactions (filter P [bookIncome])) (\<lambda>c. Inr (f c)) = Inr y" for P f
    using book_cashflow [of P] by auto
  show "\<exists>ps. trendForRanges rs [bookIncome] = Inr ps" unfolding trendForRanges_def by (rule mapR_total) (rule flow)
  show "\<exists>ps. mapR (\<lambda>p. periodSummary p (rangeOf r p) [bookIncome]) ns = Inr ps"
    by (rule mapR_total) (unfold periodSummary_def, rule flow)
qed

lemma book_categories: "listCategories demoEnv True (stDb book) = Inr [storedCategory bookCategory]"
  "listAccounts demoEnv True (stDb book) = Inr [storedAccount bookAccount]"
  by (simp_all add: listCategories_view [OF book_wf] listAccounts_view [OF book_wf] book_view)

lemma book_slices: "\<exists>e. categorySlicesForTransactions [bookIncome] (mapOfEntries catId [storedCategory bookCategory]) = Inr e"
  using book_sums
  by (simp add: categorySlicesForTransactions_def addToGroup_def book_entry mapOfEntries_def toSlices_def orElse_def)
    (simp add: bookCategory_def)

lemma book_recent: "listRecentActiveTransactionsBefore demoEnv 1700006400000 RECENT_TRANSACTION_LIMIT (stDb book) = Inr [bookIncome]"
  using transactionFromRow_params [OF book_valid(4)] book_entry
  by (simp add: listRecentActiveTransactionsBefore_def RECENT_TRANSACTION_LIMIT_def book_def occurredIn_def groupedExpense_def
      safeInt_def MAX_SAFE_INTEGER_def)

lemma book_bundle: "\<exists>vs. mapM (transactionDtoWithBundle demoEnv) [bookIncome] u = (Inr vs, u)"
  by (simp add: transactionDtoWithBundle_def book_entry run_page split: jsval.split)

lemma book_summary: "\<exists>r. bindR (accountDto (storedAccount bookAccount) 1500) (\<lambda>dto.
     bindR (movementForAccount (storedAccount bookAccount) [bookIncome] \<lparr>startMs = 1698796800000, endMs = 1701388800000\<rparr>) (\<lambda>m. Inr (dto, m))) = Inr r"
  by (simp add: accountDto_def book_terms movementForAccount_def book_entry isWithinRange_def)

lemma book_overview: "\<exists>d t. getOverview demoEnv AllScope None book = (Inr d, t) \<and> ovNetWorthMinor d = 1500"
proof -
  let ?rs = "\<lparr>todayR = \<lparr>startMs = 1699920000000, endMs = 1700006400000\<rparr>, weekR = \<lparr>startMs = 1699833600000, endMs = 1700438400000\<rparr>,
      monthR = \<lparr>startMs = 1698796800000, endMs = 1701388800000\<rparr>, yearR = \<lparr>startMs = 1672531200000, endMs = 1704067200000\<rparr>\<rparr>"
  obtain rs where rs: "calendarMonthRangesForLocalDate demoEnv 12 (js ''2023-11-14'') (js ''UTC'') = Inr rs"
    "startMs (hd rs) = 1669852800000" "endMs (last rs) = 1701388800000" using demo_months by blast
  obtain c ps qs e v r where flows: "cashflowForTransactions [bookIncome] = Inr c" "trendForRanges rs [bookIncome] = Inr ps"
    "mapR (\<lambda>p. periodSummary p (rangeOf ?rs p) [bookIncome]) PERIOD_ORDER = Inr qs"
    and sl: "categorySlicesForTransactions [bookIncome] (mapOfEntries catId [storedCategory bookCategory]) = Inr e"
    and v: "mapM (transactionDtoWithBundle demoEnv) [bookIncome] (book\<lparr>stNow := Suc 0\<rparr>) = (Inr v, book\<lparr>stNow := Suc 0\<rparr>)"
    and r: "bindR (accountDto (storedAccount bookAccount) 1500) (\<lambda>dto.
       bindR (movementForAccount (storedAccount bookAccount) [bookIncome] \<lparr>startMs = 1698796800000, endMs = 1701388800000\<rparr>) (\<lambda>m. Inr (dto, m))) = Inr r"
    using book_cashflow [of "\<lambda>_. True"] book_flows(1) [of rs] book_flows(2) [of ?rs PERIOD_ORDER] book_slices
      book_bundle [of "book\<lparr>stNow := Suc 0\<rparr>"] book_summary by auto
  have totals: "checkedSumMinor [1500] = Inr 1500" "checkedSumMinor [] = Inr 0" "checkedSubMinor 1500 0 = Inr 1500"
    by (simp_all add: checkedSumMinor_iff checkedSubMinor_iff safeInt_def MAX_SAFE_INTEGER_def le_Suc_eq)
  have order: "set PERIOD_ORDER = {Today, Week, Month, Year}" by (auto simp: PERIOD_ORDER_def)
  have safe: "safeInt 1700006400000" "safeInt 1704067200000" "safeInt 1669852800000" by (simp_all add: safeInt_def MAX_SAFE_INTEGER_def)
  show ?thesis
    by (cases e) (simp add: getOverview_def run_page book_state book_terms demo_local resolveAnchorDate_def demo_periods rs
        book_categories book_states book_range safe balancesOf_def totals flows sl v book_recent order r del: mapM.simps)
qed

lemma book_months: "\<exists>ps. getTrend demoEnv 12 None book = (Inr ps, book\<lparr>stNow := Suc 0\<rparr>)"
proof -
  obtain rs where rs: "calendarMonthRangesForLocalDate demoEnv 12 (js ''2023-11-14'') (js ''UTC'') = Inr rs"
    using demo_months by blast
  obtain ps where "trendForRanges rs [bookIncome] = Inr ps" using book_flows(1) by blast
  then show ?thesis
    by (simp add: getTrend_def run_page book_state book_terms demo_local resolveAnchorDate_def rs
        listActiveTransactions_view [OF book_wf] book_view book_entry)
qed

definition bookQuery :: LedgerTransactionQuery where
  "bookQuery = \<lparr>lqType = AllTypes, lqAccountId = None, lqCategoryId = None, lqGroupId = None, lqFrom = None, lqTo = None,
     lqSearch = None, lqIncludeDeleted = False, lqLimit = 50, lqCursor = None, lqOffset = None\<rparr>"

lemma book_page:
  assumes "q = bookQuery \<or> q = bookQuery\<lparr>lqAccountId := Some (js ''a1'')\<rparr>"
  shows "transactionPage demoEnv q False (book\<lparr>stNow := n\<rparr>) =
     (Inr \<lparr>ppRows = [bookIncome], ppPage = \<lparr>pgNextCursor = None, pgSummary = None\<rparr>\<rparr>, book\<lparr>stNow := n\<rparr>)"
proof -
  have small: "safeInt 50" by (simp add: safeInt_def MAX_SAFE_INTEGER_def)
  have touch: "rowTouches (js ''a1'') (transactionParams bookIncome)" using book_entry by simp
  show ?thesis
    using assms transactionFromRow_params [OF book_valid(4)] book_entry touch
    by (auto simp: transactionPage_def run_page normalizeTransactionQuery_def bookQuery_def small LEDGER_LIST_LIMIT_MAX_def
        queryTransactions_def book_def transactionQueryFilter_def filterTypeMatches_def optMatches_def occurredIn_def orElse_def)
qed

lemma book_running:
  "getAccountBalancesAtPositions (balanceAccount (storedAccount bookAccount)) [txPosition bookIncome] (stDb book) = Inr [(js ''t1'', 1500)]"
proof -
  have t: "validBody None (txAmountMinor bookIncome) (txBody bookIncome)" "netEffect (txBody bookIncome) 1000 (js ''a1'') Asset = 1000"
    by (simp_all add: book_entry)
  have nums: "safeInt 500" "safeInt 1000" "dround 1000 = 1000" "safeInt 1690000000000" "safeInt 2000"
    using dround_exact [of 1000] by (simp_all add: safeInt_def MAX_SAFE_INTEGER_def)
  have pos: "txPosition bookIncome = Position 1690000000000 2000 (js ''t1'')"
    by (simp add: txPosition_def bookIncome_def newTransaction_def)
  show ?thesis
    using t nums book_sums book_entry accountTransactionEffect_params [OF t(1), of "js ''a1''" Asset]
      rowPosition_params [of bookIncome]
    by (simp add: getAccountBalancesAtPositions_def aggregateBalance_def accountBalanceFromEffect_def sqlSum_def book_def
        bindR_def failUnless_def assertSafeMinor_def balanceAccount_def book_terms pos)
qed

lemma book_account_page: "\<exists>d t. getAccountTransactions demoEnv (js ''a1'') bookQuery book = (Inr d, t)
   \<and> atTransactionBalances d = [(js ''t1'', 1500)]"
proof -
  obtain v where v: "mapM (transactionDtoWithBundle demoEnv) [bookIncome] (book\<lparr>stNow := Suc 0\<rparr>) = (Inr v, book\<lparr>stNow := Suc 0\<rparr>)"
    using book_bundle by blast
  have safe: "safeInt 1700000000001" "safeInt 1698796800000" "safeInt 1701388800000" by (simp_all add: safeInt_def MAX_SAFE_INTEGER_def)
  have i: "txId bookIncome = js ''t1''" by (simp add: bookIncome_def newTransaction_def)
  show ?thesis
    by (simp add: getAccountTransactions_def run_page book_state book_terms book_balance_before safe book_page book_running
        demo_periods book_window accountDto_def movementForAccount_def transactionBalances_def i v del: mapM.simps)
qed

lemma book_listing: "\<exists>dtos page t. listTransactions demoEnv bookQuery book = (Inr (dtos, page), t)"
proof -
  let ?opts = "wholeQuery bookQuery"
  have small: "safeInt 50" "safeInt 1000" by (simp_all add: safeInt_def MAX_SAFE_INTEGER_def)
  have norm: "normalizeTransactionQuery demoEnv bookQuery = Inr ?opts"
    by (simp add: normalizeTransactionQuery_def bookQuery_def wholeQuery_def small LEDGER_LIST_LIMIT_MAX_def)
  have rows: "filter (transactionQueryFilter (stDb book) ?opts c False) (dbTransactions (stDb book)) = [transactionParams bookIncome]" for c
    using book_entry by (simp add: book_def wholeQuery_def bookQuery_def transactionQueryFilter_def filterTypeMatches_def
        optMatches_def occurredIn_def)
  have "queryTransactions demoEnv ?opts (stDb book) = Inr [bookIncome]"
    using transactionFromRow_params [OF book_valid(4)]
    by (simp add: queryTransactions_def rows orElse_def) (simp add: wholeQuery_def bookQuery_def)
  moreover obtain u where "summarizeTransactions ?opts (stDb book) = Inr u"
  proof -
    have "dround 1000 = 1000" "cellInt (rt_amount_minor (transactionParams bookIncome)) = 1000"
      using dround_exact [of 1000] small book_entry by (simp_all add: transactionParams_def)
    then show thesis using that book_entry
      by (simp add: summarizeTransactions_def rows sqlSum_def small)
  qed
  moreover obtain v where "mapM (transactionDtoWithBundle demoEnv) [bookIncome] book = (Inr v, book)" using book_bundle by blast
  moreover have "qoLimit ?opts = 50" by (simp add: wholeQuery_def bookQuery_def)
  ultimately show ?thesis
    by (simp add: listTransactions_def transactionPage_def run_page book_state norm mapRes_def Let_def del: mapM.simps)
qed

lemma book_request:
  "\<exists>q. parseTransactionCreateRequest demoEnv (JObj [(js ''type'', textValue ''income''), (js ''amountMinor'', JInt 1000),
     (js ''accountId'', textValue ''a1''), (js ''categoryId'', textValue ''c1''), (js ''occurredAt'', JInt 1690000000000)]) = Inr q"
  by (simp cong: run_congs let_weak_cong add: run_simps parseTransactionCreateRequest_def parseIncomeOrExpenseCreate_def
      parseTransactionType_def LEDGER_TRANSACTION_TYPES_def parseAmountMinor_def parsePositiveInteger_def
      parseSafeInteger_def requireNonEmptyId_def parseOccurredAt_def
      parseLocation_def parsePayee_def parseNote_def optionalString_def validateLength_def
      LEDGER_LOCATION_MAX_LENGTH_def LEDGER_PAYEE_MAX_LENGTH_def LEDGER_NOTE_MAX_LENGTH_def del: js_inject js_Nil)

section \<open>Two pages\<close>

text \<open>Two transactions listed one by one, on a host whose cursors are the texts \<open>c1\<close> and \<open>c2\<close>.\<close>

definition laterIncome :: LedgerTransaction where
  "laterIncome = newTransaction (js ''t2'') None 1000 1695000000000 [] [] 2000 (Income (js ''a1'') (js ''c1'') [])"

definition cursorObject :: "LedgerTransaction \<Rightarrow> jsval" where
  "cursorObject t = JObj [(js ''v'', JInt 1), (js ''occurredAt'', JInt (txOccurredAt t)),
     (js ''createdAt'', JInt (txCreatedAt t)), (js ''id'', JStr (txId t))]"

definition pagesEnv :: ledger_env where
  "pagesEnv = demoEnv\<lparr>base64url := (\<lambda>x. if x = cursorText bookIncome then js ''c1'' else js ''c2''),
     fromBase64url := (\<lambda>y. Some (cursorText (if y = js ''c1'' then bookIncome else laterIncome))),
     jsonParse := (\<lambda>x. Some (cursorObject (if x = cursorText bookIncome then bookIncome else laterIncome)))\<rparr>"

definition pagesState :: ledger_state where
  "pagesState = initial_state\<lparr>stDb := empty_db\<lparr>dbTransactions := [transactionParams bookIncome, transactionParams laterIncome]\<rparr>\<rparr>"

lemma pages_texts: "cursorText laterIncome \<noteq> cursorText bookIncome"
proof -
  have "intText 1690000000000 = [49, 54, 57, 48, 48, 48, 48, 48, 48, 48, 48, 48, 48]"
    "intText 1695000000000 = [49, 54, 57, 53, 48, 48, 48, 48, 48, 48, 48, 48, 48]"
    by (simp_all add: intText_def natText.simps)
  then show ?thesis by (simp add: cursorText_def laterIncome_def bookIncome_def newTransaction_def)
qed

lemma pages_codec: "cursorCodec pagesEnv bookIncome" "cursorCodec pagesEnv laterIncome"
proof -
  have chars: "list_all base64urlChar (js ''c1'')" "list_all base64urlChar (js ''c2'')" by code_simp+
  show "cursorCodec pagesEnv bookIncome" "cursorCodec pagesEnv laterIncome"
    unfolding cursorCodec_def cursorObject_def [symmetric] using pages_texts chars by (simp_all add: pagesEnv_def)
qed

lemma pages_valid: "valid_tx pagesEnv bookIncome" "valid_tx pagesEnv laterIncome"
proof -
  have "utcOk pagesEnv 2000" "utcOk pagesEnv 1690000000000" "utcOk pagesEnv 1695000000000" "safeInt 1000"
    by (simp_all add: utcOk_def pagesEnv_def run_host safeInt_def MAX_SAFE_INTEGER_def)
  then show "valid_tx pagesEnv bookIncome" "valid_tx pagesEnv laterIncome"
    by (simp_all add: bookIncome_def laterIncome_def valid_newTransaction)
qed

lemma pages_wf: "wf_db pagesEnv (stDb pagesState)"
  using transactionFromRow_params [OF pages_valid(1)] transactionFromRow_params [OF pages_valid(2)]
  by (simp add: wf_db_def pagesState_def accounts.stored_def categories.stored_def transactions.stored_def empty_db_def)

lemma pages_view: "lvTransactions (view pagesEnv (stDb pagesState)) = [bookIncome, laterIncome]"
  using transactionFromRow_params [OF pages_valid(1)] transactionFromRow_params [OF pages_valid(2)]
  by (simp add: view_def pagesState_def decoded_eq)

lemma pages_listing: "wholeListing pagesEnv (bookQuery\<lparr>lqLimit := 1\<rparr>) (stDb pagesState) = [laterIncome, bookIncome]"
proof -
  have "rowPosition (transactionParams bookIncome) < rowPosition (transactionParams laterIncome)"
    unfolding rowPosition_params by (simp add: txPosition_def bookIncome_def laterIncome_def newTransaction_def less_position_def)
  moreover have "activeTx laterIncome" by (simp add: laterIncome_def newTransaction_def activeTx_def)
  ultimately show ?thesis
    using transactionFromRow_params [OF pages_valid(1)] transactionFromRow_params [OF pages_valid(2)] book_entry
    by (simp add: wholeListing_def wholeRows_def pagesState_def wholeQuery_def bookQuery_def transactionQueryFilter_def
        filterTypeMatches_def optMatches_def occurredIn_def transactionOrder_def decoded_eq)
qed

end
