(* ===== verification/Versions.thy ===== *)
theory Versions
  imports LedgerHistory
begin

text \<open>
  Optimistic concurrency: every command of the API carries the version its sender has seen, and it
  succeeds only on an object that still has that version; the busy lock is answered before anything
  is read.
\<close>

section \<open>Expected versions\<close>

definition statesVersion :: "jsval \<Rightarrow> int \<Rightarrow> bool" where
  "statesVersion value version \<longleftrightarrow> (\<exists>r. value = JObj r \<and> parseExpectedVersion r = Inr version)"

lemma command_states: "parseExpectedVersionCommand v = Inr w \<Longrightarrow> statesVersion v w"
  by (cases v) (auto simp: parseExpectedVersionCommand_def asRecord_def statesVersion_def led_simps)

lemma patch_states:
  "parseAccountPatchRequest env v = Inr ap \<Longrightarrow> statesVersion v (apExpectedVersion ap)"
  "parseCategoryPatchRequest v = Inr cp \<Longrightarrow> statesVersion v (cpExpectedVersion cp)"
  "parseSettingsPatchRequest env v = Inr sp \<Longrightarrow> statesVersion v (spExpectedVersion sp)"
  "parseTransactionPatchRequest env v = Inr tp \<Longrightarrow> statesVersion v (tpExpectedVersion tp)"
  by (cases v; auto simp: parseAccountPatchRequest_def parseCategoryPatchRequest_def parseSettingsPatchRequest_def
      parseTransactionPatchRequest_def asRecord_def statesVersion_def led_simps Let_def)+

text \<open>The object a command is about: its version in a view.\<close>

fun targetVersion :: "ledger_request \<Rightarrow> ledger_view \<Rightarrow> int option" where
  "targetVersion (SettingsRequest (PatchSettings _)) v = map_option setVersion (lvSettings v)"
| "targetVersion (AccountRequest (PatchAccount i _)) v = map_option accVersion (accountOf v i)"
| "targetVersion (AccountRequest (PostAccountArchive i _)) v = map_option accVersion (accountOf v i)"
| "targetVersion (AccountRequest (PostAccountRestore i _)) v = map_option accVersion (accountOf v i)"
| "targetVersion (AccountRequest (DeleteAccount i _)) v = map_option accVersion (accountOf v i)"
| "targetVersion (CategoryRequest (PatchCategory i _)) v = map_option catVersion (categoryOf v i)"
| "targetVersion (CategoryRequest (PostCategoryArchive i _)) v = map_option catVersion (categoryOf v i)"
| "targetVersion (CategoryRequest (PostCategoryRestore i _)) v = map_option catVersion (categoryOf v i)"
| "targetVersion (CategoryRequest (DeleteCategory i _)) v = map_option catVersion (categoryOf v i)"
| "targetVersion (TransactionRequest (PatchTransaction i _)) v = map_option txVersion (find (\<lambda>t. txId t = i) (lvTransactions v))"
| "targetVersion _ v = None"

fun commandBody :: "ledger_request \<Rightarrow> jsval option option" where
  "commandBody (SettingsRequest (PatchSettings b)) = Some b"
| "commandBody (AccountRequest (PatchAccount _ b)) = Some b"
| "commandBody (AccountRequest (PostAccountArchive _ b)) = Some b"
| "commandBody (AccountRequest (PostAccountRestore _ b)) = Some b"
| "commandBody (AccountRequest (DeleteAccount _ b)) = Some b"
| "commandBody (CategoryRequest (PatchCategory _ b)) = Some b"
| "commandBody (CategoryRequest (PostCategoryArchive _ b)) = Some b"
| "commandBody (CategoryRequest (PostCategoryRestore _ b)) = Some b"
| "commandBody (CategoryRequest (DeleteCategory _ b)) = Some b"
| "commandBody (TransactionRequest (PatchTransaction _ b)) = Some b"
| "commandBody (TransactionRequest (DeleteTransaction _ b)) = Some b"
| "commandBody _ = None"

text \<open>A write transaction that returned has run its callback on the same database.\<close>

lemma committed_run:
  assumes "good env s" "\<not> stInTransaction s" "runLedgerWrite env f s = (Inr a, t)"
  shows "\<exists>s' u. good env s' \<and> stDb s' = stDb s \<and> f s' = (Inr a, u)"
proof -
  let ?s = "s\<lparr>stBegins := Suc (stBegins s), stInTransaction := True\<rparr>"
  obtain u where "f ?s = (Inr a, u)" using runLedgerWrite_commit [OF assms(2,3)] by blast
  moreover have "good env ?s" "stDb ?s = stDb s" using assms(1) by simp_all
  ultimately show ?thesis by blast
qed

lemma settings_version:
  assumes "good env s" "\<not> stInTransaction s" "patchSettings env v s = (Inr r, t)"
  shows "\<exists>x. lvSettings (view env (stDb s)) = Some x \<and> statesVersion v (setVersion x)"
  using committed_run [OF assms(1,2) assms(3) [unfolded patchSettings_def]]
  by (auto simp: led_simps Let_def dest: patch_states(3))

lemma account_version:
  assumes g: "good env s" "\<not> stInTransaction s"
    and run: "patchAccount env i v s = (Inr r, t) \<or> archiveAccount env i v s = (Inr r, t)
      \<or> restoreAccount env i v s = (Inr r, t) \<or> deleteAccountCommand env i v s = (Inr r, t)"
  shows "\<exists>a. accountOf (view env (stDb s)) i = Some a \<and> statesVersion v (accVersion a)"
  using run
proof (elim disjE)
  assume "patchAccount env i v s = (Inr r, t)"
  from committed_run [OF g this [unfolded patchAccount_def]] show ?thesis
    by (auto simp: led_simps Let_def dest: patch_states(1))
next
  assume "archiveAccount env i v s = (Inr r, t)"
  from committed_run [OF g this [unfolded archiveAccount_def]] show ?thesis
    by (auto simp: led_simps Let_def dest: command_states)
next
  assume "restoreAccount env i v s = (Inr r, t)"
  from committed_run [OF g this [unfolded restoreAccount_def]] show ?thesis
    by (auto simp: led_simps Let_def dest: command_states)
next
  assume "deleteAccountCommand env i v s = (Inr r, t)"
  from committed_run [OF g this [unfolded deleteAccountCommand_def]] show ?thesis
    by (auto simp: led_simps Let_def dest: command_states)
qed

lemma category_version:
  assumes g: "good env s" "\<not> stInTransaction s"
    and run: "patchCategory env i v s = (Inr r, t) \<or> archiveCategory env i v s = (Inr r, t)
      \<or> restoreCategory env i v s = (Inr r, t) \<or> deleteCategoryCommand env i v s = (Inr r, t)"
  shows "\<exists>c. categoryOf (view env (stDb s)) i = Some c \<and> statesVersion v (catVersion c)"
  using run
proof (elim disjE)
  assume "patchCategory env i v s = (Inr r, t)"
  from committed_run [OF g this [unfolded patchCategory_def]] show ?thesis
    by (auto simp: led_simps Let_def dest: patch_states(2))
next
  assume "archiveCategory env i v s = (Inr r, t)"
  from committed_run [OF g this [unfolded archiveCategory_def]] show ?thesis
    by (auto simp: led_simps Let_def dest: command_states)
next
  assume "restoreCategory env i v s = (Inr r, t)"
  from committed_run [OF g this [unfolded restoreCategory_def]] show ?thesis
    by (auto simp: led_simps Let_def dest: command_states)
next
  assume "deleteCategoryCommand env i v s = (Inr r, t)"
  from committed_run [OF g this [unfolded deleteCategoryCommand_def]] show ?thesis
    by (auto simp: led_simps Let_def dest: command_states)
qed

lemma transaction_version:
  assumes g: "good env s" "\<not> stInTransaction s" and run: "patchTransaction env i v s = (Inr r, t)"
  shows "\<exists>x. find (\<lambda>x. txId x = i) (lvTransactions (view env (stDb s))) = Some x \<and> statesVersion v (txVersion x)"
proof -
  from committed_run [OF g run [unfolded patchTransaction_def]] obtain s' u where
    s': "good env s'" "stDb s' = stDb s"
    and run': "\<exists>x w y. find (\<lambda>x. txId x = i) (lvTransactions (view env (stDb s'))) = Some x
      \<and> parseTransactionPatchRequest env v = Inr y \<and> tpExpectedVersion y = txVersion x"
    by (auto simp: led_simps)
  then show ?thesis by (auto dest: patch_states(4))
qed

lemma rawRoute_run: "rawRoute f b s = (Inr r, t) \<Longrightarrow> \<exists>v a. b = Some v \<and> f v s = (Inr a, t)"
  by (cases b) (auto simp: rawRoute_def readLedgerJson_def led_simps)

lemma command_version:
  assumes g: "good env s" "\<not> stInTransaction s" and run: "ledgerRoute env q s = (Inr r, t)"
    and target: "commandBody q = Some b" "\<not> (\<exists>i b'. q = TransactionRequest (DeleteTransaction i b'))"
  shows "\<exists>v w. b = Some v \<and> targetVersion q (view env (stDb s)) = Some w \<and> statesVersion v w"
  using run target
  by (cases q rule: commandBody.cases)
    (auto dest!: rawRoute_run settings_version [OF g] transaction_version [OF g]
       account_version [OF g, OF disjI1] account_version [OF g, OF disjI2, OF disjI1]
       account_version [OF g, OF disjI2, OF disjI2, OF disjI1] account_version [OF g, OF disjI2, OF disjI2, OF disjI2]
       category_version [OF g, OF disjI1] category_version [OF g, OF disjI2, OF disjI1]
       category_version [OF g, OF disjI2, OF disjI2, OF disjI1] category_version [OF g, OF disjI2, OF disjI2, OF disjI2])

section \<open>The busy lock\<close>

text \<open>A write answers the retryable error when \<open>BEGIN IMMEDIATE\<close> does not get the lock.\<close>

lemma busy_write:
  assumes "\<not> stInTransaction s" "writeLockBusy env (stBegins s)"
  shows "runLedgerWrite env f s = (Inl ledgerWriteBusyError, s\<lparr>stBegins := Suc (stBegins s)\<rparr>)"
  using assms by (simp add: runLedgerWrite_def mapBusy_def)

lemma busy_command:
  assumes "commandBody q = Some (Some v)" "\<not> stInTransaction s" "writeLockBusy env (stBegins s)"
  shows "respond env q s = (ErrorResponse 503 (Some LWriteBusy), s\<lparr>stBegins := Suc (stBegins s)\<rparr>)"
proof -
  note busy = busy_write [OF assms(2,3)]
  have "ledgerRoute env q s = (Inl ledgerWriteBusyError, s\<lparr>stBegins := Suc (stBegins s)\<rparr>)"
    using assms(1)
    by (cases q rule: commandBody.cases)
      (simp_all add: rawRoute_def readLedgerJson_def bnd_def liftR_def busy patchSettings_def patchAccount_def
        archiveAccount_def restoreAccount_def deleteAccountCommand_def patchCategory_def archiveCategory_def
        restoreCategory_def deleteCategoryCommand_def patchTransaction_def deleteTransaction_def)
  then show ?thesis by (simp add: respond_def withLedgerErrors_def ledgerErrorResponse_def ledgerWriteBusyError_def)
qed

end
