(* ===== verification/JsMap.thy ===== *)
theory JsMap
  imports Main
begin

text \<open>
  The \<open>Map\<close> of JavaScript: keys in the order of their first insertion, a \<open>set\<close> on a present key
  keeping its place. The classes of \<open>src/server/auth\<close> keep their state in such maps and iterate
  over them. The contract the clients use is the locale \<open>js_map\<close>; the association lists of the model
  are its interpretation.
\<close>

section \<open>The contract\<close>

locale js_map =
  fixes get :: "'m \<Rightarrow> 'k \<Rightarrow> 'v option"
    and put :: "'k \<Rightarrow> 'v \<Rightarrow> 'm \<Rightarrow> 'm"
    and del :: "'k \<Rightarrow> 'm \<Rightarrow> 'm"
    and keys :: "'m \<Rightarrow> 'k list"
  assumes get_put: "get (put k v m) = (get m)(k \<mapsto> v)"
    and get_del: "get (del k m) = (get m)(k := None)"
    and keys_put: "keys (put k v m) = (if k \<in> set (keys m) then keys m else keys m @ [k])"
    and keys_del: "keys (del k m) = filter (\<lambda>x. x \<noteq> k) (keys m)"
    and dom_get: "dom (get m) = set (keys m)"
begin

lemma distinct_put: "distinct (keys m) \<Longrightarrow> distinct (keys (put k v m))"
  by (simp add: keys_put)

lemma distinct_del: "distinct (keys m) \<Longrightarrow> distinct (keys (del k m))"
  by (simp add: keys_del)

lemma size_put: "length (keys (put k v m)) \<le> Suc (length (keys m))"
  by (simp add: keys_put)

lemma size_del: "k \<in> set (keys m) \<Longrightarrow> length (keys (del k m)) < length (keys m)"
  by (simp add: keys_del) (metis (mono_tags, lifting) length_filter_less)

lemma present: "k \<in> set (keys m) \<longleftrightarrow> (\<exists>v. get m k = Some v)"
  using dom_get [of m] by (auto simp: dom_def)

lemma put_present: "k \<in> set (keys m) \<Longrightarrow> keys (put k v m) = keys m"
  by (simp add: keys_put)

end

section \<open>Association lists in insertion order\<close>

fun mapSet :: "'k \<Rightarrow> 'v \<Rightarrow> ('k \<times> 'v) list \<Rightarrow> ('k \<times> 'v) list" where
  "mapSet k v [] = [(k, v)]"
| "mapSet k v ((k', v') # m) = (if k = k' then (k, v) # m else (k', v') # mapSet k v m)"

definition mapDelete :: "'k \<Rightarrow> ('k \<times> 'v) list \<Rightarrow> ('k \<times> 'v) list" where
  "mapDelete k m = filter (\<lambda>p. fst p \<noteq> k) m"

definition mapKeys :: "('k \<times> 'v) list \<Rightarrow> 'k list" where
  "mapKeys m = map fst m"

lemma map_of_mapSet: "map_of (mapSet k v m) = (map_of m)(k \<mapsto> v)"
  by (induction k v m rule: mapSet.induct) auto

lemma map_of_mapDelete: "map_of (mapDelete k m) = (map_of m)(k := None)"
  by (induction m) (auto simp: mapDelete_def fun_eq_iff)

interpretation jm: js_map map_of mapSet mapDelete mapKeys
proof (unfold_locales, goal_cases)
  case (1 k v m) show ?case by (rule map_of_mapSet)
next
  case (2 k m) show ?case by (rule map_of_mapDelete)
next
  case (3 k v m) show ?case unfolding mapKeys_def by (induction k v m rule: mapSet.induct) auto
next
  case (4 k m) show ?case by (induction m) (auto simp: mapKeys_def mapDelete_def)
next
  case (5 m) show ?case by (simp add: mapKeys_def dom_map_of_conv_image_fst)
qed

lemma length_mapKeys [simp]: "length (mapKeys m) = length m"
  by (simp add: mapKeys_def)

lemma map_of_filter_distinct:
  "distinct (mapKeys m) \<Longrightarrow>
   map_of (filter P m) k = (case map_of m k of None \<Rightarrow> None | Some v \<Rightarrow> if P (k, v) then Some v else None)"
proof (induction m)
  case (Cons p m)
  obtain a v where p: "p = (a, v)" by (cases p)
  have "map_of m a = None" using Cons.prems by (simp add: p mapKeys_def map_of_eq_None_iff)
  with Cons show ?case by (auto simp: p mapKeys_def split: option.splits)
qed (simp add: mapKeys_def)

lemma distinct_filter_keys: "distinct (mapKeys m) \<Longrightarrow> distinct (mapKeys (filter P m))"
  by (induction m) (auto simp: mapKeys_def)

end
