(* ===== verification/RateLimit.thy ===== *)
theory RateLimit
  imports Prelude JsMap
begin

text \<open>
  \<open>src/server/auth/rateLimit.ts\<close>: the accounting of failed authentication attempts. A limiter keeps at
  most \<open>maxBuckets\<close> buckets, one per key, and answers each failure with the time the caller should
  ask the client to wait: nothing below the threshold, then a delay that doubles with every failure up to
  a maximum. Times are milliseconds read from \<open>Date.now\<close>, which are integers.

  The section on keys shows that the shared map is an implementation detail: with a clock that does not
  run backwards and at most \<open>maxBuckets\<close> keys, pruning and sharing are not observable, and every key is
  answered as if it had a counter of its own.
\<close>

section \<open>State\<close>

record Bucket =
  failures :: nat
  firstFailureAt :: int
  lastFailureAt :: int
  blockedUntil :: int

record FailureRecord =
  frFailures :: nat
  frRetryAfterMs :: int

record AuthRateLimiter =
  windowMs :: int
  threshold :: int
  maxDelayMs :: int
  maxBuckets :: int
  baseRetryMs :: int
  buckets :: "(jsstr \<times> Bucket) list"

record RateLimiterOptions =
  optWindowMs :: "jsval option"
  optThreshold :: "jsval option"
  optMaxDelayMs :: "jsval option"
  optMaxBuckets :: "jsval option"
  optBaseRetryMs :: "jsval option"

definition AUTH_FAILURE_WINDOW_MS :: int where "AUTH_FAILURE_WINDOW_MS = 5 * 60 * 1000"
definition AUTH_FAILURE_THRESHOLD :: int where "AUTH_FAILURE_THRESHOLD = 5"
definition AUTH_MAX_DELAY_MS :: int where "AUTH_MAX_DELAY_MS = 15 * 60 * 1000"
definition AUTH_MAX_BUCKETS :: int where "AUTH_MAX_BUCKETS = 256"
definition AUTH_BASE_RETRY_MS :: int where "AUTH_BASE_RETRY_MS = 1000"
definition SETUP_FAILURE_WINDOW_MS :: int where "SETUP_FAILURE_WINDOW_MS = 60 * 1000"
definition SETUP_FAILURE_THRESHOLD :: int where "SETUP_FAILURE_THRESHOLD = 3"
definition SETUP_MAX_BUCKETS :: int where "SETUP_MAX_BUCKETS = 64"
definition SETUP_BASE_RETRY_MS :: int where "SETUP_BASE_RETRY_MS = AUTH_BASE_RETRY_MS"
definition SETUP_MAX_DELAY_MS :: int where "SETUP_MAX_DELAY_MS = AUTH_MAX_DELAY_MS"

lemmas rate_constants =
  AUTH_FAILURE_WINDOW_MS_def AUTH_FAILURE_THRESHOLD_def AUTH_MAX_DELAY_MS_def AUTH_MAX_BUCKETS_def
  AUTH_BASE_RETRY_MS_def SETUP_FAILURE_WINDOW_MS_def SETUP_FAILURE_THRESHOLD_def SETUP_MAX_BUCKETS_def
  SETUP_BASE_RETRY_MS_def SETUP_MAX_DELAY_MS_def

section \<open>Operations\<close>

text \<open>\<open>positiveInteger\<close>; \<open>None\<close> is the \<open>RangeError\<close>.\<close>

fun positiveInteger :: "jsval \<Rightarrow> int option" where
  "positiveInteger (JInt i) = (if i < 1 then None else Some i)"
| "positiveInteger _ = None"

definition optionOr :: "jsval option \<Rightarrow> int \<Rightarrow> int option" where
  "optionOr v fallback = positiveInteger (case v of None \<Rightarrow> JInt fallback | Some x \<Rightarrow> x)"

definition createAuthRateLimiter :: "RateLimiterOptions \<Rightarrow> AuthRateLimiter option" where
  "createAuthRateLimiter opts =
     (case optionOr (optWindowMs opts) AUTH_FAILURE_WINDOW_MS of None \<Rightarrow> None | Some w \<Rightarrow>
      case optionOr (optThreshold opts) AUTH_FAILURE_THRESHOLD of None \<Rightarrow> None | Some t \<Rightarrow>
      case optionOr (optMaxDelayMs opts) AUTH_MAX_DELAY_MS of None \<Rightarrow> None | Some d \<Rightarrow>
      case optionOr (optMaxBuckets opts) AUTH_MAX_BUCKETS of None \<Rightarrow> None | Some n \<Rightarrow>
      case optionOr (optBaseRetryMs opts) AUTH_BASE_RETRY_MS of None \<Rightarrow> None | Some b \<Rightarrow>
      Some \<lparr>windowMs = w, threshold = t, maxDelayMs = d, maxBuckets = n, baseRetryMs = b, buckets = []\<rparr>)"

definition normalizeKey :: "jsstr \<Rightarrow> jsstr" where
  "normalizeKey key = (if key \<noteq> [] then key else js ''<invalid>'')"

definition stale :: "AuthRateLimiter \<Rightarrow> int \<Rightarrow> Bucket \<Rightarrow> bool" where
  "stale l now b \<longleftrightarrow> now - lastFailureAt b \<ge> windowMs l \<and> blockedUntil b \<le> now"

definition prune :: "AuthRateLimiter \<Rightarrow> int \<Rightarrow> AuthRateLimiter" where
  "prune l now = l\<lparr>buckets := filter (\<lambda>(k, b). \<not> stale l now b) (buckets l)\<rparr>"

text \<open>The loop of \<open>enforceBound\<close> over the map: the first key with the smallest \<open>lastFailureAt\<close>.\<close>

fun oldestOf :: "(jsstr \<times> int) option \<Rightarrow> (jsstr \<times> Bucket) list \<Rightarrow> (jsstr \<times> int) option" where
  "oldestOf best [] = best"
| "oldestOf best ((k, b) # m) = oldestOf
     (case best of None \<Rightarrow> Some (k, lastFailureAt b)
      | Some (k0, t0) \<Rightarrow> if lastFailureAt b < t0 then Some (k, lastFailureAt b) else best) m"

lemma oldestOf_member:
  "oldestOf best m = Some (k, t) \<Longrightarrow> best = Some (k, t) \<or> (\<exists>b. (k, b) \<in> set m \<and> t = lastFailureAt b)"
  by (induction best m rule: oldestOf.induct) (fastforce split: option.splits if_splits prod.splits)+

lemma oldestOf_shrinks: "oldestOf None m = Some (k, t) \<Longrightarrow> length (mapDelete k m) < length m"
proof -
  assume "oldestOf None m = Some (k, t)"
  then have "k \<in> set (mapKeys m)" using oldestOf_member [of None m k t] by (force simp: mapKeys_def)
  then show ?thesis using jm.size_del [of k m] by simp
qed

function enforceBound :: "int \<Rightarrow> (jsstr \<times> Bucket) list \<Rightarrow> (jsstr \<times> Bucket) list" where
  "enforceBound n m = (if int (length m) > n
     then (case oldestOf None m of None \<Rightarrow> m | Some (k, _) \<Rightarrow> enforceBound n (mapDelete k m))
     else m)"
  by pat_completeness auto

termination
  by (relation "measure (\<lambda>(n, m). length m)") (auto dest: oldestOf_shrinks)

declare enforceBound.simps [simp del]

text \<open>\<open>recordFailure\<close> up to the bound: the bucket the failure is counted in.\<close>

definition freshBucket :: "int \<Rightarrow> Bucket" where
  "freshBucket now = \<lparr>failures = 0, firstFailureAt = now, lastFailureAt = now, blockedUntil = 0\<rparr>"

definition countedIn :: "AuthRateLimiter \<Rightarrow> Bucket option \<Rightarrow> int \<Rightarrow> Bucket" where
  "countedIn l found now =
     (let bucket = (case found of None \<Rightarrow> freshBucket now
        | Some b \<Rightarrow> if now - firstFailureAt b \<ge> windowMs l \<and> blockedUntil b \<le> now then freshBucket now else b)
      in bucket\<lparr>failures := Suc (failures bucket), lastFailureAt := now\<rparr>)"

definition delayFor :: "AuthRateLimiter \<Rightarrow> nat \<Rightarrow> int" where
  "delayFor l n = (if int n \<ge> threshold l
     then min (maxDelayMs l) (baseRetryMs l * 2 ^ nat (max 0 (int n - threshold l))) else 0)"

definition penalised :: "AuthRateLimiter \<Rightarrow> int \<Rightarrow> Bucket \<Rightarrow> Bucket" where
  "penalised l now b =
     (let newlyCalculatedDelayMs = delayFor l (failures b) in
      if newlyCalculatedDelayMs > 0
      then b\<lparr>blockedUntil := max (blockedUntil b) (now + newlyCalculatedDelayMs)\<rparr>
      else if blockedUntil b \<le> now then b\<lparr>blockedUntil := 0\<rparr> else b)"

definition failureRecord :: "int \<Rightarrow> Bucket \<Rightarrow> FailureRecord" where
  "failureRecord now b = \<lparr>frFailures = failures b, frRetryAfterMs = max 0 (blockedUntil b - now)\<rparr>"

text \<open>
  The bucket is an object shared with the map: what is written after \<open>enforceBound\<close> reaches the map only
  while the key is still in it.
\<close>

definition recordFailure :: "AuthRateLimiter \<Rightarrow> jsstr \<Rightarrow> int \<Rightarrow> AuthRateLimiter \<times> FailureRecord" where
  "recordFailure l key now =
     (let l1 = prune l now; k = normalizeKey key;
          bucket = countedIn l1 (map_of (buckets l1) k) now;
          m = enforceBound (maxBuckets l1) (mapSet k bucket (buckets l1));
          b = penalised l1 now bucket
      in (l1\<lparr>buckets := (if k \<in> set (mapKeys m) then mapSet k b m else m)\<rparr>, failureRecord now b))"

definition reset :: "AuthRateLimiter \<Rightarrow> jsstr \<Rightarrow> AuthRateLimiter" where
  "reset l key = l\<lparr>buckets := mapDelete (normalizeKey key) (buckets l)\<rparr>"

definition retryAfter :: "AuthRateLimiter \<Rightarrow> jsstr \<Rightarrow> int \<Rightarrow> int" where
  "retryAfter l key now = (case map_of (buckets l) (normalizeKey key) of
     None \<Rightarrow> 0 | Some b \<Rightarrow> max 0 (blockedUntil b - now))"

section \<open>The bound\<close>

definition limiter_ok :: "AuthRateLimiter \<Rightarrow> bool" where
  "limiter_ok l \<longleftrightarrow> 1 \<le> windowMs l \<and> 1 \<le> threshold l \<and> 1 \<le> maxDelayMs l \<and> 1 \<le> maxBuckets l
     \<and> 1 \<le> baseRetryMs l \<and> distinct (mapKeys (buckets l)) \<and> int (length (buckets l)) \<le> maxBuckets l"

lemma positiveInteger_Some: "positiveInteger v = Some i \<Longrightarrow> 1 \<le> i"
  by (cases v) (auto split: if_splits)

lemma optionOr_Some: "optionOr v i = Some j \<Longrightarrow> 1 \<le> j"
  by (auto simp: optionOr_def dest: positiveInteger_Some)

lemma createAuthRateLimiter_ok:
  assumes "createAuthRateLimiter opts = Some l" shows "limiter_ok l \<and> buckets l = []"
  using assms unfolding createAuthRateLimiter_def limiter_ok_def mapKeys_def
  by (auto split: option.split_asm dest: optionOr_Some)

lemma oldestOf_exists: "best \<noteq> None \<or> m \<noteq> [] \<Longrightarrow> oldestOf best m \<noteq> None"
  by (induction best m rule: oldestOf.induct) (auto split: option.splits)

lemma enforceBound_length: "0 \<le> n \<Longrightarrow> int (length (enforceBound n m)) \<le> n"
proof (induction n m rule: enforceBound.induct)
  case (1 n m)
  show ?case
  proof (cases "int (length m) > n")
    case True
    with \<open>0 \<le> n\<close> have "m \<noteq> []" by auto
    then obtain k t where o: "oldestOf None m = Some (k, t)" using oldestOf_exists [of None m] by fastforce
    show ?thesis using "1.IH" [OF True o refl \<open>0 \<le> n\<close>] True o by (subst enforceBound.simps) simp
  qed (simp add: enforceBound.simps)
qed

lemma enforceBound_distinct: "distinct (mapKeys m) \<Longrightarrow> distinct (mapKeys (enforceBound n m))"
proof (induction n m rule: enforceBound.induct)
  case (1 n m)
  show ?case
  proof (cases "int (length m) > n")
    case True
    then show ?thesis
    proof (cases "oldestOf None m")
      case (Some p)
      obtain k t where p: "p = (k, t)" by (cases p)
      show ?thesis
        using "1.IH" [OF True Some p [symmetric] jm.distinct_del [OF "1.prems"]] True Some p by (subst enforceBound.simps) simp
    qed (use "1.prems" in \<open>simp add: enforceBound.simps\<close>)
  qed (use "1.prems" in \<open>simp add: enforceBound.simps\<close>)
qed

lemma enforceBound_id: "int (length m) \<le> n \<Longrightarrow> enforceBound n m = m"
  by (simp add: enforceBound.simps)

lemma recordFailure_config [simp]:
  "windowMs (fst (recordFailure l k t)) = windowMs l" "threshold (fst (recordFailure l k t)) = threshold l"
  "maxDelayMs (fst (recordFailure l k t)) = maxDelayMs l" "maxBuckets (fst (recordFailure l k t)) = maxBuckets l"
  "baseRetryMs (fst (recordFailure l k t)) = baseRetryMs l"
  by (simp_all add: recordFailure_def prune_def Let_def)

lemma recordFailure_ok:
  assumes "limiter_ok l" shows "limiter_ok (fst (recordFailure l k t))"
proof -
  let ?l = "prune l t" and ?k = "normalizeKey k"
  let ?m = "enforceBound (maxBuckets ?l) (mapSet ?k (countedIn ?l (map_of (buckets ?l) ?k) t) (buckets ?l))"
  have pr: "distinct (mapKeys (buckets ?l))" "maxBuckets ?l = maxBuckets l"
    using assms by (simp_all add: prune_def limiter_ok_def distinct_filter_keys)
  have m: "distinct (mapKeys ?m)" "int (length ?m) \<le> maxBuckets l"
    using pr assms enforceBound_length [of "maxBuckets l"]
    by (simp_all add: enforceBound_distinct jm.distinct_put limiter_ok_def)
  have "buckets (fst (recordFailure l k t)) = ?m
      \<or> (\<exists>b. ?k \<in> set (mapKeys ?m) \<and> buckets (fst (recordFailure l k t)) = mapSet ?k b ?m)"
    by (auto simp: recordFailure_def Let_def)
  then have "distinct (mapKeys (buckets (fst (recordFailure l k t))))
      \<and> length (buckets (fst (recordFailure l k t))) = length ?m"
    using m(1) jm.put_present [of ?k ?m] jm.distinct_put [of ?m] by (metis length_mapKeys)
  with m(2) assms show ?thesis by (simp add: limiter_ok_def)
qed

lemma reset_ok: "limiter_ok l \<Longrightarrow> limiter_ok (reset l k)"
  by (auto simp: limiter_ok_def reset_def jm.distinct_del mapDelete_def intro: order_trans
      [OF of_nat_mono [OF length_filter_le]])
     (metis jm.distinct_del mapDelete_def)

section \<open>One counter per key\<close>

text \<open>What a key would see if it had a bucket of its own.\<close>

definition ownStep :: "AuthRateLimiter \<Rightarrow> Bucket option \<Rightarrow> int \<Rightarrow> Bucket" where
  "ownStep l found now = penalised l now (countedIn l found now)"

definition ownBucket :: "AuthRateLimiter \<Rightarrow> int list \<Rightarrow> Bucket option" where
  "ownBucket l ts = foldl (\<lambda>b t. Some (ownStep l b t)) None ts"

lemma ownBucket_snoc [simp]: "ownBucket l (ts @ [t]) = Some (ownStep l (ownBucket l ts) t)"
  by (simp add: ownBucket_def)

lemma ownBucket_Nil [simp]: "ownBucket l [] = None"
  by (simp add: ownBucket_def)

definition same_limits :: "AuthRateLimiter \<Rightarrow> AuthRateLimiter \<Rightarrow> bool" where
  "same_limits l l' \<longleftrightarrow> windowMs l' = windowMs l \<and> threshold l' = threshold l \<and> maxDelayMs l' = maxDelayMs l
     \<and> maxBuckets l' = maxBuckets l \<and> baseRetryMs l' = baseRetryMs l"

lemma same_limits_step:
  assumes "same_limits l l'"
  shows "countedIn l' = countedIn l" "delayFor l' = delayFor l" "penalised l' = penalised l"
    "stale l' = stale l" "ownStep l' = ownStep l" "ownBucket l' = ownBucket l"
proof -
  show *: "countedIn l' = countedIn l" "delayFor l' = delayFor l" "stale l' = stale l"
    using assms by (auto simp: same_limits_def countedIn_def delayFor_def stale_def fun_eq_iff split: option.split)
  show p: "penalised l' = penalised l" by (simp add: penalised_def *(2) fun_eq_iff)
  show o: "ownStep l' = ownStep l" by (simp add: ownStep_def * p fun_eq_iff)
  show "ownBucket l' = ownBucket l" by (simp add: ownBucket_def o fun_eq_iff)
qed

lemma same_limits_prune: "same_limits l (prune l t)"
  by (simp add: same_limits_def prune_def)

lemma ownStep_times [simp]:
  "lastFailureAt (ownStep l b t) = t"
  "firstFailureAt (ownStep l b t) = t \<or> (\<exists>b0. b = Some b0 \<and> firstFailureAt (ownStep l b t) = firstFailureAt b0)"
  by (auto simp: ownStep_def penalised_def countedIn_def Let_def freshBucket_def split: option.split)

lemma ownBucket_times:
  assumes "ownBucket l ts = Some b" "sorted ts"
  shows "ts \<noteq> [] \<and> firstFailureAt b \<le> lastFailureAt b \<and> lastFailureAt b = last ts"
  using assms
proof (induction ts arbitrary: b rule: rev_induct)
  case (snoc t ts)
  from snoc.prems(1) have b: "b = ownStep l (ownBucket l ts) t" by simp
  show ?case
  proof (cases "ownBucket l ts")
    case (Some b0)
    with snoc have "firstFailureAt b0 \<le> lastFailureAt b0" "lastFailureAt b0 = last ts" "ts \<noteq> []"
      by (auto simp: sorted_append)
    moreover have "last ts \<le> t" using snoc.prems(2) \<open>ts \<noteq> []\<close> by (simp add: sorted_append)
    ultimately show ?thesis using ownStep_times(2) [of l "Some b0" t] by (auto simp: b Some)
  qed (use ownStep_times(2) [of l None t] in \<open>auto simp: b\<close>)
qed simp

text \<open>A bucket found stale is a bucket the next failure would restart: to prune it is not observable.\<close>

lemma countedIn_stale:
  assumes "stale l t0 b" "t0 \<le> t" "firstFailureAt b \<le> lastFailureAt b"
  shows "countedIn l (Some b) t = countedIn l None t"
proof -
  have "t - firstFailureAt b \<ge> windowMs l" "blockedUntil b \<le> t" using assms by (auto simp: stale_def)
  then show ?thesis by (simp add: countedIn_def)
qed

definition tracks :: "AuthRateLimiter \<Rightarrow> int \<Rightarrow> (jsstr \<Rightarrow> int list) \<Rightarrow> bool" where
  "tracks l now hist \<longleftrightarrow> distinct (mapKeys (buckets l)) \<and> (\<forall>k. sorted (hist k) \<and> (\<forall>t\<in>set (hist k). t \<le> now)
     \<and> (map_of (buckets l) k = ownBucket l (hist k)
        \<or> map_of (buckets l) k = None \<and> (\<exists>b. ownBucket l (hist k) = Some b \<and> stale l now b)))"

lemma tracksD:
  assumes "tracks l now hist"
  shows "sorted (hist k)" "t \<in> set (hist k) \<Longrightarrow> t \<le> now"
    "map_of (buckets l) k = ownBucket l (hist k)
     \<or> map_of (buckets l) k = None \<and> (\<exists>b. ownBucket l (hist k) = Some b \<and> stale l now b)"
  using assms unfolding tracks_def by blast+

lemma tracks_counted:
  assumes "tracks l now hist" "now \<le> t"
  shows "countedIn l (map_of (buckets (prune l t)) k) t = countedIn l (ownBucket l (hist k)) t"
proof -
  have d: "distinct (mapKeys (buckets l))" and s: "sorted (hist k)" using assms(1) by (auto simp: tracks_def)
  have pr: "map_of (buckets (prune l t)) k = (case map_of (buckets l) k of None \<Rightarrow> None
      | Some b \<Rightarrow> if stale l t b then None else Some b)"
    by (simp add: prune_def map_of_filter_distinct [OF d] split: option.split)
  show ?thesis
  proof (cases "ownBucket l (hist k)")
    case None
    then have "map_of (buckets l) k = None" using tracksD(3) [OF assms(1), of k] by simp
    then show ?thesis by (simp add: pr None)
  next
    case (Some b)
    have le: "firstFailureAt b \<le> lastFailureAt b" using ownBucket_times [OF Some s] by simp
    consider "map_of (buckets l) k = Some b" | "map_of (buckets l) k = None" "stale l now b"
      using tracksD(3) [OF assms(1), of k] Some by auto
    then show ?thesis
    proof cases
      case 1
      then show ?thesis using countedIn_stale [of l t b t] le by (simp add: pr Some)
    next
      case 2
      then show ?thesis using countedIn_stale [OF 2(2) assms(2) le] by (simp add: pr Some)
    qed
  qed
qed

text \<open>As long as the table has room, a failure moves the key's own counter and no other.\<close>

lemma recordFailure_tracks:
  assumes tr: "tracks l now hist" and t: "now \<le> t"
    and room: "card (insert (normalizeKey k) {x. hist x \<noteq> []}) \<le> nat (maxBuckets l)"
    and fin: "finite {x. hist x \<noteq> []}"
  shows "snd (recordFailure l k t) = failureRecord t (ownStep l (ownBucket l (hist (normalizeKey k))) t)"
    and "tracks (fst (recordFailure l k t)) t (hist(normalizeKey k := hist (normalizeKey k) @ [t]))"
proof -
  let ?k = "normalizeKey k" and ?l = "prune l t"
  let ?b = "countedIn ?l (map_of (buckets ?l) ?k) t"
  let ?m = "mapSet ?k ?b (buckets ?l)"
  note lim = same_limits_step [OF same_limits_prune, of l t]
  have d: "distinct (mapKeys (buckets l))" using tr by (simp add: tracks_def)
  have dp: "distinct (mapKeys (buckets ?l))" by (simp add: prune_def distinct_filter_keys [OF d])
  have "set (mapKeys (buckets l)) \<subseteq> {x. hist x \<noteq> []}"
  proof
    fix x assume "x \<in> set (mapKeys (buckets l))"
    then obtain b where "map_of (buckets l) x = Some b" using jm.present [of x "buckets l"] by blast
    then have "ownBucket l (hist x) = Some b" using tracksD(3) [OF tr, of x] by simp
    then show "x \<in> {x. hist x \<noteq> []}" by auto
  qed
  moreover have "set (mapKeys (buckets ?l)) \<subseteq> set (mapKeys (buckets l))" by (auto simp: prune_def mapKeys_def)
  ultimately have "set (mapKeys ?m) \<subseteq> insert ?k {x. hist x \<noteq> []}" by (auto simp: jm.keys_put)
  then have "card (set (mapKeys ?m)) \<le> nat (maxBuckets l)"
    by (intro le_trans [OF card_mono room]) (simp_all add: fin)
  moreover have "card (set (mapKeys ?m)) = length ?m"
    using distinct_card [OF jm.distinct_put [OF dp, of ?k ?b]] by simp
  ultimately have len: "length ?m \<le> nat (maxBuckets l)" by simp
  have "0 < card (insert ?k {x. hist x \<noteq> []})" using fin by (simp add: card_gt_0_iff)
  then have "0 < maxBuckets l" using room by linarith
  then have id: "enforceBound (maxBuckets ?l) ?m = ?m"
    using len by (intro enforceBound_id) (simp add: prune_def [of l t])
  have b: "?b = countedIn l (ownBucket l (hist ?k)) t"
    using tracks_counted [OF tr t] by (simp add: lim)
  have in_m: "?k \<in> set (mapKeys ?m)" by (auto simp: jm.keys_put)
  have res: "recordFailure l k t = (?l\<lparr>buckets := mapSet ?k (penalised l t ?b) ?m\<rparr>, failureRecord t (penalised l t ?b))"
    unfolding recordFailure_def Let_def id using in_m by (simp add: lim)
  have own: "penalised l t ?b = ownStep l (ownBucket l (hist ?k)) t" by (simp add: b ownStep_def)
  show "snd (recordFailure l k t) = failureRecord t (ownStep l (ownBucket l (hist ?k)) t)"
    by (simp add: res own)
  let ?r = "fst (recordFailure l k t)"
  have same: "same_limits l ?r" by (simp add: same_limits_def)
  note lim' = same_limits_step [OF same]
  have mr: "map_of (buckets ?r) = (map_of (buckets ?l))(?k \<mapsto> ownStep l (ownBucket l (hist ?k)) t)"
    by (simp add: res own jm.get_put)
  have other: "map_of (buckets ?l) x = ownBucket l (hist x)
      \<or> map_of (buckets ?l) x = None \<and> (\<exists>b. ownBucket l (hist x) = Some b \<and> stale l t b)" for x
  proof -
    have pr: "map_of (buckets ?l) x = (case map_of (buckets l) x of None \<Rightarrow> None
        | Some b \<Rightarrow> if stale l t b then None else Some b)"
      by (simp add: prune_def map_of_filter_distinct [OF d] split: option.split)
    have later: "stale l now b \<Longrightarrow> stale l t b" for b using t by (auto simp: stale_def)
    then show ?thesis using tracksD(3) [OF tr, of x] by (auto simp: pr split: option.split)
  qed
  have times: "sorted (hist x) \<and> (\<forall>u\<in>set (hist x). u \<le> t)" for x
    using tracksD(1) [OF tr, of x] tracksD(2) [OF tr, where k = x] t by force
  have dr: "distinct (mapKeys (buckets ?r))"
    by (simp add: res jm.distinct_put dp)
  show "tracks ?r t (hist(?k := hist ?k @ [t]))"
    unfolding tracks_def lim' using dr other times by (auto simp: mr sorted_append)
qed

section \<open>The delay\<close>

text \<open>A run of failures, each with its key and time, and the times of one key in it.\<close>

definition runFailures :: "AuthRateLimiter \<Rightarrow> (jsstr \<times> int) list \<Rightarrow> AuthRateLimiter" where
  "runFailures l fs = foldl (\<lambda>l (k, t). fst (recordFailure l k t)) l fs"

definition failuresOf :: "jsstr \<Rightarrow> (jsstr \<times> int) list \<Rightarrow> int list" where
  "failuresOf k fs = map snd (filter (\<lambda>(k', t). normalizeKey k' = k) fs)"

lemma failuresOf_snoc:
  "failuresOf x (fs @ [(k, t)]) = (if normalizeKey k = x then failuresOf x fs @ [t] else failuresOf x fs)"
  by (simp add: failuresOf_def)

lemma failuresOf_keys: "{x. failuresOf x fs \<noteq> []} = (\<lambda>(k, t). normalizeKey k) ` set fs"
  by (force simp: failuresOf_def filter_empty_conv)

lemma runFailures_tracks:
  assumes "limiter_ok l" "buckets l = []" "sorted (map snd fs)"
    and "card ((\<lambda>(k, t). normalizeKey k) ` set fs) \<le> nat (maxBuckets l)" and "\<forall>t\<in>set (map snd fs). t \<le> now"
  shows "same_limits l (runFailures l fs) \<and> tracks (runFailures l fs) now (\<lambda>k. failuresOf k fs)"
  using assms(3-5)
proof (induction fs arbitrary: now rule: rev_induct)
  case Nil
  then show ?case
    using assms(1,2) by (simp add: runFailures_def tracks_def failuresOf_def same_limits_def limiter_ok_def)
next
  case (snoc p fs)
  obtain k t where p: "p = (k, t)" by (cases p)
  let ?r = "runFailures l fs" and ?key = "\<lambda>(k :: jsstr, t :: int). normalizeKey k"
  have le: "\<forall>u\<in>set (map snd fs). u \<le> t" and tn: "t \<le> now" using snoc.prems by (auto simp: p sorted_append)
  have "card (?key ` set fs) \<le> card (?key ` set (fs @ [p]))" by (intro card_mono) auto
  with snoc.IH [OF _ _ le] snoc.prems have IH: "same_limits l ?r" "tracks ?r t (\<lambda>k. failuresOf k fs)"
    by (auto simp: sorted_append)
  have room: "card (insert (normalizeKey k) {x. failuresOf x fs \<noteq> []}) \<le> nat (maxBuckets ?r)"
    "finite {x. failuresOf x fs \<noteq> []}"
    using snoc.prems(2) IH(1) by (simp_all add: p failuresOf_keys same_limits_def)
  have step: "runFailures l (fs @ [p]) = fst (recordFailure ?r k t)" by (simp add: runFailures_def p)
  have hist: "(\<lambda>x. failuresOf x (fs @ [p]))
      = (\<lambda>x. failuresOf x fs)(normalizeKey k := failuresOf (normalizeKey k) fs @ [t])"
    by (auto simp: p failuresOf_snoc fun_eq_iff)
  have "tracks (fst (recordFailure ?r k t)) t (\<lambda>x. failuresOf x (fs @ [p]))"
    unfolding hist by (rule recordFailure_tracks(2) [OF IH(2) order_refl room])
  then have "tracks (fst (recordFailure ?r k t)) now (\<lambda>x. failuresOf x (fs @ [p]))"
    using tn unfolding tracks_def stale_def by (smt (verit))
  with IH(1) show ?case by (simp add: step same_limits_def)
qed

text \<open>Within one window, the failures of a key are all counted, and the delay depends on their number alone.\<close>

lemma delayFor_mono: "limiter_ok l \<Longrightarrow> m \<le> n \<Longrightarrow> delayFor l m \<le> delayFor l n"
  unfolding delayFor_def limiter_ok_def
  by (auto intro!: min.coboundedI2 mult_left_mono power_increasing nat_mono simp: min_le_iff_disj)

lemma delayFor_nonneg: "limiter_ok l \<Longrightarrow> 0 \<le> delayFor l n"
  by (auto simp: delayFor_def limiter_ok_def)

lemma delayFor_max: "limiter_ok l \<Longrightarrow> delayFor l n \<le> maxDelayMs l"
  by (auto simp: delayFor_def limiter_ok_def)

lemma ownBucket_window:
  assumes l: "limiter_ok l" and "sorted ts" "ts \<noteq> []" "0 \<le> hd ts" "last ts - hd ts < windowMs l"
  shows "\<exists>b. ownBucket l ts = Some b \<and> failures b = length ts \<and> firstFailureAt b = hd ts
     \<and> blockedUntil b = (if delayFor l (length ts) > 0 then last ts + delayFor l (length ts) else 0)"
  using assms(2-)
proof (induction ts rule: rev_induct)
  case (snoc t ts)
  show ?case
  proof (cases "ts = []")
    case True
    then show ?thesis
      using snoc.prems delayFor_nonneg [OF l, of 1] ownBucket_snoc [of l "[]" t]
      by (auto simp: ownStep_def penalised_def countedIn_def freshBucket_def Let_def)
  next
    case False
    then have lt: "last ts \<le> t" "hd ts \<le> last ts" using snoc.prems(1) by (cases ts; auto simp: sorted_append)+
    have "last ts - hd ts < windowMs l" using snoc.prems lt False by simp
    with snoc False obtain b where b: "ownBucket l ts = Some b" "failures b = length ts" "firstFailureAt b = hd ts"
      "blockedUntil b = (if delayFor l (length ts) > 0 then last ts + delayFor l (length ts) else 0)"
      by (auto simp: sorted_append)
    have "\<not> windowMs l \<le> t - firstFailureAt b" using snoc.prems False b(3) by simp
    moreover have "delayFor l (length ts) \<le> delayFor l (Suc (length ts))" by (rule delayFor_mono [OF l]) simp
    ultimately show ?thesis
      using lt snoc.prems(3) False b(2-4) delayFor_nonneg [OF l, of "length ts"]
      by (auto simp: ownStep_def penalised_def countedIn_def Let_def b(1))
  qed
qed simp

lemma recordFailure_window:
  assumes l: "limiter_ok l" "buckets l = []" and s: "sorted (map snd fs)" "\<forall>u\<in>set (map snd fs). 0 \<le> u \<and> u \<le> t" "0 \<le> t"
    and room: "card (insert (normalizeKey k) ((\<lambda>(k, t). normalizeKey k) ` set fs)) \<le> nat (maxBuckets l)"
    and win: "\<forall>u\<in>set (failuresOf (normalizeKey k) fs). t - u < windowMs l"
  defines "n \<equiv> Suc (length (failuresOf (normalizeKey k) fs))"
  shows "snd (recordFailure (runFailures l fs) k t) = \<lparr>frFailures = n, frRetryAfterMs = delayFor l n\<rparr>"
    and "t \<le> t' \<Longrightarrow> retryAfter (fst (recordFailure (runFailures l fs) k t)) k t' = max 0 (t + delayFor l n - t')"
proof -
  let ?r = "runFailures l fs" and ?ts = "failuresOf (normalizeKey k) fs @ [t]"
  have "card ((\<lambda>(k, t). normalizeKey k) ` set fs) \<le> nat (maxBuckets l)"
    by (intro le_trans [OF card_mono room]) auto
  then have r: "same_limits l ?r" "tracks ?r t (\<lambda>k. failuresOf k fs)"
    using runFailures_tracks [OF l s(1)] s(2) by blast+
  note lim = same_limits_step [OF r(1)]
  have room': "card (insert (normalizeKey k) {x. failuresOf x fs \<noteq> []}) \<le> nat (maxBuckets ?r)"
    "finite {x. failuresOf x fs \<noteq> []}"
    using room r(1) by (simp_all add: failuresOf_keys same_limits_def)
  note step = recordFailure_tracks [OF r(2) order_refl room']
  have ts: "sorted ?ts" "0 \<le> hd ?ts" "last ?ts - hd ?ts < windowMs l"
  proof -
    show "sorted ?ts" using tracksD(1,2) [OF r(2)] by (auto simp: sorted_append)
    have "hd ?ts \<in> insert t (set (failuresOf (normalizeKey k) fs))"
      by (cases "failuresOf (normalizeKey k) fs") auto
    moreover have "0 \<le> u" if "u \<in> set (failuresOf (normalizeKey k) fs)" for u
      using that s(2) by (auto simp: failuresOf_def)
    ultimately show "0 \<le> hd ?ts" "last ?ts - hd ?ts < windowMs l"
      using s(2,3) win l(1) by (auto simp: limiter_ok_def)
  qed
  from ownBucket_window [OF l(1) ts(1) _ ts(2,3)] obtain b where b: "ownBucket l ?ts = Some b" "failures b = n"
    "blockedUntil b = (if delayFor l n > 0 then t + delayFor l n else 0)"
    by (auto simp: n_def)
  then have own: "ownStep ?r (ownBucket ?r (failuresOf (normalizeKey k) fs)) t = b" by (simp add: lim)
  show "snd (recordFailure ?r k t) = \<lparr>frFailures = n, frRetryAfterMs = delayFor l n\<rparr>"
    using delayFor_nonneg [OF l(1), of n] s(3) by (simp add: step(1) own failureRecord_def b)
  assume le: "t \<le> t'"
  let ?q = "fst (recordFailure ?r k t)"
  have "map_of (buckets ?q) (normalizeKey k) = Some b
      \<or> map_of (buckets ?q) (normalizeKey k) = None \<and> stale ?q t b"
    using tracksD(3) [OF step(2), of "normalizeKey k"] lim(6) b(1)
      same_limits_step(6) [of ?r ?q] by (auto simp: same_limits_def)
  then show "retryAfter ?q k t' = max 0 (t + delayFor l n - t')"
    using le b(3) delayFor_nonneg [OF l(1), of n] s(3) by (auto simp: retryAfter_def stale_def split: if_split_asm)
qed

end
