(* ===== verification/KdfGuard.thy ===== *)
theory KdfGuard
  imports Prelude
begin

text \<open>
  \<open>src/server/auth/kdfGuard.ts\<close>: the scheduler of memory-hard password work. At most \<open>concurrency\<close> jobs are
  active and at most \<open>maxQueue\<close> wait, first come first served; a waiting job leaves when its signal is
  aborted or its timer fires, a started one always finishes.

  The guard runs on the event loop, so its behaviour is a sequence of turns: a call of \<open>run\<close>, a signal that
  aborts, the timer of a waiting job, a job that settles, and, a few microtasks after that, the
  \<open>finally\<close> that frees its slot and drains the queue. A job is a number: its entry object, which the code
  compares by identity. What a caller's promise received is recorded in \<open>kgSettled\<close>.
\<close>

section \<open>State\<close>

datatype KdfGuardError = KdfQueueFullError | KdfQueueTimeoutError | KdfAbortedError

fun kdfErrorCode :: "KdfGuardError \<Rightarrow> string" where
  "kdfErrorCode KdfQueueFullError = ''kdf-overloaded''"
| "kdfErrorCode KdfQueueTimeoutError = ''kdf-queue-timeout''"
| "kdfErrorCode KdfAbortedError = ''kdf-aborted''"

datatype 'a settlement =
    Resolved 'a
  | JobRejected
  | GuardRejected KdfGuardError

record QueueEntry =
  qeJob :: nat
  qeSignal :: "nat option"

record 'a KdfGuard =
  concurrency :: nat
  maxQueue :: nat
  maxQueueWaitMs :: int
  kgActive :: nat
  kgQueue :: "QueueEntry list"
  kgRunning :: "nat list"
  kgReleasing :: "nat list"
  kgAborted :: "nat list"
  kgSettled :: "(nat \<times> 'a settlement) list"
  kgNext :: nat

text \<open>
  \<open>kgRunning\<close> are the started jobs that have not settled, \<open>kgReleasing\<close> those whose promise has settled and
  whose \<open>finally\<close> has not run, \<open>kgAborted\<close> the signals that have been aborted, and \<open>kgNext\<close> the next entry.
\<close>

definition DEFAULT_KDF_CONCURRENCY :: nat where "DEFAULT_KDF_CONCURRENCY = 3"
definition DEFAULT_KDF_MAX_QUEUE :: nat where "DEFAULT_KDF_MAX_QUEUE = 24"
definition DEFAULT_KDF_QUEUE_WAIT_MS :: int where "DEFAULT_KDF_QUEUE_WAIT_MS = 5000"

record KdfGuardOptions =
  optConcurrency :: "jsval option"
  optMaxQueue :: "jsval option"
  optMaxQueueWaitMs :: "jsval option"

fun assertPositiveInteger :: "jsval \<Rightarrow> int option" where
  "assertPositiveInteger (JInt i) = (if i < 1 then None else Some i)"
| "assertPositiveInteger _ = None"

fun assertQueueBound :: "jsval \<Rightarrow> int option" where
  "assertQueueBound (JInt i) = (if i < 0 then None else Some i)"
| "assertQueueBound _ = None"

definition withDefault :: "jsval option \<Rightarrow> int \<Rightarrow> jsval" where
  "withDefault v fallback = (case v of None \<Rightarrow> JInt fallback | Some x \<Rightarrow> x)"

definition createKdfGuard :: "KdfGuardOptions \<Rightarrow> 'a KdfGuard option" where
  "createKdfGuard opts =
     (case assertPositiveInteger (withDefault (optConcurrency opts) (int DEFAULT_KDF_CONCURRENCY)) of None \<Rightarrow> None | Some c \<Rightarrow>
      case assertQueueBound (withDefault (optMaxQueue opts) (int DEFAULT_KDF_MAX_QUEUE)) of None \<Rightarrow> None | Some q \<Rightarrow>
      case assertPositiveInteger (withDefault (optMaxQueueWaitMs opts) DEFAULT_KDF_QUEUE_WAIT_MS) of None \<Rightarrow> None | Some w \<Rightarrow>
      Some \<lparr>concurrency = nat c, maxQueue = nat q, maxQueueWaitMs = w, kgActive = 0, kgQueue = [],
            kgRunning = [], kgReleasing = [], kgAborted = [], kgSettled = [], kgNext = 0\<rparr>)"

definition pendingCount :: "'a KdfGuard \<Rightarrow> nat" where
  "pendingCount g = kgActive g + length (kgQueue g)"

section \<open>Operations\<close>

definition signalAborted :: "'a KdfGuard \<Rightarrow> nat option \<Rightarrow> bool" where
  "signalAborted g s = (case s of None \<Rightarrow> False | Some x \<Rightarrow> x \<in> set (kgAborted g))"

definition settle :: "nat \<Rightarrow> 'a settlement \<Rightarrow> 'a KdfGuard \<Rightarrow> 'a KdfGuard" where
  "settle j r g = g\<lparr>kgSettled := kgSettled g @ [(j, r)]\<rparr>"

definition startJob :: "QueueEntry \<Rightarrow> 'a KdfGuard \<Rightarrow> 'a KdfGuard" where
  "startJob e g = g\<lparr>kgActive := Suc (kgActive g), kgRunning := kgRunning g @ [qeJob e]\<rparr>"

text \<open>\<open>removeQueued\<close>, with its answer.\<close>

definition isQueued :: "nat \<Rightarrow> 'a KdfGuard \<Rightarrow> bool" where
  "isQueued j g \<longleftrightarrow> j \<in> qeJob ` set (kgQueue g)"

definition removeQueued :: "nat \<Rightarrow> 'a KdfGuard \<Rightarrow> 'a KdfGuard" where
  "removeQueued j g = g\<lparr>kgQueue := filter (\<lambda>e. qeJob e \<noteq> j) (kgQueue g)\<rparr>"

definition rejectQueued :: "KdfGuardError \<Rightarrow> nat \<Rightarrow> 'a KdfGuard \<Rightarrow> 'a KdfGuard" where
  "rejectQueued err j g = (if isQueued j g then settle j (GuardRejected err) (removeQueued j g) else g)"

definition run :: "nat option \<Rightarrow> 'a KdfGuard \<Rightarrow> 'a KdfGuard" where
  "run signal g =
     (let j = kgNext g; e = \<lparr>qeJob = j, qeSignal = signal\<rparr>; g = g\<lparr>kgNext := Suc j\<rparr> in
      if signalAborted g signal then settle j (GuardRejected KdfAbortedError) g
      else if kgActive g < concurrency g then startJob e g
      else if length (kgQueue g) \<ge> maxQueue g then settle j (GuardRejected KdfQueueFullError) g
      else g\<lparr>kgQueue := kgQueue g @ [e]\<rparr>)"

text \<open>An aborted signal calls the listeners of its waiting jobs, in the order they were registered.\<close>

definition abortSignal :: "nat \<Rightarrow> 'a KdfGuard \<Rightarrow> 'a KdfGuard" where
  "abortSignal s g =
     foldl (\<lambda>g j. rejectQueued KdfAbortedError j g) (g\<lparr>kgAborted := s # kgAborted g\<rparr>)
       (map qeJob (filter (\<lambda>e. qeSignal e = Some s) (kgQueue g)))"

definition queueTimeout :: "nat \<Rightarrow> 'a KdfGuard \<Rightarrow> 'a KdfGuard" where
  "queueTimeout j g = rejectQueued KdfQueueTimeoutError j g"

definition jobSettled :: "nat \<Rightarrow> 'a option \<Rightarrow> 'a KdfGuard \<Rightarrow> 'a KdfGuard" where
  "jobSettled j r g =
     (if j \<in> set (kgRunning g)
      then settle j (case r of Some a \<Rightarrow> Resolved a | None \<Rightarrow> JobRejected)
        (g\<lparr>kgRunning := filter (\<lambda>x. x \<noteq> j) (kgRunning g), kgReleasing := kgReleasing g @ [j]\<rparr>)
      else g)"

function drain :: "'a KdfGuard \<Rightarrow> 'a KdfGuard" where
  "drain g =
     (if kgActive g < concurrency g then
        (case kgQueue g of
           [] \<Rightarrow> g
         | e # q \<Rightarrow>
             (let g' = g\<lparr>kgQueue := q\<rparr> in
              if signalAborted g' (qeSignal e) then drain (settle (qeJob e) (GuardRejected KdfAbortedError) g')
              else drain (startJob e g')))
      else g)"
  by pat_completeness auto

termination
  by (relation "measure (\<lambda>g. length (kgQueue g))") (auto simp: settle_def startJob_def)

declare drain.simps [simp del]

definition jobReleased :: "nat \<Rightarrow> 'a KdfGuard \<Rightarrow> 'a KdfGuard" where
  "jobReleased j g =
     (if j \<in> set (kgReleasing g)
      then drain (g\<lparr>kgReleasing := filter (\<lambda>x. x \<noteq> j) (kgReleasing g), kgActive := kgActive g - 1\<rparr>)
      else g)"

section \<open>Histories\<close>

datatype 'a kdf_event =
    Run "nat option"
  | SignalAborts nat
  | TimerFires nat
  | JobSettles nat "'a option"
  | JobReleases nat

fun kdf_step :: "'a KdfGuard \<Rightarrow> 'a kdf_event \<Rightarrow> 'a KdfGuard" where
  "kdf_step g (Run s) = run s g"
| "kdf_step g (SignalAborts s) = abortSignal s g"
| "kdf_step g (TimerFires j) = queueTimeout j g"
| "kdf_step g (JobSettles j r) = jobSettled j r g"
| "kdf_step g (JobReleases j) = jobReleased j g"

inductive kdf_reachable :: "KdfGuardOptions \<Rightarrow> 'a KdfGuard \<Rightarrow> bool" for opts where
  created: "createKdfGuard opts = Some g \<Longrightarrow> kdf_reachable opts g"
| stepped: "kdf_reachable opts g \<Longrightarrow> kdf_reachable opts (kdf_step g e)"

section \<open>Every job is in one place\<close>

definition waiting :: "'a KdfGuard \<Rightarrow> nat list" where
  "waiting g = map qeJob (kgQueue g)"

definition kdf_slots :: "'a KdfGuard \<Rightarrow> bool" where
  "kdf_slots g \<longleftrightarrow> kgActive g = length (kgRunning g) + length (kgReleasing g) \<and> kgActive g \<le> concurrency g
     \<and> length (kgQueue g) \<le> maxQueue g \<and> 0 < concurrency g"

definition placed :: "nat list \<Rightarrow> nat list \<Rightarrow> nat list \<Rightarrow> nat list \<Rightarrow> nat \<Rightarrow> bool" where
  "placed w r s f n \<longleftrightarrow> distinct (w @ r @ s) \<and> distinct f \<and> (\<forall>j. j < n \<longleftrightarrow> j \<in> set w \<or> j \<in> set r \<or> j \<in> set s)
     \<and> set f \<subseteq> set s"

definition kdf_places :: "'a KdfGuard \<Rightarrow> bool" where
  "kdf_places g \<longleftrightarrow> placed (waiting g) (kgRunning g) (map fst (kgSettled g)) (kgReleasing g) (kgNext g)"

definition kdf_busy :: "'a KdfGuard \<Rightarrow> bool" where
  "kdf_busy g \<longleftrightarrow> (kgQueue g \<noteq> [] \<longrightarrow> kgActive g = concurrency g)"

definition kdf_live :: "'a KdfGuard \<Rightarrow> bool" where
  "kdf_live g \<longleftrightarrow> (\<forall>e\<in>set (kgQueue g). \<not> signalAborted g (qeSignal e))"

definition kdf_ok :: "'a KdfGuard \<Rightarrow> bool" where
  "kdf_ok g \<longleftrightarrow> kdf_slots g \<and> kdf_places g \<and> kdf_busy g \<and> kdf_live g"

lemmas kdf_ok_defs = kdf_ok_def kdf_slots_def kdf_places_def kdf_busy_def kdf_live_def waiting_def placed_def

lemma createKdfGuard_ok: "createKdfGuard opts = Some g \<Longrightarrow> kdf_ok g"
proof -
  have pos: "assertPositiveInteger v = Some i \<Longrightarrow> 1 \<le> i" for v i by (cases v) (auto split: if_splits)
  assume "createKdfGuard opts = Some g"
  then show ?thesis by (auto simp: createKdfGuard_def kdf_ok_defs split: option.splits dest!: pos)
qed

lemma settle_sel [simp]:
  "kgActive (settle j r g) = kgActive g" "kgQueue (settle j r g) = kgQueue g" "concurrency (settle j r g) = concurrency g"
  "maxQueue (settle j r g) = maxQueue g" "kgRunning (settle j r g) = kgRunning g"
  "kgReleasing (settle j r g) = kgReleasing g" "kgNext (settle j r g) = kgNext g" "kgAborted (settle j r g) = kgAborted g"
  "kgSettled (settle j r g) = kgSettled g @ [(j, r)]"
  by (simp_all add: settle_def)

lemma startJob_sel [simp]:
  "kgActive (startJob e g) = Suc (kgActive g)" "kgQueue (startJob e g) = kgQueue g" "concurrency (startJob e g) = concurrency g"
  "maxQueue (startJob e g) = maxQueue g" "kgRunning (startJob e g) = kgRunning g @ [qeJob e]"
  "kgReleasing (startJob e g) = kgReleasing g" "kgNext (startJob e g) = kgNext g" "kgAborted (startJob e g) = kgAborted g"
  "kgSettled (startJob e g) = kgSettled g"
  by (simp_all add: startJob_def)

lemma signalAborted_cong: "kgAborted g = kgAborted g' \<Longrightarrow> signalAborted g = signalAborted g'"
  by (simp add: signalAborted_def fun_eq_iff split: option.split)

text \<open>Leaving the queue keeps everything; the signals of the jobs that stay are as they were.\<close>

lemma rejectQueued_sel [simp]:
  "kgActive (rejectQueued err j g) = kgActive g" "concurrency (rejectQueued err j g) = concurrency g"
  "maxQueue (rejectQueued err j g) = maxQueue g" "kgRunning (rejectQueued err j g) = kgRunning g"
  "kgReleasing (rejectQueued err j g) = kgReleasing g" "kgNext (rejectQueued err j g) = kgNext g"
  "kgAborted (rejectQueued err j g) = kgAborted g"
  "kgQueue (rejectQueued err j g) = filter (\<lambda>e. qeJob e \<noteq> j) (kgQueue g)"
  by (auto simp: rejectQueued_def removeQueued_def isQueued_def intro: filter_True [symmetric])

lemma placed_leave:
  assumes "placed w r s f n" "j \<in> set w" shows "placed (filter (\<lambda>x. x \<noteq> j) w) r (s @ [j]) f n"
  using assms by (auto simp: placed_def)

lemma placed_settle:
  assumes "placed w r s f n" "j \<in> set r" shows "placed w (filter (\<lambda>x. x \<noteq> j) r) (s @ [j]) (f @ [j]) n"
  using assms by (auto simp: placed_def)

lemma placed_new:
  assumes "placed w r s f n"
  shows "placed (w @ [n]) r s f (Suc n)" "placed w (r @ [n]) s f (Suc n)" "placed w r (s @ [n]) f (Suc n)"
  using assms by (auto simp: placed_def less_Suc_eq)

lemma placed_start: "placed (j # w) r s f n \<Longrightarrow> placed w (r @ [j]) s f n"
  by (auto simp: placed_def)

lemma placed_release: "placed w r s f n \<Longrightarrow> placed w r s (filter P f) n"
  by (auto simp: placed_def)

lemma rejectQueued_places:
  assumes "kdf_places g" shows "kdf_places (rejectQueued err j g)"
proof (cases "isQueued j g")
  case True
  then have "j \<in> set (waiting g)" by (auto simp: isQueued_def waiting_def)
  moreover have "waiting (rejectQueued err j g) = filter (\<lambda>x. x \<noteq> j) (waiting g)"
    by (simp add: waiting_def filter_map o_def)
  moreover have "kgSettled (rejectQueued err j g) = kgSettled g @ [(j, GuardRejected err)]"
    using True by (simp add: rejectQueued_def removeQueued_def)
  ultimately show ?thesis using assms placed_leave by (simp add: kdf_places_def)
qed (simp add: rejectQueued_def assms)

lemma rejectQueued_slots: "kdf_slots g \<Longrightarrow> kdf_slots (rejectQueued err j g)"
  by (auto simp: kdf_slots_def intro: order_trans [OF length_filter_le])

lemma rejectQueued_busy: "kdf_busy g \<Longrightarrow> kdf_busy (rejectQueued err j g)"
  by (auto simp: kdf_busy_def)

lemma rejectQueued_live: "kdf_live g \<Longrightarrow> kdf_live (rejectQueued err j g)"
  using signalAborted_cong [of "rejectQueued err j g" g] by (auto simp: kdf_live_def)

lemmas rejectQueued_keeps = rejectQueued_places rejectQueued_slots rejectQueued_busy rejectQueued_live

lemma rejectAll:
  "kgAborted (foldl (\<lambda>g j. rejectQueued err j g) g xs) = kgAborted g"
  "kgQueue (foldl (\<lambda>g j. rejectQueued err j g) g xs) = filter (\<lambda>e. qeJob e \<notin> set xs) (kgQueue g)"
  "kdf_places g \<Longrightarrow> kdf_places (foldl (\<lambda>g j. rejectQueued err j g) g xs)"
  "kdf_slots g \<Longrightarrow> kdf_slots (foldl (\<lambda>g j. rejectQueued err j g) g xs)"
  "kdf_busy g \<Longrightarrow> kdf_busy (foldl (\<lambda>g j. rejectQueued err j g) g xs)"
  by (induction xs arbitrary: g) (auto simp: rejectQueued_keeps intro: filter_cong)

lemma abortSignal_ok:
  assumes "kdf_ok g" shows "kdf_ok (abortSignal s g)"
proof -
  let ?g = "g\<lparr>kgAborted := s # kgAborted g\<rparr>"
  let ?js = "map qeJob (filter (\<lambda>e. qeSignal e = Some s) (kgQueue g))"
  have "kdf_places ?g" "kdf_slots ?g" "kdf_busy ?g"
    using assms by (auto simp: kdf_ok_def kdf_places_def kdf_slots_def kdf_busy_def waiting_def)
  then have "kdf_places (abortSignal s g)" "kdf_slots (abortSignal s g)" "kdf_busy (abortSignal s g)"
    by (simp_all add: abortSignal_def rejectAll)
  moreover have "kdf_live (abortSignal s g)"
    using assms by (auto simp: kdf_ok_def kdf_live_def abortSignal_def rejectAll signalAborted_def split: option.splits)
  ultimately show ?thesis by (simp add: kdf_ok_def)
qed

lemma queueTimeout_ok: "kdf_ok g \<Longrightarrow> kdf_ok (queueTimeout j g)"
  by (simp add: kdf_ok_def queueTimeout_def rejectQueued_keeps)

lemma run_ok:
  assumes "kdf_ok g" shows "kdf_ok (run s g)"
proof -
  let ?g = "g\<lparr>kgNext := Suc (kgNext g)\<rparr>"
  note new = placed_new [of "waiting g" "kgRunning g" "map fst (kgSettled g)" "kgReleasing g" "kgNext g"]
  have ab: "signalAborted g' = signalAborted g" if "kgAborted g' = kgAborted g" for g'
    using that by (rule signalAborted_cong)
  have pl: "kdf_places (run s g)"
    using assms new ab [of ?g] by (auto simp: kdf_ok_def kdf_places_def run_def Let_def waiting_def)
  have sl: "kdf_slots (run s g)"
    using assms by (auto simp: kdf_ok_def kdf_slots_def run_def Let_def)
  have bu: "kdf_busy (run s g)"
    using assms by (auto simp: kdf_ok_def kdf_busy_def kdf_slots_def run_def Let_def)
  have "kgAborted (run s g) = kgAborted g" by (simp add: run_def Let_def)
  moreover have "e \<in> set (kgQueue (run s g)) \<Longrightarrow> e \<in> set (kgQueue g) \<or> \<not> signalAborted g (qeSignal e)" for e
    using ab [of ?g] by (auto simp: run_def Let_def split: if_split_asm)
  ultimately have "kdf_live (run s g)" using assms ab [of "run s g"] by (auto simp: kdf_ok_def kdf_live_def)
  with pl sl bu show ?thesis by (simp add: kdf_ok_def)
qed

lemma length_filter_neq:
  "distinct xs \<Longrightarrow> j \<in> set xs \<Longrightarrow> Suc (length (filter (\<lambda>x. x \<noteq> j) xs)) = length xs"
proof (induction xs)
  case (Cons x xs)
  have "j \<notin> set xs \<Longrightarrow> filter (\<lambda>y. y \<noteq> j) xs = xs" by (rule filter_True) auto
  with Cons show ?case by auto
qed simp

lemma jobSettled_ok:
  assumes "kdf_ok g" shows "kdf_ok (jobSettled j r g)"
proof (cases "j \<in> set (kgRunning g)")
  case True
  have d: "distinct (kgRunning g)" using assms by (simp add: kdf_ok_def kdf_places_def placed_def)
  have len: "Suc (length (filter (\<lambda>x. x \<noteq> j) (kgRunning g))) = length (kgRunning g)"
    by (rule length_filter_neq [OF d True])
  let ?g = "jobSettled j r g"
  have sel: "kgActive ?g = kgActive g" "kgQueue ?g = kgQueue g" "concurrency ?g = concurrency g" "maxQueue ?g = maxQueue g"
    "kgNext ?g = kgNext g" "kgAborted ?g = kgAborted g" "kgRunning ?g = filter (\<lambda>x. x \<noteq> j) (kgRunning g)"
    "kgReleasing ?g = kgReleasing g @ [j]" "map fst (kgSettled ?g) = map fst (kgSettled g) @ [j]"
    using True by (simp_all add: jobSettled_def)
  have "kdf_places ?g"
    using assms placed_settle [OF _ True] unfolding kdf_ok_def kdf_places_def waiting_def sel by blast
  moreover have "kdf_slots ?g" using assms len by (simp add: kdf_ok_def kdf_slots_def sel)
  moreover have "kdf_busy ?g" "kdf_live ?g"
    using assms signalAborted_cong [of ?g g] by (simp_all add: kdf_ok_def kdf_busy_def kdf_live_def sel)
  ultimately show ?thesis by (simp add: kdf_ok_def)
qed (simp add: jobSettled_def assms)

lemma drain_ok:
  "kdf_slots g \<Longrightarrow> kdf_places g \<Longrightarrow> kdf_live g \<Longrightarrow> kdf_ok (drain g)"
proof (induction g rule: drain.induct)
  case (1 g)
  show ?case
  proof (cases "kgActive g < concurrency g \<and> kgQueue g \<noteq> []")
    case False
    then have "drain g = g" by (subst drain.simps) (auto split: list.split)
    moreover have "kdf_busy g" using False "1.prems"(1) by (auto simp: kdf_busy_def kdf_slots_def)
    ultimately show ?thesis using "1.prems" by (simp add: kdf_ok_def)
  next
    case True
    then obtain e q where q: "kgQueue g = e # q" by (cases "kgQueue g") auto
    have na: "\<not> signalAborted (g\<lparr>kgQueue := q\<rparr>) (qeSignal e)"
      using "1.prems"(3) q signalAborted_cong [of "g\<lparr>kgQueue := q\<rparr>" g] by (simp add: kdf_live_def)
    let ?g = "startJob e (g\<lparr>kgQueue := q\<rparr>)"
    have ab: "signalAborted ?g = signalAborted g" by (rule signalAborted_cong) simp
    have "kdf_slots ?g" "kdf_live ?g"
      using "1.prems" True q by (auto simp: kdf_slots_def kdf_live_def ab)
    moreover have "kdf_places ?g"
      using "1.prems"(2) placed_start [of "qeJob e" "map qeJob q"] by (simp add: kdf_places_def waiting_def q)
    ultimately have here: "kdf_slots ?g" "kdf_places ?g" "kdf_live ?g" by blast+
    have "kdf_ok (drain ?g)" using here "1.IH"(2) [OF _ q refl na] True by simp
    then show ?thesis using True na q by (subst drain.simps) simp
  qed
qed

lemma jobReleased_ok:
  assumes "kdf_ok g" shows "kdf_ok (jobReleased j g)"
proof (cases "j \<in> set (kgReleasing g)")
  case True
  have "distinct (kgReleasing g)" using assms by (simp add: kdf_ok_def kdf_places_def placed_def)
  then have len: "Suc (length (filter (\<lambda>x. x \<noteq> j) (kgReleasing g))) = length (kgReleasing g)"
    using True by (rule length_filter_neq)
  let ?g = "g\<lparr>kgReleasing := filter (\<lambda>x. x \<noteq> j) (kgReleasing g), kgActive := kgActive g - 1\<rparr>"
  have "kdf_slots ?g" using assms len by (auto simp: kdf_ok_def kdf_slots_def)
  moreover have "kdf_places ?g" using assms by (simp add: kdf_ok_def kdf_places_def waiting_def placed_release)
  moreover have "kdf_live ?g"
    using assms signalAborted_cong [of ?g g] by (simp add: kdf_ok_def kdf_live_def)
  ultimately show ?thesis using True by (simp add: jobReleased_def drain_ok)
qed (simp add: jobReleased_def assms)

lemma kdf_step_ok: "kdf_ok g \<Longrightarrow> kdf_ok (kdf_step g e)"
  by (cases e) (simp_all add: run_ok abortSignal_ok queueTimeout_ok jobSettled_ok jobReleased_ok)

lemma kdf_reachable_ok: "kdf_reachable opts g \<Longrightarrow> kdf_ok g"
  by (induction rule: kdf_reachable.induct) (simp_all add: createKdfGuard_ok kdf_step_ok)

section \<open>First come, first served\<close>

definition kdf_run :: "'a KdfGuard \<Rightarrow> 'a kdf_event list \<Rightarrow> 'a KdfGuard" where
  "kdf_run g es = foldl kdf_step g es"

lemma kdf_run_simps [simp]: "kdf_run g [] = g" "kdf_run g (e # es) = kdf_run (kdf_step g e) es"
  by (simp_all add: kdf_run_def)

lemma kdf_run_reachable: "kdf_reachable opts g \<Longrightarrow> kdf_reachable opts (kdf_run g es)"
  by (induction es arbitrary: g) (simp_all add: kdf_reachable.stepped)

text \<open>The jobs before a waiting job, and the slots freed along a history.\<close>

definition aheadIn :: "nat \<Rightarrow> QueueEntry list \<Rightarrow> nat" where
  "aheadIn j q = length (takeWhile (\<lambda>e. qeJob e \<noteq> j) q)"

abbreviation ahead :: "nat \<Rightarrow> 'a KdfGuard \<Rightarrow> nat" where
  "ahead j g \<equiv> aheadIn j (kgQueue g)"

definition frees :: "'a KdfGuard \<Rightarrow> 'a kdf_event \<Rightarrow> nat" where
  "frees g e = (case e of JobReleases j \<Rightarrow> (if j \<in> set (kgReleasing g) then 1 else 0) | _ \<Rightarrow> 0)"

fun slotsFreed :: "'a KdfGuard \<Rightarrow> 'a kdf_event list \<Rightarrow> nat" where
  "slotsFreed g [] = 0"
| "slotsFreed g (e # es) = frees g e + slotsFreed (kdf_step g e) es"

lemma aheadIn_filter: "\<forall>e\<in>set q. qeJob e = j \<longrightarrow> P e \<Longrightarrow> aheadIn j (filter P q) \<le> aheadIn j q"
  by (induction q) (auto simp: aheadIn_def)

lemma aheadIn_append: "j \<in> qeJob ` set q \<Longrightarrow> aheadIn j (q @ q') = aheadIn j q"
  by (induction q) (auto simp: aheadIn_def)

lemma aheadIn_skip: "j \<notin> qeJob ` set p \<Longrightarrow> aheadIn j (p @ q) = length p + aheadIn j q"
  by (induction p) (auto simp: aheadIn_def)

lemma drain_queue:
  "\<exists>p. kgQueue g = p @ kgQueue (drain g) \<and> (kgActive g < concurrency g \<and> kgQueue g \<noteq> [] \<longrightarrow> p \<noteq> [])
     \<and> kgNext (drain g) = kgNext g"
proof (induction g rule: drain.induct)
  case (1 g)
  show ?case
  proof (cases "kgActive g < concurrency g \<and> kgQueue g \<noteq> []")
    case False
    then have "drain g = g" by (subst drain.simps) (auto split: list.split)
    with False show ?thesis by simp
  next
    case True
    then obtain e q where q: "kgQueue g = e # q" by (cases "kgQueue g") auto
    let ?g = "g\<lparr>kgQueue := q\<rparr>"
    let ?h = "if signalAborted ?g (qeSignal e) then settle (qeJob e) (GuardRejected KdfAbortedError) ?g else startJob e ?g"
    have d: "drain g = drain ?h" using True q by (subst drain.simps) simp
    have "\<exists>p. kgQueue ?h = p @ kgQueue (drain ?h) \<and> kgNext (drain ?h) = kgNext ?h"
      using "1.IH"(1) [OF _ q refl] "1.IH"(2) [OF _ q refl] True by (cases "signalAborted ?g (qeSignal e)") auto
    then obtain p where "kgQueue ?h = p @ kgQueue (drain ?h)" "kgNext (drain ?h) = kgNext ?h" by blast
    then have "kgQueue g = (e # p) @ kgQueue (drain g)" "kgNext (drain g) = kgNext g"
      by (simp_all add: d q split: if_split_asm)
    then show ?thesis by blast
  qed
qed

lemma rejectAll_next: "kgNext (foldl (\<lambda>g j. rejectQueued err j g) g xs) = kgNext g"
  by (induction xs arbitrary: g) simp_all

lemma kdf_step_next: "kgNext g \<le> kgNext (kdf_step g e)"
proof (cases e)
  case (JobReleases j)
  have n: "kgNext (drain h) = kgNext h" for h :: "'a KdfGuard" using drain_queue [of h] by blast
  show ?thesis by (simp add: JobReleases jobReleased_def n)
qed (simp_all add: run_def Let_def abortSignal_def rejectAll_next queueTimeout_def jobSettled_def)

text \<open>What a turn does to the queue: it appends the new job, or drops some, or starts from the front.\<close>

lemma kdf_step_queue:
  obtains (appends) q where "kgQueue (kdf_step g e) = kgQueue g @ q" "qeJob ` set q \<subseteq> {kgNext g}" "frees g e = 0"
  | (removes) P where "kgQueue (kdf_step g e) = filter (\<lambda>e. P (qeJob e)) (kgQueue g)" "frees g e = 0"
  | (serves) p where "kgQueue g = p @ kgQueue (kdf_step g e)" "frees g e = 1"
      "kgQueue g \<noteq> [] \<Longrightarrow> kdf_ok g \<Longrightarrow> p \<noteq> []"
proof (cases e)
  case (Run s)
  have "\<exists>q. kgQueue (kdf_step g e) = kgQueue g @ q \<and> qeJob ` set q \<subseteq> {kgNext g}"
    by (auto simp: Run run_def Let_def)
  then show ?thesis using appends by (auto simp: Run frees_def)
next
  case (SignalAborts s)
  show ?thesis
    by (rule removes [of "\<lambda>j. j \<notin> set (map qeJob (filter (\<lambda>e. qeSignal e = Some s) (kgQueue g)))"])
      (simp_all add: SignalAborts abortSignal_def rejectAll frees_def del: set_map)
next
  case (TimerFires j)
  show ?thesis by (rule removes [of "\<lambda>x. x \<noteq> j"]) (simp_all add: TimerFires queueTimeout_def frees_def)
next
  case (JobSettles j r)
  show ?thesis by (rule removes [of "\<lambda>_. True"]) (simp_all add: JobSettles jobSettled_def frees_def)
next
  case (JobReleases j)
  show ?thesis
  proof (cases "j \<in> set (kgReleasing g)")
    case True
    let ?g = "g\<lparr>kgReleasing := filter (\<lambda>x. x \<noteq> j) (kgReleasing g), kgActive := kgActive g - 1\<rparr>"
    obtain p where p: "kgQueue ?g = p @ kgQueue (drain ?g)"
      "kgActive ?g < concurrency ?g \<and> kgQueue ?g \<noteq> [] \<longrightarrow> p \<noteq> []" using drain_queue [of ?g] by blast
    show ?thesis
    proof (rule serves [of p])
      show "kgQueue g = p @ kgQueue (kdf_step g e)" "frees g e = 1"
        using p(1) True by (simp_all add: JobReleases jobReleased_def frees_def)
      assume "kgQueue g \<noteq> []" "kdf_ok g"
      then have "kgActive ?g < concurrency ?g" by (auto simp: kdf_ok_def kdf_slots_def)
      with p(2) \<open>kgQueue g \<noteq> []\<close> show "p \<noteq> []" by simp
    qed
  next
    case False
    show ?thesis by (rule removes [of "\<lambda>_. True"]) (simp_all add: JobReleases jobReleased_def frees_def False)
  qed
qed

lemma kdf_step_waiting:
  assumes "j < kgNext g" "j \<in> set (waiting (kdf_step g e))" shows "j \<in> set (waiting g)"
  using assms by (cases rule: kdf_step_queue [of g e]) (auto simp: waiting_def)

text \<open>Nobody overtakes, and every freed slot moves the queue.\<close>

lemma kdf_step_ahead:
  assumes ok: "kdf_ok g" and j: "j \<in> set (waiting g)" "j \<in> set (waiting (kdf_step g e))"
  shows "ahead j (kdf_step g e) + frees g e \<le> ahead j g"
proof (cases rule: kdf_step_queue [of g e])
  case (appends q)
  then show ?thesis using j(1) by (simp add: aheadIn_append waiting_def)
next
  case (removes P)
  then have "P j" using j(2) by (auto simp: waiting_def)
  then show ?thesis using removes by (auto intro!: aheadIn_filter)
next
  case (serves p)
  have "distinct (waiting g)" using ok by (simp add: kdf_ok_def kdf_places_def placed_def)
  then have "j \<notin> qeJob ` set p" using j(2) serves(1) by (auto simp: waiting_def)
  then have "ahead j g = length p + ahead j (kdf_step g e)" by (subst serves(1)) (rule aheadIn_skip)
  moreover have "kgQueue g \<noteq> []" using j(1) by (auto simp: waiting_def)
  then have "p \<noteq> []" using serves(3) ok by blast
  ultimately show ?thesis using serves(2) by (cases p) auto
qed

lemma kdf_run_waiting: "j < kgNext g \<Longrightarrow> j \<in> set (waiting (kdf_run g es)) \<Longrightarrow> j \<in> set (waiting g)"
proof (induction es arbitrary: g)
  case (Cons e es)
  then have "j \<in> set (waiting (kdf_step g e))"
    using order.strict_trans2 [OF Cons.prems(1) kdf_step_next] by simp
  then show ?case by (rule kdf_step_waiting [OF Cons.prems(1)])
qed simp

lemma kdf_run_ahead:
  assumes "kdf_ok g" "j < kgNext g" "j \<in> set (waiting (kdf_run g es))"
  shows "ahead j (kdf_run g es) + slotsFreed g es \<le> ahead j g"
  using assms
proof (induction es arbitrary: g)
  case (Cons e es)
  have n: "j < kgNext (kdf_step g e)" using order.strict_trans2 [OF Cons.prems(2) kdf_step_next] .
  have w: "j \<in> set (waiting (kdf_step g e))" by (rule kdf_run_waiting [OF n]) (use Cons.prems(3) in simp)
  have "ahead j (kdf_run (kdf_step g e) es) + slotsFreed (kdf_step g e) es \<le> ahead j (kdf_step g e)"
    using Cons.IH [OF kdf_step_ok [OF Cons.prems(1)] n] Cons.prems(3) by simp
  moreover have "ahead j (kdf_step g e) + frees g e \<le> ahead j g"
    by (rule kdf_step_ahead [OF Cons.prems(1) kdf_step_waiting [OF Cons.prems(2) w] w])
  ultimately show ?case by simp
qed simp

lemma kdf_served:
  assumes "kdf_reachable opts g" "j \<in> set (waiting g)" "ahead j g < slotsFreed g es"
  shows "j \<in> set (kgRunning (kdf_run g es)) \<or> j \<in> fst ` set (kgSettled (kdf_run g es))"
proof -
  have ok: "kdf_ok g" "kdf_ok (kdf_run g es)"
    using assms(1) kdf_run_reachable kdf_reachable_ok by blast+
  have j: "j < kgNext g" using ok(1) assms(2) by (simp add: kdf_ok_def kdf_places_def placed_def)
  have "kgNext g \<le> kgNext (kdf_run g es)" for es
    by (induction es arbitrary: g) (auto intro: order_trans [OF kdf_step_next])
  then have "j < kgNext (kdf_run g es)" using j by (rule order.strict_trans2 [rotated])
  moreover have "j \<notin> set (waiting (kdf_run g es))" using kdf_run_ahead [OF ok(1) j] assms(3) by fastforce
  ultimately show ?thesis using ok(2) by (auto simp: kdf_ok_def kdf_places_def placed_def)
qed

end
