(* ===== verification/Base64Url.thy ===== *)
theory Base64Url
  imports Prelude
begin

text \<open>
  The base64url encoding of \<open>Buffer\<close>, which the password hashes, the session tokens and the encrypted
  diary use, and \<open>String.prototype.split\<close> on a character. Encoding bytes and decoding them is the
  identity; a text in the alphabet that encodes back to itself is the encoding of what it decodes to.
\<close>

section \<open>Bytes and characters\<close>

definition isBytes :: "nat list \<Rightarrow> bool" where
  "isBytes bs \<longleftrightarrow> (\<forall>b\<in>set bs. b < 256)"

definition sextetChar :: "nat \<Rightarrow> nat" where
  "sextetChar x = (if x < 26 then 65 + x else if x < 52 then 71 + x else if x < 62 then x - 4
     else if x = 62 then 45 else 95)"

definition isBase64UrlChar :: "nat \<Rightarrow> bool" where
  "isBase64UrlChar c \<longleftrightarrow> 65 \<le> c \<and> c \<le> 90 \<or> 97 \<le> c \<and> c \<le> 122 \<or> 48 \<le> c \<and> c \<le> 57 \<or> c = 45 \<or> c = 95"

definition charSextet :: "nat \<Rightarrow> nat" where
  "charSextet c = (if 65 \<le> c \<and> c \<le> 90 then c - 65 else if 97 \<le> c \<and> c \<le> 122 then c - 71
     else if 48 \<le> c \<and> c \<le> 57 then c + 4 else if c = 45 then 62 else 63)"

fun toSextets :: "nat list \<Rightarrow> nat list" where
  "toSextets [] = []"
| "toSextets [a] = [a div 4, a mod 4 * 16]"
| "toSextets [a, b] = [a div 4, a mod 4 * 16 + b div 16, b mod 16 * 4]"
| "toSextets (a # b # c # bs) =
     [a div 4, a mod 4 * 16 + b div 16, b mod 16 * 4 + c div 64, c mod 64] @ toSextets bs"

fun fromSextets :: "nat list \<Rightarrow> nat list" where
  "fromSextets [] = []"
| "fromSextets [w] = []"
| "fromSextets [w, x] = [w * 4 + x div 16]"
| "fromSextets [w, x, y] = [w * 4 + x div 16, x mod 16 * 16 + y div 4]"
| "fromSextets (w # x # y # z # xs) =
     [w * 4 + x div 16, x mod 16 * 16 + y div 4, y mod 4 * 64 + z] @ fromSextets xs"

definition encodeBase64Url :: "nat list \<Rightarrow> jsstr" where
  "encodeBase64Url bs = map sextetChar (toSextets bs)"

text \<open>\<open>Buffer.from(value, 'base64url')\<close> on a text in the alphabet.\<close>

definition bufferFromBase64Url :: "jsstr \<Rightarrow> nat list" where
  "bufferFromBase64Url s = fromSextets (map charSextet s)"

lemma sextetChar_char: "x < 64 \<Longrightarrow> isBase64UrlChar (sextetChar x)"
  by (auto simp: sextetChar_def isBase64UrlChar_def)

lemma charSextet_sextetChar [simp]: "x < 64 \<Longrightarrow> charSextet (sextetChar x) = x"
  by (auto simp: sextetChar_def charSextet_def)

lemma digits_div: "y < k \<Longrightarrow> (x * k + y) div k = (x :: nat)" "x * k div k = x" if "0 < k"
  using that by simp_all

lemma digits_mod: "y < k \<Longrightarrow> (x * k + y) mod k = (y :: nat)" "x * k mod k = (0 :: nat)"
  by simp_all

lemma byte_div:
  fixes b :: nat
  shows "b < 256 \<Longrightarrow> b div 4 < 64" "b < 256 \<Longrightarrow> b div 16 < 16" "b < 256 \<Longrightarrow> b div 64 < 4"
  by (simp_all add: less_mult_imp_div_less)

lemma sextet_bounds:
  fixes a b c :: nat
  shows "a < 256 \<Longrightarrow> a div 4 < 64" "a mod 4 * 16 < 64" "b < 256 \<Longrightarrow> a mod 4 * 16 + b div 16 < 64"
    "b mod 16 * 4 < 64" "c < 256 \<Longrightarrow> b mod 16 * 4 + c div 64 < 64" "c mod 64 < 64"
proof -
  have m: "a mod 4 < 4" "b mod 16 < 16" by simp_all
  show "a < 256 \<Longrightarrow> a div 4 < 64" by (rule byte_div)
  show "a mod 4 * 16 < 64" "b mod 16 * 4 < 64" using m by linarith+
  show "b < 256 \<Longrightarrow> a mod 4 * 16 + b div 16 < 64" using m byte_div(2) [of b] by linarith
  show "c < 256 \<Longrightarrow> b mod 16 * 4 + c div 64 < 64" using m byte_div(3) [of c] by linarith
qed simp

lemma toSextets_less: "isBytes bs \<Longrightarrow> \<forall>x\<in>set (toSextets bs). x < 64"
  by (induction bs rule: toSextets.induct) (simp_all add: isBytes_def sextet_bounds del: div_less_iff_less_mult)

lemma byte_halves:
  fixes a b c :: nat
  shows "a div 4 * 4 + a mod 4 * 16 div 16 = a" "b < 256 \<Longrightarrow> a div 4 * 4 + (a mod 4 * 16 + b div 16) div 16 = a"
    "b < 256 \<Longrightarrow> (a mod 4 * 16 + b div 16) mod 16 * 16 + b mod 16 * 4 div 4 = b"
    "b < 256 \<Longrightarrow> c < 256 \<Longrightarrow> (a mod 4 * 16 + b div 16) mod 16 * 16 + (b mod 16 * 4 + c div 64) div 4 = b"
    "c < 256 \<Longrightarrow> (b mod 16 * 4 + c div 64) mod 4 * 64 + c mod 64 = c"
proof -
  show "a div 4 * 4 + a mod 4 * 16 div 16 = a" by (simp add: digits_div div_mult_mod_eq)
  show "b < 256 \<Longrightarrow> a div 4 * 4 + (a mod 4 * 16 + b div 16) div 16 = a"
    by (simp only: digits_div(1) [OF _ byte_div(2)] zero_less_numeral div_mult_mod_eq)
  show "b < 256 \<Longrightarrow> (a mod 4 * 16 + b div 16) mod 16 * 16 + b mod 16 * 4 div 4 = b"
    by (simp only: digits_mod(1) [OF byte_div(2)] digits_div(2) zero_less_numeral div_mult_mod_eq)
  show "b < 256 \<Longrightarrow> c < 256 \<Longrightarrow> (a mod 4 * 16 + b div 16) mod 16 * 16 + (b mod 16 * 4 + c div 64) div 4 = b"
    by (simp only: digits_mod(1) [OF byte_div(2)] digits_div(1) [OF _ byte_div(3)] zero_less_numeral div_mult_mod_eq)
  show "c < 256 \<Longrightarrow> (b mod 16 * 4 + c div 64) mod 4 * 64 + c mod 64 = c"
    by (simp only: digits_mod(1) [OF byte_div(3)] div_mult_mod_eq)
qed

lemma fromSextets_toSextets: "isBytes bs \<Longrightarrow> fromSextets (toSextets bs) = bs"
proof (induction bs rule: toSextets.induct)
  case (3 a b)
  then show ?case unfolding toSextets.simps fromSextets.simps isBytes_def by (simp only: byte_halves list.set ball_simps insert_iff)
next
  case (4 a b c bs)
  then have "a < 256" "b < 256" "c < 256" "fromSextets (toSextets bs) = bs" by (simp_all add: isBytes_def)
  then show ?case
    unfolding toSextets.simps fromSextets.simps append.simps by (simp only: byte_halves)
qed (simp_all only: toSextets.simps fromSextets.simps byte_halves)

lemma buffer_round_trip [simp]: "isBytes bs \<Longrightarrow> bufferFromBase64Url (encodeBase64Url bs) = bs"
proof -
  assume b: "isBytes bs"
  have "map (charSextet \<circ> sextetChar) (toSextets bs) = map id (toSextets bs)"
    by (rule map_cong) (use toSextets_less [OF b] in auto)
  then show ?thesis using fromSextets_toSextets [OF b] by (simp add: bufferFromBase64Url_def encodeBase64Url_def)
qed

lemma encodeBase64Url_chars: "isBytes bs \<Longrightarrow> \<forall>c\<in>set (encodeBase64Url bs). isBase64UrlChar c"
  using toSextets_less [of bs] by (auto simp: encodeBase64Url_def sextetChar_char)

lemma encodeBase64Url_Nil [simp]: "encodeBase64Url bs = [] \<longleftrightarrow> bs = []"
  by (cases bs rule: toSextets.cases) (simp_all add: encodeBase64Url_def)

section \<open>Splitting\<close>

fun splitOn :: "nat \<Rightarrow> jsstr \<Rightarrow> jsstr list" where
  "splitOn c [] = [[]]"
| "splitOn c (x # xs) = (if x = c then [] # splitOn c xs
     else (case splitOn c xs of [] \<Rightarrow> [[x]] | y # ys \<Rightarrow> (x # y) # ys))"

lemma splitOn_last: "c \<notin> set a \<Longrightarrow> splitOn c a = [a]"
  by (induction a) auto

lemma splitOn_append: "c \<notin> set a \<Longrightarrow> splitOn c (a @ c # b) = a # splitOn c b"
  by (induction a) auto

end
