(* ===== verification/Password.thy ===== *)
theory Password
  imports Currency Base64Url
begin

text \<open>
  \<open>src/server/auth/password.ts\<close>: user names, the bounds on passwords, and the stored form of a password
  hash. The record \<open>auth_env\<close> collects what the authentication code takes from outside the repository:
  \<open>toLowerCase\<close>, the hash and the key derivation of \<open>node:crypto\<close>, its random bytes, and the clock.
\<close>

section \<open>Outside the repository\<close>

text \<open>
  \<open>aeSha256\<close> is the hexadecimal SHA-256 digest of the UTF-8 form of a text, \<open>aeScrypt\<close> the key \<open>scrypt\<close>
  derives from a password and a salt at the parameters of the code, \<open>aeRandom n k\<close> the \<open>k\<close> bytes of the
  \<open>n\<close>th call of \<open>randomBytes\<close>, \<open>aeNow n\<close> the \<open>n\<close>th reading of the clock, \<open>aeUrl\<close> the constructor \<open>URL\<close>, which
  throws or gives the parts of the address, and \<open>aeWriteBusy n\<close> whether another connection holds the
  write lock of SQLite at the \<open>n\<close>th immediate transaction.
\<close>

record parsed_url =
  urlProtocol :: jsstr
  urlUsername :: jsstr
  urlPassword :: jsstr
  urlPathname :: jsstr
  urlSearch :: jsstr
  urlHash :: jsstr
  urlHostname :: jsstr
  urlOrigin :: jsstr

record auth_env =
  aeLower :: "jsstr \<Rightarrow> jsstr"
  aeUrl :: "jsstr \<Rightarrow> parsed_url option"
  aeSha256 :: "jsstr \<Rightarrow> jsstr"
  aeScrypt :: "jsstr \<Rightarrow> nat list \<Rightarrow> nat list"
  aeRandom :: "nat \<Rightarrow> nat \<Rightarrow> nat list"
  aeNow :: "nat \<Rightarrow> int"
  aeWriteBusy :: "nat \<Rightarrow> bool"

text \<open>Documented: bytes are bytes, as many as asked for, and the derived key has the length asked for.\<close>

definition SCRYPT_N :: nat where "SCRYPT_N = 32768"
definition SCRYPT_R :: nat where "SCRYPT_R = 8"
definition SCRYPT_P :: nat where "SCRYPT_P = 1"
definition SCRYPT_SALT_BYTES :: nat where "SCRYPT_SALT_BYTES = 16"
definition SCRYPT_KEY_BYTES :: nat where "SCRYPT_KEY_BYTES = 32"

definition crypto_ok :: "auth_env \<Rightarrow> bool" where
  "crypto_ok env \<longleftrightarrow> (\<forall>n k. length (aeRandom env n k) = k \<and> isBytes (aeRandom env n k))
     \<and> (\<forall>p s. length (aeScrypt env p s) = SCRYPT_KEY_BYTES \<and> isBytes (aeScrypt env p s))"

section \<open>User names and passwords\<close>

definition USERNAME_MIN_LENGTH :: nat where "USERNAME_MIN_LENGTH = 3"
definition USERNAME_MAX_LENGTH :: nat where "USERNAME_MAX_LENGTH = 32"
definition PASSWORD_MIN_LENGTH :: nat where "PASSWORD_MIN_LENGTH = 12"
definition PASSWORD_MAX_LENGTH :: nat where "PASSWORD_MAX_LENGTH = 256"

text \<open>\<open>Array.from\<close> on a text: a surrogate pair is one element.\<close>

fun codePointLength :: "jsstr \<Rightarrow> nat" where
  "codePointLength [] = 0"
| "codePointLength [c] = 1"
| "codePointLength (c # d # s) =
     (if 55296 \<le> c \<and> c \<le> 56319 \<and> 56320 \<le> d \<and> d \<le> 57343 then Suc (codePointLength s)
      else Suc (codePointLength (d # s)))"

definition userEnd :: "nat \<Rightarrow> bool" where
  "userEnd c \<longleftrightarrow> 97 \<le> c \<and> c \<le> 122 \<or> isDigit c"

definition userMiddle :: "nat \<Rightarrow> bool" where
  "userMiddle c \<longleftrightarrow> userEnd c \<or> c = 46 \<or> c = 95 \<or> c = 45"

definition usernamePattern :: "jsstr \<Rightarrow> bool" where
  "usernamePattern s \<longleftrightarrow> (case s of [] \<Rightarrow> False | c # r \<Rightarrow> userEnd c \<and>
     (r = [] \<or> userEnd (last r) \<and> list_all userMiddle (butlast r) \<and> 1 \<le> length (butlast r) \<and> length (butlast r) \<le> 30))"

definition normalizeUsername :: "auth_env \<Rightarrow> jsval \<Rightarrow> jsstr option" where
  "normalizeUsername env value = (case value of
     JStr s \<Rightarrow> (let normalized = aeLower env (trim s) in
       if codePointLength normalized < USERNAME_MIN_LENGTH \<or> codePointLength normalized > USERNAME_MAX_LENGTH
          \<or> \<not> usernamePattern normalized
       then None else Some normalized)
   | _ \<Rightarrow> None)"

definition isValidUsername :: "auth_env \<Rightarrow> jsval \<Rightarrow> bool" where
  "isValidUsername env value \<longleftrightarrow> normalizeUsername env value \<noteq> None"

text \<open>\<open>validatePassword\<close> returns or throws.\<close>

definition validatePassword :: "jsval \<Rightarrow> bool" where
  "validatePassword value = (case value of
     JStr s \<Rightarrow> \<not> (codePointLength s < PASSWORD_MIN_LENGTH \<or> codePointLength s > PASSWORD_MAX_LENGTH)
   | _ \<Rightarrow> False)"

definition isValidPassword :: "jsval \<Rightarrow> bool" where
  "isValidPassword value = validatePassword value"

section \<open>The stored hash\<close>

record ParsedPasswordHash =
  phSalt :: "nat list"
  phDerivedKey :: "nat list"

definition decodeBase64Url :: "jsstr \<Rightarrow> nat \<Rightarrow> nat list option" where
  "decodeBase64Url value expectedBytes =
     (if value = [] \<or> \<not> list_all isBase64UrlChar value then None
      else let decoded = bufferFromBase64Url value in
        if length decoded \<noteq> expectedBytes \<or> encodeBase64Url decoded \<noteq> value then None else Some decoded)"

text \<open>The pattern \<open>N=(digits),r=(digits),p=(digits)\<close>, with the values of its groups.\<close>

definition takePrefix :: "jsstr \<Rightarrow> jsstr \<Rightarrow> jsstr option" where
  "takePrefix p s = (if take (length p) s = p then Some (drop (length p) s) else None)"

definition takeNumber :: "jsstr \<Rightarrow> (nat \<times> jsstr) option" where
  "takeNumber s = (let d = takeWhile isDigit s in
     if d = [] then None else Some (decimalValue d, dropWhile isDigit s))"

definition matchField :: "jsstr \<Rightarrow> jsstr \<Rightarrow> (nat \<times> jsstr) option" where
  "matchField p s = (case takePrefix p s of None \<Rightarrow> None | Some r \<Rightarrow> takeNumber r)"

definition matchParameters :: "jsstr \<Rightarrow> (nat \<times> nat \<times> nat) option" where
  "matchParameters s = (case matchField (js ''N='') s of None \<Rightarrow> None | Some (n, s1) \<Rightarrow>
     case matchField (js '',r='') s1 of None \<Rightarrow> None | Some (r, s2) \<Rightarrow>
     case matchField (js '',p='') s2 of None \<Rightarrow> None | Some (p, s3) \<Rightarrow>
     if s3 = [] then Some (n, r, p) else None)"

definition parsePasswordHash :: "jsstr \<Rightarrow> ParsedPasswordHash option" where
  "parsePasswordHash encoded = (case splitOn 36 encoded of
     [algorithm, version, parameters, salt, key] \<Rightarrow>
       if algorithm \<noteq> js ''scrypt'' \<or> version \<noteq> js ''v1'' then None
       else (case matchParameters parameters of None \<Rightarrow> None | Some (n, r, p) \<Rightarrow>
         if n \<noteq> SCRYPT_N \<or> r \<noteq> SCRYPT_R \<or> p \<noteq> SCRYPT_P then None
         else case decodeBase64Url salt SCRYPT_SALT_BYTES of None \<Rightarrow> None | Some s \<Rightarrow>
           case decodeBase64Url key SCRYPT_KEY_BYTES of None \<Rightarrow> None | Some k \<Rightarrow>
           Some \<lparr>phSalt = s, phDerivedKey = k\<rparr>)
   | _ \<Rightarrow> None)"

definition encodePasswordHash :: "nat list \<Rightarrow> nat list \<Rightarrow> jsstr" where
  "encodePasswordHash salt derivedKey =
     js ''scrypt$v1$'' @ js ''N='' @ natText SCRYPT_N @ js '',r='' @ natText SCRYPT_R @ js '',p='' @ natText SCRYPT_P
       @ js ''$'' @ encodeBase64Url salt @ js ''$'' @ encodeBase64Url derivedKey"

section \<open>Hashing and verifying\<close>

text \<open>
  Both run their key derivation in the guard, so each has a part before it and a part after it.
  \<open>hashPassword\<close> draws the salt first; the text it resolves to is \<open>hashResult\<close>. \<open>verifyStart\<close> is the hash the
  derivation runs against, \<open>None\<close> when the promise is \<open>false\<close> without one, and \<open>verifyResult\<close> the answer.
\<close>

definition hashResult :: "auth_env \<Rightarrow> jsstr \<Rightarrow> nat list \<Rightarrow> jsstr" where
  "hashResult env password salt = encodePasswordHash salt (aeScrypt env password salt)"

definition verifyStart :: "jsval \<Rightarrow> jsstr \<Rightarrow> ParsedPasswordHash option" where
  "verifyStart password encodedHash =
     (if \<not> isValidPassword password then None else parsePasswordHash encodedHash)"

definition verifyResult :: "auth_env \<Rightarrow> jsstr \<Rightarrow> ParsedPasswordHash \<Rightarrow> bool" where
  "verifyResult env password parsed =
     (let candidate = aeScrypt env password (phSalt parsed) in
      if length candidate \<noteq> length (phDerivedKey parsed) then False else candidate = phDerivedKey parsed)"

definition verifyPassword :: "auth_env \<Rightarrow> jsval \<Rightarrow> jsstr \<Rightarrow> bool" where
  "verifyPassword env password encodedHash =
     (case verifyStart password encodedHash of None \<Rightarrow> False
      | Some parsed \<Rightarrow> (case password of JStr p \<Rightarrow> verifyResult env p parsed | _ \<Rightarrow> False))"

section \<open>Facts\<close>

lemma normalizeUsername_pattern:
  "normalizeUsername env v = Some u \<Longrightarrow> usernamePattern u \<and> u \<noteq> []"
  by (auto simp: normalizeUsername_def Let_def usernamePattern_def split: jsval.splits if_splits)

lemma decodeBase64Url_encode [simp]:
  "isBytes bs \<Longrightarrow> bs \<noteq> [] \<Longrightarrow> decodeBase64Url (encodeBase64Url bs) (length bs) = Some bs"
  using encodeBase64Url_chars [of bs] by (simp add: decodeBase64Url_def list_all_iff)

lemma decodeBase64Url_Some:
  "decodeBase64Url v n = Some bs \<Longrightarrow> length bs = n \<and> encodeBase64Url bs = v"
  by (auto simp: decodeBase64Url_def Let_def split: if_splits)

lemma parameters_text:
  "js ''N='' @ natText SCRYPT_N @ js '',r='' @ natText SCRYPT_R @ js '',p='' @ natText SCRYPT_P
   = [78, 61, 51, 50, 55, 54, 56, 44, 114, 61, 56, 44, 112, 61, 49]"
  by (simp add: js_def SCRYPT_N_def SCRYPT_R_def SCRYPT_P_def natText.simps)

lemma encode_parse:
  assumes "length salt = SCRYPT_SALT_BYTES" "isBytes salt" "length key = SCRYPT_KEY_BYTES" "isBytes key"
  shows "parsePasswordHash (encodePasswordHash salt key) = Some \<lparr>phSalt = salt, phDerivedKey = key\<rparr>"
proof -
  let ?p = "[78, 61, 51, 50, 55, 54, 56, 44, 114, 61, 56, 44, 112, 61, 49] :: jsstr"
  have e: "encodePasswordHash salt key
      = js ''scrypt'' @ 36 # js ''v1'' @ 36 # ?p @ 36 # encodeBase64Url salt @ 36 # encodeBase64Url key"
    using parameters_text by (simp add: encodePasswordHash_def js_def)
  have nd: "36 \<notin> set (encodeBase64Url bs)" if "isBytes bs" for bs
    using encodeBase64Url_chars [OF that] by (auto simp: isBase64UrlChar_def)
  have m: "36 \<notin> set (js ''scrypt'')" "36 \<notin> set (js ''v1'')" "36 \<notin> set ?p" by code_simp+
  have "splitOn 36 (encodePasswordHash salt key)
      = [js ''scrypt'', js ''v1'', ?p, encodeBase64Url salt, encodeBase64Url key]"
    unfolding e
    by (simp only: splitOn_append [OF m(1)] splitOn_append [OF m(2)] splitOn_append [OF m(3)]
        splitOn_append [OF nd [OF assms(2)]] splitOn_last [OF nd [OF assms(4)]])
  moreover have "matchParameters ?p = Some (SCRYPT_N, SCRYPT_R, SCRYPT_P)"
    by (simp add: matchParameters_def matchField_def takePrefix_def takeNumber_def js_def isDigit_def decimalValue_def Let_def
        SCRYPT_N_def SCRYPT_R_def SCRYPT_P_def)
  moreover have "salt \<noteq> []" "key \<noteq> []"
    using assms(1,3) by (auto simp: SCRYPT_SALT_BYTES_def SCRYPT_KEY_BYTES_def)
  ultimately show ?thesis
    using assms decodeBase64Url_encode [of salt] decodeBase64Url_encode [of key] by (simp add: parsePasswordHash_def)
qed

lemma verify_hash:
  assumes "crypto_ok env" "isValidPassword (JStr p)" "length salt = SCRYPT_SALT_BYTES" "isBytes salt"
  shows "verifyPassword env (JStr q) (hashResult env p salt)
     \<longleftrightarrow> isValidPassword (JStr q) \<and> aeScrypt env q salt = aeScrypt env p salt"
  using assms
  by (auto simp: verifyPassword_def verifyStart_def hashResult_def encode_parse crypto_ok_def verifyResult_def Let_def)

end
