(* ===== verification/AuthConfig.thy ===== *)
theory AuthConfig
  imports Password
begin

text \<open>
  \<open>src/server/auth/config.ts\<close>, \<open>csrf.ts\<close> and \<open>bootstrap.ts\<close>: the public origin and the one session
  cookie that goes with it, the same-origin policy on unsafe methods, and the one-time setup token.
\<close>

section \<open>The public origin\<close>

definition SESSION_LIFETIME_MS :: int where "SESSION_LIFETIME_MS = 30 * 24 * 60 * 60 * 1000"
definition SESSION_LAST_SEEN_UPDATE_INTERVAL_MS :: int where "SESSION_LAST_SEEN_UPDATE_INTERVAL_MS = 60 * 60 * 1000"
definition SECURE_SESSION_COOKIE_NAME :: jsstr where "SECURE_SESSION_COOKIE_NAME = js ''__Host-docus_session''"
definition LOCAL_SESSION_COOKIE_NAME :: jsstr where "LOCAL_SESSION_COOKIE_NAME = js ''docus_session''"

record AuthCookieProfile =
  cookieName :: jsstr
  cookieSecure :: bool
  cookieHttpOnly :: bool
  cookieSameSite :: jsstr
  cookiePath :: jsstr

record AuthConfig =
  publicOrigin :: jsstr
  cookie :: AuthCookieProfile
  sessionLifetimeMs :: int
  sessionLastSeenUpdateIntervalMs :: int
  revokeSessionsOnStart :: bool

definition LOOPBACK_HTTP_HOSTS :: "jsstr list" where
  "LOOPBACK_HTTP_HOSTS = [js ''localhost'', js ''127.0.0.1'', js ''[::1]'']"

definition cookieProfile :: "bool \<Rightarrow> AuthCookieProfile" where
  "cookieProfile secure = (if secure
     then \<lparr>cookieName = SECURE_SESSION_COOKIE_NAME, cookieSecure = True, cookieHttpOnly = True,
           cookieSameSite = js ''Lax'', cookiePath = js ''/''\<rparr>
     else \<lparr>cookieName = LOCAL_SESSION_COOKIE_NAME, cookieSecure = False, cookieHttpOnly = True,
           cookieSameSite = js ''Lax'', cookiePath = js ''/''\<rparr>)"

text \<open>\<open>None\<close> is the \<open>AuthConfigError\<close>.\<close>

definition parsePublicOrigin :: "auth_env \<Rightarrow> jsval \<Rightarrow> AuthConfig option" where
  "parsePublicOrigin env value = (case value of
     JStr s \<Rightarrow> (let raw = trim s in
       if raw = [] then None
       else case aeUrl env raw of None \<Rightarrow> None
       | Some url \<Rightarrow>
           if urlProtocol url \<noteq> js ''http:'' \<and> urlProtocol url \<noteq> js ''https:'' then None
           else if urlUsername url \<noteq> [] \<or> urlPassword url \<noteq> [] then None
           else if urlPathname url \<noteq> js ''/'' \<or> urlSearch url \<noteq> [] \<or> urlHash url \<noteq> [] then None
           else let secure = (urlProtocol url = js ''https:'') in
             if \<not> secure \<and> urlHostname url \<notin> set LOOPBACK_HTTP_HOSTS then None
             else Some \<lparr>publicOrigin = urlOrigin url, cookie = cookieProfile secure,
                    sessionLifetimeMs = SESSION_LIFETIME_MS,
                    sessionLastSeenUpdateIntervalMs = SESSION_LAST_SEEN_UPDATE_INTERVAL_MS,
                    revokeSessionsOnStart = False\<rparr>)
   | _ \<Rightarrow> None)"

text \<open>The two variables of the process environment it reads.\<close>

definition loadAuthConfig :: "auth_env \<Rightarrow> jsstr option \<Rightarrow> jsstr option \<Rightarrow> AuthConfig option" where
  "loadAuthConfig env origin revoke =
     (case parsePublicOrigin env (JStr (case origin of None \<Rightarrow> [] | Some s \<Rightarrow> s)) of None \<Rightarrow> None
      | Some config \<Rightarrow> Some (config\<lparr>revokeSessionsOnStart := (revoke = Some (js ''1''))\<rparr>))"

definition activeSessionCookieName :: "AuthConfig \<Rightarrow> jsstr" where
  "activeSessionCookieName config = cookieName (cookie config)"

text \<open>Plain HTTP is for loopback hosts, and the cookie is \<open>Secure\<close> on every other origin.\<close>

lemma loadAuthConfig_secure:
  assumes "loadAuthConfig env origin revoke = Some config"
  shows "\<exists>s url. origin = Some s \<and> aeUrl env (trim s) = Some url \<and> publicOrigin config = urlOrigin url
    \<and> cookie config = cookieProfile (urlProtocol url = js ''https:'')
    \<and> (urlProtocol url = js ''https:'' \<or> urlHostname url \<in> set LOOPBACK_HTTP_HOSTS)"
  using assms
  by (auto simp: loadAuthConfig_def parsePublicOrigin_def Let_def trim_def split: option.splits if_splits)

section \<open>Requests\<close>

text \<open>
  The parts of a request the authentication code reads: method and path, the headers under lower-case names
  (\<open>Headers.get\<close>), the cookies, the client's abort signal, whether the body is over the limit of \<open>hono/body-limit\<close>,
  and the value of \<open>c.req.json()\<close>, \<open>None\<close> when it throws. Methods are ASCII tokens.
\<close>

record http_request =
  rqMethod :: jsstr
  rqPath :: jsstr
  rqHeaders :: "(jsstr \<times> jsstr) list"
  rqCookies :: "(jsstr \<times> jsstr) list"
  rqSignal :: "nat option"
  rqTooLarge :: bool
  rqJson :: "jsval option"

definition header :: "http_request \<Rightarrow> string \<Rightarrow> jsstr option" where
  "header r name = map_of (rqHeaders r) (js name)"

definition textUpper :: "jsstr \<Rightarrow> jsstr" where
  "textUpper s = map (\<lambda>c. if 97 \<le> c \<and> c \<le> 122 then c - 32 else c) s"

definition textLower :: "jsstr \<Rightarrow> jsstr" where
  "textLower s = map (\<lambda>c. if 65 \<le> c \<and> c \<le> 90 then c + 32 else c) s"

section \<open>The same-origin policy\<close>

datatype CsrfFailureCode = CsrfOriginMismatch | CsrfCrossSite | InvalidContentType

definition UNSAFE_METHODS :: "jsstr list" where
  "UNSAFE_METHODS = [js ''POST'', js ''PUT'', js ''PATCH'', js ''DELETE'']"

definition isUnsafeMethod :: "jsstr \<Rightarrow> bool" where
  "isUnsafeMethod m \<longleftrightarrow> textUpper m \<in> set UNSAFE_METHODS"

text \<open>\<open>None\<close> is \<open>{ ok: true }\<close>.\<close>

definition checkCsrfHeaders :: "auth_env \<Rightarrow> http_request \<Rightarrow> jsstr \<Rightarrow> AuthConfig \<Rightarrow> CsrfFailureCode option" where
  "checkCsrfHeaders env r m config =
     (if \<not> isUnsafeMethod m then None
      else if (case header r ''origin'' of None \<Rightarrow> False | Some origin \<Rightarrow> origin \<noteq> publicOrigin config)
      then Some CsrfOriginMismatch
      else if map_option (aeLower env) (header r ''sec-fetch-site'') = Some (js ''cross-site'')
      then Some CsrfCrossSite
      else None)"

text \<open>The pattern \<open>/^application\/json\s*(?:;|$)/i\<close>.\<close>

definition jsonTypePattern :: "jsstr \<Rightarrow> bool" where
  "jsonTypePattern s = (case takePrefix (js ''application/json'') (textLower s) of None \<Rightarrow> False
     | Some _ \<Rightarrow> (case dropWhile jsSpace (drop 16 s) of [] \<Rightarrow> True | c # _ \<Rightarrow> c = 59))"

definition hasJsonContentType :: "http_request \<Rightarrow> bool" where
  "hasJsonContentType r = (case header r ''content-type'' of None \<Rightarrow> False | Some s \<Rightarrow> jsonTypePattern s)"

definition checkJsonContentType :: "http_request \<Rightarrow> CsrfFailureCode option" where
  "checkJsonContentType r = (if hasJsonContentType r then None else Some InvalidContentType)"

lemma checkCsrfHeaders_None:
  assumes "checkCsrfHeaders env r m config = None" "isUnsafeMethod m"
  shows "header r ''origin'' = None \<or> header r ''origin'' = Some (publicOrigin config)"
    and "map_option (aeLower env) (header r ''sec-fetch-site'') \<noteq> Some (js ''cross-site'')"
  using assms by (auto simp: checkCsrfHeaders_def split: if_splits option.splits)

section \<open>The setup token\<close>

definition MIN_EXPLICIT_BOOTSTRAP_TOKEN_BYTES :: nat where "MIN_EXPLICIT_BOOTSTRAP_TOKEN_BYTES = 32"

record BootstrapState =
  bsToken :: "jsstr option"
  bsClosed :: bool
  bsLoggedFallback :: bool
  bsLog :: "jsstr list"

text \<open>\<open>Buffer.byteLength(s, 'utf8')\<close>: a surrogate pair has four bytes, a lone surrogate the three of U+FFFD.\<close>

fun utf8ByteLength :: "jsstr \<Rightarrow> nat" where
  "utf8ByteLength [] = 0"
| "utf8ByteLength [c] = (if c < 128 then 1 else if c < 2048 then 2 else 3)"
| "utf8ByteLength (c # d # s) =
     (if 55296 \<le> c \<and> c \<le> 56319 \<and> 56320 \<le> d \<and> d \<le> 57343 then 4 + utf8ByteLength s
      else (if c < 128 then 1 else if c < 2048 then 2 else 3) + utf8ByteLength (d # s))"

definition newBootstrapState :: "jsstr option \<Rightarrow> BootstrapState" where
  "newBootstrapState t = \<lparr>bsToken = t, bsClosed = (t = None), bsLoggedFallback = False, bsLog = []\<rparr>"

definition logFallbackOnce :: "BootstrapState \<Rightarrow> BootstrapState" where
  "logFallbackOnce b = (case bsToken b of
     Some t \<Rightarrow> if bsLoggedFallback b then b
       else b\<lparr>bsLoggedFallback := True, bsLog := bsLog b @ [js ''[docus] generated one-time setup token: '' @ t]\<rparr>
   | None \<Rightarrow> b)"

text \<open>\<open>BootstrapState.create\<close> with the bytes it drew; \<open>None\<close> is its \<open>RangeError\<close>.\<close>

definition fallbackBootstrapState :: "jsval option \<Rightarrow> (nat \<Rightarrow> nat list) \<Rightarrow> BootstrapState option" where
  "fallbackBootstrapState randomTokenBytes draw = (case (case randomTokenBytes of None \<Rightarrow> JInt 32 | Some v \<Rightarrow> v) of
     JInt n \<Rightarrow> (if n < int MIN_EXPLICIT_BOOTSTRAP_TOKEN_BYTES then None
       else Some (logFallbackOnce (newBootstrapState (Some (encodeBase64Url (draw (nat n)))))))
   | _ \<Rightarrow> None)"

definition createBootstrapState :: "bool \<Rightarrow> jsstr option \<Rightarrow> jsval option \<Rightarrow> (nat \<Rightarrow> nat list) \<Rightarrow> BootstrapState option" where
  "createBootstrapState ownerExists explicitToken randomTokenBytes draw =
     (if ownerExists then Some (newBootstrapState None)
      else case explicitToken of
        Some t \<Rightarrow> (if t \<noteq> [] then
            (if utf8ByteLength t < MIN_EXPLICIT_BOOTSTRAP_TOKEN_BYTES then None else Some (newBootstrapState (Some t)))
          else fallbackBootstrapState randomTokenBytes draw)
      | None \<Rightarrow> fallbackBootstrapState randomTokenBytes draw)"

definition bootstrapVerify :: "auth_env \<Rightarrow> BootstrapState \<Rightarrow> jsval \<Rightarrow> bool" where
  "bootstrapVerify env b provided = (case provided of
     JStr p \<Rightarrow> (if bsClosed b then False
       else case bsToken b of None \<Rightarrow> False | Some t \<Rightarrow> aeSha256 env t = aeSha256 env p)
   | _ \<Rightarrow> False)"

definition markOwnerCommitted :: "BootstrapState \<Rightarrow> BootstrapState" where
  "markOwnerCommitted b = b\<lparr>bsToken := None, bsClosed := True\<rparr>"

lemma markOwnerCommitted_closes [simp]:
  "bsClosed (markOwnerCommitted b)" "bsToken (markOwnerCommitted b) = None"
  "\<not> bootstrapVerify env (markOwnerCommitted b) v"
  by (simp_all add: markOwnerCommitted_def bootstrapVerify_def split: jsval.split)

lemma bootstrapVerify_closed: "bsClosed b \<Longrightarrow> \<not> bootstrapVerify env b v"
  by (simp add: bootstrapVerify_def split: jsval.split)

text \<open>The operator's token is never logged, and a generated one is logged once.\<close>

lemma createBootstrapState_log:
  assumes "createBootstrapState owner t n draw = Some b"
  shows "bsLog b = [] \<or> (\<exists>k. (t = None \<or> t = Some []) \<and> MIN_EXPLICIT_BOOTSTRAP_TOKEN_BYTES \<le> k
    \<and> bsToken b = Some (encodeBase64Url (draw k))
    \<and> bsLog b = [js ''[docus] generated one-time setup token: '' @ encodeBase64Url (draw k)])"
proof (cases "\<not> owner \<and> (t = None \<or> t = Some [])")
  case True
  then have "fallbackBootstrapState n draw = Some b" using assms by (auto simp: createBootstrapState_def)
  then obtain i where "\<not> i < int MIN_EXPLICIT_BOOTSTRAP_TOKEN_BYTES"
    "b = logFallbackOnce (newBootstrapState (Some (encodeBase64Url (draw (nat i)))))"
    unfolding fallbackBootstrapState_def
    by (cases "case n of None \<Rightarrow> JInt 32 | Some v \<Rightarrow> v") (auto split: if_split_asm)
  then show ?thesis using True
    by (intro disjI2 exI [of _ "nat i"]) (auto simp: logFallbackOnce_def newBootstrapState_def)
next
  case False
  then have "b = newBootstrapState None \<or> (\<exists>s. b = newBootstrapState (Some s))"
    using assms by (auto simp: createBootstrapState_def split: if_split_asm option.split_asm)
  then show ?thesis by (auto simp: newBootstrapState_def)
qed

end
