(* ===== verification/Session.thy ===== *)
theory Session
  imports AuthConfig
begin

text \<open>
  \<open>src/server/auth/session.ts\<close> over the three tables of \<open>0006_authentication.sql\<close>: users, the one row that
  names the owner of the instance, and the sessions. Row identities are \<open>AUTOINCREMENT\<close>: they are never
  given twice. A session stores the digest of its token, never the token.
\<close>

section \<open>Tables\<close>

record UserRow =
  usId :: int
  usUsername :: jsstr
  usNormalized :: jsstr
  usPasswordHash :: jsstr
  usDisabled :: int
  usCreatedAt :: int
  usUpdatedAt :: int

record InstanceRow =
  inOwnerUserId :: int
  inCreatedAt :: int
  inUpdatedAt :: int

record SessionRow =
  srId :: int
  srUserId :: int
  srTokenHash :: jsstr
  srCreatedAt :: int
  srExpiresAt :: int
  srLastSeenAt :: int
  srRevokedAt :: "int option"

record auth_db =
  adbUsers :: "UserRow list"
  adbInstance :: "InstanceRow option"
  adbSessions :: "SessionRow list"
  adbUserSeq :: int
  adbSessionSeq :: int

definition empty_auth_db :: auth_db where
  "empty_auth_db = \<lparr>adbUsers = [], adbInstance = None, adbSessions = [], adbUserSeq = 0, adbSessionSeq = 0\<rparr>"

text \<open>The inserts, with the constraints of the schema.\<close>

definition insertUser :: "jsstr \<Rightarrow> jsstr \<Rightarrow> jsstr \<Rightarrow> int \<Rightarrow> auth_db \<Rightarrow> (auth_db \<times> int) res" where
  "insertUser username normalized hash now db =
     (if normalized \<in> usNormalized ` set (adbUsers db) then Inl SqlConstraint
      else let i = adbUserSeq db + 1 in
        Inr (db\<lparr>adbUsers := adbUsers db @ [\<lparr>usId = i, usUsername = username, usNormalized = normalized,
                 usPasswordHash = hash, usDisabled = 0, usCreatedAt = now, usUpdatedAt = now\<rparr>], adbUserSeq := i\<rparr>, i))"

definition insertInstance :: "int \<Rightarrow> int \<Rightarrow> auth_db \<Rightarrow> auth_db res" where
  "insertInstance userId now db =
     (if adbInstance db \<noteq> None \<or> userId \<notin> usId ` set (adbUsers db) then Inl SqlConstraint
      else Inr (db\<lparr>adbInstance := Some \<lparr>inOwnerUserId = userId, inCreatedAt = now, inUpdatedAt = now\<rparr>\<rparr>))"

definition insertSession :: "int \<Rightarrow> jsstr \<Rightarrow> int \<Rightarrow> int \<Rightarrow> auth_db \<Rightarrow> (auth_db \<times> int) res" where
  "insertSession userId tokenHash now expiresAt db =
     (if userId \<notin> usId ` set (adbUsers db) \<or> tokenHash \<in> srTokenHash ` set (adbSessions db) then Inl SqlConstraint
      else let i = adbSessionSeq db + 1 in
        Inr (db\<lparr>adbSessions := adbSessions db @ [\<lparr>srId = i, srUserId = userId, srTokenHash = tokenHash,
                 srCreatedAt = now, srExpiresAt = expiresAt, srLastSeenAt = now, srRevokedAt = None\<rparr>],
               adbSessionSeq := i\<rparr>, i))"

section \<open>Records\<close>

record AuthSessionRecord =
  asnId :: int
  asnUserId :: int
  asnTokenHash :: jsstr
  asnCreatedAt :: int
  asnExpiresAt :: int
  asnLastSeenAt :: int
  asnRevokedAt :: "int option"

datatype SessionLookupStatus = ValidSession | MissingSession | ExpiredSession | RevokedSession | DisabledOwner

record SessionUser =
  suId :: int
  suUsername :: jsstr
  suDisabled :: bool

record SessionLookupResult =
  lkStatus :: SessionLookupStatus
  lkSession :: "AuthSessionRecord option"
  lkUser :: "SessionUser option"

record CreatedSession =
  csRawToken :: jsstr
  csTokenHash :: jsstr
  csSession :: AuthSessionRecord

definition mapSession :: "SessionRow \<Rightarrow> AuthSessionRecord" where
  "mapSession row = \<lparr>asnId = srId row, asnUserId = srUserId row, asnTokenHash = srTokenHash row,
     asnCreatedAt = srCreatedAt row, asnExpiresAt = srExpiresAt row, asnLastSeenAt = srLastSeenAt row,
     asnRevokedAt = srRevokedAt row\<rparr>"

section \<open>Creating and finding\<close>

definition SESSION_TOKEN_BYTES :: nat where "SESSION_TOKEN_BYTES = 32"

text \<open>\<open>generateSessionToken\<close> on its \<open>n\<close>th draw.\<close>

definition generateSessionToken :: "auth_env \<Rightarrow> nat \<Rightarrow> jsstr" where
  "generateSessionToken env n = encodeBase64Url (aeRandom env n SESSION_TOKEN_BYTES)"

definition hashSessionToken :: "auth_env \<Rightarrow> jsstr \<Rightarrow> jsstr" where
  "hashSessionToken env rawToken = (if rawToken = [] then [] else aeSha256 env rawToken)"

definition createSession :: "auth_env \<Rightarrow> nat \<Rightarrow> int \<Rightarrow> int \<Rightarrow> auth_db \<Rightarrow> (auth_db \<times> CreatedSession) res" where
  "createSession env n userId now db =
     (let rawToken = generateSessionToken env n; tokenHash = hashSessionToken env rawToken;
          expiresAt = now + SESSION_LIFETIME_MS
      in bindR (insertSession userId tokenHash now expiresAt db) (\<lambda>(db', i).
         Inr (db', \<lparr>csRawToken = rawToken, csTokenHash = tokenHash,
           csSession = \<lparr>asnId = i, asnUserId = userId, asnTokenHash = tokenHash, asnCreatedAt = now,
             asnExpiresAt = expiresAt, asnLastSeenAt = now, asnRevokedAt = None\<rparr>\<rparr>)))"

text \<open>The join of sessions, users and the instance, one row at most.\<close>

definition joinedRow :: "(SessionRow \<Rightarrow> bool) \<Rightarrow> auth_db \<Rightarrow> (SessionRow \<times> UserRow) option" where
  "joinedRow P db = (case adbInstance db of None \<Rightarrow> None | Some ai \<Rightarrow>
     find (\<lambda>(s, u). P s \<and> usId u = srUserId s \<and> inOwnerUserId ai = usId u)
       (List.product (adbSessions db) (adbUsers db)))"

definition missingSession :: SessionLookupResult where
  "missingSession = \<lparr>lkStatus = MissingSession, lkSession = None, lkUser = None\<rparr>"

definition lookupResult :: "(SessionRow \<times> UserRow) option \<Rightarrow> int \<Rightarrow> SessionLookupResult" where
  "lookupResult row now = (case row of None \<Rightarrow> missingSession
     | Some (s, u) \<Rightarrow>
        if usUsername u = [] then missingSession
        else let session = mapSession s;
                 user = \<lparr>suId = srUserId s, suUsername = usUsername u, suDisabled = (usDisabled u = 1)\<rparr>;
                 answer = (\<lambda>status. \<lparr>lkStatus = status, lkSession = Some session, lkUser = Some user\<rparr>)
          in if asnRevokedAt session \<noteq> None then answer RevokedSession
             else if asnExpiresAt session \<le> now then answer ExpiredSession
             else if suDisabled user then answer DisabledOwner
             else answer ValidSession)"

definition findSessionByRawToken :: "auth_env \<Rightarrow> auth_db \<Rightarrow> jsstr \<Rightarrow> int \<Rightarrow> SessionLookupResult" where
  "findSessionByRawToken env db rawToken now =
     (let tokenHash = hashSessionToken env rawToken in
      if tokenHash = [] then missingSession
      else lookupResult (joinedRow (\<lambda>s. srTokenHash s = tokenHash) db) now)"

definition findSessionById :: "auth_db \<Rightarrow> int \<Rightarrow> int \<Rightarrow> SessionLookupResult" where
  "findSessionById db sessionId now =
     (if \<not> safeInt sessionId \<or> sessionId < 1 then missingSession
      else lookupResult (joinedRow (\<lambda>s. srId s = sessionId) db) now)"

section \<open>Revoking, touching and pruning\<close>

definition updateSessions :: "(SessionRow \<Rightarrow> bool) \<Rightarrow> (SessionRow \<Rightarrow> SessionRow) \<Rightarrow> auth_db \<Rightarrow> auth_db \<times> nat" where
  "updateSessions P f db = (db\<lparr>adbSessions := map (\<lambda>s. if P s then f s else s) (adbSessions db)\<rparr>,
     length (filter P (adbSessions db)))"

definition revokeWhere :: "(SessionRow \<Rightarrow> bool) \<Rightarrow> int \<Rightarrow> auth_db \<Rightarrow> auth_db \<times> nat" where
  "revokeWhere P now = updateSessions (\<lambda>s. P s \<and> srRevokedAt s = None)
     (\<lambda>s. s\<lparr>srRevokedAt := Some (case srRevokedAt s of None \<Rightarrow> now | Some t \<Rightarrow> t)\<rparr>)"

definition revokeSession :: "auth_env \<Rightarrow> jsstr \<Rightarrow> int \<Rightarrow> auth_db \<Rightarrow> auth_db \<times> bool" where
  "revokeSession env rawToken now db =
     (let tokenHash = hashSessionToken env rawToken in
      if tokenHash = [] then (db, False)
      else let (db', changes) = revokeWhere (\<lambda>s. srTokenHash s = tokenHash) now db in (db', changes > 0))"

definition revokeSessionById :: "int \<Rightarrow> int \<Rightarrow> auth_db \<Rightarrow> auth_db \<times> bool" where
  "revokeSessionById sessionId now db =
     (let (db', changes) = revokeWhere (\<lambda>s. srId s = sessionId) now db in (db', changes > 0))"

definition revokeAllSessions :: "int \<Rightarrow> int \<Rightarrow> auth_db \<Rightarrow> auth_db \<times> nat" where
  "revokeAllSessions userId now db = revokeWhere (\<lambda>s. srUserId s = userId) now db"

definition deleteExpiredSessions :: "int \<Rightarrow> auth_db \<Rightarrow> auth_db" where
  "deleteExpiredSessions now db = db\<lparr>adbSessions := filter (\<lambda>s. \<not> srExpiresAt s \<le> now) (adbSessions db)\<rparr>"

text \<open>\<open>touchSessionLastSeen\<close>; \<open>Inl InternalError\<close> is the \<open>RangeError\<close> on a negative interval.\<close>

definition touchSessionLastSeen :: "int \<Rightarrow> int \<Rightarrow> int \<Rightarrow> auth_db \<Rightarrow> (auth_db \<times> bool) res" where
  "touchSessionLastSeen sessionId now minimumIntervalMs db =
     (if minimumIntervalMs < 0 then Inl InternalError
      else let (db', changes) = updateSessions (\<lambda>s. srId s = sessionId \<and> srRevokedAt s = None \<and> srExpiresAt s > now
             \<and> srLastSeenAt s \<le> now - minimumIntervalMs) (\<lambda>s. s\<lparr>srLastSeenAt := now\<rparr>) db
        in Inr (db', changes > 0))"

text \<open>The one cookie of the origin's profile; an empty cookie is none.\<close>

definition selectSessionToken :: "(jsstr \<times> jsstr) list \<Rightarrow> AuthConfig \<Rightarrow> jsstr option" where
  "selectSessionToken cookies config = (case map_of cookies (cookieName (cookie config)) of
     Some rawToken \<Rightarrow> if rawToken \<noteq> [] then Some rawToken else None | None \<Rightarrow> None)"

section \<open>What a session can do\<close>

text \<open>The tables in a good state: identities below the counters, the owner a user.\<close>

definition auth_db_ok :: "auth_db \<Rightarrow> bool" where
  "auth_db_ok db \<longleftrightarrow> distinct (map usId (adbUsers db)) \<and> distinct (map srId (adbSessions db))
     \<and> distinct (map srTokenHash (adbSessions db))
     \<and> (\<forall>u\<in>set (adbUsers db). 1 \<le> usId u \<and> usId u \<le> adbUserSeq db)
     \<and> (\<forall>s\<in>set (adbSessions db). 1 \<le> srId s \<and> srId s \<le> adbSessionSeq db \<and> srUserId s \<in> usId ` set (adbUsers db))
     \<and> (\<forall>ai. adbInstance db = Some ai \<longrightarrow> inOwnerUserId ai \<in> usId ` set (adbUsers db))
     \<and> 0 \<le> adbUserSeq db \<and> 0 \<le> adbSessionSeq db"

lemma joinedRow_Some:
  "joinedRow P db = Some (s, u) \<Longrightarrow> s \<in> set (adbSessions db) \<and> u \<in> set (adbUsers db) \<and> P s \<and> usId u = srUserId s
     \<and> (\<exists>ai. adbInstance db = Some ai \<and> inOwnerUserId ai = usId u)"
  unfolding joinedRow_def by (auto simp: find_Some_iff split: option.splits) (metis mem_Sigma_iff nth_mem set_product length_product)+

text \<open>A session resolves to valid exactly when its row is unrevoked, unexpired and of the enabled owner.\<close>

definition session_valid :: "auth_db \<Rightarrow> SessionRow \<Rightarrow> int \<Rightarrow> bool" where
  "session_valid db s now \<longleftrightarrow> s \<in> set (adbSessions db) \<and> srRevokedAt s = None \<and> now < srExpiresAt s
     \<and> (\<exists>ai u. adbInstance db = Some ai \<and> u \<in> set (adbUsers db) \<and> usId u = srUserId s
          \<and> inOwnerUserId ai = usId u \<and> usDisabled u \<noteq> 1 \<and> usUsername u \<noteq> [])"

lemma lookupResult_valid:
  assumes "lkStatus (lookupResult (joinedRow P db) now) = ValidSession"
  shows "\<exists>s. P s \<and> session_valid db s now \<and> lkSession (lookupResult (joinedRow P db) now) = Some (mapSession s)"
proof -
  from assms obtain s u where j: "joinedRow P db = Some (s, u)" and v: "usUsername u \<noteq> []" "srRevokedAt s = None"
    "now < srExpiresAt s" "usDisabled u \<noteq> 1"
    "lkSession (lookupResult (joinedRow P db) now) = Some (mapSession s)"
    by (cases "joinedRow P db")
      (auto simp: lookupResult_def missingSession_def mapSession_def Let_def split: if_split_asm)
  with joinedRow_Some [OF j] show ?thesis by (auto simp: session_valid_def)
qed

lemma find_token_valid:
  assumes "lkStatus (findSessionByRawToken env db rawToken now) = ValidSession"
  shows "\<exists>s. srTokenHash s = aeSha256 env rawToken \<and> session_valid db s now
    \<and> lkSession (findSessionByRawToken env db rawToken now) = Some (mapSession s)"
  using assms lookupResult_valid [of "\<lambda>s. srTokenHash s = hashSessionToken env rawToken" db now]
  by (auto simp: findSessionByRawToken_def Let_def missingSession_def hashSessionToken_def split: if_split_asm)

lemma find_id_valid:
  assumes "lkStatus (findSessionById db i now) = ValidSession"
  shows "\<exists>s. srId s = i \<and> session_valid db s now"
  using assms lookupResult_valid [of "\<lambda>s. srId s = i" db now]
  by (auto simp: findSessionById_def missingSession_def split: if_split_asm)

lemma joinedRow_exists:
  assumes "s \<in> set (adbSessions db)" "P s" "u \<in> set (adbUsers db)" "usId u = srUserId s"
    "adbInstance db = Some ai" "inOwnerUserId ai = usId u"
  shows "joinedRow P db \<noteq> None"
  using assms by (auto simp: joinedRow_def find_None_iff)

lemma auth_db_okD:
  assumes "auth_db_ok db"
  shows "distinct (map usId (adbUsers db))" "distinct (map srId (adbSessions db))" "distinct (map srTokenHash (adbSessions db))"
  using assms by (simp_all add: auth_db_ok_def)

lemma joinedRow_is:
  assumes ok: "auth_db_ok db" and P: "\<And>s'. s' \<in> set (adbSessions db) \<Longrightarrow> P s' \<Longrightarrow> s' = s"
    and row: "s \<in> set (adbSessions db)" "P s" "u \<in> set (adbUsers db)" "usId u = srUserId s"
      "adbInstance db = Some ai" "inOwnerUserId ai = usId u"
  shows "joinedRow P db = Some (s, u)"
proof -
  obtain s' u' where j: "joinedRow P db = Some (s', u')"
    using joinedRow_exists [where P = P, OF row] by (cases "joinedRow P db") auto
  have sel: "s' \<in> set (adbSessions db)" "P s'" "u' \<in> set (adbUsers db)" "usId u' = srUserId s'"
    using joinedRow_Some [OF j] by blast+
  have "s' = s" by (rule P [OF sel(1,2)])
  moreover have "usId u' = usId u" by (simp only: sel(4) \<open>s' = s\<close> row(4))
  then have "u' = u" by (rule key_inj [OF auth_db_okD(1) [OF ok] sel(3) row(3)])
  ultimately show ?thesis using j by simp
qed

lemma find_token_valid_iff:
  assumes ok: "auth_db_ok db" and t: "rawToken \<noteq> []" "aeSha256 env rawToken \<noteq> []"
  shows "lkStatus (findSessionByRawToken env db rawToken now) = ValidSession
     \<longleftrightarrow> (\<exists>s. srTokenHash s = aeSha256 env rawToken \<and> session_valid db s now)"
proof
  assume "\<exists>s. srTokenHash s = aeSha256 env rawToken \<and> session_valid db s now"
  then obtain s ai u where s: "srTokenHash s = aeSha256 env rawToken" "s \<in> set (adbSessions db)" "srRevokedAt s = None"
    "now < srExpiresAt s" "adbInstance db = Some ai" "u \<in> set (adbUsers db)" "usId u = srUserId s"
    "inOwnerUserId ai = usId u" "usDisabled u \<noteq> 1" "usUsername u \<noteq> []"
    by (auto simp: session_valid_def)
  have "joinedRow (\<lambda>s. srTokenHash s = aeSha256 env rawToken) db = Some (s, u)"
  proof (rule joinedRow_is [OF ok])
    fix s' assume "s' \<in> set (adbSessions db)" "srTokenHash s' = aeSha256 env rawToken"
    with s(1,2) show "s' = s" using key_inj [OF auth_db_okD(3) [OF ok], of s' s] by simp
  qed (use s in simp_all)
  then show "lkStatus (findSessionByRawToken env db rawToken now) = ValidSession"
    using s t by (simp add: findSessionByRawToken_def hashSessionToken_def lookupResult_def mapSession_def Let_def)
qed (use find_token_valid in blast)

section \<open>How the sessions evolve\<close>

text \<open>
  No operation revives a session, moves its expiry or hands its identity to another: what is left of an old
  row is that row, and a revocation stays.
\<close>

definition evolves :: "SessionRow \<Rightarrow> SessionRow \<Rightarrow> bool" where
  "evolves s s' \<longleftrightarrow> srId s' = srId s \<and> srUserId s' = srUserId s \<and> srTokenHash s' = srTokenHash s
     \<and> srCreatedAt s' = srCreatedAt s \<and> srExpiresAt s' = srExpiresAt s
     \<and> (srRevokedAt s \<noteq> None \<longrightarrow> srRevokedAt s' = srRevokedAt s)"

definition sessions_evolve :: "auth_db \<Rightarrow> auth_db \<Rightarrow> bool" where
  "sessions_evolve db db' \<longleftrightarrow> adbSessionSeq db \<le> adbSessionSeq db'
     \<and> (\<forall>s'\<in>set (adbSessions db'). srId s' \<le> adbSessionSeq db \<longrightarrow> (\<exists>s\<in>set (adbSessions db). evolves s s'))"

lemma evolves_refl [simp]: "evolves s s"
  by (simp add: evolves_def)

lemma evolves_trans: "evolves s s' \<Longrightarrow> evolves s' s'' \<Longrightarrow> evolves s s''"
  by (auto simp: evolves_def)

lemma sessions_evolve_refl [simp]: "sessions_evolve db db"
  by (auto simp: sessions_evolve_def intro: evolves_refl)

lemma sessions_evolve_trans:
  assumes "sessions_evolve a b" "sessions_evolve b c" shows "sessions_evolve a c"
  unfolding sessions_evolve_def
proof (intro conjI ballI impI)
  show "adbSessionSeq a \<le> adbSessionSeq c" using assms by (auto simp: sessions_evolve_def)
  fix s assume s: "s \<in> set (adbSessions c)" "srId s \<le> adbSessionSeq a"
  then have "srId s \<le> adbSessionSeq b" using assms(1) by (auto simp: sessions_evolve_def)
  then obtain r where r: "r \<in> set (adbSessions b)" "evolves r s" using assms(2) s(1) by (auto simp: sessions_evolve_def)
  then have "srId r \<le> adbSessionSeq a" using s(2) by (simp add: evolves_def)
  then show "\<exists>q\<in>set (adbSessions a). evolves q s"
    using assms(1) r evolves_trans by (fastforce simp: sessions_evolve_def)
qed

lemma sessions_evolve_same: "adbSessions db' = adbSessions db \<Longrightarrow> adbSessionSeq db' = adbSessionSeq db \<Longrightarrow> sessions_evolve db db'"
  by (auto simp: sessions_evolve_def intro: evolves_refl)

lemma updateSessions_evolve:
  assumes "\<And>s. P s \<Longrightarrow> evolves s (f s)" shows "sessions_evolve db (fst (updateSessions P f db))"
  unfolding sessions_evolve_def
proof (intro conjI ballI impI)
  fix s' assume "s' \<in> set (adbSessions (fst (updateSessions P f db)))"
  then obtain s where "s \<in> set (adbSessions db)" "s' = (if P s then f s else s)" by (auto simp: updateSessions_def)
  then show "\<exists>s\<in>set (adbSessions db). evolves s s'" using assms by (intro bexI [of _ s]) simp_all
qed (simp add: updateSessions_def)

lemma revokeWhere_evolve: "sessions_evolve db (fst (revokeWhere P now db))"
  unfolding revokeWhere_def by (rule updateSessions_evolve) (auto simp: evolves_def)

lemma touchSessionLastSeen_evolve:
  "touchSessionLastSeen i now m db = Inr (db', b) \<Longrightarrow> sessions_evolve db db'"
  unfolding touchSessionLastSeen_def
  by (auto split: if_split_asm prod.split_asm intro!: updateSessions_evolve
      simp: evolves_def dest!: arg_cong [of _ "(db', _)" fst])

lemma deleteExpiredSessions_evolve: "sessions_evolve db (deleteExpiredSessions now db)"
  by (auto simp: sessions_evolve_def deleteExpiredSessions_def intro: evolves_refl)

lemma insertSession_evolve: "insertSession u h now e db = Inr (db', i) \<Longrightarrow> sessions_evolve db db'"
  by (auto simp: sessions_evolve_def insertSession_def Let_def split: if_split_asm intro!: bexI evolves_refl)

text \<open>The tables stay in a good state.\<close>

lemma updateSessions_ok:
  assumes "auth_db_ok db"
    and "\<And>s. P s \<Longrightarrow> srId (f s) = srId s \<and> srUserId (f s) = srUserId s \<and> srTokenHash (f s) = srTokenHash s"
  shows "auth_db_ok (fst (updateSessions P f db))"
proof -
  have same: "map g (map (\<lambda>s. if P s then f s else s) ss) = map g ss" if "\<And>s. P s \<Longrightarrow> g (f s) = g s" for g :: "SessionRow \<Rightarrow> 'b" and ss
    using that by (induction ss) auto
  have "map srId (adbSessions (fst (updateSessions P f db))) = map srId (adbSessions db)"
    "map srTokenHash (adbSessions (fst (updateSessions P f db))) = map srTokenHash (adbSessions db)"
    using assms(2) by (simp_all add: updateSessions_def same del: map_map)
  with assms show ?thesis by (auto simp: auth_db_ok_def updateSessions_def simp del: map_map)
qed

lemma revokeWhere_ok: "auth_db_ok db \<Longrightarrow> auth_db_ok (fst (revokeWhere P now db))"
  unfolding revokeWhere_def by (rule updateSessions_ok) auto

lemma touchSessionLastSeen_ok:
  assumes "auth_db_ok db" "touchSessionLastSeen i now m db = Inr (db', b)" shows "auth_db_ok db'"
proof -
  have "db' = fst (updateSessions (\<lambda>s. srId s = i \<and> srRevokedAt s = None \<and> srExpiresAt s > now
      \<and> srLastSeenAt s \<le> now - m) (\<lambda>s. s\<lparr>srLastSeenAt := now\<rparr>) db)"
    using assms(2) by (auto simp: touchSessionLastSeen_def split: if_split_asm prod.split_asm)
  with assms(1) show ?thesis by (simp add: updateSessions_ok)
qed

lemma deleteExpiredSessions_ok: "auth_db_ok db \<Longrightarrow> auth_db_ok (deleteExpiredSessions now db)"
  by (auto simp: auth_db_ok_def deleteExpiredSessions_def distinct_map_filter)

lemma insertSession_ok: "auth_db_ok db \<Longrightarrow> insertSession u h now e db = Inr (db', i) \<Longrightarrow> auth_db_ok db'"
  by (force simp: auth_db_ok_def insertSession_def Let_def split: if_split_asm)

lemma insertUser_ok: "auth_db_ok db \<Longrightarrow> insertUser u m h now db = Inr (db', i) \<Longrightarrow> auth_db_ok db'"
  by (force simp: auth_db_ok_def insertUser_def Let_def split: if_split_asm)

lemma insertInstance_ok: "auth_db_ok db \<Longrightarrow> insertInstance u now db = Inr db' \<Longrightarrow> auth_db_ok db'"
  by (auto simp: auth_db_ok_def insertInstance_def split: if_split_asm)

text \<open>A session that is revoked or expired is never valid again.\<close>

definition session_dead :: "auth_db \<Rightarrow> int \<Rightarrow> int \<Rightarrow> bool" where
  "session_dead db i now \<longleftrightarrow> i \<le> adbSessionSeq db
     \<and> (\<forall>s\<in>set (adbSessions db). srId s = i \<longrightarrow> srRevokedAt s \<noteq> None \<or> srExpiresAt s \<le> now)"

lemma session_dead_evolves:
  assumes "session_dead db i now" "sessions_evolve db db'" "now \<le> now'"
  shows "session_dead db' i now'"
  using assms unfolding session_dead_def sessions_evolve_def evolves_def by fastforce

lemma session_dead_invalid: "session_dead db i now \<Longrightarrow> session_valid db s now \<Longrightarrow> srId s \<noteq> i"
  by (auto simp: session_dead_def session_valid_def)

end
