(* ===== verification/AuthService.thy ===== *)
theory AuthService
  imports RateLimit KdfGuard Session
begin

text \<open>
  \<open>src/server/auth/service.ts\<close>: the owner's setup, login, logout, status and the housekeeping of sessions.
  \<open>setup\<close> and \<open>login\<close> await a key derivation, so each is two turns of the event loop: a start, which ends in
  an error or with the work handed to the guard, and a finish on what the guard made of it. Between the
  two any other request may run.
\<close>

section \<open>State\<close>

record auth_service =
  svDb :: auth_db
  svBootstrap :: BootstrapState
  svLoginLimiter :: AuthRateLimiter
  svSetupLimiter :: AuthRateLimiter
  svTouchIntervalMs :: int
  svPruneIntervalMs :: int
  svDummyHash :: jsstr
  svLastPruneAt :: "int option"
  svPruneScheduled :: bool
  svMicrotasks :: "int list"
  svClock :: nat
  svDraws :: nat
  svWrites :: nat

text \<open>
  \<open>svLastPruneAt\<close> is \<open>None\<close> at minus infinity; \<open>svMicrotasks\<close> are the deferred deletes with their time;
  \<open>svClock\<close>, \<open>svDraws\<close> and \<open>svWrites\<close> count the readings of the clock, the draws of random bytes and the
  immediate transactions.
\<close>

datatype AuthServiceErrorCode =
    ValidationError | BootstrapInvalid | AlreadyInitialized | InvalidCredentials | AuthRateLimited | AuthUnavailable

fun authErrorCodeText :: "AuthServiceErrorCode \<Rightarrow> string" where
  "authErrorCodeText ValidationError = ''validation-error''"
| "authErrorCodeText BootstrapInvalid = ''bootstrap-invalid''"
| "authErrorCodeText AlreadyInitialized = ''already-initialized''"
| "authErrorCodeText InvalidCredentials = ''invalid-credentials''"
| "authErrorCodeText AuthRateLimited = ''auth-rate-limited''"
| "authErrorCodeText AuthUnavailable = ''auth-unavailable''"

record AuthServiceError =
  aeCode :: AuthServiceErrorCode
  aeStatus :: nat
  aeRetryAfterMs :: "int option"

record SafeUser =
  safeId :: int
  safeUsername :: jsstr

definition DUMMY_PASSWORD_HASH :: jsstr where
  "DUMMY_PASSWORD_HASH =
     js ''scrypt$v1$N=32768,r=8,p=1$vxB7driim0d14ZL4x7e7xA$ii4iR3nQJbaXGQ4irXtmyqVBqk4KFukoTQxVsx-VKQw''"

definition SESSION_EXPIRED_PRUNE_INTERVAL_MS :: int where
  "SESSION_EXPIRED_PRUNE_INTERVAL_MS = 30 * 60 * 1000"

definition safeUser :: "UserRow \<Rightarrow> SafeUser" where
  "safeUser row = \<lparr>safeId = usId row, safeUsername = usUsername row\<rparr>"

definition ownerRow :: "auth_db \<Rightarrow> UserRow option" where
  "ownerRow db = (case adbInstance db of None \<Rightarrow> None
     | Some ai \<Rightarrow> find (\<lambda>u. usId u = inOwnerUserId ai) (adbUsers db))"

definition serviceError :: "AuthServiceErrorCode \<Rightarrow> nat \<Rightarrow> AuthServiceError" where
  "serviceError c status = \<lparr>aeCode = c, aeStatus = status, aeRetryAfterMs = None\<rparr>"

definition retryAfterError :: "int \<Rightarrow> AuthServiceError" where
  "retryAfterError ms = \<lparr>aeCode = AuthRateLimited, aeStatus = 429, aeRetryAfterMs = Some ms\<rparr>"

text \<open>The settlements of the guard that are errors, as \<open>kdfUnavailable\<close> maps them.\<close>

fun kdfUnavailable :: "'a settlement \<Rightarrow> AuthServiceError" where
  "kdfUnavailable (GuardRejected _) = \<lparr>aeCode = AuthRateLimited, aeStatus = 429, aeRetryAfterMs = Some 1000\<rparr>"
| "kdfUnavailable _ = serviceError AuthUnavailable 500"

definition readNow :: "auth_env \<Rightarrow> auth_service \<Rightarrow> int \<times> auth_service" where
  "readNow env s = (aeNow env (svClock s), s\<lparr>svClock := Suc (svClock s)\<rparr>)"

definition throwLoginFailure :: "auth_env \<Rightarrow> jsstr option \<Rightarrow> auth_service \<Rightarrow> auth_service \<times> AuthServiceError" where
  "throwLoginFailure env normalized s =
     (let (now, s) = readNow env s;
          (l, failure) = recordFailure (svLoginLimiter s)
            (case normalized of None \<Rightarrow> js ''<invalid-username>'' | Some u \<Rightarrow> u) now
      in (s\<lparr>svLoginLimiter := l\<rparr>,
          if frRetryAfterMs failure > 0 then retryAfterError (frRetryAfterMs failure)
          else serviceError InvalidCredentials 401))"

definition ownerExists :: "auth_service \<Rightarrow> bool" where
  "ownerExists s \<longleftrightarrow> ownerRow (svDb s) \<noteq> None"

section \<open>Status and housekeeping\<close>

record AuthStatus =
  stAuthenticated :: bool
  stSetupRequired :: bool
  stUser :: "SafeUser option"
  stSession :: "SessionLookupResult option"

definition authStatus :: "auth_env \<Rightarrow> jsstr option \<Rightarrow> auth_service \<Rightarrow> auth_service \<times> AuthStatus" where
  "authStatus env rawToken s =
     (case ownerRow (svDb s) of
        None \<Rightarrow> (s, \<lparr>stAuthenticated = False, stSetupRequired = True, stUser = None, stSession = None\<rparr>)
      | Some owner \<Rightarrow>
        (case rawToken of
           None \<Rightarrow> (s, \<lparr>stAuthenticated = False, stSetupRequired = False, stUser = None, stSession = None\<rparr>)
         | Some token \<Rightarrow>
           (if token = [] then (s, \<lparr>stAuthenticated = False, stSetupRequired = False, stUser = None, stSession = None\<rparr>)
            else let (now, s) = readNow env s; session = findSessionByRawToken env (svDb s) token now in
              if lkStatus session \<noteq> ValidSession \<or> lkUser session = None
              then (s, \<lparr>stAuthenticated = False, stSetupRequired = False, stUser = None, stSession = Some session\<rparr>)
              else (s, \<lparr>stAuthenticated = True, stSetupRequired = False, stUser = Some (safeUser owner),
                        stSession = Some session\<rparr>))))"

definition maybePruneExpiredSessions :: "int \<Rightarrow> auth_service \<Rightarrow> auth_service" where
  "maybePruneExpiredSessions now s =
     (if svPruneScheduled s \<or> (case svLastPruneAt s of None \<Rightarrow> False | Some t \<Rightarrow> now - t < svPruneIntervalMs s) then s
      else s\<lparr>svLastPruneAt := Some now, svPruneScheduled := True, svMicrotasks := svMicrotasks s @ [now]\<rparr>)"

text \<open>The deferred delete.\<close>

definition runPruneMicrotask :: "auth_service \<Rightarrow> auth_service" where
  "runPruneMicrotask s = (case svMicrotasks s of [] \<Rightarrow> s
     | now # rest \<Rightarrow> s\<lparr>svMicrotasks := rest, svPruneScheduled := False, svDb := deleteExpiredSessions now (svDb s)\<rparr>)"

text \<open>\<open>maintainAuthenticatedSession\<close>, with \<open>False\<close> where it throws.\<close>

definition maintainAuthenticatedSession :: "auth_env \<Rightarrow> AuthSessionRecord \<Rightarrow> auth_service \<Rightarrow> auth_service \<times> bool" where
  "maintainAuthenticatedSession env session s =
     (let (now, s) = readNow env s in
      if now - asnLastSeenAt session \<ge> svTouchIntervalMs s
      then (case touchSessionLastSeen (asnId session) now (svTouchIntervalMs s) (svDb s) of
              Inl _ \<Rightarrow> (s, False)
            | Inr (db, touched) \<Rightarrow>
                if \<not> touched then (s\<lparr>svDb := db\<rparr>, False)
                else (maybePruneExpiredSessions now (s\<lparr>svDb := db\<rparr>), True))
      else (maybePruneExpiredSessions now s, True))"

section \<open>Setup\<close>

record PendingSetup =
  psUsername :: jsstr
  psPassword :: jsstr
  psSalt :: "nat list"

definition setupStart ::
    "auth_env \<Rightarrow> jsval \<Rightarrow> jsval \<Rightarrow> jsval \<Rightarrow> auth_service \<Rightarrow> auth_service \<times> (AuthServiceError + PendingSetup)" where
  "setupStart env bootstrapToken username password s =
     (if ownerExists s then (s, Inl (serviceError AlreadyInitialized 409))
      else let (now, s) = readNow env s; setupRetryAfterMs = retryAfter (svSetupLimiter s) (js ''setup'') now in
        if setupRetryAfterMs > 0 then (s, Inl (retryAfterError setupRetryAfterMs))
        else case (username, password) of
          (JStr _, JStr pw) \<Rightarrow>
            (case normalizeUsername env username of
               None \<Rightarrow> (s, Inl (serviceError ValidationError 400))
             | Some user \<Rightarrow>
                if \<not> validatePassword password then (s, Inl (serviceError ValidationError 400))
                else if \<not> bootstrapVerify env (svBootstrap s) bootstrapToken
                then let (now, s) = readNow env s;
                         (l, failure) = recordFailure (svSetupLimiter s) (js ''setup'') now;
                         s = s\<lparr>svSetupLimiter := l\<rparr>
                  in if frRetryAfterMs failure > 0 then (s, Inl (retryAfterError (frRetryAfterMs failure)))
                     else (s, Inl (serviceError BootstrapInvalid 401))
                else (s\<lparr>svDraws := Suc (svDraws s)\<rparr>,
                      Inr \<lparr>psUsername = user, psPassword = pw, psSalt = aeRandom env (svDraws s) SCRYPT_SALT_BYTES\<rparr>))
        | _ \<Rightarrow> (s, Inl (serviceError ValidationError 400)))"

text \<open>The owner transaction: the new tables and the owner, or the failure that rolled it back.\<close>

datatype owner_failure = OwnerExists | OwnerWriteFailed

definition ownerTransaction ::
    "auth_env \<Rightarrow> nat \<Rightarrow> jsstr \<Rightarrow> jsstr \<Rightarrow> int \<Rightarrow> auth_db \<Rightarrow> owner_failure + (auth_db \<times> UserRow)" where
  "ownerTransaction env n username passwordHash now db =
     (if aeWriteBusy env n then Inl OwnerWriteFailed
      else if ownerRow db \<noteq> None then Inl OwnerExists
      else case insertUser username username passwordHash now db of
        Inl _ \<Rightarrow> Inl OwnerWriteFailed
      | Inr (db1, userId) \<Rightarrow>
          (case insertInstance userId now db1 of
             Inl _ \<Rightarrow> Inl OwnerWriteFailed
           | Inr db2 \<Rightarrow> (case ownerRow db2 of None \<Rightarrow> Inl OwnerWriteFailed | Some created \<Rightarrow> Inr (db2, created))))"

definition openSession ::
    "auth_env \<Rightarrow> UserRow \<Rightarrow> int \<Rightarrow> auth_service \<Rightarrow> auth_service \<times> (AuthServiceError + SafeUser \<times> CreatedSession)" where
  "openSession env user now s =
     (let n = svDraws s; s = s\<lparr>svDraws := Suc n\<rparr> in
      case createSession env n (usId user) now (svDb s) of
        Inl _ \<Rightarrow> (s, Inl (serviceError AuthUnavailable 500))
      | Inr (db, created) \<Rightarrow> (s\<lparr>svDb := db\<rparr>, Inr (safeUser user, created)))"

definition setupFinish ::
    "auth_env \<Rightarrow> PendingSetup \<Rightarrow> unit settlement \<Rightarrow> auth_service
     \<Rightarrow> auth_service \<times> (AuthServiceError + SafeUser \<times> CreatedSession)" where
  "setupFinish env p kdf s =
     (case kdf of
        Resolved _ \<Rightarrow>
          (let passwordHash = hashResult env (psPassword p) (psSalt p);
               (now, s) = readNow env s; n = svWrites s; s = s\<lparr>svWrites := Suc n\<rparr>
           in case ownerTransaction env n (psUsername p) passwordHash now (svDb s) of
                Inl OwnerExists \<Rightarrow> (s, Inl (serviceError AlreadyInitialized 409))
              | Inl OwnerWriteFailed \<Rightarrow>
                  (s, Inl (if ownerRow (svDb s) \<noteq> None then serviceError AlreadyInitialized 409
                           else serviceError AuthUnavailable 500))
              | Inr (db, owner) \<Rightarrow>
                  openSession env owner now
                    (s\<lparr>svDb := db, svBootstrap := markOwnerCommitted (svBootstrap s),
                       svSetupLimiter := reset (svSetupLimiter s) (js ''setup'')\<rparr>))
      | _ \<Rightarrow> (s, Inl (kdfUnavailable kdf)))"

section \<open>Login and logout\<close>

record PendingLogin =
  plNormalized :: "jsstr option"
  plPassword :: jsstr
  plCandidate :: "UserRow option"
  plHash :: "ParsedPasswordHash option"

text \<open>
  \<open>plHash\<close> is the hash the derivation runs against; without one \<open>verifyPassword\<close> resolved to \<open>false\<close> and the
  guard was not asked.
\<close>

definition loginStart ::
    "auth_env \<Rightarrow> jsval \<Rightarrow> jsval \<Rightarrow> auth_service \<Rightarrow> auth_service \<times> (AuthServiceError + PendingLogin)" where
  "loginStart env username password s =
     (case (username, password) of
        (JStr _, JStr pw) \<Rightarrow>
          (let normalized = normalizeUsername env username in
           if \<not> isValidPassword password
           then let (s, e) = throwLoginFailure env normalized s in (s, Inl e)
           else let owner = ownerRow (svDb s);
                    candidate = (case (normalized, owner) of
                      (Some u, Some row) \<Rightarrow> if usNormalized row = u then Some row else None | _ \<Rightarrow> None);
                    hash = (case candidate of Some row \<Rightarrow> usPasswordHash row | None \<Rightarrow> svDummyHash s)
             in (s, Inr \<lparr>plNormalized = normalized, plPassword = pw, plCandidate = candidate,
                         plHash = verifyStart password hash\<rparr>))
      | _ \<Rightarrow> (s, Inl (serviceError ValidationError 400)))"

text \<open>What the awaited \<open>verifyPassword\<close> gave: a verdict, or an exception.\<close>

definition loginVerdict :: "auth_env \<Rightarrow> PendingLogin \<Rightarrow> unit settlement option \<Rightarrow> AuthServiceError + bool" where
  "loginVerdict env p kdf = (case plHash p of
     None \<Rightarrow> Inr False
   | Some parsed \<Rightarrow> (case kdf of
        Some (Resolved _) \<Rightarrow> Inr (verifyResult env (plPassword p) parsed)
      | Some r \<Rightarrow> Inl (kdfUnavailable r)
      | None \<Rightarrow> Inl (serviceError AuthUnavailable 500)))"

definition loginFinish ::
    "auth_env \<Rightarrow> PendingLogin \<Rightarrow> unit settlement option \<Rightarrow> auth_service
     \<Rightarrow> auth_service \<times> (AuthServiceError + SafeUser \<times> CreatedSession)" where
  "loginFinish env p kdf s =
     (case loginVerdict env p kdf of
        Inl e \<Rightarrow> (s, Inl e)
      | Inr verified \<Rightarrow>
          (case plCandidate p of
             Some user \<Rightarrow>
               if \<not> verified \<or> usDisabled user = 1
               then let (s, e) = throwLoginFailure env (plNormalized p) s in (s, Inl e)
               else let s = s\<lparr>svLoginLimiter := reset (svLoginLimiter s)
                          (case plNormalized p of None \<Rightarrow> [] | Some u \<Rightarrow> u)\<rparr>;
                        (now, s) = readNow env s
                 in openSession env user now s
           | None \<Rightarrow> let (s, e) = throwLoginFailure env (plNormalized p) s in (s, Inl e)))"

definition logout :: "auth_env \<Rightarrow> jsstr option \<Rightarrow> auth_service \<Rightarrow> auth_service" where
  "logout env rawToken s =
     (case rawToken of
        None \<Rightarrow> s
      | Some token \<Rightarrow>
          (if token = [] then s
           else let (now, s) = readNow env s; found = findSessionByRawToken env (svDb s) token now in
             if lkSession found \<noteq> None \<and> lkStatus found \<noteq> RevokedSession
             then let (now, s) = readNow env s in s\<lparr>svDb := fst (revokeSession env token now (svDb s))\<rparr>
             else s))"

end
