(* ===== verification/AuthRoutes.thy ===== *)
theory AuthRoutes
  imports AuthService
begin

text \<open>
  \<open>src/server/auth/middleware.ts\<close>, \<open>routes.ts\<close> and \<open>runtime.ts\<close>: the boundary every request under
  \<open>/api\<close> passes, the four authentication endpoints, and the runtime they share. A response is its status, its
  body, the cookie it sets and its \<open>Retry-After\<close>; messages are not modelled.
\<close>

section \<open>The runtime\<close>

text \<open>\<open>rtDiaryInvalidated\<close> lists the sessions whose diary capabilities a logout invalidated.\<close>

record auth_runtime =
  rtConfig :: AuthConfig
  rtService :: auth_service
  rtDiaryInvalidated :: "int list"

definition noLimiterOptions :: RateLimiterOptions where
  "noLimiterOptions = \<lparr>optWindowMs = None, optThreshold = None, optMaxDelayMs = None, optMaxBuckets = None,
     optBaseRetryMs = None\<rparr>"

definition setupLimiterOptions :: RateLimiterOptions where
  "setupLimiterOptions = \<lparr>optWindowMs = Some (JInt SETUP_FAILURE_WINDOW_MS), optThreshold = Some (JInt SETUP_FAILURE_THRESHOLD),
     optMaxDelayMs = Some (JInt SETUP_MAX_DELAY_MS), optMaxBuckets = Some (JInt SETUP_MAX_BUCKETS),
     optBaseRetryMs = Some (JInt (min SETUP_BASE_RETRY_MS SETUP_MAX_DELAY_MS))\<rparr>"

text \<open>
  \<open>createAuthRuntime\<close> as both servers call it: a database, a configuration and the setup token of the
  environment; the limiters at their defaults.
\<close>

definition createAuthRuntime :: "auth_env \<Rightarrow> auth_db \<Rightarrow> AuthConfig \<Rightarrow> jsstr option \<Rightarrow> auth_runtime option" where
  "createAuthRuntime env db config setupToken =
     (case createBootstrapState (adbInstance db \<noteq> None) setupToken None (aeRandom env 0) of None \<Rightarrow> None | Some bootstrap \<Rightarrow>
      case createAuthRateLimiter noLimiterOptions of None \<Rightarrow> None | Some login \<Rightarrow>
      case createAuthRateLimiter setupLimiterOptions of None \<Rightarrow> None | Some setup \<Rightarrow>
      let service = \<lparr>svDb = db, svBootstrap = bootstrap, svLoginLimiter = login, svSetupLimiter = setup,
            svTouchIntervalMs = sessionLastSeenUpdateIntervalMs config, svPruneIntervalMs = SESSION_EXPIRED_PRUNE_INTERVAL_MS,
            svDummyHash = DUMMY_PASSWORD_HASH, svLastPruneAt = None, svPruneScheduled = False, svMicrotasks = [],
            svClock = 0, svDraws = 1, svWrites = 0\<rparr> in
      if revokeSessionsOnStart config
      then let (now, service) = readNow env service in
        Some \<lparr>rtConfig = config, rtService = service\<lparr>svDb := fst (revokeWhere (\<lambda>_. True) now db)\<rparr>, rtDiaryInvalidated = []\<rparr>
      else Some \<lparr>rtConfig = config, rtService = service, rtDiaryInvalidated = []\<rparr>)"

section \<open>Responses\<close>

datatype response_body =
    ErrorBody string
  | StatusBody bool "SafeUser option"
  | UserBody SafeUser
  | NoBody

record http_response =
  hrStatus :: nat
  hrBody :: response_body
  hrSetCookie :: "(jsstr \<times> jsstr \<times> int) option"
  hrClearCookies :: bool
  hrRetryAfter :: "int option"

definition response :: "nat \<Rightarrow> response_body \<Rightarrow> http_response" where
  "response status body = \<lparr>hrStatus = status, hrBody = body, hrSetCookie = None, hrClearCookies = False, hrRetryAfter = None\<rparr>"

definition jsonError :: "nat \<Rightarrow> string \<Rightarrow> http_response" where
  "jsonError status code = response status (ErrorBody code)"

definition unavailable :: http_response where
  "unavailable = jsonError 503 ''auth-unavailable''"

text \<open>\<open>Math.max(1, Math.ceil(ms / 1000))\<close>\<close>

definition retrySeconds :: "int \<Rightarrow> int" where
  "retrySeconds ms = max 1 (- ((- ms) div 1000))"

definition serviceErrorResponse :: "AuthServiceError \<Rightarrow> http_response" where
  "serviceErrorResponse e = (jsonError (aeStatus e) (authErrorCodeText (aeCode e)))
     \<lparr>hrRetryAfter := map_option retrySeconds (aeRetryAfterMs e)\<rparr>"

definition setSessionCookie :: "AuthConfig \<Rightarrow> CreatedSession \<Rightarrow> http_response \<Rightarrow> http_response" where
  "setSessionCookie config created r =
     r\<lparr>hrSetCookie := Some (cookieName (cookie config), csRawToken created, asnExpiresAt (csSession created))\<rparr>"

fun csrfCodeText :: "CsrfFailureCode \<Rightarrow> string" where
  "csrfCodeText CsrfOriginMismatch = ''csrf-origin-mismatch''"
| "csrfCodeText CsrfCrossSite = ''csrf-cross-site''"
| "csrfCodeText InvalidContentType = ''invalid-content-type''"

definition csrfError :: "auth_env \<Rightarrow> http_request \<Rightarrow> AuthConfig \<Rightarrow> bool \<Rightarrow> http_response option" where
  "csrfError env r config requireJson =
     (case checkCsrfHeaders env r (rqMethod r) config of
        Some c \<Rightarrow> Some (jsonError 403 (csrfCodeText c))
      | None \<Rightarrow> (if requireJson then
          (case checkJsonContentType r of Some c \<Rightarrow> Some (jsonError 415 (csrfCodeText c)) | None \<Rightarrow> None) else None))"

definition parseObject :: "jsval option \<Rightarrow> jsobj option" where
  "parseObject body = (case body of Some (JObj r) \<Rightarrow> Some r | _ \<Rightarrow> None)"

section \<open>The endpoints\<close>

definition statusRoute :: "auth_env \<Rightarrow> http_request \<Rightarrow> auth_runtime \<Rightarrow> auth_runtime \<times> http_response" where
  "statusRoute env r rt =
     (let (s, status) = authStatus env (selectSessionToken (rqCookies r) (rtConfig rt)) (rtService rt);
          rt = rt\<lparr>rtService := s\<rparr>
      in case stUser status of
           None \<Rightarrow> (rt, response 200 (StatusBody (stSetupRequired status) None))
         | Some u \<Rightarrow> if \<not> stAuthenticated status then (rt, response 200 (StatusBody (stSetupRequired status) None))
             else (rt, response 200 (StatusBody False (Some u))))"

text \<open>Setup and login up to the key derivation, and after it.\<close>

definition setupRoute :: "auth_env \<Rightarrow> http_request \<Rightarrow> auth_runtime \<Rightarrow> auth_runtime \<times> (http_response + PendingSetup)" where
  "setupRoute env r rt =
     (if rqTooLarge r then (rt, Inl (jsonError 413 ''auth-request-too-large''))
      else case csrfError env r (rtConfig rt) True of Some e \<Rightarrow> (rt, Inl e) | None \<Rightarrow>
        if ownerExists (rtService rt) then (rt, Inl (jsonError 409 ''already-initialized''))
        else case parseObject (rqJson r) of
          None \<Rightarrow> (rt, Inl (jsonError 400 ''validation-error''))
        | Some body \<Rightarrow>
            (let (s, res) = setupStart env (getProp body ''bootstrapToken'') (getProp body ''username'')
                   (getProp body ''password'') (rtService rt)
             in (rt\<lparr>rtService := s\<rparr>, case res of Inl e \<Rightarrow> Inl (serviceErrorResponse e) | Inr p \<Rightarrow> Inr p)))"

definition setupAnswer :: "auth_env \<Rightarrow> PendingSetup \<Rightarrow> unit settlement \<Rightarrow> auth_runtime \<Rightarrow> auth_runtime \<times> http_response" where
  "setupAnswer env p kdf rt =
     (let (s, res) = setupFinish env p kdf (rtService rt); rt = rt\<lparr>rtService := s\<rparr> in
      case res of
        Inl e \<Rightarrow> (rt, serviceErrorResponse e)
      | Inr (u, created) \<Rightarrow> (rt, setSessionCookie (rtConfig rt) created (response 201 (UserBody u))))"

definition loginRoute :: "auth_env \<Rightarrow> http_request \<Rightarrow> auth_runtime \<Rightarrow> auth_runtime \<times> (http_response + PendingLogin)" where
  "loginRoute env r rt =
     (if rqTooLarge r then (rt, Inl (jsonError 413 ''auth-request-too-large''))
      else case csrfError env r (rtConfig rt) True of Some e \<Rightarrow> (rt, Inl e) | None \<Rightarrow>
        case parseObject (rqJson r) of
          None \<Rightarrow> (rt, Inl (jsonError 400 ''validation-error''))
        | Some body \<Rightarrow>
            (let (s, res) = loginStart env (getProp body ''username'') (getProp body ''password'') (rtService rt)
             in (rt\<lparr>rtService := s\<rparr>, case res of Inl e \<Rightarrow> Inl (serviceErrorResponse e) | Inr p \<Rightarrow> Inr p)))"

definition loginAnswer ::
    "auth_env \<Rightarrow> PendingLogin \<Rightarrow> unit settlement option \<Rightarrow> auth_runtime \<Rightarrow> auth_runtime \<times> http_response" where
  "loginAnswer env p kdf rt =
     (let (s, res) = loginFinish env p kdf (rtService rt); rt = rt\<lparr>rtService := s\<rparr> in
      case res of
        Inl e \<Rightarrow> (rt, serviceErrorResponse e)
      | Inr (u, created) \<Rightarrow> (rt, setSessionCookie (rtConfig rt) created (response 200 (UserBody u))))"

text \<open>
  A logout whose cookie names a session first waits until the diary has invalidated it; then, and otherwise at once,
  the session is revoked.
\<close>

definition logoutAnswer :: "auth_env \<Rightarrow> jsstr option \<Rightarrow> auth_runtime \<Rightarrow> auth_runtime \<times> http_response" where
  "logoutAnswer env rawToken rt =
     (rt\<lparr>rtService := logout env rawToken (rtService rt)\<rparr>, (response 204 NoBody)\<lparr>hrClearCookies := True\<rparr>)"

definition logoutRoute :: "auth_env \<Rightarrow> http_request \<Rightarrow> auth_runtime \<Rightarrow> auth_runtime \<times> (http_response + jsstr)" where
  "logoutRoute env r rt =
     (case csrfError env r (rtConfig rt) False of Some e \<Rightarrow> (rt, Inl e) | None \<Rightarrow>
      case selectSessionToken (rqCookies r) (rtConfig rt) of
        None \<Rightarrow> (let (rt, resp) = logoutAnswer env None rt in (rt, Inl resp))
      | Some token \<Rightarrow>
          (let (now, s) = readNow env (rtService rt); rt = rt\<lparr>rtService := s\<rparr> in
           case lkSession (findSessionByRawToken env (svDb s) token now) of
             None \<Rightarrow> (let (rt, resp) = logoutAnswer env (Some token) rt in (rt, Inl resp))
           | Some session \<Rightarrow> (rt\<lparr>rtDiaryInvalidated := rtDiaryInvalidated rt @ [asnId session]\<rparr>, Inr token)))"

section \<open>The boundary\<close>

definition PUBLIC_ENDPOINTS :: "jsstr list" where
  "PUBLIC_ENDPOINTS = [js ''GET /api/health'', js ''GET /api/auth/status'', js ''POST /api/auth/setup'',
     js ''POST /api/auth/login'', js ''POST /api/auth/logout'']"

definition isPublicEndpoint :: "jsstr \<Rightarrow> jsstr \<Rightarrow> bool" where
  "isPublicEndpoint m path \<longleftrightarrow> textUpper m @ js '' '' @ path \<in> set PUBLIC_ENDPOINTS"

text \<open>\<open>Number(contentLength)\<close> on the digit strings HTTP allows there; \<open>None\<close> is not finite.\<close>

definition contentLengthNumber :: "jsstr \<Rightarrow> nat option" where
  "contentLengthNumber s = (if list_all isDigit (trim s) then Some (decimalValue (trim s)) else None)"

definition requestHasBody :: "http_request \<Rightarrow> bool" where
  "requestHasBody r = (case header r ''content-length'' of
     Some s \<Rightarrow> (case contentLengthNumber s of Some n \<Rightarrow> n > 0 | None \<Rightarrow> header r ''transfer-encoding'' \<noteq> None)
   | None \<Rightarrow> header r ''transfer-encoding'' \<noteq> None)"

text \<open>All but a \<open>PUT\<close> on \<open>/^\/api\/assets\/[^/]+$/\<close>.\<close>

definition requiresJsonBody :: "jsstr \<Rightarrow> jsstr \<Rightarrow> bool" where
  "requiresJsonBody m path = (\<not> (m = js ''PUT'' \<and> (case takePrefix (js ''/api/assets/'') path of
     None \<Rightarrow> False | Some rest \<Rightarrow> rest \<noteq> [] \<and> 47 \<notin> set rest)))"

datatype boundary_result =
    Rejected http_response
  | Forwarded "(SafeUser \<times> int) option"

text \<open>The checks on an unsafe method, after the session.\<close>

definition mutationRefused :: "auth_env \<Rightarrow> http_request \<Rightarrow> jsstr \<Rightarrow> AuthConfig \<Rightarrow> http_response option" where
  "mutationRefused env r m config =
     (if \<not> isUnsafeMethod m then None
      else case checkCsrfHeaders env r m config of
        Some c \<Rightarrow> Some (jsonError 403 (csrfCodeText c))
      | None \<Rightarrow>
          if requestHasBody r \<and> requiresJsonBody m (rqPath r) then
            (case checkJsonContentType r of Some c \<Rightarrow> Some (jsonError 415 (csrfCodeText c)) | None \<Rightarrow> None)
          else None)"

definition authBoundary :: "auth_env \<Rightarrow> http_request \<Rightarrow> auth_runtime option \<Rightarrow> auth_runtime option \<times> boundary_result" where
  "authBoundary env r runtime =
     (let m = textUpper (rqMethod r) in
      if isPublicEndpoint m (rqPath r) then (runtime, Forwarded None)
      else case runtime of
        None \<Rightarrow> (None, Rejected unavailable)
      | Some rt \<Rightarrow>
          (let (s, status) = authStatus env (selectSessionToken (rqCookies r) (rtConfig rt)) (rtService rt);
               rt = rt\<lparr>rtService := s\<rparr>
           in case (stAuthenticated status, stUser status) of
                (True, Some user) \<Rightarrow>
                  (case stSession status of None \<Rightarrow> (Some rt, Rejected unavailable) | Some found \<Rightarrow>
                   case lkSession found of None \<Rightarrow> (Some rt, Rejected unavailable) | Some session \<Rightarrow>
                     (let (s, kept) = maintainAuthenticatedSession env session (rtService rt);
                          rt = rt\<lparr>rtService := s\<rparr>
                      in if \<not> kept then (Some rt, Rejected unavailable)
                         else case mutationRefused env r m (rtConfig rt) of
                           Some e \<Rightarrow> (Some rt, Rejected e)
                         | None \<Rightarrow> (Some rt, Forwarded (Some (user, asnId session)))))
              | _ \<Rightarrow>
                  (let invalid = (case stSession status of None \<Rightarrow> None | Some found \<Rightarrow> map_option asnId (lkSession found))
                   in (Some (case invalid of None \<Rightarrow> rt | Some i \<Rightarrow> rt\<lparr>rtDiaryInvalidated := rtDiaryInvalidated rt @ [i]\<rparr>),
                       Rejected (jsonError 401 ''auth-session-required'')))))"

end
