(* ===== verification/AuthFacts.thy ===== *)
theory AuthFacts
  imports AuthRoutes
begin

text \<open>
  What the authentication service guarantees, operation by operation: which requests pass the boundary,
  what a login needs, and which part of the state each operation can touch.
\<close>

section \<open>Who passes the boundary\<close>

lemma ownerRow_Some: "ownerRow db = Some u \<Longrightarrow> u \<in> set (adbUsers db) \<and> (\<exists>ai. adbInstance db = Some ai \<and> inOwnerUserId ai = usId u)"
  by (auto simp: ownerRow_def find_Some_iff split: option.splits)

lemma authStatus_authenticated:
  assumes "authStatus env token s = (s', st)" "stAuthenticated st"
  shows "\<exists>t owner row. token = Some t \<and> ownerRow (svDb s) = Some owner \<and> stUser st = Some (safeUser owner)
    \<and> srTokenHash row = aeSha256 env t \<and> session_valid (svDb s) row (aeNow env (svClock s))
    \<and> (\<exists>found. stSession st = Some found \<and> lkSession found = Some (mapSession row))"
proof -
  from assms obtain t owner where t: "token = Some t" "ownerRow (svDb s) = Some owner"
    "lkStatus (findSessionByRawToken env (svDb s) t (aeNow env (svClock s))) = ValidSession"
    "stUser st = Some (safeUser owner)" "stSession st = Some (findSessionByRawToken env (svDb s) t (aeNow env (svClock s)))"
    by (auto simp: authStatus_def readNow_def Let_def split: option.splits if_split_asm)
  from find_token_valid [OF t(3)] t show ?thesis by blast
qed

lemma boundary_forwarded:
  assumes "authBoundary env r (Some rt) = (rt', Forwarded (Some (user, sid)))"
  shows "\<exists>t owner row. selectSessionToken (rqCookies r) (rtConfig rt) = Some t
      \<and> ownerRow (svDb (rtService rt)) = Some owner \<and> user = safeUser owner
      \<and> srTokenHash row = aeSha256 env t \<and> srId row = sid
      \<and> session_valid (svDb (rtService rt)) row (aeNow env (svClock (rtService rt)))"
    and "mutationRefused env r (textUpper (rqMethod r)) (rtConfig rt) = None"
proof -
  obtain s st where st: "authStatus env (selectSessionToken (rqCookies r) (rtConfig rt)) (rtService rt) = (s, st)"
    by (cases "authStatus env (selectSessionToken (rqCookies r) (rtConfig rt)) (rtService rt)")
  from assms st have au: "stAuthenticated st" "stUser st = Some user"
    "mutationRefused env r (textUpper (rqMethod r)) (rtConfig rt) = None"
    "\<exists>found session. stSession st = Some found \<and> lkSession found = Some session \<and> asnId session = sid"
    by (auto simp: authBoundary_def Let_def split: if_split_asm bool.split_asm option.split_asm prod.split_asm)
  then show "mutationRefused env r (textUpper (rqMethod r)) (rtConfig rt) = None" by blast
  from authStatus_authenticated [OF st au(1)] au(2,4)
  show "\<exists>t owner row. selectSessionToken (rqCookies r) (rtConfig rt) = Some t
      \<and> ownerRow (svDb (rtService rt)) = Some owner \<and> user = safeUser owner
      \<and> srTokenHash row = aeSha256 env t \<and> srId row = sid
      \<and> session_valid (svDb (rtService rt)) row (aeNow env (svClock (rtService rt)))"
    by (auto simp: mapSession_def)
qed

lemma boundary_public: "authBoundary env r rt = (rt', Forwarded None) \<Longrightarrow> isPublicEndpoint (textUpper (rqMethod r)) (rqPath r)"
  by (auto simp: authBoundary_def Let_def split: if_split_asm bool.split_asm option.split_asm prod.split_asm)

lemma mutationRefused_None:
  assumes "mutationRefused env r m config = None" "isUnsafeMethod m"
  shows "header r ''origin'' = None \<or> header r ''origin'' = Some (publicOrigin config)"
    and "map_option (aeLower env) (header r ''sec-fetch-site'') \<noteq> Some (js ''cross-site'')"
    and "requestHasBody r \<Longrightarrow> requiresJsonBody m (rqPath r) \<Longrightarrow> hasJsonContentType r"
proof -
  have c: "checkCsrfHeaders env r m config = None"
    using assms by (auto simp: mutationRefused_def split: option.split_asm)
  show "header r ''origin'' = None \<or> header r ''origin'' = Some (publicOrigin config)"
    "map_option (aeLower env) (header r ''sec-fetch-site'') \<noteq> Some (js ''cross-site'')"
    using checkCsrfHeaders_None [OF c assms(2)] by blast+
  show "requestHasBody r \<Longrightarrow> requiresJsonBody m (rqPath r) \<Longrightarrow> hasJsonContentType r"
    using assms c by (auto simp: mutationRefused_def checkJsonContentType_def split: if_split_asm option.split_asm)
qed

section \<open>What a login needs\<close>

lemma openSession_Inr:
  assumes "openSession env user now s = (s', Inr (u, created))"
  shows "u = safeUser user \<and> insertSession (usId user) (csTokenHash created) now (now + SESSION_LIFETIME_MS) (svDb s)
      = Inr (svDb s', asnId (csSession created)) \<and> csTokenHash created = hashSessionToken env (csRawToken created)
    \<and> csRawToken created = generateSessionToken env (svDraws s) \<and> asnExpiresAt (csSession created) = now + SESSION_LIFETIME_MS"
  using assms by (auto simp: openSession_def createSession_def Let_def bindR_def split: sum.splits prod.splits)

lemma throwLoginFailure_db [simp]: "svDb (fst (throwLoginFailure env n s)) = svDb s"
  by (simp add: throwLoginFailure_def readNow_def Let_def split: prod.split)

lemma loginStart_Inr:
  assumes "loginStart env u p s = (s', Inr pend)"
  shows "s' = s \<and> (\<exists>us pw. u = JStr us \<and> p = JStr pw \<and> isValidPassword p \<and> plPassword pend = pw
    \<and> plNormalized pend = normalizeUsername env u
    \<and> plCandidate pend = (case (normalizeUsername env u, ownerRow (svDb s)) of
        (Some n, Some row) \<Rightarrow> if usNormalized row = n then Some row else None | _ \<Rightarrow> None)
    \<and> plHash pend = parsePasswordHash (case plCandidate pend of Some row \<Rightarrow> usPasswordHash row | None \<Rightarrow> svDummyHash s))"
  using assms
  by (cases u; cases p) (auto simp: loginStart_def Let_def verifyStart_def split: if_split_asm prod.split_asm)

text \<open>The verdict on a candidate is the verification of the password against the stored hash.\<close>

lemma loginVerdict_start:
  assumes "loginStart env u p s = (s', Inr pend)" "plCandidate pend = Some row"
  shows "loginVerdict env pend (Some (Resolved x)) = Inr (verifyPassword env p (usPasswordHash row))"
    and "loginVerdict env pend kdf = Inr True \<Longrightarrow> verifyPassword env p (usPasswordHash row)"
proof -
  from loginStart_Inr [OF assms(1)] obtain pw where pw: "p = JStr pw" "isValidPassword p" "plPassword pend = pw"
    "plHash pend = parsePasswordHash (usPasswordHash row)" using assms(2) by auto
  have v: "verifyPassword env p (usPasswordHash row)
      = (case plHash pend of None \<Rightarrow> False | Some parsed \<Rightarrow> verifyResult env pw parsed)"
    using pw by (simp add: verifyPassword_def verifyStart_def split: option.split)
  show "loginVerdict env pend (Some (Resolved x)) = Inr (verifyPassword env p (usPasswordHash row))"
    unfolding v using pw(3) by (simp add: loginVerdict_def split: option.split)
  show "loginVerdict env pend kdf = Inr True \<Longrightarrow> verifyPassword env p (usPasswordHash row)"
    unfolding v using pw(3) by (auto simp: loginVerdict_def split: option.split_asm settlement.split_asm)
qed

lemma loginFinish_Inr:
  assumes "loginFinish env pend kdf s = (s', Inr (u, created))"
  shows "\<exists>row now t. plCandidate pend = Some row \<and> loginVerdict env pend kdf = Inr True \<and> usDisabled row \<noteq> 1
     \<and> openSession env row now t = (s', Inr (u, created)) \<and> svDb t = svDb s \<and> svDraws t = svDraws s
     \<and> now = aeNow env (svClock s)"
proof -
  from assms obtain row where "plCandidate pend = Some row" "loginVerdict env pend kdf = Inr True" "usDisabled row \<noteq> 1"
    "openSession env row (aeNow env (svClock s)) (s\<lparr>svLoginLimiter := reset (svLoginLimiter s)
        (case plNormalized pend of None \<Rightarrow> [] | Some u \<Rightarrow> u), svClock := Suc (svClock s)\<rparr>) = (s', Inr (u, created))"
    unfolding loginFinish_def
    by (auto simp: readNow_def Let_def split: sum.split_asm option.split_asm if_split_asm prod.split_asm)
  then show ?thesis by fastforce
qed

lemma login_sound_facts:
  assumes "loginStart env u p s = (s1, Inr pend)" "loginFinish env pend kdf s2 = (s3, Inr (user, created))"
  shows "\<exists>owner. ownerRow (svDb s) = Some owner \<and> normalizeUsername env u = Some (usNormalized owner)
    \<and> usDisabled owner \<noteq> 1 \<and> verifyPassword env p (usPasswordHash owner) \<and> user = safeUser owner"
proof -
  from loginFinish_Inr [OF assms(2)] obtain row now t where row: "plCandidate pend = Some row"
    "loginVerdict env pend kdf = Inr True" "usDisabled row \<noteq> 1" "openSession env row now t = (s3, Inr (user, created))"
    by blast
  have "ownerRow (svDb s) = Some row \<and> normalizeUsername env u = Some (usNormalized row)"
    using loginStart_Inr [OF assms(1)] row(1) by (auto split: option.split_asm if_split_asm)
  moreover have "verifyPassword env p (usPasswordHash row)" by (rule loginVerdict_start(2) [OF assms(1) row(1,2)])
  moreover have "user = safeUser row" using openSession_Inr [OF row(4)] by blast
  ultimately show ?thesis using row(3) by blast
qed

section \<open>What a setup does\<close>

lemma ownerRow_None: "auth_db_ok db \<Longrightarrow> ownerRow db = None \<longleftrightarrow> adbInstance db = None"
  by (force simp: ownerRow_def auth_db_ok_def find_None_iff split: option.splits)

lemma ownerRow_cong: "adbUsers db = adbUsers db' \<Longrightarrow> adbInstance db = adbInstance db' \<Longrightarrow> ownerRow db = ownerRow db'"
  by (simp add: ownerRow_def split: option.split)

lemma ownerTransaction_Inr:
  assumes "ownerTransaction env n name hash now db = Inr (db', owner)" "auth_db_ok db"
  shows "adbInstance db = None \<and> auth_db_ok db' \<and> ownerRow db' = Some owner \<and> adbUsers db' = adbUsers db @ [owner]
    \<and> usUsername owner = name \<and> usNormalized owner = name \<and> usPasswordHash owner = hash \<and> usDisabled owner = 0
    \<and> adbSessions db' = adbSessions db \<and> adbSessionSeq db' = adbSessionSeq db"
proof -
  from assms(1) obtain db1 i where no: "ownerRow db = None" and iu: "insertUser name name hash now db = Inr (db1, i)"
    and ii: "insertInstance i now db1 = Inr db'" and o: "ownerRow db' = Some owner"
    by (auto simp: ownerTransaction_def split: if_split_asm sum.split_asm option.split_asm prod.split_asm)
  let ?u = "\<lparr>usId = i, usUsername = name, usNormalized = name, usPasswordHash = hash, usDisabled = 0,
     usCreatedAt = now, usUpdatedAt = now\<rparr>"
  have db1: "db1 = db\<lparr>adbUsers := adbUsers db @ [?u], adbUserSeq := i\<rparr>" "i = adbUserSeq db + 1"
    using iu by (auto simp: insertUser_def Let_def split: if_split_asm)
  have db': "db' = db1\<lparr>adbInstance := Some \<lparr>inOwnerUserId = i, inCreatedAt = now, inUpdatedAt = now\<rparr>\<rparr>"
    using ii by (auto simp: insertInstance_def split: if_split_asm)
  have ok: "auth_db_ok db'" using insertInstance_ok [OF insertUser_ok [OF assms(2) iu] ii] .
  have "i \<notin> usId ` set (adbUsers db)" using assms(2) db1(2) by (auto simp: auth_db_ok_def)
  then have "owner = ?u" using o by (auto simp: ownerRow_def db' db1(1) find_Some_iff nth_append split: if_split_asm)
  then show ?thesis using ownerRow_None [OF assms(2)] no ok o by (simp add: db' db1(1))
qed

lemma openSession_frame:
  assumes "openSession env user now s = (s', res)"
  shows "adbUsers (svDb s') = adbUsers (svDb s) \<and> adbInstance (svDb s') = adbInstance (svDb s)
    \<and> svBootstrap s' = svBootstrap s \<and> sessions_evolve (svDb s) (svDb s')
    \<and> (auth_db_ok (svDb s) \<longrightarrow> auth_db_ok (svDb s'))"
proof (cases "createSession env (svDraws s) (usId user) now (svDb s)")
  case (Inl e)
  then show ?thesis using assms by (auto simp: openSession_def Let_def)
next
  case (Inr c)
  obtain db created where c: "c = (db, created)" by (cases c)
  from Inr obtain h e i where ins: "insertSession (usId user) h now e (svDb s) = Inr (db, i)"
    by (auto simp: c createSession_def Let_def bindR_def split: sum.split_asm prod.split_asm)
  have "adbUsers db = adbUsers (svDb s) \<and> adbInstance db = adbInstance (svDb s)"
    using ins by (auto simp: insertSession_def Let_def split: if_split_asm)
  then show ?thesis
    using assms Inr insertSession_evolve [OF ins] insertSession_ok [OF _ ins] by (auto simp: openSession_def Let_def c)
qed

lemma setupFinish_Inr:
  assumes "setupFinish env p kdf s = (s', Inr (u, created))" "auth_db_ok (svDb s)"
  shows "adbInstance (svDb s) = None \<and> (\<exists>owner. ownerRow (svDb s') = Some owner
    \<and> usNormalized owner = psUsername p \<and> usUsername owner = psUsername p \<and> usDisabled owner = 0
    \<and> usPasswordHash owner = hashResult env (psPassword p) (psSalt p)
    \<and> adbUsers (svDb s') = adbUsers (svDb s) @ [owner] \<and> u = safeUser owner)"
proof -
  from assms(1) obtain now n db owner t where tr: "ownerTransaction env n (psUsername p)
      (hashResult env (psPassword p) (psSalt p)) now (svDb s) = Inr (db, owner)"
    and op: "openSession env owner now t = (s', Inr (u, created))" and t: "svDb t = db"
    unfolding setupFinish_def
    by (fastforce simp: readNow_def Let_def split: settlement.split_asm sum.split_asm owner_failure.split_asm prod.split_asm)
  note tx = ownerTransaction_Inr [OF tr assms(2)]
  have "ownerRow (svDb s') = ownerRow db" "adbUsers (svDb s') = adbUsers db"
    using openSession_frame [OF op] t by (auto intro: ownerRow_cong)
  then show ?thesis using tx openSession_Inr [OF op] by auto
qed

lemma setupStart_Inr:
  assumes "setupStart env tok u p s = (s', Inr pend)"
  shows "ownerRow (svDb s) = None \<and> bootstrapVerify env (svBootstrap s) tok \<and> isValidPassword p
    \<and> normalizeUsername env u = Some (psUsername pend) \<and> p = JStr (psPassword pend)
    \<and> psSalt pend = aeRandom env (svDraws s) SCRYPT_SALT_BYTES"
  using assms
  by (cases u; cases p)
    (auto simp: setupStart_def readNow_def ownerExists_def isValidPassword_def Let_def
      split: if_split_asm option.split_asm prod.split_asm)

text \<open>The password of the setup, and only one that derives the same key, opens the owner's sessions.\<close>

lemma login_after_setup:
  assumes env: "crypto_ok env" and ss: "setupStart env tok u p s0 = (s1, Inr ps)"
    and sf: "setupFinish env ps kdf s2 = (s3, Inr (user, created))" "auth_db_ok (svDb s2)"
    and same: "adbUsers (svDb t) = adbUsers (svDb s3)" "adbInstance (svDb t) = adbInstance (svDb s3)"
    and ls: "loginStart env u q t = (t1, Inr pend)"
    and fresh: "hashSessionToken env (generateSessionToken env (svDraws t2)) \<notin> srTokenHash ` set (adbSessions (svDb t2))"
      "adbUsers (svDb t2) = adbUsers (svDb t)"
  shows "(\<exists>t3 made. loginFinish env pend (Some (Resolved ())) t2 = (t3, Inr (user, made)))
    \<longleftrightarrow> (\<exists>pw. q = JStr pw \<and> aeScrypt env pw (psSalt ps) = aeScrypt env (psPassword ps) (psSalt ps))"
proof -
  from setupFinish_Inr [OF sf] obtain owner where o: "ownerRow (svDb s3) = Some owner" "usNormalized owner = psUsername ps"
    "usDisabled owner = 0" "usPasswordHash owner = hashResult env (psPassword ps) (psSalt ps)" "user = safeUser owner"
    by blast
  note st = setupStart_Inr [OF ss]
  have ot: "ownerRow (svDb t) = Some owner" using ownerRow_cong [OF same] o(1) by simp
  from loginStart_Inr [OF ls] obtain pw where q: "q = JStr pw" "isValidPassword q" "plCandidate pend = Some owner"
    using st ot o(2) by auto
  have v: "loginVerdict env pend (Some (Resolved ())) = Inr (verifyPassword env q (usPasswordHash owner))"
    by (rule loginVerdict_start(1) [OF ls q(3)])
  have pv: "isValidPassword (JStr (psPassword ps))" using st by metis
  have salt: "length (psSalt ps) = SCRYPT_SALT_BYTES" "isBytes (psSalt ps)" using st env by (simp_all add: crypto_ok_def)
  have iff: "verifyPassword env q (usPasswordHash owner)
      \<longleftrightarrow> aeScrypt env pw (psSalt ps) = aeScrypt env (psPassword ps) (psSalt ps)"
    using verify_hash [OF env pv salt, of pw] q by (simp add: o(4))
  have "usId owner \<in> usId ` set (adbUsers (svDb t2))"
    using ownerRow_Some [OF ot] fresh(2) by simp
  then have made: "\<exists>t3 made. openSession env owner now t' = (t3, Inr (safeUser owner, made))"
    if "svDb t' = svDb t2" "svDraws t' = svDraws t2" for t' now
    using fresh(1) that by (auto simp: openSession_def createSession_def insertSession_def bindR_def Let_def)
  show ?thesis
  proof
    assume "\<exists>t3 made. loginFinish env pend (Some (Resolved ())) t2 = (t3, Inr (user, made))"
    then have "verifyPassword env q (usPasswordHash owner)" using loginFinish_Inr v by fastforce
    then show "\<exists>pw. q = JStr pw \<and> aeScrypt env pw (psSalt ps) = aeScrypt env (psPassword ps) (psSalt ps)"
      using iff q(1) by blast
  next
    assume "\<exists>pw. q = JStr pw \<and> aeScrypt env pw (psSalt ps) = aeScrypt env (psPassword ps) (psSalt ps)"
    then have "verifyPassword env q (usPasswordHash owner)" using iff q(1) by simp
    then show "\<exists>t3 made. loginFinish env pend (Some (Resolved ())) t2 = (t3, Inr (user, made))"
      using v q(3) o(3,5) made
      by (simp add: loginFinish_def readNow_def Let_def)
  qed
qed

end
