(* ===== verification/AuthHistory.thy ===== *)
theory AuthHistory
  imports AuthFacts
begin

text \<open>
  The authentication service as it runs: requests arrive, the guard takes its turns, a suspended setup or login
  resumes when the guard has settled its job, a suspended logout once the diary has let go of its session, and the deferred delete of expired sessions gets its turn.
  Any order of these is a history. The invariant of the state and the relation \<open>progresses\<close>, which every
  operation satisfies, carry the facts about whole histories: one owner, and no session that comes back.
\<close>

section \<open>The system\<close>

datatype suspended =
    AwaitSetup PendingSetup
  | AwaitLogin PendingLogin
  | AwaitLogout jsstr

record waiting_request =
  wqJob :: "nat option"
  wqWork :: suspended

record auth_system =
  syRuntime :: auth_runtime
  syGuard :: "unit KdfGuard"
  syWaiting :: "waiting_request list"

datatype auth_output =
    Responded http_response
  | Handled http_request "(SafeUser \<times> int) option"
  | Suspended
  | Quiet

datatype auth_event =
    Request http_request
  | GuardTurn "unit kdf_event"
  | Resume nat
  | PruneTurn

text \<open>A key derivation is a job of the guard under the signal of the request.\<close>

definition suspend :: "nat option \<Rightarrow> bool \<Rightarrow> suspended \<Rightarrow> auth_system \<Rightarrow> auth_system" where
  "suspend signal derives work sys =
     (if derives
      then sys\<lparr>syGuard := run signal (syGuard sys),
               syWaiting := syWaiting sys @ [\<lparr>wqJob = Some (kgNext (syGuard sys)), wqWork = work\<rparr>]\<rparr>
      else sys\<lparr>syWaiting := syWaiting sys @ [\<lparr>wqJob = None, wqWork = work\<rparr>]\<rparr>)"

definition authRoute :: "auth_env \<Rightarrow> http_request \<Rightarrow> (SafeUser \<times> int) option \<Rightarrow> auth_system \<Rightarrow> auth_system \<times> auth_output" where
  "authRoute env r who sys =
     (let endpoint = (rqMethod r, rqPath r); rt = syRuntime sys in
      if endpoint = (js ''GET'', js ''/api/auth/status'')
      then let (rt, resp) = statusRoute env r rt in (sys\<lparr>syRuntime := rt\<rparr>, Responded resp)
      else if endpoint = (js ''POST'', js ''/api/auth/setup'')
      then (let (rt, res) = setupRoute env r rt; sys = sys\<lparr>syRuntime := rt\<rparr> in
            case res of Inl resp \<Rightarrow> (sys, Responded resp)
            | Inr p \<Rightarrow> (suspend (rqSignal r) True (AwaitSetup p) sys, Suspended))
      else if endpoint = (js ''POST'', js ''/api/auth/login'')
      then (let (rt, res) = loginRoute env r rt; sys = sys\<lparr>syRuntime := rt\<rparr> in
            case res of Inl resp \<Rightarrow> (sys, Responded resp)
            | Inr p \<Rightarrow> (suspend (rqSignal r) (plHash p \<noteq> None) (AwaitLogin p) sys, Suspended))
      else if endpoint = (js ''POST'', js ''/api/auth/logout'')
      then (let (rt, res) = logoutRoute env r rt; sys = sys\<lparr>syRuntime := rt\<rparr> in
            case res of Inl resp \<Rightarrow> (sys, Responded resp)
            | Inr token \<Rightarrow> (suspend None False (AwaitLogout token) sys, Suspended))
      else (sys, Handled r who))"

definition serveRequest :: "auth_env \<Rightarrow> http_request \<Rightarrow> auth_system \<Rightarrow> auth_system \<times> auth_output" where
  "serveRequest env r sys =
     (case authBoundary env r (Some (syRuntime sys)) of
        (None, _) \<Rightarrow> (sys, Responded unavailable)
      | (Some rt, Rejected resp) \<Rightarrow> (sys\<lparr>syRuntime := rt\<rparr>, Responded resp)
      | (Some rt, Forwarded who) \<Rightarrow> authRoute env r who (sys\<lparr>syRuntime := rt\<rparr>))"

text \<open>
  The request at position \<open>i\<close> resumes if the guard has settled its job. When the diary lets go of a session is not
  known here, so a logout may resume at any turn.
\<close>

definition resume :: "auth_env \<Rightarrow> nat \<Rightarrow> auth_system \<Rightarrow> auth_system \<times> auth_output" where
  "resume env i sys =
     (if length (syWaiting sys) \<le> i then (sys, Quiet)
      else let w = syWaiting sys ! i;
               settled = (case wqJob w of None \<Rightarrow> None | Some j \<Rightarrow> map_of (kgSettled (syGuard sys)) j) in
        if wqJob w \<noteq> None \<and> settled = None then (sys, Quiet)
        else let rest = take i (syWaiting sys) @ drop (Suc i) (syWaiting sys);
                 (rt, resp) = (case wqWork w of
                    AwaitSetup p \<Rightarrow> setupAnswer env p (case settled of None \<Rightarrow> JobRejected | Some r \<Rightarrow> r) (syRuntime sys)
                  | AwaitLogin p \<Rightarrow> loginAnswer env p settled (syRuntime sys)
                  | AwaitLogout token \<Rightarrow> logoutAnswer env (Some token) (syRuntime sys))
          in (sys\<lparr>syRuntime := rt, syWaiting := rest\<rparr>, Responded resp))"

fun auth_step :: "auth_env \<Rightarrow> auth_event \<Rightarrow> auth_system \<Rightarrow> auth_system \<times> auth_output" where
  "auth_step env (Request r) sys = serveRequest env r sys"
| "auth_step env (GuardTurn (Run _)) sys = (sys, Quiet)"
| "auth_step env (GuardTurn e) sys = (sys\<lparr>syGuard := kdf_step (syGuard sys) e\<rparr>, Quiet)"
| "auth_step env (Resume i) sys = resume env i sys"
| "auth_step env PruneTurn sys =
     (sys\<lparr>syRuntime := (syRuntime sys)\<lparr>rtService := runPruneMicrotask (rtService (syRuntime sys))\<rparr>\<rparr>, Quiet)"

fun auth_run :: "auth_env \<Rightarrow> auth_event list \<Rightarrow> auth_system \<Rightarrow> auth_system \<times> auth_output list" where
  "auth_run env [] sys = (sys, [])"
| "auth_run env (e # es) sys =
     (let (sys, out) = auth_step env e sys; (sys, outs) = auth_run env es sys in (sys, out # outs))"

abbreviation serviceOf :: "auth_system \<Rightarrow> auth_service" where
  "serviceOf sys \<equiv> rtService (syRuntime sys)"

section \<open>The invariant\<close>

text \<open>The tables are in a good state, and an owned instance has closed its setup.\<close>

definition service_ok :: "auth_service \<Rightarrow> bool" where
  "service_ok s \<longleftrightarrow> auth_db_ok (svDb s) \<and> (adbInstance (svDb s) \<noteq> None \<longrightarrow> bsClosed (svBootstrap s))"

definition progresses :: "auth_service \<Rightarrow> auth_service \<Rightarrow> bool" where
  "progresses s s' \<longleftrightarrow> svClock s \<le> svClock s' \<and> (service_ok s \<longrightarrow> service_ok s' \<and> sessions_evolve (svDb s) (svDb s')
     \<and> (adbInstance (svDb s) \<noteq> None \<longrightarrow> adbInstance (svDb s') = adbInstance (svDb s) \<and> adbUsers (svDb s') = adbUsers (svDb s)))"

lemma progresses_refl [simp]: "progresses s s"
  by (simp add: progresses_def)

lemma progresses_trans: "progresses a b \<Longrightarrow> progresses b c \<Longrightarrow> progresses a c"
  unfolding progresses_def using sessions_evolve_trans by (smt (verit) le_trans)

text \<open>An operation that leaves tables and setup token alone progresses; so does one that only moves sessions.\<close>

lemma progresses_same:
  "svDb s' = svDb s \<Longrightarrow> svBootstrap s' = svBootstrap s \<Longrightarrow> svClock s \<le> svClock s' \<Longrightarrow> progresses s s'"
  by (simp add: progresses_def service_ok_def)

lemma progresses_sessions:
  assumes "adbUsers (svDb s') = adbUsers (svDb s)" "adbInstance (svDb s') = adbInstance (svDb s)"
    and "svBootstrap s' = svBootstrap s" "svClock s \<le> svClock s'"
    and "sessions_evolve (svDb s) (svDb s')" "auth_db_ok (svDb s) \<Longrightarrow> auth_db_ok (svDb s')"
  shows "progresses s s'"
  using assms by (simp add: progresses_def service_ok_def)

lemma throwLoginFailure_progresses: "progresses s (fst (throwLoginFailure env n s))"
  by (rule progresses_same) (simp_all add: throwLoginFailure_def readNow_def Let_def split: prod.split)

lemma authStatus_progresses: "authStatus env t s = (s', st) \<Longrightarrow> progresses s s'"
  by (rule progresses_same) (auto simp: authStatus_def readNow_def Let_def split: option.split_asm if_split_asm)

lemma updateSessions_frame [simp]:
  "adbUsers (fst (updateSessions P f db)) = adbUsers db" "adbInstance (fst (updateSessions P f db)) = adbInstance db"
  by (simp_all add: updateSessions_def)

lemma revokeWhere_frame [simp]:
  "adbUsers (fst (revokeWhere P now db)) = adbUsers db" "adbInstance (fst (revokeWhere P now db)) = adbInstance db"
  by (simp_all add: revokeWhere_def)

lemma touchSessionLastSeen_frame:
  "touchSessionLastSeen i now m db = Inr (db', b) \<Longrightarrow> adbUsers db' = adbUsers db \<and> adbInstance db' = adbInstance db"
  by (auto simp: touchSessionLastSeen_def updateSessions_def split: if_split_asm)

lemma maybePrune_same [simp]:
  "svDb (maybePruneExpiredSessions now s) = svDb s" "svBootstrap (maybePruneExpiredSessions now s) = svBootstrap s"
  "svClock (maybePruneExpiredSessions now s) = svClock s"
  by (simp_all add: maybePruneExpiredSessions_def)

lemma maintain_progresses:
  assumes "maintainAuthenticatedSession env session s = (s', kept)" shows "progresses s s'"
proof (cases "aeNow env (svClock s) - asnLastSeenAt session \<ge> svTouchIntervalMs s")
  case False
  then show ?thesis using assms
    by (intro progresses_same) (auto simp: maintainAuthenticatedSession_def readNow_def Let_def)
next
  case True
  let ?t = "touchSessionLastSeen (asnId session) (aeNow env (svClock s)) (svTouchIntervalMs s) (svDb s)"
  show ?thesis
  proof (cases ?t)
    case (Inl e)
    then show ?thesis using assms True
      by (intro progresses_same) (auto simp: maintainAuthenticatedSession_def readNow_def Let_def)
  next
    case (Inr p)
    obtain db touched where p: "p = (db, touched)" by (cases p)
    have "svDb s' = db \<and> svBootstrap s' = svBootstrap s \<and> svClock s' = Suc (svClock s)"
      using assms True Inr p
      by (auto simp: maintainAuthenticatedSession_def readNow_def Let_def split: if_split_asm)
    then show ?thesis
      using touchSessionLastSeen_frame [OF Inr [unfolded p]] touchSessionLastSeen_evolve [OF Inr [unfolded p]]
        touchSessionLastSeen_ok [OF _ Inr [unfolded p]]
      by (intro progresses_sessions) simp_all
  qed
qed

lemma setupStart_progresses: "setupStart env tok u p s = (s', res) \<Longrightarrow> progresses s s'"
  by (rule progresses_same)
    (auto simp: setupStart_def readNow_def Let_def split: if_split_asm jsval.split_asm option.split_asm prod.split_asm)

lemma openSession_progresses:
  assumes "openSession env user now s = (s', res)" shows "progresses s s'"
proof -
  have "svClock s' = svClock s" using assms
    by (auto simp: openSession_def Let_def split: sum.split_asm prod.split_asm)
  then show ?thesis using openSession_frame [OF assms] by (intro progresses_sessions) auto
qed

lemma ownerTransaction_owned:
  "ownerTransaction env n name hash now db = Inr (db', owner) \<Longrightarrow> auth_db_ok db \<Longrightarrow> adbInstance db = None"
  using ownerTransaction_Inr by blast

lemma setupFinish_progresses:
  assumes "setupFinish env p kdf s = (s', res)" shows "progresses s s'"
proof -
  let ?t = "s\<lparr>svClock := Suc (svClock s), svWrites := Suc (svWrites s)\<rparr>"
  let ?tx = "ownerTransaction env (svWrites s) (psUsername p) (hashResult env (psPassword p) (psSalt p))
    (aeNow env (svClock s)) (svDb s)"
  show ?thesis
  proof (cases "kdf = Resolved () \<and> (\<exists>x. ?tx = Inr x)")
    case False
    have "s' = s \<or> s' = ?t"
    proof (cases kdf)
      case (Resolved x)
      with False obtain f where "?tx = Inl f" by (cases ?tx) auto
      with Resolved assms show ?thesis by (cases f) (simp_all add: setupFinish_def readNow_def Let_def)
    qed (use assms in \<open>simp_all add: setupFinish_def\<close>)
    then show ?thesis by (auto intro: progresses_same)
  next
    case True
    then obtain db owner where tx: "?tx = Inr (db, owner)" by auto
    let ?u = "?t\<lparr>svDb := db, svBootstrap := markOwnerCommitted (svBootstrap s),
       svSetupLimiter := reset (svSetupLimiter s) (js ''setup'')\<rparr>"
    have op: "openSession env owner (aeNow env (svClock s)) ?u = (s', res)"
      using assms True tx by (simp add: setupFinish_def readNow_def Let_def)
    have "progresses s ?u"
    proof -
      have "service_ok s \<Longrightarrow> adbInstance (svDb s) = None \<and> auth_db_ok db \<and> sessions_evolve (svDb s) db"
        using ownerTransaction_Inr [OF tx] by (auto simp: service_ok_def intro: sessions_evolve_same)
      then show ?thesis by (auto simp: progresses_def service_ok_def)
    qed
    then show ?thesis using openSession_progresses [OF op] by (rule progresses_trans)
  qed
qed

lemma loginStart_progresses: "loginStart env u p s = (s', res) \<Longrightarrow> progresses s s'"
  using throwLoginFailure_progresses [of s env "normalizeUsername env u"]
  by (cases u; cases p) (auto simp: loginStart_def Let_def split: if_split_asm prod.split_asm)

lemma loginFinish_progresses:
  assumes "loginFinish env p kdf s = (s', res)" shows "progresses s s'"
proof -
  note fail = throwLoginFailure_progresses [of s env "plNormalized p"]
  show ?thesis
  proof (cases "\<exists>user. plCandidate p = Some user \<and> loginVerdict env p kdf = Inr True \<and> usDisabled user \<noteq> 1")
    case False
    then have "s' = s \<or> s' = fst (throwLoginFailure env (plNormalized p) s)"
      using assms unfolding loginFinish_def Let_def
      by (auto split: sum.split_asm option.split_asm if_split_asm prod.split_asm)
    then show ?thesis using fail by auto
  next
    case True
    then obtain user where user: "plCandidate p = Some user" "loginVerdict env p kdf = Inr True" "usDisabled user \<noteq> 1"
      by blast
    let ?t = "s\<lparr>svLoginLimiter := reset (svLoginLimiter s) (case plNormalized p of None \<Rightarrow> [] | Some u \<Rightarrow> u),
      svClock := Suc (svClock s)\<rparr>"
    have op: "openSession env user (aeNow env (svClock s)) ?t = (s', res)"
      using assms user by (simp add: loginFinish_def readNow_def Let_def)
    have "progresses s ?t" by (rule progresses_same) simp_all
    then show ?thesis using openSession_progresses [OF op] by (rule progresses_trans)
  qed
qed

lemma revokeSession_fst:
  "fst (revokeSession env t now db) = (if hashSessionToken env t = [] then db
     else fst (revokeWhere (\<lambda>s. srTokenHash s = hashSessionToken env t) now db))"
  by (simp add: revokeSession_def Let_def case_prod_beta)

lemma revokeSession_frame:
  "adbUsers (fst (revokeSession env t now db)) = adbUsers db"
  "adbInstance (fst (revokeSession env t now db)) = adbInstance db"
  "sessions_evolve db (fst (revokeSession env t now db))"
  "auth_db_ok db \<Longrightarrow> auth_db_ok (fst (revokeSession env t now db))"
  by (simp_all add: revokeSession_fst revokeWhere_evolve revokeWhere_ok)

lemma logout_progresses: "progresses s (logout env t s)"
proof -
  have rev: "progresses s (s\<lparr>svClock := c, svDb := fst (revokeSession env tok now (svDb s))\<rparr>)" if "svClock s \<le> c" for tok now c
    using that by (intro progresses_sessions) (simp_all add: revokeSession_frame)
  show ?thesis
    unfolding logout_def readNow_def Let_def
    by (auto split: option.split intro: rev progresses_same)
qed

lemma runPruneMicrotask_progresses: "progresses s (runPruneMicrotask s)"
  unfolding runPruneMicrotask_def
  by (cases "svMicrotasks s")
    (auto intro!: progresses_sessions simp: deleteExpiredSessions_evolve deleteExpiredSessions_ok deleteExpiredSessions_def [THEN arg_cong [of _ _ adbUsers]]
      deleteExpiredSessions_def [THEN arg_cong [of _ _ adbInstance]])

section \<open>Every step progresses\<close>

lemma statusRoute_progresses: "statusRoute env r rt = (rt', resp) \<Longrightarrow> progresses (rtService rt) (rtService rt')"
  by (auto simp: statusRoute_def Let_def split: prod.split_asm option.split_asm if_split_asm dest: authStatus_progresses)

lemma setupRoute_progresses: "setupRoute env r rt = (rt', res) \<Longrightarrow> progresses (rtService rt) (rtService rt')"
  by (auto simp: setupRoute_def Let_def split: prod.split_asm option.split_asm if_split_asm dest: setupStart_progresses)

lemma loginRoute_progresses: "loginRoute env r rt = (rt', res) \<Longrightarrow> progresses (rtService rt) (rtService rt')"
  by (auto simp: loginRoute_def Let_def split: prod.split_asm option.split_asm if_split_asm dest: loginStart_progresses)

lemma logoutAnswer_progresses: "logoutAnswer env t rt = (rt', resp) \<Longrightarrow> progresses (rtService rt) (rtService rt')"
  by (auto simp: logoutAnswer_def intro: logout_progresses)

lemma logoutRoute_progresses:
  assumes "logoutRoute env r rt = (rt', res)" shows "progresses (rtService rt) (rtService rt')"
proof -
  have read: "progresses (rtService rt) ((rtService rt)\<lparr>svClock := Suc (svClock (rtService rt))\<rparr>)"
    by (rule progresses_same) simp_all
  show ?thesis using assms read progresses_trans [OF read]
    by (auto simp: logoutRoute_def readNow_def Let_def split: option.split_asm prod.split_asm dest!: logoutAnswer_progresses)
qed

lemma setupAnswer_progresses: "setupAnswer env p kdf rt = (rt', resp) \<Longrightarrow> progresses (rtService rt) (rtService rt')"
  by (auto simp: setupAnswer_def Let_def split: prod.split_asm sum.split_asm dest: setupFinish_progresses)

lemma loginAnswer_progresses: "loginAnswer env p kdf rt = (rt', resp) \<Longrightarrow> progresses (rtService rt) (rtService rt')"
  by (auto simp: loginAnswer_def Let_def split: prod.split_asm sum.split_asm dest: loginFinish_progresses)

lemma boundary_progresses:
  assumes "authBoundary env r (Some rt) = (Some rt', res)" shows "progresses (rtService rt) (rtService rt')"
proof (cases "isPublicEndpoint (textUpper (rqMethod r)) (rqPath r)")
  case True
  then show ?thesis using assms by (simp add: authBoundary_def Let_def)
next
  case False
  obtain s st where st: "authStatus env (selectSessionToken (rqCookies r) (rtConfig rt)) (rtService rt) = (s, st)"
    by (cases "authStatus env (selectSessionToken (rqCookies r) (rtConfig rt)) (rtService rt)")
  have "rtService rt' = s \<or> (\<exists>session. rtService rt' = fst (maintainAuthenticatedSession env session s))"
    using assms False st
    by (auto simp: authBoundary_def Let_def split: bool.split_asm option.split_asm prod.split_asm if_split_asm)
      (metis fst_conv)+
  then show ?thesis
    using authStatus_progresses [OF st] maintain_progresses progresses_trans by (metis prod.collapse)
qed

lemmas route_progresses = statusRoute_progresses setupRoute_progresses loginRoute_progresses logoutRoute_progresses
  setupAnswer_progresses loginAnswer_progresses logoutAnswer_progresses

lemma suspend_runtime [simp]: "syRuntime (suspend sig d w sys) = syRuntime sys"
  by (simp add: suspend_def)

lemma authRoute_progresses:
  "authRoute env r who sys = (sys', out) \<Longrightarrow> progresses (serviceOf sys) (serviceOf sys')"
  unfolding authRoute_def Let_def
  by (auto split: if_split_asm prod.split_asm sum.split_asm dest: route_progresses)

lemma auth_step_progresses:
  assumes "auth_step env e sys = (sys', out)" shows "progresses (serviceOf sys) (serviceOf sys')"
proof (cases e)
  case (Request r)
  obtain rt res where b: "authBoundary env r (Some (syRuntime sys)) = (rt, res)"
    by (cases "authBoundary env r (Some (syRuntime sys))")
  show ?thesis
  proof (cases rt)
    case None
    then show ?thesis using assms Request b by (simp add: serveRequest_def)
  next
    case (Some x)
    note p = boundary_progresses [OF b [unfolded Some]]
    show ?thesis
    proof (cases res)
      case (Rejected resp)
      then show ?thesis using assms Request b Some p by (auto simp: serveRequest_def)
    next
      case (Forwarded who)
      then have "authRoute env r who (sys\<lparr>syRuntime := x\<rparr>) = (sys', out)"
        using assms Request b Some by (simp add: serveRequest_def)
      from progresses_trans [OF p] authRoute_progresses [OF this] show ?thesis by simp
    qed
  qed
next
  case (GuardTurn g)
  then show ?thesis using assms by (cases g) auto
next
  case (Resume i)
  then show ?thesis using assms
    by (auto simp: resume_def Let_def split: if_split_asm suspended.split_asm prod.split_asm dest: route_progresses)
next
  case PruneTurn
  then show ?thesis using assms runPruneMicrotask_progresses by auto
qed

lemma auth_run_progresses: "auth_run env es sys = (sys', outs) \<Longrightarrow> progresses (serviceOf sys) (serviceOf sys')"
proof (induction es arbitrary: sys sys' outs)
  case (Cons e es)
  then show ?case
    by (auto simp: Let_def split: prod.split_asm intro: progresses_trans auth_step_progresses)
qed simp

section \<open>Sessions that ended\<close>

lemma authRoute_Handled: "authRoute env r who sys = (sys', Handled r' who') \<Longrightarrow> r' = r \<and> who' = who"
  by (auto simp: authRoute_def Let_def split: if_split_asm prod.split_asm sum.split_asm)

lemma auth_step_Handled:
  assumes "auth_step env e sys = (sys', Handled r who)"
  shows "e = Request r \<and> (\<exists>rt. authBoundary env r (Some (syRuntime sys)) = (Some rt, Forwarded who))"
proof (cases e)
  case (Request q)
  obtain rt res where b: "authBoundary env q (Some (syRuntime sys)) = (rt, res)"
    by (cases "authBoundary env q (Some (syRuntime sys))")
  show ?thesis using assms b
    by (cases rt; cases res) (auto simp: Request serveRequest_def dest: authRoute_Handled)
next
  case (GuardTurn g)
  then show ?thesis using assms by (cases g) auto
next
  case (Resume i)
  then show ?thesis using assms by (auto simp: resume_def Let_def split: if_split_asm prod.split_asm)
qed (use assms in auto)

text \<open>
  What is served is alive: a session that was dead at a moment of the past, as seen at \<open>time\<close>, is served only by a
  request that reads the clock before \<open>time\<close>.
\<close>

lemma served_alive:
  assumes ok: "service_ok (serviceOf sys)" and run: "auth_run env es sys = (mid, outs)"
    and served: "auth_step env e mid = (sys', Handled r (Some (u, i)))"
    and dead: "session_dead (svDb (serviceOf sys)) i time"
  shows "aeNow env (svClock (serviceOf mid)) < time"
proof (rule ccontr)
  assume "\<not> ?thesis"
  then have "session_dead (svDb (serviceOf mid)) i (aeNow env (svClock (serviceOf mid)))"
    using session_dead_evolves [OF dead] auth_run_progresses [OF run] ok by (simp add: progresses_def)
  moreover obtain row where "srId row = i" "session_valid (svDb (serviceOf mid)) row (aeNow env (svClock (serviceOf mid)))"
    using auth_step_Handled [OF served] boundary_forwarded(1) by blast
  ultimately show False using session_dead_invalid by blast
qed

lemma served_was_alive:
  assumes ok: "service_ok (serviceOf sys)" and run: "auth_run env es sys = (mid, outs)"
    and served: "auth_step env e mid = (sys', Handled r (Some (u, i)))" and old: "i \<le> adbSessionSeq (svDb (serviceOf sys))"
  shows "\<exists>row\<in>set (adbSessions (svDb (serviceOf sys))). srId row = i \<and> srRevokedAt row = None
    \<and> aeNow env (svClock (serviceOf mid)) < srExpiresAt row"
  using served_alive [OF ok run served, of "aeNow env (svClock (serviceOf mid))"] old
  unfolding session_dead_def by force

text \<open>Every output of a run is that of a step after a part of it.\<close>

lemma run_output:
  "auth_run env es sys = (sys', outs) \<Longrightarrow> out \<in> set outs \<Longrightarrow>
     \<exists>pre e mid before next. auth_run env pre sys = (mid, before) \<and> auth_step env e mid = (next, out)"
proof (induction es arbitrary: sys outs)
  case (Cons e es)
  obtain sys1 o1 rest where step: "auth_step env e sys = (sys1, o1)" and run: "auth_run env es sys1 = (sys', rest)"
    and outs: "outs = o1 # rest" using Cons.prems(1) by (auto simp: Let_def split: prod.split_asm)
  show ?case
  proof (cases "out = o1")
    case True
    then show ?thesis using step by (intro exI [of _ "[]"] exI [of _ e]) simp
  next
    case False
    then obtain pre e' mid before following where "auth_run env pre sys1 = (mid, before)" "auth_step env e' mid = (following, out)"
      using Cons.IH [OF run] Cons.prems(2) outs by auto
    then show ?thesis using step by (intro exI [of _ "e # pre"] exI [of _ e'] exI [of _ mid]) simp
  qed
qed simp

text \<open>What is dead at every time, as a revoked session is, is never served.\<close>

lemma dead_never_handled:
  assumes "service_ok (serviceOf sys)" "\<And>time. session_dead (svDb (serviceOf sys)) i time" "auth_run env es sys = (sys', outs)"
  shows "Handled r (Some (u, i)) \<notin> set outs"
proof
  assume "Handled r (Some (u, i)) \<in> set outs"
  from run_output [OF assms(3) this] obtain pre e mid before following where r: "auth_run env pre sys = (mid, before)"
    "auth_step env e mid = (following, Handled r (Some (u, i)))" by blast
  show False using served_alive [OF assms(1) r assms(2)] by blast
qed

section \<open>Logout\<close>

lemma valid_row_found:
  assumes v: "lkStatus (findSessionByRawToken env db t now) = ValidSession"
    and i: "lkSession (findSessionByRawToken env db t now) = Some session"
  shows "\<exists>row u. row \<in> set (adbSessions db) \<and> srTokenHash row = hashSessionToken env t \<and> hashSessionToken env t \<noteq> []
    \<and> usUsername u \<noteq> [] \<and> u \<in> set (adbUsers db) \<and> usId u = srUserId row
    \<and> (\<exists>ai. adbInstance db = Some ai \<and> inOwnerUserId ai = usId u) \<and> srId row = asnId session"
proof -
  have h: "hashSessionToken env t \<noteq> []" using v by (auto simp: findSessionByRawToken_def missingSession_def)
  then obtain row u where j: "joinedRow (\<lambda>s. srTokenHash s = hashSessionToken env t) db = Some (row, u)"
    using v by (cases "joinedRow (\<lambda>s. srTokenHash s = hashSessionToken env t) db")
      (auto simp: findSessionByRawToken_def lookupResult_def missingSession_def)
  then have "usUsername u \<noteq> []" "srId row = asnId session" using v i h
    by (auto simp: findSessionByRawToken_def lookupResult_def missingSession_def mapSession_def Let_def split: if_split_asm)
  then show ?thesis using h joinedRow_Some [OF j] by blast
qed

lemma logout_revokes:
  assumes ok: "auth_db_ok (svDb s)" and row: "joinedRow (\<lambda>s. srTokenHash s = hashSessionToken env t) (svDb s) = Some (row, u)"
    "hashSessionToken env t \<noteq> []" "srRevokedAt row = None" "usUsername u \<noteq> []"
  shows "session_dead (svDb (logout env (Some t) s)) (srId row) later"
proof -
  have t: "t \<noteq> []" using row(2) by (auto simp: hashSessionToken_def)
  have mem: "row \<in> set (adbSessions (svDb s))" "srTokenHash row = hashSessionToken env t" using joinedRow_Some [OF row(1)] by simp_all
  have "lkSession (findSessionByRawToken env (svDb s) t n) \<noteq> None
      \<and> lkStatus (findSessionByRawToken env (svDb s) t n) \<noteq> RevokedSession" for n
    using row by (simp add: findSessionByRawToken_def lookupResult_def mapSession_def Let_def)
  then have "svDb (logout env (Some t) s) = fst (revokeSession env t (aeNow env (Suc (svClock s))) (svDb s))"
    using t by (simp add: logout_def readNow_def Let_def)
  moreover have "srRevokedAt q \<noteq> None" if q: "q \<in> set (adbSessions (fst (revokeSession env t n (svDb s))))" "srId q = srId row" for q n
  proof -
    from q obtain p where p: "p \<in> set (adbSessions (svDb s))" "srId p = srId row"
      "q = (if srTokenHash p = hashSessionToken env t \<and> srRevokedAt p = None
            then p\<lparr>srRevokedAt := Some (case srRevokedAt p of None \<Rightarrow> n | Some t \<Rightarrow> t)\<rparr> else p)"
      using row(2) by (auto simp: revokeSession_fst revokeWhere_def updateSessions_def split: if_split_asm)
    have "p = row" using key_inj [OF auth_db_okD(2) [OF ok] p(1) mem(1) p(2)] .
    then show ?thesis using p(3) mem(2) row(3) by simp
  qed
  moreover have "adbSessionSeq (fst (revokeSession env t n (svDb s))) = adbSessionSeq (svDb s)" for n
    by (simp add: revokeSession_fst revokeWhere_def updateSessions_def)
  moreover have "srId row \<le> adbSessionSeq (svDb s)" using ok mem(1) by (simp add: auth_db_ok_def)
  ultimately show ?thesis by (auto simp: session_dead_def)
qed

text \<open>The session a token stood for is dead after a logout with this token, whatever has happened to it since.\<close>

lemma logout_kills:
  assumes ok: "service_ok s0" and p: "progresses s0 s"
    and v: "lkStatus (findSessionByRawToken env (svDb s0) t now) = ValidSession"
      "lkSession (findSessionByRawToken env (svDb s0) t now) = Some session"
  shows "session_dead (svDb (logout env (Some t) s)) (asnId session) later"
proof -
  from valid_row_found [OF v] obtain row u ai where row: "row \<in> set (adbSessions (svDb s0))"
    "srTokenHash row = hashSessionToken env t" "hashSessionToken env t \<noteq> []" "usUsername u \<noteq> []"
    "u \<in> set (adbUsers (svDb s0))" "usId u = srUserId row" "adbInstance (svDb s0) = Some ai" "inOwnerUserId ai = usId u"
    "srId row = asnId session" by blast
  have s: "service_ok s" "sessions_evolve (svDb s0) (svDb s)" "adbInstance (svDb s) = Some ai" "adbUsers (svDb s) = adbUsers (svDb s0)"
    using p ok row(7) by (simp_all add: progresses_def)
  have dbs: "auth_db_ok (svDb s0)" "auth_db_ok (svDb s)" using ok s(1) by (simp_all add: service_ok_def)
  have i: "asnId session \<le> adbSessionSeq (svDb s0)" using dbs(1) row(1,9) by (auto simp: auth_db_ok_def)
  show ?thesis
  proof (cases "\<exists>q\<in>set (adbSessions (svDb s)). srId q = asnId session \<and> srRevokedAt q = None")
    case False
    then have "session_dead (svDb s) (asnId session) later" using i s(2) by (auto simp: session_dead_def sessions_evolve_def)
    then show ?thesis using session_dead_evolves logout_progresses [of s env "Some t"] s(1) by (auto simp: progresses_def)
  next
    case True
    then obtain q where q: "q \<in> set (adbSessions (svDb s))" "srId q = asnId session" "srRevokedAt q = None" by blast
    obtain q0 where q0: "q0 \<in> set (adbSessions (svDb s0))" "evolves q0 q" using s(2) q(1,2) i by (auto simp: sessions_evolve_def)
    have "q0 = row" by (rule key_inj [OF auth_db_okD(2) [OF dbs(1)] q0(1) row(1)]) (use q0(2) q(2) row(9) in \<open>simp add: evolves_def\<close>)
    then have e: "srTokenHash q = hashSessionToken env t" "usId u = srUserId q" using q0(2) row(2,6) by (simp_all add: evolves_def)
    have "joinedRow (\<lambda>s. srTokenHash s = hashSessionToken env t) (svDb s) = Some (q, u)"
    proof (rule joinedRow_is [where ai = ai, OF dbs(2)])
      fix q' assume "q' \<in> set (adbSessions (svDb s))" "srTokenHash q' = hashSessionToken env t"
      then show "q' = q" using key_inj [OF auth_db_okD(3) [OF dbs(2)] _ q(1)] e(1) by simp
    qed (use q(1) e s(3,4) row(5,8) in simp_all)
    from logout_revokes [OF dbs(2) this row(3) q(3) row(4)] show ?thesis by (simp add: q(2))
  qed
qed

lemma served_session_valid:
  assumes "authBoundary env r (Some rt) = (rt', Forwarded (Some (u, i)))"
  shows "\<exists>t session. selectSessionToken (rqCookies r) (rtConfig rt) = Some t
    \<and> lkStatus (findSessionByRawToken env (svDb (rtService rt)) t (aeNow env (svClock (rtService rt)))) = ValidSession
    \<and> lkSession (findSessionByRawToken env (svDb (rtService rt)) t (aeNow env (svClock (rtService rt)))) = Some session
    \<and> asnId session = i"
proof -
  obtain s st where st: "authStatus env (selectSessionToken (rqCookies r) (rtConfig rt)) (rtService rt) = (s, st)"
    by (cases "authStatus env (selectSessionToken (rqCookies r) (rtConfig rt)) (rtService rt)")
  from assms st have au: "stAuthenticated st"
    "\<exists>found session. stSession st = Some found \<and> lkSession found = Some session \<and> asnId session = i"
    by (auto simp: authBoundary_def Let_def split: if_split_asm bool.split_asm option.split_asm prod.split_asm)
  then show ?thesis using st
    by (auto simp: authStatus_def readNow_def Let_def split: option.split_asm if_split_asm)
qed

lemma logout_served:
  assumes "rqMethod r = js ''POST''" "rqPath r = js ''/api/auth/logout''"
  shows "serveRequest env r sys = (let (rt, res) = logoutRoute env r (syRuntime sys); sys = sys\<lparr>syRuntime := rt\<rparr> in
    case res of Inl resp \<Rightarrow> (sys, Responded resp) | Inr token \<Rightarrow> (suspend None False (AwaitLogout token) sys, Suspended))"
proof -
  have "isPublicEndpoint (textUpper (js ''POST'')) (js ''/api/auth/logout'')" by code_simp
  then have "authBoundary env r (Some (syRuntime sys)) = (Some (syRuntime sys), Forwarded None)"
    using assms by (simp add: authBoundary_def Let_def textUpper_def js_def)
  then show ?thesis using assms by (simp add: serveRequest_def authRoute_def Let_def)
qed

text \<open>A logout that waits: its token is the one of its cookie, and the tables are as they were.\<close>

lemma logout_waits:
  assumes lr: "rqMethod r = js ''POST''" "rqPath r = js ''/api/auth/logout''"
    and out: "auth_step env (Request r) sys = (sys1, Suspended)"
    and t: "selectSessionToken (rqCookies r) (rtConfig (syRuntime sys)) = Some t"
  shows "last (syWaiting sys1) = \<lparr>wqJob = None, wqWork = AwaitLogout t\<rparr>"
  using out t by (auto simp: logout_served [OF lr] logoutRoute_def logoutAnswer_def suspend_def Let_def readNow_def
      split: option.split_asm sum.split_asm prod.split_asm)

lemma logout_ends:
  assumes ok: "service_ok (serviceOf sys)"
    and served: "authBoundary env r0 (Some (syRuntime sys)) = (rt', Forwarded (Some (u, i)))"
    and lr: "rqMethod r = js ''POST''" "rqPath r = js ''/api/auth/logout''" "rqCookies r = rqCookies r0"
    and out: "auth_step env (Request r) sys = (sys1, Suspended)" and meanwhile: "auth_run env es sys1 = (sys2, outs)"
    and w: "k < length (syWaiting sys2)" "syWaiting sys2 ! k = last (syWaiting sys1)"
    and answered: "auth_step env (Resume k) sys2 = (sys3, out)" and later: "auth_run env es' sys3 = (sys4, outs')"
  shows "(\<exists>resp. out = Responded resp \<and> hrStatus resp = 204) \<and> Handled q (Some (v, i)) \<notin> set outs'"
proof -
  from served_session_valid [OF served] obtain t session where t: "selectSessionToken (rqCookies r) (rtConfig (syRuntime sys)) = Some t"
    "lkStatus (findSessionByRawToken env (svDb (serviceOf sys)) t (aeNow env (svClock (serviceOf sys)))) = ValidSession"
    "lkSession (findSessionByRawToken env (svDb (serviceOf sys)) t (aeNow env (svClock (serviceOf sys)))) = Some session"
    "asnId session = i" using lr(3) by auto
  have p: "progresses (serviceOf sys) (serviceOf sys2)"
    by (rule progresses_trans [OF auth_step_progresses [OF out] auth_run_progresses [OF meanwhile]])
  have r: "out = Responded ((response 204 NoBody)\<lparr>hrClearCookies := True\<rparr>)"
    "serviceOf sys3 = logout env (Some t) (serviceOf sys2)"
    using answered w logout_waits [OF lr(1,2) out t(1)] by (auto simp: resume_def logoutAnswer_def Let_def)
  have "session_dead (svDb (serviceOf sys3)) i time" for time
    using logout_kills [OF ok p t(2,3)] by (simp add: r(2) t(4))
  moreover have "service_ok (serviceOf sys3)"
    using progresses_trans [OF p auth_step_progresses [OF answered]] ok by (simp add: progresses_def)
  ultimately show ?thesis using dead_never_handled [OF _ _ later] r(1) by (simp add: response_def)
qed

section \<open>One owner\<close>

text \<open>No error and no other endpoint answers \<open>201\<close>.\<close>

definition refusal :: "nat \<Rightarrow> bool" where
  "refusal status \<longleftrightarrow> 400 \<le> status \<and> status < 600"

lemma error_statuses:
  "throwLoginFailure env n s = (s', e) \<Longrightarrow> refusal (aeStatus e)"
  "setupStart env tok u p s = (s', Inl e) \<Longrightarrow> refusal (aeStatus e)"
  "refusal (aeStatus (kdfUnavailable k))"
  "openSession env user now s = (s', Inl e) \<Longrightarrow> refusal (aeStatus e)"
proof -
  note errs = serviceError_def retryAfterError_def refusal_def
  show "throwLoginFailure env n s = (s', e) \<Longrightarrow> refusal (aeStatus e)"
    by (auto simp: throwLoginFailure_def Let_def errs split: prod.split_asm if_split_asm)
  show "setupStart env tok u p s = (s', Inl e) \<Longrightarrow> refusal (aeStatus e)"
    by (auto simp: setupStart_def Let_def errs split: prod.split_asm if_split_asm jsval.split_asm option.split_asm)
  show "refusal (aeStatus (kdfUnavailable k))" by (cases k) (auto simp: errs)
  show "openSession env user now s = (s', Inl e) \<Longrightarrow> refusal (aeStatus e)"
    by (auto simp: openSession_def Let_def errs split: prod.split_asm sum.split_asm)
qed

lemma loginStart_refusal: "loginStart env u p s = (s', Inl e) \<Longrightarrow> refusal (aeStatus e)"
  using error_statuses(1) [of env "normalizeUsername env u" s]
  by (cases u; cases p) (auto simp: loginStart_def Let_def serviceError_def refusal_def split: if_split_asm prod.split_asm)

lemma loginFinish_refusal: "loginFinish env p k s = (s', Inl e) \<Longrightarrow> refusal (aeStatus e)"
proof -
  have v: "loginVerdict env p k = Inl e \<Longrightarrow> refusal (aeStatus e)" for e
    using error_statuses(3)
    by (auto simp: loginVerdict_def serviceError_def refusal_def split: option.split_asm settlement.split_asm)
  show "loginFinish env p k s = (s', Inl e) \<Longrightarrow> refusal (aeStatus e)"
    unfolding loginFinish_def Let_def
    by (auto split: sum.split_asm option.split_asm if_split_asm prod.split_asm dest: v error_statuses(1,4))
qed

lemma setupFinish_refusal:
  assumes "setupFinish env p k s = (s', Inl e)" shows "refusal (aeStatus e)"
proof (cases k)
  case (Resolved x)
  let ?tx = "ownerTransaction env (svWrites s) (psUsername p) (hashResult env (psPassword p) (psSalt p))
    (aeNow env (svClock s)) (svDb s)"
  show ?thesis
  proof (cases ?tx)
    case (Inl f)
    then show ?thesis using assms Resolved
      by (cases f) (auto simp: setupFinish_def readNow_def Let_def serviceError_def refusal_def)
  next
    case (Inr y)
    then show ?thesis using assms Resolved error_statuses(4)
      by (auto simp: setupFinish_def readNow_def Let_def split: prod.split_asm)
  qed
qed (use assms in \<open>auto simp: setupFinish_def serviceError_def refusal_def\<close>)

lemma serviceErrorResponse_status [simp]: "hrStatus (serviceErrorResponse e) = aeStatus e"
  by (simp add: serviceErrorResponse_def jsonError_def response_def)

lemma jsonError_status [simp]: "hrStatus (jsonError n c) = n"
  by (simp add: jsonError_def response_def)

lemma csrfError_refusal: "csrfError env r c b = Some e \<Longrightarrow> refusal (hrStatus e)"
  by (auto simp: csrfError_def refusal_def split: option.split_asm if_split_asm)

lemma route_refusals:
  "setupRoute env r rt = (rt', Inl resp) \<Longrightarrow> refusal (hrStatus resp)"
  "loginRoute env r rt = (rt', Inl resp) \<Longrightarrow> refusal (hrStatus resp)"
  by (auto simp: setupRoute_def loginRoute_def Let_def split: if_split_asm option.split_asm prod.split_asm sum.split_asm
      dest: csrfError_refusal error_statuses(2) loginStart_refusal) (simp_all add: refusal_def)

lemma boundary_refusal: "authBoundary env r (Some rt) = (rt', Rejected resp) \<Longrightarrow> refusal (hrStatus resp)"
  by (auto simp: authBoundary_def Let_def unavailable_def mutationRefused_def
      split: if_split_asm option.split_asm prod.split_asm bool.split_asm) (simp_all add: refusal_def)

lemma refusal_201: "refusal n \<Longrightarrow> n \<noteq> 201"
  by (auto simp: refusal_def)

lemma authRoute_not_201:
  assumes "authRoute env r who sys = (sys', Responded resp)" shows "hrStatus resp \<noteq> 201"
proof -
  have "statusRoute env r rt = (rt', resp) \<Longrightarrow> hrStatus resp = 200" for rt rt'
    by (auto simp: statusRoute_def response_def Let_def split: prod.split_asm option.split_asm if_split_asm)
  moreover have "logoutRoute env r rt = (rt', Inl resp) \<Longrightarrow> hrStatus resp \<noteq> 201" for rt rt'
    by (auto simp: logoutRoute_def logoutAnswer_def response_def Let_def split: prod.split_asm option.split_asm
        dest!: csrfError_refusal refusal_201)
  moreover have "setupRoute env r rt = (rt', Inl resp) \<Longrightarrow> hrStatus resp \<noteq> 201"
    "loginRoute env r rt = (rt', Inl resp) \<Longrightarrow> hrStatus resp \<noteq> 201" for rt rt'
    using route_refusals refusal_201 by blast+
  ultimately show ?thesis
    using assms unfolding authRoute_def Let_def
    by (auto split: if_split_asm prod.split_asm sum.split_asm)
qed

text \<open>A \<open>201\<close> is the setup of an instance that had no owner; after it, it has one.\<close>

lemma created_step:
  assumes ok: "service_ok (serviceOf sys)" and st: "auth_step env e sys = (sys', Responded resp)" "hrStatus resp = 201"
  shows "adbInstance (svDb (serviceOf sys)) = None \<and> adbInstance (svDb (serviceOf sys')) \<noteq> None"
proof (cases e)
  case (Request r)
  have False using st unfolding Request
    by (auto simp: serveRequest_def unavailable_def split: prod.split_asm option.split_asm boundary_result.split_asm
        dest: boundary_refusal refusal_201 authRoute_not_201)
  then show ?thesis ..
next
  case (GuardTurn g)
  then show ?thesis using st by (cases g) auto
next
  case (Resume i)
  have login: "loginAnswer env p k rt = (rt', resp) \<Longrightarrow> False" for p k rt rt'
    using st(2) by (auto simp: loginAnswer_def setSessionCookie_def response_def Let_def
        split: prod.split_asm sum.split_asm dest!: loginFinish_refusal)
      (simp add: refusal_def)
  have logout: "logoutAnswer env t rt = (rt', resp) \<Longrightarrow> False" for t rt rt'
    using st(2) by (auto simp: logoutAnswer_def response_def)
  obtain p k rt where a: "setupAnswer env p k (syRuntime sys) = (rt, resp)" and rt: "syRuntime sys' = rt"
    using st(1) unfolding Resume
    by (auto simp: resume_def Let_def split: if_split_asm suspended.split_asm prod.split_asm dest: login logout)
  obtain s res where f: "setupFinish env p k (serviceOf sys) = (s, res)" by (cases "setupFinish env p k (serviceOf sys)")
  have s: "serviceOf sys' = s" using a f unfolding rt by (auto simp: setupAnswer_def Let_def split: sum.split_asm)
  obtain u created where "res = Inr (u, created)"
  proof (cases res)
    case (Inl x)
    then show ?thesis using a f st(2) setupFinish_refusal [of env p k "serviceOf sys" s x]
      by (auto simp: setupAnswer_def refusal_def)
  qed auto
  with f have f: "setupFinish env p k (serviceOf sys) = (s, Inr (u, created))" by simp
  from setupFinish_Inr [OF f] ok ownerRow_Some show ?thesis by (fastforce simp: service_ok_def s)
qed (use st in auto)

definition isCreated :: "auth_output \<Rightarrow> bool" where
  "isCreated out = (case out of Responded resp \<Rightarrow> hrStatus resp = 201 | _ \<Rightarrow> False)"

lemma created_once:
  assumes "service_ok (serviceOf sys)" "auth_run env es sys = (sys', outs)"
  shows "length (filter isCreated outs) \<le> (if adbInstance (svDb (serviceOf sys)) = None then 1 else 0)"
  using assms
proof (induction es arbitrary: sys outs)
  case (Cons e es)
  obtain sys1 out rest where step: "auth_step env e sys = (sys1, out)" and run: "auth_run env es sys1 = (sys', rest)"
    and outs: "outs = out # rest" using Cons.prems(2) by (auto simp: Let_def split: prod.split_asm)
  note p = auth_step_progresses [OF step, unfolded progresses_def]
  have IH: "length (filter isCreated rest) \<le> (if adbInstance (svDb (serviceOf sys1)) = None then 1 else 0)"
    using Cons.IH [OF _ run] p Cons.prems(1) by blast
  have c: "isCreated out \<Longrightarrow> adbInstance (svDb (serviceOf sys)) = None \<and> adbInstance (svDb (serviceOf sys1)) \<noteq> None"
    using created_step [OF Cons.prems(1), of env e sys1] step by (auto simp: isCreated_def split: auth_output.split_asm)
  have "adbInstance (svDb (serviceOf sys)) \<noteq> None \<Longrightarrow> adbInstance (svDb (serviceOf sys1)) \<noteq> None"
    using p Cons.prems(1) by auto
  with IH c show ?case by (auto simp: outs split: if_split_asm)
qed simp

lemma owner_stays:
  assumes "service_ok (serviceOf sys)" "ownerRow (svDb (serviceOf sys)) = Some u" "auth_run env es sys = (sys', outs)"
  shows "ownerRow (svDb (serviceOf sys')) = Some u"
proof -
  have "adbInstance (svDb (serviceOf sys)) \<noteq> None" using assms(2) ownerRow_Some by auto
  then have "ownerRow (svDb (serviceOf sys')) = ownerRow (svDb (serviceOf sys))"
    using auth_run_progresses [OF assms(3)] assms(1) by (intro ownerRow_cong) (auto simp: progresses_def)
  with assms(2) show ?thesis by simp
qed

section \<open>Start\<close>

definition auth_boot ::
    "auth_env \<Rightarrow> auth_db \<Rightarrow> AuthConfig \<Rightarrow> jsstr option \<Rightarrow> KdfGuardOptions \<Rightarrow> auth_system option" where
  "auth_boot env db config setupToken guardOptions =
     (case (createAuthRuntime env db config setupToken, createKdfGuard guardOptions) of
        (Some rt, Some g) \<Rightarrow> Some \<lparr>syRuntime = rt, syGuard = g, syWaiting = []\<rparr>
      | _ \<Rightarrow> None)"

lemma auth_boot_ok:
  assumes "auth_boot env db config tok opts = Some sys" "auth_db_ok db"
  shows "service_ok (serviceOf sys) \<and> adbInstance (svDb (serviceOf sys)) = adbInstance db"
proof -
  from assms(1) obtain rt where rt: "createAuthRuntime env db config tok = Some rt" "syRuntime sys = rt"
    by (auto simp: auth_boot_def split: option.split_asm)
  from rt(1) obtain b where b: "createBootstrapState (adbInstance db \<noteq> None) tok None (aeRandom env 0) = Some b"
    by (auto simp: createAuthRuntime_def split: option.split_asm)
  have closed: "adbInstance db \<noteq> None \<Longrightarrow> bsClosed b"
    using b by (auto simp: createBootstrapState_def newBootstrapState_def)
  have "svBootstrap (rtService rt) = b \<and> (svDb (rtService rt) = db
      \<or> (\<exists>now. svDb (rtService rt) = fst (revokeWhere (\<lambda>_. True) now db)))"
    using rt(1) b by (auto simp: createAuthRuntime_def readNow_def Let_def split: option.split_asm if_split_asm)
  then show ?thesis using closed assms(2) revokeWhere_ok by (auto simp: rt(2) service_ok_def)
qed

end
