(* ===== verification/DemoAuth.thy ===== *)
theory DemoAuth
  imports AuthHistory
begin

text \<open>
  A small instance of the authentication service, on which the properties are seen to apply: an owner with one
  open session, the same instance before its setup, and a guard with one slot.
\<close>

section \<open>Outside the repository\<close>

definition authEnv :: auth_env where
  "authEnv = \<lparr>aeLower = (\<lambda>s. s), aeUrl = (\<lambda>_. None), aeSha256 = (\<lambda>s. 104 # s),
     aeScrypt = (\<lambda>p s. take 32 (map (\<lambda>c. c mod 256) p @ replicate 32 0)),
     aeRandom = (\<lambda>n k. replicate k (n mod 256)), aeNow = (\<lambda>n. 1000 * int n), aeWriteBusy = (\<lambda>_. False)\<rparr>"

lemma authEnv_sel [simp]:
  "aeLower authEnv s = s" "aeSha256 authEnv s = 104 # s" "aeNow authEnv n = 1000 * int n"
  "aeRandom authEnv n k = replicate k (n mod 256)" "aeWriteBusy authEnv n = False"
  "aeScrypt authEnv p salt = take 32 (map (\<lambda>c. c mod 256) p @ replicate 32 0)"
  by (simp_all add: authEnv_def)

lemma authEnv_ok: "crypto_ok authEnv"
  by (auto simp: crypto_ok_def isBytes_def SCRYPT_KEY_BYTES_def dest!: in_set_takeD)

section \<open>An owned instance\<close>

definition authConfig :: AuthConfig where
  "authConfig = \<lparr>publicOrigin = js ''http://localhost'', cookie = cookieProfile False,
     sessionLifetimeMs = SESSION_LIFETIME_MS, sessionLastSeenUpdateIntervalMs = SESSION_LAST_SEEN_UPDATE_INTERVAL_MS,
     revokeSessionsOnStart = False\<rparr>"

definition ownerUser :: UserRow where
  "ownerUser = \<lparr>usId = 1, usUsername = js ''owner'', usNormalized = js ''owner'', usPasswordHash = [], usDisabled = 0,
     usCreatedAt = 0, usUpdatedAt = 0\<rparr>"

definition openSessionRow :: SessionRow where
  "openSessionRow = \<lparr>srId = 1, srUserId = 1, srTokenHash = 104 # js ''token'', srCreatedAt = 0,
     srExpiresAt = SESSION_LIFETIME_MS, srLastSeenAt = 0, srRevokedAt = None\<rparr>"

definition ownedDb :: auth_db where
  "ownedDb = \<lparr>adbUsers = [ownerUser], adbInstance = Some \<lparr>inOwnerUserId = 1, inCreatedAt = 0, inUpdatedAt = 0\<rparr>,
     adbSessions = [openSessionRow], adbUserSeq = 1, adbSessionSeq = 1\<rparr>"

definition oneLimiter :: AuthRateLimiter where
  "oneLimiter = \<lparr>windowMs = 300000, threshold = 5, maxDelayMs = 900000, maxBuckets = 256, baseRetryMs = 1000, buckets = []\<rparr>"

definition emptyGuard :: "unit KdfGuard" where
  "emptyGuard = \<lparr>concurrency = 1, maxQueue = 2, maxQueueWaitMs = 5000, kgActive = 0, kgQueue = [], kgRunning = [],
     kgReleasing = [], kgAborted = [], kgSettled = [], kgNext = 0\<rparr>"

definition setupLimiter :: AuthRateLimiter where
  "setupLimiter = \<lparr>windowMs = 60000, threshold = 3, maxDelayMs = 900000, maxBuckets = 64, baseRetryMs = 1000, buckets = []\<rparr>"

definition guardOptions :: KdfGuardOptions where
  "guardOptions = \<lparr>optConcurrency = Some (JInt 1), optMaxQueue = Some (JInt 2), optMaxQueueWaitMs = None\<rparr>"

lemma demo_created:
  "createAuthRateLimiter noLimiterOptions = Some oneLimiter" "createAuthRateLimiter setupLimiterOptions = Some setupLimiter"
  "createKdfGuard guardOptions = Some emptyGuard"
  by (simp_all add: createAuthRateLimiter_def noLimiterOptions_def setupLimiterOptions_def optionOr_def rate_constants
      oneLimiter_def setupLimiter_def createKdfGuard_def guardOptions_def withDefault_def emptyGuard_def
      DEFAULT_KDF_QUEUE_WAIT_MS_def)

definition demoService :: "auth_db \<Rightarrow> jsstr option \<Rightarrow> auth_service" where
  "demoService db token = \<lparr>svDb = db, svBootstrap = newBootstrapState token, svLoginLimiter = oneLimiter,
     svSetupLimiter = setupLimiter, svTouchIntervalMs = SESSION_LAST_SEEN_UPDATE_INTERVAL_MS,
     svPruneIntervalMs = SESSION_EXPIRED_PRUNE_INTERVAL_MS, svDummyHash = DUMMY_PASSWORD_HASH, svLastPruneAt = None,
     svPruneScheduled = False, svMicrotasks = [], svClock = 0, svDraws = 1, svWrites = 0\<rparr>"

definition demoRuntime :: "auth_db \<Rightarrow> jsstr option \<Rightarrow> auth_runtime" where
  "demoRuntime db token = \<lparr>rtConfig = authConfig, rtService = demoService db token, rtDiaryInvalidated = []\<rparr>"

definition ownedSystem :: auth_system where
  "ownedSystem = \<lparr>syRuntime = demoRuntime ownedDb None, syGuard = emptyGuard, syWaiting = []\<rparr>"

definition demoRequest :: "string \<Rightarrow> string \<Rightarrow> jsval option \<Rightarrow> http_request" where
  "demoRequest m path body = \<lparr>rqMethod = js m, rqPath = js path, rqHeaders = [(js ''content-type'', js ''application/json'')],
     rqCookies = [(js ''docus_session'', js ''token'')], rqSignal = None, rqTooLarge = False, rqJson = body\<rparr>"

lemmas demo_auth_defs = ownedSystem_def demoRuntime_def demoService_def emptyGuard_def oneLimiter_def ownedDb_def
  openSessionRow_def ownerUser_def authConfig_def demoRequest_def newBootstrapState_def

lemma ownedDb_ok: "auth_db_ok ownedDb"
  by (simp add: auth_db_ok_def demo_auth_defs)

lemma ownedSystem_ok: "service_ok (serviceOf ownedSystem)"
  using ownedDb_ok by (simp add: service_ok_def ownedSystem_def demoRuntime_def demoService_def newBootstrapState_def)

lemma demo_token: "selectSessionToken (rqCookies (demoRequest m p b)) (rtConfig (demoRuntime db t)) = Some (js ''token'')"
  by (simp add: selectSessionToken_def demoRequest_def demoRuntime_def authConfig_def cookieProfile_def
      LOCAL_SESSION_COOKIE_NAME_def)

lemma demo_find: "findSessionByRawToken authEnv ownedDb (js ''token'') 0
    = \<lparr>lkStatus = ValidSession, lkSession = Some (mapSession openSessionRow),
       lkUser = Some \<lparr>suId = 1, suUsername = js ''owner'', suDisabled = False\<rparr>\<rparr>"
proof -
  have "joinedRow (\<lambda>s. srTokenHash s = 104 # js ''token'') ownedDb = Some (openSessionRow, ownerUser)"
    by (simp add: joinedRow_def ownedDb_def openSessionRow_def ownerUser_def)
  then show ?thesis
    by (simp add: findSessionByRawToken_def hashSessionToken_def lookupResult_def Let_def mapSession_def
        openSessionRow_def ownerUser_def SESSION_LIFETIME_MS_def)
qed

lemma demo_status: "authStatus authEnv (Some (js ''token'')) (demoService ownedDb None)
    = ((demoService ownedDb None)\<lparr>svClock := 1\<rparr>, \<lparr>stAuthenticated = True, stSetupRequired = False,
       stUser = Some (safeUser ownerUser), stSession = Some (findSessionByRawToken authEnv ownedDb (js ''token'') 0)\<rparr>)"
proof -
  have "ownerRow ownedDb = Some ownerUser" by (simp add: ownerRow_def ownedDb_def ownerUser_def)
  then show ?thesis
    by (simp add: authStatus_def readNow_def demo_find demoService_def Let_def)
qed

lemma demo_forwarded:
  "\<exists>rt. authBoundary authEnv (demoRequest ''GET'' ''/api/board'' None) (Some (demoRuntime ownedDb None))
     = (Some rt, Forwarded (Some (safeUser ownerUser, 1)))"
proof -
  have m: "textUpper (rqMethod (demoRequest ''GET'' ''/api/board'' None)) = js ''GET''"
    "rqPath (demoRequest ''GET'' ''/api/board'' None) = js ''/api/board''"
    by (simp_all add: demoRequest_def textUpper_def js_def)
  have p: "\<not> isPublicEndpoint (js ''GET'') (js ''/api/board'')" "\<not> isUnsafeMethod (js ''GET'')" by code_simp+
  have k: "snd (maintainAuthenticatedSession authEnv (mapSession openSessionRow) ((demoService ownedDb None)\<lparr>svClock := 1\<rparr>))"
    by (simp add: maintainAuthenticatedSession_def readNow_def Let_def mapSession_def openSessionRow_def demoService_def
        SESSION_LAST_SEEN_UPDATE_INTERVAL_MS_def)
  have s: "rtService (demoRuntime ownedDb None) = demoService ownedDb None" by (simp add: demoRuntime_def)
  show ?thesis
    using p k by (auto simp: authBoundary_def Let_def m demo_token s demo_status demo_find mutationRefused_def
        mapSession_def openSessionRow_def split: prod.split)
qed

text \<open>It is what a server boots from this database.\<close>

lemma owned_boot: "auth_boot authEnv ownedDb authConfig None guardOptions = Some ownedSystem"
  by (simp add: auth_boot_def createAuthRuntime_def createBootstrapState_def demo_created Let_def authConfig_def
      ownedSystem_def demoRuntime_def demoService_def newBootstrapState_def ownedDb_def)

lemma demo_served: "\<exists>sys. auth_step authEnv (Request (demoRequest ''GET'' ''/api/board'' None)) ownedSystem
    = (sys, Handled (demoRequest ''GET'' ''/api/board'' None) (Some (safeUser ownerUser, 1)))"
proof -
  obtain rt where "authBoundary authEnv (demoRequest ''GET'' ''/api/board'' None) (Some (demoRuntime ownedDb None))
      = (Some rt, Forwarded (Some (safeUser ownerUser, 1)))" using demo_forwarded by blast
  then show ?thesis by (simp add: serveRequest_def ownedSystem_def authRoute_def demoRequest_def Let_def)
qed

text \<open>A logout from the owned instance waits for the diary.\<close>

lemma demo_logout:
  "\<exists>sys. auth_step authEnv (Request (demoRequest ''POST'' ''/api/auth/logout'' None)) ownedSystem = (sys, Suspended)
     \<and> syWaiting sys = [\<lparr>wqJob = None, wqWork = AwaitLogout (js ''token'')\<rparr>]"
proof -
  let ?r = "demoRequest ''POST'' ''/api/auth/logout'' None"
  have "rqMethod ?r = js ''POST''" "rqPath ?r = js ''/api/auth/logout''" by (simp_all add: demoRequest_def)
  note served = logout_served [OF this, of authEnv ownedSystem]
  have "csrfError authEnv ?r (rtConfig (syRuntime ownedSystem)) False = None"
    by (simp add: csrfError_def checkCsrfHeaders_def header_def demoRequest_def js_def)
  moreover have "svDb (rtService (demoRuntime ownedDb None)) = ownedDb" "aeNow authEnv (svClock (rtService (demoRuntime ownedDb None))) = 0"
    by (simp_all add: demoRuntime_def demoService_def)
  ultimately show ?thesis using demo_find unfolding auth_step.simps served
    by (simp add: logoutRoute_def readNow_def Let_def ownedSystem_def demo_token suspend_def)
qed

section \<open>An instance to set up\<close>

definition demoToken :: jsstr where
  "demoToken = replicate 32 97"

definition freshSystem :: auth_system where
  "freshSystem = \<lparr>syRuntime = demoRuntime empty_auth_db (Some demoToken), syGuard = emptyGuard, syWaiting = []\<rparr>"

lemma fresh_ok: "auth_db_ok empty_auth_db"
  by (simp add: auth_db_ok_def empty_auth_db_def)

lemma utf8_ascii: "\<forall>c\<in>set s. c < 128 \<Longrightarrow> utf8ByteLength s = length s"
  by (induction s rule: utf8ByteLength.induct) auto

lemma fresh_boot: "auth_boot authEnv empty_auth_db authConfig (Some demoToken) guardOptions = Some freshSystem"
proof -
  have "utf8ByteLength demoToken = 32" by (subst utf8_ascii) (simp_all add: demoToken_def)
  moreover have "demoToken \<noteq> []" by (simp add: demoToken_def)
  ultimately show ?thesis
    by (simp add: auth_boot_def createAuthRuntime_def createBootstrapState_def demo_created Let_def authConfig_def
        MIN_EXPLICIT_BOOTSTRAP_TOKEN_BYTES_def freshSystem_def demoRuntime_def demoService_def empty_auth_db_def)
qed

text \<open>The setup and the login of the owner, on this service.\<close>

definition demoPassword :: jsstr where
  "demoPassword = replicate 12 112"

definition demoSetup :: PendingSetup where
  "demoSetup = \<lparr>psUsername = js ''owner'', psPassword = demoPassword, psSalt = replicate 16 1\<rparr>"

lemma codePoints_ascii: "\<forall>c\<in>set s. c < 128 \<Longrightarrow> codePointLength s = length s"
  by (induction s rule: codePointLength.induct) auto

lemma demo_names:
  "validatePassword (JStr demoPassword)" "normalizeUsername authEnv (JStr (js ''owner'')) = Some (js ''owner'')"
proof -
  have "codePointLength demoPassword = 12" by (subst codePoints_ascii) (simp_all add: demoPassword_def)
  then show "validatePassword (JStr demoPassword)"
    by (simp add: validatePassword_def PASSWORD_MIN_LENGTH_def PASSWORD_MAX_LENGTH_def)
  have "trim (js ''owner'') = js ''owner''" "codePointLength (js ''owner'') = 5" "usernamePattern (js ''owner'')"
    by (simp_all add: js_def trim_def jsSpace_def usernamePattern_def userEnd_def userMiddle_def isDigit_def)
  then show "normalizeUsername authEnv (JStr (js ''owner'')) = Some (js ''owner'')"
    by (simp add: normalizeUsername_def Let_def USERNAME_MIN_LENGTH_def USERNAME_MAX_LENGTH_def)
qed

lemma demo_setup_start:
  "\<exists>s1. setupStart authEnv (JStr demoToken) (JStr (js ''owner'')) (JStr demoPassword) (serviceOf freshSystem) = (s1, Inr demoSetup)
     \<and> svDb s1 = empty_auth_db \<and> svDraws s1 = 2"
proof -
  have s: "serviceOf freshSystem = demoService empty_auth_db (Some demoToken)" by (simp add: freshSystem_def demoRuntime_def)
  have "bootstrapVerify authEnv (newBootstrapState (Some demoToken)) (JStr demoToken)"
    by (simp add: bootstrapVerify_def newBootstrapState_def)
  then show ?thesis
    by (simp add: s setupStart_def ownerExists_def ownerRow_def readNow_def Let_def retryAfter_def demo_names
        demoService_def empty_auth_db_def setupLimiter_def demoSetup_def SCRYPT_SALT_BYTES_def)
qed

definition setupState :: auth_service where
  "setupState = fst (setupStart authEnv (JStr demoToken) (JStr (js ''owner'')) (JStr demoPassword) (serviceOf freshSystem))"

definition ownerState :: auth_service where
  "ownerState = fst (setupFinish authEnv demoSetup (Resolved ()) setupState)"

lemma setup_started:
  "setupStart authEnv (JStr demoToken) (JStr (js ''owner'')) (JStr demoPassword) (serviceOf freshSystem) = (setupState, Inr demoSetup)"
  "svDb setupState = empty_auth_db" "svDraws setupState = 2"
  using demo_setup_start by (auto simp: setupState_def)

lemma setup_finished:
  "\<exists>u created. setupFinish authEnv demoSetup (Resolved ()) setupState = (ownerState, Inr (u, created))"
  "svDraws ownerState = 3" "\<exists>u. ownerRow (svDb ownerState) = Some u \<and> usNormalized u = js ''owner''"
  "srTokenHash ` set (adbSessions (svDb ownerState)) = {hashSessionToken authEnv (generateSessionToken authEnv 2)}"
proof -
  let ?s = "setupState\<lparr>svClock := Suc (svClock setupState), svWrites := Suc (svWrites setupState)\<rparr>"
  obtain db owner where tx: "ownerTransaction authEnv (svWrites setupState) (psUsername demoSetup)
      (hashResult authEnv (psPassword demoSetup) (psSalt demoSetup)) (aeNow authEnv (svClock setupState)) (svDb setupState) = Inr (db, owner)"
    by (auto simp: setup_started(2) ownerTransaction_def ownerRow_def empty_auth_db_def insertUser_def insertInstance_def Let_def)
  note db = ownerTransaction_Inr [OF tx] fresh_ok
  let ?u = "?s\<lparr>svDb := db, svBootstrap := markOwnerCommitted (svBootstrap setupState),
     svSetupLimiter := reset (svSetupLimiter setupState) (js ''setup'')\<rparr>"
  have step: "setupFinish authEnv demoSetup (Resolved ()) setupState
      = openSession authEnv owner (aeNow authEnv (svClock setupState)) ?u"
    using tx by (simp add: setupFinish_def readNow_def Let_def)
  have d: "ownerRow db = Some owner" "usNormalized owner = js ''owner''" "adbSessions db = []" "usId owner \<in> usId ` set (adbUsers db)"
    using db by (auto simp: setup_started(2) demoSetup_def empty_auth_db_def)
  then show fin: "\<exists>u created. setupFinish authEnv demoSetup (Resolved ()) setupState = (ownerState, Inr (u, created))"
    unfolding ownerState_def step
    by (simp add: openSession_def createSession_def insertSession_def bindR_def Let_def)
  have e: "ownerState = fst (openSession authEnv owner (aeNow authEnv (svClock setupState)) ?u)"
    by (simp add: ownerState_def step)
  have o: "svDraws ownerState = 3" "adbUsers (svDb ownerState) = adbUsers db" "adbInstance (svDb ownerState) = adbInstance db"
    "srTokenHash ` set (adbSessions (svDb ownerState)) = {hashSessionToken authEnv (generateSessionToken authEnv 2)}"
    unfolding e using d(3,4) by (simp_all add: openSession_def createSession_def insertSession_def bindR_def Let_def setup_started(3))
  then show "svDraws ownerState = 3"
    "srTokenHash ` set (adbSessions (svDb ownerState)) = {hashSessionToken authEnv (generateSessionToken authEnv 2)}"
    by blast+
  show "\<exists>u. ownerRow (svDb ownerState) = Some u \<and> usNormalized u = js ''owner''"
    using d ownerRow_cong [OF o(2,3)] by simp
qed

lemma demo_tokens_differ:
  "hashSessionToken authEnv (generateSessionToken authEnv 3) \<noteq> hashSessionToken authEnv (generateSessionToken authEnv 2)"
proof -
  have b: "isBytes (replicate 32 n)" if "n < 256" for n :: nat using that by (simp add: isBytes_def)
  have "encodeBase64Url (replicate 32 3) \<noteq> encodeBase64Url (replicate 32 2)"
  proof
    assume "encodeBase64Url (replicate 32 3) = encodeBase64Url (replicate 32 2)"
    then have "replicate 32 (3 :: nat) = replicate 32 2"
      using buffer_round_trip [OF b [of 3]] buffer_round_trip [OF b [of 2]] by simp
    then show False by simp
  qed
  then show ?thesis by (simp add: hashSessionToken_def generateSessionToken_def SESSION_TOKEN_BYTES_def)
qed

lemma demo_login_start:
  "\<exists>pend. loginStart authEnv (JStr (js ''owner'')) (JStr demoPassword) ownerState = (ownerState, Inr pend)"
  using demo_names by (simp add: loginStart_def isValidPassword_def Let_def)

section \<open>A busy guard\<close>

text \<open>One job runs and one waits.\<close>

definition busyGuard :: "unit KdfGuard" where
  "busyGuard = kdf_run emptyGuard [Run None, Run None]"

lemma busy_reachable: "kdf_reachable guardOptions busyGuard"
  unfolding busyGuard_def by (rule kdf_run_reachable) (rule kdf_reachable.created [OF demo_created(3)])

lemma busy_waits: "1 \<in> set (waiting busyGuard)" "ahead 1 busyGuard = 0"
  "slotsFreed busyGuard [JobSettles 0 (Some ()), JobReleases 0] = 1"
  by (simp_all add: busyGuard_def emptyGuard_def run_def Let_def signalAborted_def startJob_def waiting_def aheadIn_def
      frees_def jobSettled_def settle_def)

end
