(* ===== verification/Utf8.thy ===== *)
theory Utf8
  imports AuthConfig Json
begin

text \<open>
  The UTF-8 form of a JavaScript text, as \<open>Buffer.from(s, 'utf8')\<close> writes it and \<open>toString('utf8')\<close> reads it,
  and the padded base64 of \<open>Buffer\<close>. A lone surrogate is written as U+FFFD; an ill-formed sequence of bytes
  is read as one U+FFFD for each maximal part of it. A text without lone surrogates is read back as it was.
\<close>

section \<open>Writing\<close>

definition utf8Three :: "nat \<Rightarrow> nat list" where
  "utf8Three c = [224 + c div 4096, 128 + c div 64 mod 64, 128 + c mod 64]"

definition utf8Unit :: "nat \<Rightarrow> nat list" where
  "utf8Unit c = (if c < 128 then [c] else if c < 2048 then [192 + c div 64, 128 + c mod 64]
     else if highSurrogate c \<or> lowSurrogate c then [239, 191, 189] else utf8Three c)"

definition surrogatePoint :: "nat \<Rightarrow> nat \<Rightarrow> nat" where
  "surrogatePoint c d = 65536 + (c - 55296) * 1024 + (d - 56320)"

definition utf8Four :: "nat \<Rightarrow> nat list" where
  "utf8Four p = [240 + p div 262144, 128 + p div 4096 mod 64, 128 + p div 64 mod 64, 128 + p mod 64]"

fun utf8Encode :: "jsstr \<Rightarrow> nat list" where
  "utf8Encode [] = []"
| "utf8Encode [c] = utf8Unit c"
| "utf8Encode (c # d # r) =
     (if highSurrogate c \<and> lowSurrogate d then utf8Four (surrogatePoint c d) @ utf8Encode r
      else utf8Unit c @ utf8Encode (d # r))"

section \<open>Reading\<close>

text \<open>The bytes that may follow the first byte of a sequence of three or of four.\<close>

definition continuation :: "nat \<Rightarrow> bool" where
  "continuation b \<longleftrightarrow> 128 \<le> b \<and> b < 192"

definition secondOk :: "nat \<Rightarrow> nat \<Rightarrow> bool" where
  "secondOk b c \<longleftrightarrow> continuation c \<and> (b = 224 \<longrightarrow> 160 \<le> c) \<and> (b = 237 \<longrightarrow> c < 160)
     \<and> (b = 240 \<longrightarrow> 144 \<le> c) \<and> (b = 244 \<longrightarrow> c < 144)"

definition pointUnits :: "nat \<Rightarrow> jsstr" where
  "pointUnits p = [55296 + (p - 65536) div 1024, 56320 + (p - 65536) mod 1024]"

fun utf8Decode :: "nat list \<Rightarrow> jsstr" where
  "utf8Decode [] = []"
| "utf8Decode (b # bs) =
     (if b < 128 then b # utf8Decode bs
      else if 194 \<le> b \<and> b < 224 then
        (case bs of c # cs \<Rightarrow> if continuation c then ((b - 192) * 64 + (c - 128)) # utf8Decode cs else 65533 # utf8Decode bs
         | [] \<Rightarrow> [65533])
      else if 224 \<le> b \<and> b < 240 then
        (case bs of c # d # cs \<Rightarrow>
             if \<not> secondOk b c then 65533 # utf8Decode bs
             else if \<not> continuation d then 65533 # utf8Decode (d # cs)
             else ((b - 224) * 4096 + (c - 128) * 64 + (d - 128)) # utf8Decode cs
         | [c] \<Rightarrow> if secondOk b c then [65533] else 65533 # utf8Decode bs
         | [] \<Rightarrow> [65533])
      else if 240 \<le> b \<and> b < 245 then
        (case bs of c # d # e # cs \<Rightarrow>
             if \<not> secondOk b c then 65533 # utf8Decode bs
             else if \<not> continuation d then 65533 # utf8Decode (d # e # cs)
             else if \<not> continuation e then 65533 # utf8Decode (e # cs)
             else pointUnits ((b - 240) * 262144 + (c - 128) * 4096 + (d - 128) * 64 + (e - 128)) @ utf8Decode cs
         | [c, d] \<Rightarrow>
             if \<not> secondOk b c then 65533 # utf8Decode bs
             else if continuation d then [65533] else 65533 # utf8Decode [d]
         | [c] \<Rightarrow> if secondOk b c then [65533] else 65533 # utf8Decode bs
         | [] \<Rightarrow> [65533])
      else 65533 # utf8Decode bs)"

section \<open>Round trip\<close>

text \<open>A text of code units in which every surrogate has its partner.\<close>

fun wellFormed :: "jsstr \<Rightarrow> bool" where
  "wellFormed [] = True"
| "wellFormed [c] = (c < 65536 \<and> \<not> highSurrogate c \<and> \<not> lowSurrogate c)"
| "wellFormed (c # d # r) =
     (if highSurrogate c \<and> lowSurrogate d then wellFormed r
      else c < 65536 \<and> \<not> highSurrogate c \<and> \<not> lowSurrogate c \<and> wellFormed (d # r))"

lemma utf8_two: "128 \<le> c \<Longrightarrow> c < 2048 \<Longrightarrow> utf8Decode ([192 + c div 64, 128 + c mod 64] @ r) = c # utf8Decode r"
proof -
  assume c: "128 \<le> c" "c < 2048"
  have "2 \<le> c div 64" "c div 64 < 32" "c mod 64 < 64" using c by (simp_all add: less_mult_imp_div_less div_le_mono [of 128 c 64, simplified])
  then show ?thesis by (simp add: continuation_def)
qed

lemma utf8_three:
  assumes "2048 \<le> c" "c < 65536" "\<not> highSurrogate c" "\<not> lowSurrogate c"
  shows "utf8Decode (utf8Three c @ r) = c # utf8Decode r"
proof -
  define x y z where xyz: "x = c div 4096" "y = c div 64 mod 64" "z = c mod 64"
  have b: "x < 16" "y < 64" "z < 64" using assms(2) by (simp_all add: xyz less_mult_imp_div_less)
  have c: "c = x * 4096 + y * 64 + z"
  proof -
    have "c div 64 div 64 = x" by (simp add: xyz div_mult2_eq [symmetric])
    then have "c div 64 = x * 64 + y" by (metis xyz(2) div_mult_mod_eq)
    moreover have "c = c div 64 * 64 + z" by (simp add: xyz)
    ultimately show ?thesis by simp
  qed
  have "x = 0 \<Longrightarrow> 32 \<le> y" "x = 13 \<Longrightarrow> y < 32"
    using assms(1,3,4) b unfolding c highSurrogate_def lowSurrogate_def by linarith+
  then have "secondOk (224 + x) (128 + y)" using b by (auto simp: secondOk_def continuation_def)
  then have "utf8Decode ([224 + x, 128 + y, 128 + z] @ r) = (x * 4096 + y * 64 + z) # utf8Decode r"
    using b by (simp add: continuation_def)
  then show ?thesis by (simp only: utf8Three_def xyz [symmetric] c [symmetric])
qed

lemma utf8_four:
  assumes "highSurrogate c" "lowSurrogate d"
  shows "utf8Decode (utf8Four (surrogatePoint c d) @ r) = c # d # utf8Decode r"
proof -
  let ?p = "surrogatePoint c d"
  define x y z w where xyzw: "x = ?p div 262144" "y = ?p div 4096 mod 64" "z = ?p div 64 mod 64" "w = ?p mod 64"
  have p: "65536 \<le> ?p" "?p < 1114112" using assms by (auto simp: surrogatePoint_def highSurrogate_def lowSurrogate_def)
  have b: "x < 5" "y < 64" "z < 64" "w < 64" using p by (simp_all add: xyzw less_mult_imp_div_less)
  have e: "?p = x * 262144 + y * 4096 + z * 64 + w"
  proof -
    have "?p div 4096 div 64 = x" "?p div 64 div 64 = ?p div 4096" by (simp_all add: xyzw div_mult2_eq [symmetric])
    then have "?p div 4096 = x * 64 + y" "?p div 64 = ?p div 4096 * 64 + z" by (metis xyzw(2,3) div_mult_mod_eq)+
    moreover have "?p = ?p div 64 * 64 + w" by (simp add: xyzw)
    ultimately show ?thesis by simp
  qed
  have "x = 0 \<Longrightarrow> 16 \<le> y" "x = 4 \<Longrightarrow> y < 16" using p b unfolding e by linarith+
  then have "secondOk (240 + x) (128 + y)" using b by (auto simp: secondOk_def continuation_def)
  then have "utf8Decode ([240 + x, 128 + y, 128 + z, 128 + w] @ r)
      = pointUnits (x * 262144 + y * 4096 + z * 64 + w) @ utf8Decode r"
    using b by (simp add: continuation_def)
  moreover have "pointUnits ?p = [c, d]"
  proof -
    obtain i j where "c = 55296 + i" "d = 56320 + j" "j < 1024"
      using assms by (auto simp: highSurrogate_def lowSurrogate_def elim!: less_eqE)
    then show ?thesis by (simp add: pointUnits_def surrogatePoint_def)
  qed
  ultimately show ?thesis by (simp only: utf8Four_def xyzw [symmetric] e [symmetric] append.simps)
qed

lemma utf8_unit:
  assumes "c < 65536" "\<not> highSurrogate c" "\<not> lowSurrogate c"
  shows "utf8Decode (utf8Unit c @ r) = c # utf8Decode r"
  using assms utf8_two [of c r] utf8_three [of c r] by (auto simp: utf8Unit_def)

lemma utf8_round_trip [simp]: "wellFormed s \<Longrightarrow> utf8Decode (utf8Encode s) = s"
proof (induction s rule: wellFormed.induct)
  case (2 c)
  then show ?case using utf8_unit [of c "[]"] by simp
next
  case (3 c d r)
  then show ?case by (auto simp: utf8_four utf8_unit split: if_splits simp del: utf8Decode.simps)
qed simp

lemma utf8Encode_length: "length (utf8Encode s) = utf8ByteLength s"
  by (induction s rule: utf8Encode.induct)
    (auto simp: utf8Unit_def utf8Three_def utf8Four_def highSurrogate_def lowSurrogate_def)

section \<open>Padded base64\<close>

definition sextetChar64 :: "nat \<Rightarrow> nat" where
  "sextetChar64 x = (if x = 62 then 43 else if x = 63 then 47 else sextetChar x)"

definition charSextet64 :: "nat \<Rightarrow> nat" where
  "charSextet64 c = (if c = 43 then 62 else if c = 47 then 63 else charSextet c)"

definition base64Padding :: "nat \<Rightarrow> jsstr" where
  "base64Padding n = (if n mod 3 = 1 then [61, 61] else if n mod 3 = 2 then [61] else [])"

definition encodeBase64 :: "nat list \<Rightarrow> jsstr" where
  "encodeBase64 bs = map sextetChar64 (toSextets bs) @ base64Padding (length bs)"

text \<open>\<open>Buffer.from(value, 'base64')\<close> on a text \<open>toString('base64')\<close> has written.\<close>

definition bufferFromBase64 :: "jsstr \<Rightarrow> nat list" where
  "bufferFromBase64 s = fromSextets (map charSextet64 (takeWhile (\<lambda>c. c \<noteq> 61) s))"

lemma charSextet64_sextetChar64 [simp]: "x < 64 \<Longrightarrow> charSextet64 (sextetChar64 x) = x"
  by (auto simp: sextetChar64_def charSextet64_def sextetChar_def charSextet_def)

lemma base64_round_trip [simp]:
  assumes b: "isBytes bs"
  shows "bufferFromBase64 (encodeBase64 bs) = bs"
proof -
  have n: "\<forall>c\<in>set (map sextetChar64 (toSextets bs)). c \<noteq> 61"
    using toSextets_less [OF b] by (auto simp: sextetChar64_def sextetChar_def)
  have stop: "takeWhile P (xs @ ys) = xs" if "\<forall>x\<in>set xs. P x" "takeWhile P ys = []" for P and xs ys :: jsstr
    using that by (induction xs) auto
  have "takeWhile (\<lambda>c. c \<noteq> 61) (base64Padding (length bs)) = []" by (simp add: base64Padding_def)
  from stop [OF n this] have "takeWhile (\<lambda>c. c \<noteq> 61) (encodeBase64 bs) = map sextetChar64 (toSextets bs)"
    by (simp only: encodeBase64_def)
  moreover have "map (charSextet64 \<circ> sextetChar64) (toSextets bs) = map id (toSextets bs)"
    by (rule map_cong) (use toSextets_less [OF b] in auto)
  ultimately show ?thesis using fromSextets_toSextets [OF b] by (simp add: bufferFromBase64_def)
qed

end
