(* ===== verification/DiaryCrypto.thy ===== *)
theory DiaryCrypto
  imports Utf8
begin

text \<open>
  \<open>src/server/diaryAccess/crypto.ts\<close>: the key hierarchy of the encrypted diary. The password and a salt give
  the key-encryption key through scrypt and an HMAC; the data key is stored sealed under it. The record
  \<open>diary_env\<close> adds to \<open>auth_env\<close> what this code takes from \<open>node:crypto\<close> and its host.
\<close>

section \<open>Outside the repository\<close>

text \<open>
  \<open>deHmac key text\<close> is the HMAC-SHA-256 of the UTF-8 form of a text; \<open>deSeal key nonce aad plain\<close> the
  ciphertext and the tag of AES-256-GCM, \<open>deOpen key nonce aad cipher tag\<close> its inverse, \<open>None\<close> where
  \<open>final()\<close> throws. \<open>deResolve n\<close> is the \<open>n\<close>th answer of \<open>resolveAuthSession\<close>, the look-up of an authentication
  session in the database, \<open>deVaultId\<close> the identity of the vault, and \<open>deJsonParse\<close> is \<open>JSON.parse\<close>.
\<close>

record DiaryAccessAuthSession =
  dsValid :: bool
  dsExpiresAt :: "int option"

record diary_env =
  deAuth :: auth_env
  deHmac :: "nat list \<Rightarrow> jsstr \<Rightarrow> nat list"
  deSeal :: "nat list \<Rightarrow> nat list \<Rightarrow> nat list \<Rightarrow> nat list \<Rightarrow> nat list \<times> nat list"
  deOpen :: "nat list \<Rightarrow> nat list \<Rightarrow> nat list \<Rightarrow> nat list \<Rightarrow> nat list \<Rightarrow> nat list option"
  deResolve :: "nat \<Rightarrow> int \<Rightarrow> DiaryAccessAuthSession"
  deVaultId :: jsstr
  deJsonParse :: "jsstr \<Rightarrow> jsval option"

section \<open>Constants\<close>

definition DIARY_ACCESS_FORMAT_VERSION :: nat where "DIARY_ACCESS_FORMAT_VERSION = 1"
definition DIARY_ACCESS_KDF_ALGORITHM :: jsstr where "DIARY_ACCESS_KDF_ALGORITHM = js ''scrypt''"
definition DIARY_ACCESS_KDF_VERSION :: nat where "DIARY_ACCESS_KDF_VERSION = 1"
definition DIARY_ACCESS_WRAP_ALGORITHM :: jsstr where "DIARY_ACCESS_WRAP_ALGORITHM = js ''aes-256-gcm''"
definition DIARY_ACCESS_WRAP_VERSION :: nat where "DIARY_ACCESS_WRAP_VERSION = 1"
definition DIARY_ACCESS_NONCE_BYTES :: nat where "DIARY_ACCESS_NONCE_BYTES = 12"
definition DIARY_ACCESS_TAG_BYTES :: nat where "DIARY_ACCESS_TAG_BYTES = 16"
definition DIARY_KEK_CONTEXT :: jsstr where "DIARY_KEK_CONTEXT = js ''docus/diary-access/kek/v1''"
definition SCRYPT_MAXMEM :: nat where "SCRYPT_MAXMEM = 64 * 1024 * 1024"

lemmas diary_lengths = SCRYPT_SALT_BYTES_def SCRYPT_KEY_BYTES_def DIARY_ACCESS_NONCE_BYTES_def DIARY_ACCESS_TAG_BYTES_def

datatype DiaryAccessCryptoError = InvalidPasswordError | InvalidConfigError | InvalidKeyError

text \<open>Documented: the lengths of the outputs, and that what was sealed is opened again.\<close>

definition cipher_ok :: "diary_env \<Rightarrow> bool" where
  "cipher_ok env \<longleftrightarrow> crypto_ok (deAuth env)
     \<and> (\<forall>k t. length (deHmac env k t) = SCRYPT_KEY_BYTES \<and> isBytes (deHmac env k t))
     \<and> (\<forall>k n a p. length (fst (deSeal env k n a p)) = length p \<and> length (snd (deSeal env k n a p)) = DIARY_ACCESS_TAG_BYTES
          \<and> (isBytes p \<longrightarrow> isBytes (fst (deSeal env k n a p))) \<and> isBytes (snd (deSeal env k n a p)))
     \<and> (\<forall>k n a p. deOpen env k n a (fst (deSeal env k n a p)) (snd (deSeal env k n a p)) = Some p)
     \<and> (\<forall>k n a c t p. deOpen env k n a c t = Some p \<longrightarrow> length p = length c)"

section \<open>Wrapping the data key\<close>

record DiaryAccessCiphertext =
  dcNonce :: "nat list"
  dcWrappedDek :: "nat list"
  dcTag :: "nat list"

record DiaryAccessConfig =
  cfSalt :: "nat list"
  cfNonce :: "nat list"
  cfWrappedDek :: "nat list"
  cfTag :: "nat list"
  cfVaultId :: jsstr

definition accessAad :: "jsstr \<Rightarrow> nat list" where
  "accessAad vaultId = utf8Encode (DIARY_KEK_CONTEXT @ [0] @ vaultId @ [0] @ natText DIARY_ACCESS_FORMAT_VERSION)"

text \<open>\<open>deriveDiaryKek\<close> before the guard runs the derivation, and after it with the derived bytes.\<close>

definition kekStart :: "jsval \<Rightarrow> nat list \<Rightarrow> bool" where
  "kekStart password salt \<longleftrightarrow> validatePassword password \<and> length salt = SCRYPT_SALT_BYTES"

definition kekFrom :: "diary_env \<Rightarrow> nat list \<Rightarrow> nat list" where
  "kekFrom env intermediate = deHmac env intermediate DIARY_KEK_CONTEXT"

definition deriveDiaryKek :: "diary_env \<Rightarrow> jsstr \<Rightarrow> nat list \<Rightarrow> nat list" where
  "deriveDiaryKek env password salt = kekFrom env (aeScrypt (deAuth env) password salt)"

definition wrapDiaryDek ::
    "diary_env \<Rightarrow> nat list \<Rightarrow> nat list \<Rightarrow> nat list \<Rightarrow> jsstr \<Rightarrow> DiaryAccessCryptoError + DiaryAccessCiphertext" where
  "wrapDiaryDek env nonce kek dek vaultId =
     (if length kek \<noteq> SCRYPT_KEY_BYTES \<or> length dek \<noteq> SCRYPT_KEY_BYTES then Inl InvalidKeyError
      else let (wrapped, tag) = deSeal env kek nonce (accessAad vaultId) dek in
        if length tag \<noteq> DIARY_ACCESS_TAG_BYTES then Inl InvalidKeyError
        else Inr \<lparr>dcNonce = nonce, dcWrappedDek = wrapped, dcTag = tag\<rparr>)"

definition configLengthsOk :: "DiaryAccessConfig \<Rightarrow> bool" where
  "configLengthsOk c \<longleftrightarrow> length (cfSalt c) = SCRYPT_SALT_BYTES \<and> length (cfNonce c) = DIARY_ACCESS_NONCE_BYTES
     \<and> length (cfWrappedDek c) = SCRYPT_KEY_BYTES \<and> length (cfTag c) = DIARY_ACCESS_TAG_BYTES"

text \<open>\<open>unwrapDiaryDek\<close> once its key is derived.\<close>

definition unwrapWith :: "diary_env \<Rightarrow> nat list \<Rightarrow> DiaryAccessConfig \<Rightarrow> DiaryAccessCryptoError + nat list" where
  "unwrapWith env kek c =
     (case deOpen env kek (cfNonce c) (accessAad (cfVaultId c)) (cfWrappedDek c) (cfTag c) of
        None \<Rightarrow> Inl InvalidPasswordError
      | Some dek \<Rightarrow> Inr dek)"

definition unwrapDiaryDek :: "diary_env \<Rightarrow> jsval \<Rightarrow> DiaryAccessConfig \<Rightarrow> DiaryAccessCryptoError + nat list" where
  "unwrapDiaryDek env password c =
     (if \<not> configLengthsOk c then Inl InvalidConfigError
      else case password of
        JStr p \<Rightarrow> unwrapWith env (deriveDiaryKek env p (cfSalt c)) c
      | _ \<Rightarrow> Inl InvalidPasswordError)"

lemma wrap_unwrap:
  assumes "cipher_ok env" "length dek = SCRYPT_KEY_BYTES" "length kek = SCRYPT_KEY_BYTES"
    "wrapDiaryDek env nonce kek dek vault = Inr w"
  shows "deOpen env kek (dcNonce w) (accessAad vault) (dcWrappedDek w) (dcTag w) = Some dek"
    "length (dcWrappedDek w) = SCRYPT_KEY_BYTES" "length (dcTag w) = DIARY_ACCESS_TAG_BYTES" "dcNonce w = nonce"
  using assms by (auto simp: wrapDiaryDek_def cipher_ok_def split: prod.splits if_splits)
    (metis fst_conv snd_conv)+

lemma wrap_succeeds:
  assumes "cipher_ok env" "length dek = SCRYPT_KEY_BYTES" "length kek = SCRYPT_KEY_BYTES"
  shows "\<exists>w. wrapDiaryDek env nonce kek dek vault = Inr w"
  using assms by (auto simp: wrapDiaryDek_def cipher_ok_def split: prod.splits) (metis snd_conv)

end
