(* ===== verification/DiaryBody.thy ===== *)
theory DiaryBody
  imports DiaryCrypto
begin

text \<open>
  \<open>src/server/diaryAccess/body.ts\<close>: the envelope in which a diary document is stored. An envelope is a line of
  magic followed by a JSON object with the nonce, the ciphertext and the tag, bound to the vault, the document
  and its path. Errors are the codes of \<open>DiaryBodyCryptoError\<close>.
\<close>

section \<open>Constants and data\<close>

definition DIARY_BODY_ENVELOPE_VERSION :: nat where "DIARY_BODY_ENVELOPE_VERSION = 1"
definition DIARY_BODY_ALGORITHM :: jsstr where "DIARY_BODY_ALGORITHM = js ''aes-256-gcm''"
definition DIARY_BODY_NONCE_BYTES :: nat where "DIARY_BODY_NONCE_BYTES = 12"
definition DIARY_BODY_TAG_BYTES :: nat where "DIARY_BODY_TAG_BYTES = 16"
definition DIARY_BODY_CONTEXT :: jsstr where "DIARY_BODY_CONTEXT = js ''docus/diary-body/v1''"
definition DIARY_BODY_ENVELOPE_MAGIC :: jsstr where "DIARY_BODY_ENVELOPE_MAGIC = js ''DOCUS-DIARY-ENC-V1'' @ [10]"
definition DIARY_BODY_MAX_PLAINTEXT_BYTES :: nat where "DIARY_BODY_MAX_PLAINTEXT_BYTES = 16 * 1024 * 1024"
definition DIARY_BODY_MAX_ENVELOPE_BYTES :: nat where "DIARY_BODY_MAX_ENVELOPE_BYTES = 20 * 1024 * 1024"
definition DIARY_BODY_MAX_CIPHERTEXT_BYTES :: nat where "DIARY_BODY_MAX_CIPHERTEXT_BYTES = 16 * 1024 * 1024"

record BodyContext =
  bcVaultId :: jsstr
  bcDocumentId :: jsstr
  bcLogicalPath :: jsstr

record DiaryBodyRead =
  brRaw :: jsstr
  brEncrypted :: bool
  brBytes :: "nat list"

datatype DiaryBodyErrorCode = BodyInvalidKey | InvalidEnvelope | UnsupportedEnvelope | IdentityMismatch | AuthenticationFailed

record DiaryBodyEnvelope =
  evDocumentId :: jsstr
  evLogicalPath :: jsstr
  evNonce :: jsstr
  evCiphertext :: jsstr
  evTag :: jsstr

definition magicBytes :: "nat list" where
  "magicBytes = utf8Encode DIARY_BODY_ENVELOPE_MAGIC"

definition isEncryptedDiaryBody :: "nat list \<Rightarrow> bool" where
  "isEncryptedDiaryBody bytes \<longleftrightarrow> take (length magicBytes) bytes = magicBytes"

definition bodyAad :: "BodyContext \<Rightarrow> nat list" where
  "bodyAad c = utf8Encode (joinWith [0]
     [DIARY_BODY_CONTEXT, bcVaultId c, bcDocumentId c, bcLogicalPath c, natText DIARY_BODY_ENVELOPE_VERSION])"

section \<open>The envelope\<close>

text \<open>The text of \<open>JSON.stringify(envelope)\<close>, its properties in the order they are written.\<close>

definition envelopeText :: "DiaryBodyEnvelope \<Rightarrow> jsstr" where
  "envelopeText e = [123] @ joinWith [44] (map (\<lambda>(k, t). jsonString (js k) @ [58] @ t)
     [(''kind'', jsonString (js ''docus-diary-body'')), (''version'', natText DIARY_BODY_ENVELOPE_VERSION),
      (''algorithm'', jsonString DIARY_BODY_ALGORITHM), (''documentId'', jsonString (evDocumentId e)),
      (''logicalPath'', jsonString (evLogicalPath e)), (''nonce'', jsonString (evNonce e)),
      (''ciphertext'', jsonString (evCiphertext e)), (''tag'', jsonString (evTag e))]) @ [125]"

definition envelopeObject :: "DiaryBodyEnvelope \<Rightarrow> jsval" where
  "envelopeObject e = JObj [(js ''kind'', JStr (js ''docus-diary-body'')), (js ''version'', JInt (int DIARY_BODY_ENVELOPE_VERSION)),
     (js ''algorithm'', JStr DIARY_BODY_ALGORITHM), (js ''documentId'', JStr (evDocumentId e)),
     (js ''logicalPath'', JStr (evLogicalPath e)), (js ''nonce'', JStr (evNonce e)),
     (js ''ciphertext'', JStr (evCiphertext e)), (js ''tag'', JStr (evTag e))]"

definition envelopeStrings :: "jsobj \<Rightarrow> DiaryBodyErrorCode + DiaryBodyEnvelope" where
  "envelopeStrings r =
     (case (getProp r ''documentId'', getProp r ''logicalPath'') of
        (JStr d, JStr p) \<Rightarrow>
          (case (getProp r ''nonce'', getProp r ''ciphertext'', getProp r ''tag'') of
             (JStr n, JStr c, JStr t) \<Rightarrow>
               Inr \<lparr>evDocumentId = d, evLogicalPath = p, evNonce = n, evCiphertext = c, evTag = t\<rparr>
           | _ \<Rightarrow> Inl InvalidEnvelope)
      | _ \<Rightarrow> Inl InvalidEnvelope)"

definition envelopeFields :: "jsobj \<Rightarrow> DiaryBodyErrorCode + DiaryBodyEnvelope" where
  "envelopeFields r =
     (if getProp r ''kind'' \<noteq> JStr (js ''docus-diary-body'') then Inl InvalidEnvelope
      else if getProp r ''version'' \<noteq> JInt (int DIARY_BODY_ENVELOPE_VERSION)
        \<or> getProp r ''algorithm'' \<noteq> JStr DIARY_BODY_ALGORITHM then Inl UnsupportedEnvelope
      else envelopeStrings r)"

text \<open>\<open>None\<close> is a body without the magic.\<close>

definition parseEnvelope :: "diary_env \<Rightarrow> nat list \<Rightarrow> (DiaryBodyErrorCode + DiaryBodyEnvelope) option" where
  "parseEnvelope env bytes =
     (if \<not> isEncryptedDiaryBody bytes then None
      else if length bytes > DIARY_BODY_MAX_ENVELOPE_BYTES then Some (Inl InvalidEnvelope)
      else case deJsonParse env (utf8Decode (drop (length magicBytes) bytes)) of
        Some (JObj r) \<Rightarrow> Some (envelopeFields r)
      | _ \<Rightarrow> Some (Inl InvalidEnvelope))"

datatype EnvelopeField = NonceField | CiphertextField | TagField

definition decodeBase64 :: "jsstr \<Rightarrow> nat \<Rightarrow> EnvelopeField \<Rightarrow> DiaryBodyErrorCode + nat list" where
  "decodeBase64 value expectedLength fld =
     (if fld \<noteq> CiphertextField \<and> value = [] then Inl InvalidEnvelope
      else let decoded = bufferFromBase64 value in
        if encodeBase64 decoded \<noteq> value then Inl InvalidEnvelope
        else if length decoded \<noteq> expectedLength \<and> fld \<noteq> CiphertextField then Inl InvalidEnvelope
        else if fld = CiphertextField \<and> length decoded > DIARY_BODY_MAX_CIPHERTEXT_BYTES then Inl InvalidEnvelope
        else Inr decoded)"

section \<open>Encryption and decryption\<close>

text \<open>The nonce is the bytes the call drew; it draws them only when the key and the size are accepted.\<close>

definition bodyAccepted :: "jsstr \<Rightarrow> nat list \<Rightarrow> bool" where
  "bodyAccepted raw key \<longleftrightarrow> length key = 32 \<and> utf8ByteLength raw \<le> DIARY_BODY_MAX_PLAINTEXT_BYTES"

definition encryptDiaryBody ::
    "diary_env \<Rightarrow> nat list \<Rightarrow> jsstr \<Rightarrow> BodyContext \<Rightarrow> nat list \<Rightarrow> DiaryBodyErrorCode + nat list" where
  "encryptDiaryBody env nonce raw c key =
     (if length key \<noteq> 32 then Inl BodyInvalidKey
      else if utf8ByteLength raw > DIARY_BODY_MAX_PLAINTEXT_BYTES then Inl InvalidEnvelope
      else let (ciphertext, tag) = deSeal env key nonce (bodyAad c) (utf8Encode raw) in
        if length tag \<noteq> DIARY_BODY_TAG_BYTES then Inl BodyInvalidKey
        else Inr (utf8Encode (DIARY_BODY_ENVELOPE_MAGIC @ envelopeText
          \<lparr>evDocumentId = bcDocumentId c, evLogicalPath = bcLogicalPath c, evNonce = encodeBase64 nonce,
           evCiphertext = encodeBase64 ciphertext, evTag = encodeBase64 tag\<rparr>)))"

definition openEnvelope ::
    "diary_env \<Rightarrow> nat list \<Rightarrow> BodyContext \<Rightarrow> nat list \<Rightarrow> DiaryBodyEnvelope \<Rightarrow> DiaryBodyErrorCode + DiaryBodyRead" where
  "openEnvelope env bytes c key e =
     (case decodeBase64 (evNonce e) DIARY_BODY_NONCE_BYTES NonceField of Inl x \<Rightarrow> Inl x | Inr nonce \<Rightarrow>
      case decodeBase64 (evCiphertext e) 0 CiphertextField of Inl x \<Rightarrow> Inl x | Inr ciphertext \<Rightarrow>
      case decodeBase64 (evTag e) DIARY_BODY_TAG_BYTES TagField of Inl x \<Rightarrow> Inl x | Inr tag \<Rightarrow>
      case deOpen env key nonce (bodyAad c) ciphertext tag of None \<Rightarrow> Inl AuthenticationFailed
      | Some plain \<Rightarrow> Inr \<lparr>brRaw = utf8Decode plain, brEncrypted = True, brBytes = bytes\<rparr>)"

definition decryptDiaryBody ::
    "diary_env \<Rightarrow> nat list \<Rightarrow> BodyContext \<Rightarrow> nat list \<Rightarrow> DiaryBodyErrorCode + DiaryBodyRead" where
  "decryptDiaryBody env bytes c key =
     (if length key \<noteq> 32 then Inl BodyInvalidKey
      else if length bytes > DIARY_BODY_MAX_ENVELOPE_BYTES then Inl InvalidEnvelope
      else case parseEnvelope env bytes of
        None \<Rightarrow> Inr \<lparr>brRaw = utf8Decode bytes, brEncrypted = False, brBytes = bytes\<rparr>
      | Some (Inl e) \<Rightarrow> Inl e
      | Some (Inr e) \<Rightarrow>
          if evDocumentId e \<noteq> bcDocumentId c \<or> evLogicalPath e \<noteq> bcLogicalPath c then Inl IdentityMismatch
          else openEnvelope env bytes c key e)"

text \<open>\<open>readDiaryBody\<close>, with the bytes of its two reads of the file.\<close>

definition readDiaryBody ::
    "diary_env \<Rightarrow> nat list \<Rightarrow> nat list \<Rightarrow> BodyContext \<Rightarrow> nat list \<Rightarrow> DiaryBodyErrorCode + DiaryBodyRead" where
  "readDiaryBody env bytes second c key =
     (case decryptDiaryBody env bytes c key of Inl e \<Rightarrow> Inl e
      | Inr first \<Rightarrow> if bytes \<noteq> second then Inl AuthenticationFailed else Inr first)"

section \<open>The text of an envelope\<close>

text \<open>Documented: \<open>JSON.parse\<close> reads what \<open>JSON.stringify\<close> has written.\<close>

definition parses_back :: "diary_env \<Rightarrow> DiaryBodyEnvelope \<Rightarrow> bool" where
  "parses_back env e \<longleftrightarrow> deJsonParse env (envelopeText e) = Some (envelopeObject e)"

definition isText :: "jsstr \<Rightarrow> bool" where
  "isText s \<longleftrightarrow> (\<forall>c\<in>set s. c < 65536)"

lemma wellFormed_append: "wellFormed a \<Longrightarrow> wellFormed b \<Longrightarrow> wellFormed (a @ b)"
proof (induction a rule: wellFormed.induct)
  case (2 c)
  then show ?case by (cases b) simp_all
qed (auto split: if_splits)

definition plainUnit :: "nat \<Rightarrow> bool" where
  "plainUnit c \<longleftrightarrow> c < 55296"

lemma wellFormed_plain: "list_all plainUnit s \<Longrightarrow> wellFormed s"
  by (induction s rule: wellFormed.induct) (auto simp: plainUnit_def highSurrogate_def lowSurrogate_def)

lemma hexDigit_less: "d < 16 \<Longrightarrow> hexDigit d < 128"
  by (auto simp: hexDigit_def)

lemma escape_ascii: "list_all (\<lambda>c. c < 128) (unicodeEscape c)"
  by (simp add: unicodeEscape_def hexDigit_less)

lemma plain_ascii: "list_all (\<lambda>c. c < 128) s \<Longrightarrow> list_all plainUnit s"
  by (auto simp: list_all_iff plainUnit_def)

lemma quoteUnit_wf: "c < 65536 \<Longrightarrow> \<not> highSurrogate c \<Longrightarrow> \<not> lowSurrogate c \<Longrightarrow> wellFormed (quoteUnit c)"
  using wellFormed_plain [OF plain_ascii [OF escape_ascii]]
  by (auto simp: quoteUnit_def highSurrogate_def lowSurrogate_def)

lemma quoteBody_wf: "isText s \<Longrightarrow> wellFormed (quoteBody s)"
  by (induction s rule: quoteBody.induct)
    (auto simp: isText_def quoteUnit_wf wellFormed_append wellFormed_plain [OF plain_ascii [OF escape_ascii]])

lemma jsonString_wf: "isText s \<Longrightarrow> wellFormed (jsonString s)"
  unfolding jsonString_def
  by (intro wellFormed_append quoteBody_wf) (simp_all add: highSurrogate_def lowSurrogate_def)

lemma natText_plain: "list_all plainUnit (natText n)"
  using natText_digits [of n] by (auto simp: list_all_iff plainUnit_def isDigit_def)

lemma js_plain: "list_all plainUnit (js s)"
proof -
  have "(of_char c :: nat) < 55296" for c using nat_of_char_less_256 [of c] by (rule less_trans) simp
  then show ?thesis by (simp add: js_def list_all_iff plainUnit_def)
qed

lemma base64_plain: "isBytes bs \<Longrightarrow> list_all plainUnit (encodeBase64 bs)"
  using toSextets_less [of bs]
  by (auto simp: list_all_iff encodeBase64_def base64Padding_def plainUnit_def sextetChar64_def sextetChar_def)

lemma plain_text: "list_all plainUnit s \<Longrightarrow> isText s"
  by (auto simp: list_all_iff plainUnit_def isText_def)

section \<open>Sizes\<close>

lemma utf8Encode_append: "wellFormed a \<Longrightarrow> utf8Encode (a @ b) = utf8Encode a @ utf8Encode b"
proof (induction a rule: wellFormed.induct)
  case (2 c)
  then show ?case by (cases b) simp_all
qed (auto split: if_splits)

lemma utf8_length_ge: "length s \<le> length (utf8Encode s)"
  by (induction s rule: utf8Encode.induct) (auto simp: utf8Unit_def utf8Three_def utf8Four_def)

lemma utf8_length_le: "length (utf8Encode s) \<le> 3 * length s"
  by (induction s rule: utf8Encode.induct) (auto simp: utf8Unit_def utf8Three_def utf8Four_def)

lemma utf8_ascii_id: "list_all (\<lambda>c. c < 128) s \<Longrightarrow> utf8Encode s = s"
  by (induction s rule: utf8Encode.induct) (auto simp: utf8Unit_def highSurrogate_def lowSurrogate_def)

lemma quoteUnit_length: "length (quoteUnit c) \<le> 6"
  by (simp add: quoteUnit_def unicodeEscape_def)

lemma quoteUnit_length_pos: "1 \<le> length (quoteUnit c)"
  by (simp add: quoteUnit_def unicodeEscape_def)

lemma quoteBody_length: "length (quoteBody s) \<le> 6 * length s" "length s \<le> length (quoteBody s)"
proof (induction s rule: quoteBody.induct)
  case (2 c)
  { case 1 show ?case using quoteUnit_length [of c] by (simp add: unicodeEscape_def) }
  { case 2 show ?case using quoteUnit_length_pos [of c] by (simp add: unicodeEscape_def) }
next
  case (3 c d r)
  { case 1 show ?case using 3 quoteUnit_length [of c] by (auto simp: unicodeEscape_def) }
  { case 2 show ?case using 3 quoteUnit_length_pos [of c] by (auto simp: unicodeEscape_def) }
qed simp_all

lemma jsonString_length: "length (jsonString s) \<le> 6 * length s + 2" "length s + 2 \<le> length (jsonString s)"
  using quoteBody_length [of s] by (simp_all add: jsonString_def)

lemma quoteBody_base64: "isBytes bs \<Longrightarrow> quoteBody (encodeBase64 bs) = encodeBase64 bs"
proof -
  have q: "quoteBody s = s" if "\<forall>c\<in>set s. 32 \<le> c \<and> c < 128 \<and> c \<noteq> 34 \<and> c \<noteq> 92" for s
    using that by (induction s rule: quoteBody.induct) (auto simp: quoteUnit_def highSurrogate_def lowSurrogate_def)
  assume "isBytes bs"
  then have "\<forall>c\<in>set (encodeBase64 bs). 32 \<le> c \<and> c < 128 \<and> c \<noteq> 34 \<and> c \<noteq> 92"
    using toSextets_less [of bs] by (auto simp: encodeBase64_def base64Padding_def sextetChar64_def sextetChar_def)
  then show ?thesis by (rule q)
qed

lemma base64_length: "4 * length bs \<le> 3 * length (encodeBase64 bs)" "3 * length (encodeBase64 bs) \<le> 4 * length bs + 8"
proof -
  have "\<exists>p. length (base64Padding (length bs)) = p \<and> 4 * length bs \<le> 3 * (length (toSextets bs) + p)
     \<and> 3 * (length (toSextets bs) + p) \<le> 4 * length bs + 8"
    by (induction bs rule: toSextets.induct) (auto simp: base64Padding_def split: if_splits)
  then show "4 * length bs \<le> 3 * length (encodeBase64 bs)" "3 * length (encodeBase64 bs) \<le> 4 * length bs + 8"
    by (auto simp: encodeBase64_def)
qed

section \<open>Reading back what was written\<close>

definition envelopeHead :: "DiaryBodyEnvelope \<Rightarrow> jsstr" where
  "envelopeHead e = js ''{'' @ jsonString (js ''kind'') @ js '':'' @ jsonString (js ''docus-diary-body'') @ js '',''
     @ jsonString (js ''version'') @ js '':'' @ natText DIARY_BODY_ENVELOPE_VERSION @ js '',''
     @ jsonString (js ''algorithm'') @ js '':'' @ jsonString DIARY_BODY_ALGORITHM @ js '',''
     @ jsonString (js ''documentId'') @ js '':'' @ jsonString (evDocumentId e) @ js '',''
     @ jsonString (js ''logicalPath'') @ js '':'' @ jsonString (evLogicalPath e) @ js '',''
     @ jsonString (js ''nonce'') @ js '':'' @ jsonString (evNonce e) @ js '',''
     @ jsonString (js ''ciphertext'') @ js '':''"

definition envelopeTail :: "DiaryBodyEnvelope \<Rightarrow> jsstr" where
  "envelopeTail e = js '','' @ jsonString (js ''tag'') @ js '':'' @ jsonString (evTag e) @ js ''}''"

lemma envelopeText_split: "envelopeText e = envelopeHead e @ jsonString (evCiphertext e) @ envelopeTail e"
  by (simp add: envelopeText_def envelopeHead_def envelopeTail_def js_def)

definition envelope_text_ok :: "DiaryBodyEnvelope \<Rightarrow> bool" where
  "envelope_text_ok e \<longleftrightarrow> isText (evDocumentId e) \<and> isText (evLogicalPath e) \<and> isText (evNonce e)
     \<and> isText (evCiphertext e) \<and> isText (evTag e)"

lemma isText_js: "isText (js s)"
  by (rule plain_text [OF js_plain])

lemma wellFormed_js: "wellFormed (js s)"
  by (rule wellFormed_plain [OF js_plain])

lemma envelope_parts_wf:
  assumes "envelope_text_ok e"
  shows "wellFormed (envelopeHead e)" "wellFormed (envelopeTail e)"
  using assms unfolding envelopeHead_def envelopeTail_def envelope_text_ok_def DIARY_BODY_ALGORITHM_def
  by (auto intro!: wellFormed_append wellFormed_js jsonString_wf isText_js wellFormed_plain [OF natText_plain])

lemma magic_wf: "wellFormed DIARY_BODY_ENVELOPE_MAGIC"
  unfolding DIARY_BODY_ENVELOPE_MAGIC_def by (intro wellFormed_append wellFormed_js) (simp add: highSurrogate_def lowSurrogate_def)

lemma envelope_wf: "envelope_text_ok e \<Longrightarrow> wellFormed (envelopeText e)"
  unfolding envelopeText_split
  by (intro wellFormed_append envelope_parts_wf jsonString_wf) (simp_all add: envelope_text_ok_def)

text \<open>The bytes \<open>encryptDiaryBody\<close> returns, and their envelope.\<close>

definition sealedEnvelope :: "diary_env \<Rightarrow> nat list \<Rightarrow> jsstr \<Rightarrow> BodyContext \<Rightarrow> nat list \<Rightarrow> DiaryBodyEnvelope" where
  "sealedEnvelope env nonce raw c key =
     (let (ciphertext, tag) = deSeal env key nonce (bodyAad c) (utf8Encode raw) in
      \<lparr>evDocumentId = bcDocumentId c, evLogicalPath = bcLogicalPath c, evNonce = encodeBase64 nonce,
       evCiphertext = encodeBase64 ciphertext, evTag = encodeBase64 tag\<rparr>)"

lemma utf8_bytes: "isText s \<Longrightarrow> isBytes (utf8Encode s)"
proof (induction s rule: utf8Encode.induct)
  case (2 c)
  then show ?case by (auto simp: isText_def isBytes_def utf8Unit_def utf8Three_def less_mult_imp_div_less split: if_splits)
next
  case (3 c d r)
  have u: "isBytes (utf8Unit c)" if "c < 65536"
    using that by (auto simp: isBytes_def utf8Unit_def utf8Three_def less_mult_imp_div_less split: if_splits)
  have f: "isBytes (utf8Four (surrogatePoint c d))" if "highSurrogate c" "lowSurrogate d"
  proof -
    have "surrogatePoint c d < 1114112" using that by (auto simp: surrogatePoint_def highSurrogate_def lowSurrogate_def)
    then show ?thesis by (auto simp: isBytes_def utf8Four_def less_mult_imp_div_less)
  qed
  show ?case using 3 u f by (auto simp: isText_def isBytes_def)
qed (simp add: isBytes_def)

definition body_ok :: "diary_env \<Rightarrow> nat list \<Rightarrow> jsstr \<Rightarrow> BodyContext \<Rightarrow> bool" where
  "body_ok env nonce raw c \<longleftrightarrow> cipher_ok env \<and> isText (bcDocumentId c) \<and> isText (bcLogicalPath c)
     \<and> wellFormed raw \<and> isText raw \<and> isBytes nonce \<and> length nonce = DIARY_BODY_NONCE_BYTES"

lemma encrypt_bytes:
  assumes ok: "body_ok env nonce raw c" and e: "encryptDiaryBody env nonce raw c key = Inr bytes"
  defines "ev \<equiv> sealedEnvelope env nonce raw c key"
  shows "bytes = magicBytes @ utf8Encode (envelopeText ev)" "envelope_text_ok ev"
    "length key = 32" "utf8ByteLength raw \<le> DIARY_BODY_MAX_PLAINTEXT_BYTES"
proof -
  obtain ct tag where s: "deSeal env key nonce (bodyAad c) (utf8Encode raw) = (ct, tag)" by (cases "deSeal env key nonce (bodyAad c) (utf8Encode raw)")
  have b: "isBytes ct" "isBytes tag"
    using ok utf8_bytes [of raw] s unfolding body_ok_def cipher_ok_def by (metis fst_conv, metis snd_conv)
  show "bytes = magicBytes @ utf8Encode (envelopeText ev)"
    using e unfolding encryptDiaryBody_def ev_def sealedEnvelope_def
    by (auto simp: s magicBytes_def utf8Encode_append [OF magic_wf] split: if_splits)
  show "envelope_text_ok ev"
    using ok b by (simp add: ev_def sealedEnvelope_def s envelope_text_ok_def body_ok_def base64_plain plain_text)
  show "length key = 32" "utf8ByteLength raw \<le> DIARY_BODY_MAX_PLAINTEXT_BYTES"
    using e by (auto simp: encryptDiaryBody_def split: if_splits)
qed

lemma decode_written:
  assumes "isBytes bs" "length bs = n" "n \<noteq> 0"
  shows "decodeBase64 (encodeBase64 bs) n NonceField = Inr bs" "decodeBase64 (encodeBase64 bs) n TagField = Inr bs"
proof -
  have "encodeBase64 bs \<noteq> []" using base64_length(1) [of bs] assms by auto
  then show "decodeBase64 (encodeBase64 bs) n NonceField = Inr bs" "decodeBase64 (encodeBase64 bs) n TagField = Inr bs"
    using assms by (simp_all add: decodeBase64_def)
qed

lemma envelopeFields_object: "envelopeFields (case envelopeObject e of JObj r \<Rightarrow> r) = Inr e"
  by (simp add: envelopeFields_def envelopeObject_def envelopeStrings_def getProp_def)

theorem diary_body_reads_back:
  assumes ok: "body_ok env nonce raw c" and e: "encryptDiaryBody env nonce raw c key = Inr bytes"
    and small: "length bytes \<le> DIARY_BODY_MAX_ENVELOPE_BYTES"
    and parse: "parses_back env (sealedEnvelope env nonce raw c key)"
  shows "decryptDiaryBody env bytes c key = Inr \<lparr>brRaw = raw, brEncrypted = True, brBytes = bytes\<rparr>"
proof -
  define ev where "ev = sealedEnvelope env nonce raw c key"
  note b = encrypt_bytes [OF ok e, folded ev_def]
  obtain ct tag where s: "deSeal env key nonce (bodyAad c) (utf8Encode raw) = (ct, tag)" by (cases "deSeal env key nonce (bodyAad c) (utf8Encode raw)")
  have c: "isBytes ct" "isBytes tag" "length ct = length (utf8Encode raw)" "length tag = DIARY_BODY_TAG_BYTES"
    "deOpen env key nonce (bodyAad c) ct tag = Some (utf8Encode raw)"
    using ok utf8_bytes [of raw] s unfolding body_ok_def cipher_ok_def DIARY_BODY_TAG_BYTES_def DIARY_ACCESS_TAG_BYTES_def
    by (metis fst_conv, metis snd_conv, metis fst_conv, metis snd_conv, metis fst_conv snd_conv)
  have m: "isEncryptedDiaryBody bytes" "drop (length magicBytes) bytes = utf8Encode (envelopeText ev)"
    using b(1) by (simp_all add: isEncryptedDiaryBody_def)
  have "parseEnvelope env bytes = Some (Inr ev)"
    using parse m small envelopeFields_object [of ev] envelope_wf [OF b(2)]
    by (simp add: parseEnvelope_def parses_back_def envelopeObject_def ev_def)
  moreover have "openEnvelope env bytes c key ev = Inr \<lparr>brRaw = raw, brEncrypted = True, brBytes = bytes\<rparr>"
  proof -
    have "decodeBase64 (encodeBase64 ct) 0 CiphertextField = Inr ct"
      using c b(4) by (simp add: decodeBase64_def utf8Encode_length DIARY_BODY_MAX_CIPHERTEXT_BYTES_def DIARY_BODY_MAX_PLAINTEXT_BYTES_def)
    moreover have "decodeBase64 (encodeBase64 nonce) DIARY_BODY_NONCE_BYTES NonceField = Inr nonce"
      using ok by (intro decode_written) (simp_all add: body_ok_def DIARY_BODY_NONCE_BYTES_def)
    moreover have "decodeBase64 (encodeBase64 tag) DIARY_BODY_TAG_BYTES TagField = Inr tag"
      using c by (intro decode_written) (simp_all add: DIARY_BODY_TAG_BYTES_def)
    ultimately show ?thesis
      using ok c(5) by (simp add: openEnvelope_def ev_def sealedEnvelope_def s body_ok_def)
  qed
  moreover have "evDocumentId ev = bcDocumentId c" "evLogicalPath ev = bcLogicalPath c"
    by (simp_all add: ev_def sealedEnvelope_def s)
  ultimately show ?thesis using b(3) small by (simp add: decryptDiaryBody_def)
qed

lemma encrypt_succeeds:
  assumes "body_ok env nonce raw c" "length key = 32" "utf8ByteLength raw \<le> DIARY_BODY_MAX_PLAINTEXT_BYTES"
  shows "\<exists>bytes. encryptDiaryBody env nonce raw c key = Inr bytes"
proof -
  obtain ct tag where s: "deSeal env key nonce (bodyAad c) (utf8Encode raw) = (ct, tag)" by (cases "deSeal env key nonce (bodyAad c) (utf8Encode raw)")
  have "length tag = DIARY_BODY_TAG_BYTES"
    using assms(1) s unfolding body_ok_def cipher_ok_def DIARY_BODY_TAG_BYTES_def DIARY_ACCESS_TAG_BYTES_def by (metis snd_conv)
  then show ?thesis using assms(2,3) s by (simp add: encryptDiaryBody_def)
qed

text \<open>The size of an envelope: four thirds of the text, and what surrounds it.\<close>

lemma envelope_size:
  assumes ok: "body_ok env nonce raw c" and e: "encryptDiaryBody env nonce raw c key = Inr bytes"
  shows "4 * utf8ByteLength raw + 60 \<le> 3 * length bytes"
    "3 * length bytes \<le> 4 * utf8ByteLength raw + 54 * (length (bcDocumentId c) + length (bcLogicalPath c)) + 6000"
proof -
  define ev where "ev = sealedEnvelope env nonce raw c key"
  note b = encrypt_bytes [OF ok e, folded ev_def]
  obtain ct tag where s: "deSeal env key nonce (bodyAad c) (utf8Encode raw) = (ct, tag)" by (cases "deSeal env key nonce (bodyAad c) (utf8Encode raw)")
  have c: "isBytes ct" "length ct = utf8ByteLength raw" "length tag = 16"
    using ok utf8_bytes [of raw] s unfolding body_ok_def cipher_ok_def DIARY_ACCESS_TAG_BYTES_def utf8Encode_length [symmetric]
    by (metis fst_conv, metis fst_conv, metis snd_conv)
  have ev: "evCiphertext ev = encodeBase64 ct" "evNonce ev = encodeBase64 nonce" "evTag ev = encodeBase64 tag"
    "evDocumentId ev = bcDocumentId c" "evLogicalPath ev = bcLogicalPath c"
    by (simp_all add: ev_def sealedEnvelope_def s)
  have q: "jsonString (evCiphertext ev) = 34 # encodeBase64 ct @ [34]"
    by (simp add: jsonString_def ev quoteBody_base64 c)
  have qa: "list_all (\<lambda>x. x < 128) (jsonString (evCiphertext ev))"
    using toSextets_less [OF c(1)]
    by (auto simp: q list_all_iff encodeBase64_def base64Padding_def sextetChar64_def sextetChar_def split: if_splits)
  have lm: "length magicBytes = 19" by (simp add: magicBytes_def DIARY_BODY_ENVELOPE_MAGIC_def js_def utf8Unit_def highSurrogate_def lowSurrogate_def)
  have wfq: "wellFormed (jsonString (evCiphertext ev))" by (rule wellFormed_plain [OF plain_ascii [OF qa]])
  have len: "length bytes = 19 + length (utf8Encode (envelopeHead ev)) + (length (encodeBase64 ct) + 2) + length (utf8Encode (envelopeTail ev))"
    unfolding b(1) envelopeText_split
    by (simp add: utf8Encode_append envelope_parts_wf [OF b(2)] wfq lm utf8_ascii_id [OF qa]) (simp add: q)
  note bl = base64_length [of ct] base64_length(2) [of nonce] base64_length(2) [of tag]
  have n12: "length nonce = 12" using ok by (simp add: body_ok_def DIARY_BODY_NONCE_BYTES_def)
  show "4 * utf8ByteLength raw + 60 \<le> 3 * length bytes"
    using len bl(1) c(2) by simp
  have "length (envelopeHead ev) \<le> 400 + 6 * (length (bcDocumentId c) + length (bcLogicalPath c))"
    using jsonString_length(1) [of "bcDocumentId c"] jsonString_length(1) [of "bcLogicalPath c"]
      jsonString_length(1) [of "encodeBase64 nonce"] bl(3) n12
    by (simp add: envelopeHead_def ev jsonString_def quoteBody.simps js_def quoteUnit_def highSurrogate_def lowSurrogate_def
        DIARY_BODY_ALGORITHM_def DIARY_BODY_ENVELOPE_VERSION_def natText.simps)
  moreover have "length (envelopeTail ev) \<le> 200"
    using jsonString_length(1) [of "encodeBase64 tag"] bl(4) c(3)
    by (simp add: envelopeTail_def ev js_def jsonString_def quoteUnit_def highSurrogate_def lowSurrogate_def)
  ultimately show "3 * length bytes \<le> 4 * utf8ByteLength raw + 54 * (length (bcDocumentId c) + length (bcLogicalPath c)) + 6000"
    using len bl(2) c(2) utf8_length_le [of "envelopeHead ev"] utf8_length_le [of "envelopeTail ev"] by simp
qed

end
