(* ===== verification/Machine.thy ===== *)
theory Machine
  imports Main
begin

text \<open>
  A machine that takes events one at a time: a step gives the next state and an output, a run folds the steps.
  The locale \<open>event_system\<close> proves once what every such machine's histories satisfy: an invariant of the steps
  holds in every state a run reaches, and a preorder every step respects relates the ends of a run.
\<close>

locale event_system =
  fixes step :: "'e \<Rightarrow> 's \<Rightarrow> 's \<times> 'o"
    and run :: "'e list \<Rightarrow> 's \<Rightarrow> 's \<times> 'o list"
  assumes run_Nil: "run [] s = (s, [])"
    and run_Cons: "run (e # es) s = (let (t, out) = step e s; (u, outs) = run es t in (u, out # outs))"
begin

lemma state_Nil: "fst (run [] s) = s"
  by (simp add: run_Nil)

lemma state_Cons: "fst (run (e # es) s) = fst (run es (fst (step e s)))"
  by (simp add: run_Cons Let_def split: prod.split)

lemma state_append: "fst (run (es @ fs) s) = fst (run fs (fst (run es s)))"
  by (induction es arbitrary: s) (simp_all add: state_Nil state_Cons)

lemma outputs_length: "length (snd (run es s)) = length es"
proof (induction es arbitrary: s)
  case (Cons e es)
  obtain t out where t: "step e s = (t, out)" by (cases "step e s")
  obtain u outs where "run es t = (u, outs)" by (cases "run es t")
  with Cons [of t] show ?case by (simp add: run_Cons t)
qed (simp add: run_Nil)

lemma invariant:
  assumes "\<And>e s. I s \<Longrightarrow> I (fst (step e s))" "I s"
  shows "I (fst (run es s))"
  using assms(2) by (induction es arbitrary: s) (simp_all add: state_Nil state_Cons assms(1))

text \<open>A preorder on states that every step from a state with the invariant respects.\<close>

lemma monotone:
  assumes refl: "\<And>s. R s s" and trans: "\<And>s t u. R s t \<Longrightarrow> R t u \<Longrightarrow> R s u"
    and step: "\<And>e s. I s \<Longrightarrow> R s (fst (step e s))" and inv: "\<And>e s. I s \<Longrightarrow> I (fst (step e s))" and I: "I s"
  shows "R s (fst (run es s))"
  using I
proof (induction es arbitrary: s)
  case (Cons e es)
  show ?case unfolding state_Cons
    by (rule trans [OF step [OF Cons.prems] Cons.IH [OF inv [OF Cons.prems]]])
qed (simp add: state_Nil refl)

lemma monotone_all:
  assumes "\<And>s. R s s" "\<And>s t u. R s t \<Longrightarrow> R t u \<Longrightarrow> R s u" "\<And>e s. R s (fst (step e s))"
  shows "R s (fst (run es s))"
  by (rule monotone [where I = "\<lambda>_. True"]) (simp_all add: assms)

text \<open>
  An invariant that needs a condition on the end of the history, which a preorder hands back to every state on
  the way.
\<close>

lemma invariant_upto:
  assumes mono: "\<And>e s. R s (fst (step e s))" and refl: "\<And>s. R s s" and trans: "\<And>s t u. R s t \<Longrightarrow> R t u \<Longrightarrow> R s u"
    and down: "\<And>s t. R s t \<Longrightarrow> C t \<Longrightarrow> C s"
    and step: "\<And>e s. I s \<Longrightarrow> C (fst (step e s)) \<Longrightarrow> I (fst (step e s))"
    and I: "I s" and C: "C (fst (run es s))"
  shows "I (fst (run es s))"
  using I C
proof (induction es arbitrary: s)
  case (Cons e es)
  have "R (fst (step e s)) (fst (run es (fst (step e s))))" by (rule monotone_all) (blast intro: refl trans mono)+
  then have "C (fst (step e s))" using Cons.prems(2) down unfolding state_Cons by blast
  then show ?case unfolding state_Cons using Cons.IH [OF step [OF Cons.prems(1)]] Cons.prems(2) by (simp add: state_Cons)
qed (simp add: state_Nil)

end

end
