(* ===== verification/DiaryAccess.thy ===== *)
theory DiaryAccess
  imports DiaryBody RateLimit Machine
begin

text \<open>
  \<open>src/server/diaryAccess/service.ts\<close>: who may read the encrypted diary, and when. Unlocking publishes a
  capability that holds the data key in memory; locking, logging out and expiry quiesce the session: no new body
  operation starts, those under way are waited for, and then the key is erased. The service is a machine: an
  asynchronous call that has reached an \<open>await\<close> is a task, and a turn of the event loop is a step. Any task
  whose promise is resolved may take the next turn, so every order of the continuations is a history.
\<close>

section \<open>Data\<close>

datatype DiaryAccessErrorCode =
    DaInvalidPassword | DaInvalidState | DaUnavailable | DaInvalidInput | DaRateLimited
  | DaAuthSessionInvalid | DaIssuanceInvalidated

record DiaryAccessServiceError =
  dxCode :: DiaryAccessErrorCode
  dxStatus :: nat
  dxRetryAfterMs :: "int option"

definition daError :: "DiaryAccessErrorCode \<Rightarrow> nat \<Rightarrow> DiaryAccessServiceError" where
  "daError c st = \<lparr>dxCode = c, dxStatus = st, dxRetryAfterMs = None\<rparr>"

definition rateLimited :: "int \<Rightarrow> DiaryAccessServiceError" where
  "rateLimited ms = \<lparr>dxCode = DaRateLimited, dxStatus = 429, dxRetryAfterMs = Some ms\<rparr>"

datatype DiaryAccessState = UNINITIALIZED | LOCKED | UNLOCKED

text \<open>A value SQLite hands to the reader of a row.\<close>

datatype sql_value = SqlNull | SqlInteger int | SqlReal | SqlText jsstr | SqlBlob "nat list"

record DiaryAccessRow =
  drId :: sql_value
  drFormatVersion :: sql_value
  drKdfAlgorithm :: sql_value
  drKdfVersion :: sql_value
  drKdfN :: sql_value
  drKdfR :: sql_value
  drKdfP :: sql_value
  drKdfMaxmem :: sql_value
  drSalt :: sql_value
  drWrapAlgorithm :: sql_value
  drWrapVersion :: sql_value
  drWrapNonce :: sql_value
  drWrappedDek :: sql_value
  drWrapTag :: sql_value
  drVaultId :: sql_value
  drCreatedAt :: sql_value
  drUpdatedAt :: sql_value

text \<open>
  Objects that are compared by identity or mutated are named. A capability is named by the request that
  published it, \<open>cpRequest\<close>; its key is a buffer of the heap \<open>daBuffers\<close>, and its timer is a timer of \<open>daTimers\<close>.
\<close>

record Capability =
  cpRequest :: nat
  cpSessionId :: int
  cpVaultId :: jsstr
  cpEpoch :: nat
  cpExpiresAt :: int
  cpDek :: nat
  cpTimer :: "nat option"

text \<open>Of a promise only whether it is resolved matters.\<close>

record SessionQuiescence =
  sqDrained :: bool
  sqCompleted :: bool
  sqFinalized :: bool

record CapabilityIssuance =
  isSessionId :: int
  isLifecycleGeneration :: nat
  isSequence :: nat

text \<open>The promise chain of the issuance lock: a ticket waits for the tail before it, and is released by its owner.\<close>

record issuance_tail =
  tlPrevious :: "nat option"
  tlReleased :: bool

datatype request_kind =
    SetupRequest jsstr "nat list" nat
  | UnlockRequest jsstr DiaryAccessConfig jsstr

text \<open>The local variables of a setup or an unlock that waits inside \<open>issueCapability\<close>.\<close>

record issue_call =
  icIssuance :: CapabilityIssuance
  icVaultId :: jsstr
  icDek :: nat
  icKek :: "nat option"
  icLimiterKey :: "jsstr option"

record body_lease =
  blSessionId :: int
  blToken :: jsstr
  blCapability :: nat
  blEpoch :: nat
  blDek :: nat
  blReads :: "BodyContext list"

datatype task =
    DerivingKey CapabilityIssuance request_kind
  | AwaitingTurn issue_call nat
  | AwaitingDrained issue_call nat nat nat
  | AwaitingCompleted issue_call nat nat nat
  | Finishing issue_call "DiaryAccessServiceError + jsstr \<times> nat"
  | Quiescing int nat
  | Quiesced int nat
  | BodyOperation body_lease

record diary_access =
  daConfig :: "DiaryAccessRow option"
  daLimiter :: AuthRateLimiter
  daSessionEpochs :: "(int \<times> nat) list"
  daCapabilities :: "(jsstr \<times> Capability) list"
  daActive :: "(int \<times> nat) list"
  daQuiescences :: "(int \<times> nat) list"
  daGenerations :: "(int \<times> nat) list"
  daSequences :: "(int \<times> nat) list"
  daIssuanceTails :: "(int \<times> nat) list"
  daQuiescenceObjects :: "SessionQuiescence list"
  daTailObjects :: "issuance_tail list"
  daBuffers :: "nat list list"
  daTimers :: "(nat \<times> jsstr \<times> int) list"
  daTasks :: "(nat \<times> task) list"
  daNextTask :: nat
  daNextTimer :: nat
  daClock :: nat
  daDraws :: nat
  daResolves :: nat
  daWrites :: nat

definition createDiaryAccess :: "DiaryAccessRow option \<Rightarrow> AuthRateLimiter \<Rightarrow> diary_access" where
  "createDiaryAccess row limiter = \<lparr>daConfig = row, daLimiter = limiter, daSessionEpochs = [], daCapabilities = [],
     daActive = [], daQuiescences = [], daGenerations = [], daSequences = [], daIssuanceTails = [], daQuiescenceObjects = [],
     daTailObjects = [], daBuffers = [], daTimers = [], daTasks = [], daNextTask = 0, daNextTimer = 0, daClock = 0,
     daDraws = 0, daResolves = 0, daWrites = 0\<rparr>"

text \<open>\<open>map.get(k) ?? 0\<close>.\<close>

definition countOf :: "(int \<times> nat) list \<Rightarrow> int \<Rightarrow> nat" where
  "countOf m k = (case map_of m k of None \<Rightarrow> 0 | Some n \<Rightarrow> n)"

definition readClock :: "diary_env \<Rightarrow> diary_access \<Rightarrow> int \<times> diary_access" where
  "readClock env s = (aeNow (deAuth env) (daClock s), s\<lparr>daClock := Suc (daClock s)\<rparr>)"

definition drawBytes :: "diary_env \<Rightarrow> nat \<Rightarrow> diary_access \<Rightarrow> nat list \<times> diary_access" where
  "drawBytes env k s = (aeRandom (deAuth env) (daDraws s) k, s\<lparr>daDraws := Suc (daDraws s)\<rparr>)"

definition resolveSession :: "diary_env \<Rightarrow> int \<Rightarrow> diary_access \<Rightarrow> DiaryAccessAuthSession \<times> diary_access" where
  "resolveSession env sid s = (deResolve env (daResolves s) sid, s\<lparr>daResolves := Suc (daResolves s)\<rparr>)"

definition allocBuffer :: "nat list \<Rightarrow> diary_access \<Rightarrow> nat \<times> diary_access" where
  "allocBuffer bs s = (length (daBuffers s), s\<lparr>daBuffers := daBuffers s @ [bs]\<rparr>)"

text \<open>\<open>buffer.fill(0)\<close>.\<close>

definition fillZero :: "nat \<Rightarrow> diary_access \<Rightarrow> diary_access" where
  "fillZero b s = s\<lparr>daBuffers := (daBuffers s)[b := replicate (length (daBuffers s ! b)) 0]\<rparr>"

definition addTask :: "task \<Rightarrow> diary_access \<Rightarrow> diary_access" where
  "addTask w s = s\<lparr>daTasks := mapSet (daNextTask s) w (daTasks s), daNextTask := Suc (daNextTask s)\<rparr>"

definition setTask :: "nat \<Rightarrow> task \<Rightarrow> diary_access \<Rightarrow> diary_access" where
  "setTask i w s = s\<lparr>daTasks := mapSet i w (daTasks s)\<rparr>"

definition endTask :: "nat \<Rightarrow> diary_access \<Rightarrow> diary_access" where
  "endTask i s = s\<lparr>daTasks := mapDelete i (daTasks s)\<rparr>"

section \<open>The configuration\<close>

fun asBuffer :: "sql_value \<Rightarrow> nat list option" where
  "asBuffer (SqlBlob bs) = Some bs"
| "asBuffer _ = None"

fun isFiniteInteger :: "sql_value \<Rightarrow> bool" where
  "isFiniteInteger (SqlInteger i) = (safeInt i \<and> 0 \<le> i)"
| "isFiniteInteger _ = False"

definition sqlNat :: "nat \<Rightarrow> sql_value" where
  "sqlNat n = SqlInteger (int n)"

definition parametersOk :: "DiaryAccessRow \<Rightarrow> bool" where
  "parametersOk r \<longleftrightarrow> drId r = sqlNat 1 \<and> drFormatVersion r = sqlNat DIARY_ACCESS_FORMAT_VERSION
     \<and> drKdfAlgorithm r = SqlText DIARY_ACCESS_KDF_ALGORITHM \<and> drKdfVersion r = sqlNat DIARY_ACCESS_KDF_VERSION
     \<and> drKdfN r = sqlNat SCRYPT_N \<and> drKdfR r = sqlNat SCRYPT_R \<and> drKdfP r = sqlNat SCRYPT_P
     \<and> drKdfMaxmem r = sqlNat SCRYPT_MAXMEM
     \<and> drWrapAlgorithm r = SqlText DIARY_ACCESS_WRAP_ALGORITHM \<and> drWrapVersion r = sqlNat DIARY_ACCESS_WRAP_VERSION"

definition configFromRow :: "DiaryAccessRow \<Rightarrow> jsstr \<Rightarrow> DiaryAccessConfig option" where
  "configFromRow r vaultId =
     (case (asBuffer (drSalt r), asBuffer (drWrapNonce r), asBuffer (drWrappedDek r), asBuffer (drWrapTag r)) of
        (Some salt, Some nonce, Some dek, Some tag) \<Rightarrow>
          let c = \<lparr>cfSalt = salt, cfNonce = nonce, cfWrappedDek = dek, cfTag = tag, cfVaultId = vaultId\<rparr> in
          if parametersOk r \<and> configLengthsOk c \<and> drVaultId r = SqlText vaultId
             \<and> isFiniteInteger (drCreatedAt r) \<and> isFiniteInteger (drUpdatedAt r) then Some c else None
      | _ \<Rightarrow> None)"

text \<open>\<open>loadConfig\<close>: a failure, no configuration yet, or the configuration.\<close>

definition loadConfig :: "diary_env \<Rightarrow> diary_access \<Rightarrow> DiaryAccessServiceError + DiaryAccessConfig option" where
  "loadConfig env s =
     (case daConfig s of None \<Rightarrow> Inr None
      | Some row \<Rightarrow> (case configFromRow row (deVaultId env) of None \<Rightarrow> Inl (daError DaUnavailable 503)
          | Some c \<Rightarrow> Inr (Some c)))"

definition setupRow :: "nat list \<Rightarrow> DiaryAccessCiphertext \<Rightarrow> jsstr \<Rightarrow> int \<Rightarrow> DiaryAccessRow" where
  "setupRow salt w vaultId t = \<lparr>drId = sqlNat 1, drFormatVersion = sqlNat DIARY_ACCESS_FORMAT_VERSION,
     drKdfAlgorithm = SqlText DIARY_ACCESS_KDF_ALGORITHM, drKdfVersion = sqlNat DIARY_ACCESS_KDF_VERSION,
     drKdfN = sqlNat SCRYPT_N, drKdfR = sqlNat SCRYPT_R, drKdfP = sqlNat SCRYPT_P, drKdfMaxmem = sqlNat SCRYPT_MAXMEM,
     drSalt = SqlBlob salt, drWrapAlgorithm = SqlText DIARY_ACCESS_WRAP_ALGORITHM,
     drWrapVersion = sqlNat DIARY_ACCESS_WRAP_VERSION, drWrapNonce = SqlBlob (dcNonce w),
     drWrappedDek = SqlBlob (dcWrappedDek w), drWrapTag = SqlBlob (dcTag w), drVaultId = SqlText vaultId,
     drCreatedAt = SqlInteger t, drUpdatedAt = SqlInteger t\<rparr>"

section \<open>Quiescing a session\<close>

definition clearTimer :: "nat option \<Rightarrow> diary_access \<Rightarrow> diary_access" where
  "clearTimer t s = (case t of None \<Rightarrow> s | Some i \<Rightarrow> s\<lparr>daTimers := mapDelete i (daTimers s)\<rparr>)"

definition dropCapability :: "jsstr \<Rightarrow> diary_access \<Rightarrow> diary_access" where
  "dropCapability token s =
     (let s' = (case map_of (daCapabilities s) token of None \<Rightarrow> s
        | Some c \<Rightarrow> fillZero (cpDek c) (clearTimer (cpTimer c) s))
      in s'\<lparr>daCapabilities := mapDelete token (daCapabilities s')\<rparr>)"

definition sessionTokens :: "int \<Rightarrow> diary_access \<Rightarrow> jsstr list" where
  "sessionTokens sid s = map fst (filter (\<lambda>(t, c). cpSessionId c = sid) (daCapabilities s))"

definition dropSessionCapabilities :: "int \<Rightarrow> diary_access \<Rightarrow> diary_access" where
  "dropSessionCapabilities sid s = fold dropCapability (sessionTokens sid s) s"

definition dropAllCapabilities :: "diary_access \<Rightarrow> diary_access" where
  "dropAllCapabilities s = fold dropCapability (map fst (daCapabilities s)) s"

definition resetForTesting :: "diary_access \<Rightarrow> diary_access" where
  "resetForTesting s = (dropAllCapabilities s)\<lparr>daSessionEpochs := [], daQuiescences := [], daActive := [], daGenerations := [],
     daSequences := [], daIssuanceTails := []\<rparr>"

definition hasSessionCapability :: "int \<Rightarrow> diary_access \<Rightarrow> bool" where
  "hasSessionCapability sid s \<longleftrightarrow> list_ex (\<lambda>(t, c). cpSessionId c = sid) (daCapabilities s)"

definition quiescing :: "int \<Rightarrow> diary_access \<Rightarrow> bool" where
  "quiescing sid s \<longleftrightarrow> map_of (daQuiescences s) sid \<noteq> None"

definition bumpLifecycleGeneration :: "int \<Rightarrow> diary_access \<Rightarrow> diary_access" where
  "bumpLifecycleGeneration sid s = s\<lparr>daGenerations := mapSet sid (Suc (countOf (daGenerations s) sid)) (daGenerations s)\<rparr>"

text \<open>The quiescence of a session, a new one if it has none; it is drained when no body operation is active.\<close>

definition beginQuiescence :: "int \<Rightarrow> diary_access \<Rightarrow> nat \<times> diary_access" where
  "beginQuiescence sid s =
     (case map_of (daQuiescences s) sid of Some q \<Rightarrow> (q, s)
      | None \<Rightarrow> (length (daQuiescenceObjects s),
          s\<lparr>daQuiescences := mapSet sid (length (daQuiescenceObjects s)) (daQuiescences s),
            daQuiescenceObjects := daQuiescenceObjects s @
              [\<lparr>sqDrained = (countOf (daActive s) sid = 0), sqCompleted = False, sqFinalized = False\<rparr>]\<rparr>))"

definition beginSessionInvalidation :: "int \<Rightarrow> diary_access \<Rightarrow> nat \<times> diary_access" where
  "beginSessionInvalidation sid s = beginQuiescence sid (bumpLifecycleGeneration sid s)"

text \<open>\<open>finishQuiescence\<close> between its two awaits.\<close>

definition finalizeQuiescence :: "int \<Rightarrow> nat \<Rightarrow> diary_access \<Rightarrow> diary_access" where
  "finalizeQuiescence sid q s =
     (if map_of (daQuiescences s) sid = Some q \<and> \<not> sqFinalized (daQuiescenceObjects s ! q)
      then let s1 = dropSessionCapabilities sid s in
        s1\<lparr>daSessionEpochs := mapSet sid (Suc (countOf (daSessionEpochs s1) sid)) (daSessionEpochs s1),
           daQuiescences := mapDelete sid (daQuiescences s1),
           daQuiescenceObjects := (daQuiescenceObjects s1)[q := (daQuiescenceObjects s1 ! q)\<lparr>sqFinalized := True, sqCompleted := True\<rparr>]\<rparr>
      else s)"

text \<open>\<open>invalidateAuthSession\<close> up to its first await; nothing happens for what is not the number of a session.\<close>

definition isSessionNumber :: "int \<Rightarrow> bool" where
  "isSessionNumber sid \<longleftrightarrow> safeInt sid \<and> 1 \<le> sid"

definition invalidateAuthSession :: "int \<Rightarrow> diary_access \<Rightarrow> diary_access" where
  "invalidateAuthSession sid s =
     (if \<not> isSessionNumber sid then s
      else let (q, s1) = beginSessionInvalidation sid s in addTask (Quiescing sid q) s1)"

definition releaseBodyOperation :: "int \<Rightarrow> diary_access \<Rightarrow> diary_access" where
  "releaseBodyOperation sid s =
     (let remaining = (case map_of (daActive s) sid of None \<Rightarrow> 0 | Some n \<Rightarrow> n - 1) in
      if 0 < remaining then s\<lparr>daActive := mapSet sid remaining (daActive s)\<rparr>
      else let s1 = s\<lparr>daActive := mapDelete sid (daActive s)\<rparr> in
        case map_of (daQuiescences s1) sid of None \<Rightarrow> s1
        | Some q \<Rightarrow> s1\<lparr>daQuiescenceObjects := (daQuiescenceObjects s1)[q := (daQuiescenceObjects s1 ! q)\<lparr>sqDrained := True\<rparr>]\<rparr>)"

section \<open>The authentication session\<close>

text \<open>\<open>requireCurrentAuthSession\<close>: the expiry of the session, or \<open>None\<close> where it throws.\<close>

definition requireCurrentAuthSession :: "diary_env \<Rightarrow> int \<Rightarrow> diary_access \<Rightarrow> int option \<times> diary_access" where
  "requireCurrentAuthSession env sid s =
     (let (r, s1) = resolveSession env sid s in
      case (dsValid r, dsExpiresAt r) of
        (True, Some e) \<Rightarrow>
          let (t, s2) = readClock env s1 in if e \<le> t then (None, invalidateAuthSession sid s2) else (Some e, s2)
      | _ \<Rightarrow> (None, invalidateAuthSession sid s1))"

definition sessionInvalid :: DiaryAccessServiceError where "sessionInvalid = daError DaAuthSessionInvalid 401"
definition issuanceInvalidated :: DiaryAccessServiceError where "issuanceInvalidated = daError DaIssuanceInvalidated 409"
definition invalidState :: DiaryAccessServiceError where "invalidState = daError DaInvalidState 409"
definition accessUnavailable :: DiaryAccessServiceError where "accessUnavailable = daError DaUnavailable 503"
definition wrongPassword :: DiaryAccessServiceError where "wrongPassword = daError DaInvalidPassword 401"
definition invalidInput :: DiaryAccessServiceError where "invalidInput = daError DaInvalidInput 400"

section \<open>Issuing a capability\<close>

definition beginCapabilityIssuance ::
    "diary_env \<Rightarrow> int \<Rightarrow> diary_access \<Rightarrow> (DiaryAccessServiceError + CapabilityIssuance) \<times> diary_access" where
  "beginCapabilityIssuance env sid s =
     (case requireCurrentAuthSession env sid s of
        (None, s1) \<Rightarrow> (Inl sessionInvalid, s1)
      | (Some e, s1) \<Rightarrow>
          if quiescing sid s1 then (Inl issuanceInvalidated, s1)
          else let n = Suc (countOf (daSequences s1) sid) in
            (Inr \<lparr>isSessionId = sid, isLifecycleGeneration = countOf (daGenerations s1) sid, isSequence = n\<rparr>,
             s1\<lparr>daSequences := mapSet sid n (daSequences s1)\<rparr>))"

text \<open>\<open>assertCapabilityIssuanceCurrent\<close>: the error it throws, if any.\<close>

definition ticketCurrent :: "CapabilityIssuance \<Rightarrow> nat \<Rightarrow> diary_access \<Rightarrow> bool" where
  "ticketCurrent i g s \<longleftrightarrow> \<not> quiescing (isSessionId i) s \<and> countOf (daGenerations s) (isSessionId i) = g
     \<and> map_of (daSequences s) (isSessionId i) = Some (isSequence i)"

definition assertCapabilityIssuanceCurrent ::
    "diary_env \<Rightarrow> CapabilityIssuance \<Rightarrow> nat \<Rightarrow> diary_access \<Rightarrow> DiaryAccessServiceError option \<times> diary_access" where
  "assertCapabilityIssuanceCurrent env i g s =
     (if \<not> ticketCurrent i g s then (Some issuanceInvalidated, s)
      else case requireCurrentAuthSession env (isSessionId i) s of
        (None, s1) \<Rightarrow> (Some sessionInvalid, s1)
      | (Some e, s1) \<Rightarrow> (None, s1))"

text \<open>
  \<open>withIssuanceLock\<close>: a ticket takes its place behind the tail of its session; the promise of a tail is resolved
  when its owner and all before it have released.
\<close>

definition enterIssuanceLock :: "nat \<Rightarrow> issue_call \<Rightarrow> diary_access \<Rightarrow> diary_access" where
  "enterIssuanceLock i c s =
     (let sid = isSessionId (icIssuance c); ticket = length (daTailObjects s) in
      setTask i (AwaitingTurn c ticket)
        (s\<lparr>daTailObjects := daTailObjects s @ [\<lparr>tlPrevious = map_of (daIssuanceTails s) sid, tlReleased = False\<rparr>],
           daIssuanceTails := mapSet sid ticket (daIssuanceTails s)\<rparr>))"

function tailResolved :: "issuance_tail list \<Rightarrow> nat \<Rightarrow> bool" where
  "tailResolved ts t =
     (if length ts \<le> t \<or> \<not> tlReleased (ts ! t) then False
      else case tlPrevious (ts ! t) of None \<Rightarrow> True | Some p \<Rightarrow> if p < t then tailResolved ts p else False)"
  by pat_completeness auto
termination by (relation "measure snd") auto

declare tailResolved.simps [simp del]

definition turnReached :: "nat \<Rightarrow> diary_access \<Rightarrow> bool" where
  "turnReached ticket s \<longleftrightarrow> (case tlPrevious (daTailObjects s ! ticket) of None \<Rightarrow> True
     | Some p \<Rightarrow> tailResolved (daTailObjects s) p)"

definition releaseIssuanceLock :: "int \<Rightarrow> nat \<Rightarrow> diary_access \<Rightarrow> diary_access" where
  "releaseIssuanceLock sid ticket s =
     (let s1 = s\<lparr>daTailObjects := (daTailObjects s)[ticket := (daTailObjects s ! ticket)\<lparr>tlReleased := True\<rparr>]\<rparr> in
      if map_of (daIssuanceTails s1) sid = Some ticket then s1\<lparr>daIssuanceTails := mapDelete sid (daIssuanceTails s1)\<rparr> else s1)"

definition MAX_CAPABILITY_EXPIRY_TIMER_MS :: int where "MAX_CAPABILITY_EXPIRY_TIMER_MS = 2147000000"

definition setCapabilityTimer :: "jsstr \<Rightarrow> Capability \<Rightarrow> int \<Rightarrow> diary_access \<Rightarrow> diary_access" where
  "setCapabilityTimer token c delay s =
     s\<lparr>daTimers := mapSet (daNextTimer s) (token, delay) (daTimers s), daNextTimer := Suc (daNextTimer s),
       daCapabilities := mapSet token (c\<lparr>cpTimer := Some (daNextTimer s)\<rparr>) (daCapabilities s)\<rparr>"

definition scheduleCapabilityExpiry :: "diary_env \<Rightarrow> jsstr \<Rightarrow> diary_access \<Rightarrow> diary_access" where
  "scheduleCapabilityExpiry env token s =
     (case map_of (daCapabilities s) token of None \<Rightarrow> s
      | Some c \<Rightarrow> let (t, s1) = readClock env s; remaining = cpExpiresAt c - t in
          if remaining \<le> 0 then dropCapability token s1
          else setCapabilityTimer token c (min remaining MAX_CAPABILITY_EXPIRY_TIMER_MS) s1)"

definition capabilityToken :: "nat list \<Rightarrow> jsstr" where
  "capabilityToken bs = encodeBase64Url bs"

definition publishCapability ::
    "diary_env \<Rightarrow> nat \<Rightarrow> issue_call \<Rightarrow> int \<Rightarrow> diary_access \<Rightarrow> (jsstr \<times> nat) \<times> diary_access" where
  "publishCapability env i c expiresAt s =
     (let sid = isSessionId (icIssuance c); epoch = Suc (countOf (daSessionEpochs s) sid);
          (bs, s1) = drawBytes env 32 (s\<lparr>daSessionEpochs := mapSet sid epoch (daSessionEpochs s)\<rparr>);
          token = capabilityToken bs;
          capability = \<lparr>cpRequest = i, cpSessionId = sid, cpVaultId = icVaultId c, cpEpoch = epoch,
            cpExpiresAt = expiresAt, cpDek = icDek c, cpTimer = None\<rparr>
      in ((token, epoch), scheduleCapabilityExpiry env token (s1\<lparr>daCapabilities := mapSet token capability (daCapabilities s1)\<rparr>)))"

text \<open>The end of \<open>issueCapability\<close>: the last checks, the publication, and the release of the lock.\<close>

definition leaveIssuance ::
    "nat \<Rightarrow> issue_call \<Rightarrow> nat \<Rightarrow> (DiaryAccessServiceError + jsstr \<times> nat) \<Rightarrow> diary_access \<Rightarrow> diary_access" where
  "leaveIssuance i c ticket result s =
     setTask i (Finishing c result) (releaseIssuanceLock (isSessionId (icIssuance c)) ticket s)"

definition publishIfCurrent :: "diary_env \<Rightarrow> nat \<Rightarrow> issue_call \<Rightarrow> nat \<Rightarrow> nat \<Rightarrow> diary_access \<Rightarrow> diary_access" where
  "publishIfCurrent env i c ticket permitted s =
     (case assertCapabilityIssuanceCurrent env (icIssuance c) permitted s of
        (Some e, s1) \<Rightarrow> leaveIssuance i c ticket (Inl e) s1
      | (None, s1) \<Rightarrow>
          (case requireCurrentAuthSession env (isSessionId (icIssuance c)) s1 of
             (None, s2) \<Rightarrow> leaveIssuance i c ticket (Inl sessionInvalid) s2
           | (Some expiresAt, s2) \<Rightarrow>
               let (issued, s3) = publishCapability env i c expiresAt s2 in leaveIssuance i c ticket (Inr issued) s3))"

text \<open>The turn of a ticket: a session that has a capability is quiesced first.\<close>

definition issuanceTurn :: "diary_env \<Rightarrow> nat \<Rightarrow> issue_call \<Rightarrow> nat \<Rightarrow> diary_access \<Rightarrow> diary_access" where
  "issuanceTurn env i c ticket s =
     (let sid = isSessionId (icIssuance c) in
      case assertCapabilityIssuanceCurrent env (icIssuance c) (isLifecycleGeneration (icIssuance c)) s of
        (Some e, s1) \<Rightarrow> leaveIssuance i c ticket (Inl e) s1
      | (None, s1) \<Rightarrow>
          if hasSessionCapability sid s1
          then let (q, s2) = beginSessionInvalidation sid s1 in
            setTask i (AwaitingDrained c ticket q (countOf (daGenerations s2) sid)) s2
          else publishIfCurrent env i c ticket (isLifecycleGeneration (icIssuance c)) s1)"

text \<open>After the replaced capability is gone: \<open>issueCapability\<close> asserts, and asserts once more before it publishes.\<close>

definition replacementTurn :: "diary_env \<Rightarrow> nat \<Rightarrow> issue_call \<Rightarrow> nat \<Rightarrow> nat \<Rightarrow> diary_access \<Rightarrow> diary_access" where
  "replacementTurn env i c ticket permitted s =
     (case assertCapabilityIssuanceCurrent env (icIssuance c) permitted s of
        (Some e, s1) \<Rightarrow> leaveIssuance i c ticket (Inl e) s1
      | (None, s1) \<Rightarrow> publishIfCurrent env i c ticket permitted s1)"

section \<open>Setup and unlock\<close>

datatype diary_output =
    DNothing
  | DPending nat
  | DRefused DiaryAccessServiceError
  | DIssued nat jsstr nat
  | DFailed nat DiaryAccessServiceError
  | DLocked nat
  | DStatus DiaryAccessState "nat option"
  | DAccess bool
  | DNoAccess
  | DStale DiaryAccessServiceError
  | DSealed "DiaryBodyErrorCode + nat list"
  | DRead "DiaryBodyErrorCode + DiaryBodyRead"

definition setupAccess :: "diary_env \<Rightarrow> int \<Rightarrow> jsval \<Rightarrow> diary_access \<Rightarrow> diary_access \<times> diary_output" where
  "setupAccess env sid password s =
     (if \<not> isSessionNumber sid then (s, DRefused invalidInput)
      else case password of
        JStr p \<Rightarrow>
          if \<not> isValidPassword password then (s, DRefused invalidInput)
          else (case loadConfig env s of
              Inl e \<Rightarrow> (s, DRefused e)
            | Inr (Some _) \<Rightarrow> (s, DRefused invalidState)
            | Inr None \<Rightarrow>
                (case beginCapabilityIssuance env sid s of
                   (Inl e, s1) \<Rightarrow> (s1, DRefused e)
                 | (Inr issuance, s1) \<Rightarrow>
                     let (salt, s2) = drawBytes env SCRYPT_SALT_BYTES s1; (bs, s3) = drawBytes env SCRYPT_KEY_BYTES s2;
                         (dek, s4) = allocBuffer bs s3
                     in (addTask (DerivingKey issuance (SetupRequest p salt dek)) s4, DPending (daNextTask s4))))
      | _ \<Rightarrow> (s, DRefused invalidInput))"

definition limiterKey :: "int \<Rightarrow> jsstr \<Rightarrow> jsstr" where
  "limiterKey sid vaultId = vaultId @ js '':'' @ intText sid"

definition unlockAccess :: "diary_env \<Rightarrow> int \<Rightarrow> jsval \<Rightarrow> diary_access \<Rightarrow> diary_access \<times> diary_output" where
  "unlockAccess env sid password s =
     (if \<not> isSessionNumber sid then (s, DRefused invalidInput)
      else case password of
        JStr p \<Rightarrow>
          if \<not> isValidPassword password then (s, DRefused wrongPassword)
          else (case loadConfig env s of
              Inl e \<Rightarrow> (s, DRefused e)
            | Inr None \<Rightarrow> (s, DRefused invalidState)
            | Inr (Some config) \<Rightarrow>
                let key = limiterKey sid (cfVaultId config); (t, s1) = readClock env s;
                    retryAfterMs = retryAfter (daLimiter s1) key t
                in if 0 < retryAfterMs then (s1, DRefused (rateLimited retryAfterMs))
                else (case beginCapabilityIssuance env sid s1 of
                   (Inl e, s2) \<Rightarrow> (s2, DRefused e)
                 | (Inr issuance, s2) \<Rightarrow>
                     (addTask (DerivingKey issuance (UnlockRequest p config key)) s2, DPending (daNextTask s2))))
      | _ \<Rightarrow> (s, DRefused wrongPassword))"

text \<open>The \<open>finally\<close> block: the key-encryption key is erased, and the data key unless a capability owns it.\<close>

definition ownedDek :: "nat \<Rightarrow> diary_access \<Rightarrow> bool" where
  "ownedDek b s \<longleftrightarrow> list_ex (\<lambda>(t, c). cpDek c = b) (daCapabilities s)"

definition fillUnowned :: "nat \<Rightarrow> diary_access \<Rightarrow> diary_access" where
  "fillUnowned b s = (if ownedDek b s then s else fillZero b s)"

definition finishRequest ::
    "nat \<Rightarrow> nat option \<Rightarrow> nat option \<Rightarrow> (DiaryAccessServiceError + jsstr \<times> nat) \<Rightarrow> diary_access \<Rightarrow> diary_access \<times> diary_output" where
  "finishRequest i kek dek result s =
     (let s1 = (case kek of None \<Rightarrow> s | Some b \<Rightarrow> fillZero b s);
          s2 = (case dek of None \<Rightarrow> s1 | Some b \<Rightarrow> fillUnowned b s1)
      in (endTask i s2, case result of Inl e \<Rightarrow> DFailed i e | Inr (token, epoch) \<Rightarrow> DIssued i token epoch))"

text \<open>The bytes scrypt derived, turned into the key-encryption key; the intermediate buffer is erased.\<close>

definition allocKek :: "diary_env \<Rightarrow> jsstr \<Rightarrow> nat list \<Rightarrow> diary_access \<Rightarrow> nat \<times> diary_access" where
  "allocKek env password salt s =
     (let derived = aeScrypt (deAuth env) password salt; (b, s1) = allocBuffer derived s;
          (kek, s2) = allocBuffer (kekFrom env derived) s1
      in (kek, fillZero b s2))"

text \<open>The transaction that stores the configuration; the row is checked again inside it.\<close>

definition storeConfig :: "diary_env \<Rightarrow> DiaryAccessRow \<Rightarrow> diary_access \<Rightarrow> DiaryAccessServiceError option \<times> diary_access" where
  "storeConfig env row s =
     (let s1 = s\<lparr>daWrites := Suc (daWrites s)\<rparr> in
      if aeWriteBusy (deAuth env) (daWrites s) then (Some accessUnavailable, s1)
      else if daConfig s1 \<noteq> None then (Some invalidState, s1)
      else (None, s1\<lparr>daConfig := Some row\<rparr>))"

definition setupDerived ::
    "diary_env \<Rightarrow> nat \<Rightarrow> CapabilityIssuance \<Rightarrow> jsstr \<Rightarrow> nat list \<Rightarrow> nat \<Rightarrow> diary_access \<Rightarrow> diary_access \<times> diary_output" where
  "setupDerived env i issuance password salt dek s =
     (let (kek, s1) = allocKek env password salt s; (nonce, s2) = drawBytes env DIARY_ACCESS_NONCE_BYTES s1 in
      case wrapDiaryDek env nonce (daBuffers s2 ! kek) (daBuffers s2 ! dek) (deVaultId env) of
        Inl _ \<Rightarrow> finishRequest i (Some kek) (Some dek) (Inl accessUnavailable) s2
      | Inr wrapped \<Rightarrow>
          (case assertCapabilityIssuanceCurrent env issuance (isLifecycleGeneration issuance) s2 of
             (Some e, s3) \<Rightarrow> finishRequest i (Some kek) (Some dek) (Inl e) s3
           | (None, s3) \<Rightarrow>
               let (t, s4) = readClock env s3 in
               (case storeConfig env (setupRow salt wrapped (deVaultId env) t) s4 of
                  (Some e, s5) \<Rightarrow> finishRequest i (Some kek) (Some dek) (Inl e) s5
                | (None, s5) \<Rightarrow>
                    (enterIssuanceLock i \<lparr>icIssuance = issuance, icVaultId = deVaultId env, icDek = dek, icKek = Some kek,
                       icLimiterKey = None\<rparr> s5, DNothing))))"

text \<open>A wrong password is counted by the limiter, which may turn the answer into a delay.\<close>

definition wrongPasswordResult :: "diary_env \<Rightarrow> nat \<Rightarrow> jsstr \<Rightarrow> diary_access \<Rightarrow> diary_access \<times> diary_output" where
  "wrongPasswordResult env i key s =
     (let (t, s1) = readClock env s; (limiter, failure) = recordFailure (daLimiter s1) key t;
          s2 = s1\<lparr>daLimiter := limiter\<rparr>
      in if 0 < frRetryAfterMs failure then finishRequest i None None (Inl (rateLimited (frRetryAfterMs failure))) s2
         else finishRequest i None None (Inl wrongPassword) s2)"

definition unlockDerived ::
    "diary_env \<Rightarrow> nat \<Rightarrow> CapabilityIssuance \<Rightarrow> jsstr \<Rightarrow> DiaryAccessConfig \<Rightarrow> jsstr \<Rightarrow> diary_access \<Rightarrow> diary_access \<times> diary_output" where
  "unlockDerived env i issuance password config key s =
     (let (kek, s1) = allocKek env password (cfSalt config) s;
          opened = unwrapWith env (daBuffers s1 ! kek) config; s2 = fillZero kek s1
      in case opened of
        Inl _ \<Rightarrow> wrongPasswordResult env i key s2
      | Inr bs \<Rightarrow>
          let (dek, s3) = allocBuffer bs s2 in
          if length bs \<noteq> SCRYPT_KEY_BYTES then finishRequest i None (Some dek) (Inl accessUnavailable) (fillZero dek s3)
          else (enterIssuanceLock i \<lparr>icIssuance = issuance, icVaultId = cfVaultId config, icDek = dek, icKek = None,
                  icLimiterKey = Some key\<rparr> s3, DNothing))"

text \<open>The guard has settled the derivation of a request: with the derived bytes, or by rejecting it.\<close>

definition kdfSettled :: "diary_env \<Rightarrow> nat \<Rightarrow> bool \<Rightarrow> diary_access \<Rightarrow> diary_access \<times> diary_output" where
  "kdfSettled env i derived s =
     (case map_of (daTasks s) i of
        Some (DerivingKey issuance (SetupRequest password salt dek)) \<Rightarrow>
          if \<not> derived \<or> length salt \<noteq> SCRYPT_SALT_BYTES then finishRequest i None (Some dek) (Inl accessUnavailable) s
          else setupDerived env i issuance password salt dek s
      | Some (DerivingKey issuance (UnlockRequest password config key)) \<Rightarrow>
          if \<not> derived \<or> \<not> configLengthsOk config then finishRequest i None None (Inl accessUnavailable) s
          else unlockDerived env i issuance password config key s
      | _ \<Rightarrow> (s, DNothing))"

section \<open>The turns of waiting tasks\<close>

definition drainedQ :: "nat \<Rightarrow> diary_access \<Rightarrow> bool" where
  "drainedQ q s \<longleftrightarrow> q < length (daQuiescenceObjects s) \<and> sqDrained (daQuiescenceObjects s ! q)"

definition completedQ :: "nat \<Rightarrow> diary_access \<Rightarrow> bool" where
  "completedQ q s \<longleftrightarrow> q < length (daQuiescenceObjects s) \<and> sqCompleted (daQuiescenceObjects s ! q)"

text \<open>A task whose promise is not resolved does not move.\<close>

definition continueTask :: "diary_env \<Rightarrow> nat \<Rightarrow> diary_access \<Rightarrow> diary_access \<times> diary_output" where
  "continueTask env i s =
     (case map_of (daTasks s) i of
        Some (AwaitingTurn c ticket) \<Rightarrow> if turnReached ticket s then (issuanceTurn env i c ticket s, DNothing) else (s, DNothing)
      | Some (AwaitingDrained c ticket q permitted) \<Rightarrow>
          if drainedQ q s
          then (setTask i (AwaitingCompleted c ticket q permitted) (finalizeQuiescence (isSessionId (icIssuance c)) q s), DNothing)
          else (s, DNothing)
      | Some (AwaitingCompleted c ticket q permitted) \<Rightarrow>
          if completedQ q s then (replacementTurn env i c ticket permitted s, DNothing) else (s, DNothing)
      | Some (Finishing c result) \<Rightarrow>
          finishRequest i (icKek c) (Some (icDek c)) result
            (case (result, icLimiterKey c) of (Inr _, Some key) \<Rightarrow> s\<lparr>daLimiter := reset (daLimiter s) key\<rparr> | _ \<Rightarrow> s)
      | Some (Quiescing sid q) \<Rightarrow>
          if drainedQ q s then (setTask i (Quiesced sid q) (finalizeQuiescence sid q s), DNothing) else (s, DNothing)
      | Some (Quiesced sid q) \<Rightarrow> if completedQ q s then (endTask i s, DLocked i) else (s, DNothing)
      | _ \<Rightarrow> (s, DNothing))"

text \<open>A call of \<open>lock\<close>; a logout calls \<open>invalidateAuthSession\<close> itself, which ignores what is no session number.\<close>

definition lockAccess :: "int \<Rightarrow> diary_access \<Rightarrow> diary_access \<times> diary_output" where
  "lockAccess sid s =
     (if \<not> isSessionNumber sid then (s, DRefused invalidInput)
      else (invalidateAuthSession sid s, DPending (daNextTask s)))"

text \<open>The callback of a timer; the capability it finds under its token may have been replaced.\<close>

definition timerFires :: "diary_env \<Rightarrow> nat \<Rightarrow> diary_access \<Rightarrow> diary_access" where
  "timerFires env n s =
     (case map_of (daTimers s) n of None \<Rightarrow> s
      | Some (token, _) \<Rightarrow>
          let s1 = s\<lparr>daTimers := mapDelete n (daTimers s)\<rparr> in
          case map_of (daCapabilities s1) token of None \<Rightarrow> s1
          | Some c \<Rightarrow>
              let s2 = s1\<lparr>daCapabilities := mapSet token (c\<lparr>cpTimer := None\<rparr>) (daCapabilities s1)\<rparr>; (t, s3) = readClock env s2
              in if t < cpExpiresAt c then scheduleCapabilityExpiry env token s3
                 else invalidateAuthSession (cpSessionId c) s3)"

section \<open>Presenting a capability\<close>

definition capabilityMatches :: "int \<Rightarrow> Capability \<Rightarrow> DiaryAccessConfig \<Rightarrow> diary_access \<Rightarrow> bool" where
  "capabilityMatches sid c config s \<longleftrightarrow> cpSessionId c = sid \<and> cpVaultId c = cfVaultId config
     \<and> map_of (daSessionEpochs s) sid = Some (cpEpoch c) \<and> length (daBuffers s ! cpDek c) = SCRYPT_KEY_BYTES"

text \<open>Whether a capability found in the map has expired; the session is looked up only if its time has not come.\<close>

definition capabilityExpired :: "diary_env \<Rightarrow> Capability \<Rightarrow> diary_access \<Rightarrow> bool \<times> diary_access" where
  "capabilityExpired env c s =
     (let (t, s1) = readClock env s in
      if cpExpiresAt c \<le> t then (True, s1)
      else let (r, s2) = resolveSession env (cpSessionId c) s1 in (\<not> dsValid r, s2))"

definition presentedOk :: "jsval \<Rightarrow> jsstr option" where
  "presentedOk v = (case v of JStr t \<Rightarrow> if length t < 32 \<or> 128 < length t then None else Some t | _ \<Rightarrow> None)"

definition isCapabilityValidFor :: "diary_env \<Rightarrow> int \<Rightarrow> jsval \<Rightarrow> DiaryAccessConfig option \<Rightarrow> diary_access \<Rightarrow> bool \<times> diary_access" where
  "isCapabilityValidFor env sid presented config s =
     (if quiescing sid s then (False, s)
      else case (config, presentedOk presented) of
        (Some cfg, Some token) \<Rightarrow>
          (case map_of (daCapabilities s) token of None \<Rightarrow> (False, s)
           | Some c \<Rightarrow>
               (case capabilityExpired env c s of
                  (True, s1) \<Rightarrow> (False, invalidateAuthSession (cpSessionId c) s1)
                | (False, s1) \<Rightarrow> (capabilityMatches sid c cfg s1, s1)))
      | _ \<Rightarrow> (False, s))"

definition isCapabilityValid :: "diary_env \<Rightarrow> int \<Rightarrow> jsval \<Rightarrow> diary_access \<Rightarrow> bool \<times> diary_access" where
  "isCapabilityValid env sid presented s =
     isCapabilityValidFor env sid presented (case loadConfig env s of Inl _ \<Rightarrow> None | Inr c \<Rightarrow> c) s"

definition accessStatus :: "diary_env \<Rightarrow> int \<Rightarrow> jsval \<Rightarrow> diary_access \<Rightarrow> diary_access \<times> diary_output" where
  "accessStatus env sid presented s =
     (if \<not> isSessionNumber sid then (s, DRefused invalidInput)
      else case loadConfig env s of
        Inl e \<Rightarrow> (s, DRefused e)
      | Inr None \<Rightarrow> (s, DStatus UNINITIALIZED None)
      | Inr (Some config) \<Rightarrow>
          (case isCapabilityValidFor env sid presented (Some config) s of
             (True, s1) \<Rightarrow> (s1, DStatus UNLOCKED (case presented of
                JStr t \<Rightarrow> map_option cpEpoch (map_of (daCapabilities s1) t) | _ \<Rightarrow> None))
           | (False, s1) \<Rightarrow> (s1, DStatus LOCKED None)))"

section \<open>Body operations\<close>

text \<open>\<open>withBodyOperation\<close> up to its callback: a lease on the capability, or \<open>null\<close>.\<close>

definition beginBodyOperation :: "diary_env \<Rightarrow> int \<Rightarrow> jsval \<Rightarrow> diary_access \<Rightarrow> diary_access \<times> diary_output" where
  "beginBodyOperation env sid presented s =
     (case isCapabilityValid env sid presented s of
        (False, s1) \<Rightarrow> (s1, DNoAccess)
      | (True, s1) \<Rightarrow>
          (case presented of
             JStr token \<Rightarrow>
               (case map_of (daCapabilities s1) token of None \<Rightarrow> (s1, DNoAccess)
                | Some c \<Rightarrow>
                    let s2 = s1\<lparr>daActive := mapSet sid (Suc (countOf (daActive s1) sid)) (daActive s1)\<rparr> in
                    (addTask (BodyOperation \<lparr>blSessionId = sid, blToken = token, blCapability = cpRequest c, blEpoch = cpEpoch c,
                       blDek = cpDek c, blReads = []\<rparr>) s2, DPending (daNextTask s2)))
           | _ \<Rightarrow> (s1, DNoAccess)))"

definition isCurrent :: "body_lease \<Rightarrow> diary_access \<Rightarrow> bool" where
  "isCurrent l s \<longleftrightarrow>
     (case map_of (daQuiescences s) (blSessionId l) of None \<Rightarrow> True | Some q \<Rightarrow> \<not> sqFinalized (daQuiescenceObjects s ! q))
     \<and> (case map_of (daCapabilities s) (blToken l) of None \<Rightarrow> False
        | Some c \<Rightarrow> cpRequest c = blCapability l \<and> cpEpoch c = blEpoch l)"

text \<open>A callback's use of its lease; a lease that has ended is no task any more.\<close>

definition withLease :: "nat \<Rightarrow> (body_lease \<Rightarrow> diary_access \<times> diary_output) \<Rightarrow> diary_access \<Rightarrow> diary_access \<times> diary_output" where
  "withLease i f s =
     (case map_of (daTasks s) i of
        Some (BodyOperation l) \<Rightarrow> if isCurrent l s then f l else (s, DStale invalidState)
      | _ \<Rightarrow> (s, DStale invalidState))"

definition bodyEncrypt :: "diary_env \<Rightarrow> nat \<Rightarrow> jsstr \<Rightarrow> BodyContext \<Rightarrow> diary_access \<Rightarrow> diary_access \<times> diary_output" where
  "bodyEncrypt env i raw ctx s = withLease i (\<lambda>l.
     let key = daBuffers s ! blDek l in
     if \<not> bodyAccepted raw key then (s, DSealed (encryptDiaryBody env [] raw ctx key))
     else let (nonce, s1) = drawBytes env DIARY_BODY_NONCE_BYTES s in (s1, DSealed (encryptDiaryBody env nonce raw ctx key))) s"

definition bodyDecrypt :: "diary_env \<Rightarrow> nat \<Rightarrow> nat list \<Rightarrow> BodyContext \<Rightarrow> diary_access \<Rightarrow> diary_access \<times> diary_output" where
  "bodyDecrypt env i bytes ctx s = withLease i (\<lambda>l. (s, DRead (decryptDiaryBody env bytes ctx (daBuffers s ! blDek l)))) s"

text \<open>\<open>read\<close> asserts, waits for the file, and asserts again; the key is the buffer as it is when the file has come.\<close>

definition bodyReadStart :: "nat \<Rightarrow> BodyContext \<Rightarrow> diary_access \<Rightarrow> diary_access \<times> diary_output" where
  "bodyReadStart i ctx s = withLease i (\<lambda>l.
     (setTask i (BodyOperation (l\<lparr>blReads := blReads l @ [ctx]\<rparr>)) s, DPending (length (blReads l)))) s"

definition bodyReadEnd :: "diary_env \<Rightarrow> nat \<Rightarrow> nat \<Rightarrow> nat list \<Rightarrow> nat list \<Rightarrow> diary_access \<Rightarrow> diary_access \<times> diary_output" where
  "bodyReadEnd env i k bytes second s =
     (case map_of (daTasks s) i of
        Some (BodyOperation l) \<Rightarrow>
          if length (blReads l) \<le> k then (s, DNothing)
          else (case readDiaryBody env bytes second (blReads l ! k) (daBuffers s ! blDek l) of
              Inl e \<Rightarrow> (s, DRead (Inl e))
            | Inr r \<Rightarrow> if isCurrent l s then (s, DRead (Inr r)) else (s, DStale invalidState))
      | _ \<Rightarrow> (s, DStale invalidState))"

definition endBodyOperation :: "nat \<Rightarrow> diary_access \<Rightarrow> diary_access \<times> diary_output" where
  "endBodyOperation i s =
     (case map_of (daTasks s) i of
        Some (BodyOperation l) \<Rightarrow> (releaseBodyOperation (blSessionId l) (endTask i s), DNothing)
      | _ \<Rightarrow> (s, DNothing))"

section \<open>Histories\<close>

datatype diary_event =
    Setup int jsval
  | Unlock int jsval
  | Lock int
  | Invalidate int
  | KdfSettled nat bool
  | Continue nat
  | TimerFires nat
  | Status int jsval
  | Present int jsval
  | BodyBegin int jsval
  | BodyEncrypt nat jsstr BodyContext
  | BodyDecrypt nat "nat list" BodyContext
  | BodyReadStart nat BodyContext
  | BodyReadEnd nat nat "nat list" "nat list"
  | BodyEnd nat

fun diary_step :: "diary_env \<Rightarrow> diary_event \<Rightarrow> diary_access \<Rightarrow> diary_access \<times> diary_output" where
  "diary_step env (Setup sid password) s = setupAccess env sid password s"
| "diary_step env (Unlock sid password) s = unlockAccess env sid password s"
| "diary_step env (Lock sid) s = lockAccess sid s"
| "diary_step env (Invalidate sid) s = (invalidateAuthSession sid s, DPending (daNextTask s))"
| "diary_step env (KdfSettled i derived) s = kdfSettled env i derived s"
| "diary_step env (Continue i) s = continueTask env i s"
| "diary_step env (TimerFires n) s = (timerFires env n s, DNothing)"
| "diary_step env (Status sid v) s = accessStatus env sid v s"
| "diary_step env (Present sid v) s = (case isCapabilityValid env sid v s of (b, t) \<Rightarrow> (t, DAccess b))"
| "diary_step env (BodyBegin sid v) s = beginBodyOperation env sid v s"
| "diary_step env (BodyEncrypt i raw ctx) s = bodyEncrypt env i raw ctx s"
| "diary_step env (BodyDecrypt i bytes ctx) s = bodyDecrypt env i bytes ctx s"
| "diary_step env (BodyReadStart i ctx) s = bodyReadStart i ctx s"
| "diary_step env (BodyReadEnd i k bytes second) s = bodyReadEnd env i k bytes second s"
| "diary_step env (BodyEnd i) s = endBodyOperation i s"

fun diary_run :: "diary_env \<Rightarrow> diary_event list \<Rightarrow> diary_access \<Rightarrow> diary_access \<times> diary_output list" where
  "diary_run env [] s = (s, [])"
| "diary_run env (e # es) s =
     (let (t, out) = diary_step env e s; (u, outs) = diary_run env es t in (u, out # outs))"

interpretation dm: event_system "diary_step env" "diary_run env" for env
  by unfold_locales simp_all

end
