(* ===== verification/DiaryFrame.thy ===== *)
theory DiaryFrame
  imports DiaryAccess
begin

text \<open>
  What each operation of the diary service leaves alone, and what the operations that end a session do to
  capabilities, buffers and timers.
\<close>

section \<open>Fields an operation does not touch\<close>

lemma fillZero_fields [simp]:
    "daConfig (fillZero b s) = daConfig s" "daLimiter (fillZero b s) = daLimiter s"
    "daSessionEpochs (fillZero b s) = daSessionEpochs s" "daCapabilities (fillZero b s) = daCapabilities s"
    "daActive (fillZero b s) = daActive s" "daQuiescences (fillZero b s) = daQuiescences s"
    "daGenerations (fillZero b s) = daGenerations s" "daSequences (fillZero b s) = daSequences s"
    "daIssuanceTails (fillZero b s) = daIssuanceTails s" "daQuiescenceObjects (fillZero b s) = daQuiescenceObjects s"
    "daTailObjects (fillZero b s) = daTailObjects s" "daTimers (fillZero b s) = daTimers s"
    "daTasks (fillZero b s) = daTasks s" "daNextTask (fillZero b s) = daNextTask s"
    "daNextTimer (fillZero b s) = daNextTimer s" "daClock (fillZero b s) = daClock s"
    "daDraws (fillZero b s) = daDraws s" "daResolves (fillZero b s) = daResolves s"
    "daWrites (fillZero b s) = daWrites s"
  by (simp_all add: fillZero_def)

lemma clearTimer_fields [simp]:
    "daConfig (clearTimer t s) = daConfig s" "daLimiter (clearTimer t s) = daLimiter s"
    "daSessionEpochs (clearTimer t s) = daSessionEpochs s" "daCapabilities (clearTimer t s) = daCapabilities s"
    "daActive (clearTimer t s) = daActive s" "daQuiescences (clearTimer t s) = daQuiescences s"
    "daGenerations (clearTimer t s) = daGenerations s" "daSequences (clearTimer t s) = daSequences s"
    "daIssuanceTails (clearTimer t s) = daIssuanceTails s"
    "daQuiescenceObjects (clearTimer t s) = daQuiescenceObjects s" "daTailObjects (clearTimer t s) = daTailObjects s"
    "daBuffers (clearTimer t s) = daBuffers s" "daTasks (clearTimer t s) = daTasks s"
    "daNextTask (clearTimer t s) = daNextTask s" "daNextTimer (clearTimer t s) = daNextTimer s"
    "daClock (clearTimer t s) = daClock s" "daDraws (clearTimer t s) = daDraws s"
    "daResolves (clearTimer t s) = daResolves s" "daWrites (clearTimer t s) = daWrites s"
  by (simp_all add: clearTimer_def split: option.split)

lemma dropCapability_fields [simp]:
    "daConfig (dropCapability t s) = daConfig s" "daLimiter (dropCapability t s) = daLimiter s"
    "daSessionEpochs (dropCapability t s) = daSessionEpochs s" "daActive (dropCapability t s) = daActive s"
    "daQuiescences (dropCapability t s) = daQuiescences s" "daGenerations (dropCapability t s) = daGenerations s"
    "daSequences (dropCapability t s) = daSequences s" "daIssuanceTails (dropCapability t s) = daIssuanceTails s"
    "daQuiescenceObjects (dropCapability t s) = daQuiescenceObjects s"
    "daTailObjects (dropCapability t s) = daTailObjects s" "daTasks (dropCapability t s) = daTasks s"
    "daNextTask (dropCapability t s) = daNextTask s" "daNextTimer (dropCapability t s) = daNextTimer s"
    "daClock (dropCapability t s) = daClock s" "daDraws (dropCapability t s) = daDraws s"
    "daResolves (dropCapability t s) = daResolves s" "daWrites (dropCapability t s) = daWrites s"
  by (simp_all add: dropCapability_def split: option.split)

lemma drops_fields [simp]:
    "daConfig (fold dropCapability ts s) = daConfig s" "daLimiter (fold dropCapability ts s) = daLimiter s"
    "daSessionEpochs (fold dropCapability ts s) = daSessionEpochs s" "daActive (fold dropCapability ts s) = daActive s"
    "daQuiescences (fold dropCapability ts s) = daQuiescences s"
    "daGenerations (fold dropCapability ts s) = daGenerations s"
    "daSequences (fold dropCapability ts s) = daSequences s"
    "daIssuanceTails (fold dropCapability ts s) = daIssuanceTails s"
    "daQuiescenceObjects (fold dropCapability ts s) = daQuiescenceObjects s"
    "daTailObjects (fold dropCapability ts s) = daTailObjects s" "daTasks (fold dropCapability ts s) = daTasks s"
    "daNextTask (fold dropCapability ts s) = daNextTask s" "daNextTimer (fold dropCapability ts s) = daNextTimer s"
    "daClock (fold dropCapability ts s) = daClock s" "daDraws (fold dropCapability ts s) = daDraws s"
    "daResolves (fold dropCapability ts s) = daResolves s" "daWrites (fold dropCapability ts s) = daWrites s"
  by (induction ts arbitrary: s) simp_all

lemma dropSession_fields [simp]:
    "daConfig (dropSessionCapabilities sid s) = daConfig s" "daLimiter (dropSessionCapabilities sid s) = daLimiter s"
    "daSessionEpochs (dropSessionCapabilities sid s) = daSessionEpochs s"
    "daActive (dropSessionCapabilities sid s) = daActive s"
    "daQuiescences (dropSessionCapabilities sid s) = daQuiescences s"
    "daGenerations (dropSessionCapabilities sid s) = daGenerations s"
    "daSequences (dropSessionCapabilities sid s) = daSequences s"
    "daIssuanceTails (dropSessionCapabilities sid s) = daIssuanceTails s"
    "daQuiescenceObjects (dropSessionCapabilities sid s) = daQuiescenceObjects s"
    "daTailObjects (dropSessionCapabilities sid s) = daTailObjects s"
    "daTasks (dropSessionCapabilities sid s) = daTasks s" "daNextTask (dropSessionCapabilities sid s) = daNextTask s"
    "daNextTimer (dropSessionCapabilities sid s) = daNextTimer s" "daClock (dropSessionCapabilities sid s) = daClock s"
    "daDraws (dropSessionCapabilities sid s) = daDraws s" "daResolves (dropSessionCapabilities sid s) = daResolves s"
    "daWrites (dropSessionCapabilities sid s) = daWrites s"
  by (simp_all add: dropSessionCapabilities_def)

lemma bump_fields [simp]:
    "daConfig (bumpLifecycleGeneration sid s) = daConfig s" "daLimiter (bumpLifecycleGeneration sid s) = daLimiter s"
    "daSessionEpochs (bumpLifecycleGeneration sid s) = daSessionEpochs s"
    "daCapabilities (bumpLifecycleGeneration sid s) = daCapabilities s"
    "daActive (bumpLifecycleGeneration sid s) = daActive s"
    "daQuiescences (bumpLifecycleGeneration sid s) = daQuiescences s"
    "daSequences (bumpLifecycleGeneration sid s) = daSequences s"
    "daIssuanceTails (bumpLifecycleGeneration sid s) = daIssuanceTails s"
    "daQuiescenceObjects (bumpLifecycleGeneration sid s) = daQuiescenceObjects s"
    "daTailObjects (bumpLifecycleGeneration sid s) = daTailObjects s"
    "daBuffers (bumpLifecycleGeneration sid s) = daBuffers s" "daTimers (bumpLifecycleGeneration sid s) = daTimers s"
    "daTasks (bumpLifecycleGeneration sid s) = daTasks s" "daNextTask (bumpLifecycleGeneration sid s) = daNextTask s"
    "daNextTimer (bumpLifecycleGeneration sid s) = daNextTimer s" "daClock (bumpLifecycleGeneration sid s) = daClock s"
    "daDraws (bumpLifecycleGeneration sid s) = daDraws s" "daResolves (bumpLifecycleGeneration sid s) = daResolves s"
    "daWrites (bumpLifecycleGeneration sid s) = daWrites s"
  by (simp_all add: bumpLifecycleGeneration_def)

lemma beginQuiescence_fields [simp]:
    "daConfig (snd (beginQuiescence sid s)) = daConfig s" "daLimiter (snd (beginQuiescence sid s)) = daLimiter s"
    "daSessionEpochs (snd (beginQuiescence sid s)) = daSessionEpochs s"
    "daCapabilities (snd (beginQuiescence sid s)) = daCapabilities s"
    "daActive (snd (beginQuiescence sid s)) = daActive s"
    "daGenerations (snd (beginQuiescence sid s)) = daGenerations s"
    "daSequences (snd (beginQuiescence sid s)) = daSequences s"
    "daIssuanceTails (snd (beginQuiescence sid s)) = daIssuanceTails s"
    "daTailObjects (snd (beginQuiescence sid s)) = daTailObjects s"
    "daBuffers (snd (beginQuiescence sid s)) = daBuffers s" "daTimers (snd (beginQuiescence sid s)) = daTimers s"
    "daTasks (snd (beginQuiescence sid s)) = daTasks s" "daNextTask (snd (beginQuiescence sid s)) = daNextTask s"
    "daNextTimer (snd (beginQuiescence sid s)) = daNextTimer s" "daClock (snd (beginQuiescence sid s)) = daClock s"
    "daDraws (snd (beginQuiescence sid s)) = daDraws s" "daResolves (snd (beginQuiescence sid s)) = daResolves s"
    "daWrites (snd (beginQuiescence sid s)) = daWrites s"
  by (simp_all add: beginQuiescence_def split: option.split)

lemma beginInvalidation_fields [simp]:
    "daConfig (snd (beginSessionInvalidation sid s)) = daConfig s"
    "daLimiter (snd (beginSessionInvalidation sid s)) = daLimiter s"
    "daSessionEpochs (snd (beginSessionInvalidation sid s)) = daSessionEpochs s"
    "daCapabilities (snd (beginSessionInvalidation sid s)) = daCapabilities s"
    "daActive (snd (beginSessionInvalidation sid s)) = daActive s"
    "daSequences (snd (beginSessionInvalidation sid s)) = daSequences s"
    "daIssuanceTails (snd (beginSessionInvalidation sid s)) = daIssuanceTails s"
    "daTailObjects (snd (beginSessionInvalidation sid s)) = daTailObjects s"
    "daBuffers (snd (beginSessionInvalidation sid s)) = daBuffers s"
    "daTimers (snd (beginSessionInvalidation sid s)) = daTimers s"
    "daTasks (snd (beginSessionInvalidation sid s)) = daTasks s"
    "daNextTask (snd (beginSessionInvalidation sid s)) = daNextTask s"
    "daNextTimer (snd (beginSessionInvalidation sid s)) = daNextTimer s"
    "daClock (snd (beginSessionInvalidation sid s)) = daClock s"
    "daDraws (snd (beginSessionInvalidation sid s)) = daDraws s"
    "daResolves (snd (beginSessionInvalidation sid s)) = daResolves s"
    "daWrites (snd (beginSessionInvalidation sid s)) = daWrites s"
  by (simp_all add: beginSessionInvalidation_def)

lemma finalize_fields [simp]:
    "daConfig (finalizeQuiescence sid q s) = daConfig s" "daLimiter (finalizeQuiescence sid q s) = daLimiter s"
    "daActive (finalizeQuiescence sid q s) = daActive s" "daGenerations (finalizeQuiescence sid q s) = daGenerations s"
    "daSequences (finalizeQuiescence sid q s) = daSequences s"
    "daIssuanceTails (finalizeQuiescence sid q s) = daIssuanceTails s"
    "daTailObjects (finalizeQuiescence sid q s) = daTailObjects s" "daTasks (finalizeQuiescence sid q s) = daTasks s"
    "daNextTask (finalizeQuiescence sid q s) = daNextTask s" "daNextTimer (finalizeQuiescence sid q s) = daNextTimer s"
    "daClock (finalizeQuiescence sid q s) = daClock s" "daDraws (finalizeQuiescence sid q s) = daDraws s"
    "daResolves (finalizeQuiescence sid q s) = daResolves s" "daWrites (finalizeQuiescence sid q s) = daWrites s"
  by (simp_all add: finalizeQuiescence_def Let_def)

lemma invalidate_fields [simp]:
    "daConfig (invalidateAuthSession sid s) = daConfig s" "daLimiter (invalidateAuthSession sid s) = daLimiter s"
    "daSessionEpochs (invalidateAuthSession sid s) = daSessionEpochs s"
    "daCapabilities (invalidateAuthSession sid s) = daCapabilities s"
    "daActive (invalidateAuthSession sid s) = daActive s" "daSequences (invalidateAuthSession sid s) = daSequences s"
    "daIssuanceTails (invalidateAuthSession sid s) = daIssuanceTails s"
    "daTailObjects (invalidateAuthSession sid s) = daTailObjects s"
    "daBuffers (invalidateAuthSession sid s) = daBuffers s" "daTimers (invalidateAuthSession sid s) = daTimers s"
    "daNextTimer (invalidateAuthSession sid s) = daNextTimer s" "daClock (invalidateAuthSession sid s) = daClock s"
    "daDraws (invalidateAuthSession sid s) = daDraws s" "daResolves (invalidateAuthSession sid s) = daResolves s"
    "daWrites (invalidateAuthSession sid s) = daWrites s"
  by (simp_all add: invalidateAuthSession_def addTask_def Let_def split: prod.split) (metis beginInvalidation_fields snd_conv)+

lemma release_fields [simp]:
    "daConfig (releaseBodyOperation sid s) = daConfig s" "daLimiter (releaseBodyOperation sid s) = daLimiter s"
    "daSessionEpochs (releaseBodyOperation sid s) = daSessionEpochs s"
    "daCapabilities (releaseBodyOperation sid s) = daCapabilities s"
    "daQuiescences (releaseBodyOperation sid s) = daQuiescences s"
    "daGenerations (releaseBodyOperation sid s) = daGenerations s"
    "daSequences (releaseBodyOperation sid s) = daSequences s"
    "daIssuanceTails (releaseBodyOperation sid s) = daIssuanceTails s"
    "daTailObjects (releaseBodyOperation sid s) = daTailObjects s"
    "daBuffers (releaseBodyOperation sid s) = daBuffers s" "daTimers (releaseBodyOperation sid s) = daTimers s"
    "daTasks (releaseBodyOperation sid s) = daTasks s" "daNextTask (releaseBodyOperation sid s) = daNextTask s"
    "daNextTimer (releaseBodyOperation sid s) = daNextTimer s" "daClock (releaseBodyOperation sid s) = daClock s"
    "daDraws (releaseBodyOperation sid s) = daDraws s" "daResolves (releaseBodyOperation sid s) = daResolves s"
    "daWrites (releaseBodyOperation sid s) = daWrites s"
  by (simp_all add: releaseBodyOperation_def Let_def split: option.split)

lemma releaseLock_fields [simp]:
    "daConfig (releaseIssuanceLock sid t s) = daConfig s" "daLimiter (releaseIssuanceLock sid t s) = daLimiter s"
    "daSessionEpochs (releaseIssuanceLock sid t s) = daSessionEpochs s"
    "daCapabilities (releaseIssuanceLock sid t s) = daCapabilities s"
    "daActive (releaseIssuanceLock sid t s) = daActive s"
    "daQuiescences (releaseIssuanceLock sid t s) = daQuiescences s"
    "daGenerations (releaseIssuanceLock sid t s) = daGenerations s"
    "daSequences (releaseIssuanceLock sid t s) = daSequences s"
    "daQuiescenceObjects (releaseIssuanceLock sid t s) = daQuiescenceObjects s"
    "daBuffers (releaseIssuanceLock sid t s) = daBuffers s" "daTimers (releaseIssuanceLock sid t s) = daTimers s"
    "daTasks (releaseIssuanceLock sid t s) = daTasks s" "daNextTask (releaseIssuanceLock sid t s) = daNextTask s"
    "daNextTimer (releaseIssuanceLock sid t s) = daNextTimer s" "daClock (releaseIssuanceLock sid t s) = daClock s"
    "daDraws (releaseIssuanceLock sid t s) = daDraws s" "daResolves (releaseIssuanceLock sid t s) = daResolves s"
    "daWrites (releaseIssuanceLock sid t s) = daWrites s"
  by (simp_all add: releaseIssuanceLock_def Let_def)

lemma addTask_fields [simp]:
    "daConfig (addTask w s) = daConfig s" "daLimiter (addTask w s) = daLimiter s"
    "daSessionEpochs (addTask w s) = daSessionEpochs s" "daCapabilities (addTask w s) = daCapabilities s"
    "daActive (addTask w s) = daActive s" "daQuiescences (addTask w s) = daQuiescences s"
    "daGenerations (addTask w s) = daGenerations s" "daSequences (addTask w s) = daSequences s"
    "daIssuanceTails (addTask w s) = daIssuanceTails s" "daQuiescenceObjects (addTask w s) = daQuiescenceObjects s"
    "daTailObjects (addTask w s) = daTailObjects s" "daBuffers (addTask w s) = daBuffers s"
    "daTimers (addTask w s) = daTimers s" "daNextTimer (addTask w s) = daNextTimer s"
    "daClock (addTask w s) = daClock s" "daDraws (addTask w s) = daDraws s" "daResolves (addTask w s) = daResolves s"
    "daWrites (addTask w s) = daWrites s"
  by (simp_all add: addTask_def)

lemma setTask_fields [simp]:
    "daConfig (setTask i w s) = daConfig s" "daLimiter (setTask i w s) = daLimiter s"
    "daSessionEpochs (setTask i w s) = daSessionEpochs s" "daCapabilities (setTask i w s) = daCapabilities s"
    "daActive (setTask i w s) = daActive s" "daQuiescences (setTask i w s) = daQuiescences s"
    "daGenerations (setTask i w s) = daGenerations s" "daSequences (setTask i w s) = daSequences s"
    "daIssuanceTails (setTask i w s) = daIssuanceTails s" "daQuiescenceObjects (setTask i w s) = daQuiescenceObjects s"
    "daTailObjects (setTask i w s) = daTailObjects s" "daBuffers (setTask i w s) = daBuffers s"
    "daTimers (setTask i w s) = daTimers s" "daNextTask (setTask i w s) = daNextTask s"
    "daNextTimer (setTask i w s) = daNextTimer s" "daClock (setTask i w s) = daClock s"
    "daDraws (setTask i w s) = daDraws s" "daResolves (setTask i w s) = daResolves s"
    "daWrites (setTask i w s) = daWrites s"
  by (simp_all add: setTask_def)

lemma endTask_fields [simp]:
    "daConfig (endTask i s) = daConfig s" "daLimiter (endTask i s) = daLimiter s"
    "daSessionEpochs (endTask i s) = daSessionEpochs s" "daCapabilities (endTask i s) = daCapabilities s"
    "daActive (endTask i s) = daActive s" "daQuiescences (endTask i s) = daQuiescences s"
    "daGenerations (endTask i s) = daGenerations s" "daSequences (endTask i s) = daSequences s"
    "daIssuanceTails (endTask i s) = daIssuanceTails s" "daQuiescenceObjects (endTask i s) = daQuiescenceObjects s"
    "daTailObjects (endTask i s) = daTailObjects s" "daBuffers (endTask i s) = daBuffers s"
    "daTimers (endTask i s) = daTimers s" "daNextTask (endTask i s) = daNextTask s"
    "daNextTimer (endTask i s) = daNextTimer s" "daClock (endTask i s) = daClock s" "daDraws (endTask i s) = daDraws s"
    "daResolves (endTask i s) = daResolves s" "daWrites (endTask i s) = daWrites s"
  by (simp_all add: endTask_def)

lemma fillUnowned_fields [simp]:
    "daConfig (fillUnowned b s) = daConfig s" "daLimiter (fillUnowned b s) = daLimiter s"
    "daSessionEpochs (fillUnowned b s) = daSessionEpochs s" "daCapabilities (fillUnowned b s) = daCapabilities s"
    "daActive (fillUnowned b s) = daActive s" "daQuiescences (fillUnowned b s) = daQuiescences s"
    "daGenerations (fillUnowned b s) = daGenerations s" "daSequences (fillUnowned b s) = daSequences s"
    "daIssuanceTails (fillUnowned b s) = daIssuanceTails s"
    "daQuiescenceObjects (fillUnowned b s) = daQuiescenceObjects s" "daTailObjects (fillUnowned b s) = daTailObjects s"
    "daTimers (fillUnowned b s) = daTimers s" "daTasks (fillUnowned b s) = daTasks s"
    "daNextTask (fillUnowned b s) = daNextTask s" "daNextTimer (fillUnowned b s) = daNextTimer s"
    "daClock (fillUnowned b s) = daClock s" "daDraws (fillUnowned b s) = daDraws s"
    "daResolves (fillUnowned b s) = daResolves s" "daWrites (fillUnowned b s) = daWrites s"
  by (simp_all add: fillUnowned_def)

lemma enterLock_fields [simp]:
    "daConfig (enterIssuanceLock i c s) = daConfig s" "daLimiter (enterIssuanceLock i c s) = daLimiter s"
    "daSessionEpochs (enterIssuanceLock i c s) = daSessionEpochs s"
    "daCapabilities (enterIssuanceLock i c s) = daCapabilities s" "daActive (enterIssuanceLock i c s) = daActive s"
    "daQuiescences (enterIssuanceLock i c s) = daQuiescences s"
    "daGenerations (enterIssuanceLock i c s) = daGenerations s" "daSequences (enterIssuanceLock i c s) = daSequences s"
    "daQuiescenceObjects (enterIssuanceLock i c s) = daQuiescenceObjects s"
    "daBuffers (enterIssuanceLock i c s) = daBuffers s" "daTimers (enterIssuanceLock i c s) = daTimers s"
    "daNextTask (enterIssuanceLock i c s) = daNextTask s" "daNextTimer (enterIssuanceLock i c s) = daNextTimer s"
    "daClock (enterIssuanceLock i c s) = daClock s" "daDraws (enterIssuanceLock i c s) = daDraws s"
    "daResolves (enterIssuanceLock i c s) = daResolves s" "daWrites (enterIssuanceLock i c s) = daWrites s"
  by (simp_all add: enterIssuanceLock_def Let_def)

lemma leave_fields [simp]:
    "daConfig (leaveIssuance i c t r s) = daConfig s" "daLimiter (leaveIssuance i c t r s) = daLimiter s"
    "daSessionEpochs (leaveIssuance i c t r s) = daSessionEpochs s"
    "daCapabilities (leaveIssuance i c t r s) = daCapabilities s" "daActive (leaveIssuance i c t r s) = daActive s"
    "daQuiescences (leaveIssuance i c t r s) = daQuiescences s"
    "daGenerations (leaveIssuance i c t r s) = daGenerations s" "daSequences (leaveIssuance i c t r s) = daSequences s"
    "daQuiescenceObjects (leaveIssuance i c t r s) = daQuiescenceObjects s"
    "daBuffers (leaveIssuance i c t r s) = daBuffers s" "daTimers (leaveIssuance i c t r s) = daTimers s"
    "daNextTask (leaveIssuance i c t r s) = daNextTask s" "daNextTimer (leaveIssuance i c t r s) = daNextTimer s"
    "daClock (leaveIssuance i c t r s) = daClock s" "daDraws (leaveIssuance i c t r s) = daDraws s"
    "daResolves (leaveIssuance i c t r s) = daResolves s" "daWrites (leaveIssuance i c t r s) = daWrites s"
  by (simp_all add: leaveIssuance_def)

lemma schedule_fields [simp]:
    "daConfig (scheduleCapabilityExpiry env t s) = daConfig s"
    "daLimiter (scheduleCapabilityExpiry env t s) = daLimiter s"
    "daSessionEpochs (scheduleCapabilityExpiry env t s) = daSessionEpochs s"
    "daActive (scheduleCapabilityExpiry env t s) = daActive s"
    "daQuiescences (scheduleCapabilityExpiry env t s) = daQuiescences s"
    "daGenerations (scheduleCapabilityExpiry env t s) = daGenerations s"
    "daSequences (scheduleCapabilityExpiry env t s) = daSequences s"
    "daIssuanceTails (scheduleCapabilityExpiry env t s) = daIssuanceTails s"
    "daQuiescenceObjects (scheduleCapabilityExpiry env t s) = daQuiescenceObjects s"
    "daTailObjects (scheduleCapabilityExpiry env t s) = daTailObjects s"
    "daTasks (scheduleCapabilityExpiry env t s) = daTasks s"
    "daNextTask (scheduleCapabilityExpiry env t s) = daNextTask s"
    "daDraws (scheduleCapabilityExpiry env t s) = daDraws s"
    "daResolves (scheduleCapabilityExpiry env t s) = daResolves s"
    "daWrites (scheduleCapabilityExpiry env t s) = daWrites s"
  by (simp_all add: scheduleCapabilityExpiry_def setCapabilityTimer_def readClock_def Let_def split: option.split)


section \<open>Maps\<close>

declare map_of_mapSet [simp] map_of_mapDelete [simp]

lemma countOf_mapSet [simp]: "countOf (mapSet k n m) j = (if j = k then n else countOf m j)"
  by (simp add: countOf_def)

lemma countOf_mapDelete [simp]: "countOf (mapDelete k m) j = (if j = k then 0 else countOf m j)"
  by (simp add: countOf_def)

lemma distinct_mapSet [simp]: "distinct (mapKeys m) \<Longrightarrow> distinct (mapKeys (mapSet k v m))"
  by (rule jm.distinct_put)

lemma distinct_mapDelete [simp]: "distinct (mapKeys m) \<Longrightarrow> distinct (mapKeys (mapDelete k m))"
  by (rule jm.distinct_del)

lemma map_of_pairs: "distinct (mapKeys m) \<Longrightarrow> (k, v) \<in> set m \<longleftrightarrow> map_of m k = Some v"
  by (simp add: mapKeys_def)

lemma list_ex_map_of: "distinct (mapKeys m) \<Longrightarrow> list_ex (\<lambda>(k, v). P v) m \<longleftrightarrow> (\<exists>k v. map_of m k = Some v \<and> P v)"
  by (auto simp: list_ex_iff map_of_pairs [symmetric])

lemma taskAdd [simp]: "map_of (daTasks (addTask w s)) = (map_of (daTasks s))(daNextTask s \<mapsto> w)" "daNextTask (addTask w s) = Suc (daNextTask s)"
  by (simp_all add: addTask_def)

lemma taskSet [simp]: "map_of (daTasks (setTask i w s)) = (map_of (daTasks s))(i \<mapsto> w)"
  by (simp add: setTask_def)

lemma taskEnd [simp]: "map_of (daTasks (endTask i s)) = (map_of (daTasks s))(i := None)"
  by (simp add: endTask_def)

lemma taskEnter [simp]: "map_of (daTasks (enterIssuanceLock i c s)) = (map_of (daTasks s))(i \<mapsto> AwaitingTurn c (length (daTailObjects s)))"
  by (simp add: enterIssuanceLock_def Let_def)

lemma taskLeave [simp]: "map_of (daTasks (leaveIssuance i c t r s)) = (map_of (daTasks s))(i \<mapsto> Finishing c r)"
  by (simp add: leaveIssuance_def)

section \<open>Beginning and ending a quiescence\<close>

lemma begin_generations [simp]:
  "daGenerations (snd (beginSessionInvalidation sid s)) = mapSet sid (Suc (countOf (daGenerations s) sid)) (daGenerations s)"
  by (simp add: beginSessionInvalidation_def beginQuiescence_def bumpLifecycleGeneration_def split: option.split)

lemma begin_map: "map_of (daQuiescences (snd (beginSessionInvalidation sid s)))
    = (map_of (daQuiescences s))(sid \<mapsto> fst (beginSessionInvalidation sid s))"
  by (auto simp: beginSessionInvalidation_def beginQuiescence_def fun_eq_iff split: option.split)

lemma begin_known: "map_of (daQuiescences s) sid = Some q \<Longrightarrow>
    fst (beginSessionInvalidation sid s) = q \<and> daQuiescenceObjects (snd (beginSessionInvalidation sid s)) = daQuiescenceObjects s"
  by (simp add: beginSessionInvalidation_def beginQuiescence_def)

lemma begin_new: "map_of (daQuiescences s) sid = None \<Longrightarrow>
    fst (beginSessionInvalidation sid s) = length (daQuiescenceObjects s) \<and>
    daQuiescenceObjects (snd (beginSessionInvalidation sid s)) = daQuiescenceObjects s @
      [\<lparr>sqDrained = (countOf (daActive s) sid = 0), sqCompleted = False, sqFinalized = False\<rparr>]"
  by (simp add: beginSessionInvalidation_def beginQuiescence_def)

lemma begin_quiescing: "quiescing a (snd (beginSessionInvalidation sid s)) \<longleftrightarrow> a = sid \<or> quiescing a s"
  by (simp add: quiescing_def begin_map)

lemma invalidate_unfold: "isSessionNumber sid \<Longrightarrow> invalidateAuthSession sid s
    = addTask (Quiescing sid (fst (beginSessionInvalidation sid s))) (snd (beginSessionInvalidation sid s))"
  by (simp add: invalidateAuthSession_def split_def Let_def)

lemma invalidate_none: "\<not> isSessionNumber sid \<Longrightarrow> invalidateAuthSession sid s = s"
  by (simp add: invalidateAuthSession_def)

lemma finalize_cases:
  obtains (ended) "map_of (daQuiescences s) sid = Some q" "\<not> sqFinalized (daQuiescenceObjects s ! q)"
      "map_of (daQuiescences (finalizeQuiescence sid q s)) = (map_of (daQuiescences s))(sid := None)"
      "daQuiescenceObjects (finalizeQuiescence sid q s)
        = (daQuiescenceObjects s)[q := (daQuiescenceObjects s ! q)\<lparr>sqFinalized := True, sqCompleted := True\<rparr>]"
      "daCapabilities (finalizeQuiescence sid q s) = daCapabilities (dropSessionCapabilities sid s)"
      "daBuffers (finalizeQuiescence sid q s) = daBuffers (dropSessionCapabilities sid s)"
      "daTimers (finalizeQuiescence sid q s) = daTimers (dropSessionCapabilities sid s)"
  | (skip) "finalizeQuiescence sid q s = s"
      "\<not> (map_of (daQuiescences s) sid = Some q \<and> \<not> sqFinalized (daQuiescenceObjects s ! q))"
proof (cases "map_of (daQuiescences s) sid = Some q \<and> \<not> sqFinalized (daQuiescenceObjects s ! q)")
  case True
  then show thesis by (intro that(1)) (simp_all add: finalizeQuiescence_def Let_def)
next
  case False
  then show thesis by (intro that(2)) (auto simp: finalizeQuiescence_def)
qed

section \<open>Requiring the authentication session\<close>

text \<open>A call of the clock, the random source, the session look-up, the limiter or the write lock.\<close>

definition hostOnly :: "diary_access \<Rightarrow> diary_access \<Rightarrow> bool" where
  "hostOnly s t \<longleftrightarrow> daConfig t = daConfig s \<and> daSessionEpochs t = daSessionEpochs s
     \<and> daCapabilities t = daCapabilities s \<and> daActive t = daActive s
     \<and> daQuiescences t = daQuiescences s \<and> daGenerations t = daGenerations s
     \<and> daSequences t = daSequences s \<and> daIssuanceTails t = daIssuanceTails s
     \<and> daQuiescenceObjects t = daQuiescenceObjects s \<and> daTailObjects t = daTailObjects s
     \<and> daBuffers t = daBuffers s \<and> daTimers t = daTimers s \<and> daTasks t = daTasks s
     \<and> daNextTask t = daNextTask s \<and> daNextTimer t = daNextTimer s \<and> daDraws s \<le> daDraws t"

lemma hostOnly_refl [simp]: "hostOnly s s"
  by (simp add: hostOnly_def)

lemma hostOnly_trans: "hostOnly s t \<Longrightarrow> hostOnly t u \<Longrightarrow> hostOnly s u"
  by (simp add: hostOnly_def)

lemma hostOnly_fields:
  assumes "hostOnly s t"
  shows "daConfig t = daConfig s" "daSessionEpochs t = daSessionEpochs s" "daCapabilities t = daCapabilities s"
    "daActive t = daActive s" "daQuiescences t = daQuiescences s" "daGenerations t = daGenerations s"
    "daSequences t = daSequences s" "daIssuanceTails t = daIssuanceTails s"
    "daQuiescenceObjects t = daQuiescenceObjects s" "daTailObjects t = daTailObjects s"
    "daBuffers t = daBuffers s" "daTimers t = daTimers s" "daTasks t = daTasks s"
    "daNextTask t = daNextTask s" "daNextTimer t = daNextTimer s" "daDraws s \<le> daDraws t"
  using assms by (simp_all only: hostOnly_def)

lemma hostOnly_reads [simp]: "hostOnly s (snd (readClock env s))" "hostOnly s (snd (drawBytes env k s))"
    "hostOnly s (snd (resolveSession env sid s))" "hostOnly s (s\<lparr>daLimiter := l\<rparr>)"
    "hostOnly s (s\<lparr>daWrites := n\<rparr>)"
  by (simp_all add: hostOnly_def readClock_def drawBytes_def resolveSession_def)

lemma require_cases:
  assumes "requireCurrentAuthSession env sid s = (r, t)"
  obtains (valid) e where "r = Some e" "hostOnly s t" "dsValid (deResolve env (daResolves s) sid)"
      "dsExpiresAt (deResolve env (daResolves s) sid) = Some e" "aeNow (deAuth env) (daClock s) < e"
  | (invalid) u where "r = None" "hostOnly s u" "t = invalidateAuthSession sid u"
proof -
  have h: "hostOnly s (s\<lparr>daResolves := n\<rparr>)" "hostOnly s (s\<lparr>daResolves := n, daClock := m\<rparr>)" for n m
    by (simp_all add: hostOnly_def)
  let ?r = "deResolve env (daResolves s) sid" and ?s1 = "s\<lparr>daResolves := Suc (daResolves s)\<rparr>"
  let ?s2 = "s\<lparr>daResolves := Suc (daResolves s), daClock := Suc (daClock s)\<rparr>"
  consider (no) "\<not> dsValid ?r \<or> dsExpiresAt ?r = None" | (yes) e where "dsValid ?r" "dsExpiresAt ?r = Some e" by blast
  then show thesis
  proof cases
    case no
    then have "r = None" "t = invalidateAuthSession sid ?s1"
      using assms by (auto simp: requireCurrentAuthSession_def resolveSession_def split: bool.splits)
    then show thesis by (rule invalid [OF _ h(1)])
  next
    case (yes e)
    show thesis
    proof (cases "e \<le> aeNow (deAuth env) (daClock s)")
      case True
      then have "r = None" "t = invalidateAuthSession sid ?s2"
        using assms yes by (auto simp: requireCurrentAuthSession_def resolveSession_def readClock_def)
      then show thesis by (rule invalid [OF _ h(2)])
    next
      case False
      then have "r = Some e" "t = ?s2"
        using assms yes by (auto simp: requireCurrentAuthSession_def resolveSession_def readClock_def)
      then show thesis using valid [of e] h(2) yes False by simp
    qed
  qed
qed

lemma assert_cases:
  assumes "assertCapabilityIssuanceCurrent env i g s = (r, t)"
  obtains (current) "r = None" "hostOnly s t" "ticketCurrent i g s"
  | (stale) "r = Some issuanceInvalidated" "t = s" "\<not> ticketCurrent i g s"
  | (invalid) u where "r = Some sessionInvalid" "hostOnly s u" "t = invalidateAuthSession (isSessionId i) u"
proof (cases "ticketCurrent i g s")
  case True
  obtain r' t' where q: "requireCurrentAuthSession env (isSessionId i) s = (r', t')" by (cases "requireCurrentAuthSession env (isSessionId i) s")
  from q show thesis
  proof (cases rule: require_cases)
    case (valid e)
    then show thesis using assms q True current by (simp add: assertCapabilityIssuanceCurrent_def)
  next
    case (invalid u)
    then show thesis using assms q True that(3) by (simp add: assertCapabilityIssuanceCurrent_def)
  qed
next
  case False
  then show thesis using assms that(2) by (simp add: assertCapabilityIssuanceCurrent_def)
qed

section \<open>Drifting\<close>

text \<open>
  What may happen around a check of the authentication session: the host is read, and sessions found to be over
  begin to quiesce. A property that both keep is kept by every such check.
\<close>

inductive drifts :: "diary_access \<Rightarrow> diary_access \<Rightarrow> bool" where
  drift_host: "hostOnly s t \<Longrightarrow> drifts s t"
| drift_invalidate: "drifts s t \<Longrightarrow> drifts s (invalidateAuthSession sid t)"
| drift_then: "drifts s t \<Longrightarrow> hostOnly t u \<Longrightarrow> drifts s u"

lemma drifts_refl [simp]: "drifts s s"
  by (simp add: drift_host)

lemma drifts_trans: "drifts t u \<Longrightarrow> drifts s t \<Longrightarrow> drifts s u"
  by (induction rule: drifts.induct) (auto intro: drifts.intros)

lemma drifts_keeps:
  assumes "drifts s t" "P s" "\<And>s t. hostOnly s t \<Longrightarrow> P s \<Longrightarrow> P t" "\<And>s sid. P s \<Longrightarrow> P (invalidateAuthSession sid s)"
  shows "P t"
  using assms by (induction rule: drifts.induct) blast+

lemma drifts_fields:
  assumes "drifts s t"
  shows "daConfig t = daConfig s" "daSessionEpochs t = daSessionEpochs s" "daCapabilities t = daCapabilities s"
    "daActive t = daActive s" "daSequences t = daSequences s" "daIssuanceTails t = daIssuanceTails s"
    "daTailObjects t = daTailObjects s" "daBuffers t = daBuffers s" "daTimers t = daTimers s" "daNextTimer t = daNextTimer s"
    "daDraws s \<le> daDraws t"
proof -
  have "daConfig t = daConfig s \<and> daSessionEpochs t = daSessionEpochs s \<and> daCapabilities t = daCapabilities s
    \<and> daActive t = daActive s \<and> daSequences t = daSequences s \<and> daIssuanceTails t = daIssuanceTails s
    \<and> daTailObjects t = daTailObjects s \<and> daBuffers t = daBuffers s \<and> daTimers t = daTimers s \<and> daNextTimer t = daNextTimer s
    \<and> daDraws s \<le> daDraws t"
    using assms by (induction rule: drifts.induct) (auto dest: hostOnly_fields)
  then show "daConfig t = daConfig s" "daSessionEpochs t = daSessionEpochs s" "daCapabilities t = daCapabilities s"
    "daActive t = daActive s" "daSequences t = daSequences s" "daIssuanceTails t = daIssuanceTails s"
    "daTailObjects t = daTailObjects s" "daBuffers t = daBuffers s" "daTimers t = daTimers s" "daNextTimer t = daNextTimer s"
    "daDraws s \<le> daDraws t"
    by simp_all
qed

lemma require_drifts: "drifts s (snd (requireCurrentAuthSession env sid s))"
proof -
  obtain r t where q: "requireCurrentAuthSession env sid s = (r, t)" by (cases "requireCurrentAuthSession env sid s")
  then show ?thesis by (cases rule: require_cases) (auto simp: q intro: drifts.intros)
qed

lemma assert_drifts: "drifts s (snd (assertCapabilityIssuanceCurrent env i g s))"
proof -
  obtain r t where q: "assertCapabilityIssuanceCurrent env i g s = (r, t)" by (cases "assertCapabilityIssuanceCurrent env i g s")
  then show ?thesis by (cases rule: assert_cases) (auto simp: q intro: drifts.intros)
qed

lemma begin_issuance_cases:
  assumes "beginCapabilityIssuance env sid s = (r, t)"
  obtains (refused) e where "r = Inl e" "drifts s t"
  | (begun) u where "r = Inr \<lparr>isSessionId = sid, isLifecycleGeneration = countOf (daGenerations s) sid,
        isSequence = Suc (countOf (daSequences s) sid)\<rparr>" "hostOnly s u" "\<not> quiescing sid s"
      "t = u\<lparr>daSequences := mapSet sid (Suc (countOf (daSequences s) sid)) (daSequences s)\<rparr>"
proof -
  obtain r' u where q: "requireCurrentAuthSession env sid s = (r', u)" by (cases "requireCurrentAuthSession env sid s")
  then show thesis
  proof (cases rule: require_cases)
    case (valid e)
    then show thesis using assms q refused begun hostOnly_fields [OF valid(2)] drift_host [OF valid(2)]
      by (auto simp: beginCapabilityIssuance_def Let_def quiescing_def split: if_splits)
  next
    case (invalid v)
    then show thesis using assms q refused by (auto simp: beginCapabilityIssuance_def intro: drifts.intros)
  qed
qed

lemma expired_host: "hostOnly s (snd (capabilityExpired env c s))"
  by (simp add: capabilityExpired_def readClock_def resolveSession_def Let_def hostOnly_def)

lemma valid_drifts: "drifts s (snd (isCapabilityValidFor env sid v config s))"
proof -
  have "drifts s (snd (case capabilityExpired env c s of (True, s1) \<Rightarrow> (False, invalidateAuthSession (cpSessionId c) s1)
      | (False, s1) \<Rightarrow> (capabilityMatches sid c cfg s1, s1)))" for c cfg
  proof -
    obtain b u where q: "capabilityExpired env c s = (b, u)" by (cases "capabilityExpired env c s")
    then have "hostOnly s u" using expired_host [of s env c] by simp
    then show ?thesis by (cases b) (auto simp: q intro: drifts.intros)
  qed
  then show ?thesis by (simp add: isCapabilityValidFor_def split: option.split)
qed

lemma valid_cases:
  assumes "isCapabilityValidFor env sid v config s = (True, t)"
  obtains cfg token c where "config = Some cfg" "v = JStr token" "32 \<le> length token" "length token \<le> 128"
    "\<not> quiescing sid s" "map_of (daCapabilities s) token = Some c" "hostOnly s t" "capabilityMatches sid c cfg t"
    "aeNow (deAuth env) (daClock s) < cpExpiresAt c" "dsValid (deResolve env (daResolves s) (cpSessionId c))"
proof -
  obtain cfg token where ct: "config = Some cfg" "presentedOk v = Some token" "\<not> quiescing sid s"
    using assms by (auto simp: isCapabilityValidFor_def split: if_splits option.splits)
  obtain c where c: "map_of (daCapabilities s) token = Some c"
    using assms ct by (auto simp: isCapabilityValidFor_def split: if_splits option.splits)
  obtain b u where q: "capabilityExpired env c s = (b, u)" by (cases "capabilityExpired env c s")
  have b: "\<not> b" "t = u" "capabilityMatches sid c cfg u"
    using assms ct c q by (auto simp: isCapabilityValidFor_def split: bool.splits)
  have "aeNow (deAuth env) (daClock s) < cpExpiresAt c" "dsValid (deResolve env (daResolves s) (cpSessionId c))"
    using q b(1) by (auto simp: capabilityExpired_def readClock_def resolveSession_def split: if_splits)
  moreover have "hostOnly s t" using expired_host [of s env c] q b(2) by simp
  moreover have "v = JStr token" "32 \<le> length token" "length token \<le> 128"
    using ct(2) by (auto simp: presentedOk_def split: jsval.splits if_splits)
  ultimately show thesis using that ct c b by blast
qed

section \<open>Deriving a key\<close>

lemma allocKek_eq: "allocKek env p salt s = (Suc (length (daBuffers s)),
    s\<lparr>daBuffers := daBuffers s @ [replicate (length (aeScrypt (deAuth env) p salt)) 0, deriveDiaryKek env p salt]\<rparr>)"
  by (simp add: allocKek_def allocBuffer_def fillZero_def Let_def deriveDiaryKek_def list_update_append)

lemma setupDerived_cases:
  obtains (failed) t e kek where "setupDerived env i issuance p salt dek s = finishRequest i (Some kek) (Some dek) (Inl e) t"
      "drifts (s\<lparr>daBuffers := daBuffers s @ [replicate (length (aeScrypt (deAuth env) p salt)) 0, deriveDiaryKek env p salt]\<rparr>) t"
      "kek = Suc (length (daBuffers s))"
  | (stored) t u row w nonce where "setupDerived env i issuance p salt dek s
        = (enterIssuanceLock i \<lparr>icIssuance = issuance, icVaultId = deVaultId env, icDek = dek,
             icKek = Some (Suc (length (daBuffers s))), icLimiterKey = None\<rparr> (t\<lparr>daConfig := Some row\<rparr>), DNothing)"
      "hostOnly (s\<lparr>daBuffers := daBuffers s @ [replicate (length (aeScrypt (deAuth env) p salt)) 0, deriveDiaryKek env p salt]\<rparr>) t"
      "daConfig s = None" "ticketCurrent issuance (isLifecycleGeneration issuance) s"
      "wrapDiaryDek env nonce (deriveDiaryKek env p salt)
         ((daBuffers s @ [replicate (length (aeScrypt (deAuth env) p salt)) 0, deriveDiaryKek env p salt]) ! dek) (deVaultId env) = Inr w"
      "row = setupRow salt w (deVaultId env) u" "nonce = aeRandom (deAuth env) (daDraws s) DIARY_ACCESS_NONCE_BYTES"
      "u \<in> range (aeNow (deAuth env))"
proof -
  let ?kek = "Suc (length (daBuffers s))"
  let ?bs = "daBuffers s @ [replicate (length (aeScrypt (deAuth env) p salt)) 0, deriveDiaryKek env p salt]"
  let ?s1 = "s\<lparr>daBuffers := ?bs\<rparr>"
  obtain nonce s2 where n: "drawBytes env DIARY_ACCESS_NONCE_BYTES ?s1 = (nonce, s2)" by (cases "drawBytes env DIARY_ACCESS_NONCE_BYTES ?s1")
  have h2: "hostOnly ?s1 s2" using hostOnly_reads(2) [of ?s1 env DIARY_ACCESS_NONCE_BYTES] n by simp
  have nonce: "nonce = aeRandom (deAuth env) (daDraws s) DIARY_ACCESS_NONCE_BYTES" using n by (simp add: drawBytes_def)
  have b2: "daBuffers s2 = ?bs" using hostOnly_fields(11) [OF h2] by simp
  have k: "?bs ! ?kek = deriveDiaryKek env p salt" by (simp add: nth_append)
  show thesis
  proof (cases "wrapDiaryDek env nonce (deriveDiaryKek env p salt) (?bs ! dek) (deVaultId env)")
    case (Inl x)
    then show thesis
      by (intro failed [of ?kek accessUnavailable s2])
        (use n b2 k drift_host [OF h2] in \<open>simp_all add: setupDerived_def allocKek_eq\<close>)
  next
    case (Inr w)
    obtain r s3 where a: "assertCapabilityIssuanceCurrent env issuance (isLifecycleGeneration issuance) s2 = (r, s3)"
      by (cases "assertCapabilityIssuanceCurrent env issuance (isLifecycleGeneration issuance) s2")
    note eq = setupDerived_def allocKek_eq
    from a show thesis
    proof (cases rule: assert_cases)
      case current
      obtain t s4 where c: "readClock env s3 = (t, s4)" by (cases "readClock env s3")
      have h4: "hostOnly s3 s4" using hostOnly_reads(1) [of s3 env] c by simp
      have tc: "t \<in> range (aeNow (deAuth env))" using c by (auto simp: readClock_def)
      obtain x s5 where st: "storeConfig env (setupRow salt w (deVaultId env) t) s4 = (x, s5)"
        by (cases "storeConfig env (setupRow salt w (deVaultId env) t) s4")
      have h: "hostOnly ?s1 s4" by (rule hostOnly_trans [OF h2 hostOnly_trans [OF current(2) h4]])
      let ?w = "s4\<lparr>daWrites := Suc (daWrites s4)\<rparr>"
      have hw: "hostOnly ?s1 ?w" by (rule hostOnly_trans [OF h]) simp
      have sc: "(x, s5) = (None, ?w\<lparr>daConfig := Some (setupRow salt w (deVaultId env) t)\<rparr>) \<and> daConfig s4 = None
          \<or> (\<exists>e. (x, s5) = (Some e, ?w))"
        using st by (auto simp: storeConfig_def Let_def split: if_splits)
      have cur: "ticketCurrent issuance (isLifecycleGeneration issuance) s"
        using current(3) hostOnly_fields [OF h2] by (simp add: ticketCurrent_def quiescing_def)
      from sc show thesis
      proof (elim disjE conjE exE)
        assume "(x, s5) = (None, ?w\<lparr>daConfig := Some (setupRow salt w (deVaultId env) t)\<rparr>)" "daConfig s4 = None"
        then show thesis
          by (intro stored [where t = ?w, OF _ hw _ cur Inr refl nonce tc]) (use n b2 k Inr a current c st hostOnly_fields(1) [OF h] in \<open>simp_all add: eq\<close>)
      next
        fix e assume "(x, s5) = (Some e, ?w)"
        then show thesis
          by (intro failed [of ?kek e ?w]) (use n b2 k Inr a current c st drift_host [OF hw] in \<open>simp_all add: eq\<close>)
      qed
    next
      case stale
      then show thesis
        by (intro failed [of ?kek issuanceInvalidated s3]) (use n b2 k Inr a drift_host [OF h2] in \<open>simp_all add: eq\<close>)
    next
      case (invalid u)
      have "drifts ?s1 s3" using invalid(2,3) h2 by (auto intro: drifts.intros dest: hostOnly_trans [OF h2])
      then show thesis
        by (intro failed [of ?kek sessionInvalid s3]) (use n b2 k Inr a invalid in \<open>simp_all add: eq\<close>)
    qed
  qed
qed

lemma unlockDerived_cases:
  fixes env i issuance p config key s
  defines "z \<equiv> [replicate (length (aeScrypt (deAuth env) p (cfSalt config))) 0,
      replicate (length (deriveDiaryKek env p (cfSalt config))) (0 :: nat)]"
  obtains (wrong) t e where "unlockDerived env i issuance p config key s = finishRequest i None None (Inl e) t"
      "hostOnly (s\<lparr>daBuffers := daBuffers s @ z\<rparr>) t"
  | (short) n where "unlockDerived env i issuance p config key s
      = finishRequest i None (Some (length (daBuffers s) + 2)) (Inl accessUnavailable) (s\<lparr>daBuffers := daBuffers s @ z @ [replicate n 0]\<rparr>)"
  | (opened) dek where "unlockDerived env i issuance p config key s
        = (enterIssuanceLock i \<lparr>icIssuance = issuance, icVaultId = cfVaultId config, icDek = length (daBuffers s) + 2,
             icKek = None, icLimiterKey = Some key\<rparr> (s\<lparr>daBuffers := daBuffers s @ z @ [dek]\<rparr>), DNothing)"
      "length dek = SCRYPT_KEY_BYTES" "unwrapWith env (deriveDiaryKek env p (cfSalt config)) config = Inr dek"
proof -
  let ?kek = "Suc (length (daBuffers s))"
  let ?k = "deriveDiaryKek env p (cfSalt config)"
  let ?s2 = "s\<lparr>daBuffers := daBuffers s @ z\<rparr>"
  have f: "fillZero ?kek (s\<lparr>daBuffers := daBuffers s @ [replicate (length (aeScrypt (deAuth env) p (cfSalt config))) 0, ?k]\<rparr>) = ?s2"
    by (simp add: fillZero_def z_def list_update_append nth_append)
  have k: "(daBuffers s @ [replicate (length (aeScrypt (deAuth env) p (cfSalt config))) 0, ?k]) ! ?kek = ?k" by (simp add: nth_append)
  have zl: "length z = 2" by (simp add: z_def)
  show thesis
  proof (cases "unwrapWith env ?k config")
    case (Inl x)
    have h: "hostOnly ?s2 (?s2\<lparr>daClock := c, daLimiter := l\<rparr>)" for c l by (simp add: hostOnly_def)
    obtain l r where rf: "recordFailure (daLimiter s) key (aeNow (deAuth env) (daClock s)) = (l, r)"
      by (cases "recordFailure (daLimiter s) key (aeNow (deAuth env) (daClock s))")
    have "unlockDerived env i issuance p config key s = wrongPasswordResult env i key ?s2"
      using Inl f k by (simp add: unlockDerived_def allocKek_eq)
    then show thesis
      using wrong [OF _ h] rf by (auto simp: wrongPasswordResult_def readClock_def Let_def split: if_splits)
  next
    case (Inr bs)
    have a: "allocBuffer bs ?s2 = (length (daBuffers s) + 2, s\<lparr>daBuffers := daBuffers s @ z @ [bs]\<rparr>)"
      by (simp add: allocBuffer_def zl)
    have g: "fillZero (length (daBuffers s) + 2) (s\<lparr>daBuffers := daBuffers s @ z @ [bs]\<rparr>)
        = s\<lparr>daBuffers := daBuffers s @ z @ [replicate (length bs) 0]\<rparr>"
      by (simp add: fillZero_def list_update_append nth_append zl)
    have u: "unlockDerived env i issuance p config key s
        = (if length bs \<noteq> SCRYPT_KEY_BYTES
           then finishRequest i None (Some (length (daBuffers s) + 2)) (Inl accessUnavailable)
                  (s\<lparr>daBuffers := daBuffers s @ z @ [replicate (length bs) 0]\<rparr>)
           else (enterIssuanceLock i \<lparr>icIssuance = issuance, icVaultId = cfVaultId config, icDek = length (daBuffers s) + 2,
             icKek = None, icLimiterKey = Some key\<rparr> (s\<lparr>daBuffers := daBuffers s @ z @ [bs]\<rparr>), DNothing))"
      using Inr f k a g by (simp add: unlockDerived_def allocKek_eq)
    show thesis
    proof (cases "length bs = SCRYPT_KEY_BYTES")
      case True
      then show thesis using u opened [OF _ True Inr] by simp
    next
      case False
      then show thesis using u short [of "length bs"] by simp
    qed
  qed
qed

end
