(* ===== verification/DiaryQuiet.thy ===== *)
theory DiaryQuiet
  imports DiaryFrame
begin

text \<open>
  The quiescing of sessions: a session that quiesces admits no new body operation, its quiescence is drained
  exactly when none is left, and it is finalised only then.
\<close>

section \<open>The invariant\<close>

definition leases :: "int \<Rightarrow> diary_access \<Rightarrow> nat set" where
  "leases a s = {i. \<exists>l. map_of (daTasks s) i = Some (BodyOperation l) \<and> blSessionId l = a}"

fun waitsFor :: "task \<Rightarrow> (int \<times> nat) option" where
  "waitsFor (AwaitingDrained c t q p) = Some (isSessionId (icIssuance c), q)"
| "waitsFor (AwaitingCompleted c t q p) = Some (isSessionId (icIssuance c), q)"
| "waitsFor (Quiescing a q) = Some (a, q)"
| "waitsFor (Quiesced a q) = Some (a, q)"
| "waitsFor _ = None"

fun isLease :: "task \<Rightarrow> bool" where
  "isLease (BodyOperation l) = True"
| "isLease _ = False"

abbreviation quiescence :: "diary_access \<Rightarrow> nat \<Rightarrow> SessionQuiescence" where
  "quiescence s q \<equiv> daQuiescenceObjects s ! q"

definition ids_ok :: "diary_access \<Rightarrow> bool" where
  "ids_ok s \<longleftrightarrow> (\<forall>i w. map_of (daTasks s) i = Some w \<longrightarrow> i < daNextTask s)"

definition quiescences_ok :: "diary_access \<Rightarrow> bool" where
  "quiescences_ok s \<longleftrightarrow>
     (\<forall>a q. map_of (daQuiescences s) a = Some q \<longrightarrow> q < length (daQuiescenceObjects s)
        \<and> \<not> sqFinalized (quiescence s q) \<and> (sqDrained (quiescence s q) \<longleftrightarrow> leases a s = {}))
     \<and> (\<forall>a b q. map_of (daQuiescences s) a = Some q \<longrightarrow> map_of (daQuiescences s) b = Some q \<longrightarrow> a = b)
     \<and> (\<forall>q<length (daQuiescenceObjects s). sqCompleted (quiescence s q) = sqFinalized (quiescence s q)
        \<and> (sqFinalized (quiescence s q) \<longrightarrow> sqDrained (quiescence s q)))"

definition active_ok :: "diary_access \<Rightarrow> bool" where
  "active_ok s \<longleftrightarrow> (\<forall>a. countOf (daActive s) a = card (leases a s))"

definition waits_ok :: "diary_access \<Rightarrow> bool" where
  "waits_ok s \<longleftrightarrow> (\<forall>i w a q. map_of (daTasks s) i = Some w \<longrightarrow> waitsFor w = Some (a, q) \<longrightarrow>
     q < length (daQuiescenceObjects s) \<and> (map_of (daQuiescences s) a = Some q \<or> sqFinalized (quiescence s q)))"

definition quiet_ok :: "diary_access \<Rightarrow> bool" where
  "quiet_ok s \<longleftrightarrow> ids_ok s \<and> quiescences_ok s \<and> active_ok s \<and> waits_ok s"

lemma waits_okD: "waits_ok s \<Longrightarrow> map_of (daTasks s) i = Some w \<Longrightarrow> waitsFor w = Some (a, q) \<Longrightarrow>
    q < length (daQuiescenceObjects s) \<and> (map_of (daQuiescences s) a = Some q \<or> sqFinalized (quiescence s q))"
  by (simp add: waits_ok_def)

lemma waits_okI: "(\<And>i w a q. map_of (daTasks s) i = Some w \<Longrightarrow> waitsFor w = Some (a, q) \<Longrightarrow>
    q < length (daQuiescenceObjects s) \<and> (map_of (daQuiescences s) a = Some q \<or> sqFinalized (quiescence s q))) \<Longrightarrow> waits_ok s"
  by (simp add: waits_ok_def)

lemma quiet_frame:
  assumes "daTasks t = daTasks s" "daNextTask t = daNextTask s" "daQuiescences t = daQuiescences s"
    "daQuiescenceObjects t = daQuiescenceObjects s" "daActive t = daActive s"
  shows "quiet_ok t = quiet_ok s"
  by (simp add: quiet_ok_def ids_ok_def quiescences_ok_def active_ok_def waits_ok_def leases_def assms)

lemma quiet_same:
  "quiet_ok s \<Longrightarrow> daTasks t = daTasks s \<Longrightarrow> daNextTask t = daNextTask s \<Longrightarrow> daQuiescences t = daQuiescences s \<Longrightarrow>
   daQuiescenceObjects t = daQuiescenceObjects s \<Longrightarrow> daActive t = daActive s \<Longrightarrow> quiet_ok t"
  using quiet_frame [of t s] by simp

lemma quiet_host: "hostOnly s t \<Longrightarrow> quiet_ok t = quiet_ok s"
  by (rule quiet_frame) (simp_all add: hostOnly_fields)

lemma finite_leases [simp]: "finite (leases a s)"
  by (rule finite_subset [OF _ finite_dom_map_of [of "daTasks s"]]) (auto simp: leases_def)

lemma leases_fresh: "ids_ok s \<Longrightarrow> daNextTask s \<notin> leases a s"
  by (auto simp: leases_def ids_ok_def)

section \<open>Tasks come and go\<close>

lemma leases_set_other:
  assumes "map_of (daTasks t) = (map_of (daTasks s))(i := w)" "\<And>v. map_of (daTasks s) i = Some v \<Longrightarrow> \<not> isLease v"
    "\<And>v. w = Some v \<Longrightarrow> \<not> isLease v"
  shows "leases a t = leases a s"
  using assms by (auto simp: leases_def)

text \<open>The place of a task that is no lease is given to another one, or vacated.\<close>

lemma quiet_replace:
  assumes ok: "quiet_ok s" and v: "\<And>v. map_of (daTasks s) i = Some v \<Longrightarrow> \<not> isLease v"
    and t: "map_of (daTasks t) = (map_of (daTasks s))(i := w)" "daNextTask s \<le> daNextTask t" "i < daNextTask t"
      "daQuiescences t = daQuiescences s" "daQuiescenceObjects t = daQuiescenceObjects s" "daActive t = daActive s"
    and w: "\<And>v. w = Some v \<Longrightarrow> \<not> isLease v"
      "\<And>v a q. w = Some v \<Longrightarrow> waitsFor v = Some (a, q) \<Longrightarrow>
         q < length (daQuiescenceObjects s) \<and> (map_of (daQuiescences s) a = Some q \<or> sqFinalized (quiescence s q))"
  shows "quiet_ok t"
proof -
  have l: "leases a t = leases a s" for a by (rule leases_set_other [OF t(1) v w(1)])
  have "ids_ok t" using ok t by (auto simp: quiet_ok_def ids_ok_def split: if_splits intro: less_le_trans)
  moreover have "quiescences_ok t" using ok by (simp add: quiet_ok_def quiescences_ok_def l t)
  moreover have "active_ok t" using ok by (simp add: quiet_ok_def active_ok_def l t)
  moreover have "waits_ok t" using ok w(2) unfolding quiet_ok_def waits_ok_def t by (auto split: if_splits)
  ultimately show ?thesis by (simp add: quiet_ok_def)
qed

lemma quiet_add:
  assumes "quiet_ok s" "\<not> isLease w"
    "\<And>a q. waitsFor w = Some (a, q) \<Longrightarrow>
       q < length (daQuiescenceObjects s) \<and> (map_of (daQuiescences s) a = Some q \<or> sqFinalized (quiescence s q))"
  shows "quiet_ok (addTask w s)"
proof -
  have "map_of (daTasks s) (daNextTask s) = None" using assms(1) by (auto simp: quiet_ok_def ids_ok_def)
  then show ?thesis by (intro quiet_replace [OF assms(1), where i = "daNextTask s" and w = "Some w"]) (auto simp: assms)
qed

lemma quiet_begin:
  fixes sid :: int
  assumes ok: "quiet_ok s"
  defines "q \<equiv> fst (beginSessionInvalidation sid s)" and "t \<equiv> snd (beginSessionInvalidation sid s)"
  shows "quiet_ok t" "q < length (daQuiescenceObjects t)" "map_of (daQuiescences t) sid = Some q"
proof -
  have l: "leases a t = leases a s" for a by (simp add: leases_def t_def)
  have m: "map_of (daQuiescences t) = (map_of (daQuiescences s))(sid \<mapsto> q)" by (simp add: t_def q_def begin_map)
  then show "map_of (daQuiescences t) sid = Some q" by simp
  have same: "daTasks t = daTasks s" "daNextTask t = daNextTask s" "daActive t = daActive s" by (simp_all add: t_def)
  consider (known) "map_of (daQuiescences s) sid = Some q" "daQuiescenceObjects t = daQuiescenceObjects s"
    | (new) "map_of (daQuiescences s) sid = None" "q = length (daQuiescenceObjects s)"
      "daQuiescenceObjects t = daQuiescenceObjects s @ [\<lparr>sqDrained = (leases sid s = {}), sqCompleted = False, sqFinalized = False\<rparr>]"
    using begin_known [of s sid] begin_new [of s sid] ok
    by (cases "map_of (daQuiescences s) sid") (auto simp: q_def t_def quiet_ok_def active_ok_def)
  then have "quiet_ok t \<and> q < length (daQuiescenceObjects t)"
  proof cases
    case known
    have "map_of (daQuiescences t) = map_of (daQuiescences s)" using m known(1) by (simp add: fun_upd_idem)
    then show ?thesis using ok known
      by (auto simp: quiet_ok_def ids_ok_def quiescences_ok_def active_ok_def waits_ok_def l same)
  next
    case new
    have "quiescences_ok t"
      using ok unfolding quiet_ok_def quiescences_ok_def l m new(3)
      by (auto simp: nth_append new less_Suc_eq split: if_splits)
    moreover have "waits_ok t"
    proof (rule waits_okI)
      fix i w a p assume "map_of (daTasks t) i = Some w" "waitsFor w = Some (a, p)"
      then have "p < length (daQuiescenceObjects s) \<and> (map_of (daQuiescences s) a = Some p \<or> sqFinalized (quiescence s p))"
        using ok waits_okD by (simp add: quiet_ok_def same)
      then show "p < length (daQuiescenceObjects t) \<and> (map_of (daQuiescences t) a = Some p \<or> sqFinalized (quiescence t p))"
        using new(1) by (auto simp: m new(3) nth_append)
    qed
    ultimately show ?thesis using ok by (simp add: quiet_ok_def ids_ok_def active_ok_def l same new(2,3))
  qed
  then show "quiet_ok t" "q < length (daQuiescenceObjects t)" by simp_all
qed

lemma quiet_invalidate: "quiet_ok s \<Longrightarrow> quiet_ok (invalidateAuthSession sid s)"
proof (cases "isSessionNumber sid")
  case True
  assume ok: "quiet_ok s"
  note b = quiet_begin [OF ok, of sid]
  show ?thesis unfolding invalidate_unfold [OF True] by (rule quiet_add [OF b(1)]) (use b in auto)
qed (simp add: invalidate_none)

lemma quiet_finalize:
  assumes ok: "quiet_ok s" and d: "drainedQ q s"
  shows "quiet_ok (finalizeQuiescence sid q s)"
proof (cases rule: finalize_cases [of s sid q])
  case ended
  let ?t = "finalizeQuiescence sid q s"
  have l: "leases a ?t = leases a s" for a by (simp add: leases_def)
  have d: "sqDrained (quiescence s q)" "q < length (daQuiescenceObjects s)" using d by (simp_all add: drainedQ_def)
  have inj: "map_of (daQuiescences s) a = Some q \<Longrightarrow> a = sid" for a
    using ok ended(1) by (auto simp: quiet_ok_def quiescences_ok_def)
  have "quiescences_ok ?t"
    using ok d inj unfolding quiet_ok_def quiescences_ok_def l ended(3,4) by (auto simp: nth_list_update split: if_splits)
  moreover have "waits_ok ?t"
  proof (rule waits_okI)
    fix i w a p assume "map_of (daTasks ?t) i = Some w" "waitsFor w = Some (a, p)"
    then have "p < length (daQuiescenceObjects s) \<and> (map_of (daQuiescences s) a = Some p \<or> sqFinalized (quiescence s p))"
      using ok waits_okD by (simp add: quiet_ok_def)
    then show "p < length (daQuiescenceObjects ?t) \<and> (map_of (daQuiescences ?t) a = Some p \<or> sqFinalized (quiescence ?t p))"
      using ended(1) unfolding ended(3,4) by (cases "p = q"; cases "a = sid") (auto simp: nth_list_update_eq)
  qed
  ultimately show ?thesis using ok by (simp add: quiet_ok_def ids_ok_def active_ok_def l)
qed (simp add: ok)

lemma finalize_map: "map_of (daQuiescences (finalizeQuiescence sid q s)) a \<noteq> None \<Longrightarrow>
    map_of (daQuiescences (finalizeQuiescence sid q s)) a = map_of (daQuiescences s) a"
  by (cases rule: finalize_cases [of s sid q]) (auto split: if_splits)

lemma finalize_waits:
  assumes ok: "quiet_ok s" and d: "drainedQ q s" and w: "map_of (daQuiescences s) sid = Some q \<or> sqFinalized (quiescence s q)"
  shows "sqFinalized (quiescence (finalizeQuiescence sid q s) q)" "q < length (daQuiescenceObjects (finalizeQuiescence sid q s))"
proof -
  have "q < length (daQuiescenceObjects s)" using d by (simp add: drainedQ_def)
  then show "sqFinalized (quiescence (finalizeQuiescence sid q s) q)" "q < length (daQuiescenceObjects (finalizeQuiescence sid q s))"
    by (cases rule: finalize_cases [of s sid q]; use w in auto)+
qed

section \<open>Leases\<close>

lemma quiet_lease_begin:
  assumes ok: "quiet_ok s" and nq: "\<not> quiescing (blSessionId l) s"
  shows "quiet_ok (addTask (BodyOperation l) (s\<lparr>daActive := mapSet (blSessionId l) (Suc (countOf (daActive s) (blSessionId l))) (daActive s)\<rparr>))"
    (is "quiet_ok ?t")
proof -
  have i: "ids_ok s" using ok by (simp add: quiet_ok_def)
  have l: "leases a ?t = (if a = blSessionId l then insert (daNextTask s) (leases a s) else leases a s)" for a
    using leases_fresh [OF i] by (auto simp: leases_def)
  have "countOf (daActive s) b = card (leases b s)" for b using ok by (simp add: quiet_ok_def active_ok_def)
  then have "active_ok ?t" using leases_fresh [OF i] unfolding active_ok_def l by simp
  moreover have "quiescences_ok ?t"
    using ok nq unfolding quiet_ok_def quiescences_ok_def l quiescing_def by auto
  moreover have "ids_ok ?t" using i by (auto simp: ids_ok_def split: if_splits)
  moreover have "waits_ok ?t" using ok by (auto simp: quiet_ok_def waits_ok_def split: if_splits)
  ultimately show ?thesis by (simp add: quiet_ok_def)
qed

lemma quiet_lease_same:
  assumes ok: "quiet_ok s" and i: "map_of (daTasks s) i = Some (BodyOperation l)" and l: "blSessionId l' = blSessionId l"
  shows "quiet_ok (setTask i (BodyOperation l') s)"
proof -
  have "leases a (setTask i (BodyOperation l') s) = leases a s" for a using i l by (auto simp: leases_def)
  moreover have "i < daNextTask s" using ok i by (auto simp: quiet_ok_def ids_ok_def)
  ultimately show ?thesis using ok
    by (auto simp: quiet_ok_def ids_ok_def quiescences_ok_def active_ok_def waits_ok_def split: if_splits)
qed

lemma quiet_lease_end:
  assumes ok: "quiet_ok s" and i: "map_of (daTasks s) i = Some (BodyOperation l)"
  shows "quiet_ok (releaseBodyOperation (blSessionId l) (endTask i s))" (is "quiet_ok ?t")
proof -
  let ?a = "blSessionId l"
  have tasks: "map_of (daTasks ?t) = (map_of (daTasks s))(i := None)" by simp
  have l: "leases b ?t = leases b s - {i}" for b unfolding leases_def tasks by auto
  have mem: "i \<in> leases ?a s" "i \<notin> leases b s" if "b \<noteq> ?a" for b using i that by (auto simp: leases_def)
  have mem': "i \<in> leases ?a s" using i by (simp add: leases_def)
  have cnt: "countOf (daActive s) b = card (leases b s)" for b using ok by (simp add: quiet_ok_def active_ok_def)
  have pos: "0 < card (leases ?a s)" by (metis mem' card_gt_0_iff empty_iff finite_leases)
  then obtain n where n: "map_of (daActive s) ?a = Some n" "n = card (leases ?a s)"
    using cnt [of ?a] by (auto simp: countOf_def split: option.splits)
  have act: "countOf (daActive ?t) b = (if b = ?a then n - 1 else countOf (daActive s) b)" for b
    using n by (auto simp: releaseBodyOperation_def Let_def split: option.split)
  have "active_ok ?t"
    unfolding active_ok_def act l using cnt mem mem' n(2) by (auto simp: card_Diff_singleton)
  moreover have maps: "daQuiescences ?t = daQuiescences s" by simp
  moreover have objs: "daQuiescenceObjects ?t = (case map_of (daQuiescences s) ?a of
      Some q \<Rightarrow> if n = 1 then (daQuiescenceObjects s)[q := (quiescence s q)\<lparr>sqDrained := True\<rparr>] else daQuiescenceObjects s
    | None \<Rightarrow> daQuiescenceObjects s)"
    using n pos by (auto simp: releaseBodyOperation_def Let_def split: option.split)
  have empty: "leases ?a s - {i} = {} \<longleftrightarrow> n = 1"
  proof -
    have "card (leases ?a s - {i}) = n - 1" using mem' n(2) by (simp add: card_Diff_singleton)
    moreover have "leases ?a s - {i} = {} \<longleftrightarrow> card (leases ?a s - {i}) = 0" by (metis card_0_eq finite_Diff finite_leases)
    ultimately show ?thesis using n(2) pos by linarith
  qed
  have Q: "quiescences_ok s" using ok by (simp add: quiet_ok_def)
  have "quiescences_ok ?t"
  proof (cases "map_of (daQuiescences s) ?a")
    case None
    have keep: "leases b ?t = leases b s" if "map_of (daQuiescences s) b = Some p" for b p
    proof -
      have "b \<noteq> ?a" using None that by auto
      then show ?thesis using mem(2) [of b] unfolding l by simp
    qed
    from None show ?thesis using Q unfolding quiescences_ok_def maps objs by (simp add: keep)
  next
    case (Some q)
    have inj: "map_of (daQuiescences s) b = Some q \<Longrightarrow> b = ?a" for b using Q Some by (auto simp: quiescences_ok_def)
    have nd: "\<not> sqDrained (quiescence s q)" using Q Some mem' by (auto simp: quiescences_ok_def)
    have ql: "q < length (daQuiescenceObjects s)" using Q Some by (auto simp: quiescences_ok_def)
    have o: "sqFinalized (quiescence ?t x) = sqFinalized (quiescence s x)" "sqCompleted (quiescence ?t x) = sqCompleted (quiescence s x)"
      "sqDrained (quiescence ?t x) \<longleftrightarrow> sqDrained (quiescence s x) \<or> n = 1 \<and> x = q" if "x < length (daQuiescenceObjects s)" for x
      using that by (auto simp: objs Some nth_list_update [OF ql])
    have len: "length (daQuiescenceObjects ?t) = length (daQuiescenceObjects s)" by (simp add: objs Some)
    show ?thesis
      unfolding quiescences_ok_def maps len
    proof (intro conjI allI impI)
      fix b p assume p: "map_of (daQuiescences s) b = Some p"
      then have pl: "p < length (daQuiescenceObjects s)" "\<not> sqFinalized (quiescence s p)"
        "sqDrained (quiescence s p) \<longleftrightarrow> leases b s = {}" using Q by (auto simp: quiescences_ok_def)
      show "p < length (daQuiescenceObjects s)" by (rule pl)
      show "\<not> sqFinalized (quiescence ?t p)" using pl o by simp
      show "sqDrained (quiescence ?t p) \<longleftrightarrow> leases b ?t = {}"
      proof (cases "b = ?a")
        case True
        then have "p = q" using p Some by simp
        then show ?thesis using o(3) [OF pl(1)] nd empty unfolding l True by simp
      next
        case False
        then have "p \<noteq> q" using inj p by blast
        then show ?thesis using o(3) [OF pl(1)] pl(3) mem(2) [OF False] unfolding l by simp
      qed
    next
      fix b c p assume "map_of (daQuiescences s) b = Some p" "map_of (daQuiescences s) c = Some p"
      then show "b = c" using Q by (auto simp: quiescences_ok_def)
    next
      fix p assume p: "p < length (daQuiescenceObjects s)"
      then show "sqCompleted (quiescence ?t p) = sqFinalized (quiescence ?t p)" using Q o by (simp add: quiescences_ok_def)
      assume "sqFinalized (quiescence ?t p)"
      then show "sqDrained (quiescence ?t p)" using Q o p by (simp add: quiescences_ok_def)
    qed
  qed
  moreover have "ids_ok ?t" using ok by (auto simp: quiet_ok_def ids_ok_def split: if_splits)
  moreover have "waits_ok ?t"
  proof (rule waits_okI)
    fix j w a p assume "map_of (daTasks ?t) j = Some w" "waitsFor w = Some (a, p)"
    then have "p < length (daQuiescenceObjects s) \<and> (map_of (daQuiescences s) a = Some p \<or> sqFinalized (quiescence s p))"
      using ok waits_okD unfolding tasks by (simp add: quiet_ok_def split: if_splits)
    then show "p < length (daQuiescenceObjects ?t) \<and> (map_of (daQuiescences ?t) a = Some p \<or> sqFinalized (quiescence ?t p))"
      using Q unfolding maps objs quiescences_ok_def by (auto simp: nth_list_update split: option.split)
  qed
  ultimately show ?thesis by (simp add: quiet_ok_def)
qed

section \<open>Every step\<close>

lemma quiet_drifts: "drifts s t \<Longrightarrow> quiet_ok s \<Longrightarrow> quiet_ok t"
  by (erule drifts_keeps) (simp_all add: quiet_host quiet_invalidate)

text \<open>A task that exists stays what it is while the state drifts.\<close>

lemma invalidate_tasks: "ids_ok s \<Longrightarrow> map_of (daTasks s) i = Some w \<Longrightarrow> map_of (daTasks (invalidateAuthSession sid s)) i = Some w"
  by (cases "isSessionNumber sid") (auto simp: invalidate_unfold invalidate_none ids_ok_def)

lemma drift_task:
  assumes "drifts s t" "quiet_ok s" "map_of (daTasks s) i = Some w"
  shows "map_of (daTasks t) i = Some w"
proof -
  have "quiet_ok t \<and> map_of (daTasks t) i = Some w"
    by (rule drifts_keeps [OF assms(1)])
      (use assms quiet_host quiet_invalidate invalidate_tasks in \<open>auto simp: hostOnly_fields quiet_ok_def\<close>)
  then show ?thesis ..
qed

lemma quiet_task_id: "quiet_ok s \<Longrightarrow> map_of (daTasks s) i = Some w \<Longrightarrow> i < daNextTask s"
  by (auto simp: quiet_ok_def ids_ok_def)

text \<open>A waiting request, whatever it waits for next, is no lease.\<close>

lemma quiet_move:
  assumes "quiet_ok s" "map_of (daTasks s) i = Some v" "\<not> isLease v" "\<not> isLease w"
    "map_of (daTasks t) = (map_of (daTasks s))(i \<mapsto> w)" "daNextTask t = daNextTask s"
    "daQuiescences t = daQuiescences s" "daQuiescenceObjects t = daQuiescenceObjects s" "daActive t = daActive s"
    "\<And>a q. waitsFor w = Some (a, q) \<Longrightarrow>
       q < length (daQuiescenceObjects s) \<and> (map_of (daQuiescences s) a = Some q \<or> sqFinalized (quiescence s q))"
  shows "quiet_ok t"
  using quiet_replace [OF assms(1), of i t "Some w"] quiet_task_id [OF assms(1,2)] assms by auto

lemma quiet_gone:
  assumes "quiet_ok s" "map_of (daTasks s) i = Some v" "\<not> isLease v"
    "map_of (daTasks t) = (map_of (daTasks s))(i := None)" "daNextTask t = daNextTask s"
    "daQuiescences t = daQuiescences s" "daQuiescenceObjects t = daQuiescenceObjects s" "daActive t = daActive s"
  shows "quiet_ok t"
  using quiet_replace [OF assms(1), of i t None] quiet_task_id [OF assms(1,2)] assms by auto

lemma quiet_finish:
  assumes "quiet_ok s" "map_of (daTasks s) i = Some v" "\<not> isLease v"
  shows "quiet_ok (fst (finishRequest i kek dek r s))"
  by (rule quiet_gone [OF assms]) (simp_all add: finishRequest_def Let_def split: option.split)

lemma quiet_leave:
  assumes "quiet_ok s" "map_of (daTasks s) i = Some v" "\<not> isLease v"
  shows "quiet_ok (leaveIssuance i c ticket r s)"
  by (rule quiet_move [OF assms, where w = "Finishing c r"]) simp_all

lemma quiet_enter:
  assumes "quiet_ok s" "map_of (daTasks s) i = Some v" "\<not> isLease v"
  shows "quiet_ok (enterIssuanceLock i c s)"
  by (rule quiet_move [OF assms, where w = "AwaitingTurn c (length (daTailObjects s))"]) simp_all

lemma publish_fields:
  "daTasks (snd (publishCapability env i c x s)) = daTasks s" "daNextTask (snd (publishCapability env i c x s)) = daNextTask s"
  "daQuiescences (snd (publishCapability env i c x s)) = daQuiescences s"
  "daQuiescenceObjects (snd (publishCapability env i c x s)) = daQuiescenceObjects s"
  "daActive (snd (publishCapability env i c x s)) = daActive s"
  by (simp_all add: publishCapability_def drawBytes_def Let_def)

lemma quiet_publish:
  assumes "quiet_ok s" "map_of (daTasks s) i = Some v" "\<not> isLease v"
  shows "quiet_ok (publishIfCurrent env i c ticket g s)"
proof -
  obtain e s1 where a: "assertCapabilityIssuanceCurrent env (icIssuance c) g s = (e, s1)"
    by (cases "assertCapabilityIssuanceCurrent env (icIssuance c) g s")
  have d1: "drifts s s1" using assert_drifts [of s env "icIssuance c" g] a by simp
  note k1 = quiet_drifts [OF d1 assms(1)] drift_task [OF d1 assms(1,2)]
  obtain x s2 where r: "requireCurrentAuthSession env (isSessionId (icIssuance c)) s1 = (x, s2)"
    by (cases "requireCurrentAuthSession env (isSessionId (icIssuance c)) s1")
  have d2: "drifts s1 s2" using require_drifts [of s1 env "isSessionId (icIssuance c)"] r by simp
  note k2 = quiet_drifts [OF d2 k1(1)] drift_task [OF d2 k1]
  have p: "quiet_ok (snd (publishCapability env i c y s2))" for y using k2(1) by (subst quiet_frame) (simp_all add: publish_fields)
  show ?thesis
    using k1 k2 p by (auto simp: publishIfCurrent_def a r publish_fields assms(3) split: option.split prod.split
        intro!: quiet_leave [OF _ _ assms(3)]) (metis publish_fields(1) snd_conv)+
qed

lemma quiet_turn:
  assumes "quiet_ok s" "map_of (daTasks s) i = Some v" "\<not> isLease v"
  shows "quiet_ok (issuanceTurn env i c ticket s)"
proof -
  let ?sid = "isSessionId (icIssuance c)" and ?g = "isLifecycleGeneration (icIssuance c)"
  obtain e s1 where a: "assertCapabilityIssuanceCurrent env (icIssuance c) ?g s = (e, s1)"
    by (cases "assertCapabilityIssuanceCurrent env (icIssuance c) ?g s")
  have d1: "drifts s s1" using assert_drifts [of s env "icIssuance c" ?g] a by simp
  note k1 = quiet_drifts [OF d1 assms(1)] drift_task [OF d1 assms(1,2)]
  note b = quiet_begin [OF k1(1), of ?sid]
  have "quiet_ok (setTask i (AwaitingDrained c ticket (fst (beginSessionInvalidation ?sid s1)) p) (snd (beginSessionInvalidation ?sid s1)))" for p
    by (rule quiet_move [OF b(1), of i v "AwaitingDrained c ticket (fst (beginSessionInvalidation ?sid s1)) p"]) (use k1(2) assms(3) b in auto)
  then show ?thesis
    using quiet_leave [OF k1 assms(3)] quiet_publish [OF k1 assms(3)]
    by (simp add: issuanceTurn_def Let_def a split_def split: option.split)
qed

lemma quiet_replacement:
  assumes "quiet_ok s" "map_of (daTasks s) i = Some v" "\<not> isLease v"
  shows "quiet_ok (replacementTurn env i c ticket g s)"
proof -
  obtain e s1 where a: "assertCapabilityIssuanceCurrent env (icIssuance c) g s = (e, s1)"
    by (cases "assertCapabilityIssuanceCurrent env (icIssuance c) g s")
  have d1: "drifts s s1" using assert_drifts [of s env "icIssuance c" g] a by simp
  note k1 = quiet_drifts [OF d1 assms(1)] drift_task [OF d1 assms(1,2)]
  show ?thesis using quiet_leave [OF k1 assms(3)] quiet_publish [OF k1 assms(3)]
    by (simp add: replacementTurn_def a split: option.split)
qed

lemma quiet_setup: "quiet_ok s \<Longrightarrow> quiet_ok (fst (setupAccess env sid v s))"
proof -
  assume ok: "quiet_ok s"
  obtain r t where b: "beginCapabilityIssuance env sid s = (r, t)" by (cases "beginCapabilityIssuance env sid s")
  then have "quiet_ok t"
    by (cases rule: begin_issuance_cases) (auto simp: quiet_drifts ok quiet_host quiet_frame [of "_\<lparr>daSequences := _\<rparr>" "_"])
  moreover have "quiet_ok (addTask (DerivingKey x y) (t\<lparr>daDraws := d, daBuffers := l\<rparr>))" if "quiet_ok t" for x y d l
    by (rule quiet_add) (use that in \<open>simp_all add: quiet_frame [of "t\<lparr>daDraws := d, daBuffers := l\<rparr>" t]\<close>)
  ultimately show ?thesis
    by (simp add: setupAccess_def b ok drawBytes_def allocBuffer_def Let_def split: jsval.split sum.split option.split)
qed

lemma quiet_unlock: "quiet_ok s \<Longrightarrow> quiet_ok (fst (unlockAccess env sid v s))"
proof -
  assume ok: "quiet_ok s"
  let ?s1 = "snd (readClock env s)"
  obtain r t where b: "beginCapabilityIssuance env sid ?s1 = (r, t)" by (cases "beginCapabilityIssuance env sid ?s1")
  have ok1: "quiet_ok ?s1" using ok quiet_host [OF hostOnly_reads(1)] by simp
  from b have "quiet_ok t"
    by (cases rule: begin_issuance_cases) (auto simp: quiet_drifts ok1 quiet_host quiet_frame [of "_\<lparr>daSequences := _\<rparr>" "_"])
  moreover have "quiet_ok (addTask (DerivingKey x y) t)" if "quiet_ok t" for x y
    by (rule quiet_add) (use that in simp_all)
  ultimately show ?thesis using b ok1
    by (auto simp: unlockAccess_def ok Let_def split_def split: jsval.split sum.split option.split)
qed

lemma quiet_kdf:
  fixes i :: nat
  shows "quiet_ok s \<Longrightarrow> quiet_ok (fst (kdfSettled env i d s))"
proof -
  assume ok: "quiet_ok s"
  have buf: "quiet_ok (s\<lparr>daBuffers := l\<rparr>)" for l by (rule quiet_same [OF ok]) simp_all
  have stays: "map_of (daTasks t) i = Some w" if "map_of (daTasks s) i = Some w" "drifts (s\<lparr>daBuffers := l\<rparr>) t" for t w l
    by (rule drift_task [OF that(2) buf]) (simp add: that(1))
  have fin: "quiet_ok (fst (finishRequest i k b r t))"
    if "map_of (daTasks s) i = Some (DerivingKey x y)" "drifts (s\<lparr>daBuffers := l\<rparr>) t" for k b r t x y l
    by (rule quiet_finish [OF quiet_drifts [OF that(2) buf] stays [OF that]]) simp
  have ent: "quiet_ok (enterIssuanceLock i c t)"
    if "map_of (daTasks s) i = Some (DerivingKey x y)" "hostOnly (s\<lparr>daBuffers := l\<rparr>) t" for c t x y l
    by (rule quiet_enter [OF quiet_drifts [OF _ buf] stays [OF that(1)]]) (rule drift_host [OF that(2)], rule drift_host [OF that(2)], simp)
  have "quiet_ok (fst (setupDerived env i x p salt dek s))" if t: "map_of (daTasks s) i = Some (DerivingKey x y)" for x y p salt dek
  proof (cases rule: setupDerived_cases [of env i x p salt dek s])
    case (failed t e kek)
    then show ?thesis by (simp add: fin [OF t failed(2)])
  next
    case (stored t u row)
    have "quiet_ok (enterIssuanceLock i c (t\<lparr>daConfig := Some row\<rparr>)) = quiet_ok (enterIssuanceLock i c t)" for c
      by (rule quiet_frame) (simp_all add: enterIssuanceLock_def setTask_def Let_def)
    then show ?thesis by (simp add: stored(1) ent [OF t stored(2)])
  qed
  moreover have "quiet_ok (fst (unlockDerived env i x p config key s))" if t: "map_of (daTasks s) i = Some (DerivingKey x y)" for x y p config key
  proof (cases rule: unlockDerived_cases [of env i x p config key s])
    case (wrong t e)
    then show ?thesis by (simp add: fin [OF t drift_host [OF wrong(2)]])
  next
    case (short n)
    then show ?thesis by (simp only: fin [OF t drifts_refl])
  next
    case (opened dek)
    then show ?thesis by (simp only: ent [OF t hostOnly_refl] fst_conv)
  qed
  ultimately show ?thesis
    using ok fin [OF _ drifts_refl, where l = "daBuffers s"] by (auto simp: kdfSettled_def split: option.split task.split request_kind.split)
qed

lemma quiet_continue:
  fixes i :: nat
  shows "quiet_ok s \<Longrightarrow> quiet_ok (fst (continueTask env i s))"
proof -
  assume ok: "quiet_ok s"
  have w: "waits_ok s" using ok by (simp add: quiet_ok_def)
  have fin: "quiet_ok (setTask i v (finalizeQuiescence a q s))"
    if "map_of (daTasks s) i = Some u" "waitsFor u = Some (a, q)" "waitsFor v = Some (a, q)" "\<not> isLease u" "\<not> isLease v" "drainedQ q s" for u v a q
    by (rule quiet_move [OF quiet_finalize [OF ok that(6)], where i = i and v = u and w = v])
      (use that finalize_waits [OF ok that(6)] waits_okD [OF w that(1,2)] in auto)
  have lim: "quiet_ok (s\<lparr>daLimiter := l\<rparr>)" for l by (rule quiet_same [OF ok]) simp_all
  have done1: "quiet_ok (fst (finishRequest i k b r t))"
    if "map_of (daTasks s) i = Some (Finishing x y)" "daTasks t = daTasks s" "quiet_ok t" for k b r t x y
    by (rule quiet_finish [OF that(3), of i "Finishing x y"]) (use that in simp_all)
  have gone: "quiet_ok (endTask i s)" if "map_of (daTasks s) i = Some (Quiesced x y)" for x y
    by (rule quiet_gone [OF ok that]) simp_all
  show ?thesis
  proof (cases "map_of (daTasks s) i")
    case (Some w)
    show ?thesis
    proof (cases w)
      case (Finishing c r)
      have "quiet_ok (case (r, icLimiterKey c) of (Inr _, Some key) \<Rightarrow> s\<lparr>daLimiter := reset (daLimiter s) key\<rparr> | _ \<Rightarrow> s)"
        "daTasks (case (r, icLimiterKey c) of (Inr _, Some key) \<Rightarrow> s\<lparr>daLimiter := reset (daLimiter s) key\<rparr> | _ \<Rightarrow> s) = daTasks s"
        by (simp_all add: lim ok split: sum.split option.split)
      then show ?thesis using Some Finishing done1 by (simp add: continueTask_def)
    qed (use Some ok quiet_turn [OF ok Some] quiet_replacement [OF ok Some] fin gone in \<open>simp_all add: continueTask_def\<close>)
  qed (simp add: continueTask_def ok)
qed

lemma quiet_begin_body:
  fixes sid :: int
  shows "quiet_ok s \<Longrightarrow> quiet_ok (fst (beginBodyOperation env sid v s))"
proof -
  assume ok: "quiet_ok s"
  obtain b :: bool and t where q: "isCapabilityValid env sid v s = (b, t)" by (cases "isCapabilityValid env sid v s")
  have "drifts s t" using valid_drifts q unfolding isCapabilityValid_def by (metis snd_conv)
  then have okt: "quiet_ok t" using quiet_drifts ok by blast
  show ?thesis
  proof (cases b)
    case True
    have "isCapabilityValidFor env sid v (case loadConfig env s of Inl _ \<Rightarrow> None | Inr c \<Rightarrow> c) s = (True, t)"
      using q True by (simp add: isCapabilityValid_def)
    then have "\<not> quiescing sid t" by (cases rule: valid_cases) (auto simp: quiescing_def hostOnly_fields)
    then show ?thesis using q True okt quiet_lease_begin [OF okt, of "\<lparr>blSessionId = sid, blToken = _, blCapability = _, blEpoch = _, blDek = _, blReads = _\<rparr>"]
      by (auto simp: beginBodyOperation_def Let_def split: jsval.split option.split)
  qed (simp add: beginBodyOperation_def q okt)
qed

theorem quiet_step: "quiet_ok s \<Longrightarrow> quiet_ok (fst (diary_step env e s))"
proof (cases e)
  case (Status sid v)
  assume ok: "quiet_ok s"
  have "quiet_ok (snd (isCapabilityValidFor env sid v c s))" for c by (rule quiet_drifts [OF valid_drifts ok])
  then show ?thesis using ok
    by (auto simp: Status accessStatus_def split: sum.split option.split prod.split bool.split) (metis snd_conv)+
next
  case (Present sid v)
  assume ok: "quiet_ok s"
  then show ?thesis using quiet_drifts [OF valid_drifts ok] by (simp add: Present isCapabilityValid_def split_def)
next
  case (TimerFires n)
  assume ok: "quiet_ok s"
  have f: "quiet_ok (s\<lparr>daTimers := a, daCapabilities := b, daClock := c\<rparr>)" "quiet_ok (s\<lparr>daTimers := a\<rparr>)" for a b c
    by (rule quiet_same [OF ok]; simp)+
  have g: "quiet_ok (scheduleCapabilityExpiry env t u) = quiet_ok u" for t u by (rule quiet_frame) simp_all
  show ?thesis using ok f
    by (auto simp: TimerFires timerFires_def readClock_def Let_def g quiet_invalidate split: option.split)
next
  case (BodyEncrypt i raw c)
  assume ok: "quiet_ok s"
  then show ?thesis using quiet_host [of s "snd (drawBytes env DIARY_BODY_NONCE_BYTES s)"]
    by (auto simp: BodyEncrypt bodyEncrypt_def withLease_def Let_def split_def split: option.split task.split)
next
  case (BodyReadStart i c)
  assume ok: "quiet_ok s"
  then show ?thesis by (auto simp: BodyReadStart bodyReadStart_def withLease_def quiet_lease_same split: option.split task.split)
next
  case (BodyEnd i)
  assume ok: "quiet_ok s"
  then show ?thesis by (auto simp: BodyEnd endBodyOperation_def quiet_lease_end split: option.split task.split)
qed (auto simp: quiet_setup quiet_unlock quiet_kdf quiet_continue quiet_begin_body lockAccess_def quiet_invalidate
      bodyDecrypt_def bodyReadEnd_def withLease_def split: option.split task.split sum.split)

end
