(* ===== verification/DiaryFence.thy ===== *)
theory DiaryFence
  imports DiaryQuiet
begin

text \<open>
  What a lock fences off: once it has been answered, no capability issued by an earlier request and no earlier
  body operation of the session is left, and none can come back.
\<close>

section \<open>Tickets\<close>

text \<open>The ticket a request publishes under, and the generation it is permitted.\<close>

fun ticketOf :: "task \<Rightarrow> (CapabilityIssuance \<times> nat) option" where
  "ticketOf (DerivingKey i k) = Some (i, isLifecycleGeneration i)"
| "ticketOf (AwaitingTurn c t) = Some (icIssuance c, isLifecycleGeneration (icIssuance c))"
| "ticketOf (AwaitingDrained c t q p) = Some (icIssuance c, p)"
| "ticketOf (AwaitingCompleted c t q p) = Some (icIssuance c, p)"
| "ticketOf _ = None"

definition gensLe :: "(int \<times> nat) list \<Rightarrow> (int \<times> nat) list \<Rightarrow> bool" where
  "gensLe g h \<longleftrightarrow> (\<forall>a. countOf g a \<le> countOf h a)"

lemma gensLe_refl [simp]: "gensLe g g"
  by (simp add: gensLe_def)

lemma gensLe_trans: "gensLe g h \<Longrightarrow> gensLe h k \<Longrightarrow> gensLe g k"
  by (auto simp: gensLe_def intro: le_trans)

lemma publish_generations: "daGenerations (snd (publishCapability env i c x s)) = daGenerations s"
  by (simp add: publishCapability_def drawBytes_def Let_def)

text \<open>
  A law about tickets that generations only make truer, that a new request satisfies, and that a request keeps
  when its replacement of a capability starts a generation of its own.
\<close>

locale ticket_law =
  fixes law :: "(int \<times> nat) list \<Rightarrow> nat \<Rightarrow> CapabilityIssuance \<Rightarrow> nat \<Rightarrow> bool" and start :: nat
  assumes grows: "law g i t p \<Longrightarrow> gensLe g h \<Longrightarrow> law h i t p"
    and fresh: "start \<le> i \<Longrightarrow> isLifecycleGeneration t = countOf g (isSessionId t) \<Longrightarrow> isSessionNumber (isSessionId t) \<Longrightarrow>
      law g i t (isLifecycleGeneration t)"
    and renewed: "law g i t (countOf g (isSessionId t)) \<Longrightarrow> gensLe g h \<Longrightarrow> law h i t (countOf h (isSessionId t))"

definition all_tickets :: "((int \<times> nat) list \<Rightarrow> nat \<Rightarrow> CapabilityIssuance \<Rightarrow> nat \<Rightarrow> bool) \<Rightarrow> diary_access \<Rightarrow> bool" where
  "all_tickets law s \<longleftrightarrow> (\<forall>i w t p. map_of (daTasks s) i = Some w \<longrightarrow> ticketOf w = Some (t, p) \<longrightarrow> law (daGenerations s) i t p)"

lemma all_ticketsD: "all_tickets law s \<Longrightarrow> map_of (daTasks s) i = Some w \<Longrightarrow> ticketOf w = Some (t, p) \<Longrightarrow> law (daGenerations s) i t p"
  by (simp add: all_tickets_def)

lemma all_ticketsI: "(\<And>i w t p. map_of (daTasks s) i = Some w \<Longrightarrow> ticketOf w = Some (t, p) \<Longrightarrow> law (daGenerations s) i t p) \<Longrightarrow>
    all_tickets law s"
  by (simp add: all_tickets_def)

lemma all_tickets_same: "daTasks t = daTasks s \<Longrightarrow> daGenerations t = daGenerations s \<Longrightarrow> all_tickets law t = all_tickets law s"
  by (simp add: all_tickets_def)

lemma all_tickets_host: "hostOnly s t \<Longrightarrow> all_tickets law t = all_tickets law s"
  by (rule all_tickets_same) (simp_all add: hostOnly_fields)

lemma begin_gensLe: "gensLe (daGenerations s) (daGenerations (snd (beginSessionInvalidation sid s)))"
  by (simp add: gensLe_def)

context ticket_law
begin

lemma move:
  assumes "all_tickets law s" "map_of (daTasks t) = (map_of (daTasks s))(i := w)" "gensLe (daGenerations s) (daGenerations t)"
    "\<And>v x p. w = Some v \<Longrightarrow> ticketOf v = Some (x, p) \<Longrightarrow> law (daGenerations t) i x p"
  shows "all_tickets law t"
proof (rule all_ticketsI)
  fix j v x p assume j: "map_of (daTasks t) j = Some v" "ticketOf v = Some (x, p)"
  show "law (daGenerations t) j x p"
  proof (cases "j = i")
    case True
    then show ?thesis using assms(2,4) j by simp
  next
    case False
    then show ?thesis using assms(2) j grows [OF all_ticketsD [OF assms(1) _ j(2)] assms(3)] by simp
  qed
qed

lemma same_ticket:
  assumes "all_tickets law s" "map_of (daTasks s) i = Some v" "map_of (daTasks t) = (map_of (daTasks s))(i \<mapsto> w)"
    "ticketOf w = ticketOf v \<or> ticketOf w = None" "daGenerations t = daGenerations s"
  shows "all_tickets law t"
  by (rule move [OF assms(1,3)]) (use assms all_ticketsD [OF assms(1,2)] in auto)

lemma begin_kept: "all_tickets law s \<Longrightarrow> all_tickets law (snd (beginSessionInvalidation sid s))"
proof (rule all_ticketsI)
  assume a: "all_tickets law s"
  fix i w t p assume "map_of (daTasks (snd (beginSessionInvalidation sid s))) i = Some w" "ticketOf w = Some (t, p)"
  then have "law (daGenerations s) i t p" using all_ticketsD [OF a] by simp
  then show "law (daGenerations (snd (beginSessionInvalidation sid s))) i t p" by (rule grows [OF _ begin_gensLe])
qed

lemma invalidate_kept: "all_tickets law s \<Longrightarrow> all_tickets law (invalidateAuthSession sid s)"
proof (cases "isSessionNumber sid")
  case True
  assume a: "all_tickets law s"
  show ?thesis unfolding invalidate_unfold [OF True]
    by (rule move [OF begin_kept [OF a, of sid] taskAdd(1)]) (simp_all only: addTask_fields gensLe_refl option.inject, auto)
qed (simp add: invalidate_none)

lemma drift_kept: "drifts s t \<Longrightarrow> all_tickets law s \<Longrightarrow> all_tickets law t"
proof (erule drifts_keeps [where P = "all_tickets law"], assumption)
  fix s t assume "hostOnly s t" "all_tickets law s"
  then show "all_tickets law t" using all_tickets_host by blast
qed (rule invalidate_kept)

lemma leave_kept: "all_tickets law s \<Longrightarrow> all_tickets law (leaveIssuance i c ticket r s)"
  by (rule move [OF _ taskLeave]) auto

lemma publish_kept:
  assumes "all_tickets law s"
  shows "all_tickets law (publishIfCurrent env i c ticket g s)"
proof -
  obtain e s1 where a: "assertCapabilityIssuanceCurrent env (icIssuance c) g s = (e, s1)"
    by (cases "assertCapabilityIssuanceCurrent env (icIssuance c) g s")
  have k1: "all_tickets law s1" using drift_kept [OF assert_drifts assms] a by (metis snd_conv)
  obtain x s2 where r: "requireCurrentAuthSession env (isSessionId (icIssuance c)) s1 = (x, s2)"
    by (cases "requireCurrentAuthSession env (isSessionId (icIssuance c)) s1")
  have k2: "all_tickets law s2" using drift_kept [OF require_drifts k1] r by (metis snd_conv)
  have "all_tickets law (snd (publishCapability env i c y s2))" for y
    using k2 all_tickets_same [of "snd (publishCapability env i c y s2)" s2] by (simp add: publish_fields publish_generations)
  then show ?thesis
    using k1 k2 by (simp add: publishIfCurrent_def a r leave_kept split_def Let_def split: option.split)
qed

lemma turn_kept:
  assumes "all_tickets law s" "map_of (daTasks s) i = Some (AwaitingTurn c ticket)"
  shows "all_tickets law (issuanceTurn env i c ticket s)"
proof -
  let ?iss = "icIssuance c"
  let ?sid = "isSessionId ?iss" and ?g = "isLifecycleGeneration ?iss"
  obtain e s1 where a: "assertCapabilityIssuanceCurrent env ?iss ?g s = (e, s1)"
    by (cases "assertCapabilityIssuanceCurrent env ?iss ?g s")
  have k1: "all_tickets law s1" using drift_kept [OF assert_drifts assms(1)] a by (metis snd_conv)
  have "all_tickets law (setTask i (AwaitingDrained c ticket q (countOf (daGenerations s2) ?sid)) s2)"
    if e: "e = None" and s2: "s2 = snd (beginSessionInvalidation ?sid s1)" for q s2
  proof -
    have g: "daGenerations s1 = daGenerations s" "?g = countOf (daGenerations s) ?sid"
      using a e by (cases rule: assert_cases; auto simp: hostOnly_fields ticketCurrent_def)+
    have "law (daGenerations s1) i ?iss (countOf (daGenerations s1) ?sid)"
      using all_ticketsD [OF assms, of ?iss ?g] g by simp
    then have "law (daGenerations s2) i ?iss (countOf (daGenerations s2) ?sid)"
      unfolding s2 by (rule renewed [OF _ begin_gensLe])
    then show ?thesis
      by (intro move [OF begin_kept [OF k1, of ?sid] taskSet [of i _ "snd (beginSessionInvalidation ?sid s1)"], folded s2]) auto
  qed
  then show ?thesis using k1 by (simp add: issuanceTurn_def Let_def a leave_kept publish_kept split_def split: option.split)
qed

lemma finish_kept: "all_tickets law s \<Longrightarrow> all_tickets law (fst (finishRequest i kek dek r s))"
  by (rule move [of s _ i None]) (simp_all add: finishRequest_def Let_def split: option.split)

lemma enter_kept:
  assumes "all_tickets law s" "map_of (daTasks s) i = Some v" "ticketOf v = Some (icIssuance c, isLifecycleGeneration (icIssuance c))"
  shows "all_tickets law (enterIssuanceLock i c s)"
  by (rule same_ticket [OF assms(1,2) taskEnter]) (simp_all add: assms)

lemma kdf_kept:
  assumes ok: "quiet_ok s" and a: "all_tickets law s"
  shows "all_tickets law (fst (kdfSettled env i d s))"
proof -
  have buf: "quiet_ok (s\<lparr>daBuffers := l\<rparr>)" for l by (rule quiet_same [OF ok]) simp_all
  have abuf: "all_tickets law (s\<lparr>daBuffers := l\<rparr>)" for l using a all_tickets_same [of "s\<lparr>daBuffers := l\<rparr>" s] by simp
  have stays: "map_of (daTasks t) i = Some w" if "map_of (daTasks s) i = Some w" "drifts (s\<lparr>daBuffers := l\<rparr>) t" for t w l
    by (rule drift_task [OF that(2) buf]) (simp add: that(1))
  have "all_tickets law (fst (setupDerived env i x p salt dek s))" if t: "map_of (daTasks s) i = Some (DerivingKey x y)" for x y p salt dek
  proof (cases rule: setupDerived_cases [of env i x p salt dek s])
    case (failed t e kek)
    then show ?thesis by (simp add: finish_kept drift_kept [OF failed(2) abuf])
  next
    case (stored u v row)
    have "all_tickets law (u\<lparr>daConfig := Some row\<rparr>)"
      using drift_kept [OF drift_host [OF stored(2)] abuf] all_tickets_same [of "u\<lparr>daConfig := Some row\<rparr>" u] by simp
    moreover have "map_of (daTasks (u\<lparr>daConfig := Some row\<rparr>)) i = Some (DerivingKey x y)"
      using stays [OF t drift_host [OF stored(2)]] by simp
    ultimately show ?thesis unfolding stored(1) fst_conv by (rule enter_kept) simp
  qed
  moreover have "all_tickets law (fst (unlockDerived env i x p config key s))" if t: "map_of (daTasks s) i = Some (DerivingKey x y)" for x y p config key
  proof (cases rule: unlockDerived_cases [of env i x p config key s])
    case (wrong t e)
    then show ?thesis by (simp add: finish_kept drift_kept [OF drift_host [OF wrong(2)] abuf])
  next
    case (short n)
    then show ?thesis by (simp only: finish_kept [OF abuf])
  next
    case (opened dek)
    show ?thesis unfolding opened(1) fst_conv by (rule enter_kept [OF abuf, where v = "DerivingKey x y"]) (simp_all add: t)
  qed
  ultimately show ?thesis
    using a finish_kept [OF a] by (auto simp: kdfSettled_def split: option.split task.split request_kind.split)
qed

lemma continue_kept:
  assumes a: "all_tickets law s"
  shows "all_tickets law (fst (continueTask env i s))"
proof (cases "map_of (daTasks s) i")
  case (Some w)
  have fin: "all_tickets law (finalizeQuiescence x q s)" for x q
    using a all_tickets_same [of "finalizeQuiescence x q s" s] by simp
  show ?thesis
  proof (cases w)
    case (AwaitingTurn c ticket)
    then show ?thesis using Some a turn_kept by (simp add: continueTask_def)
  next
    case (AwaitingDrained c ticket q p)
    have "all_tickets law (setTask i (AwaitingCompleted c ticket q p) (finalizeQuiescence x q s))" for x
      by (rule same_ticket [OF fin, where i = i and v = w and w = "AwaitingCompleted c ticket q p"]) (simp_all add: Some AwaitingDrained)
    then show ?thesis using Some a AwaitingDrained by (simp add: continueTask_def)
  next
    case (AwaitingCompleted c ticket q p)
    obtain e s1 where b: "assertCapabilityIssuanceCurrent env (icIssuance c) p s = (e, s1)"
      by (cases "assertCapabilityIssuanceCurrent env (icIssuance c) p s")
    have "all_tickets law s1" using drift_kept [OF assert_drifts a] b by (metis snd_conv)
    then have "all_tickets law (replacementTurn env i c ticket p s)"
      by (simp add: replacementTurn_def b leave_kept publish_kept split: option.split)
    then show ?thesis using Some a AwaitingCompleted by (simp add: continueTask_def)
  next
    case (Finishing c r)
    have "all_tickets law (s\<lparr>daLimiter := l\<rparr>)" for l using a all_tickets_same [of "s\<lparr>daLimiter := l\<rparr>" s] by simp
    then show ?thesis using Some a Finishing by (simp add: continueTask_def finish_kept split: sum.split option.split)
  next
    case (Quiescing x q)
    have "all_tickets law (setTask i (Quiesced x q) (finalizeQuiescence x q s))"
      by (rule same_ticket [OF fin, where i = i and v = w and w = "Quiesced x q"]) (simp_all add: Some Quiescing)
    then show ?thesis using Some a Quiescing by (simp add: continueTask_def)
  next
    case (Quiesced x q)
    have "all_tickets law (endTask i s)" by (rule move [OF a taskEnd]) simp_all
    then show ?thesis using Some a Quiesced by (simp add: continueTask_def)
  qed (simp_all add: continueTask_def Some a)
qed (simp add: continueTask_def a)

lemma begin_issuance_kept:
  assumes "all_tickets law s" "beginCapabilityIssuance env sid s = (r, t)"
  shows "all_tickets law t"
  using assms(2)
proof (cases rule: begin_issuance_cases)
  case (begun u)
  then show ?thesis using assms(1) all_tickets_host [OF begun(2)] all_tickets_same [of t u] by simp
qed (rule drift_kept [OF _ assms(1)])

lemma new_request:
  assumes s: "all_tickets law s" "start \<le> daNextTask s" and b: "beginCapabilityIssuance env sid s = (Inr x, t)" and n: "isSessionNumber sid"
  shows "all_tickets law (addTask (DerivingKey x k) (t\<lparr>daDraws := d, daBuffers := l\<rparr>))"
proof -
  have t: "all_tickets law t" by (rule begin_issuance_kept [OF s(1) b])
  from b have x: "isSessionId x = sid" "isLifecycleGeneration x = countOf (daGenerations t) sid" "daNextTask t = daNextTask s"
    by (cases rule: begin_issuance_cases; simp add: hostOnly_fields)+
  have "all_tickets law (t\<lparr>daDraws := d, daBuffers := l\<rparr>)" using t all_tickets_same [of "t\<lparr>daDraws := d, daBuffers := l\<rparr>" t] by simp
  then show ?thesis
    by (rule move [OF _ taskAdd(1)]) (use fresh [of "daNextTask s" x "daGenerations t"] s(2) x n in auto)
qed

theorem step_kept:
  assumes ok: "quiet_ok s" and a: "all_tickets law s" and st: "start \<le> daNextTask s"
  shows "all_tickets law (fst (diary_step env e s))"
proof (cases e)
  case (Setup sid v)
  obtain r t where b: "beginCapabilityIssuance env sid s = (r, t)" by (cases "beginCapabilityIssuance env sid s")
  have nr: "all_tickets law (addTask (DerivingKey x k) (t\<lparr>daDraws := d, daBuffers := l\<rparr>))" if "r = Inr x" "isSessionNumber sid" for x k d l
    using new_request [OF a st] b that by simp
  show ?thesis
    using a begin_issuance_kept [OF a b] nr b
    by (simp add: Setup setupAccess_def drawBytes_def allocBuffer_def Let_def split: jsval.split sum.split option.split)
next
  case (Unlock sid v)
  let ?s1 = "snd (readClock env s)"
  have a1: "all_tickets law ?s1" using a all_tickets_host [OF hostOnly_reads(1)] by blast
  have n1: "start \<le> daNextTask ?s1" using st by (simp add: readClock_def)
  obtain r t where b: "beginCapabilityIssuance env sid ?s1 = (r, t)" by (cases "beginCapabilityIssuance env sid ?s1")
  have nr: "all_tickets law (addTask (DerivingKey x k) t)" if "r = Inr x" "isSessionNumber sid" for x k
    using new_request [OF a1 n1, where d = "daDraws t" and l = "daBuffers t" and x = x and t = t and k = k] b that by simp
  show ?thesis
    using a a1 begin_issuance_kept [OF a1 b] nr b
    by (auto simp: Unlock unlockAccess_def Let_def split_def split: jsval.split sum.split option.split)
next
  case (KdfSettled i d)
  then show ?thesis using kdf_kept [OF ok a] by simp
next
  case (Continue i)
  then show ?thesis using continue_kept [OF a] by simp
next
  case (TimerFires n)
  have f: "all_tickets law (s\<lparr>daTimers := x, daCapabilities := b, daClock := c\<rparr>)" "all_tickets law (s\<lparr>daTimers := x\<rparr>)" for x b c
    using a by (simp_all add: all_tickets_def)
  have g: "all_tickets law (scheduleCapabilityExpiry env t u) = all_tickets law u" for t u by (rule all_tickets_same) simp_all
  show ?thesis using a f
    by (simp add: TimerFires timerFires_def readClock_def Let_def g invalidate_kept split: option.split prod.split)
next
  case (Status sid v)
  have "all_tickets law (snd (isCapabilityValidFor env sid v c s))" for c by (rule drift_kept [OF valid_drifts a])
  then show ?thesis using a
    by (auto simp: Status accessStatus_def split: sum.split option.split prod.split bool.split) (metis snd_conv)+
next
  case (Present sid v)
  then show ?thesis using drift_kept [OF valid_drifts a] by (simp add: isCapabilityValid_def split_def)
next
  case (BodyBegin sid v)
  obtain b t where q: "isCapabilityValid env sid v s = (b, t)" by (cases "isCapabilityValid env sid v s")
  have t: "all_tickets law t" using drift_kept [OF valid_drifts a] q unfolding isCapabilityValid_def by (metis snd_conv)
  have x: "all_tickets law (t\<lparr>daActive := x\<rparr>)" for x using t all_tickets_same [of "t\<lparr>daActive := x\<rparr>" t] by simp
  have "all_tickets law (addTask (BodyOperation l) (t\<lparr>daActive := x\<rparr>))" for l x
    by (rule move [OF x taskAdd(1)]) auto
  then show ?thesis using t by (simp add: BodyBegin beginBodyOperation_def q Let_def split: bool.split jsval.split option.split)
next
  case (BodyEncrypt i raw c)
  have "all_tickets law (snd (drawBytes env DIARY_BODY_NONCE_BYTES s))" using a all_tickets_host [OF hostOnly_reads(2)] by blast
  then show ?thesis using a by (simp add: BodyEncrypt bodyEncrypt_def withLease_def Let_def split_def split: option.split task.split)
next
  case (BodyReadStart i c)
  have "all_tickets law (setTask i (BodyOperation l) s)" for l by (rule move [OF a taskSet]) auto
  then show ?thesis using a by (simp add: BodyReadStart bodyReadStart_def withLease_def split: option.split task.split)
next
  case (BodyEnd i)
  have "all_tickets law (releaseBodyOperation x (endTask i s))" for x
    by (rule move [OF a, of _ i None]) simp_all
  then show ?thesis using a by (simp add: BodyEnd endBodyOperation_def split: option.split task.split)
qed (use a in \<open>simp_all add: lockAccess_def invalidate_kept bodyDecrypt_def bodyReadEnd_def withLease_def
      split: option.split task.split sum.split\<close>)

end

text \<open>Two laws: a generation has been reached, and the requests up to the \<open>N\<close>th of a session are behind it.\<close>

definition reachedLaw :: "(int \<times> nat) list \<Rightarrow> nat \<Rightarrow> CapabilityIssuance \<Rightarrow> nat \<Rightarrow> bool" where
  "reachedLaw g i t p \<longleftrightarrow> p \<le> countOf g (isSessionId t) \<and> isSessionNumber (isSessionId t)"

definition staleLaw :: "int \<Rightarrow> nat \<Rightarrow> (int \<times> nat) list \<Rightarrow> nat \<Rightarrow> CapabilityIssuance \<Rightarrow> nat \<Rightarrow> bool" where
  "staleLaw sid N g i t p \<longleftrightarrow> (i \<le> N \<longrightarrow> isSessionId t = sid \<longrightarrow> p < countOf g sid)"

interpretation reached: ticket_law reachedLaw 0
  by unfold_locales (auto simp: reachedLaw_def gensLe_def intro: le_trans)

interpretation stale: ticket_law "staleLaw sid N" "Suc N" for sid N
  by unfold_locales (auto simp: staleLaw_def gensLe_def intro: less_le_trans)

section \<open>Steps that issue nothing\<close>

text \<open>
  A step that publishes no capability and ends no quiescence: capabilities only go, leases are only begun by new
  tasks, and what was quiescing still is.
\<close>

definition owners :: "diary_access \<Rightarrow> (nat \<times> int) set" where
  "owners s = (\<lambda>(k, c). (cpRequest c, cpSessionId c)) ` set (daCapabilities s)"

definition capsShrink :: "diary_access \<Rightarrow> diary_access \<Rightarrow> bool" where
  "capsShrink s t \<longleftrightarrow> owners t \<subseteq> owners s"

text \<open>The rest of a step that ends no quiescence; of the tasks there were, it touches \<open>m\<close> at most.\<close>

definition steady :: "nat option \<Rightarrow> diary_access \<Rightarrow> diary_access \<Rightarrow> bool" where
  "steady m s t \<longleftrightarrow> daNextTask s \<le> daNextTask t
     \<and> (\<forall>j<daNextTask s. m \<noteq> Some j \<longrightarrow> map_of (daTasks t) j = map_of (daTasks s) j)
     \<and> (\<forall>a. leases a t \<subseteq> leases a s \<union> {i. daNextTask s \<le> i})
     \<and> (\<forall>a q. map_of (daQuiescences s) a = Some q \<longrightarrow> map_of (daQuiescences t) a = Some q)
     \<and> length (daQuiescenceObjects s) \<le> length (daQuiescenceObjects t)
     \<and> (\<forall>q<length (daQuiescenceObjects s). sqFinalized (quiescence t q) = sqFinalized (quiescence s q))"

definition calm :: "nat option \<Rightarrow> diary_access \<Rightarrow> diary_access \<Rightarrow> bool" where
  "calm m s t \<longleftrightarrow> capsShrink s t \<and> steady m s t"

lemma capsShrink_refl [simp]: "capsShrink s s"
  by (simp add: capsShrink_def)

lemma capsShrink_trans: "capsShrink s t \<Longrightarrow> capsShrink t u \<Longrightarrow> capsShrink s u"
  by (auto simp: capsShrink_def)

lemma steady_refl [simp]: "steady m s s"
  by (simp add: steady_def)

lemma steady_trans:
  assumes "steady m s t" "steady m t u"
  shows "steady m s u"
proof -
  have "leases a u \<subseteq> leases a s \<union> {i. daNextTask s \<le> i}" for a
    using assms unfolding steady_def by (blast intro: le_trans)
  then show ?thesis using assms unfolding steady_def by (auto intro: le_trans less_le_trans)
qed

lemma calm_refl [simp]: "calm m s s"
  by (simp add: calm_def)

lemma calm_trans: "calm m s t \<Longrightarrow> calm m t u \<Longrightarrow> calm m s u"
  unfolding calm_def by (blast intro: capsShrink_trans steady_trans)

lemma calm_frame:
  assumes "capsShrink s t" "daTasks t = daTasks s" "daNextTask t = daNextTask s" "daQuiescences t = daQuiescences s"
    "daQuiescenceObjects t = daQuiescenceObjects s"
  shows "calm m s t"
  using assms by (simp add: calm_def steady_def leases_def)

lemma capsShrink_same: "daCapabilities t = daCapabilities s \<Longrightarrow> capsShrink s t"
  by (simp add: capsShrink_def owners_def)

lemma calm_host: "hostOnly s t \<Longrightarrow> calm m s t"
  by (rule calm_frame) (simp_all add: hostOnly_fields capsShrink_same)

lemma calm_begin: "calm m s (snd (beginSessionInvalidation sid s))"
proof -
  let ?t = "snd (beginSessionInvalidation sid s)"
  have "leases a ?t = leases a s" for a by (simp add: leases_def)
  moreover have "map_of (daQuiescences s) a = Some q \<Longrightarrow> map_of (daQuiescences ?t) a = Some q" for a q
    using begin_known [of s sid q] by (auto simp: begin_map)
  moreover have "length (daQuiescenceObjects s) \<le> length (daQuiescenceObjects ?t)
      \<and> (\<forall>q<length (daQuiescenceObjects s). sqFinalized (quiescence ?t q) = sqFinalized (quiescence s q))"
    using begin_known [of s sid] begin_new [of s sid] by (cases "map_of (daQuiescences s) sid") (auto simp: nth_append)
  ultimately show ?thesis by (simp add: calm_def steady_def capsShrink_same)
qed

lemma calm_tasks:
  assumes "map_of (daTasks t) = (map_of (daTasks s))(i := w)" "daNextTask s \<le> daNextTask t" "capsShrink s t"
    "daQuiescences t = daQuiescences s" "daQuiescenceObjects t = daQuiescenceObjects s"
    "\<And>l. w = Some (BodyOperation l) \<Longrightarrow> daNextTask s \<le> i \<or> i \<in> leases (blSessionId l) s"
    "daNextTask s \<le> i \<or> m = Some i"
  shows "calm m s t"
  using assms by (auto simp: calm_def steady_def leases_def split: if_splits)

lemma calm_invalidate: "calm m s (invalidateAuthSession sid s)"
proof (cases "isSessionNumber sid")
  case True
  show ?thesis unfolding invalidate_unfold [OF True]
    by (rule calm_trans [OF calm_begin calm_tasks [OF taskAdd(1)]]) (simp_all add: capsShrink_same)
qed (simp add: invalidate_none)

lemma calm_drifts: "drifts s t \<Longrightarrow> calm m s t"
  by (induction rule: drifts.induct) (auto intro: calm_host calm_invalidate calm_trans)

lemma set_mapSet: "set (mapSet k v m) \<subseteq> insert (k, v) (set m)"
  by (induction k v m rule: mapSet.induct) auto

lemma set_mapDelete: "set (mapDelete k m) = {p \<in> set m. fst p \<noteq> k}"
  by (auto simp: mapDelete_def)

lemma drop_entries: "set (daCapabilities (dropCapability token s)) = {p \<in> set (daCapabilities s). fst p \<noteq> token}"
  by (simp add: dropCapability_def set_mapDelete split: option.split)

lemma drops_entries: "set (daCapabilities (fold dropCapability ts s)) = {p \<in> set (daCapabilities s). fst p \<notin> set ts}"
  by (induction ts arbitrary: s) (auto simp: drop_entries)

lemma dropSession_entries:
  "p \<in> set (daCapabilities (dropSessionCapabilities sid s)) \<Longrightarrow> p \<in> set (daCapabilities s) \<and> cpSessionId (snd p) \<noteq> sid"
  by (cases p) (auto simp: dropSessionCapabilities_def drops_entries sessionTokens_def image_iff)

lemma shrink_subset: "set (daCapabilities t) \<subseteq> set (daCapabilities s) \<Longrightarrow> capsShrink s t"
  by (auto simp: capsShrink_def owners_def)

lemma shrink_retimed:
  assumes "map_of (daCapabilities s) token = Some c" "daCapabilities t = mapSet token (c\<lparr>cpTimer := x\<rparr>) (daCapabilities s)"
  shows "capsShrink s t"
  using set_mapSet [of token "c\<lparr>cpTimer := x\<rparr>" "daCapabilities s"] map_of_SomeD [OF assms(1)] unfolding capsShrink_def owners_def assms(2)
  by force

lemma schedule_cases:
  obtains (none) "map_of (daCapabilities s) token = None" "scheduleCapabilityExpiry env token s = s"
  | (dropped) c where "map_of (daCapabilities s) token = Some c"
      "scheduleCapabilityExpiry env token s = dropCapability token (s\<lparr>daClock := Suc (daClock s)\<rparr>)"
      "cpExpiresAt c \<le> aeNow (deAuth env) (daClock s)"
  | (timed) c d where "map_of (daCapabilities s) token = Some c"
      "scheduleCapabilityExpiry env token s = setCapabilityTimer token c d (s\<lparr>daClock := Suc (daClock s)\<rparr>)"
      "aeNow (deAuth env) (daClock s) < cpExpiresAt c"
proof (cases "map_of (daCapabilities s) token")
  case (Some c)
  show thesis
  proof (cases "cpExpiresAt c \<le> aeNow (deAuth env) (daClock s)")
    case True
    then show thesis by (intro dropped [OF Some]) (simp_all add: scheduleCapabilityExpiry_def Some readClock_def)
  next
    case False
    then show thesis
      by (intro timed [OF Some, of "min (cpExpiresAt c - aeNow (deAuth env) (daClock s)) MAX_CAPABILITY_EXPIRY_TIMER_MS"])
        (simp_all add: scheduleCapabilityExpiry_def Some readClock_def)
  qed
next
  case None
  then show thesis by (intro none) (simp_all add: scheduleCapabilityExpiry_def)
qed

lemma shrink_schedule: "capsShrink s (scheduleCapabilityExpiry env token s)"
proof (cases rule: schedule_cases [of s token env])
  case (dropped c)
  then show ?thesis by (intro shrink_subset) (auto simp: drop_entries)
next
  case (timed c d)
  show ?thesis by (rule shrink_retimed [OF timed(1), where x = "Some (daNextTimer s)"]) (simp add: timed(2) setCapabilityTimer_def)
qed simp

lemma calm_schedule: "calm m s (scheduleCapabilityExpiry env token s)"
  by (rule calm_frame) (simp_all add: shrink_schedule)

lemma calm_finish: "calm (Some i) s (fst (finishRequest i kek dek r s))"
  by (rule calm_tasks [where i = i and w = None]) (simp_all add: finishRequest_def Let_def capsShrink_same split: option.split)

lemma calm_leave: "calm (Some i) s (leaveIssuance i c ticket r s)"
  by (rule calm_tasks [OF taskLeave]) (simp_all add: capsShrink_same)

lemma calm_enter: "calm (Some i) s (enterIssuanceLock i c s)"
  by (rule calm_tasks [OF taskEnter]) (simp_all add: capsShrink_same)

lemma calm_set: "\<not> isLease w \<Longrightarrow> calm (Some i) s (setTask i w s)"
  by (rule calm_tasks [OF taskSet]) (auto simp: capsShrink_same)

lemma calm_end: "calm (Some i) s (endTask i s)"
  by (rule calm_tasks [OF taskEnd]) (auto simp: capsShrink_same)

lemma calm_release: "calm m s (releaseBodyOperation sid s)"
proof -
  have "leases a (releaseBodyOperation sid s) = leases a s" for a by (simp add: leases_def)
  moreover have "length (daQuiescenceObjects (releaseBodyOperation sid s)) = length (daQuiescenceObjects s)
      \<and> (\<forall>q. sqFinalized (quiescence (releaseBodyOperation sid s) q) = sqFinalized (quiescence s q))"
    by (auto simp: releaseBodyOperation_def Let_def nth_list_update split: option.split)
      (metis SessionQuiescence.select_convs(3) SessionQuiescence.surjective SessionQuiescence.update_convs(1) nth_list_update nth_list_update_neq list_update_beyond not_less)+
  ultimately show ?thesis by (simp add: calm_def steady_def capsShrink_same)
qed

end
