(* ===== verification/DiaryLock.thy ===== *)
theory DiaryLock
  imports DiaryFence
begin

text \<open>
  Every step of the diary service either issues nothing, or ends a drained quiescence, or publishes a capability
  under a current ticket. From this: what is left of a session when a lock has been answered.
\<close>

section \<open>Steps, by what they do to capabilities\<close>

lemma calm_same: "daCapabilities t = daCapabilities s \<Longrightarrow> daTasks t = daTasks s \<Longrightarrow> daNextTask t = daNextTask s \<Longrightarrow>
    daQuiescences t = daQuiescences s \<Longrightarrow> daQuiescenceObjects t = daQuiescenceObjects s \<Longrightarrow> calm m s t"
  by (rule calm_frame) (simp_all add: capsShrink_same)

lemma calm_add: "calm m s (addTask w s)"
  by (rule calm_tasks [OF taskAdd(1)]) (simp_all add: capsShrink_same)

lemma calm_begin_issuance: "beginCapabilityIssuance env sid s = (r, t) \<Longrightarrow> calm m s t"
proof (erule begin_issuance_cases)
  fix u assume h: "hostOnly s u" "t = u\<lparr>daSequences := mapSet sid (Suc (countOf (daSequences s) sid)) (daSequences s)\<rparr>"
  show "calm m s t" by (rule calm_trans [OF calm_host [OF h(1)]]) (rule calm_same; simp add: h(2))
qed (rule calm_drifts)

lemma calm_setup: "calm m s (fst (setupAccess env sid v s))"
proof -
  obtain r t where b: "beginCapabilityIssuance env sid s = (r, t)" by (cases "beginCapabilityIssuance env sid s")
  have t: "calm m s t" by (rule calm_begin_issuance [OF b])
  have "calm m s (addTask w (t\<lparr>daDraws := d, daBuffers := l\<rparr>))" for w d l
    by (rule calm_trans [OF calm_trans [OF t calm_same] calm_add]) simp_all
  then show ?thesis using t
    by (simp add: setupAccess_def b drawBytes_def allocBuffer_def Let_def split: jsval.split sum.split option.split)
qed

lemma calm_unlock: "calm m s (fst (unlockAccess env sid v s))"
proof -
  let ?s1 = "snd (readClock env s)"
  have s1: "calm m s ?s1" by (rule calm_host) simp
  obtain r t where b: "beginCapabilityIssuance env sid ?s1 = (r, t)" by (cases "beginCapabilityIssuance env sid ?s1")
  have t: "calm m s t" by (rule calm_trans [OF s1 calm_begin_issuance [OF b]])
  have "calm m s (addTask w t)" for w by (rule calm_trans [OF t calm_add])
  then show ?thesis using b s1 t
    by (auto simp: unlockAccess_def Let_def split_def split: jsval.split sum.split option.split)
qed

lemma calm_kdf: "calm (Some i) s (fst (kdfSettled env i d s))"
proof -
  have b: "calm (Some i) s (s\<lparr>daBuffers := l\<rparr>)" for l by (rule calm_same) simp_all
  have f: "calm (Some i) s (fst (finishRequest i k x r t))" if "calm (Some i) s t" for k x r t by (rule calm_trans [OF that calm_finish])
  have e: "calm (Some i) s (enterIssuanceLock i c t)" if "calm (Some i) s t" for c t by (rule calm_trans [OF that calm_enter])
  have "calm (Some i) s (fst (setupDerived env i x p salt dek s))" for x p salt dek
  proof (cases rule: setupDerived_cases [of env i x p salt dek s])
    case (failed t e kek)
    show ?thesis unfolding failed(1) by (rule f [OF calm_trans [OF b calm_drifts [OF failed(2)]]])
  next
    case (stored t u row)
    have "calm (Some i) s (t\<lparr>daConfig := Some row\<rparr>)"
      by (rule calm_trans [OF calm_trans [OF b calm_host [OF stored(2)]] calm_same]) simp_all
    then show ?thesis unfolding stored(1) fst_conv by (rule e)
  qed
  moreover have "calm (Some i) s (fst (unlockDerived env i x p config key s))" for x p config key
  proof (cases rule: unlockDerived_cases [of env i x p config key s])
    case (wrong t e)
    show ?thesis unfolding wrong(1) by (rule f [OF calm_trans [OF b calm_host [OF wrong(2)]]])
  next
    case (short n)
    show ?thesis unfolding short by (rule f [OF b])
  next
    case (opened dek)
    show ?thesis unfolding opened(1) fst_conv by (rule e [OF b])
  qed
  ultimately show ?thesis
    using f [OF calm_refl] by (auto simp: kdfSettled_def split: option.split task.split request_kind.split)
qed

lemma calm_timer: "calm m s (timerFires env n s)"
proof (cases "map_of (daTimers s) n")
  case (Some x)
  obtain token d where x: "x = (token, d)" by (cases x)
  have t: "calm m s (s\<lparr>daTimers := l\<rparr>)" for l by (rule calm_same) simp_all
  show ?thesis
  proof (cases "map_of (daCapabilities s) token")
    case None
    then show ?thesis using Some x t by (simp add: timerFires_def)
  next
    case (Some c)
    let ?u = "s\<lparr>daTimers := mapDelete n (daTimers s), daCapabilities := mapSet token (c\<lparr>cpTimer := None\<rparr>) (daCapabilities s),
        daClock := Suc (daClock s)\<rparr>"
    have "capsShrink s ?u" by (rule shrink_retimed [OF Some, where x = None]) simp
    then have u: "calm m s ?u" by (rule calm_frame) simp_all
    have "timerFires env n s = (if aeNow (deAuth env) (daClock s) < cpExpiresAt c then scheduleCapabilityExpiry env token ?u
        else invalidateAuthSession (cpSessionId c) ?u)"
      using Some \<open>map_of (daTimers s) n = Some x\<close> x by (simp add: timerFires_def readClock_def)
    then show ?thesis using calm_trans [OF u calm_schedule] calm_trans [OF u calm_invalidate] by simp
  qed
qed (simp add: timerFires_def)

lemma calm_body_begin: "calm m s (fst (beginBodyOperation env sid v s))"
proof -
  obtain b :: bool and t where q: "isCapabilityValid env sid v s = (b, t)" by (cases "isCapabilityValid env sid v s")
  have t: "calm m s t" using calm_drifts [OF valid_drifts] q unfolding isCapabilityValid_def by (metis snd_conv)
  have "calm m s (addTask w (t\<lparr>daActive := x\<rparr>))" for w x
    by (rule calm_trans [OF calm_trans [OF t calm_same] calm_add]) simp_all
  then show ?thesis using t by (simp add: beginBodyOperation_def q Let_def split: bool.split jsval.split option.split)
qed

text \<open>Only the turn of a waiting request or lock can be anything but calm.\<close>

fun touched :: "diary_event \<Rightarrow> nat option" where
  "touched (KdfSettled i d) = Some i"
| "touched (Continue i) = Some i"
| "touched (BodyReadStart i c) = Some i"
| "touched (BodyEnd i) = Some i"
| "touched _ = None"

lemma calm_step:
  assumes "\<And>i. e \<noteq> Continue i"
  shows "calm (touched e) s (fst (diary_step env e s))"
proof (cases e)
  case (Status sid v)
  have "calm None s (snd (isCapabilityValidFor env sid v c s))" for c by (rule calm_drifts [OF valid_drifts])
  then show ?thesis
    by (auto simp: Status accessStatus_def split: sum.split option.split prod.split bool.split) (metis snd_conv)+
next
  case (Present sid v)
  then show ?thesis using calm_drifts [OF valid_drifts] by (simp add: isCapabilityValid_def split_def)
next
  case (BodyEncrypt i raw c)
  have "calm None s (snd (drawBytes env DIARY_BODY_NONCE_BYTES s))" by (rule calm_host) simp
  then show ?thesis by (simp add: BodyEncrypt bodyEncrypt_def withLease_def Let_def split_def split: option.split task.split)
next
  case (BodyReadStart i c)
  have "calm (Some i) s (setTask i (BodyOperation (l\<lparr>blReads := r\<rparr>)) s)" if "map_of (daTasks s) i = Some (BodyOperation l)" for l r
    by (rule calm_tasks [OF taskSet]) (use that in \<open>auto simp: capsShrink_same leases_def\<close>)
  then show ?thesis by (auto simp: BodyReadStart bodyReadStart_def withLease_def split: option.split task.split)
next
  case (BodyEnd i)
  have "calm (Some i) s (releaseBodyOperation x (endTask i s))" for x by (rule calm_trans [OF calm_end calm_release])
  then show ?thesis by (simp add: BodyEnd endBodyOperation_def split: option.split task.split)
qed (use assms in \<open>simp_all add: calm_setup calm_unlock calm_kdf calm_timer calm_body_begin lockAccess_def calm_invalidate
      bodyDecrypt_def bodyReadEnd_def withLease_def split: option.split task.split sum.split\<close>)

section \<open>Publication\<close>

text \<open>Besides what a calm step may do, a request gets one capability for its session.\<close>

definition publishes :: "nat \<Rightarrow> int \<Rightarrow> diary_access \<Rightarrow> diary_access \<Rightarrow> bool" where
  "publishes i sid s t \<longleftrightarrow> owners t \<subseteq> insert (i, sid) (owners s) \<and> steady (Some i) s t"

lemma publishes_calm: "publishes i sid s t \<Longrightarrow> calm (Some i) t u \<Longrightarrow> publishes i sid s u"
  unfolding publishes_def calm_def capsShrink_def by (blast intro: steady_trans)

lemma calm_publishes: "calm (Some i) s t \<Longrightarrow> publishes i sid t u \<Longrightarrow> publishes i sid s u"
  unfolding publishes_def calm_def capsShrink_def by (blast intro: steady_trans)

lemma publish_publishes: "publishes i (isSessionId (icIssuance c)) s (snd (publishCapability env i c x s))"
proof -
  let ?sid = "isSessionId (icIssuance c)"
  let ?epoch = "Suc (countOf (daSessionEpochs s) ?sid)"
  let ?token = "capabilityToken (aeRandom (deAuth env) (daDraws s) 32)"
  let ?cap = "\<lparr>cpRequest = i, cpSessionId = ?sid, cpVaultId = icVaultId c, cpEpoch = ?epoch, cpExpiresAt = x,
      cpDek = icDek c, cpTimer = None\<rparr>"
  let ?u = "s\<lparr>daSessionEpochs := mapSet ?sid ?epoch (daSessionEpochs s), daDraws := Suc (daDraws s),
      daCapabilities := mapSet ?token ?cap (daCapabilities s)\<rparr>"
  have e: "snd (publishCapability env i c x s) = scheduleCapabilityExpiry env ?token ?u"
    by (simp add: publishCapability_def drawBytes_def Let_def)
  have "publishes i ?sid s ?u"
    using set_mapSet [of ?token ?cap "daCapabilities s"] unfolding publishes_def
    by (auto simp: owners_def steady_def leases_def)
  then show ?thesis unfolding e by (rule publishes_calm [OF _ calm_schedule])
qed

lemma publish_cases:
  obtains (calm) "calm (Some i) s (publishIfCurrent env i c ticket g s)"
  | (published) "publishes i (isSessionId (icIssuance c)) s (publishIfCurrent env i c ticket g s)" "ticketCurrent (icIssuance c) g s"
proof -
  obtain e s1 where a: "assertCapabilityIssuanceCurrent env (icIssuance c) g s = (e, s1)"
    by (cases "assertCapabilityIssuanceCurrent env (icIssuance c) g s")
  have k1: "calm (Some i) s s1" using calm_drifts [OF assert_drifts] a by (metis snd_conv)
  obtain x s2 where r: "requireCurrentAuthSession env (isSessionId (icIssuance c)) s1 = (x, s2)"
    by (cases "requireCurrentAuthSession env (isSessionId (icIssuance c)) s1")
  have k2: "calm (Some i) s s2" using calm_trans [OF k1 calm_drifts [OF require_drifts]] r by (metis snd_conv)
  have l: "calm (Some i) s (leaveIssuance i c ticket y u)" if "calm (Some i) s u" for y u by (rule calm_trans [OF that calm_leave])
  show thesis
  proof (cases "e = None \<and> x \<noteq> None")
    case True
    then obtain y where y: "e = None" "x = Some y" by auto
    have "publishes i (isSessionId (icIssuance c)) s (publishIfCurrent env i c ticket g s)"
      using publishes_calm [OF calm_publishes [OF k2 publish_publishes] calm_leave] y
      by (simp add: publishIfCurrent_def a r split_def Let_def)
    moreover have "ticketCurrent (icIssuance c) g s" using a y(1) by (cases rule: assert_cases) auto
    ultimately show thesis by (rule published)
  next
    case False
    then show thesis using l [OF k1] l [OF k2] by (intro calm) (auto simp: publishIfCurrent_def a r split: option.split)
  qed
qed

lemma ticketCurrent_host: "hostOnly s t \<Longrightarrow> ticketCurrent x g t = ticketCurrent x g s"
  by (simp add: ticketCurrent_def quiescing_def hostOnly_fields)

lemma turn_cases:
  obtains (calm) "calm (Some i) s (issuanceTurn env i c ticket s)"
  | (published) "publishes i (isSessionId (icIssuance c)) s (issuanceTurn env i c ticket s)"
      "ticketCurrent (icIssuance c) (isLifecycleGeneration (icIssuance c)) s"
proof -
  let ?g = "isLifecycleGeneration (icIssuance c)" and ?sid = "isSessionId (icIssuance c)"
  obtain e s1 where a: "assertCapabilityIssuanceCurrent env (icIssuance c) ?g s = (e, s1)"
    by (cases "assertCapabilityIssuanceCurrent env (icIssuance c) ?g s")
  have k1: "calm (Some i) s s1" using calm_drifts [OF assert_drifts] a by (metis snd_conv)
  show thesis
  proof (cases "e = None \<and> \<not> hasSessionCapability ?sid s1")
    case True
    then have "hostOnly s s1 \<and> ticketCurrent (icIssuance c) ?g s" using a by (auto elim: assert_cases)
    then have h: "hostOnly s s1" "ticketCurrent (icIssuance c) ?g s" by simp_all
    have e: "issuanceTurn env i c ticket s = publishIfCurrent env i c ticket ?g s1" using True by (simp add: issuanceTurn_def a Let_def)
    show thesis
    proof (cases rule: publish_cases [where s = s1 and env = env and i = i and c = c and ticket = ticket and g = ?g])
      case calm
      show thesis by (rule that(1)) (simp only: e calm_trans [OF k1 calm])
    next
      case published
      show thesis by (rule that(2)) (simp_all only: e calm_publishes [OF k1 published(1)] h)
    qed
  next
    case False
    have "calm (Some i) s (setTask i (AwaitingDrained c ticket q g) (snd (beginSessionInvalidation ?sid s1)))" for q g
      by (rule calm_trans [OF calm_trans [OF k1 calm_begin] calm_set]) simp
    then show thesis using False calm_trans [OF k1 calm_leave]
      by (intro calm) (auto simp: issuanceTurn_def a Let_def split_def split: option.split)
  qed
qed

lemma replacement_cases:
  obtains (calm) "calm (Some i) s (replacementTurn env i c ticket g s)"
  | (published) "publishes i (isSessionId (icIssuance c)) s (replacementTurn env i c ticket g s)" "ticketCurrent (icIssuance c) g s"
proof -
  obtain e s1 where a: "assertCapabilityIssuanceCurrent env (icIssuance c) g s = (e, s1)"
    by (cases "assertCapabilityIssuanceCurrent env (icIssuance c) g s")
  have k1: "calm (Some i) s s1" using calm_drifts [OF assert_drifts] a by (metis snd_conv)
  show thesis
  proof (cases e)
    case None
    then have "hostOnly s s1 \<and> ticketCurrent (icIssuance c) g s" using a by (auto elim: assert_cases)
    then have h: "hostOnly s s1" "ticketCurrent (icIssuance c) g s" by simp_all
    have e: "replacementTurn env i c ticket g s = publishIfCurrent env i c ticket g s1" using None by (simp add: replacementTurn_def a)
    show thesis
    proof (cases rule: publish_cases [where s = s1 and env = env and i = i and c = c and ticket = ticket and g = g])
      case calm
      show thesis by (rule that(1)) (simp only: e calm_trans [OF k1 calm])
    next
      case published
      show thesis by (rule that(2)) (simp_all only: e calm_publishes [OF k1 published(1)] h)
    qed
  next
    case (Some x)
    then show thesis using calm_trans [OF k1 calm_leave] by (intro calm) (simp add: replacementTurn_def a)
  qed
qed

text \<open>What the turn of a task can be.\<close>

lemma continue_cases:
  obtains (calm) "calm (Some i) s (fst (continueTask env i s))"
  | (published) w x p where "map_of (daTasks s) i = Some w" "ticketOf w = Some (x, p)" "ticketCurrent x p s"
      "publishes i (isSessionId x) s (fst (continueTask env i s))"
  | (finalized) w v a q where "map_of (daTasks s) i = Some w" "waitsFor w = Some (a, q)" "\<not> isLease v" "drainedQ q s"
      "fst (continueTask env i s) = setTask i v (finalizeQuiescence a q s)"
proof (cases "map_of (daTasks s) i")
  case (Some w)
  show thesis
  proof (cases w)
    case (AwaitingTurn c ticket)
    show thesis
    proof (cases "turnReached ticket s")
      case True
      have e: "fst (continueTask env i s) = issuanceTurn env i c ticket s" by (simp add: True AwaitingTurn Some continueTask_def)
      show thesis
      proof (cases rule: turn_cases [where s = s and env = env and i = i and c = c and ticket = ticket])
        case published
        then show thesis by (intro that(2) [OF Some, of "icIssuance c" "isLifecycleGeneration (icIssuance c)"]) (simp_all add: e AwaitingTurn)
      qed (rule calm, simp add: e)
    qed (intro calm, simp add: AwaitingTurn Some continueTask_def)
  next
    case (AwaitingDrained c ticket q p)
    show thesis
    proof (cases "drainedQ q s")
      case True
      show thesis by (rule finalized [OF Some, of "isSessionId (icIssuance c)" q "AwaitingCompleted c ticket q p"])
        (simp_all add: True AwaitingDrained Some continueTask_def)
    qed (intro calm, simp add: AwaitingDrained Some continueTask_def)
  next
    case (AwaitingCompleted c ticket q p)
    show thesis
    proof (cases "completedQ q s")
      case True
      have e: "fst (continueTask env i s) = replacementTurn env i c ticket p s" by (simp add: True AwaitingCompleted Some continueTask_def)
      show thesis
      proof (cases rule: replacement_cases [where s = s and env = env and i = i and c = c and ticket = ticket and g = p])
        case published
        then show thesis by (intro that(2) [OF Some, of "icIssuance c" "p"]) (simp_all add: e AwaitingCompleted)
      qed (rule calm, simp add: e)
    qed (intro calm, simp add: AwaitingCompleted Some continueTask_def)
  next
    case (Finishing c r)
    have "calm (Some i) s (s\<lparr>daLimiter := l\<rparr>)" for l by (rule calm_same) simp_all
    then have "calm (Some i) s (fst (finishRequest i k b x (s\<lparr>daLimiter := l\<rparr>)))" for k b x l by (rule calm_trans [OF _ calm_finish])
    then show thesis using Some Finishing calm_finish by (intro calm) (simp add: continueTask_def split: sum.split option.split)
  next
    case (Quiescing a q)
    show thesis
    proof (cases "drainedQ q s")
      case True
      show thesis by (rule finalized [OF Some, of a q "Quiesced a q"]) (simp_all add: True Quiescing Some continueTask_def)
    qed (intro calm, simp add: Quiescing Some continueTask_def)
  next
    case (Quiesced a q)
    then show thesis using Some calm_end by (intro calm) (simp add: continueTask_def)
  qed (intro calm; simp add: Some continueTask_def)+
qed (intro calm, simp add: continueTask_def)

section \<open>A lock\<close>

text \<open>Only later requests and later body operations have anything of the session.\<close>

definition fenced :: "int \<Rightarrow> nat \<Rightarrow> diary_access \<Rightarrow> bool" where
  "fenced sid N s \<longleftrightarrow> (\<forall>p\<in>owners s. snd p = sid \<longrightarrow> N < fst p) \<and> (\<forall>i\<in>leases sid s. N < i)"

text \<open>The lock that is task \<open>N\<close>, and what it waits for: a quiescence that is open, or has left the session fenced.\<close>

definition locking :: "int \<Rightarrow> nat \<Rightarrow> nat \<Rightarrow> diary_access \<Rightarrow> bool" where
  "locking sid N q s \<longleftrightarrow> N < daNextTask s \<and> q < length (daQuiescenceObjects s)
     \<and> (map_of (daTasks s) N = Some (Quiescing sid q)
        \<or> sqFinalized (quiescence s q) \<and> map_of (daTasks s) N \<in> {Some (Quiesced sid q), None})
     \<and> (map_of (daQuiescences s) sid = Some q \<or> sqFinalized (quiescence s q) \<and> fenced sid N s)"

lemma locking_steady:
  assumes l: "locking sid N q s" and t: "steady m s t"
    and N: "map_of (daTasks t) N = map_of (daTasks s) N \<or> map_of (daTasks t) N = None \<and> sqFinalized (quiescence s q)"
    and o: "\<And>p. p \<in> owners t \<Longrightarrow> p \<notin> owners s \<Longrightarrow> snd p = sid \<Longrightarrow> N < fst p"
  shows "locking sid N q t"
proof -
  have q: "N < daNextTask s" "q < length (daQuiescenceObjects s)" using l by (simp_all add: locking_def)
  then have f: "sqFinalized (quiescence t q) = sqFinalized (quiescence s q)" "q < length (daQuiescenceObjects t)" "N < daNextTask t"
    using t by (auto simp: steady_def)
  have "fenced sid N t" if "fenced sid N s" using that o t q(1) unfolding fenced_def steady_def by fastforce
  moreover have "map_of (daQuiescences s) sid = Some q \<Longrightarrow> map_of (daQuiescences t) sid = Some q" using t by (simp add: steady_def)
  ultimately show ?thesis using l N f unfolding locking_def by auto
qed

lemma locking_finalize:
  assumes ok: "quiet_ok s" and l: "locking sid N q s" and w: "map_of (daTasks s) i = Some w" "waitsFor w = Some (a, q')" "drainedQ q' s"
    and v: "\<not> isLease v" "i = N \<Longrightarrow> v = Quiesced a q'"
  shows "locking sid N q (setTask i v (finalizeQuiescence a q' s))"
proof -
  let ?f = "finalizeQuiescence a q' s" and ?t = "setTask i v (finalizeQuiescence a q' s)"
  have q: "N < daNextTask s" "q < length (daQuiescenceObjects s)" using l by (simp_all add: locking_def)
  have nl: "\<not> isLease w" using w(2) by (cases w) auto
  then have ls: "leases b ?t = leases b s" for b using w(1) v(1) by (auto simp: leases_def)
  have "q' < length (daQuiescenceObjects s) \<and> (map_of (daQuiescences s) a = Some q' \<or> sqFinalized (quiescence s q'))"
    using ok w(1,2) waits_okD by (auto simp: quiet_ok_def)
  then have f: "sqFinalized (quiescence ?t q')" using finalize_waits(1) [OF ok w(3), of a] by simp
  have m: "sqFinalized (quiescence s q) \<Longrightarrow> sqFinalized (quiescence ?t q)"
    by (cases "q = q'"; cases rule: finalize_cases [of s a q']) (use f in auto)
  have N: "map_of (daTasks ?t) N = Some (Quiescing sid q)
      \<or> sqFinalized (quiescence ?t q) \<and> map_of (daTasks ?t) N \<in> {Some (Quiesced sid q), None}"
  proof (cases "i = N")
    case True
    then have "a = sid \<and> q' = q" using l w(1,2) by (auto simp: locking_def)
    then show ?thesis using v(2) True f by simp
  next
    case False
    then show ?thesis using l m by (auto simp: locking_def)
  qed
  show ?thesis
  proof (cases rule: finalize_cases [of s a q'])
    case ended
    have own: "p \<in> owners s \<and> snd p \<noteq> a" if "p \<in> owners ?t" for p
      using that dropSession_entries [of _ a s] by (force simp: owners_def ended(5))
    have fin: "sqFinalized (quiescence ?t p) \<longleftrightarrow> sqFinalized (quiescence s p) \<or> p = q'" if "p < length (daQuiescenceObjects s)" for p
      using that w(3) by (auto simp: ended(4) nth_list_update drainedQ_def)
    have len: "length (daQuiescenceObjects ?t) = length (daQuiescenceObjects s)" by (simp add: ended(4))
    have "map_of (daQuiescences ?t) sid = Some q \<or> sqFinalized (quiescence ?t q) \<and> fenced sid N ?t"
    proof (cases "sid = a")
      case False
      then show ?thesis using l own fin [OF q(2)] by (auto simp: locking_def ended(3) fenced_def ls)
    next
      case True
      have none: "leases sid s = {}"
        using ok ended(1) w(3) True by (auto simp: quiet_ok_def quiescences_ok_def drainedQ_def)
      have "q = q' \<or> sqFinalized (quiescence s q)" using l ended(1) True by (auto simp: locking_def)
      then show ?thesis using fin [OF q(2)] own none True by (auto simp: fenced_def ls)
    qed
    then show ?thesis using N q len fin [OF q(2)] unfolding locking_def by auto
  next
    case skip
    have "fenced sid N ?t = fenced sid N s" using ls unfolding skip by (simp add: fenced_def owners_def)
    then show ?thesis using l N q unfolding locking_def by (simp add: skip)
  qed
qed

text \<open>The task of a lock moves by its own turns only.\<close>

lemma lock_turns:
  assumes "locking sid i q s" "touched e = Some i" "e \<noteq> Continue i"
  shows "fst (diary_step env e s) = s"
  using assms by (cases e) (auto simp: locking_def kdfSettled_def bodyReadStart_def withLease_def endBodyOperation_def)

lemma locking_continue:
  assumes ok: "quiet_ok s" and law: "all_tickets (staleLaw sid N) s" and l: "locking sid N q s"
  shows "locking sid N q (fst (continueTask env i s))"
proof (cases "i = N")
  case True
  consider (none) "map_of (daTasks s) N = None" | (waiting) "map_of (daTasks s) N = Some (Quiescing sid q)"
    | (ended) "map_of (daTasks s) N = Some (Quiesced sid q)" using l by (auto simp: locking_def)
  then show ?thesis
  proof cases
    case none
    then show ?thesis using l True by (simp add: continueTask_def)
  next
    case waiting
    then show ?thesis
      using l True waiting locking_finalize [OF ok l waiting, of sid q "Quiesced sid q"] by (simp add: continueTask_def)
  next
    case ended
    have "sqFinalized (quiescence s q)" if "completedQ q s" using ok that by (auto simp: quiet_ok_def quiescences_ok_def completedQ_def)
    then have "locking sid N q (endTask N s)" if "completedQ q s"
      using that calm_end [of N s] by (intro locking_steady [OF l]) (auto simp: calm_def capsShrink_def)
    then show ?thesis using l True ended by (simp add: continueTask_def)
  qed
next
  case False
  have N: "N < daNextTask s" using l by (simp add: locking_def)
  show ?thesis
  proof (cases rule: continue_cases [of i s env])
    case calm
    show ?thesis by (rule locking_steady [OF l]) (use calm False N in \<open>auto simp: calm_def capsShrink_def steady_def\<close>)
  next
    case (published w x p)
    have "N < i \<or> isSessionId x \<noteq> sid"
      using all_ticketsD [OF law published(1,2)] published(3) by (auto simp: staleLaw_def ticketCurrent_def)
    then show ?thesis
      by (intro locking_steady [OF l, of "Some i"]) (use published(4) False N in \<open>auto simp: publishes_def steady_def\<close>)
  next
    case (finalized w v a q')
    show ?thesis unfolding finalized(5) by (rule locking_finalize [OF ok l finalized(1,2,4,3)]) (use False in simp)
  qed
qed

theorem locking_step:
  assumes "quiet_ok s" "all_tickets (staleLaw sid N) s" "locking sid N q s"
  shows "locking sid N q (fst (diary_step env e s))"
proof (cases "\<exists>i. e = Continue i")
  case True
  then show ?thesis using locking_continue [OF assms] by auto
next
  case False
  have N: "N < daNextTask s" using assms(3) by (simp add: locking_def)
  have c: "calm (touched e) s (fst (diary_step env e s))" by (rule calm_step) (use False in auto)
  show ?thesis
  proof (cases "touched e = Some N")
    case True
    then show ?thesis using lock_turns [OF assms(3) True] False assms(3) by auto
  next
    case other: False
    show ?thesis by (rule locking_steady [OF assms(3)]) (use c other N in \<open>auto simp: calm_def capsShrink_def steady_def\<close>)
  qed
qed

section \<open>Histories of the service\<close>

definition diary_reached :: "diary_env \<Rightarrow> diary_access \<Rightarrow> bool" where
  "diary_reached env s \<longleftrightarrow> (\<exists>row limiter es. s = fst (diary_run env es (createDiaryAccess row limiter)))"

definition settled :: "diary_access \<Rightarrow> bool" where
  "settled s \<longleftrightarrow> quiet_ok s \<and> all_tickets reachedLaw s"

lemma settled_step: "settled s \<Longrightarrow> settled (fst (diary_step env e s))"
  by (simp add: settled_def quiet_step reached.step_kept)

lemma settled_start: "settled (createDiaryAccess row limiter)"
  by (simp add: settled_def createDiaryAccess_def quiet_ok_def ids_ok_def quiescences_ok_def active_ok_def waits_ok_def
      leases_def countOf_def all_tickets_def)

lemma settled_reached: "diary_reached env s \<Longrightarrow> settled s"
  unfolding diary_reached_def using dm.invariant [where I = settled, OF settled_step settled_start] by blast

lemma reached_settled_run: "settled s \<Longrightarrow> settled (fst (diary_run env es s))"
  by (rule dm.invariant [where I = settled, OF settled_step])

text \<open>A lock begins.\<close>

lemma locking_begin:
  assumes s: "settled s" and n: "isSessionNumber sid"
  shows "locking sid (daNextTask s) (fst (beginSessionInvalidation sid s)) (invalidateAuthSession sid s)"
    "all_tickets (staleLaw sid (daNextTask s)) (invalidateAuthSession sid s)"
proof -
  have ok: "quiet_ok s" using s by (simp add: settled_def)
  note b = quiet_begin [OF ok, of sid]
  show "locking sid (daNextTask s) (fst (beginSessionInvalidation sid s)) (invalidateAuthSession sid s)"
    using b by (simp add: locking_def invalidate_unfold [OF n])
  show "all_tickets (staleLaw sid (daNextTask s)) (invalidateAuthSession sid s)"
  proof (rule all_ticketsI)
    fix i w t p assume w: "map_of (daTasks (invalidateAuthSession sid s)) i = Some w" "ticketOf w = Some (t, p)"
    then have "map_of (daTasks s) i = Some w" by (auto simp: invalidate_unfold [OF n] split: if_splits)
    then have "p \<le> countOf (daGenerations s) (isSessionId t)"
      using s w(2) by (auto simp: settled_def all_tickets_def reachedLaw_def)
    moreover have "countOf (daGenerations (invalidateAuthSession sid s)) sid = Suc (countOf (daGenerations s) sid)"
      by (simp add: invalidate_unfold [OF n])
    ultimately show "staleLaw sid (daNextTask s) (daGenerations (invalidateAuthSession sid s)) i t p" by (auto simp: staleLaw_def)
  qed
qed

text \<open>A quiescence that has ended stays ended.\<close>

lemma finalized_stays:
  assumes "q < length (daQuiescenceObjects s)" "sqFinalized (quiescence s q)"
  shows "q < length (daQuiescenceObjects (fst (diary_step env e s))) \<and> sqFinalized (quiescence (fst (diary_step env e s)) q)"
proof (cases "\<exists>i. e = Continue i")
  case False
  then have "calm (touched e) s (fst (diary_step env e s))" by (intro calm_step) auto
  then show ?thesis using assms by (auto simp: calm_def steady_def)
next
  case True
  then obtain i where i: "e = Continue i" by blast
  have "q < length (daQuiescenceObjects (fst (continueTask env i s))) \<and> sqFinalized (quiescence (fst (continueTask env i s)) q)"
  proof (cases rule: continue_cases [of i s env])
    case calm
    then show ?thesis using assms by (auto simp: calm_def steady_def)
  next
    case published
    then show ?thesis using assms by (auto simp: publishes_def steady_def)
  next
    case (finalized w v a q')
    show ?thesis unfolding finalized(5)
      by (cases "q = q'"; cases rule: finalize_cases [of s a q']) (use assms in auto)
  qed
  then show ?thesis by (simp add: i)
qed

lemma lock_answers: "snd (diary_step env e s) = DLocked N \<Longrightarrow> \<exists>i. e = Continue i"
proof (cases e)
  case (Setup sid v)
  assume "snd (diary_step env e s) = DLocked N"
  then show ?thesis by (auto simp: Setup setupAccess_def Let_def split_def split: if_splits jsval.splits sum.splits option.splits)
next
  case (KdfSettled i d)
  have f: "snd (finishRequest i k b r u) \<noteq> DLocked N" for i k b r u by (simp add: finishRequest_def Let_def split: sum.split prod.split)
  assume "snd (diary_step env e s) = DLocked N"
  then show ?thesis
    using f by (auto simp: KdfSettled kdfSettled_def setupDerived_def unlockDerived_def wrongPasswordResult_def Let_def split_def
        split: if_splits option.splits task.splits request_kind.splits sum.splits)
qed (auto simp: unlockAccess_def lockAccess_def accessStatus_def beginBodyOperation_def bodyEncrypt_def bodyDecrypt_def
      bodyReadStart_def bodyReadEnd_def endBodyOperation_def withLease_def Let_def split_def
      split: if_splits jsval.splits sum.splits option.splits task.splits prod.splits bool.splits)

text \<open>The answer of a lock: its quiescence has ended.\<close>

lemma locked_output:
  assumes "snd (diary_step env e s) = DLocked N" "locking sid N q s" "quiet_ok s"
  shows "sqFinalized (quiescence s q)"
proof -
  have c: "snd (continueTask env i s) = DLocked N \<Longrightarrow> i = N \<and> (\<exists>a q. map_of (daTasks s) N = Some (Quiesced a q) \<and> completedQ q s)" for i
    by (auto simp: continueTask_def finishRequest_def Let_def split: option.splits task.splits if_splits sum.splits)
  have "map_of (daTasks s) N = Some (Quiesced a q') \<Longrightarrow> q' = q" for a q' using assms(2) by (auto simp: locking_def)
  moreover have "\<exists>i. e = Continue i" using assms(1) by (rule lock_answers)
  ultimately have "completedQ q s" using c assms(1) by fastforce
  then show ?thesis using assms(3) by (auto simp: quiet_ok_def quiescences_ok_def completedQ_def)
qed

lemma locking_run:
  assumes "settled s" "all_tickets (staleLaw sid N) s" "locking sid N q s"
    and "N0 \<longrightarrow> sqFinalized (quiescence s q)" "diary_run env es s = (t, outs)"
  shows "settled t \<and> locking sid N q t \<and> (N0 \<or> DLocked N \<in> set outs \<longrightarrow> sqFinalized (quiescence t q))"
  using assms
proof (induction es arbitrary: s N0 outs)
  case (Cons e es)
  obtain u out where u: "diary_step env e s = (u, out)" by (cases "diary_step env e s")
  obtain rest where r: "diary_run env es u = (t, rest)" "outs = out # rest"
    using Cons.prems(5) u by (cases "diary_run env es u") auto
  have ok: "quiet_ok s" using Cons.prems(1) by (simp add: settled_def)
  have N: "Suc N \<le> daNextTask s" "q < length (daQuiescenceObjects s)" using Cons.prems(3) by (auto simp: locking_def)
  have su: "settled u" using settled_step [OF Cons.prems(1), of env e] u by simp
  have tu: "all_tickets (staleLaw sid N) u" using stale.step_kept [OF ok Cons.prems(2) N(1), of env e] u by simp
  have lu: "locking sid N q u" using locking_step [OF ok Cons.prems(2,3), of env e] u by simp
  have "out = DLocked N \<or> N0 \<Longrightarrow> sqFinalized (quiescence u q)"
    using finalized_stays [OF N(2), of env e] locked_output [of env e s N sid q] Cons.prems(3,4) ok u by auto
  then show ?case using Cons.IH [OF su tu lu, of "out = DLocked N \<or> N0" rest] r by auto
qed simp

text \<open>Once a lock has been answered, nothing of the session is left but what later requests have brought.\<close>

theorem answered_lock_fences:
  assumes s: "settled s" and n: "isSessionNumber sid" and r: "diary_run env es (fst (diary_step env (Lock sid) s)) = (t, outs)"
    and a: "DLocked (daNextTask s) \<in> set outs"
  shows "fenced sid (daNextTask s) t"
proof -
  let ?q = "fst (beginSessionInvalidation sid s)" and ?s = "invalidateAuthSession sid s"
  have e: "fst (diary_step env (Lock sid) s) = ?s" using n by (simp add: lockAccess_def)
  have "settled ?s" using settled_step [OF s, of env "Lock sid"] e by simp
  from locking_run [OF this locking_begin(2,1) [OF s n] _ r [unfolded e], of False] a
  have "settled t" "locking sid (daNextTask s) ?q t" "sqFinalized (quiescence t ?q)" by simp_all
  then show ?thesis by (auto simp: locking_def settled_def quiet_ok_def quiescences_ok_def)
qed

section \<open>A lock is answered\<close>

lemma lock_gone:
  assumes l: "locking sid N q s" and w: "map_of (daTasks s) N \<noteq> None" "map_of (daTasks (fst (diary_step env e s))) N = None"
  shows "snd (diary_step env e s) = DLocked N"
proof -
  have N: "N < daNextTask s" using l by (simp add: locking_def)
  show ?thesis
  proof (cases "\<exists>i. e = Continue i")
    case False
    then have c: "calm (touched e) s (fst (diary_step env e s))" by (intro calm_step) auto
    have "touched e = Some N" using c w N by (cases "touched e = Some N") (auto simp: calm_def steady_def)
    then show ?thesis using lock_turns [OF l] False w by auto
  next
    case True
    then obtain i where i: "e = Continue i" by blast
    have "i = N"
    proof (rule ccontr)
      assume ne: "i \<noteq> N"
      have "map_of (daTasks (fst (continueTask env i s))) N = map_of (daTasks s) N"
        by (cases rule: continue_cases [of i s env]) (use ne N in \<open>auto simp: calm_def publishes_def steady_def\<close>)
      then show False using w i by simp
    qed
    then show ?thesis using w l by (auto simp: i continueTask_def locking_def split: if_splits)
  qed
qed

lemma lock_gone_run:
  assumes "settled s" "all_tickets (staleLaw sid N) s" "locking sid N q s" "map_of (daTasks s) N \<noteq> None"
    "diary_run env es s = (t, outs)" "map_of (daTasks t) N = None"
  shows "DLocked N \<in> set outs"
  using assms
proof (induction es arbitrary: s outs)
  case (Cons e es)
  obtain u out where u: "diary_step env e s = (u, out)" by (cases "diary_step env e s")
  obtain rest where r: "diary_run env es u = (t, rest)" "outs = out # rest"
    using Cons.prems(5) u by (cases "diary_run env es u") auto
  have ok: "quiet_ok s" using Cons.prems(1) by (simp add: settled_def)
  have N: "Suc N \<le> daNextTask s" using Cons.prems(3) by (auto simp: locking_def)
  show ?case
  proof (cases "map_of (daTasks u) N")
    case None
    then show ?thesis using lock_gone [OF Cons.prems(3,4), of env e] u r by simp
  next
    case (Some w)
    have "settled u" using settled_step [OF Cons.prems(1), of env e] u by simp
    moreover have "all_tickets (staleLaw sid N) u" using stale.step_kept [OF ok Cons.prems(2) N, of env e] u by simp
    moreover have "locking sid N q u" using locking_step [OF ok Cons.prems(2,3), of env e] u by simp
    ultimately show ?thesis using Cons.IH [of u rest] Some r Cons.prems(6) by simp
  qed
qed simp

text \<open>With no body operation left in the session, two turns of the lock end it.\<close>

lemma lock_two_turns:
  assumes s: "settled s" and l: "locking sid N q s" and e: "leases sid s = {}" and N: "map_of (daTasks s) N \<noteq> None"
  shows "DLocked N \<in> set (snd (diary_run env [Continue N, Continue N] s))"
proof -
  have ok: "quiescences_ok s" using s by (simp add: settled_def quiet_ok_def)
  have len: "q < length (daQuiescenceObjects s)" using l by (simp add: locking_def)
  have cf: "completedQ q u" if "quiet_ok u" "q < length (daQuiescenceObjects u)" "sqFinalized (quiescence u q)" for u
    using that by (auto simp: completedQ_def quiet_ok_def quiescences_ok_def)
  have two: "DLocked N = snd (continueTask env N u)" if "map_of (daTasks u) N = Some (Quiesced sid q)" "completedQ q u" for u
    using that by (simp add: continueTask_def)
  consider (waiting) "map_of (daTasks s) N = Some (Quiescing sid q)" | (ended) "map_of (daTasks s) N = Some (Quiesced sid q)"
    using l N by (auto simp: locking_def)
  then show ?thesis
  proof cases
    case waiting
    let ?u = "setTask N (Quiesced sid q) (finalizeQuiescence sid q s)"
    have d: "drainedQ q s" using ok l e len by (auto simp: quiescences_ok_def locking_def drainedQ_def)
    have u: "fst (continueTask env N s) = ?u" by (simp add: continueTask_def waiting d)
    have "quiet_ok ?u" using quiet_continue [of s env N] s u by (simp add: settled_def)
    moreover have "q < length (daQuiescenceObjects ?u)" "sqFinalized (quiescence ?u q)"
      using finalize_waits [of s q sid] s d l by (auto simp: settled_def locking_def)
    ultimately have "completedQ q ?u" by (rule cf)
    then have "snd (continueTask env N ?u) = DLocked N" using two [of ?u] by simp
    then show ?thesis using u by (simp add: Let_def split_def)
  next
    case ended
    have "completedQ q s" using cf [OF _ len] s l ended by (auto simp: settled_def locking_def)
    then show ?thesis using two [OF ended] by (simp add: Let_def split_def)
  qed
qed

theorem pending_lock_answered:
  assumes s: "settled s" and n: "isSessionNumber sid" and r: "diary_run env es (fst (diary_step env (Lock sid) s)) = (t, outs)"
    and e: "leases sid t = {}"
  shows "DLocked (daNextTask s) \<in> set (outs @ snd (diary_run env [Continue (daNextTask s), Continue (daNextTask s)] t))"
proof -
  let ?N = "daNextTask s" and ?s = "invalidateAuthSession sid s"
  have eq: "fst (diary_step env (Lock sid) s) = ?s" using n by (simp add: lockAccess_def)
  have ss: "settled ?s" using settled_step [OF s, of env "Lock sid"] eq by simp
  note l = locking_begin [OF s n]
  have t: "settled t" "locking sid ?N (fst (beginSessionInvalidation sid s)) t"
    using locking_run [OF ss l(2,1) _ r [unfolded eq], of False] by simp_all
  have "map_of (daTasks ?s) ?N \<noteq> None" by (simp add: invalidate_unfold [OF n])
  then show ?thesis
    using lock_gone_run [OF ss l(2,1) _ r [unfolded eq]] lock_two_turns [OF t e, of env]
    by (cases "map_of (daTasks t) ?N") auto
qed

end
