(* ===== verification/DiarySetup.thy ===== *)
theory DiarySetup
  imports DiaryLock
begin

text \<open>
  The stored configuration of diary access: written once, and opened again by the password it was set up with.
\<close>

section \<open>The configuration is written once\<close>

lemma publish_config: "daConfig (snd (publishCapability env i c x s)) = daConfig s"
  by (simp add: publishCapability_def drawBytes_def Let_def)

lemma publishIf_config: "daConfig (publishIfCurrent env i c ticket g s) = daConfig s"
proof -
  obtain e s1 where a: "assertCapabilityIssuanceCurrent env (icIssuance c) g s = (e, s1)"
    by (cases "assertCapabilityIssuanceCurrent env (icIssuance c) g s")
  obtain x s2 where r: "requireCurrentAuthSession env (isSessionId (icIssuance c)) s1 = (x, s2)"
    by (cases "requireCurrentAuthSession env (isSessionId (icIssuance c)) s1")
  have "daConfig s1 = daConfig s" using drifts_fields(1) [OF assert_drifts] a by (metis snd_conv)
  moreover have "daConfig s2 = daConfig s1" using drifts_fields(1) [OF require_drifts] r by (metis snd_conv)
  ultimately show ?thesis
    by (simp add: publishIfCurrent_def a r leaveIssuance_def publish_config Let_def split_def split: option.split)
qed

lemma turn_config: "daConfig (issuanceTurn env i c ticket s) = daConfig s"
  "daConfig (replacementTurn env i c ticket g s) = daConfig s"
proof -
  have a: "daConfig (snd (assertCapabilityIssuanceCurrent env (icIssuance c) p s)) = daConfig s" for p
    by (rule drifts_fields(1) [OF assert_drifts])
  show "daConfig (issuanceTurn env i c ticket s) = daConfig s"
    using a by (simp add: issuanceTurn_def Let_def split_def publishIf_config leaveIssuance_def split: option.split)
  show "daConfig (replacementTurn env i c ticket g s) = daConfig s"
    using a by (simp add: replacementTurn_def split_def publishIf_config leaveIssuance_def split: option.split)
qed

lemma finish_config: "daConfig (fst (finishRequest i kek dek r s)) = daConfig s"
  by (simp add: finishRequest_def Let_def split: option.split)

lemma kdf_config: "daConfig s \<noteq> None \<Longrightarrow> daConfig (fst (kdfSettled env i d s)) = daConfig s"
proof -
  assume c: "daConfig s \<noteq> None"
  have "daConfig (fst (setupDerived env i x p salt dek s)) = daConfig s" for x p salt dek
  proof (cases rule: setupDerived_cases [of env i x p salt dek s])
    case (failed t e kek)
    then show ?thesis using drifts_fields(1) [OF failed(2)] by (simp add: finish_config)
  qed (use c in simp)
  moreover have "daConfig (fst (unlockDerived env i x p config key s)) = daConfig s" for x p config key
  proof (cases rule: unlockDerived_cases [of env i x p config key s])
    case (wrong t e)
    then show ?thesis using hostOnly_fields(1) [OF wrong(2)] by (simp add: finish_config)
  next
    case (short n)
    then show ?thesis by (simp add: finish_config)
  next
    case (opened dek)
    then show ?thesis by (simp add: enterIssuanceLock_def Let_def)
  qed
  ultimately show ?thesis
    by (auto simp: kdfSettled_def finish_config split: option.split task.split request_kind.split)
qed

lemma begin_config: "daConfig (snd (beginCapabilityIssuance env sid s)) = daConfig s"
proof -
  obtain r t where b: "beginCapabilityIssuance env sid s = (r, t)" by (cases "beginCapabilityIssuance env sid s")
  then show ?thesis
    by (cases rule: begin_issuance_cases) (auto simp: b drifts_fields(1) hostOnly_fields(1))
qed

theorem config_step: "daConfig s \<noteq> None \<Longrightarrow> daConfig (fst (diary_step env e s)) = daConfig s"
proof (cases e)
  case (Setup sid v)
  then show ?thesis using begin_config [of env sid s]
    by (auto simp: setupAccess_def drawBytes_def allocBuffer_def Let_def split_def split: jsval.split sum.split option.split)
next
  case (Unlock sid v)
  then show ?thesis using begin_config [of env sid "snd (readClock env s)"]
    by (auto simp: unlockAccess_def readClock_def Let_def split_def split: jsval.split sum.split option.split)
next
  case (Continue i)
  then show ?thesis
    by (auto simp: continueTask_def turn_config finish_config split: option.split task.split sum.split)
next
  case (TimerFires n)
  then show ?thesis by (auto simp: timerFires_def readClock_def Let_def split: option.split)
next
  case (Status sid v)
  have "daConfig (snd (isCapabilityValidFor env sid v c s)) = daConfig s" for c by (rule drifts_fields(1) [OF valid_drifts])
  then show ?thesis
    by (auto simp: Status accessStatus_def split: sum.split option.split prod.split bool.split) (metis snd_conv)+
next
  case (Present sid v)
  then show ?thesis using drifts_fields(1) [OF valid_drifts] by (simp add: isCapabilityValid_def split_def)
next
  case (BodyBegin sid v)
  obtain b :: bool and t where q: "isCapabilityValid env sid v s = (b, t)" by (cases "isCapabilityValid env sid v s")
  have "daConfig t = daConfig s" using drifts_fields(1) [OF valid_drifts] q unfolding isCapabilityValid_def by (metis snd_conv)
  then show ?thesis by (simp add: BodyBegin beginBodyOperation_def q Let_def split: bool.split jsval.split option.split)
qed (simp_all add: kdf_config lockAccess_def bodyEncrypt_def bodyDecrypt_def bodyReadStart_def bodyReadEnd_def endBodyOperation_def
      withLease_def drawBytes_def Let_def split: option.split task.split sum.split)

lemma config_run: "daConfig s = Some row \<Longrightarrow> daConfig (fst (diary_run env es s)) = Some row"
  by (rule dm.invariant [where I = "\<lambda>s. daConfig s = Some row"]) (simp_all add: config_step)

section \<open>What setup has sealed\<close>

lemma configFromRow_setup:
  assumes "length salt = SCRYPT_SALT_BYTES" "length (dcNonce w) = DIARY_ACCESS_NONCE_BYTES"
    "length (dcWrappedDek w) = SCRYPT_KEY_BYTES" "length (dcTag w) = DIARY_ACCESS_TAG_BYTES" "safeInt t" "0 \<le> t"
  shows "configFromRow (setupRow salt w vaultId t) vaultId
    = Some \<lparr>cfSalt = salt, cfNonce = dcNonce w, cfWrappedDek = dcWrappedDek w, cfTag = dcTag w, cfVaultId = vaultId\<rparr>"
  using assms by (simp add: configFromRow_def setupRow_def parametersOk_def sqlNat_def configLengthsOk_def Let_def)

lemma wrapped_opens:
  assumes ok: "cipher_ok env" and salt: "length salt = SCRYPT_SALT_BYTES" and nonce: "length nonce = DIARY_ACCESS_NONCE_BYTES"
    and w: "wrapDiaryDek env nonce (deriveDiaryKek env p salt) dek (deVaultId env) = Inr w" and t: "safeInt t" "0 \<le> t"
  shows "\<exists>c. configFromRow (setupRow salt w (deVaultId env) t) (deVaultId env) = Some c
    \<and> unwrapDiaryDek env (JStr p) c = Inr dek"
proof -
  have k: "length (deriveDiaryKek env p salt) = SCRYPT_KEY_BYTES"
    using ok by (simp add: deriveDiaryKek_def kekFrom_def cipher_ok_def)
  have d: "length dek = SCRYPT_KEY_BYTES" using w by (simp add: wrapDiaryDek_def split: if_splits)
  note u = wrap_unwrap [OF ok d k w]
  show ?thesis using u nonce salt configFromRow_setup [OF salt _ u(2,3) t]
    by (simp add: unwrapDiaryDek_def configLengthsOk_def unwrapWith_def)
qed

text \<open>A setup that stores a configuration: in every later state its password opens the key it drew.\<close>

theorem stored_setup_opens:
  assumes ok: "cipher_ok env" and clock: "isFiniteInteger (drCreatedAt row)"
    and task: "map_of (daTasks s) i = Some (DerivingKey x (SetupRequest p salt dek))" "dek < length (daBuffers s)"
    and none: "daConfig s = None" and t: "t = fst (diary_step env (KdfSettled i True) s)" "daConfig t = Some row"
  shows "\<exists>c. loadConfig env (fst (diary_run env es t)) = Inr (Some c) \<and> unwrapDiaryDek env (JStr p) c = Inr (daBuffers s ! dek)"
proof -
  let ?m = "daBuffers s @ [replicate (length (aeScrypt (deAuth env) p salt)) 0, deriveDiaryKek env p salt]"
  have e: "fst (diary_step env (KdfSettled i True) s) = s \<or> length salt = SCRYPT_SALT_BYTES
      \<and> t = fst (setupDerived env i x p salt dek s)"
    using t none by (simp add: kdfSettled_def task(1) finish_config split: if_splits)
  then have salt: "length salt = SCRYPT_SALT_BYTES" and u: "t = fst (setupDerived env i x p salt dek s)"
    using t none by auto
  show ?thesis
  proof (cases rule: setupDerived_cases [of env i x p salt dek s])
    case (failed v e kek)
    then show ?thesis using t(2) none u drifts_fields(1) [OF failed(2)] by (simp add: finish_config)
  next
    case (stored v z row' w nonce)
    have row: "row' = row" using t(2) unfolding u stored(1) by (simp add: enterIssuanceLock_def Let_def)
    have c: "daConfig (fst (diary_run env es t)) = Some row" by (rule config_run [OF t(2)])
    have n: "length nonce = DIARY_ACCESS_NONCE_BYTES" using ok by (simp add: stored(7) cipher_ok_def crypto_ok_def)
    have z: "safeInt z" "0 \<le> z" using clock unfolding row [symmetric] stored(6) by (simp_all add: setupRow_def)
    have k: "?m ! dek = daBuffers s ! dek" using task(2) by (simp add: nth_append)
    show ?thesis using wrapped_opens [OF ok salt n stored(5) z] unfolding k by (auto simp: loadConfig_def c row [symmetric] stored(6))
  qed
qed

end
