(* ===== verification/DiaryKeys.thy ===== *)
theory DiaryKeys
  imports DiarySetup
begin

text \<open>
  The key material in memory: every buffer is all zero, or the key of a live capability, or held by a request
  that has not finished; and the key of a live capability is what it was when the capability was published.
\<close>

section \<open>Who holds a buffer\<close>

definition heldCall :: "issue_call \<Rightarrow> nat set" where
  "heldCall c = insert (icDek c) (set_option (icKek c))"

fun heldBy :: "task \<Rightarrow> nat set" where
  "heldBy (DerivingKey x (SetupRequest p salt b)) = {b}"
| "heldBy (AwaitingTurn c t) = heldCall c"
| "heldBy (AwaitingDrained c t q p) = heldCall c"
| "heldBy (AwaitingCompleted c t q p) = heldCall c"
| "heldBy (Finishing c r) = heldCall c"
| "heldBy _ = {}"

definition heldOpt :: "task option \<Rightarrow> nat set" where
  "heldOpt w = (case w of None \<Rightarrow> {} | Some v \<Rightarrow> heldBy v)"

lemma heldOpt_simps [simp]: "heldOpt None = {}" "heldOpt (Some w) = heldBy w"
  by (simp_all add: heldOpt_def)

text \<open>The request has published its capability, and may have finished.\<close>

definition published :: "diary_access \<Rightarrow> nat \<Rightarrow> bool" where
  "published s i \<longleftrightarrow> i < daNextTask s
     \<and> (case map_of (daTasks s) i of None \<Rightarrow> True | Some (Finishing c (Inr r)) \<Rightarrow> True | _ \<Rightarrow> False)"

fun publishedTask :: "task \<Rightarrow> bool" where
  "publishedTask (Finishing c (Inr r)) = True"
| "publishedTask _ = False"

lemma published_iff: "published s i \<longleftrightarrow> i < daNextTask s \<and> (\<forall>w. map_of (daTasks s) i = Some w \<longrightarrow> publishedTask w)"
  by (auto simp: published_def split: option.split task.split sum.split)

definition zeroed :: "diary_access \<Rightarrow> nat \<Rightarrow> bool" where
  "zeroed s b \<longleftrightarrow> (\<forall>x\<in>set (daBuffers s ! b). x = 0)"

definition capHolds :: "diary_access \<Rightarrow> nat \<Rightarrow> bool" where
  "capHolds s b \<longleftrightarrow> (\<exists>k c. map_of (daCapabilities s) k = Some c \<and> cpDek c = b)"

definition taskHolds :: "diary_access \<Rightarrow> nat \<Rightarrow> bool" where
  "taskHolds s b \<longleftrightarrow> (\<exists>i w. map_of (daTasks s) i = Some w \<and> b \<in> heldBy w)"

section \<open>The invariant\<close>

text \<open>\<open>X\<close> is the set of buffers that only local variables of the running turn refer to; \<open>own\<close> gives the request
  a buffer was made for.\<close>

definition accounted :: "nat set \<Rightarrow> diary_access \<Rightarrow> bool" where
  "accounted X s \<longleftrightarrow> (\<forall>b<length (daBuffers s). zeroed s b \<or> capHolds s b \<or> taskHolds s b \<or> b \<in> X)"

definition locals_ok :: "nat set \<Rightarrow> diary_access \<Rightarrow> bool" where
  "locals_ok X s \<longleftrightarrow> (\<forall>b\<in>X. b < length (daBuffers s) \<and> \<not> capHolds s b \<and> \<not> taskHolds s b)"

definition tokens_ok :: "diary_env \<Rightarrow> diary_access \<Rightarrow> bool" where
  "tokens_ok env s \<longleftrightarrow> distinct (mapKeys (daCapabilities s))
     \<and> (\<forall>k c. map_of (daCapabilities s) k = Some c \<longrightarrow> (\<exists>n<daDraws s. k = capabilityToken (aeRandom (deAuth env) n 32)))"

fun keksApart :: "task \<Rightarrow> bool" where
  "keksApart (AwaitingTurn c t) = (icKek c \<noteq> Some (icDek c))"
| "keksApart (AwaitingDrained c t q p) = (icKek c \<noteq> Some (icDek c))"
| "keksApart (AwaitingCompleted c t q p) = (icKek c \<noteq> Some (icDek c))"
| "keksApart (Finishing c r) = (icKek c \<noteq> Some (icDek c))"
| "keksApart _ = True"

definition tasks_own :: "(nat \<Rightarrow> nat) \<Rightarrow> diary_access \<Rightarrow> bool" where
  "tasks_own own s \<longleftrightarrow> (\<forall>i w. map_of (daTasks s) i = Some w \<longrightarrow> i < daNextTask s \<and> keksApart w
     \<and> (\<forall>b\<in>heldBy w. b < length (daBuffers s) \<and> own b = i))"

definition caps_own :: "(nat \<Rightarrow> nat) \<Rightarrow> diary_access \<Rightarrow> bool" where
  "caps_own own s \<longleftrightarrow>
     (\<forall>k c. map_of (daCapabilities s) k = Some c \<longrightarrow> cpDek c < length (daBuffers s) \<and> own (cpDek c) = cpRequest c
        \<and> published s (cpRequest c)
        \<and> (\<forall>v r. map_of (daTasks s) (cpRequest c) = Some (Finishing v r) \<longrightarrow> icDek v = cpDek c))
     \<and> (\<forall>k k' c c'. map_of (daCapabilities s) k = Some c \<longrightarrow> map_of (daCapabilities s) k' = Some c' \<longrightarrow>
        cpRequest c = cpRequest c' \<longrightarrow> k = k')"

definition leases_own :: "diary_access \<Rightarrow> bool" where
  "leases_own s \<longleftrightarrow> (\<forall>j l. map_of (daTasks s) j = Some (BodyOperation l) \<longrightarrow> published s (blCapability l)
     \<and> (\<forall>k c. map_of (daCapabilities s) k = Some c \<longrightarrow> cpRequest c = blCapability l \<longrightarrow> cpDek c = blDek l))"

definition keys_at :: "diary_env \<Rightarrow> (nat \<Rightarrow> nat) \<Rightarrow> nat set \<Rightarrow> diary_access \<Rightarrow> bool" where
  "keys_at env own X s \<longleftrightarrow> accounted X s \<and> locals_ok X s \<and> tokens_ok env s \<and> tasks_own own s \<and> caps_own own s \<and> leases_own s"

definition keys_ok :: "diary_env \<Rightarrow> nat set \<Rightarrow> diary_access \<Rightarrow> bool" where
  "keys_ok env X s \<longleftrightarrow> (\<exists>own. keys_at env own X s)"

text \<open>A capability of a request that had published before was there before, with the same key.\<close>

definition retains :: "diary_access \<Rightarrow> diary_access \<Rightarrow> bool" where
  "retains s t \<longleftrightarrow> (\<forall>i. published s i \<longrightarrow> published t i)
     \<and> (\<forall>k c. map_of (daCapabilities t) k = Some c \<longrightarrow> published s (cpRequest c) \<longrightarrow>
        (\<exists>c'. map_of (daCapabilities s) k = Some c' \<and> cpRequest c' = cpRequest c \<and> cpDek c' = cpDek c
           \<and> daBuffers t ! cpDek c = daBuffers s ! cpDek c))"

lemma retains_refl [simp]: "retains s s"
  by (auto simp: retains_def)

lemma retains_trans: "retains s t \<Longrightarrow> retains t u \<Longrightarrow> retains s u"
  unfolding retains_def by (metis (full_types))

definition draws_fresh :: "diary_env \<Rightarrow> nat \<Rightarrow> bool" where
  "draws_fresh env m \<longleftrightarrow> (\<forall>j<m. \<forall>i<j. aeRandom (deAuth env) i 32 \<noteq> aeRandom (deAuth env) j 32)"

definition carries :: "diary_env \<Rightarrow> nat set \<Rightarrow> diary_access \<Rightarrow> nat set \<Rightarrow> diary_access \<Rightarrow> bool" where
  "carries env X s Y t \<longleftrightarrow> daDraws s \<le> daDraws t
     \<and> (draws_fresh env (daDraws t) \<longrightarrow> keys_ok env X s \<longrightarrow> keys_ok env Y t \<and> retains s t)"

lemma draws_fresh_mono: "draws_fresh env n \<Longrightarrow> m \<le> n \<Longrightarrow> draws_fresh env m"
  by (auto simp: draws_fresh_def)

lemma carries_refl [simp]: "carries env X s X s"
  by (simp add: carries_def)

lemma carries_trans [trans]: "carries env X s Y t \<Longrightarrow> carries env Y t Z u \<Longrightarrow> carries env X s Z u"
  unfolding carries_def using draws_fresh_mono retains_trans by (meson le_trans)

lemma carriesI:
  assumes "daDraws s \<le> daDraws t"
    "\<And>own. draws_fresh env (daDraws t) \<Longrightarrow> keys_at env own X s \<Longrightarrow> \<exists>own'. keys_at env own' Y t \<and> retains s t"
  shows "carries env X s Y t"
  using assms by (auto simp: carries_def keys_ok_def)

lemma keys_cap:
  assumes "keys_at env own X s" "map_of (daCapabilities s) k = Some c"
  shows "cpDek c < length (daBuffers s)" "own (cpDek c) = cpRequest c" "published s (cpRequest c)"
    "map_of (daTasks s) (cpRequest c) = Some (Finishing v r) \<Longrightarrow> icDek v = cpDek c"
    "map_of (daCapabilities s) k' = Some c' \<Longrightarrow> cpRequest c' = cpRequest c \<Longrightarrow> k' = k"
proof -
  have o: "caps_own own s" using assms(1) by (simp add: keys_at_def)
  then show "cpDek c < length (daBuffers s)" "own (cpDek c) = cpRequest c" "published s (cpRequest c)"
    using assms(2) unfolding caps_own_def by blast+
  show "map_of (daTasks s) (cpRequest c) = Some (Finishing v r) \<Longrightarrow> icDek v = cpDek c"
    using o assms(2) unfolding caps_own_def by blast
  show "map_of (daCapabilities s) k' = Some c' \<Longrightarrow> cpRequest c' = cpRequest c \<Longrightarrow> k' = k"
    using o assms(2) unfolding caps_own_def by blast
qed

lemma keys_task:
  assumes "keys_at env own X s" "map_of (daTasks s) i = Some w"
  shows "i < daNextTask s" "keksApart w" "b \<in> heldBy w \<Longrightarrow> b < length (daBuffers s)" "b \<in> heldBy w \<Longrightarrow> own b = i"
  using assms unfolding keys_at_def tasks_own_def by blast+

lemma keys_lease:
  assumes "keys_at env own X s" "map_of (daTasks s) j = Some (BodyOperation l)"
  shows "published s (blCapability l)"
    "map_of (daCapabilities s) k = Some c \<Longrightarrow> cpRequest c = blCapability l \<Longrightarrow> cpDek c = blDek l"
  using assms unfolding keys_at_def leases_own_def by blast+

text \<open>What a request has not published, no capability and no lease refers to.\<close>

lemma unpublished:
  assumes "keys_at env own X s" "map_of (daTasks s) i = Some w" "\<not> publishedTask w"
  shows "map_of (daCapabilities s) k = Some c \<Longrightarrow> cpRequest c \<noteq> i"
    "map_of (daTasks s) j = Some (BodyOperation l) \<Longrightarrow> blCapability l \<noteq> i"
  using keys_cap(3) [OF assms(1)] keys_lease(1) [OF assms(1)] assms(2,3) by (fastforce simp: published_iff)+

section \<open>Moves\<close>

text \<open>Nothing the invariant sees has changed.\<close>

lemma carries_same:
  assumes "daBuffers t = daBuffers s" "daCapabilities t = daCapabilities s" "map_of (daTasks t) = map_of (daTasks s)"
    "daNextTask t = daNextTask s" "daDraws s \<le> daDraws t"
  shows "carries env X s X t"
proof (rule carriesI [OF assms(5)])
  fix own assume k: "keys_at env own X s"
  have p: "published t = published s" by (simp add: published_def fun_eq_iff assms)
  have h: "capHolds t = capHolds s" "taskHolds t = taskHolds s" "zeroed t = zeroed s"
    by (simp_all add: capHolds_def taskHolds_def zeroed_def fun_eq_iff assms)
  have "accounted X t" "locals_ok X t" using k by (simp_all add: keys_at_def accounted_def locals_ok_def h assms(1))
  moreover have "tokens_ok env t" using k assms(5) unfolding keys_at_def tokens_ok_def assms(2) by (meson less_le_trans)
  moreover have "tasks_own own t" "caps_own own t" "leases_own t"
    using k by (simp_all add: keys_at_def tasks_own_def caps_own_def leases_own_def p assms(1-4))
  moreover have "retains s t" by (auto simp: retains_def p assms)
  ultimately show "\<exists>own'. keys_at env own' X t \<and> retains s t" by (auto simp: keys_at_def)
qed

lemma carries_host: "hostOnly s t \<Longrightarrow> carries env X s X t"
  by (rule carries_same) (simp_all add: hostOnly_fields)

text \<open>A buffer is made.\<close>

lemma carries_alloc:
  assumes "daBuffers t = daBuffers s @ [bs]" "daCapabilities t = daCapabilities s" "daTasks t = daTasks s"
    "daNextTask t = daNextTask s" "daDraws s \<le> daDraws t" "Y = insert (length (daBuffers s)) X \<or> Y = X \<and> (\<forall>x\<in>set bs. x = 0)"
  shows "carries env X s Y t"
proof (rule carriesI [OF assms(5)])
  fix own assume k: "keys_at env own X s"
  have p: "published t = published s" by (simp add: published_def fun_eq_iff assms)
  have h: "capHolds t = capHolds s" "taskHolds t = taskHolds s" by (simp_all add: capHolds_def taskHolds_def fun_eq_iff assms)
  have z: "b < length (daBuffers s) \<Longrightarrow> zeroed t b = zeroed s b" for b by (simp add: zeroed_def assms nth_append)
  have new: "\<not> capHolds s (length (daBuffers s))" "\<not> taskHolds s (length (daBuffers s))"
    using keys_cap(1) [OF k] keys_task(3) [OF k] by (fastforce simp: capHolds_def taskHolds_def)+
  have zn: "(\<forall>x\<in>set bs. x = 0) \<Longrightarrow> zeroed t (length (daBuffers s))" by (simp add: zeroed_def assms)
  have "accounted Y t" using k z zn assms(6) unfolding keys_at_def accounted_def h by (auto simp: assms(1) less_Suc_eq)
  moreover have "locals_ok Y t" using k assms(6) new unfolding keys_at_def locals_ok_def h by (auto simp: assms(1))
  moreover have "tokens_ok env t" using k assms(5) unfolding keys_at_def tokens_ok_def assms(2) by (meson less_le_trans)
  moreover have "tasks_own own t" using k unfolding keys_at_def tasks_own_def assms(1,3,4) by (auto intro: less_SucI)
  moreover have "caps_own own t" using k unfolding keys_at_def caps_own_def p assms(1-4) by (auto intro: less_SucI)
  moreover have "leases_own t" using k unfolding keys_at_def leases_own_def p assms(1-4) by auto
  moreover have "cpDek c < length (daBuffers s)" if "map_of (daCapabilities s) j = Some c" for j c
    using keys_cap(1) [OF k that] .
  then have "retains s t" unfolding retains_def p by (simp add: assms(1,2) nth_append)
  ultimately show "\<exists>own'. keys_at env own' Y t \<and> retains s t" by (auto simp: keys_at_def)
qed

text \<open>A buffer of a local variable is erased, or one that no capability has.\<close>

lemma carries_fill:
  assumes "\<And>own. keys_at env own X s \<Longrightarrow> \<not> capHolds s b"
  shows "carries env X s (X - {b}) (fillZero b s)"
proof (rule carriesI)
  fix own assume k: "keys_at env own X s"
  have p: "published (fillZero b s) = published s" by (simp add: published_def fun_eq_iff)
  have h: "capHolds (fillZero b s) = capHolds s" "taskHolds (fillZero b s) = taskHolds s"
    by (simp_all add: capHolds_def taskHolds_def fun_eq_iff)
  have len: "length (daBuffers (fillZero b s)) = length (daBuffers s)" by (simp add: fillZero_def)
  have z: "x < length (daBuffers s) \<Longrightarrow> zeroed (fillZero b s) x \<longleftrightarrow> zeroed s x \<or> x = b" for x
    by (cases "x = b") (auto simp: zeroed_def fillZero_def)
  have "accounted (X - {b}) (fillZero b s)" using k z unfolding keys_at_def accounted_def h len by auto
  moreover have "locals_ok (X - {b}) (fillZero b s)" using k unfolding keys_at_def locals_ok_def h len by auto
  moreover have "tokens_ok env (fillZero b s)" using k by (simp add: keys_at_def tokens_ok_def)
  moreover have "tasks_own own (fillZero b s)" using k unfolding keys_at_def tasks_own_def len by simp
  moreover have "caps_own own (fillZero b s)" using k unfolding keys_at_def caps_own_def p len by simp
  moreover have "leases_own (fillZero b s)" using k unfolding keys_at_def leases_own_def p by simp
  moreover have "retains s (fillZero b s)"
    using assms [OF k] unfolding retains_def p by (auto simp: capHolds_def fillZero_def) (metis nth_list_update_neq)
  ultimately show "\<exists>own'. keys_at env own' (X - {b}) (fillZero b s) \<and> retains s (fillZero b s)" by (auto simp: keys_at_def)
qed simp

text \<open>A task moves on, or ends.\<close>

lemma carries_task:
  assumes w: "map_of (daTasks s) i = Some w" and t: "map_of (daTasks t) = (map_of (daTasks s))(i := v)"
    and same: "daBuffers t = daBuffers s" "daCapabilities t = daCapabilities s" "daNextTask t = daNextTask s" "daDraws s \<le> daDraws t"
    and hold: "\<And>own b. keys_at env own X s \<Longrightarrow> b \<in> heldBy w \<Longrightarrow> b \<in> heldOpt v \<or> zeroed s b \<or> capHolds s b" "heldOpt v \<subseteq> heldBy w \<union> X"
    and pub: "publishedTask w \<Longrightarrow> v = None" and v: "\<And>x own. v = Some x \<Longrightarrow> keys_at env own X s \<Longrightarrow> keksApart x \<and> \<not> publishedTask x"
    and lease: "\<And>l. v = Some (BodyOperation l) \<Longrightarrow> \<exists>l'. w = BodyOperation l' \<and> blCapability l = blCapability l' \<and> blDek l = blDek l'"
  shows "carries env X s (X - heldOpt v) t"
proof (rule carriesI [OF same(4)])
  fix own assume k: "keys_at env own X s"
  let ?own = "\<lambda>b. if b \<in> X then i else own b"
  have il: "i < daNextTask s" by (rule keys_task(1) [OF k w])
  have p: "published t j" if "published s j" for j using that w t pub by (auto simp: published_iff same)
  have c: "capHolds t = capHolds s" "zeroed t = zeroed s" by (simp_all add: capHolds_def zeroed_def fun_eq_iff same)
  have th: "taskHolds t b \<longleftrightarrow> b \<in> heldOpt v \<or> (\<exists>j x. j \<noteq> i \<and> map_of (daTasks s) j = Some x \<and> b \<in> heldBy x)" for b
    unfolding taskHolds_def t by (cases v) (auto split: if_splits)
  have hs: "taskHolds s b \<longleftrightarrow> b \<in> heldBy w \<or> (\<exists>j x. j \<noteq> i \<and> map_of (daTasks s) j = Some x \<and> b \<in> heldBy x)" for b
    unfolding taskHolds_def using w by (metis option.inject)
  have X: "b \<in> X \<Longrightarrow> \<not> taskHolds s b" "b \<in> X \<Longrightarrow> \<not> capHolds s b" "b \<in> X \<Longrightarrow> b < length (daBuffers s)" for b
    using k by (auto simp: keys_at_def locals_ok_def)
  have "accounted (X - heldOpt v) t" unfolding accounted_def c th same
  proof (intro allI impI)
    fix b assume "b < length (daBuffers s)"
    then have "zeroed s b \<or> capHolds s b \<or> taskHolds s b \<or> b \<in> X" using k by (auto simp: keys_at_def accounted_def)
    then show "zeroed s b \<or> capHolds s b \<or> (b \<in> heldOpt v \<or> (\<exists>j x. j \<noteq> i \<and> map_of (daTasks s) j = Some x \<and> b \<in> heldBy x))
        \<or> b \<in> X - heldOpt v" using hold(1) [OF k, of b] unfolding hs by blast
  qed
  moreover have "locals_ok (X - heldOpt v) t" using X unfolding locals_ok_def c th same hs by blast
  moreover have "tokens_ok env t" using k same(4) unfolding keys_at_def tokens_ok_def same(2) by (meson less_le_trans)
  moreover have "tasks_own ?own t"
    unfolding tasks_own_def
  proof (intro allI impI)
    fix j x assume j: "map_of (daTasks t) j = Some x"
    show "j < daNextTask t \<and> keksApart x \<and> (\<forall>b\<in>heldBy x. b < length (daBuffers t) \<and> ?own b = j)"
    proof (cases "j = i")
      case True
      then have x: "v = Some x" using j t by simp
      have "b < length (daBuffers s) \<and> ?own b = i" if "b \<in> heldBy x" for b
        using hold(2) x that X keys_task(3,4) [OF k w] by auto
      then show ?thesis using v [OF x k] il True by (simp add: same)
    next
      case False
      then have x: "map_of (daTasks s) j = Some x" using j t by simp
      have "b \<notin> X" if "b \<in> heldBy x" for b using X(1) x that by (auto simp: taskHolds_def)
      then show ?thesis using keys_task [OF k x] by (simp add: same)
    qed
  qed
  moreover have "caps_own ?own t"
  proof -
    have "?own (cpDek a) = own (cpDek a)" if "map_of (daCapabilities s) n = Some a" for a n
      using X(2) [of "cpDek a"] that by (auto simp: capHolds_def)
    moreover have "map_of (daTasks t) (cpRequest a) = Some (Finishing y r) \<Longrightarrow> icDek y = cpDek a"
      if a: "map_of (daCapabilities s) n = Some a" for a n y r
    proof (cases "cpRequest a = i")
      case True
      assume "map_of (daTasks t) (cpRequest a) = Some (Finishing y r)"
      then have "v \<noteq> None" using True t by auto
      moreover have "publishedTask w" using keys_cap(3) [OF k a] w True by (simp add: published_iff)
      ultimately show ?thesis using pub by blast
    next
      case False
      assume "map_of (daTasks t) (cpRequest a) = Some (Finishing y r)"
      then show ?thesis using False t keys_cap(4) [OF k a] by simp
    qed
    ultimately show ?thesis
      unfolding caps_own_def same using keys_cap(1-3) [OF k] keys_cap(5) [OF k] p by metis
  qed
  moreover have "leases_own t"
    unfolding leases_own_def same
  proof (intro allI impI)
    fix j l assume "map_of (daTasks t) j = Some (BodyOperation l)"
    then obtain j' l' where l: "map_of (daTasks s) j' = Some (BodyOperation l')" "blCapability l = blCapability l'" "blDek l = blDek l'"
      using t lease w by (auto split: if_splits)
    show "published t (blCapability l) \<and> (\<forall>n a. map_of (daCapabilities s) n = Some a \<longrightarrow> cpRequest a = blCapability l \<longrightarrow> cpDek a = blDek l)"
      using keys_lease [OF k l(1)] p l(2,3) by auto
  qed
  moreover have "retains s t" using p by (auto simp: retains_def same)
  ultimately show "\<exists>own'. keys_at env own' (X - heldOpt v) t \<and> retains s t" by (auto simp: keys_at_def)
qed

text \<open>A task is added, to which a local buffer may go.\<close>

lemma carries_add:
  assumes t: "map_of (daTasks t) = (map_of (daTasks s))(daNextTask s \<mapsto> w)" "daNextTask t = Suc (daNextTask s)"
    and same: "daBuffers t = daBuffers s" "daCapabilities t = daCapabilities s" "daDraws s \<le> daDraws t"
    and w: "heldBy w \<subseteq> X" "keksApart w" "\<not> publishedTask w"
    and lease: "\<And>l. w = BodyOperation l \<Longrightarrow>
      \<exists>k c. map_of (daCapabilities s) k = Some c \<and> cpRequest c = blCapability l \<and> cpDek c = blDek l"
  shows "carries env X s (X - heldBy w) t"
proof (rule carriesI [OF same(3)])
  fix own assume k: "keys_at env own X s"
  let ?own = "\<lambda>b. if b \<in> X then daNextTask s else own b"
  have none: "map_of (daTasks s) (daNextTask s) = None" using keys_task(1) [OF k] by (cases "map_of (daTasks s) (daNextTask s)") auto
  have p: "published t j = published s j" for j using w(3) by (auto simp: published_iff t less_Suc_eq)
  have c: "capHolds t = capHolds s" "zeroed t = zeroed s" by (simp_all add: capHolds_def zeroed_def fun_eq_iff same)
  have th: "taskHolds t b \<longleftrightarrow> b \<in> heldBy w \<or> taskHolds s b" for b
    unfolding taskHolds_def t using none by (auto split: if_splits) (metis option.distinct(1))
  have X: "b \<in> X \<Longrightarrow> \<not> taskHolds s b" "b \<in> X \<Longrightarrow> \<not> capHolds s b" "b \<in> X \<Longrightarrow> b < length (daBuffers s)" for b
    using k by (auto simp: keys_at_def locals_ok_def)
  have "accounted (X - heldBy w) t" "locals_ok (X - heldBy w) t"
    using k X unfolding keys_at_def accounted_def locals_ok_def c th same by blast+
  moreover have "tokens_ok env t" using k same(3) unfolding keys_at_def tokens_ok_def same(2) by (meson less_le_trans)
  moreover have "tasks_own ?own t"
    unfolding tasks_own_def
  proof (intro allI impI)
    fix j x assume j: "map_of (daTasks t) j = Some x"
    show "j < daNextTask t \<and> keksApart x \<and> (\<forall>b\<in>heldBy x. b < length (daBuffers t) \<and> ?own b = j)"
    proof (cases "j = daNextTask s")
      case True
      then have "x = w" using j t by simp
      then show ?thesis using w X(3) True by (auto simp: t same)
    next
      case False
      then have x: "map_of (daTasks s) j = Some x" using j t by simp
      have "b \<notin> X" if "b \<in> heldBy x" for b using X(1) x that by (auto simp: taskHolds_def)
      then show ?thesis using keys_task [OF k x] by (simp add: same t)
    qed
  qed
  moreover have "caps_own ?own t"
  proof -
    have "?own (cpDek a) = own (cpDek a)" if "map_of (daCapabilities s) n = Some a" for a n
      using X(2) [of "cpDek a"] that by (auto simp: capHolds_def)
    moreover have "map_of (daTasks t) (cpRequest a) = map_of (daTasks s) (cpRequest a)" if "map_of (daCapabilities s) n = Some a" for a n
      using keys_cap(3) [OF k that] by (auto simp: t published_iff)
    ultimately show ?thesis
      unfolding caps_own_def same p using keys_cap(1-4) [OF k] keys_cap(5) [OF k] by metis
  qed
  moreover have "leases_own t"
    unfolding leases_own_def same p
  proof (intro allI impI)
    fix j l assume j: "map_of (daTasks t) j = Some (BodyOperation l)"
    show "published s (blCapability l) \<and> (\<forall>n a. map_of (daCapabilities s) n = Some a \<longrightarrow> cpRequest a = blCapability l \<longrightarrow> cpDek a = blDek l)"
    proof (cases "j = daNextTask s")
      case True
      then obtain n a where a: "map_of (daCapabilities s) n = Some a" "cpRequest a = blCapability l" "cpDek a = blDek l"
        using j t lease by auto
      then show ?thesis using keys_cap(3) [OF k a(1)] keys_cap(5) [OF k a(1)] by (metis option.inject)
    next
      case False
      then show ?thesis using keys_lease [OF k, of j l] j t by auto
    qed
  qed
  moreover have "retains s t" by (auto simp: retains_def p same)
  ultimately show "\<exists>own'. keys_at env own' (X - heldBy w) t \<and> retains s t" by (auto simp: keys_at_def)
qed

text \<open>A capability goes, and its key with it.\<close>

lemma carries_drop: "carries env X s X (dropCapability token s)"
proof (cases "map_of (daCapabilities s) token")
  case None
  then have "mapDelete token (daCapabilities s) = daCapabilities s"
    unfolding mapDelete_def by (intro filter_True) (auto simp: map_of_eq_None_iff)
  then show ?thesis by (intro carries_same) (simp_all add: dropCapability_def None)
next
  case (Some a)
  let ?t = "dropCapability token s"
  have caps: "map_of (daCapabilities ?t) = (map_of (daCapabilities s))(token := None)"
    "daBuffers ?t = (daBuffers s)[cpDek a := replicate (length (daBuffers s ! cpDek a)) 0]"
    by (simp_all add: dropCapability_def Some fillZero_def)
  show ?thesis
  proof (rule carriesI)
    fix own assume k: "keys_at env own X s"
    have p: "published ?t = published s" by (simp add: published_def fun_eq_iff)
    have th: "taskHolds ?t = taskHolds s" by (simp add: taskHolds_def fun_eq_iff)
    have ch: "capHolds ?t b \<Longrightarrow> capHolds s b" "capHolds s b \<Longrightarrow> b = cpDek a \<or> capHolds ?t b" for b
      using Some unfolding capHolds_def caps by (metis fun_upd_apply option.distinct(1), metis fun_upd_apply option.inject)
    have len: "length (daBuffers ?t) = length (daBuffers s)" by (simp add: caps)
    have z: "b < length (daBuffers s) \<Longrightarrow> zeroed ?t b \<longleftrightarrow> zeroed s b \<or> b = cpDek a" for b
      by (cases "b = cpDek a") (auto simp: zeroed_def caps)
    have "accounted X ?t" "locals_ok X ?t" using k z ch unfolding keys_at_def accounted_def locals_ok_def th len by blast+
    moreover have "tokens_ok env ?t" using k by (auto simp: keys_at_def tokens_ok_def dropCapability_def Some)
    moreover have "tasks_own own ?t" using k by (simp add: keys_at_def tasks_own_def len)
    moreover have "caps_own own ?t" using k unfolding keys_at_def caps_own_def p len caps by auto
    moreover have "leases_own ?t" using k unfolding keys_at_def leases_own_def p caps by auto
    moreover have "cpDek c \<noteq> cpDek a" if "map_of (daCapabilities ?t) n = Some c" for n c
    proof
      assume e: "cpDek c = cpDek a"
      have c: "map_of (daCapabilities s) n = Some c" "n \<noteq> token" using that by (auto simp: caps split: if_splits)
      have "cpRequest c = cpRequest a" using keys_cap(2) [OF k c(1)] keys_cap(2) [OF k Some] e by simp
      then show False using keys_cap(5) [OF k Some c(1)] c(2) by simp
    qed
    then have "retains s ?t" unfolding retains_def p by (auto simp: caps split: if_splits) (metis fun_upd_other nth_list_update_neq option.distinct(1))
    ultimately show "\<exists>own'. keys_at env own' X ?t \<and> retains s ?t" by (auto simp: keys_at_def)
  qed simp
qed

text \<open>A capability gets a new timer, or none.\<close>

lemma carries_retime:
  assumes a: "map_of (daCapabilities s) token = Some a" and t: "daCapabilities t = mapSet token (a\<lparr>cpTimer := x\<rparr>) (daCapabilities s)"
    and same: "daBuffers t = daBuffers s" "daTasks t = daTasks s" "daNextTask t = daNextTask s" "daDraws t = daDraws s"
  shows "carries env X s X t"
proof (rule carriesI)
  fix own assume k: "keys_at env own X s"
  have caps: "map_of (daCapabilities t) = (map_of (daCapabilities s))(token \<mapsto> a\<lparr>cpTimer := x\<rparr>)" by (simp add: t)
  have kept: "\<exists>c'. map_of (daCapabilities s) n = Some c' \<and> cpRequest c' = cpRequest c \<and> cpDek c' = cpDek c"
    if "map_of (daCapabilities t) n = Some c" for n c using that a by (auto simp: caps split: if_splits)
  have p: "published t = published s" by (simp add: published_def fun_eq_iff same)
  have h: "taskHolds t = taskHolds s" "zeroed t = zeroed s" by (simp_all add: taskHolds_def zeroed_def fun_eq_iff same)
  have ch: "capHolds t b \<longleftrightarrow> capHolds s b" for b
  proof
    show "capHolds t b \<Longrightarrow> capHolds s b" using kept unfolding capHolds_def by blast
  next
    assume "capHolds s b"
    then obtain n c where c: "map_of (daCapabilities s) n = Some c" "cpDek c = b" by (auto simp: capHolds_def)
    then have "\<exists>c'. map_of (daCapabilities t) n = Some c' \<and> cpDek c' = b" using a by (auto simp: caps)
    then show "capHolds t b" by (auto simp: capHolds_def)
  qed
  have "accounted X t" "locals_ok X t" using k unfolding keys_at_def accounted_def locals_ok_def h ch same by blast+
  moreover have "tokens_ok env t" using k a by (auto simp: keys_at_def tokens_ok_def t same)
  moreover have "tasks_own own t" using k by (simp add: keys_at_def tasks_own_def same)
  moreover have "caps_own own t"
    unfolding caps_own_def
  proof (intro conjI allI impI)
    fix n c assume "map_of (daCapabilities t) n = Some c"
    then obtain c' where c': "map_of (daCapabilities s) n = Some c'" "cpRequest c' = cpRequest c" "cpDek c' = cpDek c" using kept by blast
    show "cpDek c < length (daBuffers t)" "own (cpDek c) = cpRequest c" "published t (cpRequest c)"
      using keys_cap(1-3) [OF k c'(1)] c'(2,3) by (simp_all add: same p)
    fix v r assume "map_of (daTasks t) (cpRequest c) = Some (Finishing v r)"
    then show "icDek v = cpDek c" using keys_cap(4) [OF k c'(1)] c'(2,3) by (simp add: same)
  next
    fix n n' c c' assume c: "map_of (daCapabilities t) n = Some c" "map_of (daCapabilities t) n' = Some c'" "cpRequest c = cpRequest c'"
    obtain d d' where "map_of (daCapabilities s) n = Some d" "cpRequest d = cpRequest c"
      "map_of (daCapabilities s) n' = Some d'" "cpRequest d' = cpRequest c'"
      using kept [OF c(1)] kept [OF c(2)] by blast
    then show "n = n'" using keys_cap(5) [OF k] c(3) by metis
  qed
  moreover have "leases_own t"
    unfolding leases_own_def p same
  proof (intro allI impI conjI)
    fix j l assume l: "map_of (daTasks s) j = Some (BodyOperation l)"
    show "published s (blCapability l)" by (rule keys_lease(1) [OF k l])
    fix n c assume "map_of (daCapabilities t) n = Some c" "cpRequest c = blCapability l"
    then show "cpDek c = blDek l" using kept [of n c] keys_lease(2) [OF k l] by auto
  qed
  moreover have "retains s t" unfolding retains_def p same(1) using kept by simp
  ultimately show "\<exists>own'. keys_at env own' X t \<and> retains s t" by (auto simp: keys_at_def)
qed (simp add: same)

text \<open>A request publishes its capability, under a token that was never drawn before.\<close>

lemma token_fresh:
  assumes "crypto_ok (deAuth env)" "draws_fresh env (Suc (daDraws s))" "tokens_ok env s"
  shows "map_of (daCapabilities s) (capabilityToken (aeRandom (deAuth env) (daDraws s) 32)) = None"
proof (rule ccontr)
  let ?r = "\<lambda>n. aeRandom (deAuth env) n 32"
  assume "map_of (daCapabilities s) (capabilityToken (?r (daDraws s))) \<noteq> None"
  then obtain n where n: "n < daDraws s" "capabilityToken (?r (daDraws s)) = capabilityToken (?r n)"
    using assms(3) by (auto simp: tokens_ok_def)
  have "isBytes (?r m)" for m using assms(1) by (simp add: crypto_ok_def)
  then have "?r (daDraws s) = ?r n" using n(2) unfolding capabilityToken_def by (metis buffer_round_trip)
  then show False using assms(2) n(1) unfolding draws_fresh_def by (metis lessI)
qed

lemma carries_publish:
  assumes ok: "crypto_ok (deAuth env)" and w: "map_of (daTasks s) i = Some w" "\<not> publishedTask w" "heldBy w = heldCall c" "keksApart w \<Longrightarrow> icKek c \<noteq> Some (icDek c)"
    and t: "map_of (daTasks t) = (map_of (daTasks s))(i \<mapsto> Finishing c (Inr r))"
      "daCapabilities t = mapSet (capabilityToken (aeRandom (deAuth env) (daDraws s) 32)) a (daCapabilities s)"
    and a: "cpRequest a = i" "cpDek a = icDek c"
    and same: "daBuffers t = daBuffers s" "daNextTask t = daNextTask s" "daDraws t = Suc (daDraws s)"
  shows "carries env X s X t"
proof (rule carriesI)
  fix own assume fr: "draws_fresh env (daDraws t)" and k: "keys_at env own X s"
  let ?tok = "capabilityToken (aeRandom (deAuth env) (daDraws s) 32)"
  have none: "map_of (daCapabilities s) ?tok = None" using token_fresh [OF ok] fr k by (simp add: keys_at_def same)
  have caps: "map_of (daCapabilities t) = (map_of (daCapabilities s))(?tok \<mapsto> a)" by (simp add: t)
  have p: "published s j \<Longrightarrow> published t j" "published t i" for j
    using w(2) keys_task(1) [OF k w(1)] by (auto simp: published_iff t same)
  have ns: "\<not> published s i" using w by (auto simp: published_iff)
  have z: "zeroed t = zeroed s" by (simp add: zeroed_def fun_eq_iff same)
  have th: "taskHolds t = taskHolds s"
    using w by (auto simp: taskHolds_def fun_eq_iff t(1)) (metis heldBy.simps(6) option.inject)+
  have ch: "capHolds t b \<longleftrightarrow> capHolds s b \<or> b = icDek c" for b
    unfolding capHolds_def caps using none a(2) by (metis fun_upd_apply option.distinct(1) option.inject)
  have held: "taskHolds s (icDek c)" using w by (auto simp: taskHolds_def heldCall_def)
  have "accounted X t" using k unfolding keys_at_def accounted_def z th ch same by blast
  moreover have "locals_ok X t" using k held unfolding keys_at_def locals_ok_def th ch same by blast
  moreover have "tokens_ok env t"
    using k none unfolding keys_at_def tokens_ok_def caps same(3) by (auto simp: t(2) intro: less_SucI)
  moreover have "tasks_own own t"
    using k keys_task [OF k w(1)] w(3,4) unfolding keys_at_def tasks_own_def same t(1) by auto
  moreover have "caps_own own t"
  proof -
    have old: "cpRequest x \<noteq> i" if "map_of (daCapabilities s) n = Some x" for n x by (rule unpublished(1) [OF k w(1,2) that])
    have new: "icDek c < length (daBuffers s)" "own (icDek c) = i" using keys_task(3,4) [OF k w(1)] w(3) by (auto simp: heldCall_def)
    show ?thesis
      unfolding caps_own_def
    proof (intro conjI allI impI)
      fix n x assume x: "map_of (daCapabilities t) n = Some x"
      show "cpDek x < length (daBuffers t)" "own (cpDek x) = cpRequest x" "published t (cpRequest x)"
        using x keys_cap(1-3) [OF k] new a p by (auto simp: caps same split: if_splits)
      fix v q assume "map_of (daTasks t) (cpRequest x) = Some (Finishing v q)"
      then show "icDek v = cpDek x" using x old [of n x] keys_cap(4) [OF k] a by (auto simp: caps t(1) split: if_splits)
    next
      fix n n' x x' assume "map_of (daCapabilities t) n = Some x" "map_of (daCapabilities t) n' = Some x'" "cpRequest x = cpRequest x'"
      then show "n = n'" using old keys_cap(5) [OF k] a(1) by (auto simp: caps split: if_splits)
    qed
  qed
  moreover have "leases_own t"
    unfolding leases_own_def
  proof (intro allI impI)
    fix j l assume "map_of (daTasks t) j = Some (BodyOperation l)"
    then have l: "map_of (daTasks s) j = Some (BodyOperation l)" by (auto simp: t(1) split: if_splits)
    show "published t (blCapability l) \<and> (\<forall>n x. map_of (daCapabilities t) n = Some x \<longrightarrow> cpRequest x = blCapability l \<longrightarrow> cpDek x = blDek l)"
      using keys_lease [OF k l] unpublished(2) [OF k w(1,2) l] p a(1) by (auto simp: caps)
  qed
  moreover have "retains s t" using p ns a(1) by (auto simp: retains_def caps same split: if_splits)
  ultimately show "\<exists>own'. keys_at env own' X t \<and> retains s t" by (auto simp: keys_at_def)
qed (simp add: same)

section \<open>The operations\<close>

lemma carries_invalidate: "carries env X s X (invalidateAuthSession sid s)"
proof (cases "isSessionNumber sid")
  case True
  let ?s = "snd (beginSessionInvalidation sid s)" and ?w = "Quiescing sid (fst (beginSessionInvalidation sid s))"
  have "carries env X s X ?s" by (rule carries_same) simp_all
  also have "carries env X ?s (X - heldBy ?w) (addTask ?w ?s)" by (rule carries_add) simp_all
  finally show ?thesis by (simp add: invalidate_unfold [OF True])
qed (simp add: invalidate_none)

lemma carries_drifts: "drifts s t \<Longrightarrow> carries env X s X t"
  by (induction rule: drifts.induct) (blast intro: carries_host carries_invalidate carries_trans)+

lemma carries_drops: "carries env X s X (fold dropCapability ts s)"
  by (induction ts arbitrary: s) (auto intro: carries_drop carries_trans)

lemma carries_finalize: "carries env X s X (finalizeQuiescence sid q s)"
proof (cases rule: finalize_cases [of s sid q])
  case ended
  have "carries env X s X (dropSessionCapabilities sid s)" unfolding dropSessionCapabilities_def by (rule carries_drops)
  also have "carries env X (dropSessionCapabilities sid s) X (finalizeQuiescence sid q s)"
    by (rule carries_same) (simp_all add: ended)
  finally show ?thesis .
qed simp

lemma carries_schedule: "carries env X s X (scheduleCapabilityExpiry env token s)"
proof -
  let ?s = "s\<lparr>daClock := Suc (daClock s)\<rparr>"
  have c: "carries env X s X ?s" by (rule carries_same) simp_all
  show ?thesis
  proof (cases rule: schedule_cases [of s token env])
    case (dropped a)
    show ?thesis unfolding dropped(2) by (rule carries_trans [OF c carries_drop])
  next
    case (timed a d)
    show ?thesis unfolding timed(2)
      by (rule carries_trans [OF c carries_retime [of _ token a _ "Some (daNextTimer s)"]]) (simp_all add: timed(1) setCapabilityTimer_def)
  qed simp
qed

lemma schedule_setTask: "scheduleCapabilityExpiry env token (setTask i w s) = setTask i w (scheduleCapabilityExpiry env token s)"
  by (simp add: scheduleCapabilityExpiry_def readClock_def setTask_def setCapabilityTimer_def dropCapability_def fillZero_def
      clearTimer_def Let_def split: option.split)

lemma ownedDek_iff: "keys_at env own X s \<Longrightarrow> ownedDek b s \<longleftrightarrow> capHolds s b"
  by (simp add: ownedDek_def capHolds_def keys_at_def tokens_ok_def list_ex_map_of)

lemma zero_fill: "b < length (daBuffers s) \<Longrightarrow> zeroed (fillZero b s) b" "zeroed s x \<Longrightarrow> zeroed (fillZero b s) x"
proof -
  have e: "daBuffers (fillZero b s) ! y = (if y = b \<and> b < length (daBuffers s) then replicate (length (daBuffers s ! b)) 0 else daBuffers s ! y)" for y
    by (auto simp: fillZero_def nth_list_update list_update_beyond not_less)
  show "zeroed s x \<Longrightarrow> zeroed (fillZero b s) x" by (auto simp: zeroed_def e)
  show "zeroed (fillZero b s) b" if "b < length (daBuffers s)" using that by (auto simp: zeroed_def e)
qed

lemma zero_fillUnowned: "zeroed s x \<Longrightarrow> zeroed (fillUnowned b s) x"
  by (simp add: fillUnowned_def zero_fill)

lemma capHolds_fill [simp]: "capHolds (fillZero b s) = capHolds s" "capHolds (fillUnowned b s) = capHolds s"
  by (simp_all add: capHolds_def fillUnowned_def fun_eq_iff)

lemma carries_fillUnowned: "carries env X s (X - {b}) (fillUnowned b s)"
proof (cases "ownedDek b s")
  case True
  have "b \<notin> X" if "keys_at env own X s" for own using that ownedDek_iff [OF that] True by (auto simp: keys_at_def locals_ok_def)
  then have "X - {b} = X" if "keys_at env own X s" for own using that by auto
  then show ?thesis using True by (intro carriesI) (auto simp: fillUnowned_def)
next
  case False
  have "carries env X s (X - {b}) (fillZero b s)" by (rule carries_fill) (use False ownedDek_iff in blast)
  then show ?thesis using False by (simp add: fillUnowned_def)
qed

lemma carries_finish:
  assumes w: "map_of (daTasks s) i = Some w" "heldBy w \<subseteq> set_option kek \<union> set_option dek"
    and kek: "\<And>own b. keys_at env own X s \<Longrightarrow> kek = Some b \<Longrightarrow> \<not> capHolds s b"
  shows "carries env X s (X - set_option kek - set_option dek) (fst (finishRequest i kek dek r s))"
proof -
  define s1 where "s1 = (case kek of None \<Rightarrow> s | Some b \<Rightarrow> fillZero b s)"
  define s2 where "s2 = (case dek of None \<Rightarrow> s1 | Some b \<Rightarrow> fillUnowned b s1)"
  have e: "fst (finishRequest i kek dek r s) = endTask i s2"
    unfolding finishRequest_def s2_def s1_def Let_def by simp
  have c1: "carries env X s (X - set_option kek) s1"
    using kek by (cases kek) (auto simp: s1_def intro!: carries_fill)
  have c2: "carries env (X - set_option kek) s1 (X - set_option kek - set_option dek) s2"
    by (cases dek) (simp_all add: s2_def carries_fillUnowned)
  have t2: "map_of (daTasks s2) i = Some w"
    using w(1) by (simp add: s2_def s1_def fillUnowned_def split: option.split)
  have len: "length (daBuffers s1) = length (daBuffers s)" "length (daBuffers s2) = length (daBuffers s)"
    by (simp_all add: s2_def s1_def fillUnowned_def fillZero_def split: option.split)
  have z: "zeroed s2 b \<or> capHolds s2 b" if b: "b \<in> heldBy w" and k: "keys_at env own Y s2" for b own Y
  proof (cases "kek = Some b")
    case True
    then have "zeroed s1 b" using keys_task(3) [OF k t2 b] by (simp add: s1_def zero_fill len)
    then show ?thesis using zero_fillUnowned by (cases dek) (auto simp: s2_def)
  next
    case False
    then have d: "dek = Some b" using b w(2) by auto
    have o: "ownedDek b s2 = ownedDek b s1" by (simp add: s2_def d fillUnowned_def ownedDek_def)
    show ?thesis
    proof (cases "ownedDek b s1")
      case True
      then show ?thesis using ownedDek_iff [OF k] o by simp
    next
      case nown: False
      then show ?thesis using keys_task(3) [OF k t2 b] len by (simp add: s2_def d fillUnowned_def zero_fill)
    qed
  qed
  have "carries env (X - set_option kek - set_option dek) s2 ((X - set_option kek - set_option dek) - heldOpt None) (endTask i s2)"
    by (rule carries_task [OF t2, where v = None]) (use z w(2) in \<open>auto simp: endTask_def\<close>)
  then show ?thesis using carries_trans [OF carries_trans [OF c1 c2]] by (simp add: e)
qed

lemma carries_fail:
  assumes "map_of (daTasks s) i = Some w" "\<not> publishedTask w" "heldBy w = heldCall c" "keksApart w \<Longrightarrow> icKek c \<noteq> Some (icDek c)"
  shows "carries env {} s {} (leaveIssuance i c ticket (Inl e) s)"
proof -
  have "carries env {} s ({} - heldOpt (Some (Finishing c (Inl e)))) (leaveIssuance i c ticket (Inl e) s)"
    by (rule carries_task [OF assms(1) taskLeave]) (use assms keys_task(2) [OF _ assms(1)] in auto)
  then show ?thesis by simp
qed

lemma carries_publishIf:
  assumes ok: "quiet_ok s" "crypto_ok (deAuth env)" and w: "map_of (daTasks s) i = Some w" "\<not> publishedTask w" "heldBy w = heldCall c"
      "keksApart w \<Longrightarrow> icKek c \<noteq> Some (icDek c)"
  shows "carries env {} s {} (publishIfCurrent env i c ticket g s)"
proof -
  let ?sid = "isSessionId (icIssuance c)"
  obtain e s1 where a: "assertCapabilityIssuanceCurrent env (icIssuance c) g s = (e, s1)"
    by (cases "assertCapabilityIssuanceCurrent env (icIssuance c) g s")
  have d1: "drifts s s1" using assert_drifts a by (metis snd_conv)
  obtain x s2 where r: "requireCurrentAuthSession env ?sid s1 = (x, s2)" by (cases "requireCurrentAuthSession env ?sid s1")
  have d2: "drifts s s2" using drifts_trans [OF require_drifts d1] r by (metis snd_conv)
  note w1 = drift_task [OF d1 ok(1) w(1)] and w2 = drift_task [OF d2 ok(1) w(1)]
  note f1 = carries_trans [OF carries_drifts [OF d1] carries_fail [OF w1 w(2-4)]]
  note f2 = carries_trans [OF carries_drifts [OF d2] carries_fail [OF w2 w(2-4)]]
  have "carries env {} s {} (leaveIssuance i c ticket (Inr z) (snd (publishCapability env i c y s2)))" for y z
  proof -
    let ?token = "capabilityToken (aeRandom (deAuth env) (daDraws s2) 32)" and ?epoch = "Suc (countOf (daSessionEpochs s2) ?sid)"
    let ?cap = "\<lparr>cpRequest = i, cpSessionId = ?sid, cpVaultId = icVaultId c, cpEpoch = ?epoch, cpExpiresAt = y,
        cpDek = icDek c, cpTimer = None\<rparr>"
    let ?u = "s2\<lparr>daSessionEpochs := mapSet ?sid ?epoch (daSessionEpochs s2), daDraws := Suc (daDraws s2),
        daCapabilities := mapSet ?token ?cap (daCapabilities s2)\<rparr>"
    let ?v = "setTask i (Finishing c (Inr z)) ?u"
    have e: "snd (publishCapability env i c y s2) = scheduleCapabilityExpiry env ?token ?u"
      by (simp add: publishCapability_def drawBytes_def Let_def)
    have "carries env {} s2 {} ?v" by (rule carries_publish [where a = ?cap and r = z, OF ok(2) w2 w(2-4)]) simp_all
    also have "carries env {} ?v {} (scheduleCapabilityExpiry env ?token ?v)" by (rule carries_schedule)
    also have "carries env {} (scheduleCapabilityExpiry env ?token ?v) {} (leaveIssuance i c ticket (Inr z) (snd (publishCapability env i c y s2)))"
      unfolding e schedule_setTask by (rule carries_same) (simp_all add: leaveIssuance_def)
    finally show ?thesis by (rule carries_trans [OF carries_drifts [OF d2]])
  qed
  then show ?thesis using f1 f2 by (simp add: publishIfCurrent_def a r split_def Let_def split: option.split)
qed

lemma carries_turn:
  assumes ok: "quiet_ok s" "crypto_ok (deAuth env)" and w: "map_of (daTasks s) i = Some (AwaitingTurn c ticket)"
  shows "carries env {} s {} (issuanceTurn env i c ticket s)"
proof -
  let ?sid = "isSessionId (icIssuance c)" and ?g = "isLifecycleGeneration (icIssuance c)"
  obtain e s1 where a: "assertCapabilityIssuanceCurrent env (icIssuance c) ?g s = (e, s1)"
    by (cases "assertCapabilityIssuanceCurrent env (icIssuance c) ?g s")
  have d: "drifts s s1" using assert_drifts a by (metis snd_conv)
  note w1 = drift_task [OF d ok(1) w]
  have "carries env {} s {} (leaveIssuance i c ticket (Inl x) s1)" for x
    by (rule carries_trans [OF carries_drifts [OF d] carries_fail [OF w1]]) simp_all
  moreover have "carries env {} s {} (publishIfCurrent env i c ticket ?g s1)"
    by (rule carries_trans [OF carries_drifts [OF d] carries_publishIf [OF quiet_drifts [OF d ok(1)] ok(2) w1]]) simp_all
  moreover have "carries env {} s {} (setTask i (AwaitingDrained c ticket q p) (snd (beginSessionInvalidation ?sid s1)))" for q p
  proof -
    let ?b = "snd (beginSessionInvalidation ?sid s1)"
    have w2: "map_of (daTasks ?b) i = Some (AwaitingTurn c ticket)" using w1 by simp
    have "carries env {} s1 {} ?b" by (rule carries_same) simp_all
    moreover have "carries env {} ?b ({} - heldOpt (Some (AwaitingDrained c ticket q p))) (setTask i (AwaitingDrained c ticket q p) ?b)"
      by (rule carries_task [OF w2 taskSet]) (use keys_task(2) [OF _ w2] in \<open>auto simp: setTask_def\<close>)
    ultimately show ?thesis using carries_trans [OF carries_drifts [OF d] carries_trans] by simp
  qed
  ultimately show ?thesis by (simp add: issuanceTurn_def Let_def a split_def split: option.split)
qed

lemma carries_replacement:
  assumes ok: "quiet_ok s" "crypto_ok (deAuth env)" and w: "map_of (daTasks s) i = Some (AwaitingCompleted c ticket q g)"
  shows "carries env {} s {} (replacementTurn env i c ticket g s)"
proof -
  obtain e s1 where a: "assertCapabilityIssuanceCurrent env (icIssuance c) g s = (e, s1)"
    by (cases "assertCapabilityIssuanceCurrent env (icIssuance c) g s")
  have d: "drifts s s1" using assert_drifts a by (metis snd_conv)
  note w1 = drift_task [OF d ok(1) w]
  have "carries env {} s {} (leaveIssuance i c ticket (Inl x) s1)" for x
    by (rule carries_trans [OF carries_drifts [OF d] carries_fail [OF w1]]) simp_all
  moreover have "carries env {} s {} (publishIfCurrent env i c ticket g s1)"
    by (rule carries_trans [OF carries_drifts [OF d] carries_publishIf [OF quiet_drifts [OF d ok(1)] ok(2) w1]]) simp_all
  ultimately show ?thesis by (simp add: replacementTurn_def a split: option.split)
qed

end
