(* ===== verification/DiaryKeySteps.thy ===== *)
theory DiaryKeySteps
  imports DiaryKeys
begin

text \<open>
  Every step of the diary service keeps account of the key material, and so does every history in which no token
  is drawn twice.
\<close>

section \<open>Deriving keys\<close>

lemma carries_zero: "\<forall>x\<in>set bs. x = 0 \<Longrightarrow> carries env X s X (s\<lparr>daBuffers := daBuffers s @ [bs]\<rparr>)"
  by (rule carries_alloc) auto

lemma carries_new: "carries env X s (insert (length (daBuffers s)) X) (s\<lparr>daBuffers := daBuffers s @ [bs]\<rparr>)"
  by (rule carries_alloc) simp_all

lemma carries_two:
  "carries env {} s {Suc (length (daBuffers s))} (s\<lparr>daBuffers := daBuffers s @ [replicate n 0, k]\<rparr>)"
proof -
  let ?s = "s\<lparr>daBuffers := daBuffers s @ [replicate n 0]\<rparr>"
  have "carries env {} s {} ?s" by (rule carries_zero) simp
  also have "carries env {} ?s (insert (length (daBuffers ?s)) {}) (?s\<lparr>daBuffers := daBuffers ?s @ [k]\<rparr>)" by (rule carries_new)
  finally show ?thesis by simp
qed

lemma carries_enter:
  assumes w: "map_of (daTasks s) i = Some w" "heldBy w \<subseteq> heldCall c" "heldCall c \<subseteq> heldBy w \<union> X" "\<not> publishedTask w"
    and apart: "\<And>own. keys_at env own X s \<Longrightarrow> icKek c \<noteq> Some (icDek c)"
  shows "carries env X s (X - heldCall c) (enterIssuanceLock i c s)"
proof -
  have "carries env X s (X - heldOpt (Some (AwaitingTurn c (length (daTailObjects s))))) (enterIssuanceLock i c s)"
    by (rule carries_task [OF w(1) taskEnter]) (use w apart in \<open>auto simp: enterIssuanceLock_def setTask_def Let_def\<close>)
  then show ?thesis by simp
qed

lemma carries_kdf:
  assumes ok: "quiet_ok s"
  shows "carries env {} s {} (fst (kdfSettled env i d s))"
proof -
  have buf: "quiet_ok (s\<lparr>daBuffers := l\<rparr>)" for l by (rule quiet_same [OF ok]) simp_all
  have stays: "map_of (daTasks t) i = Some w" if "map_of (daTasks s) i = Some w" "drifts (s\<lparr>daBuffers := l\<rparr>) t" for t w l
    by (rule drift_task [OF that(2) buf]) (simp add: that(1))
  have "carries env {} s {} (fst (setupDerived env i x p salt dek s))"
    if w: "map_of (daTasks s) i = Some (DerivingKey x (SetupRequest p salt dek))" for x p salt dek
  proof -
    let ?kek = "Suc (length (daBuffers s))"
    let ?s = "s\<lparr>daBuffers := daBuffers s @ [replicate (length (aeScrypt (deAuth env) p salt)) 0, deriveDiaryKek env p salt]\<rparr>"
    have two: "carries env {} s {?kek} ?s" by (rule carries_two)
    have loc: "\<not> capHolds t b" if "keys_at env own {?kek} t" "Some ?kek = Some b" for t own b
      using that by (auto simp: keys_at_def locals_ok_def)
    show ?thesis
    proof (cases rule: setupDerived_cases [of env i x p salt dek s])
      case (failed t e kek)
      have "carries env {?kek} t ({?kek} - set_option (Some ?kek) - set_option (Some dek)) (fst (finishRequest i (Some ?kek) (Some dek) (Inl e) t))"
        by (rule carries_finish [OF stays [OF w failed(2)] _ loc]) simp_all
      then show ?thesis using carries_trans [OF carries_trans [OF two carries_drifts [OF failed(2)]]] by (simp add: failed(1,3))
    next
      case (stored t u row)
      let ?t = "t\<lparr>daConfig := Some row\<rparr>"
      let ?c = "\<lparr>icIssuance = x, icVaultId = deVaultId env, icDek = dek, icKek = Some ?kek, icLimiterKey = None\<rparr>"
      have wt: "map_of (daTasks ?t) i = Some (DerivingKey x (SetupRequest p salt dek))" using stays [OF w drift_host [OF stored(2)]] by simp
      have "carries env {?kek} t {?kek} ?t" by (rule carries_same) simp_all
      moreover have "carries env {?kek} ?t ({?kek} - heldCall ?c) (enterIssuanceLock i ?c ?t)"
      proof (rule carries_enter [OF wt])
        fix own assume k: "keys_at env own {?kek} ?t"
        then have "\<not> taskHolds ?t ?kek" by (auto simp: keys_at_def locals_ok_def)
        moreover have "taskHolds ?t dek" unfolding taskHolds_def using wt by (intro exI conjI) (assumption, simp)
        ultimately show "icKek ?c \<noteq> Some (icDek ?c)" by auto
      qed (auto simp: heldCall_def)
      moreover have "{?kek} - heldCall ?c = {}" by (simp add: heldCall_def)
      ultimately show ?thesis using carries_trans [OF carries_trans [OF two carries_host [OF stored(2)]] carries_trans]
        by (simp add: stored(1))
    qed
  qed
  moreover have "carries env {} s {} (fst (unlockDerived env i x p config key s))"
    if w: "map_of (daTasks s) i = Some (DerivingKey x (UnlockRequest p config key))" for x p config key
  proof -
    let ?z = "[replicate (length (aeScrypt (deAuth env) p (cfSalt config))) 0,
      replicate (length (deriveDiaryKek env p (cfSalt config))) (0 :: nat)]"
    have zs: "carries env {} s {} (s\<lparr>daBuffers := daBuffers s @ ?z\<rparr>)"
    proof -
      let ?s = "s\<lparr>daBuffers := daBuffers s @ [hd ?z]\<rparr>"
      have "carries env {} s {} ?s" by (rule carries_zero) simp
      also have "carries env {} ?s {} (?s\<lparr>daBuffers := daBuffers ?s @ [?z ! 1]\<rparr>)" by (rule carries_zero) simp
      finally show ?thesis by simp
    qed
    show ?thesis
    proof (cases rule: unlockDerived_cases [of env i x p config key s])
      case (wrong t e)
      have "carries env {} t ({} - set_option None - set_option None) (fst (finishRequest i None None (Inl e) t))"
        by (rule carries_finish [OF stays [OF w drift_host [OF wrong(2)]]]) simp_all
      then show ?thesis using carries_trans [OF carries_trans [OF zs carries_host [OF wrong(2)]]] by (simp add: wrong(1))
    next
      case (short n)
      let ?t = "s\<lparr>daBuffers := daBuffers s @ ?z @ [replicate n 0]\<rparr>"
      have "carries env {} (s\<lparr>daBuffers := daBuffers s @ ?z\<rparr>) {} ?t"
        using carries_zero [of "replicate n 0" env "{}" "s\<lparr>daBuffers := daBuffers s @ ?z\<rparr>"] by simp
      moreover have "carries env {} ?t ({} - set_option None - set_option (Some (length (daBuffers s) + 2)))
          (fst (finishRequest i None (Some (length (daBuffers s) + 2)) (Inl accessUnavailable) ?t))"
        by (rule carries_finish [where w = "DerivingKey x (UnlockRequest p config key)"]) (simp_all add: w)
      ultimately show ?thesis using carries_trans [OF zs carries_trans] by (simp add: short)
    next
      case (opened dek)
      let ?t = "s\<lparr>daBuffers := daBuffers s @ ?z @ [dek]\<rparr>" and ?b = "length (daBuffers s) + 2"
      let ?c = "\<lparr>icIssuance = x, icVaultId = cfVaultId config, icDek = ?b, icKek = None, icLimiterKey = Some key\<rparr>"
      have "carries env {} (s\<lparr>daBuffers := daBuffers s @ ?z\<rparr>) {?b} ?t"
        using carries_new [of env "{}" "s\<lparr>daBuffers := daBuffers s @ ?z\<rparr>" dek] by simp
      moreover have "carries env {?b} ?t ({?b} - heldCall ?c) (enterIssuanceLock i ?c ?t)"
        by (rule carries_enter [where w = "DerivingKey x (UnlockRequest p config key)"]) (simp_all add: w heldCall_def)
      moreover have "{?b} - heldCall ?c = {}" by (simp add: heldCall_def)
      ultimately show ?thesis using carries_trans [OF zs carries_trans] by (simp add: opened(1))
    qed
  qed
  moreover have "carries env {} s {} (fst (finishRequest i None (Some dek) r s))"
    if w: "map_of (daTasks s) i = Some (DerivingKey x (SetupRequest p salt dek))" for x p salt dek r
    using carries_finish [OF w, of None "Some dek" env "{}" r] by simp
  moreover have "carries env {} s {} (fst (finishRequest i None None r s))"
    if w: "map_of (daTasks s) i = Some (DerivingKey x (UnlockRequest p c key))" for x p c key r
    using carries_finish [OF w, of None None env "{}" r] by simp
  ultimately show ?thesis by (auto simp: kdfSettled_def split: option.split task.split request_kind.split)
qed

section \<open>Turns\<close>

lemma carries_set:
  assumes "map_of (daTasks s) i = Some w" "heldBy v = heldBy w" "keksApart w \<Longrightarrow> keksApart v" "\<not> publishedTask w" "\<not> publishedTask v"
    "\<And>l. v = BodyOperation l \<Longrightarrow> \<exists>l'. w = BodyOperation l' \<and> blCapability l = blCapability l' \<and> blDek l = blDek l'"
  shows "carries env {} s {} (setTask i v s)"
proof -
  have "carries env {} s ({} - heldOpt (Some v)) (setTask i v s)"
    by (rule carries_task [OF assms(1) taskSet]) (use assms keys_task(2) [OF _ assms(1)] in \<open>auto simp: setTask_def\<close>)
  then show ?thesis by simp
qed

lemma carries_end:
  assumes "map_of (daTasks s) i = Some w" "heldBy w = {}"
  shows "carries env {} s {} (endTask i s)"
proof -
  have "carries env {} s ({} - heldOpt None) (endTask i s)"
    by (rule carries_task [OF assms(1) taskEnd]) (use assms in \<open>auto simp: endTask_def\<close>)
  then show ?thesis by simp
qed

lemma carries_continue:
  assumes ok: "quiet_ok s" "crypto_ok (deAuth env)"
  shows "carries env {} s {} (fst (continueTask env i s))"
proof (cases "map_of (daTasks s) i")
  case (Some w)
  have fin: "carries env {} s {} (setTask i v (finalizeQuiescence a q s))"
    if "heldBy v = heldBy w" "keksApart w \<Longrightarrow> keksApart v" "\<not> publishedTask w" "\<not> publishedTask v" "\<not> isLease v" for v a q
    by (rule carries_trans [OF carries_finalize carries_set [where w = w]]) (use that Some in auto)
  show ?thesis
  proof (cases w)
    case (Finishing c r)
    let ?s = "case (r, icLimiterKey c) of (Inr _, Some key) \<Rightarrow> s\<lparr>daLimiter := reset (daLimiter s) key\<rparr> | _ \<Rightarrow> s"
    have h: "hostOnly s ?s" by (simp split: sum.split option.split)
    have w: "map_of (daTasks ?s) i = Some (Finishing c r)" using Some Finishing hostOnly_fields(13) [OF h] by simp
    have "carries env {} ?s ({} - set_option (icKek c) - set_option (Some (icDek c))) (fst (finishRequest i (icKek c) (Some (icDek c)) r ?s))"
    proof (rule carries_finish [OF w])
      fix own b assume k: "keys_at env own {} ?s" "icKek c = Some b"
      show "\<not> capHolds ?s b"
      proof
        assume "capHolds ?s b"
        then obtain n a where a: "map_of (daCapabilities ?s) n = Some a" "cpDek a = b" by (auto simp: capHolds_def)
        have "own b = i" using keys_task(4) [OF k(1) w, of b] k(2) by (simp add: heldCall_def)
        then have "cpRequest a = i" using keys_cap(2) [OF k(1) a(1)] a(2) by simp
        then have "icDek c = b" using keys_cap(4) [OF k(1) a(1), of c r] w a(2) by simp
        then show False using keys_task(2) [OF k(1) w] k(2) by simp
      qed
    qed (auto simp: heldCall_def)
    then show ?thesis using carries_trans [OF carries_host [OF h]] Some Finishing by (simp add: continueTask_def)
  next
    case (Quiesced a q)
    then show ?thesis using carries_end [of s i w] Some by (simp add: continueTask_def)
  qed (use Some fin carries_turn [OF ok] carries_replacement [OF ok] in \<open>simp_all add: continueTask_def\<close>)
qed (simp add: continueTask_def)

section \<open>Every step\<close>

lemma carries_begin_issuance: "beginCapabilityIssuance env sid s = (r, t) \<Longrightarrow> carries env X s X t"
proof (erule begin_issuance_cases)
  fix u assume h: "hostOnly s u" "t = u\<lparr>daSequences := mapSet sid (Suc (countOf (daSequences s) sid)) (daSequences s)\<rparr>"
  show "carries env X s X t" by (rule carries_trans [OF carries_host [OF h(1)] carries_same]) (simp_all add: h(2))
qed (rule carries_drifts)

lemma carries_setup: "carries env {} s {} (fst (setupAccess env sid v s))"
proof -
  obtain r t where b: "beginCapabilityIssuance env sid s = (r, t)" by (cases "beginCapabilityIssuance env sid s")
  note t = carries_begin_issuance [OF b, of "{}"]
  have "carries env {} s {} (addTask (DerivingKey x (SetupRequest p salt (length (daBuffers t))))
      (t\<lparr>daDraws := Suc (Suc (daDraws t)), daBuffers := daBuffers t @ [bs]\<rparr>))" for x p salt bs
  proof -
    let ?u = "t\<lparr>daDraws := Suc (Suc (daDraws t)), daBuffers := daBuffers t @ [bs]\<rparr>"
    let ?w = "DerivingKey x (SetupRequest p salt (length (daBuffers t)))"
    have "carries env {} t {length (daBuffers t)} ?u" by (rule carries_alloc) simp_all
    also have "carries env {length (daBuffers t)} ?u ({length (daBuffers t)} - heldBy ?w) (addTask ?w ?u)" by (rule carries_add) simp_all
    finally show ?thesis using carries_trans [OF t] by simp
  qed
  then show ?thesis using t
    by (simp add: setupAccess_def b drawBytes_def allocBuffer_def Let_def split: jsval.split sum.split option.split)
qed

lemma carries_unlock: "carries env {} s {} (fst (unlockAccess env sid v s))"
proof -
  let ?s1 = "snd (readClock env s)"
  have s1: "carries env {} s {} ?s1" by (rule carries_host) simp
  obtain r t where b: "beginCapabilityIssuance env sid ?s1 = (r, t)" by (cases "beginCapabilityIssuance env sid ?s1")
  note t = carries_trans [OF s1 carries_begin_issuance [OF b, of "{}"]]
  have "carries env {} t ({} - heldBy (DerivingKey x (UnlockRequest p c k))) (addTask (DerivingKey x (UnlockRequest p c k)) t)" for x p c k
    by (rule carries_add) simp_all
  then have "carries env {} s {} (addTask (DerivingKey x (UnlockRequest p c k)) t)" for x p c k
    using carries_trans [OF t] by simp
  then show ?thesis using b s1 t
    by (auto simp: unlockAccess_def Let_def split_def split: jsval.split sum.split option.split)
qed

lemma carries_timer: "carries env {} s {} (timerFires env n s)"
proof (cases "map_of (daTimers s) n")
  case (Some x)
  obtain token d where x: "x = (token, d)" by (cases x)
  let ?s = "s\<lparr>daTimers := mapDelete n (daTimers s)\<rparr>"
  have s: "carries env {} s {} ?s" by (rule carries_same) simp_all
  show ?thesis
  proof (cases "map_of (daCapabilities s) token")
    case None
    then show ?thesis using Some x s by (simp add: timerFires_def)
  next
    case c: (Some c)
    let ?t = "?s\<lparr>daCapabilities := mapSet token (c\<lparr>cpTimer := None\<rparr>) (daCapabilities s)\<rparr>"
    let ?u = "?t\<lparr>daClock := Suc (daClock s)\<rparr>"
    have "carries env {} ?s {} ?t" by (rule carries_retime [of _ token c _ None]) (simp_all add: c)
    moreover have "carries env {} ?t {} ?u" by (rule carries_same) simp_all
    ultimately have u: "carries env {} s {} ?u" using carries_trans [OF s carries_trans] by blast
    have "timerFires env n s = (if aeNow (deAuth env) (daClock s) < cpExpiresAt c then scheduleCapabilityExpiry env token ?u
        else invalidateAuthSession (cpSessionId c) ?u)"
      using Some c x by (simp add: timerFires_def readClock_def)
    then show ?thesis using carries_trans [OF u carries_schedule] carries_trans [OF u carries_invalidate] by simp
  qed
qed (simp add: timerFires_def)

lemma carries_body_begin: "carries env {} s {} (fst (beginBodyOperation env sid v s))"
proof -
  obtain b :: bool and t where q: "isCapabilityValid env sid v s = (b, t)" by (cases "isCapabilityValid env sid v s")
  have d: "drifts s t" using valid_drifts q unfolding isCapabilityValid_def by (metis snd_conv)
  show ?thesis
  proof (cases b)
    case True
    have "isCapabilityValidFor env sid v (case loadConfig env s of Inl _ \<Rightarrow> None | Inr c \<Rightarrow> c) s = (True, t)"
      using q True by (simp add: isCapabilityValid_def)
    then obtain token c where v: "v = JStr token" "map_of (daCapabilities s) token = Some c" and h: "hostOnly s t"
      by (cases rule: valid_cases)
    let ?u = "t\<lparr>daActive := mapSet sid (Suc (countOf (daActive t) sid)) (daActive t)\<rparr>"
    let ?w = "BodyOperation \<lparr>blSessionId = sid, blToken = token, blCapability = cpRequest c, blEpoch = cpEpoch c, blDek = cpDek c, blReads = []\<rparr>"
    have "carries env {} s {} ?u" by (rule carries_trans [OF carries_host [OF h] carries_same]) simp_all
    also have "carries env {} ?u ({} - heldBy ?w) (addTask ?w ?u)"
      by (rule carries_add) (use v(2) in \<open>auto simp: hostOnly_fields [OF h]\<close>)
    finally show ?thesis using q True v by (simp add: beginBodyOperation_def hostOnly_fields [OF h])
  qed (simp add: beginBodyOperation_def q carries_drifts [OF d])
qed

theorem carries_step:
  assumes ok: "quiet_ok s" "crypto_ok (deAuth env)"
  shows "carries env {} s {} (fst (diary_step env e s))"
proof (cases e)
  case (Status sid v)
  have "carries env {} s {} (snd (isCapabilityValidFor env sid v c s))" for c by (rule carries_drifts [OF valid_drifts])
  then show ?thesis
    by (auto simp: Status accessStatus_def split: sum.split option.split prod.split bool.split) (metis snd_conv)+
next
  case (Present sid v)
  then show ?thesis using carries_drifts [OF valid_drifts] by (simp add: isCapabilityValid_def split_def)
next
  case (BodyEncrypt i raw c)
  have "carries env {} s {} (snd (drawBytes env DIARY_BODY_NONCE_BYTES s))" by (rule carries_host) simp
  then show ?thesis by (simp add: BodyEncrypt bodyEncrypt_def withLease_def Let_def split_def split: option.split task.split)
next
  case (BodyReadStart i c)
  have "carries env {} s {} (setTask i (BodyOperation (l\<lparr>blReads := r\<rparr>)) s)" if "map_of (daTasks s) i = Some (BodyOperation l)" for l r
    by (rule carries_set [OF that]) simp_all
  then show ?thesis by (auto simp: BodyReadStart bodyReadStart_def withLease_def split: option.split task.split)
next
  case (BodyEnd i)
  have "carries env {} s {} (releaseBodyOperation x (endTask i s))" if "map_of (daTasks s) i = Some (BodyOperation l)" for x l
    by (rule carries_trans [OF carries_end [OF that] carries_same]) simp_all
  then show ?thesis by (simp add: BodyEnd endBodyOperation_def split: option.split task.split)
qed (simp_all add: carries_setup carries_unlock carries_kdf [OF ok(1)] carries_continue [OF ok] carries_timer carries_body_begin
      lockAccess_def carries_invalidate bodyDecrypt_def bodyReadEnd_def withLease_def split: option.split task.split sum.split)

section \<open>Every history\<close>

theorem carries_run:
  assumes "settled s" "crypto_ok (deAuth env)"
  shows "carries env {} s {} (fst (diary_run env es s))"
proof (rule dm.monotone [where R = "\<lambda>s t. carries env {} s {} t" and I = settled])
  show "carries env {} u {} (fst (diary_step env e u))" if "settled u" for e u
    using carries_step [OF _ assms(2)] that by (simp add: settled_def)
qed (use assms settled_step in \<open>auto intro: carries_trans\<close>)

lemma keys_start: "keys_ok env {} (createDiaryAccess row limiter)"
  by (auto simp: keys_ok_def keys_at_def createDiaryAccess_def accounted_def locals_ok_def tokens_ok_def tasks_own_def
      caps_own_def leases_own_def mapKeys_def)

lemma keys_reached:
  assumes "diary_reached env s" "crypto_ok (deAuth env)" "draws_fresh env (daDraws s)"
  shows "keys_ok env {} s"
  using assms carries_run [OF settled_start assms(2)] keys_start unfolding diary_reached_def carries_def by blast

text \<open>Every key in memory has somebody who will use or erase it.\<close>

theorem keys_accounted:
  assumes "diary_reached env s" "crypto_ok (deAuth env)" "draws_fresh env (daDraws s)" "b < length (daBuffers s)"
  shows "(\<forall>x\<in>set (daBuffers s ! b). x = 0) \<or> (\<exists>k c. map_of (daCapabilities s) k = Some c \<and> cpDek c = b)
    \<or> (\<exists>i w. map_of (daTasks s) i = Some w \<and> b \<in> heldBy w)"
  using keys_reached [OF assms(1-3)] assms(4)
  unfolding keys_ok_def keys_at_def accounted_def zeroed_def capHolds_def taskHolds_def by blast

text \<open>A live capability has the key it was published with, and a current lease uses it.\<close>

theorem lease_key:
  assumes s: "diary_reached env s" and ok: "crypto_ok (deAuth env)" and t: "t = fst (diary_run env es s)"
    and fr: "draws_fresh env (daDraws t)" and c: "map_of (daCapabilities s) (blToken l) = Some c" "cpRequest c = blCapability l"
    and l: "map_of (daTasks t) i = Some (BodyOperation l)" "isCurrent l t"
  shows "daBuffers t ! blDek l = daBuffers s ! cpDek c"
proof -
  have st: "carries env {} s {} t" unfolding t by (rule carries_run [OF settled_reached [OF s] ok])
  have "draws_fresh env (daDraws s)" using fr draws_fresh_mono st by (auto simp: carries_def)
  then have ks: "keys_ok env {} s" by (rule keys_reached [OF s ok])
  then have kt: "keys_ok env {} t" and r: "retains s t" using st fr by (simp_all add: carries_def)
  obtain own own' where k: "keys_at env own {} s" "keys_at env own' {} t" using ks kt by (auto simp: keys_ok_def)
  obtain c' where c': "map_of (daCapabilities t) (blToken l) = Some c'" "cpRequest c' = blCapability l"
    using l(2) by (auto simp: isCurrent_def split: option.splits)
  have "published s (cpRequest c')" using keys_cap(3) [OF k(1) c(1)] c(2) c'(2) by simp
  then obtain d where "map_of (daCapabilities s) (blToken l) = Some d" "cpDek d = cpDek c'" "daBuffers t ! cpDek c' = daBuffers s ! cpDek c'"
    using r c'(1) unfolding retains_def by blast
  then show ?thesis using keys_lease(2) [OF k(2) l(1) c'] c(1) by simp
qed

end
