(* ===== verification/DiaryProtocol.thy ===== *)
theory DiaryProtocol
  imports Currency
begin

text \<open>
  \<open>src/shared/diaryProtocol.ts\<close>: dates of the civil calendar and the paths of the diary documents they name.
  A managed path is exactly the path of a real date.
\<close>

section \<open>Dates\<close>

definition DIARY_ROOT :: jsstr where "DIARY_ROOT = js ''diary''"

definition isLeapYear :: "nat \<Rightarrow> bool" where
  "isLeapYear year \<longleftrightarrow> year mod 4 = 0 \<and> (year mod 100 \<noteq> 0 \<or> year mod 400 = 0)"

definition daysInMonth :: "nat \<Rightarrow> nat \<Rightarrow> nat" where
  "daysInMonth year month = (if month = 2 then (if isLeapYear year then 29 else 28)
     else if month \<in> {4, 6, 9, 11} then 30 else 31)"

text \<open>The match of \<open>^(\d{4})-(\d{2})-(\d{2})$\<close>: the digits of the year, the month and the day.\<close>

definition matchDiaryDate :: "jsstr \<Rightarrow> (jsstr \<times> jsstr \<times> jsstr) option" where
  "matchDiaryDate s =
     (let y = take 4 s; m = take 2 (drop 5 s); d = drop 8 s in
      if length s = 10 \<and> s ! 4 = 45 \<and> s ! 7 = 45 \<and> list_all isDigit (y @ m @ d) then Some (y, m, d) else None)"

definition parseDiaryDate :: "jsval \<Rightarrow> jsstr option" where
  "parseDiaryDate value = (case value of
     JStr s \<Rightarrow> (case matchDiaryDate s of None \<Rightarrow> None | Some (y, m, d) \<Rightarrow>
       let year = decimalValue y; month = decimalValue m; day = decimalValue d in
       if month < 1 \<or> month > 12 then None
       else if day < 1 \<or> day > daysInMonth year month then None else Some s)
   | _ \<Rightarrow> None)"

definition isValidDiaryDate :: "jsval \<Rightarrow> bool" where
  "isValidDiaryDate value \<longleftrightarrow> parseDiaryDate value \<noteq> None"

section \<open>Paths\<close>

text \<open>\<open>None\<close> is the \<open>Error\<close> for an invalid date.\<close>

definition diaryLogicalPathForDate :: "jsstr \<Rightarrow> jsstr option" where
  "diaryLogicalPathForDate date =
     (if \<not> isValidDiaryDate (JStr date) then None else Some (DIARY_ROOT @ js ''/'' @ date))"

definition startsWith :: "jsstr \<Rightarrow> jsstr \<Rightarrow> bool" where
  "startsWith p s \<longleftrightarrow> take (length p) s = p"

definition diaryDateFromPath :: "jsval \<Rightarrow> jsstr option" where
  "diaryDateFromPath path = (case path of
     JStr s \<Rightarrow> if \<not> startsWith (DIARY_ROOT @ js ''/'') s then None
       else let dateText = drop (length DIARY_ROOT + 1) s in
         if 47 \<in> set dateText then None else parseDiaryDate (JStr dateText)
   | _ \<Rightarrow> None)"

definition isDiaryRoot :: "jsval \<Rightarrow> bool" where
  "isDiaryRoot path \<longleftrightarrow> path = JStr DIARY_ROOT"

definition isManagedDiaryPath :: "jsval \<Rightarrow> bool" where
  "isManagedDiaryPath path \<longleftrightarrow> diaryDateFromPath path \<noteq> None"

datatype DiaryPathKind = RootPath | ManagedPath | UnmanagedPath | OutsidePath

definition classifyDiaryPath :: "jsval \<Rightarrow> DiaryPathKind" where
  "classifyDiaryPath path =
     (if isDiaryRoot path then RootPath
      else case path of
        JStr s \<Rightarrow> if \<not> startsWith (DIARY_ROOT @ js ''/'') s then OutsidePath
          else if isManagedDiaryPath path then ManagedPath else UnmanagedPath
      | _ \<Rightarrow> OutsidePath)"

section \<open>Facts\<close>

lemma parseDiaryDate_text: "parseDiaryDate v = Some d \<Longrightarrow> v = JStr d \<and> matchDiaryDate d \<noteq> None"
  by (cases v) (auto simp: parseDiaryDate_def Let_def split: option.splits if_splits)

lemma matchDiaryDate_split: "matchDiaryDate s = Some (y, m, d) \<Longrightarrow> s = y @ [45] @ m @ [45] @ d"
proof -
  assume a: "matchDiaryDate s = Some (y, m, d)"
  then have p: "y = take 4 s" "m = take 2 (drop 5 s)" "d = drop 8 s" "length s = 10" "s ! 4 = 45" "s ! 7 = 45"
    by (auto simp: matchDiaryDate_def Let_def split: if_splits)
  obtain a0 a1 a2 a3 a4 a5 a6 a7 a8 a9 where "s = [a0, a1, a2, a3, a4, a5, a6, a7, a8, a9]"
    using p(4) by (auto simp: numeral_eq_Suc length_Suc_conv)
  then show ?thesis using p by simp
qed

lemma diary_date_units: "parseDiaryDate (JStr d) \<noteq> None \<Longrightarrow> \<forall>c\<in>set d. isDigit c \<or> c = 45"
proof -
  assume "parseDiaryDate (JStr d) \<noteq> None"
  then obtain y m x where m: "matchDiaryDate d = Some (y, m, x)"
    by (auto dest: parseDiaryDate_text)
  have "list_all isDigit (y @ m @ x)" using m by (auto simp: matchDiaryDate_def Let_def split: if_splits)
  then show ?thesis using matchDiaryDate_split [OF m] by (auto simp: list_all_iff)
qed

text \<open>A path names a date exactly when it is the path of that date.\<close>

lemma diaryDateFromPath_iff:
  "diaryDateFromPath p = Some d \<longleftrightarrow> isValidDiaryDate (JStr d) \<and> p = JStr (DIARY_ROOT @ js ''/'' @ d)"
proof
  assume a: "diaryDateFromPath p = Some d"
  then obtain s where s: "p = JStr s" "take 6 s = js ''diary/''" "parseDiaryDate (JStr (drop 6 s)) = Some d"
    by (cases p) (auto simp: diaryDateFromPath_def startsWith_def DIARY_ROOT_def js_def Let_def numeral_eq_Suc
        simp del: take_Suc_Cons drop_Suc_Cons split: if_splits)
  have "drop 6 s = d" using parseDiaryDate_text [OF s(3)] by simp
  moreover have "s = take 6 s @ drop 6 s" by simp
  ultimately have "s = js ''diary/'' @ d" using s(2) by simp
  then show "isValidDiaryDate (JStr d) \<and> p = JStr (DIARY_ROOT @ js ''/'' @ d)"
    using s \<open>drop 6 s = d\<close> by (simp add: isValidDiaryDate_def DIARY_ROOT_def js_def)
next
  assume a: "isValidDiaryDate (JStr d) \<and> p = JStr (DIARY_ROOT @ js ''/'' @ d)"
  then obtain e where e: "parseDiaryDate (JStr d) = Some e" by (auto simp: isValidDiaryDate_def)
  then have "e = d" using parseDiaryDate_text by blast
  moreover have "47 \<notin> set d" using diary_date_units [of d] e by (auto simp: isDigit_def)
  ultimately show "diaryDateFromPath p = Some d"
    using a e by (simp add: diaryDateFromPath_def startsWith_def DIARY_ROOT_def js_def)
qed

lemma classifyDiaryPath_managed:
  "classifyDiaryPath p = ManagedPath \<longleftrightarrow> (\<exists>d. diaryLogicalPathForDate d \<noteq> None \<and> p = JStr (the (diaryLogicalPathForDate d)))"
proof -
  have "classifyDiaryPath p = ManagedPath \<longleftrightarrow> isManagedDiaryPath p"
  proof (cases p)
    case (JStr s)
    then show ?thesis
      by (auto simp: classifyDiaryPath_def isDiaryRoot_def isManagedDiaryPath_def diaryDateFromPath_def startsWith_def DIARY_ROOT_def js_def)
  qed (simp_all add: classifyDiaryPath_def isDiaryRoot_def isManagedDiaryPath_def diaryDateFromPath_def)
  then show ?thesis
    by (auto simp: isManagedDiaryPath_def diaryDateFromPath_iff diaryLogicalPathForDate_def)
qed

end
