(* ===== verification/DiaryRoutes.thy ===== *)
theory DiaryRoutes
  imports DiaryLock DiaryProtocol AuthRoutes
begin

text \<open>
  \<open>src/server/routes/diaryAccess.ts\<close> and \<open>src/server/diaryAccess/guard.ts\<close>: the endpoints of the diary service,
  and the gate every route that touches the body of a document passes. The service is absent while the runtime
  is not configured; the number of the authentication session is absent on a request without one.
\<close>

section \<open>Responses\<close>

datatype diary_body =
    DiaryErrorBody string
  | DiaryStateBody DiaryAccessState "jsstr option" "nat option"

record diary_response =
  rpStatus :: nat
  rpBody :: diary_body
  rpRetryAfter :: "int option"

definition diaryResponse :: "nat \<Rightarrow> diary_body \<Rightarrow> diary_response" where
  "diaryResponse st b = \<lparr>rpStatus = st, rpBody = b, rpRetryAfter = None\<rparr>"

fun diaryCodeText :: "DiaryAccessErrorCode \<Rightarrow> string" where
  "diaryCodeText DaInvalidPassword = ''diary-access-invalid-password''"
| "diaryCodeText DaInvalidState = ''diary-access-invalid-state''"
| "diaryCodeText DaUnavailable = ''diary-access-unavailable''"
| "diaryCodeText DaInvalidInput = ''diary-access-invalid-input''"
| "diaryCodeText DaRateLimited = ''diary-access-rate-limited''"
| "diaryCodeText DaAuthSessionInvalid = ''diary-access-auth-session-invalid''"
| "diaryCodeText DaIssuanceInvalidated = ''diary-access-issuance-invalidated''"

definition diaryUnavailable :: diary_response where
  "diaryUnavailable = diaryResponse 503 (DiaryErrorBody ''diary-access-unavailable'')"

definition diaryServiceError :: "DiaryAccessServiceError \<Rightarrow> diary_response" where
  "diaryServiceError e = (diaryResponse (dxStatus e) (DiaryErrorBody (diaryCodeText (dxCode e))))
     \<lparr>rpRetryAfter := map_option retrySeconds (dxRetryAfterMs e)\<rparr>"

text \<open>The answer to a call of the service, once there is one; \<open>st\<close> is the status of its success.\<close>

fun diaryAnswer :: "nat \<Rightarrow> diary_output \<Rightarrow> diary_response option" where
  "diaryAnswer st (DRefused e) = Some (diaryServiceError e)"
| "diaryAnswer st (DFailed i e) = Some (diaryServiceError e)"
| "diaryAnswer st (DIssued i token epoch) = Some (diaryResponse st (DiaryStateBody UNLOCKED (Some token) (Some epoch)))"
| "diaryAnswer st (DLocked i) = Some (diaryResponse st (DiaryStateBody LOCKED None None))"
| "diaryAnswer st (DStatus state epoch) = Some (diaryResponse st (DiaryStateBody state None epoch))"
| "diaryAnswer st _ = None"

section \<open>The endpoints\<close>

text \<open>What is no session number is refused by the service like zero.\<close>

definition sessionNumber :: "int option \<Rightarrow> int" where
  "sessionNumber sid = (case sid of None \<Rightarrow> 0 | Some n \<Rightarrow> n)"

definition headerValue :: "jsstr option \<Rightarrow> jsval" where
  "headerValue h = (case h of None \<Rightarrow> JUndefined | Some v \<Rightarrow> JStr v)"

text \<open>The body is \<open>None\<close> where it does not parse.\<close>

definition parsePassword :: "jsval option \<Rightarrow> jsval" where
  "parsePassword b = (case b of Some (JObj r) \<Rightarrow> getProp r ''password'' | _ \<Rightarrow> JUndefined)"

definition withDiaryRuntime :: "nat \<Rightarrow> (diary_access \<Rightarrow> diary_access \<times> diary_output) \<Rightarrow> diary_access option
    \<Rightarrow> diary_access option \<times> diary_output \<times> diary_response option" where
  "withDiaryRuntime st f rt =
     (case rt of None \<Rightarrow> (None, DNothing, Some diaryUnavailable)
      | Some s \<Rightarrow> let (t, out) = f s in (Some t, out, diaryAnswer st out))"

definition diaryStatusRoute :: "diary_env \<Rightarrow> int option \<Rightarrow> jsstr option \<Rightarrow> diary_access option
    \<Rightarrow> diary_access option \<times> diary_output \<times> diary_response option" where
  "diaryStatusRoute env sid h = withDiaryRuntime 200 (accessStatus env (sessionNumber sid) (headerValue h))"

definition diarySetupRoute :: "diary_env \<Rightarrow> int option \<Rightarrow> jsval option \<Rightarrow> diary_access option
    \<Rightarrow> diary_access option \<times> diary_output \<times> diary_response option" where
  "diarySetupRoute env sid b = withDiaryRuntime 201 (setupAccess env (sessionNumber sid) (parsePassword b))"

definition diaryUnlockRoute :: "diary_env \<Rightarrow> int option \<Rightarrow> jsval option \<Rightarrow> diary_access option
    \<Rightarrow> diary_access option \<times> diary_output \<times> diary_response option" where
  "diaryUnlockRoute env sid b = withDiaryRuntime 200 (unlockAccess env (sessionNumber sid) (parsePassword b))"

definition diaryLockRoute :: "int option \<Rightarrow> diary_access option
    \<Rightarrow> diary_access option \<times> diary_output \<times> diary_response option" where
  "diaryLockRoute sid = withDiaryRuntime 200 (lockAccess (sessionNumber sid))"

section \<open>The gate of bodies\<close>

definition endsWith :: "jsstr \<Rightarrow> jsstr \<Rightarrow> bool" where
  "endsWith p s \<longleftrightarrow> length p \<le> length s \<and> drop (length s - length p) s = p"

definition logicalBodyPath :: "jsstr \<Rightarrow> jsstr" where
  "logicalBodyPath path = (if endsWith (js ''.md'') path then take (length path - 3) path else path)"

definition lockedResponse :: diary_response where
  "lockedResponse = diaryResponse 423 (DiaryErrorBody ''diary-locked'')"

definition isManagedDiaryBodyPath :: "jsstr \<Rightarrow> bool" where
  "isManagedDiaryBodyPath path \<longleftrightarrow> classifyDiaryPath (JStr (logicalBodyPath path)) = ManagedPath"

definition hasDiaryBodyAccess :: "diary_env \<Rightarrow> int option \<Rightarrow> jsstr option \<Rightarrow> diary_access option \<Rightarrow> bool \<times> diary_access option" where
  "hasDiaryBodyAccess env sid h rt =
     (case (sid, rt) of
        (Some n, Some s) \<Rightarrow> let (b, t) = isCapabilityValid env n (headerValue h) s in (b, Some t)
      | _ \<Rightarrow> (False, rt))"

text \<open>A body operation begins, or the route answers for itself.\<close>

definition withDiaryBodyOperation :: "diary_env \<Rightarrow> int option \<Rightarrow> jsstr option \<Rightarrow> diary_access option
    \<Rightarrow> diary_access option \<times> diary_output" where
  "withDiaryBodyOperation env sid h rt =
     (case (rt, sid) of
        (Some s, Some n) \<Rightarrow> let (t, out) = beginBodyOperation env n (headerValue h) s in (Some t, out)
      | _ \<Rightarrow> (rt, DNoAccess))"

definition requireDiaryBodyAccess :: "diary_env \<Rightarrow> int option \<Rightarrow> jsstr option \<Rightarrow> jsstr \<Rightarrow> diary_access option
    \<Rightarrow> diary_response option \<times> diary_access option" where
  "requireDiaryBodyAccess env sid h path rt =
     (if \<not> isManagedDiaryBodyPath path then (None, rt)
      else case rt of None \<Rightarrow> (Some lockedResponse, rt)
        | Some _ \<Rightarrow> (case hasDiaryBodyAccess env sid h rt of
            (True, rt') \<Rightarrow> (None, rt')
          | (False, rt') \<Rightarrow> (Some lockedResponse, rt')))"

section \<open>The files of the diary\<close>

text \<open>What \<open>readdir\<close> finds: names, each a file or not; no directory; or another failure, which is thrown on.\<close>

datatype readdir_result = Entries "(jsstr \<times> bool) list" | NoDirectory | ReaddirFails

definition managedDiaryPaths :: "(jsstr \<times> bool) list \<Rightarrow> jsstr list" where
  "managedDiaryPaths entries =
     filter isManagedDiaryBodyPath
       (map (\<lambda>(n, f). js ''diary/'' @ take (length n - 3) n) (filter (\<lambda>(n, f). f \<and> endsWith (js ''.md'') n) entries))"

definition hasManagedDiaryFiles :: "readdir_result \<Rightarrow> bool option" where
  "hasManagedDiaryFiles r =
     (case r of Entries entries \<Rightarrow> Some (list_ex (\<lambda>(n, f). f \<and> endsWith (js ''.md'') n
          \<and> isManagedDiaryBodyPath (js ''diary/'' @ take (length n - 3) n)) entries)
      | NoDirectory \<Rightarrow> Some False | ReaddirFails \<Rightarrow> None)"

definition rejectManagedDiaryPrivateMetadata :: "jsstr option \<Rightarrow> diary_response option" where
  "rejectManagedDiaryPrivateMetadata p =
     (case p of Some path \<Rightarrow> if \<not> isManagedDiaryBodyPath path then None
          else Some (diaryResponse 422 (DiaryErrorBody ''diary-private-metadata-unsupported''))
      | None \<Rightarrow> Some (diaryResponse 422 (DiaryErrorBody ''diary-private-metadata-unsupported'')))"

text \<open>The gate for each path in turn, until one is refused.\<close>

fun requireDiaryPaths :: "diary_env \<Rightarrow> int option \<Rightarrow> jsstr option \<Rightarrow> jsstr list \<Rightarrow> diary_access option
    \<Rightarrow> diary_response option \<times> diary_access option" where
  "requireDiaryPaths env sid h [] rt = (None, rt)"
| "requireDiaryPaths env sid h (p # ps) rt =
     (case requireDiaryBodyAccess env sid h p rt of
        (Some r, rt') \<Rightarrow> (Some r, rt')
      | (None, rt') \<Rightarrow> requireDiaryPaths env sid h ps rt')"

definition rejectManagedDiaryReferenceFootprint :: "diary_env \<Rightarrow> int option \<Rightarrow> jsstr option \<Rightarrow> readdir_result \<Rightarrow> diary_access option
    \<Rightarrow> diary_response option option \<times> diary_access option" where
  "rejectManagedDiaryReferenceFootprint env sid h r rt =
     (case r of NoDirectory \<Rightarrow> (Some None, rt) | ReaddirFails \<Rightarrow> (None, rt)
      | Entries entries \<Rightarrow>
          let paths = managedDiaryPaths entries in
          case requireDiaryPaths env sid h paths rt of
            (Some x, rt') \<Rightarrow> (Some (Some x), rt')
          | (None, rt') \<Rightarrow> if paths = [] then (Some None, rt')
              else (Some (Some (diaryResponse 422 (DiaryErrorBody ''diary-encrypted-reference-unsupported''))), rt'))"

definition requireDiaryVaultBodyAccess :: "diary_env \<Rightarrow> int option \<Rightarrow> jsstr option \<Rightarrow> diary_access option
    \<Rightarrow> diary_response option \<times> diary_access option" where
  "requireDiaryVaultBodyAccess env sid h rt =
     (case rt of None \<Rightarrow> (None, None)
      | Some s \<Rightarrow> (case accessStatus env (sessionNumber sid) (headerValue h) s of
          (t, DStatus state e) \<Rightarrow> (if state = UNINITIALIZED \<or> state = UNLOCKED then None else Some lockedResponse, Some t)
        | (t, _) \<Rightarrow> (Some diaryUnavailable, Some t)))"

section \<open>What passes the gate\<close>

definition grants :: "diary_env \<Rightarrow> diary_access \<Rightarrow> int \<Rightarrow> jsstr \<Rightarrow> Capability \<Rightarrow> bool" where
  "grants env s n token c \<longleftrightarrow> map_of (daCapabilities s) token = Some c \<and> cpSessionId c = n
     \<and> \<not> quiescing n s \<and> map_of (daSessionEpochs s) n = Some (cpEpoch c) \<and> cpVaultId c = deVaultId env
     \<and> aeNow (deAuth env) (daClock s) < cpExpiresAt c \<and> dsValid (deResolve env (daResolves s) n)"

lemma configFromRow_vault: "configFromRow r v = Some c \<Longrightarrow> cfVaultId c = v"
  by (auto simp: configFromRow_def Let_def split: option.splits if_splits)

lemma loadConfig_vault: "loadConfig env s = Inr (Some c) \<Longrightarrow> cfVaultId c = deVaultId env"
  by (auto simp: loadConfig_def configFromRow_vault split: option.splits)

lemma valid_for_grants:
  assumes "isCapabilityValidFor env n (headerValue h) (Some c) s = (True, t)" "cfVaultId c = deVaultId env"
  shows "\<exists>token a. h = Some token \<and> grants env s n token a"
  using assms(1)
proof (cases rule: valid_cases)
  case (1 cfg token a)
  have "cfg = c" using 1(1) by simp
  then show ?thesis using 1 assms(2)
    by (auto simp: grants_def capabilityMatches_def hostOnly_fields headerValue_def split: option.splits)
qed

lemma valid_grants:
  assumes "isCapabilityValid env n (headerValue h) s = (True, t)"
  shows "\<exists>token a. h = Some token \<and> grants env s n token a"
proof -
  obtain c where c: "loadConfig env s = Inr (Some c)"
  proof (cases "loadConfig env s")
    case (Inr x)
    then show thesis using that assms by (cases x) (auto simp: isCapabilityValid_def isCapabilityValidFor_def split: if_splits)
  qed (use assms in \<open>simp add: isCapabilityValid_def isCapabilityValidFor_def split: if_splits\<close>)
  then show ?thesis using valid_for_grants [OF _ loadConfig_vault [OF c]] assms by (simp add: isCapabilityValid_def)
qed

theorem gate_grants:
  assumes "requireDiaryBodyAccess env sid h path rt = (None, rt')" "isManagedDiaryBodyPath path"
  shows "\<exists>s n token c. rt = Some s \<and> sid = Some n \<and> h = Some token \<and> grants env s n token c"
proof -
  obtain s where s: "rt = Some s" using assms by (cases rt) (auto simp: requireDiaryBodyAccess_def)
  obtain n where n: "sid = Some n" using assms s by (cases sid) (auto simp: requireDiaryBodyAccess_def hasDiaryBodyAccess_def)
  obtain t where "isCapabilityValid env n (headerValue h) s = (True, t)"
    using assms s n by (cases "isCapabilityValid env n (headerValue h) s")
      (auto simp: requireDiaryBodyAccess_def hasDiaryBodyAccess_def split: bool.splits)
  then show ?thesis using valid_grants s n by blast
qed

text \<open>The gate of the whole vault lets nothing through that the gate of a document would not, once the diary is set up.\<close>

lemma vault_gate_grants:
  assumes "requireDiaryVaultBodyAccess env sid h (Some s) = (None, rt')" "daConfig s \<noteq> None"
  shows "\<exists>n token c. sid = Some n \<and> h = Some token \<and> grants env s n token c"
proof -
  let ?n = "sessionNumber sid"
  have n: "isSessionNumber ?n" using assms(1) by (auto simp: requireDiaryVaultBodyAccess_def accessStatus_def split: if_splits)
  then have sid: "sid = Some ?n" by (cases sid) (auto simp: sessionNumber_def isSessionNumber_def)
  obtain c where c: "loadConfig env s = Inr (Some c)"
    using assms n by (auto simp: requireDiaryVaultBodyAccess_def accessStatus_def loadConfig_def split: option.splits sum.splits)
  obtain b t where v: "isCapabilityValidFor env ?n (headerValue h) (Some c) s = (b, t)"
    by (cases "isCapabilityValidFor env ?n (headerValue h) (Some c) s")
  have "b" using assms(1) n c v by (cases b) (simp_all add: requireDiaryVaultBodyAccess_def accessStatus_def)
  then show ?thesis using valid_for_grants [OF _ loadConfig_vault [OF c]] v sid by metis
qed

text \<open>A vault that holds a managed diary file is never handed to the rewriting of references.\<close>

lemma footprint_refused:
  assumes "r = Entries entries" "hasManagedDiaryFiles r = Some True"
  shows "\<exists>x. fst (rejectManagedDiaryReferenceFootprint env sid h r rt) = Some (Some x)"
proof -
  have "managedDiaryPaths entries \<noteq> []"
    using assms by (auto simp: hasManagedDiaryFiles_def managedDiaryPaths_def list_ex_iff filter_empty_conv)
  then show ?thesis using assms(1)
    by (auto simp: rejectManagedDiaryReferenceFootprint_def Let_def split: prod.split option.split)
qed

text \<open>After a reset nothing is granted until the password is given again.\<close>

lemma reset_grants_nothing: "\<not> grants env (resetForTesting s) n token c"
  by (auto simp: grants_def resetForTesting_def dropAllCapabilities_def drops_entries dest!: map_of_SomeD)

text \<open>After a lock has been answered, only a capability that was asked for later opens anything.\<close>

theorem grant_after_lock:
  assumes "settled s" "isSessionNumber n" "diary_run env es (fst (diary_step env (Lock n) s)) = (t, outs)"
    "DLocked (daNextTask s) \<in> set outs" "grants env t n token c"
  shows "daNextTask s < cpRequest c"
proof -
  have f: "fenced n (daNextTask s) t" by (rule answered_lock_fences [OF assms(1-4)])
  have "(token, c) \<in> set (daCapabilities t)" using assms(5) by (auto simp: grants_def dest: map_of_SomeD)
  then have "(cpRequest c, n) \<in> owners t" using assms(5) by (force simp: owners_def grants_def)
  then show ?thesis using f by (auto simp: fenced_def)
qed

end
