(* ===== verification/DemoDiary.thy ===== *)
theory DemoDiary
  imports DemoAuth DiaryKeySteps DiaryRoutes
begin

text \<open>
  A small instance of the encrypted diary, on which its properties are seen to apply: a host, a history that sets
  the diary up and begins a body operation, and bodies of both sizes.
\<close>

section \<open>Outside the repository\<close>

definition keyBytes :: "nat \<Rightarrow> nat list \<Rightarrow> nat list" where
  "keyBytes n k = take n (map (\<lambda>c. c mod 256) k @ replicate n 0)"

definition diaryEnv :: diary_env where
  "diaryEnv = \<lparr>deAuth = authEnv, deHmac = (\<lambda>k t. keyBytes 32 k), deSeal = (\<lambda>k n a p. (p, keyBytes 16 k)),
     deOpen = (\<lambda>k n a c t. if t = keyBytes 16 k then Some c else None),
     deResolve = (\<lambda>n sid. \<lparr>dsValid = True, dsExpiresAt = Some 1000000000\<rparr>), deVaultId = js ''vault'', deJsonParse = (\<lambda>_. None)\<rparr>"

lemma keyBytes_ok [simp]: "length (keyBytes n k) = n" "isBytes (keyBytes n k)"
  by (auto simp: keyBytes_def isBytes_def dest!: in_set_takeD)

lemma diaryEnv_sel [simp]: "deAuth diaryEnv = authEnv" "deVaultId diaryEnv = js ''vault''"
  "deResolve diaryEnv n sid = \<lparr>dsValid = True, dsExpiresAt = Some 1000000000\<rparr>"
  "deSeal diaryEnv k m a p = (p, keyBytes 16 k)" "deHmac diaryEnv k t = keyBytes 32 k"
  "deOpen diaryEnv k m a c t' = (if t' = keyBytes 16 k then Some c else None)"
  by (simp_all add: diaryEnv_def)

lemma diaryEnv_ok: "cipher_ok diaryEnv"
  by (simp add: cipher_ok_def authEnv_ok SCRYPT_KEY_BYTES_def DIARY_ACCESS_TAG_BYTES_def)

section \<open>A history\<close>

definition diaryPassword :: jsstr where
  "diaryPassword = js ''correct horse battery''"

definition diarySetup :: "diary_event list" where
  "diarySetup = [Setup 1 (JStr diaryPassword), KdfSettled 0 True, Continue 0, Continue 0]"

definition diaryToken :: jsstr where
  "diaryToken = capabilityToken (replicate 32 3)"

lemma diaryPassword_ok [simp]: "isValidPassword (JStr diaryPassword)"
  by (simp add: diaryPassword_def isValidPassword_def js_def validatePassword_def PASSWORD_MIN_LENGTH_def PASSWORD_MAX_LENGTH_def)

lemma kek_length [simp]: "length (deriveDiaryKek diaryEnv p salt) = 32"
  by (simp add: deriveDiaryKek_def kekFrom_def)

lemmas diary_run_simps = createDiaryAccess_def setupAccess_def isSessionNumber_def safeInt_def MAX_SAFE_INTEGER_def
  loadConfig_def beginCapabilityIssuance_def requireCurrentAuthSession_def resolveSession_def readClock_def quiescing_def countOf_def
  drawBytes_def allocBuffer_def addTask_def SCRYPT_SALT_BYTES_def SCRYPT_KEY_BYTES_def DIARY_ACCESS_NONCE_BYTES_def
  DIARY_ACCESS_TAG_BYTES_def Let_def kdfSettled_def setupDerived_def allocKek_eq wrapDiaryDek_def assertCapabilityIssuanceCurrent_def
  ticketCurrent_def storeConfig_def enterIssuanceLock_def setTask_def endTask_def continueTask_def turnReached_def issuanceTurn_def
  hasSessionCapability_def publishIfCurrent_def publishCapability_def scheduleCapabilityExpiry_def setCapabilityTimer_def
  MAX_CAPABILITY_EXPIRY_TIMER_MS_def leaveIssuance_def releaseIssuanceLock_def finishRequest_def fillUnowned_def ownedDek_def
  fillZero_def mapDelete_def

lemma kek_derived [simp]: "length (aeScrypt authEnv p salt) = 32"
  by simp

definition drawnDiary :: diary_access where
  "drawnDiary = (createDiaryAccess None oneLimiter)\<lparr>daSequences := [(1, 1)], daBuffers := [replicate 32 1],
     daTasks := [(0, DerivingKey \<lparr>isSessionId = 1, isLifecycleGeneration = 0, isSequence = 1\<rparr>
       (SetupRequest diaryPassword (replicate 16 0) 0))],
     daNextTask := 1, daClock := 1, daDraws := 2, daResolves := 1\<rparr>"

definition diaryRow :: DiaryAccessRow where
  "diaryRow = setupRow (replicate 16 0) \<lparr>dcNonce = replicate 12 2, dcWrappedDek = replicate 32 1,
     dcTag = keyBytes 16 (deriveDiaryKek diaryEnv diaryPassword (replicate 16 0))\<rparr> (js ''vault'') 2000"

definition diaryCapability :: Capability where
  "diaryCapability = \<lparr>cpRequest = 0, cpSessionId = 1, cpVaultId = js ''vault'', cpEpoch = 1, cpExpiresAt = 1000000000,
     cpDek = 0, cpTimer = Some 0\<rparr>"

definition setUpDiary :: diary_access where
  "setUpDiary = (createDiaryAccess (Some diaryRow) oneLimiter)\<lparr>daSessionEpochs := [(1, 1)],
     daCapabilities := [(diaryToken, diaryCapability)], daSequences := [(1, 1)],
     daTailObjects := [\<lparr>tlPrevious = None, tlReleased = True\<rparr>],
     daBuffers := [replicate 32 1, replicate 32 0, replicate 32 0], daTimers := [(0, diaryToken, 999994000)],
     daNextTask := 1, daNextTimer := 1, daClock := 7, daDraws := 4, daResolves := 5, daWrites := 1\<rparr>"

definition leasedDiary :: diary_access where
  "leasedDiary = setUpDiary\<lparr>daActive := [(1, 1)], daTasks := [(1, BodyOperation \<lparr>blSessionId = 1, blToken = diaryToken,
     blCapability = 0, blEpoch = 1, blDek = 0, blReads = []\<rparr>)], daNextTask := 2, daClock := 8, daResolves := 6\<rparr>"

lemma drawn_run: "diary_run diaryEnv [Setup 1 (JStr diaryPassword)] (createDiaryAccess None oneLimiter) = (drawnDiary, [DPending 0])"
  by (simp add: diary_run_simps drawnDiary_def del: replicate.simps authEnv_sel(6))

lemma setup_run: "diary_run diaryEnv [KdfSettled 0 True, Continue 0, Continue 0] drawnDiary = (setUpDiary, [DNothing, DNothing, DIssued 0 diaryToken 1])"
  by (simp add: diary_run_simps drawnDiary_def setUpDiary_def diaryRow_def diaryCapability_def diaryToken_def del: replicate.simps authEnv_sel(6))

lemma drawn_facts:
  "daConfig drawnDiary = None" "daDraws drawnDiary = 2" "daBuffers drawnDiary ! 0 = replicate 32 1"
  "map_of (daTasks drawnDiary) 0 = Some (DerivingKey \<lparr>isSessionId = 1, isLifecycleGeneration = 0, isSequence = 1\<rparr>
     (SetupRequest diaryPassword (replicate 16 0) 0))"
  "daConfig (fst (diary_step diaryEnv (KdfSettled 0 True) drawnDiary)) = Some diaryRow" "isFiniteInteger (drCreatedAt diaryRow)"
proof -
  show "daConfig (fst (diary_step diaryEnv (KdfSettled 0 True) drawnDiary)) = Some diaryRow"
    by (simp add: diary_run_simps drawnDiary_def diaryRow_def del: replicate.simps authEnv_sel(6))
qed (simp_all add: drawnDiary_def createDiaryAccess_def diaryRow_def setupRow_def safeInt_def MAX_SAFE_INTEGER_def del: replicate.simps)

lemma token_length [simp]: "length diaryToken = 43"
  by code_simp

lemma diaryRow_config: "\<exists>c. configFromRow diaryRow (js ''vault'') = Some c \<and> cfVaultId c = js ''vault''"
  unfolding diaryRow_def by (subst configFromRow_setup) (simp_all add: SCRYPT_SALT_BYTES_def SCRYPT_KEY_BYTES_def
      DIARY_ACCESS_NONCE_BYTES_def DIARY_ACCESS_TAG_BYTES_def safeInt_def MAX_SAFE_INTEGER_def)

lemma lease_run: "diary_step diaryEnv (BodyBegin 1 (JStr diaryToken)) setUpDiary = (leasedDiary, DPending 1)"
proof -
  obtain c where c: "configFromRow diaryRow (js ''vault'') = Some c" "cfVaultId c = js ''vault''" using diaryRow_config by blast
  then show ?thesis
    by (simp add: beginBodyOperation_def isCapabilityValid_def isCapabilityValidFor_def presentedOk_def capabilityExpired_def
        capabilityMatches_def diary_run_simps setUpDiary_def leasedDiary_def diaryCapability_def del: replicate.simps)
qed

lemma lock_run:
  "fst (diary_step diaryEnv (Lock 1) leasedDiary) = leasedDiary\<lparr>daGenerations := [(1, 1)], daQuiescences := [(1, 0)],
     daQuiescenceObjects := [\<lparr>sqDrained = False, sqCompleted = False, sqFinalized = False\<rparr>],
     daTasks := daTasks leasedDiary @ [(2, Quiescing 1 0)], daNextTask := 3\<rparr>"
  by (simp add: lockAccess_def invalidateAuthSession_def beginSessionInvalidation_def bumpLifecycleGeneration_def beginQuiescence_def
      diary_run_simps setUpDiary_def leasedDiary_def del: replicate.simps)

lemma locked_run: "\<exists>t. diary_run diaryEnv [BodyEnd 1, Continue 2, Continue 2] (fst (diary_step diaryEnv (Lock 1) leasedDiary))
    = (t, [DNothing, DNothing, DLocked 2])"
  unfolding lock_run by (simp add: endBodyOperation_def releaseBodyOperation_def drainedQ_def completedQ_def finalizeQuiescence_def
      diary_run_simps setUpDiary_def leasedDiary_def del: replicate.simps)

lemma released_run: "\<exists>t. diary_run diaryEnv [BodyEnd 1] (fst (diary_step diaryEnv (Lock 1) leasedDiary)) = (t, [DNothing])
    \<and> daTasks t = [(2, Quiescing 1 0)]"
  unfolding lock_run by (simp add: endBodyOperation_def releaseBodyOperation_def diary_run_simps setUpDiary_def leasedDiary_def del: replicate.simps)

lemma diary_states: "diary_reached diaryEnv drawnDiary" "diary_reached diaryEnv setUpDiary" "diary_reached diaryEnv leasedDiary"
proof -
  let ?s = "createDiaryAccess None oneLimiter"
  have d: "drawnDiary = fst (diary_run diaryEnv [Setup 1 (JStr diaryPassword)] ?s)" using drawn_run by simp
  have s: "setUpDiary = fst (diary_run diaryEnv ([Setup 1 (JStr diaryPassword)] @ [KdfSettled 0 True, Continue 0, Continue 0]) ?s)"
    unfolding dm.state_append using drawn_run setup_run by simp
  have l: "leasedDiary = fst (diary_run diaryEnv (([Setup 1 (JStr diaryPassword)] @ [KdfSettled 0 True, Continue 0, Continue 0])
      @ [BodyBegin 1 (JStr diaryToken)]) ?s)"
    unfolding dm.state_append [of _ "([Setup 1 (JStr diaryPassword)] @ [KdfSettled 0 True, Continue 0, Continue 0])"] s [symmetric]
    using lease_run by simp
  show "diary_reached diaryEnv drawnDiary" "diary_reached diaryEnv setUpDiary" "diary_reached diaryEnv leasedDiary"
    unfolding diary_reached_def using d s l by blast+
qed

section \<open>A lock, and the unlock that follows it\<close>

lemma demo_config: "configFromRow diaryRow (js ''vault'') = Some \<lparr>cfSalt = replicate 16 0, cfNonce = replicate 12 2,
     cfWrappedDek = replicate 32 1, cfTag = keyBytes 16 (deriveDiaryKek diaryEnv diaryPassword (replicate 16 0)), cfVaultId = js ''vault''\<rparr>"
  unfolding diaryRow_def by (subst configFromRow_setup) (simp_all add: SCRYPT_SALT_BYTES_def SCRYPT_KEY_BYTES_def
      DIARY_ACCESS_NONCE_BYTES_def DIARY_ACCESS_TAG_BYTES_def safeInt_def MAX_SAFE_INTEGER_def)

definition lockedDiary :: diary_access where
  "lockedDiary = setUpDiary\<lparr>daSessionEpochs := [(1, 2)], daCapabilities := [], daGenerations := [(1, 1)],
     daQuiescenceObjects := [\<lparr>sqDrained = True, sqCompleted = True, sqFinalized = True\<rparr>],
     daBuffers := [replicate 32 0, replicate 32 0, replicate 32 0], daTimers := [], daNextTask := 2\<rparr>"

definition laterToken :: jsstr where
  "laterToken = capabilityToken (replicate 32 4)"

definition unlockedDiary :: diary_access where
  "unlockedDiary = lockedDiary\<lparr>daLimiter := reset oneLimiter (limiterKey 1 (js ''vault'')), daSessionEpochs := [(1, 3)],
     daCapabilities := [(laterToken, \<lparr>cpRequest = 2, cpSessionId = 1, cpVaultId = js ''vault'', cpEpoch = 3,
       cpExpiresAt = 1000000000, cpDek = 5, cpTimer = Some 1\<rparr>)],
     daSequences := [(1, 2)],
     daTailObjects := [\<lparr>tlPrevious = None, tlReleased = True\<rparr>, \<lparr>tlPrevious = None, tlReleased = True\<rparr>],
     daBuffers := [replicate 32 0, replicate 32 0, replicate 32 0, replicate 32 0, replicate 32 0, replicate 32 1],
     daTimers := [(1, laterToken, 999988000)],
     daNextTask := 3, daNextTimer := 2, daClock := 13, daDraws := 5, daResolves := 9\<rparr>"

lemma relock_run:
  "diary_run diaryEnv [Continue 1, Continue 1] (fst (diary_step diaryEnv (Lock 1) setUpDiary)) = (lockedDiary, [DNothing, DLocked 1])"
  by (simp add: lockAccess_def invalidateAuthSession_def beginSessionInvalidation_def bumpLifecycleGeneration_def beginQuiescence_def
      drainedQ_def completedQ_def finalizeQuiescence_def dropCapability_def dropSessionCapabilities_def sessionTokens_def clearTimer_def
      lockedDiary_def diaryCapability_def diary_run_simps setUpDiary_def del: replicate.simps)

lemma unlock_run:
  "diary_run diaryEnv [Unlock 1 (JStr diaryPassword), KdfSettled 2 True, Continue 2, Continue 2] lockedDiary
   = (unlockedDiary, [DPending 2, DNothing, DNothing, DIssued 2 laterToken 3])"
  by (simp add: unlockAccess_def unlockDerived_def unwrapWith_def configLengthsOk_def demo_config retryAfter_def oneLimiter_def
      lockedDiary_def unlockedDiary_def laterToken_def diary_run_simps setUpDiary_def del: replicate.simps authEnv_sel(6))

lemma unlock_after_lock:
  "diary_run diaryEnv ([Continue 1, Continue 1] @ [Unlock 1 (JStr diaryPassword), KdfSettled 2 True, Continue 2, Continue 2])
     (fst (diary_step diaryEnv (Lock 1) setUpDiary))
   = (unlockedDiary, [DNothing, DLocked 1] @ [DPending 2, DNothing, DNothing, DIssued 2 laterToken 3])"
  using relock_run unlock_run by (simp add: Let_def split_def prod_eq_iff del: diary_step.simps)

lemma laterToken_length [simp]: "length laterToken = 43"
  by code_simp

lemma diary_body_gate: "\<exists>rt. requireDiaryBodyAccess diaryEnv (Some 1) (Some laterToken) (js ''diary/2024-02-29.md'') (Some unlockedDiary) = (None, rt)"
  by (simp add: requireDiaryBodyAccess_def hasDiaryBodyAccess_def headerValue_def isCapabilityValid_def isCapabilityValidFor_def presentedOk_def
     capabilityExpired_def capabilityMatches_def demo_config unlockedDiary_def lockedDiary_def diary_run_simps setUpDiary_def del: replicate.simps)

lemma diary_managed: "isManagedDiaryBodyPath (js ''diary/2024-02-29.md'')"
  by code_simp

lemma diary_draws: "n \<le> 8 \<Longrightarrow> draws_fresh diaryEnv n"
  by (simp add: draws_fresh_def)

section \<open>Bodies\<close>

definition diaryContext :: BodyContext where
  "diaryContext = \<lparr>bcVaultId = js ''vault'', bcDocumentId = js ''d1'', bcLogicalPath = js ''diary/2024-02-29''\<rparr>"

definition diaryText :: jsstr where
  "diaryText = js ''a quiet day''"

definition longText :: jsstr where
  "longText = replicate (15 * 1024 * 1024) 97"

definition readingEnv :: diary_env where
  "readingEnv = diaryEnv\<lparr>deJsonParse := (\<lambda>_. Some (envelopeObject
     (sealedEnvelope diaryEnv (replicate 12 2) diaryText diaryContext (replicate 32 1))))\<rparr>"

lemma reading_parses: "parses_back readingEnv (sealedEnvelope readingEnv (replicate 12 2) diaryText diaryContext (replicate 32 1))"
  by (simp add: parses_back_def readingEnv_def sealedEnvelope_def)

lemma plain_body:
  assumes "list_all plainUnit raw"
  shows "body_ok diaryEnv (replicate 12 2) raw diaryContext" "body_ok readingEnv (replicate 12 2) raw diaryContext"
proof -
  have c: "cipher_ok readingEnv" using diaryEnv_ok by (simp add: cipher_ok_def readingEnv_def)
  have t: "isText (bcDocumentId diaryContext)" "isText (bcLogicalPath diaryContext)"
    by (simp_all add: diaryContext_def isText_js)
  have r: "wellFormed raw" "isText raw" using wellFormed_plain [OF assms] plain_text [OF assms] by simp_all
  show "body_ok diaryEnv (replicate 12 2) raw diaryContext" "body_ok readingEnv (replicate 12 2) raw diaryContext"
    using c t r diaryEnv_ok by (simp_all add: body_ok_def isBytes_def DIARY_BODY_NONCE_BYTES_def)
qed

lemma diaryText_plain: "list_all plainUnit diaryText" "utf8ByteLength diaryText = 11"
  by (simp_all add: diaryText_def js_def plainUnit_def utf8_ascii)

lemma longText_plain: "list_all plainUnit longText" "utf8ByteLength longText = 15 * 1024 * 1024"
  by (simp_all add: longText_def list_all_iff plainUnit_def utf8_ascii del: replicate.simps)

end
