(* ===== verification/Spec2Isabelle.thy ===== *)
theory Spec2Isabelle
  imports DemoProjections Versions DemoAuth DemoDiary DiaryRoutes
begin

text \<open>
  A verification development for \<open>docus\<close>, a self-hosted Markdown workspace: one owner, one server process
  (\<open>src/server\<close>, a Hono application over SQLite and a directory of files) and a Vue client (\<open>src/src\<close>).
  Every request under \<open>/api\<close> passes one boundary (\<open>src/server/auth\<close>) before it reaches the service it names;
  the service with the richest contract is the ledger (\<open>src/server/ledger\<close> with \<open>src/shared/ledger*.ts\<close>). Documents
  under \<open>diary/\<close> are kept encrypted, and their key is held in memory by a service of its own
  (\<open>src/server/diaryAccess\<close>). These three are modelled, with what they call inside the repository.

  \<^bold>\<open>The ledger\<close>, from the bottom up.
  \<^item> \<open>Prelude\<close>: strings as lists of UTF-16 code units, the values of a parsed JSON body, the codes and statuses
    of \<open>errors.ts\<close>, the state-and-error monad of the service. \<open>Money\<close> is \<open>money.ts\<close>: the checked arithmetic
    on doubles, with the rounding of a sum beyond the safe integers written out. \<open>Currency\<close> is
    \<open>ledgerCurrency.ts\<close>: exponents, exact parsing and formatting of decimal amounts, compatibility of a
    refreshed table. \<open>Environment\<close> collects the parameters. \<open>LedgerTime\<close> is \<open>time.ts\<close>.
  \<^item> \<open>LedgerTypes\<close>, \<open>Domain\<close>: the types of \<open>ledgerProtocol.ts\<close> and the readers of \<open>domain.ts\<close> that turn untrusted
    rows into them. \<open>Balance\<close> is \<open>balance.ts\<close>, \<open>Json\<close> the serialisation of \<open>idempotency.ts\<close>, \<open>Validation\<close>
    every parser of \<open>validation.ts\<close>.
  \<^item> \<open>Tables\<close>, \<open>Repository\<close>, \<open>Queries\<close>, \<open>Store\<close>: the five tables of the migrations, every statement of
    \<open>repository.ts\<close> and the constraints it runs under (locale \<open>row_table\<close>, interpreted on each table), and
    the abstraction \<open>view\<close> from a database to the decoded ledger.
  \<^item> \<open>WriteTransaction\<close>, \<open>Idempotency\<close>, \<open>ServiceCore\<close>, \<open>ServiceTransactions\<close>, \<open>Projections\<close>, \<open>Api\<close>: the write
    transaction, the replay of creates, every operation of \<open>service.ts\<close>, the read models, and the routes, as
    a function from a request to a response and the next state.
  \<^item> \<open>LedgerSpec\<close>, \<open>LedgerInvariant\<close>: the abstract ledger, one rule of \<open>ledger_step\<close> per business operation, and
    its invariant. \<open>RefineCore\<close>, \<open>RefineMasterData\<close>, \<open>RefineTransactions\<close>, \<open>RefinePatch\<close>, \<open>RefineApi\<close>: each
    request, whatever its body, is a sequence of these steps, or fails and changes nothing.
  \<^item> \<open>LedgerHistory\<close>, \<open>Frame\<close>, \<open>Replay\<close>, \<open>Versions\<close>: what holds between two moments of a ledger's life; the
    locale \<open>repository_frame\<close>, interpreted for the records of replay and for the rows that are never lost.
    \<open>QueryFacts\<close>, \<open>ProjectionFacts\<close>, \<open>TrendFacts\<close>, \<open>PagingFacts\<close>: the aggregates of SQL, the overview, the
    trends and the paged listing equal sums and lists over the decoded view. \<open>Demo\<close>, \<open>DemoBook\<close>,
    \<open>DemoCalendar\<close>, \<open>DemoProjections\<close>: a concrete host and book for the witnesses.

  \<^bold>\<open>Authentication\<close>.
  \<^item> \<open>JsMap\<close>: the insertion-ordered \<open>Map\<close> of JavaScript, with the laws its clients use as the locale \<open>js_map\<close>.
    \<open>RateLimit\<close> is \<open>rateLimit.ts\<close>. \<open>KdfGuard\<close> is \<open>kdfGuard.ts\<close>, the scheduler of password work, as a machine
    whose turns are the calls and the callbacks of the event loop. \<open>Base64Url\<close>, \<open>Password\<close>: \<open>password.ts\<close>.
    \<open>AuthConfig\<close>: \<open>config.ts\<close>, \<open>csrf.ts\<close>, \<open>bootstrap.ts\<close>. \<open>Session\<close>: \<open>session.ts\<close> over its three tables.
  \<^item> \<open>AuthService\<close>: \<open>service.ts\<close>; setup and login suspend while a key is derived, so each is two definitions, the
    part before the \<open>await\<close> and the part after it. \<open>AuthRoutes\<close>: \<open>middleware.ts\<close>, \<open>routes.ts\<close>, \<open>runtime.ts\<close>;
    a logout suspends too, until the diary has let go of its session.
  \<^item> \<open>AuthFacts\<close>, \<open>AuthHistory\<close>: the facts of each operation, and the histories: any interleaving of requests,
    turns of the guard, resumptions and the deferred deletion of expired sessions. \<open>DemoAuth\<close>: the instances.

  \<^bold>\<open>The encrypted diary\<close>. A password derives a key-encryption key, which wraps the data key of the diary; an unlocked
  session holds a capability, a random token that stands for a copy of the data key until it expires or is locked.
  \<^item> \<open>DiaryProtocol\<close>: \<open>diaryProtocol.ts\<close>, which paths are diary documents. \<open>Utf8\<close>: the encoding of texts, and its
    inverse. \<open>DiaryCrypto\<close>: \<open>crypto.ts\<close>, the wrapping of the key. \<open>DiaryBody\<close>: \<open>body.ts\<close>, the envelope of a body,
    with its Base64 and the check of what was parsed.
  \<^item> \<open>DiaryAccess\<close>: \<open>service.ts\<close>. Its methods suspend at every \<open>await\<close>, so the service is an event machine: an event is
    a call, the settling of a key derivation, a timer, or the continuation of a suspended task (\<open>daTasks\<close>, by number),
    and \<open>diary_run\<close> runs any list of them. Buffers of key material live in a store (\<open>daBuffers\<close>), so that erasing
    one is seen through every reference to it. \<open>Machine\<close> is the locale \<open>event_system\<close> of such machines.
  \<^item> \<open>DiaryRoutes\<close>: the endpoints of \<open>routes/diaryAccess.ts\<close>, and \<open>guard.ts\<close>, the gate of every route to a body.
  \<^item> \<open>DiaryFrame\<close>, \<open>DiaryQuiet\<close>: what each operation leaves alone, and when a session is quiet. \<open>DiaryFence\<close>,
    \<open>DiaryLock\<close>: a lock raises a generation that no older request can pass (locale \<open>ticket_law\<close>), and it is
    answered. \<open>DiarySetup\<close>: the configuration is written once. \<open>DiaryKeys\<close>, \<open>DiaryKeySteps\<close>: every buffer is erased
    or has an owner, through every event. \<open>DemoDiary\<close>: a host, and histories that set up, lock and unlock.

  \<^bold>\<open>Parameters.\<close> Code that is not in the repository is an argument: \<open>ledger_env\<close> holds \<open>Temporal\<close> and the zone
  database, \<open>JSON.parse\<close>, SHA-256, base64url, \<open>localeCompare\<close>, the clock, the source of identifiers and whether
  SQLite's write lock is free at a call; \<open>auth_env\<close> holds lower-casing, URL parsing, SHA-256, scrypt, random
  bytes, the clock and the write lock; \<open>diary_env\<close> adds HMAC, AES-GCM, \<open>JSON.parse\<close>, the look-up of a session and
  the name of the vault. A theorem that needs a documented fact of one names it as a hypothesis, and its witness
  discharges it on the demonstration host. These are all of them: lower-casing makes no text empty (\<open>lower_ok\<close>); SHA-256
  in hexadecimal has 64 digits (\<open>hash_ok\<close>); base64url and \<open>JSON.parse\<close> read back what was written, for a cursor
  (\<open>cursorCodec\<close>) and for an envelope (\<open>parses_back\<close>); random bytes and derived keys are bytes, as many as were asked
  for (\<open>crypto_ok\<close>); HMAC and AES-GCM yield their lengths, and what was sealed opens under the same key, nonce and
  context (\<open>cipher_ok\<close>); the random keys and tokens drawn so far differ (\<open>draws_fresh\<close>). No order is assumed of what the clock
  reads, which may run backwards; only the exact delays of the limiter are stated for failures in the order of their
  times.

  \<^bold>\<open>Bounds and fuel.\<close> Nearly every loop of the code is structural recursion here. One takes fuel: \<open>followPages\<close>, a
  client that follows the cursors of the listing; the theorem on paging proves that as many steps as there are
  rows suffice. The drain loop of the guard is a \<open>function\<close> whose termination is proved by the length of its
  queue; that of \<open>tailResolved\<close>, which follows the chain of pending issuances, by the age of its objects.

  \<^bold>\<open>Limits of the model.\<close> Text is compared by UTF-16 code units, as JavaScript does; SQLite's \<open>ORDER BY\<close> on text
  compares UTF-8 bytes, which differs only above the basic plane. Error messages and details are left out, codes
  and statuses are not. A callback of a write transaction is synchronous in the model, so the guards of
  \<open>writeTransaction.ts\<close> against asynchronous callbacks have nothing to reject. Clocks read integers. Of the
  response headers, \<open>Set-Cookie\<close> and \<open>Retry-After\<close> are modelled. A storage failure inside authentication is not.
  In the diary a history may resume suspended tasks in any order, which includes the order of the event loop. In
  the histories of authentication, a logout that waits for the diary may resume at any turn.

  \<^bold>\<open>Not modelled.\<close> The rest of the server is the choreography of files, directories, Git and SQLite around crashes
  (\<open>crashRecovery.ts\<close>, \<open>folderMove*.ts\<close>, \<open>atomicTextWrite.ts\<close>, \<open>documentFileLifecycle.ts\<close>, \<open>renameReference*.ts\<close>,
  \<open>tagUndo.ts\<close>, \<open>tagManagement.ts\<close>, \<open>history\<close>, \<open>diaryMigration\<close>), whose contract is with the file system and the
  Git executable, and thin adapters (\<open>ai\<close>, \<open>assets\<close>, \<open>routes\<close>). The client is Vue components, browser storage
  and third-party editors; \<open>src/src/lib/generated/emojiData.ts\<close> is a generated table. Each is listed with its
  reason in the manifest.
\<close>

section \<open>Every sequence of requests\<close>

text \<open>
  C1. Whatever requests the ledger has served since it was created, an account that is archived
  has the balance zero: opening balance plus the effects of its active transactions.\<close>

theorem archived_accounts_settled:
  assumes "lower_ok env"
  shows "\<forall>a\<in>set (lvAccounts (ledgerAfter env qs)). accArchivedAt a \<noteq> None \<longrightarrow>
     exactBalance (balanceAccount a) (lvTransactions (ledgerAfter env qs)) = 0"
  using after_Inv [OF assms] by (simp add: Inv_def archivedSettled_def)

theorem archived_accounts_settled_witness: "archivedSettled (ledgerAfter demoEnv demoRequests)"
  unfolding archivedSettled_def by (rule archived_accounts_settled [OF demo_lower_ok])

text \<open>
  C2. Whatever requests were served, every stored transaction is admissible: its accounts exist and
  were open at its time (midnight of the opening date in the ledger's zone), its category exists, is
  not archived and has the kind of the entry, the natures of a transfer's accounts fit its kind, and
  only transfers and expenses are grouped.\<close>

theorem transactions_admissible:
  assumes "lower_ok env"
  shows "\<forall>t\<in>set (lvTransactions (ledgerAfter env qs)). txOk env (ledgerAfter env qs) t"
  using after_Inv [OF assms] by (simp add: Inv_def transactionsOk_def)

theorem transactions_admissible_witness: "transactionsOk demoEnv (ledgerAfter demoEnv demoRequests)"
  unfolding transactionsOk_def by (rule transactions_admissible [OF demo_lower_ok])

text \<open>
  C3. Whatever requests were served, in every group the accounts that pay its active transfers are,
  counted with multiplicity, the accounts charged by its active companion expenses: no fee is
  ever left without its transfer, and no grouped transfer without its fee.\<close>

theorem companions_match:
  assumes "lower_ok env"
  shows "(\<Sum>t\<leftarrow>lvTransactions (ledgerAfter env qs). payer g t) = (\<Sum>t\<leftarrow>lvTransactions (ledgerAfter env qs). charge g t)"
  using after_Inv [OF assms] by (simp add: Inv_def groupsMatch_def)

theorem companions_match_witness:
  "(\<Sum>t\<leftarrow>lvTransactions (ledgerAfter demoEnv demoRequests). payer (js ''id29'') t)
   = (\<Sum>t\<leftarrow>lvTransactions (ledgerAfter demoEnv demoRequests). charge (js ''id29'') t)"
  by (rule companions_match [OF demo_lower_ok])

text \<open>
  C4. Every request, on any good state outside a write transaction, is a sequence of steps of the
  abstract ledger and leaves a good state outside a write transaction, whatever it answers.\<close>

theorem request_refines_ledger:
  assumes "lower_ok env" "good env s" "\<not> stInTransaction s" "respond env q s = (r, t)"
  shows "ledger_steps env (view env (stDb s)) (view env (stDb t)) \<and> good env t \<and> \<not> stInTransaction t"
  using respond_safe [OF assms] by blast

theorem request_refines_ledger_witness:
  "ledger_steps demoEnv (ledgerAfter demoEnv demoRequests)
     (view demoEnv (stDb (snd (respond demoEnv openSettings (after demoEnv demoRequests)))))"
  using request_refines_ledger [OF demo_lower_ok after_good [OF demo_lower_ok, of demoRequests], of openSettings
      "fst (respond demoEnv openSettings (after demoEnv demoRequests))"
      "snd (respond demoEnv openSettings (after demoEnv demoRequests))"]
  by (simp add: ledgerAfter_def)

text \<open>
  C5. A request answered with an error, of whatever status, leaves the database as it was, although
  the failure may come after several writes of the same request.\<close>

theorem failed_request_changes_nothing:
  assumes "lower_ok env" "good env s" "\<not> stInTransaction s" "respond env q s = (r, t)" "isError r"
  shows "stDb t = stDb s"
  using respond_safe(4) [OF assms] .

theorem failed_request_changes_nothing_witness:
  "stDb (snd (respond demoEnv (SettingsRequest GetSettings) initial_state)) = empty_db"
proof -
  have run: "respond demoEnv (SettingsRequest GetSettings) initial_state = (ErrorResponse 404 (Some LNotFound), initial_state)"
    by (simp add: respond_def withLedgerErrors_def jsonRoute_def getSettingsDto_def requireSettings_def bnd_def
        readDb_def ask_def getSettings_def selectOne_def initial_state_def empty_db_def requireSome_def throw_def notFound_def
        ledgerErrorResponse_def)
  have "stDb (snd (respond demoEnv (SettingsRequest GetSettings) initial_state)) = stDb initial_state"
    by (rule failed_request_changes_nothing [OF demo_lower_ok initial_good,
          of "SettingsRequest GetSettings" "ErrorResponse 404 (Some LNotFound)"]) (simp_all only: run snd_conv isError.simps)
  also have "\<dots> = empty_db" by (simp add: initial_state_def)
  finally show ?thesis .
qed

text \<open>
  C6. Once an account has been created, the time zone and the base currency stay, whatever requests
  follow, even if the account is deleted.\<close>

theorem settings_locked:
  assumes "lower_ok env"
  shows "{s. lockedAs s (ledgerAfter env qs)} \<subseteq> {s. lockedAs s (ledgerAfter env (qs @ ps))}"
  using steps_preserve [OF after_steps [OF assms] after_Inv [OF assms]] lockedAs_step by blast

theorem settings_locked_witness:
  "{s. lockedAs s (ledgerAfter demoEnv (take 2 demoRequests))} \<subseteq> {s. lockedAs s (ledgerAfter demoEnv demoRequests)}"
  using settings_locked [OF demo_lower_ok, of "take 2 demoRequests" "drop 2 demoRequests"] by simp

text \<open>
  C7. A deleted transaction is final: after any further requests it is still stored, unchanged
  in every field.\<close>

theorem deleted_transactions_final:
  assumes "lower_ok env"
  shows "deletedTransactions (ledgerAfter env qs) \<subseteq> deletedTransactions (ledgerAfter env (qs @ ps))"
proof
  fix x assume "x \<in> deletedTransactions (ledgerAfter env qs)"
  then show "x \<in> deletedTransactions (ledgerAfter env (qs @ ps))"
    using steps_preserve [OF after_steps [OF assms] after_Inv [OF assms],
        where P = "\<lambda>v. x \<in> set (lvTransactions v)"] deleted_step
    by (auto simp: deletedTransactions_def)
qed

theorem deleted_transactions_final_witness:
  "deletedTransactions (ledgerAfter demoEnv (take 9 demoRequests)) \<subseteq> deletedTransactions (ledgerAfter demoEnv demoRequests)"
  using deleted_transactions_final [OF demo_lower_ok, of "take 9 demoRequests" "drop 9 demoRequests"] by simp

text \<open>
  No request removes a transaction or changes its type: every (identifier, type) that is
  stored is stored ever after.\<close>

theorem transactions_kept:
  assumes "lower_ok env"
  shows "keptTypes (ledgerAfter env qs) \<subseteq> keptTypes (ledgerAfter env (qs @ ps))"
  using steps_preserve [OF after_steps [OF assms] after_Inv [OF assms],
      where P = "\<lambda>v. keptTypes (ledgerAfter env qs) \<subseteq> keptTypes v"] keptTypes_step by blast

theorem transactions_kept_witness:
  "keptTypes (ledgerAfter demoEnv (take 7 demoRequests)) \<subseteq> keptTypes (ledgerAfter demoEnv demoRequests)"
  using transactions_kept [OF demo_lower_ok, of "take 7 demoRequests" "drop 7 demoRequests"] by simp

text \<open>
  C8. The system categories for interest and for fees, once seeded, are found by their key in every
  later state: neither a deletion nor an edit can take them away from the transfers that need them.\<close>

theorem system_categories_stay:
  assumes "lower_ok env"
  shows "{k. hasSystemCategory k (ledgerAfter env qs)} \<subseteq> {k. hasSystemCategory k (ledgerAfter env (qs @ ps))}"
  using steps_preserve [OF after_steps [OF assms] after_Inv [OF assms]] hasSystemCategory_step by blast

theorem system_categories_stay_witness:
  "{k. hasSystemCategory k (ledgerAfter demoEnv (take 1 demoRequests))}
   \<subseteq> {k. hasSystemCategory k (ledgerAfter demoEnv demoRequests)}"
  using system_categories_stay [OF demo_lower_ok, of "take 1 demoRequests" "drop 1 demoRequests"] by simp

text \<open>
  C9. A create is executed once: when a \<open>POST\<close> with an idempotency key has been answered, then after
  any further requests the same request is answered with the same status and the same text,
  and the database stays as it is.\<close>

theorem create_replayed_forever:
  assumes "lower_ok env" "hash_ok env" "good env s" "\<not> stInTransaction s"
    and "isCreate q" "respond env q s = (r, t)" "\<not> isError r"
    and "respond_all env qs t = (rs, u)" "\<not> writeLockBusy env (stBegins u)"
  shows "respond env q u = (r, u\<lparr>stBegins := Suc (stBegins u)\<rparr>)"
proof -
  note t = respond_safe(1,2) [OF assms(1,3,4,6)]
  have "\<not> stInTransaction u" using respond_all_good [OF assms(1) t assms(8)] by blast
  with replays.requests [OF assms(8)] show ?thesis
    using respond_replay [OF assms(5,2,4,6,7)] assms(9) by blast
qed

theorem create_replayed_forever_witness:
  "\<exists>b t. respond demoEnv foodCategory demoState = (ReplayResponse 201 b, t)
     \<and> (let u = snd (respond_all demoEnv [SettingsRequest GetSettings, foodCategory] t)
        in respond demoEnv foodCategory u = (ReplayResponse 201 b, u\<lparr>stBegins := Suc (stBegins u)\<rparr>))"
proof -
  obtain b t where run: "respond demoEnv foodCategory demoState = (ReplayResponse 201 b, t)"
    using demo_category by blast
  have "isCreate foodCategory" "\<not> isError (ReplayResponse 201 b)" "\<And>n. \<not> writeLockBusy demoEnv n"
    by (simp_all add: foodCategory_def addCategory_def run_host)
  from create_replayed_forever [OF demo_lower_ok demo_hash_ok demo_state_good this(1) run this(2) prod.collapse [symmetric] this(3)]
  show ?thesis using run by (auto simp only: Let_def)
qed

text \<open>
  C10. A key that has been used for one body is refused for any other: once a create has been
  answered, the same scope and key with a request of another fingerprint is answered by the conflict
  409, whatever mutation it asks for, and the database stays as it is.\<close>

theorem key_reuse_conflicts:
  assumes "hash_ok env" "\<not> stInTransaction s" "scope \<noteq> []" "key \<noteq> []"
    and "executeIdempotentLedgerCreate env scope key request mutation s = (Inr a, t)"
    and "recordsAppended (stDb t) (stDb u)" "\<not> stInTransaction u" "\<not> writeLockBusy env (stBegins u)"
    and "fingerprintLedgerMutation env request = Inr fp" "fingerprintLedgerMutation env request' = Inr fp'" "fp' \<noteq> fp"
  shows "executeIdempotentLedgerCreate env scope key request' mutation' u =
     (Inl (LedgerError LIdempotencyConflict 409), u\<lparr>stBegins := Suc (stBegins u)\<rparr>)"
  by (rule conflict_later [OF assms])

theorem key_reuse_conflicts_witness:
  "\<exists>t. executeIdempotentLedgerCreate demoEnv categoriesScope (js ''k1'')
       (categoryRequestJson \<lparr>ccKind = IncomeKind, ccName = js ''Other'', ccIcon = None\<rparr>)
       (createCategoryMutation demoEnv \<lparr>ccKind = IncomeKind, ccName = js ''Other'', ccIcon = None\<rparr>) t
       = (Inl (LedgerError LIdempotencyConflict 409), t\<lparr>stBegins := Suc (stBegins t)\<rparr>)
     \<and> length (dbCategories (stDb t)) = 1"
proof -
  let ?q = "\<lparr>ccKind = ExpenseKind, ccName = js ''Food'', ccIcon = None\<rparr>"
  let ?p = "\<lparr>ccKind = IncomeKind, ccName = js ''Other'', ccIcon = None\<rparr>"
  obtain a t where run: "executeIdempotentLedgerCreate demoEnv categoriesScope (js ''k1'') (categoryRequestJson ?q)
      (createCategoryMutation demoEnv ?q) demoState = (Inr a, t)"
    and t: "\<not> stInTransaction t" "length (dbCategories (stDb t)) = 1"
    using demo_create by blast
  have fp: "fingerprintLedgerMutation demoEnv (categoryRequestJson ?q) = Inr (demoHash (js ''{\"kind\":\"expense\",\"name\":\"Food\"}''))"
    "fingerprintLedgerMutation demoEnv (categoryRequestJson ?p) = Inr (demoHash (js ''{\"kind\":\"income\",\"name\":\"Other\"}''))"
    by (simp_all cong: run_congs let_weak_cong add: run_simps demoHash_def del: js_inject js_Nil)
  have "executeIdempotentLedgerCreate demoEnv categoriesScope (js ''k1'') (categoryRequestJson ?p) (createCategoryMutation demoEnv ?p) t =
      (Inl (LedgerError LIdempotencyConflict 409), t\<lparr>stBegins := Suc (stBegins t)\<rparr>)"
    by (rule key_reuse_conflicts [OF demo_hash_ok demo_state_good(2) _ _ run _ t(1) _ fp])
      (simp_all add: recordsAppended_def run_host demoHash_def js_def)
  with t(2) show ?thesis by blast
qed

text \<open>
  C11. A stale command is refused: a command on the settings, an account or a category, or the edit of
  a transaction, succeeds only if its body states, as \<open>expectedVersion\<close>, the version the object has in
  the ledger at that moment.\<close>

theorem command_needs_current_version:
  assumes "good env s" "\<not> stInTransaction s" "ledgerRoute env q s = (Inr r, t)"
    and "commandBody q = Some b" "\<not> (\<exists>i b'. q = TransactionRequest (DeleteTransaction i b'))"
  shows "\<exists>v w. b = Some v \<and> targetVersion q (view env (stDb s)) = Some w \<and> statesVersion v w"
  by (rule command_version [OF assms])

theorem command_needs_current_version_witness:
  "\<exists>v w. atVersion 1 = Some v \<and> targetVersion (restoreCash 1) (view demoEnv (stDb book)) = Some w \<and> statesVersion v w"
proof -
  obtain v t where "respond demoEnv (restoreCash 1) book = (JsonResponse 200 v, t)" using book_restore by blast
  then have "ledgerRoute demoEnv (restoreCash 1) book = (Inr (JsonResponse 200 v), t)"
    by (auto simp: respond_def withLedgerErrors_def ledgerErrorResponse_def split: prod.split_asm sum.split_asm failure.split_asm)
  then show ?thesis
    by (rule command_needs_current_version [OF book_good]) (simp_all add: restoreCash_def)
qed

text \<open>
  C12. A balance adjustment that succeeds found the balance its sender expected and leaves the
  account with exactly the target balance.\<close>

theorem adjustment_reaches_target:
  assumes "good env s" "adjustmentOk env q" "adjustAccountMutation env i q s = (Inr r, t)"
  shows "\<exists>a. accountOf (view env (stDb s)) i = Some a
    \<and> exactBalance (balanceAccount a) (lvTransactions (view env (stDb s))) = aqExpectedCalculatedBalanceMinor q
    \<and> exactBalance (balanceAccount a) (lvTransactions (view env (stDb t))) = aqTargetBalanceMinor q"
proof -
  obtain a where "accountOf (view env (stDb s)) i = Some a"
    and "exactBalance (balanceAccount a) (lvTransactions (view env (stDb s))) = aqExpectedCalculatedBalanceMinor q"
    by (rule adjust_cases [OF assms]) auto
  with adjust_target [OF assms] show ?thesis by auto
qed

theorem adjustment_reaches_target_witness:
  "\<exists>r t a. adjustAccountMutation demoEnv (js ''a1'') bookTarget book = (Inr r, t)
     \<and> exactBalance (balanceAccount a) (lvTransactions (view demoEnv (stDb book))) = 1500
     \<and> exactBalance (balanceAccount a) (lvTransactions (view demoEnv (stDb t))) = 1200"
proof -
  obtain r t where run: "adjustAccountMutation demoEnv (js ''a1'') bookTarget book = (Inr r, t)"
    and q: "adjustmentOk demoEnv bookTarget" using book_adjusts by blast
  from adjustment_reaches_target [OF book_good(1) q run] run show ?thesis by (auto simp: bookTarget_def)
qed

text \<open>
  C13. An account response shows the exact balance: \<open>currentBalanceMinor\<close> is the opening balance plus
  the natural effects of all its active transactions in the ledger.\<close>

theorem account_response_balance:
  assumes "good env s" "getAccountDto env i s = (Inr v, t)"
  shows "\<exists>a d. accountOf (view env (stDb s)) i = Some a \<and> v = JObj d \<and>
    getProp d ''currentBalanceMinor'' = JInt (exactBalance (balanceAccount a) (lvTransactions (view env (stDb s))))"
  by (rule account_response [OF assms])

theorem account_response_balance_witness:
  "\<exists>d. fst (getAccountDto demoEnv (js ''a1'') book) = Inr (JObj d) \<and> getProp d ''currentBalanceMinor'' = JInt 1500"
proof -
  obtain v where run: "getAccountDto demoEnv (js ''a1'') book = (Inr v, book)" using book_get by blast
  have acc: "accountOf (view demoEnv (stDb book)) (js ''a1'') = Some (storedAccount bookAccount)"
    by (simp add: book_view accountOf_def) (simp add: bookAccount_def)
  have "exactBalance (balanceAccount (storedAccount bookAccount)) [bookIncome] = 1500"
    by (simp add: exactBalance_def balanceAccount_def naturalEffect_def bookIncome_def newTransaction_def bookAccount_def)
  with account_response_balance [OF book_good(1) run] acc run show ?thesis by (auto simp: book_view)
qed

text \<open>
  C14. Value is conserved: after any requests the net worth of the ledger, assets minus
  liabilities, is the signed sum of the opening balances plus incomes minus expenses plus signed
  adjustments; transfers and deleted transactions contribute nothing.\<close>

theorem net_worth_conserved:
  assumes "lower_ok env"
  shows "netWorth (map balanceAccount (lvAccounts (ledgerAfter env qs))) (lvTransactions (ledgerAfter env qs)) =
    (\<Sum>a\<leftarrow>lvAccounts (ledgerAfter env qs). natureSign (accNature a) * accOpeningBalanceMinor a)
    + (\<Sum>t\<leftarrow>filter activeTx (lvTransactions (ledgerAfter env qs)).
         netChange (map balanceAccount (lvAccounts (ledgerAfter env qs))) (txBody t) (txAmountMinor t))"
  by (rule netWorth_after [OF assms])

theorem net_worth_conserved_witness:
  "let v = ledgerAfter demoEnv demoRequests
   in netWorth (map balanceAccount (lvAccounts v)) (lvTransactions v) =
      (\<Sum>a\<leftarrow>lvAccounts v. natureSign (accNature a) * accOpeningBalanceMinor a)
      + (\<Sum>t\<leftarrow>filter activeTx (lvTransactions v). netChange (map balanceAccount (lvAccounts v)) (txBody t) (txAmountMinor t))"
  unfolding Let_def by (rule net_worth_conserved [OF demo_lower_ok])

text \<open>
  C15. The balance aggregate of the repository, a \<open>SUM\<close> of a SQL \<open>CASE\<close> over the active rows of an
  account before an instant, agrees with the balance the TypeScript code derives: when it
  returns, it returns the exact balance of the transactions before the instant.\<close>

theorem sql_balance_exact:
  assumes "wf_db env db" "getAccountBalanceBefore a before db = Inr b"
  shows "b = exactBalance a (filter (\<lambda>t. txOccurredAt t < before) (lvTransactions (view env db))) \<and> safeInt b"
proof -
  have "aggregateBalance a (occurredIn None (Some before)) db = Inr b"
    using assms(2) by (auto simp: getAccountBalanceBefore_def led_simps)
  from aggregateBalance_exact [OF assms(1) _ this, of "\<lambda>t. txOccurredAt t < before"] show ?thesis
    by (simp add: occurredIn_def)
qed

theorem sql_balance_exact_witness:
  "exactBalance (balanceAccount bookAccount) (filter (\<lambda>t. txOccurredAt t < 1700000000000) (lvTransactions (view demoEnv (stDb book))))
     = 1500"
proof -
  have t: "activeTx bookIncome" "touches bookIncome (js ''a1'')" "txOccurredAt bookIncome = 1690000000000"
    "validBody None (txAmountMinor bookIncome) (txBody bookIncome)" "txAmountMinor bookIncome = 1000"
    "netEffect (txBody bookIncome) 1000 (js ''a1'') Asset = 1000"
    by (simp_all add: bookIncome_def newTransaction_def activeTx_def touches_def)
  have ref: "refId (balanceAccount bookAccount) = js ''a1''" "refNature (balanceAccount bookAccount) = Asset"
    "refOpeningBalanceMinor (balanceAccount bookAccount) = 500"
    by (simp_all add: balanceAccount_def bookAccount_def)
  have nums: "safeInt 500" "safeInt 1000" "safeInt 1700000000000" "dround 1000 = 1000"
    using dround_exact [of 1000] by (simp_all add: safeInt_def MAX_SAFE_INTEGER_def)
  have "getAccountBalanceBefore (balanceAccount bookAccount) 1700000000000 (stDb book) = Inr 1500"
    using t ref nums book_sums accountTransactionEffect_params [OF t(4), of "js ''a1''" Asset]
    by (simp add: getAccountBalanceBefore_def aggregateBalance_def accountBalanceFromEffect_def sqlSum_def book_def
        occurredIn_def bindR_def failUnless_def assertSafeMinor_def)
  from sql_balance_exact [OF book_wf this] show ?thesis by simp
qed

text \<open>
  The search of a transaction listing finds exactly the substrings: with its escaping of
  backslash, percent and underscore, the \<open>LIKE\<close> pattern matches a text if and only if the text contains
  the search words, ASCII letters compared without case.\<close>

theorem search_is_substring:
  "sqlLike (searchPattern p) s \<longleftrightarrow> (\<exists>u v w. s = u @ v @ w \<and> map asciiLower v = map asciiLower p)"
  by (rule search_substring)

text \<open>
  Paging by cursor neither skips nor repeats: the query with the position of the n-th row as
  its cursor returns the rows that follow the n-th row of the whole listing.\<close>

theorem cursor_continues_listing:
  assumes "distinct (map rt_id (dbTransactions db))" "\<forall>r\<in>set (dbTransactions db). isTextCell (rt_id r)"
    and "qoCursor opts = None" "qoOffset opts = None"
    and "ys = orderBy transactionOrder (filter (transactionQueryFilter db opts True False) (dbTransactions db))"
    and "0 < n" "n \<le> length ys"
  shows "queryTransactions env (opts\<lparr>qoCursor := Some (rowPosition (ys ! (n - 1)))\<rparr>) db
    = mapR (ledgerTransactionFromRow env) (take (nat (qoLimit opts + 1)) (drop n ys))"
  by (rule cursor_page [OF assms])

theorem cursor_continues_listing_witness:
  "let opts = \<lparr>qoType = AllTypes, qoAccountId = None, qoCategoryId = None, qoGroupId = None, qoFrom = None, qoTo = None,
         qoSearch = None, qoIncludeDeleted = False, qoLimit = 10, qoOffset = None, qoCursor = None\<rparr>
   in queryTransactions demoEnv (opts\<lparr>qoCursor := Some (rowPosition (transactionParams bookIncome))\<rparr>) (stDb book) = Inr []"
proof -
  let ?opts = "\<lparr>qoType = AllTypes, qoAccountId = None, qoCategoryId = None, qoGroupId = None, qoFrom = None, qoTo = None,
         qoSearch = None, qoIncludeDeleted = False, qoLimit = 10, qoOffset = None, qoCursor = None\<rparr>"
  have all: "orderBy transactionOrder (filter (transactionQueryFilter (stDb book) ?opts True False) (dbTransactions (stDb book)))
      = [transactionParams bookIncome]"
    by (simp add: book_def transactionQueryFilter_def filterTypeMatches_def optMatches_def occurredIn_def activeTx_def
        bookIncome_def newTransaction_def)
  have "queryTransactions demoEnv (?opts\<lparr>qoCursor := Some (rowPosition ([transactionParams bookIncome] ! (1 - 1)))\<rparr>) (stDb book)
      = mapR (ledgerTransactionFromRow demoEnv) (take (nat (qoLimit ?opts + 1)) (drop 1 [transactionParams bookIncome]))"
    by (rule cursor_continues_listing [OF _ _ _ _ all [symmetric]]) (simp_all add: book_def isTextCell_def transactionParams_def)
  then show ?thesis by simp
qed

section \<open>Reading the ledger\<close>

text \<open>
  C16. The overview is exact: its asset and liability totals are the sums of the exact balances of all
  accounts, archived ones included, and its net worth is the net worth of the ledger.\<close>

theorem overview_net_worth:
  assumes "good env s" "getOverview env scope anchor s = (Inr d, t)"
  shows "ovAssetTotalMinor d = natureTotal Asset (view env (stDb s))
    \<and> ovLiabilityTotalMinor d = natureTotal Liability (view env (stDb s))
    \<and> ovNetWorthMinor d = netWorth (map balanceAccount (lvAccounts (view env (stDb s)))) (lvTransactions (view env (stDb s)))"
  using overview_totals [OF assms] by (simp add: netWorth_totals)

theorem overview_net_worth_witness:
  "netWorth (map balanceAccount (lvAccounts (view demoEnv (stDb book)))) (lvTransactions (view demoEnv (stDb book))) = 1500"
proof -
  obtain d t where run: "getOverview demoEnv AllScope None book = (Inr d, t)" "ovNetWorthMinor d = 1500"
    using book_overview by blast
  from overview_net_worth [OF book_good(1) run(1)] run(2) show ?thesis by simp
qed

text \<open>
  C17. The breakdown by category partitions the cashflow of the scope: of the active transactions before the end of
  the anchor day, or within the period asked for, the slices of a kind name each category that occurs once, largest
  amount first; every slice is the total of its category over exactly these transactions; and the slices sum up to
  the income or the expense of the overview, whose balance is their difference.\<close>

theorem breakdown_partitions_cashflow:
  assumes "good env s" "getOverview env scope anchor s = (Inr d, t)"
  shows "\<exists>x now rs. lvSettings (view env (stDb s)) = Some x \<and> nowFn env (stNow s) = JInt now
     \<and> ledgerLocalDateForInstant env now (setTimezone x) = Inr (ovTodayDate d)
     \<and> resolveAnchorDate env anchor (ovTodayDate d) = Inr (ovAnchorDate d)
     \<and> periodRangesForLocalDate env (ovAnchorDate d) (setTimezone x) = Inr rs
     \<and> breakdownOf IncomeKind (scopedActive scope rs (view env (stDb s))) (ovIncomeSlices d)
     \<and> breakdownOf ExpenseKind (scopedActive scope rs (view env (stDb s))) (ovExpenseSlices d)
     \<and> (\<Sum>c\<leftarrow>ovIncomeSlices d. slAmountMinor c) = cfIncomeMinor (ovCashflow d)
     \<and> (\<Sum>c\<leftarrow>ovExpenseSlices d. slAmountMinor c) = cfExpenseMinor (ovCashflow d)
     \<and> cfBalanceMinor (ovCashflow d) = cfIncomeMinor (ovCashflow d) - cfExpenseMinor (ovCashflow d)"
  by (rule overview_breakdown [OF assms])

theorem breakdown_partitions_cashflow_witness:
  "\<exists>d. fst (getOverview demoEnv AllScope None book) = Inr d \<and> breakdownOf IncomeKind [bookIncome] (ovIncomeSlices d)
     \<and> (\<Sum>c\<leftarrow>ovIncomeSlices d. slAmountMinor c) = cfIncomeMinor (ovCashflow d)"
proof -
  obtain d t where run: "getOverview demoEnv AllScope None book = (Inr d, t)" using book_overview by blast
  from breakdown_partitions_cashflow [OF book_good(1) run] obtain x now rs where r: "lvSettings (view demoEnv (stDb book)) = Some x"
    "nowFn demoEnv (stNow book) = JInt now" "ledgerLocalDateForInstant demoEnv now (setTimezone x) = Inr (ovTodayDate d)"
    "resolveAnchorDate demoEnv None (ovTodayDate d) = Inr (ovAnchorDate d)"
    "periodRangesForLocalDate demoEnv (ovAnchorDate d) (setTimezone x) = Inr rs"
    and b: "breakdownOf IncomeKind (scopedActive AllScope rs (view demoEnv (stDb book))) (ovIncomeSlices d)"
      "(\<Sum>c\<leftarrow>ovIncomeSlices d. slAmountMinor c) = cfIncomeMinor (ovCashflow d)" by blast
  have "now = 1700000000000" using r(2) book_state(3) by (simp add: captureNow_iff)
  moreover have zone: "setTimezone x = js ''UTC''" using r(1) by (auto simp: book_view book_terms)
  ultimately have day: "ovAnchorDate d = js ''2023-11-14''"
    using r(3,4) by (auto simp: demo_local resolveAnchorDate_def)
  have rs: "endMs (todayR rs) = 1700006400000"
    using r(5) unfolding day zone demo_periods by auto
  have "scopedActive AllScope rs (view demoEnv (stDb book)) = [bookIncome]"
    by (simp add: scopedActive_def book_view book_entry rs)
  with b run show ?thesis by simp
qed

text \<open>
  C18. The balance trend of an account is exact, although it is computed in one pass from a prefix balance:
  its last point is the exact balance of everything up to the present, and when the days follow each
  other every point is the exact balance before the end of its day.\<close>

theorem balance_trend_exact:
  assumes "good env s" "getAccountBalanceTrend env i days s = (Inr (days', points), t)"
  shows "\<exists>a x now cps. accountOf (view env (stDb s)) i = Some a \<and> nowFn env (stNow s) = JInt now
    \<and> lvSettings (view env (stDb s)) = Some x
    \<and> calendarDayPointsForInstant env days (if days \<le> 30 then days else 12) now (setTimezone x) = Inr cps
    \<and> points \<noteq> [] \<and> btBalanceMinor (last points)
       = exactBalance (balanceAccount a) (filter (\<lambda>t. txOccurredAt t < now + 1) (lvTransactions (view env (stDb s))))
    \<and> (daysInOrder env (setTimezone x) (now + 1) cps \<longrightarrow> length points = length cps \<and> (\<forall>k<length cps.
        btDate (points ! k) = cpDate (cps ! k) \<and> btBalanceMinor (points ! k) = exactBalance (balanceAccount a)
          (filter (\<lambda>t. txOccurredAt t < cutoffOf env (setTimezone x) (now + 1) cps k) (lvTransactions (view env (stDb s))))))"
proof -
  obtain x a now cps ts b where r: "lvSettings (view env (stDb s)) = Some x" "accountOf (view env (stDb s)) i = Some a"
    "nowFn env (stNow s) = JInt now" "utcOk env now" "cps \<noteq> []"
    "calendarDayPointsForInstant env days (if days \<le> 30 then days else 12) now (setTimezone x) = Inr cps"
    "listActiveTransactionsForAccountInRange env (accId a) (cpStartMs (hd cps)) (now + 1) (stDb s) = Inr ts"
    "getAccountBalanceBefore (balanceAccount a) (cpStartMs (hd cps)) (stDb s) = Inr b"
    "accountBalanceTrend env a b ts cps now (setTimezone x) = Inr points"
    by (rule balanceTrend_run [OF assms])
  from accountBalanceTrend_exact [OF good_wf [OF assms(1)] r(4,5,7-9)] r(1-3,6) show ?thesis by blast
qed

theorem balance_trend_exact_witness:
  "\<exists>points. fst (getAccountBalanceTrend demoEnv (js ''a1'') 2 book) = Inr (2, points) \<and> length points = 2
     \<and> btBalanceMinor (points ! 0) = exactBalance (balanceAccount (storedAccount bookAccount))
         (filter (\<lambda>t. txOccurredAt t < 1699920000000) (lvTransactions (view demoEnv (stDb book))))"
proof -
  have zone: "lvSettings (view demoEnv (stDb book)) = Some x \<Longrightarrow> setTimezone x = js ''UTC''" for x
    by (auto simp: book_view book_terms)
  have acc: "accountOf (view demoEnv (stDb book)) (js ''a1'') = Some (storedAccount bookAccount)"
    by (simp add: book_view accountOf_def book_terms)
  have now: "nowFn demoEnv (stNow book) = JInt 1700000000000" by (simp add: run_host book_def initial_state_def)
  have cut: "cutoffOf demoEnv (js ''UTC'') 1700000000001 [\<lparr>cpDate = js ''2023-11-13'', cpStartMs = 1699833600000\<rparr>,
      \<lparr>cpDate = js ''2023-11-14'', cpStartMs = 1699920000000\<rparr>] 0 = 1699920000000"
    by (simp add: cutoffOf_def decoded_def demo_points)
  have order: "daysInOrder demoEnv (js ''UTC'') 1700000000001 [\<lparr>cpDate = js ''2023-11-13'', cpStartMs = 1699833600000\<rparr>,
      \<lparr>cpDate = js ''2023-11-14'', cpStartMs = 1699920000000\<rparr>]"
    using cut by (simp add: daysInOrder_def) (simp add: cutoffOf_def)
  from balance_trend_exact [OF book_good(1) book_trend] obtain x cps where x: "lvSettings (view demoEnv (stDb book)) = Some x"
    and cps: "calendarDayPointsForInstant demoEnv 2 2 1700000000000 (setTimezone x) = Inr cps"
    and pts: "daysInOrder demoEnv (setTimezone x) 1700000000001 cps \<longrightarrow> length cps = 2 \<and> (\<forall>k<length cps.
      btBalanceMinor ([\<lparr>btDate = js ''2023-11-13'', btTimestamp = 1699920000000, btBalanceMinor = 1500\<rparr>,
      \<lparr>btDate = js ''2023-11-14'', btTimestamp = 1700000000000, btBalanceMinor = 1500\<rparr>] ! k)
      = exactBalance (balanceAccount (storedAccount bookAccount)) (filter (\<lambda>t. txOccurredAt t <
         cutoffOf demoEnv (setTimezone x) 1700000000001 cps k) (lvTransactions (view demoEnv (stDb book)))))"
    unfolding acc now by auto
  have "cps = [\<lparr>cpDate = js ''2023-11-13'', cpStartMs = 1699833600000\<rparr>, \<lparr>cpDate = js ''2023-11-14'', cpStartMs = 1699920000000\<rparr>]"
    using cps unfolding zone [OF x] demo_points by simp
  with pts order cut show ?thesis by (auto simp: book_trend zone [OF x] dest!: spec [of _ "0::nat"])
qed

text \<open>
  C19. The balances beside the rows of an account page are exact: each is the balance of the account
  after all transactions up to and including its row in the order of the ledger, and the account
  is shown with the balance of everything that has occurred.\<close>

theorem running_balances_exact:
  assumes "good env s" "getAccountTransactions env i q s = (Inr d, t)"
  shows "\<exists>a now b. accountOf (view env (stDb s)) i = Some a \<and> nowFn env (stNow s) = JInt now
    \<and> b = exactBalance (balanceAccount a) (filter (\<lambda>t. txOccurredAt t < now + 1) (lvTransactions (view env (stDb s))))
    \<and> accountDto a b = Inr (atAccount d)
    \<and> (\<forall>(j, b)\<in>set (atTransactionBalances d). \<exists>t\<in>set (lvTransactions (view env (stDb s))).
         txId t = j \<and> b = runningBalance a t (lvTransactions (view env (stDb s))))"
  by (rule accountTransactions_exact [OF assms])

theorem running_balances_exact_witness:
  "runningBalance (storedAccount bookAccount) bookIncome (lvTransactions (view demoEnv (stDb book))) = 1500"
proof -
  obtain d t where run: "getAccountTransactions demoEnv (js ''a1'') bookQuery book = (Inr d, t)"
    "atTransactionBalances d = [(js ''t1'', 1500)]" using book_account_page by blast
  have acc: "accountOf (view demoEnv (stDb book)) (js ''a1'') = Some (storedAccount bookAccount)"
    by (simp add: book_view accountOf_def book_terms)
  have "txId bookIncome = js ''t1''" by (simp add: bookIncome_def newTransaction_def)
  moreover have "\<exists>t\<in>set (lvTransactions (view demoEnv (stDb book))). txId t = js ''t1''
      \<and> 1500 = runningBalance (storedAccount bookAccount) t (lvTransactions (view demoEnv (stDb book)))"
    using running_balances_exact [OF book_good(1) run(1)] unfolding acc run(2) by auto
  ultimately show ?thesis by (simp add: book_view)
qed

text \<open>
  C20. Following the cursors of a listing visits every matching transaction exactly once, in the order
  of the ledger, and ends: with as much fuel as the table has rows the pages, put together, are the
  whole listing.\<close>

theorem pages_cover_listing:
  assumes "wf_db env (stDb s)" "distinct (map rt_id (dbTransactions (stDb s)))"
    and "limitOk q" "lqOffset q = None" "lqCursor q = None"
    and "\<forall>t\<in>set (lvTransactions (view env (stDb s))). cursorCodec env t"
    and "length (dbTransactions (stDb s)) < fuel"
  shows "followPages env q fuel s = Some (wholeListing env q (stDb s))"
proof -
  have "length (wholeRows q (stDb s)) \<le> length (dbTransactions (stDb s))" by (simp add: wholeRows_def)
  moreover have "q\<lparr>lqCursor := None\<rparr> = q" using assms(5) by (cases q) simp
  ultimately show ?thesis
    using followPages_whole [OF assms(1,4,3,6,2), of 0 fuel] assms(7) by (simp add: continued_def)
qed

theorem pages_cover_listing_witness:
  "followPages pagesEnv (bookQuery\<lparr>lqLimit := 1\<rparr>) 3 pagesState = Some [laterIncome, bookIncome]"
proof -
  have "distinct (map rt_id (dbTransactions (stDb pagesState)))"
    by (simp add: pagesState_def transactionParams_def bookIncome_def laterIncome_def newTransaction_def)
  moreover have "length (dbTransactions (stDb pagesState)) < 3" by (simp add: pagesState_def)
  moreover have "limitOk (bookQuery\<lparr>lqLimit := 1\<rparr>)" "lqOffset (bookQuery\<lparr>lqLimit := 1\<rparr>) = None"
    "lqCursor (bookQuery\<lparr>lqLimit := 1\<rparr>) = None"
    by (simp_all add: limitOk_def bookQuery_def LEDGER_LIST_LIMIT_MAX_def)
  moreover have "\<forall>t\<in>set (lvTransactions (view pagesEnv (stDb pagesState))). cursorCodec pagesEnv t"
    using pages_codec by (simp add: pages_view)
  ultimately show ?thesis using pages_cover_listing [OF pages_wf] pages_listing by metis
qed

text \<open>
  The totals of a listing are those of the whole listing, whatever page is asked for: the number
  of all matching transactions and their exact income and expense.\<close>

theorem listing_totals_exact:
  assumes "good env s" "listTransactions env q s = (Inr (dtos, page), t)"
  shows "\<exists>u. pgSummary page = Some u \<and> suTotal u = int (length (wholeListing env q (stDb s)))
    \<and> suIncomeMinor u = sum_list (amountsOf IncomeType (wholeListing env q (stDb s)))
    \<and> suExpenseMinor u = sum_list (amountsOf ExpenseType (wholeListing env q (stDb s)))"
  by (rule listing_summary [OF assms])

theorem listing_totals_exact_witness:
  "\<exists>dtos page u. fst (listTransactions demoEnv bookQuery book) = Inr (dtos, page) \<and> pgSummary page = Some u
     \<and> suTotal u = int (length (wholeListing demoEnv bookQuery (stDb book)))"
proof -
  obtain dtos page t where run: "listTransactions demoEnv bookQuery book = (Inr (dtos, page), t)" using book_listing by blast
  from listing_totals_exact [OF book_good(1) run] run show ?thesis by auto
qed

text \<open>
  The monthly trend loses nothing: when the months follow each other, the balances of its points add
  up to the income minus the expense of all transactions between the start of the first month and
  the end of the last.\<close>

theorem trend_conserves_balance:
  assumes "calendarMonthRangesForLocalDate env n date tz = Inr rs" "contiguous rs" "rs \<noteq> []"
    and "trendForRanges rs ts = Inr ps"
  shows "(\<Sum>p\<leftarrow>ps. cfBalanceMinor p)
    = netAmount (filter (\<lambda>t. startMs (hd rs) \<le> txOccurredAt t \<and> txOccurredAt t < endMs (last rs)) ts)"
  by (rule trend_balance [OF assms(4,2,3)])

theorem trend_conserves_balance_witness:
  "\<exists>rs ps. calendarMonthRangesForLocalDate demoEnv 12 (js ''2023-11-14'') (js ''UTC'') = Inr rs
     \<and> trendForRanges rs [bookIncome] = Inr ps \<and> (\<Sum>p\<leftarrow>ps. cfBalanceMinor p) = 1000"
proof -
  obtain rs where rs: "calendarMonthRangesForLocalDate demoEnv 12 (js ''2023-11-14'') (js ''UTC'') = Inr rs"
    "length rs = 12" "contiguous rs" "startMs (hd rs) = 1669852800000" "endMs (last rs) = 1701388800000"
    using demo_months by blast
  obtain ps where ps: "trendForRanges rs [bookIncome] = Inr ps" using book_flows(1) by blast
  have "rs \<noteq> []" using rs(2) by auto
  from trend_conserves_balance [OF rs(1,3) this ps] rs ps show ?thesis
    by (auto simp: book_entry netAmount_def amountsOf_def)
qed

section \<open>Authentication\<close>

text \<open>
  C21. A request under \<open>/api\<close> reaches its handler only if its endpoint is public, or its cookie is the token of an
  unrevoked, unexpired session of the enabled owner; and an unsafe method only from the public origin or without
  an \<open>Origin\<close>, not cross-site, and with a JSON body where it has one.\<close>

theorem protected_needs_session:
  assumes "auth_step env e sys = (sys', Handled r who)" and "\<not> isPublicEndpoint (textUpper (rqMethod r)) (rqPath r)"
  shows "(\<exists>t owner row. who = Some (safeUser owner, srId row) \<and> ownerRow (svDb (serviceOf sys)) = Some owner
      \<and> selectSessionToken (rqCookies r) (rtConfig (syRuntime sys)) = Some t \<and> srTokenHash row = aeSha256 env t
      \<and> session_valid (svDb (serviceOf sys)) row (aeNow env (svClock (serviceOf sys))))
    \<and> (isUnsafeMethod (textUpper (rqMethod r)) \<longrightarrow>
        header r ''origin'' \<in> {None, Some (publicOrigin (rtConfig (syRuntime sys)))}
        \<and> map_option (aeLower env) (header r ''sec-fetch-site'') \<noteq> Some (js ''cross-site'')
        \<and> (requestHasBody r \<and> requiresJsonBody (textUpper (rqMethod r)) (rqPath r) \<longrightarrow> hasJsonContentType r))"
proof -
  from auth_step_Handled [OF assms(1)] obtain rt
    where b: "authBoundary env r (Some (syRuntime sys)) = (Some rt, Forwarded who)" by blast
  obtain user i where who: "who = Some (user, i)"
    using boundary_public [of env r "Some (syRuntime sys)" "Some rt"] b assms(2) by (cases who) auto
  note f = boundary_forwarded [OF b [unfolded who]]
  show ?thesis using f(1) mutationRefused_None [OF f(2)] by (auto simp: who)
qed

theorem protected_needs_session_witness:
  "\<exists>t row. selectSessionToken (rqCookies (demoRequest ''GET'' ''/api/board'' None)) authConfig = Some t
     \<and> srTokenHash row = aeSha256 authEnv t \<and> session_valid ownedDb row 0"
proof -
  let ?r = "demoRequest ''GET'' ''/api/board'' None"
  obtain rt where "authBoundary authEnv ?r (Some (demoRuntime ownedDb None))
      = (Some rt, Forwarded (Some (safeUser ownerUser, 1)))" using demo_forwarded by blast
  then have "auth_step authEnv (Request ?r) ownedSystem
      = (ownedSystem\<lparr>syRuntime := rt\<rparr>, Handled ?r (Some (safeUser ownerUser, 1)))"
    by (simp add: serveRequest_def ownedSystem_def authRoute_def demoRequest_def Let_def)
  moreover have "\<not> isPublicEndpoint (textUpper (rqMethod ?r)) (rqPath ?r)"
    by (simp add: demoRequest_def isPublicEndpoint_def textUpper_def PUBLIC_ENDPOINTS_def js_def)
  ultimately have "\<exists>t owner row. selectSessionToken (rqCookies ?r) (rtConfig (syRuntime ownedSystem)) = Some t
      \<and> srTokenHash row = aeSha256 authEnv t
      \<and> session_valid (svDb (serviceOf ownedSystem)) row (aeNow authEnv (svClock (serviceOf ownedSystem)))"
    using protected_needs_session by blast
  then show ?thesis by (simp add: ownedSystem_def demoRuntime_def demoService_def)
qed

text \<open>
  C22. A session that has ended is never served again. At any later moment, whatever requests, key derivations,
  logouts and clean-ups came in between, in any order, a handler runs in the name of a session only if the session was
  stored and unrevoked at the earlier moment, and the clock now reads less than the expiry it had then. So one that
  was revoked or removed is never served, and one that had expired could be only if the clock were set back.\<close>

theorem ended_session_never_served:
  assumes "auth_boot env db config token opts = Some sys0" and "auth_db_ok db" and "auth_run env es sys0 = (sys, outs)"
    and "i \<le> adbSessionSeq (svDb (serviceOf sys))"
    and "auth_run env later sys = (mid, outs')" and "auth_step env e mid = (sys', Handled r (Some (u, i)))"
  shows "\<exists>row\<in>set (adbSessions (svDb (serviceOf sys))). srId row = i \<and> srRevokedAt row = None
    \<and> aeNow env (svClock (serviceOf mid)) < srExpiresAt row"
proof -
  have "service_ok (serviceOf sys)"
    using auth_boot_ok [OF assms(1,2)] auth_run_progresses [OF assms(3)] by (simp add: progresses_def)
  then show ?thesis by (rule served_was_alive [OF _ assms(5,6,4)])
qed

theorem ended_session_never_served_witness:
  "\<exists>row\<in>set (adbSessions ownedDb). srId row = 1 \<and> srRevokedAt row = None \<and> 0 < srExpiresAt row"
proof -
  obtain sys where "auth_step authEnv (Request (demoRequest ''GET'' ''/api/board'' None)) ownedSystem
      = (sys, Handled (demoRequest ''GET'' ''/api/board'' None) (Some (safeUser ownerUser, 1)))" using demo_served by blast
  from ended_session_never_served [OF owned_boot ownedDb_ok auth_run.simps(1) _ auth_run.simps(1) this] show ?thesis
    by (simp add: ownedSystem_def demoRuntime_def demoService_def ownedDb_def)
qed

text \<open>
  C23. After a logout has been answered, the session its cookie stood for is never served again: if the cookie was
  that of a served session when the logout arrived, the logout, once it is done waiting for the diary, answers
  \<open>204\<close>, whatever happened while it waited, and no handler runs in the name of the session from then on.\<close>

theorem logout_ends_session:
  assumes "auth_boot env db config token opts = Some sys0" and "auth_db_ok db" and "auth_run env es sys0 = (sys, outs)"
    and "authBoundary env r0 (Some (syRuntime sys)) = (rt', Forwarded (Some (u, i)))"
    and "rqMethod r = js ''POST''" and "rqPath r = js ''/api/auth/logout''" and "rqCookies r = rqCookies r0"
    and "auth_step env (Request r) sys = (sys1, Suspended)" and "auth_run env meanwhile sys1 = (sys2, outs1)"
    and "k < length (syWaiting sys2)" and "syWaiting sys2 ! k = last (syWaiting sys1)"
    and "auth_step env (Resume k) sys2 = (sys3, out)" and "auth_run env later sys3 = (sys4, outs2)"
  shows "(\<exists>resp. out = Responded resp \<and> hrStatus resp = 204) \<and> Handled q (Some (v, i)) \<notin> set outs2"
proof -
  have "service_ok (serviceOf sys)"
    using auth_boot_ok [OF assms(1,2)] auth_run_progresses [OF assms(3)] by (simp add: progresses_def)
  then show ?thesis by (rule logout_ends [OF _ assms(4-13)])
qed

theorem logout_ends_session_witness:
  "\<exists>sys. syWaiting sys = [\<lparr>wqJob = None, wqWork = AwaitLogout (js ''token'')\<rparr>]
     \<and> Handled (demoRequest ''GET'' ''/api/board'' None) (Some (safeUser ownerUser, 1))
       \<notin> set (snd (auth_run authEnv [Request (demoRequest ''GET'' ''/api/board'' None)] (fst (auth_step authEnv (Resume 0) sys))))"
proof -
  obtain sys where out: "auth_step authEnv (Request (demoRequest ''POST'' ''/api/auth/logout'' None)) ownedSystem
      = (sys, Suspended)" and w: "syWaiting sys = [\<lparr>wqJob = None, wqWork = AwaitLogout (js ''token'')\<rparr>]" using demo_logout by blast
  obtain rt where "authBoundary authEnv (demoRequest ''GET'' ''/api/board'' None) (Some (syRuntime ownedSystem))
      = (Some rt, Forwarded (Some (safeUser ownerUser, 1)))" using demo_forwarded by (auto simp: ownedSystem_def)
  note ends = logout_ends_session [OF owned_boot ownedDb_ok auth_run.simps(1) this _ _ _ out auth_run.simps(1) _ _
      prod.collapse [symmetric] prod.collapse [symmetric], of 0]
  show ?thesis by (rule exI [of _ sys]) (intro conjI w conjunct2 [OF ends]; simp add: w demoRequest_def)
qed

text \<open>
  C24. An instance is set up once: along any history at most one request is answered \<open>201\<close>, none if the
  database already names an owner, and an owner stays the owner.\<close>

theorem single_owner:
  assumes "auth_boot env db config token opts = Some sys0" and "auth_db_ok db" and "auth_run env es sys0 = (sys, outs)"
  shows "length (filter isCreated outs) \<le> (if adbInstance db = None then 1 else 0)
    \<and> (ownerRow (svDb (serviceOf sys0)) = Some u \<longrightarrow> ownerRow (svDb (serviceOf sys)) = Some u)"
  using auth_boot_ok [OF assms(1,2)] created_once [OF _ assms(3)] owner_stays [OF _ _ assms(3)] by metis

theorem single_owner_witness:
  "length (filter isCreated (snd (auth_run authEnv [Request (demoRequest ''GET'' ''/api/auth/status'' None)] freshSystem))) \<le> 1"
  by (rule order_trans [OF conjunct1 [OF single_owner [OF fresh_boot fresh_ok prod.collapse [symmetric]]]]) simp

text \<open>
  C25. The password of the setup opens the owner's sessions and, up to collisions of the key derivation, no other
  does: whatever happened in between, a login with the owner's name succeeds exactly when its password
  derives, with the stored salt, the key that was stored.\<close>

theorem login_password_exact:
  assumes "crypto_ok env"
    and "setupStart env tok u p s0 = (s1, Inr ps)"
    and "setupFinish env ps kdf s2 = (s3, Inr (user, created))" and "auth_db_ok (svDb s2)"
    and "adbUsers (svDb t) = adbUsers (svDb s3)" and "adbInstance (svDb t) = adbInstance (svDb s3)"
    and "loginStart env u q t = (t1, Inr pend)"
    and "hashSessionToken env (generateSessionToken env (svDraws t2)) \<notin> srTokenHash ` set (adbSessions (svDb t2))"
    and "adbUsers (svDb t2) = adbUsers (svDb t)"
  shows "(\<exists>t3 made. loginFinish env pend (Some (Resolved ())) t2 = (t3, Inr (user, made)))
    \<longleftrightarrow> (\<exists>pw. q = JStr pw \<and> aeScrypt env pw (psSalt ps) = aeScrypt env (psPassword ps) (psSalt ps))"
  by (rule login_after_setup [OF assms])

theorem login_password_exact_witness:
  "\<exists>pend t3 user made. loginStart authEnv (JStr (js ''owner'')) (JStr demoPassword) ownerState = (ownerState, Inr pend)
     \<and> loginFinish authEnv pend (Some (Resolved ())) ownerState = (t3, Inr (user, made))"
proof -
  obtain u created where f: "setupFinish authEnv demoSetup (Resolved ()) setupState = (ownerState, Inr (u, created))"
    using setup_finished(1) by blast
  obtain pend where l: "loginStart authEnv (JStr (js ''owner'')) (JStr demoPassword) ownerState = (ownerState, Inr pend)"
    using demo_login_start by blast
  have fresh: "hashSessionToken authEnv (generateSessionToken authEnv (svDraws ownerState))
      \<notin> srTokenHash ` set (adbSessions (svDb ownerState))"
    using demo_tokens_differ by (simp add: setup_finished(2,4))
  have "auth_db_ok (svDb setupState)" using fresh_ok by (simp add: setup_started(2))
  from login_password_exact [OF authEnv_ok setup_started(1) f this refl refl l fresh refl] l show ?thesis
    by (auto simp: demoSetup_def)
qed

text \<open>
  C26. Password work is bounded and accounted for: in every state the guard reaches, at most \<open>concurrency\<close> jobs are
  active and \<open>maxQueue\<close> wait, none waits while a slot is free, and every job ever submitted is in exactly one
  place: waiting, running, or settled once.\<close>

theorem password_jobs_accounted:
  assumes "kdf_reachable opts g"
  shows "kgActive g \<le> concurrency g \<and> length (kgQueue g) \<le> maxQueue g
    \<and> (kgQueue g = [] \<or> kgActive g = concurrency g)
    \<and> distinct (waiting g @ kgRunning g @ map fst (kgSettled g))
    \<and> set (waiting g @ kgRunning g @ map fst (kgSettled g)) = {..<kgNext g}"
  using kdf_reachable_ok [OF assms] by (auto simp: kdf_ok_def kdf_slots_def kdf_places_def kdf_busy_def placed_def)

theorem password_jobs_accounted_witness:
  "kgActive busyGuard \<le> concurrency busyGuard \<and> distinct (waiting busyGuard @ kgRunning busyGuard @ map fst (kgSettled busyGuard))"
  using password_jobs_accounted [OF busy_reachable] by simp

text \<open>
  C27. Waiting is bounded: once as many slots have been freed as jobs were ahead, and one more, a waiting job
  runs or is settled, whatever other requests arrive, abort or time out meanwhile.\<close>

theorem waiting_job_served:
  assumes "kdf_reachable opts g" and "j \<in> set (waiting g)" and "ahead j g < slotsFreed g es"
  shows "j \<in> set (kgRunning (kdf_run g es)) \<or> j \<in> fst ` set (kgSettled (kdf_run g es))"
  by (rule kdf_served [OF assms])

theorem waiting_job_served_witness:
  "1 \<in> set (kgRunning (kdf_run busyGuard [JobSettles 0 (Some ()), JobReleases 0]))
     \<or> 1 \<in> fst ` set (kgSettled (kdf_run busyGuard [JobSettles 0 (Some ()), JobReleases 0]))"
  by (rule waiting_job_served [OF busy_reachable busy_waits(1)]) (simp only: busy_waits(2,3) zero_less_one)

text \<open>
  C28. Failures that come in the order of their times are throttled exactly: the \<open>n\<close>th failure of a key within a window is answered with the base delay
  doubled for every failure past the threshold, up to the maximum, and nothing below the threshold; other
  keys, pruning and eviction make no difference while at most \<open>maxBuckets\<close> keys are in use.\<close>

theorem failures_delayed:
  assumes "createAuthRateLimiter opts = Some l" and "sorted (map snd fs)"
    and "\<forall>u\<in>set (map snd fs). 0 \<le> u \<and> u \<le> t" and "0 \<le> t"
    and "card (insert (normalizeKey k) ((\<lambda>(k, t). normalizeKey k) ` set fs)) \<le> nat (maxBuckets l)"
    and "\<forall>u\<in>set (failuresOf (normalizeKey k) fs). t - u < windowMs l"
    and "n = Suc (length (failuresOf (normalizeKey k) fs))"
  shows "snd (recordFailure (runFailures l fs) k t) = \<lparr>frFailures = n, frRetryAfterMs =
    (if int n < threshold l then 0 else min (maxDelayMs l) (baseRetryMs l * 2 ^ (n - nat (threshold l))))\<rparr>"
proof -
  have l: "limiter_ok l" "buckets l = []" using createAuthRateLimiter_ok [OF assms(1)] by blast+
  have "delayFor l n = (if int n < threshold l then 0 else min (maxDelayMs l) (baseRetryMs l * 2 ^ (n - nat (threshold l))))"
    using l(1) by (auto simp: delayFor_def limiter_ok_def nat_diff_distrib' max_def)
  with recordFailure_window(1) [OF l assms(2-6)] show ?thesis by (simp add: assms(7))
qed

theorem failures_delayed_witness:
  "snd (recordFailure (runFailures oneLimiter [(js ''a'', 0), (js ''a'', 10), (js ''b'', 15), (js ''a'', 20), (js ''a'', 30)]) (js ''a'') 40)
   = \<lparr>frFailures = 5, frRetryAfterMs = 1000\<rparr>"
proof -
  let ?fs = "[(js ''a'', 0), (js ''a'', 10), (js ''b'', 15), (js ''a'', 20), (js ''a'', 30)]"
  have own: "failuresOf (normalizeKey (js ''a'')) ?fs = [0, 10, 20, 30]"
    by (simp add: failuresOf_def normalizeKey_def)
  have keys: "insert (normalizeKey (js ''a'')) ((\<lambda>(k, t). normalizeKey k) ` set ?fs) = {js ''a'', js ''b''}"
    by (auto simp: normalizeKey_def)
  have "snd (recordFailure (runFailures oneLimiter ?fs) (js ''a'') 40) = \<lparr>frFailures = 5, frRetryAfterMs =
      (if int 5 < threshold oneLimiter then 0
       else min (maxDelayMs oneLimiter) (baseRetryMs oneLimiter * 2 ^ (5 - nat (threshold oneLimiter))))\<rparr>"
    by (rule failures_delayed [OF demo_created(1)]; (unfold own keys)?) (simp_all add: oneLimiter_def card_insert_if)
  then show ?thesis by (simp add: oneLimiter_def)
qed

section \<open>The encrypted diary\<close>

text \<open>
  C29. A lock takes everything away: once a lock of a session has been answered, whatever happened before and
  between, every capability of the session was issued by a request made after the lock, and every body operation
  of it was begun after the lock. A key derivation that was under way when the lock came can no longer publish.
\<close>

theorem lock_fences_session:
  assumes "diary_reached env s" and "isSessionNumber sid"
    and "diary_run env es (fst (diary_step env (Lock sid) s)) = (t, outs)" and "DLocked (daNextTask s) \<in> set outs"
  shows "(\<forall>(token, c)\<in>set (daCapabilities t). cpSessionId c = sid \<longrightarrow> daNextTask s < cpRequest c)
    \<and> (\<forall>i l. map_of (daTasks t) i = Some (BodyOperation l) \<longrightarrow> blSessionId l = sid \<longrightarrow> daNextTask s < i)"
proof -
  have "fenced sid (daNextTask s) t" by (rule answered_lock_fences [OF settled_reached [OF assms(1)] assms(2-4)])
  then show ?thesis by (auto simp: fenced_def owners_def leases_def)
qed

theorem lock_fences_session_witness:
  "\<exists>t :: diary_access. (\<forall>(token, c)\<in>set (daCapabilities t). cpSessionId c = 1 \<longrightarrow> 2 < cpRequest c)
    \<and> (\<forall>i l. map_of (daTasks t) i = Some (BodyOperation l) \<longrightarrow> blSessionId l = 1 \<longrightarrow> 2 < i)"
proof -
  obtain t where t: "diary_run diaryEnv [BodyEnd 1, Continue 2, Continue 2] (fst (diary_step diaryEnv (Lock 1) leasedDiary))
      = (t, [DNothing, DNothing, DLocked 2])" using locked_run by blast
  have n: "daNextTask leasedDiary = 2" by (simp add: leasedDiary_def)
  have "(\<forall>(token, c)\<in>set (daCapabilities t). cpSessionId c = 1 \<longrightarrow> daNextTask leasedDiary < cpRequest c)
    \<and> (\<forall>i l. map_of (daTasks t) i = Some (BodyOperation l) \<longrightarrow> blSessionId l = 1 \<longrightarrow> daNextTask leasedDiary < i)"
    by (rule lock_fences_session [OF diary_states(3) _ t]) (simp_all add: n isSessionNumber_def safeInt_def MAX_SAFE_INTEGER_def)
  then show ?thesis unfolding n by blast
qed

text \<open>
  C30. A lock is answered: after any further events, once no body operation of the session is left, the lock has
  been answered or is answered by the next two turns of its task. So a lock waits for the body operations that
  are under way, and for nothing else.
\<close>

theorem lock_answered:
  assumes "diary_reached env s" and "isSessionNumber sid"
    and "diary_run env es (fst (diary_step env (Lock sid) s)) = (t, outs)"
    and "\<forall>i l. map_of (daTasks t) i = Some (BodyOperation l) \<longrightarrow> blSessionId l \<noteq> sid"
  shows "DLocked (daNextTask s) \<in> set (outs @ snd (diary_run env [Continue (daNextTask s), Continue (daNextTask s)] t))"
  by (rule pending_lock_answered [OF settled_reached [OF assms(1)] assms(2,3)]) (use assms(4) in \<open>auto simp: leases_def\<close>)

theorem lock_answered_witness:
  "\<exists>t. DLocked 2 \<in> set ([DNothing] @ snd (diary_run diaryEnv [Continue 2, Continue 2] t))"
proof -
  obtain t where t: "diary_run diaryEnv [BodyEnd 1] (fst (diary_step diaryEnv (Lock 1) leasedDiary)) = (t, [DNothing])"
    "daTasks t = [(2, Quiescing 1 0)]" using released_run by blast
  have n: "daNextTask leasedDiary = 2" by (simp add: leasedDiary_def)
  have "DLocked (daNextTask leasedDiary) \<in> set ([DNothing] @ snd (diary_run diaryEnv
      [Continue (daNextTask leasedDiary), Continue (daNextTask leasedDiary)] t))"
    by (rule lock_answered [OF diary_states(3) _ t(1)]) (simp_all add: t(2) isSessionNumber_def safeInt_def MAX_SAFE_INTEGER_def)
  then show ?thesis unfolding n by blast
qed

text \<open>
  C31. A lock closes every document of the diary: once a lock of a session has been answered, a request of the session
  passes the gate before a managed body only with a live, unexpired capability of its own that was asked for after
  the lock, while its session is still valid. What was unlocked before is shut out of every route behind the gate.
\<close>

theorem lock_closes_bodies:
  assumes "diary_reached env s" and "isSessionNumber sid"
    and "diary_run env es (fst (diary_step env (Lock sid) s)) = (t, outs)" and "DLocked (daNextTask s) \<in> set outs"
    and "requireDiaryBodyAccess env (Some sid) h path (Some t) = (None, rt)" and "isManagedDiaryBodyPath path"
  shows "\<exists>token c. h = Some token \<and> map_of (daCapabilities t) token = Some c \<and> cpSessionId c = sid
    \<and> daNextTask s < cpRequest c \<and> aeNow (deAuth env) (daClock t) < cpExpiresAt c \<and> dsValid (deResolve env (daResolves t) sid)"
proof -
  obtain token c where c: "h = Some token" "grants env t sid token c" using gate_grants [OF assms(5,6)] by auto
  then show ?thesis using grant_after_lock [OF settled_reached [OF assms(1)] assms(2-4) c(2)] by (auto simp: grants_def)
qed

theorem lock_closes_bodies_witness:
  "\<exists>token c. Some laterToken = Some token \<and> map_of (daCapabilities unlockedDiary) token = Some c \<and> cpSessionId c = 1
    \<and> 1 < cpRequest c \<and> aeNow authEnv (daClock unlockedDiary) < cpExpiresAt c
    \<and> dsValid (deResolve diaryEnv (daResolves unlockedDiary) 1)"
proof -
  obtain rt where g: "requireDiaryBodyAccess diaryEnv (Some 1) (Some laterToken) (js ''diary/2024-02-29.md'') (Some unlockedDiary) = (None, rt)"
    using diary_body_gate by blast
  have n: "daNextTask setUpDiary = 1" by (simp add: setUpDiary_def)
  show ?thesis using lock_closes_bodies [OF diary_states(2) _ unlock_after_lock _ g diary_managed]
    unfolding n by (simp add: isSessionNumber_def safeInt_def MAX_SAFE_INTEGER_def)
qed





text \<open>
  C34. The password of the setup opens the diary: a setup that has stored a configuration has sealed the key it
  drew so that in every later state, whatever requests follow, the configuration is the one it stored, is
  accepted, and opens to this key under the setup's password.
\<close>

theorem setup_password_opens:
  assumes "cipher_ok env" and "diary_reached env s" and "draws_fresh env (daDraws s)" and "daConfig s = None"
    and "map_of (daTasks s) i = Some (DerivingKey x (SetupRequest p salt dek))"
    and "t = fst (diary_step env (KdfSettled i True) s)" and "daConfig t = Some row" and "isFiniteInteger (drCreatedAt row)"
  shows "\<exists>c. loadConfig env (fst (diary_run env es t)) = Inr (Some c) \<and> unwrapDiaryDek env (JStr p) c = Inr (daBuffers s ! dek)"
proof (rule stored_setup_opens [OF assms(1,8) assms(5) _ assms(4,6,7)])
  have "crypto_ok (deAuth env)" using assms(1) by (simp add: cipher_ok_def)
  then obtain own where "keys_at env own {} s" using keys_reached [OF assms(2) _ assms(3)] by (auto simp: keys_ok_def)
  then show "dek < length (daBuffers s)" using keys_task(3) [OF _ assms(5)] by simp
qed

theorem setup_password_opens_witness:
  "\<exists>c. loadConfig diaryEnv setUpDiary = Inr (Some c) \<and> unwrapDiaryDek diaryEnv (JStr diaryPassword) c = Inr (replicate 32 1)"
proof -
  have r: "fst (diary_run diaryEnv [Continue 0, Continue 0] (fst (diary_step diaryEnv (KdfSettled 0 True) drawnDiary))) = setUpDiary"
    using setup_run by (simp add: Let_def split_def del: diary_step.simps)
  show ?thesis
    using setup_password_opens [OF diaryEnv_ok diary_states(1) _ drawn_facts(1,4) refl drawn_facts(5,6), of "[Continue 0, Continue 0]"]
    unfolding r drawn_facts(2,3) by (simp add: diary_draws del: replicate.simps)
qed

text \<open>
  C35. A saved body is read back: a well-formed text of at most 15 MiB less 16 KiB, in a document whose identifier
  and path are of ordinary length, is sealed, and what is sealed opens to the same text under the same key and
  context, if JSON.parse reads back what JSON.stringify wrote.
\<close>

theorem diary_body_round_trip:
  assumes "body_ok env nonce raw c" and "length key = 32" and "utf8ByteLength raw + 16384 \<le> 15 * 1024 * 1024"
    and "length (bcDocumentId c) + length (bcLogicalPath c) \<le> 1000" and "parses_back env (sealedEnvelope env nonce raw c key)"
  shows "\<exists>bytes. encryptDiaryBody env nonce raw c key = Inr bytes
    \<and> decryptDiaryBody env bytes c key = Inr \<lparr>brRaw = raw, brEncrypted = True, brBytes = bytes\<rparr>"
proof -
  obtain bytes where e: "encryptDiaryBody env nonce raw c key = Inr bytes"
    using encrypt_succeeds [OF assms(1,2)] assms(3) by (auto simp: DIARY_BODY_MAX_PLAINTEXT_BYTES_def)
  have "length bytes \<le> DIARY_BODY_MAX_ENVELOPE_BYTES"
    using envelope_size(2) [OF assms(1) e] assms(3,4) by (simp add: DIARY_BODY_MAX_ENVELOPE_BYTES_def)
  then show ?thesis using e diary_body_reads_back [OF assms(1) e _ assms(5)] by blast
qed

theorem diary_body_round_trip_witness:
  "\<exists>bytes. encryptDiaryBody readingEnv (replicate 12 2) diaryText diaryContext (replicate 32 1) = Inr bytes
    \<and> decryptDiaryBody readingEnv bytes diaryContext (replicate 32 1) = Inr \<lparr>brRaw = diaryText, brEncrypted = True, brBytes = bytes\<rparr>"
  by (rule diary_body_round_trip [OF plain_body(2) _ _ _ reading_parses])
    (simp_all add: diaryText_plain diaryContext_def js_def del: replicate.simps)

text \<open>
  C36. The largest bodies are sealed and then cannot be opened: a text of 15 MiB to 16 MiB passes the limit on
  plain bodies, but its envelope is over the limit on envelopes, so that what has been saved is refused whenever
  it is read.
\<close>

theorem oversized_body_unreadable:
  assumes "body_ok env nonce raw c" and "length key = 32"
    and "15 * 1024 * 1024 \<le> utf8ByteLength raw" and "utf8ByteLength raw \<le> 16 * 1024 * 1024"
  shows "\<exists>bytes. encryptDiaryBody env nonce raw c key = Inr bytes \<and> decryptDiaryBody env bytes c key = Inl InvalidEnvelope"
proof -
  obtain bytes where e: "encryptDiaryBody env nonce raw c key = Inr bytes"
    using encrypt_succeeds [OF assms(1,2)] assms(4) by (auto simp: DIARY_BODY_MAX_PLAINTEXT_BYTES_def)
  have "DIARY_BODY_MAX_ENVELOPE_BYTES < length bytes"
    using envelope_size(1) [OF assms(1) e] assms(3) by (simp add: DIARY_BODY_MAX_ENVELOPE_BYTES_def)
  then show ?thesis using e assms(2) by (auto simp: decryptDiaryBody_def)
qed

theorem oversized_body_unreadable_witness:
  "\<exists>bytes. encryptDiaryBody diaryEnv (replicate 12 2) longText diaryContext (replicate 32 1) = Inr bytes
    \<and> decryptDiaryBody diaryEnv bytes diaryContext (replicate 32 1) = Inl InvalidEnvelope"
  by (rule oversized_body_unreadable [OF plain_body(1)]) (simp_all add: longText_plain del: replicate.simps)

section \<open>Data at the boundaries\<close>

text \<open>
  C37. Whatever requests were served, every stored row is one the readers accept: no later read of the
  settings, an account, a category or a transaction can fail on what the ledger itself has written.\<close>

theorem stored_rows_readable:
  assumes "lower_ok env"
  shows "wf_db env (stDb (after env qs))"
  by (rule good_wf [OF after_good(1) [OF assms]])

theorem stored_rows_readable_witness: "wf_db demoEnv (stDb (after demoEnv demoRequests))"
  by (rule stored_rows_readable [OF demo_lower_ok])

text \<open>
  A transaction written and read is the same transaction: the reader inverts the parameters of the
  \<open>INSERT\<close>, and accepts nothing but rows that are written that way.\<close>

theorem transaction_row_round_trip:
  assumes "fullTransactionRow r"
  shows "ledgerTransactionFromRow env r = Inr t \<longleftrightarrow> valid_tx env t \<and> r = transactionParams t"
  by (rule ledgerTransactionFromRow_iff [OF assms])

theorem transaction_row_round_trip_witness:
  "ledgerTransactionFromRow demoEnv (transactionParams bookIncome) = Inr bookIncome"
  using transaction_row_round_trip [OF transactionParams_full, of demoEnv bookIncome bookIncome] book_valid(4) by simp

text \<open>
  The parser of a create request is a filter: what it returns has safe, positive amounts, non-empty
  references and an instant the calendar knows, whatever JSON was sent.\<close>

theorem parsed_create_valid:
  assumes "parseTransactionCreateRequest env v = Inr q"
  shows "createOk env q"
  by (rule parseTransactionCreateRequest_ok [OF assms])

theorem parsed_create_valid_witness:
  "\<exists>q. parseTransactionCreateRequest demoEnv (JObj [(js ''type'', textValue ''income''), (js ''amountMinor'', JInt 1000),
       (js ''accountId'', textValue ''a1''), (js ''categoryId'', textValue ''c1''), (js ''occurredAt'', JInt 1690000000000)]) = Inr q
     \<and> createOk demoEnv q"
proof -
  obtain q where "parseTransactionCreateRequest demoEnv (JObj [(js ''type'', textValue ''income''), (js ''amountMinor'', JInt 1000),
       (js ''accountId'', textValue ''a1''), (js ''categoryId'', textValue ''c1''), (js ''occurredAt'', JInt 1690000000000)]) = Inr q"
    using book_request by blast
  with parsed_create_valid [OF this] show ?thesis by blast
qed

text \<open>
  The fingerprint of a request does not depend on the order of its keys: two objects with the same
  properties have the same stable text, or fail alike.\<close>

theorem fingerprint_ignores_key_order:
  assumes "mset r = mset r'" "distinct (map fst r)"
  shows "fingerprintLedgerMutation env (JObj r) = fingerprintLedgerMutation env (JObj r')"
  using stableSerialize_key_order [OF assms] by (simp add: fingerprintLedgerMutation_def)

theorem fingerprint_ignores_key_order_witness:
  "fingerprintLedgerMutation demoEnv (JObj [(js ''b'', JInt 1), (js ''a'', JNull)])
   = fingerprintLedgerMutation demoEnv (JObj [(js ''a'', JNull), (js ''b'', JInt 1)])"
  by (rule fingerprint_ignores_key_order) simp_all

text \<open>
  C38. A derived balance returns: on valid transactions, in any order, it fails only if the opening balance,
  the result or a partial sum leaves the safe integers, and otherwise returns the exact balance.\<close>

theorem derived_balance_returns:
  assumes "\<forall>t\<in>set ts. safeInt (txAmountMinor t) \<and> validBody (txGroupId t) (txAmountMinor t) (txBody t)"
    and "refId a \<noteq> []" and "safeInt (refOpeningBalanceMinor a)" and "safeInt (exactBalance a ts)"
    and "\<forall>k\<le>length ts. safeInt (\<Sum>t\<leftarrow>take k ts. naturalEffect t (refId a) (refNature a))"
    and "mset ts = mset us"
  shows "deriveCurrentBalance a ts = Inr (exactBalance a us)"
  using deriveCurrentBalance_total [OF assms(1-5)] exactBalance_mset [OF assms(6), of a] by simp

theorem derived_balance_returns_witness:
  "deriveCurrentBalance (balanceAccount bookAccount) [bookIncome] = Inr 1500"
proof -
  have e: "naturalEffect bookIncome (js ''a1'') Asset = 1000" by (simp add: naturalEffect_def book_entry)
  have sel: "refId (balanceAccount bookAccount) = js ''a1''" "refNature (balanceAccount bookAccount) = Asset"
    "refOpeningBalanceMinor (balanceAccount bookAccount) = 500" by (simp_all add: balanceAccount_def book_terms)
  have x: "exactBalance (balanceAccount bookAccount) [bookIncome] = 1500"
    unfolding exactBalance_def sel by (simp add: e)
  have "deriveCurrentBalance (balanceAccount bookAccount) [bookIncome] = Inr (exactBalance (balanceAccount bookAccount) [bookIncome])"
    by (rule derived_balance_returns, unfold sel x) (auto simp: e book_entry safeInt_def MAX_SAFE_INTEGER_def le_Suc_eq)
  then show ?thesis by (simp add: x)
qed

section \<open>Money and currencies\<close>

text \<open>
  C39. The checked sum of minor units returns exactly the mathematical sum, and it returns it
  if and only if every summand and every partial sum is a safe integer, although the additions
  are made on doubles that round.
\<close>

theorem checked_sum_exact:
  "checkedSumMinor vs = Inr s \<longleftrightarrow>
     s = sum_list vs \<and> (\<forall>v\<in>set vs. safeInt v) \<and> (\<forall>k\<le>length vs. safeInt (sum_list (take k vs)))"
  by (rule checkedSumMinor_iff)

theorem checked_sum_exact_witness:
  "checkedSumMinor [5, - 7, 3] = Inr 1"
proof -
  have "\<forall>k\<le>3. safeInt (sum_list (take k [5, - 7, 3]))"
    by (auto simp: safeInt_def MAX_SAFE_INTEGER_def le_Suc_eq numeral_3_eq_3)
  then show ?thesis using checked_sum_exact [of "[5, - 7, 3]" 1] by (simp add: safeInt_def MAX_SAFE_INTEGER_def)
qed

text \<open>
  C40. Every safe amount of a supported currency can be written as a decimal text, and parsing
  that text gives the amount back.
\<close>

theorem amount_round_trip:
  assumes "currencyExponentFor c = Inr e" "safeInt v"
  shows "\<exists>s. formatMinorToDecimal v c = Inr s \<and> parseDecimalToMinor (JStr s) c = Inr v"
  using formatMinorToDecimal_total [OF assms] parse_format by blast

theorem amount_round_trip_witness:
  "\<exists>s. formatMinorToDecimal (- 1205) (JStr (js ''EUR'')) = Inr s
     \<and> parseDecimalToMinor (JStr s) (JStr (js ''EUR'')) = Inr (- 1205)"
proof (rule amount_round_trip)
  show "currencyExponentFor (JStr (js ''EUR'')) = Inr 2" by simp
  show "safeInt (- 1205)" by (simp add: safeInt_def MAX_SAFE_INTEGER_def)
qed

end
